(* ===== verification/Prelude.thy ===== *)
theory Prelude
  imports Main "HOL-Library.Word" "HOL-Library.Sublist" "HOL-Library.Multiset"
begin

text \<open>
  Shared vocabulary of the development: the parts of the Rust standard library
  the sources use (string slicing, splitting, integer parsing, the three-valued
  \<open>Ordering\<close>), a result type for fallible code, association lists that keep
  the insertion order, and the generic lemmas the components use.

  Rust strings are UTF-8 byte sequences and HOL strings are sequences of bytes,
  so every operation below that looks for an ASCII pattern (a slash, a prefix,
  a digit) is the byte-level operation the standard library performs.  The case
  conversions are the ASCII ones.
\<close>

named_theorems str_simps \<open>unfolding of the string operations\<close>
named_theorems res_simps \<open>case analysis of results\<close>


section \<open>Results\<close>

text \<open>\<open>Result<T, E>\<close> is \<open>'e + 'a\<close>: \<open>Inl\<close> is \<open>Err\<close>, \<open>Inr\<close> is \<open>Ok\<close>.\<close>

type_synonym ('e, 'a) result = "'e + 'a"

fun is_ok :: "('e, 'a) result \<Rightarrow> bool" where
  "is_ok (Inr _) = True"
| "is_ok (Inl _) = False"

fun ok :: "('e, 'a) result \<Rightarrow> 'a option" where
  "ok (Inr x) = Some x"
| "ok (Inl _) = None"

fun and_then :: "('e, 'a) result \<Rightarrow> ('a \<Rightarrow> ('e, 'b) result) \<Rightarrow> ('e, 'b) result" where
  "and_then (Inl e) f = Inl e"
| "and_then (Inr x) f = f x"

fun ok_or :: "'e \<Rightarrow> 'a option \<Rightarrow> ('e, 'a) result" where
  "ok_or e None = Inl e"
| "ok_or e (Some x) = Inr x"

lemma and_then_Inr_iff [res_simps]:
  "and_then r f = Inr y \<longleftrightarrow> (\<exists>x. r = Inr x \<and> f x = Inr y)"
  by (cases r) auto

lemma and_then_Inl_iff [res_simps]:
  "and_then r f = Inl e \<longleftrightarrow> r = Inl e \<or> (\<exists>x. r = Inr x \<and> f x = Inl e)"
  by (cases r) auto

lemma ok_or_Inr_iff [res_simps]: "ok_or e m = Inr x \<longleftrightarrow> m = Some x"
  by (cases m) auto

lemma ok_or_Inl_iff [res_simps]: "ok_or e m = Inl e' \<longleftrightarrow> m = None \<and> e' = e"
  by (cases m) auto

lemma is_ok_iff [res_simps]: "is_ok r \<longleftrightarrow> (\<exists>x. r = Inr x)"
  by (cases r) auto


section \<open>Three-valued comparison\<close>

datatype ordering = Less | Equal | Greater

definition cmp :: "'a::linorder \<Rightarrow> 'a \<Rightarrow> ordering" where
  "cmp a b = (if a < b then Less else if a = b then Equal else Greater)"

fun then_with :: "ordering \<Rightarrow> ordering \<Rightarrow> ordering" where
  "then_with Equal o2 = o2"
| "then_with o1 _ = o1"

lemma cmp_simps [simp]:
  "cmp a b = Greater \<longleftrightarrow> b < a"
  "cmp a b = Less \<longleftrightarrow> a < b"
  "cmp a b = Equal \<longleftrightarrow> a = b"
  by (auto simp: cmp_def)

lemma then_with_simps [simp]:
  "then_with o1 o2 = Greater \<longleftrightarrow> o1 = Greater \<or> o1 = Equal \<and> o2 = Greater"
  "then_with o1 o2 = Less \<longleftrightarrow> o1 = Less \<or> o1 = Equal \<and> o2 = Less"
  "then_with o1 o2 = Equal \<longleftrightarrow> o1 = Equal \<and> o2 = Equal"
  by (cases o1; simp)+


section \<open>Strings\<close>

definition starts_with :: "string \<Rightarrow> string \<Rightarrow> bool" where
  "starts_with s p \<longleftrightarrow> take (length p) s = p"

definition ends_with :: "string \<Rightarrow> string \<Rightarrow> bool" where
  "ends_with s p \<longleftrightarrow> length p \<le> length s \<and> drop (length s - length p) s = p"

fun contains :: "string \<Rightarrow> string \<Rightarrow> bool" where
  "contains [] p \<longleftrightarrow> p = []"
| "contains (c # cs) p \<longleftrightarrow> starts_with (c # cs) p \<or> contains cs p"

definition strip_prefix :: "string \<Rightarrow> string \<Rightarrow> string option" where
  "strip_prefix s p = (if starts_with s p then Some (drop (length p) s) else None)"

definition strip_suffix :: "string \<Rightarrow> string \<Rightarrow> string option" where
  "strip_suffix s p = (if ends_with s p then Some (take (length s - length p) s) else None)"

text \<open>\<open>str::split_once\<close>, \<open>str::split\<close> and \<open>slice::join\<close> on one ASCII character.\<close>

fun split_once :: "char \<Rightarrow> string \<Rightarrow> (string \<times> string) option" where
  "split_once c [] = None"
| "split_once c (x # xs) =
     (if x = c then Some ([], xs)
      else (case split_once c xs of None \<Rightarrow> None | Some (a, b) \<Rightarrow> Some (x # a, b)))"

fun split_on :: "char \<Rightarrow> string \<Rightarrow> string list" where
  "split_on c [] = [[]]"
| "split_on c (x # xs) =
     (if x = c then [] # split_on c xs
      else (case split_on c xs of [] \<Rightarrow> [[x]] | p # ps \<Rightarrow> (x # p) # ps))"

fun join_on :: "char \<Rightarrow> string list \<Rightarrow> string" where
  "join_on c [] = []"
| "join_on c [p] = p"
| "join_on c (p # q # ps) = p @ c # join_on c (q # ps)"

definition trim_start_matches :: "char \<Rightarrow> string \<Rightarrow> string" where
  "trim_start_matches c s = dropWhile (\<lambda>x. x = c) s"

definition trim_end_matches :: "char \<Rightarrow> string \<Rightarrow> string" where
  "trim_end_matches c s = rev (dropWhile (\<lambda>x. x = c) (rev s))"

definition trim_matches :: "char \<Rightarrow> string \<Rightarrow> string" where
  "trim_matches c s = trim_end_matches c (trim_start_matches c s)"

definition to_ascii_lower :: "char \<Rightarrow> char" where
  "to_ascii_lower c =
     (if 65 \<le> (of_char c :: nat) \<and> (of_char c :: nat) \<le> 90
      then char_of ((of_char c :: nat) + 32) else c)"

definition to_ascii_upper :: "char \<Rightarrow> char" where
  "to_ascii_upper c =
     (if 97 \<le> (of_char c :: nat) \<and> (of_char c :: nat) \<le> 122
      then char_of ((of_char c :: nat) - 32) else c)"

definition to_lowercase :: "string \<Rightarrow> string" where
  "to_lowercase s = map to_ascii_lower s"

definition to_uppercase :: "string \<Rightarrow> string" where
  "to_uppercase s = map to_ascii_upper s"

definition is_ascii_digit :: "char \<Rightarrow> bool" where
  "is_ascii_digit c \<longleftrightarrow> 48 \<le> (of_char c :: nat) \<and> (of_char c :: nat) \<le> 57"

definition is_ascii_alphabetic :: "char \<Rightarrow> bool" where
  "is_ascii_alphabetic c \<longleftrightarrow>
     65 \<le> (of_char c :: nat) \<and> (of_char c :: nat) \<le> 90 \<or>
     97 \<le> (of_char c :: nat) \<and> (of_char c :: nat) \<le> 122"

definition is_ascii_alphanumeric :: "char \<Rightarrow> bool" where
  "is_ascii_alphanumeric c \<longleftrightarrow> is_ascii_digit c \<or> is_ascii_alphabetic c"

lemma starts_with_append [simp]: "starts_with (p @ s) p"
  by (simp add: starts_with_def)

lemma starts_with_prefix: "starts_with s p \<longleftrightarrow> prefix p s"
  unfolding starts_with_def prefix_def
  by (metis append_eq_conv_conj append_take_drop_id)

lemma starts_with_Nil [simp]: "starts_with s []"
  by (simp add: starts_with_def)

lemma starts_with_code [code]:
  "starts_with s [] \<longleftrightarrow> True"
  "starts_with [] (p # ps) \<longleftrightarrow> False"
  "starts_with (c # cs) (p # ps) \<longleftrightarrow> c = p \<and> starts_with cs ps"
  by (auto simp: starts_with_def)

lemma ends_with_suffix: "ends_with s p \<longleftrightarrow> suffix p s"
proof
  assume "ends_with s p"
  then show "suffix p s" unfolding ends_with_def suffix_def by (metis append_take_drop_id)
next
  assume "suffix p s"
  then show "ends_with s p" unfolding ends_with_def suffix_def by auto
qed

lemma contains_append: "contains s p \<longleftrightarrow> (\<exists>a b. s = a @ p @ b)"
proof -
  have "contains s p \<longleftrightarrow> sublist p s" for s
    by (induction s) (auto simp: starts_with_prefix sublist_Cons_right)
  then show ?thesis by (simp add: sublist_def)
qed

lemma split_once_Some:
  "split_once c s = Some (a, b) \<longleftrightarrow> s = a @ c # b \<and> c \<notin> set a"
proof (induction s arbitrary: a)
  case Nil
  then show ?case by simp
next
  case (Cons x xs)
  show ?case
  proof (cases a)
    case Nil
    then show ?thesis by (auto split: option.splits)
  next
    case (Cons y ys)
    then show ?thesis using Cons.IH [of ys] by (auto split: option.splits)
  qed
qed

lemma split_once_None: "split_once c s = None \<longleftrightarrow> c \<notin> set s"
  by (induction s) (auto split: option.splits)

lemma split_once_append [simp]:
  "c \<notin> set a \<Longrightarrow> split_once c (a @ c # b) = Some (a, b)"
  by (simp add: split_once_Some)

lemma split_on_not_Nil [simp]: "split_on c s \<noteq> []"
  by (cases s) (auto split: list.splits)

lemma split_on_pieces: "p \<in> set (split_on c s) \<Longrightarrow> c \<notin> set p"
proof (induction s arbitrary: p)
  case Nil then show ?case by simp
next
  case (Cons x xs)
  then show ?case by (cases "split_on c xs") (auto split: if_splits)
qed

lemma join_on_Cons_ne [simp]: "ps \<noteq> [] \<Longrightarrow> join_on c (p # ps) = p @ c # join_on c ps"
  by (cases ps) auto

lemma join_split [simp]: "join_on c (split_on c s) = s"
proof (induction s)
  case Nil then show ?case by simp
next
  case (Cons x xs)
  then show ?case by (cases "split_on c xs"; cases "tl (split_on c xs)") auto
qed

lemma split_on_free [simp]: "c \<notin> set s \<Longrightarrow> split_on c s = [s]"
  by (induction s) auto

lemma split_on_append: "c \<notin> set a \<Longrightarrow> split_on c (a @ c # b) = a # split_on c b"
  by (induction a) (auto split: list.splits)

lemma split_join:
  "ps \<noteq> [] \<Longrightarrow> \<forall>p\<in>set ps. c \<notin> set p \<Longrightarrow> split_on c (join_on c ps) = ps"
proof (induction ps)
  case Nil then show ?case by simp
next
  case (Cons p ps)
  then show ?case by (cases ps) (auto simp: split_on_append)
qed

lemma join_on_snoc: "cs \<noteq> [] \<Longrightarrow> join_on c (cs @ [n]) = join_on c cs @ c # n"
  by (induction cs rule: join_on.induct) auto

lemma join_on_eq_Nil: "join_on c cs = [] \<longleftrightarrow> cs = [] \<or> cs = [[]]"
  by (induction cs rule: join_on.induct) auto


section \<open>Integers in text\<close>

text \<open>\<open>char::to_digit\<close> for a radix of at most sixteen, and \<open>uN::from_str_radix\<close>:
  an empty string, a lone sign, a non-digit and an overflow are errors, and a
  leading plus sign is accepted.\<close>

definition to_digit :: "nat \<Rightarrow> char \<Rightarrow> nat option" where
  "to_digit r c =
     (let n = (of_char c :: nat);
          d = (if 48 \<le> n \<and> n \<le> 57 then n - 48
               else if 97 \<le> n \<and> n \<le> 102 then n - 87
               else if 65 \<le> n \<and> n \<le> 70 then n - 55 else 99)
      in if d < r \<and> d < 99 then Some d else None)"

fun parse_digits :: "nat \<Rightarrow> nat \<Rightarrow> string \<Rightarrow> nat option" where
  "parse_digits r acc [] = Some acc"
| "parse_digits r acc (c # cs) =
     (case to_digit r c of None \<Rightarrow> None | Some d \<Rightarrow> parse_digits r (acc * r + d) cs)"

definition parse_uint :: "nat \<Rightarrow> nat \<Rightarrow> string \<Rightarrow> nat option" where
  "parse_uint bits r s =
     (let digits = (case s of CHR ''+'' # rest \<Rightarrow> rest | _ \<Rightarrow> s)
      in if digits = [] then None
         else (case parse_digits r 0 digits of
                 None \<Rightarrow> None
               | Some n \<Rightarrow> if n < 2 ^ bits then Some n else None))"

text \<open>The display of an unsigned number in a radix of at most sixteen.\<close>

definition digit_char :: "nat \<Rightarrow> char" where
  "digit_char d = char_of (if d < 10 then d + 48 else d + 87)"

function show_radix :: "nat \<Rightarrow> nat \<Rightarrow> string" where
  "show_radix r n =
     (if n < r \<or> r < 2 then [digit_char n] else show_radix r (n div r) @ [digit_char (n mod r)])"
  by pat_completeness auto
termination by (relation "measure snd") auto

declare show_radix.simps [simp del]

lemma to_digit_digit_char [simp]:
  assumes "d < r" "r \<le> 16"
  shows "to_digit r (digit_char d) = Some d"
proof -
  have "d < 256 - 87" using assms by simp
  then show ?thesis using assms by (auto simp: to_digit_def digit_char_def Let_def)
qed

lemma parse_digits_append:
  "parse_digits r acc (xs @ ys) =
     (case parse_digits r acc xs of None \<Rightarrow> None | Some a \<Rightarrow> parse_digits r a ys)"
  by (induction xs arbitrary: acc) (auto split: option.splits)

lemma parse_digits_show:
  assumes "2 \<le> r" "r \<le> 16"
  shows "parse_digits r 0 (show_radix r n) = Some n"
  using assms
proof (induction r n rule: show_radix.induct)
  case (1 r n)
  then show ?case
    by (subst show_radix.simps) (auto simp: parse_digits_append)
qed

lemma digit_char_range:
  "d < 16 \<Longrightarrow> digit_char d \<in> set ''0123456789abcdef''"
proof -
  assume "d < 16"
  then have "d \<in> set [0..<16]" by simp
  moreover have "\<forall>e\<in>set [0..<16]. digit_char e \<in> set ''0123456789abcdef''"
    by code_simp
  ultimately show ?thesis by blast
qed

lemma show_radix_chars:
  assumes "2 \<le> r" "r \<le> 16"
  shows "set (show_radix r n) \<subseteq> set ''0123456789abcdef''"
  using assms
proof (induction r n rule: show_radix.induct)
  case (1 r n)
  then have "n mod r < 16" by (meson mod_less_divisor le_trans less_le_trans zero_less_numeral)
  with 1 show ?case
    by (subst show_radix.simps) (auto dest!: digit_char_range [unfolded subset_iff, rule_format])
qed

lemma show_radix_not_Nil [simp]: "show_radix r n \<noteq> []"
  by (subst show_radix.simps) simp

lemma parse_uint_show:
  assumes "2 \<le> r" "r \<le> 16" "n < 2 ^ bits"
  shows "parse_uint bits r (show_radix r n) = Some n"
proof -
  obtain c cs where s: "show_radix r n = c # cs"
    by (cases "show_radix r n") auto
  with show_radix_chars [OF assms(1,2), of n] have "c \<noteq> CHR ''+''" by auto
  then have "(case show_radix r n of CHR ''+'' # rest \<Rightarrow> rest | _ \<Rightarrow> show_radix r n) = show_radix r n"
    unfolding s by (auto split: char.splits bool.splits)
  with assms show ?thesis
    by (simp add: parse_uint_def parse_digits_show)
qed

lemma parse_uint_bound: "parse_uint bits r s = Some n \<Longrightarrow> n < 2 ^ bits"
  by (auto simp: parse_uint_def Let_def split: if_splits option.splits)


section \<open>Sorting and grouping\<close>

text \<open>\<open>slice::sort_by\<close>: a stable sort by a three-valued comparison.\<close>

fun insert_by :: "('a \<Rightarrow> 'a \<Rightarrow> ordering) \<Rightarrow> 'a \<Rightarrow> 'a list \<Rightarrow> 'a list" where
  "insert_by f x [] = [x]"
| "insert_by f x (y # ys) = (if f x y = Greater then y # insert_by f x ys else x # y # ys)"

definition sort_by :: "('a \<Rightarrow> 'a \<Rightarrow> ordering) \<Rightarrow> 'a list \<Rightarrow> 'a list" where
  "sort_by f xs = foldr (insert_by f) xs []"

lemma mset_insert_by [simp]: "mset (insert_by f x ys) = add_mset x (mset ys)"
  by (induction ys) auto

lemma mset_sort_by [simp]: "mset (sort_by f xs) = mset xs"
  by (induction xs) (auto simp: sort_by_def)

lemma set_sort_by [simp]: "set (sort_by f xs) = set xs"
  by (metis mset_sort_by set_mset_mset)

text \<open>The contract of a comparison: its negated \<open>Greater\<close> is a total preorder.\<close>

locale comparison =
  fixes compare :: "'a \<Rightarrow> 'a \<Rightarrow> ordering"
  assumes compare_total: "compare a b = Greater \<Longrightarrow> compare b a \<noteq> Greater"
    and compare_trans: "compare a b \<noteq> Greater \<Longrightarrow> compare b c \<noteq> Greater \<Longrightarrow> compare a c \<noteq> Greater"
begin

definition cmp_le :: "('b \<Rightarrow> 'a) \<Rightarrow> 'b \<Rightarrow> 'b \<Rightarrow> bool" where
  "cmp_le k x y \<longleftrightarrow> compare (k x) (k y) \<noteq> Greater"

lemma insert_by_sorted:
  "sorted_wrt (cmp_le k) ys \<Longrightarrow> sorted_wrt (cmp_le k) (insert_by (\<lambda>a b. compare (k a) (k b)) x ys)"
proof (induction ys)
  case Nil
  then show ?case by simp
next
  case (Cons y ys)
  have set: "set (insert_by (\<lambda>a b. compare (k a) (k b)) x ys) = insert x (set ys)"
    by (metis mset_insert_by set_mset_add_mset_insert set_mset_mset)
  show ?case
  proof (cases "compare (k x) (k y) = Greater")
    case True
    with Cons show ?thesis by (auto simp: set cmp_le_def dest: compare_total)
  next
    case False
    then have "\<forall>z\<in>set ys. cmp_le k x z"
      using Cons.prems by (auto simp: cmp_le_def dest: compare_trans)
    with False Cons.prems show ?thesis by (auto simp: cmp_le_def)
  qed
qed

lemma sort_by_sorted: "sorted_wrt (cmp_le k) (sort_by (\<lambda>a b. compare (k a) (k b)) xs)"
  by (induction xs) (auto simp: sort_by_def intro: insert_by_sorted)

end

lemma length_filter_map_same:
  "(\<And>x. P (f x) = P x) \<Longrightarrow> length (filter P (map f xs)) = length (filter P xs)"
  by (induction xs) auto

text \<open>Grouping into a \<open>HashMap<K, Vec<T>>\<close> by \<open>entry(key).or_default().push(x)\<close>, as an
  association list in the order of first insertion.\<close>

fun push_group :: "'k \<Rightarrow> 'a \<Rightarrow> ('k \<times> 'a list) list \<Rightarrow> ('k \<times> 'a list) list" where
  "push_group k x [] = [(k, [x])]"
| "push_group k x ((k', g) # gs) =
     (if k = k' then (k', g @ [x]) # gs else (k', g) # push_group k x gs)"

definition group_by :: "('a \<Rightarrow> 'k) \<Rightarrow> 'a list \<Rightarrow> ('k \<times> 'a list) list" where
  "group_by key xs = foldl (\<lambda>gs x. push_group (key x) x gs) [] xs"

lemma push_group_keys:
  "fst ` set (push_group k x gs) = insert k (fst ` set gs)"
  "distinct (map fst gs) \<Longrightarrow> distinct (map fst (push_group k x gs))"
proof (induction gs)
  case Nil
  { case 1 show ?case by simp }
  { case 2 show ?case by simp }
next
  case (Cons g gs)
  { case 1 show ?case using Cons by (cases g) auto }
  { case 2 then show ?case using Cons by (cases g) (auto simp: image_iff) }
qed

lemma push_group_map_of:
  "map_of (push_group k x gs) k' =
     (if k' = k then Some ((case map_of gs k of None \<Rightarrow> [] | Some g \<Rightarrow> g) @ [x]) else map_of gs k')"
proof (induction gs)
  case Nil
  then show ?case by simp
next
  case (Cons g gs)
  then show ?case by (cases g) auto
qed

lemma group_by_snoc: "group_by key (xs @ [x]) = push_group (key x) x (group_by key xs)"
  by (simp add: group_by_def)

lemma group_by_keys: "fst ` set (group_by key xs) = key ` set xs"
  by (induction xs rule: rev_induct) (auto simp: group_by_snoc push_group_keys group_by_def)

lemma group_by_distinct: "distinct (map fst (group_by key xs))"
  by (induction xs rule: rev_induct) (auto simp: group_by_snoc push_group_keys group_by_def)

lemma push_group_mset:
  "mset (concat (map snd (push_group k x gs))) = add_mset x (mset (concat (map snd gs)))"
  by (induction k x gs rule: push_group.induct) auto

lemma group_by_mset: "mset (concat (map snd (group_by key xs))) = mset xs"
  by (induction xs rule: rev_induct) (auto simp: group_by_snoc push_group_mset, simp add: group_by_def)

lemma mset_concat_map_cong:
  "mset xs = mset ys \<Longrightarrow> mset (concat (map f xs)) = mset (concat (map f ys))"
proof -
  have "mset (concat (map f zs)) = sum_mset (image_mset (\<lambda>x. mset (f x)) (mset zs))" for zs
    by (induction zs) auto
  then show "mset xs = mset ys \<Longrightarrow> mset (concat (map f xs)) = mset (concat (map f ys))" by simp
qed

lemma group_by_map_of:
  "map_of (group_by key xs) k =
     (if k \<in> key ` set xs then Some (filter (\<lambda>x. key x = k) xs) else None)"
proof (induction xs rule: rev_induct)
  case Nil
  then show ?case by (simp add: group_by_def)
next
  case (snoc x xs)
  then show ?case
    by (auto simp: group_by_snoc push_group_map_of filter_empty_conv eq_commute [of "[]"]
        split: option.splits if_splits) (metis image_eqI)
qed

lemma group_by_mem:
  "(k, g) \<in> set (group_by key xs) \<Longrightarrow> g = filter (\<lambda>x. key x = k) xs \<and> g \<noteq> []"
  using group_by_map_of [of key xs k] map_of_is_SomeI [OF group_by_distinct [of key xs]]
  by (auto simp: filter_empty_conv split: if_splits)


section \<open>File paths\<close>

text \<open>\<open>std::path\<close> on Unix.  Empty and dot components are skipped, a final \<open>..\<close> is no file
  name, the extension is what follows the last dot of the file name unless the name starts
  with its only dot, and the parent keeps the text before the last component without
  trailing separators.\<close>

definition path_file_name :: "string \<Rightarrow> string option" where
  "path_file_name p =
     (case rev (filter (\<lambda>c. c \<noteq> [] \<and> c \<noteq> ''.'') (split_on (CHR ''/'') p)) of
        [] \<Rightarrow> None
      | c # _ \<Rightarrow> if c = ''..'' then None else Some c)"

definition split_file_at_dot :: "string \<Rightarrow> string \<times> string option" where
  "split_file_at_dot f =
     (case split_once (CHR ''.'') (rev f) of
        None \<Rightarrow> (f, None)
      | Some (e, b) \<Rightarrow> if b = [] then (f, None) else (rev b, Some (rev e)))"

definition path_extension :: "string \<Rightarrow> string option" where
  "path_extension p = Option.bind (path_file_name p) (\<lambda>f. snd (split_file_at_dot f))"

definition path_file_stem :: "string \<Rightarrow> string option" where
  "path_file_stem p = map_option (\<lambda>f. fst (split_file_at_dot f)) (path_file_name p)"

fun trim_rev :: "string list \<Rightarrow> string list" where
  "trim_rev (x # y # ys) = (if x = [] \<or> x = ''.'' then trim_rev (y # ys) else x # y # ys)"
| "trim_rev xs = xs"

definition path_parent :: "string \<Rightarrow> string option" where
  "path_parent p =
     (case trim_rev (rev (split_on (CHR ''/'') p)) of
        [] \<Rightarrow> None
      | [x] \<Rightarrow> if x = [] then None else Some []
      | x # xs \<Rightarrow> (let ys = trim_rev xs in Some (if ys = [[]] then ''/'' else join_on (CHR ''/'') (rev ys))))"

lemma split_file_at_dot_concat:
  "(case split_file_at_dot f of (st, None) \<Rightarrow> st | (st, Some e) \<Rightarrow> st @ CHR ''.'' # e) = f"
proof (cases "split_once (CHR ''.'') (rev f)")
  case None
  then show ?thesis by (simp add: split_file_at_dot_def)
next
  case (Some eb)
  obtain e b where eb: "eb = (e, b)" by (cases eb)
  then have "rev f = e @ CHR ''.'' # b" using Some split_once_Some by fastforce
  then have "f = rev b @ CHR ''.'' # rev e" by (metis append.assoc append_Cons append_Nil rev.simps(2) rev_append rev_rev_ident)
  then show ?thesis using Some eb by (simp add: split_file_at_dot_def)
qed


section \<open>Association lists with distinct keys\<close>

lemma map_of_filter_key:
  "map_of (filter (\<lambda>e. P (fst e)) xs) k = (if P k then map_of xs k else None)"
  by (induction xs) auto

lemmas map_of_other_key = map_of_filter_key [where P = "\<lambda>x. x \<noteq> k" for k]

lemma map_of_replace: "map_of (filter (\<lambda>e. fst e \<noteq> k) xs @ [(k, v)]) = (map_of xs)(k \<mapsto> v)"
  by (rule ext) (simp add: map_add_def map_of_other_key split: option.splits)

lemma distinct_filter_keys: "distinct (map fst xs) \<Longrightarrow> distinct (map fst (filter P xs))"
  by (simp add: distinct_map_filter)

lemma distinct_replace: "distinct (map fst xs) \<Longrightarrow> distinct (map fst (filter (\<lambda>e. fst e \<noteq> k) xs @ [(k, v)]))"
  by (auto simp: distinct_filter_keys)

lemma map_of_mset:
  assumes "mset ys = mset xs" "distinct (map fst xs)"
  shows "distinct (map fst ys)" "map_of ys = map_of xs"
proof -
  have "mset (map fst ys) = mset (map fst xs)" using assms(1) by simp
  then show d: "distinct (map fst ys)" using assms(2) mset_eq_imp_distinct_iff by blast
  show "map_of ys = map_of xs"
    using map_of_inject_set [OF d assms(2)] mset_eq_setD [OF assms(1)] by simp
qed


section \<open>JSON values\<close>

text \<open>\<open>serde_json::Value\<close>; a number is an integer or the text of a float.\<close>

datatype json =
    JNull
  | JBool bool
  | JInt int
  | JFloat string
  | JString string
  | JArray "json list"
  | JObject "(string \<times> json) list"

fun json_as_str :: "json \<Rightarrow> string option" where
  "json_as_str (JString s) = Some s"
| "json_as_str _ = None"

end
