(* ===== verification/Hlc.thy ===== *)
theory Hlc
  imports Prelude
begin

text \<open>
  \<open>crdt/hlc.rs\<close>: hybrid logical clock strings \<open><time>/<node hex>\<close>, their numeric
  comparison, and the persistent clock service.  The clock itself is the third
  party crate uhlc; its operations are the fields of the record \<open>uhlc_api\<close> and
  what the service relies on is the predicate \<open>uhlc_laws\<close>.

  The locale \<open>timestamp_order\<close> is the contract the replicated tables rely on:
  a strict weak order.  It is interpreted on \<open>hlc_is_newer\<close> below.
\<close>

section \<open>Comparison of timestamp strings\<close>

type_synonym hlc_key = "64 word \<times> 128 word"

definition parse_hlc_node_hex :: "string \<Rightarrow> 128 word option" where
  "parse_hlc_node_hex node_hex = map_option of_nat (parse_uint 128 16 node_hex)"

definition parse_hlc :: "string \<Rightarrow> hlc_key" where
  "parse_hlc s =
     (let (time_str, node_str) = (case split_once CHR ''/'' s of
              Some (t, n) \<Rightarrow> (t, n)
            | None \<Rightarrow> (s, []));
          time = (case parse_uint 64 10 time_str of Some n \<Rightarrow> of_nat n | None \<Rightarrow> 0);
          node = (if node_str = [] then 0
                  else (case parse_hlc_node_hex node_str of Some n \<Rightarrow> n | None \<Rightarrow> 0))
      in (time, node))"

definition compare_hlc_strings :: "string \<Rightarrow> string \<Rightarrow> ordering" where
  "compare_hlc_strings a b =
     (let (a_time, a_node) = parse_hlc a;
          (b_time, b_node) = parse_hlc b
      in then_with (cmp a_time b_time) (cmp a_node b_node))"

definition hlc_is_newer :: "string \<Rightarrow> string \<Rightarrow> bool" where
  "hlc_is_newer a b \<longleftrightarrow> compare_hlc_strings a b = Greater"

text \<open>\<open>Iterator::max_by\<close> keeps the last of several maxima, \<open>min_by\<close> the first of
  several minima.\<close>

definition hlc_max :: "string list \<Rightarrow> string option" where
  "hlc_max xs = (case xs of [] \<Rightarrow> None
     | y # ys \<Rightarrow> Some (fold (\<lambda>x m. if compare_hlc_strings m x = Greater then m else x) ys y))"

definition hlc_min :: "string list \<Rightarrow> string option" where
  "hlc_min xs = (case xs of [] \<Rightarrow> None
     | y # ys \<Rightarrow> Some (fold (\<lambda>x m. if compare_hlc_strings m x = Greater then x else m) ys y))"

definition hlc_node_id_suffix :: "string \<Rightarrow> string option" where
  "hlc_node_id_suffix hlc = map_option snd (split_once CHR ''/'' hlc)"

text \<open>\<open>Uuid::parse_str\<close> is the uuid crate's: a parameter that returns the sixteen
  bytes.  \<open>u128::from_le_bytes\<close> is the standard library's.\<close>

fun from_le_bytes :: "8 word list \<Rightarrow> 128 word" where
  "from_le_bytes [] = 0"
| "from_le_bytes (b # bs) = ucast b + 256 * from_le_bytes bs"

definition device_uuid_to_hlc_node ::
  "(string \<Rightarrow> 8 word list option) \<Rightarrow> string \<Rightarrow> 128 word option" where
  "device_uuid_to_hlc_node uuid_parse_str uuid_str =
     map_option from_le_bytes (uuid_parse_str uuid_str)"

definition hlc_is_from_node :: "string \<Rightarrow> 128 word \<Rightarrow> bool" where
  "hlc_is_from_node hlc expected_node =
     (case Option.bind (hlc_node_id_suffix hlc) parse_hlc_node_hex of
        Some n \<Rightarrow> n = expected_node
      | None \<Rightarrow> False)"


section \<open>The contract: a strict weak order on timestamps\<close>

locale timestamp_order =
  fixes newer :: "'t \<Rightarrow> 't \<Rightarrow> bool"
  assumes newer_irrefl: "\<not> newer a a"
    and newer_trans: "newer a b \<Longrightarrow> newer b c \<Longrightarrow> newer a c"
    and newer_neg_trans: "\<not> newer a b \<Longrightarrow> \<not> newer b c \<Longrightarrow> \<not> newer a c"
begin

definition later :: "'t \<Rightarrow> 't \<Rightarrow> 't" where
  "later new cur = (if newer new cur then new else cur)"

lemma newer_asym: "newer a b \<Longrightarrow> \<not> newer b a"
  using newer_irrefl newer_trans by blast

lemma newer_cotrans: "newer a c \<Longrightarrow> newer a b \<or> newer b c"
  using newer_neg_trans by blast

lemma newer_neg_left: "newer a b \<Longrightarrow> \<not> newer c b \<Longrightarrow> newer a c"
  using newer_neg_trans by blast

lemma newer_neg_right: "\<not> newer b a \<Longrightarrow> newer b c \<Longrightarrow> newer a c"
  using newer_neg_trans by blast

lemma later_not_older:
  "\<not> newer new (later new cur)" "\<not> newer cur (later new cur)"
  unfolding later_def using newer_irrefl newer_asym by auto

lemma later_idem: "later new (later new cur) = later new cur"
  unfolding later_def using newer_irrefl by auto

text \<open>Folding the register update over a list: the outcome is one of the
  inputs and nothing seen is newer than it.\<close>

lemma fold_later_mem: "fold later xs c \<in> insert c (set xs)"
  by (induction xs arbitrary: c) (auto simp: later_def)

lemma fold_later_start: "\<not> newer c (fold later xs c)"
proof (induction xs arbitrary: c)
  case Nil
  then show ?case by (simp add: newer_irrefl)
next
  case (Cons x xs)
  have "\<not> newer c (fold later xs (later x c))"
    using later_not_older(2) Cons.IH by (rule newer_neg_trans)
  then show ?case by simp
qed

lemma fold_later_upper: "x \<in> set xs \<Longrightarrow> \<not> newer x (fold later xs c)"
proof (induction xs arbitrary: c)
  case Nil
  then show ?case by simp
next
  case (Cons y ys)
  show ?case
  proof (cases "x \<in> set ys")
    case True
    then show ?thesis using Cons.IH by simp
  next
    case False
    with Cons.prems have "x = y" by simp
    moreover have "\<not> newer y (fold later ys (later y c))"
      using later_not_older(1) fold_later_start by (rule newer_neg_trans)
    ultimately show ?thesis by simp
  qed
qed

text \<open>A last-writer-wins register: a value with its timestamp.\<close>

definition lww :: "'t \<times> 'v \<Rightarrow> 't \<times> 'v \<Rightarrow> 't \<times> 'v" where
  "lww new cur = (if newer (fst new) (fst cur) then new else cur)"

lemma lww_idem: "lww a (lww a c) = lww a c"
  unfolding lww_def using newer_irrefl by auto

lemma lww_commute:
  "newer (fst a) (fst b) \<or> newer (fst b) (fst a) \<Longrightarrow> lww a (lww b c) = lww b (lww a c)"
  unfolding lww_def
  by (cases "newer (fst a) (fst c)"; cases "newer (fst b) (fst c)"; simp)
    (metis newer_asym newer_cotrans)+

lemma lww_fst: "fst (lww a c) = later (fst a) (fst c)"
  by (simp add: lww_def later_def)

lemma lww_absorb: "\<not> newer (fst a) (fst c) \<Longrightarrow> lww a c = c"
  by (simp add: lww_def)

end

lemma hlc_is_newer_key:
  "hlc_is_newer a b \<longleftrightarrow>
     fst (parse_hlc b) < fst (parse_hlc a) \<or>
     fst (parse_hlc b) = fst (parse_hlc a) \<and> snd (parse_hlc b) < snd (parse_hlc a)"
  by (auto simp: hlc_is_newer_def compare_hlc_strings_def split: prod.splits)

interpretation hlc: timestamp_order hlc_is_newer
  by unfold_locales (auto simp: hlc_is_newer_key)

interpretation hlc_cmp: comparison compare_hlc_strings
  by unfold_locales (auto simp: hlc_is_newer_key simp flip: hlc_is_newer_def)

lemma compare_swap:
  "compare_hlc_strings a b = Less \<longleftrightarrow> compare_hlc_strings b a = Greater"
  "compare_hlc_strings a b = Equal \<longleftrightarrow> parse_hlc a = parse_hlc b"
  by (auto simp: compare_hlc_strings_def prod_eq_iff split: prod.splits)

lemma hlc_max_fold_upper:
  "x \<in> insert y (set ys) \<Longrightarrow>
   \<not> hlc_is_newer x (fold (\<lambda>x m. if compare_hlc_strings m x = Greater then m else x) ys y)"
proof (induction ys arbitrary: x y)
  case Nil
  then show ?case by (simp add: hlc.newer_irrefl)
next
  case (Cons z zs)
  let ?m = "if compare_hlc_strings y z = Greater then y else z"
  let ?f = "fold (\<lambda>x m. if compare_hlc_strings m x = Greater then m else x) zs ?m"
  have "\<not> hlc_is_newer y ?m" "\<not> hlc_is_newer z ?m"
    using hlc.newer_irrefl hlc.newer_asym by (auto simp flip: hlc_is_newer_def)
  moreover have "\<not> hlc_is_newer ?m ?f" by (rule Cons.IH) simp
  ultimately have "\<not> hlc_is_newer y ?f" "\<not> hlc_is_newer z ?f"
    using hlc.newer_neg_trans by blast+
  with Cons.IH Cons.prems show ?case by auto
qed

lemma hlc_max_upper: "hlc_max xs = Some m \<Longrightarrow> x \<in> set xs \<Longrightarrow> \<not> hlc_is_newer x m"
  using hlc_max_fold_upper by (auto simp: hlc_max_def split: list.splits)

lemma hlc_max_mem: "hlc_max xs = Some m \<Longrightarrow> m \<in> set xs"
proof -
  have "fold (\<lambda>x m. if compare_hlc_strings m x = Greater then m else x) ys y \<in> insert y (set ys)" for y ys
    by (induction ys arbitrary: y) auto
  then show "hlc_max xs = Some m \<Longrightarrow> m \<in> set xs" by (auto simp: hlc_max_def split: list.splits)
qed

lemma hlc_min_fold:
  "fold (\<lambda>x m. if compare_hlc_strings m x = Greater then x else m) ys y \<in> insert y (set ys)
   \<and> (\<forall>x\<in>insert y (set ys). compare_hlc_strings (fold (\<lambda>x m. if compare_hlc_strings m x = Greater then x else m) ys y) x \<noteq> Greater)"
proof (induction ys arbitrary: y)
  case Nil
  then show ?case using hlc_cmp.compare_total [of y y] by auto
next
  case (Cons z ys)
  let ?w = "if compare_hlc_strings y z = Greater then z else y"
  have "compare_hlc_strings ?w y \<noteq> Greater" "compare_hlc_strings ?w z \<noteq> Greater"
    using hlc_cmp.compare_total by auto
  moreover from Cons.IH [of ?w] obtain m where m: "m = fold (\<lambda>x m. if compare_hlc_strings m x = Greater then x else m) ys ?w"
    "m \<in> insert ?w (set ys)" "\<forall>x\<in>insert ?w (set ys). compare_hlc_strings m x \<noteq> Greater" by blast
  ultimately have "\<forall>x\<in>insert y (set (z # ys)). compare_hlc_strings m x \<noteq> Greater"
    using hlc_cmp.compare_trans [of m ?w] by auto
  moreover have "m \<in> insert y (set (z # ys))" using m(2) by (auto split: if_splits)
  ultimately show ?case using m(1) by simp
qed

lemma hlc_min_least: "hlc_min xs = Some m \<Longrightarrow> m \<in> set xs \<and> (\<forall>x\<in>set xs. compare_hlc_strings m x \<noteq> Greater)"
  using hlc_min_fold by (auto simp: hlc_min_def split: list.splits)

lemma hlc_min_None: "hlc_min xs = None \<longleftrightarrow> xs = []"
  by (simp add: hlc_min_def split: list.splits)

lemma hlc_max_None: "hlc_max xs = None \<longleftrightarrow> xs = []"
  by (simp add: hlc_max_def split: list.splits)

text \<open>A timestamp as uhlc prints it: decimal time, a slash, hexadecimal node.\<close>

definition show_hlc :: "nat \<Rightarrow> nat \<Rightarrow> string" where
  "show_hlc t n = show_radix 10 t @ CHR ''/'' # show_radix 16 n"

lemma slash_not_in_show: "2 \<le> r \<Longrightarrow> r \<le> 16 \<Longrightarrow> CHR ''/'' \<notin> set (show_radix r n)"
  using show_radix_chars [of r n] by auto

lemma parse_show_hlc:
  assumes "t < 2 ^ 64" "n < 2 ^ 128"
  shows "parse_hlc (show_hlc t n) = (of_nat t, of_nat n)"
proof -
  have "split_once CHR ''/'' (show_hlc t n) = Some (show_radix 10 t, show_radix 16 n)"
    unfolding show_hlc_def by (rule split_once_append) (simp add: slash_not_in_show)
  with assms show ?thesis
    by (simp add: parse_hlc_def parse_hlc_node_hex_def parse_uint_show)
qed

text \<open>The equations that evaluate a comparison of concrete timestamp strings.\<close>

lemmas hlc_eval = parse_hlc_def parse_hlc_node_hex_def parse_uint_def to_digit_def Let_def

lemma hlc_eval_test: "hlc_is_newer ''100/a'' ''99/0b''" "\<not> hlc_is_newer ''7/0b'' ''7/b''"
  by (simp_all add: hlc_is_newer_key hlc_eval)

end
