(* ===== verification/HlcService.thy ===== *)
theory HlcService
  imports Hlc
begin

text \<open>
  The clock service of \<open>crdt/hlc.rs\<close>: a slot that holds an optional uhlc clock
  behind a mutex, the device identity in the application store, and the last
  timestamp in the table \<open>haex_crdt_configs\<close>.

  The fields of \<open>uhlc_api\<close> are the operations of the third-party clock; the state
  of type \<open>'h\<close> includes the wall clock it reads.
\<close>

section \<open>State and errors\<close>

datatype hlc_error =
    Database string
  | ParseTimestamp string
  | ParseState string
  | ParseNodeId string
  | MutexPoisoned
  | NotInitialized
  | DeviceStore string

record ('h, 'ts) uhlc_api =
  uhlc_build :: "8 word list \<Rightarrow> (string, 'h) result"
  uhlc_new_timestamp :: "'h \<Rightarrow> 'ts \<times> 'h"
  uhlc_update :: "'h \<Rightarrow> 'ts \<Rightarrow> (string, 'h) result"
  uhlc_to_string :: "'ts \<Rightarrow> string"
  uhlc_from_str :: "string \<Rightarrow> (string, 'ts) result"

record 'h hlc_service =
  hlc_slot :: "'h option"
  hlc_poisoned :: bool

text \<open>The configuration table maps a key to its type and value; \<open>db_error\<close> makes
  every statement of the connection fail.\<close>

record config_db =
  crdt_configs :: "string \<rightharpoonup> (string \<times> string)"
  db_error :: "string option"

record device_store =
  store_open_error :: "string option"
  store_save_error :: "string option"
  store_id :: "json option"

definition HLC_TIMESTAMP_TYPE :: string where
  "HLC_TIMESTAMP_TYPE = ''hlc_timestamp''"


section \<open>Operations\<close>

definition hlc_service_new :: "'h hlc_service" where
  "hlc_service_new = \<lparr>hlc_slot = None, hlc_poisoned = False\<rparr>"

definition get_or_create_device_id ::
  "(string \<Rightarrow> 8 word list option) \<Rightarrow> string \<Rightarrow> device_store
    \<Rightarrow> (hlc_error, string) result \<times> device_store" where
  "get_or_create_device_id uuid_parse_str new_id store =
     (case store_open_error store of
        Some e \<Rightarrow> (Inl (DeviceStore e), store)
      | None \<Rightarrow>
          (let create = (let store' = store\<lparr>store_id := Some (JString new_id)\<rparr>
                         in (case store_save_error store of
                               Some e \<Rightarrow> (Inl (DeviceStore e), store')
                             | None \<Rightarrow> (Inr new_id, store')))
           in (case store_id store of
                 Some (JString s) \<Rightarrow>
                   if uuid_parse_str s \<noteq> None then (Inr s, store) else create
               | Some _ \<Rightarrow> create
               | None \<Rightarrow> create)))"

definition load_last_timestamp ::
  "('h, 'ts) uhlc_api \<Rightarrow> config_db \<Rightarrow> (hlc_error, 'ts option) result" where
  "load_last_timestamp api db =
     (case db_error db of
        Some e \<Rightarrow> Inl (Database e)
      | None \<Rightarrow>
          (case crdt_configs db HLC_TIMESTAMP_TYPE of
             Some (ty, state_str) \<Rightarrow>
               if ty = ''hlc''
               then (case uhlc_from_str api state_str of
                       Inl e \<Rightarrow> Inl (ParseTimestamp e)
                     | Inr ts \<Rightarrow> Inr (Some ts))
               else Inr None
           | None \<Rightarrow> Inr None))"

text \<open>On a key conflict only the value is replaced; the type of the row stays.\<close>

definition persist_timestamp ::
  "('h, 'ts) uhlc_api \<Rightarrow> config_db \<Rightarrow> 'ts \<Rightarrow> (hlc_error, unit) result \<times> config_db" where
  "persist_timestamp api db ts =
     (case db_error db of
        Some e \<Rightarrow> (Inl (Database e), db)
      | None \<Rightarrow>
          (let v = uhlc_to_string api ts;
               ty = (case crdt_configs db HLC_TIMESTAMP_TYPE of
                       Some (t, _) \<Rightarrow> t | None \<Rightarrow> ''hlc'')
           in (Inr (), db\<lparr>crdt_configs := (crdt_configs db)(HLC_TIMESTAMP_TYPE \<mapsto> (ty, v))\<rparr>)))"

text \<open>The part \<open>initialize_in_place\<close> and \<open>try_initialize\<close> share: device identity,
  clock with that identity, fast-forward to the persisted timestamp.\<close>

definition build_clock ::
  "('h, 'ts) uhlc_api \<Rightarrow> (string \<Rightarrow> 8 word list option) \<Rightarrow> string \<Rightarrow> config_db \<Rightarrow> device_store
    \<Rightarrow> (hlc_error, 'h) result \<times> device_store" where
  "build_clock api uuid_parse_str new_id db store =
     (case get_or_create_device_id uuid_parse_str new_id store of
        (Inl e, store') \<Rightarrow> (Inl e, store')
      | (Inr node_id_str, store') \<Rightarrow>
          (case uuid_parse_str node_id_str of
             None \<Rightarrow> (Inl (ParseNodeId node_id_str), store')
           | Some bytes \<Rightarrow>
               (case uhlc_build api bytes of
                  Inl e \<Rightarrow> (Inl (ParseNodeId e), store')
                | Inr h \<Rightarrow>
                    (case load_last_timestamp api db of
                       Inl e \<Rightarrow> (Inl e, store')
                     | Inr None \<Rightarrow> (Inr h, store')
                     | Inr (Some ts) \<Rightarrow>
                         (case uhlc_update api h ts of
                            Inl e \<Rightarrow> (Inl (ParseState e), store')
                          | Inr h' \<Rightarrow> (Inr h', store'))))))"

definition initialize_in_place ::
  "('h, 'ts) uhlc_api \<Rightarrow> (string \<Rightarrow> 8 word list option) \<Rightarrow> string \<Rightarrow> config_db \<Rightarrow> device_store
    \<Rightarrow> 'h hlc_service \<Rightarrow> (hlc_error, unit) result \<times> 'h hlc_service \<times> device_store" where
  "initialize_in_place api uuid_parse_str new_id db store svc =
     (case build_clock api uuid_parse_str new_id db store of
        (Inl e, store') \<Rightarrow> (Inl e, svc, store')
      | (Inr h, store') \<Rightarrow>
          if hlc_poisoned svc then (Inl MutexPoisoned, svc, store')
          else (Inr (), svc\<lparr>hlc_slot := Some h\<rparr>, store'))"

definition try_initialize ::
  "('h, 'ts) uhlc_api \<Rightarrow> (string \<Rightarrow> 8 word list option) \<Rightarrow> string \<Rightarrow> config_db \<Rightarrow> device_store
    \<Rightarrow> (hlc_error, 'h hlc_service) result \<times> device_store" where
  "try_initialize api uuid_parse_str new_id db store =
     (case build_clock api uuid_parse_str new_id db store of
        (Inl e, store') \<Rightarrow> (Inl e, store')
      | (Inr h, store') \<Rightarrow> (Inr \<lparr>hlc_slot = Some h, hlc_poisoned = False\<rparr>, store'))"

definition with_clock ::
  "'h hlc_service \<Rightarrow> ('h \<Rightarrow> (hlc_error, 'a) result \<times> 'h) \<Rightarrow> (hlc_error, 'a) result \<times> 'h hlc_service" where
  "with_clock svc f =
     (if hlc_poisoned svc then (Inl MutexPoisoned, svc)
      else (case hlc_slot svc of
              None \<Rightarrow> (Inl NotInitialized, svc)
            | Some h \<Rightarrow> (let (r, h') = f h in (r, svc\<lparr>hlc_slot := Some h'\<rparr>))))"

definition new_timestamp ::
  "('h, 'ts) uhlc_api \<Rightarrow> 'h hlc_service \<Rightarrow> (hlc_error, 'ts) result \<times> 'h hlc_service" where
  "new_timestamp api svc =
     with_clock svc (\<lambda>h. let (ts, h') = uhlc_new_timestamp api h in (Inr ts, h'))"

definition new_timestamp_and_persist ::
  "('h, 'ts) uhlc_api \<Rightarrow> config_db \<Rightarrow> 'h hlc_service
    \<Rightarrow> (hlc_error, 'ts) result \<times> config_db \<times> 'h hlc_service" where
  "new_timestamp_and_persist api db svc =
     (case new_timestamp api svc of
        (Inl e, svc') \<Rightarrow> (Inl e, db, svc')
      | (Inr ts, svc') \<Rightarrow>
          (case persist_timestamp api db ts of
             (Inl e, db') \<Rightarrow> (Inl e, db', svc')
           | (Inr _, db') \<Rightarrow> (Inr ts, db', svc')))"

definition update_with_timestamp ::
  "('h, 'ts) uhlc_api \<Rightarrow> 'ts \<Rightarrow> 'h hlc_service \<Rightarrow> (hlc_error, unit) result \<times> 'h hlc_service" where
  "update_with_timestamp api ts svc =
     with_clock svc (\<lambda>h. case uhlc_update api h ts of
                            Inl e \<Rightarrow> (Inl (ParseState e), h)
                          | Inr h' \<Rightarrow> (Inr (), h'))"

text \<open>Failures are only printed, so the result is the service alone.\<close>

definition advance_past_remote ::
  "('h, 'ts) uhlc_api \<Rightarrow> string \<Rightarrow> 'h hlc_service \<Rightarrow> 'h hlc_service" where
  "advance_past_remote api hlc_string svc =
     (if hlc_string = [] then svc
      else (case uhlc_from_str api hlc_string of
              Inl _ \<Rightarrow> svc
            | Inr remote_ts \<Rightarrow> snd (update_with_timestamp api remote_ts svc)))"


section \<open>Lemmas\<close>

text \<open>What the service relies on: uhlc prints timestamps it can read back, reading
  keeps the place in the order, and a clock that has accepted a timestamp issues
  a newer one next (a timestamp at the end of the 64-bit range is never accepted:
  uhlc refuses timestamps ahead of the wall clock).\<close>

definition uhlc_laws :: "('h, 'ts) uhlc_api \<Rightarrow> bool" where
  "uhlc_laws api \<longleftrightarrow>
     (\<forall>ts. uhlc_from_str api (uhlc_to_string api ts) = Inr ts) \<and>
     (\<forall>s ts. uhlc_from_str api s = Inr ts \<longrightarrow> parse_hlc (uhlc_to_string api ts) = parse_hlc s) \<and>
     (\<forall>h ts h'. uhlc_update api h ts = Inr h' \<longrightarrow>
        hlc_is_newer (uhlc_to_string api (fst (uhlc_new_timestamp api h'))) (uhlc_to_string api ts))"

lemma uhlc_lawsD:
  assumes "uhlc_laws api"
  shows "uhlc_from_str api (uhlc_to_string api ts) = Inr ts"
    and "uhlc_from_str api s = Inr ts \<Longrightarrow> parse_hlc (uhlc_to_string api ts) = parse_hlc s"
    and "uhlc_update api h ts = Inr h' \<Longrightarrow>
      hlc_is_newer (uhlc_to_string api (fst (uhlc_new_timestamp api h'))) (uhlc_to_string api ts)"
  using assms unfolding uhlc_laws_def by blast+

lemma new_timestamp_Inr:
  "new_timestamp api svc = (Inr ts, svc') \<longleftrightarrow>
     (\<exists>h. \<not> hlc_poisoned svc \<and> hlc_slot svc = Some h \<and>
        ts = fst (uhlc_new_timestamp api h) \<and>
        svc' = svc\<lparr>hlc_slot := Some (snd (uhlc_new_timestamp api h))\<rparr>)"
  by (auto simp: new_timestamp_def with_clock_def Let_def split: option.splits prod.splits)

lemma new_timestamp_and_persist_Inr:
  "new_timestamp_and_persist api db svc = (Inr ts, db', svc') \<longleftrightarrow>
     new_timestamp api svc = (Inr ts, svc') \<and> persist_timestamp api db ts = (Inr (), db')"
  by (auto simp: new_timestamp_and_persist_def split: sum.splits prod.splits)

definition config_ok :: "config_db \<Rightarrow> bool" where
  "config_ok db \<longleftrightarrow>
     (case crdt_configs db HLC_TIMESTAMP_TYPE of Some (ty, _) \<Rightarrow> ty = ''hlc'' | None \<Rightarrow> True)"

lemma load_after_persist:
  assumes "uhlc_laws api" "config_ok db" "persist_timestamp api db ts = (Inr (), db')"
  shows "load_last_timestamp api db' = Inr (Some ts)"
  using assms
  by (auto simp: persist_timestamp_def load_last_timestamp_def config_ok_def uhlc_lawsD Let_def
      split: option.splits)

lemma build_clock_loaded:
  assumes "build_clock api up nid db store = (Inr h, store')"
    and "load_last_timestamp api db = Inr (Some ts)"
  shows "\<exists>h0. uhlc_update api h0 ts = Inr h"
  using assms by (auto simp: build_clock_def split: prod.splits sum.splits option.splits)

text \<open>A concrete clock for the witnesses: its state is its last timestamp string, and
  the next one adds one to the time and carries the node 1.\<close>

definition sample_uhlc :: "(string, string) uhlc_api" where
  "sample_uhlc = \<lparr>
     uhlc_build = (\<lambda>bytes. Inr ''0/1''),
     uhlc_new_timestamp = (\<lambda>h. let t = show_hlc (unat (fst (parse_hlc h)) + 1) 1 in (t, t)),
     uhlc_update = (\<lambda>h ts. if fst (parse_hlc ts) = - 1 then Inl ''drift'' else Inr ts),
     uhlc_to_string = (\<lambda>ts. ts),
     uhlc_from_str = (\<lambda>s. Inr s)\<rparr>"

lemma sample_uhlc_laws: "uhlc_laws sample_uhlc"
proof -
  have "hlc_is_newer (show_hlc (unat (fst (parse_hlc ts)) + 1) 1) ts"
    if "fst (parse_hlc ts) \<noteq> - 1" for ts
  proof -
    let ?w = "fst (parse_hlc ts)"
    have "?w + 1 \<noteq> 0" using that by (simp add: add_eq_0_iff2)
    then have "unat (?w + 1) = unat ?w + 1" using unatSuc [of ?w] by (simp add: add.commute)
    then have lt: "unat ?w + 1 < 2 ^ 64" using unsigned_less [of "?w + 1", where 'a = nat] by simp
    then have "?w < ?w + 1"
      by (simp add: word_less_nat_alt unat_word_ariths(1))
    moreover have "parse_hlc (show_hlc (unat ?w + 1) 1) = (of_nat (unat ?w + 1), of_nat 1)"
      using lt by (intro parse_show_hlc) simp_all
    ultimately show ?thesis by (simp add: hlc_is_newer_key add.commute)
  qed
  then show ?thesis
    by (auto simp: uhlc_laws_def sample_uhlc_def Let_def split: if_splits)
qed

definition sample_db :: config_db where
  "sample_db = \<lparr>crdt_configs = Map.empty, db_error = None\<rparr>"

definition sample_store :: device_store where
  "sample_store = \<lparr>store_open_error = None, store_save_error = None, store_id = None\<rparr>"

lemma sample_ticks:
  "uhlc_new_timestamp sample_uhlc ''6/1'' = (''7/1'', ''7/1'')"
  "uhlc_new_timestamp sample_uhlc ''7/1'' = (''8/1'', ''8/1'')"
  "uhlc_update sample_uhlc ''0/1'' ''7/1'' = Inr ''7/1''"
  "uhlc_build sample_uhlc bytes = Inr ''0/1''"
  "uhlc_from_str sample_uhlc s = Inr s"
  "uhlc_to_string sample_uhlc s = s"
  by (simp_all add: sample_uhlc_def hlc_eval show_hlc_def show_radix.simps digit_char_def char_of_def bit_0)

text \<open>C6: The clock never runs backwards over a restart.  If a timestamp was issued
  and persisted, and a service is later initialised from that database (whatever
  device store it finds), the next timestamp it issues is strictly newer than the
  persisted one.\<close>

theorem restart_monotone:
  assumes "uhlc_laws api" "config_ok db"
    and "new_timestamp_and_persist api db svc = (Inr ts, db', svc')"
    and "try_initialize api up nid db' store = (Inr svc2, store')"
    and "new_timestamp api svc2 = (Inr ts2, svc3)"
  shows "hlc_is_newer (uhlc_to_string api ts2) (uhlc_to_string api ts)"
proof -
  have "persist_timestamp api db ts = (Inr (), db')"
    using assms(3) by (simp add: new_timestamp_and_persist_Inr)
  then have load: "load_last_timestamp api db' = Inr (Some ts)"
    by (rule load_after_persist [OF assms(1,2)])
  obtain h where h: "build_clock api up nid db' store = (Inr h, store')"
    and svc2: "svc2 = \<lparr>hlc_slot = Some h, hlc_poisoned = False\<rparr>"
    using assms(4) by (auto simp: try_initialize_def split: prod.splits sum.splits)
  obtain h0 where "uhlc_update api h0 ts = Inr h"
    using build_clock_loaded [OF h load] by blast
  moreover have "ts2 = fst (uhlc_new_timestamp api h)"
    using assms(5) svc2 by (simp add: new_timestamp_Inr)
  ultimately show ?thesis using uhlc_lawsD(3) [OF assms(1)] by simp
qed

theorem restart_monotone_witness:
  "hlc_is_newer ''8/1'' ''7/1''"
proof -
  let ?svc = "\<lparr>hlc_slot = Some ''6/1'', hlc_poisoned = False\<rparr>"
  let ?db' = "sample_db\<lparr>crdt_configs := [HLC_TIMESTAMP_TYPE \<mapsto> (''hlc'', ''7/1'')]\<rparr>"
  have "new_timestamp_and_persist sample_uhlc sample_db ?svc
      = (Inr ''7/1'', ?db', ?svc\<lparr>hlc_slot := Some ''7/1''\<rparr>)"
    by (simp add: new_timestamp_and_persist_def new_timestamp_def with_clock_def
        persist_timestamp_def sample_db_def sample_ticks)
  moreover have "try_initialize sample_uhlc (\<lambda>_. Some [1]) ''d'' ?db' sample_store
      = (Inr \<lparr>hlc_slot = Some ''7/1'', hlc_poisoned = False\<rparr>,
         sample_store\<lparr>store_id := Some (JString ''d'')\<rparr>)"
    by (simp add: try_initialize_def build_clock_def get_or_create_device_id_def sample_store_def
        load_last_timestamp_def sample_db_def sample_ticks)
  moreover have "new_timestamp sample_uhlc \<lparr>hlc_slot = Some ''7/1'', hlc_poisoned = False\<rparr>
      = (Inr ''8/1'', \<lparr>hlc_slot = Some ''8/1'', hlc_poisoned = False\<rparr>)"
    by (simp add: new_timestamp_def with_clock_def sample_ticks)
  moreover have "config_ok sample_db" by (simp add: config_ok_def sample_db_def)
  ultimately have "hlc_is_newer (uhlc_to_string sample_uhlc ''8/1'') (uhlc_to_string sample_uhlc ''7/1'')"
    using restart_monotone [OF sample_uhlc_laws] by blast
  then show ?thesis by (simp add: sample_ticks)
qed

lemma advance_issues_newer:
  assumes "uhlc_laws api" "\<not> hlc_poisoned svc" "hlc_slot svc = Some h"
    and "remote \<noteq> []" "uhlc_from_str api remote = Inr rts" "is_ok (uhlc_update api h rts)"
    and "new_timestamp api (advance_past_remote api remote svc) = (Inr ts, svc')"
  shows "hlc_is_newer (uhlc_to_string api ts) remote"
proof -
  obtain h' where h': "uhlc_update api h rts = Inr h'"
    using assms(6) by (auto simp: res_simps)
  then have "advance_past_remote api remote svc = svc\<lparr>hlc_slot := Some h'\<rparr>"
    using assms(2-5) by (simp add: advance_past_remote_def update_with_timestamp_def with_clock_def)
  then have "ts = fst (uhlc_new_timestamp api h')"
    using assms(7) by (auto simp: new_timestamp_Inr)
  then have "hlc_is_newer (uhlc_to_string api ts) (uhlc_to_string api rts)"
    using uhlc_lawsD(3) [OF assms(1) h'] by simp
  then show ?thesis
    using uhlc_lawsD(2) [OF assms(1,5)] by (simp add: hlc_is_newer_key)
qed

lemma sample_advance:
  "new_timestamp sample_uhlc (advance_past_remote sample_uhlc ''7/1'' \<lparr>hlc_slot = Some ''0/1'', hlc_poisoned = False\<rparr>)
     = (Inr ''8/1'', \<lparr>hlc_slot = Some ''8/1'', hlc_poisoned = False\<rparr>)"
  by (simp add: advance_past_remote_def update_with_timestamp_def with_clock_def new_timestamp_def sample_ticks)

end
