(* ===== verification/CrdtDb.thy ===== *)
theory CrdtDb
  imports HlcService
begin

text \<open>
  The replicated database as the CRDT layer sees it: tables with a schema and
  rows, the row clock \<open>haex_hlc\<close>, the column clocks \<open>haex_column_hlcs\<close> (a JSON
  object text in the database, a partial map here), the bookkeeping tables, and
  the schema upgrade and trigger set-up of \<open>crdt/trigger.rs\<close>.

  SQLite and serde are not part of the repository.  What the code asks of them
  and the SQL text does not settle by itself is a field of \<open>sql_engine\<close>.
\<close>

section \<open>Values, rows and tables\<close>

datatype sql_value = SNull | SInteger int | SReal string | SText string | SBlob "8 word list"

datatype db_error =
    ValidationError string
  | SerializationError string
  | ExecutionError string string
  | SqlError string

record column_info =
  col_name :: string
  is_pk :: bool

record row =
  cells :: "string \<rightharpoonup> sql_value"
  row_hlc :: "string option"
  column_hlcs :: "string \<rightharpoonup> string"

record table =
  schema :: "column_info list"
  rows :: "row list"
  has_triggers :: bool

record conflict_entry =
  conflict_table :: string
  conflict_key :: string
  conflict_local_pk :: "(string \<times> sql_value) list"
  conflict_remote_pk :: "(string \<times> sql_value) list"
  conflict_remote_row :: "(string \<times> sql_value) list"
  conflict_remote_timestamp :: string

text \<open>The tables the CRDT layer reads and writes: user tables by name, pending
  columns, conflicts, the \<open>triggers_enabled\<close> setting, the push cursor of each sync
  backend, the dirty-table tracker with its modification times, and the foreign
  key switch of the connection.\<close>

record crdt_db =
  tables :: "string \<rightharpoonup> table"
  pending_columns :: "(string \<times> string) list"
  conflicts :: "conflict_entry list"
  triggers_enabled :: "string option"
  sync_backends :: "string \<rightharpoonup> string"
  dirty_tables :: "(string \<times> string) list"
  fk_enabled :: bool

definition HLC_TIMESTAMP_COLUMN :: string where "HLC_TIMESTAMP_COLUMN = ''haex_hlc''"
definition COLUMN_HLCS_COLUMN :: string where "COLUMN_HLCS_COLUMN = ''haex_column_hlcs''"
definition DELETED_ROWS_TABLE :: string where "DELETED_ROWS_TABLE = ''haex_deleted_rows''"
definition LAST_PUSH_HLC_COLUMN :: string where "LAST_PUSH_HLC_COLUMN = ''last_push_hlc_timestamp''"
definition LAST_PULL_SERVER_TIMESTAMP_COLUMN :: string where
  "LAST_PULL_SERVER_TIMESTAMP_COLUMN = ''last_pull_server_timestamp''"
definition UPDATED_AT_COLUMN :: string where "UPDATED_AT_COLUMN = ''updated_at''"
definition CREATED_AT_COLUMN :: string where "CREATED_AT_COLUMN = ''created_at''"

text \<open>The engine: float conversion and JSON text (serde), SQL equality with its
  affinity rules, whether a double-quoted name that is no column is read as a
  string literal, the constraint message an insert or update would raise, the
  row that an insert list stores (a list that names a column twice is resolved
  by the engine), and the outcome of a commit.\<close>

record sql_engine =
  f64_of :: "int \<Rightarrow> string"
  json_text :: "json \<Rightarrow> string"
  hlcs_text :: "(string \<rightharpoonup> string) \<Rightarrow> string"
  parse_pks :: "string \<Rightarrow> (string, (string \<times> json) list) result"
  sql_eq :: "sql_value \<Rightarrow> sql_value \<Rightarrow> bool"
  quoted_literals :: bool
  insert_violation :: "string \<Rightarrow> table \<Rightarrow> (string \<times> sql_value) list \<Rightarrow> string option"
  update_violation :: "string \<Rightarrow> table \<Rightarrow> (string \<times> sql_value) list \<Rightarrow> string option"
  stored_row :: "(string \<times> sql_value) list \<Rightarrow> (string \<rightharpoonup> string) \<Rightarrow> string \<Rightarrow> row"
  commit_error :: "string option"

definition cell :: "sql_engine \<Rightarrow> row \<Rightarrow> string \<Rightarrow> sql_value" where
  "cell env r c =
     (if c = HLC_TIMESTAMP_COLUMN then (case row_hlc r of None \<Rightarrow> SNull | Some h \<Rightarrow> SText h)
      else if c = COLUMN_HLCS_COLUMN then SText (hlcs_text env (column_hlcs r))
      else (case cells r c of None \<Rightarrow> SNull | Some v \<Rightarrow> v))"

fun json_to_rusqlite_value :: "sql_engine \<Rightarrow> json \<Rightarrow> sql_value" where
  "json_to_rusqlite_value env JNull = SNull"
| "json_to_rusqlite_value env (JBool b) = SInteger (if b then 1 else 0)"
| "json_to_rusqlite_value env (JInt i) =
     (if - (2 ^ 63) \<le> i \<and> i < 2 ^ 63 then SInteger i else SReal (f64_of env i))"
| "json_to_rusqlite_value env (JFloat f) = SReal f"
| "json_to_rusqlite_value env (JString s) = SText s"
| "json_to_rusqlite_value env (JArray xs) = SText (json_text env (JArray xs))"
| "json_to_rusqlite_value env (JObject m) = SText (json_text env (JObject m))"

definition json_values_to_sql_params :: "sql_engine \<Rightarrow> json list \<Rightarrow> sql_value list" where
  "json_values_to_sql_params env values = map (json_to_rusqlite_value env) values"


section \<open>Identifiers and schemas\<close>

text \<open>Names are ASCII here; Rust's \<open>is_alphanumeric\<close> also accepts other alphabets.\<close>

definition is_safe_identifier :: "string \<Rightarrow> bool" where
  "is_safe_identifier name \<longleftrightarrow>
     name \<noteq> [] \<and>
     (\<forall>c\<in>set name. is_ascii_alphanumeric c \<or> c = CHR ''_'' \<or> c = CHR ''-'')"

definition get_table_schema :: "crdt_db \<Rightarrow> string \<Rightarrow> (db_error, column_info list) result" where
  "get_table_schema db table_name =
     (if is_safe_identifier table_name
      then Inr (case tables db table_name of None \<Rightarrow> [] | Some t \<Rightarrow> schema t)
      else Inl (SqlError ''Invalid or unsafe table name provided''))"

definition has_column :: "string \<Rightarrow> column_info list \<Rightarrow> bool" where
  "has_column c cols \<longleftrightarrow> (\<exists>x\<in>set cols. col_name x = c)"

definition cols_to_track :: "column_info list \<Rightarrow> string list" where
  "cols_to_track columns =
     map col_name (filter (\<lambda>c. \<not> is_pk c
        \<and> col_name c \<noteq> HLC_TIMESTAMP_COLUMN
        \<and> col_name c \<noteq> COLUMN_HLCS_COLUMN
        \<and> col_name c \<noteq> LAST_PUSH_HLC_COLUMN
        \<and> col_name c \<noteq> LAST_PULL_SERVER_TIMESTAMP_COLUMN
        \<and> col_name c \<noteq> UPDATED_AT_COLUMN
        \<and> col_name c \<noteq> CREATED_AT_COLUMN) columns)"

datatype crdt_setup_error =
    CrdtDatabaseError db_error
  | HlcColumnMissing string string
  | PrimaryKeyMissing string

datatype trigger_setup_result = Success | TableNotFound

definition set_table :: "string \<Rightarrow> table \<Rightarrow> crdt_db \<Rightarrow> crdt_db" where
  "set_table n t db = db\<lparr>tables := (tables db)(n \<mapsto> t)\<rparr>"

definition setup_triggers_for_table ::
  "crdt_db \<Rightarrow> string \<Rightarrow> (crdt_setup_error, trigger_setup_result) result \<times> crdt_db" where
  "setup_triggers_for_table db table_name =
     (case get_table_schema db table_name of
        Inl e \<Rightarrow> (Inl (CrdtDatabaseError e), db)
      | Inr columns \<Rightarrow>
          if columns = [] then (Inr TableNotFound, db)
          else if \<not> has_column HLC_TIMESTAMP_COLUMN columns
          then (Inl (HlcColumnMissing table_name HLC_TIMESTAMP_COLUMN), db)
          else if filter is_pk columns = [] then (Inl (PrimaryKeyMissing table_name), db)
          else (case tables db table_name of
                  None \<Rightarrow> (Inr TableNotFound, db)
                | Some t \<Rightarrow> (Inr Success, set_table table_name (t\<lparr>has_triggers := True\<rparr>) db)))"

text \<open>\<open>ALTER TABLE ADD COLUMN\<close>: the new \<open>haex_hlc\<close> is NULL and the new
  \<open>haex_column_hlcs\<close> is the empty object in every row.\<close>

definition ensure_crdt_columns ::
  "crdt_db \<Rightarrow> string \<Rightarrow> (crdt_setup_error, bool) result \<times> crdt_db" where
  "ensure_crdt_columns db table_name =
     (case get_table_schema db table_name of
        Inl e \<Rightarrow> (Inl (CrdtDatabaseError e), db)
      | Inr columns \<Rightarrow>
          (case tables db table_name of
             None \<Rightarrow> (Inr False, db)
           | Some t \<Rightarrow>
               if columns = [] then (Inr False, db)
               else
                 (let has_hlc = has_column HLC_TIMESTAMP_COLUMN columns;
                      has_column_hlcs = has_column COLUMN_HLCS_COLUMN columns;
                      t1 = (if has_hlc then t
                            else t\<lparr>schema := schema t @ [\<lparr>col_name = HLC_TIMESTAMP_COLUMN, is_pk = False\<rparr>],
                                   rows := map (\<lambda>r. r\<lparr>row_hlc := None\<rparr>) (rows t)\<rparr>);
                      t2 = (if has_column_hlcs then t1
                            else t1\<lparr>schema := schema t1 @ [\<lparr>col_name = COLUMN_HLCS_COLUMN, is_pk = False\<rparr>],
                                    rows := map (\<lambda>r. r\<lparr>column_hlcs := Map.empty\<rparr>) (rows t1)\<rparr>)
                  in (Inr (\<not> has_hlc \<or> \<not> has_column_hlcs), set_table table_name t2 db))))"

definition ensure_crdt_columns_and_triggers ::
  "crdt_db \<Rightarrow> string \<Rightarrow> (crdt_setup_error, bool \<times> bool) result \<times> crdt_db" where
  "ensure_crdt_columns_and_triggers db table_name =
     (case ensure_crdt_columns db table_name of
        (Inl e, db1) \<Rightarrow> (Inl e, db1)
      | (Inr columns_added, db1) \<Rightarrow>
          if (case tables db1 table_name of None \<Rightarrow> False | Some t \<Rightarrow> has_triggers t)
          then (Inr (columns_added, False), db1)
          else (case setup_triggers_for_table db1 table_name of
                  (Inl e, db2) \<Rightarrow> (Inl e, db2)
                | (Inr Success, db2) \<Rightarrow> (Inr (columns_added, True), db2)
                | (Inr TableNotFound, db2) \<Rightarrow> (Inr (columns_added, False), db2)))"

lemma cols_to_track_excludes:
  "c \<in> set (cols_to_track columns) \<Longrightarrow>
     c \<noteq> HLC_TIMESTAMP_COLUMN \<and> c \<noteq> COLUMN_HLCS_COLUMN \<and>
     (\<exists>x\<in>set columns. col_name x = c \<and> \<not> is_pk x)"
  by (auto simp: cols_to_track_def)

text \<open>A small engine for the witnesses: values are equal when they are the same, the
  key text is the \<open>id\<close> itself, no constraint is violated and a commit succeeds.\<close>

definition sample_engine :: sql_engine where
  "sample_engine = \<lparr>
     f64_of = (\<lambda>i. ''f''), json_text = (\<lambda>j. ''json''), hlcs_text = (\<lambda>m. ''{}''),
     parse_pks = (\<lambda>s. Inr [(''id'', JString s)]),
     sql_eq = (=), quoted_literals = False,
     insert_violation = (\<lambda>t tb ps. None), update_violation = (\<lambda>t tb ps. None),
     stored_row = (\<lambda>ps hs h. \<lparr>cells = map_of (rev ps), row_hlc = Some h, column_hlcs = hs\<rparr>),
     commit_error = None\<rparr>"

definition sample_schema :: "column_info list" where
  "sample_schema =
     [\<lparr>col_name = ''id'', is_pk = True\<rparr>, \<lparr>col_name = ''a'', is_pk = False\<rparr>,
      \<lparr>col_name = ''b'', is_pk = False\<rparr>, \<lparr>col_name = HLC_TIMESTAMP_COLUMN, is_pk = False\<rparr>,
      \<lparr>col_name = COLUMN_HLCS_COLUMN, is_pk = False\<rparr>]"

definition sample_row :: row where
  "sample_row = \<lparr>cells = [''id'' \<mapsto> SText ''r1'', ''a'' \<mapsto> SText ''x'', ''b'' \<mapsto> SText ''y''],
     row_hlc = Some ''9/1'', column_hlcs = [''a'' \<mapsto> ''9/1'', ''b'' \<mapsto> ''1/1'']\<rparr>"

definition sample_crdt_db :: crdt_db where
  "sample_crdt_db = \<lparr>
     tables = [''t'' \<mapsto> \<lparr>schema = sample_schema, rows = [sample_row], has_triggers = True\<rparr>],
     pending_columns = [], conflicts = [], triggers_enabled = Some ''1'',
     sync_backends = Map.empty, dirty_tables = [], fk_enabled = True\<rparr>"

end
