(* ===== verification/CrdtTransform.thy ===== *)
theory CrdtTransform
  imports CrdtDb
begin

text \<open>
  Statement rewriting (\<open>crdt/transformer\<close>, \<open>crdt/insert_transformer.rs\<close>) and the
  delete-log cleanup (\<open>crdt/cleanup.rs\<close>).  The statement type keeps the parts of the
  sqlparser syntax tree that the rewriting looks at; an expression it only moves is
  its text.
\<close>

section \<open>Statements\<close>

datatype name_part = Identifier string | FunctionPart string

type_synonym object_name = "name_part list"

datatype sql_expr = SingleQuotedString string | OtherExpr string

datatype insert_source = Values "sql_expr list list" | SelectProjection "sql_expr list" | OtherSource

record insert_stmt =
  ins_table :: "object_name option"
  ins_columns :: "object_name list"
  ins_source :: "insert_source option"

record column_def =
  cd_name :: string
  cd_type :: string
  cd_options :: "string list"

datatype statement =
    Query string
  | CreateTable object_name "column_def list"
  | Insert insert_stmt
  | Update "object_name option" "(object_name \<times> sql_expr) list"
  | Delete string
  | AlterTable object_name string
  | CreateIndex string
  | OtherStatement string

datatype transform_error = UnsupportedStatement string


section \<open>Table names\<close>

fun part_name :: "name_part \<Rightarrow> string" where
  "part_name (Identifier s) = s"
| "part_name (FunctionPart s) = s"

definition normalize_table_name :: "object_name \<Rightarrow> string" where
  "normalize_table_name name =
     (let table_name = (if name = [] then [] else part_name (last name))
      in trim_matches (CHR 0x22) (trim_matches (CHR 0x60) (to_lowercase table_name)))"

definition is_crdt_sync_table :: "object_name \<Rightarrow> bool" where
  "is_crdt_sync_table name \<longleftrightarrow> \<not> ends_with (normalize_table_name name) ''_no_sync''"


section \<open>Rewriting\<close>

definition create_hlc_assignment :: "string \<Rightarrow> object_name \<times> sql_expr" where
  "create_hlc_assignment timestamp = ([Identifier HLC_TIMESTAMP_COLUMN], SingleQuotedString timestamp)"

definition add_to_table_definition :: "column_def list \<Rightarrow> column_def list" where
  "add_to_table_definition columns =
     filter (\<lambda>c. cd_name c \<noteq> HLC_TIMESTAMP_COLUMN \<and> cd_name c \<noteq> COLUMN_HLCS_COLUMN) columns
     @ [\<lparr>cd_name = HLC_TIMESTAMP_COLUMN, cd_type = ''STRING'', cd_options = []\<rparr>,
        \<lparr>cd_name = COLUMN_HLCS_COLUMN, cd_type = ''STRING'', cd_options = []\<rparr>]"

definition names_column :: "string \<Rightarrow> object_name \<Rightarrow> bool" where
  "names_column col c \<longleftrightarrow> c \<noteq> [] \<and> last c = Identifier col"

fun position :: "('a \<Rightarrow> bool) \<Rightarrow> 'a list \<Rightarrow> nat option" where
  "position P [] = None"
| "position P (x # xs) = (if P x then Some 0 else map_option Suc (position P xs))"

definition find_or_add_column :: "object_name list \<Rightarrow> string \<Rightarrow> nat \<times> object_name list" where
  "find_or_add_column columns col =
     (case position (names_column col) columns of
        Some i \<Rightarrow> (i, columns)
      | None \<Rightarrow> (length columns, columns @ [[Identifier col]]))"

definition set_or_push_value :: "nat \<Rightarrow> sql_expr \<Rightarrow> sql_expr list \<Rightarrow> sql_expr list" where
  "set_or_push_value index v row = (if index < length row then row[index := v] else row @ [v])"

definition transform_insert :: "string \<Rightarrow> insert_stmt \<Rightarrow> (transform_error, insert_stmt) result" where
  "transform_insert timestamp ins =
     (let (i, columns) = find_or_add_column (ins_columns ins) HLC_TIMESTAMP_COLUMN;
          v = SingleQuotedString timestamp
      in (case ins_source ins of
            Some (Values vrows) \<Rightarrow>
              Inr (ins\<lparr>ins_columns := columns, ins_source := Some (Values (map (set_or_push_value i v) vrows))\<rparr>)
          | Some (SelectProjection proj) \<Rightarrow>
              Inr (ins\<lparr>ins_columns := columns, ins_source := Some (SelectProjection (set_or_push_value i v proj))\<rparr>)
          | Some OtherSource \<Rightarrow> Inl (UnsupportedStatement ''INSERT with unsupported source type'')
          | None \<Rightarrow> Inl (UnsupportedStatement ''INSERT statement has no source'')))"

text \<open>The result is the rewritten statement and the table whose schema changed.  Queries
  are walked and left as they are.\<close>

fun transform_execute_statement ::
  "string \<Rightarrow> statement \<Rightarrow> (transform_error, statement \<times> string option) result" where
  "transform_execute_statement ts (Query q) = Inr (Query q, None)"
| "transform_execute_statement ts (CreateTable name cols) =
     (if is_crdt_sync_table name
      then Inr (CreateTable name (add_to_table_definition cols), Some (normalize_table_name name))
      else Inr (CreateTable name cols, None))"
| "transform_execute_statement ts (Insert ins) =
     (case ins_table ins of
        Some name \<Rightarrow>
          if is_crdt_sync_table name
          then and_then (transform_insert ts ins) (\<lambda>ins'. Inr (Insert ins', None))
          else Inr (Insert ins, None)
      | None \<Rightarrow> Inr (Insert ins, None))"
| "transform_execute_statement ts (Update tbl assigns) =
     (case tbl of
        Some name \<Rightarrow>
          if is_crdt_sync_table name
          then Inr (Update tbl (assigns @ [create_hlc_assignment ts]), None)
          else Inr (Update tbl assigns, None)
      | None \<Rightarrow> Inr (Update tbl assigns, None))"
| "transform_execute_statement ts (Delete d) = Inr (Delete d, None)"
| "transform_execute_statement ts (AlterTable name op) =
     Inr (AlterTable name op, if is_crdt_sync_table name then Some (normalize_table_name name) else None)"
| "transform_execute_statement ts (CreateIndex i) = Inr (CreateIndex i, None)"
| "transform_execute_statement ts (OtherStatement s) = Inr (OtherStatement s, None)"


section \<open>Delete-log cleanup\<close>

definition saturating_mul :: "64 word \<Rightarrow> 64 word \<Rightarrow> 64 word" where
  "saturating_mul a b = (if unat a * unat b < 2 ^ 64 then a * b else - 1)"

definition saturating_sub :: "64 word \<Rightarrow> 64 word \<Rightarrow> 64 word" where
  "saturating_sub a b = (if b \<le> a then a - b else 0)"

definition ns_per_day :: "64 word" where
  "ns_per_day = 24 * 60 * 60 * 1000000000"

definition compute_cutoff_hlc_num :: "64 word \<Rightarrow> 32 word \<Rightarrow> int option" where
  "compute_cutoff_hlc_num current_hlc_num retention_days =
     (let retention_ns = saturating_mul (ucast retention_days) ns_per_day;
          cutoff = saturating_sub current_hlc_num retention_ns
      in if unat cutoff < 2 ^ 63 then Some (int (unat cutoff)) else None)"

text \<open>\<open>CAST(substr(h, 1, instr(h, '/') - 1) AS INTEGER)\<close>: the text before the first slash
  (empty without a slash), its longest prefix of digits, limited to the 64-bit range.\<close>

definition digit_prefix :: "string \<Rightarrow> nat" where
  "digit_prefix s = foldl (\<lambda>a c. a * 10 + ((of_char c :: nat) - 48)) 0 (takeWhile is_ascii_digit s)"

definition hlc_time_cast :: "string \<Rightarrow> int" where
  "hlc_time_cast h =
     (case split_once (CHR ''/'') h of
        None \<Rightarrow> 0
      | Some (t, _) \<Rightarrow> min (int (digit_prefix t)) (2 ^ 63 - 1))"

record cleanup_result =
  tombstones_deleted :: nat
  applied_deleted :: nat
  total_deleted :: nat

definition delete_log_entries :: "(row \<Rightarrow> bool) \<Rightarrow> crdt_db \<Rightarrow> (db_error, cleanup_result) result \<times> crdt_db" where
  "delete_log_entries P db =
     (case tables db DELETED_ROWS_TABLE of
        None \<Rightarrow> (Inl (SqlError ''no such table''), db)
      | Some tb \<Rightarrow>
          (let deleted = length (filter P (rows tb))
           in (Inr \<lparr>tombstones_deleted = deleted, applied_deleted = 1, total_deleted = deleted\<rparr>,
               set_table DELETED_ROWS_TABLE (tb\<lparr>rows := filter (\<lambda>r. \<not> P r) (rows tb)\<rparr>) db)))"

text \<open>\<open>parse_time\<close> is \<open>Timestamp::from_str\<close> followed by \<open>get_time\<close>.  The foreign key switch is
  off during the call and on afterwards.\<close>

definition cleanup_deleted_rows ::
  "(string \<Rightarrow> 64 word option) \<Rightarrow> config_db \<Rightarrow> 32 word \<Rightarrow> crdt_db
    \<Rightarrow> (db_error, cleanup_result) result \<times> crdt_db" where
  "cleanup_deleted_rows parse_time cfg retention_days db =
     (let nothing = \<lparr>tombstones_deleted = 0, applied_deleted = 0, total_deleted = 0\<rparr>;
          (res, db') =
            (if retention_days = 0 then delete_log_entries (\<lambda>_. True) db
             else (case (if db_error cfg = None then crdt_configs cfg HLC_TIMESTAMP_TYPE else None) of
                     None \<Rightarrow> (Inr nothing, db)
                   | Some (ty, hlc) \<Rightarrow>
                       if ty \<noteq> ''hlc'' then (Inr nothing, db)
                       else (case parse_time hlc of
                               None \<Rightarrow> (Inl (SqlError ''InvalidQuery''), db)
                             | Some now \<Rightarrow>
                                 (case compute_cutoff_hlc_num now retention_days of
                                    None \<Rightarrow> (Inr nothing, db)
                                  | Some cutoff \<Rightarrow>
                                      delete_log_entries
                                        (\<lambda>r. case row_hlc r of None \<Rightarrow> False
                                             | Some h \<Rightarrow> hlc_time_cast h < cutoff) db))))
      in (res, db'\<lparr>fk_enabled := True\<rparr>))"


section \<open>Properties\<close>

text \<open>The saturating 64-bit arithmetic of the cutoff agrees with exact arithmetic.\<close>

lemma unat_ns_per_day: "unat ns_per_day = 86400000000000"
  by (simp add: ns_per_day_def)

lemma saturating_sub_exact: "unat (saturating_sub a b) = unat a - unat b"
  by (auto simp: saturating_sub_def unat_sub word_le_nat_alt)

text \<open>The cleanup cutoff computed with saturating machine arithmetic is the exact
  difference of the current time and the retention period, cut off at zero, for every
  64-bit time and every 32-bit number of days; it is withheld exactly when it does not
  fit a signed 64-bit integer.\<close>

theorem cutoff_exact:
  "compute_cutoff_hlc_num now days =
     (let c = unat now - unat days * 86400000000000 in if c < 2 ^ 63 then Some (int c) else None)"
proof -
  have "unat days < 2 ^ 32" using unsigned_less [of days, where 'a = nat] by simp
  then have uc: "unat (ucast days :: 64 word) = unat days"
    by (simp add: unsigned_ucast_eq take_bit_nat_eq_self)
  have ret: "unat (saturating_mul (ucast days) ns_per_day) = min (unat days * 86400000000000) (2 ^ 64 - 1)"
  proof (cases "unat days * 86400000000000 < 2 ^ 64")
    case True
    then show ?thesis
      by (simp add: saturating_mul_def unat_ns_per_day uc unat_word_ariths(2))
  next
    case False
    then show ?thesis
      by (simp add: saturating_mul_def unat_ns_per_day uc unsigned_minus_1_eq_mask mask_eq_exp_minus_1)
  qed
  have "unat now < 2 ^ 64" using unsigned_less [of now, where 'a = nat] by simp
  then have "unat now - min (unat days * 86400000000000) (2 ^ 64 - 1) = unat now - unat days * 86400000000000"
    by simp
  then show ?thesis
    by (simp add: compute_cutoff_hlc_num_def saturating_sub_exact ret Let_def)
qed

lemma position_Some: "position P xs = Some i \<Longrightarrow> i < length xs \<and> P (xs ! i)"
  by (induction xs arbitrary: i) (auto split: if_splits)

lemma set_or_push_length:
  "i \<le> length row \<Longrightarrow> length (set_or_push_value i v row) = max (length row) (Suc i)"
  by (auto simp: set_or_push_value_def)

lemma set_or_push_nth:
  assumes "i \<le> length row"
  shows "set_or_push_value i v row ! i = v"
    "j < length row \<Longrightarrow> j \<noteq> i \<Longrightarrow> set_or_push_value i v row ! j = row ! j"
  using assms by (auto simp: set_or_push_value_def nth_append)

lemma find_or_add_column_index:
  assumes "find_or_add_column columns col = (i, columns')"
  shows "i < length columns'" "names_column col (columns' ! i)" "i \<le> length columns"
    "length columns' = max (length columns) (Suc i)" "j < length columns \<Longrightarrow> columns' ! j = columns ! j"
  using assms
  by (auto simp: find_or_add_column_def names_column_def nth_append split: option.splits dest: position_Some)

text \<open>Rewriting an INSERT with an explicit column list stamps every row and changes
  nothing else: each value row keeps one value per column, the value of the \<open>haex_hlc\<close> column
  is the transaction timestamp, and every other column keeps its name and value.\<close>

theorem transform_insert_stamps:
  assumes "ins_columns ins \<noteq> []" "ins_source ins = Some (Values vrows)"
    and "\<forall>vr\<in>set vrows. length vr = length (ins_columns ins)"
    and "transform_insert ts ins = Inr ins'"
  shows "\<exists>i vrows'. ins_source ins' = Some (Values vrows') \<and> length vrows' = length vrows
    \<and> i < length (ins_columns ins') \<and> names_column HLC_TIMESTAMP_COLUMN (ins_columns ins' ! i)
    \<and> (\<forall>k<length vrows. length (vrows' ! k) = length (ins_columns ins')
        \<and> vrows' ! k ! i = SingleQuotedString ts
        \<and> (\<forall>j<length (ins_columns ins). j \<noteq> i \<longrightarrow>
              ins_columns ins' ! j = ins_columns ins ! j \<and> vrows' ! k ! j = vrows ! k ! j))"
proof -
  obtain i columns' where fc: "find_or_add_column (ins_columns ins) HLC_TIMESTAMP_COLUMN = (i, columns')"
    by (cases "find_or_add_column (ins_columns ins) HLC_TIMESTAMP_COLUMN")
  note fcs = find_or_add_column_index [OF fc]
  have ins': "ins' = ins\<lparr>ins_columns := columns',
      ins_source := Some (Values (map (set_or_push_value i (SingleQuotedString ts)) vrows))\<rparr>"
    using assms(2,4) fc by (simp add: transform_insert_def)
  have len: "length (vrows ! k) = length (ins_columns ins)" if "k < length vrows" for k
    using assms(3) that by simp
  show ?thesis
    using fcs len by (intro exI [of _ i] exI [of _ "map (set_or_push_value i (SingleQuotedString ts)) vrows"])
      (simp add: ins' set_or_push_length set_or_push_nth)
qed

theorem transform_insert_stamps_witness:
  "\<exists>ins'. transform_insert ''7/1'' \<lparr>ins_table = Some [Identifier ''t''],
       ins_columns = [[Identifier ''id''], [Identifier ''a'']],
       ins_source = Some (Values [[OtherExpr ''1'', OtherExpr ''2'']])\<rparr> = Inr ins'
     \<and> (\<exists>i<length (ins_columns ins'). names_column HLC_TIMESTAMP_COLUMN (ins_columns ins' ! i))"
proof -
  let ?ins = "\<lparr>ins_table = Some [Identifier ''t''], ins_columns = [[Identifier ''id''], [Identifier ''a'']],
       ins_source = Some (Values [[OtherExpr ''1'', OtherExpr ''2'']])\<rparr>"
  obtain ins' where "transform_insert ''7/1'' ?ins = Inr ins'"
    by (cases "find_or_add_column [[Identifier ''id''], [Identifier ''a'']] HLC_TIMESTAMP_COLUMN")
      (simp add: transform_insert_def)
  then show ?thesis
    using transform_insert_stamps [of ?ins "[[OtherExpr ''1'', OtherExpr ''2'']]" "''7/1''" ins'] by auto
qed

text \<open>An INSERT without a column list is rewritten into a different statement: the
  column list becomes \<open>haex_hlc\<close> alone and the first value of every row is overwritten by the
  timestamp, so the first column's value is lost and the rest has no column.\<close>

theorem transform_insert_without_columns:
  "transform_insert ts \<lparr>ins_table = Some [Identifier ''t''], ins_columns = [],
      ins_source = Some (Values [v # vs])\<rparr>
   = Inr \<lparr>ins_table = Some [Identifier ''t''], ins_columns = [[Identifier HLC_TIMESTAMP_COLUMN]],
      ins_source = Some (Values [SingleQuotedString ts # vs])\<rparr>"
  by (simp add: transform_insert_def find_or_add_column_def set_or_push_value_def)

text \<open>Cleanup touches nothing but the delete log, and there it removes exactly the
  entries whose time lies before the cutoff: an entry at or after the cutoff survives.\<close>

theorem cleanup_keeps_recent:
  assumes "tables db DELETED_ROWS_TABLE = Some tb" "db_error cfg = None"
    and "crdt_configs cfg HLC_TIMESTAMP_TYPE = Some (''hlc'', hlc)" "parse_time hlc = Some now"
    and "days \<noteq> 0" "compute_cutoff_hlc_num now days = Some cutoff"
  shows "tables (snd (cleanup_deleted_rows parse_time cfg days db)) =
    (tables db)(DELETED_ROWS_TABLE \<mapsto> tb\<lparr>rows := filter (\<lambda>r. case row_hlc r of None \<Rightarrow> True
       | Some h \<Rightarrow> cutoff \<le> hlc_time_cast h) (rows tb)\<rparr>)"
proof -
  have "filter (\<lambda>r. \<not> (case row_hlc r of None \<Rightarrow> False | Some h \<Rightarrow> hlc_time_cast h < cutoff)) (rows tb)
     = filter (\<lambda>r. case row_hlc r of None \<Rightarrow> True | Some h \<Rightarrow> cutoff \<le> hlc_time_cast h) (rows tb)"
    by (rule filter_cong) (auto split: option.splits)
  then show ?thesis
    using assms by (simp add: cleanup_deleted_rows_def delete_log_entries_def set_table_def Let_def)
qed

definition log_row :: "string \<Rightarrow> row" where
  "log_row h = \<lparr>cells = Map.empty, row_hlc = Some h, column_hlcs = Map.empty\<rparr>"

theorem cleanup_keeps_recent_witness:
  "map_option rows (tables (snd (cleanup_deleted_rows (\<lambda>_. Some 86400000000010)
     \<lparr>crdt_configs = [HLC_TIMESTAMP_TYPE \<mapsto> (''hlc'', ''86400000000010/1'')], db_error = None\<rparr> 1
     (set_table DELETED_ROWS_TABLE \<lparr>schema = [], rows = [log_row ''9/1'', log_row ''10/1''], has_triggers = False\<rparr>
        sample_crdt_db))) DELETED_ROWS_TABLE) = Some [log_row ''10/1'']"
proof -
  let ?tb = "\<lparr>schema = [], rows = [log_row ''9/1'', log_row ''10/1''], has_triggers = False\<rparr>"
  have "compute_cutoff_hlc_num 86400000000010 1 = Some 10"
    by (simp add: compute_cutoff_hlc_num_def saturating_mul_def saturating_sub_def ns_per_day_def)
  then show ?thesis
    by (subst cleanup_keeps_recent [where tb = ?tb and hlc = "''86400000000010/1''" and now = 86400000000010 and cutoff = 10])
      (simp_all add: set_table_def log_row_def hlc_time_cast_def digit_prefix_def is_ascii_digit_def)
qed

end
