(* ===== verification/PermTypes.thy ===== *)
theory PermTypes
  imports Prelude
begin

text \<open>
  \<open>extension/permissions/types.rs\<close>: the actions an extension can ask for, permissions,
  and the conversions between a permission and its database row.  The constraint object
  goes through an untagged serde enum, which is modelled on JSON values; the text form of
  JSON (\<open>serde_json::to_string\<close> and \<open>from_str\<close>) is the pair of arguments
  \<open>json_print\<close> and \<open>json_parse\<close>.
\<close>

section \<open>Actions\<close>

datatype filesync_target = FsAll | FsSpaces | FsBackends | FsRules
datatype db_action = DbRead | DbReadWrite | DbCreate | DbDelete | DbAlterDrop
datatype fs_action = FsRead | FsReadWrite
datatype web_action = WGet | WPost | WPut | WPatch | WDelete | WAll
datatype shell_action = Execute
datatype file_sync_action = SyncRead | SyncReadWrite
datatype space_action = SpaceRead | SpaceReadWrite
datatype identity_action = IdentityRead
datatype mail_action = Fetch | Send
datatype passwords_action = PwRead | PwReadWrite
datatype passwords_scope = PwAll | PwTags "string list"

datatype action =
    Database db_action
  | Filesystem fs_action
  | Web web_action
  | Shell shell_action
  | FileSync file_sync_action
  | Spaces space_action
  | Identities identity_action
  | Passwords passwords_action
  | Mail mail_action

datatype resource_type =
  RFs | RWeb | RDb | RShell | RFilesync | RSpaces | RIdentities | RPasswords | RMail

datatype permission_status = Ask | Granted | Denied

datatype permission_constraints =
    DbConstraints "string option" "string list option" "nat option"
  | FsConstraints "nat option" "string list option" "bool option"
  | WebConstraints "string list option" "(nat \<times> nat) option"
  | ShellConstraints "string list option" "string list option" "string list option"

record extension_permission =
  perm_id :: string
  perm_extension_id :: string
  perm_resource_type :: resource_type
  perm_action :: action
  perm_target :: string
  perm_constraints :: "permission_constraints option"
  perm_status :: permission_status

datatype extension_error =
    ValidationErr string
  | InvalidActionString string string
  | PermissionDenied string string string
  | PermissionPromptRequired string string string string string
  | ExtDatabaseError string


section \<open>Targets and rights\<close>

fun filesync_target_as_str :: "filesync_target \<Rightarrow> string" where
  "filesync_target_as_str FsAll = ''*''"
| "filesync_target_as_str FsSpaces = ''spaces''"
| "filesync_target_as_str FsBackends = ''backends''"
| "filesync_target_as_str FsRules = ''rules''"

definition filesync_target_from_str :: "string \<Rightarrow> filesync_target option" where
  "filesync_target_from_str s =
     (if s = ''*'' then Some FsAll else if s = ''spaces'' then Some FsSpaces
      else if s = ''backends'' then Some FsBackends else if s = ''rules'' then Some FsRules else None)"

fun filesync_target_matches :: "filesync_target \<Rightarrow> filesync_target \<Rightarrow> bool" where
  "filesync_target_matches FsAll required = True"
| "filesync_target_matches t required = (t = required)"

fun db_allows_read :: "db_action \<Rightarrow> bool" where
  "db_allows_read DbRead = True"
| "db_allows_read DbReadWrite = True"
| "db_allows_read _ = False"

fun db_allows_write :: "db_action \<Rightarrow> bool" where
  "db_allows_write DbReadWrite = True"
| "db_allows_write DbCreate = True"
| "db_allows_write DbDelete = True"
| "db_allows_write _ = False"


section \<open>Text forms\<close>

fun db_action_as_str :: "db_action \<Rightarrow> string" where
  "db_action_as_str DbRead = ''read''"
| "db_action_as_str DbReadWrite = ''readWrite''"
| "db_action_as_str DbCreate = ''create''"
| "db_action_as_str DbDelete = ''delete''"
| "db_action_as_str DbAlterDrop = ''alterDrop''"

fun fs_action_as_str :: "fs_action \<Rightarrow> string" where
  "fs_action_as_str FsRead = ''read''"
| "fs_action_as_str FsReadWrite = ''readWrite''"

fun mail_action_as_str :: "mail_action \<Rightarrow> string" where
  "mail_action_as_str Fetch = ''fetch''"
| "mail_action_as_str Send = ''send''"

fun web_action_text :: "web_action \<Rightarrow> string" where
  "web_action_text WGet = ''GET''"
| "web_action_text WPost = ''POST''"
| "web_action_text WPut = ''PUT''"
| "web_action_text WPatch = ''PATCH''"
| "web_action_text WDelete = ''DELETE''"
| "web_action_text WAll = ''*''"

fun action_as_str :: "action \<Rightarrow> string" where
  "action_as_str (Database a) = db_action_as_str a"
| "action_as_str (Filesystem a) = fs_action_as_str a"
| "action_as_str (Web a) = web_action_text a"
| "action_as_str (Shell Execute) = ''execute''"
| "action_as_str (FileSync SyncRead) = ''read''"
| "action_as_str (FileSync SyncReadWrite) = ''readWrite''"
| "action_as_str (Spaces SpaceRead) = ''read''"
| "action_as_str (Spaces SpaceReadWrite) = ''readWrite''"
| "action_as_str (Identities IdentityRead) = ''read''"
| "action_as_str (Passwords PwRead) = ''read''"
| "action_as_str (Passwords PwReadWrite) = ''readWrite''"
| "action_as_str (Mail a) = mail_action_as_str a"

definition is_read_write :: "string \<Rightarrow> bool" where
  "is_read_write l \<longleftrightarrow> l = ''readwrite'' \<or> l = ''read_write''"

definition db_action_from_str :: "string \<Rightarrow> (extension_error, db_action) result" where
  "db_action_from_str s =
     (let l = to_lowercase s
      in if l = ''read'' then Inr DbRead
         else if is_read_write l then Inr DbReadWrite
         else if l = ''create'' then Inr DbCreate
         else if l = ''delete'' then Inr DbDelete
         else if l = ''alterdrop'' \<or> l = ''alter_drop'' then Inr DbAlterDrop
         else Inl (InvalidActionString s ''database''))"

definition fs_action_from_str :: "string \<Rightarrow> (extension_error, fs_action) result" where
  "fs_action_from_str s =
     (let l = to_lowercase s
      in if l = ''read'' then Inr FsRead else if is_read_write l then Inr FsReadWrite
         else Inl (InvalidActionString s ''filesystem''))"

definition web_action_from_str :: "string \<Rightarrow> (extension_error, web_action) result" where
  "web_action_from_str s =
     (let u = to_uppercase s
      in if u = ''GET'' then Inr WGet else if u = ''POST'' then Inr WPost else if u = ''PUT'' then Inr WPut
         else if u = ''PATCH'' then Inr WPatch else if u = ''DELETE'' then Inr WDelete
         else if u = ''*'' then Inr WAll else Inl (InvalidActionString s ''web''))"

text \<open>Stored web actions go through serde, which is case-sensitive.\<close>

definition web_action_serde :: "string \<Rightarrow> (extension_error, web_action) result" where
  "web_action_serde s =
     (if s = ''GET'' then Inr WGet else if s = ''POST'' then Inr WPost else if s = ''PUT'' then Inr WPut
      else if s = ''PATCH'' then Inr WPatch else if s = ''DELETE'' then Inr WDelete
      else if s = ''*'' then Inr WAll else Inl (InvalidActionString s ''web''))"

definition shell_action_from_str :: "string \<Rightarrow> (extension_error, shell_action) result" where
  "shell_action_from_str s =
     (if to_lowercase s = ''execute'' then Inr Execute else Inl (InvalidActionString s ''shell''))"

definition file_sync_action_from_str :: "string \<Rightarrow> (extension_error, file_sync_action) result" where
  "file_sync_action_from_str s =
     (let l = to_lowercase s
      in if l = ''read'' then Inr SyncRead else if is_read_write l then Inr SyncReadWrite
         else Inl (InvalidActionString s ''filesync''))"

definition space_action_from_str :: "string \<Rightarrow> (extension_error, space_action) result" where
  "space_action_from_str s =
     (let l = to_lowercase s
      in if l = ''read'' then Inr SpaceRead else if is_read_write l then Inr SpaceReadWrite
         else Inl (InvalidActionString s ''spaces''))"

definition identity_action_from_str :: "string \<Rightarrow> (extension_error, identity_action) result" where
  "identity_action_from_str s =
     (if to_lowercase s = ''read'' then Inr IdentityRead else Inl (InvalidActionString s ''identities''))"

definition mail_action_from_str :: "string \<Rightarrow> (extension_error, mail_action) result" where
  "mail_action_from_str s =
     (let l = to_lowercase s
      in if l = ''fetch'' then Inr Fetch else if l = ''send'' then Inr Send
         else Inl (InvalidActionString s ''mail''))"

definition passwords_action_from_str :: "string \<Rightarrow> (extension_error, passwords_action) result" where
  "passwords_action_from_str s =
     (let l = to_lowercase s
      in if l = ''read'' then Inr PwRead else if is_read_write l then Inr PwReadWrite
         else Inl (InvalidActionString s ''passwords''))"

fun action_from_str :: "resource_type \<Rightarrow> string \<Rightarrow> (extension_error, action) result" where
  "action_from_str RDb s = and_then (db_action_from_str s) (\<lambda>a. Inr (Database a))"
| "action_from_str RFs s = and_then (fs_action_from_str s) (\<lambda>a. Inr (Filesystem a))"
| "action_from_str RWeb s = and_then (web_action_serde s) (\<lambda>a. Inr (Web a))"
| "action_from_str RShell s = and_then (shell_action_from_str s) (\<lambda>a. Inr (Shell a))"
| "action_from_str RFilesync s = and_then (file_sync_action_from_str s) (\<lambda>a. Inr (FileSync a))"
| "action_from_str RSpaces s = and_then (space_action_from_str s) (\<lambda>a. Inr (Spaces a))"
| "action_from_str RIdentities s = and_then (identity_action_from_str s) (\<lambda>a. Inr (Identities a))"
| "action_from_str RPasswords s = and_then (passwords_action_from_str s) (\<lambda>a. Inr (Passwords a))"
| "action_from_str RMail s = and_then (mail_action_from_str s) (\<lambda>a. Inr (Mail a))"

fun resource_type_as_str :: "resource_type \<Rightarrow> string" where
  "resource_type_as_str RFs = ''fs''"
| "resource_type_as_str RWeb = ''web''"
| "resource_type_as_str RDb = ''db''"
| "resource_type_as_str RShell = ''shell''"
| "resource_type_as_str RFilesync = ''filesync''"
| "resource_type_as_str RSpaces = ''spaces''"
| "resource_type_as_str RIdentities = ''identities''"
| "resource_type_as_str RPasswords = ''passwords''"
| "resource_type_as_str RMail = ''mail''"

definition resource_type_from_str :: "string \<Rightarrow> (extension_error, resource_type) result" where
  "resource_type_from_str s =
     (if s = ''fs'' then Inr RFs else if s = ''web'' then Inr RWeb else if s = ''db'' then Inr RDb
      else if s = ''shell'' then Inr RShell else if s = ''filesync'' then Inr RFilesync
      else if s = ''spaces'' then Inr RSpaces else if s = ''identities'' then Inr RIdentities
      else if s = ''passwords'' then Inr RPasswords else if s = ''mail'' then Inr RMail
      else Inl (ValidationErr s))"

text \<open>The older parser of \<open>manager.rs\<close> does not know the last two types.\<close>

definition parse_resource_type :: "string \<Rightarrow> (string, resource_type) result" where
  "parse_resource_type s =
     (if s = ''fs'' then Inr RFs else if s = ''web'' then Inr RWeb else if s = ''db'' then Inr RDb
      else if s = ''shell'' then Inr RShell else if s = ''filesync'' then Inr RFilesync
      else if s = ''spaces'' then Inr RSpaces else if s = ''identities'' then Inr RIdentities
      else Inl s)"

fun permission_status_as_str :: "permission_status \<Rightarrow> string" where
  "permission_status_as_str Ask = ''ask''"
| "permission_status_as_str Granted = ''granted''"
| "permission_status_as_str Denied = ''denied''"

definition permission_status_from_str :: "string \<Rightarrow> (extension_error, permission_status) result" where
  "permission_status_from_str s =
     (if s = ''ask'' then Inr Ask else if s = ''granted'' then Inr Granted
      else if s = ''denied'' then Inr Denied else Inl (ValidationErr s))"


section \<open>Rows\<close>

record perm_row =
  pr_id :: string
  pr_extension_id :: string
  pr_resource_type :: "string option"
  pr_action :: "string option"
  pr_target :: "string option"
  pr_constraints :: "string option"
  pr_status :: string

definition permission_to_row :: "(permission_constraints \<Rightarrow> string option) \<Rightarrow> extension_permission \<Rightarrow> perm_row" where
  "permission_to_row show_c perm = \<lparr>
     pr_id = perm_id perm, pr_extension_id = perm_extension_id perm,
     pr_resource_type = Some (resource_type_as_str (perm_resource_type perm)),
     pr_action = Some (action_as_str (perm_action perm)),
     pr_target = Some (perm_target perm),
     pr_constraints = Option.bind (perm_constraints perm) show_c,
     pr_status = permission_status_as_str (perm_status perm)\<rparr>"

definition permission_from_row :: "(string \<Rightarrow> permission_constraints option) \<Rightarrow> perm_row \<Rightarrow> extension_permission" where
  "permission_from_row parse_c r =
     (let rt = (case Option.bind (pr_resource_type r) (\<lambda>s. ok (resource_type_from_str s)) of
                  Some t \<Rightarrow> t | None \<Rightarrow> RDb);
          act = (case Option.bind (pr_action r) (\<lambda>s. ok (action_from_str rt s)) of
                   Some a \<Rightarrow> a | None \<Rightarrow> Database DbRead);
          st = (case ok (permission_status_from_str (pr_status r)) of Some s \<Rightarrow> s | None \<Rightarrow> Denied)
      in \<lparr>perm_id = pr_id r, perm_extension_id = pr_extension_id r, perm_resource_type = rt,
          perm_action = act, perm_target = (case pr_target r of Some t \<Rightarrow> t | None \<Rightarrow> []),
          perm_constraints = Option.bind (pr_constraints r) parse_c, perm_status = st\<rparr>)"


section \<open>Constraints as JSON\<close>

definition opt_field :: "string \<Rightarrow> ('a \<Rightarrow> json) \<Rightarrow> 'a option \<Rightarrow> (string \<times> json) list" where
  "opt_field k f v = (case v of None \<Rightarrow> [] | Some x \<Rightarrow> [(k, f x)])"

definition json_strings :: "string list \<Rightarrow> json" where
  "json_strings xs = JArray (map JString xs)"

fun constraints_to_json :: "permission_constraints \<Rightarrow> json" where
  "constraints_to_json (DbConstraints wc cols lim) =
     JObject (opt_field ''where_clause'' JString wc @ opt_field ''columns'' json_strings cols
       @ opt_field ''limit'' (\<lambda>n. JInt (int n)) lim)"
| "constraints_to_json (FsConstraints sz exts rec) =
     JObject (opt_field ''max_file_size'' (\<lambda>n. JInt (int n)) sz @ opt_field ''allowed_extensions'' json_strings exts
       @ opt_field ''recursive'' JBool rec)"
| "constraints_to_json (WebConstraints ms rate) =
     JObject (opt_field ''methods'' json_strings ms
       @ opt_field ''rate_limit'' (\<lambda>(r, m). JObject [(''requests'', JInt (int r)), (''per_minutes'', JInt (int m))]) rate)"
| "constraints_to_json (ShellConstraints subs flags forb) =
     JObject (opt_field ''allowed_subcommands'' json_strings subs @ opt_field ''allowed_flags'' json_strings flags
       @ opt_field ''forbidden_args'' json_strings forb)"

text \<open>Reading a struct: unknown fields are ignored, a repeated known field is an error, an
  absent or null optional field is \<open>None\<close>; a JSON array is accepted too, field by field.\<close>

fun read_string :: "json \<Rightarrow> string option" where
  "read_string (JString s) = Some s"
| "read_string _ = None"

fun read_bool :: "json \<Rightarrow> bool option" where
  "read_bool (JBool b) = Some b"
| "read_bool _ = None"

fun read_uint :: "nat \<Rightarrow> json \<Rightarrow> nat option" where
  "read_uint bits (JInt i) = (if 0 \<le> i \<and> i < 2 ^ bits then Some (nat i) else None)"
| "read_uint bits _ = None"

fun read_all :: "(json \<Rightarrow> 'a option) \<Rightarrow> json list \<Rightarrow> 'a list option" where
  "read_all f [] = Some []"
| "read_all f (j # js) = (case (f j, read_all f js) of (Some x, Some xs) \<Rightarrow> Some (x # xs) | _ \<Rightarrow> None)"

fun read_strings :: "json \<Rightarrow> string list option" where
  "read_strings (JArray js) = read_all read_string js"
| "read_strings _ = None"

fun read_opt :: "(json \<Rightarrow> 'a option) \<Rightarrow> json \<Rightarrow> 'a option option" where
  "read_opt f JNull = Some None"
| "read_opt f j = map_option Some (f j)"

definition obj_field :: "string \<Rightarrow> (json \<Rightarrow> 'a option) \<Rightarrow> (string \<times> json) list \<Rightarrow> 'a option option" where
  "obj_field k f kvs =
     (case filter (\<lambda>(k', _). k' = k) kvs of
        [] \<Rightarrow> Some None
      | [(_, j)] \<Rightarrow> read_opt f j
      | _ \<Rightarrow> None)"

fun read_rate_limit :: "json \<Rightarrow> (nat \<times> nat) option" where
  "read_rate_limit (JObject kvs) =
     (case (obj_field ''requests'' (read_uint 32) kvs, obj_field ''per_minutes'' (read_uint 32) kvs) of
        (Some (Some r), Some (Some m)) \<Rightarrow> Some (r, m)
      | _ \<Rightarrow> None)"
| "read_rate_limit (JArray [r, m]) =
     (case (read_uint 32 r, read_uint 32 m) of (Some r, Some m) \<Rightarrow> Some (r, m) | _ \<Rightarrow> None)"
| "read_rate_limit _ = None"

definition struct3 :: "('a option \<Rightarrow> 'b option \<Rightarrow> 'c option \<Rightarrow> 'd) \<Rightarrow> string \<Rightarrow> (json \<Rightarrow> 'a option)
    \<Rightarrow> string \<Rightarrow> (json \<Rightarrow> 'b option) \<Rightarrow> string \<Rightarrow> (json \<Rightarrow> 'c option) \<Rightarrow> json \<Rightarrow> 'd option" where
  "struct3 con k1 f1 k2 f2 k3 f3 j =
     (case (case j of
              JObject kvs \<Rightarrow> (obj_field k1 f1 kvs, obj_field k2 f2 kvs, obj_field k3 f3 kvs)
            | JArray [a, b, c] \<Rightarrow> (read_opt f1 a, read_opt f2 b, read_opt f3 c)
            | _ \<Rightarrow> (None, None, None)) of
        (Some a, Some b, Some c) \<Rightarrow> Some (con a b c)
      | _ \<Rightarrow> None)"

definition web_constraints_from_json :: "json \<Rightarrow> permission_constraints option" where
  "web_constraints_from_json j =
     (case (case j of
              JObject kvs \<Rightarrow> (obj_field ''methods'' read_strings kvs, obj_field ''rate_limit'' read_rate_limit kvs)
            | JArray [a, b] \<Rightarrow> (read_opt read_strings a, read_opt read_rate_limit b)
            | _ \<Rightarrow> (None, None)) of
        (Some a, Some b) \<Rightarrow> Some (WebConstraints a b)
      | _ \<Rightarrow> None)"

text \<open>\<open>#[serde(untagged)]\<close>: the first variant that can be read wins.\<close>

definition constraints_from_json :: "json \<Rightarrow> permission_constraints option" where
  "constraints_from_json j =
     (case struct3 DbConstraints ''where_clause'' read_string ''columns'' read_strings ''limit'' (read_uint 32) j of
        Some c \<Rightarrow> Some c
      | None \<Rightarrow>
     (case struct3 FsConstraints ''max_file_size'' (read_uint 64) ''allowed_extensions'' read_strings
             ''recursive'' read_bool j of
        Some c \<Rightarrow> Some c
      | None \<Rightarrow>
     (case web_constraints_from_json j of
        Some c \<Rightarrow> Some c
      | None \<Rightarrow> struct3 ShellConstraints ''allowed_subcommands'' read_strings ''allowed_flags'' read_strings
             ''forbidden_args'' read_strings j)))"

definition store_constraints :: "(json \<Rightarrow> string) \<Rightarrow> permission_constraints \<Rightarrow> string option" where
  "store_constraints json_print c = Some (json_print (constraints_to_json c))"

definition load_constraints :: "(string \<Rightarrow> json option) \<Rightarrow> string \<Rightarrow> permission_constraints option" where
  "load_constraints json_parse s = Option.bind (json_parse s) constraints_from_json"


section \<open>Round trips\<close>

lemma read_all_strings [simp]: "read_all read_string (map JString xs) = Some xs"
  by (induction xs) auto

text \<open>What reading back makes of each variant: only database constraints survive, the other
  three come back as empty database constraints.\<close>

definition db_limit_ok :: "permission_constraints \<Rightarrow> bool" where
  "db_limit_ok c = (case c of DbConstraints _ _ (Some n) \<Rightarrow> n < 2 ^ 32 | _ \<Rightarrow> True)"

lemma obj_field_simps [simp]:
  "obj_field k f [] = Some None"
  "k' \<noteq> k \<Longrightarrow> obj_field k f (opt_field k' g v @ kvs) = obj_field k f kvs"
  "k' \<noteq> k \<Longrightarrow> obj_field k f (opt_field k' g v) = Some None"
  by (auto simp: obj_field_def opt_field_def split: option.splits)

lemma obj_field_hit:
  assumes "obj_field k f kvs = Some None" "\<And>x. v = Some x \<Longrightarrow> read_opt f (g x) = Some (Some x)"
    "filter (\<lambda>(k', _). k' = k) kvs = []"
  shows "obj_field k f (opt_field k g v @ kvs) = Some v"
  using assms by (auto simp: obj_field_def opt_field_def split: option.splits)

lemma filter_opt_field [simp]: "k' \<noteq> k \<Longrightarrow> filter (\<lambda>(k', _). k' = k) (opt_field k' g v) = []"
  by (auto simp: opt_field_def split: option.splits)

lemma constraints_json:
  assumes "db_limit_ok c"
  shows "constraints_from_json (constraints_to_json c) =
    Some (case c of DbConstraints _ _ _ \<Rightarrow> c | _ \<Rightarrow> DbConstraints None None None)"
proof (cases c)
  case (DbConstraints wc cols lim)
  have w: "obj_field ''where_clause'' read_string (opt_field ''where_clause'' JString wc @ opt_field ''columns'' json_strings cols
       @ opt_field ''limit'' (\<lambda>n. JInt (int n)) lim) = Some wc"
    by (rule obj_field_hit) simp_all
  have cs: "obj_field ''columns'' read_strings (opt_field ''columns'' json_strings cols
       @ opt_field ''limit'' (\<lambda>n. JInt (int n)) lim) = Some cols"
    by (rule obj_field_hit) (simp_all add: json_strings_def)
  have l: "obj_field ''limit'' (read_uint 32) (opt_field ''limit'' (\<lambda>n. JInt (int n)) lim @ []) = Some lim"
    using assms DbConstraints by (intro obj_field_hit) (auto simp: db_limit_ok_def)
  show ?thesis
    using DbConstraints w cs l by (simp add: constraints_from_json_def struct3_def)
qed (simp_all add: constraints_from_json_def struct3_def)

fun action_type :: "action \<Rightarrow> resource_type" where
  "action_type (Database _) = RDb"
| "action_type (Filesystem _) = RFs"
| "action_type (Web _) = RWeb"
| "action_type (Shell _) = RShell"
| "action_type (FileSync _) = RFilesync"
| "action_type (Spaces _) = RSpaces"
| "action_type (Identities _) = RIdentities"
| "action_type (Passwords _) = RPasswords"
| "action_type (Mail _) = RMail"

lemma to_lowercase_consts:
  "to_lowercase ''read'' = ''read''" "to_lowercase ''readWrite'' = ''readwrite''"
  "to_lowercase ''create'' = ''create''" "to_lowercase ''delete'' = ''delete''"
  "to_lowercase ''alterDrop'' = ''alterdrop''" "to_lowercase ''execute'' = ''execute''"
  "to_lowercase ''fetch'' = ''fetch''" "to_lowercase ''send'' = ''send''"
  by code_simp+

lemmas action_parsers = db_action_from_str_def fs_action_from_str_def web_action_serde_def
  shell_action_from_str_def file_sync_action_from_str_def space_action_from_str_def
  identity_action_from_str_def mail_action_from_str_def passwords_action_from_str_def is_read_write_def

lemma action_roundtrip: "action_from_str (action_type a) (action_as_str a) = Inr a"
proof (cases a)
  case (Database x) then show ?thesis by (cases x) (simp_all add: action_parsers to_lowercase_consts)
next
  case (Filesystem x) then show ?thesis by (cases x) (simp_all add: action_parsers to_lowercase_consts)
next
  case (Web x) then show ?thesis by (cases x) (simp_all add: action_parsers)
next
  case (Shell x) then show ?thesis by (cases x) (simp_all add: action_parsers to_lowercase_consts)
next
  case (FileSync x) then show ?thesis by (cases x) (simp_all add: action_parsers to_lowercase_consts)
next
  case (Spaces x) then show ?thesis by (cases x) (simp_all add: action_parsers to_lowercase_consts)
next
  case (Identities x) then show ?thesis by (cases x) (simp_all add: action_parsers to_lowercase_consts)
next
  case (Passwords x) then show ?thesis by (cases x) (simp_all add: action_parsers to_lowercase_consts)
next
  case (Mail x) then show ?thesis by (cases x) (simp_all add: action_parsers to_lowercase_consts)
qed

lemma resource_type_roundtrip: "resource_type_from_str (resource_type_as_str t) = Inr t"
  by (cases t) (simp_all add: resource_type_from_str_def)

lemma permission_status_roundtrip: "permission_status_from_str (permission_status_as_str s) = Inr s"
  by (cases s) (simp_all add: permission_status_from_str_def)

lemma stored_permission:
  assumes "perm_resource_type p = action_type (perm_action p)"
    and "\<forall>c. perm_constraints p = Some c \<longrightarrow> json_parse (json_print (constraints_to_json c)) = Some (constraints_to_json c)"
    and "pred_option db_limit_ok (perm_constraints p)"
  shows "permission_from_row (load_constraints json_parse) (permission_to_row (store_constraints json_print) p)
    = p\<lparr>perm_constraints := map_option (\<lambda>c. case c of DbConstraints _ _ _ \<Rightarrow> c | _ \<Rightarrow> DbConstraints None None None)
         (perm_constraints p)\<rparr>"
  using assms
  by (cases "perm_constraints p")
    (simp_all add: permission_from_row_def permission_to_row_def Let_def resource_type_roundtrip
        permission_status_roundtrip action_roundtrip store_constraints_def load_constraints_def constraints_json)

text \<open>A permission whose action belongs to its resource type survives being stored: the
  permission read back from the row written for it has the same id, extension, type, action,
  target and status, and the same constraints when it has none or database constraints.\<close>

theorem permission_roundtrip:
  assumes "perm_resource_type p = action_type (perm_action p)"
    and "\<forall>c. perm_constraints p = Some c \<longrightarrow> json_parse (json_print (constraints_to_json c)) = Some (constraints_to_json c)"
    and "case perm_constraints p of Some c \<Rightarrow> (\<exists>wc cols lim. c = DbConstraints wc cols lim) \<and> db_limit_ok c | None \<Rightarrow> True"
  shows "permission_from_row (load_constraints json_parse) (permission_to_row (store_constraints json_print) p) = p"
  using assms stored_permission [of p json_parse json_print]
  by (auto split: option.splits permission_constraints.splits)

text \<open>A print and parse pair for objects with one list of one text, to instantiate the
  hypotheses about \<open>serde_json\<close>.\<close>

fun sample_print :: "json \<Rightarrow> string" where
  "sample_print (JObject [(k, JArray [JString v])]) = k @ CHR '':'' # v"
| "sample_print _ = []"

definition sample_parse :: "string \<Rightarrow> json option" where
  "sample_parse s = map_option (\<lambda>(k, v). JObject [(k, JArray [JString v])]) (split_once (CHR '':'') s)"

definition sample_db_perm :: extension_permission where
  "sample_db_perm = \<lparr>perm_id = ''p'', perm_extension_id = ''e'', perm_resource_type = RDb, perm_action = Database DbReadWrite,
      perm_target = ''notes'', perm_constraints = Some (DbConstraints None (Some [''title'']) None), perm_status = Granted\<rparr>"

theorem permission_roundtrip_witness:
  "permission_from_row (load_constraints sample_parse) (permission_to_row (store_constraints sample_print) sample_db_perm)
   = sample_db_perm"
  by (rule permission_roundtrip)
    (simp_all add: sample_db_perm_def sample_parse_def opt_field_def json_strings_def db_limit_ok_def)

end
