(* ===== verification/PermSession.thy ===== *)
theory PermSession
  imports PermTypes
begin

text \<open>
  \<open>extension/permissions/session.rs\<close>: permissions granted for the running session, a hash
  map behind a mutex, here an association list with distinct keys and the poison flag of
  the mutex.  A poisoned mutex turns every update into a no-op and every query into
  "nothing found".

  The locale \<open>keyed_store\<close> is the contract of such a store; it is interpreted on the
  session store.
\<close>

section \<open>The contract of a keyed store\<close>

locale keyed_store =
  fixes ok_store :: "'s \<Rightarrow> bool"
    and lookup :: "'s \<Rightarrow> 'k \<Rightarrow> 'v option"
    and put :: "'s \<Rightarrow> 'k \<Rightarrow> 'v \<Rightarrow> 's"
    and remove :: "'s \<Rightarrow> 'k \<Rightarrow> 's"
    and retain :: "'s \<Rightarrow> ('k \<Rightarrow> bool) \<Rightarrow> 's"
  assumes ok_put: "ok_store s \<Longrightarrow> ok_store (put s k v)"
    and ok_remove: "ok_store s \<Longrightarrow> ok_store (remove s k)"
    and ok_retain: "ok_store s \<Longrightarrow> ok_store (retain s P)"
    and lookup_put: "ok_store s \<Longrightarrow> lookup (put s k v) k' = (if k' = k then Some v else lookup s k')"
    and lookup_remove: "ok_store s \<Longrightarrow> lookup (remove s k) k' = (if k' = k then None else lookup s k')"
    and lookup_retain: "ok_store s \<Longrightarrow> lookup (retain s P) k' = (if P k' then lookup s k' else None)"
begin

lemma put_put: "ok_store s \<Longrightarrow> lookup (put (put s k v) k w) k' = lookup (put s k w) k'"
  by (simp add: lookup_put ok_put)

lemma put_commute:
  "ok_store s \<Longrightarrow> k \<noteq> l \<Longrightarrow> lookup (put (put s k v) l w) k' = lookup (put (put s l w) k v) k'"
  by (simp add: lookup_put ok_put)

lemma remove_put: "ok_store s \<Longrightarrow> lookup (remove (put s k v) k) k' = lookup (remove s k) k'"
  by (simp add: lookup_put lookup_remove ok_put)

lemma retain_put:
  "ok_store s \<Longrightarrow> lookup (retain (put s k v) P) k' = (if P k then lookup (put (retain s P) k v) k' else lookup (retain s P) k')"
  by (auto simp: lookup_put lookup_retain ok_put ok_retain)

end


section \<open>The session store\<close>

type_synonym session_key = "string \<times> resource_type \<times> string"

record session_store =
  sess_entries :: "(session_key \<times> extension_permission) list"
  sess_poisoned :: bool

definition session_new :: session_store where
  "session_new = \<lparr>sess_entries = [], sess_poisoned = False\<rparr>"

definition store_lookup :: "session_store \<Rightarrow> session_key \<Rightarrow> extension_permission option" where
  "store_lookup s k = (if sess_poisoned s then None else map_of (sess_entries s) k)"

definition store_put :: "session_store \<Rightarrow> session_key \<Rightarrow> extension_permission \<Rightarrow> session_store" where
  "store_put s k v =
     (if sess_poisoned s then s
      else s\<lparr>sess_entries := filter (\<lambda>e. fst e \<noteq> k) (sess_entries s) @ [(k, v)]\<rparr>)"

definition store_remove :: "session_store \<Rightarrow> session_key \<Rightarrow> session_store" where
  "store_remove s k =
     (if sess_poisoned s then s else s\<lparr>sess_entries := filter (\<lambda>e. fst e \<noteq> k) (sess_entries s)\<rparr>)"

definition store_retain :: "session_store \<Rightarrow> (session_key \<Rightarrow> bool) \<Rightarrow> session_store" where
  "store_retain s P =
     (if sess_poisoned s then s else s\<lparr>sess_entries := filter (\<lambda>e. P (fst e)) (sess_entries s)\<rparr>)"

definition perm_key :: "extension_permission \<Rightarrow> session_key" where
  "perm_key p = (perm_extension_id p, perm_resource_type p, perm_target p)"

definition set_permission :: "session_store \<Rightarrow> extension_permission \<Rightarrow> session_store" where
  "set_permission s p = store_put s (perm_key p) p"

definition get_permission :: "session_store \<Rightarrow> string \<Rightarrow> resource_type \<Rightarrow> string \<Rightarrow> permission_status option" where
  "get_permission s ext rt target = map_option perm_status (store_lookup s (ext, rt, target))"

definition is_granted :: "session_store \<Rightarrow> string \<Rightarrow> resource_type \<Rightarrow> string \<Rightarrow> bool" where
  "is_granted s ext rt target \<longleftrightarrow> get_permission s ext rt target = Some Granted"

definition is_denied :: "session_store \<Rightarrow> string \<Rightarrow> resource_type \<Rightarrow> string \<Rightarrow> bool" where
  "is_denied s ext rt target \<longleftrightarrow> get_permission s ext rt target = Some Denied"

definition clear_extension :: "session_store \<Rightarrow> string \<Rightarrow> session_store" where
  "clear_extension s ext = store_retain s (\<lambda>k. fst k \<noteq> ext)"

definition clear_all :: "session_store \<Rightarrow> session_store" where
  "clear_all s = (if sess_poisoned s then s else s\<lparr>sess_entries := []\<rparr>)"

definition get_permissions_for_extension :: "session_store \<Rightarrow> string \<Rightarrow> extension_permission list" where
  "get_permissions_for_extension s ext =
     (if sess_poisoned s then []
      else map snd (filter (\<lambda>e. fst (fst e) = ext) (sess_entries s)))"

definition remove_permission :: "session_store \<Rightarrow> string \<Rightarrow> resource_type \<Rightarrow> string \<Rightarrow> session_store" where
  "remove_permission s ext rt target = store_remove s (ext, rt, target)"

text \<open>The invariant: a usable mutex and distinct keys.\<close>

definition session_ok :: "session_store \<Rightarrow> bool" where
  "session_ok s \<longleftrightarrow> \<not> sess_poisoned s \<and> distinct (map fst (sess_entries s))"

interpretation session: keyed_store session_ok store_lookup store_put store_remove store_retain
proof
  fix s k v k' and P :: "session_key \<Rightarrow> bool"
  assume ok: "session_ok s"
  show "session_ok (store_put s k v)" "session_ok (store_remove s k)" "session_ok (store_retain s P)"
    using ok by (auto simp: session_ok_def store_put_def store_remove_def store_retain_def distinct_filter_keys)
  show "store_lookup (store_put s k v) k' = (if k' = k then Some v else store_lookup s k')"
    using ok
    by (simp add: session_ok_def store_put_def store_lookup_def map_of_replace del: map_of_append)
  show "store_lookup (store_remove s k) k' = (if k' = k then None else store_lookup s k')"
    using ok by (simp add: session_ok_def store_remove_def store_lookup_def map_of_other_key)
  show "store_lookup (store_retain s P) k' = (if P k' then store_lookup s k' else None)"
    using ok by (simp add: session_ok_def store_retain_def store_lookup_def map_of_filter_key)
qed

lemma session_ok_new: "session_ok session_new"
  by (simp add: session_ok_def session_new_def)

text \<open>The session store behaves as a map from extension, resource type and target to
  the last decision: after storing a permission its key answers with the new status and every
  other key as before, and clearing an extension forgets exactly the keys of that extension.\<close>

theorem session_store_laws:
  assumes "session_ok s"
  shows "get_permission (set_permission s p) ext rt target =
      (if (ext, rt, target) = perm_key p then Some (perm_status p) else get_permission s ext rt target)
    \<and> get_permission (clear_extension s x) ext rt target =
      (if ext = x then None else get_permission s ext rt target)
    \<and> get_permission (remove_permission s x y z) ext rt target =
      (if (ext, rt, target) = (x, y, z) then None else get_permission s ext rt target)
    \<and> session_ok (set_permission s p) \<and> session_ok (clear_extension s x)"
  using assms
  by (auto simp: get_permission_def set_permission_def clear_extension_def remove_permission_def
      session.lookup_put session.lookup_retain session.lookup_remove session.ok_put session.ok_retain)

definition sample_perm :: "permission_status \<Rightarrow> extension_permission" where
  "sample_perm st = \<lparr>perm_id = ''p'', perm_extension_id = ''e'', perm_resource_type = RFs,
     perm_action = Filesystem FsRead, perm_target = ''/a'', perm_constraints = None, perm_status = st\<rparr>"

theorem session_store_laws_witness:
  "get_permission (set_permission session_new (sample_perm Granted)) ''e'' RFs ''/a'' = Some Granted"
  using session_store_laws [OF session_ok_new, of "sample_perm Granted" "''e''" RFs "''/a''"]
  by (simp add: perm_key_def sample_perm_def)

lemma get_permissions_for_extension_iff:
  assumes "session_ok s"
  shows "p \<in> set (get_permissions_for_extension s ext) \<longleftrightarrow> (\<exists>rt t. store_lookup s (ext, rt, t) = Some p)"
proof -
  have "p \<in> set (get_permissions_for_extension s ext) \<longleftrightarrow> (\<exists>rt t. ((ext, rt, t), p) \<in> set (sess_entries s))"
    using assms by (force simp: get_permissions_for_extension_def session_ok_def)
  also have "\<dots> \<longleftrightarrow> (\<exists>rt t. store_lookup s (ext, rt, t) = Some p)"
    using assms by (auto simp: store_lookup_def session_ok_def intro: map_of_is_SomeI dest: map_of_SomeD)
  finally show ?thesis .
qed

end
