(* ===== verification/PathPattern.thy ===== *)
theory PathPattern
  imports Prelude
begin

text \<open>
  The path and URL pattern matching of \<open>extension/permissions/manager.rs\<close>.  URL parsing
  is the url crate's: the argument \<open>url_parse\<close>.
\<close>

section \<open>String replacement and search\<close>

text \<open>\<open>str::replace\<close> with a non-empty pattern, left to right without overlap.\<close>

function replace_str :: "string \<Rightarrow> string \<Rightarrow> string \<Rightarrow> string" where
  "replace_str pat rep [] = []"
| "replace_str pat rep (c # cs) =
     (if pat \<noteq> [] \<and> starts_with (c # cs) pat
      then rep @ replace_str pat rep (drop (length pat) (c # cs))
      else c # replace_str pat rep cs)"
  by pat_completeness auto
termination by (relation "measure (\<lambda>(pat, rep, s). length s)") auto

text \<open>\<open>str::find\<close>: the index of the first occurrence.\<close>

fun find_sub :: "string \<Rightarrow> string \<Rightarrow> nat option" where
  "find_sub [] p = (if p = [] then Some 0 else None)"
| "find_sub (c # cs) p = (if starts_with (c # cs) p then Some 0 else map_option Suc (find_sub cs p))"


section \<open>Paths\<close>

definition decode_step :: "string \<Rightarrow> string" where
  "decode_step s =
     replace_str ''%00'' [CHR 0x00]
       (replace_str ''%5C'' [CHR 0x5C] (replace_str ''%5c'' [CHR 0x5C]
         (replace_str ''%2F'' ''/'' (replace_str ''%2f'' ''/''
           (replace_str ''%2E'' ''.'' (replace_str ''%2e'' ''.''
             (replace_str ''%25'' ''%'' s)))))))"

fun decode_loop :: "nat \<Rightarrow> string \<Rightarrow> string" where
  "decode_loop 0 s = s"
| "decode_loop (Suc n) s = (let s' = decode_step s in if s' = s then s' else decode_loop n s')"

definition url_decode_path :: "string \<Rightarrow> string" where
  "url_decode_path path = decode_loop 5 path"

definition norm_step :: "bool \<Rightarrow> string list \<Rightarrow> string \<Rightarrow> string list" where
  "norm_step is_absolute components component =
     (if component = [] \<or> component = ''.'' then components
      else if component = ''..''
      then (if components \<noteq> [] \<and> last components \<noteq> ''..'' then butlast components
            else if \<not> is_absolute then components @ [component]
            else components)
      else components @ [component])"

definition to_slashes :: "string \<Rightarrow> string" where
  "to_slashes path = map (\<lambda>c. if c = CHR 0x5C then CHR ''/'' else c) path"

definition path_is_absolute :: "string \<Rightarrow> bool" where
  "path_is_absolute path \<longleftrightarrow> starts_with (to_slashes path) ''/''"

definition norm_components :: "string \<Rightarrow> string list" where
  "norm_components path =
     foldl (norm_step (path_is_absolute path)) [] (split_on (CHR ''/'') (to_slashes path))"

definition normalize_path :: "string \<Rightarrow> string" where
  "normalize_path path =
     (if to_slashes path = [] then []
      else (let normalized = join_on (CHR ''/'') (norm_components path)
            in if path_is_absolute path then CHR ''/'' # normalized else normalized))"

definition has_traversal :: "string \<Rightarrow> bool" where
  "has_traversal path \<longleftrightarrow>
     contains path ''../'' \<or> contains path [CHR ''.'', CHR ''.'', CHR 0x5C] \<or> ends_with path ''..'' \<or>
     contains path [CHR 0x00]"

definition matches_path_pattern :: "string \<Rightarrow> string \<Rightarrow> bool" where
  "matches_path_pattern pattern path =
     (if contains path [CHR 0x00] then False
      else if path = [] \<and> pattern \<noteq> [] then False
      else
        (let decoded_path = url_decode_path path;
             normalized_path = normalize_path decoded_path
         in if pattern = ''*'' then True
            else (case strip_suffix pattern ''/*'' of
              Some pfx \<Rightarrow>
                (let normalized_prefix = normalize_path pfx
                 in if normalized_path = normalized_prefix then True
                    else (let prefix_with_sep = (if ends_with normalized_prefix ''/'' then normalized_prefix
                                                 else normalized_prefix @ ''/'')
                          in starts_with normalized_path prefix_with_sep))
            | None \<Rightarrow>
                if starts_with pattern ''*.''
                then (let sfx = tl pattern;
                          original_had_traversal = (contains decoded_path ''..'' \<or> contains decoded_path ''./''
                             \<or> contains decoded_path [CHR ''.'', CHR 0x5C])
                      in ends_with normalized_path sfx \<and> \<not> has_traversal normalized_path
                         \<and> \<not> original_had_traversal)
                else (case split_on (CHR ''*'') pattern of
                        [pfx, sfx] \<Rightarrow>
                          starts_with normalized_path (normalize_path pfx)
                          \<and> ends_with normalized_path sfx \<and> \<not> has_traversal normalized_path
                      | _ \<Rightarrow> normalized_path = normalize_path pattern))))"


section \<open>URLs\<close>

record url =
  url_scheme :: string
  url_host :: "string option"
  url_port :: "nat option"
  url_path :: string

definition norm_url_step :: "string list \<Rightarrow> string \<Rightarrow> string list" where
  "norm_url_step components component =
     (if component = [] \<or> component = ''.''
      then (if components = [] then [[]] else components)
      else if component = ''..'' then (if 1 < length components then butlast components else components)
      else components @ [component])"

definition normalize_url_path :: "string \<Rightarrow> string" where
  "normalize_url_path path =
     (let components = foldl norm_url_step [] (split_on (CHR ''/'') path)
      in if components = [] then ''/'' else join_on (CHR ''/'') components)"

definition matches_url_pattern :: "(string \<Rightarrow> url option) \<Rightarrow> string \<Rightarrow> string \<Rightarrow> bool" where
  "matches_url_pattern url_parse pattern u =
     (case url_parse u of
        None \<Rightarrow> False
      | Some url_parsed \<Rightarrow>
          if contains pattern ''://*.'' \<or> starts_with pattern ''*.''
          then
            (let protocol_end = (case find_sub pattern ''://'' of Some i \<Rightarrow> i | None \<Rightarrow> 0);
                 pattern_protocol = take protocol_end pattern;
                 domain_start = (case find_sub pattern ''://*.'' of Some i \<Rightarrow> i + 5 | None \<Rightarrow> 2);
                 rest = drop domain_start pattern;
                 domain_len = (case find_sub rest ''/'' of Some i \<Rightarrow> i | None \<Rightarrow> length rest);
                 domain_pattern = take domain_len rest;
                 pattern_path = drop domain_len rest
             in if pattern_protocol \<noteq> [] \<and> pattern_protocol \<noteq> url_scheme url_parsed then False
                else (case url_host url_parsed of
                        None \<Rightarrow> False
                      | Some host \<Rightarrow>
                          if \<not> ends_with host (CHR ''.'' # domain_pattern) then False
                          else if contains pattern ''/*'' then True
                          else if pattern_path \<noteq> [] then url_path url_parsed = pattern_path
                          else True))
          else
            (case url_parse pattern of
               None \<Rightarrow> False
             | Some pattern_url \<Rightarrow>
                 if url_scheme pattern_url \<noteq> url_scheme url_parsed then False
                 else if url_host pattern_url \<noteq> url_host url_parsed then False
                 else if url_port pattern_url \<noteq> url_port url_parsed then False
                 else (case (if contains pattern ''/*'' then find_sub (url_path pattern_url) ''/*'' else None) of
                         Some pos \<Rightarrow>
                           (let path_prefix = take (pos + 1) (url_path pattern_url);
                                normalized = normalize_url_path (url_path url_parsed)
                            in starts_with normalized path_prefix \<or> normalized = butlast path_prefix)
                       | None \<Rightarrow> url_path pattern_url = url_path url_parsed)))"

section \<open>Normal forms\<close>

definition plain :: "string \<Rightarrow> bool" where
  "plain c \<longleftrightarrow> c \<noteq> [] \<and> c \<noteq> ''.'' \<and> c \<noteq> ''..'' \<and> CHR ''/'' \<notin> set c"

lemma foldl_norm_plain:
  "\<forall>c\<in>set cs. plain c \<Longrightarrow> foldl (norm_step b) acc cs = acc @ cs"
  by (induction cs arbitrary: acc) (auto simp: norm_step_def plain_def)

lemma norm_step_abs:
  assumes "\<forall>c\<in>set acc. plain c" "CHR ''/'' \<notin> set d"
  shows "\<forall>c\<in>set (norm_step True acc d). plain c"
  using assms by (auto simp: norm_step_def plain_def dest: in_set_butlastD)

lemma foldl_norm_abs:
  "\<forall>c\<in>set acc. plain c \<Longrightarrow> \<forall>c\<in>set cs. CHR ''/'' \<notin> set c \<Longrightarrow>
   \<forall>c\<in>set (foldl (norm_step True) acc cs). plain c"
proof (induction cs arbitrary: acc)
  case Nil
  then show ?case by simp
next
  case (Cons c cs)
  have "\<forall>x\<in>set (norm_step True acc c). plain x"
    using Cons.prems by (intro norm_step_abs) auto
  with Cons show ?case by auto
qed

lemma norm_components_abs:
  "path_is_absolute p \<Longrightarrow> c \<in> set (norm_components p) \<Longrightarrow> plain c"
  using foldl_norm_abs [of "[]" "split_on (CHR ''/'') (to_slashes p)"] split_on_pieces
  unfolding norm_components_def by auto

text \<open>A relative path keeps leading parent steps: they come first and only there.\<close>

definition rel_form :: "string list \<Rightarrow> bool" where
  "rel_form cs \<longleftrightarrow> (\<exists>n rest. cs = replicate n ''..'' @ rest \<and> (\<forall>c\<in>set rest. plain c))"

lemma norm_step_rel:
  assumes "rel_form acc" "CHR ''/'' \<notin> set d"
  shows "rel_form (norm_step False acc d)"
proof -
  obtain n rest where acc: "acc = replicate n ''..'' @ rest" "\<forall>c\<in>set rest. plain c"
    using assms(1) unfolding rel_form_def by blast
  consider "d = [] \<or> d = ''.''" | "d = ''..''" "rest = []" | "d = ''..''" "rest \<noteq> []" | "plain d"
    using assms(2) by (auto simp: plain_def)
  then show ?thesis
  proof cases
    case 1
    then show ?thesis using assms(1) by (simp add: norm_step_def)
  next
    case 2
    then have "norm_step False acc d = replicate (Suc n) ''..'' @ []"
      using acc by (auto simp: norm_step_def replicate_append_same last_replicate)
    then show ?thesis unfolding rel_form_def by (metis empty_iff empty_set)
  next
    case 3
    then have "last acc \<noteq> ''..''" using acc by (auto simp: plain_def last_in_set)
    then have "norm_step False acc d = replicate n ''..'' @ butlast rest"
      using 3 acc by (simp add: norm_step_def butlast_append)
    then show ?thesis using acc(2) unfolding rel_form_def by (meson in_set_butlastD)
  next
    case 4
    then have "norm_step False acc d = replicate n ''..'' @ (rest @ [d])"
      using acc by (auto simp: norm_step_def plain_def)
    then show ?thesis
      using 4 acc(2) unfolding rel_form_def by (intro exI [of _ n] exI [of _ "rest @ [d]"]) auto
  qed
qed

lemma foldl_norm_rel:
  "rel_form acc \<Longrightarrow> \<forall>c\<in>set cs. CHR ''/'' \<notin> set c \<Longrightarrow> rel_form (foldl (norm_step False) acc cs)"
  by (induction cs arbitrary: acc) (auto intro: norm_step_rel)

lemma norm_components_rel: "\<not> path_is_absolute p \<Longrightarrow> rel_form (norm_components p)"
proof -
  have "rel_form []" unfolding rel_form_def by (intro exI [of _ 0]) auto
  then show "\<not> path_is_absolute p \<Longrightarrow> rel_form (norm_components p)"
    unfolding norm_components_def using foldl_norm_rel split_on_pieces by auto
qed

lemma rel_form_no_slash:
  assumes "rel_form cs" "c \<in> set cs"
  shows "CHR ''/'' \<notin> set c \<and> c \<noteq> []"
proof -
  obtain n rest where "cs = replicate n ''..'' @ rest" "\<forall>c\<in>set rest. plain c"
    using assms(1) unfolding rel_form_def by blast
  with assms(2) have "c = ''..'' \<or> plain c" by auto
  then show ?thesis by (auto simp: plain_def)
qed

lemma foldl_norm_dots: "foldl (norm_step False) (replicate m ''..'') (replicate n ''..'') = replicate (m + n) ''..''"
proof (induction n arbitrary: m)
  case 0
  then show ?case by simp
next
  case (Suc n)
  have "norm_step False (replicate m ''..'') ''..'' = replicate (Suc m) ''..''"
    by (auto simp: norm_step_def last_replicate replicate_append_same)
  then show ?case using Suc.IH [of "Suc m"] by simp
qed

lemma foldl_norm_rel_form:
  assumes "rel_form cs"
  shows "foldl (norm_step False) [] cs = cs"
proof -
  obtain n rest where cs: "cs = replicate n ''..'' @ rest" "\<forall>c\<in>set rest. plain c"
    using assms unfolding rel_form_def by blast
  have "foldl (norm_step False) [] cs = foldl (norm_step False) (replicate n ''..'') rest"
    using foldl_norm_dots [of 0 n] cs(1) by simp
  then show ?thesis using foldl_norm_plain [OF cs(2)] cs(1) by simp
qed

definition render :: "bool \<Rightarrow> string list \<Rightarrow> string" where
  "render b cs = (if b then CHR ''/'' # join_on (CHR ''/'') cs else join_on (CHR ''/'') cs)"

lemma normalize_render: "to_slashes p \<noteq> [] \<Longrightarrow> normalize_path p = render (path_is_absolute p) (norm_components p)"
  by (simp add: normalize_path_def render_def Let_def)

lemma set_to_slashes: "CHR 0x5C \<notin> set (to_slashes p)"
  by (auto simp: to_slashes_def)

lemma to_slashes_id: "CHR 0x5C \<notin> set p \<Longrightarrow> to_slashes p = p"
  unfolding to_slashes_def by (rule map_idI) auto

lemma set_join_on: "set (join_on c ps) \<subseteq> insert c (\<Union>(set ` set ps))"
proof (induction c ps rule: join_on.induct)
  case (3 c p q ps)
  then show ?case by (auto simp del: join_on_Cons_ne)
qed auto

lemma set_split_on: "p \<in> set (split_on c s) \<Longrightarrow> set p \<subseteq> set s"
proof (induction s arbitrary: p)
  case Nil
  then show ?case by simp
next
  case (Cons x xs)
  then show ?case by (cases "split_on c xs") (fastforce split: if_splits)+
qed

lemma norm_components_chars:
  assumes "c \<in> set (norm_components p)"
  shows "set c \<subseteq> set (to_slashes p)"
proof -
  have step: "set (norm_step b acc d) \<subseteq> insert d (set acc)" for b acc d
    by (auto simp: norm_step_def dest: in_set_butlastD)
  have "set (foldl (norm_step b) acc cs) \<subseteq> set acc \<union> set cs" for b acc cs
  proof (induction cs arbitrary: acc)
    case (Cons d cs)
    show ?case using Cons.IH [of "norm_step b acc d"] step [of b acc d] by auto
  qed simp
  then have "c \<in> set (split_on (CHR ''/'') (to_slashes p))"
    using assms unfolding norm_components_def by (metis empty_set in_mono sup_bot_left)
  then show ?thesis by (rule set_split_on)
qed

lemma normalize_no_backslash: "CHR 0x5C \<notin> set (normalize_path p)"
proof -
  have "CHR 0x5C \<notin> set (join_on (CHR ''/'') (norm_components p))"
  proof
    assume "CHR 0x5C \<in> set (join_on (CHR ''/'') (norm_components p))"
    then obtain c where "c \<in> set (norm_components p)" "CHR 0x5C \<in> set c"
      using set_join_on [of "CHR ''/''" "norm_components p"] by auto
    then show False using norm_components_chars set_to_slashes by blast
  qed
  then show ?thesis by (simp add: normalize_path_def Let_def)
qed

lemma norm_components_join:
  assumes "cs \<noteq> []" "\<forall>c\<in>set cs. CHR ''/'' \<notin> set c \<and> c \<noteq> []" "CHR 0x5C \<notin> set (join_on (CHR ''/'') cs)"
  shows "split_on (CHR ''/'') (to_slashes (join_on (CHR ''/'') cs)) = cs"
    and "\<not> path_is_absolute (join_on (CHR ''/'') cs)"
proof -
  show "split_on (CHR ''/'') (to_slashes (join_on (CHR ''/'') cs)) = cs"
    using assms by (simp add: to_slashes_id split_join)
  obtain c cs' where "cs = c # cs'" using assms(1) by (cases cs) auto
  moreover obtain x xs where "c = x # xs" "x \<noteq> CHR ''/''" using assms(2) calculation by (cases c) auto
  ultimately show "\<not> path_is_absolute (join_on (CHR ''/'') cs)"
    using assms(3) by (cases cs') (simp_all add: path_is_absolute_def to_slashes_id starts_with_def)
qed

text \<open>Path normalisation is idempotent, so comparing a normalised path with a
  normalised pattern compares canonical forms.\<close>

theorem normalize_path_idem: "normalize_path (normalize_path p) = normalize_path p"
proof (cases "to_slashes p = []")
  case True
  then show ?thesis by (simp add: normalize_path_def to_slashes_def)
next
  case ne: False
  let ?cs = "norm_components p" and ?n = "normalize_path p"
  have nb: "to_slashes ?n = ?n" by (rule to_slashes_id [OF normalize_no_backslash])
  show ?thesis
  proof (cases "path_is_absolute p")
    case True
    then have n: "?n = CHR ''/'' # join_on (CHR ''/'') ?cs" using ne by (simp add: normalize_render render_def)
    have plain: "\<forall>c\<in>set ?cs. plain c" using True norm_components_abs by blast
    have abs: "path_is_absolute ?n" using nb n by (simp add: path_is_absolute_def starts_with_def)
    have "split_on (CHR ''/'') ?n = [] # (if ?cs = [] then [[]] else ?cs)"
      using n plain by (auto simp: plain_def split_join)
    then have "norm_components ?n = ?cs"
      using abs nb foldl_norm_plain [OF plain] by (simp add: norm_components_def norm_step_def)
    then show ?thesis using abs nb n by (simp add: normalize_path_def Let_def)
  next
    case False
    then have n: "?n = join_on (CHR ''/'') ?cs" using ne by (simp add: normalize_render render_def)
    have rel: "rel_form ?cs" using False by (rule norm_components_rel)
    show ?thesis
    proof (cases "?cs = []")
      case True
      then show ?thesis using n by (simp add: normalize_path_def to_slashes_def)
    next
      case cs: False
      have facts: "split_on (CHR ''/'') (to_slashes ?n) = ?cs" "\<not> path_is_absolute ?n"
        using norm_components_join [OF cs] rel_form_no_slash [OF rel] normalize_no_backslash [of p] n by auto
      then have "norm_components ?n = ?cs"
        using foldl_norm_rel_form [OF rel] by (simp add: norm_components_def)
      moreover have "?n \<noteq> []" using facts(1) nb cs rel_form_no_slash [OF rel] by (metis list.set_intros(1) split_on.simps(1))
      ultimately show ?thesis using facts(2) nb n by (simp add: normalize_path_def Let_def)
    qed
  qed
qed


section \<open>Directory patterns\<close>

lemma strip_suffix_append [simp]: "strip_suffix (d @ sfx) sfx = Some d"
  by (simp add: strip_suffix_def ends_with_def)

lemma contains_char: "contains s [c] \<longleftrightarrow> c \<in> set s"
  by (auto simp: contains_append in_set_conv_decomp)

lemma split_join_plain:
  "xs \<noteq> [] \<Longrightarrow> \<forall>c\<in>set xs. plain c \<Longrightarrow> split_on (CHR ''/'') (join_on (CHR ''/'') xs) = xs"
  by (rule split_join) (simp_all add: plain_def)

lemma split_on_snoc: "split_on c (ws @ [c]) = split_on c ws @ [[]]"
proof (induction ws)
  case (Cons w ws)
  then show ?case by (cases "split_on c ws") auto
qed simp

lemma join_inj:
  assumes "\<forall>c\<in>set xs. plain c" "\<forall>c\<in>set ys. plain c" "join_on (CHR ''/'') xs = join_on (CHR ''/'') ys"
  shows "xs = ys"
proof (cases "xs = [] \<or> ys = []")
  case True
  have "join_on (CHR ''/'') zs \<noteq> []" if "zs \<noteq> []" "\<forall>c\<in>set zs. plain c" for zs
    using that by (cases zs; cases "tl zs") (auto simp: plain_def)
  then show ?thesis using True assms by (metis join_on.simps(1))
next
  case False
  then have "split_on (CHR ''/'') (join_on (CHR ''/'') xs) = xs" "split_on (CHR ''/'') (join_on (CHR ''/'') ys) = ys"
    using split_join_plain [OF _ assms(1)] split_join_plain [OF _ assms(2)] by blast+
  then show ?thesis using assms(3) by metis
qed

lemma join_on_append:
  "xs \<noteq> [] \<Longrightarrow> ys \<noteq> [] \<Longrightarrow> join_on c (xs @ ys) = join_on c xs @ c # join_on c ys"
proof (induction xs)
  case (Cons x xs)
  then show ?case by (cases xs) auto
qed simp

lemma prefix_join:
  assumes "\<forall>c\<in>set xs. plain c" "\<forall>c\<in>set ys. plain c" "xs \<noteq> []"
  shows "prefix (join_on (CHR ''/'') xs @ ''/'') (join_on (CHR ''/'') ys) \<longleftrightarrow> strict_prefix xs ys"
proof
  assume "prefix (join_on (CHR ''/'') xs @ ''/'') (join_on (CHR ''/'') ys)"
  then obtain rest where j: "join_on (CHR ''/'') ys = join_on (CHR ''/'') xs @ CHR ''/'' # rest"
    by (auto simp: prefix_def)
  then have "join_on (CHR ''/'') ys = join_on (CHR ''/'') (xs @ split_on (CHR ''/'') rest)"
    using assms(3) by (simp add: join_on_append)
  moreover have "ys \<noteq> []" using j by auto
  moreover have "split_on (CHR ''/'') (join_on (CHR ''/'') (xs @ split_on (CHR ''/'') rest))
      = xs @ split_on (CHR ''/'') rest"
    by (rule split_join) (use assms(1) split_on_pieces in \<open>auto simp: plain_def\<close>)
  ultimately have "ys = xs @ split_on (CHR ''/'') rest"
    using split_join_plain [OF _ assms(2)] by simp
  then show "strict_prefix xs ys" by (simp add: strict_prefix_def)
next
  assume "strict_prefix xs ys"
  then obtain zs where "ys = xs @ zs" "zs \<noteq> []" by (auto simp: strict_prefix_def prefix_def)
  then show "prefix (join_on (CHR ''/'') xs @ ''/'') (join_on (CHR ''/'') ys)"
    using assms(3) by (simp add: join_on_append prefix_def)
qed

lemma absolute_nonempty: "path_is_absolute p \<Longrightarrow> to_slashes p \<noteq> []"
  by (auto simp: path_is_absolute_def starts_with_def)

lemma normalize_abs: "path_is_absolute p \<Longrightarrow> normalize_path p = CHR ''/'' # join_on (CHR ''/'') (norm_components p)"
  by (simp add: normalize_render absolute_nonempty render_def)

lemma normalize_rel_no_slash:
  assumes "\<not> path_is_absolute p"
  shows "\<not> starts_with (normalize_path p) ''/''"
proof (cases "norm_components p = [] \<or> to_slashes p = []")
  case True
  then show ?thesis using assms by (auto simp: normalize_path_def starts_with_def)
next
  case False
  let ?cs = "norm_components p"
  have n: "normalize_path p = join_on (CHR ''/'') ?cs" using False assms by (simp add: normalize_path_def Let_def)
  have "\<not> path_is_absolute (join_on (CHR ''/'') ?cs)"
    using False norm_components_join(2) rel_form_no_slash [OF norm_components_rel [OF assms]]
      normalize_no_backslash [of p] n by auto
  then show ?thesis
    using n normalize_no_backslash [of p] by (simp add: path_is_absolute_def to_slashes_id)
qed

text \<open>A directory grant covers exactly its subtree.  For an absolute directory, a
  path is matched by the pattern that ends in a slash and a star exactly when the decoded
  path is absolute and its normalised components begin with the normalised components of
  the directory; none of these components is empty, a dot or a parent step, so no encoding
  of a parent step and no sibling with a longer name escapes the directory.\<close>

theorem directory_pattern_exact:
  assumes "path_is_absolute d" "CHR 0x00 \<notin> set p" "p \<noteq> []"
  shows "matches_path_pattern (d @ ''/*'') p \<longleftrightarrow>
    path_is_absolute (url_decode_path p)
    \<and> prefix (norm_components d) (norm_components (url_decode_path p))
    \<and> list_all plain (norm_components (url_decode_path p))"
proof -
  let ?q = "url_decode_path p" and ?sl = "CHR ''/''"
  have d: "normalize_path d = ?sl # join_on ?sl (norm_components d)" by (rule normalize_abs [OF assms(1)])
  have dp: "\<forall>c\<in>set (norm_components d). plain c" using assms(1) norm_components_abs by blast
  have "d \<noteq> []" using assms(1) by (auto simp: path_is_absolute_def to_slashes_def starts_with_def)
  then have m: "matches_path_pattern (d @ ''/*'') p \<longleftrightarrow> normalize_path ?q = normalize_path d \<or>
      starts_with (normalize_path ?q)
        (if ends_with (normalize_path d) ''/'' then normalize_path d else normalize_path d @ ''/'')"
    using assms(2,3) by (simp add: matches_path_pattern_def contains_char Let_def append_eq_Cons_conv)
  show ?thesis
  proof (cases "path_is_absolute ?q")
    case False
    then have "\<not> starts_with (normalize_path ?q) ''/''" by (rule normalize_rel_no_slash)
    then have "\<not> matches_path_pattern (d @ ''/*'') p"
      unfolding m d by (cases "normalize_path ?q") (auto simp: starts_with_def split: if_splits)
    with False show ?thesis by simp
  next
    case True
    have q: "normalize_path ?q = ?sl # join_on ?sl (norm_components ?q)" by (rule normalize_abs [OF True])
    have qp: "\<forall>c\<in>set (norm_components ?q). plain c" using True norm_components_abs by blast
    show ?thesis
    proof (cases "norm_components d = []")
      case e: True
      then have "matches_path_pattern (d @ ''/*'') p"
        unfolding m d q by (simp add: ends_with_def starts_with_def)
      with e True qp show ?thesis by (simp add: list_all_iff)
    next
      case ne: False
      have "\<not> ends_with (normalize_path d) ''/''"
      proof
        assume "ends_with (normalize_path d) ''/''"
        then obtain zs where "?sl # join_on ?sl (norm_components d) = zs @ ''/''"
          unfolding d ends_with_suffix suffix_def by blast
        moreover have "join_on ?sl (norm_components d) \<noteq> []"
          using join_inj [OF dp, of "[]"] ne by auto
        ultimately obtain ws where "join_on ?sl (norm_components d) = ws @ [?sl]" by (cases zs) auto
        then have "norm_components d = split_on ?sl ws @ [[]]"
          using split_join_plain [OF ne dp] by (simp add: split_on_snoc)
        then show False using dp by (simp add: plain_def)
      qed
      then have "matches_path_pattern (d @ ''/*'') p \<longleftrightarrow>
          norm_components ?q = norm_components d \<or>
          prefix (join_on ?sl (norm_components d) @ ''/'') (join_on ?sl (norm_components ?q))"
        unfolding m d q using join_inj [OF qp dp] by (auto simp: starts_with_prefix)
      also have "\<dots> \<longleftrightarrow> prefix (norm_components d) (norm_components ?q)"
        unfolding prefix_join [OF dp qp ne] by (auto simp: strict_prefix_def)
      finally show ?thesis using True qp by (simp add: list_all_iff)
    qed
  qed
qed

text \<open>Without a percent sign decoding changes nothing.\<close>

lemma replace_free: "hd pat \<notin> set s \<Longrightarrow> pat \<noteq> [] \<Longrightarrow> replace_str pat rep s = s"
proof (induction s)
  case (Cons c cs)
  then have "\<not> starts_with (c # cs) pat" by (cases pat) (auto simp: starts_with_def)
  with Cons show ?case by simp
qed simp

lemma decode_free: "CHR 0x25 \<notin> set p \<Longrightarrow> url_decode_path p = p"
  by (simp add: url_decode_path_def decode_step_def replace_free eval_nat_numeral Let_def)

theorem directory_pattern_exact_witness:
  "matches_path_pattern (''/home/docs'' @ ''/*'') ''/home/docs/../docs/a''
   \<and> \<not> matches_path_pattern (''/home/docs'' @ ''/*'') ''/home/docs/../x''
   \<and> \<not> matches_path_pattern (''/home/docs'' @ ''/*'') ''/home/docs2/x''"
proof -
  have "path_is_absolute ''/home/docs''" by (simp add: path_is_absolute_def to_slashes_def starts_with_def)
  note r = directory_pattern_exact [OF this]
  show ?thesis
    by (subst r, simp, simp, subst r, simp, simp, subst r, simp, simp)
      (simp add: decode_free norm_components_def norm_step_def path_is_absolute_def to_slashes_def
        starts_with_def plain_def)
qed

text \<open>A pattern with a directory and an extension also matches outside the directory:
  the directory part loses its trailing slash in normalisation and is then compared as a
  plain text prefix, so a grant for text files in one directory covers text files in every
  sibling directory whose name starts the same.\<close>

theorem extension_pattern_matches_sibling:
  "matches_path_pattern ''/home/docs/*.txt'' ''/home/docs-private/key.txt''"
proof -
  have "url_decode_path ''/home/docs-private/key.txt'' = ''/home/docs-private/key.txt''"
    by (rule decode_free) simp
  moreover have "normalize_path ''/home/docs-private/key.txt'' = ''/home/docs-private/key.txt''"
    "normalize_path ''/home/docs/'' = ''/home/docs''"
    by (simp_all add: normalize_path_def norm_components_def norm_step_def path_is_absolute_def to_slashes_def
        starts_with_def)
  ultimately show ?thesis
    by (simp add: matches_path_pattern_def strip_suffix_def ends_with_def starts_with_def has_traversal_def)
qed

lemma find_sub_append:
  assumes "p \<noteq> []" "hd p \<notin> set a"
  shows "find_sub (a @ p @ b) p = Some (length a)"
  using assms(2)
proof (induction a)
  case Nil
  obtain x xs where "p = x # xs" using assms(1) by (cases p) auto
  then show ?case by (simp add: starts_with_def)
next
  case (Cons x xs)
  have "\<not> starts_with (x # xs @ p @ b) p" using Cons.prems assms(1) by (cases p) (auto simp: starts_with_def)
  then show ?case using Cons by simp
qed

lemma find_sub_free: "p \<noteq> [] \<Longrightarrow> hd p \<notin> set a \<Longrightarrow> find_sub a p = None"
proof (induction a)
  case (Cons x xs)
  then have "\<not> starts_with (x # xs) p" by (cases p) (auto simp: starts_with_def)
  with Cons show ?case by simp
qed simp

text \<open>A sub-domain grant only reaches sub-domains: if the pattern with scheme \<open>sch\<close> and
  domain \<open>dmn\<close> behind a star matches a URL, the URL has that scheme and its host ends with a dot
  and the domain, so neither the bare domain nor a host that merely ends in the same letters is
  reached.\<close>

theorem subdomain_pattern_host:
  assumes "CHR '':'' \<notin> set sch" "sch \<noteq> []" "CHR ''/'' \<notin> set dmn" "rest = [] \<or> hd rest = CHR ''/''"
    and "matches_url_pattern url_parse (sch @ ''://*.'' @ dmn @ rest) u"
  shows "\<exists>parsed host. url_parse u = Some parsed \<and> url_scheme parsed = sch
    \<and> url_host parsed = Some host \<and> ends_with host (CHR ''.'' # dmn)"
proof -
  let ?p = "sch @ ''://*.'' @ dmn @ rest"
  have c: "contains ?p ''://*.''" by (auto simp: contains_append)
  have f1: "find_sub ?p ''://'' = Some (length sch)"
    using find_sub_append [of "''://''" sch "''*.'' @ dmn @ rest"] assms(1) by simp
  have f2: "find_sub ?p ''://*.'' = Some (length sch)"
    using find_sub_append [of "''://*.''" sch "dmn @ rest"] assms(1) by simp
  have f3: "find_sub (dmn @ rest) ''/'' = (if rest = [] then None else Some (length dmn))"
  proof (cases rest)
    case Nil
    then show ?thesis using assms(3) by (simp add: find_sub_free)
  next
    case (Cons r rs)
    then have "rest = ''/'' @ rs" using assms(4) by simp
    then show ?thesis using find_sub_append [of "''/''" dmn rs] assms(3) by simp
  qed
  obtain parsed where up: "url_parse u = Some parsed"
    using assms(5) by (auto simp: matches_url_pattern_def split: option.splits)
  then obtain host where "url_host parsed = Some host" "url_scheme parsed = sch"
    "ends_with host (CHR ''.'' # dmn)"
    using assms(2,5) c f1 f2 f3
    by (auto simp: matches_url_pattern_def Let_def split: option.splits if_splits)
  with up show ?thesis by blast
qed

theorem subdomain_pattern_host_witness:
  "\<exists>parsed host. (\<lambda>_. Some \<lparr>url_scheme = ''https'', url_host = Some ''api.ex.org'', url_port = None, url_path = ''/v1''\<rparr>) ''u''
      = Some parsed \<and> url_scheme parsed = ''https'' \<and> url_host parsed = Some host \<and> ends_with host ''.ex.org''"
  by (rule subdomain_pattern_host [of "''https''" "''ex.org''" "''/*''"])
    (simp_all add: matches_url_pattern_def starts_with_def ends_with_def)

end
