(* ===== verification/PermCheck.thy ===== *)
theory PermCheck
  imports PermSession PathPattern
begin

text \<open>
  \<open>extension/permissions/{checker,manager,commands}.rs\<close> and the table-prefix helpers of
  \<open>extension/utils.rs\<close>: the permission table, the checks every extension request goes
  through, and the commands that record the user's decisions.

  The state is a record: the installed extensions, the rows of
  \<open>haex_extension_permissions\<close>, the session store, and the two ways a database access can
  fail (no usable connection, poisoned clock mutex).  The parsers of third-party formats
  (\<open>url::Url::parse\<close>, \<open>serde_json\<close> on constraints) and fresh UUIDs are arguments.
\<close>

section \<open>State\<close>

record manifest =
  mf_public_key :: string
  mf_name :: string

record perm_state =
  ps_extensions :: "(string \<times> manifest) list"
  ps_windows :: "(string \<times> string) list"
  ps_db_error :: "string option"
  ps_hlc_poisoned :: bool
  ps_rows :: "perm_row list"
  ps_session :: session_store

definition get_extension :: "perm_state \<Rightarrow> string \<Rightarrow> manifest option" where
  "get_extension st ext = map_of (ps_extensions st) ext"

definition find_extension_id_by_public_key_and_name :: "perm_state \<Rightarrow> string \<Rightarrow> string \<Rightarrow> (string \<times> manifest) option" where
  "find_extension_id_by_public_key_and_name st pk nm =
     List.find (\<lambda>(ident, m). mf_public_key m = pk \<and> mf_name m = nm) (ps_extensions st)"

definition resolve_extension_id :: "perm_state \<Rightarrow> string \<Rightarrow> string option \<Rightarrow> string option
    \<Rightarrow> (extension_error, string) result" where
  "resolve_extension_id st window pk nm =
     (case map_of (ps_windows st) window of
        Some ext \<Rightarrow> Inr ext
      | None \<Rightarrow>
          (case (pk, nm) of
             (Some k, Some n) \<Rightarrow>
               (case find_extension_id_by_public_key_and_name st k n of
                  Some (ident, m) \<Rightarrow> Inr ident
                | None \<Rightarrow> Inl (ValidationErr (''Extension not found: '' @ k @ ''::'' @ n)))
           | _ \<Rightarrow> Inl (ValidationErr ''Cannot identify extension: not an extension window and no public_key/name provided'')))"


section \<open>Table ownership and patterns\<close>

definition get_extension_table_prefix :: "string \<Rightarrow> string \<Rightarrow> string" where
  "get_extension_table_prefix pk nm = pk @ ''__'' @ nm @ ''__''"

definition is_extension_table :: "string \<Rightarrow> string \<Rightarrow> string \<Rightarrow> bool" where
  "is_extension_table tbl pk nm = starts_with tbl (get_extension_table_prefix pk nm)"

definition clean_table_name :: "string \<Rightarrow> string" where
  "clean_table_name tbl = trim_matches (CHR ''`'') (trim_matches (CHR 0x22) tbl)"

definition is_system_table :: "string \<Rightarrow> bool" where
  "is_system_table tbl \<longleftrightarrow> starts_with tbl ''haex_'' \<or> starts_with tbl ''sqlite_''"

definition matches_target :: "string \<Rightarrow> string \<Rightarrow> bool" where
  "matches_target target tbl =
     (if is_system_table tbl then False
      else if target = ''*'' then True
      else (case strip_suffix target ''*'' of
              Some p \<Rightarrow> starts_with tbl p
            | None \<Rightarrow> target = tbl))"

fun matches_action :: "action \<Rightarrow> db_action \<Rightarrow> bool" where
  "matches_action (Database a) required = (a = required \<or> (a = DbReadWrite \<and> required = DbRead))"
| "matches_action _ required = False"

definition is_auto_allowed_table :: "manifest \<Rightarrow> string \<Rightarrow> bool" where
  "is_auto_allowed_table m tbl = is_extension_table (clean_table_name tbl) (mf_public_key m) (mf_name m)"

definition matches_table_pattern :: "string \<Rightarrow> string \<Rightarrow> bool" where
  "matches_table_pattern target tbl = matches_target target (clean_table_name tbl)"

definition has_explicit_permission :: "extension_permission list \<Rightarrow> string \<Rightarrow> db_action \<Rightarrow> bool" where
  "has_explicit_permission perms tbl act =
     list_ex (\<lambda>p. matches_target (perm_target p) tbl)
       (filter (\<lambda>p. matches_action (perm_action p) act)
         (filter (\<lambda>p. perm_resource_type p = RDb)
           (filter (\<lambda>p. perm_status p = Granted) perms)))"

definition can_access_table :: "manifest \<Rightarrow> extension_permission list \<Rightarrow> string \<Rightarrow> db_action \<Rightarrow> bool" where
  "can_access_table m perms tbl act =
     (let t = clean_table_name tbl
      in if is_extension_table t (mf_public_key m) (mf_name m) then True
         else has_explicit_permission perms t act)"

definition validate_public_key :: "string \<Rightarrow> (extension_error, unit) result" where
  "validate_public_key pk =
     (if length pk \<noteq> 64 then Inl (ValidationErr ''Invalid public key length'')
      else if \<not> list_all (\<lambda>c. to_digit 16 c \<noteq> None) pk then
        Inl (ValidationErr ''Invalid public key: must contain only hex characters (0-9, a-f, A-F)'')
      else Inr ())"


section \<open>The permission table\<close>

definition loaded_rows :: "(string \<Rightarrow> permission_constraints option) \<Rightarrow> perm_row list \<Rightarrow> string \<Rightarrow> extension_permission list" where
  "loaded_rows parse_c rs ext =
     map (permission_from_row parse_c) (filter (\<lambda>r. pr_extension_id r = ext) rs)"

definition get_permissions :: "(string \<Rightarrow> permission_constraints option) \<Rightarrow> perm_state \<Rightarrow> string
    \<Rightarrow> (extension_error, extension_permission list) result" where
  "get_permissions parse_c st ext =
     (case ps_db_error st of
        Some e \<Rightarrow> Inl (ExtDatabaseError e)
      | None \<Rightarrow> Inr (loaded_rows parse_c (ps_rows st) ext))"

text \<open>A row can be inserted unless its id or its (extension, type, action, target) is taken;
  \<open>fk_ok\<close> is the foreign key to the extension table.\<close>

definition row_conflicts :: "perm_row \<Rightarrow> perm_row \<Rightarrow> bool" where
  "row_conflicts r q \<longleftrightarrow> pr_id q = pr_id r
     \<or> (pr_extension_id q = pr_extension_id r \<and> pr_resource_type q = pr_resource_type r
        \<and> pr_resource_type r \<noteq> None \<and> pr_action q = pr_action r \<and> pr_action r \<noteq> None
        \<and> pr_target q = pr_target r \<and> pr_target r \<noteq> None)"

fun insert_rows :: "(string \<Rightarrow> bool) \<Rightarrow> perm_row list \<Rightarrow> perm_row list \<Rightarrow> perm_row list option" where
  "insert_rows fk_ok rs [] = Some rs"
| "insert_rows fk_ok rs (r # new) =
     (if fk_ok (pr_extension_id r) \<and> \<not> list_ex (row_conflicts r) rs then insert_rows fk_ok (rs @ [r]) new else None)"

text \<open>Every update runs in one transaction: on an error the table is unchanged.\<close>

definition in_transaction :: "perm_state \<Rightarrow> (perm_row list \<Rightarrow> perm_row list option)
    \<Rightarrow> (extension_error, unit) result \<times> perm_state" where
  "in_transaction st f =
     (case ps_db_error st of
        Some e \<Rightarrow> (Inl (ExtDatabaseError e), st)
      | None \<Rightarrow>
          if ps_hlc_poisoned st then (Inl (ExtDatabaseError ''Failed to lock HLC service''), st)
          else (case f (ps_rows st) of
                  None \<Rightarrow> (Inl (ExtDatabaseError ''Execute failed''), st)
                | Some rs \<Rightarrow> (Inr (), st\<lparr>ps_rows := rs\<rparr>)))"

definition save_permissions :: "(permission_constraints \<Rightarrow> string option) \<Rightarrow> (string \<Rightarrow> bool) \<Rightarrow> perm_state
    \<Rightarrow> extension_permission list \<Rightarrow> (extension_error, unit) result \<times> perm_state" where
  "save_permissions show_c fk_ok st perms =
     in_transaction st (\<lambda>rs. insert_rows fk_ok rs (map (permission_to_row show_c) perms))"

definition update_permission :: "(permission_constraints \<Rightarrow> string option) \<Rightarrow> perm_state
    \<Rightarrow> extension_permission \<Rightarrow> (extension_error, unit) result \<times> perm_state" where
  "update_permission show_c st perm =
     (let new = permission_to_row show_c perm;
          upd = (\<lambda>r. if pr_id r = pr_id new
                      then r\<lparr>pr_resource_type := pr_resource_type new, pr_action := pr_action new,
                             pr_target := pr_target new, pr_constraints := pr_constraints new,
                             pr_status := pr_status new\<rparr>
                      else r)
      in in_transaction st (\<lambda>rs.
           if list_ex (\<lambda>r. pr_id r = pr_id new
                \<and> list_ex (\<lambda>q. pr_id q \<noteq> pr_id new \<and> row_conflicts (upd r) q) rs) rs
           then None else Some (map upd rs)))"

definition update_permission_status :: "perm_state \<Rightarrow> string \<Rightarrow> permission_status
    \<Rightarrow> (extension_error, unit) result \<times> perm_state" where
  "update_permission_status st ident new_status =
     in_transaction st (\<lambda>rs. Some (map (\<lambda>r. if pr_id r = ident
        then r\<lparr>pr_status := permission_status_as_str new_status\<rparr> else r) rs))"

definition delete_permission :: "perm_state \<Rightarrow> string \<Rightarrow> (extension_error, unit) result \<times> perm_state" where
  "delete_permission st ident = in_transaction st (\<lambda>rs. Some (filter (\<lambda>r. pr_id r \<noteq> ident) rs))"

definition delete_permissions :: "perm_state \<Rightarrow> string \<Rightarrow> (extension_error, unit) result \<times> perm_state" where
  "delete_permissions st ext = in_transaction st (\<lambda>rs. Some (filter (\<lambda>r. pr_extension_id r \<noteq> ext) rs))"


section \<open>The checks\<close>

text \<open>The last two stages shared by the checks: the status of the matching row, and the
  session decision when no row matches.\<close>

definition by_status :: "extension_error \<Rightarrow> extension_error \<Rightarrow> permission_status \<Rightarrow> (extension_error, unit) result" where
  "by_status denied prompt s = (case s of Granted \<Rightarrow> Inr () | Denied \<Rightarrow> Inl denied | Ask \<Rightarrow> Inl prompt)"

definition by_session :: "extension_error \<Rightarrow> extension_error \<Rightarrow> session_store \<Rightarrow> string \<Rightarrow> resource_type \<Rightarrow> string
    \<Rightarrow> (extension_error, unit) result" where
  "by_session denied prompt sess ext rt target =
     (if is_granted sess ext rt target then Inr ()
      else if is_denied sess ext rt target then Inl denied
      else Inl prompt)"

definition known_extension :: "perm_state \<Rightarrow> string \<Rightarrow> (extension_error, manifest) result" where
  "known_extension st ext = ok_or (ValidationErr (''Extension not found: '' @ ext)) (get_extension st ext)"

definition check_database_permission :: "(string \<Rightarrow> permission_constraints option) \<Rightarrow> perm_state \<Rightarrow> string
    \<Rightarrow> action \<Rightarrow> string \<Rightarrow> (extension_error, unit) result" where
  "check_database_permission parse_c st ext act tbl =
     (case act of
        Database db_act \<Rightarrow>
          and_then (ok_or (ValidationErr (''Extension with ID '' @ ext @ '' not found'')) (get_extension st ext)) (\<lambda>m.
          and_then (get_permissions parse_c st ext) (\<lambda>perms.
            let denied = PermissionDenied ext (db_action_as_str db_act) (''database table '' @ [CHR 0x27] @ tbl @ [CHR 0x27]);
                prompt = PermissionPromptRequired ext (mf_name m) ''db'' (db_action_as_str db_act) tbl
            in if is_auto_allowed_table m tbl then Inr ()
               else (case List.find (\<lambda>p. perm_resource_type p = RDb \<and> matches_table_pattern (perm_target p) tbl
                            \<and> matches_action (perm_action p) db_act) perms of
                       Some p \<Rightarrow> by_status denied prompt (perm_status p)
                     | None \<Rightarrow> by_session denied prompt (ps_session st) ext RDb tbl)))
      | _ \<Rightarrow> Inl (ValidationErr ''Expected database action''))"

definition web_row :: "(string \<Rightarrow> permission_constraints option) \<Rightarrow> perm_row \<Rightarrow> extension_permission" where
  "web_row parse_c r =
     (let p = permission_from_row parse_c r
      in p\<lparr>perm_action := (case Option.bind (pr_action r) (\<lambda>s. ok (action_from_str RWeb s)) of
                              Some a \<Rightarrow> a | None \<Rightarrow> Web WGet)\<rparr>)"

definition web_target_matches :: "(string \<Rightarrow> url option) \<Rightarrow> string \<Rightarrow> string \<Rightarrow> string \<Rightarrow> bool" where
  "web_target_matches url_parse u domain target =
     (if target = ''*'' then True
      else if contains target ''://'' then matches_url_pattern url_parse target u
      else target = domain \<or> ends_with domain (CHR ''.'' # target))"

definition check_web_permission :: "(string \<Rightarrow> permission_constraints option) \<Rightarrow> (string \<Rightarrow> url option) \<Rightarrow> perm_state
    \<Rightarrow> string \<Rightarrow> string \<Rightarrow> (extension_error, unit) result" where
  "check_web_permission parse_c url_parse st ext u =
     and_then (known_extension st ext) (\<lambda>m.
       case ps_db_error st of
         Some e \<Rightarrow> Inl (ExtDatabaseError e)
       | None \<Rightarrow>
           let perms = map (web_row parse_c)
                 (filter (\<lambda>r. pr_extension_id r = ext \<and> pr_resource_type r = Some ''web'') (ps_rows st));
               denied = PermissionDenied ext ''web request'' u;
               prompt = PermissionPromptRequired ext (mf_name m) ''web'' ''request'' u
           in and_then (ok_or (ValidationErr ''Invalid URL'') (url_parse u)) (\<lambda>parsed.
              and_then (ok_or (ValidationErr ''URL does not contain a valid host'') (url_host parsed)) (\<lambda>domain.
                case List.find (\<lambda>p. web_target_matches url_parse u domain (perm_target p)) perms of
                  Some p \<Rightarrow> by_status denied prompt (perm_status p)
                | None \<Rightarrow> by_session denied prompt (ps_session st) ext RWeb u)))"

definition fs_passes_constraints :: "string \<Rightarrow> extension_permission \<Rightarrow> bool" where
  "fs_passes_constraints path p =
     (case perm_constraints p of
        Some (FsConstraints _ (Some allowed) _) \<Rightarrow>
          (case path_extension path of
             Some e \<Rightarrow> (CHR ''.'' # e) \<in> set allowed
           | None \<Rightarrow> False)
      | _ \<Rightarrow> True)"

fun fs_debug :: "action \<Rightarrow> string" where
  "fs_debug (Filesystem FsRead) = ''Filesystem(Read)''"
| "fs_debug (Filesystem FsReadWrite) = ''Filesystem(ReadWrite)''"
| "fs_debug a = action_as_str a"

definition check_filesystem_permission :: "(string \<Rightarrow> permission_constraints option) \<Rightarrow> perm_state \<Rightarrow> string
    \<Rightarrow> action \<Rightarrow> string \<Rightarrow> (extension_error, unit) result" where
  "check_filesystem_permission parse_c st ext act path =
     and_then (known_extension st ext) (\<lambda>m.
     and_then (get_permissions parse_c st ext) (\<lambda>perms.
       let quoted = ''filesystem path '' @ [CHR 0x27] @ path @ [CHR 0x27];
           denied = PermissionDenied ext (action_as_str act) quoted;
           prompt = PermissionPromptRequired ext (mf_name m) ''fs'' (action_as_str act) path
       in case List.find (\<lambda>p. perm_resource_type p = RFs \<and> perm_action p = act
                 \<and> matches_path_pattern (perm_target p) path) perms of
            Some p \<Rightarrow>
              if \<not> fs_passes_constraints path p
              then Inl (PermissionDenied ext (fs_debug act) (quoted @ '' (constraint violation)''))
              else by_status denied prompt (perm_status p)
          | None \<Rightarrow> by_session denied prompt (ps_session st) ext RFs path))"

fun matches_fs_action_for_read :: "action \<Rightarrow> bool" where
  "matches_fs_action_for_read (Filesystem a) = True"
| "matches_fs_action_for_read _ = False"

definition can_read_path_silently :: "extension_permission list \<Rightarrow> string \<Rightarrow> bool \<Rightarrow> bool \<Rightarrow> bool" where
  "can_read_path_silently perms path session_granted session_denied =
     (if session_denied then False
      else (case List.find (\<lambda>p. perm_resource_type p = RFs \<and> matches_fs_action_for_read (perm_action p)
                   \<and> matches_path_pattern (perm_target p) path) perms of
              Some p \<Rightarrow>
                if \<not> fs_passes_constraints path p then False
                else (case perm_status p of Granted \<Rightarrow> True | Denied \<Rightarrow> False | Ask \<Rightarrow> session_granted)
            | None \<Rightarrow> session_granted))"

definition is_fs_read_allowed_silently :: "(string \<Rightarrow> permission_constraints option) \<Rightarrow> perm_state \<Rightarrow> string
    \<Rightarrow> string \<Rightarrow> bool" where
  "is_fs_read_allowed_silently parse_c st ext path =
     (case get_permissions parse_c st ext of
        Inl _ \<Rightarrow> False
      | Inr perms \<Rightarrow>
          (case get_extension st ext of
             None \<Rightarrow> False
           | Some m \<Rightarrow> can_read_path_silently perms path (is_granted (ps_session st) ext RFs path)
                        (is_denied (ps_session st) ext RFs path)))"

definition shell_passes_constraints :: "string list \<Rightarrow> extension_permission \<Rightarrow> bool" where
  "shell_passes_constraints args p =
     (case perm_constraints p of
        Some (ShellConstraints allowed_subcommands allowed_flags forbidden_args) \<Rightarrow>
          (case allowed_subcommands of
             Some subs \<Rightarrow> args = [] \<or> hd args \<in> set subs \<or> ''*'' \<in> set subs
           | None \<Rightarrow> True)
          \<and> (case forbidden_args of
               Some forbidden \<Rightarrow> \<not> list_ex (\<lambda>a. a \<in> set forbidden) args
             | None \<Rightarrow> True)
          \<and> (case allowed_flags of
               Some flags \<Rightarrow> list_all (\<lambda>f. f \<in> set flags \<or> ''*'' \<in> set flags) (filter (\<lambda>a. starts_with a ''-'') args)
             | None \<Rightarrow> True)
      | _ \<Rightarrow> True)"

definition check_shell_permission :: "(string \<Rightarrow> permission_constraints option) \<Rightarrow> (string list \<Rightarrow> string) \<Rightarrow> perm_state
    \<Rightarrow> string \<Rightarrow> string \<Rightarrow> string list \<Rightarrow> (extension_error, unit) result" where
  "check_shell_permission parse_c debug_args st ext command args =
     and_then (known_extension st ext) (\<lambda>m.
     and_then (get_permissions parse_c st ext) (\<lambda>perms.
       let what = ''shell command '' @ [CHR 0x27] @ command @ [CHR 0x27] @ '' with args '' @ debug_args args;
           denied = PermissionDenied ext ''execute'' what;
           prompt = PermissionPromptRequired ext (mf_name m) ''shell'' ''execute'' command
       in case List.find (\<lambda>p. perm_resource_type p = RShell \<and> (perm_target p = command \<or> perm_target p = ''*'')) perms of
            Some p \<Rightarrow>
              if \<not> shell_passes_constraints args p
              then Inl (PermissionDenied ext ''execute'' (what @ '' (constraint violation)''))
              else by_status denied prompt (perm_status p)
          | None \<Rightarrow> by_session denied prompt (ps_session st) ext RShell command))"

fun filesync_action_allows :: "action \<Rightarrow> file_sync_action \<Rightarrow> bool" where
  "filesync_action_allows (FileSync a) required = (a = required \<or> (a = SyncReadWrite \<and> required = SyncRead))"
| "filesync_action_allows _ required = False"

definition filesync_matches :: "string \<Rightarrow> filesync_target \<Rightarrow> bool" where
  "filesync_matches tgt required =
     (case filesync_target_from_str tgt of
        Some t \<Rightarrow> filesync_target_matches t required
      | None \<Rightarrow> False)"

definition check_filesync_permission :: "(string \<Rightarrow> permission_constraints option) \<Rightarrow> perm_state \<Rightarrow> string
    \<Rightarrow> file_sync_action \<Rightarrow> filesync_target \<Rightarrow> (extension_error, unit) result" where
  "check_filesync_permission parse_c st ext act target =
     and_then (known_extension st ext) (\<lambda>m.
     and_then (get_permissions parse_c st ext) (\<lambda>perms.
       let target_str = filesync_target_as_str target;
           action_str = (case act of SyncRead \<Rightarrow> ''read'' | SyncReadWrite \<Rightarrow> ''readWrite'');
           denied = PermissionDenied ext action_str (''filesync:'' @ target_str);
           prompt = PermissionPromptRequired ext (mf_name m) ''filesync'' action_str target_str
       in case List.find (\<lambda>p. perm_resource_type p = RFilesync \<and> filesync_action_allows (perm_action p) act
                 \<and> filesync_matches (perm_target p) target) perms of
            Some p \<Rightarrow> by_status denied prompt (perm_status p)
          | None \<Rightarrow> by_session denied prompt (ps_session st) ext RFilesync target_str))"

fun spaces_action_allows :: "action \<Rightarrow> space_action \<Rightarrow> bool" where
  "spaces_action_allows (Spaces a) required = (a = required \<or> (a = SpaceReadWrite \<and> required = SpaceRead))"
| "spaces_action_allows _ required = False"

definition check_spaces_permission :: "(string \<Rightarrow> permission_constraints option) \<Rightarrow> perm_state \<Rightarrow> string
    \<Rightarrow> space_action \<Rightarrow> (extension_error, unit) result" where
  "check_spaces_permission parse_c st ext act =
     and_then (known_extension st ext) (\<lambda>m.
     and_then (get_permissions parse_c st ext) (\<lambda>perms.
       let action_str = (case act of SpaceRead \<Rightarrow> ''read'' | SpaceReadWrite \<Rightarrow> ''readWrite'');
           denied = PermissionDenied ext action_str ''spaces:*'';
           prompt = PermissionPromptRequired ext (mf_name m) ''spaces'' action_str ''*''
       in case List.find (\<lambda>p. perm_resource_type p = RSpaces \<and> spaces_action_allows (perm_action p) act) perms of
            Some p \<Rightarrow> by_status denied prompt (perm_status p)
          | None \<Rightarrow> by_session denied prompt (ps_session st) ext RSpaces ''*''))"

fun passwords_action_allows :: "action \<Rightarrow> passwords_action \<Rightarrow> bool" where
  "passwords_action_allows (Passwords a) required = (a = required \<or> (a = PwReadWrite \<and> required = PwRead))"
| "passwords_action_allows _ required = False"

definition check_passwords_permission :: "(string \<Rightarrow> permission_constraints option) \<Rightarrow> perm_state \<Rightarrow> string
    \<Rightarrow> passwords_action \<Rightarrow> (extension_error, passwords_scope) result" where
  "check_passwords_permission parse_c st ext act =
     and_then (known_extension st ext) (\<lambda>m.
     and_then (get_permissions parse_c st ext) (\<lambda>perms.
       let action_str = (case act of PwRead \<Rightarrow> ''read'' | PwReadWrite \<Rightarrow> ''readWrite'');
           prompt = PermissionPromptRequired ext (mf_name m) ''passwords'' action_str ''*'';
           matching = filter (\<lambda>p. perm_resource_type p = RPasswords \<and> passwords_action_allows (perm_action p) act) perms;
           granted = filter (\<lambda>p. perm_status p = Granted) matching
       in if matching = [] then Inl prompt
          else if list_ex (\<lambda>p. perm_status p = Denied) matching
          then Inl (PermissionDenied ext action_str ''passwords:*'')
          else if granted = [] then Inl prompt
          else if list_ex (\<lambda>p. perm_target p = ''*'') granted then Inr PwAll
          else Inr (PwTags (map perm_target granted))))"

definition host_matches :: "string \<Rightarrow> string \<Rightarrow> bool" where
  "host_matches host target =
     (let h = to_lowercase host; t = to_lowercase target
      in t = ''*'' \<or> t = h \<or> ends_with h (CHR ''.'' # t))"

definition mail_matches :: "mail_action \<Rightarrow> string \<Rightarrow> extension_permission \<Rightarrow> bool" where
  "mail_matches act host p \<longleftrightarrow> perm_resource_type p = RMail \<and> perm_action p = Mail act \<and> host_matches host (perm_target p)"

definition mail_session_status :: "extension_permission list \<Rightarrow> permission_status option" where
  "mail_session_status matching =
     (if list_ex (\<lambda>p. perm_status p = Denied) matching then Some Denied
      else if list_ex (\<lambda>p. perm_status p = Granted) matching then Some Granted
      else map_option perm_status (case matching of [] \<Rightarrow> None | p # _ \<Rightarrow> Some p))"

definition check_mail_permission :: "(string \<Rightarrow> permission_constraints option) \<Rightarrow> perm_state \<Rightarrow> string
    \<Rightarrow> mail_action \<Rightarrow> string \<Rightarrow> (extension_error, unit) result" where
  "check_mail_permission parse_c st ext act host =
     and_then (known_extension st ext) (\<lambda>m.
     and_then (get_permissions parse_c st ext) (\<lambda>perms.
       let matching = filter (mail_matches act host) perms;
           session_status = mail_session_status
             (filter (mail_matches act host) (get_permissions_for_extension (ps_session st) ext));
           denied = Inl (PermissionDenied ext (mail_action_as_str act) host);
           prompt = Inl (PermissionPromptRequired ext (mf_name m) ''mail'' (mail_action_as_str act) host);
           by_session_status = (case session_status of
               Some Granted \<Rightarrow> Inr () | Some Denied \<Rightarrow> denied | _ \<Rightarrow> prompt)
       in if matching = [] then by_session_status
          else if list_ex (\<lambda>p. perm_status p = Denied) matching then denied
          else if list_ex (\<lambda>p. perm_status p = Granted) matching then Inr ()
          else by_session_status))"


section \<open>Commands\<close>

definition extension_permissions_check_database :: "(string \<Rightarrow> permission_constraints option) \<Rightarrow> perm_state \<Rightarrow> string
    \<Rightarrow> string \<Rightarrow> string \<Rightarrow> string option \<Rightarrow> string option \<Rightarrow> (extension_error, unit) result" where
  "extension_permissions_check_database parse_c st window resource operation pk nm =
     and_then (resolve_extension_id st window pk nm) (\<lambda>ext.
     and_then (if operation = ''read'' then Inr (Database DbRead)
               else if operation = ''write'' then Inr (Database DbReadWrite)
               else Inl (ValidationErr (''Invalid database operation: '' @ operation))) (\<lambda>act.
       check_database_permission parse_c st ext act resource))"

definition extension_permissions_check_filesystem :: "(string \<Rightarrow> permission_constraints option) \<Rightarrow> perm_state \<Rightarrow> string
    \<Rightarrow> string \<Rightarrow> string \<Rightarrow> string option \<Rightarrow> string option \<Rightarrow> (extension_error, unit) result" where
  "extension_permissions_check_filesystem parse_c st window path operation pk nm =
     and_then (resolve_extension_id st window pk nm) (\<lambda>ext.
     and_then (if operation = ''read'' then Inr (Filesystem FsRead)
               else if operation = ''write'' then Inr (Filesystem FsReadWrite)
               else Inl (ValidationErr (''Invalid filesystem operation: '' @ operation))) (\<lambda>act.
       check_filesystem_permission parse_c st ext act path))"

definition extension_permissions_check_web :: "(string \<Rightarrow> permission_constraints option) \<Rightarrow> (string \<Rightarrow> url option) \<Rightarrow> perm_state
    \<Rightarrow> string \<Rightarrow> string \<Rightarrow> string option \<Rightarrow> string option \<Rightarrow> (extension_error, unit) result" where
  "extension_permissions_check_web parse_c url_parse st window u pk nm =
     and_then (resolve_extension_id st window pk nm) (\<lambda>ext. check_web_permission parse_c url_parse st ext u)"

definition grant_session_permission :: "perm_state \<Rightarrow> string \<Rightarrow> string \<Rightarrow> string \<Rightarrow> string \<Rightarrow> string \<Rightarrow> string
    \<Rightarrow> (extension_error, unit) result \<times> perm_state" where
  "grant_session_permission st uuid ext rt_str act_str target decision =
     (case and_then (resource_type_from_str rt_str) (\<lambda>rt.
           and_then (permission_status_from_str decision) (\<lambda>status.
           and_then (action_from_str rt act_str) (\<lambda>act.
             Inr \<lparr>perm_id = ''session-'' @ uuid, perm_extension_id = ext, perm_resource_type = rt,
                  perm_action = act, perm_target = target, perm_constraints = None, perm_status = status\<rparr>))) of
        Inl e \<Rightarrow> (Inl e, st)
      | Inr p \<Rightarrow> (Inr (), st\<lparr>ps_session := set_permission (ps_session st) p\<rparr>))"

definition remove_extension_session_permission :: "perm_state \<Rightarrow> string \<Rightarrow> string \<Rightarrow> string
    \<Rightarrow> (extension_error, unit) result \<times> perm_state" where
  "remove_extension_session_permission st ext rt_str target =
     (case resource_type_from_str rt_str of
        Inl e \<Rightarrow> (Inl e, st)
      | Inr rt \<Rightarrow> (Inr (), st\<lparr>ps_session := remove_permission (ps_session st) ext rt target\<rparr>))"

definition prompt_action :: "resource_type \<Rightarrow> string \<Rightarrow> (extension_error, action) result" where
  "prompt_action rt act =
     (let l = to_lowercase act
      in case rt of
           RDb \<Rightarrow> Inr (Database (if l = ''read'' then DbRead else if is_read_write l then DbReadWrite
                     else if l = ''create'' then DbCreate else if l = ''delete'' then DbDelete
                     else if l = ''alterdrop'' \<or> l = ''alter_drop'' then DbAlterDrop else DbRead))
         | RWeb \<Rightarrow> Inr (Web WAll)
         | RFs \<Rightarrow> Inr (Filesystem (if l = ''read'' then FsRead else if is_read_write l then FsReadWrite else FsRead))
         | RShell \<Rightarrow> Inr (Shell Execute)
         | RFilesync \<Rightarrow> Inr (FileSync (if l = ''read'' then SyncRead else if is_read_write l then SyncReadWrite else SyncRead))
         | RSpaces \<Rightarrow> Inr (Spaces (if l = ''read'' then SpaceRead else if is_read_write l then SpaceReadWrite else SpaceRead))
         | RIdentities \<Rightarrow> Inr (Identities IdentityRead)
         | RPasswords \<Rightarrow> if l = ''read'' then Inr (Passwords PwRead)
                        else if is_read_write l then Inr (Passwords PwReadWrite)
                        else Inl (ValidationErr (''Invalid passwords action: '' @ act))
         | RMail \<Rightarrow> if l = ''fetch'' then Inr (Mail Fetch)
                   else if l = ''send'' then Inr (Mail Send)
                   else Inl (ValidationErr (''Invalid mail action: '' @ act)))"

definition resolve_permission_prompt :: "(permission_constraints \<Rightarrow> string option) \<Rightarrow> (string \<Rightarrow> permission_constraints option)
    \<Rightarrow> (string \<Rightarrow> bool) \<Rightarrow> perm_state \<Rightarrow> string \<Rightarrow> string \<Rightarrow> string \<Rightarrow> string \<Rightarrow> string \<Rightarrow> string
    \<Rightarrow> (extension_error, unit) result \<times> perm_state" where
  "resolve_permission_prompt show_c parse_c fk_ok st uuid ext rt_str act_str target decision =
     (if decision = ''ask'' then (Inr (), st)
      else
        (case and_then (if decision = ''granted'' then Inr Granted
                        else if decision = ''denied'' then Inr Denied
                        else Inl (ValidationErr (''Invalid decision: '' @ decision))) (\<lambda>status.
              and_then (resource_type_from_str rt_str) (\<lambda>rt.
              and_then (prompt_action rt act_str) (\<lambda>act.
              and_then (get_permissions parse_c st ext) (\<lambda>existing.
                Inr (status, rt, act, existing))))) of
           Inl e \<Rightarrow> (Inl e, st)
         | Inr (status, rt, act, existing) \<Rightarrow>
             (case List.find (\<lambda>p. perm_resource_type p = rt \<and> perm_target p = target
                       \<and> (rt = RMail \<longrightarrow> perm_action p = act)) existing of
                Some p \<Rightarrow> update_permission_status st (perm_id p) status
              | None \<Rightarrow> save_permissions show_c fk_ok st
                  [\<lparr>perm_id = uuid, perm_extension_id = ext, perm_resource_type = rt, perm_action = act,
                    perm_target = target, perm_constraints = None, perm_status = status\<rparr>])))"


section \<open>Deny by default\<close>

text \<open>The contract shared by the checks that decide by the first matching row and then by
  the session: \<open>known\<close> is that the request can be evaluated at all, \<open>own\<close> a resource that needs
  no permission.\<close>

locale permission_decision =
  fixes check :: "'r \<Rightarrow> (extension_error, unit) result"
    and known :: "'r \<Rightarrow> bool"
    and own :: "'r \<Rightarrow> bool"
    and candidates :: "'r \<Rightarrow> extension_permission list"
    and matching :: "'r \<Rightarrow> extension_permission \<Rightarrow> bool"
    and passes :: "'r \<Rightarrow> extension_permission \<Rightarrow> bool"
    and session_grant :: "'r \<Rightarrow> bool"
  assumes decision: "check r = Inr () \<longleftrightarrow> known r \<and> (own r \<or>
      (case List.find (matching r) (candidates r) of
         Some p \<Rightarrow> passes r p \<and> perm_status p = Granted
       | None \<Rightarrow> session_grant r))"
begin

definition granted_by :: "'r \<Rightarrow> extension_permission \<Rightarrow> bool" where
  "granted_by r p \<longleftrightarrow> p \<in> set (candidates r) \<and> matching r p \<and> passes r p \<and> perm_status p = Granted"

lemma allowed_has_ground:
  assumes "check r = Inr ()"
  shows "own r \<or> (\<exists>p. granted_by r p) \<or> session_grant r"
  using assms by (auto simp: decision granted_by_def find_Some_iff split: option.splits dest: nth_mem)

lemma refused_without_grant:
  assumes "\<not> own r" "\<forall>p. \<not> granted_by r p" "\<not> session_grant r"
  shows "check r \<noteq> Inr ()"
  using assms allowed_has_ground by blast

lemma allowed_if_all_granted:
  assumes "known r" "\<exists>p\<in>set (candidates r). matching r p"
    and "\<forall>p\<in>set (candidates r). matching r p \<longrightarrow> passes r p \<and> perm_status p = Granted"
  shows "check r = Inr ()"
  using assms by (auto simp: decision find_None_iff find_Some_iff split: option.splits)

end

lemma by_status_ok [simp]: "by_status d q s = Inr () \<longleftrightarrow> s = Granted"
  by (cases s) (simp_all add: by_status_def)

lemma by_session_ok [simp]: "by_session d q sess ext rt t = Inr () \<longleftrightarrow> is_granted sess ext rt t"
  by (simp add: by_session_def)

text \<open>Whether a request of an extension can be evaluated, and the permissions then consulted.\<close>

definition can_evaluate :: "perm_state \<Rightarrow> string \<Rightarrow> bool" where
  "can_evaluate st ext \<longleftrightarrow> get_extension st ext \<noteq> None \<and> ps_db_error st = None"

lemma get_permissions_ok: "get_permissions parse_c st ext = Inr ps \<longleftrightarrow> ps_db_error st = None \<and> ps = loaded_rows parse_c (ps_rows st) ext"
  by (auto simp: get_permissions_def split: option.splits)

lemmas check_unfold = can_evaluate_def get_permissions_ok known_extension_def res_simps Let_def

interpretation db: permission_decision
  "\<lambda>(st, ext, a, tbl). check_database_permission parse_c st ext (Database a) tbl"
  "\<lambda>(st, ext, a, tbl). can_evaluate st ext"
  "\<lambda>(st, ext, a, tbl). case get_extension st ext of Some m \<Rightarrow> is_auto_allowed_table m tbl | None \<Rightarrow> False"
  "\<lambda>(st, ext, a, tbl). loaded_rows parse_c (ps_rows st) ext"
  "\<lambda>(st, ext, a, tbl) p. perm_resource_type p = RDb \<and> matches_table_pattern (perm_target p) tbl \<and> matches_action (perm_action p) a"
  "\<lambda>r p. True"
  "\<lambda>(st, ext, a, tbl). is_granted (ps_session st) ext RDb tbl"
  for parse_c
  by unfold_locales
    (auto simp: check_database_permission_def check_unfold split: option.splits if_splits)

interpretation fs: permission_decision
  "\<lambda>(st, ext, a, path). check_filesystem_permission parse_c st ext (Filesystem a) path"
  "\<lambda>(st, ext, a, path). can_evaluate st ext"
  "\<lambda>r. False"
  "\<lambda>(st, ext, a, path). loaded_rows parse_c (ps_rows st) ext"
  "\<lambda>(st, ext, a, path) p. perm_resource_type p = RFs \<and> perm_action p = Filesystem a \<and> matches_path_pattern (perm_target p) path"
  "\<lambda>(st, ext, a, path) p. fs_passes_constraints path p"
  "\<lambda>(st, ext, a, path). is_granted (ps_session st) ext RFs path"
  for parse_c
  by unfold_locales
    (auto simp: check_filesystem_permission_def check_unfold split: option.splits if_splits)

interpretation web: permission_decision
  "\<lambda>(st, ext, u). check_web_permission parse_c url_parse st ext u"
  "\<lambda>(st, ext, u). can_evaluate st ext \<and> (\<exists>parsed. url_parse u = Some parsed \<and> url_host parsed \<noteq> None)"
  "\<lambda>r. False"
  "\<lambda>(st, ext, u). map (web_row parse_c)
     (filter (\<lambda>r. pr_extension_id r = ext \<and> pr_resource_type r = Some ''web'') (ps_rows st))"
  "\<lambda>(st, ext, u) p. web_target_matches url_parse u (the (url_host (the (url_parse u)))) (perm_target p)"
  "\<lambda>r p. True"
  "\<lambda>(st, ext, u). is_granted (ps_session st) ext RWeb u"
  for parse_c url_parse
  by unfold_locales
    (auto simp: check_web_permission_def check_unfold split: option.splits if_splits)

interpretation shell: permission_decision
  "\<lambda>(st, ext, c, args). check_shell_permission parse_c debug_args st ext c args"
  "\<lambda>(st, ext, c, args). can_evaluate st ext"
  "\<lambda>r. False"
  "\<lambda>(st, ext, c, args). loaded_rows parse_c (ps_rows st) ext"
  "\<lambda>(st, ext, c, args) p. perm_resource_type p = RShell \<and> (perm_target p = c \<or> perm_target p = ''*'')"
  "\<lambda>(st, ext, c, args) p. shell_passes_constraints args p"
  "\<lambda>(st, ext, c, args). is_granted (ps_session st) ext RShell c"
  for parse_c debug_args
  by unfold_locales
    (auto simp: check_shell_permission_def check_unfold split: option.splits if_splits)

interpretation filesync: permission_decision
  "\<lambda>(st, ext, a, t). check_filesync_permission parse_c st ext a t"
  "\<lambda>(st, ext, a, t). can_evaluate st ext"
  "\<lambda>r. False"
  "\<lambda>(st, ext, a, t). loaded_rows parse_c (ps_rows st) ext"
  "\<lambda>(st, ext, a, t) p. perm_resource_type p = RFilesync \<and> filesync_action_allows (perm_action p) a \<and> filesync_matches (perm_target p) t"
  "\<lambda>r p. True"
  "\<lambda>(st, ext, a, t). is_granted (ps_session st) ext RFilesync (filesync_target_as_str t)"
  for parse_c
  by unfold_locales
    (auto simp: check_filesync_permission_def check_unfold split: option.splits if_splits)

interpretation spaces: permission_decision
  "\<lambda>(st, ext, a). check_spaces_permission parse_c st ext a"
  "\<lambda>(st, ext, a). can_evaluate st ext"
  "\<lambda>r. False"
  "\<lambda>(st, ext, a). loaded_rows parse_c (ps_rows st) ext"
  "\<lambda>(st, ext, a) p. perm_resource_type p = RSpaces \<and> spaces_action_allows (perm_action p) a"
  "\<lambda>r p. True"
  "\<lambda>(st, ext, a). is_granted (ps_session st) ext RSpaces ''*''"
  for parse_c
  by unfold_locales
    (auto simp: check_spaces_permission_def check_unfold split: option.splits if_splits)

text \<open>A stored row of the extension that is granted and satisfies a condition.\<close>

definition row_grants :: "(string \<Rightarrow> permission_constraints option) \<Rightarrow> perm_state \<Rightarrow> string \<Rightarrow> (extension_permission \<Rightarrow> bool) \<Rightarrow> bool" where
  "row_grants parse_c st ext P \<longleftrightarrow>
     (\<exists>p\<in>set (loaded_rows parse_c (ps_rows st) ext). perm_status p = Granted \<and> P p)"

text \<open>C28: Deny by default.  No database, filesystem, shell, file-sync or spaces request is
  allowed without a ground: a granted row of this very extension for the resource, with a
  sufficient action and its constraints met, or a session grant for exactly this target;
  for tables, also that the table carries the extension's own prefix.\<close>

theorem access_requires_grant:
  "(check_database_permission parse_c st ext (Database a) tbl = Inr () \<longrightarrow>
      (\<exists>m. get_extension st ext = Some m \<and> is_auto_allowed_table m tbl)
      \<or> row_grants parse_c st ext (\<lambda>p. perm_resource_type p = RDb \<and> matches_action (perm_action p) a
           \<and> matches_table_pattern (perm_target p) tbl)
      \<or> is_granted (ps_session st) ext RDb tbl)
   \<and> (check_filesystem_permission parse_c st ext (Filesystem fa) path = Inr () \<longrightarrow>
      row_grants parse_c st ext (\<lambda>p. perm_resource_type p = RFs \<and> perm_action p = Filesystem fa
           \<and> matches_path_pattern (perm_target p) path \<and> fs_passes_constraints path p)
      \<or> is_granted (ps_session st) ext RFs path)
   \<and> (check_shell_permission parse_c debug_args st ext c args = Inr () \<longrightarrow>
      row_grants parse_c st ext (\<lambda>p. perm_resource_type p = RShell \<and> (perm_target p = c \<or> perm_target p = ''*'')
           \<and> shell_passes_constraints args p)
      \<or> is_granted (ps_session st) ext RShell c)
   \<and> (check_filesync_permission parse_c st ext sa t = Inr () \<longrightarrow>
      row_grants parse_c st ext (\<lambda>p. perm_resource_type p = RFilesync \<and> filesync_action_allows (perm_action p) sa
           \<and> filesync_matches (perm_target p) t)
      \<or> is_granted (ps_session st) ext RFilesync (filesync_target_as_str t))
   \<and> (check_spaces_permission parse_c st ext spa = Inr () \<longrightarrow>
      row_grants parse_c st ext (\<lambda>p. perm_resource_type p = RSpaces \<and> spaces_action_allows (perm_action p) spa)
      \<or> is_granted (ps_session st) ext RSpaces ''*'')"
  using db.allowed_has_ground [of parse_c "(st, ext, a, tbl)"] fs.allowed_has_ground [of parse_c "(st, ext, fa, path)"]
    shell.allowed_has_ground [of parse_c debug_args "(st, ext, c, args)"]
    filesync.allowed_has_ground [of parse_c "(st, ext, sa, t)"] spaces.allowed_has_ground [of parse_c "(st, ext, spa)"]
  by (auto simp: row_grants_def db.granted_by_def fs.granted_by_def shell.granted_by_def filesync.granted_by_def
      spaces.granted_by_def split: option.splits)

definition sample_state :: "perm_row list \<Rightarrow> perm_state" where
  "sample_state rs = \<lparr>ps_extensions = [(''e'', \<lparr>mf_public_key = ''ab'', mf_name = ''notes''\<rparr>)], ps_windows = [],
     ps_db_error = None, ps_hlc_poisoned = False, ps_rows = rs, ps_session = session_new\<rparr>"

definition sample_row :: perm_row where
  "sample_row = \<lparr>pr_id = ''1'', pr_extension_id = ''e'', pr_resource_type = Some ''db'', pr_action = Some ''readWrite'',
     pr_target = Some ''ab__*'', pr_constraints = None, pr_status = ''granted''\<rparr>"

lemma sample_check_ok:
  "check_database_permission (\<lambda>_. None) (sample_state [sample_row]) ''e'' (Database DbRead) ''ab__x'' = Inr ()"
  by code_simp

theorem access_requires_grant_witness:
  "row_grants (\<lambda>_. None) (sample_state [sample_row]) ''e'' (\<lambda>p. perm_resource_type p = RDb
      \<and> matches_action (perm_action p) DbRead \<and> matches_table_pattern (perm_target p) ''ab__x'')"
proof -
  have "\<not> (\<exists>m. get_extension (sample_state [sample_row]) ''e'' = Some m \<and> is_auto_allowed_table m ''ab__x'')"
    by (simp add: get_extension_def sample_state_def) code_simp
  moreover have "\<not> is_granted (ps_session (sample_state [sample_row])) ''e'' RDb ''ab__x''"
    by code_simp
  ultimately show ?thesis
    using access_requires_grant [of "\<lambda>_. None" "sample_state [sample_row]" "''e''" DbRead "''ab__x''"] sample_check_ok
    by blast
qed


section \<open>System tables\<close>

lemma hex_prefix:
  assumes "validate_public_key pk = Inr ()"
  shows "\<not> starts_with (pk @ s) ''haex_'' \<and> \<not> starts_with (pk @ s) ''sqlite_''"
proof -
  have len: "length pk = 64" and hex: "list_all (\<lambda>c. to_digit 16 c \<noteq> None) pk"
    using assms by (auto simp: validate_public_key_def split: if_splits)
  then obtain c pk' where pk: "pk = c # pk'" by (cases pk) auto
  have "to_digit 16 c \<noteq> None" using hex pk by simp
  moreover have "to_digit 16 CHR ''h'' = None" "to_digit 16 CHR ''s'' = None" by (simp_all add: to_digit_def)
  ultimately have "c \<noteq> CHR ''h''" "c \<noteq> CHR ''s''" by auto
  then show ?thesis by (simp add: pk starts_with_prefix)
qed

lemma own_table_not_system:
  assumes "validate_public_key (mf_public_key m) = Inr ()" "is_auto_allowed_table m tbl"
  shows "\<not> is_system_table (clean_table_name tbl)"
proof -
  obtain s where "clean_table_name tbl = mf_public_key m @ s"
    using assms(2)
    by (auto simp: is_auto_allowed_table_def is_extension_table_def get_extension_table_prefix_def
        starts_with_prefix prefix_def)
  then show ?thesis using hex_prefix [OF assms(1)] by (simp add: is_system_table_def)
qed

text \<open>No stored permission, whatever its pattern, lets an extension with a valid public
  key touch a table whose name starts with \<open>haex_\<close> or \<open>sqlite_\<close>: such a request succeeds only by
  a session decision of the user for exactly that table.\<close>

theorem system_table_needs_session_grant:
  assumes "get_extension st ext = Some m" "validate_public_key (mf_public_key m) = Inr ()"
    and "is_system_table (clean_table_name tbl)"
  shows "check_database_permission parse_c st ext (Database a) tbl = Inr () \<longleftrightarrow>
    ps_db_error st = None \<and> is_granted (ps_session st) ext RDb tbl"
proof -
  have own: "\<not> is_auto_allowed_table m tbl" using own_table_not_system assms(2,3) by blast
  have no: "List.find (\<lambda>p. perm_resource_type p = RDb \<and> matches_table_pattern (perm_target p) tbl
      \<and> matches_action (perm_action p) a) ps = None" for ps
    using assms(3) by (simp add: find_None_iff matches_table_pattern_def matches_target_def)
  show ?thesis
    using db.decision [of parse_c "(st, ext, a, tbl)"] assms(1) own by (simp add: can_evaluate_def no)
qed

definition hex_state :: perm_state where
  "hex_state = (sample_state [sample_row\<lparr>pr_target := Some ''*''\<rparr>])
     \<lparr>ps_extensions := [(''e'', \<lparr>mf_public_key = replicate 64 CHR ''a'', mf_name = ''notes''\<rparr>)]\<rparr>"

theorem system_table_needs_session_grant_witness:
  "check_database_permission (\<lambda>_. None) hex_state ''e'' (Database DbRead) ''haex_vault'' \<noteq> Inr ()"
proof -
  have "is_system_table (clean_table_name ''haex_vault'')" by code_simp
  moreover have "validate_public_key (replicate 64 CHR ''a'') = Inr ()" by code_simp
  moreover have "\<not> is_granted (ps_session hex_state) ''e'' RDb ''haex_vault''" by code_simp
  ultimately show ?thesis
    using system_table_needs_session_grant [of hex_state "''e''" _ "''haex_vault''" "\<lambda>_. None" DbRead]
    by (simp add: hex_state_def get_extension_def sample_state_def)
qed

text \<open>The test is on the spelling, while SQLite compares table names case-insensitively and
  accepts a schema qualifier: other spellings of a system table are matched by \<open>*\<close>.\<close>

lemma system_table_spellings:
  "matches_target ''*'' (clean_table_name ''HAEX_vault'')" "matches_target ''*'' (clean_table_name ''main.haex_vault'')"
  by code_simp+



section \<open>Isolation between extensions\<close>

text \<open>The commands that change permissions on behalf of one extension.\<close>

inductive perm_step :: "string \<Rightarrow> perm_state \<Rightarrow> perm_state \<Rightarrow> bool" where
  save: "list_all (\<lambda>p. perm_extension_id p = y) perms \<Longrightarrow> perm_step y st (snd (save_permissions show_c fk_ok st perms))"
| delete_all: "perm_step y st (snd (delete_permissions st y))"
| session: "perm_step y st (snd (grant_session_permission st uuid y rt act target decision))"
| unsession: "perm_step y st (snd (remove_extension_session_permission st y rt target))"
| resolve: "perm_step y st (snd (resolve_permission_prompt show_c parse_c fk_ok st uuid y rt act target decision))"

text \<open>The primary key, kept by every step, and what another extension may observe.\<close>

definition rows_ok :: "perm_state \<Rightarrow> bool" where
  "rows_ok st \<longleftrightarrow> distinct (map pr_id (ps_rows st)) \<and> session_ok (ps_session st)"

definition agree_on :: "string \<Rightarrow> perm_state \<Rightarrow> perm_state \<Rightarrow> bool" where
  "agree_on x st st' \<longleftrightarrow> ps_extensions st' = ps_extensions st \<and> ps_db_error st' = ps_db_error st
     \<and> filter (\<lambda>r. pr_extension_id r = x) (ps_rows st') = filter (\<lambda>r. pr_extension_id r = x) (ps_rows st)
     \<and> (\<forall>rt t. store_lookup (ps_session st') (x, rt, t) = store_lookup (ps_session st) (x, rt, t))
     \<and> get_permissions_for_extension (ps_session st') x = get_permissions_for_extension (ps_session st) x"

lemma insert_rows_props:
  assumes "insert_rows fk_ok rs new = Some rs'" "distinct (map pr_id rs)"
    and "list_all (\<lambda>r. pr_extension_id r \<noteq> x) new"
  shows "distinct (map pr_id rs') \<and> filter (\<lambda>r. pr_extension_id r = x) rs' = filter (\<lambda>r. pr_extension_id r = x) rs"
  using assms
proof (induction fk_ok rs new arbitrary: rs' rule: insert_rows.induct)
  case (2 fk_ok rs r new)
  have "\<not> list_ex (row_conflicts r) rs" "insert_rows fk_ok (rs @ [r]) new = Some rs'"
    using "2.prems"(1) by (auto split: if_splits)
  moreover from this(1) have "pr_id r \<notin> pr_id ` set rs"
    by (auto simp: list_ex_iff row_conflicts_def)
  ultimately show ?case using 2 by (auto split: if_splits)
qed simp

lemma in_transaction_agree:
  assumes "rows_ok st"
    and "\<And>rs'. f (ps_rows st) = Some rs' \<Longrightarrow> distinct (map pr_id rs')
      \<and> filter (\<lambda>r. pr_extension_id r = x) rs' = filter (\<lambda>r. pr_extension_id r = x) (ps_rows st)"
  shows "rows_ok (snd (in_transaction st f)) \<and> agree_on x st (snd (in_transaction st f))"
  using assms by (auto simp: in_transaction_def agree_on_def rows_ok_def split: option.splits)

lemma session_update_agree:
  assumes "rows_ok st" "session_ok s'" "\<And>rt t. store_lookup s' (x, rt, t) = store_lookup (ps_session st) (x, rt, t)"
    "get_permissions_for_extension s' x = get_permissions_for_extension (ps_session st) x"
  shows "rows_ok (st\<lparr>ps_session := s'\<rparr>) \<and> agree_on x st (st\<lparr>ps_session := s'\<rparr>)"
  using assms by (simp add: rows_ok_def agree_on_def)

lemma put_other: "fst k \<noteq> x \<Longrightarrow> get_permissions_for_extension (store_put s k v) x = get_permissions_for_extension s x"
  by (auto simp: get_permissions_for_extension_def store_put_def intro!: arg_cong [where f = "map snd"] filter_cong)

lemma remove_other: "fst k \<noteq> x \<Longrightarrow> get_permissions_for_extension (store_remove s k) x = get_permissions_for_extension s x"
  by (auto simp: get_permissions_for_extension_def store_remove_def intro!: arg_cong [where f = "map snd"] filter_cong)

lemma save_agree:
  assumes "rows_ok st" "x \<noteq> y" "list_all (\<lambda>p. perm_extension_id p = y) perms"
  shows "rows_ok (snd (save_permissions show_c fk_ok st perms)) \<and> agree_on x st (snd (save_permissions show_c fk_ok st perms))"
  unfolding save_permissions_def
proof (rule in_transaction_agree [OF assms(1)])
  fix rs' assume "insert_rows fk_ok (ps_rows st) (map (permission_to_row show_c) perms) = Some rs'"
  moreover have "list_all (\<lambda>r. pr_extension_id r \<noteq> x) (map (permission_to_row show_c) perms)"
    using assms(2,3) by (auto simp: list_all_iff permission_to_row_def)
  ultimately show "distinct (map pr_id rs')
      \<and> filter (\<lambda>r. pr_extension_id r = x) rs' = filter (\<lambda>r. pr_extension_id r = x) (ps_rows st)"
    using assms(1) by (intro insert_rows_props) (auto simp: rows_ok_def)
qed

lemma filter_map_other:
  assumes "\<And>r. r \<in> set rs \<Longrightarrow> pr_extension_id (g r) = pr_extension_id r"
    and "\<And>r. r \<in> set rs \<Longrightarrow> pr_extension_id r = x \<Longrightarrow> g r = r"
  shows "filter (\<lambda>r. pr_extension_id r = x) (map g rs) = filter (\<lambda>r. pr_extension_id r = x) rs"
  using assms by (induction rs) auto

lemma update_status_agree:
  assumes "rows_ok st" "x \<noteq> y" "p \<in> set (loaded_rows parse_c (ps_rows st) y)"
  shows "rows_ok (snd (update_permission_status st (perm_id p) s)) \<and> agree_on x st (snd (update_permission_status st (perm_id p) s))"
  unfolding update_permission_status_def
proof (rule in_transaction_agree [OF assms(1)], goal_cases)
  case (1 rs')
  obtain q where q: "q \<in> set (ps_rows st)" "pr_extension_id q = y" "pr_id q = perm_id p"
    using assms(3) by (auto simp: loaded_rows_def permission_from_row_def Let_def)
  have ids: "inj_on pr_id (set (ps_rows st))" using assms(1) by (simp add: rows_ok_def distinct_map)
  have other: "r = q" if "r \<in> set (ps_rows st)" "pr_id r = perm_id p" for r
    using inj_onD [OF ids, of r q] q that by simp
  have "filter (\<lambda>r. pr_extension_id r = x) (map (\<lambda>r. if pr_id r = perm_id p
        then r\<lparr>pr_status := permission_status_as_str s\<rparr> else r) (ps_rows st)) = filter (\<lambda>r. pr_extension_id r = x) (ps_rows st)"
  proof (rule filter_map_other)
    fix r assume "r \<in> set (ps_rows st)" "pr_extension_id r = x"
    then have "pr_id r \<noteq> perm_id p" using other q(2) assms(2) by blast
    then show "(if pr_id r = perm_id p then r\<lparr>pr_status := permission_status_as_str s\<rparr> else r) = r" by simp
  qed simp
  then have "filter (\<lambda>r. pr_extension_id r = x) rs' = filter (\<lambda>r. pr_extension_id r = x) (ps_rows st)"
    using 1 by simp
  moreover have "map pr_id rs' = map pr_id (ps_rows st)" using 1 by auto
  ultimately show ?case using assms(1) by (simp add: rows_ok_def)
qed

lemma grant_session_cases:
  obtains "snd (grant_session_permission st uuid y rt act target decision) = st"
  | p where "perm_extension_id p = y"
      "snd (grant_session_permission st uuid y rt act target decision) = st\<lparr>ps_session := set_permission (ps_session st) p\<rparr>"
proof -
  define r where "r = and_then (resource_type_from_str rt) (\<lambda>rt.
           and_then (permission_status_from_str decision) (\<lambda>status.
           and_then (action_from_str rt act) (\<lambda>act.
             Inr \<lparr>perm_id = ''session-'' @ uuid, perm_extension_id = y, perm_resource_type = rt,
                  perm_action = act, perm_target = target, perm_constraints = None, perm_status = status\<rparr>)))"
  note res = grant_session_permission_def [of st uuid y rt act target decision, folded r_def]
  show thesis
  proof (cases r)
    case (Inl e) then show thesis using that(1) res by simp
  next
    case (Inr p)
    then have "perm_extension_id p = y" unfolding r_def by (auto simp: and_then_Inr_iff)
    then show thesis using that(2) res Inr by simp
  qed
qed

lemma resolve_cases:
  obtains "snd (resolve_permission_prompt show_c parse_c fk_ok st uuid y rt act target decision) = st"
  | p s where "p \<in> set (loaded_rows parse_c (ps_rows st) y)"
      "snd (resolve_permission_prompt show_c parse_c fk_ok st uuid y rt act target decision) = snd (update_permission_status st (perm_id p) s)"
  | p where "perm_extension_id p = y"
      "snd (resolve_permission_prompt show_c parse_c fk_ok st uuid y rt act target decision) = snd (save_permissions show_c fk_ok st [p])"
proof -
  define r where "r = and_then (if decision = ''granted'' then Inr Granted
                        else if decision = ''denied'' then Inr Denied
                        else Inl (ValidationErr (''Invalid decision: '' @ decision))) (\<lambda>status.
              and_then (resource_type_from_str rt) (\<lambda>rt.
              and_then (prompt_action rt act) (\<lambda>act.
              and_then (get_permissions parse_c st y) (\<lambda>existing.
                Inr (status, rt, act, existing)))))"
  note res = resolve_permission_prompt_def [of show_c parse_c fk_ok st uuid y rt act target decision, folded r_def]
  show thesis
  proof (cases "\<exists>q. r = Inr q \<and> decision \<noteq> ''ask''")
    case False
    then show thesis using that(1) res by (cases r) auto
  next
    case True
    then obtain s t a existing where r: "r = Inr (s, t, a, existing)" and d: "decision \<noteq> ''ask''" by auto
    then have ex: "existing = loaded_rows parse_c (ps_rows st) y"
      unfolding r_def by (clarsimp simp: and_then_Inr_iff get_permissions_ok)
    show thesis
    proof (cases "List.find (\<lambda>p. perm_resource_type p = t \<and> perm_target p = target \<and> (t = RMail \<longrightarrow> perm_action p = a)) existing")
      case None
      show thesis by (rule that(3)) (use None res r d in simp_all)
    next
      case (Some p)
      then have "p \<in> set existing" by (auto simp: find_Some_iff)
      then show thesis using that(2) res r d Some ex by simp
    qed
  qed
qed

lemma perm_step_agree:
  assumes "perm_step y st st'" "x \<noteq> y" "rows_ok st"
  shows "rows_ok st' \<and> agree_on x st st'"
  using assms
proof (induction rule: perm_step.induct)
  case (save y perms st show_c fk_ok) then show ?case using save_agree by blast
next
  case (delete_all y st)
  show ?case unfolding delete_permissions_def
    by (rule in_transaction_agree [OF delete_all(2)])
      (use delete_all in \<open>auto simp: rows_ok_def distinct_map_filter intro!: filter_cong\<close>)
next
  case (session y st uuid rt act target decision)
  show ?case
  proof (cases rule: grant_session_cases [of st uuid y rt act target decision])
    case 1 then show ?thesis using session by (simp add: agree_on_def)
  next
    case (2 p)
    have "rows_ok (st\<lparr>ps_session := set_permission (ps_session st) p\<rparr>)
        \<and> agree_on x st (st\<lparr>ps_session := set_permission (ps_session st) p\<rparr>)"
      using session 2(1)
      by (intro session_update_agree)
        (simp_all add: rows_ok_def set_permission_def perm_key_def session.ok_put session.lookup_put put_other)
    then show ?thesis using 2(2) by simp
  qed
next
  case (unsession y st rt target)
  have "rows_ok (st\<lparr>ps_session := remove_permission (ps_session st) y t target\<rparr>)
        \<and> agree_on x st (st\<lparr>ps_session := remove_permission (ps_session st) y t target\<rparr>)" for t
    using unsession
    by (intro session_update_agree)
      (simp_all add: rows_ok_def remove_permission_def session.ok_remove session.lookup_remove remove_other)
  moreover have "agree_on x st st" by (simp add: agree_on_def)
  ultimately show ?case
    using unsession by (cases "resource_type_from_str rt") (simp_all add: remove_extension_session_permission_def)
next
  case (resolve y st show_c parse_c fk_ok uuid rt act target decision)
  show ?case
  proof (cases rule: resolve_cases [of show_c parse_c fk_ok st uuid y rt act target decision])
    case 1 then show ?thesis using resolve by (simp add: agree_on_def)
  next
    case (2 p s) then show ?thesis using update_status_agree [of st x y] resolve by metis
  next
    case (3 p) then show ?thesis using save_agree [of st x y "[p]"] resolve by simp
  qed
qed

text \<open>What the checks of an extension depend on.\<close>

lemma agree_rows: "agree_on x st st' \<Longrightarrow> loaded_rows parse_c (ps_rows st') x = loaded_rows parse_c (ps_rows st) x"
  by (simp add: agree_on_def loaded_rows_def)

lemma agree_web_rows:
  assumes "agree_on x st st'"
  shows "filter (\<lambda>r. pr_extension_id r = x \<and> Q r) (ps_rows st') = filter (\<lambda>r. pr_extension_id r = x \<and> Q r) (ps_rows st)"
proof -
  have "filter (\<lambda>r. pr_extension_id r = x \<and> Q r) rs = filter Q (filter (\<lambda>r. pr_extension_id r = x) rs)" for rs
    by (induction rs) auto
  note two = this
  show ?thesis using assms unfolding two by (simp add: agree_on_def)
qed

lemma agree_session:
  assumes "agree_on x st st'"
  shows "is_granted (ps_session st') x rt t = is_granted (ps_session st) x rt t"
    "is_denied (ps_session st') x rt t = is_denied (ps_session st) x rt t"
  using assms by (simp_all add: agree_on_def is_granted_def is_denied_def get_permission_def)

lemma agree_base:
  assumes "agree_on x st st'"
  shows "get_extension st' x = get_extension st x" "get_permissions parse_c st' x = get_permissions parse_c st x"
    "known_extension st' x = known_extension st x" "ps_db_error st' = ps_db_error st"
    "get_permissions_for_extension (ps_session st') x = get_permissions_for_extension (ps_session st) x"
  using assms agree_rows [OF assms]
  by (simp_all add: agree_on_def get_extension_def get_permissions_def known_extension_def split: option.splits)

lemma agree_trans: "agree_on x a b \<Longrightarrow> agree_on x b c \<Longrightarrow> agree_on x a c"
  by (simp add: agree_on_def)

lemma perm_steps_agree:
  assumes "(\<lambda>s t. \<exists>y. y \<noteq> x \<and> perm_step y s t)\<^sup>*\<^sup>* st st'" "rows_ok st"
  shows "rows_ok st' \<and> agree_on x st st'"
  using assms
proof (induction rule: rtranclp_induct)
  case base then show ?case by (simp add: agree_on_def)
next
  case (step b c)
  then obtain y where "y \<noteq> x" "perm_step y b c" by blast
  then show ?case using perm_step_agree [of y b c x] agree_trans [of x st b c] step by simp
qed

lemma agree_checks:
  assumes "agree_on x st st'"
  shows "check_database_permission parse_c st' x act tbl = check_database_permission parse_c st x act tbl"
    "check_web_permission parse_c url_parse st' x u = check_web_permission parse_c url_parse st x u"
    "check_filesystem_permission parse_c st' x act path = check_filesystem_permission parse_c st x act path"
    "check_shell_permission parse_c debug_args st' x c args = check_shell_permission parse_c debug_args st x c args"
    "check_filesync_permission parse_c st' x sa t = check_filesync_permission parse_c st x sa t"
    "check_spaces_permission parse_c st' x spa = check_spaces_permission parse_c st x spa"
    "check_passwords_permission parse_c st' x pa = check_passwords_permission parse_c st x pa"
    "check_mail_permission parse_c st' x ma host = check_mail_permission parse_c st x ma host"
  unfolding check_database_permission_def check_web_permission_def check_filesystem_permission_def
    check_shell_permission_def check_filesync_permission_def check_spaces_permission_def
    check_passwords_permission_def check_mail_permission_def by_session_def
    agree_base [OF assms] agree_session [OF assms] agree_web_rows [OF assms]
  by (rule refl)+

text \<open>C29: Isolation.  Whatever sequence of permission commands runs on behalf of other
  extensions - installing, uninstalling, session decisions, answered prompts - no check of
  extension \<open>x\<close> changes its answer; this rests on the primary key, which every command keeps.\<close>

theorem permission_isolation:
  assumes "(\<lambda>s t. \<exists>y. y \<noteq> x \<and> perm_step y s t)\<^sup>*\<^sup>* st st'" "rows_ok st"
  shows "rows_ok st'
    \<and> check_database_permission parse_c st' x act tbl = check_database_permission parse_c st x act tbl
    \<and> check_web_permission parse_c url_parse st' x u = check_web_permission parse_c url_parse st x u
    \<and> check_filesystem_permission parse_c st' x act path = check_filesystem_permission parse_c st x act path
    \<and> check_shell_permission parse_c debug_args st' x c args = check_shell_permission parse_c debug_args st x c args
    \<and> check_filesync_permission parse_c st' x sa t = check_filesync_permission parse_c st x sa t
    \<and> check_spaces_permission parse_c st' x spa = check_spaces_permission parse_c st x spa
    \<and> check_passwords_permission parse_c st' x pa = check_passwords_permission parse_c st x pa
    \<and> check_mail_permission parse_c st' x ma host = check_mail_permission parse_c st x ma host"
  by (intro conjI agree_checks perm_steps_agree [OF assms, THEN conjunct1] perm_steps_agree [OF assms, THEN conjunct2])


theorem permission_isolation_witness:
  "let st = sample_state [sample_row]; st' = snd (delete_permissions st ''f'')
   in check_database_permission (\<lambda>_. None) st' ''e'' (Database DbRead) ''ab__x'' = Inr ()"
proof -
  have "(\<lambda>s t. \<exists>y. y \<noteq> ''e'' \<and> perm_step y s t)\<^sup>*\<^sup>* (sample_state [sample_row]) (snd (delete_permissions (sample_state [sample_row]) ''f''))"
    by (rule r_into_rtranclp, rule exI [of _ "''f''"]) (simp add: perm_step.delete_all)
  moreover have "rows_ok (sample_state [sample_row])"
    by (simp add: rows_ok_def sample_state_def session_ok_new)
  ultimately show ?thesis
    by (simp only: Let_def sample_check_ok
        permission_isolation [of "''e''" "sample_state [sample_row]", THEN conjunct2, THEN conjunct1])
qed


section \<open>Password scopes\<close>

definition pw_applicable :: "(string \<Rightarrow> permission_constraints option) \<Rightarrow> perm_state \<Rightarrow> string \<Rightarrow> passwords_action
    \<Rightarrow> extension_permission \<Rightarrow> bool" where
  "pw_applicable parse_c st ext a p \<longleftrightarrow> p \<in> set (loaded_rows parse_c (ps_rows st) ext) \<and> perm_resource_type p = RPasswords
      \<and> passwords_action_allows (perm_action p) a"

text \<open>The password scope handed to an extension is exactly what the user granted: it is
  given only if no applicable permission is denied and at least one is granted, it is
  unrestricted precisely when a granted one has target \<open>*\<close>, and otherwise a tag is in it
  precisely when it is the target of a granted permission.\<close>

theorem passwords_scope_exact:
  assumes "can_evaluate st ext"
  shows "((\<exists>scope. check_passwords_permission parse_c st ext a = Inr scope) \<longleftrightarrow>
        (\<exists>p. pw_applicable parse_c st ext a p \<and> perm_status p = Granted) \<and> (\<forall>p. pw_applicable parse_c st ext a p \<longrightarrow> perm_status p \<noteq> Denied))
    \<and> (check_passwords_permission parse_c st ext a = Inr PwAll \<longrightarrow>
        (\<exists>p. pw_applicable parse_c st ext a p \<and> perm_status p = Granted \<and> perm_target p = ''*''))
    \<and> (\<forall>tags. check_passwords_permission parse_c st ext a = Inr (PwTags tags) \<longrightarrow>
        ''*'' \<notin> set tags \<and> (\<forall>t. t \<in> set tags \<longleftrightarrow> (\<exists>p. pw_applicable parse_c st ext a p \<and> perm_status p = Granted \<and> perm_target p = t)))"
proof -
  obtain m where m: "get_extension st ext = Some m" and e: "ps_db_error st = None"
    using assms(1) by (auto simp: can_evaluate_def)
  define mt where "mt = filter (\<lambda>p. perm_resource_type p = RPasswords \<and> passwords_action_allows (perm_action p) a)
      (loaded_rows parse_c (ps_rows st) ext)"
  have app: "pw_applicable parse_c st ext a p \<longleftrightarrow> p \<in> set mt" for p by (simp add: pw_applicable_def mt_def)
  have chk: "check_passwords_permission parse_c st ext a =
      (let act = (case a of PwRead \<Rightarrow> ''read'' | PwReadWrite \<Rightarrow> ''readWrite'');
           prompt = PermissionPromptRequired ext (mf_name m) ''passwords'' act ''*'';
           granted = filter (\<lambda>p. perm_status p = Granted) mt
       in if mt = [] then Inl prompt
          else if list_ex (\<lambda>p. perm_status p = Denied) mt then Inl (PermissionDenied ext act ''passwords:*'')
          else if granted = [] then Inl prompt
          else if list_ex (\<lambda>p. perm_target p = ''*'') granted then Inr PwAll
          else Inr (PwTags (map perm_target granted)))"
    using m e by (simp add: check_passwords_permission_def known_extension_def get_permissions_def mt_def Let_def)
  show ?thesis
    unfolding app chk Let_def by (force simp: list_ex_iff filter_empty_conv)
qed

definition pw_row :: perm_row where
  "pw_row = sample_row\<lparr>pr_resource_type := Some ''passwords'', pr_action := Some ''read'', pr_target := Some ''calendar''\<rparr>"

theorem passwords_scope_exact_witness:
  "\<exists>scope. check_passwords_permission (\<lambda>_. None) (sample_state [pw_row]) ''e'' PwRead = Inr scope"
proof -
  have "can_evaluate (sample_state [pw_row]) ''e''"
    by (simp add: can_evaluate_def sample_state_def get_extension_def)
  moreover have "set (loaded_rows (\<lambda>_. None) (ps_rows (sample_state [pw_row])) ''e'') =
      {\<lparr>perm_id = ''1'', perm_extension_id = ''e'', perm_resource_type = RPasswords, perm_action = Passwords PwRead,
        perm_target = ''calendar'', perm_constraints = None, perm_status = Granted\<rparr>}"
    by code_simp
  ultimately show ?thesis
    using passwords_scope_exact [of "sample_state [pw_row]" "''e''" "\<lambda>_. None" PwRead] by (simp add: pw_applicable_def)
qed


section \<open>Constraints and actions that are lost\<close>

text \<open>The constraints of a filesystem or shell permission are not enforced once the
  permission has been stored: read back, they are empty database constraints, so every path
  and every argument list passes.\<close>

theorem stored_constraints_not_enforced:
  assumes "perm_resource_type p = action_type (perm_action p)" "perm_constraints p = Some c"
    and "c = FsConstraints sz exts rec \<or> c = ShellConstraints subs flags forb"
    and "json_parse (json_print (constraints_to_json c)) = Some (constraints_to_json c)"
  defines "q \<equiv> permission_from_row (load_constraints json_parse) (permission_to_row (store_constraints json_print) p)"
  shows "perm_constraints q = Some (DbConstraints None None None) \<and> perm_status q = perm_status p
    \<and> fs_passes_constraints path q \<and> shell_passes_constraints args q"
proof -
  have "q = p\<lparr>perm_constraints := Some (DbConstraints None None None)\<rparr>"
    using stored_permission [of p json_parse json_print] assms
    by (auto simp: db_limit_ok_def)
  then show ?thesis by (simp add: fs_passes_constraints_def shell_passes_constraints_def)
qed

definition sample_fs_perm :: extension_permission where
  "sample_fs_perm = \<lparr>perm_id = ''2'', perm_extension_id = ''e'', perm_resource_type = RFs, perm_action = Filesystem FsRead,
     perm_target = ''*'', perm_constraints = Some (FsConstraints None (Some [''.txt'']) None), perm_status = Granted\<rparr>"

theorem stored_constraints_not_enforced_witness:
  "\<not> fs_passes_constraints ''/home/me/key.pem'' sample_fs_perm
   \<and> fs_passes_constraints ''/home/me/key.pem''
       (permission_from_row (load_constraints sample_parse) (permission_to_row (store_constraints sample_print) sample_fs_perm))"
proof
  show "\<not> fs_passes_constraints ''/home/me/key.pem'' sample_fs_perm" by code_simp
  show "fs_passes_constraints ''/home/me/key.pem''
       (permission_from_row (load_constraints sample_parse) (permission_to_row (store_constraints sample_print) sample_fs_perm))"
    using stored_constraints_not_enforced [of sample_fs_perm "FsConstraints None (Some [''.txt'']) None" None "Some [''.txt'']" None
        None None None sample_parse sample_print "''/home/me/key.pem''"]
    by (simp add: sample_fs_perm_def opt_field_def json_strings_def sample_parse_def)
qed

text \<open>A session decision is keyed without its action: a session grant given for reading
  a table, as the prompt for a read request records it, also allows writing to it.\<close>

theorem session_read_grant_allows_write:
  assumes "session_ok (ps_session st)" "can_evaluate st ext"
    and "\<forall>p\<in>set (loaded_rows parse_c (ps_rows st) ext). perm_resource_type p \<noteq> RDb"
  shows "check_database_permission parse_c (snd (grant_session_permission st uuid ext ''db'' ''read'' tbl ''granted''))
    ext (Database DbReadWrite) tbl = Inr ()"
proof -
  define st' where "st' = snd (grant_session_permission st uuid ext ''db'' ''read'' tbl ''granted'')"
  define p where "p = \<lparr>perm_id = ''session-'' @ uuid, perm_extension_id = ext, perm_resource_type = RDb,
      perm_action = Database DbRead, perm_target = tbl, perm_constraints = None, perm_status = Granted\<rparr>"
  have st': "st' = st\<lparr>ps_session := set_permission (ps_session st) p\<rparr>"
    by (simp add: st'_def grant_session_permission_def p_def resource_type_from_str_def permission_status_from_str_def
        db_action_from_str_def to_lowercase_consts)
  have "is_granted (ps_session st') ext RDb tbl"
    using assms(1)
    by (simp add: st' is_granted_def get_permission_def set_permission_def session.lookup_put perm_key_def p_def)
  moreover have "can_evaluate st' ext" using assms(2) by (simp add: st' can_evaluate_def get_extension_def)
  moreover have "List.find (\<lambda>p. perm_resource_type p = RDb \<and> matches_table_pattern (perm_target p) tbl
      \<and> matches_action (perm_action p) DbReadWrite) (loaded_rows parse_c (ps_rows st') ext) = None"
    using assms(3) by (auto simp: find_None_iff st')
  ultimately show ?thesis
    using db.decision [of parse_c "(st', ext, DbReadWrite, tbl)"] by (simp add: st'_def)
qed

theorem session_read_grant_allows_write_witness:
  "check_database_permission (\<lambda>_. None)
     (snd (grant_session_permission (sample_state []) ''u'' ''e'' ''db'' ''read'' ''other__table'' ''granted''))
     ''e'' (Database DbReadWrite) ''other__table'' = Inr ()"
  by (rule session_read_grant_allows_write)
    (simp_all add: sample_state_def session_ok_new can_evaluate_def get_extension_def loaded_rows_def)


end
