(* ===== verification/SqlTables.thy ===== *)
theory SqlTables
  imports PermCheck
begin

text \<open>
  Table extraction (\<open>database/core.rs\<close>) and the SQL permission check built on it
  (\<open>extension/permissions/validator.rs\<close>).  The syntax tree is that of the \<open>sqlparser\<close> crate,
  with the constructors the extraction distinguishes and those in which SQLite allows a
  subquery; the parser itself is the argument \<open>parse\<close>.  Names are object names as printed.
\<close>

section \<open>Syntax\<close>

datatype query = Query (query_with: "query list") (query_body: set_expr) (query_order_by: "expr list")
and set_expr =
    SeSelect select
  | SeQuery query
  | SeSetOperation set_expr set_expr
  | SeValues "expr list"
  | SeTable string
  | SeDml
and select = Select (sel_projection: "expr list") (sel_from: "table_with_joins list")
    (sel_selection: "expr option") (sel_group_by: "expr list") (sel_having: "expr option")
and table_with_joins = TableWithJoins (twj_relation: table_factor) (twj_joins: "join list")
and join = Join (join_relation: table_factor) (join_on: "expr option")
and table_factor =
    TfTable string
  | TfDerived query
  | TfTableFunction "expr list"
  | TfNestedJoin table_with_joins
and expr =
    EIdentifier string
  | EValue string
  | ESubquery query
  | EBinaryOp expr expr
  | EUnaryOp expr
  | EInSubquery expr query
  | EBetween expr expr expr
  | EExists query
  | ENested expr
  | EIsNull expr
  | EInList expr "expr list"
  | EFunction string "expr list"
  | ECase "expr list"
  | ECast expr
  | ELike expr expr

datatype insert_table = InsTableName string | InsTableFunction string

datatype alter_op = AddColumn | DropColumn "string list" | RenameColumn | AlterColumn | OtherAlterOp

text \<open>The last argument of the three data statements is the \<open>RETURNING\<close> clause.\<close>

datatype sql_statement =
    StQuery query
  | StInsert insert_table "query option" "expr list option"
  | StUpdate table_with_joins "expr list" "expr option" "table_with_joins list" "expr list option"
  | StDelete "table_with_joins list" "string list" "expr option" "expr list option"
  | StCreateTable string
  | StAlterTable string "alter_op list"
  | StDrop "string list"
  | StCreateIndex string
  | StTruncate "string list"
  | StOther


section \<open>Extraction\<close>

fun extract_tables_from_query_recursive :: "query \<Rightarrow> string list"
  and extract_tables_from_set_expr_recursive :: "set_expr \<Rightarrow> string list"
  and extract_tables_from_select :: "select \<Rightarrow> string list"
  and extract_tables_from_from :: "table_with_joins list \<Rightarrow> string list"
  and extract_tables_from_joins :: "join list \<Rightarrow> string list"
  and extract_tables_from_table_factor :: "table_factor \<Rightarrow> string list"
  and extract_tables_from_expr_recursive :: "expr \<Rightarrow> string list" where
  "extract_tables_from_query_recursive (Query w b ob) = extract_tables_from_set_expr_recursive b"
| "extract_tables_from_set_expr_recursive (SeSelect s) = extract_tables_from_select s"
| "extract_tables_from_set_expr_recursive (SeQuery q) = extract_tables_from_query_recursive q"
| "extract_tables_from_set_expr_recursive (SeSetOperation l r) =
     extract_tables_from_set_expr_recursive l @ extract_tables_from_set_expr_recursive r"
| "extract_tables_from_set_expr_recursive (SeValues _) = []"
| "extract_tables_from_set_expr_recursive (SeTable _) = []"
| "extract_tables_from_set_expr_recursive SeDml = []"
| "extract_tables_from_select (Select p f None g h) = extract_tables_from_from f"
| "extract_tables_from_select (Select p f (Some e) g h) =
     extract_tables_from_from f @ extract_tables_from_expr_recursive e"
| "extract_tables_from_from [] = []"
| "extract_tables_from_from (TableWithJoins r js # ts) =
     extract_tables_from_table_factor r @ extract_tables_from_joins js @ extract_tables_from_from ts"
| "extract_tables_from_joins [] = []"
| "extract_tables_from_joins (Join r c # js) = extract_tables_from_table_factor r @ extract_tables_from_joins js"
| "extract_tables_from_table_factor (TfTable n) = [n]"
| "extract_tables_from_table_factor (TfDerived q) = extract_tables_from_query_recursive q"
| "extract_tables_from_table_factor (TfTableFunction _) = []"
| "extract_tables_from_table_factor (TfNestedJoin (TableWithJoins r js)) =
     extract_tables_from_table_factor r @ extract_tables_from_joins js"
| "extract_tables_from_expr_recursive (ESubquery q) = extract_tables_from_query_recursive q"
| "extract_tables_from_expr_recursive (EBinaryOp l r) =
     extract_tables_from_expr_recursive l @ extract_tables_from_expr_recursive r"
| "extract_tables_from_expr_recursive (EUnaryOp e) = extract_tables_from_expr_recursive e"
| "extract_tables_from_expr_recursive (EInSubquery e q) =
     extract_tables_from_expr_recursive e @ extract_tables_from_query_recursive q"
| "extract_tables_from_expr_recursive (EBetween e l h) =
     extract_tables_from_expr_recursive e @ extract_tables_from_expr_recursive l @ extract_tables_from_expr_recursive h"
| "extract_tables_from_expr_recursive (EIdentifier _) = []"
| "extract_tables_from_expr_recursive (EValue _) = []"
| "extract_tables_from_expr_recursive (EExists _) = []"
| "extract_tables_from_expr_recursive (ENested _) = []"
| "extract_tables_from_expr_recursive (EIsNull _) = []"
| "extract_tables_from_expr_recursive (EInList _ _) = []"
| "extract_tables_from_expr_recursive (EFunction _ _) = []"
| "extract_tables_from_expr_recursive (ECase _) = []"
| "extract_tables_from_expr_recursive (ECast _) = []"
| "extract_tables_from_expr_recursive (ELike _ _) = []"

definition extract_opt :: "expr option \<Rightarrow> string list" where
  "extract_opt e = (case e of Some e \<Rightarrow> extract_tables_from_expr_recursive e | None \<Rightarrow> [])"

fun extract_table_names_from_statement :: "sql_statement \<Rightarrow> string list" where
  "extract_table_names_from_statement (StQuery q) = extract_tables_from_query_recursive q"
| "extract_table_names_from_statement (StInsert t src ret) =
     (case t of InsTableName n \<Rightarrow> [n] | InsTableFunction _ \<Rightarrow> [])
     @ (case src of Some q \<Rightarrow> extract_tables_from_query_recursive q | None \<Rightarrow> [])"
| "extract_table_names_from_statement (StUpdate t assigns sel frm ret) =
     extract_tables_from_table_factor (twj_relation t)
     @ concat (map extract_tables_from_expr_recursive assigns) @ extract_opt sel"
| "extract_table_names_from_statement (StDelete frm tables sel ret) =
     concat (map (\<lambda>t. extract_tables_from_table_factor (twj_relation t)) frm) @ tables @ extract_opt sel"
| "extract_table_names_from_statement (StCreateTable n) = [n]"
| "extract_table_names_from_statement (StAlterTable n ops) = [n]"
| "extract_table_names_from_statement (StDrop ns) = ns"
| "extract_table_names_from_statement (StCreateIndex n) = [n]"
| "extract_table_names_from_statement (StTruncate ns) = ns"
| "extract_table_names_from_statement StOther = []"

definition extract_table_names_from_sql :: "(string \<Rightarrow> sql_statement option) \<Rightarrow> string
    \<Rightarrow> (extension_error, string list) result" where
  "extract_table_names_from_sql parse sql =
     and_then (ok_or (ExtDatabaseError sql) (parse sql)) (\<lambda>s. Inr (extract_table_names_from_statement s))"

definition extract_primary_table_name_from_sql :: "(string \<Rightarrow> sql_statement option) \<Rightarrow> string
    \<Rightarrow> (extension_error, string option) result" where
  "extract_primary_table_name_from_sql parse sql =
     and_then (extract_table_names_from_sql parse sql) (\<lambda>ts. Inr (case ts of [] \<Rightarrow> None | t # _ \<Rightarrow> Some t))"


section \<open>The SQL permission check\<close>

fun check_all :: "(string \<Rightarrow> (extension_error, unit) result) \<Rightarrow> string list \<Rightarrow> (extension_error, unit) result" where
  "check_all f [] = Inr ()"
| "check_all f (t # ts) = and_then (f t) (\<lambda>_. check_all f ts)"

definition validate_read_statement :: "(string \<Rightarrow> permission_constraints option) \<Rightarrow> (string \<Rightarrow> sql_statement option)
    \<Rightarrow> perm_state \<Rightarrow> string \<Rightarrow> string \<Rightarrow> (extension_error, unit) result" where
  "validate_read_statement parse_c parse st ext sql =
     and_then (extract_table_names_from_sql parse sql)
       (check_all (check_database_permission parse_c st ext (Database DbRead)))"

definition validate_write_statement :: "(string \<Rightarrow> permission_constraints option) \<Rightarrow> perm_state \<Rightarrow> string
    \<Rightarrow> sql_statement \<Rightarrow> (extension_error, unit) result" where
  "validate_write_statement parse_c st ext s =
     check_all (check_database_permission parse_c st ext (Database DbReadWrite)) (extract_table_names_from_statement s)"

definition validate_sql :: "(string \<Rightarrow> permission_constraints option) \<Rightarrow> (string \<Rightarrow> sql_statement option)
    \<Rightarrow> perm_state \<Rightarrow> string \<Rightarrow> string \<Rightarrow> (extension_error, unit) result" where
  "validate_sql parse_c parse st ext sql =
     and_then (ok_or (ExtDatabaseError sql) (parse sql)) (\<lambda>s.
       case s of
         StQuery _ \<Rightarrow> validate_read_statement parse_c parse st ext sql
       | StInsert _ _ _ \<Rightarrow> validate_write_statement parse_c st ext s
       | StUpdate _ _ _ _ _ \<Rightarrow> validate_write_statement parse_c st ext s
       | StDelete _ _ _ _ \<Rightarrow> validate_write_statement parse_c st ext s
       | StCreateTable _ \<Rightarrow> Inl (ValidationErr ''Schema modifications are only allowed during extension installation and synchronization'')
       | StAlterTable _ _ \<Rightarrow> Inl (ValidationErr ''Schema modifications are only allowed during extension installation and synchronization'')
       | StDrop _ \<Rightarrow> Inl (ValidationErr ''Schema modifications are only allowed during extension installation and synchronization'')
       | _ \<Rightarrow> Inl (ValidationErr (''Statement type not allowed: '' @ sql)))"

definition own_prefix_then :: "(string \<Rightarrow> permission_constraints option) \<Rightarrow> perm_state \<Rightarrow> string \<Rightarrow> db_action \<Rightarrow> string
    \<Rightarrow> manifest \<Rightarrow> string \<Rightarrow> (extension_error, unit) result" where
  "own_prefix_then parse_c st ext act what m tbl =
     (let t = clean_table_name tbl; p = get_extension_table_prefix (mf_public_key m) (mf_name m)
      in if \<not> starts_with t p then Inl (ValidationErr (what @ p @ '' Got: '' @ t))
         else check_database_permission parse_c st ext (Database act) t)"

definition validate_create_statement :: "(string \<Rightarrow> permission_constraints option) \<Rightarrow> perm_state \<Rightarrow> string
    \<Rightarrow> sql_statement \<Rightarrow> (extension_error, unit) result" where
  "validate_create_statement parse_c st ext s =
     (case s of
        StCreateTable n \<Rightarrow>
          and_then (known_extension st ext)
            (\<lambda>m. own_prefix_then parse_c st ext DbCreate ''Extension can only create tables with prefix '' m n)
      | _ \<Rightarrow> Inr ())"

definition validate_schema_statement :: "(string \<Rightarrow> permission_constraints option) \<Rightarrow> perm_state \<Rightarrow> string
    \<Rightarrow> sql_statement \<Rightarrow> (extension_error, unit) result" where
  "validate_schema_statement parse_c st ext s =
     and_then (known_extension st ext) (\<lambda>m.
       check_all (own_prefix_then parse_c st ext DbAlterDrop ''Extension can only alter/drop tables with prefix '' m)
         (extract_table_names_from_statement s))"


section \<open>What the extraction reaches\<close>

text \<open>Reference: every table name that occurs anywhere in the statement.\<close>

fun mentions_query :: "query \<Rightarrow> string list"
  and mentions_queries :: "query list \<Rightarrow> string list"
  and mentions_set_expr :: "set_expr \<Rightarrow> string list"
  and mentions_select :: "select \<Rightarrow> string list"
  and mentions_from :: "table_with_joins list \<Rightarrow> string list"
  and mentions_joins :: "join list \<Rightarrow> string list"
  and mentions_factor :: "table_factor \<Rightarrow> string list"
  and mentions_opt :: "expr option \<Rightarrow> string list"
  and mentions_exprs :: "expr list \<Rightarrow> string list"
  and mentions_expr :: "expr \<Rightarrow> string list" where
  "mentions_query (Query w b ob) = mentions_queries w @ mentions_set_expr b @ mentions_exprs ob"
| "mentions_queries [] = []"
| "mentions_queries (q # qs) = mentions_query q @ mentions_queries qs"
| "mentions_set_expr (SeSelect s) = mentions_select s"
| "mentions_set_expr (SeQuery q) = mentions_query q"
| "mentions_set_expr (SeSetOperation l r) = mentions_set_expr l @ mentions_set_expr r"
| "mentions_set_expr (SeValues es) = mentions_exprs es"
| "mentions_set_expr (SeTable n) = [n]"
| "mentions_set_expr SeDml = []"
| "mentions_select (Select p f s g h) =
     mentions_exprs p @ mentions_from f @ mentions_opt s @ mentions_exprs g @ mentions_opt h"
| "mentions_from [] = []"
| "mentions_from (TableWithJoins r js # ts) = mentions_factor r @ mentions_joins js @ mentions_from ts"
| "mentions_joins [] = []"
| "mentions_joins (Join r c # js) = mentions_factor r @ mentions_opt c @ mentions_joins js"
| "mentions_factor (TfTable n) = [n]"
| "mentions_factor (TfDerived q) = mentions_query q"
| "mentions_factor (TfTableFunction es) = mentions_exprs es"
| "mentions_factor (TfNestedJoin (TableWithJoins r js)) = mentions_factor r @ mentions_joins js"
| "mentions_opt None = []"
| "mentions_opt (Some e) = mentions_expr e"
| "mentions_exprs [] = []"
| "mentions_exprs (e # es) = mentions_expr e @ mentions_exprs es"
| "mentions_expr (EIdentifier _) = []"
| "mentions_expr (EValue _) = []"
| "mentions_expr (ESubquery q) = mentions_query q"
| "mentions_expr (EBinaryOp l r) = mentions_expr l @ mentions_expr r"
| "mentions_expr (EUnaryOp e) = mentions_expr e"
| "mentions_expr (EInSubquery e q) = mentions_expr e @ mentions_query q"
| "mentions_expr (EBetween e l h) = mentions_expr e @ mentions_expr l @ mentions_expr h"
| "mentions_expr (EExists q) = mentions_query q"
| "mentions_expr (ENested e) = mentions_expr e"
| "mentions_expr (EIsNull e) = mentions_expr e"
| "mentions_expr (EInList e es) = mentions_expr e @ mentions_exprs es"
| "mentions_expr (EFunction _ es) = mentions_exprs es"
| "mentions_expr (ECase es) = mentions_exprs es"
| "mentions_expr (ECast e) = mentions_expr e"
| "mentions_expr (ELike l r) = mentions_expr l @ mentions_expr r"

text \<open>The covered fragment: no table occurs in a position the extraction skips - common table
  expressions, ORDER BY, projection, GROUP BY, HAVING, join conditions, \<open>VALUES\<close>, and inside
  EXISTS, parenthesised expressions, IS NULL, IN lists, function calls, CASE, CAST and LIKE.\<close>

fun covered_query :: "query \<Rightarrow> bool"
  and covered_set_expr :: "set_expr \<Rightarrow> bool"
  and covered_select :: "select \<Rightarrow> bool"
  and covered_from :: "table_with_joins list \<Rightarrow> bool"
  and covered_joins :: "join list \<Rightarrow> bool"
  and covered_factor :: "table_factor \<Rightarrow> bool"
  and covered_expr :: "expr \<Rightarrow> bool" where
  "covered_query (Query w b ob) = (mentions_queries w = [] \<and> covered_set_expr b \<and> mentions_exprs ob = [])"
| "covered_set_expr (SeSelect s) = covered_select s"
| "covered_set_expr (SeQuery q) = covered_query q"
| "covered_set_expr (SeSetOperation l r) = (covered_set_expr l \<and> covered_set_expr r)"
| "covered_set_expr (SeValues es) = (mentions_exprs es = [])"
| "covered_set_expr (SeTable _) = False"
| "covered_set_expr SeDml = True"
| "covered_select (Select p f None g h) =
     (mentions_exprs p = [] \<and> covered_from f \<and> mentions_exprs g = [] \<and> mentions_opt h = [])"
| "covered_select (Select p f (Some e) g h) =
     (mentions_exprs p = [] \<and> covered_from f \<and> covered_expr e \<and> mentions_exprs g = [] \<and> mentions_opt h = [])"
| "covered_from [] = True"
| "covered_from (TableWithJoins r js # ts) = (covered_factor r \<and> covered_joins js \<and> covered_from ts)"
| "covered_joins [] = True"
| "covered_joins (Join r c # js) = (covered_factor r \<and> mentions_opt c = [] \<and> covered_joins js)"
| "covered_factor (TfTable _) = True"
| "covered_factor (TfDerived q) = covered_query q"
| "covered_factor (TfTableFunction es) = (mentions_exprs es = [])"
| "covered_factor (TfNestedJoin (TableWithJoins r js)) = (covered_factor r \<and> covered_joins js)"
| "covered_expr (ESubquery q) = covered_query q"
| "covered_expr (EBinaryOp l r) = (covered_expr l \<and> covered_expr r)"
| "covered_expr (EUnaryOp e) = covered_expr e"
| "covered_expr (EInSubquery e q) = (covered_expr e \<and> covered_query q)"
| "covered_expr (EBetween e l h) = (covered_expr e \<and> covered_expr l \<and> covered_expr h)"
| "covered_expr (EIdentifier n) = True"
| "covered_expr (EValue v) = True"
| "covered_expr (EExists q) = (mentions_query q = [])"
| "covered_expr (ENested e) = (mentions_expr e = [])"
| "covered_expr (EIsNull e) = (mentions_expr e = [])"
| "covered_expr (EInList e es) = (mentions_expr e = [] \<and> mentions_exprs es = [])"
| "covered_expr (EFunction n es) = (mentions_exprs es = [])"
| "covered_expr (ECase es) = (mentions_exprs es = [])"
| "covered_expr (ECast e) = (mentions_expr e = [])"
| "covered_expr (ELike l r) = (mentions_expr l = [] \<and> mentions_expr r = [])"

lemma extract_sound:
  "set (extract_tables_from_query_recursive q) \<subseteq> set (mentions_query q)"
  "set (extract_tables_from_set_expr_recursive s) \<subseteq> set (mentions_set_expr s)"
  "set (extract_tables_from_select l) \<subseteq> set (mentions_select l)"
  "set (extract_tables_from_from f) \<subseteq> set (mentions_from f)"
  "set (extract_tables_from_joins js) \<subseteq> set (mentions_joins js)"
  "set (extract_tables_from_table_factor t) \<subseteq> set (mentions_factor t)"
  "set (extract_tables_from_expr_recursive e) \<subseteq> set (mentions_expr e)"
proof (induction q and s and l and f and js and t and e
    rule: extract_tables_from_query_recursive_extract_tables_from_set_expr_recursive_extract_tables_from_select_extract_tables_from_from_extract_tables_from_joins_extract_tables_from_table_factor_extract_tables_from_expr_recursive.induct)
qed auto

lemma extract_covered:
  "covered_query q \<Longrightarrow> extract_tables_from_query_recursive q = mentions_query q"
  "covered_set_expr s \<Longrightarrow> extract_tables_from_set_expr_recursive s = mentions_set_expr s"
  "covered_select l \<Longrightarrow> extract_tables_from_select l = mentions_select l"
  "covered_from f \<Longrightarrow> extract_tables_from_from f = mentions_from f"
  "covered_joins js \<Longrightarrow> extract_tables_from_joins js = mentions_joins js"
  "covered_factor t \<Longrightarrow> extract_tables_from_table_factor t = mentions_factor t"
  "covered_expr e \<Longrightarrow> extract_tables_from_expr_recursive e = mentions_expr e"
proof (induction q and s and l and f and js and t and e
    rule: extract_tables_from_query_recursive_extract_tables_from_set_expr_recursive_extract_tables_from_select_extract_tables_from_from_extract_tables_from_joins_extract_tables_from_table_factor_extract_tables_from_expr_recursive.induct)
qed auto

lemma check_all_ok: "check_all f ts = Inr () \<longleftrightarrow> (\<forall>t\<in>set ts. f t = Inr ())"
  by (induction ts) (auto simp: res_simps)

lemma validate_query_ok:
  "parse sql = Some (StQuery q) \<Longrightarrow> validate_sql parse_c parse st ext sql = Inr () \<longleftrightarrow>
    (\<forall>t\<in>set (extract_tables_from_query_recursive q). check_database_permission parse_c st ext (Database DbRead) t = Inr ())"
  by (simp add: validate_sql_def validate_read_statement_def extract_table_names_from_sql_def check_all_ok)


definition plain_select :: "string \<Rightarrow> expr option \<Rightarrow> query" where
  "plain_select tbl sel = Query [] (SeSelect (Select [EIdentifier ''c''] [TableWithJoins (TfTable tbl) []] sel [] None)) []"


text \<open>Outside the fragment the check is blind: a query whose only table stands in a
  subquery of the projection, in a common table expression, or under EXISTS passes in every
  state, for every extension, whatever its permissions.\<close>

theorem validate_query_blind_spots:
  assumes "parse sql = Some (StQuery q)"
    and "q = Query [] (SeSelect (Select [ESubquery (plain_select secret None)] [] None [] None)) []
      \<or> q = Query [plain_select secret None] (SeSelect (Select [EIdentifier ''c''] [] None [] None)) []
      \<or> q = Query [] (SeSelect (Select [EValue ''1''] [] (Some (EExists (plain_select secret None))) [] None)) []"
  shows "secret \<in> set (mentions_query q) \<and> validate_sql parse_c parse st ext sql = Inr ()"
  using assms by (auto simp: validate_query_ok plain_select_def)

theorem validate_query_blind_spots_witness:
  "validate_sql (\<lambda>_. None) (\<lambda>_. Some (StQuery
      (Query [] (SeSelect (Select [ESubquery (plain_select ''haex_vault'' None)] [] None [] None)) [])))
     (sample_state []) ''nobody'' ''sql'' = Inr ()"
  by (rule conjunct2 [OF validate_query_blind_spots [OF refl disjI1 [OF refl]]])


end
