(* ===== verification/FileSyncDiff.thy ===== *)
theory FileSyncDiff
  imports Prelude
begin

text \<open>
  \<open>file_sync/types.rs\<close> and \<open>file_sync/diff.rs\<close>: file manifests and the planner that turns
  two manifests into sync actions.  The planner builds hash maps; their iteration order is
  the argument \<open>order\<close>, a permutation.  Sizes and times (\<open>u64\<close>) are only compared and are
  naturals.
\<close>

section \<open>Data\<close>

record file_state =
  relative_path :: string
  fsize :: nat
  modified_at :: nat
  is_directory :: bool
  fhash :: "string option"

datatype sync_direction = OneWay | TwoWay
datatype delete_mode = Trash | Permanent | Ignore

record sync_conflict =
  conflict_path_of :: string
  source_state :: file_state
  target_state :: file_state

record sync_actions =
  to_download :: "file_state list"
  to_upload :: "file_state list"
  to_delete :: "string list"
  to_create_directories :: "string list"
  conflicts :: "sync_conflict list"

type_synonym file_map = "(string \<times> file_state) list"
type_synonym file_order = "file_map \<Rightarrow> file_map"


section \<open>Planning\<close>

definition files_equal :: "file_state \<Rightarrow> file_state \<Rightarrow> bool" where
  "files_equal a b =
     (case (fhash a, fhash b) of
        (Some ha, Some hb) \<Rightarrow> fsize a = fsize b \<and> ha = hb
      | _ \<Rightarrow> fsize a = fsize b \<and> modified_at a = modified_at b)"

text \<open>Collecting into a hash map: a later entry replaces an earlier one.\<close>

definition collect_map :: "file_order \<Rightarrow> file_state list \<Rightarrow> file_map" where
  "collect_map order files =
     order (foldl (\<lambda>m f. filter (\<lambda>e. fst e \<noteq> relative_path f) m @ [(relative_path f, f)]) [] files)"

definition no_actions :: sync_actions where
  "no_actions = \<lparr>to_download = [], to_upload = [], to_delete = [], to_create_directories = [], conflicts = []\<rparr>"

definition one_way_source_step :: "file_map \<Rightarrow> string \<times> file_state \<Rightarrow> sync_actions \<Rightarrow> sync_actions" where
  "one_way_source_step target_map e acts =
     (case e of (path, source) \<Rightarrow>
        if is_directory source
        then (if map_of target_map path = None
              then acts\<lparr>to_create_directories := to_create_directories acts @ [path]\<rparr> else acts)
        else (case map_of target_map path of
                None \<Rightarrow> acts\<lparr>to_download := to_download acts @ [source]\<rparr>
              | Some target \<Rightarrow>
                  if \<not> files_equal source target
                  then acts\<lparr>to_download := to_download acts @ [source]\<rparr> else acts))"

definition one_way_target_step :: "file_map \<Rightarrow> string \<times> file_state \<Rightarrow> sync_actions \<Rightarrow> sync_actions" where
  "one_way_target_step source_map e acts =
     (case e of (path, target) \<Rightarrow>
        if is_directory target then acts
        else if map_of source_map path = None then acts\<lparr>to_delete := to_delete acts @ [path]\<rparr>
        else acts)"

definition compute_one_way :: "file_map \<Rightarrow> file_map \<Rightarrow> delete_mode \<Rightarrow> sync_actions \<Rightarrow> sync_actions" where
  "compute_one_way source_map target_map mode acts =
     (let acts = fold (one_way_source_step target_map) source_map acts
      in if mode \<noteq> Ignore then fold (one_way_target_step source_map) target_map acts else acts)"

definition two_way_source_step :: "file_map \<Rightarrow> string \<times> file_state \<Rightarrow> sync_actions \<Rightarrow> sync_actions" where
  "two_way_source_step target_map e acts =
     (case e of (path, source) \<Rightarrow>
        if is_directory source
        then (if map_of target_map path = None
              then acts\<lparr>to_create_directories := to_create_directories acts @ [path]\<rparr> else acts)
        else (case map_of target_map path of
                None \<Rightarrow> acts\<lparr>to_download := to_download acts @ [source]\<rparr>
              | Some target \<Rightarrow>
                  let conflict = \<lparr>conflict_path_of = path, source_state = source, target_state = target\<rparr>
                  in if files_equal source target then acts
                     else if modified_at source = modified_at target \<and> fsize source \<noteq> fsize target
                     then acts\<lparr>conflicts := conflicts acts @ [conflict]\<rparr>
                     else if modified_at source > modified_at target
                     then acts\<lparr>to_download := to_download acts @ [source]\<rparr>
                     else if modified_at target > modified_at source
                     then acts\<lparr>to_upload := to_upload acts @ [target]\<rparr>
                     else acts\<lparr>conflicts := conflicts acts @ [conflict]\<rparr>))"

definition two_way_target_step :: "file_map \<Rightarrow> string \<times> file_state \<Rightarrow> sync_actions \<Rightarrow> sync_actions" where
  "two_way_target_step source_map e acts =
     (case e of (path, target) \<Rightarrow>
        if map_of source_map path \<noteq> None then acts
        else if is_directory target
        then acts\<lparr>to_create_directories := to_create_directories acts @ [path]\<rparr>
        else acts\<lparr>to_upload := to_upload acts @ [target]\<rparr>)"

definition compute_two_way :: "file_map \<Rightarrow> file_map \<Rightarrow> sync_actions \<Rightarrow> sync_actions" where
  "compute_two_way source_map target_map acts =
     fold (two_way_target_step source_map) target_map (fold (two_way_source_step target_map) source_map acts)"

definition path_depth :: "string \<Rightarrow> nat" where
  "path_depth p = count_list p (CHR ''/'')"

definition compute_sync_actions :: "file_order \<Rightarrow> file_order \<Rightarrow> file_state list \<Rightarrow> file_state list
    \<Rightarrow> sync_direction \<Rightarrow> delete_mode \<Rightarrow> sync_actions" where
  "compute_sync_actions source_order target_order source_files target_files direction mode =
     (let source_map = collect_map source_order source_files;
          target_map = collect_map target_order target_files;
          acts = (case direction of
                    OneWay \<Rightarrow> compute_one_way source_map target_map mode no_actions
                  | TwoWay \<Rightarrow> compute_two_way source_map target_map no_actions)
      in acts\<lparr>to_create_directories := sort_key path_depth (to_create_directories acts)\<rparr>)"


section \<open>The plan as filters\<close>

text \<open>Which entries go where, independent of the loop.\<close>

definition needs_dir :: "file_map \<Rightarrow> string \<times> file_state \<Rightarrow> bool" where
  "needs_dir other e \<longleftrightarrow> is_directory (snd e) \<and> map_of other (fst e) = None"

definition needs_download :: "file_map \<Rightarrow> string \<times> file_state \<Rightarrow> bool" where
  "needs_download target_map e \<longleftrightarrow> \<not> is_directory (snd e)
     \<and> (case map_of target_map (fst e) of None \<Rightarrow> True | Some t \<Rightarrow> \<not> files_equal (snd e) t)"

definition target_only_file :: "file_map \<Rightarrow> string \<times> file_state \<Rightarrow> bool" where
  "target_only_file source_map e \<longleftrightarrow> \<not> is_directory (snd e) \<and> map_of source_map (fst e) = None"

lemma fold_one_way_source:
  "fold (one_way_source_step tm) es acts = acts
     \<lparr>to_download := to_download acts @ map snd (filter (needs_download tm) es),
      to_create_directories := to_create_directories acts @ map fst (filter (needs_dir tm) es)\<rparr>"
  by (induction es arbitrary: acts)
    (auto simp: one_way_source_step_def needs_download_def needs_dir_def split: option.splits)

lemma fold_one_way_target:
  "fold (one_way_target_step sm) es acts = acts
     \<lparr>to_delete := to_delete acts @ map fst (filter (target_only_file sm) es)\<rparr>"
  by (induction es arbitrary: acts) (auto simp: one_way_target_step_def target_only_file_def)

definition order_ok :: "file_order \<Rightarrow> bool" where
  "order_ok order \<longleftrightarrow> (\<forall>m. mset (order m) = mset m)"

text \<open>What a manifest says about a path: its last entry.\<close>

definition manifest_at :: "file_state list \<Rightarrow> string \<Rightarrow> file_state option" where
  "manifest_at files p = map_of (rev (map (\<lambda>f. (relative_path f, f)) files)) p"

lemma collect_foldl:
  fixes files :: "file_state list"
  defines "m \<equiv> foldl (\<lambda>m f. filter (\<lambda>e. fst e \<noteq> relative_path f) m @ [(relative_path f, f)]) [] files"
  shows "distinct (map fst m) \<and> map_of m = manifest_at files \<and> (\<forall>(k, f)\<in>set m. k = relative_path f)"
  unfolding m_def
proof (induction files rule: rev_induct)
  case Nil
  then show ?case by (auto simp: manifest_at_def)
next
  case (snoc f files)
  let ?m = "foldl (\<lambda>m f. filter (\<lambda>e. fst e \<noteq> relative_path f) m @ [(relative_path f, f)]) [] files"
  have "map_of (filter (\<lambda>e. fst e \<noteq> relative_path f) ?m @ [(relative_path f, f)]) = manifest_at (files @ [f])"
    using snoc unfolding map_of_replace by (simp add: manifest_at_def fun_eq_iff)
  then show ?case using snoc distinct_replace [of ?m "relative_path f" f] by auto
qed

lemma collect_map_props:
  assumes "order_ok order"
  shows "distinct (map fst (collect_map order files))"
    and "map_of (collect_map order files) = manifest_at files"
    and "(k, f) \<in> set (collect_map order files) \<longleftrightarrow> manifest_at files k = Some f"
    and "manifest_at files k = Some f \<Longrightarrow> k = relative_path f"
proof -
  let ?m = "foldl (\<lambda>m f. filter (\<lambda>e. fst e \<noteq> relative_path f) m @ [(relative_path f, f)]) [] files"
  have ms: "mset (order ?m) = mset ?m" using assms by (simp add: order_ok_def)
  have d: "distinct (map fst ?m)" and mo: "map_of ?m = manifest_at files"
    and keys: "\<forall>(k, f)\<in>set ?m. k = relative_path f"
    using collect_foldl [of files] by auto
  show d': "distinct (map fst (collect_map order files))"
    unfolding collect_map_def by (rule map_of_mset(1) [OF ms d])
  show mo': "map_of (collect_map order files) = manifest_at files"
    unfolding collect_map_def using map_of_mset(2) [OF ms d] mo by simp
  show "(k, f) \<in> set (collect_map order files) \<longleftrightarrow> manifest_at files k = Some f"
    using map_of_eq_Some_iff [OF d'] mo' by simp
  show "manifest_at files k = Some f \<Longrightarrow> k = relative_path f"
    using keys map_of_SomeD [of ?m k f] mo by auto
qed

lemmas plan_simps = compute_sync_actions_def compute_one_way_def compute_two_way_def fold_one_way_source
  fold_one_way_target no_actions_def Let_def

lemma distinct_path_filter:
  assumes "distinct (map fst m)" "\<And>k f. (k, f) \<in> set m \<Longrightarrow> k = relative_path f"
  shows "distinct (map relative_path (map snd (filter P m)))" "distinct (map fst (filter P m))"
proof -
  show d: "distinct (map fst (filter P m))" using assms(1) by (rule distinct_filter_keys)
  have "map relative_path (map snd (filter P m)) = map fst (filter P m)"
    using assms(2) by auto
  then show "distinct (map relative_path (map snd (filter P m)))" using d by (simp only:)
qed

lemma in_filter_snd:
  assumes "order_ok order"
  shows "f \<in> set (map snd (filter P (collect_map order files))) \<longleftrightarrow>
    manifest_at files (relative_path f) = Some f \<and> P (relative_path f, f)"
proof
  assume "f \<in> set (map snd (filter P (collect_map order files)))"
  then obtain k where "(k, f) \<in> set (collect_map order files)" "P (k, f)" by auto
  then show "manifest_at files (relative_path f) = Some f \<and> P (relative_path f, f)"
    using collect_map_props(3,4) [OF assms] by metis
next
  assume "manifest_at files (relative_path f) = Some f \<and> P (relative_path f, f)"
  then show "f \<in> set (map snd (filter P (collect_map order files)))"
    using collect_map_props(3) [OF assms] by force
qed

lemma in_filter_fst:
  assumes "order_ok order"
  shows "p \<in> set (map fst (filter P (collect_map order files))) \<longleftrightarrow> (\<exists>f. manifest_at files p = Some f \<and> P (p, f))"
  using collect_map_props(3) [OF assms] by force

lemma in_filter_map:
  assumes "order_ok order"
  shows "x \<in> set (map g (filter P (collect_map order files))) \<longleftrightarrow>
    (\<exists>p f. manifest_at files p = Some f \<and> p = relative_path f \<and> P (p, f) \<and> x = g (p, f))"
proof -
  have "x \<in> set (map g (filter P (collect_map order files))) \<longleftrightarrow>
      (\<exists>p f. (p, f) \<in> set (collect_map order files) \<and> P (p, f) \<and> x = g (p, f))" by auto
  then show ?thesis using collect_map_props(3,4) [OF assms] by metis
qed

text \<open>The one-way plan is exactly what makes the target mirror the source: a file is
  downloaded precisely when the source has it and the target lacks it or differs, a
  target-only file is deleted precisely when deletions are enabled, missing directories
  are created parents first, nothing is uploaded, and no path is planned twice.\<close>

lemma one_way_plan:
  fixes src tgt :: "file_state list" and mode :: delete_mode
  assumes "order_ok so" "order_ok to"
  defines "acts \<equiv> compute_sync_actions so to src tgt OneWay mode"
  shows "(\<forall>f. f \<in> set (to_download acts) \<longleftrightarrow> manifest_at src (relative_path f) = Some f \<and> \<not> is_directory f
          \<and> (case manifest_at tgt (relative_path f) of None \<Rightarrow> True | Some t \<Rightarrow> \<not> files_equal f t))
    \<and> (\<forall>p. p \<in> set (to_delete acts) \<longleftrightarrow> mode \<noteq> Ignore \<and> manifest_at src p = None
          \<and> (\<exists>t. manifest_at tgt p = Some t \<and> \<not> is_directory t))
    \<and> (\<forall>p. p \<in> set (to_create_directories acts) \<longleftrightarrow>
          (\<exists>s. manifest_at src p = Some s \<and> is_directory s) \<and> manifest_at tgt p = None)
    \<and> sorted (map path_depth (to_create_directories acts))
    \<and> distinct (map relative_path (to_download acts)) \<and> distinct (to_delete acts) \<and> distinct (to_create_directories acts)
    \<and> to_upload acts = [] \<and> conflicts acts = []"
proof -
  let ?s = "collect_map so src" and ?t = "collect_map to tgt"
  note S = collect_map_props [OF assms(1), where files = src] and T = collect_map_props [OF assms(2), where files = tgt]
  have dl: "to_download acts = map snd (filter (needs_download ?t) ?s)"
    and del: "to_delete acts = (if mode \<noteq> Ignore then map fst (filter (target_only_file ?s) ?t) else [])"
    and dirs: "to_create_directories acts = sort_key path_depth (map fst (filter (needs_dir ?t) ?s))"
    and rest: "to_upload acts = []" "conflicts acts = []"
    unfolding acts_def by (simp_all add: plan_simps)
  have "\<forall>f. f \<in> set (to_download acts) \<longleftrightarrow> manifest_at src (relative_path f) = Some f \<and> \<not> is_directory f
          \<and> (case manifest_at tgt (relative_path f) of None \<Rightarrow> True | Some t \<Rightarrow> \<not> files_equal f t)"
    unfolding dl in_filter_snd [OF assms(1)] by (auto simp: needs_download_def T(2) split: option.splits)
  moreover have "\<forall>p. p \<in> set (to_delete acts) \<longleftrightarrow> mode \<noteq> Ignore \<and> manifest_at src p = None
          \<and> (\<exists>t. manifest_at tgt p = Some t \<and> \<not> is_directory t)"
    using in_filter_fst [OF assms(2)] by (auto simp: del target_only_file_def S(2))
  moreover have "\<forall>p. p \<in> set (to_create_directories acts) \<longleftrightarrow>
          (\<exists>s. manifest_at src p = Some s \<and> is_directory s) \<and> manifest_at tgt p = None"
    using in_filter_fst [OF assms(1)] by (auto simp: dirs needs_dir_def T(2))
  moreover have "distinct (map relative_path (to_download acts))" "distinct (to_delete acts)" "distinct (to_create_directories acts)"
    unfolding dl del dirs
    using distinct_path_filter [OF S(1)] distinct_path_filter(2) [OF T(1)] S(3,4) T(3,4) by (auto simp: distinct_filter_keys S(1) T(1))
  ultimately show ?thesis using rest by (simp add: dirs)
qed


section \<open>The two-way plan\<close>

definition both :: "file_map \<Rightarrow> (file_state \<Rightarrow> file_state \<Rightarrow> bool) \<Rightarrow> string \<times> file_state \<Rightarrow> bool" where
  "both tm P e \<longleftrightarrow> \<not> is_directory (snd e) \<and> (case map_of tm (fst e) of None \<Rightarrow> False | Some t \<Rightarrow> \<not> files_equal (snd e) t \<and> P (snd e) t)"

definition same_time :: "file_state \<Rightarrow> file_state \<Rightarrow> bool" where
  "same_time s t \<longleftrightarrow> modified_at s = modified_at t"

definition newer_source :: "file_state \<Rightarrow> file_state \<Rightarrow> bool" where
  "newer_source s t \<longleftrightarrow> modified_at s > modified_at t"

definition newer_target :: "file_state \<Rightarrow> file_state \<Rightarrow> bool" where
  "newer_target s t \<longleftrightarrow> modified_at t > modified_at s"

lemmas both_defs = both_def same_time_def newer_source_def newer_target_def

lemma two_way_source_step_eq:
  "two_way_source_step tm e acts = acts
     \<lparr>to_download := to_download acts @ (if target_only_file tm e \<or> both tm newer_source e then [snd e] else []),
      to_upload := to_upload acts @ (if both tm newer_target e then [the (map_of tm (fst e))] else []),
      conflicts := conflicts acts @ (if both tm same_time e
        then [\<lparr>conflict_path_of = fst e, source_state = snd e, target_state = the (map_of tm (fst e))\<rparr>] else []),
      to_create_directories := to_create_directories acts @ (if needs_dir tm e then [fst e] else [])\<rparr>"
proof (cases "map_of tm (fst e)")
  case None
  then show ?thesis
    by (cases e) (simp add: two_way_source_step_def target_only_file_def both_defs needs_dir_def)
next
  case (Some t)
  consider "modified_at (snd e) < modified_at t" | "modified_at (snd e) = modified_at t" | "modified_at (snd e) > modified_at t"
    by linarith
  then show ?thesis
    using Some
    by cases (cases e; simp add: two_way_source_step_def target_only_file_def both_defs needs_dir_def Let_def)+
qed

lemma fold_two_way_source:
  "fold (two_way_source_step tm) es acts = acts
     \<lparr>to_download := to_download acts @ map snd (filter (\<lambda>e. target_only_file tm e \<or> both tm newer_source e) es),
      to_upload := to_upload acts @ map (\<lambda>e. the (map_of tm (fst e))) (filter (both tm newer_target) es),
      conflicts := conflicts acts @ map (\<lambda>e. \<lparr>conflict_path_of = fst e, source_state = snd e, target_state = the (map_of tm (fst e))\<rparr>)
        (filter (both tm same_time) es),
      to_create_directories := to_create_directories acts @ map fst (filter (needs_dir tm) es)\<rparr>"
proof (induction es arbitrary: acts)
  case (Cons e es)
  show ?case unfolding fold_Cons comp_apply Cons.IH unfolding two_way_source_step_eq by simp
qed simp

lemma fold_two_way_target:
  "fold (two_way_target_step sm) es acts = acts
     \<lparr>to_upload := to_upload acts @ map snd (filter (target_only_file sm) es),
      to_create_directories := to_create_directories acts @ map fst (filter (needs_dir sm) es)\<rparr>"
  by (induction es arbitrary: acts) (auto simp: two_way_target_step_def target_only_file_def needs_dir_def)

text \<open>The two-way plan: a file travels towards the side that lacks it or has the older
  version, always as the state of the side that is ahead; equal files are left alone;
  differing files of the same time are conflicts; nothing is deleted; and no path is
  planned twice, or at once downloaded, uploaded or in conflict.\<close>

lemma two_way_plan:
  fixes src tgt :: "file_state list" and mode :: delete_mode
  assumes "order_ok so" "order_ok to"
  defines "acts \<equiv> compute_sync_actions so to src tgt TwoWay mode"
  defines "differ \<equiv> \<lambda>p s t. manifest_at src p = Some s \<and> manifest_at tgt p = Some t \<and> \<not> is_directory s \<and> \<not> files_equal s t"
  shows "(\<forall>f. f \<in> set (to_download acts) \<longleftrightarrow>
            (manifest_at src (relative_path f) = Some f \<and> \<not> is_directory f \<and> manifest_at tgt (relative_path f) = None)
            \<or> (\<exists>t. differ (relative_path f) f t \<and> modified_at f > modified_at t))
    \<and> (\<forall>f. f \<in> set (to_upload acts) \<longleftrightarrow>
            (manifest_at tgt (relative_path f) = Some f \<and> \<not> is_directory f \<and> manifest_at src (relative_path f) = None)
            \<or> (\<exists>s. differ (relative_path f) s f \<and> modified_at f > modified_at s))
    \<and> (\<forall>c. c \<in> set (conflicts acts) \<longleftrightarrow>
            differ (conflict_path_of c) (source_state c) (target_state c) \<and> modified_at (source_state c) = modified_at (target_state c))
    \<and> to_delete acts = []
    \<and> distinct (map relative_path (to_download acts)) \<and> distinct (map relative_path (to_upload acts))
    \<and> relative_path ` set (to_download acts) \<inter> relative_path ` set (to_upload acts) = {}
    \<and> conflict_path_of ` set (conflicts acts) \<inter> (relative_path ` set (to_download acts) \<union> relative_path ` set (to_upload acts)) = {}"
proof -
  let ?s = "collect_map so src" and ?t = "collect_map to tgt"
  note S = collect_map_props [OF assms(1), where files = src] and T = collect_map_props [OF assms(2), where files = tgt]
  have dl: "to_download acts = map snd (filter (\<lambda>e. target_only_file ?t e \<or> both ?t newer_source e) ?s)"
    and ul: "to_upload acts = map (\<lambda>e. the (map_of ?t (fst e))) (filter (both ?t newer_target) ?s)
        @ map snd (filter (target_only_file ?s) ?t)"
    and cf: "conflicts acts = map (\<lambda>e. \<lparr>conflict_path_of = fst e, source_state = snd e, target_state = the (map_of ?t (fst e))\<rparr>)
        (filter (both ?t same_time) ?s)"
    and del: "to_delete acts = []"
    unfolding acts_def by (simp_all add: plan_simps fold_two_way_source fold_two_way_target)
  have D: "\<forall>f. f \<in> set (to_download acts) \<longleftrightarrow>
            (manifest_at src (relative_path f) = Some f \<and> \<not> is_directory f \<and> manifest_at tgt (relative_path f) = None)
            \<or> (\<exists>t. differ (relative_path f) f t \<and> modified_at f > modified_at t)"
    unfolding dl in_filter_snd [OF assms(1)]
    by (auto simp: target_only_file_def both_defs T(2) differ_def split: option.splits)
  have U: "\<forall>f. f \<in> set (to_upload acts) \<longleftrightarrow>
            (manifest_at tgt (relative_path f) = Some f \<and> \<not> is_directory f \<and> manifest_at src (relative_path f) = None)
            \<or> (\<exists>s. differ (relative_path f) s f \<and> modified_at f > modified_at s)"
  proof
    fix f
    have "f \<in> set (map (\<lambda>e. the (map_of ?t (fst e))) (filter (both ?t newer_target) ?s)) \<longleftrightarrow>
        (\<exists>s. differ (relative_path f) s f \<and> modified_at f > modified_at s)" (is "?l \<longleftrightarrow> ?r")
    proof
      assume ?l
      then obtain p s where *: "manifest_at src p = Some s" "both ?t newer_target (p, s)" "f = the (map_of ?t p)"
        unfolding in_filter_map [OF assms(1)] by auto
      then have "manifest_at tgt p = Some f" by (auto simp: both_def T(2) split: option.splits)
      moreover from this have "p = relative_path f" by (rule T(4))
      ultimately show ?r using *(1,2) by (intro exI [of _ s]) (simp add: both_defs T(2) differ_def)
    next
      assume ?r
      then obtain s where *: "differ (relative_path f) s f" "modified_at f > modified_at s" by blast
      then have "relative_path f = relative_path s" using S(4) by (auto simp: differ_def)
      with * show ?l unfolding in_filter_map [OF assms(1)]
        by (intro exI [of _ "relative_path f"] exI [of _ s]) (simp add: both_defs T(2) differ_def)
    qed
    then show "f \<in> set (to_upload acts) \<longleftrightarrow>
            (manifest_at tgt (relative_path f) = Some f \<and> \<not> is_directory f \<and> manifest_at src (relative_path f) = None)
            \<or> (\<exists>s. differ (relative_path f) s f \<and> modified_at f > modified_at s)"
      unfolding ul set_append Un_iff in_filter_snd [OF assms(2)] by (auto simp: target_only_file_def S(2))
  qed
  have K: "\<forall>c. c \<in> set (conflicts acts) \<longleftrightarrow>
            differ (conflict_path_of c) (source_state c) (target_state c) \<and> modified_at (source_state c) = modified_at (target_state c)"
  proof
    fix c
    obtain a s t where c: "c = \<lparr>conflict_path_of = a, source_state = s, target_state = t\<rparr>" by (cases c)
    have "c \<in> set (conflicts acts) \<longleftrightarrow> manifest_at src a = Some s \<and> a = relative_path s \<and> both ?t same_time (a, s) \<and> t = the (manifest_at tgt a)"
      unfolding cf in_filter_map [OF assms(1)] c T(2) by auto
    then show "c \<in> set (conflicts acts) \<longleftrightarrow> differ (conflict_path_of c) (source_state c) (target_state c)
        \<and> modified_at (source_state c) = modified_at (target_state c)"
      using S(4) [of a s] by (auto simp: both_defs T(2) differ_def c split: option.splits)
  qed
  have DU: "relative_path f \<noteq> relative_path g" if "f \<in> set (to_download acts)" "g \<in> set (to_upload acts)" for f g
    using D [rule_format, of f] U [rule_format, of g] that by (auto simp: differ_def)
  have KD: "conflict_path_of c \<noteq> relative_path f" if "c \<in> set (conflicts acts)" "f \<in> set (to_download acts)" for c f
    using K [rule_format, of c] D [rule_format, of f] that by (auto simp: differ_def)
  have KU: "conflict_path_of c \<noteq> relative_path f" if "c \<in> set (conflicts acts)" "f \<in> set (to_upload acts)" for c f
    using K [rule_format, of c] U [rule_format, of f] that by (auto simp: differ_def)
  have "relative_path ` set (to_download acts) \<inter> relative_path ` set (to_upload acts) = {}"
    using DU by blast
  moreover have "conflict_path_of ` set (conflicts acts) \<inter> (relative_path ` set (to_download acts) \<union> relative_path ` set (to_upload acts)) = {}"
    using KD KU by blast
  moreover have "distinct (map relative_path (to_download acts))"
    unfolding dl using distinct_path_filter(1) [OF S(1)] S(3,4) by blast
  moreover have "distinct (map relative_path (to_upload acts))"
  proof -
    have eq: "map relative_path (map (\<lambda>e. the (map_of ?t (fst e))) (filter (both ?t newer_target) ?s)) = map fst (filter (both ?t newer_target) ?s)"
      using T(2,4) by (auto simp: both_def split: option.splits)
    have "set (map fst (filter (both ?t newer_target) ?s)) \<inter> relative_path ` set (map snd (filter (target_only_file ?s) ?t)) = {}"
    proof (rule equals0I)
      fix p
      assume p: "p \<in> set (map fst (filter (both ?t newer_target) ?s)) \<inter> relative_path ` set (map snd (filter (target_only_file ?s) ?t))"
      then have "\<exists>f. manifest_at src p = Some f" using in_filter_fst [OF assms(1)] by (metis IntD1)
      moreover obtain f where "p = relative_path f" "f \<in> set (map snd (filter (target_only_file ?s) ?t))" using p by blast
      then have "manifest_at src p = None" unfolding in_filter_snd [OF assms(2)] by (simp add: target_only_file_def S(2))
      ultimately show False by simp
    qed
    then show ?thesis
      unfolding ul map_append distinct_append eq
      using distinct_filter_keys [OF S(1)] distinct_path_filter(1) [OF T(1), of "target_only_file ?s"] T(3,4) by auto
  qed
  ultimately show ?thesis by (intro conjI D U K del)
qed

end
