(* ===== verification/FileSyncEngine.thy ===== *)
theory FileSyncEngine
  imports FileSyncDiff "HOL-Library.Word"
begin

text \<open>
  \<open>file_sync/provider.rs\<close> and \<open>file_sync/engine.rs\<close>: one sync run over two storage
  providers, the sync-state table, conflict handling, and the retry loop.

  A provider is a record of operations on its own state; an operation returns a result and
  the new state.  The clock, fresh ids, failures of the sync-state table and of temporary
  files are the fields of \<open>engine_env\<close>.  The cancellation token answers a list of booleans,
  one per question.  Parallel transfers run one after the other in an arbitrary order;
  progress reporting is left out.  \<open>u32\<close> and \<open>u64\<close> result counters are words.
\<close>

section \<open>Providers\<close>

type_synonym content = "8 word list"

datatype provider_error =
    PNotFound string
  | PAccessDenied string
  | PPathTraversal string
  | PConnectionFailed string
  | PIo string
  | POther string

fun provider_error_text :: "provider_error \<Rightarrow> string" where
  "provider_error_text (PNotFound p) = ''Path not found: '' @ p"
| "provider_error_text (PAccessDenied r) = ''Access denied: '' @ r"
| "provider_error_text (PPathTraversal p) = ''Path traversal rejected: '' @ p"
| "provider_error_text (PConnectionFailed r) = ''Connection failed: '' @ r"
| "provider_error_text (PIo e) = ''IO error: '' @ e"
| "provider_error_text (POther r) = ''Provider error: '' @ r"

record read_file_result =
  rf_content :: content
  rf_bytes :: nat
  rf_hash :: "string option"

record 'p sync_provider =
  p_manifest :: "'p \<Rightarrow> (provider_error, file_state list) result \<times> 'p"
  p_read_file_to_path :: "'p \<Rightarrow> string \<Rightarrow> (provider_error, read_file_result) result \<times> 'p"
  p_write_file_from_path :: "'p \<Rightarrow> string \<Rightarrow> content \<Rightarrow> (provider_error, unit) result \<times> 'p"
  p_delete_file :: "'p \<Rightarrow> string \<Rightarrow> bool \<Rightarrow> (provider_error, unit) result \<times> 'p"
  p_create_directory :: "'p \<Rightarrow> string \<Rightarrow> (provider_error, unit) result \<times> 'p"
  p_prime_hash_after_write :: "'p \<Rightarrow> string \<Rightarrow> string \<Rightarrow> 'p"
  p_supports_directories :: bool


section \<open>Sync state\<close>

record sync_state_entry =
  ss_id :: string
  ss_rule_id :: string
  ss_relative_path :: string
  ss_file_size :: nat
  ss_modified_at :: nat
  ss_synced_at :: string
  ss_deleted :: bool
  ss_hash :: "string option"

record engine_env =
  env_now :: nat
  env_uuid :: "string \<Rightarrow> string"
  env_db_error :: "string \<Rightarrow> string option"
  env_tmp_error :: "string \<Rightarrow> string option"

type_synonym sync_state = "sync_state_entry list"

definition load_sync_state :: "sync_state \<Rightarrow> string \<Rightarrow> sync_state" where
  "load_sync_state db rule_id = filter (\<lambda>e. ss_rule_id e = rule_id) db"

text \<open>\<open>INSERT OR REPLACE\<close> on the unique index (rule, path).\<close>

definition upsert_sync_state :: "engine_env \<Rightarrow> string \<Rightarrow> string \<Rightarrow> nat \<Rightarrow> nat \<Rightarrow> string option \<Rightarrow> sync_state
    \<Rightarrow> (string, unit) result \<times> sync_state" where
  "upsert_sync_state env rule_id path sz mtime h db =
     (case env_db_error env path of
        Some e \<Rightarrow> (Inl e, db)
      | None \<Rightarrow>
          (Inr (), filter (\<lambda>e. \<not> (ss_rule_id e = rule_id \<and> ss_relative_path e = path) \<and> ss_id e \<noteq> env_uuid env path) db @
             [\<lparr>ss_id = env_uuid env path, ss_rule_id = rule_id, ss_relative_path = path, ss_file_size = sz,
               ss_modified_at = mtime, ss_synced_at = show_radix 10 (env_now env), ss_deleted = False, ss_hash = h\<rparr>]))"

definition mark_deleted :: "engine_env \<Rightarrow> string \<Rightarrow> string \<Rightarrow> sync_state \<Rightarrow> (string, unit) result \<times> sync_state" where
  "mark_deleted env rule_id path db =
     (case env_db_error env path of
        Some e \<Rightarrow> (Inl e, db)
      | None \<Rightarrow> (Inr (), map (\<lambda>e. if ss_rule_id e = rule_id \<and> ss_relative_path e = path
           then e\<lparr>ss_deleted := True, ss_synced_at := show_radix 10 (env_now env)\<rparr> else e) db))"

definition clear_sync_state :: "string \<Rightarrow> sync_state \<Rightarrow> sync_state" where
  "clear_sync_state rule_id db = filter (\<lambda>e. ss_rule_id e \<noteq> rule_id) db"


section \<open>One run\<close>

datatype sync_engine_error =
    ProviderFailed provider_error
  | SourceUnavailable provider_error
  | TargetUnavailable provider_error
  | DatabaseFailed string
  | Cancelled

record sync_result =
  files_downloaded :: "32 word"
  files_deleted :: "32 word"
  directories_created :: "32 word"
  bytes_transferred :: "64 word"
  conflicts_resolved :: "32 word"
  errors :: "string list"

record ('p, 'q) engine =
  e_source :: 'p
  e_target :: 'q
  e_db :: sync_state
  e_cancel :: "bool list"
  e_result :: sync_result

definition empty_result :: sync_result where
  "empty_result = \<lparr>files_downloaded = 0, files_deleted = 0, directories_created = 0, bytes_transferred = 0,
     conflicts_resolved = 0, errors = []\<rparr>"

definition push_error :: "string \<Rightarrow> ('p, 'q) engine \<Rightarrow> ('p, 'q) engine" where
  "push_error msg st = st\<lparr>e_result := (e_result st)\<lparr>errors := errors (e_result st) @ [msg]\<rparr>\<rparr>"

definition ask_cancel :: "('p, 'q) engine \<Rightarrow> bool \<times> ('p, 'q) engine" where
  "ask_cancel st = (case e_cancel st of [] \<Rightarrow> (False, st) | b # bs \<Rightarrow> (b, st\<lparr>e_cancel := bs\<rparr>))"

definition check_cancel :: "('p, 'q) engine \<Rightarrow> (('p, 'q) engine \<Rightarrow> (sync_engine_error, 'r) result \<times> ('p, 'q) engine)
    \<Rightarrow> (sync_engine_error, 'r) result \<times> ('p, 'q) engine" where
  "check_cancel st k = (case ask_cancel st of (c, st') \<Rightarrow> if c then (Inl Cancelled, st') else k st')"

definition record_synced :: "engine_env \<Rightarrow> string \<Rightarrow> file_state \<Rightarrow> ('p, 'q) engine \<Rightarrow> ('p, 'q) engine" where
  "record_synced env rule_id f st =
     (case upsert_sync_state env rule_id (relative_path f) (fsize f) (modified_at f) (fhash f) (e_db st) of
        (Inr _, db) \<Rightarrow> st\<lparr>e_db := db\<rparr>
      | (Inl e, db) \<Rightarrow> push_error (''db upsert '' @ relative_path f @ '': '' @ e) (st\<lparr>e_db := db\<rparr>))"

definition read_with_retry :: "'p sync_provider \<Rightarrow> 'p \<Rightarrow> string \<Rightarrow> (provider_error, read_file_result) result \<times> 'p" where
  "read_with_retry api s path =
     (case p_read_file_to_path api s path of
        (Inl _, s') \<Rightarrow> p_read_file_to_path api s' path
      | r \<Rightarrow> r)"

definition hash_matches :: "string option \<Rightarrow> string option \<Rightarrow> bool" where
  "hash_matches claimed observed =
     (case (claimed, observed) of (Some c, Some ob) \<Rightarrow> c = ob | _ \<Rightarrow> True)"

definition transfer :: "'r sync_provider \<Rightarrow> 'w sync_provider \<Rightarrow> file_state \<Rightarrow> 'r \<Rightarrow> 'w
    \<Rightarrow> (provider_error, nat) result \<times> 'r \<times> 'w" where
  "transfer rapi wapi f r w =
     (case read_with_retry rapi r (relative_path f) of
        (Inl e, r') \<Rightarrow> (Inl e, r', w)
      | (Inr info, r') \<Rightarrow>
          if \<not> hash_matches (fhash f) (rf_hash info)
          then (Inl (POther ''hash mismatch''), r', w)
          else (case p_write_file_from_path wapi w (relative_path f) (rf_content info) of
                  (Inl e, w') \<Rightarrow> (Inl e, r', w')
                | (Inr _, w') \<Rightarrow> (Inr (rf_bytes info), r', w')))"

definition add_bytes :: "nat \<Rightarrow> ('p, 'q) engine \<Rightarrow> ('p, 'q) engine" where
  "add_bytes n st = st\<lparr>e_result := (e_result st)\<lparr>bytes_transferred := bytes_transferred (e_result st) + of_nat n\<rparr>\<rparr>"

definition prime :: "'p sync_provider \<Rightarrow> string \<Rightarrow> string option \<Rightarrow> 'p \<Rightarrow> 'p" where
  "prime api path h s = (case h of Some x \<Rightarrow> p_prime_hash_after_write api s path x | None \<Rightarrow> s)"

definition download_task :: "engine_env \<Rightarrow> 'p sync_provider \<Rightarrow> 'q sync_provider \<Rightarrow> string \<Rightarrow> file_state
    \<Rightarrow> ('p, 'q) engine \<Rightarrow> ('p, 'q) engine" where
  "download_task env sapi tapi rule_id f st =
     (case ask_cancel st of (c, st) \<Rightarrow>
        if c then st
        else (case env_tmp_error env (relative_path f) of
          Some e \<Rightarrow> push_error (''tmpfile '' @ relative_path f @ '': '' @ e) st
        | None \<Rightarrow>
            (case transfer sapi tapi f (e_source st) (e_target st) of
               (Inl e, s, t) \<Rightarrow>
                 push_error (''transfer '' @ relative_path f @ '': '' @ provider_error_text e) (st\<lparr>e_source := s, e_target := t\<rparr>)
             | (Inr n, s, t) \<Rightarrow>
                 let st = add_bytes n (st\<lparr>e_source := s, e_target := prime tapi (relative_path f) (fhash f) t\<rparr>);
                     st = st\<lparr>e_result := (e_result st)\<lparr>files_downloaded := files_downloaded (e_result st) + 1\<rparr>\<rparr>
                 in record_synced env rule_id f st)))"

definition upload_task :: "engine_env \<Rightarrow> 'p sync_provider \<Rightarrow> 'q sync_provider \<Rightarrow> string \<Rightarrow> file_state
    \<Rightarrow> ('p, 'q) engine \<Rightarrow> ('p, 'q) engine" where
  "upload_task env sapi tapi rule_id f st =
     (case ask_cancel st of (c, st) \<Rightarrow>
        if c then st
        else (case env_tmp_error env (relative_path f) of
          Some e \<Rightarrow> push_error (''tmpfile '' @ relative_path f @ '': '' @ e) st
        | None \<Rightarrow>
            (case transfer tapi sapi f (e_target st) (e_source st) of
               (Inl e, t, s) \<Rightarrow>
                 push_error (''upload '' @ relative_path f @ '': '' @ provider_error_text e) (st\<lparr>e_source := s, e_target := t\<rparr>)
             | (Inr n, t, s) \<Rightarrow>
                 record_synced env rule_id f
                   (add_bytes n (st\<lparr>e_source := prime sapi (relative_path f) (fhash f) s, e_target := t\<rparr>)))))"

definition mkdir_task :: "'q sync_provider \<Rightarrow> string \<Rightarrow> ('p, 'q) engine \<Rightarrow> ('p, 'q) engine" where
  "mkdir_task tapi dir st =
     (case p_create_directory tapi (e_target st) dir of
        (Inr _, t) \<Rightarrow> st\<lparr>e_target := t, e_result := (e_result st)\<lparr>directories_created := directories_created (e_result st) + 1\<rparr>\<rparr>
      | (Inl e, t) \<Rightarrow> push_error (''mkdir '' @ dir @ '': '' @ provider_error_text e) (st\<lparr>e_target := t\<rparr>))"

definition delete_task :: "engine_env \<Rightarrow> 'q sync_provider \<Rightarrow> string \<Rightarrow> bool \<Rightarrow> string \<Rightarrow> ('p, 'q) engine \<Rightarrow> ('p, 'q) engine" where
  "delete_task env tapi rule_id to_trash path st =
     (case p_delete_file tapi (e_target st) path to_trash of
        (Inr _, t) \<Rightarrow>
          (let st = st\<lparr>e_target := t, e_result := (e_result st)\<lparr>files_deleted := files_deleted (e_result st) + 1\<rparr>\<rparr>
           in case mark_deleted env rule_id path (e_db st) of
                (Inr _, db) \<Rightarrow> st\<lparr>e_db := db\<rparr>
              | (Inl e, db) \<Rightarrow> push_error (''db mark_deleted '' @ path @ '': '' @ e) (st\<lparr>e_db := db\<rparr>))
      | (Inl e, t) \<Rightarrow> push_error (''delete '' @ path @ '': '' @ provider_error_text e) (st\<lparr>e_target := t\<rparr>))"

definition make_conflict_path :: "string \<Rightarrow> nat \<Rightarrow> string" where
  "make_conflict_path path timestamp =
     (let stem = (case path_file_stem path of Some x \<Rightarrow> x | None \<Rightarrow> path);
          parent = (case path_parent path of Some x \<Rightarrow> x | None \<Rightarrow> []);
          conflict_name = (case path_extension path of
             Some e \<Rightarrow> stem @ ''.conflict.'' @ show_radix 10 timestamp @ ''.'' @ e
           | None \<Rightarrow> stem @ ''.conflict.'' @ show_radix 10 timestamp)
      in if parent = [] then conflict_name else parent @ ''/'' @ conflict_name)"

text \<open>The second step of a conflict, once the target's version has been put aside.\<close>

definition overwrite_with_source :: "engine_env \<Rightarrow> 'p sync_provider \<Rightarrow> 'q sync_provider \<Rightarrow> string \<Rightarrow> sync_conflict
    \<Rightarrow> ('p, 'q) engine \<Rightarrow> bool \<times> ('p, 'q) engine" where
  "overwrite_with_source env sapi tapi rule_id c st =
     (let path = conflict_path_of c in
      case env_tmp_error env path of
        Some e \<Rightarrow> (False, push_error (''conflict tmpfile source '' @ path @ '': '' @ e) st)
      | None \<Rightarrow>
          (case p_read_file_to_path sapi (e_source st) path of
             (Inl e, s) \<Rightarrow> (False, push_error (''conflict read source '' @ path @ '': '' @ provider_error_text e) (st\<lparr>e_source := s\<rparr>))
           | (Inr info, s) \<Rightarrow>
               if \<not> hash_matches (fhash (source_state c)) (rf_hash info)
               then (False, push_error (''conflict hash mismatch '' @ path) (st\<lparr>e_source := s\<rparr>))
               else (case p_write_file_from_path tapi (e_target st) path (rf_content info) of
                       (Inl e, t) \<Rightarrow> (False, push_error (''conflict write '' @ path @ '': '' @ provider_error_text e)
                           (st\<lparr>e_source := s, e_target := t\<rparr>))
                     | (Inr _, t) \<Rightarrow>
                         (let st = add_bytes (rf_bytes info)
                                (st\<lparr>e_source := s, e_target := prime tapi path (fhash (source_state c)) t\<rparr>);
                              st = st\<lparr>e_result := (e_result st)\<lparr>conflicts_resolved := conflicts_resolved (e_result st) + 1\<rparr>\<rparr>;
                              f = source_state c
                          in (True, st\<lparr>e_db := snd (upsert_sync_state env rule_id path (fsize f) (modified_at f) (fhash f) (e_db st))\<rparr>)))))"

definition conflict_task :: "engine_env \<Rightarrow> 'p sync_provider \<Rightarrow> 'q sync_provider \<Rightarrow> string \<Rightarrow> sync_conflict
    \<Rightarrow> ('p, 'q) engine \<Rightarrow> ('p, 'q) engine" where
  "conflict_task env sapi tapi rule_id c st =
     (let path = conflict_path_of c;
          aside = make_conflict_path path (env_now env);
          outcome =
            (case env_tmp_error env path of
               Some e \<Rightarrow> (False, push_error (''conflict tmpfile '' @ path @ '': '' @ e) st)
             | None \<Rightarrow>
                 (case p_read_file_to_path tapi (e_target st) path of
                    (Inl e, t) \<Rightarrow> (False, push_error (''conflict read target '' @ path @ '': '' @ provider_error_text e) (st\<lparr>e_target := t\<rparr>))
                  | (Inr info, t) \<Rightarrow>
                      (case p_write_file_from_path tapi t aside (rf_content info) of
                         (Inl e, t) \<Rightarrow> (False, push_error (''conflict rename '' @ path @ '': '' @ provider_error_text e) (st\<lparr>e_target := t\<rparr>))
                       | (Inr _, t) \<Rightarrow> overwrite_with_source env sapi tapi rule_id c (st\<lparr>e_target := t\<rparr>))))
      in if fst outcome then snd outcome else push_error (''conflict unresolved: '' @ path) (snd outcome))"

text \<open>A phase that asks for cancellation before every item.\<close>

fun cancellable :: "('a \<Rightarrow> ('p, 'q) engine \<Rightarrow> ('p, 'q) engine) \<Rightarrow> 'a list \<Rightarrow> ('p, 'q) engine
    \<Rightarrow> (sync_engine_error, unit) result \<times> ('p, 'q) engine" where
  "cancellable task [] st = (Inr (), st)"
| "cancellable task (x # xs) st =
     (case ask_cancel st of (c, st') \<Rightarrow> if c then (Inl Cancelled, st') else cancellable task xs (task x st'))"

record sync_orders =
  source_order :: file_order
  target_order :: file_order
  schedule :: "file_state list \<Rightarrow> file_state list"

definition plan :: "sync_orders \<Rightarrow> 'p sync_provider \<Rightarrow> 'q sync_provider \<Rightarrow> file_state list \<Rightarrow> file_state list
    \<Rightarrow> sync_direction \<Rightarrow> delete_mode \<Rightarrow> sync_actions" where
  "plan ord sapi tapi source_manifest target_manifest direction mode =
     (let acts = compute_sync_actions (source_order ord) (target_order ord) source_manifest target_manifest direction mode;
          acts = (if \<not> p_supports_directories tapi then acts\<lparr>to_create_directories := []\<rparr> else acts)
      in if \<not> p_supports_directories sapi \<and> direction = TwoWay then acts\<lparr>to_create_directories := []\<rparr> else acts)"

definition execute_plan :: "engine_env \<Rightarrow> sync_orders \<Rightarrow> 'p sync_provider \<Rightarrow> 'q sync_provider \<Rightarrow> delete_mode \<Rightarrow> string
    \<Rightarrow> sync_actions \<Rightarrow> ('p, 'q) engine \<Rightarrow> (sync_engine_error, sync_result) result \<times> ('p, 'q) engine" where
  "execute_plan env ord sapi tapi mode rule_id acts st =
     (case cancellable (mkdir_task tapi) (to_create_directories acts) st of
        (Inl e, st) \<Rightarrow> (Inl e, st)
      | (Inr _, st) \<Rightarrow> check_cancel st (\<lambda>st.
          let st = fold (download_task env sapi tapi rule_id) (schedule ord (to_download acts)) st
          in check_cancel st (\<lambda>st.
          let st = fold (upload_task env sapi tapi rule_id) (schedule ord (to_upload acts)) st
          in check_cancel st (\<lambda>st.
          case cancellable (delete_task env tapi rule_id (mode = Trash)) (to_delete acts) st of
            (Inl e, st) \<Rightarrow> (Inl e, st)
          | (Inr _, st) \<Rightarrow> check_cancel st (\<lambda>st.
              case cancellable (conflict_task env sapi tapi rule_id) (conflicts acts) st of
                (Inl e, st) \<Rightarrow> (Inl e, st)
              | (Inr _, st) \<Rightarrow> (Inr (e_result st), st))))))"

definition execute_sync :: "engine_env \<Rightarrow> sync_orders \<Rightarrow> 'p sync_provider \<Rightarrow> 'q sync_provider \<Rightarrow> sync_direction
    \<Rightarrow> delete_mode \<Rightarrow> string \<Rightarrow> ('p, 'q) engine \<Rightarrow> (sync_engine_error, sync_result) result \<times> ('p, 'q) engine" where
  "execute_sync env ord sapi tapi direction mode rule_id st =
     check_cancel (st\<lparr>e_result := empty_result\<rparr>) (\<lambda>st.
       case p_manifest sapi (e_source st) of
         (Inl e, s) \<Rightarrow> (Inl (SourceUnavailable e), st\<lparr>e_source := s\<rparr>)
       | (Inr source_manifest, s) \<Rightarrow> check_cancel (st\<lparr>e_source := s\<rparr>) (\<lambda>st.
           case p_manifest tapi (e_target st) of
             (Inl e, t) \<Rightarrow> (Inl (TargetUnavailable e), st\<lparr>e_target := t\<rparr>)
           | (Inr target_manifest, t) \<Rightarrow> check_cancel (st\<lparr>e_target := t\<rparr>) (\<lambda>st.
               execute_plan env ord sapi tapi mode rule_id
                 (plan ord sapi tapi source_manifest target_manifest direction mode) st)))"


section \<open>Bookkeeping\<close>

definition calm :: "('p, 'q) engine \<Rightarrow> bool" where
  "calm st \<longleftrightarrow> True \<notin> set (e_cancel st)"

lemma ask_cancel_sel [simp]:
  "e_source (snd (ask_cancel st)) = e_source st" "e_target (snd (ask_cancel st)) = e_target st"
  "e_db (snd (ask_cancel st)) = e_db st" "e_result (snd (ask_cancel st)) = e_result st"
  by (simp_all add: ask_cancel_def split: list.splits)

lemma ask_cancel_calm: "calm st \<Longrightarrow> \<exists>st'. ask_cancel st = (False, st') \<and> calm st'"
  by (cases "e_cancel st") (auto simp: ask_cancel_def calm_def)

lemma push_error_sel [simp]:
  "e_source (push_error m st) = e_source st" "e_target (push_error m st) = e_target st"
  "e_cancel (push_error m st) = e_cancel st" "errors (e_result (push_error m st)) = errors (e_result st) @ [m]"
  by (simp_all add: push_error_def)

lemma add_bytes_sel [simp]:
  "e_source (add_bytes n st) = e_source st" "e_target (add_bytes n st) = e_target st"
  "e_cancel (add_bytes n st) = e_cancel st" "errors (e_result (add_bytes n st)) = errors (e_result st)"
  by (simp_all add: add_bytes_def)

lemma record_synced_sel [simp]:
  "e_source (record_synced env rule_id f st) = e_source st" "e_target (record_synced env rule_id f st) = e_target st"
  "e_cancel (record_synced env rule_id f st) = e_cancel st"
  "\<exists>es. errors (e_result (record_synced env rule_id f st)) = errors (e_result st) @ es"
  by (cases "env_db_error env (relative_path f)"; simp add: record_synced_def upsert_sync_state_def)+

text \<open>Every task only appends to the error list, and keeps a calm token calm.\<close>

definition grows :: "('p, 'q) engine \<Rightarrow> ('p, 'q) engine \<Rightarrow> bool" where
  "grows st st' \<longleftrightarrow> (\<exists>es. errors (e_result st') = errors (e_result st) @ es) \<and> (calm st \<longrightarrow> calm st')"

lemma grows_refl [simp]: "grows st st"
  by (simp add: grows_def)

lemma grows_trans: "grows a b \<Longrightarrow> grows b c \<Longrightarrow> grows a c"
  by (auto simp: grows_def)

lemma grows_errors: "grows st st' \<Longrightarrow> errors (e_result st') = [] \<Longrightarrow> errors (e_result st) = []"
  by (auto simp: grows_def)

lemma grows_calm: "grows st st' \<Longrightarrow> calm st \<Longrightarrow> calm st'"
  by (simp add: grows_def)

lemma growsI: "errors (e_result st') = errors (e_result st) @ es \<Longrightarrow> e_cancel st' = e_cancel st \<Longrightarrow> grows st st'"
  by (auto simp: grows_def calm_def)

lemma fold_grows:
  assumes "\<And>x st. grows st (task x st)"
  shows "grows st (fold task xs st)"
proof (induction xs arbitrary: st)
  case (Cons x xs)
  show ?case using grows_trans [OF assms [of st x] Cons.IH] by simp
qed simp

lemma ask_cancel_grows: "grows st (snd (ask_cancel st))"
  by (cases "e_cancel st") (auto simp: ask_cancel_def grows_def calm_def)

lemma ask_cancel_fst: "calm st \<Longrightarrow> \<not> fst (ask_cancel st)"
  by (cases "e_cancel st") (auto simp: ask_cancel_def calm_def)

lemma push_error_grows [simp]: "grows st (push_error m st)"
  by (rule growsI [of _ _ "[m]"]) simp_all

lemma record_synced_grows [simp]: "grows st (record_synced env rule_id f st)"
  using record_synced_sel(3,4) [of env rule_id f st] by (auto simp: grows_def calm_def)

lemma grows_target [simp]: "grows st (st\<lparr>e_target := t\<rparr>)"
  by (rule growsI [of _ _ "[]"]) simp_all

text \<open>A phase with cancellation questions is, under a calm token, the plain loop.\<close>

definition asking :: "('a \<Rightarrow> ('p, 'q) engine \<Rightarrow> ('p, 'q) engine) \<Rightarrow> 'a \<Rightarrow> ('p, 'q) engine \<Rightarrow> ('p, 'q) engine" where
  "asking task x st = task x (snd (ask_cancel st))"

lemma cancellable_fold:
  assumes "\<And>x st. grows st (task x st)" "calm st"
  shows "cancellable task xs st = (Inr (), fold (asking task) xs st)"
  using assms(2)
proof (induction xs arbitrary: st)
  case (Cons x xs)
  have "calm (asking task x st)"
    using Cons.prems assms(1) ask_cancel_grows by (metis asking_def grows_calm)
  then show ?case using Cons ask_cancel_fst [of st] by (simp add: asking_def case_prod_beta)
qed simp

lemma check_cancel_calm: "calm st \<Longrightarrow> check_cancel st k = k (snd (ask_cancel st))"
  using ask_cancel_fst [of st] by (simp add: check_cancel_def case_prod_beta)


section \<open>What one task does\<close>

lemma download_cases:
  fixes st :: "('p, 'q) engine" and env sapi tapi rule_id f
  defines "st' \<equiv> download_task env sapi tapi rule_id f st"
  obtains (skipped) "calm st \<Longrightarrow> errors (e_result st') \<noteq> []" "e_source st' = e_source st" "e_target st' = e_target st"
  | (failed) e s t where "transfer sapi tapi f (e_source st) (e_target st) = (Inl e, s, t)" "errors (e_result st') \<noteq> []"
      "e_source st' = s" "e_target st' = t"
  | (copied) n s t where "transfer sapi tapi f (e_source st) (e_target st) = (Inr n, s, t)"
      "e_source st' = s" "e_target st' = prime tapi (relative_path f) (fhash f) t"
proof (cases "fst (ask_cancel st)")
  case True
  then have "st' = snd (ask_cancel st)" by (simp add: st'_def download_task_def case_prod_beta)
  then show ?thesis using True ask_cancel_fst [of st] skipped by force
next
  case c: False
  show ?thesis
  proof (cases "env_tmp_error env (relative_path f)")
    case (Some e)
    with c have "st' = push_error (''tmpfile '' @ relative_path f @ '': '' @ e) (snd (ask_cancel st))"
      by (simp add: st'_def download_task_def case_prod_beta)
    then show ?thesis using skipped by simp
  next
    case None
    obtain x s t where tr: "transfer sapi tapi f (e_source st) (e_target st) = (x, s, t)" by (metis prod_cases3)
    have tr': "transfer sapi tapi f (e_source (snd (ask_cancel st))) (e_target (snd (ask_cancel st))) = (x, s, t)"
      using tr by simp
    show ?thesis
    proof (cases x)
      case (Inl e)
      with c None tr' have "st' = push_error (''transfer '' @ relative_path f @ '': '' @ provider_error_text e)
          ((snd (ask_cancel st))\<lparr>e_source := s, e_target := t\<rparr>)"
        unfolding st'_def download_task_def by (cases "ask_cancel st") (auto simp del: ask_cancel_sel)
      then show ?thesis using failed tr Inl by simp
    next
      case (Inr n)
      have "e_source st' = s" "e_target st' = prime tapi (relative_path f) (fhash f) t"
        using c None tr' Inr unfolding st'_def download_task_def Let_def
        by (cases "ask_cancel st"; auto simp del: ask_cancel_sel)+
      then show ?thesis using copied tr Inr by simp
    qed
  qed
qed

lemma upload_cases:
  fixes st :: "('p, 'q) engine" and env sapi tapi rule_id f
  defines "st' \<equiv> upload_task env sapi tapi rule_id f st"
  obtains (skipped) "calm st \<Longrightarrow> errors (e_result st') \<noteq> []" "e_source st' = e_source st" "e_target st' = e_target st"
  | (failed) e s t where "transfer tapi sapi f (e_target st) (e_source st) = (Inl e, t, s)" "errors (e_result st') \<noteq> []"
      "e_source st' = s" "e_target st' = t"
  | (copied) n s t where "transfer tapi sapi f (e_target st) (e_source st) = (Inr n, t, s)"
      "e_source st' = prime sapi (relative_path f) (fhash f) s" "e_target st' = t"
proof (cases "fst (ask_cancel st)")
  case True
  then have "st' = snd (ask_cancel st)" by (simp add: st'_def upload_task_def case_prod_beta)
  then show ?thesis using True ask_cancel_fst [of st] skipped by force
next
  case c: False
  show ?thesis
  proof (cases "env_tmp_error env (relative_path f)")
    case (Some e)
    with c have "st' = push_error (''tmpfile '' @ relative_path f @ '': '' @ e) (snd (ask_cancel st))"
      by (simp add: st'_def upload_task_def case_prod_beta)
    then show ?thesis using skipped by simp
  next
    case None
    obtain x s t where tr: "transfer tapi sapi f (e_target st) (e_source st) = (x, t, s)" by (metis prod_cases3)
    have tr': "transfer tapi sapi f (e_target (snd (ask_cancel st))) (e_source (snd (ask_cancel st))) = (x, t, s)"
      using tr by simp
    show ?thesis
    proof (cases x)
      case (Inl e)
      with c None tr' have "st' = push_error (''upload '' @ relative_path f @ '': '' @ provider_error_text e)
          ((snd (ask_cancel st))\<lparr>e_source := s, e_target := t\<rparr>)"
        unfolding st'_def upload_task_def by (cases "ask_cancel st") (auto simp del: ask_cancel_sel)
      then show ?thesis using failed tr Inl by simp
    next
      case (Inr n)
      have "e_source st' = prime sapi (relative_path f) (fhash f) s" "e_target st' = t"
        using c None tr' Inr unfolding st'_def upload_task_def Let_def
        by (cases "ask_cancel st"; auto simp del: ask_cancel_sel)+
      then show ?thesis using copied tr Inr by simp
    qed
  qed
qed

lemma download_grows: "grows st (download_task env sapi tapi rule_id f st)"
proof -
  obtain x s t where tr: "transfer sapi tapi f (e_source (snd (ask_cancel st))) (e_target (snd (ask_cancel st))) = (x, s, t)"
    by (metis prod_cases3)
  have *: "grows (snd (ask_cancel st)) (download_task env sapi tapi rule_id f st)"
    using tr unfolding download_task_def Let_def case_prod_beta
    by (cases x; cases "env_tmp_error env (relative_path f)")
      (auto simp: add_bytes_def simp del: ask_cancel_sel intro!: grows_trans [OF _ push_error_grows] grows_trans [OF _ record_synced_grows]
        growsI [of _ _ "[]"])
  show ?thesis using grows_trans [OF ask_cancel_grows *] .
qed

lemma upload_grows: "grows st (upload_task env sapi tapi rule_id f st)"
proof -
  obtain x s t where tr: "transfer tapi sapi f (e_target (snd (ask_cancel st))) (e_source (snd (ask_cancel st))) = (x, t, s)"
    by (metis prod_cases3)
  have *: "grows (snd (ask_cancel st)) (upload_task env sapi tapi rule_id f st)"
    using tr unfolding upload_task_def Let_def case_prod_beta
    by (cases x; cases "env_tmp_error env (relative_path f)")
      (auto simp: add_bytes_def simp del: ask_cancel_sel intro!: grows_trans [OF _ push_error_grows] grows_trans [OF _ record_synced_grows]
        growsI [of _ _ "[]"])
  show ?thesis using grows_trans [OF ask_cancel_grows *] .
qed

lemma mkdir_effect:
  fixes st :: "('p, 'q) engine" and tapi dir
  defines "st' \<equiv> mkdir_task tapi dir st"
  shows "grows st st'" "e_source st' = e_source st" "e_target st' = snd (p_create_directory tapi (e_target st) dir)"
proof -
  obtain r t where r: "p_create_directory tapi (e_target st) dir = (r, t)" by fastforce
  show "grows st st'" "e_source st' = e_source st" "e_target st' = snd (p_create_directory tapi (e_target st) dir)"
    using r unfolding st'_def mkdir_task_def
    by (cases r; auto intro!: growsI [of _ _ "[]"] grows_trans [OF _ push_error_grows])+
qed

lemma delete_effect:
  fixes st :: "('p, 'q) engine" and env tapi rule_id tr path
  defines "st' \<equiv> delete_task env tapi rule_id tr path st"
  assumes "p_delete_file tapi (e_target st) path tr = (r, t)"
  shows "grows st st'" "e_source st' = e_source st" "e_target st' = t" "r = Inl e \<Longrightarrow> errors (e_result st') \<noteq> []"
  using assms(2) unfolding st'_def delete_task_def mark_deleted_def Let_def
  by (cases r; cases "env_db_error env path"; auto intro!: growsI [of _ _ "[]"] grows_trans [OF _ push_error_grows])+


section \<open>The contract of a provider\<close>

text \<open>The paths the engine handles: the ones a manifest lists.  They have no empty, dot or
  dot-dot component, no NUL and no backslash.\<close>

definition plain_name :: "string \<Rightarrow> bool" where
  "plain_name n \<longleftrightarrow> n \<noteq> [] \<and> n \<noteq> ''.'' \<and> n \<noteq> ''..'' \<and> CHR ''/'' \<notin> set n \<and> CHR 0x5C \<notin> set n \<and> CHR 0x00 \<notin> set n"

definition plain_path :: "string \<Rightarrow> bool" where
  "plain_path p \<longleftrightarrow> (\<forall>n\<in>set (split_on (CHR ''/'') p). plain_name n)"

section \<open>The conflict path\<close>

lemma plain_path_split:
  assumes "plain_path p"
  obtains cs n where "split_on (CHR ''/'') p = cs @ [n]" "p = join_on (CHR ''/'') (cs @ [n])" "\<forall>x\<in>set (cs @ [n]). plain_name x"
proof -
  obtain cs n where s: "split_on (CHR ''/'') p = cs @ [n]" by (metis rev_exhaust split_on_not_Nil)
  then show ?thesis using that assms join_split [of "CHR ''/''" p] by (auto simp: plain_path_def)
qed

lemma plain_path_join:
  assumes "cs \<noteq> []" "\<forall>x\<in>set cs. plain_name x"
  shows "plain_path (join_on (CHR ''/'') cs)" "split_on (CHR ''/'') (join_on (CHR ''/'') cs) = cs"
proof -
  have "\<forall>x\<in>set cs. CHR ''/'' \<notin> set x" using assms(2) by (simp add: plain_name_def)
  then show "split_on (CHR ''/'') (join_on (CHR ''/'') cs) = cs" using assms(1) by (simp add: split_join)
  then show "plain_path (join_on (CHR ''/'') cs)" using assms(2) by (simp add: plain_path_def)
qed

lemma plain_path_parts:
  assumes "\<forall>x\<in>set (cs @ [n]). plain_name x"
  defines "p \<equiv> join_on (CHR ''/'') (cs @ [n])"
  shows "path_file_name p = Some n" "path_parent p = Some (join_on (CHR ''/'') cs)"
proof -
  have split: "split_on (CHR ''/'') p = cs @ [n]" using plain_path_join(2) assms by simp
  have keep: "filter (\<lambda>c. c \<noteq> [] \<and> c \<noteq> ''.'') (cs @ [n]) = cs @ [n]"
    using assms(1) by (intro filter_True) (auto simp: plain_name_def)
  have n: "n \<noteq> []" "n \<noteq> ''.''" "n \<noteq> ''..''" using assms(1) by (auto simp: plain_name_def)
  show "path_file_name p = Some n" unfolding path_file_name_def split keep using n(3) by simp
  show "path_parent p = Some (join_on (CHR ''/'') cs)"
  proof (cases "rev cs")
    case Nil
    then show ?thesis unfolding path_parent_def split using n by simp
  next
    case (Cons x xs)
    then have x: "plain_name x" using assms(1) by (metis UnCI list.set_intros(1) set_append set_rev)
    then have "trim_rev (x # xs) = x # xs" by (cases xs) (auto simp: plain_name_def)
    moreover have "x # xs \<noteq> [[]]" using x by (auto simp: plain_name_def)
    moreover have "rev (x # xs) = cs" using Cons by (metis rev_rev_ident)
    moreover have "trim_rev (rev (cs @ [n])) = n # x # xs" using n Cons by simp
    ultimately show ?thesis unfolding path_parent_def split by (auto simp: Let_def)
  qed
qed

lemma make_conflict_path_plain:
  assumes "plain_path p"
  shows "plain_path (make_conflict_path p t)" "make_conflict_path p t \<noteq> p"
proof -
  obtain cs n where p: "p = join_on (CHR ''/'') (cs @ [n])" "\<forall>x\<in>set (cs @ [n]). plain_name x"
    by (rule plain_path_split [OF assms])
  note parts = plain_path_parts [OF p(2), folded p(1)]
  obtain b e where be: "split_file_at_dot n = (b, e)" by fastforce
  define n' where "n' = b @ ''.conflict.'' @ show_radix 10 t @ (case e of None \<Rightarrow> [] | Some x \<Rightarrow> ''.'' @ x)"
  have n: "n = b @ (case e of None \<Rightarrow> [] | Some x \<Rightarrow> ''.'' @ x)"
    using split_file_at_dot_concat [of n] be by (auto split: option.splits)
  have eq: "make_conflict_path p t = join_on (CHR ''/'') (cs @ [n'])"
  proof -
    have se: "path_file_stem p = Some b" "path_extension p = e"
      by (simp_all add: path_file_stem_def path_extension_def parts be)
    have name: "(case e of Some x \<Rightarrow> b @ ''.conflict.'' @ show_radix 10 t @ ''.'' @ x
        | None \<Rightarrow> b @ ''.conflict.'' @ show_radix 10 t) = n'"
      by (cases e) (simp_all add: n'_def)
    have "\<not> plain_name []" by (simp add: plain_name_def)
    then have "[] \<notin> set cs" using p(2) by auto
    then have "cs \<noteq> [[]]" by force
    then have "join_on (CHR ''/'') cs = [] \<longleftrightarrow> cs = []" by (simp add: join_on_eq_Nil)
    then show ?thesis
      unfolding make_conflict_path_def se parts option.case Let_def name by (simp add: join_on_snoc)
  qed
  have "set (show_radix 10 t) \<subseteq> set ''0123456789abcdef''" by (rule show_radix_chars) simp_all
  then have "CHR ''/'' \<notin> set n'" "CHR 0x5C \<notin> set n'" "CHR 0x00 \<notin> set n'"
    using p(2) n by (auto simp: n'_def plain_name_def split: option.splits)
  moreover have len: "length n' > length n" "length n' > 2" using n by (auto simp: n'_def split: option.splits)
  ultimately have "plain_name n'" by (auto simp: plain_name_def)
  then have pl: "\<forall>x\<in>set (cs @ [n']). plain_name x" using p(2) by simp
  show "plain_path (make_conflict_path p t)" unfolding eq using plain_path_join(1) [OF _ pl] by simp
  show "make_conflict_path p t \<noteq> p"
  proof
    assume "make_conflict_path p t = p"
    then have "split_on (CHR ''/'') (join_on (CHR ''/'') (cs @ [n'])) = split_on (CHR ''/'') (join_on (CHR ''/'') (cs @ [n]))"
      by (metis eq p(1))
    then have "cs @ [n'] = cs @ [n]" using plain_path_join(2) [OF _ pl] plain_path_join(2) [OF _ p(2)] by simp
    then show False using len(1) by simp
  qed
qed


section \<open>Effects of the tasks\<close>

text \<open>What the engine relies on: \<open>contents\<close> is what a provider stores under a path, \<open>valid\<close>
  the provider's own invariant.  Reading changes nothing and returns the stored bytes, a
  write or delete changes at most its own path and does what it says when it succeeds.\<close>

locale file_store =
  fixes api :: "'p sync_provider" and contents :: "'p \<Rightarrow> string \<Rightarrow> content option" and valid :: "'p \<Rightarrow> bool"
  assumes manifest_ok: "valid s \<Longrightarrow> p_manifest api s = (rm, s') \<Longrightarrow> valid s' \<and> contents s' = contents s"
    and manifest_files: "valid s \<Longrightarrow> p_manifest api s = (Inr m, s') \<Longrightarrow> f \<in> set m \<Longrightarrow>
      plain_path (relative_path f) \<and> (\<not> is_directory f \<longrightarrow> contents s (relative_path f) \<noteq> None)"
    and read_ok: "valid s \<Longrightarrow> plain_path p \<Longrightarrow> p_read_file_to_path api s p = (rr, s') \<Longrightarrow>
      valid s' \<and> contents s' = contents s \<and> (\<forall>info. rr = Inr info \<longrightarrow> contents s p = Some (rf_content info))"
    and write_ok: "valid s \<Longrightarrow> plain_path p \<Longrightarrow> p_write_file_from_path api s p c = (ru, s') \<Longrightarrow>
      valid s' \<and> (\<forall>q. q \<noteq> p \<longrightarrow> contents s' q = contents s q) \<and> (ru = Inr () \<longrightarrow> contents s' p = Some c)"
    and delete_ok: "valid s \<Longrightarrow> plain_path p \<Longrightarrow> contents s p \<noteq> None \<Longrightarrow> p_delete_file api s p tr = (ru, s') \<Longrightarrow>
      valid s' \<and> (\<forall>q. q \<noteq> p \<longrightarrow> contents s' q = contents s q) \<and> (ru = Inr () \<longrightarrow> contents s' p = None)"
    and mkdir_ok: "valid s \<Longrightarrow> plain_path p \<Longrightarrow> p_create_directory api s p = (ru, s') \<Longrightarrow>
      valid s' \<and> contents s' = contents s"
    and prime_ok: "valid s \<Longrightarrow> plain_path p \<Longrightarrow>
      valid (p_prime_hash_after_write api s p h) \<and> contents (p_prime_hash_after_write api s p h) = contents s"
begin

lemma prime_contents: "valid s \<Longrightarrow> plain_path p \<Longrightarrow> valid (prime api p h s) \<and> contents (prime api p h s) = contents s"
  by (simp add: prime_def prime_ok split: option.splits)

lemma retry_ok:
  assumes "valid s" "plain_path p" "read_with_retry api s p = (r, s')"
  shows "valid s' \<and> contents s' = contents s \<and> (\<forall>info. r = Inr info \<longrightarrow> contents s p = Some (rf_content info))"
proof -
  obtain r1 s1 where 1: "p_read_file_to_path api s p = (r1, s1)" by fastforce
  obtain r2 s2 where 2: "p_read_file_to_path api s1 p = (r2, s2)" by fastforce
  note a = read_ok [OF assms(1,2) 1]
  then have b: "valid s2 \<and> contents s2 = contents s1 \<and> (\<forall>info. r2 = Inr info \<longrightarrow> contents s1 p = Some (rf_content info))"
    using read_ok [OF _ assms(2) 2] by blast
  show ?thesis
    using assms(3) 1 2 a b by (cases r1) (auto simp: read_with_retry_def)
qed

end

locale transfer_pair = reader: file_store rapi rcont rvalid + writer: file_store wapi wcont wvalid
  for rapi :: "'r sync_provider" and rcont rvalid and wapi :: "'w sync_provider" and wcont wvalid
begin

lemma transfer_effect:
  assumes "rvalid r" "wvalid w" "plain_path (relative_path f)" "transfer rapi wapi f r w = (x, r', w')"
  shows "rvalid r' \<and> wvalid w' \<and> rcont r' = rcont r \<and> (\<forall>q. q \<noteq> relative_path f \<longrightarrow> wcont w' q = wcont w q)
    \<and> (\<forall>n. x = Inr n \<longrightarrow> rcont r (relative_path f) \<noteq> None \<and> wcont w' (relative_path f) = rcont r (relative_path f))"
proof -
  let ?p = "relative_path f"
  obtain rr r1 where R: "read_with_retry rapi r ?p = (rr, r1)" by fastforce
  note src = reader.retry_ok [OF assms(1,3) R]
  show ?thesis
  proof (cases rr)
    case (Inl e)
    then show ?thesis using assms R src by (auto simp: transfer_def)
  next
    case (Inr info)
    obtain wr w1 where W: "p_write_file_from_path wapi w ?p (rf_content info) = (wr, w1)" by fastforce
    note tgt = writer.write_ok [OF assms(2,3) W]
    show ?thesis
      using assms(2,4) R src Inr W tgt by (cases wr) (auto simp: transfer_def split: if_splits)
  qed
qed

end

locale sync_pair = source: file_store sapi scont svalid + target: file_store tapi tcont tvalid
  for sapi :: "'p sync_provider" and scont svalid and tapi :: "'q sync_provider" and tcont tvalid

sublocale sync_pair \<subseteq> down: transfer_pair sapi scont svalid tapi tcont tvalid
  by unfold_locales

sublocale sync_pair \<subseteq> up: transfer_pair tapi tcont tvalid sapi scont svalid
  by unfold_locales

context sync_pair
begin

text \<open>A step that keeps both invariants and changes at most the paths \<open>P\<close> of the target and
  \<open>Q\<close> of the source.\<close>

definition touches :: "string set \<Rightarrow> string set \<Rightarrow> ('p, 'q) engine \<Rightarrow> ('p, 'q) engine \<Rightarrow> bool" where
  "touches P Q st st' \<longleftrightarrow> grows st st' \<and> svalid (e_source st') \<and> tvalid (e_target st')
     \<and> (\<forall>q. q \<notin> P \<longrightarrow> tcont (e_target st') q = tcont (e_target st) q)
     \<and> (\<forall>q. q \<notin> Q \<longrightarrow> scont (e_source st') q = scont (e_source st) q)"

definition both_valid :: "('p, 'q) engine \<Rightarrow> bool" where
  "both_valid st \<longleftrightarrow> svalid (e_source st) \<and> tvalid (e_target st)"

lemma touches_refl: "both_valid st \<Longrightarrow> touches P Q st st"
  by (simp add: touches_def both_valid_def)

lemma touches_valid: "touches P Q st st' \<Longrightarrow> both_valid st'"
  by (simp add: touches_def both_valid_def)

lemma touches_trans: "touches P Q a b \<Longrightarrow> touches P' Q' b c \<Longrightarrow> touches (P \<union> P') (Q \<union> Q') a c"
  by (auto simp: touches_def intro: grows_trans)

lemma touches_ask: "both_valid st \<Longrightarrow> touches P Q st (snd (ask_cancel st))"
  by (simp add: touches_def both_valid_def ask_cancel_grows)

lemma touches_mono: "touches P Q st st' \<Longrightarrow> P \<subseteq> P' \<Longrightarrow> Q \<subseteq> Q' \<Longrightarrow> touches P' Q' st st'"
  by (auto simp: touches_def)

text \<open>A phase is a fold of tasks with separate footprints: what each task establishes is
  still there at the end.\<close>

lemma phase:
  assumes step: "\<And>x st. x \<in> set xs \<Longrightarrow> both_valid st \<Longrightarrow> Pre x st \<Longrightarrow>
      touches (P x) (Q x) st (task x st) \<and> (calm st \<longrightarrow> errors (e_result (task x st)) = [] \<longrightarrow> Post x (task x st))"
    and keep: "\<And>x st st'. x \<in> set xs \<Longrightarrow> touches (\<Union>y\<in>set xs - {x}. P y) (\<Union>y\<in>set xs - {x}. Q y) st st' \<Longrightarrow>
      (Pre x st \<longrightarrow> Pre x st') \<and> (Post x st \<longrightarrow> Post x st')"
    and "distinct xs" "both_valid st" "\<And>x. x \<in> set xs \<Longrightarrow> Pre x st"
  shows "touches (\<Union>x\<in>set xs. P x) (\<Union>x\<in>set xs. Q x) st (fold task xs st)
    \<and> (calm st \<longrightarrow> errors (e_result (fold task xs st)) = [] \<longrightarrow> (\<forall>x\<in>set xs. Post x (fold task xs st)))"
  using assms
proof (induction xs arbitrary: st)
  case (Cons x xs)
  let ?s = "task x st" and ?e = "fold task xs (task x st)"
  have s: "touches (P x) (Q x) st ?s" "calm st \<longrightarrow> errors (e_result ?s) = [] \<longrightarrow> Post x ?s"
    using Cons.prems(1) [of x st] Cons.prems(4,5) by auto
  have pre: "Pre y ?s" if "y \<in> set xs" for y
  proof -
    have "touches (\<Union>z\<in>set (x # xs) - {y}. P z) (\<Union>z\<in>set (x # xs) - {y}. Q z) st ?s"
      by (rule touches_mono [OF s(1)]) (use that Cons.prems(3) in auto)
    then show ?thesis using Cons.prems(2) [of y st ?s] Cons.prems(5) [of y] that by simp
  qed
  have sub: "touches (\<Union>y\<in>set xs - {z}. P y) (\<Union>y\<in>set xs - {z}. Q y) a b \<Longrightarrow>
      touches (\<Union>y\<in>set (x # xs) - {z}. P y) (\<Union>y\<in>set (x # xs) - {z}. Q y) a b" for z a b
    by (erule touches_mono) auto
  have ih: "touches (\<Union>x\<in>set xs. P x) (\<Union>x\<in>set xs. Q x) ?s ?e
    \<and> (calm ?s \<longrightarrow> errors (e_result ?e) = [] \<longrightarrow> (\<forall>x\<in>set xs. Post x ?e))"
  proof (rule Cons.IH)
    show "distinct xs" "both_valid ?s" using Cons.prems(3) touches_valid [OF s(1)] by auto
    show "Pre y ?s" if "y \<in> set xs" for y using pre that .
    show "(Pre y a \<longrightarrow> Pre y b) \<and> (Post y a \<longrightarrow> Post y b)"
      if "y \<in> set xs" "touches (\<Union>z\<in>set xs - {y}. P z) (\<Union>z\<in>set xs - {y}. Q z) a b" for y a b
      by (rule Cons.prems(2)) (use that sub in auto)
  qed (use Cons.prems(1) in auto)
  have "calm st \<Longrightarrow> calm ?s" "errors (e_result ?e) = [] \<Longrightarrow> errors (e_result ?s) = []"
    using s(1) ih grows_calm grows_errors by (auto simp: touches_def)
  moreover have "Post x ?s \<Longrightarrow> Post x ?e"
  proof -
    have "set (x # xs) - {x} = set xs" using Cons.prems(3) by auto
    then show "Post x ?s \<Longrightarrow> Post x ?e" using Cons.prems(2) [of x ?s ?e] ih by simp
  qed
  ultimately show ?case using s ih touches_trans [OF s(1) conjunct1 [OF ih]] by auto
qed (simp add: touches_refl)

lemma download_step:
  fixes env rule_id
  assumes "both_valid st" "plain_path (relative_path f)"
  defines "st' \<equiv> download_task env sapi tapi rule_id f st"
  shows "touches {relative_path f} {} st st' \<and> (calm st \<longrightarrow> errors (e_result st') = [] \<longrightarrow>
    scont (e_source st) (relative_path f) \<noteq> None \<and> tcont (e_target st') (relative_path f) = scont (e_source st) (relative_path f))"
  using download_grows [of st env sapi tapi rule_id f] assms(1)
proof (cases rule: download_cases [where env = env and sapi = sapi and tapi = tapi and rule_id = rule_id and f = f and st = st])
  case (failed e s t)
  show ?thesis
    using down.transfer_effect [OF _ _ assms(2) failed(1)] failed(2-4) download_grows [of st env sapi tapi rule_id f] assms(1)
    by (auto simp: touches_def both_valid_def st'_def)
next
  case (copied n s t)
  have "svalid s \<and> tvalid t \<and> scont s = scont (e_source st) \<and> (\<forall>q. q \<noteq> relative_path f \<longrightarrow> tcont t q = tcont (e_target st) q)
      \<and> scont (e_source st) (relative_path f) \<noteq> None \<and> tcont t (relative_path f) = scont (e_source st) (relative_path f)"
    using down.transfer_effect [OF _ _ assms(2) copied(1)] assms(1) by (simp add: both_valid_def)
  then show ?thesis
    using target.prime_contents [of t "relative_path f" "fhash f"] assms(2) copied(2,3) download_grows [of st env sapi tapi rule_id f]
    by (auto simp: touches_def st'_def)
qed (auto simp: touches_def both_valid_def st'_def)

lemma upload_step:
  fixes env rule_id
  assumes "both_valid st" "plain_path (relative_path f)"
  defines "st' \<equiv> upload_task env sapi tapi rule_id f st"
  shows "touches {} {relative_path f} st st' \<and> (calm st \<longrightarrow> errors (e_result st') = [] \<longrightarrow>
    tcont (e_target st) (relative_path f) \<noteq> None \<and> scont (e_source st') (relative_path f) = tcont (e_target st) (relative_path f))"
  using upload_grows [of st env sapi tapi rule_id f] assms(1)
proof (cases rule: upload_cases [where env = env and sapi = sapi and tapi = tapi and rule_id = rule_id and f = f and st = st])
  case (failed e s t)
  show ?thesis
    using up.transfer_effect [OF _ _ assms(2) failed(1)] failed(2-4) upload_grows [of st env sapi tapi rule_id f] assms(1)
    by (auto simp: touches_def both_valid_def st'_def)
next
  case (copied n s t)
  have "svalid s \<and> tvalid t \<and> tcont t = tcont (e_target st) \<and> (\<forall>q. q \<noteq> relative_path f \<longrightarrow> scont s q = scont (e_source st) q)
      \<and> tcont (e_target st) (relative_path f) \<noteq> None \<and> scont s (relative_path f) = tcont (e_target st) (relative_path f)"
    using up.transfer_effect [OF _ _ assms(2) copied(1)] assms(1) by (simp add: both_valid_def)
  then show ?thesis
    using source.prime_contents [of s "relative_path f" "fhash f"] assms(2) copied(2,3) upload_grows [of st env sapi tapi rule_id f]
    by (auto simp: touches_def st'_def)
qed (auto simp: touches_def both_valid_def st'_def)

lemma mkdir_step:
  assumes "both_valid st" "plain_path dir"
  shows "touches {} {} st (mkdir_task tapi dir st)"
proof -
  obtain r t where r: "p_create_directory tapi (e_target st) dir = (r, t)" by fastforce
  then show ?thesis
    using mkdir_effect [where tapi = tapi and dir = dir and st = st] target.mkdir_ok [OF _ assms(2) r] assms(1)
    by (simp add: touches_def both_valid_def)
qed

lemma delete_step:
  fixes env rule_id tr
  assumes "both_valid st" "plain_path path" "tcont (e_target st) path \<noteq> None"
  defines "st' \<equiv> delete_task env tapi rule_id tr path st"
  shows "touches {path} {} st st' \<and> (errors (e_result st') = [] \<longrightarrow> tcont (e_target st') path = None)"
proof -
  obtain r t where r: "p_delete_file tapi (e_target st) path tr = (r, t)" by fastforce
  note eff = delete_effect [OF r, where env = env and rule_id = rule_id, folded st'_def]
  have "tvalid t \<and> (\<forall>q. q \<noteq> path \<longrightarrow> tcont t q = tcont (e_target st) q) \<and> (r = Inr () \<longrightarrow> tcont t path = None)"
    using target.delete_ok [OF _ assms(2,3) r] assms(1) by (simp add: both_valid_def)
  then show ?thesis
    using eff assms(1) by (cases r) (auto simp: touches_def both_valid_def)
qed

lemma overwrite_step:
  fixes env rule_id
  assumes "both_valid st" "plain_path (conflict_path_of c)" "overwrite_with_source env sapi tapi rule_id c st = (b, st')"
  shows "touches {conflict_path_of c} {} st st' \<and>
    (b \<longrightarrow> tcont (e_target st') (conflict_path_of c) = scont (e_source st) (conflict_path_of c))
    \<and> (\<not> b \<longrightarrow> errors (e_result st') \<noteq> [])"
proof -
  let ?p = "conflict_path_of c"
  obtain r s where R: "p_read_file_to_path sapi (e_source st) ?p = (r, s)" by fastforce
  have src: "svalid s \<and> scont s = scont (e_source st) \<and> (\<forall>info. r = Inr info \<longrightarrow> scont (e_source st) ?p = Some (rf_content info))"
    using source.read_ok [OF _ assms(2) R] assms(1) by (simp add: both_valid_def)
  show ?thesis
  proof (cases "\<exists>info. env_tmp_error env ?p = None \<and> r = Inr info \<and> hash_matches (fhash (source_state c)) (rf_hash info)")
    case False
    then have "\<not> b \<and> e_target st' = e_target st \<and> (e_source st' = e_source st \<or> e_source st' = s)
        \<and> (\<exists>m. errors (e_result st') = errors (e_result st) @ [m]) \<and> e_cancel st' = e_cancel st"
      using assms(3) R by (cases r) (auto simp: overwrite_with_source_def Let_def split: option.splits if_splits)
    then show ?thesis using src assms(1) by (auto simp: touches_def both_valid_def intro!: growsI)
  next
    case True
    then obtain info where info: "env_tmp_error env ?p = None" "r = Inr info" "hash_matches (fhash (source_state c)) (rf_hash info)"
      by blast
    obtain w t where W: "p_write_file_from_path tapi (e_target st) ?p (rf_content info) = (w, t)" by fastforce
    have tgt: "tvalid t \<and> (\<forall>q. q \<noteq> ?p \<longrightarrow> tcont t q = tcont (e_target st) q) \<and> (w = Inr () \<longrightarrow> tcont t ?p = Some (rf_content info))"
      using target.write_ok [OF _ assms(2) W] assms(1) by (simp add: both_valid_def)
    have "e_source st' = s \<and> e_cancel st' = e_cancel st \<and> (\<exists>es. errors (e_result st') = errors (e_result st) @ es \<and> (\<not> b \<longrightarrow> es \<noteq> []))
        \<and> (if b then w = Inr () \<and> e_target st' = prime tapi ?p (fhash (source_state c)) t else e_target st' = t)"
      using assms(3) R W info by (cases w) (auto simp: overwrite_with_source_def Let_def)
    then show ?thesis
      using src tgt info(2) target.prime_contents [of t ?p "fhash (source_state c)"] assms(2)
      by (auto simp: touches_def intro!: growsI split: if_splits)
  qed
qed

text \<open>A conflict: whatever fails, the target's version is afterwards under its own path or
  under the conflict path.\<close>

lemma conflict_step:
  fixes env rule_id
  assumes "both_valid st" "plain_path (conflict_path_of c)"
  defines "aside \<equiv> make_conflict_path (conflict_path_of c) (env_now env)"
  assumes "plain_path aside" "aside \<noteq> conflict_path_of c"
  defines "st' \<equiv> conflict_task env sapi tapi rule_id c st"
  shows "touches {conflict_path_of c, aside} {} st st'"
    and "tcont (e_target st') (conflict_path_of c) = tcont (e_target st) (conflict_path_of c)
      \<or> tcont (e_target st') aside = tcont (e_target st) (conflict_path_of c)"
    and "errors (e_result st') = [] \<Longrightarrow> tcont (e_target st') aside = tcont (e_target st) (conflict_path_of c)
      \<and> tcont (e_target st') (conflict_path_of c) = scont (e_source st) (conflict_path_of c)"
proof -
  let ?p = "conflict_path_of c"
  obtain r t where R: "p_read_file_to_path tapi (e_target st) ?p = (r, t)" by fastforce
  have tgt: "tvalid t \<and> tcont t = tcont (e_target st) \<and> (\<forall>info. r = Inr info \<longrightarrow> tcont (e_target st) ?p = Some (rf_content info))"
    using target.read_ok [OF _ assms(2) R] assms(1) by (simp add: both_valid_def)
  have "touches {?p, aside} {} st st' \<and> (tcont (e_target st') ?p = tcont (e_target st) ?p \<or> tcont (e_target st') aside = tcont (e_target st) ?p)
    \<and> (errors (e_result st') = [] \<longrightarrow> tcont (e_target st') aside = tcont (e_target st) ?p \<and> tcont (e_target st') ?p = scont (e_source st) ?p)"
  proof (cases "env_tmp_error env ?p = None \<and> (\<exists>info. r = Inr info)")
    case False
    then have "e_source st' = e_source st \<and> (e_target st' = e_target st \<or> e_target st' = t) \<and> e_cancel st' = e_cancel st
        \<and> (\<exists>m m'. errors (e_result st') = errors (e_result st) @ [m, m'])"
      using R by (cases r) (auto simp: st'_def conflict_task_def Let_def split: option.splits)
    then show ?thesis using tgt assms(1) by (auto simp: touches_def both_valid_def intro!: growsI)
  next
    case True
    then obtain info where info: "env_tmp_error env ?p = None" "r = Inr info" by blast
    obtain w t1 where W: "p_write_file_from_path tapi t aside (rf_content info) = (w, t1)" by fastforce
    have t1: "tvalid t1 \<and> (\<forall>q. q \<noteq> aside \<longrightarrow> tcont t1 q = tcont (e_target st) q) \<and> (w = Inr () \<longrightarrow> tcont t1 aside = tcont (e_target st) ?p)"
      using target.write_ok [OF _ assms(4) W] tgt info(2) by simp
    show ?thesis
    proof (cases w)
      case (Inl e)
      then have "e_source st' = e_source st \<and> e_target st' = t1 \<and> e_cancel st' = e_cancel st
          \<and> (\<exists>m m'. errors (e_result st') = errors (e_result st) @ [m, m'])"
        using R W info by (simp add: st'_def conflict_task_def Let_def aside_def)
      then show ?thesis using t1 assms(1,5) by (auto simp: touches_def both_valid_def intro!: growsI)
    next
      case (Inr u)
      obtain b st2 where O: "overwrite_with_source env sapi tapi rule_id c (st\<lparr>e_target := t1\<rparr>) = (b, st2)" by fastforce
      have st': "st' = (if b then st2 else push_error (''conflict unresolved: '' @ ?p) st2)"
        using R W info Inr O by (simp add: st'_def conflict_task_def Let_def aside_def)
      have "both_valid (st\<lparr>e_target := t1\<rparr>)" using assms(1) t1 by (simp add: both_valid_def)
      note ow = overwrite_step [OF this assms(2) O]
      have keep: "tcont (e_target st2) aside = tcont (e_target st) ?p"
        using ow t1 Inr assms(5) by (simp add: touches_def)
      have "touches {?p, aside} {} st st2"
        using ow t1 by (auto simp: touches_def grows_def calm_def)
      then have "touches {?p, aside} {} st st'"
        using grows_trans [OF _ push_error_grows] by (auto simp: st' touches_def)
      then show ?thesis using keep ow by (auto simp: st')
    qed
  qed
  then show "touches {?p, aside} {} st st'"
    "tcont (e_target st') ?p = tcont (e_target st) ?p \<or> tcont (e_target st') aside = tcont (e_target st) ?p"
    "errors (e_result st') = [] \<Longrightarrow> tcont (e_target st') aside = tcont (e_target st) ?p \<and> tcont (e_target st') ?p = scont (e_source st) ?p"
    by blast+
qed

end

section \<open>A whole run\<close>

text \<open>The plans the planner makes: plain paths, no path twice, and deletions only of files that
  are there.\<close>

definition conflict_paths :: "nat \<Rightarrow> sync_actions \<Rightarrow> string set" where
  "conflict_paths t acts = (\<Union>c\<in>set (conflicts acts). {conflict_path_of c, make_conflict_path (conflict_path_of c) t})"

definition plan_ok :: "sync_actions \<Rightarrow> bool" where
  "plan_ok acts \<longleftrightarrow>
     (\<forall>p\<in>set (to_create_directories acts) \<union> relative_path ` set (to_download acts) \<union> relative_path ` set (to_upload acts)
        \<union> set (to_delete acts) \<union> conflict_path_of ` set (conflicts acts). plain_path p)
     \<and> distinct (map relative_path (to_download acts)) \<and> distinct (map relative_path (to_upload acts)) \<and> distinct (to_delete acts)
     \<and> relative_path ` set (to_download acts) \<inter> relative_path ` set (to_upload acts) = {}
     \<and> relative_path ` set (to_download acts) \<inter> set (to_delete acts) = {}"

definition schedule_ok :: "sync_orders \<Rightarrow> bool" where
  "schedule_ok ord \<longleftrightarrow> (\<forall>xs. mset (schedule ord xs) = mset xs)"

lemma schedule_props:
  assumes "schedule_ok ord"
  shows "set (schedule ord xs) = set xs" "distinct (map g (schedule ord xs)) \<longleftrightarrow> distinct (map g xs)"
proof -
  have m: "mset (schedule ord xs) = mset xs" using assms by (simp add: schedule_ok_def)
  then show "set (schedule ord xs) = set xs" by (rule mset_eq_setD)
  have "mset (map g (schedule ord xs)) = mset (map g xs)" using m by simp
  then show "distinct (map g (schedule ord xs)) \<longleftrightarrow> distinct (map g xs)" by (rule mset_eq_imp_distinct_iff)
qed

context sync_pair
begin

lemma downloads_phase:
  fixes env rule_id
  assumes "both_valid st" "\<forall>f\<in>set fs. plain_path (relative_path f)" "distinct (map relative_path fs)"
  defines "st' \<equiv> fold (download_task env sapi tapi rule_id) fs st"
  shows "touches (relative_path ` set fs) {} st st' \<and> (calm st \<longrightarrow> errors (e_result st') = [] \<longrightarrow>
    (\<forall>f\<in>set fs. tcont (e_target st') (relative_path f) = scont (e_source st) (relative_path f)))"
proof -
  let ?src = "scont (e_source st)"
  have inj: "inj_on relative_path (set fs)" and d: "distinct fs" using assms(3) by (auto simp: distinct_map)
  have nin: "relative_path f \<notin> (\<Union>g\<in>set fs - {f}. {relative_path g})" if "f \<in> set fs" for f
    using inj that by (auto simp: inj_on_def)
  have "touches (\<Union>f\<in>set fs. {relative_path f}) (\<Union>f\<in>set fs. {}) st st' \<and> (calm st \<longrightarrow> errors (e_result st') = [] \<longrightarrow>
    (\<forall>f\<in>set fs. tcont (e_target st') (relative_path f) = ?src (relative_path f)))"
    unfolding st'_def
  proof (rule phase [where Pre = "\<lambda>f s. scont (e_source s) (relative_path f) = ?src (relative_path f)"])
    fix f s s'
    assume "f \<in> set fs" "touches (\<Union>g\<in>set fs - {f}. {relative_path g}) (\<Union>g\<in>set fs - {f}. {}) s s'"
    then show "(scont (e_source s) (relative_path f) = ?src (relative_path f) \<longrightarrow> scont (e_source s') (relative_path f) = ?src (relative_path f))
        \<and> (tcont (e_target s) (relative_path f) = ?src (relative_path f) \<longrightarrow> tcont (e_target s') (relative_path f) = ?src (relative_path f))"
      using nin [of f] by (simp add: touches_def)
  qed (use assms(1,2) d download_step in auto)
  then show ?thesis by (simp add: UNION_singleton_eq_range)
qed

lemma uploads_phase:
  fixes env rule_id
  assumes "both_valid st" "\<forall>f\<in>set fs. plain_path (relative_path f)" "distinct (map relative_path fs)"
  defines "st' \<equiv> fold (upload_task env sapi tapi rule_id) fs st"
  shows "touches {} (relative_path ` set fs) st st' \<and> (calm st \<longrightarrow> errors (e_result st') = [] \<longrightarrow>
    (\<forall>f\<in>set fs. scont (e_source st') (relative_path f) = tcont (e_target st) (relative_path f)))"
proof -
  let ?tgt = "tcont (e_target st)"
  have inj: "inj_on relative_path (set fs)" and d: "distinct fs" using assms(3) by (auto simp: distinct_map)
  have nin: "relative_path f \<notin> (\<Union>g\<in>set fs - {f}. {relative_path g})" if "f \<in> set fs" for f
    using inj that by (auto simp: inj_on_def)
  have "touches (\<Union>f\<in>set fs. {}) (\<Union>f\<in>set fs. {relative_path f}) st st' \<and> (calm st \<longrightarrow> errors (e_result st') = [] \<longrightarrow>
    (\<forall>f\<in>set fs. scont (e_source st') (relative_path f) = ?tgt (relative_path f)))"
    unfolding st'_def
  proof (rule phase [where Pre = "\<lambda>f s. tcont (e_target s) (relative_path f) = ?tgt (relative_path f)"])
    fix f s s'
    assume "f \<in> set fs" "touches (\<Union>g\<in>set fs - {f}. {}) (\<Union>g\<in>set fs - {f}. {relative_path g}) s s'"
    then show "(tcont (e_target s) (relative_path f) = ?tgt (relative_path f) \<longrightarrow> tcont (e_target s') (relative_path f) = ?tgt (relative_path f))
        \<and> (scont (e_source s) (relative_path f) = ?tgt (relative_path f) \<longrightarrow> scont (e_source s') (relative_path f) = ?tgt (relative_path f))"
      using nin [of f] by (simp add: touches_def)
  qed (use assms(1,2) d upload_step in auto)
  then show ?thesis by (simp add: UNION_singleton_eq_range)
qed

lemma asking_step: "touches P Q (snd (ask_cancel st)) (task x (snd (ask_cancel st))) \<Longrightarrow> touches P Q st (asking task x st)"
  using grows_trans [OF ask_cancel_grows] by (auto simp: touches_def asking_def)

lemma both_valid_ask [simp]: "both_valid (snd (ask_cancel st)) = both_valid st"
  by (simp add: both_valid_def)

lemma deletes_phase:
  fixes env rule_id tr
  assumes "both_valid st" "\<forall>p\<in>set ps. plain_path p \<and> tcont (e_target st) p \<noteq> None" "distinct ps"
  defines "st' \<equiv> fold (asking (delete_task env tapi rule_id tr)) ps st"
  shows "touches (set ps) {} st st' \<and> (calm st \<longrightarrow> errors (e_result st') = [] \<longrightarrow> (\<forall>p\<in>set ps. tcont (e_target st') p = None))"
proof -
  let ?del = "asking (delete_task env tapi rule_id tr)"
  have step: "touches {p} {} s (?del p s) \<and> (calm s \<longrightarrow> errors (e_result (?del p s)) = [] \<longrightarrow> tcont (e_target (?del p s)) p = None)"
    if "both_valid s" "plain_path p" "tcont (e_target s) p \<noteq> None" for p s
  proof -
    have "both_valid (snd (ask_cancel s))" "tcont (e_target (snd (ask_cancel s))) p \<noteq> None" using that by simp_all
    from delete_step [OF this(1) that(2) this(2), of env rule_id tr]
    show ?thesis using asking_step [of "{p}" "{}" s "delete_task env tapi rule_id tr" p] unfolding asking_def by blast
  qed
  have "touches (\<Union>p\<in>set ps. {p}) (\<Union>p\<in>set ps. {}) st st' \<and> (calm st \<longrightarrow> errors (e_result st') = [] \<longrightarrow>
    (\<forall>p\<in>set ps. tcont (e_target st') p = None))"
    unfolding st'_def
    by (rule phase [where Pre = "\<lambda>p s. tcont (e_target s) p \<noteq> None"]) (use assms(1-3) step in \<open>auto simp: touches_def\<close>)
  then show ?thesis by simp
qed

lemma mkdirs_phase:
  assumes "both_valid st" "\<forall>p\<in>set ps. plain_path p"
  shows "touches {} {} st (fold (asking (mkdir_task tapi)) ps st)"
  using assms
proof (induction ps arbitrary: st)
  case (Cons p ps)
  have "touches {} {} st (asking (mkdir_task tapi) p st)"
    by (rule asking_step, rule mkdir_step) (use Cons.prems in simp_all)
  from touches_trans [OF this Cons.IH [OF touches_valid [OF this]]] Cons.prems(2) show ?case by simp
qed (simp add: touches_refl)

lemma conflicts_phase:
  assumes "both_valid st" "\<forall>c\<in>set cs. plain_path (conflict_path_of c)"
  shows "touches (\<Union>c\<in>set cs. {conflict_path_of c, make_conflict_path (conflict_path_of c) (env_now env)}) {} st
    (fold (asking (conflict_task env sapi tapi rule_id)) cs st)"
  using assms
proof (induction cs arbitrary: st)
  case (Cons c cs)
  have "touches {conflict_path_of c, make_conflict_path (conflict_path_of c) (env_now env)} {} st
      (asking (conflict_task env sapi tapi rule_id) c st)"
    by (rule asking_step, rule conflict_step(1)) (use Cons.prems make_conflict_path_plain in simp_all)
  from touches_trans [OF this Cons.IH [OF touches_valid [OF this]]] Cons.prems(2) show ?case by simp
qed (simp add: touches_refl)

end

lemma mkdir_grows: "grows st (mkdir_task tapi dir st)"
  by (rule mkdir_effect(1))

lemma delete_grows: "grows st (delete_task env tapi rule_id tr path st)"
  using delete_effect(1) by (metis surj_pair)

lemma conflict_grows: "grows st (conflict_task env sapi tapi rule_id c st)"
proof -
  have ow: "grows st (snd (overwrite_with_source env sapi tapi rule_id c st))" for st
    unfolding overwrite_with_source_def Let_def
    by (auto split: option.splits prod.splits sum.splits intro!: grows_trans [OF _ push_error_grows] growsI [of _ _ "[]"] simp: add_bytes_def)
  have "grows st (snd (overwrite_with_source env sapi tapi rule_id c (st\<lparr>e_target := t\<rparr>)))" for t
    by (rule grows_trans [OF grows_target ow])
  then show ?thesis
    unfolding conflict_task_def Let_def
    by (auto split: option.splits prod.splits sum.splits intro!: grows_trans [OF _ push_error_grows])
qed

text \<open>Under a calm token the phases simply follow one another.\<close>

lemma execute_plan_calm:
  fixes env ord sapi tapi mode rule_id acts
  assumes "calm st"
  defines "st1 \<equiv> snd (ask_cancel (fold (asking (mkdir_task tapi)) (to_create_directories acts) st))"
  defines "st2 \<equiv> snd (ask_cancel (fold (download_task env sapi tapi rule_id) (schedule ord (to_download acts)) st1))"
  defines "st3 \<equiv> snd (ask_cancel (fold (upload_task env sapi tapi rule_id) (schedule ord (to_upload acts)) st2))"
  defines "st4 \<equiv> snd (ask_cancel (fold (asking (delete_task env tapi rule_id (mode = Trash))) (to_delete acts) st3))"
  defines "st5 \<equiv> fold (asking (conflict_task env sapi tapi rule_id)) (conflicts acts) st4"
  shows "execute_plan env ord sapi tapi mode rule_id acts st = (Inr (e_result st5), st5)
    \<and> calm st1 \<and> calm st2 \<and> calm st3 \<and> calm st4"
proof -
  have ask: "calm s \<Longrightarrow> calm (snd (ask_cancel s))" for s :: "('a, 'b) engine"
    using ask_cancel_grows grows_calm by blast
  have fold: "calm s \<Longrightarrow> (\<And>x s. grows s (t x s)) \<Longrightarrow> calm (fold t xs s)" for t xs and s :: "('a, 'b) engine"
    using fold_grows grows_calm by metis
  have asking: "(\<And>x s. grows s (t x s)) \<Longrightarrow> grows s (asking t x s)" for t x and s :: "('a, 'b) engine"
    unfolding asking_def by (rule grows_trans [OF ask_cancel_grows])
  note g = mkdir_grows download_grows upload_grows delete_grows conflict_grows
  have c0: "calm (fold (asking (mkdir_task tapi)) (to_create_directories acts) st)"
    by (rule fold [OF assms(1)]) (rule asking [OF g(1)])
  have c1: "calm st1" unfolding st1_def by (rule ask [OF c0])
  have c1': "calm (fold (download_task env sapi tapi rule_id) (schedule ord (to_download acts)) st1)"
    by (rule fold [OF c1]) (rule g(2))
  have c2: "calm st2" unfolding st2_def by (rule ask [OF c1'])
  have c2': "calm (fold (upload_task env sapi tapi rule_id) (schedule ord (to_upload acts)) st2)"
    by (rule fold [OF c2]) (rule g(3))
  have c3: "calm st3" unfolding st3_def by (rule ask [OF c2'])
  have c3': "calm (fold (asking (delete_task env tapi rule_id (mode = Trash))) (to_delete acts) st3)"
    by (rule fold [OF c3]) (rule asking [OF g(4)])
  have c4: "calm st4" unfolding st4_def by (rule ask [OF c3'])
  have e0: "cancellable (mkdir_task tapi) (to_create_directories acts) st
      = (Inr (), fold (asking (mkdir_task tapi)) (to_create_directories acts) st)"
    by (rule cancellable_fold [OF g(1) assms(1)])
  have e3: "cancellable (delete_task env tapi rule_id (mode = Trash)) (to_delete acts) st3
      = (Inr (), fold (asking (delete_task env tapi rule_id (mode = Trash))) (to_delete acts) st3)"
    by (rule cancellable_fold [OF g(4) c3])
  have e4: "cancellable (conflict_task env sapi tapi rule_id) (conflicts acts) st4 = (Inr (), st5)"
    unfolding st5_def by (rule cancellable_fold [OF g(5) c4])
  have "execute_plan env ord sapi tapi mode rule_id acts st = (Inr (e_result st5), st5)"
    unfolding execute_plan_def
    by (simp add: e0 check_cancel_calm c0 c1' c2' c3' Let_def st1_def [symmetric] st2_def [symmetric] st3_def [symmetric]
        e3 st4_def [symmetric] e4)
  then show ?thesis using c1 c2 c3 c4 by blast
qed

context sync_pair
begin

lemma touches_errors: "touches P Q (snd (ask_cancel a)) st' \<Longrightarrow> errors (e_result st') = [] \<Longrightarrow> errors (e_result a) = []"
  unfolding touches_def using grows_errors [of "snd (ask_cancel a)" st'] by simp

lemma run_effect:
  assumes "both_valid st" "calm st" "schedule_ok ord" "plan_ok acts"
    and "\<forall>p\<in>set (to_delete acts). tcont (e_target st) p \<noteq> None"
    and "execute_plan env ord sapi tapi mode rule_id acts st = (Inr res, st')" "errors res = []"
  shows "both_valid st'"
    and "scont (e_source st') q = (if q \<in> relative_path ` set (to_upload acts) then tcont (e_target st) q else scont (e_source st) q)"
    and "q \<notin> conflict_paths (env_now env) acts \<Longrightarrow> tcont (e_target st') q =
      (if q \<in> relative_path ` set (to_download acts) then scont (e_source st) q
       else if q \<in> set (to_delete acts) then None else tcont (e_target st) q)"
proof -
  define a0 where "a0 = fold (asking (mkdir_task tapi)) (to_create_directories acts) st"
  define st1 where "st1 = snd (ask_cancel a0)"
  define a1 where "a1 = fold (download_task env sapi tapi rule_id) (schedule ord (to_download acts)) st1"
  define st2 where "st2 = snd (ask_cancel a1)"
  define a2 where "a2 = fold (upload_task env sapi tapi rule_id) (schedule ord (to_upload acts)) st2"
  define st3 where "st3 = snd (ask_cancel a2)"
  define a3 where "a3 = fold (asking (delete_task env tapi rule_id (mode = Trash))) (to_delete acts) st3"
  define st4 where "st4 = snd (ask_cancel a3)"
  have run: "execute_plan env ord sapi tapi mode rule_id acts st = (Inr (e_result (fold (asking (conflict_task env sapi tapi rule_id))
      (conflicts acts) st4)), fold (asking (conflict_task env sapi tapi rule_id)) (conflicts acts) st4)"
    "calm st1" "calm st2" "calm st3" "calm st4"
    using execute_plan_calm [OF assms(2), where tapi = tapi and acts = acts and env = env and sapi = sapi and rule_id = rule_id
      and ord = ord and mode = mode, folded a0_def, folded st1_def, folded a1_def, folded st2_def, folded a2_def, folded st3_def,
      folded a3_def, folded st4_def] by blast+
  note plan = assms(4) [unfolded plan_ok_def]
  note sched = schedule_props [OF assms(3)]
  have st': "st' = fold (asking (conflict_task env sapi tapi rule_id)) (conflicts acts) st4" "errors (e_result st') = []"
    using run(1) assms(6,7) by auto
  have 0: "touches {} {} st a0" unfolding a0_def by (rule mkdirs_phase) (use assms(1) plan in auto)
  have v1: "both_valid st1" using touches_valid [OF 0] by (simp add: st1_def)
  have 1: "touches (relative_path ` set (to_download acts)) {} st1 a1 \<and> (errors (e_result a1) = [] \<longrightarrow>
      (\<forall>f\<in>set (to_download acts). tcont (e_target a1) (relative_path f) = scont (e_source st1) (relative_path f)))"
    using downloads_phase [OF v1, of "schedule ord (to_download acts)" env rule_id] plan run(2) by (simp add: sched a1_def)
  then have v2: "both_valid st2" unfolding st2_def both_valid_ask by (blast intro: touches_valid)
  have 2: "touches {} (relative_path ` set (to_upload acts)) st2 a2 \<and> (errors (e_result a2) = [] \<longrightarrow>
      (\<forall>f\<in>set (to_upload acts). scont (e_source a2) (relative_path f) = tcont (e_target st2) (relative_path f)))"
    using uploads_phase [OF v2, of "schedule ord (to_upload acts)" env rule_id] plan run(3) by (simp add: sched a2_def)
  then have v3: "both_valid st3" unfolding st3_def both_valid_ask by (blast intro: touches_valid)
  have t3: "tcont (e_target st3) p = (if p \<in> relative_path ` set (to_download acts) then tcont (e_target a1) p else tcont (e_target st) p)" for p
    using 0 1 2 by (auto simp: touches_def st3_def st2_def st1_def)
  have "\<forall>p\<in>set (to_delete acts). plain_path p \<and> tcont (e_target st3) p \<noteq> None"
    using plan assms(5) by (auto simp: t3)
  from deletes_phase [OF v3 this, of env rule_id "mode = Trash", folded a3_def] plan run(4)
  have 3: "touches (set (to_delete acts)) {} st3 a3 \<and> (errors (e_result a3) = [] \<longrightarrow> (\<forall>p\<in>set (to_delete acts). tcont (e_target a3) p = None))"
    by blast
  then have v4: "both_valid st4" unfolding st4_def both_valid_ask by (blast intro: touches_valid)
  have 4: "touches (conflict_paths (env_now env) acts) {} st4 st'"
    unfolding st'(1) conflict_paths_def by (rule conflicts_phase [OF v4]) (use plan in auto)
  have "errors (e_result a3) = []" using touches_errors [OF 4 [unfolded st4_def] st'(2)] .
  moreover from this have "errors (e_result a2) = []" using touches_errors conjunct1 [OF 3] unfolding st3_def by blast
  moreover from this have "errors (e_result a1) = []" using touches_errors conjunct1 [OF 2] unfolding st2_def by blast
  ultimately have fx: "\<forall>f\<in>set (to_download acts). tcont (e_target a1) (relative_path f) = scont (e_source st1) (relative_path f)"
    "\<forall>f\<in>set (to_upload acts). scont (e_source a2) (relative_path f) = tcont (e_target st2) (relative_path f)"
    "\<forall>p\<in>set (to_delete acts). tcont (e_target a3) p = None"
    using 1 2 3 by auto
  have s1: "scont (e_source st1) = scont (e_source st)" using 0 by (auto simp: touches_def st1_def)
  show "both_valid st'" by (rule touches_valid [OF 4])
  show "scont (e_source st') q = (if q \<in> relative_path ` set (to_upload acts) then tcont (e_target st) q else scont (e_source st) q)"
  proof -
    have "scont (e_source st') q = scont (e_source a2) q" using 3 4 by (simp add: touches_def st4_def st3_def)
    moreover have "q \<notin> relative_path ` set (to_upload acts) \<Longrightarrow> scont (e_source a2) q = scont (e_source st) q"
      using 0 1 2 by (simp add: touches_def st1_def st2_def)
    moreover have "tcont (e_target st2) q = tcont (e_target st) q" if "q \<in> relative_path ` set (to_upload acts)"
    proof -
      have "q \<notin> relative_path ` set (to_download acts)" using that plan by blast
      then show ?thesis using 0 1 by (simp add: touches_def st1_def st2_def)
    qed
    ultimately show ?thesis using fx(2) by auto
  qed
  show "tcont (e_target st') q =
      (if q \<in> relative_path ` set (to_download acts) then scont (e_source st) q
       else if q \<in> set (to_delete acts) then None else tcont (e_target st) q)" if "q \<notin> conflict_paths (env_now env) acts"
  proof -
    have "tcont (e_target st') q = tcont (e_target a3) q" using 4 that by (simp add: touches_def st4_def)
    moreover have "q \<notin> set (to_delete acts) \<Longrightarrow> tcont (e_target a3) q = tcont (e_target st3) q" using 3 by (simp add: touches_def)
    ultimately show ?thesis using fx(1,3) t3 [of q] s1 plan by auto
  qed
qed

end

text \<open>A run is the plan of the two manifests, executed on the states after the scans.\<close>

lemma execute_sync_calm:
  assumes "calm st" "execute_sync env ord sapi tapi direction mode rule_id st = (Inr res, st')"
  obtains src s tgt t st0 where "p_manifest sapi (e_source st) = (Inr src, s)" "p_manifest tapi (e_target st) = (Inr tgt, t)"
    "e_source st0 = s" "e_target st0 = t" "calm st0"
    "execute_plan env ord sapi tapi mode rule_id (plan ord sapi tapi src tgt direction mode) st0 = (Inr res, st')"
proof -
  define a0 where "a0 = snd (ask_cancel (st\<lparr>e_result := empty_result\<rparr>))"
  have calm: "calm a \<Longrightarrow> calm (snd (ask_cancel a))" for a :: "('a, 'b) engine"
    using ask_cancel_grows grows_calm by blast
  have c0: "calm (st\<lparr>e_result := empty_result\<rparr>)" using assms(1) by (simp add: calm_def)
  then have ca0: "calm a0" unfolding a0_def by (rule calm)
  obtain rs s where S: "p_manifest sapi (e_source st) = (rs, s)" by fastforce
  obtain rt t where T: "p_manifest tapi (e_target st) = (rt, t)" by fastforce
  have a0: "e_source a0 = e_source st" "e_target a0 = e_target st" by (simp_all add: a0_def)
  have 0: "execute_sync env ord sapi tapi direction mode rule_id st = (case p_manifest sapi (e_source a0) of
         (Inl e, s) \<Rightarrow> (Inl (SourceUnavailable e), a0\<lparr>e_source := s\<rparr>)
       | (Inr source_manifest, s) \<Rightarrow> check_cancel (a0\<lparr>e_source := s\<rparr>) (\<lambda>st.
           case p_manifest tapi (e_target st) of
             (Inl e, t) \<Rightarrow> (Inl (TargetUnavailable e), st\<lparr>e_target := t\<rparr>)
           | (Inr target_manifest, t) \<Rightarrow> check_cancel (st\<lparr>e_target := t\<rparr>) (\<lambda>st.
               execute_plan env ord sapi tapi mode rule_id
                 (plan ord sapi tapi source_manifest target_manifest direction mode) st)))"
    unfolding execute_sync_def check_cancel_calm [OF c0] a0_def ..
  obtain src where src: "rs = Inr src" using assms(2) S by (cases rs) (auto simp: 0 a0)
  define a1 where "a1 = snd (ask_cancel (a0\<lparr>e_source := s\<rparr>))"
  have c1: "calm (a0\<lparr>e_source := s\<rparr>)" using ca0 by (simp add: calm_def)
  then have ca1: "calm a1" unfolding a1_def by (rule calm)
  have a1: "e_source a1 = s" "e_target a1 = e_target st" by (simp_all add: a1_def a0)
  have 1: "(case p_manifest tapi (e_target a1) of
             (Inl e, t) \<Rightarrow> (Inl (TargetUnavailable e), a1\<lparr>e_target := t\<rparr>)
           | (Inr target_manifest, t) \<Rightarrow> check_cancel (a1\<lparr>e_target := t\<rparr>) (\<lambda>st.
               execute_plan env ord sapi tapi mode rule_id
                 (plan ord sapi tapi src target_manifest direction mode) st)) = (Inr res, st')"
    using assms(2) unfolding 0 a0 S src prod.case sum.case check_cancel_calm [OF c1] a1_def [symmetric] .
  obtain tgt where tgt: "rt = Inr tgt" using 1 T by (cases rt) (auto simp: a1)
  define a2 where "a2 = snd (ask_cancel (a1\<lparr>e_target := t\<rparr>))"
  have c2: "calm (a1\<lparr>e_target := t\<rparr>)" using ca1 by (simp add: calm_def)
  then have ca2: "calm a2" unfolding a2_def by (rule calm)
  have "execute_plan env ord sapi tapi mode rule_id (plan ord sapi tapi src tgt direction mode) a2 = (Inr res, st')"
    using 1 by (simp add: a1 T tgt check_cancel_calm [OF c2] a2_def [symmetric])
  then show ?thesis using that [of src s tgt t a2] S T src tgt ca2 by (simp add: a2_def a1)
qed

lemma plan_sel:
  fixes ord sapi tapi src tgt direction mode
  defines "acts \<equiv> compute_sync_actions (source_order ord) (target_order ord) src tgt direction mode"
  shows "to_download (plan ord sapi tapi src tgt direction mode) = to_download acts"
    "to_upload (plan ord sapi tapi src tgt direction mode) = to_upload acts"
    "to_delete (plan ord sapi tapi src tgt direction mode) = to_delete acts"
    "conflicts (plan ord sapi tapi src tgt direction mode) = conflicts acts"
    "set (to_create_directories (plan ord sapi tapi src tgt direction mode)) \<subseteq> set (to_create_directories acts)"
  by (simp_all add: plan_def acts_def Let_def)

lemma manifest_at_set: "manifest_at m p = Some f \<Longrightarrow> f \<in> set m \<and> p = relative_path f"
  using map_of_SomeD by (fastforce simp: manifest_at_def)

definition orders_ok :: "sync_orders \<Rightarrow> bool" where
  "orders_ok ord \<longleftrightarrow> order_ok (source_order ord) \<and> order_ok (target_order ord) \<and> schedule_ok ord"

text \<open>The path is a source file that the target lacks or has differently; a target file that the
  source does not list.\<close>

definition to_copy :: "file_state list \<Rightarrow> file_state list \<Rightarrow> string \<Rightarrow> bool" where
  "to_copy src tgt q \<longleftrightarrow> (\<exists>f. manifest_at src q = Some f \<and> \<not> is_directory f
     \<and> (case manifest_at tgt q of None \<Rightarrow> True | Some g \<Rightarrow> \<not> files_equal f g))"

definition to_remove :: "file_state list \<Rightarrow> file_state list \<Rightarrow> string \<Rightarrow> bool" where
  "to_remove src tgt q \<longleftrightarrow> manifest_at src q = None \<and> (\<exists>g. manifest_at tgt q = Some g \<and> \<not> is_directory g)"

lemma one_way_run_plan:
  fixes sapi tapi src tgt mode
  assumes "orders_ok ord"
  defines "acts \<equiv> plan ord sapi tapi src tgt OneWay mode"
  shows "relative_path ` set (to_download acts) = {q. to_copy src tgt q}"
    "set (to_delete acts) = {q. mode \<noteq> Ignore \<and> to_remove src tgt q}"
    "to_upload acts = []" "conflicts acts = []"
    "(\<And>f. f \<in> set src \<union> set tgt \<Longrightarrow> plain_path (relative_path f)) \<Longrightarrow> plan_ok acts"
proof -
  let ?a = "compute_sync_actions (source_order ord) (target_order ord) src tgt OneWay mode"
  have o: "order_ok (source_order ord)" "order_ok (target_order ord)" using assms by (simp_all add: orders_ok_def)
  note p = one_way_plan [OF o, of src tgt mode]
  note sel = plan_sel [where ord = ord and sapi = sapi and tapi = tapi and src = src and tgt = tgt and mode = mode and direction = OneWay]
  have at: "manifest_at src q = Some f \<Longrightarrow> relative_path f = q" for q f using manifest_at_set by metis
  show d: "relative_path ` set (to_download acts) = {q. to_copy src tgt q}"
    unfolding acts_def sel
  proof (rule set_eqI)
    fix q
    have "q \<in> relative_path ` set (to_download ?a) \<longleftrightarrow> (\<exists>f. q = relative_path f \<and> manifest_at src (relative_path f) = Some f
        \<and> \<not> is_directory f \<and> (case manifest_at tgt (relative_path f) of None \<Rightarrow> True | Some t \<Rightarrow> \<not> files_equal f t))"
      using p by (auto simp: image_iff)
    then show "q \<in> relative_path ` set (to_download ?a) \<longleftrightarrow> q \<in> {q. to_copy src tgt q}"
      unfolding to_copy_def mem_Collect_eq using at by metis
  qed
  show x: "set (to_delete acts) = {q. mode \<noteq> Ignore \<and> to_remove src tgt q}"
    using p by (auto simp: acts_def sel to_remove_def)
  show "to_upload acts = []" "conflicts acts = []" using p by (simp_all add: acts_def sel)
  show "plan_ok acts" if pl: "\<And>f. f \<in> set src \<union> set tgt \<Longrightarrow> plain_path (relative_path f)"
  proof -
    have at': "manifest_at m q = Some f \<Longrightarrow> m = src \<or> m = tgt \<Longrightarrow> plain_path q" for m q f
      using manifest_at_set pl by (metis UnCI)
    have "\<forall>q\<in>set (to_create_directories acts). plain_path q"
      using p sel(5) at' unfolding acts_def by (metis subsetD)
    moreover have "\<forall>q\<in>relative_path ` set (to_download acts). plain_path q" unfolding d by (auto simp: to_copy_def intro: at')
    moreover have "\<forall>q\<in>set (to_delete acts). plain_path q" unfolding x by (auto simp: to_remove_def intro: at')
    moreover have "relative_path ` set (to_download acts) \<inter> set (to_delete acts) = {}"
      unfolding d x by (auto simp: to_copy_def to_remove_def)
    ultimately show ?thesis using p unfolding plan_ok_def acts_def by (auto simp: sel)
  qed
qed

context sync_pair
begin

lemma one_way_effect:
  assumes "svalid (e_source st)" "tvalid (e_target st)" "calm st" "orders_ok ord"
    and "execute_sync env ord sapi tapi OneWay mode rule_id st = (Inr res, st')" "errors res = []"
  obtains src tgt where "fst (p_manifest sapi (e_source st)) = Inr src" "fst (p_manifest tapi (e_target st)) = Inr tgt"
    "svalid (e_source st')" "tvalid (e_target st')" "scont (e_source st') = scont (e_source st)"
    "tcont (e_target st') = (\<lambda>q. if to_copy src tgt q then scont (e_source st) q
       else if mode \<noteq> Ignore \<and> to_remove src tgt q then None else tcont (e_target st) q)"
proof -
  obtain src s tgt t st0 where S: "p_manifest sapi (e_source st) = (Inr src, s)" and T: "p_manifest tapi (e_target st) = (Inr tgt, t)"
    and st0: "e_source st0 = s" "e_target st0 = t" "calm st0"
    and run: "execute_plan env ord sapi tapi mode rule_id (plan ord sapi tapi src tgt OneWay mode) st0 = (Inr res, st')"
    by (rule execute_sync_calm [OF assms(3,5)])
  let ?acts = "plan ord sapi tapi src tgt OneWay mode"
  note sm = source.manifest_ok [OF assms(1) S] and tm = target.manifest_ok [OF assms(2) T]
  note sf = source.manifest_files [OF assms(1) S] and tf = target.manifest_files [OF assms(2) T]
  note pl = one_way_run_plan [OF assms(4), where sapi = sapi and tapi = tapi and src = src and tgt = tgt and mode = mode]
  have v: "both_valid st0" using sm tm st0 by (simp add: both_valid_def)
  have ok: "plan_ok ?acts" using one_way_run_plan(5) [OF assms(4)] sf tf by blast
  have del: "\<forall>p\<in>set (to_delete ?acts). tcont (e_target st0) p \<noteq> None"
    using tf tm st0 manifest_at_set unfolding one_way_run_plan(2) [OF assms(4)] to_remove_def by fastforce
  have "schedule_ok ord" using assms(4) by (simp add: orders_ok_def)
  note eff = run_effect [OF v st0(3) this ok del run assms(6)]
  have "scont (e_source st') = scont (e_source st)"
    using eff(2) sm st0 by (auto simp: one_way_run_plan(3) [OF assms(4)])
  moreover have "tcont (e_target st') q = (if to_copy src tgt q then scont (e_source st) q
       else if mode \<noteq> Ignore \<and> to_remove src tgt q then None else tcont (e_target st) q)" for q
    using eff(3) [of q] sm tm st0
    by (simp add: one_way_run_plan [OF assms(4)] conflict_paths_def)
  ultimately show ?thesis using that [of src tgt] S T eff(1) by (auto simp: both_valid_def)
qed

end

definition pulled :: "file_state list \<Rightarrow> file_state list \<Rightarrow> string \<Rightarrow> bool" where
  "pulled src tgt q \<longleftrightarrow> (\<exists>f. manifest_at src q = Some f \<and> \<not> is_directory f
     \<and> (case manifest_at tgt q of None \<Rightarrow> True | Some g \<Rightarrow> \<not> files_equal f g \<and> modified_at f > modified_at g))"

definition pushed :: "file_state list \<Rightarrow> file_state list \<Rightarrow> string \<Rightarrow> bool" where
  "pushed src tgt q \<longleftrightarrow> (\<exists>g. manifest_at tgt q = Some g
     \<and> (case manifest_at src q of None \<Rightarrow> \<not> is_directory g
        | Some f \<Rightarrow> \<not> is_directory f \<and> \<not> files_equal f g \<and> modified_at g > modified_at f))"

definition clashing :: "file_state list \<Rightarrow> file_state list \<Rightarrow> string \<Rightarrow> bool" where
  "clashing src tgt q \<longleftrightarrow> (\<exists>f g. manifest_at src q = Some f \<and> manifest_at tgt q = Some g \<and> \<not> is_directory f
     \<and> \<not> files_equal f g \<and> modified_at f = modified_at g)"

lemma two_way_dirs:
  assumes "order_ok so" "order_ok to" "p \<in> set (to_create_directories (compute_sync_actions so to src tgt TwoWay mode))"
  shows "\<exists>f. manifest_at src p = Some f \<or> manifest_at tgt p = Some f"
proof -
  have "p \<in> set (map fst (filter (needs_dir (collect_map to tgt)) (collect_map so src)))
      \<or> p \<in> set (map fst (filter (needs_dir (collect_map so src)) (collect_map to tgt)))"
    using assms(3) by (simp add: plan_simps fold_two_way_source fold_two_way_target del: set_map)
  then show ?thesis unfolding in_filter_fst [OF assms(1)] in_filter_fst [OF assms(2)] by blast
qed

lemma two_way_run_plan:
  fixes sapi tapi src tgt mode
  assumes "orders_ok ord"
  defines "acts \<equiv> plan ord sapi tapi src tgt TwoWay mode"
  shows "relative_path ` set (to_download acts) = {q. pulled src tgt q}"
    "relative_path ` set (to_upload acts) = {q. pushed src tgt q}"
    "conflict_path_of ` set (conflicts acts) = {q. clashing src tgt q}" "to_delete acts = []"
    "(\<And>f. f \<in> set src \<union> set tgt \<Longrightarrow> plain_path (relative_path f)) \<Longrightarrow> plan_ok acts"
proof -
  let ?a = "compute_sync_actions (source_order ord) (target_order ord) src tgt TwoWay mode"
  have o: "order_ok (source_order ord)" "order_ok (target_order ord)" using assms by (simp_all add: orders_ok_def)
  note p = two_way_plan [OF o, of src tgt mode]
  note pd = p [THEN conjunct1, rule_format] and pu = p [THEN conjunct2, THEN conjunct1, rule_format]
  note sel = plan_sel [where ord = ord and sapi = sapi and tapi = tapi and src = src and tgt = tgt and mode = mode and direction = TwoWay]
  have at: "manifest_at m q = Some f \<Longrightarrow> relative_path f = q" for m q f using manifest_at_set by metis
  show d: "relative_path ` set (to_download acts) = {q. pulled src tgt q}"
    unfolding acts_def sel
  proof (intro set_eqI iffI)
    fix q assume "q \<in> relative_path ` set (to_download ?a)"
    then obtain f where q: "q = relative_path f" and f: "f \<in> set (to_download ?a)" by blast
    show "q \<in> {q. pulled src tgt q}"
      using f unfolding pd q pulled_def mem_Collect_eq by (elim disjE exE conjE) (rule exI [of _ f], simp)+
  next
    fix q assume "q \<in> {q. pulled src tgt q}"
    then obtain f where f: "manifest_at src q = Some f" "\<not> is_directory f" "(case manifest_at tgt q of None \<Rightarrow> True
           | Some g \<Rightarrow> \<not> files_equal f g \<and> modified_at f > modified_at g)" by (auto simp: pulled_def)
    then have "relative_path f = q" using at by blast
    moreover from this have "f \<in> set (to_download ?a)" unfolding pd using f by (cases "manifest_at tgt q") auto
    ultimately show "q \<in> relative_path ` set (to_download ?a)" by blast
  qed
  show u: "relative_path ` set (to_upload acts) = {q. pushed src tgt q}"
    unfolding acts_def sel
  proof (intro set_eqI iffI)
    fix q assume "q \<in> relative_path ` set (to_upload ?a)"
    then obtain g where q: "q = relative_path g" and g: "g \<in> set (to_upload ?a)" by blast
    show "q \<in> {q. pushed src tgt q}"
      using g unfolding pu q pushed_def mem_Collect_eq by (elim disjE exE conjE) (rule exI [of _ g], simp)+
  next
    fix q assume "q \<in> {q. pushed src tgt q}"
    then obtain g where g: "manifest_at tgt q = Some g" "(case manifest_at src q of None \<Rightarrow> \<not> is_directory g
           | Some f \<Rightarrow> \<not> is_directory f \<and> \<not> files_equal f g \<and> modified_at g > modified_at f)" by (auto simp: pushed_def)
    then have "relative_path g = q" using at by blast
    moreover from this have "g \<in> set (to_upload ?a)" unfolding pu using g by (cases "manifest_at src q") auto
    ultimately show "q \<in> relative_path ` set (to_upload ?a)" by blast
  qed
  show c: "conflict_path_of ` set (conflicts acts) = {q. clashing src tgt q}"
  proof (intro set_eqI iffI)
    fix q assume "q \<in> conflict_path_of ` set (conflicts acts)"
    then show "q \<in> {q. clashing src tgt q}" using p by (auto simp: clashing_def acts_def sel)
  next
    fix q assume "q \<in> {q. clashing src tgt q}"
    then obtain f g where "manifest_at src q = Some f" "manifest_at tgt q = Some g" "\<not> is_directory f" "\<not> files_equal f g"
      "modified_at f = modified_at g" by (auto simp: clashing_def)
    then have "\<lparr>conflict_path_of = q, source_state = f, target_state = g\<rparr> \<in> set (conflicts acts)" using p by (simp add: acts_def sel)
    then show "q \<in> conflict_path_of ` set (conflicts acts)" by force
  qed
  show "to_delete acts = []" using p by (simp add: acts_def sel)
  show "plan_ok acts" if pl: "\<And>f. f \<in> set src \<union> set tgt \<Longrightarrow> plain_path (relative_path f)"
  proof -
    have at': "manifest_at m q = Some f \<Longrightarrow> m = src \<or> m = tgt \<Longrightarrow> plain_path q" for m q f
      using manifest_at_set pl by (metis UnCI)
    have "\<forall>q\<in>set (to_create_directories acts). plain_path q"
    proof
      fix q assume "q \<in> set (to_create_directories acts)"
      then have "q \<in> set (to_create_directories ?a)" using sel(5) unfolding acts_def by blast
      then obtain f where "manifest_at src q = Some f \<or> manifest_at tgt q = Some f" using two_way_dirs [OF o] by blast
      then show "plain_path q" using at' by blast
    qed
    moreover have "\<forall>q\<in>relative_path ` set (to_download acts). plain_path q" unfolding d by (auto simp: pulled_def intro: at')
    moreover have "\<forall>q\<in>relative_path ` set (to_upload acts). plain_path q" unfolding u by (auto simp: pushed_def intro: at')
    moreover have "\<forall>q\<in>conflict_path_of ` set (conflicts acts). plain_path q" unfolding c by (auto simp: clashing_def intro: at')
    ultimately show ?thesis using p unfolding plan_ok_def acts_def by (auto simp: sel)
  qed
qed

context sync_pair
begin

lemma two_way_effect:
  assumes "svalid (e_source st)" "tvalid (e_target st)" "calm st" "orders_ok ord"
    and "execute_sync env ord sapi tapi TwoWay mode rule_id st = (Inr res, st')" "errors res = []"
  obtains src tgt where "fst (p_manifest sapi (e_source st)) = Inr src" "fst (p_manifest tapi (e_target st)) = Inr tgt"
    "svalid (e_source st')" "tvalid (e_target st')"
    "\<And>q. scont (e_source st') q = (if pushed src tgt q then tcont (e_target st) q else scont (e_source st) q)"
    "\<And>q. \<forall>c. clashing src tgt c \<longrightarrow> q \<noteq> c \<and> q \<noteq> make_conflict_path c (env_now env) \<Longrightarrow>
       tcont (e_target st') q = (if pulled src tgt q then scont (e_source st) q else tcont (e_target st) q)"
proof -
  obtain src s tgt t st0 where S: "p_manifest sapi (e_source st) = (Inr src, s)" and T: "p_manifest tapi (e_target st) = (Inr tgt, t)"
    and st0: "e_source st0 = s" "e_target st0 = t" "calm st0"
    and run: "execute_plan env ord sapi tapi mode rule_id (plan ord sapi tapi src tgt TwoWay mode) st0 = (Inr res, st')"
    by (rule execute_sync_calm [OF assms(3,5)])
  let ?acts = "plan ord sapi tapi src tgt TwoWay mode"
  note sm = source.manifest_ok [OF assms(1) S] and tm = target.manifest_ok [OF assms(2) T]
  note sf = source.manifest_files [OF assms(1) S] and tf = target.manifest_files [OF assms(2) T]
  have v: "both_valid st0" using sm tm st0 by (simp add: both_valid_def)
  have ok: "plan_ok ?acts" using two_way_run_plan(5) [OF assms(4)] sf tf by blast
  have del: "\<forall>p\<in>set (to_delete ?acts). tcont (e_target st0) p \<noteq> None" by (simp add: two_way_run_plan(4) [OF assms(4)])
  have sch: "schedule_ok ord" using assms(4) by (simp add: orders_ok_def)
  note eff = run_effect [OF v st0(3) sch ok del run assms(6)]
  have cp: "conflict_paths (env_now env) ?acts = (\<Union>q\<in>{q. clashing src tgt q}. {q, make_conflict_path q (env_now env)})"
    unfolding conflict_paths_def two_way_run_plan(3) [OF assms(4), where sapi = sapi and tapi = tapi and mode = mode, symmetric] by blast
  have "scont (e_source st') q = (if pushed src tgt q then tcont (e_target st) q else scont (e_source st) q)" for q
    using eff(2) [of q] sm tm st0 by (simp add: two_way_run_plan(2) [OF assms(4)])
  moreover have "tcont (e_target st') q = (if pulled src tgt q then scont (e_source st) q else tcont (e_target st) q)"
    if "\<forall>c. clashing src tgt c \<longrightarrow> q \<noteq> c \<and> q \<noteq> make_conflict_path c (env_now env)" for q
    using eff(3) [of q] that sm tm st0 by (auto simp: two_way_run_plan(1,4) [OF assms(4)] cp)
  ultimately show ?thesis using that [of src tgt] S T eff(1) by (auto simp: both_valid_def)
qed

end

end
