(* ===== verification/PathValidation.thy ===== *)
theory PathValidation
  imports Prelude
begin

text \<open>
  \<open>filesystem/path_validation.rs\<close>: the traversal checks shared by the file sync, peer storage
  and extension code, on a Unix target (\<open>Path::components\<close> drops empty components and dots).
\<close>

datatype path_error = NullByte string | NotRelative string | Traversal string | EmptyPath

definition path_components :: "string \<Rightarrow> string list" where
  "path_components p = filter (\<lambda>c. c \<noteq> [] \<and> c \<noteq> ''.'') (split_on (CHR ''/'') p)"

definition reject_path_traversal :: "string \<Rightarrow> (path_error, unit) result" where
  "reject_path_traversal p =
     (if CHR 0x00 \<in> set p then Inl (NullByte p)
      else if starts_with p ''/'' then Inl (NotRelative p)
      else if ''..'' \<in> set (path_components p) then Inl (Traversal p)
      else Inr ())"

definition check_relative_path :: "string \<Rightarrow> (path_error, unit) result" where
  "check_relative_path p = (if p = [] then Inl EmptyPath else reject_path_traversal p)"

text \<open>Resolving the components of a path against a directory, the way the operating system
  does in a tree without symbolic links.\<close>

fun walk :: "string list \<Rightarrow> string list \<Rightarrow> string list" where
  "walk dir [] = dir"
| "walk dir (c # cs) = walk (if c = ''..'' then butlast dir else dir @ [c]) cs"

lemma walk_no_parent: "''..'' \<notin> set cs \<Longrightarrow> walk dir cs = dir @ cs"
  by (induction cs arbitrary: dir) auto

lemma check_relative_path_confines:
  assumes "check_relative_path p = Inr ()"
  shows "\<exists>rest. walk base (path_components p) = base @ rest \<and> ''..'' \<notin> set rest"
  using assms walk_no_parent [of "path_components p" base]
  by (auto simp: check_relative_path_def reject_path_traversal_def split: if_splits)

end
