(* ===== verification/FileSyncLocal.thy ===== *)
theory FileSyncLocal
  imports FileSyncEngine PathValidation "HOL-Library.AList"
begin

text \<open>
  \<open>file_sync/local_provider.rs\<close> and \<open>file_sync/hashing.rs\<close>: the provider for a local
  directory.  The directory is a tree without symbolic links; the base path itself may be
  given in a non-canonical form.  I/O failures, the clock, SHA-256 and the modification times
  of directories are fields of \<open>local_env\<close>.  The process-wide hash cache is part of the
  provider's state (its keys are absolute paths).
\<close>

section \<open>The directory tree\<close>

text \<open>A file has its bytes and its modification time in nanoseconds.\<close>

datatype node = File content nat | Dir "(string \<times> node) list"

fun lookup_node :: "node \<Rightarrow> string list \<Rightarrow> node option" where
  "lookup_node n [] = Some n"
| "lookup_node (File c t) (x # xs) = None"
| "lookup_node (Dir es) (x # xs) = (case map_of es x of None \<Rightarrow> None | Some n \<Rightarrow> lookup_node n xs)"

fun create_dir_all :: "node \<Rightarrow> string list \<Rightarrow> (string, unit) result \<times> node" where
  "create_dir_all (File c t) xs = (Inl ''Not a directory'', File c t)"
| "create_dir_all (Dir es) [] = (Inr (), Dir es)"
| "create_dir_all (Dir es) (x # xs) =
     (case create_dir_all (case map_of es x of None \<Rightarrow> Dir [] | Some n \<Rightarrow> n) xs of
        (r, n) \<Rightarrow> (r, Dir (AList.update x n es)))"

fun put_file :: "content \<Rightarrow> nat \<Rightarrow> node \<Rightarrow> string list \<Rightarrow> (string, unit) result \<times> node" where
  "put_file c t (File c' t') [] = (Inr (), File c t)"
| "put_file c t (Dir es) [] = (Inl ''Is a directory'', Dir es)"
| "put_file c t (File c' t') (x # xs) = (Inl ''Not a directory'', File c' t')"
| "put_file c t (Dir es) (x # xs) =
     (case map_of es x of
        None \<Rightarrow> if xs = [] then (Inr (), Dir (AList.update x (File c t) es)) else (Inl ''No such file or directory'', Dir es)
      | Some n \<Rightarrow> (case put_file c t n xs of (r, n') \<Rightarrow> (r, Dir (AList.update x n' es))))"

fun remove_node :: "node \<Rightarrow> string list \<Rightarrow> node" where
  "remove_node (File c t) xs = File c t"
| "remove_node (Dir es) [] = Dir []"
| "remove_node (Dir es) (x # xs) =
     (if xs = [] then Dir (filter (\<lambda>e. fst e \<noteq> x) es)
      else (case map_of es x of None \<Rightarrow> Dir es | Some n \<Rightarrow> Dir (AList.update x (remove_node n xs) es)))"


section \<open>The provider\<close>

datatype io_op = IoCanonicalize | IoMetadata | IoReadDir | IoHash | IoRead | IoMkdir | IoOpen | IoCopy | IoDelete

type_synonym hash_cache = "((string \<times> nat \<times> nat) \<times> string) list"

record local_env =
  le_base :: "string list"
  le_canonical :: "string list"
  le_sha256 :: "content \<Rightarrow> string"
  le_fault :: "io_op \<Rightarrow> string list \<Rightarrow> string option"
  le_partial :: "string list \<Rightarrow> nat"
  le_remnant :: "string list \<Rightarrow> node \<Rightarrow> node"
  le_dir_time :: "string list \<Rightarrow> nat"
  le_tick :: nat
  le_supports_trash :: bool

record local_store =
  ls_tree :: node
  ls_now :: nat
  ls_cache :: hash_cache

definition absolute_text :: "local_env \<Rightarrow> string list \<Rightarrow> string" where
  "absolute_text env cs = ''/'' @ join_on (CHR ''/'') (le_base env @ cs)"

definition prime_cache :: "string \<Rightarrow> nat \<Rightarrow> nat \<Rightarrow> string \<Rightarrow> hash_cache \<Rightarrow> hash_cache" where
  "prime_cache path sz nanos h cache = AList.update (path, sz, nanos) h cache"

definition cached_hash :: "local_env \<Rightarrow> string list \<Rightarrow> content \<Rightarrow> nat \<Rightarrow> hash_cache \<Rightarrow> (string, string) result \<times> hash_cache" where
  "cached_hash env path c nanos cache =
     (let key = (absolute_text env path, length c, nanos) in
      case map_of cache key of
        Some h \<Rightarrow> (Inr h, cache)
      | None \<Rightarrow>
          (case le_fault env IoHash path of
             Some e \<Rightarrow> (Inl e, cache)
           | None \<Rightarrow> (Inr (le_sha256 env c), AList.update key (le_sha256 env c) cache)))"

definition validate_relative_path :: "string \<Rightarrow> (provider_error, unit) result" where
  "validate_relative_path p = (case check_relative_path p of Inl _ \<Rightarrow> Inl (PPathTraversal p) | Inr u \<Rightarrow> Inr u)"

text \<open>A path that ends in a slash or a dot names a directory only.\<close>

definition names_directory :: "string \<Rightarrow> bool" where
  "names_directory p \<longleftrightarrow> last (split_on (CHR ''/'') p) \<in> {[], ''.''}"

definition path_exists :: "node \<Rightarrow> string \<Rightarrow> bool" where
  "path_exists tree p =
     (case lookup_node tree (path_components p) of
        None \<Rightarrow> False
      | Some (File _ _) \<Rightarrow> \<not> names_directory p
      | Some (Dir _) \<Rightarrow> True)"

definition resolve_path :: "local_env \<Rightarrow> node \<Rightarrow> string \<Rightarrow> (provider_error, string list) result" where
  "resolve_path env tree p =
     and_then (validate_relative_path p) (\<lambda>_.
       let cs = path_components p;
           check_path =
             (if path_exists tree p
              then (case le_fault env IoCanonicalize cs of Some e \<Rightarrow> Inl (PIo e) | None \<Rightarrow> Inr (le_canonical env @ cs))
              else if lookup_node tree (butlast cs) \<noteq> None
              then (case le_fault env IoCanonicalize (butlast cs) of Some e \<Rightarrow> Inl (PIo e) | None \<Rightarrow> Inr (le_canonical env @ cs))
              else Inr (le_base env @ cs))
       in and_then check_path (\<lambda>cp.
          case le_fault env IoCanonicalize [] of
            Some e \<Rightarrow> Inl (PIo e)
          | None \<Rightarrow> if take (length (le_canonical env)) cp \<noteq> le_canonical env then Inl (PPathTraversal p) else Inr cs))"

text \<open>The relative path of an entry, with backslashes turned into slashes.\<close>

definition entry_path :: "string list \<Rightarrow> string" where
  "entry_path cs = map (\<lambda>c. if c = CHR 0x5C then CHR ''/'' else c) (join_on (CHR ''/'') cs)"

function scan_directory :: "local_env \<Rightarrow> string list \<Rightarrow> (string \<times> node) list \<Rightarrow> hash_cache \<Rightarrow> file_state list \<times> hash_cache" where
  "scan_directory env dir [] cache = ([], cache)"
| "scan_directory env dir ((name, File c nanos) # rest) cache =
     (let path = dir @ [name] in
      if le_fault env IoMetadata path \<noteq> None then scan_directory env dir rest cache
      else (case cached_hash env path c nanos cache of (h, cache) \<Rightarrow>
            case scan_directory env dir rest cache of (fs, cache) \<Rightarrow>
              (\<lparr>relative_path = entry_path path, fsize = length c, modified_at = nanos div 10 ^ 9, is_directory = False, fhash = ok h\<rparr> # fs,
               cache)))"
| "scan_directory env dir ((name, Dir es) # rest) cache =
     (let path = dir @ [name] in
      if le_fault env IoMetadata path \<noteq> None then scan_directory env dir rest cache
      else (case (if le_fault env IoReadDir path \<noteq> None then ([], cache) else scan_directory env path es cache) of (sub, cache) \<Rightarrow>
            case scan_directory env dir rest cache of (fs, cache) \<Rightarrow>
              (\<lparr>relative_path = entry_path path, fsize = 0, modified_at = le_dir_time env path, is_directory = True, fhash = None\<rparr> # sub @ fs,
               cache)))"
  by pat_completeness auto
termination
  by (relation "measure (\<lambda>(_, _, es, _). size_list (size_prod (\<lambda>_. 0) size) es)") auto

definition local_manifest :: "local_env \<Rightarrow> local_store \<Rightarrow> (provider_error, file_state list) result \<times> local_store" where
  "local_manifest env s =
     (case le_fault env IoReadDir [] of
        Some e \<Rightarrow> (Inl (PIo e), s)
      | None \<Rightarrow>
          (case ls_tree s of
             File _ _ \<Rightarrow> (Inl (PIo ''Not a directory''), s)
           | Dir es \<Rightarrow> (case scan_directory env [] es (ls_cache s) of (fs, cache) \<Rightarrow> (Inr fs, s\<lparr>ls_cache := cache\<rparr>))))"

definition local_read_file_to_path :: "local_env \<Rightarrow> local_store \<Rightarrow> string
    \<Rightarrow> (provider_error, read_file_result) result \<times> local_store" where
  "local_read_file_to_path env s p =
     (case resolve_path env (ls_tree s) p of
        Inl e \<Rightarrow> (Inl e, s)
      | Inr cs \<Rightarrow>
          if \<not> path_exists (ls_tree s) p then (Inl (PNotFound p), s)
          else (case (le_fault env IoRead cs, lookup_node (ls_tree s) cs) of
                  (None, Some (File c _)) \<Rightarrow> (Inr \<lparr>rf_content = c, rf_bytes = length c, rf_hash = None\<rparr>, s)
                | (Some e, _) \<Rightarrow> (Inl (PIo e), s)
                | _ \<Rightarrow> (Inl (PIo ''Is a directory''), s)))"

text \<open>A copy that fails after the destination was opened leaves it truncated.\<close>

definition copy_to :: "local_env \<Rightarrow> local_store \<Rightarrow> string list \<Rightarrow> content \<Rightarrow> (provider_error, unit) result \<times> local_store" where
  "copy_to env s cs c =
     (case le_fault env IoOpen cs of
        Some e \<Rightarrow> (Inl (PIo e), s)
      | None \<Rightarrow>
          (let done = (case le_fault env IoCopy cs of Some _ \<Rightarrow> take (le_partial env cs) c | None \<Rightarrow> c) in
           case put_file done (ls_now s) (ls_tree s) cs of
             (Inl e, _) \<Rightarrow> (Inl (PIo e), s)
           | (Inr _, tree) \<Rightarrow>
               ((case le_fault env IoCopy cs of Some e \<Rightarrow> Inl (PIo e) | None \<Rightarrow> Inr ()),
                s\<lparr>ls_tree := tree, ls_now := ls_now s + le_tick env\<rparr>)))"

definition local_create_dir_all :: "local_env \<Rightarrow> local_store \<Rightarrow> string list \<Rightarrow> (provider_error, unit) result \<times> local_store" where
  "local_create_dir_all env s cs =
     (case le_fault env IoMkdir cs of
        Some e \<Rightarrow> (Inl (PIo e), s)
      | None \<Rightarrow>
          (case create_dir_all (ls_tree s) cs of
             (Inl e, tree) \<Rightarrow> (Inl (PIo e), s\<lparr>ls_tree := tree\<rparr>)
           | (Inr _, tree) \<Rightarrow> (Inr (), s\<lparr>ls_tree := tree\<rparr>)))"

definition local_write_file_from_path :: "local_env \<Rightarrow> local_store \<Rightarrow> string \<Rightarrow> content
    \<Rightarrow> (provider_error, unit) result \<times> local_store" where
  "local_write_file_from_path env s p c =
     (case resolve_path env (ls_tree s) p of
        Inl e \<Rightarrow> (Inl e, s)
      | Inr cs \<Rightarrow>
          (case local_create_dir_all env s (butlast cs) of
             (Inl e, s) \<Rightarrow> (Inl e, s)
           | (Inr _, s) \<Rightarrow> if names_directory p then (Inl (PIo ''Is a directory''), s) else copy_to env s cs c))"

definition local_delete_file :: "local_env \<Rightarrow> local_store \<Rightarrow> string \<Rightarrow> bool \<Rightarrow> (provider_error, unit) result \<times> local_store" where
  "local_delete_file env s p to_trash =
     (case resolve_path env (ls_tree s) p of
        Inl e \<Rightarrow> (Inl e, s)
      | Inr cs \<Rightarrow>
          if \<not> path_exists (ls_tree s) p then (Inr (), s)
          else (case le_fault env IoDelete cs of
                  None \<Rightarrow> (Inr (), s\<lparr>ls_tree := remove_node (ls_tree s) cs\<rparr>)
                | Some e \<Rightarrow>
                    if to_trash \<and> le_supports_trash env then (Inl (POther (''Trash failed: '' @ e)), s)
                    else (case lookup_node (ls_tree s) cs of
                            Some (Dir _) \<Rightarrow> (Inl (PIo e), s\<lparr>ls_tree := le_remnant env cs (ls_tree s)\<rparr>)
                          | _ \<Rightarrow> (Inl (PIo e), s))))"

definition local_create_directory :: "local_env \<Rightarrow> local_store \<Rightarrow> string \<Rightarrow> (provider_error, unit) result \<times> local_store" where
  "local_create_directory env s p =
     (case resolve_path env (ls_tree s) p of
        Inl e \<Rightarrow> (Inl e, s)
      | Inr cs \<Rightarrow> local_create_dir_all env s cs)"

definition local_prime_hash :: "local_env \<Rightarrow> local_store \<Rightarrow> string \<Rightarrow> string \<Rightarrow> local_store" where
  "local_prime_hash env s p h =
     (case resolve_path env (ls_tree s) p of
        Inl _ \<Rightarrow> s
      | Inr cs \<Rightarrow>
          if le_fault env IoMetadata cs \<noteq> None \<or> \<not> path_exists (ls_tree s) p then s
          else (case lookup_node (ls_tree s) cs of
                  Some (File c nanos) \<Rightarrow> s\<lparr>ls_cache := prime_cache (absolute_text env cs) (length c) nanos h (ls_cache s)\<rparr>
                | _ \<Rightarrow> s))"

definition local_provider :: "local_env \<Rightarrow> local_store sync_provider" where
  "local_provider env = \<lparr>p_manifest = local_manifest env, p_read_file_to_path = local_read_file_to_path env,
     p_write_file_from_path = local_write_file_from_path env, p_delete_file = local_delete_file env,
     p_create_directory = local_create_directory env, p_prime_hash_after_write = local_prime_hash env,
     p_supports_directories = True\<rparr>"


section \<open>The tree operations\<close>

definition lookup_file :: "node \<Rightarrow> string list \<Rightarrow> content option" where
  "lookup_file n cs = (case lookup_node n cs of Some (File c _) \<Rightarrow> Some c | _ \<Rightarrow> None)"

lemma lookup_file_simps [simp]:
  "lookup_file (File c t) [] = Some c"
  "lookup_file (Dir es) [] = None"
  "lookup_file (File c t) (x # xs) = None"
  "lookup_file (Dir es) (x # xs) = (case map_of es x of None \<Rightarrow> None | Some n \<Rightarrow> lookup_file n xs)"
  by (simp_all add: lookup_file_def split: option.splits)

lemma lookup_file_empty [simp]: "lookup_file (Dir []) cs = None"
  by (cases cs) simp_all

fun wf_node :: "node \<Rightarrow> bool" where
  "wf_node (File c t) \<longleftrightarrow> True"
| "wf_node (Dir es) \<longleftrightarrow> distinct (map fst es) \<and> (\<forall>e\<in>set es. plain_name (fst e) \<and> wf_node (snd e))"

lemma wf_child: "wf_node (Dir es) \<Longrightarrow> map_of es x = Some n \<Longrightarrow> wf_node n \<and> plain_name x"
  by (fastforce dest: map_of_SomeD)

lemma wf_update:
  assumes "wf_node (Dir es)" "plain_name x" "wf_node n"
  shows "wf_node (Dir (AList.update x n es))"
proof -
  have "set (AList.update x n es) \<subseteq> insert (x, n) (set es)"
    by (induction es) auto
  then show ?thesis using assms by (auto simp: distinct_update)
qed

lemma create_dir_all_ok:
  assumes "wf_node n" "\<forall>x\<in>set xs. plain_name x" "create_dir_all n xs = (r, n')"
  shows "wf_node n' \<and> lookup_file n' = lookup_file n \<and> (n' = n \<or> (\<exists>es es'. n = Dir es \<and> n' = Dir es'))"
  using assms
proof (induction n xs arbitrary: r n' rule: create_dir_all.induct)
  case (3 es x xs)
  let ?m = "case map_of es x of None \<Rightarrow> Dir [] | Some n \<Rightarrow> n"
  obtain r1 n1 where n1: "create_dir_all ?m xs = (r1, n1)" by fastforce
  have "wf_node ?m" using 3(2) wf_child [of es x] by (cases "map_of es x") simp_all
  with 3(1) n1 3(3) have ih: "wf_node n1 \<and> lookup_file n1 = lookup_file ?m" by auto
  have n': "n' = Dir (AList.update x n1 es)" using 3(4) n1 by simp
  have "lookup_file n' cs = lookup_file (Dir es) cs" for cs
    using ih by (cases cs) (simp_all add: n' update_conv split: option.splits)
  moreover have "wf_node n'" unfolding n' by (rule wf_update) (use 3(2,3) ih in simp_all)
  ultimately show ?case by (auto simp: n')
qed auto

lemma put_file_ok:
  assumes "wf_node n" "\<forall>x\<in>set xs. plain_name x" "put_file c t n xs = (r, n')"
  shows "wf_node n' \<and> (\<forall>cs. lookup_file n' cs = (if r = Inr () \<and> cs = xs then Some c else lookup_file n cs))"
  using assms
proof (induction c t n xs arbitrary: r n' rule: put_file.induct)
  case (1 c t c' t')
  then show ?case by (auto simp: lookup_file_def split: option.splits node.splits elim!: lookup_node.elims)
next
  case (4 c t es x xs)
  show ?case
  proof (cases "map_of es x")
    case None
    show ?thesis
    proof (cases "xs = []")
      case True
      with None 4 have n': "n' = Dir (AList.update x (File c t) es)" "r = Inr ()" by auto
      have "lookup_file n' cs = (if cs = [x] then Some c else lookup_file (Dir es) cs)" for cs
        using None by (cases cs; cases "tl cs") (auto simp: n' update_conv)
      then show ?thesis using True n' 4(2,3) wf_update by (simp del: wf_node.simps add: wf_node.simps(1))
    qed (use None 4 in auto)
  next
    case (Some n)
    obtain r1 n1 where n1: "put_file c t n xs = (r1, n1)" by fastforce
    have "wf_node n" using 4(2) Some wf_child by blast
    with 4(1) [OF Some] n1 4(3) have ih: "wf_node n1"
      "\<forall>cs. lookup_file n1 cs = (if r1 = Inr () \<and> cs = xs then Some c else lookup_file n cs)" by auto
    have n': "n' = Dir (AList.update x n1 es)" "r = r1" using 4(4) Some n1 by auto
    have "lookup_file n' cs = (if r = Inr () \<and> cs = x # xs then Some c else lookup_file (Dir es) cs)" for cs
      using ih(2) Some by (cases cs) (auto simp: n' update_conv)
    then show ?thesis using ih(1) 4(2,3) wf_update by (simp add: n' del: wf_node.simps)
  qed
qed auto

lemma remove_node_ok:
  assumes "wf_node n" "lookup_file n xs \<noteq> None" "xs \<noteq> []"
  shows "wf_node (remove_node n xs) \<and> (\<forall>cs. lookup_file (remove_node n xs) cs = (if cs = xs then None else lookup_file n cs))"
  using assms
proof (induction n xs rule: remove_node.induct)
  case (3 es x xs)
  show ?case
  proof (cases "xs = []")
    case True
    have mf: "map_of (filter (\<lambda>e. fst e \<noteq> x) es) y = (if y = x then None else map_of es y)" for y
      using map_of_filter_key [of "\<lambda>k. k \<noteq> x" es y] by simp
    obtain c t where "map_of es x = Some (File c t)"
      using 3(3) True by (auto simp: lookup_file_def split: option.splits node.splits)
    then have "lookup_file (Dir (filter (\<lambda>e. fst e \<noteq> x) es)) cs = (if cs = [x] then None else lookup_file (Dir es) cs)" for cs
      by (cases cs; cases "tl cs") (auto simp: mf)
    moreover have "wf_node (Dir (filter (\<lambda>e. fst e \<noteq> x) es))"
      using 3(2) by (auto simp: distinct_filter_keys)
    ultimately show ?thesis using True by (simp del: wf_node.simps)
  next
    case False
    obtain n where n: "map_of es x = Some n" "lookup_file n xs \<noteq> None" using 3(3) by (auto split: option.splits)
    have "wf_node n" using 3(2) n(1) wf_child by blast
    with 3(1) [OF False n(1)] n(2) False have ih: "wf_node (remove_node n xs)"
      "\<forall>cs. lookup_file (remove_node n xs) cs = (if cs = xs then None else lookup_file n cs)" by auto
    have "lookup_file (Dir (AList.update x (remove_node n xs) es)) cs = (if cs = x # xs then None else lookup_file (Dir es) cs)" for cs
      using ih(2) n by (cases cs) (auto simp: update_conv)
    moreover have "wf_node (Dir (AList.update x (remove_node n xs) es))"
      using 3(2) n(1) ih(1) wf_child wf_update by blast
    ultimately show ?thesis using False n(1) by simp
  qed
next
  case (1 c t xs)
  then show ?case by (cases xs) simp_all
qed simp


section \<open>The provider keeps the contract\<close>

definition local_contents :: "local_store \<Rightarrow> string \<Rightarrow> content option" where
  "local_contents s p = (if plain_path p then lookup_file (ls_tree s) (split_on (CHR ''/'') p) else None)"

definition local_valid :: "local_store \<Rightarrow> bool" where
  "local_valid s \<longleftrightarrow> wf_node (ls_tree s)"

lemma plain_components:
  assumes "plain_path p"
  shows "path_components p = split_on (CHR ''/'') p" "\<not> names_directory p" "\<forall>x\<in>set (split_on (CHR ''/'') p). plain_name x"
proof -
  have all: "\<forall>x\<in>set (split_on (CHR ''/'') p). plain_name x" using assms by (simp add: plain_path_def)
  then have "\<forall>x\<in>set (split_on (CHR ''/'') p). x \<noteq> [] \<and> x \<noteq> ''.''" by (simp add: plain_name_def)
  then show "path_components p = split_on (CHR ''/'') p" unfolding path_components_def by (simp add: filter_True)
  have "plain_name (last (split_on (CHR ''/'') p))" using all by simp
  then show "\<not> names_directory p" by (auto simp: names_directory_def plain_name_def)
  show "\<forall>x\<in>set (split_on (CHR ''/'') p). plain_name x" by (rule all)
qed

lemma resolve_path_Inr: "resolve_path env tree p = Inr cs \<Longrightarrow> cs = path_components p"
  by (auto simp: resolve_path_def res_simps Let_def split: if_splits option.splits)

lemma split_eq_iff: "split_on c p = split_on c q \<longleftrightarrow> p = q"
  by (metis join_split)

lemma local_contents_eq:
  assumes "\<And>cs. lookup_file (ls_tree s') cs = (if cs = split_on (CHR ''/'') p then x else lookup_file (ls_tree s) cs)" "plain_path p"
  shows "local_contents s' q = (if q = p then x else local_contents s q)"
  using assms by (auto simp: local_contents_def split_eq_iff)

lemma butlast_plain: "\<forall>x\<in>set cs. plain_name x \<Longrightarrow> \<forall>x\<in>set (butlast cs). plain_name x"
  by (meson in_set_butlastD)

lemma local_mkdir_all_ok:
  assumes "wf_node (ls_tree s)" "\<forall>x\<in>set cs. plain_name x" "local_create_dir_all env s cs = (r, s')"
  shows "wf_node (ls_tree s') \<and> lookup_file (ls_tree s') = lookup_file (ls_tree s)"
proof (cases "le_fault env IoMkdir cs")
  case None
  obtain r1 tree where t: "create_dir_all (ls_tree s) cs = (r1, tree)" by fastforce
  have "ls_tree s' = tree" using assms(3) None t by (cases r1) (auto simp: local_create_dir_all_def)
  then show ?thesis using create_dir_all_ok [OF assms(1,2) t] by simp
qed (use assms in \<open>simp add: local_create_dir_all_def\<close>)

lemma copy_to_ok:
  assumes "wf_node (ls_tree s)" "\<forall>x\<in>set cs. plain_name x" "copy_to env s cs c = (r, s')"
  shows "wf_node (ls_tree s') \<and> (\<forall>q. q \<noteq> cs \<longrightarrow> lookup_file (ls_tree s') q = lookup_file (ls_tree s) q)
    \<and> (r = Inr () \<longrightarrow> lookup_file (ls_tree s') cs = Some c)"
proof (cases "le_fault env IoOpen cs")
  case None
  define d where "d = (case le_fault env IoCopy cs of Some _ \<Rightarrow> take (le_partial env cs) c | None \<Rightarrow> c)"
  obtain r1 tree where t: "put_file d (ls_now s) (ls_tree s) cs = (r1, tree)" by fastforce
  note p = put_file_ok [OF assms(1,2) t]
  show ?thesis
  proof (cases r1)
    case (Inl e)
    then have "s' = s \<and> r = Inl (PIo e)" using assms(3) None t by (simp add: copy_to_def d_def Let_def)
    then show ?thesis using assms(1) by simp
  next
    case (Inr u)
    then have "ls_tree s' = tree \<and> (r = Inr () \<longrightarrow> d = c)"
      using assms(3) None t by (auto simp: copy_to_def d_def [symmetric] Let_def) (auto simp: d_def split: option.splits)
    then show ?thesis using p Inr by simp
  qed
qed (use assms in \<open>auto simp: copy_to_def\<close>)


lemma entry_path_plain:
  assumes "cs \<noteq> []" "\<forall>x\<in>set cs. plain_name x"
  shows "entry_path cs = join_on (CHR ''/'') cs"
proof -
  have "set (join_on (CHR ''/'') cs) \<subseteq> insert (CHR ''/'') (\<Union>x\<in>set cs. set x)"
    by (induction cs rule: join_on.induct) auto
  then have "CHR 0x5C \<notin> set (join_on (CHR ''/'') cs)" using assms(2) by (auto simp: plain_name_def)
  then show ?thesis unfolding entry_path_def by (intro map_idI) auto
qed

text \<open>What the scan lists, without sizes and hashes.\<close>

function listing :: "local_env \<Rightarrow> string list \<Rightarrow> (string \<times> node) list \<Rightarrow> (string list \<times> bool) list" where
  "listing env dir [] = []"
| "listing env dir ((name, File c t) # rest) =
     (if le_fault env IoMetadata (dir @ [name]) \<noteq> None then [] else [(dir @ [name], False)]) @ listing env dir rest"
| "listing env dir ((name, Dir es) # rest) =
     (if le_fault env IoMetadata (dir @ [name]) \<noteq> None then []
      else (dir @ [name], True) # (if le_fault env IoReadDir (dir @ [name]) \<noteq> None then [] else listing env (dir @ [name]) es))
     @ listing env dir rest"
  by pat_completeness auto
termination
  by (relation "measure (\<lambda>(_, _, es). size_list (size_prod (\<lambda>_. 0) size) es)") auto

lemma scan_listing:
  "map (\<lambda>f. (relative_path f, is_directory f)) (fst (scan_directory env dir es cache))
     = map (\<lambda>(cs, d). (entry_path cs, d)) (listing env dir es)"
proof (induction env dir es cache rule: scan_directory.induct)
  case (2 env dir name c nanos rest cache)
  then show ?case by (cases "cached_hash env (dir @ [name]) c nanos cache") (auto simp: Let_def case_prod_beta)
next
  case (3 env dir name es rest cache)
  then show ?case
    by (cases "scan_directory env (dir @ [name]) es cache") (auto simp: Let_def case_prod_beta)
qed simp

lemma lookup_tail:
  assumes "wf_node (Dir ((name, m) # rest))" "lookup_node (Dir rest) cs = Some n" "cs \<noteq> []"
  shows "lookup_node (Dir ((name, m) # rest)) cs = Some n"
proof -
  obtain x xs k where cs: "cs = x # xs" "map_of rest x = Some k" using assms(2,3) by (cases cs) (auto split: option.splits)
  then have "x \<in> fst ` set rest" by (metis map_of_eq_None_iff option.distinct(1))
  then have "x \<noteq> name" using assms(1) by auto
  then show ?thesis using assms(2) cs by simp
qed

lemma listing_sound:
  assumes "wf_node (Dir es)" "(p, d) \<in> set (listing env dir es)"
  shows "\<exists>cs n. p = dir @ cs \<and> cs \<noteq> [] \<and> lookup_node (Dir es) cs = Some n \<and> (d \<longleftrightarrow> (\<exists>es'. n = Dir es'))"
  using assms
proof (induction env dir es rule: listing.induct)
  case (2 env dir name c t rest)
  note wf = 2(2)
  consider "(p, d) \<in> set (listing env dir rest)" | "p = dir @ [name]" "\<not> d" using 2(3) by (auto split: if_splits)
  then show ?case
  proof cases
    case 1
    then obtain cs n where "p = dir @ cs" "cs \<noteq> []" "lookup_node (Dir rest) cs = Some n" "d \<longleftrightarrow> (\<exists>es'. n = Dir es')"
      using 2(1,2) by auto
    then show ?thesis using lookup_tail [OF wf] by metis
  next
    case 2
    then show ?thesis by (intro exI [of _ "[name]"] exI [of _ "File c t"]) simp
  qed
next
  case (3 env dir name es rest)
  note wf = 3(3)
  consider (rest) "(p, d) \<in> set (listing env dir rest)" | (here) "p = dir @ [name]" d
    | (below) "(p, d) \<in> set (listing env (dir @ [name]) es)" "le_fault env IoMetadata (dir @ [name]) = None" "le_fault env IoReadDir (dir @ [name]) = None"
    using 3(4) by (auto split: if_splits)
  then show ?case
  proof cases
    case rest
    then obtain cs n where "p = dir @ cs" "cs \<noteq> []" "lookup_node (Dir rest) cs = Some n" "d \<longleftrightarrow> (\<exists>es'. n = Dir es')"
      using 3(2,3) by auto
    then show ?thesis using lookup_tail [OF wf] by metis
  next
    case here
    then show ?thesis by (intro exI [of _ "[name]"] exI [of _ "Dir es"]) simp
  next
    case below
    then obtain cs n where *: "p = (dir @ [name]) @ cs" "cs \<noteq> []" "lookup_node (Dir es) cs = Some n" "d \<longleftrightarrow> (\<exists>es'. n = Dir es')"
      using 3(1,3) by auto
    then show ?thesis by (intro exI [of _ "name # cs"] exI [of _ n]) simp
  qed
qed simp

lemma listing_complete:
  assumes "\<And>p. le_fault env IoMetadata p = None" "\<And>p. le_fault env IoReadDir p = None"
    "lookup_node (Dir es) cs = Some n" "cs \<noteq> []"
  shows "(dir @ cs, \<exists>es'. n = Dir es') \<in> set (listing env dir es)"
  using assms
proof (induction env dir es arbitrary: cs rule: listing.induct)
  case (2 env dir name c t rest)
  then show ?case by (cases cs; cases "tl cs") (auto split: if_splits)
next
  case (3 env dir name es rest)
  obtain x xs where cs: "cs = x # xs" using 3(6) by (cases cs) auto
  show ?case
  proof (cases "x = name \<and> xs \<noteq> []")
    case True
    then have "((dir @ [name]) @ xs, \<exists>es'. n = Dir es') \<in> set (listing env (dir @ [name]) es)"
      using 3(1) [of xs] 3(3-5) cs by simp
    then show ?thesis using True 3(3,4) cs by simp
  next
    case False
    then show ?thesis using 3(2) [of cs] 3(3-6) cs by (auto split: if_splits)
  qed
qed (auto split: option.splits elim: lookup_node.elims)

lemma lookup_plain: "wf_node n \<Longrightarrow> lookup_node n cs = Some m \<Longrightarrow> \<forall>x\<in>set cs. plain_name x"
proof (induction n cs rule: lookup_node.induct)
  case (3 es x xs)
  then obtain k where k: "map_of es x = Some k" "lookup_node k xs = Some m" by (auto split: option.splits)
  then show ?case using 3(1) [OF k(1)] 3(2) wf_child [of es x k] by simp
qed simp_all

lemma local_manifest_Inr:
  assumes "local_manifest env s = (Inr m, s')"
  obtains es where "ls_tree s = Dir es" "ls_tree s' = ls_tree s"
    "map (\<lambda>f. (relative_path f, is_directory f)) m = map (\<lambda>(cs, d). (entry_path cs, d)) (listing env [] es)"
proof (cases "ls_tree s")
  case (Dir es)
  obtain fs cache where sc: "scan_directory env [] es (ls_cache s) = (fs, cache)" by fastforce
  have "m = fs" "s' = s\<lparr>ls_cache := cache\<rparr>" using assms Dir sc by (auto simp: local_manifest_def split: option.splits)
  then show ?thesis using that Dir scan_listing [of env "[]" es "ls_cache s"] sc by simp
qed (use assms in \<open>auto simp: local_manifest_def split: option.splits\<close>)

lemma local_manifest_entry:
  assumes "wf_node (ls_tree s)" "local_manifest env s = (Inr m, s')" "f \<in> set m"
  shows "\<exists>cs n. cs \<noteq> [] \<and> (\<forall>x\<in>set cs. plain_name x) \<and> relative_path f = join_on (CHR ''/'') cs
    \<and> lookup_node (ls_tree s) cs = Some n \<and> (is_directory f \<longleftrightarrow> (\<exists>es'. n = Dir es'))"
proof -
  obtain es where es: "ls_tree s = Dir es"
    and m: "map (\<lambda>f. (relative_path f, is_directory f)) m = map (\<lambda>(cs, d). (entry_path cs, d)) (listing env [] es)"
    by (rule local_manifest_Inr [OF assms(2)])
  have "(relative_path f, is_directory f) \<in> set (map (\<lambda>f. (relative_path f, is_directory f)) m)" using assms(3) by auto
  then obtain cs where cs: "relative_path f = entry_path cs" "(cs, is_directory f) \<in> set (listing env [] es)" unfolding m by auto
  from listing_sound [OF assms(1) [unfolded es] cs(2)] obtain n where
    n: "cs \<noteq> []" "lookup_node (Dir es) cs = Some n" "is_directory f \<longleftrightarrow> (\<exists>es'. n = Dir es')" by auto
  then show ?thesis using lookup_plain assms(1) entry_path_plain cs(1) es by metis
qed


lemma local_read_ok:
  assumes "local_valid s" "plain_path p" "local_read_file_to_path env s p = (r, s')"
  shows "s' = s" "r = Inr info \<Longrightarrow> local_contents s p = Some (rf_content info)"
proof -
  show "s' = s"
    using assms(3) unfolding local_read_file_to_path_def
    by (auto split: sum.splits option.splits if_splits node.splits)
  show "local_contents s p = Some (rf_content info)" if "r = Inr info"
    using assms(3) that plain_components(1) [OF assms(2)] assms(2) unfolding local_read_file_to_path_def
    by (auto simp: local_contents_def lookup_file_def dest!: resolve_path_Inr split: sum.splits option.splits if_splits node.splits)
qed

lemma local_write_ok:
  assumes "local_valid s" "plain_path p" "local_write_file_from_path env s p c = (r, s')"
  shows "local_valid s' \<and> (\<forall>q. q \<noteq> p \<longrightarrow> local_contents s' q = local_contents s q) \<and> (r = Inr () \<longrightarrow> local_contents s' p = Some c)"
proof (cases "resolve_path env (ls_tree s) p")
  case (Inl e)
  then show ?thesis using assms by (auto simp: local_write_file_from_path_def)
next
  case (Inr cs)
  note pc = plain_components [OF assms(2)]
  have cs: "cs = split_on (CHR ''/'') p" using resolve_path_Inr [OF Inr] pc(1) by simp
  obtain r1 s1 where m: "local_create_dir_all env s (butlast cs) = (r1, s1)" by fastforce
  have k: "wf_node (ls_tree s1) \<and> lookup_file (ls_tree s1) = lookup_file (ls_tree s)"
    by (rule local_mkdir_all_ok [OF _ _ m]) (use assms(1) pc(3) cs in \<open>auto simp: local_valid_def dest: in_set_butlastD\<close>)
  show ?thesis
  proof (cases r1)
    case (Inl e)
    then have "s' = s1 \<and> r = Inl e" using assms(3) Inr m \<open>resolve_path env (ls_tree s) p = Inr cs\<close>
      by (auto simp: local_write_file_from_path_def)
    then show ?thesis using k by (simp add: local_valid_def local_contents_def)
  next
    case r1: (Inr u)
    have "copy_to env s1 cs c = (r, s')"
      using assms(3) Inr m r1 pc(2) by (simp add: local_write_file_from_path_def)
    note cp = copy_to_ok [OF _ _ this]
    then show ?thesis using k pc(3) assms(2) unfolding cs local_valid_def local_contents_def
      by (simp add: split_eq_iff)
  qed
qed

lemma local_delete_ok:
  assumes "local_valid s" "plain_path p" "local_contents s p \<noteq> None" "local_delete_file env s p tr = (r, s')"
  shows "local_valid s' \<and> (\<forall>q. q \<noteq> p \<longrightarrow> local_contents s' q = local_contents s q) \<and> (r = Inr () \<longrightarrow> local_contents s' p = None)"
proof (cases "resolve_path env (ls_tree s) p")
  case (Inl e)
  then show ?thesis using assms by (auto simp: local_delete_file_def)
next
  case (Inr cs)
  note pc = plain_components [OF assms(2)]
  let ?cs = "split_on (CHR ''/'') p"
  have cs: "cs = ?cs" using resolve_path_Inr [OF Inr] pc(1) by simp
  have f: "lookup_file (ls_tree s) ?cs \<noteq> None" using assms(2,3) by (simp add: local_contents_def)
  then obtain c t where n: "lookup_node (ls_tree s) ?cs = Some (File c t)"
    by (auto simp: lookup_file_def split: option.splits node.splits)
  have there: "path_exists (ls_tree s) p" using n pc(1,2) by (simp add: path_exists_def)
  note rm = remove_node_ok [OF assms(1) [unfolded local_valid_def] f split_on_not_Nil]
  show ?thesis
  proof (cases "le_fault env IoDelete cs")
    case None
    then have s': "s' = s\<lparr>ls_tree := remove_node (ls_tree s) ?cs\<rparr>"
      using assms(4) Inr there by (simp add: local_delete_file_def cs)
    show ?thesis using rm assms(2) unfolding s' local_valid_def local_contents_def by (simp add: split_eq_iff)
  next
    case (Some e)
    then have "s' = s \<and> r \<noteq> Inr ()"
      using assms(4) Inr there n by (auto simp: local_delete_file_def cs split: if_splits)
    then show ?thesis using assms(1) by simp
  qed
qed

interpretation lp: file_store "local_provider env" local_contents local_valid for env
proof unfold_locales
  fix s s' :: local_store and rm m f p
  show "local_valid s' \<and> local_contents s' = local_contents s" if "local_valid s" "p_manifest (local_provider env) s = (rm, s')"
    using that by (auto simp: local_provider_def local_manifest_def local_valid_def local_contents_def fun_eq_iff
        split: option.splits node.splits prod.splits)
  show "plain_path (relative_path f) \<and> (\<not> is_directory f \<longrightarrow> local_contents s (relative_path f) \<noteq> None)"
    if "local_valid s" "p_manifest (local_provider env) s = (Inr m, s')" "f \<in> set m"
  proof -
    have "local_manifest env s = (Inr m, s')" using that(2) by (simp add: local_provider_def)
    from local_manifest_entry [OF that(1) [unfolded local_valid_def] this that(3)]
    obtain cs n where *: "cs \<noteq> []" "\<forall>x\<in>set cs. plain_name x" "relative_path f = join_on (CHR ''/'') cs"
      "lookup_node (ls_tree s) cs = Some n" "is_directory f \<longleftrightarrow> (\<exists>es'. n = Dir es')"
      by blast
    then show ?thesis using plain_path_join [OF *(1,2)] by (cases n) (auto simp: local_contents_def lookup_file_def)
  qed
  show "local_valid s' \<and> local_contents s' = local_contents s"
    if "local_valid s" "plain_path p" "p_create_directory (local_provider env) s p = (ru, s')" for ru
  proof (cases "resolve_path env (ls_tree s) p")
    case (Inr cs)
    have "local_create_dir_all env s cs = (ru, s')" using that(3) Inr by (simp add: local_provider_def local_create_directory_def)
    then show ?thesis
      using local_mkdir_all_ok [of s cs env ru s'] resolve_path_Inr [OF Inr] plain_components [OF that(2)] that(1)
      by (auto simp: local_valid_def local_contents_def fun_eq_iff)
  qed (use that in \<open>auto simp: local_provider_def local_create_directory_def\<close>)
  show "local_valid (p_prime_hash_after_write (local_provider env) s p h)
      \<and> local_contents (p_prime_hash_after_write (local_provider env) s p h) = local_contents s" if "local_valid s" for h
    using that by (auto simp: local_provider_def local_prime_hash_def local_valid_def local_contents_def fun_eq_iff
        split: sum.splits option.splits node.splits)
  show "local_valid s' \<and> local_contents s' = local_contents s \<and> (\<forall>info. rr = Inr info \<longrightarrow> local_contents s p = Some (rf_content info))"
    if "local_valid s" "plain_path p" "p_read_file_to_path (local_provider env) s p = (rr, s')" for rr
  proof -
    have "local_read_file_to_path env s p = (rr, s')" using that(3) by (simp add: local_provider_def)
    from local_read_ok [OF that(1,2) this] show ?thesis using that(1) by blast
  qed
  show "local_valid s' \<and> (\<forall>q. q \<noteq> p \<longrightarrow> local_contents s' q = local_contents s q) \<and> (ru = Inr () \<longrightarrow> local_contents s' p = Some c)"
    if "local_valid s" "plain_path p" "p_write_file_from_path (local_provider env) s p c = (ru, s')" for ru c
    by (rule local_write_ok [OF that(1,2)]) (use that(3) in \<open>simp add: local_provider_def\<close>)
  show "local_valid s' \<and> (\<forall>q. q \<noteq> p \<longrightarrow> local_contents s' q = local_contents s q) \<and> (ru = Inr () \<longrightarrow> local_contents s' p = None)"
    if "local_valid s" "plain_path p" "local_contents s p \<noteq> None" "p_delete_file (local_provider env) s p tr = (ru, s')" for ru tr
    by (rule local_delete_ok [OF that(1-3)]) (use that(4) in \<open>simp add: local_provider_def\<close>)
qed

interpretation ll: sync_pair "local_provider senv" local_contents local_valid "local_provider tenv" local_contents local_valid for senv tenv
  by unfold_locales



section \<open>Runs between two local directories\<close>

definition scan_complete_env :: "local_env \<Rightarrow> bool" where
  "scan_complete_env env \<longleftrightarrow> (\<forall>p. le_fault env IoMetadata p = None \<and> le_fault env IoReadDir p = None)"

definition has_directory :: "local_store \<Rightarrow> string \<Rightarrow> bool" where
  "has_directory s p \<longleftrightarrow> (\<exists>es. lookup_node (ls_tree s) (split_on (CHR ''/'') p) = Some (Dir es))"

lemma local_manifest_complete:
  assumes "local_valid s" "scan_complete_env env" "fst (local_manifest env s) = Inr m"
  shows "local_contents s p \<noteq> None \<longleftrightarrow> (\<exists>f. manifest_at m p = Some f \<and> \<not> is_directory f)"
    and "manifest_at m p = Some f \<Longrightarrow> is_directory f \<Longrightarrow> has_directory s p"
proof -
  obtain s' where m: "local_manifest env s = (Inr m, s')" using assms(3) by (metis fst_conv surj_pair)
  obtain es where es: "ls_tree s = Dir es"
    and map_m: "map (\<lambda>f. (relative_path f, is_directory f)) m = map (\<lambda>(cs, d). (entry_path cs, d)) (listing env [] es)"
    by (rule local_manifest_Inr [OF m])
  note entry = local_manifest_entry [OF assms(1) [unfolded local_valid_def] m]
  have sound: "if is_directory f then has_directory s p else local_contents s p \<noteq> None" if "manifest_at m p = Some f" for f
  proof -
    have f: "f \<in> set m" "p = relative_path f" using manifest_at_set [OF that] by auto
    obtain cs n where *: "cs \<noteq> []" "\<forall>x\<in>set cs. plain_name x" "p = join_on (CHR ''/'') cs"
      "lookup_node (ls_tree s) cs = Some n" "is_directory f \<longleftrightarrow> (\<exists>es'. n = Dir es')"
      using entry [OF f(1)] f(2) by auto
    then show ?thesis using plain_path_join [OF *(1,2)] by (cases n) (auto simp: has_directory_def local_contents_def lookup_file_def)
  qed
  then show "manifest_at m p = Some f \<Longrightarrow> is_directory f \<Longrightarrow> has_directory s p" by metis
  show "local_contents s p \<noteq> None \<longleftrightarrow> (\<exists>f. manifest_at m p = Some f \<and> \<not> is_directory f)"
  proof
    assume a: "local_contents s p \<noteq> None"
    then have pl: "plain_path p" by (auto simp: local_contents_def split: if_splits)
    let ?cs = "split_on (CHR ''/'') p"
    obtain c t where n: "lookup_node (Dir es) ?cs = Some (File c t)"
      using a pl es by (auto simp: local_contents_def lookup_file_def split: option.splits node.splits)
    have "([] @ ?cs, \<exists>es'. File c t = Dir es') \<in> set (listing env [] es)"
      by (rule listing_complete) (use assms(2) n in \<open>auto simp: scan_complete_env_def\<close>)
    then have "(entry_path ?cs, False) \<in> set (map (\<lambda>f. (relative_path f, is_directory f)) m)" unfolding map_m by force
    moreover have "entry_path ?cs = p" using entry_path_plain plain_components(3) [OF pl] by simp
    ultimately have "p \<in> relative_path ` set m" by auto
    then obtain f where f: "manifest_at m p = Some f"
      by (cases "manifest_at m p") (auto simp: manifest_at_def map_of_eq_None_iff image_comp)
    moreover have "\<not> has_directory s p" using n es by (simp add: has_directory_def)
    ultimately show "\<exists>f. manifest_at m p = Some f \<and> \<not> is_directory f" using sound [OF f] by auto
  next
    assume "\<exists>f. manifest_at m p = Some f \<and> \<not> is_directory f"
    then show "local_contents s p \<noteq> None" using sound by fastforce
  qed
qed

text \<open>C33: A one-way run that ends without errors and without being cancelled leaves the source
  as it was and makes the target a mirror of it.  Precisely: a path that the source scan lists
  as a file and that the target lacks or has differently gets the source's bytes, a file that
  the source does not list is removed unless deletions are off, and every other path keeps its
  bytes.  So with complete scans, deletions on and a planner comparison that does not
  confuse different contents, the target has exactly the source's files, except under paths
  that are directories in the source.\<close>

theorem one_way_sync_mirrors:
  fixes st :: "(local_store, local_store) engine" and senv tenv env ord mode rule_id
  defines "run \<equiv> execute_sync env ord (local_provider senv) (local_provider tenv) OneWay mode rule_id st"
  assumes "local_valid (e_source st)" "local_valid (e_target st)" "calm st" "orders_ok ord"
    and "fst run = Inr res" "errors res = []"
  shows "\<exists>src tgt. fst (local_manifest senv (e_source st)) = Inr src \<and> fst (local_manifest tenv (e_target st)) = Inr tgt
    \<and> local_contents (e_source (snd run)) = local_contents (e_source st)
    \<and> local_contents (e_target (snd run)) = (\<lambda>q. if to_copy src tgt q then local_contents (e_source st) q
         else if mode \<noteq> Ignore \<and> to_remove src tgt q then None else local_contents (e_target st) q)
    \<and> (mode \<noteq> Ignore \<and> scan_complete_env senv \<and> scan_complete_env tenv
         \<and> (\<forall>q f g. manifest_at src q = Some f \<and> manifest_at tgt q = Some g \<and> files_equal f g
              \<longrightarrow> local_contents (e_target st) q = local_contents (e_source st) q)
       \<longrightarrow> (\<forall>q. \<not> has_directory (e_source st) q \<longrightarrow> local_contents (e_target (snd run)) q = local_contents (e_source st) q))"
proof (rule ll.one_way_effect [OF assms(2-5) _ assms(7)])
  show "execute_sync env ord (local_provider senv) (local_provider tenv) OneWay mode rule_id st = (Inr res, snd run)"
    using assms(6) by (simp add: run_def prod_eq_iff)
  fix src tgt
  assume "fst (p_manifest (local_provider senv) (e_source st)) = Inr src" "fst (p_manifest (local_provider tenv) (e_target st)) = Inr tgt"
  then have m: "fst (local_manifest senv (e_source st)) = Inr src" "fst (local_manifest tenv (e_target st)) = Inr tgt"
    by (simp_all add: local_provider_def)
  assume c: "local_contents (e_source (snd run)) = local_contents (e_source st)"
    "local_contents (e_target (snd run)) = (\<lambda>q. if to_copy src tgt q then local_contents (e_source st) q
       else if mode \<noteq> Ignore \<and> to_remove src tgt q then None else local_contents (e_target st) q)"
  have "local_contents (e_target (snd run)) q = local_contents (e_source st) q"
    if "mode \<noteq> Ignore" "scan_complete_env senv" "scan_complete_env tenv" "\<not> has_directory (e_source st) q"
      "\<forall>q f g. manifest_at src q = Some f \<and> manifest_at tgt q = Some g \<and> files_equal f g
          \<longrightarrow> local_contents (e_target st) q = local_contents (e_source st) q" for q
  proof -
    note S = local_manifest_complete [OF assms(2) that(2) m(1), of q] and T = local_manifest_complete [OF assms(3) that(3) m(2), of q]
    show ?thesis
    proof (cases "manifest_at src q")
      case None
      then show ?thesis using c(2) S(1) T(1) that(1) by (auto simp: to_copy_def to_remove_def)
    next
      case (Some f)
      then have "\<not> is_directory f" using S(2) that(4) by blast
      then show ?thesis using c(2) Some that(5) by (auto simp: to_copy_def to_remove_def split: option.splits)
    qed
  qed
  with m c show ?thesis by (intro exI conjI) blast+
qed

text \<open>A two-way run that ends without errors and without being cancelled: a path on which
  one side is ahead (only it has the file, or its version differs and is newer) has that
  side's bytes on both sides afterwards, and every other path outside the conflicts keeps
  its bytes.\<close>

theorem two_way_sync_exchanges:
  fixes st :: "(local_store, local_store) engine" and senv tenv env ord mode rule_id
  defines "run \<equiv> execute_sync env ord (local_provider senv) (local_provider tenv) TwoWay mode rule_id st"
  assumes "local_valid (e_source st)" "local_valid (e_target st)" "calm st" "orders_ok ord"
    and "fst run = Inr res" "errors res = []"
  shows "\<exists>src tgt. fst (local_manifest senv (e_source st)) = Inr src \<and> fst (local_manifest tenv (e_target st)) = Inr tgt
    \<and> (\<forall>q. local_contents (e_source (snd run)) q = (if pushed src tgt q then local_contents (e_target st) q else local_contents (e_source st) q))
    \<and> (\<forall>q. (\<forall>c. clashing src tgt c \<longrightarrow> q \<noteq> c \<and> q \<noteq> make_conflict_path c (env_now env)) \<longrightarrow>
         local_contents (e_target (snd run)) q = (if pulled src tgt q then local_contents (e_source st) q else local_contents (e_target st) q))"
proof (rule ll.two_way_effect [OF assms(2-5) _ assms(7)])
  show "execute_sync env ord (local_provider senv) (local_provider tenv) TwoWay mode rule_id st = (Inr res, snd run)"
    using assms(6) by (simp add: run_def prod_eq_iff)
  fix src tgt
  assume "fst (p_manifest (local_provider senv) (e_source st)) = Inr src" "fst (p_manifest (local_provider tenv) (e_target st)) = Inr tgt"
  then have m: "fst (local_manifest senv (e_source st)) = Inr src" "fst (local_manifest tenv (e_target st)) = Inr tgt"
    by (simp_all add: local_provider_def)
  assume "\<And>q. local_contents (e_source (snd run)) q = (if pushed src tgt q then local_contents (e_target st) q else local_contents (e_source st) q)"
    "\<And>q. \<forall>c. clashing src tgt c \<longrightarrow> q \<noteq> c \<and> q \<noteq> make_conflict_path c (env_now env) \<Longrightarrow>
       local_contents (e_target (snd run)) q = (if pulled src tgt q then local_contents (e_source st) q else local_contents (e_target st) q)"
  with m show ?thesis by (intro exI conjI) blast+
qed

text \<open>C34: Resolving a conflict never loses the target's version: whichever of the reads, copies
  and database writes fails, the bytes the target had are afterwards under their own path or
  under the conflict path, no other path of the target changes and the source does not change; without
  errors the target has its old version under the conflict path and the source's under its own.\<close>

theorem conflict_keeps_target_version:
  fixes st :: "(local_store, local_store) engine" and senv tenv env rule_id c
  defines "p \<equiv> conflict_path_of c"
  defines "aside \<equiv> make_conflict_path p (env_now env)"
  defines "st' \<equiv> conflict_task env (local_provider senv) (local_provider tenv) rule_id c st"
  assumes "local_valid (e_source st)" "local_valid (e_target st)" "plain_path p"
  shows "(local_contents (e_target st') p = local_contents (e_target st) p \<or> local_contents (e_target st') aside = local_contents (e_target st) p)
    \<and> local_contents (e_source st') = local_contents (e_source st)
    \<and> (\<forall>q. q \<noteq> p \<and> q \<noteq> aside \<longrightarrow> local_contents (e_target st') q = local_contents (e_target st) q)
    \<and> (errors (e_result st') = [] \<longrightarrow> local_contents (e_target st') aside = local_contents (e_target st) p
         \<and> local_contents (e_target st') p = local_contents (e_source st) p)"
proof -
  have "ll.both_valid st" using assms(4,5) by (simp add: ll.both_valid_def)
  note step = ll.conflict_step [OF this, of c env senv tenv rule_id] 
  show ?thesis
    using step assms(6) make_conflict_path_plain [OF assms(6), of "env_now env"]
    unfolding p_def aside_def st'_def ll.touches_def by auto
qed



section \<open>Witnesses\<close>

definition sample_local_env :: local_env where
  "sample_local_env = \<lparr>le_base = [''home'', ''sync''], le_canonical = [''home'', ''sync''],
     le_sha256 = (\<lambda>c. if c = [1] then ''one'' else ''other''),
     le_fault = (\<lambda>_ _. None), le_partial = (\<lambda>_. 0), le_remnant = (\<lambda>_ n. n), le_dir_time = (\<lambda>_. 0), le_tick = 1,
     le_supports_trash = True\<rparr>"

definition sample_engine_env :: engine_env where
  "sample_engine_env = \<lparr>env_now = 7, env_uuid = (\<lambda>p. p), env_db_error = (\<lambda>_. None), env_tmp_error = (\<lambda>_. None)\<rparr>"

definition sample_orders :: sync_orders where
  "sample_orders = \<lparr>source_order = id, target_order = rev, schedule = rev\<rparr>"

definition sample_engine :: "(local_store, local_store) engine" where
  "sample_engine = \<lparr>
     e_source = \<lparr>ls_tree = Dir [(''a'', File [1] 5000000000), (''d'', Dir [(''b'', File [2, 3] 6000000000)])], ls_now = 9, ls_cache = []\<rparr>,
     e_target = \<lparr>ls_tree = Dir [(''a'', File [9] 6000000000), (''x'', File [4] 1)], ls_now = 9, ls_cache = []\<rparr>,
     e_db = [], e_cancel = [False], e_result = empty_result\<rparr>"

lemma sample_ok: "local_valid (e_source sample_engine)" "local_valid (e_target sample_engine)" "calm sample_engine" "orders_ok sample_orders"
  by (simp_all add: sample_engine_def local_valid_def plain_name_def calm_def orders_ok_def order_ok_def schedule_ok_def sample_orders_def)

lemmas local_eval =
  local_provider_def local_manifest_def local_read_file_to_path_def local_write_file_from_path_def local_delete_file_def
  local_create_directory_def local_prime_hash_def copy_to_def local_create_dir_all_def resolve_path_def validate_relative_path_def
  check_relative_path_def reject_path_traversal_def path_components_def names_directory_def path_exists_def entry_path_def
  cached_hash_def prime_cache_def absolute_text_def starts_with_def Let_def

lemmas engine_eval =
  execute_sync_def execute_plan_def check_cancel_def ask_cancel_def plan_def compute_sync_actions_def compute_one_way_def
  compute_two_way_def one_way_source_step_def one_way_target_step_def two_way_source_step_def two_way_target_step_def
  no_actions_def collect_map_def files_equal_def path_depth_def download_task_def upload_task_def mkdir_task_def delete_task_def
  transfer_def read_with_retry_def hash_matches_def prime_def add_bytes_def record_synced_def upsert_sync_state_def
  mark_deleted_def push_error_def empty_result_def

lemmas sample_eval = sample_local_env_def sample_engine_env_def sample_orders_def sample_engine_def

lemma sample_manifests:
  "fst (local_manifest sample_local_env (e_source sample_engine)) = Inr
     [\<lparr>relative_path = ''a'', fsize = 1, modified_at = 5, is_directory = False, fhash = Some ''one''\<rparr>,
      \<lparr>relative_path = ''d'', fsize = 0, modified_at = 0, is_directory = True, fhash = None\<rparr>,
      \<lparr>relative_path = ''d/b'', fsize = 2, modified_at = 6, is_directory = False, fhash = Some ''other''\<rparr>]"
  "fst (local_manifest sample_local_env (e_target sample_engine)) = Inr
     [\<lparr>relative_path = ''a'', fsize = 1, modified_at = 6, is_directory = False, fhash = Some ''other''\<rparr>,
      \<lparr>relative_path = ''x'', fsize = 1, modified_at = 0, is_directory = False, fhash = Some ''other''\<rparr>]"
  by (simp_all add: local_eval sample_eval)

lemma sample_contents:
  "local_contents (e_source sample_engine) ''a'' = Some [1]" "local_contents (e_source sample_engine) ''d/b'' = Some [2, 3]"
  "local_contents (e_target sample_engine) ''a'' = Some [9]" "local_contents (e_target sample_engine) ''x'' = Some [4]"
  by (simp_all add: sample_engine_def local_contents_def plain_path_def plain_name_def)

theorem one_way_sync_mirrors_witness:
  "map (local_contents (e_target (snd (execute_sync sample_engine_env sample_orders (local_provider sample_local_env)
     (local_provider sample_local_env) OneWay Permanent ''r'' sample_engine)))) [''a'', ''d/b'', ''x''] = [Some [1], Some [2, 3], None]"
proof -
  let ?run = "execute_sync sample_engine_env sample_orders (local_provider sample_local_env) (local_provider sample_local_env)
     OneWay Permanent ''r'' sample_engine"
  have "\<exists>res. fst ?run = Inr res \<and> errors res = []"
    by (simp add: engine_eval local_eval sample_eval)
  then obtain res where res: "fst ?run = Inr res" "errors res = []" by blast
  from one_way_sync_mirrors [OF sample_ok res] show ?thesis
    unfolding sample_manifests by (auto simp: to_copy_def to_remove_def manifest_at_def files_equal_def sample_contents)
qed


theorem two_way_sync_exchanges_witness:
  "map (local_contents (e_source (snd (execute_sync sample_engine_env sample_orders (local_provider sample_local_env)
     (local_provider sample_local_env) TwoWay Trash ''r'' sample_engine)))) [''a'', ''d/b'', ''x''] = [Some [9], Some [2, 3], Some [4]]"
proof -
  let ?run = "execute_sync sample_engine_env sample_orders (local_provider sample_local_env) (local_provider sample_local_env)
     TwoWay Trash ''r'' sample_engine"
  have "\<exists>res. fst ?run = Inr res \<and> errors res = []"
    by (simp add: engine_eval local_eval sample_eval)
  then obtain res where res: "fst ?run = Inr res" "errors res = []" by blast
  from two_way_sync_exchanges [OF sample_ok res] show ?thesis
    unfolding sample_manifests by (auto simp: pushed_def manifest_at_def files_equal_def sample_contents)
qed

theorem conflict_keeps_target_version_witness:
  "\<exists>p. local_contents (e_target (conflict_task sample_engine_env (local_provider sample_local_env) (local_provider sample_local_env) ''r''
     \<lparr>conflict_path_of = ''a'', source_state = undefined, target_state = undefined\<rparr> sample_engine)) p = Some [9]"
proof -
  have "plain_path ''a''" by (simp add: plain_path_def plain_name_def)
  then show ?thesis
    using conflict_keeps_target_version [OF sample_ok(1,2), of "\<lparr>conflict_path_of = ''a'', source_state = undefined, target_state = undefined\<rparr>"
        sample_engine_env sample_local_env sample_local_env "''r''"]
    unfolding sync_conflict.select_convs sample_contents(3) by blast
qed

text \<open>In a two-way plan a directory that only the target has is scheduled for creation on the
  target, where it already is; it is never created on the source, so every later run plans it
  again.\<close>

lemma target_only_directory_replanned:
  assumes "order_ok so" "order_ok to" "manifest_at src p = None" "manifest_at tgt p = Some g" "is_directory g"
  shows "p \<in> set (to_create_directories (compute_sync_actions so to src tgt TwoWay mode))"
    and "e_source (mkdir_task tapi p st) = e_source st"
proof -
  have "p \<in> set (map fst (filter (needs_dir (collect_map so src)) (collect_map to tgt)))"
    unfolding in_filter_fst [OF assms(2)] using assms collect_map_props(2) [OF assms(1)] by (simp add: needs_dir_def)
  then show "p \<in> set (to_create_directories (compute_sync_actions so to src tgt TwoWay mode))"
    by (simp add: plan_simps fold_two_way_source fold_two_way_target)
  show "e_source (mkdir_task tapi p st) = e_source st" by (rule mkdir_effect(2))
qed

end
