(* ===== verification/FileSyncLoop.thy ===== *)
theory FileSyncLoop
  imports FileSyncEngine
begin

text \<open>
  The retry loop of a sync rule, \<open>run_sync_loop\<close> of \<open>file_sync/engine.rs\<close>, as a step relation.
  One step is one round of its \<open>select!\<close>: the timer, a trigger, cancellation or the loss of all
  trigger senders.  Times are seconds; an instant of a step and the result of the sync it
  starts are arbitrary.  The \<open>u32\<close> counters are words with saturating addition.
\<close>

section \<open>Backoff\<close>

definition INITIAL_RETRY :: nat where "INITIAL_RETRY = 30"
definition MAX_RETRY_INTERVAL :: nat where "MAX_RETRY_INTERVAL = 30 * 60"
definition MAX_CONSECUTIVE_FAILURES :: "32 word" where "MAX_CONSECUTIVE_FAILURES = 20"

definition backoff_duration :: "32 word \<Rightarrow> nat" where
  "backoff_duration consecutive_failures =
     (if consecutive_failures = 0 then INITIAL_RETRY
      else (let shift = min (unat (consecutive_failures - 1)) 10;
                secs = min (INITIAL_RETRY * 2 ^ shift) (2 ^ 64 - 1)
            in min secs MAX_RETRY_INTERVAL))"

definition saturating_inc :: "32 word \<Rightarrow> 32 word" where
  "saturating_inc n = (if n = - 1 then n else n + 1)"


section \<open>The loop\<close>

datatype loop_status = LoopRunning | LoopCancelled | LoopSendersDropped | LoopAutoPaused "32 word" string

record loop_state =
  consecutive_failures :: "32 word"
  pause_failures :: "32 word"
  next_wait :: nat
  last_error_text :: string
  next_attempt_at :: nat
  entered_at :: nat
  status :: loop_status

type_synonym sync_outcome = "(sync_engine_error, sync_result) result"

fun engine_error_text :: "sync_engine_error \<Rightarrow> string" where
  "engine_error_text (ProviderFailed e) = ''Provider error: '' @ provider_error_text e"
| "engine_error_text (SourceUnavailable e) = ''Source unavailable: '' @ provider_error_text e"
| "engine_error_text (TargetUnavailable e) = ''Target unavailable: '' @ provider_error_text e"
| "engine_error_text (DatabaseFailed e) = ''Database error: '' @ e"
| "engine_error_text Cancelled = ''Cancelled''"

fun is_unavailable :: "sync_engine_error \<Rightarrow> bool" where
  "is_unavailable (SourceUnavailable _) = True"
| "is_unavailable (TargetUnavailable _) = True"
| "is_unavailable _ = False"

definition stop_if_exhausted :: "loop_state \<Rightarrow> loop_state" where
  "stop_if_exhausted st =
     (if pause_failures st \<ge> MAX_CONSECUTIVE_FAILURES
      then st\<lparr>status := LoopAutoPaused (pause_failures st) (last_error_text st)\<rparr> else st)"

definition loop_init :: "nat \<Rightarrow> nat \<Rightarrow> sync_outcome \<Rightarrow> loop_state" where
  "loop_init interval now result =
     (let cf = (case result of Inl _ \<Rightarrow> 1 | Inr _ \<Rightarrow> 0);
          pf = (case result of Inl e \<Rightarrow> if is_unavailable e then 0 else 1 | Inr _ \<Rightarrow> 0);
          wait = (if cf > 0 then backoff_duration cf else interval)
      in stop_if_exhausted \<lparr>consecutive_failures = cf, pause_failures = pf, next_wait = wait,
           last_error_text = (case result of Inl e \<Rightarrow> engine_error_text e | Inr _ \<Rightarrow> []),
           next_attempt_at = now + wait, entered_at = now, status = LoopRunning\<rparr>)"

definition after_sync :: "nat \<Rightarrow> nat \<Rightarrow> sync_outcome \<Rightarrow> loop_state \<Rightarrow> loop_state" where
  "after_sync interval now result st =
     (let st = (case result of
                  Inl e \<Rightarrow>
                    (let cf = saturating_inc (consecutive_failures st) in
                     st\<lparr>consecutive_failures := cf,
                        pause_failures := (if is_unavailable e then pause_failures st else saturating_inc (pause_failures st)),
                        last_error_text := engine_error_text e, next_wait := backoff_duration cf\<rparr>)
                | Inr _ \<Rightarrow> st\<lparr>consecutive_failures := 0, pause_failures := 0, last_error_text := [], next_wait := interval\<rparr>)
      in stop_if_exhausted (st\<lparr>next_attempt_at := now + next_wait st, entered_at := now\<rparr>))"

text \<open>The sync of a step starts at \<open>now\<close> and ends at \<open>fin\<close>; the label records the start and the result.\<close>

inductive loop_step :: "nat \<Rightarrow> loop_state \<Rightarrow> (nat \<times> sync_outcome) option \<Rightarrow> loop_state \<Rightarrow> bool" for interval where
  cancel: "status st = LoopRunning \<Longrightarrow> loop_step interval st None (st\<lparr>status := LoopCancelled\<rparr>)"
| timer: "status st = LoopRunning \<Longrightarrow> interval \<noteq> 0 \<Longrightarrow> entered_at st + next_wait st \<le> now \<Longrightarrow> now \<le> fin \<Longrightarrow>
    loop_step interval st (Some (now, result)) (after_sync interval fin result st)"
| dropped: "status st = LoopRunning \<Longrightarrow> loop_step interval st None (st\<lparr>status := LoopSendersDropped\<rparr>)"
| suppressed: "status st = LoopRunning \<Longrightarrow> entered_at st \<le> now \<Longrightarrow> consecutive_failures st > 0 \<Longrightarrow> now < next_attempt_at st \<Longrightarrow>
    loop_step interval st None (st\<lparr>entered_at := now\<rparr>)"
| trigger: "status st = LoopRunning \<Longrightarrow> entered_at st \<le> now \<Longrightarrow> \<not> (consecutive_failures st > 0 \<and> now < next_attempt_at st) \<Longrightarrow>
    now \<le> fin \<Longrightarrow> loop_step interval st (Some (now, result)) (after_sync interval fin result st)"

text \<open>The states of a loop, with the results of its syncs so far.\<close>

inductive loop_run :: "nat \<Rightarrow> sync_outcome list \<Rightarrow> loop_state \<Rightarrow> bool" for interval where
  start: "loop_run interval [result] (loop_init interval now result)"
| quiet: "loop_run interval outs st \<Longrightarrow> loop_step interval st None st' \<Longrightarrow> loop_run interval outs st'"
| sync: "loop_run interval outs st \<Longrightarrow> loop_step interval st (Some (now, result)) st' \<Longrightarrow> loop_run interval (outs @ [result]) st'"

inductive_cases loop_step_quietE: "loop_step interval st None st'"
inductive_cases loop_step_syncE: "loop_step interval st (Some (now, result)) st'"


section \<open>What the counters mean\<close>

text \<open>The failures since the last success, and those of them that count towards the pause.\<close>

definition failure_streak :: "sync_outcome list \<Rightarrow> sync_outcome list" where
  "failure_streak outs = takeWhile (\<lambda>r. \<not> is_ok r) (rev outs)"

definition counts_to_pause :: "sync_outcome \<Rightarrow> bool" where
  "counts_to_pause r = (case r of Inl e \<Rightarrow> \<not> is_unavailable e | Inr _ \<Rightarrow> False)"

definition retry_wait :: "nat \<Rightarrow> nat \<Rightarrow> nat" where
  "retry_wait interval failures = (if failures = 0 then interval else min (30 * 2 ^ (failures - 1)) 1800)"

lemma failure_streak_snoc [simp]:
  "failure_streak (outs @ [Inr x]) = []" "failure_streak (outs @ [Inl e]) = Inl e # failure_streak outs"
  by (simp_all add: failure_streak_def)

lemma saturating_inc_unat: "unat (saturating_inc n) = min (Suc (unat n)) (2 ^ 32 - 1)"
proof (cases "n = - 1")
  case True
  then show ?thesis by (simp add: saturating_inc_def unsigned_minus_1_eq_mask mask_eq_exp_minus_1)
next
  case False
  then have "unat (n + 1) = Suc (unat n)"
    by (metis add.commute add.inverse_inverse eq_neg_iff_add_eq_0 unatSuc)
  moreover from this have "Suc (unat n) < 2 ^ 32" using unsigned_less [of "n + 1", where 'a = nat] by simp
  ultimately show ?thesis using False by (simp add: saturating_inc_def)
qed

lemma backoff_exact:
  assumes "0 < k" "unat n = min k (2 ^ 32 - 1)"
  shows "backoff_duration n = retry_wait interval k"
proof -
  have n: "n \<noteq> 0" using assms by auto
  have "unat (n - 1) = unat n - 1" using n by (simp add: unat_minus_one)
  then have s: "min (unat (n - 1)) 10 = min (k - 1) 10" using assms(2) by auto
  show ?thesis
  proof (cases "k - 1 \<le> 10")
    case True
    then have "(2::nat) ^ (k - 1) \<le> 2 ^ 10" by (intro power_increasing) auto
    then show ?thesis using n s True assms(1)
      by (simp add: backoff_duration_def retry_wait_def INITIAL_RETRY_def MAX_RETRY_INTERVAL_def Let_def)
  next
    case False
    then have "(2::nat) ^ (k - 1) \<ge> 2 ^ 10" by (intro power_increasing) auto
    then show ?thesis using n s False assms(1)
      by (simp add: backoff_duration_def retry_wait_def INITIAL_RETRY_def MAX_RETRY_INTERVAL_def Let_def)
  qed
qed

definition counters_ok :: "nat \<Rightarrow> sync_outcome list \<Rightarrow> loop_state \<Rightarrow> bool" where
  "counters_ok interval outs st \<longleftrightarrow>
     unat (consecutive_failures st) = min (length (failure_streak outs)) (2 ^ 32 - 1)
     \<and> unat (pause_failures st) = length (filter counts_to_pause (failure_streak outs))
     \<and> next_wait st = retry_wait interval (length (failure_streak outs))
     \<and> next_attempt_at st \<le> entered_at st + next_wait st
     \<and> (case status st of
          LoopAutoPaused n msg \<Rightarrow> n = 20 \<and> pause_failures st = 20
        | _ \<Rightarrow> pause_failures st < 20)"

lemma stop_if_exhausted_sel [simp]:
  "consecutive_failures (stop_if_exhausted st) = consecutive_failures st" "pause_failures (stop_if_exhausted st) = pause_failures st"
  "next_wait (stop_if_exhausted st) = next_wait st" "next_attempt_at (stop_if_exhausted st) = next_attempt_at st"
  "entered_at (stop_if_exhausted st) = entered_at st"
  by (simp_all add: stop_if_exhausted_def)

lemma stop_if_exhausted_status:
  assumes "status st = LoopRunning" "pause_failures st \<le> 20"
  shows "case status (stop_if_exhausted st) of LoopAutoPaused n msg \<Rightarrow> n = 20 \<and> pause_failures st = 20 | _ \<Rightarrow> pause_failures st < 20"
  using assms by (auto simp: stop_if_exhausted_def MAX_CONSECUTIVE_FAILURES_def not_le)

lemma after_sync_counters:
  assumes "counters_ok interval outs st" "status st = LoopRunning"
  shows "counters_ok interval (outs @ [result]) (after_sync interval fin result st)"
proof -
  have pf: "pause_failures st < 20" "unat (pause_failures st) < 20"
    using assms by (auto simp: counters_ok_def word_less_nat_alt)
  show ?thesis
  proof (cases result)
    case (Inl e)
    let ?cf = "saturating_inc (consecutive_failures st)"
    have cf: "unat ?cf = min (length (failure_streak (outs @ [result]))) (2 ^ 32 - 1)"
      using assms(1) Inl by (simp add: counters_ok_def saturating_inc_unat)
    have p: "unat (saturating_inc (pause_failures st)) = Suc (unat (pause_failures st))"
      using pf(2) by (simp add: saturating_inc_unat)
    have wait: "backoff_duration ?cf = retry_wait interval (length (failure_streak (outs @ [result])))"
      by (rule backoff_exact [OF _ cf]) (simp add: Inl)
    let ?pf = "if is_unavailable e then pause_failures st else saturating_inc (pause_failures st)"
    have le: "?pf \<le> 20" using pf p by (auto simp: word_le_nat_alt)
    define st1 where "st1 = st\<lparr>consecutive_failures := ?cf, pause_failures := ?pf, last_error_text := engine_error_text e,
        next_wait := backoff_duration ?cf, next_attempt_at := fin + backoff_duration ?cf, entered_at := fin\<rparr>"
    have eq: "after_sync interval fin result st = stop_if_exhausted st1"
      by (simp add: after_sync_def Inl Let_def st1_def)
    have "case status (stop_if_exhausted st1) of LoopAutoPaused n msg \<Rightarrow> n = 20 \<and> pause_failures st1 = 20 | _ \<Rightarrow> pause_failures st1 < 20"
      by (rule stop_if_exhausted_status) (use assms(2) le in \<open>simp_all add: st1_def\<close>)
    moreover have "unat ?pf = length (filter counts_to_pause (failure_streak (outs @ [result])))"
      using assms(1) p by (simp add: counters_ok_def Inl counts_to_pause_def)
    ultimately show ?thesis
      unfolding counters_ok_def eq stop_if_exhausted_sel using cf wait by (simp add: st1_def)
  next
    case (Inr x)
    then show ?thesis using assms
      by (simp add: counters_ok_def after_sync_def Let_def retry_wait_def stop_if_exhausted_def MAX_CONSECUTIVE_FAILURES_def)
  qed
qed

lemma loop_init_counters: "counters_ok interval [result] (loop_init interval now result)"
proof -
  have streak: "failure_streak [Inl e] = [Inl e]" "failure_streak [Inr x] = []" for e :: sync_engine_error and x :: sync_result
    by (simp_all add: failure_streak_def)
  have "backoff_duration 1 = retry_wait interval 1" by (rule backoff_exact) simp_all
  then show ?thesis
    by (cases result) (auto simp: counters_ok_def loop_init_def Let_def streak counts_to_pause_def retry_wait_def
        stop_if_exhausted_def MAX_CONSECUTIVE_FAILURES_def word_le_nat_alt)
qed

lemma loop_run_counters: "loop_run interval outs st \<Longrightarrow> counters_ok interval outs st"
proof (induction rule: loop_run.induct)
  case (start result now)
  show ?case by (rule loop_init_counters)
next
  case (quiet outs st st')
  from quiet(2,3) show ?case
    by (cases rule: loop_step_quietE) (auto simp: counters_ok_def split: loop_status.splits)
next
  case (sync outs st now result st')
  from sync(2) obtain fin where "st' = after_sync interval fin result st" "status st = LoopRunning"
    by (cases rule: loop_step_syncE) auto
  then show ?case using after_sync_counters sync(3) by blast
qed



text \<open>The loop can always go on: a running loop with a timer starts its next sync once the wait
  is over, and the wait is at most the longer of the interval and half an hour.\<close>

lemma retry_wait_bound: "retry_wait interval k \<le> max interval 1800"
  by (auto simp: retry_wait_def min_def max_def)

text \<open>While it runs, a rule with a timer is never stuck: whatever happened before, the next
  sync can start at most the longer of its interval and half an hour after the loop went back
  to waiting, and when that sync succeeds the loop is running with its normal interval, no
  failure counted.\<close>

theorem sync_loop_recovers:
  assumes "loop_run interval outs st" "status st = LoopRunning" "interval \<noteq> 0"
  shows "\<exists>now st'. now \<le> entered_at st + max interval 1800 \<and> loop_step interval st (Some (now, Inr x)) st'
    \<and> status st' = LoopRunning \<and> next_wait st' = interval \<and> consecutive_failures st' = 0 \<and> pause_failures st' = 0"
proof -
  let ?now = "entered_at st + next_wait st"
  let ?st' = "after_sync interval ?now (Inr x) st"
  have "next_wait st \<le> max interval 1800"
    using loop_run_counters [OF assms(1)] retry_wait_bound by (simp add: counters_ok_def)
  moreover have "loop_step interval st (Some (?now, Inr x)) ?st'" using assms(2,3) by (intro loop_step.timer) simp_all
  moreover have "status ?st' = LoopRunning \<and> next_wait ?st' = interval \<and> consecutive_failures ?st' = 0 \<and> pause_failures ?st' = 0"
    using assms(2) by (simp add: after_sync_def stop_if_exhausted_def MAX_CONSECUTIVE_FAILURES_def Let_def word_le_nat_alt)
  ultimately show ?thesis by (intro exI [of _ ?now] exI [of _ ?st']) simp
qed

theorem sync_loop_recovers_witness:
  "\<exists>now st'. now \<le> 1800 \<and> loop_step 300 (loop_init 300 0 (Inl Cancelled)) (Some (now, Inr empty_result)) st' \<and> next_wait st' = 300"
proof -
  have "status (loop_init 300 0 (Inl Cancelled)) = LoopRunning" "entered_at (loop_init 300 0 (Inl Cancelled)) = 0"
    by (simp_all add: loop_init_def stop_if_exhausted_def MAX_CONSECUTIVE_FAILURES_def Let_def word_le_nat_alt)
  then show ?thesis using sync_loop_recovers [OF loop_run.start, of 300 0 "Inl Cancelled" empty_result] by auto
qed

end
