(* ===== verification/CrdtApply.thy ===== *)
theory CrdtApply
  imports CrdtDb
begin

text \<open>
  \<open>crdt/commands.rs\<close>: applying a batch of remote column changes in one
  transaction.  Changes are grouped by transaction timestamp and by row, every
  column is merged last-writer-wins against its own clock, absent rows are
  inserted, delete-log entries are propagated to their target tables, and the
  local clock is moved past the received timestamps.

  The iteration order of a Rust \<open>HashMap\<close> or \<open>HashSet\<close> is not specified; it is the
  argument \<open>iter\<close>, a record of three reorderings, of the definitions that iterate
  one.
\<close>

section \<open>Remote changes and their grouping\<close>

record remote_column_change =
  table_name :: string
  row_pks :: string
  column_name :: string
  hlc_timestamp :: string
  decrypted_value :: json

type_synonym row_key = "string \<times> string"

record hash_order =
  order_hlcs :: "(string \<times> remote_column_change list) list \<Rightarrow> (string \<times> remote_column_change list) list"
  order_rows :: "(row_key \<times> remote_column_change list) list \<Rightarrow> (row_key \<times> remote_column_change list) list"
  order_ids :: "string list \<Rightarrow> string list"

definition hash_order_ok :: "hash_order \<Rightarrow> bool" where
  "hash_order_ok iter \<longleftrightarrow>
     (\<forall>xs. mset (order_hlcs iter xs) = mset xs) \<and>
     (\<forall>xs. mset (order_rows iter xs) = mset xs) \<and>
     (\<forall>xs. mset (order_ids iter xs) = mset xs)"

definition group_by_transaction_hlc ::
  "hash_order \<Rightarrow> remote_column_change list \<Rightarrow> (string \<times> remote_column_change list) list" where
  "group_by_transaction_hlc iter changes =
     sort_by (\<lambda>a b. compare_hlc_strings (fst a) (fst b))
       (order_hlcs iter (group_by hlc_timestamp changes))"

definition row_group_min :: "row_key \<times> remote_column_change list \<Rightarrow> string option" where
  "row_group_min g = hlc_min (map hlc_timestamp (snd g))"

fun compare_min :: "string option \<Rightarrow> string option \<Rightarrow> ordering" where
  "compare_min (Some am) (Some bm) = compare_hlc_strings am bm"
| "compare_min (Some _) None = Less"
| "compare_min None (Some _) = Greater"
| "compare_min None None = Equal"

definition group_row_changes_in_hlc_order ::
  "hash_order \<Rightarrow> remote_column_change list \<Rightarrow> (row_key \<times> remote_column_change list) list" where
  "group_row_changes_in_hlc_order iter changes =
     sort_by (\<lambda>a b. compare_min (row_group_min a) (row_group_min b))
       (order_rows iter (group_by (\<lambda>c. (table_name c, row_pks c)) changes))"


section \<open>Row selection\<close>

text \<open>A \<open>WHERE\<close> clause on primary keys is the list of its conjuncts.\<close>

datatype pk_cond = IsNull string | EqParam string sql_value

fun cond_holds :: "sql_engine \<Rightarrow> (string \<Rightarrow> sql_value) \<Rightarrow> pk_cond \<Rightarrow> bool" where
  "cond_holds env get (IsNull c) \<longleftrightarrow> get c = SNull"
| "cond_holds env get (EqParam c v) \<longleftrightarrow> get c \<noteq> SNull \<and> v \<noteq> SNull \<and> sql_eq env (get c) v"

definition row_matches :: "sql_engine \<Rightarrow> pk_cond list \<Rightarrow> row \<Rightarrow> bool" where
  "row_matches env conds r \<longleftrightarrow> (\<forall>c\<in>set conds. cond_holds env (cell env r) c)"

definition build_pk_where_clause ::
  "sql_engine \<Rightarrow> column_info list \<Rightarrow> (string \<times> json) list \<Rightarrow> pk_cond list" where
  "build_pk_where_clause env pk_columns pks =
     map (\<lambda>col. case map_of pks (col_name col) of
                   None \<Rightarrow> IsNull (col_name col)
                 | Some JNull \<Rightarrow> IsNull (col_name col)
                 | Some v \<Rightarrow> EqParam (col_name col) (json_to_rusqlite_value env v)) pk_columns"

definition build_pk_where_from_map ::
  "sql_engine \<Rightarrow> (string \<times> json) list \<Rightarrow> pk_cond list option" where
  "build_pk_where_from_map env pks =
     (if pks = [] then None
      else if (\<exists>p\<in>set pks. \<not> is_safe_identifier (fst p)) then None
      else Some (map (\<lambda>(c, v). case v of
                        JNull \<Rightarrow> IsNull c
                      | _ \<Rightarrow> EqParam c (json_to_rusqlite_value env v)) pks))"


section \<open>Merging the changes of one row\<close>

text \<open>The loop state: column clocks, columns to write, row clock, pending columns.\<close>

record merge_state =
  m_hlcs :: "string \<rightharpoonup> string"
  m_updates :: "(string \<times> json \<times> string) list"
  m_max :: string
  m_pending :: "string list"

definition current_hlc :: "(string \<rightharpoonup> string) \<Rightarrow> string \<Rightarrow> string" where
  "current_hlc hlcs c = (case hlcs c of None \<Rightarrow> [] | Some h \<Rightarrow> h)"

definition merge_change :: "string set \<Rightarrow> remote_column_change \<Rightarrow> merge_state \<Rightarrow> merge_state" where
  "merge_change existing change st =
     (if column_name change \<notin> existing
      then st\<lparr>m_hlcs := (m_hlcs st)(column_name change \<mapsto> hlc_timestamp change),
              m_pending := m_pending st @ [column_name change]\<rparr>
      else if hlc_is_newer (hlc_timestamp change) (current_hlc (m_hlcs st) (column_name change))
      then st\<lparr>m_hlcs := (m_hlcs st)(column_name change \<mapsto> hlc_timestamp change),
              m_updates := m_updates st @ [(column_name change, decrypted_value change, hlc_timestamp change)],
              m_max := (if hlc_is_newer (hlc_timestamp change) (m_max st)
                        then hlc_timestamp change else m_max st)\<rparr>
      else st)"

definition merge_row_changes ::
  "string set \<Rightarrow> (string \<rightharpoonup> string) \<Rightarrow> remote_column_change list \<Rightarrow> merge_state" where
  "merge_row_changes existing hlcs changes =
     fold (merge_change existing) changes
       \<lparr>m_hlcs = hlcs, m_updates = [],
        m_max = (case changes of [] \<Rightarrow> [] | c # _ \<Rightarrow> hlc_timestamp c), m_pending = []\<rparr>"

text \<open>\<open>INSERT OR IGNORE\<close> into the pending column table.\<close>

definition add_pending :: "string \<Rightarrow> string list \<Rightarrow> crdt_db \<Rightarrow> crdt_db" where
  "add_pending t cols db =
     db\<lparr>pending_columns :=
          fold (\<lambda>c ps. if (t, c) \<in> set ps then ps else ps @ [(t, c)]) cols (pending_columns db)\<rparr>"

text \<open>\<open>UPDATE t SET c1 = v1, ..., haex_column_hlcs = ?, haex_hlc = ?\<close>: of several
  assignments to a column the rightmost one counts, so assignments to the two
  clock columns before the last two have no effect.\<close>

definition assign_cells :: "sql_engine \<Rightarrow> (string \<times> json \<times> string) list \<Rightarrow> (string \<rightharpoonup> sql_value) \<Rightarrow> (string \<rightharpoonup> sql_value)" where
  "assign_cells env ups m =
     fold (\<lambda>(c, v, _) m. if c = HLC_TIMESTAMP_COLUMN \<or> c = COLUMN_HLCS_COLUMN then m
                          else m(c \<mapsto> json_to_rusqlite_value env v)) ups m"

definition update_row :: "sql_engine \<Rightarrow> merge_state \<Rightarrow> row \<Rightarrow> row" where
  "update_row env st r =
     r\<lparr>cells := assign_cells env (m_updates st) (cells r),
       row_hlc := Some (m_max st),
       column_hlcs := m_hlcs st\<rparr>"

definition update_params :: "sql_engine \<Rightarrow> merge_state \<Rightarrow> (string \<times> sql_value) list" where
  "update_params env st = map (\<lambda>(c, v, _). (c, json_to_rusqlite_value env v)) (m_updates st)"

text \<open>The insert list pairs the key columns with the key values that are present
  in the row key, in this order, and appends the changed columns.\<close>

definition insert_params ::
  "sql_engine \<Rightarrow> column_info list \<Rightarrow> (string \<times> json) list \<Rightarrow> merge_state \<Rightarrow> (string \<times> sql_value) list" where
  "insert_params env pk_columns pks st =
     zip (map col_name pk_columns)
         (json_values_to_sql_params env
            (concat (map (\<lambda>c. case map_of pks (col_name c) of None \<Rightarrow> [] | Some v \<Rightarrow> [v]) pk_columns)))
     @ update_params env st"

text \<open>The local key of a conflict is the key of the first row of the table, as far as
  its columns hold text.  The random id and the wall-clock time of the entry are
  left out.\<close>

definition first_row_pk :: "sql_engine \<Rightarrow> table \<Rightarrow> string list \<Rightarrow> (string \<times> sql_value) list" where
  "first_row_pk env tb pk_names =
     (case rows tb of
        [] \<Rightarrow> []
      | r # _ \<Rightarrow> concat (map (\<lambda>n. case cell env r n of SText s \<Rightarrow> [(n, SText s)] | _ \<Rightarrow> []) pk_names))"

definition create_conflict_entry ::
  "sql_engine \<Rightarrow> crdt_db \<Rightarrow> table \<Rightarrow> string \<Rightarrow> string \<Rightarrow> (string \<times> sql_value) list \<Rightarrow> string
    \<Rightarrow> column_info list \<Rightarrow> crdt_db" where
  "create_conflict_entry env db tb t error_msg remote_row remote_timestamp cols =
     (let key = (case strip_prefix error_msg ''UNIQUE constraint failed: '' of
                   Some cs \<Rightarrow> cs | None \<Rightarrow> error_msg);
          pk_names = map col_name (filter is_pk cols);
          remote_pk = concat (map (\<lambda>n. case map_of (rev remote_row) n of
                                          None \<Rightarrow> [] | Some v \<Rightarrow> [(n, v)]) pk_names)
      in db\<lparr>conflicts := conflicts db @
               [\<lparr>conflict_table = t, conflict_key = key,
                 conflict_local_pk = first_row_pk env tb pk_names,
                 conflict_remote_pk = remote_pk,
                 conflict_remote_row = remote_row,
                 conflict_remote_timestamp = remote_timestamp\<rparr>]\<rparr>)"


section \<open>Applying the changes of one row\<close>

definition write_row ::
  "sql_engine \<Rightarrow> string \<Rightarrow> column_info list \<Rightarrow> (string \<times> json) list \<Rightarrow> pk_cond list \<Rightarrow> bool
    \<Rightarrow> merge_state \<Rightarrow> table \<Rightarrow> crdt_db \<Rightarrow> (db_error, crdt_db) result" where
  "write_row env t cols pks conds row_exists st tb db =
     (if m_updates st = [] then Inr db
      else if row_exists
      then (case update_violation env t tb (update_params env st) of
              Some e \<Rightarrow> Inl (SqlError e)
            | None \<Rightarrow>
                Inr (set_table t (tb\<lparr>rows := map (\<lambda>r. if row_matches env conds r
                                                        then update_row env st r else r) (rows tb)\<rparr>) db))
      else
        (let params = insert_params env (filter is_pk cols) pks st
         in (case insert_violation env t tb params of
               None \<Rightarrow> Inr (set_table t (tb\<lparr>rows := rows tb @ [stored_row env params (m_hlcs st) (m_max st)]\<rparr>) db)
             | Some msg \<Rightarrow>
                 if contains msg ''NOT NULL constraint failed'' then Inl (ExecutionError t msg)
                 else if contains msg ''UNIQUE constraint failed''
                 then Inr (create_conflict_entry env db tb t msg
                        (params @ [(COLUMN_HLCS_COLUMN, SText (hlcs_text env (m_hlcs st))),
                                   (HLC_TIMESTAMP_COLUMN, SText (m_max st))])
                        (m_max st) cols)
                 else Inl (SqlError msg))))"

definition apply_row ::
  "sql_engine \<Rightarrow> row_key \<times> remote_column_change list \<Rightarrow> crdt_db \<Rightarrow> (db_error, crdt_db) result" where
  "apply_row env g db =
     (let t = fst (fst g); changes = snd g
      in and_then (get_table_schema db t) (\<lambda>cols.
        if cols = [] then Inr db
        else
          (let (upgraded, db1) =
             (if has_column COLUMN_HLCS_COLUMN cols then (True, db)
              else (case ensure_crdt_columns_and_triggers db t of
                      (Inr _, db1) \<Rightarrow> (True, db1)
                    | (Inl _, db1) \<Rightarrow> (False, db1)))
           in if \<not> upgraded then Inr db1
              else (case parse_pks env (snd (fst g)) of
                      Inl e \<Rightarrow> Inl (SerializationError e)
                    | Inr pks \<Rightarrow>
                        (case tables db1 t of
                           None \<Rightarrow> Inr db1
                         | Some tb \<Rightarrow>
                             (let pk_columns = filter is_pk cols;
                                  conds = build_pk_where_clause env pk_columns pks
                              in if pk_columns = [] then Inl (SqlError ''syntax error'')
                                 else
                                   (let found = find (row_matches env conds) (rows tb);
                                        hlcs = (case found of None \<Rightarrow> Map.empty | Some r \<Rightarrow> column_hlcs r);
                                        st = merge_row_changes (set (map col_name cols)) hlcs changes
                                    in write_row env t cols pks conds (found \<noteq> None) st tb
                                         (add_pending t (m_pending st) db1))))))))"

fun apply_rows ::
  "sql_engine \<Rightarrow> (row_key \<times> remote_column_change list) list \<Rightarrow> crdt_db \<Rightarrow> (db_error, crdt_db) result" where
  "apply_rows env [] db = Inr db"
| "apply_rows env (g # gs) db = and_then (apply_row env g db) (apply_rows env gs)"


section \<open>Delete propagation\<close>

definition should_propagate_delete :: "string \<Rightarrow> string option \<Rightarrow> bool" where
  "should_propagate_delete delete_log_hlc target_row_hlc =
     (case target_row_hlc of
        None \<Rightarrow> True
      | Some target \<Rightarrow> compare_hlc_strings target delete_log_hlc \<noteq> Greater)"

text \<open>A delete-log row is read back by its id; its three text columns must be text.\<close>

definition read_delete_log :: "sql_engine \<Rightarrow> crdt_db \<Rightarrow> string \<Rightarrow> (db_error, (string \<times> string \<times> string) option) result" where
  "read_delete_log env db i =
     (case tables db DELETED_ROWS_TABLE of
        None \<Rightarrow> Inl (SqlError ''no such table'')
      | Some tb \<Rightarrow>
          (case find (\<lambda>r. sql_eq env (cell env r ''id'') (SText i)) (rows tb) of
             None \<Rightarrow> Inr None
           | Some r \<Rightarrow>
               (case (cell env r ''table_name'', cell env r ''row_pks'', row_hlc r) of
                  (SText t, SText p, Some h) \<Rightarrow> Inr (Some (t, p, h))
                | _ \<Rightarrow> Inl (SqlError ''invalid column type''))))"

text \<open>The key columns of a delete-log entry come from the entry, so they need not be
  columns of the target table: such a name is an error or a string literal.\<close>

definition operand :: "sql_engine \<Rightarrow> table \<Rightarrow> row \<Rightarrow> string \<Rightarrow> sql_value" where
  "operand env tb r c = (if has_column c (schema tb) then cell env r c else SText c)"

definition log_matches :: "sql_engine \<Rightarrow> table \<Rightarrow> pk_cond list \<Rightarrow> row \<Rightarrow> bool" where
  "log_matches env tb conds r \<longleftrightarrow> (\<forall>c\<in>set conds. cond_holds env (operand env tb r) c)"

definition propagate_entry :: "sql_engine \<Rightarrow> string \<times> string \<times> string \<Rightarrow> crdt_db \<Rightarrow> crdt_db" where
  "propagate_entry env entry db =
     (let (target_table, pks_json, delete_hlc) = entry
      in if \<not> is_safe_identifier target_table then db
         else (case parse_pks env pks_json of
                 Inl _ \<Rightarrow> db
               | Inr pks \<Rightarrow>
                   (case build_pk_where_from_map env pks of
                      None \<Rightarrow> db
                    | Some conds \<Rightarrow>
                        (case tables db target_table of
                           None \<Rightarrow> db
                         | Some tb \<Rightarrow>
                             if \<not> quoted_literals env \<and> \<not> (\<forall>p\<in>set pks. has_column (fst p) (schema tb))
                             then db
                             else
                               (let target_hlc = Option.bind (find (log_matches env tb conds) (rows tb)) row_hlc
                                in if should_propagate_delete delete_hlc target_hlc
                                   then set_table target_table
                                          (tb\<lparr>rows := filter (\<lambda>r. \<not> log_matches env tb conds r) (rows tb)\<rparr>) db
                                   else db)))))"

definition propagate_one :: "sql_engine \<Rightarrow> string \<Rightarrow> crdt_db \<Rightarrow> (db_error, crdt_db) result" where
  "propagate_one env i db =
     and_then (read_delete_log env db i) (\<lambda>entry.
       Inr (case entry of None \<Rightarrow> db | Some e \<Rightarrow> propagate_entry env e db))"

fun propagate_deleted_rows_to_target_tables ::
  "sql_engine \<Rightarrow> string list \<Rightarrow> crdt_db \<Rightarrow> (db_error, crdt_db) result" where
  "propagate_deleted_rows_to_target_tables env [] db = Inr db"
| "propagate_deleted_rows_to_target_tables env (i # is) db =
     and_then (propagate_one env i db) (propagate_deleted_rows_to_target_tables env is)"


section \<open>The whole batch\<close>

fun validate_changes :: "remote_column_change list \<Rightarrow> (db_error, unit) result" where
  "validate_changes [] = Inr ()"
| "validate_changes (c # cs) =
     (if \<not> is_safe_identifier (table_name c) then Inl (ValidationError (table_name c))
      else if \<not> is_safe_identifier (column_name c) then Inl (ValidationError (column_name c))
      else validate_changes cs)"

definition inbound_delete_log_ids :: "sql_engine \<Rightarrow> remote_column_change list \<Rightarrow> string list" where
  "inbound_delete_log_ids env changes =
     remdups (concat (map (\<lambda>c.
       if table_name c = DELETED_ROWS_TABLE
       then (case parse_pks env (row_pks c) of
               Inl _ \<Rightarrow> []
             | Inr pks \<Rightarrow> (case map_of pks ''id'' of Some (JString i) \<Rightarrow> [i] | _ \<Rightarrow> []))
       else []) changes))"

text \<open>The body of the transaction.  An error leaves the transaction uncommitted.\<close>

definition apply_in_transaction ::
  "sql_engine \<Rightarrow> hash_order \<Rightarrow> remote_column_change list \<Rightarrow> (string \<times> string) option
    \<Rightarrow> crdt_db \<Rightarrow> (db_error, crdt_db) result" where
  "apply_in_transaction env iter changes backend_info db =
     and_then (apply_rows env (group_row_changes_in_hlc_order iter changes)
                (db\<lparr>triggers_enabled := Some ''0''\<rparr>)) (\<lambda>db1.
     and_then (propagate_deleted_rows_to_target_tables env
                (order_ids iter (inbound_delete_log_ids env changes)) db1) (\<lambda>db2.
     let db3 = (case backend_info of
                  None \<Rightarrow> db2
                | Some (backend_id, max_hlc) \<Rightarrow>
                    if sync_backends db2 backend_id = None then db2
                    else db2\<lparr>sync_backends := (sync_backends db2)(backend_id \<mapsto> max_hlc)\<rparr>)
     in (case commit_error env of
           Some e \<Rightarrow> Inl (SqlError e)
         | None \<Rightarrow> Inr (db3\<lparr>triggers_enabled := Some ''1''\<rparr>))))"

text \<open>The result is the outcome, the database (unchanged when the transaction did
  not commit, up to the foreign key switch) and the clock service.\<close>

definition apply_remote_changes_to_db ::
  "sql_engine \<Rightarrow> hash_order \<Rightarrow> ('h, 'ts) uhlc_api \<Rightarrow> remote_column_change list
    \<Rightarrow> (string \<times> string) option \<Rightarrow> 'h hlc_service option \<Rightarrow> crdt_db
    \<Rightarrow> (db_error, unit) result \<times> crdt_db \<times> 'h hlc_service option" where
  "apply_remote_changes_to_db env iter api changes backend_info hlc_service db =
     (let ordered = concat (map snd (group_by_transaction_hlc iter changes))
      in (case validate_changes ordered of
            Inl e \<Rightarrow> (Inl e, db, hlc_service)
          | Inr _ \<Rightarrow>
              (case apply_in_transaction env iter ordered backend_info (db\<lparr>fk_enabled := False\<rparr>) of
                 Inl e \<Rightarrow> (Inl e, db\<lparr>fk_enabled := True\<rparr>, hlc_service)
               | Inr db' \<Rightarrow>
                   (let max_hlc = (case backend_info of
                          Some (_, h) \<Rightarrow> if h \<noteq> [] then h
                             else (case hlc_max (map hlc_timestamp ordered) of None \<Rightarrow> [] | Some m \<Rightarrow> m)
                        | None \<Rightarrow> (case hlc_max (map hlc_timestamp ordered) of None \<Rightarrow> [] | Some m \<Rightarrow> m))
                    in (Inr (), db'\<lparr>fk_enabled := True\<rparr>,
                        map_option (advance_past_remote api max_hlc) hlc_service)))))"


section \<open>Every cell is a last-writer-wins register\<close>

lemma assign_cells_snoc:
  "assign_cells env (ups @ [(c, v, h)]) m =
     (if c = HLC_TIMESTAMP_COLUMN \<or> c = COLUMN_HLCS_COLUMN then assign_cells env ups m
      else (assign_cells env ups m)(c \<mapsto> json_to_rusqlite_value env v))"
  by (simp add: assign_cells_def)

definition data_column :: "string \<Rightarrow> bool" where
  "data_column c \<longleftrightarrow> c \<noteq> HLC_TIMESTAMP_COLUMN \<and> c \<noteq> COLUMN_HLCS_COLUMN"

definition register :: "sql_engine \<Rightarrow> (string \<rightharpoonup> sql_value) \<Rightarrow> merge_state \<Rightarrow> string \<Rightarrow> string \<times> sql_value option" where
  "register env m st c = (current_hlc (m_hlcs st) c, assign_cells env (m_updates st) m c)"

definition change_register :: "sql_engine \<Rightarrow> remote_column_change \<Rightarrow> string \<times> sql_value option" where
  "change_register env ch = (hlc_timestamp ch, Some (json_to_rusqlite_value env (decrypted_value ch)))"

lemma register_merge_change:
  assumes "c \<in> existing" "data_column c"
  shows "register env m (merge_change existing ch st) c =
    (if column_name ch = c then hlc.lww (change_register env ch) (register env m st c)
     else register env m st c)"
proof (cases "column_name ch = c")
  case True
  then show ?thesis
    using assms
    by (auto simp: register_def change_register_def merge_change_def hlc.lww_def assign_cells_snoc
        data_column_def current_hlc_def)
next
  case False
  then show ?thesis
    by (auto simp: register_def merge_change_def assign_cells_snoc current_hlc_def)
qed

lemma register_fold:
  assumes "c \<in> existing" "data_column c"
  shows "register env m (fold (merge_change existing) changes st) c =
    fold hlc.lww (map (change_register env) (filter (\<lambda>ch. column_name ch = c) changes))
      (register env m st c)"
  by (induction changes arbitrary: st) (auto simp: register_merge_change [OF assms])

lemma register_start [simp]:
  "register env m \<lparr>m_hlcs = h, m_updates = [], m_max = x, m_pending = p\<rparr> c = (current_hlc h c, m c)"
  by (simp add: register_def assign_cells_def)

lemma register_row:
  assumes "c \<in> existing" "data_column c"
  shows "register env (cells r) (merge_row_changes existing (column_hlcs r) changes) c =
    fold hlc.lww (map (change_register env) (filter (\<lambda>ch. column_name ch = c) changes))
      (current_hlc (column_hlcs r) c, cells r c)"
  by (simp add: merge_row_changes_def register_fold [OF assms])

lemma update_row_register:
  "(current_hlc (column_hlcs (update_row env st r)) c, cells (update_row env st r) c) =
     register env (cells r) st c"
  by (simp add: update_row_def register_def)

lemma fold_lww:
  "fold hlc.lww = fold (\<lambda>new cur. if hlc_is_newer (fst new) (fst cur) then new else cur)"
  by (simp add: hlc.lww_def [abs_def])

text \<open>C1: Merging the changes of a row treats every data column of the local schema as
  an independent last-writer-wins register: the column's new clock and value are
  obtained by folding, over the changes to that column in the order received, the
  register that keeps the pair with the newer timestamp.\<close>

theorem merge_row_is_lww_register:
  assumes "c \<in> existing" "c \<noteq> HLC_TIMESTAMP_COLUMN" "c \<noteq> COLUMN_HLCS_COLUMN"
  shows "(let st = merge_row_changes existing (column_hlcs r) changes
          in (current_hlc (column_hlcs (update_row env st r)) c, cells (update_row env st r) c)) =
    fold (\<lambda>new cur. if hlc_is_newer (fst new) (fst cur) then new else cur)
      (map (\<lambda>ch. (hlc_timestamp ch, Some (json_to_rusqlite_value env (decrypted_value ch))))
        (filter (\<lambda>ch. column_name ch = c) changes))
      (current_hlc (column_hlcs r) c, cells r c)"
proof -
  have "data_column c" using assms by (simp add: data_column_def)
  then show ?thesis
    using register_row [OF assms(1), of env r changes]
    by (simp add: Let_def update_row_register change_register_def [abs_def] fold_lww)
qed

definition sample_change :: "string \<Rightarrow> string \<Rightarrow> string \<Rightarrow> remote_column_change" where
  "sample_change c h v = \<lparr>table_name = ''t'', row_pks = ''r1'', column_name = c,
     hlc_timestamp = h, decrypted_value = JString v\<rparr>"

lemmas sample_defs = sample_change_def sample_row_def sample_engine_def sample_schema_def
  sample_crdt_db_def

theorem merge_row_is_lww_register_witness:
  "(let st = merge_row_changes {''a'', ''b''} (column_hlcs sample_row)
             [sample_change ''a'' ''8/2'' ''old'', sample_change ''a'' ''12/2'' ''new'']
    in (current_hlc (column_hlcs (update_row sample_engine st sample_row)) ''a'',
        cells (update_row sample_engine st sample_row) ''a''))
   = (''12/2'', Some (SText ''new''))"
proof -
  have "''a'' \<noteq> HLC_TIMESTAMP_COLUMN" "''a'' \<noteq> COLUMN_HLCS_COLUMN"
    by (simp_all add: HLC_TIMESTAMP_COLUMN_def COLUMN_HLCS_COLUMN_def)
  then show ?thesis
    using merge_row_is_lww_register [of "''a''" "{''a'', ''b''}" sample_row
        "[sample_change ''a'' ''8/2'' ''old'', sample_change ''a'' ''12/2'' ''new'']" sample_engine]
    by (simp add: sample_defs current_hlc_def hlc_is_newer_key hlc_eval)
qed

lemma lww_comm_on:
  assumes "\<forall>x\<in>A. \<forall>y\<in>A. x \<noteq> y \<longrightarrow> hlc_is_newer (fst x) (fst y) \<or> hlc_is_newer (fst y) (fst x)"
    and "x \<in> A" "y \<in> A"
  shows "hlc.lww x \<circ> hlc.lww y = hlc.lww y \<circ> hlc.lww x"
  using assms by (cases "x = y") (auto simp: fun_eq_iff intro!: hlc.lww_commute)

lemma fold_lww_perm:
  assumes "\<forall>x\<in>set xs. \<forall>y\<in>set xs. x \<noteq> y \<longrightarrow> hlc_is_newer (fst x) (fst y) \<or> hlc_is_newer (fst y) (fst x)"
    and "mset xs = mset ys"
  shows "fold hlc.lww xs = fold hlc.lww ys"
  using lww_comm_on [OF assms(1)] assms(2) by (intro fold_multiset_equiv) auto

definition distinct_clocks :: "remote_column_change list \<Rightarrow> bool" where
  "distinct_clocks changes \<longleftrightarrow>
     (\<forall>x\<in>set changes. \<forall>y\<in>set changes. column_name x = column_name y \<and> x \<noteq> y \<longrightarrow>
        compare_hlc_strings (hlc_timestamp x) (hlc_timestamp y) \<noteq> Equal)"

lemma distinct_clocks_newer:
  assumes "distinct_clocks changes" "x \<in> set changes" "y \<in> set changes"
    and "column_name x = column_name y" "x \<noteq> y"
  shows "hlc_is_newer (hlc_timestamp x) (hlc_timestamp y) \<or> hlc_is_newer (hlc_timestamp y) (hlc_timestamp x)"
proof -
  have "compare_hlc_strings (hlc_timestamp x) (hlc_timestamp y) \<noteq> Equal"
    using assms unfolding distinct_clocks_def by blast
  then show ?thesis
    by (cases "compare_hlc_strings (hlc_timestamp x) (hlc_timestamp y)")
      (auto simp: hlc_is_newer_def compare_swap(1))
qed

text \<open>C2: Strong convergence of a row.  Two replicas that start from the same row and
  merge the same changes in different orders end with the same value and the same
  clock in every data column of the local schema, provided different changes to
  one column carry different timestamps.\<close>

theorem merge_row_converges:
  assumes "mset changes = mset changes'" "distinct_clocks changes"
    and "c \<in> existing" "c \<noteq> HLC_TIMESTAMP_COLUMN" "c \<noteq> COLUMN_HLCS_COLUMN"
  shows "cells (update_row env (merge_row_changes existing (column_hlcs r) changes) r) c =
         cells (update_row env (merge_row_changes existing (column_hlcs r) changes') r) c
       \<and> current_hlc (column_hlcs (update_row env (merge_row_changes existing (column_hlcs r) changes) r)) c =
         current_hlc (column_hlcs (update_row env (merge_row_changes existing (column_hlcs r) changes') r)) c"
proof -
  let ?regs = "\<lambda>cs. map (change_register env) (filter (\<lambda>ch. column_name ch = c) cs)"
  have "mset (?regs changes) = mset (?regs changes')"
    using assms(1) by simp
  moreover have "\<forall>x\<in>set (?regs changes). \<forall>y\<in>set (?regs changes). x \<noteq> y \<longrightarrow>
      hlc_is_newer (fst x) (fst y) \<or> hlc_is_newer (fst y) (fst x)"
    using distinct_clocks_newer [OF assms(2)] by (auto simp: change_register_def)
  ultimately have "fold hlc.lww (?regs changes) = fold hlc.lww (?regs changes')"
    by (intro fold_lww_perm)
  moreover have "data_column c" using assms by (simp add: data_column_def)
  ultimately have "register env (cells r) (merge_row_changes existing (column_hlcs r) changes) c
      = register env (cells r) (merge_row_changes existing (column_hlcs r) changes') c"
    by (simp add: register_row [OF assms(3)])
  then show ?thesis by (simp flip: update_row_register)
qed

theorem merge_row_converges_witness:
  "cells (update_row sample_engine (merge_row_changes {''a''} (column_hlcs sample_row)
       [sample_change ''a'' ''12/2'' ''new'', sample_change ''a'' ''10/3'' ''old'']) sample_row) ''a''
   = cells (update_row sample_engine (merge_row_changes {''a''} (column_hlcs sample_row)
       [sample_change ''a'' ''10/3'' ''old'', sample_change ''a'' ''12/2'' ''new'']) sample_row) ''a''"
proof -
  have "distinct_clocks [sample_change ''a'' ''12/2'' ''new'', sample_change ''a'' ''10/3'' ''old'']"
    by (simp add: distinct_clocks_def sample_change_def compare_swap hlc_eval)
  then show ?thesis
    using merge_row_converges [of _ "[sample_change ''a'' ''10/3'' ''old'', sample_change ''a'' ''12/2'' ''new'']"
        "''a''" "{''a''}" sample_engine sample_row]
    by (simp add: HLC_TIMESTAMP_COLUMN_def COLUMN_HLCS_COLUMN_def)
qed

lemma merge_hlc_fold:
  assumes "c \<in> existing"
  shows "current_hlc (m_hlcs (fold (merge_change existing) changes st)) c =
    fold hlc.later (map hlc_timestamp (filter (\<lambda>ch. column_name ch = c) changes))
      (current_hlc (m_hlcs st) c)"
  using assms
  by (induction changes arbitrary: st) (auto simp: merge_change_def hlc.later_def current_hlc_def)

lemma merge_stale_noop:
  assumes "\<forall>ch\<in>set changes. column_name ch \<in> existing \<longrightarrow>
      \<not> hlc_is_newer (hlc_timestamp ch) (current_hlc (m_hlcs st) (column_name ch))"
  shows "m_updates (fold (merge_change existing) changes st) = m_updates st"
  using assms
proof (induction changes arbitrary: st)
  case Nil
  then show ?case by simp
next
  case (Cons ch chs)
  have keep: "current_hlc (m_hlcs (merge_change existing ch st)) c = current_hlc (m_hlcs st) c"
    if "c \<in> existing" for c
    using that Cons.prems by (auto simp: merge_change_def current_hlc_def)
  have "m_updates (fold (merge_change existing) chs (merge_change existing ch st))
      = m_updates (merge_change existing ch st)"
    using Cons.prems keep by (intro Cons.IH) auto
  also have "\<dots> = m_updates st"
    using Cons.prems by (auto simp: merge_change_def)
  finally show ?case by simp
qed

text \<open>Re-delivery is harmless: merging changes into a row that has already merged
  them, in the same or in any other order or subset, writes no column.\<close>

theorem merge_row_redelivery:
  assumes "set changes' \<subseteq> set changes"
  shows "m_updates (merge_row_changes existing
    (column_hlcs (update_row env (merge_row_changes existing hlcs changes) r)) changes') = []"
proof -
  let ?h = "m_hlcs (merge_row_changes existing hlcs changes)"
  have stale: "\<not> hlc_is_newer (hlc_timestamp ch) (current_hlc ?h (column_name ch))"
    if "ch \<in> set changes'" "column_name ch \<in> existing" for ch
    unfolding merge_row_changes_def merge_hlc_fold [OF that(2)]
    using that(1) assms by (intro hlc.fold_later_upper) auto
  show ?thesis
    unfolding update_row_def row.simps
    by (subst merge_row_changes_def, subst merge_stale_noop) (use stale in auto)
qed

theorem merge_row_redelivery_witness:
  "m_updates (merge_row_changes {''a''}
    (column_hlcs (update_row sample_engine (merge_row_changes {''a''} (column_hlcs sample_row)
       [sample_change ''a'' ''12/2'' ''new'']) sample_row)) [sample_change ''a'' ''12/2'' ''new'']) = []"
  using merge_row_redelivery [of "[sample_change ''a'' ''12/2'' ''new'']" "[sample_change ''a'' ''12/2'' ''new'']"]
  by simp


section \<open>Grouping keeps the causal order\<close>

lemma compare_min_total: "compare_min a b = Greater \<Longrightarrow> compare_min b a \<noteq> Greater"
  by (cases a; cases b) (auto dest: hlc_cmp.compare_total)

lemma compare_min_trans:
  "compare_min a b \<noteq> Greater \<Longrightarrow> compare_min b c \<noteq> Greater \<Longrightarrow> compare_min a c \<noteq> Greater"
  by (cases a; cases b; cases c) (auto dest: hlc_cmp.compare_trans)

interpretation min_cmp: comparison compare_min
  by unfold_locales (auto dest: compare_min_total compare_min_trans)

lemma hlc_order_set [simp]:
  assumes "hash_order_ok iter"
  shows "set (order_hlcs iter xs) = set xs" "set (order_rows iter ys) = set ys"
    "set (order_ids iter zs) = set zs"
  using assms unfolding hash_order_ok_def by (metis set_mset_mset)+

lemma group_transaction_mem:
  assumes "hash_order_ok iter" "(h, g) \<in> set (group_by_transaction_hlc iter changes)"
  shows "g = filter (\<lambda>c. hlc_timestamp c = h) changes" "g \<noteq> []"
  using assms group_by_mem [of h g hlc_timestamp changes]
  by (auto simp: group_by_transaction_hlc_def)

lemma sorted_concat_groups:
  assumes "sorted_wrt (\<lambda>a b. compare_hlc_strings (fst a) (fst b) \<noteq> Greater) gs"
    and "\<forall>(h, g)\<in>set gs. \<forall>c\<in>set g. hlc_timestamp c = h"
  shows "sorted_wrt (\<lambda>a b. compare_hlc_strings (hlc_timestamp a) (hlc_timestamp b) \<noteq> Greater)
    (concat (map snd gs))"
  using assms
proof (induction gs)
  case Nil
  then show ?case by simp
next
  case (Cons hg gs)
  obtain h g where hg: "hg = (h, g)" by (cases hg)
  have same: "\<forall>c\<in>set g. hlc_timestamp c = h" using Cons.prems(2) hg by auto
  have "sorted_wrt (\<lambda>a b. compare_hlc_strings (hlc_timestamp a) (hlc_timestamp b) \<noteq> Greater) g"
    using same by (auto simp: sorted_wrt_iff_nth_less compare_swap)
      (metis compare_swap(2) nth_mem order.strict_trans ordering.distinct(5))
  moreover have "compare_hlc_strings (hlc_timestamp a) (hlc_timestamp b) \<noteq> Greater"
    if ab: "a \<in> set g" "b \<in> set (concat (map snd gs))" for a b
  proof -
    obtain h' g' where h': "(h', g') \<in> set gs" "b \<in> set g'" using ab(2) by auto
    then have "hlc_timestamp b = h'" using Cons.prems(2) by auto
    moreover have "compare_hlc_strings h h' \<noteq> Greater" using Cons.prems(1) hg h'(1) by auto
    ultimately show ?thesis using same ab(1) by simp
  qed
  ultimately show ?case
    using Cons hg by (auto simp: sorted_wrt_append)
qed

lemma batch_sorted:
  assumes "hash_order_ok iter"
  shows "sorted_wrt (\<lambda>a b. compare_hlc_strings (hlc_timestamp a) (hlc_timestamp b) \<noteq> Greater)
      (concat (map snd (group_by_transaction_hlc iter changes)))"
proof -
  have "sorted_wrt (hlc_cmp.cmp_le fst) (group_by_transaction_hlc iter changes)"
    unfolding group_by_transaction_hlc_def by (rule hlc_cmp.sort_by_sorted)
  then have "sorted_wrt (\<lambda>a b. compare_hlc_strings (fst a) (fst b) \<noteq> Greater)
      (group_by_transaction_hlc iter changes)"
    by (simp add: hlc_cmp.cmp_le_def [abs_def])
  then show ?thesis
    by (rule sorted_concat_groups) (auto dest: group_transaction_mem [OF assms])
qed

lemma batch_mset:
  assumes "hash_order_ok iter"
  shows "mset (concat (map snd (group_by_transaction_hlc iter changes))) = mset changes"
proof -
  have "mset (group_by_transaction_hlc iter changes) = mset (group_by hlc_timestamp changes)"
    using assms by (simp add: group_by_transaction_hlc_def hash_order_ok_def)
  then show ?thesis by (metis mset_concat_map_cong group_by_mset)
qed

lemma ordered_set:
  "hash_order_ok iter \<Longrightarrow> set (concat (map snd (group_by_transaction_hlc iter changes))) = set changes"
  using batch_mset by (metis set_mset_mset)

text \<open>Whatever order the hash maps iterate in, the batch handed to the row loop is
  sorted by ascending timestamp and is a permutation of the received changes: no
  change is lost, duplicated or invented.\<close>

theorem batch_order_correct:
  assumes "hash_order_ok iter"
  shows "sorted_wrt (\<lambda>a b. compare_hlc_strings (hlc_timestamp a) (hlc_timestamp b) \<noteq> Greater)
      (concat (map snd (group_by_transaction_hlc iter changes)))
    \<and> mset (concat (map snd (group_by_transaction_hlc iter changes))) = mset changes"
  using batch_sorted [OF assms] batch_mset [OF assms] by blast

definition sample_order :: hash_order where
  "sample_order = \<lparr>order_hlcs = rev, order_rows = rev, order_ids = rev\<rparr>"

lemma sample_order_ok: "hash_order_ok sample_order"
  by (simp add: hash_order_ok_def sample_order_def)

theorem batch_order_correct_witness:
  "mset (concat (map snd (group_by_transaction_hlc sample_order
     [sample_change ''a'' ''100/1'' ''x'', sample_change ''b'' ''99/1'' ''y'']))) =
   mset [sample_change ''a'' ''100/1'' ''x'', sample_change ''b'' ''99/1'' ''y'']"
  using batch_order_correct [OF sample_order_ok] by blast

text \<open>The row groups: every row of the batch is visited once, with exactly its
  changes in batch order, and rows come in ascending order of their earliest
  timestamp.\<close>

lemma row_group_mem:
  assumes "hash_order_ok iter" "(k, g) \<in> set (group_row_changes_in_hlc_order iter changes)"
  shows "g = filter (\<lambda>c. (table_name c, row_pks c) = k) changes" "g \<noteq> []"
  using assms group_by_mem [of k g "\<lambda>c. (table_name c, row_pks c)" changes]
  by (auto simp: group_row_changes_in_hlc_order_def)

lemma row_group_mset:
  assumes "hash_order_ok iter"
  shows "mset (group_row_changes_in_hlc_order iter changes)
    = mset (group_by (\<lambda>c. (table_name c, row_pks c)) changes)"
  using assms by (simp add: group_row_changes_in_hlc_order_def hash_order_ok_def)

lemma row_group_order:
  assumes "hash_order_ok iter" "a \<in> set (group_row_changes_in_hlc_order iter changes)"
    "b \<in> set (group_row_changes_in_hlc_order iter changes)" "min_cmp.cmp_le row_group_min a b"
  shows "\<exists>x\<in>set (snd a). \<forall>y\<in>set (snd b). compare_hlc_strings (hlc_timestamp x) (hlc_timestamp y) \<noteq> Greater"
proof -
  have "snd a \<noteq> []" "snd b \<noteq> []" using row_group_mem(2) [OF assms(1)] assms(2,3) by (cases a; cases b; auto)+
  then obtain m n where m: "row_group_min a = Some m" and n: "row_group_min b = Some n"
    by (metis hlc_min_None map_is_Nil_conv not_Some_eq row_group_min_def)
  have "compare_hlc_strings m n \<noteq> Greater" using assms(4) m n by (simp add: min_cmp.cmp_le_def)
  then have "\<forall>y\<in>set (snd b). compare_hlc_strings m (hlc_timestamp y) \<noteq> Greater"
    using hlc_min_least [OF n [unfolded row_group_min_def]] hlc_cmp.compare_trans [of m n] by auto
  then show ?thesis using hlc_min_least [OF m [unfolded row_group_min_def]] by auto
qed

text \<open>Whatever order the hash maps iterate in, the row loop visits every row of the
  batch exactly once, sees exactly the changes of that row in the order of the
  batch, and visits rows in ascending order of their earliest timestamp.\<close>

theorem row_groups_correct:
  assumes "hash_order_ok iter"
  shows "distinct (map fst (group_row_changes_in_hlc_order iter changes))
    \<and> fst ` set (group_row_changes_in_hlc_order iter changes) = (\<lambda>c. (table_name c, row_pks c)) ` set changes
    \<and> list_all (\<lambda>(k, g). g = filter (\<lambda>c. (table_name c, row_pks c) = k) changes)
        (group_row_changes_in_hlc_order iter changes)
    \<and> sorted_wrt (\<lambda>a b. \<exists>x\<in>set (snd a). \<forall>y\<in>set (snd b).
          compare_hlc_strings (hlc_timestamp x) (hlc_timestamp y) \<noteq> Greater)
        (group_row_changes_in_hlc_order iter changes)"
proof (intro conjI)
  let ?k = "\<lambda>c. (table_name c, row_pks c)" and ?gs = "group_row_changes_in_hlc_order iter changes"
  have m: "mset ?gs = mset (group_by ?k changes)" by (rule row_group_mset [OF assms])
  show "distinct (map fst ?gs)"
    using group_by_distinct [of ?k changes] m by (metis mset_eq_imp_distinct_iff mset_map)
  show "fst ` set ?gs = ?k ` set changes"
    using group_by_keys [of ?k changes] mset_eq_setD [OF m] by simp
  show "list_all (\<lambda>(k, g). g = filter (\<lambda>c. ?k c = k) changes) ?gs"
    using row_group_mem(1) [OF assms] by (auto simp: list_all_iff)
  have "sorted_wrt (min_cmp.cmp_le row_group_min) ?gs"
    unfolding group_row_changes_in_hlc_order_def by (rule min_cmp.sort_by_sorted)
  then show "sorted_wrt (\<lambda>a b. \<exists>x\<in>set (snd a). \<forall>y\<in>set (snd b).
      compare_hlc_strings (hlc_timestamp x) (hlc_timestamp y) \<noteq> Greater) ?gs"
    by (rule sorted_wrt_mono_rel [rotated]) (auto intro: row_group_order [OF assms])
qed

theorem row_groups_correct_witness:
  "distinct (map fst (group_row_changes_in_hlc_order sample_order
     [sample_change ''a'' ''100/1'' ''x'', sample_change ''b'' ''99/1'' ''y'']))"
  using row_groups_correct [OF sample_order_ok] by blast


section \<open>Column clocks never run backwards\<close>

text \<open>The hypotheses of this section: the tables have the CRDT columns, at most one row
  matches a primary key, and the engine enforces that (a violation is reported
  where an insert or an update would break it).\<close>

definition pk_unique :: "sql_engine \<Rightarrow> table \<Rightarrow> bool" where
  "pk_unique env tb \<longleftrightarrow>
     (\<forall>pks. length (filter (row_matches env (build_pk_where_clause env (filter is_pk (schema tb)) pks))
        (rows tb)) \<le> 1)"

definition crdt_ready :: "sql_engine \<Rightarrow> crdt_db \<Rightarrow> bool" where
  "crdt_ready env db \<longleftrightarrow>
     (\<forall>t tb. tables db t = Some tb \<longrightarrow> has_column COLUMN_HLCS_COLUMN (schema tb) \<and>
        (filter is_pk (schema tb) \<noteq> [] \<longrightarrow> pk_unique env tb))"

definition keeps_keys :: "sql_engine \<Rightarrow> bool" where
  "keeps_keys env \<longleftrightarrow>
     (\<forall>t tb ps hs h. pk_unique env tb \<longrightarrow> insert_violation env t tb ps = None \<longrightarrow>
        pk_unique env (tb\<lparr>rows := rows tb @ [stored_row env ps hs h]\<rparr>)) \<and>
     (\<forall>t tb st conds. pk_unique env tb \<longrightarrow> update_violation env t tb (update_params env st) = None \<longrightarrow>
        pk_unique env (tb\<lparr>rows := map (\<lambda>r. if row_matches env conds r then update_row env st r else r) (rows tb)\<rparr>))"

definition row_le :: "column_info list \<Rightarrow> row \<Rightarrow> row \<Rightarrow> bool" where
  "row_le cols r r' \<longleftrightarrow>
     (\<forall>c\<in>set cols. \<not> hlc_is_newer (current_hlc (column_hlcs r) (col_name c))
                                (current_hlc (column_hlcs r') (col_name c)))"

definition table_le :: "table \<Rightarrow> table \<Rightarrow> bool" where
  "table_le tb tb' \<longleftrightarrow> schema tb' = schema tb \<and>
     (\<exists>olds news. rows tb' = olds @ news \<and> list_all2 (row_le (schema tb)) (rows tb) olds)"

definition db_le :: "crdt_db \<Rightarrow> crdt_db \<Rightarrow> bool" where
  "db_le db db' \<longleftrightarrow>
     (\<forall>t. case tables db t of None \<Rightarrow> tables db' t = None
        | Some tb \<Rightarrow> (\<exists>tb'. tables db' t = Some tb' \<and> table_le tb tb'))"

lemma row_le_refl [simp]: "row_le cols r r"
  by (simp add: row_le_def hlc.newer_irrefl)

lemma row_le_trans: "row_le cols a b \<Longrightarrow> row_le cols b c \<Longrightarrow> row_le cols a c"
  unfolding row_le_def using hlc.newer_neg_trans by blast

lemma table_le_refl [simp]: "table_le tb tb"
  unfolding table_le_def by (rule conjI, simp, rule exI [of _ "rows tb"]) (simp add: list_all2_refl)

lemma table_le_trans:
  assumes "table_le a b" "table_le b c"
  shows "table_le a c"
proof -
  obtain o1 n1 where ab: "schema b = schema a" "rows b = o1 @ n1" "list_all2 (row_le (schema a)) (rows a) o1"
    using assms(1) unfolding table_le_def by blast
  obtain o2 n2 where bc: "schema c = schema b" "rows c = o2 @ n2" "list_all2 (row_le (schema b)) (rows b) o2"
    using assms(2) unfolding table_le_def by blast
  obtain p q where o2: "o2 = p @ q" "list_all2 (row_le (schema a)) o1 p"
    using bc(3) ab(1,2) by (auto simp: list_all2_append1)
  have "list_all2 (row_le (schema a)) (rows a) p"
    using list_all2_trans [OF _ ab(3) o2(2)] row_le_trans by blast
  then show ?thesis
    using ab(1) bc(1,2) o2(1) unfolding table_le_def by (metis append.assoc)
qed

lemma db_le_refl [simp]: "db_le db db"
  by (auto simp: db_le_def split: option.splits)

lemma db_le_trans: "db_le a b \<Longrightarrow> db_le b c \<Longrightarrow> db_le a c"
  unfolding db_le_def by (auto split: option.splits) (metis option.distinct(1) option.inject table_le_trans)+

lemma db_leD:
  "db_le db db' \<Longrightarrow> tables db t = Some tb \<Longrightarrow> \<exists>tb'. tables db' t = Some tb' \<and> table_le tb tb'"
  unfolding db_le_def by (auto dest: spec [of _ t])

lemma db_le_tables_cong: "tables db' = tables db \<Longrightarrow> db_le db db'"
  by (auto simp: db_le_def split: option.splits)

lemma add_pending_tables [simp]: "tables (add_pending t cs db) = tables db"
  by (simp add: add_pending_def)

lemma conflict_tables [simp]: "tables (create_conflict_entry env db tb t m rr ts cols) = tables db"
  by (simp add: create_conflict_entry_def Let_def)

lemma set_table_tables [simp]: "tables (set_table t tb db) = (tables db)(t \<mapsto> tb)"
  by (simp add: set_table_def)

lemma update_row_le:
  assumes "hlcs = column_hlcs r"
  shows "row_le cols r (update_row env (merge_row_changes (set (map col_name cols)) hlcs changes) r)"
  unfolding row_le_def
proof
  fix c assume "c \<in> set cols"
  then have "col_name c \<in> set (map col_name cols)" by simp
  from merge_hlc_fold [OF this] assms hlc.fold_later_start
  show "\<not> hlc_is_newer (current_hlc (column_hlcs r) (col_name c))
      (current_hlc (column_hlcs (update_row env (merge_row_changes (set (map col_name cols)) hlcs changes) r)) (col_name c))"
    by (simp add: merge_row_changes_def update_row_def)
qed

lemma unique_match:
  assumes "length (filter P xs) \<le> 1" "find P xs = Some r" "x \<in> set xs" "P x"
  shows "x = r"
proof -
  have "r \<in> set (filter P xs)" using assms(2) by (auto simp: find_Some_iff)
  moreover have "x \<in> set (filter P xs)" using assms(3,4) by simp
  ultimately show ?thesis using assms(1)
    by (cases "filter P xs") auto
qed

lemma write_row_le:
  assumes "tables db t = Some tb" "schema tb = cols"
    and "conds = build_pk_where_clause env (filter is_pk cols) pks" "pk_unique env tb"
    and "found = find (row_matches env conds) (rows tb)"
    and "hlcs = (case found of None \<Rightarrow> Map.empty | Some r \<Rightarrow> column_hlcs r)"
    and "st = merge_row_changes (set (map col_name cols)) hlcs changes"
    and "write_row env t cols pks conds (found \<noteq> None) st tb db = Inr db'"
    and "keeps_keys env"
  shows "db_le db db' \<and> (\<exists>tb'. tables db' = (tables db)(t \<mapsto> tb') \<and> schema tb' = cols \<and> pk_unique env tb')"
proof -
  consider (same) "tables db' = tables db"
    | (update) r where "found = Some r" "update_violation env t tb (update_params env st) = None"
        "db' = set_table t (tb\<lparr>rows := map (\<lambda>r. if row_matches env conds r then update_row env st r else r) (rows tb)\<rparr>) db"
    | (insert) ps where "insert_violation env t tb ps = None"
        "db' = set_table t (tb\<lparr>rows := rows tb @ [stored_row env ps (m_hlcs st) (m_max st)]\<rparr>) db"
    using assms(8) by (auto simp: write_row_def Let_def split: if_splits option.splits)
  then show ?thesis
  proof cases
    case same
    with assms(1,2,4) show ?thesis
      by (intro conjI exI [of _ tb]) (auto simp: db_le_tables_cong fun_upd_idem)
  next
    case (update r)
    let ?tb' = "tb\<lparr>rows := map (\<lambda>r. if row_matches env conds r then update_row env st r else r) (rows tb)\<rparr>"
    have "row_le cols x (if row_matches env conds x then update_row env st x else x)" if "x \<in> set (rows tb)" for x
    proof (cases "row_matches env conds x")
      case True
      have "length (filter (row_matches env conds) (rows tb)) \<le> 1"
        using assms(2-4) unfolding pk_unique_def by simp
      then have "x = r" using unique_match update(1) assms(5) that True by metis
      then show ?thesis using assms(6,7) update(1) update_row_le by simp
    qed simp
    then have "list_all2 (row_le (schema tb)) (rows tb) (rows ?tb')"
      using assms(2) by (simp add: list_all2_map2 list_all2_same)
    then have "table_le tb ?tb'"
      unfolding table_le_def by (intro conjI exI [of _ "rows ?tb'"] exI [of _ "[]"]) simp_all
    moreover have "pk_unique env ?tb'"
      using assms(4,9) update(2) unfolding keeps_keys_def by blast
    ultimately show ?thesis
      using assms(1,2) update(3) by (auto simp: db_le_def split: option.splits)
  next
    case (insert ps)
    let ?tb' = "tb\<lparr>rows := rows tb @ [stored_row env ps (m_hlcs st) (m_max st)]\<rparr>"
    have "table_le tb ?tb'"
      unfolding table_le_def
      by (intro conjI exI [of _ "rows tb"] exI [of _ "[stored_row env ps (m_hlcs st) (m_max st)]"])
        (simp_all add: list_all2_refl)
    moreover have "pk_unique env ?tb'"
      using assms(4,9) insert(1) unfolding keeps_keys_def by blast
    ultimately show ?thesis
      using assms(1,2) insert(2) by (auto simp: db_le_def split: option.splits)
  qed
qed

lemma crdt_ready_upd:
  assumes "crdt_ready env db" "tables db t = Some tb" "tables db' = (tables db)(t \<mapsto> tb')"
    and "schema tb' = schema tb" "pk_unique env tb'"
  shows "crdt_ready env db'"
  using assms unfolding crdt_ready_def by (auto split: if_splits)

lemma apply_row_le:
  assumes "crdt_ready env db" "keeps_keys env" "apply_row env g db = Inr db'"
  shows "db_le db db' \<and> crdt_ready env db'"
proof -
  let ?t = "fst (fst g)"
  consider (skip) "db' = db"
    | (row) tb pks where "tables db ?t = Some tb" "filter is_pk (schema tb) \<noteq> []"
      "let conds = build_pk_where_clause env (filter is_pk (schema tb)) pks;
           found = find (row_matches env conds) (rows tb);
           st = merge_row_changes (set (map col_name (schema tb)))
             (case found of None \<Rightarrow> Map.empty | Some r \<Rightarrow> column_hlcs r) (snd g)
       in write_row env ?t (schema tb) pks conds (found \<noteq> None) st tb (add_pending ?t (m_pending st) db) = Inr db'"
    using assms(1,3)
    by (auto simp: apply_row_def get_table_schema_def crdt_ready_def Let_def
        split: option.splits sum.splits if_splits)
  then show ?thesis
  proof cases
    case skip
    with assms(1) show ?thesis by simp
  next
    case (row tb pks)
    have uniq: "pk_unique env tb" using assms(1) row(1,2) unfolding crdt_ready_def by blast
    define st where "st = merge_row_changes (set (map col_name (schema tb)))
      (case find (row_matches env (build_pk_where_clause env (filter is_pk (schema tb)) pks)) (rows tb) of
         None \<Rightarrow> Map.empty | Some r \<Rightarrow> column_hlcs r) (snd g)"
    have "db_le (add_pending ?t (m_pending st) db) db' \<and>
      (\<exists>tb'. tables db' = (tables (add_pending ?t (m_pending st) db))(?t \<mapsto> tb') \<and>
         schema tb' = schema tb \<and> pk_unique env tb')"
      by (rule write_row_le [OF _ refl refl uniq refl refl st_def _ assms(2)])
        (use row in \<open>auto simp: Let_def st_def\<close>)
    then show ?thesis
      using crdt_ready_upd [OF assms(1) row(1)] by (auto simp: db_le_def)
  qed
qed

lemma apply_rows_le:
  assumes "crdt_ready env db" "keeps_keys env" "apply_rows env gs db = Inr db'"
  shows "db_le db db' \<and> crdt_ready env db'"
  using assms
proof (induction gs arbitrary: db)
  case Nil
  then show ?case by simp
next
  case (Cons g gs)
  then obtain db1 where "apply_row env g db = Inr db1" "apply_rows env gs db1 = Inr db'"
    by (auto simp: res_simps)
  with Cons apply_row_le db_le_trans show ?case by blast
qed

text \<open>Delete propagation only removes rows.\<close>

definition db_sub :: "crdt_db \<Rightarrow> crdt_db \<Rightarrow> bool" where
  "db_sub db db' \<longleftrightarrow>
     (\<forall>t. case tables db t of None \<Rightarrow> tables db' t = None
        | Some tb \<Rightarrow> (\<exists>tb'. tables db' t = Some tb' \<and> schema tb' = schema tb \<and> subseq (rows tb') (rows tb)))"

lemma db_sub_refl [simp]: "db_sub db db"
  by (auto simp: db_sub_def split: option.splits)

lemma db_subD:
  "db_sub db db' \<Longrightarrow> tables db t = Some tb \<Longrightarrow>
     \<exists>tb'. tables db' t = Some tb' \<and> schema tb' = schema tb \<and> subseq (rows tb') (rows tb)"
  unfolding db_sub_def by (auto dest: spec [of _ t])

lemma db_sub_trans: "db_sub a b \<Longrightarrow> db_sub b c \<Longrightarrow> db_sub a c"
  unfolding db_sub_def
  by (auto split: option.splits) (metis option.distinct(1) option.inject subseq_order.trans)+

lemma propagate_entry_cases:
  "propagate_entry env (t, p, h) db = db \<or>
   (\<exists>pks conds tb. parse_pks env p = Inr pks \<and> build_pk_where_from_map env pks = Some conds \<and>
      tables db t = Some tb \<and>
      should_propagate_delete h (Option.bind (find (log_matches env tb conds) (rows tb)) row_hlc) \<and>
      propagate_entry env (t, p, h) db
        = set_table t (tb\<lparr>rows := filter (\<lambda>r. \<not> log_matches env tb conds r) (rows tb)\<rparr>) db)"
  by (simp add: propagate_entry_def Let_def split: sum.splits option.splits)

lemma propagate_entry_sub: "db_sub db (propagate_entry env e db)"
proof (cases e)
  case (fields t p h)
  show ?thesis unfolding fields
    using propagate_entry_cases [of env t p h db] by (auto simp: db_sub_def split: option.splits)
qed

lemma propagate_one_sub:
  assumes "propagate_one env i db = Inr db'"
  shows "db_sub db db'"
  using assms propagate_entry_sub
  by (auto simp: propagate_one_def and_then_Inr_iff split: option.splits)

lemma propagate_sub:
  "propagate_deleted_rows_to_target_tables env is db = Inr db' \<Longrightarrow> db_sub db db'"
proof (induction "is" arbitrary: db)
  case Nil
  then show ?case by simp
next
  case (Cons i "is")
  then show ?case using propagate_one_sub db_sub_trans by (fastforce simp: res_simps)
qed

lemma propagate_none: "propagate_deleted_rows_to_target_tables env [] db = Inr db"
  by simp

lemma no_log_ids:
  "\<forall>c\<in>set changes. table_name c \<noteq> DELETED_ROWS_TABLE \<Longrightarrow> inbound_delete_log_ids env changes = []"
  by (auto simp: inbound_delete_log_ids_def)

lemma apply_Inr:
  assumes "apply_remote_changes_to_db env iter api changes backend_info svc db = (Inr (), db', svc')"
  obtains db1 db2 where
    "validate_changes (concat (map snd (group_by_transaction_hlc iter changes))) = Inr ()"
    "apply_rows env (group_row_changes_in_hlc_order iter (concat (map snd (group_by_transaction_hlc iter changes))))
       (db\<lparr>fk_enabled := False, triggers_enabled := Some ''0''\<rparr>) = Inr db1"
    "propagate_deleted_rows_to_target_tables env (order_ids iter
       (inbound_delete_log_ids env (concat (map snd (group_by_transaction_hlc iter changes))))) db1 = Inr db2"
    "tables db' = tables db2" "triggers_enabled db' = Some ''1''" "fk_enabled db'"
  using assms
  by (auto simp: apply_remote_changes_to_db_def apply_in_transaction_def res_simps Let_def
      split: sum.splits option.splits prod.splits if_splits)


text \<open>An engine that enforces the key \<open>id\<close> by refusing every update of it and every
  insert.\<close>

definition strict_engine :: sql_engine where
  "strict_engine = sample_engine\<lparr>
     insert_violation := (\<lambda>t tb ps. Some ''UNIQUE constraint failed: t.id''),
     update_violation := (\<lambda>t tb ps.
       if map col_name (filter is_pk (schema tb)) = [''id''] \<and> ''id'' \<notin> fst ` set ps then None
       else Some ''UNIQUE constraint failed: t.id'')\<rparr>"

lemma assign_cells_other:
  "c \<notin> fst ` set ups \<Longrightarrow> assign_cells env ups m c = m c"
proof (induction ups rule: rev_induct)
  case Nil
  then show ?case by (simp add: assign_cells_def)
next
  case (snoc u ups)
  then show ?case by (cases u) (auto simp: assign_cells_snoc)
qed

lemma update_row_id:
  assumes "''id'' \<notin> fst ` set (update_params env st)"
  shows "cell env (update_row env st r) ''id'' = cell env r ''id''"
proof -
  have "''id'' \<notin> fst ` set (m_updates st)"
    using assms by (auto simp: update_params_def image_iff split: prod.splits)
  then show ?thesis
    by (simp add: cell_def update_row_def assign_cells_other HLC_TIMESTAMP_COLUMN_def COLUMN_HLCS_COLUMN_def)
qed

lemma row_matches_id:
  assumes "map col_name pkc = [''id'']" "cell env r' ''id'' = cell env r ''id''"
  shows "row_matches env (build_pk_where_clause env pkc pks) r' = row_matches env (build_pk_where_clause env pkc pks) r"
proof -
  obtain c where "pkc = [c]" "col_name c = ''id''" using assms(1) by (cases pkc) auto
  with assms(2) show ?thesis
    by (auto simp: row_matches_def build_pk_where_clause_def split: option.splits json.splits)
qed

lemma strict_engine_keeps_keys: "keeps_keys strict_engine"
  unfolding keeps_keys_def
proof (intro conjI allI impI)
  fix t tb ps hs h
  assume "insert_violation strict_engine t tb ps = None"
  then show "pk_unique strict_engine (tb\<lparr>rows := rows tb @ [stored_row strict_engine ps hs h]\<rparr>)"
    by (simp add: strict_engine_def)
next
  fix t :: string and tb st conds
  assume u: "pk_unique strict_engine tb"
    and "update_violation strict_engine t tb (update_params strict_engine st) = None"
  then have pk: "map col_name (filter is_pk (schema tb)) = [''id'']"
    and "''id'' \<notin> fst ` set (update_params strict_engine st)"
    by (auto simp: strict_engine_def split: if_splits)
  then have same: "row_matches strict_engine (build_pk_where_clause strict_engine (filter is_pk (schema tb)) pks)
      (if row_matches strict_engine conds r then update_row strict_engine st r else r)
    = row_matches strict_engine (build_pk_where_clause strict_engine (filter is_pk (schema tb)) pks) r" for pks r
    by (intro row_matches_id [OF pk]) (simp add: update_row_id)
  have "length (filter (row_matches strict_engine (build_pk_where_clause strict_engine (filter is_pk (schema tb)) pks))
      (map (\<lambda>r. if row_matches strict_engine conds r then update_row strict_engine st r else r) (rows tb))) \<le> 1" for pks
    by (subst length_filter_map_same, rule same) (use u in \<open>simp add: pk_unique_def\<close>)
  then show "pk_unique strict_engine (tb\<lparr>rows := map (\<lambda>r. if row_matches strict_engine conds r
      then update_row strict_engine st r else r) (rows tb)\<rparr>)"
    by (simp add: pk_unique_def)
qed

lemma sample_crdt_ready: "crdt_ready strict_engine sample_crdt_db"
  by (auto simp: crdt_ready_def sample_crdt_db_def sample_schema_def has_column_def pk_unique_def
      length_filter_le [THEN order_trans])

lemmas apply_eval = apply_remote_changes_to_db_def apply_in_transaction_def apply_row_def
  group_by_transaction_hlc_def group_row_changes_in_hlc_order_def group_by_def sort_by_def
  get_table_schema_def is_safe_identifier_def is_ascii_alphanumeric_def is_ascii_digit_def
  is_ascii_alphabetic_def has_column_def build_pk_where_clause_def merge_row_changes_def
  merge_change_def current_hlc_def write_row_def update_params_def insert_params_def
  row_matches_def cell_def add_pending_def inbound_delete_log_ids_def set_table_def
  update_row_def assign_cells_def HLC_TIMESTAMP_COLUMN_def COLUMN_HLCS_COLUMN_def DELETED_ROWS_TABLE_def

lemma sample_apply_ok:
  "fst (apply_remote_changes_to_db strict_engine sample_order sample_uhlc [sample_change ''b'' ''5/1'' ''z'']
     None None sample_crdt_db) = Inr ()"
  by (simp add: apply_eval sample_defs sample_order_def strict_engine_def hlc_is_newer_key hlc_eval)



section \<open>Validation, clock and deletes\<close>

lemma validate_changes_ok:
  "validate_changes cs = Inr () \<longleftrightarrow>
     (\<forall>c\<in>set cs. is_safe_identifier (table_name c) \<and> is_safe_identifier (column_name c))"
  by (induction cs) auto

lemma validate_changes_err: "validate_changes cs = Inl e \<Longrightarrow> \<exists>n. e = ValidationError n"
  by (induction cs) (auto split: if_splits)



lemma apply_service:
  assumes "apply_remote_changes_to_db env iter api changes None svc db = (Inr (), db', svc')"
  shows "svc' = map_option (advance_past_remote api
    (case hlc_max (map hlc_timestamp (concat (map snd (group_by_transaction_hlc iter changes)))) of
       None \<Rightarrow> [] | Some m \<Rightarrow> m)) svc"
  using assms by (auto simp: apply_remote_changes_to_db_def Let_def split: sum.splits)



definition newer_than_log :: "string \<Rightarrow> row \<Rightarrow> bool" where
  "newer_than_log h r \<longleftrightarrow> (case row_hlc r of None \<Rightarrow> False | Some x \<Rightarrow> hlc_is_newer x h)"

lemma should_propagate_simps [simp]:
  "should_propagate_delete h None"
  "should_propagate_delete h (Some x) \<longleftrightarrow> \<not> hlc_is_newer x h"
  by (simp_all add: should_propagate_delete_def hlc_is_newer_def)

lemma should_propagate_row:
  "should_propagate_delete h (row_hlc r) \<longleftrightarrow> \<not> newer_than_log h r"
  by (cases "row_hlc r") (simp_all add: newer_than_log_def)

lemma filter_unique_found:
  assumes "length (filter P xs) \<le> 1" "find P xs = Some r"
  shows "filter (\<lambda>x. \<not> (P x \<and> \<not> Q x)) xs = (if Q r then xs else filter (\<lambda>x. \<not> P x) xs)"
proof -
  have "x = r" if "x \<in> set xs" "P x" for x using unique_match [OF assms that] .
  then show ?thesis by (auto intro!: filter_cong filter_True)
qed

text \<open>C4: Delete propagation follows last-writer-wins with resurrection.  For a
  delete-log entry with a usable key that selects at most one row of an existing
  target table, the row is removed exactly when its row clock is not strictly newer
  than the entry; every other row and every other table stay as they are.\<close>

theorem delete_propagation_correct:
  assumes "is_safe_identifier t" "parse_pks env p = Inr pks"
    and "build_pk_where_from_map env pks = Some conds" "tables db t = Some tb"
    and "\<forall>p\<in>set pks. has_column (fst p) (schema tb)"
    and "length (filter (log_matches env tb conds) (rows tb)) \<le> 1"
  shows "tables (propagate_entry env (t, p, h) db) =
    (tables db)(t \<mapsto> tb\<lparr>rows := filter (\<lambda>r. \<not> (log_matches env tb conds r \<and> \<not> newer_than_log h r)) (rows tb)\<rparr>)"
proof (cases "find (log_matches env tb conds) (rows tb)")
  case None
  then have "\<forall>r\<in>set (rows tb). \<not> log_matches env tb conds r" by (simp add: find_None_iff)
  with None assms(1-5) show ?thesis
    by (simp add: propagate_entry_def filter_True)
next
  case (Some r)
  then show ?thesis
    using assms(1-5) filter_unique_found [OF assms(6) Some, of "newer_than_log h"]
    by (simp add: propagate_entry_def should_propagate_row fun_upd_idem)
qed

lemma sample_log_match: "log_matches sample_engine \<lparr>schema = sample_schema, rows = [sample_row], has_triggers = True\<rparr>
    [EqParam ''id'' (SText ''r1'')] sample_row"
  by (simp add: log_matches_def operand_def has_column_def sample_defs cell_def
      HLC_TIMESTAMP_COLUMN_def COLUMN_HLCS_COLUMN_def)

theorem delete_propagation_correct_witness:
  "map_option rows (tables (propagate_entry sample_engine (''t'', ''r1'', ''8/3'') sample_crdt_db) ''t'') = Some [sample_row]
   \<and> map_option rows (tables (propagate_entry sample_engine (''t'', ''r1'', ''10/3'') sample_crdt_db) ''t'') = Some []"
proof -
  let ?tb = "\<lparr>schema = sample_schema, rows = [sample_row], has_triggers = True\<rparr>"
  have "tables (propagate_entry sample_engine (''t'', ''r1'', h) sample_crdt_db) =
    (tables sample_crdt_db)(''t'' \<mapsto> ?tb\<lparr>rows := filter
      (\<lambda>r. \<not> (log_matches sample_engine ?tb [EqParam ''id'' (SText ''r1'')] r \<and> \<not> newer_than_log h r)) (rows ?tb)\<rparr>)" for h
    by (rule delete_propagation_correct [where pks = "[(''id'', JString ''r1'')]"])
      (simp_all add: sample_defs build_pk_where_from_map_def is_safe_identifier_def
        is_ascii_alphanumeric_def is_ascii_digit_def is_ascii_alphabetic_def has_column_def)
  moreover have "newer_than_log ''8/3'' sample_row" "\<not> newer_than_log ''10/3'' sample_row"
    by (simp_all add: newer_than_log_def sample_row_def hlc_is_newer_key hlc_eval)
  ultimately show ?thesis by (simp add: sample_log_match)
qed

text \<open>The row clock, in contrast to the column clocks, can run backwards: applying
  a change to one column of an existing row replaces the row clock by the timestamp
  of the batch, although another column of the row carries a newer one, and a
  delete-log entry older than that column is then honoured.\<close>

theorem row_clock_regression:
  "\<exists>tb r. tables (fst (snd (apply_remote_changes_to_db sample_engine sample_order sample_uhlc
       [sample_change ''b'' ''5/1'' ''z''] None None sample_crdt_db))) ''t'' = Some tb
     \<and> rows tb = [r] \<and> row_hlc sample_row = Some ''9/1'' \<and> row_hlc r = Some ''5/1''
     \<and> column_hlcs r ''a'' = Some ''9/1''
     \<and> should_propagate_delete ''7/1'' (row_hlc r) \<and> \<not> should_propagate_delete ''7/1'' (row_hlc sample_row)"
  by (simp add: apply_eval sample_defs sample_order_def hlc_is_newer_key hlc_eval)

end
