(* ===== verification/CrdtScanner.thy ===== *)
theory CrdtScanner
  imports CrdtDb
begin

text \<open>
  Outbound changes: the effect of the dirty-table triggers of \<open>crdt/trigger.rs\<close> on a
  local write, and the table scanner of \<open>crdt/scanner.rs\<close> that turns rows into
  column changes for a peer of a shared space.
\<close>

section \<open>Trigger effects\<close>

text \<open>The \<open>WHEN\<close> guard: a missing \<open>triggers_enabled\<close> row makes the scalar subquery NULL,
  so the trigger does not fire.\<close>

definition triggers_fire :: "crdt_db \<Rightarrow> bool" where
  "triggers_fire db \<longleftrightarrow> triggers_enabled db = Some ''1''"

definition mark_dirty :: "string \<Rightarrow> string \<Rightarrow> crdt_db \<Rightarrow> crdt_db" where
  "mark_dirty t now db =
     db\<lparr>dirty_tables := filter (\<lambda>e. fst e \<noteq> t) (dirty_tables db) @ [(t, now)]\<rparr>"

text \<open>The insert trigger stamps every tracked column with the row clock.\<close>

definition insert_trigger_row :: "crdt_db \<Rightarrow> string list \<Rightarrow> row \<Rightarrow> row" where
  "insert_trigger_row db tracked r =
     (case row_hlc r of
        None \<Rightarrow> r
      | Some h \<Rightarrow> if triggers_fire db
                    then r\<lparr>column_hlcs := map_of (map (\<lambda>c. (c, h)) tracked)\<rparr> else r)"

definition insert_trigger_db :: "string \<Rightarrow> string \<Rightarrow> row \<Rightarrow> crdt_db \<Rightarrow> crdt_db" where
  "insert_trigger_db t now r db =
     (if row_hlc r \<noteq> None \<and> triggers_fire db then mark_dirty t now db else db)"

text \<open>The update trigger stamps the tracked columns whose value changed (\<open>IS NOT\<close>), and
  marks the table dirty when there is one.\<close>

definition changed_columns :: "sql_engine \<Rightarrow> string list \<Rightarrow> row \<Rightarrow> row \<Rightarrow> string list" where
  "changed_columns env tracked old new = filter (\<lambda>c. cell env new c \<noteq> cell env old c) tracked"

definition update_trigger_row :: "sql_engine \<Rightarrow> crdt_db \<Rightarrow> string list \<Rightarrow> row \<Rightarrow> row \<Rightarrow> row" where
  "update_trigger_row env db tracked old new =
     (case row_hlc new of
        None \<Rightarrow> new
      | Some h \<Rightarrow>
          if triggers_fire db
          then new\<lparr>column_hlcs := fold (\<lambda>c m. m(c \<mapsto> h)) (changed_columns env tracked old new) (column_hlcs new)\<rparr>
          else new)"

definition update_trigger_db :: "sql_engine \<Rightarrow> string \<Rightarrow> string \<Rightarrow> string list \<Rightarrow> row \<Rightarrow> row \<Rightarrow> crdt_db \<Rightarrow> crdt_db" where
  "update_trigger_db env t now tracked old new db =
     (if row_hlc new \<noteq> None \<and> triggers_fire db \<and> changed_columns env tracked old new \<noteq> []
      then mark_dirty t now db else db)"

text \<open>The delete trigger appends the key of the row, with a fresh id and the current
  timestamp, to the delete log and marks the log dirty.\<close>

definition delete_trigger_db ::
  "sql_engine \<Rightarrow> string \<Rightarrow> string \<Rightarrow> string \<Rightarrow> string \<Rightarrow> string list \<Rightarrow> (row \<Rightarrow> string list \<Rightarrow> string) \<Rightarrow> row \<Rightarrow> crdt_db \<Rightarrow> crdt_db" where
  "delete_trigger_db env t now new_id hlc pks json_object old db =
     (if triggers_fire db
      then (case tables db DELETED_ROWS_TABLE of
              None \<Rightarrow> db
            | Some tb \<Rightarrow>
                mark_dirty DELETED_ROWS_TABLE now
                  (set_table DELETED_ROWS_TABLE
                    (tb\<lparr>rows := rows tb @
                       [\<lparr>cells = [''id'' \<mapsto> SText new_id, ''table_name'' \<mapsto> SText t,
                                   ''row_pks'' \<mapsto> SText (json_object old pks)],
                         row_hlc = Some hlc, column_hlcs = Map.empty\<rparr>]\<rparr>) db))
      else db)"


section \<open>Scanner\<close>

definition EXCLUDED_SYNC_COLUMNS :: "string list" where
  "EXCLUDED_SYNC_COLUMNS =
     [''last_push_hlc_timestamp'', ''last_pull_server_timestamp'', ''updated_at'', ''created_at'']"

definition SPACE_SCOPED_CRDT_TABLES :: "string list" where
  "SPACE_SCOPED_CRDT_TABLES =
     [''haex_space_devices'', ''haex_space_members'', ''haex_peer_shares'', ''haex_mls_sync_keys'',
      ''haex_device_mls_enrollments'']"

definition MEMBERSHIP_SYSTEM_TABLES :: "string list" where
  "MEMBERSHIP_SYSTEM_TABLES =
     [''haex_space_devices'', ''haex_space_members'', ''haex_mls_sync_keys'',
      ''haex_device_mls_enrollments'']"

definition is_space_scoped_table :: "string \<Rightarrow> bool" where
  "is_space_scoped_table t \<longleftrightarrow> t \<in> set SPACE_SCOPED_CRDT_TABLES"

definition is_membership_system_table :: "string \<Rightarrow> bool" where
  "is_membership_system_table t \<longleftrightarrow> t \<in> set MEMBERSHIP_SYSTEM_TABLES"

record local_column_change =
  lc_table_name :: string
  lc_row_pks :: string
  lc_column_name :: string
  lc_hlc_timestamp :: string
  lc_value :: json
  lc_device_id :: string

definition partition_columns :: "column_info list \<Rightarrow> column_info list \<times> column_info list" where
  "partition_columns cols =
     (filter is_pk cols,
      filter (\<lambda>c. \<not> is_pk c \<and> col_name c \<noteq> HLC_TIMESTAMP_COLUMN \<and> col_name c \<noteq> COLUMN_HLCS_COLUMN
                  \<and> col_name c \<notin> set EXCLUDED_SYNC_COLUMNS) cols)"

text \<open>Base64 of a blob is the argument \<open>b64\<close>.\<close>

fun convert_value_ref_to_json :: "(8 word list \<Rightarrow> string) \<Rightarrow> sql_value \<Rightarrow> json" where
  "convert_value_ref_to_json b64 SNull = JNull"
| "convert_value_ref_to_json b64 (SInteger i) = JInt i"
| "convert_value_ref_to_json b64 (SReal f) = JFloat f"
| "convert_value_ref_to_json b64 (SText s) = JString s"
| "convert_value_ref_to_json b64 (SBlob bs) = JString (b64 bs)"

text \<open>\<open>haex_hlc > ?\<close> compares two texts byte by byte.\<close>

fun text_greater :: "string \<Rightarrow> string \<Rightarrow> bool" where
  "text_greater [] _ = False"
| "text_greater (x # xs) [] = True"
| "text_greater (x # xs) (y # ys) =
     (if (of_char x :: nat) = of_char y then text_greater xs ys else (of_char y :: nat) < of_char x)"

definition row_selected :: "sql_engine \<Rightarrow> string option \<Rightarrow> string option \<Rightarrow> row \<Rightarrow> bool" where
  "row_selected env after_hlc space_id_filter r \<longleftrightarrow>
     (case after_hlc of None \<Rightarrow> True
      | Some h \<Rightarrow> (case row_hlc r of None \<Rightarrow> False | Some x \<Rightarrow> text_greater x h)) \<and>
     (case space_id_filter of None \<Rightarrow> True
      | Some s \<Rightarrow> cell env r ''space_id'' \<noteq> SNull \<and> sql_eq env (cell env r ''space_id'') (SText s))"

definition row_pk_json :: "sql_engine \<Rightarrow> (8 word list \<Rightarrow> string) \<Rightarrow> column_info list \<Rightarrow> row \<Rightarrow> string" where
  "row_pk_json env b64 pk_columns r =
     json_text env (JObject (map (\<lambda>c. (col_name c, convert_value_ref_to_json b64 (cell env r (col_name c)))) pk_columns))"

definition column_change ::
  "sql_engine \<Rightarrow> (8 word list \<Rightarrow> string) \<Rightarrow> string \<Rightarrow> string \<Rightarrow> string option \<Rightarrow> 128 word option
    \<Rightarrow> column_info list \<Rightarrow> row \<Rightarrow> column_info \<Rightarrow> local_column_change option" where
  "column_change env b64 t device_id after_hlc origin_node pk_columns r col =
     (let hlc_to_use = (case column_hlcs r (col_name col) of Some h \<Rightarrow> Some h | None \<Rightarrow> row_hlc r)
      in (case hlc_to_use of
            None \<Rightarrow> None
          | Some h \<Rightarrow>
              if (case after_hlc of None \<Rightarrow> True | Some th \<Rightarrow> hlc_is_newer h th) \<and>
                 (case origin_node of None \<Rightarrow> True | Some n \<Rightarrow> hlc_is_from_node h n)
              then Some \<lparr>lc_table_name = t, lc_row_pks = row_pk_json env b64 pk_columns r,
                         lc_column_name = col_name col, lc_hlc_timestamp = h,
                         lc_value = convert_value_ref_to_json b64 (cell env r (col_name col)),
                         lc_device_id = device_id\<rparr>
              else None))"

text \<open>Without a clock column its quoted name is an error or reads as a string literal.\<close>

definition scan_view :: "column_info list \<Rightarrow> row \<Rightarrow> row" where
  "scan_view cols r =
     (let r1 = (if has_column HLC_TIMESTAMP_COLUMN cols then r else r\<lparr>row_hlc := Some HLC_TIMESTAMP_COLUMN\<rparr>)
      in if has_column COLUMN_HLCS_COLUMN cols then r1 else r1\<lparr>column_hlcs := Map.empty\<rparr>)"

definition scan_table_for_local_changes_scoped ::
  "sql_engine \<Rightarrow> (8 word list \<Rightarrow> string) \<Rightarrow> crdt_db \<Rightarrow> string \<Rightarrow> string option \<Rightarrow> string
    \<Rightarrow> string option \<Rightarrow> 128 word option \<Rightarrow> (db_error, local_column_change list) result" where
  "scan_table_for_local_changes_scoped env b64 db t after_hlc device_id space_id_filter origin_node =
     (case get_table_schema db t of
        Inl e \<Rightarrow> Inl e
      | Inr cols \<Rightarrow>
          (case tables db t of
             None \<Rightarrow> Inr []
           | Some tb \<Rightarrow>
               if cols = [] then Inr []
               else
                 (let (pk_columns, data_columns) = partition_columns cols
                  in if pk_columns = [] then Inl (ExecutionError t ''has no primary key'')
                     else if space_id_filter \<noteq> None \<and> \<not> has_column ''space_id'' cols then Inr []
                     else if \<not> quoted_literals env \<and>
                       (\<not> has_column HLC_TIMESTAMP_COLUMN cols \<or> \<not> has_column COLUMN_HLCS_COLUMN cols)
                     then Inl (SqlError ''no such column'')
                     else Inr (concat (map (\<lambda>r. List.map_filter
                                 (column_change env b64 t device_id after_hlc origin_node pk_columns r) data_columns)
                               (filter (row_selected env after_hlc space_id_filter)
                                  (map (scan_view cols) (rows tb))))))))"

fun scan_tables ::
  "(string \<Rightarrow> (db_error, local_column_change list) result) \<Rightarrow> string list
    \<Rightarrow> (db_error, local_column_change list) result" where
  "scan_tables scan [] = Inr []"
| "scan_tables scan (t # ts) =
     and_then (scan t) (\<lambda>cs. and_then (scan_tables scan ts) (\<lambda>rest. Inr (cs @ rest)))"

definition scan_space_scoped_tables_for_local_changes ::
  "sql_engine \<Rightarrow> (8 word list \<Rightarrow> string) \<Rightarrow> crdt_db \<Rightarrow> string \<Rightarrow> string option \<Rightarrow> string
    \<Rightarrow> 128 word option \<Rightarrow> (db_error, local_column_change list) result" where
  "scan_space_scoped_tables_for_local_changes env b64 db space_id after_hlc device_id origin_node =
     and_then
       (scan_tables (\<lambda>t. scan_table_for_local_changes_scoped env b64 db t after_hlc device_id (Some space_id) origin_node)
          SPACE_SCOPED_CRDT_TABLES)
       (\<lambda>all_changes.
          Inr (sort_by (\<lambda>a b. compare_hlc_strings (lc_hlc_timestamp a) (lc_hlc_timestamp b)) all_changes))"

definition scan_membership_tables_for_local_changes ::
  "sql_engine \<Rightarrow> (8 word list \<Rightarrow> string) \<Rightarrow> crdt_db \<Rightarrow> string \<Rightarrow> string option \<Rightarrow> string
    \<Rightarrow> 128 word option \<Rightarrow> (db_error, local_column_change list) result" where
  "scan_membership_tables_for_local_changes env b64 db space_id after_hlc device_id origin_node =
     and_then (scan_space_scoped_tables_for_local_changes env b64 db space_id after_hlc device_id origin_node)
       (\<lambda>changes. Inr (filter (\<lambda>c. lc_table_name c \<in> set MEMBERSHIP_SYSTEM_TABLES) changes))"


section \<open>What a scan emits\<close>

lemma cell_scan_view:
  "c \<noteq> HLC_TIMESTAMP_COLUMN \<Longrightarrow> c \<noteq> COLUMN_HLCS_COLUMN \<Longrightarrow> cell env (scan_view cols r) c = cell env r c"
  by (simp add: scan_view_def cell_def Let_def)

lemma space_id_not_clock [simp]: "''space_id'' \<noteq> HLC_TIMESTAMP_COLUMN" "''space_id'' \<noteq> COLUMN_HLCS_COLUMN"
  by (simp_all add: HLC_TIMESTAMP_COLUMN_def COLUMN_HLCS_COLUMN_def)

lemma scan_tables_mem:
  assumes "scan_tables scan ts = Inr cs" "c \<in> set cs"
  shows "\<exists>t cs'. t \<in> set ts \<and> scan t = Inr cs' \<and> c \<in> set cs'"
  using assms
proof (induction ts arbitrary: cs)
  case Nil
  then show ?case by simp
next
  case (Cons t ts)
  then show ?case by (fastforce simp: res_simps)
qed

lemma scan_tables_each:
  assumes "scan_tables scan ts = Inr cs" "t \<in> set ts"
  shows "\<exists>cs'. scan t = Inr cs' \<and> set cs' \<subseteq> set cs"
  using assms
proof (induction ts arbitrary: cs)
  case Nil
  then show ?case by simp
next
  case (Cons u ts)
  then show ?case by (fastforce simp: res_simps)
qed

lemma column_change_Some:
  assumes "column_change env b64 t dev after origin pkc r col = Some ch"
  shows "lc_table_name ch = t" "lc_column_name ch = col_name col"
    "lc_value ch = convert_value_ref_to_json b64 (cell env r (col_name col))"
    "after = Some th \<Longrightarrow> hlc_is_newer (lc_hlc_timestamp ch) th"
    "origin = Some n \<Longrightarrow> hlc_is_from_node (lc_hlc_timestamp ch) n"
  using assms by (auto simp: column_change_def Let_def split: option.splits if_splits)

definition exported_from ::
  "sql_engine \<Rightarrow> (8 word list \<Rightarrow> string) \<Rightarrow> crdt_db \<Rightarrow> string \<Rightarrow> local_column_change \<Rightarrow> bool" where
  "exported_from env b64 db space ch \<longleftrightarrow>
     (\<exists>tb r col. tables db (lc_table_name ch) = Some tb \<and> r \<in> set (rows tb) \<and>
        sql_eq env (cell env r ''space_id'') (SText space) \<and>
        col \<in> set (schema tb) \<and> \<not> is_pk col \<and> col_name col \<notin> set EXCLUDED_SYNC_COLUMNS \<and>
        lc_column_name ch = col_name col \<and>
        lc_value ch = convert_value_ref_to_json b64 (cell env r (col_name col)))"

lemma scan_table_exported:
  assumes "scan_table_for_local_changes_scoped env b64 db t after dev (Some space) origin = Inr cs"
    and "ch \<in> set cs"
  shows "lc_table_name ch = t \<and> exported_from env b64 db space ch
    \<and> (\<forall>th. after = Some th \<longrightarrow> hlc_is_newer (lc_hlc_timestamp ch) th)
    \<and> (\<forall>n. origin = Some n \<longrightarrow> hlc_is_from_node (lc_hlc_timestamp ch) n)"
proof -
  obtain tb r col where tb: "tables db t = Some tb" and r: "r \<in> set (rows tb)"
    and sel: "row_selected env after (Some space) (scan_view (schema tb) r)"
    and col: "col \<in> set (snd (partition_columns (schema tb)))"
    and ch: "column_change env b64 t dev after origin (fst (partition_columns (schema tb)))
        (scan_view (schema tb) r) col = Some ch"
    using assms unfolding scan_table_for_local_changes_scoped_def get_table_schema_def
    by (auto simp: Let_def List.map_filter_def split: if_splits option.splits prod.splits)
  note cc = column_change_Some [OF ch]
  have "sql_eq env (cell env r ''space_id'') (SText space)"
    using sel by (auto simp: row_selected_def cell_scan_view)
  with tb r col cc(1-3) have "exported_from env b64 db space ch"
    unfolding exported_from_def by (auto simp: partition_columns_def cell_scan_view)
  with cc show ?thesis by auto
qed

lemma scan_space_sorted:
  assumes "scan_space_scoped_tables_for_local_changes env b64 db space after dev origin = Inr cs"
  shows "sorted_wrt (\<lambda>a b. compare_hlc_strings (lc_hlc_timestamp a) (lc_hlc_timestamp b) \<noteq> Greater) cs"
  using assms hlc_cmp.sort_by_sorted [of lc_hlc_timestamp]
  by (auto simp: scan_space_scoped_tables_for_local_changes_def res_simps hlc_cmp.cmp_le_def [abs_def])

text \<open>C26: What leaves the device for a peer of a space is confined to that space: every
  change a scan emits belongs to a whitelisted table, to a row whose \<open>space_id\<close> is the
  requested space, and to a data column (no key, clock or sync-metadata column), carries
  that cell's value, is newer than the cursor and stems from the requested node; and the
  list is in ascending timestamp order.\<close>

theorem scan_confined_to_space:
  assumes "scan_space_scoped_tables_for_local_changes env b64 db space after dev origin = Inr cs"
  shows "sorted_wrt (\<lambda>a b. compare_hlc_strings (lc_hlc_timestamp a) (lc_hlc_timestamp b) \<noteq> Greater) cs
    \<and> (\<forall>ch\<in>set cs. is_space_scoped_table (lc_table_name ch) \<and> exported_from env b64 db space ch
        \<and> (\<forall>th. after = Some th \<longrightarrow> hlc_is_newer (lc_hlc_timestamp ch) th)
        \<and> (\<forall>n. origin = Some n \<longrightarrow> hlc_is_from_node (lc_hlc_timestamp ch) n))"
proof (intro conjI ballI)
  show "sorted_wrt (\<lambda>a b. compare_hlc_strings (lc_hlc_timestamp a) (lc_hlc_timestamp b) \<noteq> Greater) cs"
    by (rule scan_space_sorted [OF assms])
next
  fix ch assume "ch \<in> set cs"
  then obtain t cs' where "t \<in> set SPACE_SCOPED_CRDT_TABLES"
    "scan_table_for_local_changes_scoped env b64 db t after dev (Some space) origin = Inr cs'" "ch \<in> set cs'"
    using assms scan_tables_mem by (fastforce simp: scan_space_scoped_tables_for_local_changes_def res_simps)
  with scan_table_exported show "is_space_scoped_table (lc_table_name ch)" "exported_from env b64 db space ch"
    "\<forall>th. after = Some th \<longrightarrow> hlc_is_newer (lc_hlc_timestamp ch) th"
    "\<forall>n. origin = Some n \<longrightarrow> hlc_is_from_node (lc_hlc_timestamp ch) n"
    by (auto simp: is_space_scoped_table_def)
qed

text \<open>A space database for the witnesses: a member row of space \<open>s1\<close> and one of \<open>s2\<close>.\<close>

definition member_row :: "string \<Rightarrow> string \<Rightarrow> string \<Rightarrow> row" where
  "member_row i space h = \<lparr>cells = [''id'' \<mapsto> SText i, ''space_id'' \<mapsto> SText space, ''role'' \<mapsto> SText ''read''],
     row_hlc = Some h, column_hlcs = [''space_id'' \<mapsto> h, ''role'' \<mapsto> h]\<rparr>"

definition member_schema :: "column_info list" where
  "member_schema =
     [\<lparr>col_name = ''id'', is_pk = True\<rparr>, \<lparr>col_name = ''space_id'', is_pk = False\<rparr>,
      \<lparr>col_name = ''role'', is_pk = False\<rparr>, \<lparr>col_name = HLC_TIMESTAMP_COLUMN, is_pk = False\<rparr>,
      \<lparr>col_name = COLUMN_HLCS_COLUMN, is_pk = False\<rparr>]"

definition space_db :: crdt_db where
  "space_db = sample_crdt_db\<lparr>tables := [''haex_space_members'' \<mapsto>
     \<lparr>schema = member_schema, rows = [member_row ''m1'' ''s1'' ''100/1'', member_row ''m2'' ''s2'' ''101/1''],
      has_triggers = True\<rparr>]\<rparr>"

lemmas scan_eval = scan_space_scoped_tables_for_local_changes_def SPACE_SCOPED_CRDT_TABLES_def
  scan_table_for_local_changes_scoped_def get_table_schema_def is_safe_identifier_def
  is_ascii_alphanumeric_def is_ascii_digit_def is_ascii_alphabetic_def partition_columns_def
  has_column_def scan_view_def row_selected_def column_change_def row_pk_json_def cell_def
  EXCLUDED_SYNC_COLUMNS_def HLC_TIMESTAMP_COLUMN_def COLUMN_HLCS_COLUMN_def List.map_filter_def sort_by_def
  space_db_def member_schema_def member_row_def sample_engine_def sample_crdt_db_def

definition space_db_changes :: "local_column_change list" where
  "space_db_changes = [\<lparr>lc_table_name = ''haex_space_members'', lc_row_pks = ''json'', lc_column_name = ''space_id'',
            lc_hlc_timestamp = ''100/1'', lc_value = JString ''s1'', lc_device_id = ''d''\<rparr>,
          \<lparr>lc_table_name = ''haex_space_members'', lc_row_pks = ''json'', lc_column_name = ''role'',
            lc_hlc_timestamp = ''100/1'', lc_value = JString ''read'', lc_device_id = ''d''\<rparr>]"

lemma space_db_scan:
  "scan_space_scoped_tables_for_local_changes sample_engine (\<lambda>_. ''b64'') space_db ''s1'' (Some ''10/1'') ''d'' (Some 1)
   = Inr space_db_changes"
  by (simp add: space_db_changes_def scan_eval hlc_is_newer_key hlc_eval hlc_is_from_node_def
      hlc_node_id_suffix_def compare_hlc_strings_def)

theorem scan_confined_to_space_witness:
  "\<exists>cs. scan_space_scoped_tables_for_local_changes sample_engine (\<lambda>_. ''b64'') space_db ''s1'' (Some ''10/1'') ''d'' (Some 1)
     = Inr cs \<and> (\<forall>ch\<in>set cs. exported_from sample_engine (\<lambda>_. ''b64'') space_db ''s1'' ch)"
  using space_db_scan scan_confined_to_space [OF space_db_scan] by blast

text \<open>The scan misses changes that are newer than the cursor: the SQL prefilter compares
  row clocks as text, so with the cursor \<open>99/1\<close> a row written at \<open>100/1\<close> is not even read,
  although the numeric comparison used for the columns calls its clock newer.\<close>

theorem scan_prefilter_misses_newer:
  "scan_space_scoped_tables_for_local_changes sample_engine (\<lambda>_. ''b64'') space_db ''s1'' (Some ''99/1'') ''d'' (Some 1) = Inr []
   \<and> hlc_is_newer ''100/1'' ''99/1'' \<and> \<not> text_greater ''100/1'' ''99/1''"
  by (simp add: scan_eval hlc_is_newer_key hlc_eval)

lemma scan_table_complete:
  assumes "scan_table_for_local_changes_scoped env b64 db t after dev space origin = Inr cs"
    and "tables db t = Some tb" "r \<in> set (rows tb)" "col \<in> set (snd (partition_columns (schema tb)))"
    and "space \<noteq> None \<longrightarrow> has_column ''space_id'' (schema tb)"
    and "row_selected env after space (scan_view (schema tb) r)"
    and "column_change env b64 t dev after origin (fst (partition_columns (schema tb)))
        (scan_view (schema tb) r) col = Some ch"
  shows "ch \<in> set cs"
proof -
  have "schema tb \<noteq> []" using assms(4) by (auto simp: partition_columns_def)
  then show ?thesis
    using assms unfolding scan_table_for_local_changes_scoped_def get_table_schema_def
    by (auto simp: Let_def List.map_filter_def split: if_splits prod.splits) force+
qed

text \<open>C25: Completeness of a scan: in a whitelisted table with its clock columns, a data
  column whose clock is newer than the cursor and stems from the requested node is
  emitted, with its value, provided the row belongs to the space and its row clock also
  passes the textual comparison with the cursor.\<close>

theorem scan_complete:
  assumes "scan_space_scoped_tables_for_local_changes env b64 db space (Some th) dev (Some n) = Inr cs"
    and "is_space_scoped_table t" "tables db t = Some tb" "r \<in> set (rows tb)"
    and "col \<in> set (snd (partition_columns (schema tb)))"
    and "has_column ''space_id'' (schema tb)" "has_column HLC_TIMESTAMP_COLUMN (schema tb)"
    and "has_column COLUMN_HLCS_COLUMN (schema tb)"
    and "cell env r ''space_id'' \<noteq> SNull" "sql_eq env (cell env r ''space_id'') (SText space)"
    and "row_hlc r = Some rh" "text_greater rh th"
    and "column_hlcs r (col_name col) = Some h" "hlc_is_newer h th" "hlc_is_from_node h n"
  shows "\<exists>ch\<in>set cs. lc_table_name ch = t \<and> lc_column_name ch = col_name col \<and> lc_hlc_timestamp ch = h
    \<and> lc_value ch = convert_value_ref_to_json b64 (cell env r (col_name col))"
proof -
  obtain all where all: "scan_tables (\<lambda>t. scan_table_for_local_changes_scoped env b64 db t (Some th) dev (Some space) (Some n))
      SPACE_SCOPED_CRDT_TABLES = Inr all" and cs: "set cs = set all"
    using assms(1) by (auto simp: scan_space_scoped_tables_for_local_changes_def res_simps)
  obtain cs' where cs': "scan_table_for_local_changes_scoped env b64 db t (Some th) dev (Some space) (Some n) = Inr cs'"
    and sub: "set cs' \<subseteq> set all"
    using scan_tables_each [OF all] assms(2) unfolding is_space_scoped_table_def by blast
  have view: "scan_view (schema tb) r = r" using assms(7,8) by (simp add: scan_view_def)
  let ?pk = "fst (partition_columns (schema tb))"
  obtain ch where ch: "column_change env b64 t dev (Some th) (Some n) ?pk r col = Some ch"
    and h: "lc_hlc_timestamp ch = h"
    using assms(13-15) by (simp add: column_change_def)
  have "row_selected env (Some th) (Some space) r"
    using assms(9-12) by (simp add: row_selected_def)
  then have "ch \<in> set cs'"
    using scan_table_complete [OF cs' assms(3,4,5)] assms(6) ch view by simp
  then have "ch \<in> set cs" using sub cs by blast
  then show ?thesis using column_change_Some [OF ch] h by auto
qed

theorem scan_complete_witness:
  "\<exists>cs ch. scan_space_scoped_tables_for_local_changes sample_engine (\<lambda>_. ''b64'') space_db ''s1'' (Some ''10/1'') ''d'' (Some 1)
     = Inr cs \<and> ch \<in> set cs \<and> lc_column_name ch = ''role'' \<and> lc_value ch = JString ''read''"
proof -
  let ?tb = "\<lparr>schema = member_schema, rows = [member_row ''m1'' ''s1'' ''100/1'', member_row ''m2'' ''s2'' ''101/1''],
      has_triggers = True\<rparr>"
  have "\<exists>ch\<in>set space_db_changes.
      lc_table_name ch = ''haex_space_members'' \<and> lc_column_name ch = col_name \<lparr>col_name = ''role'', is_pk = False\<rparr> \<and>
      lc_hlc_timestamp ch = ''100/1'' \<and>
      lc_value ch = convert_value_ref_to_json (\<lambda>_. ''b64'')
        (cell sample_engine (member_row ''m1'' ''s1'' ''100/1'') (col_name \<lparr>col_name = ''role'', is_pk = False\<rparr>))"
    by (rule scan_complete [OF space_db_scan, where tb = ?tb and rh = "''100/1''"])
      (simp_all add: scan_eval is_space_scoped_table_def hlc_is_newer_key hlc_eval hlc_is_from_node_def hlc_node_id_suffix_def)
  then obtain ch where "ch \<in> set space_db_changes" "lc_column_name ch = ''role''"
    "lc_value ch = convert_value_ref_to_json (\<lambda>_. ''b64'') (cell sample_engine (member_row ''m1'' ''s1'' ''100/1'') ''role'')"
    by (elim bexE conjE) simp
  moreover have "cell sample_engine (member_row ''m1'' ''s1'' ''100/1'') ''role'' = SText ''read''"
    by (simp add: cell_def member_row_def HLC_TIMESTAMP_COLUMN_def COLUMN_HLCS_COLUMN_def)
  ultimately show ?thesis using space_db_scan by (intro exI [of _ space_db_changes] exI [of _ ch]) simp
qed


section \<open>A local update is scanned\<close>

lemma tracked_are_data:
  "set (cols_to_track cols) = col_name ` set (snd (partition_columns cols))"
  by (auto simp: cols_to_track_def partition_columns_def EXCLUDED_SYNC_COLUMNS_def
      LAST_PUSH_HLC_COLUMN_def LAST_PULL_SERVER_TIMESTAMP_COLUMN_def UPDATED_AT_COLUMN_def CREATED_AT_COLUMN_def)

lemma fold_upd_same: "fold (\<lambda>c m. m(c \<mapsto> h)) cs m c = (if c \<in> set cs then Some h else m c)"
  by (induction cs arbitrary: m) auto

text \<open>The update trigger and the scanner fit together.  After a local update with a
  new row clock, a scan with a cursor that covers the old column clocks but not the new
  row clock emits exactly the data columns whose value changed, with the new clock.\<close>

theorem local_update_scanned:
  assumes "triggers_fire db" "row_hlc new = Some h" "hlc_is_newer h th"
    and "column_hlcs new = column_hlcs old"
    and "\<forall>col\<in>set (snd (partition_columns cols)).
       \<exists>x. column_hlcs old (col_name col) = Some x \<and> \<not> hlc_is_newer x th"
    and "col \<in> set (snd (partition_columns cols))"
  shows "(case column_change env b64 t dev (Some th) None pkc
       (update_trigger_row env db (cols_to_track cols) old new) col of
        None \<Rightarrow> cell env new (col_name col) = cell env old (col_name col)
      | Some ch \<Rightarrow> cell env new (col_name col) \<noteq> cell env old (col_name col) \<and> lc_hlc_timestamp ch = h)"
proof -
  let ?r = "update_trigger_row env db (cols_to_track cols) old new"
  have tr: "col_name col \<in> set (cols_to_track cols)" using assms(6) by (simp add: tracked_are_data)
  have clocks: "column_hlcs ?r = fold (\<lambda>c m. m(c \<mapsto> h)) (changed_columns env (cols_to_track cols) old new) (column_hlcs old)"
    using assms(1,2,4) by (simp add: update_trigger_row_def)
  obtain x where x: "column_hlcs old (col_name col) = Some x" "\<not> hlc_is_newer x th"
    using assms(5,6) by blast
  have "column_hlcs ?r (col_name col) =
      Some (if cell env new (col_name col) \<noteq> cell env old (col_name col) then h else x)"
    using tr x(1) unfolding clocks fold_upd_same by (simp add: changed_columns_def)
  then show ?thesis
    using x(2) assms(3) by (simp add: column_change_def)
qed

theorem local_update_scanned_witness:
  "(case column_change sample_engine (\<lambda>_. ''b64'') ''t'' ''d'' (Some ''9/1'') None []
       (update_trigger_row sample_engine sample_crdt_db (cols_to_track sample_schema) sample_row
          (sample_row\<lparr>cells := (cells sample_row)(''b'' \<mapsto> SText ''new''), row_hlc := Some ''12/1''\<rparr>))
       \<lparr>col_name = ''b'', is_pk = False\<rparr> of
      None \<Rightarrow> False | Some ch \<Rightarrow> lc_hlc_timestamp ch = ''12/1'')"
proof -
  let ?new = "sample_row\<lparr>cells := (cells sample_row)(''b'' \<mapsto> SText ''new''), row_hlc := Some ''12/1''\<rparr>"
  have "cell sample_engine ?new ''b'' \<noteq> cell sample_engine sample_row ''b''"
    by (simp add: cell_def sample_row_def HLC_TIMESTAMP_COLUMN_def COLUMN_HLCS_COLUMN_def)
  then show ?thesis
    using local_update_scanned [of sample_crdt_db ?new "''12/1''" "''9/1''" sample_row sample_schema
        "\<lparr>col_name = ''b'', is_pk = False\<rparr>" sample_engine "\<lambda>_. ''b64''" "''t''" "''d''" "[]"]
    by (simp add: triggers_fire_def sample_crdt_db_def sample_row_def sample_schema_def partition_columns_def
        EXCLUDED_SYNC_COLUMNS_def HLC_TIMESTAMP_COLUMN_def COLUMN_HLCS_COLUMN_def hlc_is_newer_key hlc_eval
        split: option.splits)
qed

end
