(* ===== verification/Ucan.thy ===== *)
theory Ucan
  imports Prelude
begin

text \<open>
  UCAN tokens: creation (\<open>ucan/create.rs\<close>) and verification (\<open>ucan/verify.rs\<close>).  A token is
  \<open>base64url(header).base64url(payload).base64url(signature)\<close>, its issuer a \<open>did:key\<close> that
  holds the Ed25519 key the signature is checked with.

  The encodings (base64, base58, JSON text) and Ed25519 come from other crates: they are
  the fields of \<open>ucan_env\<close>.  A \<open>VerifyingKey\<close> is its 32 bytes, a \<open>SigningKey\<close> its 32-byte
  seed.  The clock and the random nonce are arguments: \<open>now\<close> is the result of
  \<open>SystemTime::now().duration_since(UNIX_EPOCH)\<close> in seconds, an error for a clock before
  the epoch.
\<close>

type_synonym bytes = "8 word list"

record ucan_env =
  b64url_encode :: "bytes \<Rightarrow> string"
  b64url_decode :: "string \<Rightarrow> (string, bytes) result"
  b64_decode :: "string \<Rightarrow> (string, bytes) result"
  bs58_encode :: "bytes \<Rightarrow> string"
  bs58_decode :: "string \<Rightarrow> (string, bytes) result"
  json_from_slice :: "bytes \<Rightarrow> (string, json) result"
  json_to_string :: "json \<Rightarrow> (string, string) result"
  key_error :: "bytes \<Rightarrow> string option"
  ed_verify :: "bytes \<Rightarrow> bytes \<Rightarrow> bytes \<Rightarrow> bool"
  ed_sign :: "bytes \<Rightarrow> bytes \<Rightarrow> bytes"
  ed_public :: "bytes \<Rightarrow> bytes"

definition as_bytes :: "string \<Rightarrow> bytes" where
  "as_bytes s = map (\<lambda>c. of_nat (of_char c)) s"


section \<open>Capability levels\<close>

datatype capability_level = CapRead | CapWrite | CapInvite | CapAdmin

fun level_rank :: "capability_level \<Rightarrow> nat" where
  "level_rank CapRead = 1"
| "level_rank CapWrite = 2"
| "level_rank CapInvite = 3"
| "level_rank CapAdmin = 4"

lemma level_rank_inject: "level_rank a = level_rank b \<Longrightarrow> a = b"
  by (cases a; cases b) auto

text \<open>\<open>#[derive(PartialOrd, Ord)]\<close> on the enum.\<close>

instantiation capability_level :: linorder
begin

definition less_eq_capability_level :: "capability_level \<Rightarrow> capability_level \<Rightarrow> bool" where
  "less_eq_capability_level a b \<longleftrightarrow> level_rank a \<le> level_rank b"

definition less_capability_level :: "capability_level \<Rightarrow> capability_level \<Rightarrow> bool" where
  "less_capability_level a b \<longleftrightarrow> level_rank a < level_rank b"

instance
  by standard
    (auto simp: less_eq_capability_level_def less_capability_level_def level_rank_inject)

end

definition from_capability_string :: "string \<Rightarrow> capability_level option" where
  "from_capability_string capability =
     (if capability = ''space/read'' then Some CapRead
      else if capability = ''space/write'' then Some CapWrite
      else if capability = ''space/invite'' then Some CapInvite
      else if capability = ''space/admin'' then Some CapAdmin
      else None)"

lemma level_bounds [simp]: "CapRead \<le> l" "l \<le> CapAdmin"
  by (cases l; simp add: less_eq_capability_level_def)+


section \<open>Verification\<close>

record validated_ucan =
  vu_issuer :: string
  vu_audience :: string
  vu_capabilities :: "string \<rightharpoonup> capability_level"
  vu_expires_at :: "64 word"

datatype ucan_verify_error =
    MalformedToken string
  | InvalidSignature
  | TokenExpired
  | AudienceMismatch string string
  | EmptyExpectedAudience
  | MissingCapability string
  | InsufficientCapability capability_level capability_level
  | UnknownCapability string

text \<open>Indexing a JSON value: a missing key, or a value that is no object, gives \<open>null\<close>.\<close>

fun json_index :: "json \<Rightarrow> string \<Rightarrow> json" where
  "json_index (JObject m) k = (case map_of m k of None \<Rightarrow> JNull | Some v \<Rightarrow> v)"
| "json_index _ k = JNull"

fun json_as_u64 :: "json \<Rightarrow> 64 word option" where
  "json_as_u64 (JInt i) = (if 0 \<le> i \<and> i < 2 ^ 64 then Some (word_of_int i) else None)"
| "json_as_u64 _ = None"

fun json_as_object :: "json \<Rightarrow> (string \<times> json) list option" where
  "json_as_object (JObject m) = Some m"
| "json_as_object _ = None"

definition ED25519_MULTICODEC :: bytes where "ED25519_MULTICODEC = [0xed, 0x01]"

definition did_key_from_public_key :: "ucan_env \<Rightarrow> bytes \<Rightarrow> string" where
  "did_key_from_public_key env key = ''did:key:z'' @ bs58_encode env (ED25519_MULTICODEC @ key)"

definition public_key_from_did :: "ucan_env \<Rightarrow> string \<Rightarrow> (ucan_verify_error, bytes) result" where
  "public_key_from_did env did =
     (case strip_prefix did ''did:key:'' of
        None \<Rightarrow> Inl (MalformedToken ''DID must start with did:key:'')
      | Some multibase_key \<Rightarrow>
          (case strip_prefix multibase_key ''z'' of
             None \<Rightarrow> Inl (MalformedToken ''expected z (base58btc) prefix'')
           | Some base58_str \<Rightarrow>
               (case bs58_decode env base58_str of
                  Inl e \<Rightarrow> Inl (MalformedToken (''base58 decode: '' @ e))
                | Inr decoded \<Rightarrow>
                    if length decoded < 2 \<or> take 2 decoded \<noteq> ED25519_MULTICODEC
                    then Inl (MalformedToken ''missing Ed25519 multicodec prefix 0xed01'')
                    else if length (drop 2 decoded) \<noteq> 32
                    then Inl (MalformedToken ''Ed25519 key must be 32 bytes'')
                    else (case key_error env (drop 2 decoded) of
                            Some e \<Rightarrow> Inl (MalformedToken (''invalid Ed25519 key: '' @ e))
                          | None \<Rightarrow> Inr (drop 2 decoded)))))"

text \<open>The loop over the \<open>cap\<close> object: resources without the \<open>space:\<close> prefix are skipped.\<close>

fun parse_capabilities ::
  "(string \<times> json) list \<Rightarrow> (string \<rightharpoonup> capability_level)
    \<Rightarrow> (ucan_verify_error, string \<rightharpoonup> capability_level) result" where
  "parse_capabilities [] capabilities = Inr capabilities"
| "parse_capabilities ((resource, capability_value) # rest) capabilities =
     (case strip_prefix resource ''space:'' of
        None \<Rightarrow> parse_capabilities rest capabilities
      | Some space_id \<Rightarrow>
          (case json_as_str capability_value of
             None \<Rightarrow> Inl (MalformedToken ''capability must be string'')
           | Some cap_str \<Rightarrow>
               (case from_capability_string cap_str of
                  None \<Rightarrow> Inl (UnknownCapability cap_str)
                | Some level \<Rightarrow> parse_capabilities rest (capabilities(space_id \<mapsto> level)))))"

definition expiry_check :: "(string, 64 word) result \<Rightarrow> 64 word \<Rightarrow> (ucan_verify_error, unit) result" where
  "expiry_check now exp =
     (case now of Inl _ \<Rightarrow> Inl TokenExpired
      | Inr n \<Rightarrow> if exp \<le> n then Inl TokenExpired else Inr ())"

definition verify_signature ::
  "ucan_env \<Rightarrow> bytes \<Rightarrow> string \<Rightarrow> string \<Rightarrow> (ucan_verify_error, unit) result" where
  "verify_signature env verifying_key signing_input signature =
     (case b64url_decode env signature of
        Inl e \<Rightarrow> Inl (MalformedToken (''signature base64: '' @ e))
      | Inr sig_bytes \<Rightarrow>
          if length sig_bytes \<noteq> 64 then Inl (MalformedToken ''signature must be 64 bytes'')
          else if ed_verify env verifying_key (as_bytes signing_input) sig_bytes then Inr ()
          else Inl InvalidSignature)"

definition validate_payload ::
  "ucan_env \<Rightarrow> (string, 64 word) result \<Rightarrow> string \<Rightarrow> string \<Rightarrow> json
    \<Rightarrow> (ucan_verify_error, validated_ucan) result" where
  "validate_payload env now signing_input signature payload =
     and_then (ok_or (MalformedToken ''missing iss'') (json_as_str (json_index payload ''iss'')))
       (\<lambda>issuer. and_then (public_key_from_did env issuer)
         (\<lambda>verifying_key. and_then (verify_signature env verifying_key signing_input signature)
           (\<lambda>_. and_then (ok_or (MalformedToken ''missing exp'') (json_as_u64 (json_index payload ''exp'')))
             (\<lambda>exp. and_then (expiry_check now exp)
               (\<lambda>_. and_then
                  (ok_or (MalformedToken ''missing cap object'') (json_as_object (json_index payload ''cap'')))
                  (\<lambda>cap_obj. and_then (parse_capabilities cap_obj Map.empty)
                    (\<lambda>capabilities.
                       Inr \<lparr>vu_issuer = issuer,
                            vu_audience = (case json_as_str (json_index payload ''aud'') of
                               None \<Rightarrow> [] | Some a \<Rightarrow> a),
                            vu_capabilities = capabilities, vu_expires_at = exp\<rparr>)))))))"

definition validate_token ::
  "ucan_env \<Rightarrow> (string, 64 word) result \<Rightarrow> string \<Rightarrow> (ucan_verify_error, validated_ucan) result" where
  "validate_token env now token =
     (case split_on CHR ''.'' token of
        [header, payload_part, signature] \<Rightarrow>
          (case b64url_decode env payload_part of
             Inl e \<Rightarrow> Inl (MalformedToken (''payload base64: '' @ e))
           | Inr payload_bytes \<Rightarrow>
               (case json_from_slice env payload_bytes of
                  Inl e \<Rightarrow> Inl (MalformedToken (''payload JSON: '' @ e))
                | Inr payload \<Rightarrow>
                    validate_payload env now (header @ ''.'' @ payload_part) signature payload))
      | _ \<Rightarrow> Inl (MalformedToken ''expected 3 dot-separated parts''))"

definition require_audience :: "validated_ucan \<Rightarrow> string \<Rightarrow> (ucan_verify_error, unit) result" where
  "require_audience validated expected_audience =
     (if expected_audience = [] then Inl EmptyExpectedAudience
      else if vu_audience validated = expected_audience then Inr ()
      else Inl (AudienceMismatch expected_audience (vu_audience validated)))"

definition require_not_expired ::
  "(string, 64 word) result \<Rightarrow> validated_ucan \<Rightarrow> (ucan_verify_error, unit) result" where
  "require_not_expired now validated = expiry_check now (vu_expires_at validated)"

definition require_capability ::
  "validated_ucan \<Rightarrow> string \<Rightarrow> capability_level \<Rightarrow> (ucan_verify_error, unit) result" where
  "require_capability validated space_id required =
     (case vu_capabilities validated space_id of
        None \<Rightarrow> Inl (MissingCapability space_id)
      | Some actual \<Rightarrow>
          if required \<le> actual then Inr () else Inl (InsufficientCapability required actual))"


section \<open>Creation\<close>

datatype ucan_create_error = InvalidKey string | Serialization string | ClockError string

definition UCAN_HEADER :: json where
  "UCAN_HEADER = JObject [(''alg'', JString ''EdDSA''), (''typ'', JString ''JWT'')]"

definition PKCS8_ED25519_SEED_OFFSET :: nat where "PKCS8_ED25519_SEED_OFFSET = 16"
definition PKCS8_ED25519_TOTAL_LEN :: nat where "PKCS8_ED25519_TOTAL_LEN = 48"

definition signing_key_from_pkcs8_base64 ::
  "ucan_env \<Rightarrow> string \<Rightarrow> (ucan_create_error, bytes) result" where
  "signing_key_from_pkcs8_base64 env base64_key =
     (case b64_decode env base64_key of
        Inl e \<Rightarrow> Inl (InvalidKey (''Invalid Base64: '' @ e))
      | Inr der \<Rightarrow>
          if length der \<noteq> PKCS8_ED25519_TOTAL_LEN
          then Inl (InvalidKey (''Unexpected PKCS8 DER length: expected 48, got '' @ show_radix 10 (length der)))
          else Inr (take (PKCS8_ED25519_TOTAL_LEN - PKCS8_ED25519_SEED_OFFSET) (drop PKCS8_ED25519_SEED_OFFSET der)))"

definition encode_json_base64url :: "ucan_env \<Rightarrow> json \<Rightarrow> (ucan_create_error, string) result" where
  "encode_json_base64url env value =
     (case json_to_string env value of
        Inl e \<Rightarrow> Inl (Serialization e)
      | Inr text \<Rightarrow> Inr (b64url_encode env (as_bytes text)))"

definition generate_nonce :: "ucan_env \<Rightarrow> bytes \<Rightarrow> string" where
  "generate_nonce env random = b64url_encode env random"

text \<open>\<open>unix_secs_from\<close> reports a clock before the epoch with the text \<open>e\<close> of the standard library.\<close>

definition unix_now :: "(string, 64 word) result \<Rightarrow> (ucan_create_error, 64 word) result" where
  "unix_now now =
     (case now of Inl e \<Rightarrow> Inl (ClockError (''system clock before UNIX epoch: '' @ e)) | Inr n \<Rightarrow> Inr n)"

text \<open>\<open>exp\<close> is a \<open>u64\<close> sum: it wraps around in a build without overflow checks.\<close>

definition ucan_payload ::
  "string \<Rightarrow> string \<Rightarrow> string \<Rightarrow> string \<Rightarrow> string option \<Rightarrow> 64 word \<Rightarrow> 64 word \<Rightarrow> string \<Rightarrow> json" where
  "ucan_payload issuer_did audience_did space_id capability parent_ucan expires_in_seconds now nonce =
     JObject
       [(''ucv'', JString ''1.0''),
        (''iss'', JString issuer_did),
        (''aud'', JString audience_did),
        (''cap'', JObject [(''space:'' @ space_id, JString capability)]),
        (''exp'', JInt (uint (now + expires_in_seconds))),
        (''iat'', JInt (uint now)),
        (''prf'', JArray (case parent_ucan of Some token \<Rightarrow> [JString token] | None \<Rightarrow> [])),
        (''nnc'', JString nonce)]"

definition create_delegated_ucan ::
  "ucan_env \<Rightarrow> (string, 64 word) result \<Rightarrow> bytes \<Rightarrow> string \<Rightarrow> string \<Rightarrow> string \<Rightarrow> string \<Rightarrow> string
    \<Rightarrow> string option \<Rightarrow> 64 word \<Rightarrow> (ucan_create_error, string) result" where
  "create_delegated_ucan env clock random issuer_did issuer_private_key_base64 audience_did space_id
     capability parent_ucan expires_in_seconds =
     and_then (signing_key_from_pkcs8_base64 env issuer_private_key_base64)
       (\<lambda>signing_key. and_then (unix_now clock)
         (\<lambda>now. and_then (encode_json_base64url env UCAN_HEADER)
           (\<lambda>header_b64. and_then
              (encode_json_base64url env
                 (ucan_payload issuer_did audience_did space_id capability parent_ucan expires_in_seconds now
                    (generate_nonce env random)))
              (\<lambda>payload_b64.
                 (let signing_input = header_b64 @ ''.'' @ payload_b64;
                      signature_b64 = b64url_encode env (ed_sign env signing_key (as_bytes signing_input))
                  in Inr (header_b64 @ ''.'' @ payload_b64 @ ''.'' @ signature_b64))))))"


section \<open>What an accepted token proves\<close>

text \<open>What the code relies on of the encodings (a text decodes to what was encoded and has
  no dot), of Ed25519 (a signature verifies under the key of its seed) and of the JSON
  text of one value.\<close>

definition codec_laws :: "ucan_env \<Rightarrow> bool" where
  "codec_laws env \<longleftrightarrow>
     (\<forall>b. b64url_decode env (b64url_encode env b) = Inr b \<and> CHR ''.'' \<notin> set (b64url_encode env b)
        \<and> bs58_decode env (bs58_encode env b) = Inr b)"

definition signature_laws :: "ucan_env \<Rightarrow> bool" where
  "signature_laws env \<longleftrightarrow>
     (\<forall>seed msg. length seed = 32 \<longrightarrow>
        length (ed_public env seed) = 32 \<and> key_error env (ed_public env seed) = None \<and>
        length (ed_sign env seed msg) = 64 \<and> ed_verify env (ed_public env seed) msg (ed_sign env seed msg))"

definition json_round_trip :: "ucan_env \<Rightarrow> json \<Rightarrow> bool" where
  "json_round_trip env j \<longleftrightarrow>
     (\<exists>text. json_to_string env j = Inr text \<and> json_from_slice env (as_bytes text) = Inr j)"

lemma codec_lawsD:
  assumes "codec_laws env"
  shows "b64url_decode env (b64url_encode env b) = Inr b" "CHR ''.'' \<notin> set (b64url_encode env b)"
    "bs58_decode env (bs58_encode env b) = Inr b"
  using assms by (auto simp: codec_laws_def)

lemma strip_prefix_append [simp]: "strip_prefix (p @ s) p = Some s"
  by (simp add: strip_prefix_def)

lemma did_key_round_trip:
  assumes "codec_laws env" "length key = 32" "key_error env key = None"
  shows "public_key_from_did env (did_key_from_public_key env key) = Inr key"
proof -
  have p: "strip_prefix (''did:key:z'' @ s) ''did:key:'' = Some (''z'' @ s)" for s
    using strip_prefix_append [of "''did:key:''" "''z'' @ s"] by simp
  show ?thesis
    unfolding public_key_from_did_def did_key_from_public_key_def p option.case strip_prefix_append
    by (simp add: codec_lawsD(3) [OF assms(1)] ED25519_MULTICODEC_def assms)
qed

lemma seed_length:
  "signing_key_from_pkcs8_base64 env key = Inr seed \<Longrightarrow> length seed = 32"
  by (auto simp: signing_key_from_pkcs8_base64_def PKCS8_ED25519_TOTAL_LEN_def
      PKCS8_ED25519_SEED_OFFSET_def split: sum.splits if_splits)

lemma split_token:
  assumes "CHR ''.'' \<notin> set a" "CHR ''.'' \<notin> set b" "CHR ''.'' \<notin> set c"
  shows "split_on CHR ''.'' (a @ ''.'' @ b @ ''.'' @ c) = [a, b, c]"
  using assms by (simp add: split_on_append)

lemma created_token_validates:
  assumes env: "codec_laws env" "signature_laws env"
    and key: "signing_key_from_pkcs8_base64 env key = Inr seed"
    and hdr: "json_to_string env UCAN_HEADER = Inr h"
    and pay: "json_round_trip env
        (ucan_payload issuer aud space_id cap parent e now (generate_nonce env random))"
    and iss: "issuer = did_key_from_public_key env (ed_public env seed)"
    and level: "from_capability_string cap = Some level"
    and fresh: "later < now + e"
  shows "\<exists>token. create_delegated_ucan env (Inr now) random issuer key aud space_id cap parent e = Inr token
    \<and> validate_token env (Inr later) token =
        Inr \<lparr>vu_issuer = issuer, vu_audience = aud, vu_capabilities = [space_id \<mapsto> level],
             vu_expires_at = now + e\<rparr>"
proof -
  define p where "p = ucan_payload issuer aud space_id cap parent e now (generate_nonce env random)"
  obtain t where t: "json_to_string env p = Inr t" "json_from_slice env (as_bytes t) = Inr p"
    using pay by (auto simp: json_round_trip_def p_def)
  define hb pb where "hb = b64url_encode env (as_bytes h)" and "pb = b64url_encode env (as_bytes t)"
  define sg where "sg = b64url_encode env (ed_sign env seed (as_bytes (hb @ ''.'' @ pb)))"
  note codec = codec_lawsD [OF env(1)]
  have seed: "length (ed_public env seed) = 32" "key_error env (ed_public env seed) = None"
    "length (ed_sign env seed m) = 64" "ed_verify env (ed_public env seed) m (ed_sign env seed m)" for m
    using env(2) seed_length [OF key] by (auto simp: signature_laws_def)
  have create: "create_delegated_ucan env (Inr now) random issuer key aud space_id cap parent e
      = Inr (hb @ ''.'' @ pb @ ''.'' @ sg)"
    using hdr t(1) unfolding create_delegated_ucan_def key unix_now_def p_def
    by (simp add: encode_json_base64url_def hb_def pb_def sg_def Let_def)
  have split: "split_on CHR ''.'' (hb @ ''.'' @ pb @ ''.'' @ sg) = [hb, pb, sg]"
    by (rule split_token) (simp_all add: hb_def pb_def sg_def codec)
  have sig: "verify_signature env (ed_public env seed) (hb @ ''.'' @ pb) sg = Inr ()"
    by (simp add: verify_signature_def sg_def codec seed)
  have fields: "json_index p ''iss'' = JString issuer" "json_index p ''aud'' = JString aud"
    "json_index p ''exp'' = JInt (uint (now + e))"
    "json_index p ''cap'' = JObject [(''space:'' @ space_id, JString cap)]"
    by (simp_all add: p_def ucan_payload_def)
  have exp: "json_as_u64 (JInt (uint (now + e))) = Some (now + e)"
    using uint_lt2p [of "now + e"] by simp
  have caps: "parse_capabilities [(''space:'' @ space_id, JString cap)] Map.empty = Inr [space_id \<mapsto> level]"
    unfolding parse_capabilities.simps strip_prefix_append by (simp add: level)
  have pk: "public_key_from_did env issuer = Inr (ed_public env seed)"
    unfolding iss by (rule did_key_round_trip [OF env(1) seed(1,2)])
  have "validate_payload env (Inr later) (hb @ ''.'' @ pb) sg p =
      Inr \<lparr>vu_issuer = issuer, vu_audience = aud, vu_capabilities = [space_id \<mapsto> level],
           vu_expires_at = now + e\<rparr>"
    using fresh unfolding validate_payload_def fields json_as_str.simps exp json_as_object.simps
      ok_or.simps and_then.simps pk sig caps
    by (simp add: expiry_check_def)
  with create split t(2) show ?thesis
    by (simp add: validate_token_def codec(1) pb_def)
qed

lemma expiry_check_Inr: "expiry_check now exp = Inr u \<longleftrightarrow> (\<exists>n. now = Inr n \<and> n < exp)"
  by (auto simp: expiry_check_def split: sum.splits)

lemma parse_capabilities_sound:
  assumes "parse_capabilities cs m = Inr caps" "caps s = Some l"
  shows "m s = Some l \<or> (\<exists>c. (''space:'' @ s, JString c) \<in> set cs \<and> from_capability_string c = Some l)"
  using assms
proof (induction cs m rule: parse_capabilities.induct)
  case (2 r v rest m)
  show ?case
  proof (cases "strip_prefix r ''space:''")
    case None
    with 2 show ?thesis by auto
  next
    case (Some i)
    hence r: "r = ''space:'' @ i"
      by (metis strip_prefix_def starts_with_def append_take_drop_id option.distinct(1) option.inject)
    from Some 2(3) obtain c l' where c: "json_as_str v = Some c" "from_capability_string c = Some l'"
      and rest: "parse_capabilities rest (m(i \<mapsto> l')) = Inr caps"
      by (auto split: option.splits)
    have "v = JString c" using c(1) by (cases v) auto
    with 2(2) [OF Some c rest 2(4)] c(2) show ?thesis by (auto simp: r split: if_splits)
  qed
qed simp

lemma validate_payload_sound:
  assumes "validate_payload env now si sg payload = Inr v"
  shows "json_index payload ''iss'' = JString (vu_issuer v)
    \<and> (\<exists>key s. public_key_from_did env (vu_issuer v) = Inr key \<and> b64url_decode env sg = Inr s
         \<and> length s = 64 \<and> ed_verify env key (as_bytes si) s)
    \<and> (\<exists>n. now = Inr n \<and> n < vu_expires_at v)
    \<and> (\<forall>space_id l. vu_capabilities v space_id = Some l \<longrightarrow>
         (\<exists>cs c. json_index payload ''cap'' = JObject cs \<and> (''space:'' @ space_id, JString c) \<in> set cs
            \<and> from_capability_string c = Some l))"
proof -
  obtain issuer key exp cs caps where
    iss: "json_as_str (json_index payload ''iss'') = Some issuer"
    and key: "public_key_from_did env issuer = Inr key"
    and sig: "verify_signature env key si sg = Inr ()"
    and exp: "expiry_check now exp = Inr ()"
    and cs: "json_as_object (json_index payload ''cap'') = Some cs"
    and caps: "parse_capabilities cs Map.empty = Inr caps"
    and v: "v = \<lparr>vu_issuer = issuer,
        vu_audience = (case json_as_str (json_index payload ''aud'') of None \<Rightarrow> [] | Some a \<Rightarrow> a),
        vu_capabilities = caps, vu_expires_at = exp\<rparr>"
    using assms by (auto simp: validate_payload_def res_simps)
  have "json_index payload ''iss'' = JString issuer" using iss by (cases "json_index payload ''iss''") auto
  moreover have "json_index payload ''cap'' = JObject cs" using cs by (cases "json_index payload ''cap''") auto
  moreover have "\<exists>s. b64url_decode env sg = Inr s \<and> length s = 64 \<and> ed_verify env key (as_bytes si) s"
    using sig by (auto simp: verify_signature_def split: sum.splits if_splits)
  ultimately show ?thesis
    using key exp parse_capabilities_sound [OF caps] by (auto simp: v expiry_check_Inr)
qed

text \<open>C11: A token the vault mints for a member is accepted by every peer that trusts only the
  token: for a key whose \<open>did:key\<close> is the issuer, \<open>create_delegated_ucan\<close> returns a token, and
  \<open>validate_token\<close> maps it, at every moment before \<open>now + expires_in_seconds\<close> (computed in 64
  bits), to exactly the issuer, the audience, the one capability for the space and the expiry
  it was made from.  Nothing else is required of the issuer: the verifier looks neither at
  \<open>prf\<close> nor at who owns the space, so any key can mint any capability for itself.\<close>

theorem ucan_round_trip:
  assumes "codec_laws env" "signature_laws env"
    and "signing_key_from_pkcs8_base64 env key = Inr seed"
    and "json_to_string env UCAN_HEADER = Inr h"
    and "json_round_trip env (ucan_payload (did_key_from_public_key env (ed_public env seed)) aud space_id
           cap parent e now (generate_nonce env random))"
    and "from_capability_string cap = Some level"
    and "later < now + e"
  shows "\<exists>token. create_delegated_ucan env (Inr now) random
            (did_key_from_public_key env (ed_public env seed)) key aud space_id cap parent e = Inr token
    \<and> validate_token env (Inr later) token =
        Inr \<lparr>vu_issuer = did_key_from_public_key env (ed_public env seed), vu_audience = aud,
             vu_capabilities = [space_id \<mapsto> level], vu_expires_at = now + e\<rparr>"
  using created_token_validates [OF assms(1-5) refl assms(6,7)] .

text \<open>A codec for the witnesses: two letters per byte.\<close>

definition sample_encode :: "bytes \<Rightarrow> string" where
  "sample_encode b = concat (map (\<lambda>w. [char_of (65 + unat w div 16), char_of (65 + unat w mod 16)]) b)"

fun sample_decode :: "string \<Rightarrow> (string, bytes) result" where
  "sample_decode (a # b # s) =
     and_then (sample_decode s) (\<lambda>w. Inr (of_nat ((of_char a - 65) * 16 + (of_char b - 65)) # w))"
| "sample_decode [] = Inr []"
| "sample_decode [a] = Inl ''odd length''"

lemma sample_letter:
  fixes n :: nat
  assumes "n < 16"
  shows "of_char (char_of (65 + n)) = 65 + n" "char_of (65 + n) \<noteq> CHR ''.''"
proof -
  show *: "of_char (char_of (65 + n)) = 65 + n" using assms by simp
  have "of_char CHR ''.'' = (46 :: nat)" by simp
  moreover have "65 + n \<noteq> 46" by arith
  ultimately show "char_of (65 + n) \<noteq> CHR ''.''" using * by metis
qed

lemma sample_codec: "sample_decode (sample_encode b) = Inr b" "CHR ''.'' \<notin> set (sample_encode b)"
proof (induction b)
  case (Cons w b)
  have "unat w < 2 ^ LENGTH(8)" by (rule unsigned_less)
  hence d: "unat w div 16 < 16" "unat w mod 16 < 16" by simp_all
  have w: "of_nat (unat w div 16 * 16 + unat w mod 16) = w" by simp
  note l = sample_letter(1) [OF d(1)] sample_letter(1) [OF d(2)]
  show "sample_decode (sample_encode (w # b)) = Inr (w # b)"
    using Cons(1) w by (simp add: sample_encode_def l del: of_nat_add of_nat_mult of_char_of)
  show "CHR ''.'' \<notin> set (sample_encode (w # b))"
    using Cons(2) sample_letter(2) [OF d(1)] sample_letter(2) [OF d(2)] by (auto simp: sample_encode_def)
qed (simp_all add: sample_encode_def)

text \<open>One payload has a JSON text, a key signs by repeating itself, and every 48-byte key file
  is the same one.\<close>

definition sample_ucan_env :: "json \<Rightarrow> ucan_env" where
  "sample_ucan_env p = \<lparr>
     b64url_encode = sample_encode, b64url_decode = sample_decode,
     b64_decode = (\<lambda>s. Inr (replicate 16 0 @ replicate 32 7)),
     bs58_encode = sample_encode, bs58_decode = sample_decode,
     json_from_slice = (\<lambda>b. if b = as_bytes ''p'' then Inr p else Inl ''no JSON''),
     json_to_string = (\<lambda>j. Inr (if j = p then ''p'' else ''h'')),
     key_error = (\<lambda>k. None),
     ed_verify = (\<lambda>k m s. s = k @ k), ed_sign = (\<lambda>k m. k @ k), ed_public = (\<lambda>k. k)\<rparr>"

lemma sample_ucan_env_laws:
  "codec_laws (sample_ucan_env p)" "signature_laws (sample_ucan_env p)"
  "json_round_trip (sample_ucan_env p) p"
  by (simp_all add: codec_laws_def signature_laws_def json_round_trip_def sample_ucan_env_def sample_codec)

lemma sample_signing_key:
  "signing_key_from_pkcs8_base64 (sample_ucan_env p) k = Inr (replicate 32 7)"
  by (simp add: signing_key_from_pkcs8_base64_def sample_ucan_env_def PKCS8_ED25519_TOTAL_LEN_def
      PKCS8_ED25519_SEED_OFFSET_def)

definition sample_did :: string where
  "sample_did = ''did:key:z'' @ sample_encode (ED25519_MULTICODEC @ replicate 32 7)"

definition sample_payload :: json where
  "sample_payload = ucan_payload sample_did sample_did ''s1'' ''space/admin'' None 3600 1000
     (sample_encode (replicate 12 1))"

lemma sample_did_key: "did_key_from_public_key (sample_ucan_env p) (replicate 32 7) = sample_did"
  by (simp add: did_key_from_public_key_def sample_ucan_env_def sample_did_def)

theorem ucan_round_trip_witness:
  "\<exists>token. create_delegated_ucan (sample_ucan_env sample_payload) (Inr 1000) (replicate 12 1) sample_did ''key''
        sample_did ''s1'' ''space/admin'' None 3600 = Inr token
    \<and> validate_token (sample_ucan_env sample_payload) (Inr 2000) token =
        Inr \<lparr>vu_issuer = sample_did, vu_audience = sample_did, vu_capabilities = [''s1'' \<mapsto> CapAdmin],
             vu_expires_at = 4600\<rparr>"
proof -
  let ?env = "sample_ucan_env sample_payload"
  have pub: "ed_public ?env (replicate 32 7) = replicate 32 7" by (simp add: sample_ucan_env_def)
  have hdr: "json_to_string ?env UCAN_HEADER = Inr ''h''"
    by (simp add: sample_ucan_env_def sample_payload_def ucan_payload_def UCAN_HEADER_def)
  have nonce: "generate_nonce ?env (replicate 12 1) = sample_encode (replicate 12 1)"
    by (simp add: generate_nonce_def sample_ucan_env_def)
  show ?thesis
    using ucan_round_trip [OF sample_ucan_env_laws(1,2) sample_signing_key [of _ "''key''"] hdr, where
        aud = sample_did and space_id = "''s1''" and cap = "''space/admin''" and parent = None
        and e = 3600 and now = 1000 and random = "replicate 12 1" and level = CapAdmin and later = 2000]
      sample_ucan_env_laws(3) [of sample_payload]
    unfolding pub sample_did_key nonce sample_payload_def [symmetric]
    by (simp add: from_capability_string_def)
qed

text \<open>C12: An accepted token is authentic and alive: \<open>validate_token\<close> returns a value only for three
  dot-separated parts whose middle part decodes to a JSON payload, with a 64-byte signature over
  \<open>header.payload\<close> that verifies under the key of the issuer's DID, before the expiry, and every
  capability it reports is a \<open>space:\<close> entry of the payload's \<open>cap\<close> object with a known level.\<close>

theorem validated_token_sound:
  assumes "validate_token env now token = Inr v"
  shows "\<exists>header payload_part signature payload_bytes payload.
     token = header @ ''.'' @ payload_part @ ''.'' @ signature
   \<and> b64url_decode env payload_part = Inr payload_bytes \<and> json_from_slice env payload_bytes = Inr payload
   \<and> json_index payload ''iss'' = JString (vu_issuer v)
   \<and> (\<exists>key s. public_key_from_did env (vu_issuer v) = Inr key \<and> b64url_decode env signature = Inr s
        \<and> length s = 64 \<and> ed_verify env key (as_bytes (header @ ''.'' @ payload_part)) s)
   \<and> (\<exists>n. now = Inr n \<and> n < vu_expires_at v)
   \<and> (\<forall>space_id l. vu_capabilities v space_id = Some l \<longrightarrow>
        (\<exists>cs c. json_index payload ''cap'' = JObject cs \<and> (''space:'' @ space_id, JString c) \<in> set cs
           \<and> from_capability_string c = Some l))"
proof -
  obtain header pp sg pb p where parts: "split_on CHR ''.'' token = [header, pp, sg]"
    and dec: "b64url_decode env pp = Inr pb" "json_from_slice env pb = Inr p"
    and v: "validate_payload env now (header @ ''.'' @ pp) sg p = Inr v"
    using assms by (auto simp: validate_token_def split: list.splits sum.splits)
  have "token = header @ ''.'' @ pp @ ''.'' @ sg"
    using join_split [of "CHR ''.''" token] by (simp add: parts)
  with dec validate_payload_sound [OF v] show ?thesis by blast
qed

theorem validated_token_sound_witness:
  "\<exists>token v. validate_token (sample_ucan_env sample_payload) (Inr 2000) token = Inr v \<and> vu_issuer v = sample_did
   \<and> (\<exists>header payload_part signature. token = header @ ''.'' @ payload_part @ ''.'' @ signature)"
proof -
  let ?env = "sample_ucan_env sample_payload"
  have hdr: "json_to_string ?env UCAN_HEADER = Inr ''h''"
    by (simp add: sample_ucan_env_def sample_payload_def ucan_payload_def UCAN_HEADER_def)
  obtain token v where "validate_token ?env (Inr 2000) token = Inr v" "vu_issuer v = sample_did"
    using created_token_validates [OF sample_ucan_env_laws(1,2) sample_signing_key [of _ "''key''"] hdr, where
        issuer = sample_did and aud = sample_did and space_id = "''s1''" and cap = "''space/admin''"
        and parent = None and e = 3600 and now = 1000 and random = "replicate 12 1" and level = CapAdmin
        and later = 2000]
      sample_ucan_env_laws(3) [of sample_payload] sample_did_key [of sample_payload]
    by (auto simp: from_capability_string_def generate_nonce_def sample_payload_def sample_ucan_env_def)
  with validated_token_sound [OF this(1)] show ?thesis by blast
qed

end
