(* ===== verification/SpaceAuth.thy ===== *)
theory SpaceAuth
  imports CrdtScanner Ucan
begin

text \<open>
  Authorisation of requests between the peers of a shared space: the wire protocol
  (\<open>space_delivery/local/protocol.rs\<close>, \<open>types.rs\<close>, \<open>error.rs\<close>), the lookups of members and
  tokens in the database (\<open>space_delivery/local/ucan.rs\<close>) and the gate every request passes
  before it is dispatched (\<open>space_delivery/local/auth_gate.rs\<close>).

  \<open>space_env\<close> holds what lies outside the repository: the SQL engine, the token
  environment, the comparison behind \<open>ORDER BY\<close> and \<open>>\<close>, base64 of a blob, and a
  failure of the database connection.  An unquoted name in a statement that is no column
  of its table may still mean something to the engine (\<open>rowid\<close>, a number): \<open>se_bare_name\<close>.
  \<open>se_insert_error\<close> is the constraint error an insert into a buffer table raises for a space
  (a missing parent row).
\<close>

record space_env =
  se_sql :: sql_engine
  se_ucan :: ucan_env
  se_lt :: "sql_value \<Rightarrow> sql_value \<Rightarrow> bool"
  se_b64 :: "bytes \<Rightarrow> string"
  se_db_fault :: "string option"
  se_bare_name :: "string \<Rightarrow> (row \<Rightarrow> sql_value) option"
  se_insert_error :: "string \<Rightarrow> string \<Rightarrow> string option"

datatype delivery_error =
    AccessDenied string
  | ConnectionFailed string
  | ProtocolError string
  | Database string

fun display_delivery_error :: "delivery_error \<Rightarrow> string" where
  "display_delivery_error (AccessDenied r) = ''Access denied: '' @ r"
| "display_delivery_error (ConnectionFailed r) = ''Connection failed: '' @ r"
| "display_delivery_error (ProtocolError r) = ''Protocol error: '' @ r"
| "display_delivery_error (Database r) = ''Database error: '' @ r"


section \<open>Protocol\<close>

type_synonym identity_claim = "string \<times> string"

datatype request =
    MlsUploadKeyPackages string "string list"
  | MlsFetchKeyPackage string string
  | MlsSendMessage string string string
  | MlsFetchMessages string "int option"
  | MlsSendWelcome string string string
  | MlsFetchWelcomes string
  | MlsAckCommit string "int list"
  | MlsKeyPackageCount string
  | RequestRejoin string "string option"
  | SubmitExternalCommit string string "string option"
  | SyncPush string json "string option"
  | SyncPull string "string option" "string option"
  | Announce string string "string option" "identity_claim list option" "string option"
  | ClaimInvite string string string "string list" "string option" "string option"
  | PushInvite string string string string "string list" bool string "string option" "string option"
      "string option" "string list" "string option" string "string option"

record mls_message_entry =
  me_id :: int
  me_sender_did :: string
  me_message_type :: string
  me_message :: string
  me_created_at :: string

datatype response =
    ROk
  | RMessageStored int
  | RKeyPackage string
  | RMessages "mls_message_entry list"
  | RWelcomes "string list"
  | RGroupInfo string
  | RKeyPackageCount nat nat
  | RSyncChanges json
  | RInviteClaimed string string string
  | RPushInviteAck bool
  | RError string

record connected_peer =
  cp_endpoint_id :: string
  cp_did :: string
  cp_label :: "string option"
  cp_claims :: "identity_claim list"
  cp_connected_at :: string
  cp_validated_ucan :: "validated_ucan option"

fun space_id_of :: "request \<Rightarrow> string" where
  "space_id_of (Announce endpoint_id space_id label claims ucan) = space_id"
| "space_id_of (MlsUploadKeyPackages space_id packages) = space_id"
| "space_id_of (MlsFetchKeyPackage space_id target_did) = space_id"
| "space_id_of (MlsSendMessage space_id message message_type) = space_id"
| "space_id_of (MlsFetchMessages space_id after_id) = space_id"
| "space_id_of (MlsSendWelcome space_id recipient_did welcome) = space_id"
| "space_id_of (MlsFetchWelcomes space_id) = space_id"
| "space_id_of (MlsAckCommit space_id message_ids) = space_id"
| "space_id_of (MlsKeyPackageCount space_id) = space_id"
| "space_id_of (RequestRejoin space_id ucan) = space_id"
| "space_id_of (SubmitExternalCommit space_id commit ucan) = space_id"
| "space_id_of (SyncPush space_id changes ucan) = space_id"
| "space_id_of (SyncPull space_id after_timestamp ucan) = space_id"
| "space_id_of (ClaimInvite space_id token endpoint_id key_packages label public_key) = space_id"
| "space_id_of (PushInvite space_id a b c d e f g h i j k l m) = space_id"

fun required_capability :: "request \<Rightarrow> capability_level option" where
  "required_capability (Announce endpoint_id space_id label claims ucan) = None"
| "required_capability (ClaimInvite space_id token endpoint_id key_packages label public_key) = None"
| "required_capability (PushInvite space_id a b c d e f g h i j k l m) = None"
| "required_capability (MlsFetchKeyPackage space_id target_did) = Some CapRead"
| "required_capability (MlsFetchMessages space_id after_id) = Some CapRead"
| "required_capability (MlsFetchWelcomes space_id) = Some CapRead"
| "required_capability (MlsKeyPackageCount space_id) = Some CapRead"
| "required_capability (MlsUploadKeyPackages space_id packages) = Some CapRead"
| "required_capability (MlsSendMessage space_id message message_type) = Some CapRead"
| "required_capability (MlsSendWelcome space_id recipient_did welcome) = Some CapRead"
| "required_capability (MlsAckCommit space_id message_ids) = Some CapRead"
| "required_capability (SyncPull space_id after_timestamp ucan) = Some CapRead"
| "required_capability (SyncPush space_id changes ucan) = Some CapRead"
| "required_capability (RequestRejoin space_id ucan) = Some CapRead"
| "required_capability (SubmitExternalCommit space_id commit ucan) = Some CapRead"

fun op_name :: "request \<Rightarrow> string" where
  "op_name (MlsUploadKeyPackages space_id packages) = ''MlsUploadKeyPackages''"
| "op_name (MlsFetchKeyPackage space_id target_did) = ''MlsFetchKeyPackage''"
| "op_name (MlsSendMessage space_id message message_type) = ''MlsSendMessage''"
| "op_name (MlsFetchMessages space_id after_id) = ''MlsFetchMessages''"
| "op_name (MlsSendWelcome space_id recipient_did welcome) = ''MlsSendWelcome''"
| "op_name (MlsFetchWelcomes space_id) = ''MlsFetchWelcomes''"
| "op_name (MlsAckCommit space_id message_ids) = ''MlsAckCommit''"
| "op_name (MlsKeyPackageCount space_id) = ''MlsKeyPackageCount''"
| "op_name (RequestRejoin space_id ucan) = ''RequestRejoin''"
| "op_name (SubmitExternalCommit space_id commit ucan) = ''SubmitExternalCommit''"
| "op_name (SyncPush space_id changes ucan) = ''SyncPush''"
| "op_name (SyncPull space_id after_timestamp ucan) = ''SyncPull''"
| "op_name (Announce endpoint_id space_id label claims ucan) = ''Announce''"
| "op_name (ClaimInvite space_id token endpoint_id key_packages label public_key) = ''ClaimInvite''"
| "op_name (PushInvite space_id a b c d e f g h i j k l m) = ''PushInvite''"


section \<open>Database lookups\<close>

text \<open>\<open>column = ?\<close> in a \<open>WHERE\<close> clause: NULL equals nothing.\<close>

definition where_eq :: "space_env \<Rightarrow> sql_value \<Rightarrow> sql_value \<Rightarrow> bool" where
  "where_eq env a b \<longleftrightarrow> a \<noteq> SNull \<and> b \<noteq> SNull \<and> sql_eq (se_sql env) a b"

definition where_gt :: "space_env \<Rightarrow> sql_value \<Rightarrow> sql_value \<Rightarrow> bool" where
  "where_gt env a b \<longleftrightarrow> a \<noteq> SNull \<and> b \<noteq> SNull \<and> se_lt env b a"

abbreviation col :: "space_env \<Rightarrow> row \<Rightarrow> string \<Rightarrow> sql_value" where
  "col env r c \<equiv> cell (se_sql env) r c"

text \<open>A statement that names the columns \<open>cs\<close> of the table \<open>t\<close> runs on the rows of \<open>t\<close>, and fails
  without a connection, without the table or without one of the columns.\<close>

definition table_rows :: "space_env \<Rightarrow> crdt_db \<Rightarrow> string \<Rightarrow> string list \<Rightarrow> (string, row list) result" where
  "table_rows env db t cs =
     (case se_db_fault env of
        Some e \<Rightarrow> Inl e
      | None \<Rightarrow>
          (case tables db t of
             None \<Rightarrow> Inl (''no such table: '' @ t)
           | Some tb \<Rightarrow>
               (case filter (\<lambda>c. \<not> has_column c (schema tb)) cs of
                  [] \<Rightarrow> Inr (rows tb)
                | c # _ \<Rightarrow> Inl (''no such column: '' @ c))))"

text \<open>\<open>ORDER BY c DESC\<close>, stable in the engine's scan order.\<close>

fun insert_desc :: "space_env \<Rightarrow> string \<Rightarrow> row \<Rightarrow> row list \<Rightarrow> row list" where
  "insert_desc env c r [] = [r]"
| "insert_desc env c r (x # xs) =
     (if se_lt env (col env x c) (col env r c) then r # x # xs else x # insert_desc env c r xs)"

definition order_by_desc :: "space_env \<Rightarrow> string \<Rightarrow> row list \<Rightarrow> row list" where
  "order_by_desc env c rs = fold (insert_desc env c) rs []"

definition read_str :: "space_env \<Rightarrow> row \<Rightarrow> string \<Rightarrow> string option" where
  "read_str env r c = json_as_str (convert_value_ref_to_json (se_b64 env) (col env r c))"

definition first_row :: "'a list \<Rightarrow> 'a option" where
  "first_row xs = (case xs of [] \<Rightarrow> None | x # _ \<Rightarrow> Some x)"

definition MEMBER_UCAN_EXPIRES_IN_SECONDS :: "64 word" where
  "MEMBER_UCAN_EXPIRES_IN_SECONDS = 100 * 365 * 86400"

record admin_identity =
  ai_did :: string
  ai_private_key_base64 :: string
  ai_root_ucan :: string

definition db_reason :: "string \<Rightarrow> (string, 'a) result \<Rightarrow> (delivery_error, 'a) result" where
  "db_reason what r = (case r of Inl e \<Rightarrow> Inl (Database (what @ e)) | Inr x \<Rightarrow> Inr x)"

definition load_admin_identity ::
  "space_env \<Rightarrow> crdt_db \<Rightarrow> string \<Rightarrow> (delivery_error, admin_identity) result" where
  "load_admin_identity env db space_id =
     and_then (db_reason ''Failed to query UCAN tokens: ''
        (table_rows env db ''haex_ucan_tokens'' [''issuer_did'', ''token'', ''space_id'', ''capability'']))
       (\<lambda>ucan_rows. and_then
          (ok_or (Database (''No admin UCAN found for space '' @ space_id))
            (first_row (filter (\<lambda>r. where_eq env (col env r ''space_id'') (SText space_id)
               \<and> where_eq env (col env r ''capability'') (SText ''space/admin'')) ucan_rows)))
          (\<lambda>ucan_row. and_then
             (ok_or (Database ''Missing issuer_did in UCAN row'') (read_str env ucan_row ''issuer_did''))
             (\<lambda>issuer_did. and_then
                (ok_or (Database ''Missing token in UCAN row'') (read_str env ucan_row ''token''))
                (\<lambda>root_ucan. and_then
                   (db_reason ''Failed to query identities: ''
                      (table_rows env db ''haex_identities'' [''private_key'', ''did'']))
                   (\<lambda>identity_rows. and_then
                      (ok_or (Database (''Identity not found for DID '' @ issuer_did))
                        (first_row (filter (\<lambda>r. where_eq env (col env r ''did'') (SText issuer_did)) identity_rows)))
                      (\<lambda>identity_row. and_then
                         (ok_or (Database ''Missing private_key in identity row'')
                           (read_str env identity_row ''private_key''))
                         (\<lambda>private_key_base64.
                            Inr \<lparr>ai_did = issuer_did, ai_private_key_base64 = private_key_base64,
                                 ai_root_ucan = root_ucan\<rparr>)))))))"

text \<open>The clock before the epoch reads as second zero here; a value of \<open>u64\<close> seconds is cast to
  \<open>i64\<close>.\<close>

definition now_secs_or_zero :: "(string, 64 word) result \<Rightarrow> int" where
  "now_secs_or_zero now = (case now of Inl _ \<Rightarrow> 0 | Inr n \<Rightarrow> sint n)"

definition load_active_ucan_for_audience ::
  "space_env \<Rightarrow> (string, 64 word) result \<Rightarrow> crdt_db \<Rightarrow> string \<Rightarrow> string \<Rightarrow> (delivery_error, string option) result" where
  "load_active_ucan_for_audience env now db space_id audience_did =
     and_then (db_reason ''Failed to query UCAN tokens: ''
        (table_rows env db ''haex_ucan_tokens''
           [''token'', ''space_id'', ''audience_did'', ''expires_at'', ''issued_at'']))
       (\<lambda>rs. Inr (Option.bind
          (first_row (order_by_desc env ''issued_at''
             (filter (\<lambda>r. where_eq env (col env r ''space_id'') (SText space_id)
                \<and> where_eq env (col env r ''audience_did'') (SText audience_did)
                \<and> where_gt env (col env r ''expires_at'') (SInteger (now_secs_or_zero now))) rs)))
          (\<lambda>r. read_str env r ''token'')))"

text \<open>The inner join of members and identities; \<open>COUNT(*)\<close> counts the pairs.\<close>

definition member_matches :: "space_env \<Rightarrow> string \<Rightarrow> string \<Rightarrow> row list \<Rightarrow> row list \<Rightarrow> (row \<times> row) list" where
  "member_matches env space_id audience_did ms ids =
     filter (\<lambda>(m, i). where_eq env (col env m ''identity_id'') (col env i ''id'')
        \<and> where_eq env (col env m ''space_id'') (SText space_id)
        \<and> where_eq env (col env i ''did'') (SText audience_did)) (List.product ms ids)"

definition is_active_space_member ::
  "space_env \<Rightarrow> crdt_db \<Rightarrow> string \<Rightarrow> string \<Rightarrow> (delivery_error, bool) result" where
  "is_active_space_member env db space_id audience_did =
     and_then (db_reason ''Failed to check space membership: ''
        (table_rows env db ''haex_space_members'' [''identity_id'', ''space_id'']))
       (\<lambda>ms. and_then (db_reason ''Failed to check space membership: ''
           (table_rows env db ''haex_identities'' [''id'', ''did'']))
         (\<lambda>ids. Inr (0 < length (member_matches env space_id audience_did ms ids))))"

definition has_write_capability :: "space_env \<Rightarrow> crdt_db \<Rightarrow> string \<Rightarrow> string \<Rightarrow> bool" where
  "has_write_capability env db space_id audience_did =
     (case table_rows env db ''haex_ucan_tokens'' [''capability'', ''space_id'', ''audience_did'', ''issued_at''] of
        Inl _ \<Rightarrow> False
      | Inr rs \<Rightarrow>
          (case Option.bind
             (first_row (order_by_desc env ''issued_at''
                (filter (\<lambda>r. where_eq env (col env r ''space_id'') (SText space_id)
                   \<and> where_eq env (col env r ''audience_did'') (SText audience_did)) rs)))
             (\<lambda>r. read_str env r ''capability'') of
             None \<Rightarrow> False
           | Some cap \<Rightarrow> cap = ''space/write'' \<or> cap = ''space/admin''))"


section \<open>The gate\<close>

text \<open>A call of \<open>log_to_db\<close>: level, source, message and subsystem.  Writing the row is best
  effort and never changes the answer.\<close>

record log_call =
  lg_level :: string
  lg_source :: string
  lg_message :: string
  lg_subsystem :: "string option"

definition LOG_TRUNCATE_DEFAULT :: nat where "LOG_TRUNCATE_DEFAULT = 24"

definition log_truncate :: "string \<Rightarrow> nat \<Rightarrow> string" where
  "log_truncate s n = take n s"

fun debug_level :: "capability_level \<Rightarrow> string" where
  "debug_level CapRead = ''Read''"
| "debug_level CapWrite = ''Write''"
| "debug_level CapInvite = ''Invite''"
| "debug_level CapAdmin = ''Admin''"

fun display_ucan_error :: "ucan_verify_error \<Rightarrow> string" where
  "display_ucan_error (MalformedToken m) = ''Malformed token: '' @ m"
| "display_ucan_error InvalidSignature = ''Invalid signature''"
| "display_ucan_error TokenExpired = ''Token expired''"
| "display_ucan_error (AudienceMismatch expected actual) =
     ''Audience mismatch: expected '' @ expected @ '', got '' @ actual"
| "display_ucan_error EmptyExpectedAudience = ''require_audience called with an empty expected audience''"
| "display_ucan_error (MissingCapability space_id) = ''Missing capability for space '' @ space_id"
| "display_ucan_error (InsufficientCapability required actual) =
     ''Insufficient capability: need '' @ debug_level required @ '', have '' @ debug_level actual"
| "display_ucan_error (UnknownCapability c) = ''Unknown capability: '' @ c"

type_synonym gate_result = "(response, validated_ucan option) result \<times> log_call list"

definition gate_reject :: "string \<Rightarrow> string \<Rightarrow> string \<Rightarrow> string \<Rightarrow> gate_result" where
  "gate_reject op level log_msg peer_msg =
     (Inl (RError peer_msg),
      [\<lparr>lg_level = level, lg_source = op, lg_message = log_msg, lg_subsystem = Some ''AuthGate''\<rparr>])"

datatype peer_lookup = Hit validated_ucan | NoEntry | NoUcan

definition lookup_peer :: "(string \<rightharpoonup> connected_peer) \<Rightarrow> string \<Rightarrow> peer_lookup" where
  "lookup_peer connected_peers peer_endpoint_id =
     (case connected_peers peer_endpoint_id of
        None \<Rightarrow> NoEntry
      | Some peer \<Rightarrow> (case cp_validated_ucan peer of Some v \<Rightarrow> Hit v | None \<Rightarrow> NoUcan))"

definition gate_checks ::
  "space_env \<Rightarrow> (string, 64 word) result \<Rightarrow> string \<Rightarrow> string \<Rightarrow> capability_level \<Rightarrow> string \<Rightarrow> string
    \<Rightarrow> crdt_db \<Rightarrow> validated_ucan \<Rightarrow> gate_result" where
  "gate_checks env now op space_id required verified_did peer_endpoint_id db validated =
     (let aud_short = log_truncate (vu_audience validated) LOG_TRUNCATE_DEFAULT;
          space_short = log_truncate space_id LOG_TRUNCATE_DEFAULT
      in case require_not_expired now validated of
           Inl e \<Rightarrow> gate_reject op ''warn''
             (''reject: cached UCAN expired (endpoint='' @ peer_endpoint_id @ '' aud='' @ aud_short
                @ '' expires_at='' @ show_radix 10 (unat (vu_expires_at validated))
                @ '' err='' @ display_ucan_error e @ '')'')
             ''Access denied: cached UCAN expired, please Announce again''
         | Inr _ \<Rightarrow>
             (case require_audience validated verified_did of
                Inl e \<Rightarrow> gate_reject op ''warn''
                  (''reject: UCAN audience != verified peer DID (endpoint='' @ peer_endpoint_id
                     @ '' aud='' @ aud_short @ '' verified='' @ log_truncate verified_did LOG_TRUNCATE_DEFAULT
                     @ '' err='' @ display_ucan_error e @ '')'')
                  ''Access denied: UCAN audience does not match verified peer DID''
              | Inr _ \<Rightarrow>
                  (case require_capability validated space_id required of
                     Inl e \<Rightarrow> gate_reject op ''warn''
                       (''reject: capability check failed (endpoint='' @ peer_endpoint_id @ '' space='' @ space_id
                          @ '' required='' @ debug_level required @ '' err='' @ display_ucan_error e @ '')'')
                       (''Access denied: '' @ display_ucan_error e)
                   | Inr _ \<Rightarrow>
                       (case is_active_space_member env db space_id (vu_audience validated) of
                          Inr True \<Rightarrow> (Inr (Some validated), [])
                        | Inr False \<Rightarrow> gate_reject op ''warn''
                            (''reject: not an active member (endpoint='' @ peer_endpoint_id @ '' aud='' @ aud_short
                               @ '' space='' @ space_short @ '')'')
                            ''Access denied: not an active member of this space''
                        | Inl e \<Rightarrow> gate_reject op ''error''
                            (''internal failure: membership check DB error (endpoint='' @ peer_endpoint_id
                               @ '' aud='' @ aud_short @ '' space='' @ space_short
                               @ '' err='' @ display_delivery_error e @ '')'')
                            (''Membership check failed: '' @ display_delivery_error e)))))"

definition authorize_request ::
  "space_env \<Rightarrow> (string, 64 word) result \<Rightarrow> request \<Rightarrow> string \<Rightarrow> string \<Rightarrow> (string \<rightharpoonup> connected_peer)
    \<Rightarrow> crdt_db \<Rightarrow> gate_result" where
  "authorize_request env now request verified_did peer_endpoint_id connected_peers db =
     (case required_capability request of
        None \<Rightarrow> (Inr None, [])
      | Some required \<Rightarrow>
          (case lookup_peer connected_peers peer_endpoint_id of
             NoEntry \<Rightarrow> gate_reject (op_name request) ''warn''
               (''reject: no peer entry for endpoint='' @ peer_endpoint_id
                  @ '' (forged endpoint-id or evicted connection?)'')
               ''Access denied: must Announce before sending other requests''
           | NoUcan \<Rightarrow> gate_reject (op_name request) ''warn''
               (''reject: peer endpoint='' @ peer_endpoint_id
                  @ '' has no cached UCAN (ClaimInvite without Announce?)'')
               ''Access denied: must Announce before sending other requests''
           | Hit validated \<Rightarrow>
               gate_checks env now (op_name request) (space_id_of request) required verified_did
                 peer_endpoint_id db validated))"


section \<open>What the gate lets through\<close>

lemma require_audience_Inr [res_simps]:
  "require_audience v did = Inr u \<longleftrightarrow> did \<noteq> [] \<and> vu_audience v = did"
  by (auto simp: require_audience_def)

lemma require_capability_Inr [res_simps]:
  "require_capability v s l = Inr u \<longleftrightarrow> (\<exists>a. vu_capabilities v s = Some a \<and> l \<le> a)"
  by (auto simp: require_capability_def split: option.splits)

lemma require_not_expired_Inr [res_simps]:
  "require_not_expired now v = Inr u \<longleftrightarrow> (\<exists>n. now = Inr n \<and> n < vu_expires_at v)"
  by (simp add: require_not_expired_def expiry_check_Inr)

lemma db_reason_Inr [res_simps]: "db_reason what r = Inr x \<longleftrightarrow> r = Inr x"
  by (cases r) (auto simp: db_reason_def)

definition table_has :: "space_env \<Rightarrow> crdt_db \<Rightarrow> string \<Rightarrow> string list \<Rightarrow> row list \<Rightarrow> bool" where
  "table_has env db t cs rs \<longleftrightarrow>
     se_db_fault env = None \<and>
     (\<exists>tb. tables db t = Some tb \<and> rs = rows tb \<and> (\<forall>c\<in>set cs. has_column c (schema tb)))"

lemma table_rows_Inr [res_simps]: "table_rows env db t cs = Inr rs \<longleftrightarrow> table_has env db t cs rs"
  by (auto simp: table_rows_def table_has_def filter_empty_conv split: option.splits list.splits
      dest: filter_eq_ConsD)

text \<open>Membership is a member row of the space whose identity row carries the DID.\<close>

lemma is_active_space_member_True:
  "is_active_space_member env db s did = Inr True \<longleftrightarrow>
     (\<exists>ms ids m i. table_has env db ''haex_space_members'' [''identity_id'', ''space_id''] ms
        \<and> table_has env db ''haex_identities'' [''id'', ''did''] ids \<and> m \<in> set ms \<and> i \<in> set ids
        \<and> where_eq env (col env m ''identity_id'') (col env i ''id'')
        \<and> where_eq env (col env m ''space_id'') (SText s) \<and> where_eq env (col env i ''did'') (SText did))"
  by (fastforce simp: is_active_space_member_def res_simps member_matches_def filter_empty_conv)

definition gate_open ::
  "space_env \<Rightarrow> (string, 64 word) result \<Rightarrow> request \<Rightarrow> string \<Rightarrow> string \<Rightarrow> (string \<rightharpoonup> connected_peer)
    \<Rightarrow> crdt_db \<Rightarrow> validated_ucan \<Rightarrow> bool" where
  "gate_open env now req did ep peers db u \<longleftrightarrow>
     (\<exists>level p n l. required_capability req = Some level
        \<and> peers ep = Some p \<and> cp_validated_ucan p = Some u
        \<and> now = Inr n \<and> n < vu_expires_at u
        \<and> did \<noteq> [] \<and> vu_audience u = did
        \<and> vu_capabilities u (space_id_of req) = Some l \<and> level \<le> l
        \<and> is_active_space_member env db (space_id_of req) did = Inr True)"

lemma lookup_peer_Hit:
  "lookup_peer peers ep = Hit u \<longleftrightarrow> (\<exists>p. peers ep = Some p \<and> cp_validated_ucan p = Some u)"
  by (auto simp: lookup_peer_def split: option.splits)

lemma gate_checks_Inr:
  "fst (gate_checks env now opn s level did ep db v) = Inr r \<longleftrightarrow>
     r = Some v \<and> require_not_expired now v = Inr () \<and> require_audience v did = Inr () \<and>
     require_capability v s level = Inr () \<and> is_active_space_member env db s (vu_audience v) = Inr True"
  by (auto simp: gate_checks_def gate_reject_def Let_def split: sum.splits bool.splits)

lemma gate_checks_Inl:
  assumes "fst (gate_checks env now opn s level did ep db v) = Inl r"
  shows "\<exists>m log. r = RError m \<and> snd (gate_checks env now opn s level did ep db v) = [log]
    \<and> lg_source log = opn \<and> lg_subsystem log = Some ''AuthGate''"
  using assms by (auto simp: gate_checks_def gate_reject_def Let_def split: sum.splits bool.splits)

lemma authorize_request_open:
  "fst (authorize_request env now req did ep peers db) = Inr (Some u) \<longleftrightarrow>
     gate_open env now req did ep peers db u"
proof (cases "required_capability req")
  case None
  then show ?thesis by (simp add: authorize_request_def gate_open_def)
next
  case (Some level)
  show ?thesis
  proof (cases "lookup_peer peers ep")
    case (Hit v)
    have "fst (authorize_request env now req did ep peers db) = Inr (Some u) \<longleftrightarrow>
        v = u \<and> require_not_expired now v = Inr () \<and> require_audience v did = Inr () \<and>
        require_capability v (space_id_of req) level = Inr () \<and>
        is_active_space_member env db (space_id_of req) (vu_audience v) = Inr True"
      using Some Hit by (auto simp: authorize_request_def gate_checks_Inr)
    with Some Hit show ?thesis
      by (auto simp: gate_open_def res_simps lookup_peer_Hit)
  qed (use Some in \<open>auto simp: authorize_request_def gate_reject_def gate_open_def lookup_peer_def
        split: option.splits\<close>)
qed

text \<open>C9: The gate in front of the leader's handlers: a request is authorised with a token \<open>u\<close>
  exactly when its peer announced \<open>u\<close> on this connection, \<open>u\<close> is not expired at this moment, was
  issued to the DID the connection authenticated (which is not empty), grants at least the level
  the request needs for its space, and that DID is an active member of the space in the
  database; a request passes without a token exactly when it is one of the three bootstrap
  requests; and every rejection is an error answer with exactly one audit row, tagged with the
  request's name.\<close>

theorem gate_decides:
  "(fst (authorize_request env now req did ep peers db) = Inr (Some u) \<longleftrightarrow>
      gate_open env now req did ep peers db u)
   \<and> (fst (authorize_request env now req did ep peers db) = Inr None \<longleftrightarrow> required_capability req = None)
   \<and> (\<forall>r. fst (authorize_request env now req did ep peers db) = Inl r \<longrightarrow>
        (\<exists>m log. r = RError m \<and> snd (authorize_request env now req did ep peers db) = [log]
           \<and> lg_source log = op_name req \<and> lg_subsystem log = Some ''AuthGate''))"
proof (intro conjI)
  show "fst (authorize_request env now req did ep peers db) = Inr (Some u) \<longleftrightarrow>
      gate_open env now req did ep peers db u"
    by (rule authorize_request_open)
  show "fst (authorize_request env now req did ep peers db) = Inr None \<longleftrightarrow> required_capability req = None"
    by (auto simp: authorize_request_def gate_reject_def gate_checks_Inr
        split: option.splits peer_lookup.splits)
  show "\<forall>r. fst (authorize_request env now req did ep peers db) = Inl r \<longrightarrow>
        (\<exists>m log. r = RError m \<and> snd (authorize_request env now req did ep peers db) = [log]
           \<and> lg_source log = op_name req \<and> lg_subsystem log = Some ''AuthGate'')"
    using gate_checks_Inl
    by (auto simp: authorize_request_def gate_reject_def split: option.splits peer_lookup.splits)
qed

text \<open>A space for the witnesses: Alice (\<open>i1\<close>) is a member of \<open>s1\<close>.\<close>

definition sample_space_env :: space_env where
  "sample_space_env = \<lparr>se_sql = sample_engine, se_ucan = sample_ucan_env sample_payload,
     se_lt = (\<lambda>a b. False), se_b64 = (\<lambda>b. ''b64''), se_db_fault = None,
     se_bare_name = (\<lambda>n. None), se_insert_error = (\<lambda>t s. None)\<rparr>"

definition data_cols :: "string list \<Rightarrow> column_info list" where
  "data_cols cs = \<lparr>col_name = ''id'', is_pk = True\<rparr> # map (\<lambda>c. \<lparr>col_name = c, is_pk = False\<rparr>) cs"

definition plain_row :: "(string \<times> string) list \<Rightarrow> row" where
  "plain_row cs = \<lparr>cells = map_of (map (\<lambda>(c, v). (c, SText v)) cs), row_hlc = Some ''1/1'',
     column_hlcs = map_of (map (\<lambda>(c, v). (c, ''1/1'')) cs)\<rparr>"

definition plain_table :: "string list \<Rightarrow> row list \<Rightarrow> table" where
  "plain_table cs rs = \<lparr>schema = data_cols (cs @ [HLC_TIMESTAMP_COLUMN, COLUMN_HLCS_COLUMN]), rows = rs,
     has_triggers = True\<rparr>"

definition alice_member :: row where
  "alice_member = plain_row [(''id'', ''m1''), (''space_id'', ''s1''), (''identity_id'', ''i1'')]"

definition alice_space :: crdt_db where
  "alice_space = sample_crdt_db\<lparr>tables :=
     [''haex_space_members'' \<mapsto> plain_table [''space_id'', ''identity_id'', ''authored_by_did''] [alice_member],
      ''haex_identities'' \<mapsto> plain_table [''did'', ''private_key''] [plain_row [(''id'', ''i1''), (''did'', ''alice'')]]]\<rparr>"

definition alice_ucan :: "capability_level \<Rightarrow> validated_ucan" where
  "alice_ucan l = \<lparr>vu_issuer = ''bob'', vu_audience = ''alice'', vu_capabilities = [''s1'' \<mapsto> l],
     vu_expires_at = 5000\<rparr>"

definition alice_peer :: connected_peer where
  "alice_peer = \<lparr>cp_endpoint_id = ''e1'', cp_did = ''alice'', cp_label = None, cp_claims = [],
     cp_connected_at = ''t'', cp_validated_ucan = Some (alice_ucan CapRead)\<rparr>"

lemmas alice_defs = alice_space_def alice_member_def alice_peer_def alice_ucan_def sample_space_env_def
  plain_table_def plain_row_def data_cols_def sample_crdt_db_def sample_engine_def

lemma alice_is_member: "is_active_space_member sample_space_env alice_space ''s1'' ''alice'' = Inr True"
  by (simp add: is_active_space_member_def table_rows_def db_reason_def member_matches_def has_column_def
      where_eq_def cell_def HLC_TIMESTAMP_COLUMN_def COLUMN_HLCS_COLUMN_def alice_defs)

theorem gate_decides_witness:
  "fst (authorize_request sample_space_env (Inr 4000) (SyncPull ''s1'' None None) ''alice'' ''e1''
      [''e1'' \<mapsto> alice_peer] alice_space) = Inr (Some (alice_ucan CapRead))
   \<and> (\<exists>m log. authorize_request sample_space_env (Inr 6000) (SyncPull ''s1'' None None) ''alice'' ''e1''
      [''e1'' \<mapsto> alice_peer] alice_space = (Inl (RError m), [log]) \<and> lg_source log = ''SyncPull'')"
proof
  show "fst (authorize_request sample_space_env (Inr 4000) (SyncPull ''s1'' None None) ''alice'' ''e1''
      [''e1'' \<mapsto> alice_peer] alice_space) = Inr (Some (alice_ucan CapRead))"
    using gate_decides [of sample_space_env "Inr 4000" "SyncPull ''s1'' None None" "''alice''" "''e1''"
        "[''e1'' \<mapsto> alice_peer]" alice_space "alice_ucan CapRead"] alice_is_member
    by (simp add: gate_open_def alice_peer_def alice_ucan_def)
  let ?a = "authorize_request sample_space_env (Inr 6000) (SyncPull ''s1'' None None) ''alice'' ''e1''
      [''e1'' \<mapsto> alice_peer] alice_space"
  obtain r where "fst ?a = Inl r"
    by (simp add: authorize_request_def lookup_peer_def gate_checks_def require_not_expired_def
        expiry_check_def gate_reject_def alice_peer_def alice_ucan_def Let_def)
  with gate_decides [of sample_space_env "Inr 6000" "SyncPull ''s1'' None None" "''alice''" "''e1''"
        "[''e1'' \<mapsto> alice_peer]" alice_space "alice_ucan CapRead"]
  show "\<exists>m log. ?a = (Inl (RError m), [log]) \<and> lg_source log = ''SyncPull''"
    by (cases ?a) auto
qed

end
