(* ===== verification/InboundSync.thy ===== *)
theory InboundSync
  imports SpaceAuth
begin

text \<open>
  The choke point for CRDT changes pushed by a peer of a space
  (\<open>space_delivery/local/inbound_sync\<close>): capability and membership, the table whitelist and
  the \<open>space_id\<close> column, the attribution of every row to the token's audience
  (\<open>validate.rs\<close>), the space of the rows already stored (\<open>space_scope.rs\<close>) and the owner
  of membership rows (\<open>ownership.rs\<close>).

  The per-row \<open>HashMap\<close>s are association lists in the order of first occurrence; the
  iteration order only chooses which reason is reported first and where the attribution
  entries stand in the batch.  A reason is the data its message is formatted from.
\<close>

datatype reject_reason =
    CapabilityDenied ucan_verify_error
  | NotActiveMember
  | MembershipCheckFailed delivery_error
  | TableNotAllowed string
  | ForeignSpaceId string json string
  | ScopeLookupFailed string string delivery_error
  | RowOfOtherSpace string string string string
  | InsertWithoutSpaceId string string
  | SpaceIdNotText string string json

datatype ownership_violation =
    OwnershipLookupFailed string string delivery_error
  | ExistingOwnerNotText string string json
  | OwnerChange string string string string
  | DeclaredOwnerNotText string string json
  | OwnerMissingOnInsert string string
  | CallerHasNoIdentity string string
  | NotOwner string string string

datatype inbound_outcome = Accepted "local_column_change list" | Rejected reject_reason

type_synonym row_key = "string \<times> string"

definition change_key :: "local_column_change \<Rightarrow> row_key" where
  "change_key c = (lc_table_name c, lc_row_pks c)"

text \<open>\<open>entry(k).and_modify(f).or_insert(v)\<close>\<close>

fun modify_or_insert :: "'k \<Rightarrow> ('v \<Rightarrow> 'v) \<Rightarrow> 'v \<Rightarrow> ('k \<times> 'v) list \<Rightarrow> ('k \<times> 'v) list" where
  "modify_or_insert k f v [] = [(k, v)]"
| "modify_or_insert k f v ((k', x) # m) =
     (if k' = k then (k', f x) # m else (k', x) # modify_or_insert k f v m)"


section \<open>Payload validation and attribution\<close>

fun payload_violation :: "string \<Rightarrow> local_column_change list \<Rightarrow> reject_reason option" where
  "payload_violation space_id [] = None"
| "payload_violation space_id (c # cs) =
     (if \<not> is_space_scoped_table (lc_table_name c) then Some (TableNotAllowed (lc_table_name c))
      else if lc_column_name c = ''space_id'' \<and> json_as_str (lc_value c) \<noteq> Some space_id
      then Some (ForeignSpaceId (lc_table_name c) (lc_value c) space_id)
      else payload_violation space_id cs)"

fun max_hlc_per_row ::
  "local_column_change list \<Rightarrow> (row_key \<times> (string \<times> string)) list \<Rightarrow> (row_key \<times> (string \<times> string)) list" where
  "max_hlc_per_row [] per_row = per_row"
| "max_hlc_per_row (c # cs) per_row =
     max_hlc_per_row cs
       (modify_or_insert (change_key c)
          (\<lambda>(hlc, device_id).
             if hlc_is_newer (lc_hlc_timestamp c) hlc then (lc_hlc_timestamp c, lc_device_id c)
             else (hlc, device_id))
          (lc_hlc_timestamp c, lc_device_id c) per_row)"

definition attribution :: "string \<Rightarrow> row_key \<times> (string \<times> string) \<Rightarrow> local_column_change" where
  "attribution ucan_audience e =
     \<lparr>lc_table_name = fst (fst e), lc_row_pks = snd (fst e), lc_column_name = ''authored_by_did'',
      lc_hlc_timestamp = fst (snd e), lc_value = JString ucan_audience, lc_device_id = snd (snd e)\<rparr>"

definition validate_and_attribute :: "string \<Rightarrow> string \<Rightarrow> local_column_change list \<Rightarrow> inbound_outcome" where
  "validate_and_attribute space_id ucan_audience changes =
     (case payload_violation space_id changes of
        Some reason \<Rightarrow> Rejected reason
      | None \<Rightarrow>
          (let stripped = filter (\<lambda>c. lc_column_name c \<noteq> ''authored_by_did'') changes
           in Accepted (stripped @ map (attribution ucan_audience) (max_hlc_per_row stripped []))))"


section \<open>Stored rows\<close>

definition safe_identifier :: "string \<Rightarrow> bool" where
  "safe_identifier s \<longleftrightarrow>
     (\<forall>c\<in>set s. 97 \<le> (of_char c :: nat) \<and> (of_char c :: nat) \<le> 122 \<or> is_ascii_digit c \<or> c = CHR ''_'')"

fun pk_param :: "sql_engine \<Rightarrow> json \<Rightarrow> sql_value" where
  "pk_param env (JString s) = SText s"
| "pk_param env (JInt i) = (if - (2 ^ 63) \<le> i \<and> i < 2 ^ 63 then SInteger i else SReal (f64_of env i))"
| "pk_param env (JFloat f) = SReal f"
| "pk_param env JNull = SNull"
| "pk_param env j = SText (json_text env j)"

text \<open>A stored infinity, which SQLite keeps as a REAL only in columns without TEXT affinity, is
  the text of a float here as everywhere in the model.\<close>

fun existing_json :: "sql_value \<Rightarrow> json" where
  "existing_json SNull = JNull"
| "existing_json (SInteger i) = JInt i"
| "existing_json (SReal f) = JFloat f"
| "existing_json (SText s) = JString s"
| "existing_json (SBlob b) = JNull"

definition name_known :: "space_env \<Rightarrow> table \<Rightarrow> string \<Rightarrow> bool" where
  "name_known env tb n \<longleftrightarrow> has_column n (schema tb) \<or> se_bare_name env n \<noteq> None"

definition name_value :: "space_env \<Rightarrow> table \<Rightarrow> row \<Rightarrow> string \<Rightarrow> sql_value" where
  "name_value env tb r n =
     (if has_column n (schema tb) then col env r n
      else (case se_bare_name env n of None \<Rightarrow> SNull | Some f \<Rightarrow> f r))"

definition read_existing_column ::
  "space_env \<Rightarrow> crdt_db \<Rightarrow> string \<Rightarrow> string \<Rightarrow> string \<Rightarrow> (delivery_error, json option) result" where
  "read_existing_column env db t row_pks_json column =
     (case parse_pks (se_sql env) row_pks_json of
        Inl e \<Rightarrow> Inl (ProtocolError (''malformed row_pks JSON: '' @ e))
      | Inr pks \<Rightarrow>
          if pks = [] then Inl (ProtocolError (''empty row_pks JSON for table '' @ t))
          else if \<not> safe_identifier t \<or> \<not> safe_identifier column \<or> (\<exists>k\<in>set (map fst pks). \<not> safe_identifier k)
          then Inl (ProtocolError (''identifier contains unsafe characters: table='' @ t @ '' column='' @ column))
          else
            (case (se_db_fault env, tables db t) of
               (Some e, _) \<Rightarrow> Inl (Database (''read_existing_column('' @ t @ ''.'' @ column @ ''): '' @ e))
             | (None, None) \<Rightarrow> Inl (Database (''read_existing_column('' @ t @ ''.'' @ column @ ''): no such table''))
             | (None, Some tb) \<Rightarrow>
                 if (\<exists>n\<in>set (column # map fst pks). \<not> name_known env tb n)
                 then Inl (Database (''read_existing_column('' @ t @ ''.'' @ column @ ''): no such column''))
                 else Inr (map_option (\<lambda>r. existing_json (name_value env tb r column))
                        (first_row (filter (\<lambda>r. \<forall>(k, v)\<in>set pks.
                            where_eq env (name_value env tb r k) (pk_param (se_sql env) v)) (rows tb))))))"


section \<open>Space scope\<close>

fun declares_space_per_row :: "local_column_change list \<Rightarrow> (row_key \<times> bool) list \<Rightarrow> (row_key \<times> bool) list" where
  "declares_space_per_row [] per_row = per_row"
| "declares_space_per_row (c # cs) per_row =
     declares_space_per_row cs
       (modify_or_insert (change_key c) (\<lambda>d. d \<or> lc_column_name c = ''space_id'')
          (lc_column_name c = ''space_id'') per_row)"

definition row_scope_violation ::
  "space_env \<Rightarrow> crdt_db \<Rightarrow> string \<Rightarrow> row_key \<times> bool \<Rightarrow> reject_reason option" where
  "row_scope_violation env db request_space_id e =
     (let t = fst (fst e); row_pks = snd (fst e)
      in case read_existing_column env db t row_pks ''space_id'' of
           Inl err \<Rightarrow> Some (ScopeLookupFailed t row_pks err)
         | Inr (Some (JString real)) \<Rightarrow>
             if real \<noteq> request_space_id then Some (RowOfOtherSpace t row_pks real request_space_id) else None
         | Inr (Some JNull) \<Rightarrow> if \<not> snd e then Some (InsertWithoutSpaceId t row_pks) else None
         | Inr None \<Rightarrow> if \<not> snd e then Some (InsertWithoutSpaceId t row_pks) else None
         | Inr (Some other) \<Rightarrow> Some (SpaceIdNotText t row_pks other))"

fun first_violation :: "('a \<Rightarrow> 'e option) \<Rightarrow> 'a list \<Rightarrow> ('e, unit) result" where
  "first_violation f [] = Inr ()"
| "first_violation f (x # xs) = (case f x of Some e \<Rightarrow> Inl e | None \<Rightarrow> first_violation f xs)"

definition enforce_row_space_scope ::
  "space_env \<Rightarrow> crdt_db \<Rightarrow> string \<Rightarrow> local_column_change list \<Rightarrow> (reject_reason, unit) result" where
  "enforce_row_space_scope env db request_space_id changes =
     first_violation (row_scope_violation env db request_space_id) (declares_space_per_row changes [])"


section \<open>Ownership\<close>

definition owner_column_for :: "string \<Rightarrow> string option" where
  "owner_column_for t =
     (if t = ''haex_space_members'' then Some ''identity_id''
      else if t = ''haex_space_devices'' then Some ''endpoint_id''
      else if t = ''haex_device_mls_enrollments'' then Some ''device_id''
      else None)"

datatype owner_kind = IdentityId | EndpointId

definition owner_kind_for :: "string \<Rightarrow> owner_kind option" where
  "owner_kind_for t =
     (if t = ''haex_space_members'' then Some IdentityId
      else if t = ''haex_space_devices'' \<or> t = ''haex_device_mls_enrollments'' then Some EndpointId
      else None)"

definition resolve_identity_id_for_did ::
  "space_env \<Rightarrow> crdt_db \<Rightarrow> string \<Rightarrow> (delivery_error, string option) result" where
  "resolve_identity_id_for_did env db did =
     and_then (db_reason ''resolve_identity_id_for_did: '' (table_rows env db ''haex_identities'' [''id'', ''did'']))
       (\<lambda>rs. Inr (Option.bind (first_row (filter (\<lambda>r. where_eq env (col env r ''did'') (SText did)) rs))
          (\<lambda>r. read_str env r ''id'')))"

text \<open>The last declared value of the owner column of each membership row.\<close>

fun declared_owners ::
  "local_column_change list \<Rightarrow> (row_key \<times> json option) list \<Rightarrow> (row_key \<times> json option) list" where
  "declared_owners [] per_row = per_row"
| "declared_owners (c # cs) per_row =
     declared_owners cs
       (if \<not> is_membership_system_table (lc_table_name c) then per_row
        else (case owner_column_for (lc_table_name c) of
                None \<Rightarrow> per_row
              | Some owner_col \<Rightarrow>
                  modify_or_insert (change_key c)
                    (\<lambda>d. if lc_column_name c = owner_col then Some (lc_value c) else d)
                    (if lc_column_name c = owner_col then Some (lc_value c) else None) per_row))"

definition owner_value ::
  "string \<Rightarrow> string \<Rightarrow> string option \<Rightarrow> json option \<Rightarrow> (ownership_violation, string) result" where
  "owner_value t row_pks existing_owner declared =
     (case (existing_owner, declared) of
        (Some existing, Some (JString decl)) \<Rightarrow>
          if existing \<noteq> decl then Inl (OwnerChange t row_pks existing decl) else Inr existing
      | (Some existing, None) \<Rightarrow> Inr existing
      | (Some _, Some other) \<Rightarrow> Inl (DeclaredOwnerNotText t row_pks other)
      | (None, Some (JString decl)) \<Rightarrow> Inr decl
      | (None, None) \<Rightarrow> Inl (OwnerMissingOnInsert t row_pks)
      | (None, Some JNull) \<Rightarrow> Inl (OwnerMissingOnInsert t row_pks)
      | (None, Some other) \<Rightarrow> Inl (DeclaredOwnerNotText t row_pks other))"

definition owner_check ::
  "string \<Rightarrow> string option \<Rightarrow> string \<Rightarrow> string \<Rightarrow> owner_kind \<Rightarrow> string \<Rightarrow> (ownership_violation, unit) result" where
  "owner_check peer_endpoint_id caller_identity_id t row_pks kind owner =
     (case kind of
        EndpointId \<Rightarrow> if owner = peer_endpoint_id then Inr () else Inl (NotOwner t row_pks owner)
      | IdentityId \<Rightarrow>
          (case caller_identity_id of
             Some my_identity \<Rightarrow> if owner = my_identity then Inr () else Inl (NotOwner t row_pks owner)
           | None \<Rightarrow> Inl (CallerHasNoIdentity t row_pks)))"

definition existing_owner_of ::
  "string \<Rightarrow> string \<Rightarrow> json option \<Rightarrow> (ownership_violation, string option) result" where
  "existing_owner_of t row_pks existing =
     (case existing of
        Some (JString s) \<Rightarrow> Inr (Some s)
      | Some JNull \<Rightarrow> Inr None
      | None \<Rightarrow> Inr None
      | Some other \<Rightarrow> Inl (ExistingOwnerNotText t row_pks other))"

definition row_ownership_violation ::
  "space_env \<Rightarrow> crdt_db \<Rightarrow> string \<Rightarrow> string option \<Rightarrow> row_key \<times> json option \<Rightarrow> ownership_violation option" where
  "row_ownership_violation env db peer_endpoint_id caller_identity_id e =
     (let t = fst (fst e); row_pks = snd (fst e)
      in case (owner_kind_for t, owner_column_for t) of
           (Some kind, Some owner_col) \<Rightarrow>
             (case read_existing_column env db t row_pks owner_col of
                Inl err \<Rightarrow> Some (OwnershipLookupFailed t row_pks err)
              | Inr existing \<Rightarrow>
                  (case and_then (existing_owner_of t row_pks existing)
                     (\<lambda>existing_owner. and_then (owner_value t row_pks existing_owner (snd e))
                        (owner_check peer_endpoint_id caller_identity_id t row_pks kind)) of
                     Inl v \<Rightarrow> Some v
                   | Inr _ \<Rightarrow> None))
         | _ \<Rightarrow> None)"

definition filter_ownership_violations ::
  "space_env \<Rightarrow> crdt_db \<Rightarrow> string \<Rightarrow> string \<Rightarrow> local_column_change list
    \<Rightarrow> local_column_change list \<times> ownership_violation list" where
  "filter_ownership_violations env db peer_endpoint_id audience_did changes =
     (let per_row = declared_owners changes [];
          caller_identity_id = (case resolve_identity_id_for_did env db audience_did of Inl _ \<Rightarrow> None | Inr i \<Rightarrow> i);
          violation = row_ownership_violation env db peer_endpoint_id caller_identity_id;
          skip_rows = map fst (filter (\<lambda>e. violation e \<noteq> None) per_row)
      in (filter (\<lambda>c. change_key c \<notin> set skip_rows) changes, List.map_filter violation per_row))"


section \<open>The entry point\<close>

definition required_capability_for :: "local_column_change list \<Rightarrow> capability_level" where
  "required_capability_for changes =
     (if \<forall>c\<in>set changes. is_membership_system_table (lc_table_name c) then CapRead else CapWrite)"

definition authorize_inbound_sync_push ::
  "space_env \<Rightarrow> crdt_db \<Rightarrow> string \<Rightarrow> string \<Rightarrow> validated_ucan \<Rightarrow> local_column_change list \<Rightarrow> inbound_outcome" where
  "authorize_inbound_sync_push env db space_id peer_endpoint_id validated_ucan raw_changes =
     (if raw_changes = [] then Accepted []
      else case require_capability validated_ucan space_id (required_capability_for raw_changes) of
        Inl e \<Rightarrow> Rejected (CapabilityDenied e)
      | Inr _ \<Rightarrow>
          (case is_active_space_member env db space_id (vu_audience validated_ucan) of
             Inl e \<Rightarrow> Rejected (MembershipCheckFailed e)
           | Inr False \<Rightarrow> Rejected NotActiveMember
           | Inr True \<Rightarrow>
               (case validate_and_attribute space_id (vu_audience validated_ucan) raw_changes of
                  Rejected reason \<Rightarrow> Rejected reason
                | Accepted attributed \<Rightarrow>
                    (case enforce_row_space_scope env db space_id attributed of
                       Inl reason \<Rightarrow> Rejected reason
                     | Inr _ \<Rightarrow>
                         Accepted (fst (filter_ownership_violations env db peer_endpoint_id
                           (vu_audience validated_ucan) attributed))))))"


section \<open>Per-row tables\<close>

lemma modify_or_insert_map_of:
  "map_of (modify_or_insert k f v m) k' =
     (if k' = k then Some (case map_of m k of None \<Rightarrow> v | Some x \<Rightarrow> f x) else map_of m k')"
  by (induction k f v m rule: modify_or_insert.induct) auto

lemma modify_or_insert_keys: "fst ` set (modify_or_insert k f v m) = insert k (fst ` set m)"
  by (induction k f v m rule: modify_or_insert.induct) auto

lemma modify_or_insert_distinct:
  "distinct (map fst m) \<Longrightarrow> distinct (map fst (modify_or_insert k f v m))"
proof (induction k f v m rule: modify_or_insert.induct)
  case (2 k f v k' x m)
  then show ?case using modify_or_insert_keys [of k f v m] by auto
qed simp

text \<open>The three per-row tables are folds of the same kind; a key's entry is the fold over the
  changes of that row.\<close>

definition tabulate :: "('c \<Rightarrow> 'k) \<Rightarrow> ('c \<Rightarrow> 'v \<Rightarrow> 'v) \<Rightarrow> ('c \<Rightarrow> 'v) \<Rightarrow> 'c list \<Rightarrow> ('k \<times> 'v) list \<Rightarrow> ('k \<times> 'v) list" where
  "tabulate key f v cs m = fold (\<lambda>c m. modify_or_insert (key c) (f c) (v c) m) cs m"

lemma tabulate_distinct: "distinct (map fst m) \<Longrightarrow> distinct (map fst (tabulate key f v cs m))"
  unfolding tabulate_def by (induction cs arbitrary: m) (simp_all add: modify_or_insert_distinct)

lemma tabulate_keys: "fst ` set (tabulate key f v cs m) = fst ` set m \<union> key ` set cs"
  unfolding tabulate_def by (induction cs arbitrary: m) (auto simp: modify_or_insert_keys)

lemma tabulate_map_of:
  "map_of (tabulate key f v cs m) k =
     fold (\<lambda>c acc. Some (case acc of None \<Rightarrow> v c | Some x \<Rightarrow> f c x)) (filter (\<lambda>c. key c = k) cs) (map_of m k)"
  unfolding tabulate_def by (induction cs arbitrary: m) (simp_all add: modify_or_insert_map_of)

lemma tabulate_entry:
  assumes "(k, x) \<in> set (tabulate key f v cs [])"
  shows "fold (\<lambda>c acc. Some (case acc of None \<Rightarrow> v c | Some x \<Rightarrow> f c x)) (filter (\<lambda>c. key c = k) cs) None = Some x"
proof -
  have "distinct (map fst (tabulate key f v cs []))" by (rule tabulate_distinct) simp
  from map_of_is_SomeI [OF this assms] show ?thesis using tabulate_map_of [of key f v cs "[]" k] by simp
qed

lemma max_hlc_tabulate:
  "max_hlc_per_row cs m = tabulate change_key
     (\<lambda>c (hlc, dev). if hlc_is_newer (lc_hlc_timestamp c) hlc then (lc_hlc_timestamp c, lc_device_id c) else (hlc, dev))
     (\<lambda>c. (lc_hlc_timestamp c, lc_device_id c)) cs m"
  by (induction cs arbitrary: m) (simp_all add: tabulate_def)

lemma declares_tabulate:
  "declares_space_per_row cs m = tabulate change_key (\<lambda>c d. d \<or> lc_column_name c = ''space_id'')
     (\<lambda>c. lc_column_name c = ''space_id'') cs m"
  by (induction cs arbitrary: m) (simp_all add: tabulate_def)

definition owner_tracked :: "local_column_change \<Rightarrow> bool" where
  "owner_tracked c \<longleftrightarrow> is_membership_system_table (lc_table_name c) \<and> owner_column_for (lc_table_name c) \<noteq> None"

definition is_owner_change :: "local_column_change \<Rightarrow> bool" where
  "is_owner_change c \<longleftrightarrow> owner_column_for (lc_table_name c) = Some (lc_column_name c)"

lemma owners_tabulate:
  "declared_owners cs m = tabulate change_key (\<lambda>c d. if is_owner_change c then Some (lc_value c) else d)
     (\<lambda>c. if is_owner_change c then Some (lc_value c) else None) (filter owner_tracked cs) m"
proof (induction cs arbitrary: m)
  case (Cons c cs)
  show ?case
  proof (cases "owner_column_for (lc_table_name c)")
    case (Some oc)
    then show ?thesis
      using Cons.IH by (auto simp: tabulate_def owner_tracked_def is_owner_change_def cong: if_cong)
  qed (use Cons.IH in \<open>auto simp: tabulate_def owner_tracked_def\<close>)
qed (simp add: tabulate_def)

lemma max_hlc_fold:
  assumes "fold (\<lambda>c acc. Some (case acc of None \<Rightarrow> (lc_hlc_timestamp c, lc_device_id c)
       | Some (hlc, dev) \<Rightarrow> if hlc_is_newer (lc_hlc_timestamp c) hlc
           then (lc_hlc_timestamp c, lc_device_id c) else (hlc, dev))) cs acc = Some (h, d)"
  shows "(\<forall>c\<in>set cs. \<not> hlc_is_newer (lc_hlc_timestamp c) h)
    \<and> (\<forall>h0 d0. acc = Some (h0, d0) \<longrightarrow> \<not> hlc_is_newer h0 h)"
  using assms
proof (induction cs arbitrary: acc)
  case Nil
  then show ?case by (auto simp: hlc.newer_irrefl)
next
  case (Cons c cs)
  let ?p = "case acc of None \<Rightarrow> (lc_hlc_timestamp c, lc_device_id c)
       | Some (hlc, dev) \<Rightarrow> if hlc_is_newer (lc_hlc_timestamp c) hlc
           then (lc_hlc_timestamp c, lc_device_id c) else (hlc, dev)"
  obtain h1 d1 where acc: "?p = (h1, d1)" using prod.exhaust [of ?p] by blast
  from Cons.IH [of "Some ?p"] Cons.prems acc
  have ih: "\<forall>c\<in>set cs. \<not> hlc_is_newer (lc_hlc_timestamp c) h" "\<not> hlc_is_newer h1 h" by auto
  have "\<not> hlc_is_newer (lc_hlc_timestamp c) h1" "\<forall>h0 d0. acc = Some (h0, d0) \<longrightarrow> \<not> hlc_is_newer h0 h1"
    using acc hlc.newer_irrefl hlc.newer_asym by (auto split: option.splits if_splits)
  with ih show ?case using hlc.newer_neg_trans by (metis set_ConsD)
qed

lemma declares_fold:
  "fold (\<lambda>c acc. Some (case acc of None \<Rightarrow> P c | Some d \<Rightarrow> d \<or> P c)) cs acc =
     (if cs = [] then acc else Some (acc = Some True \<or> (\<exists>c\<in>set cs. P c)))"
  by (induction cs arbitrary: acc) (auto split: option.splits)

definition last_declared_owner :: "local_column_change list \<Rightarrow> row_key \<Rightarrow> json option" where
  "last_declared_owner cs k =
     (case rev (filter (\<lambda>c. change_key c = k \<and> owner_tracked c \<and> is_owner_change c) cs) of
        [] \<Rightarrow> None | c # _ \<Rightarrow> Some (lc_value c))"

lemma owners_fold:
  "fold (\<lambda>c acc. Some (case acc of None \<Rightarrow> if P c then Some (w c) else None
      | Some d \<Rightarrow> if P c then Some (w c) else d)) cs acc =
     (if cs = [] then acc
      else Some (case rev (filter P cs) of [] \<Rightarrow> (case acc of None \<Rightarrow> None | Some d \<Rightarrow> d) | c # _ \<Rightarrow> Some (w c)))"
proof (induction cs rule: rev_induct)
  case (snoc c cs)
  then show ?case by (auto split: list.splits option.splits)
qed simp


section \<open>What an accepted batch satisfies\<close>

lemma payload_violation_None:
  "payload_violation s cs = None \<longleftrightarrow>
     (\<forall>c\<in>set cs. is_space_scoped_table (lc_table_name c)
        \<and> (lc_column_name c = ''space_id'' \<longrightarrow> lc_value c = JString s))"
proof (induction cs)
  case (Cons c cs)
  have "json_as_str (lc_value c) = Some s \<longleftrightarrow> lc_value c = JString s" by (cases "lc_value c") auto
  with Cons show ?case by auto
qed simp

lemma first_violation_Inr: "first_violation f xs = Inr u \<longleftrightarrow> (\<forall>x\<in>set xs. f x = None)"
  by (induction xs) (auto split: option.splits)

text \<open>Attribution: the client's claims are gone, and each row has exactly one authored entry, by
  the audience and no older than any change of the row.\<close>

definition attributed_to :: "string \<Rightarrow> local_column_change list \<Rightarrow> local_column_change \<Rightarrow> bool" where
  "attributed_to did cs c \<longleftrightarrow>
     (\<exists>a. filter (\<lambda>d. change_key d = change_key c \<and> lc_column_name d = ''authored_by_did'') cs = [a]
        \<and> lc_value a = JString did
        \<and> (\<forall>d\<in>set cs. change_key d = change_key c \<longrightarrow> \<not> hlc_is_newer (lc_hlc_timestamp d) (lc_hlc_timestamp a)))"

lemma attribution_sel [simp]:
  "change_key (attribution did e) = fst e" "lc_column_name (attribution did e) = ''authored_by_did''"
  "lc_value (attribution did e) = JString did" "lc_hlc_timestamp (attribution did e) = fst (snd e)"
  "lc_table_name (attribution did e) = fst (fst e)"
  by (simp_all add: attribution_def change_key_def)

lemma filter_unique_key:
  "distinct (map fst m) \<Longrightarrow> (k, x) \<in> set m \<Longrightarrow> filter (\<lambda>e. fst e = k) m = [(k, x)]"
proof (induction m)
  case (Cons e m)
  show ?case
  proof (cases "fst e = k")
    case True
    have no: "k \<notin> fst ` set m" using Cons.prems(1) True by simp
    hence "filter (\<lambda>e. fst e = k) m = []" by (auto simp: filter_empty_conv)
    moreover have "(k, x) \<notin> set m" using no by force
    ultimately show ?thesis using Cons.prems(2) True by simp
  qed (use Cons in auto)
qed simp

lemma validate_attributed:
  assumes "validate_and_attribute s did raw = Accepted cs" "c \<in> set cs"
  shows "attributed_to did cs c"
proof -
  define st where "st = filter (\<lambda>c. lc_column_name c \<noteq> ''authored_by_did'') raw"
  define m where "m = max_hlc_per_row st []"
  have cs: "cs = st @ map (attribution did) m"
    using assms(1) by (auto simp: validate_and_attribute_def st_def m_def Let_def split: option.splits)
  have keys: "fst ` set m = change_key ` set st" and dist: "distinct (map fst m)"
    by (simp_all add: m_def max_hlc_tabulate tabulate_keys tabulate_distinct)
  have "change_key c \<in> fst ` set m" using assms(2) keys unfolding cs set_append
    by (metis (no_types, lifting) Un_iff attribution_sel(1) imageE image_eqI list.set_map)
  then obtain h dv where e: "(change_key c, h, dv) \<in> set m" by auto
  have st_none: "filter (\<lambda>d. change_key d = change_key c \<and> lc_column_name d = ''authored_by_did'') st = []"
    by (auto simp: filter_empty_conv st_def)
  have "filter (\<lambda>d. change_key d = change_key c \<and> lc_column_name d = ''authored_by_did'') (map (attribution did) m)
      = map (attribution did) (filter (\<lambda>e. fst e = change_key c) m)"
    by (simp add: filter_map o_def)
  with st_none have one: "filter (\<lambda>d. change_key d = change_key c \<and> lc_column_name d = ''authored_by_did'') cs
      = [attribution did (change_key c, h, dv)]"
    by (simp add: cs filter_unique_key [OF dist e])
  have "\<not> hlc_is_newer (lc_hlc_timestamp d) h" if "d \<in> set cs" "change_key d = change_key c" for d
  proof (cases "d \<in> set st")
    case True
    show ?thesis
      using max_hlc_fold [of "filter (\<lambda>d. change_key d = change_key c) st" None h dv]
        tabulate_entry [OF e [unfolded m_def max_hlc_tabulate]] True that(2)
      by (simp add: case_prod_beta' case_prod_beta option.case_eq_if)
  next
    case False
    with that(1) obtain e' where "e' \<in> set m" "d = attribution did e'" by (auto simp: cs)
    with that(2) e dist have "lc_hlc_timestamp d = h"
      by (metis attribution_sel(1,4) eq_key_imp_eq_value fst_conv prod.collapse)
    then show ?thesis by (simp add: hlc.newer_irrefl)
  qed
  with one show ?thesis by (auto simp: attributed_to_def)
qed


text \<open>The stored row is a row of the space, or there is none yet and the batch declares its
  space.\<close>

definition in_space :: "space_env \<Rightarrow> crdt_db \<Rightarrow> string \<Rightarrow> local_column_change list \<Rightarrow> local_column_change \<Rightarrow> bool" where
  "in_space env db s cs c \<longleftrightarrow>
     (let stored = read_existing_column env db (lc_table_name c) (lc_row_pks c) ''space_id''
      in stored = Inr (Some (JString s)) \<or>
         (stored = Inr None \<or> stored = Inr (Some JNull)) \<and>
           (\<exists>d\<in>set cs. change_key d = change_key c \<and> lc_column_name d = ''space_id''))"

lemma row_scope_None:
  assumes "row_scope_violation env db s (change_key c, b) = None"
  shows "read_existing_column env db (lc_table_name c) (lc_row_pks c) ''space_id'' = Inr (Some (JString s))
    \<or> b \<and> (read_existing_column env db (lc_table_name c) (lc_row_pks c) ''space_id'' = Inr None
       \<or> read_existing_column env db (lc_table_name c) (lc_row_pks c) ''space_id'' = Inr (Some JNull))"
  using assms
  by (auto simp: row_scope_violation_def change_key_def Let_def split: sum.splits option.splits json.splits if_splits)

lemma enforce_in_space:
  assumes "enforce_row_space_scope env db s cs = Inr u" "c \<in> set cs"
  shows "in_space env db s cs c"
proof -
  have "change_key c \<in> fst ` set (declares_space_per_row cs [])"
    using assms(2) by (simp add: declares_tabulate tabulate_keys)
  then obtain b where e: "(change_key c, b) \<in> set (declares_space_per_row cs [])" by auto
  have "filter (\<lambda>d. change_key d = change_key c) cs \<noteq> []" using assms(2) by (auto simp: filter_empty_conv)
  with tabulate_entry [OF e [unfolded declares_tabulate]]
  have b: "b \<longleftrightarrow> (\<exists>d\<in>set cs. change_key d = change_key c \<and> lc_column_name d = ''space_id'')"
    by (simp add: declares_fold) blast
  have "row_scope_violation env db s (change_key c, b) = None"
    using assms(1) e by (auto simp: enforce_row_space_scope_def first_violation_Inr)
  from row_scope_None [OF this] b show ?thesis by (auto simp: in_space_def Let_def)
qed

text \<open>The owner of a membership row is the caller: the stored owner, or for a new row the last
  owner the batch declares.\<close>

definition owned_by_caller ::
  "space_env \<Rightarrow> crdt_db \<Rightarrow> string \<Rightarrow> string \<Rightarrow> local_column_change list \<Rightarrow> local_column_change \<Rightarrow> bool" where
  "owned_by_caller env db ep did cs c \<longleftrightarrow>
     (\<forall>owner_col. is_membership_system_table (lc_table_name c) \<and> owner_column_for (lc_table_name c) = Some owner_col \<longrightarrow>
        (let stored = read_existing_column env db (lc_table_name c) (lc_row_pks c) owner_col;
             decl = last_declared_owner cs (change_key c)
         in \<exists>v. (stored = Inr (Some (JString v)) \<and> (decl = None \<or> decl = Some (JString v))
                 \<or> (stored = Inr None \<or> stored = Inr (Some JNull)) \<and> decl = Some (JString v))
              \<and> (case owner_kind_for (lc_table_name c) of
                   Some EndpointId \<Rightarrow> v = ep
                 | Some IdentityId \<Rightarrow> resolve_identity_id_for_did env db did = Inr (Some v)
                 | None \<Rightarrow> False)))"

lemma owner_value_Inr:
  "owner_value t p ex decl = Inr v \<longleftrightarrow>
     ex = Some v \<and> (decl = None \<or> decl = Some (JString v)) \<or> ex = None \<and> decl = Some (JString v)"
  by (auto simp: owner_value_def split: option.splits json.splits if_splits)

lemma owner_check_Inr:
  "owner_check ep me t p kind v = Inr u \<longleftrightarrow> (case kind of EndpointId \<Rightarrow> v = ep | IdentityId \<Rightarrow> me = Some v)"
  by (auto simp: owner_check_def split: owner_kind.splits option.splits)

lemma kind_column: "owner_kind_for t = None \<longleftrightarrow> owner_column_for t = None"
  by (auto simp: owner_kind_for_def owner_column_for_def)

lemma existing_owner_Inr:
  "existing_owner_of t p ex = Inr eo \<Longrightarrow>
     (case eo of Some v \<Rightarrow> ex = Some (JString v) | None \<Rightarrow> ex = None \<or> ex = Some JNull)"
  by (auto simp: existing_owner_of_def split: option.splits json.splits)

lemma row_ownership_None:
  assumes "row_ownership_violation env db ep me (change_key c, decl) = None"
    and "owner_column_for (lc_table_name c) = Some oc" and "owner_kind_for (lc_table_name c) = Some kind"
  shows "\<exists>v. (read_existing_column env db (lc_table_name c) (lc_row_pks c) oc = Inr (Some (JString v))
                \<and> (decl = None \<or> decl = Some (JString v))
       \<or> (read_existing_column env db (lc_table_name c) (lc_row_pks c) oc = Inr None
           \<or> read_existing_column env db (lc_table_name c) (lc_row_pks c) oc = Inr (Some JNull))
          \<and> decl = Some (JString v))
     \<and> (case kind of EndpointId \<Rightarrow> v = ep | IdentityId \<Rightarrow> me = Some v)"
proof -
  from assms(1) obtain ex where r: "read_existing_column env db (lc_table_name c) (lc_row_pks c) oc = Inr ex"
    by (auto simp: row_ownership_violation_def change_key_def Let_def assms(2,3) split: sum.splits)
  from assms(1) obtain eo v where eo: "existing_owner_of (lc_table_name c) (lc_row_pks c) ex = Inr eo"
    and v: "owner_value (lc_table_name c) (lc_row_pks c) eo decl = Inr v"
    "owner_check ep me (lc_table_name c) (lc_row_pks c) kind v = Inr ()"
    by (auto simp: row_ownership_violation_def change_key_def Let_def assms(2,3) r res_simps split: sum.splits)
  with existing_owner_Inr [OF eo] r show ?thesis by (auto simp: owner_value_Inr owner_check_Inr)
qed

lemma last_declared_filter:
  assumes "\<And>d. d \<in> set cs \<Longrightarrow> change_key d = k \<Longrightarrow> Q d"
  shows "last_declared_owner (filter Q cs) k = last_declared_owner cs k"
proof -
  have "filter (\<lambda>c. change_key c = k \<and> owner_tracked c \<and> is_owner_change c) (filter Q cs)
      = filter (\<lambda>c. change_key c = k \<and> owner_tracked c \<and> is_owner_change c) cs"
    unfolding filter_filter by (rule filter_cong [OF refl]) (use assms in auto)
  then show ?thesis by (simp add: last_declared_owner_def)
qed

lemma filter_owned:
  assumes f: "filter_ownership_violations env db ep did cs = (cs', vs)" and c: "c \<in> set cs'"
  shows "owned_by_caller env db ep did cs' c"
proof -
  define me where "me = (case resolve_identity_id_for_did env db did of Inl _ \<Rightarrow> None | Inr i \<Rightarrow> i)"
  define skip where "skip = map fst (filter (\<lambda>e. row_ownership_violation env db ep me e \<noteq> None) (declared_owners cs []))"
  have cs': "cs' = filter (\<lambda>c. change_key c \<notin> set skip) cs"
    using f by (simp add: filter_ownership_violations_def Let_def skip_def me_def)
  show ?thesis
    unfolding owned_by_caller_def Let_def
  proof (intro allI impI, elim conjE)
    fix oc assume mem: "is_membership_system_table (lc_table_name c)" and oc: "owner_column_for (lc_table_name c) = Some oc"
    have t: "owner_tracked c" using mem oc by (simp add: owner_tracked_def)
    obtain kind where kind: "owner_kind_for (lc_table_name c) = Some kind" using oc kind_column by (metis not_None_eq)
    have "change_key c \<in> fst ` set (declared_owners cs [])"
      using c t by (auto simp: owners_tabulate tabulate_keys cs')
    then obtain decl where e: "(change_key c, decl) \<in> set (declared_owners cs [])" by auto
    have ne: "filter (\<lambda>d. change_key d = change_key c) (filter owner_tracked cs) \<noteq> []"
      using c t by (auto simp: cs' filter_empty_conv)
    have decl: "decl = last_declared_owner cs (change_key c)"
      using tabulate_entry [OF e [unfolded owners_tabulate]] ne
      by (simp add: owners_fold last_declared_owner_def filter_filter conj_comms split: list.splits)
    also have "\<dots> = last_declared_owner cs' (change_key c)"
      unfolding cs' by (rule last_declared_filter [symmetric]) (use c in \<open>simp add: cs'\<close>)
    finally have decl': "decl = last_declared_owner cs' (change_key c)" .
    have "change_key c \<notin> set skip" using c by (simp add: cs')
    with e have "row_ownership_violation env db ep me (change_key c, decl) = None"
      unfolding skip_def by force
    from row_ownership_None [OF this oc kind] show
      "\<exists>v. (read_existing_column env db (lc_table_name c) (lc_row_pks c) oc = Inr (Some (JString v)) \<and>
          (last_declared_owner cs' (change_key c) = None \<or> last_declared_owner cs' (change_key c) = Some (JString v))
         \<or> (read_existing_column env db (lc_table_name c) (lc_row_pks c) oc = Inr None
             \<or> read_existing_column env db (lc_table_name c) (lc_row_pks c) oc = Inr (Some JNull))
            \<and> last_declared_owner cs' (change_key c) = Some (JString v))
        \<and> (case owner_kind_for (lc_table_name c) of Some EndpointId \<Rightarrow> v = ep
             | Some IdentityId \<Rightarrow> resolve_identity_id_for_did env db did = Inr (Some v) | None \<Rightarrow> False)"
      by (auto simp: decl' [symmetric] kind me_def split: owner_kind.splits sum.splits)
  qed
qed


lemma in_space_kept:
  assumes "in_space env db s cs c" "\<And>d. d \<in> set cs \<Longrightarrow> change_key d = change_key c \<Longrightarrow> d \<in> set cs'"
  shows "in_space env db s cs' c"
  using assms by (auto simp: in_space_def Let_def)

lemma attributed_kept:
  assumes "attributed_to did cs c" "\<And>d. d \<in> set cs \<Longrightarrow> change_key d = change_key c \<Longrightarrow> Q d"
  shows "attributed_to did (filter Q cs) c"
proof -
  have "filter (\<lambda>d. change_key d = change_key c \<and> lc_column_name d = ''authored_by_did'') (filter Q cs)
      = filter (\<lambda>d. change_key d = change_key c \<and> lc_column_name d = ''authored_by_did'') cs"
    unfolding filter_filter by (rule filter_cong [OF refl]) (use assms(2) in auto)
  with assms(1) show ?thesis by (auto simp: attributed_to_def)
qed

lemma validate_members:
  assumes "validate_and_attribute s did raw = Accepted cs" "c \<in> set cs"
  shows "is_space_scoped_table (lc_table_name c)"
    "lc_column_name c = ''space_id'' \<longrightarrow> lc_value c = JString s"
    "lc_column_name c = ''authored_by_did'' \<or> c \<in> set raw"
proof -
  have ok: "\<forall>c\<in>set raw. is_space_scoped_table (lc_table_name c)
      \<and> (lc_column_name c = ''space_id'' \<longrightarrow> lc_value c = JString s)"
    using assms(1) by (auto simp: validate_and_attribute_def payload_violation_None split: option.splits)
  have key: "fst e \<in> change_key ` set raw"
    if "e \<in> set (max_hlc_per_row (filter (\<lambda>c. lc_column_name c \<noteq> ''authored_by_did'') raw) [])" for e
  proof -
    from that have "fst e \<in> fst ` set (max_hlc_per_row (filter (\<lambda>c. lc_column_name c \<noteq> ''authored_by_did'') raw) [])"
      by (rule imageI)
    then show ?thesis unfolding max_hlc_tabulate tabulate_keys by auto
  qed
  from assms consider "c \<in> set raw" "lc_column_name c \<noteq> ''authored_by_did''"
    | e where "e \<in> set (max_hlc_per_row (filter (\<lambda>c. lc_column_name c \<noteq> ''authored_by_did'') raw) [])"
        "c = attribution did e"
    by (auto simp: validate_and_attribute_def Let_def split: option.splits)
  then have "is_space_scoped_table (lc_table_name c) \<and> (lc_column_name c = ''space_id'' \<longrightarrow> lc_value c = JString s)
    \<and> (lc_column_name c = ''authored_by_did'' \<or> c \<in> set raw)"
  proof cases
    case 1
    with ok show ?thesis by auto
  next
    case 2
    from key [OF 2(1)] obtain d where "d \<in> set raw" "fst e = change_key d" by auto
    with ok 2(2) show ?thesis by (auto simp: change_key_def)
  qed
  then show "is_space_scoped_table (lc_table_name c)" "lc_column_name c = ''space_id'' \<longrightarrow> lc_value c = JString s"
    "lc_column_name c = ''authored_by_did'' \<or> c \<in> set raw" by blast+
qed

lemma authorize_push_Accepted:
  assumes "authorize_inbound_sync_push env db s ep u raw = Accepted cs" "raw \<noteq> []"
  shows "\<exists>attributed. require_capability u s (required_capability_for raw) = Inr ()
    \<and> is_active_space_member env db s (vu_audience u) = Inr True
    \<and> validate_and_attribute s (vu_audience u) raw = Accepted attributed
    \<and> enforce_row_space_scope env db s attributed = Inr ()
    \<and> cs = fst (filter_ownership_violations env db ep (vu_audience u) attributed)"
  using assms
  by (auto simp: authorize_inbound_sync_push_def split: sum.splits bool.splits inbound_outcome.splits)

text \<open>C10: The choke point for pushed changes: of a non-empty batch that is accepted, the token grants
  \<open>Read\<close> for membership tables and \<open>Write\<close> when any other table is touched, and its audience is
  an active member; every change that is applied is in a whitelisted table, writes \<open>space_id\<close>
  only as the request's space, targets a stored row of that space or a new row that declares it,
  belongs to a row with exactly one author entry, which names the token's audience and is at least
  as new as the row's other changes, and, in the membership tables, to a row the caller owns by
  its stored owner (for a new row: by the last owner the batch declares); what is not an author
  entry comes from the batch itself.\<close>

theorem accepted_push_confined:
  assumes "authorize_inbound_sync_push env db s ep u raw = Accepted cs" and "raw \<noteq> []"
  shows "(\<exists>l. vu_capabilities u s = Some l \<and> required_capability_for raw \<le> l)
    \<and> is_active_space_member env db s (vu_audience u) = Inr True
    \<and> (\<forall>c\<in>set cs. is_space_scoped_table (lc_table_name c)
         \<and> (lc_column_name c = ''space_id'' \<longrightarrow> lc_value c = JString s)
         \<and> (lc_column_name c = ''authored_by_did'' \<or> c \<in> set raw)
         \<and> attributed_to (vu_audience u) cs c
         \<and> in_space env db s cs c
         \<and> owned_by_caller env db ep (vu_audience u) cs c)"
proof -
  from authorize_push_Accepted [OF assms] obtain at where
    cap: "require_capability u s (required_capability_for raw) = Inr ()"
    and mem: "is_active_space_member env db s (vu_audience u) = Inr True"
    and val: "validate_and_attribute s (vu_audience u) raw = Accepted at"
    and scope: "enforce_row_space_scope env db s at = Inr ()"
    and cs: "cs = fst (filter_ownership_violations env db ep (vu_audience u) at)" by blast
  obtain vs where f: "filter_ownership_violations env db ep (vu_audience u) at = (cs, vs)"
    using cs by (metis prod.collapse)
  have "\<exists>skip. cs = filter (\<lambda>c. change_key c \<notin> set skip) at"
    unfolding cs filter_ownership_violations_def Let_def fst_conv by blast
  then obtain skip where flt: "cs = filter (\<lambda>c. change_key c \<notin> set skip) at" ..
  have kept: "d \<in> set at \<Longrightarrow> change_key d = change_key c \<Longrightarrow> change_key d \<notin> set skip \<and> d \<in> set cs"
    if "c \<in> set cs" for c d using that by (simp add: flt)
  have "attributed_to (vu_audience u) cs c" "in_space env db s cs c"
    "owned_by_caller env db ep (vu_audience u) cs c" "c \<in> set at" if c: "c \<in> set cs" for c
  proof -
    show at: "c \<in> set at" using c by (simp add: flt)
    show "attributed_to (vu_audience u) cs c"
      unfolding flt by (rule attributed_kept [OF validate_attributed [OF val at]]) (use kept c in blast)
    show "in_space env db s cs c"
      by (rule in_space_kept [OF enforce_in_space [OF scope at]]) (use kept c in blast)
    show "owned_by_caller env db ep (vu_audience u) cs c" by (rule filter_owned [OF f c])
  qed
  with cap mem validate_members [OF val] show ?thesis by (auto simp: res_simps)
qed

definition alice_batch :: "local_column_change list" where
  "alice_batch =
     [\<lparr>lc_table_name = ''haex_space_members'', lc_row_pks = ''m1'', lc_column_name = ''space_id'',
       lc_hlc_timestamp = ''9/1'', lc_value = JString ''s1'', lc_device_id = ''d1''\<rparr>]"

lemma alice_batch_accepted:
  "\<exists>cs. authorize_inbound_sync_push sample_space_env alice_space ''s1'' ''e1'' (alice_ucan CapRead) alice_batch
     = Accepted cs \<and> cs \<noteq> []"
proof -
  have mem: "is_active_space_member sample_space_env alice_space ''s1'' (vu_audience (alice_ucan CapRead)) = Inr True"
    using alice_is_member by (simp add: alice_ucan_def)
  have cap: "require_capability (alice_ucan CapRead) ''s1'' (required_capability_for alice_batch) = Inr ()"
    by (simp add: res_simps alice_ucan_def required_capability_for_def alice_batch_def
        is_membership_system_table_def MEMBERSHIP_SYSTEM_TABLES_def)
  define at where "at = alice_batch @ map (attribution ''alice'') [((''haex_space_members'', ''m1''), ''9/1'', ''d1'')]"
  have val: "validate_and_attribute ''s1'' (vu_audience (alice_ucan CapRead)) alice_batch = Accepted at"
    by (simp add: validate_and_attribute_def alice_batch_def at_def is_space_scoped_table_def
        SPACE_SCOPED_CRDT_TABLES_def alice_ucan_def change_key_def)
  have read: "read_existing_column sample_space_env alice_space ''haex_space_members'' ''m1'' ''space_id''
        = Inr (Some (JString ''s1''))"
    "read_existing_column sample_space_env alice_space ''haex_space_members'' ''m1'' ''identity_id''
        = Inr (Some (JString ''i1''))"
    by (simp_all add: read_existing_column_def safe_identifier_def name_known_def name_value_def has_column_def
        where_eq_def cell_def first_row_def is_ascii_digit_def HLC_TIMESTAMP_COLUMN_def COLUMN_HLCS_COLUMN_def
        alice_defs)
  have scope: "enforce_row_space_scope sample_space_env alice_space ''s1'' at = Inr ()"
    by (simp add: enforce_row_space_scope_def at_def alice_batch_def change_key_def row_scope_violation_def
        attribution_def read)
  have me: "resolve_identity_id_for_did sample_space_env alice_space ''alice'' = Inr (Some ''i1'')"
    by (simp add: resolve_identity_id_for_did_def table_rows_def db_reason_def has_column_def where_eq_def
        first_row_def read_str_def cell_def HLC_TIMESTAMP_COLUMN_def COLUMN_HLCS_COLUMN_def alice_defs)
  have owners: "declared_owners at [] = [((''haex_space_members'', ''m1''), None)]"
    by (simp add: at_def alice_batch_def change_key_def attribution_def is_membership_system_table_def
        MEMBERSHIP_SYSTEM_TABLES_def owner_column_for_def)
  have "row_ownership_violation sample_space_env alice_space ''e1'' (Some ''i1'') ((''haex_space_members'', ''m1''), None) = None"
    by (simp add: row_ownership_violation_def owner_column_for_def owner_kind_for_def read existing_owner_of_def
        owner_value_def owner_check_def Let_def)
  hence "fst (filter_ownership_violations sample_space_env alice_space ''e1'' ''alice'' at) = at"
    unfolding filter_ownership_violations_def me owners by (simp add: filter_True del: set_filter)
  with mem cap val scope show ?thesis
    by (simp add: authorize_inbound_sync_push_def alice_ucan_def) (simp add: alice_batch_def at_def)
qed

theorem accepted_push_confined_witness:
  "\<exists>cs. authorize_inbound_sync_push sample_space_env alice_space ''s1'' ''e1'' (alice_ucan CapRead) alice_batch
     = Accepted cs \<and> (\<exists>c. c \<in> set cs \<and> attributed_to ''alice'' cs c \<and> in_space sample_space_env alice_space ''s1'' cs c)"
proof -
  obtain cs where cs: "authorize_inbound_sync_push sample_space_env alice_space ''s1'' ''e1''
      (alice_ucan CapRead) alice_batch = Accepted cs" "cs \<noteq> []"
    using alice_batch_accepted by blast
  then obtain c where "c \<in> set cs" by (cases cs) auto
  with accepted_push_confined [OF cs(1)] cs(1) show ?thesis
    by (auto simp: alice_batch_def alice_ucan_def)
qed

end
