(* ===== verification/DeliveryBuffer.thy ===== *)
theory DeliveryBuffer
  imports SpaceAuth
begin

text \<open>
  The leader's buffer of MLS traffic (\<open>space_delivery/local/buffer.rs\<close>): messages with an
  autoincremented id, key packages, welcomes and the acknowledgements a commit still waits
  for.  The four \<open>_no_sync\<close> tables are lists in the engine's scan order, which is the order
  of insertion.

  Blobs are stored as base64 text; a text that does not decode reads as the empty blob.
  The DID lists of a pending commit are stored as JSON arrays of strings and read back
  as such.  The random ids and the \<open>CURRENT_TIMESTAMP\<close> of an insert are arguments.
\<close>

record message_row =
  msg_id :: int
  msg_space :: string
  msg_sender :: string
  msg_type :: string
  msg_blob :: string
  msg_created :: string

record key_package_row =
  kp_id :: string
  kp_space :: string
  kp_did :: string
  kp_blob :: string
  kp_created :: string

record welcome_row =
  wl_id :: string
  wl_space :: string
  wl_recipient :: string
  wl_blob :: string
  wl_consumed :: bool
  wl_created :: string

record pending_commit =
  pc_id :: string
  pc_space :: string
  pc_message_id :: int
  pc_expected :: "string list"
  pc_acked :: "string list"

record delivery_buffer =
  messages :: "message_row list"
  message_seq :: int
  key_packages :: "key_package_row list"
  welcomes :: "welcome_row list"
  pending_commits :: "pending_commit list"

definition empty_buffer :: delivery_buffer where
  "empty_buffer = \<lparr>messages = [], message_seq = 0, key_packages = [], welcomes = [], pending_commits = []\<rparr>"

type_synonym 'a buffer_result = "(delivery_error, 'a) result \<times> delivery_buffer"

text \<open>Every statement fails when there is no connection; an insert also on a constraint.\<close>

definition with_db :: "space_env \<Rightarrow> delivery_buffer \<Rightarrow> (delivery_buffer \<Rightarrow> 'a buffer_result) \<Rightarrow> 'a buffer_result" where
  "with_db env b f = (case se_db_fault env of Some e \<Rightarrow> (Inl (Database e), b) | None \<Rightarrow> f b)"

definition insert_for ::
  "space_env \<Rightarrow> string \<Rightarrow> string \<Rightarrow> delivery_buffer \<Rightarrow> (delivery_buffer \<Rightarrow> 'a buffer_result) \<Rightarrow> 'a buffer_result" where
  "insert_for env t space_id b f =
     with_db env b (\<lambda>b. case se_insert_error env t space_id of Some e \<Rightarrow> (Inl (Database e), b) | None \<Rightarrow> f b)"

definition decode_or_default :: "space_env \<Rightarrow> string \<Rightarrow> bytes" where
  "decode_or_default env s = (case b64_decode (se_ucan env) s of Inl _ \<Rightarrow> [] | Inr b \<Rightarrow> b)"

text \<open>The DIDs of the members of a space, one entry per joined pair.\<close>

definition get_space_member_dids ::
  "space_env \<Rightarrow> crdt_db \<Rightarrow> string \<Rightarrow> (delivery_error, string list) result" where
  "get_space_member_dids env db space_id =
     and_then (db_reason [] (table_rows env db ''haex_space_members'' [''identity_id'', ''space_id'']))
       (\<lambda>ms. and_then (db_reason [] (table_rows env db ''haex_identities'' [''id'', ''did'']))
         (\<lambda>ids. Inr (List.map_filter (\<lambda>(m, i). read_str env i ''did'')
            (filter (\<lambda>(m, i). where_eq env (col env i ''id'') (col env m ''identity_id'')
               \<and> where_eq env (col env m ''space_id'') (SText space_id)) (List.product ms ids)))))"


section \<open>Messages\<close>

definition store_message ::
  "space_env \<Rightarrow> string \<Rightarrow> string \<Rightarrow> string \<Rightarrow> string \<Rightarrow> bytes \<Rightarrow> delivery_buffer \<Rightarrow> int buffer_result" where
  "store_message env now space_id sender_did message_type message_blob b =
     insert_for env ''haex_local_delivery_messages_no_sync'' space_id b (\<lambda>b.
       (let i = message_seq b + 1
        in (Inr i,
            b\<lparr>message_seq := i,
              messages := messages b @
                [\<lparr>msg_id = i, msg_space = space_id, msg_sender = sender_did, msg_type = message_type,
                  msg_blob = se_b64 env message_blob, msg_created = now\<rparr>]\<rparr>)))"

definition fetch_messages ::
  "space_env \<Rightarrow> string \<Rightarrow> int option \<Rightarrow> delivery_buffer
    \<Rightarrow> (delivery_error, (int \<times> string \<times> string \<times> bytes \<times> string) list) result" where
  "fetch_messages env space_id after_id b =
     (case se_db_fault env of
        Some e \<Rightarrow> Inl (Database e)
      | None \<Rightarrow>
          Inr (map (\<lambda>m. (msg_id m, msg_sender m, msg_type m, decode_or_default env (msg_blob m), msg_created m))
            (sort_key msg_id
              (filter (\<lambda>m. msg_space m = space_id \<and> (case after_id of None \<Rightarrow> 0 | Some a \<Rightarrow> a) < msg_id m)
                 (messages b)))))"


section \<open>Key packages\<close>

definition store_key_package ::
  "space_env \<Rightarrow> string \<Rightarrow> string \<Rightarrow> string \<Rightarrow> string \<Rightarrow> bytes \<Rightarrow> delivery_buffer \<Rightarrow> string buffer_result" where
  "store_key_package env now new_id space_id target_did package_blob b =
     insert_for env ''haex_local_delivery_key_packages_no_sync'' space_id b (\<lambda>b.
       (Inr new_id,
        b\<lparr>key_packages := key_packages b @
          [\<lparr>kp_id = new_id, kp_space = space_id, kp_did = target_did, kp_blob = se_b64 env package_blob,
            kp_created = now\<rparr>]\<rparr>))"

text \<open>\<open>ORDER BY created_at\<close> compares two texts; rows of the same second keep the scan order.\<close>

fun insert_created :: "(string \<Rightarrow> string \<Rightarrow> bool) \<Rightarrow> ('a \<Rightarrow> string) \<Rightarrow> 'a \<Rightarrow> 'a list \<Rightarrow> 'a list" where
  "insert_created before created x [] = [x]"
| "insert_created before created x (y # ys) =
     (if before (created x) (created y) then x # y # ys else y # insert_created before created x ys)"

definition order_created :: "(string \<Rightarrow> string \<Rightarrow> bool) \<Rightarrow> ('a \<Rightarrow> string) \<Rightarrow> 'a list \<Rightarrow> 'a list" where
  "order_created before created xs = fold (insert_created before created) xs []"

definition packages_for :: "string \<Rightarrow> string \<Rightarrow> delivery_buffer \<Rightarrow> key_package_row list" where
  "packages_for space_id target_did b =
     filter (\<lambda>k. kp_space k = space_id \<and> kp_did k = target_did) (key_packages b)"

definition consume_key_package ::
  "space_env \<Rightarrow> string \<Rightarrow> string \<Rightarrow> delivery_buffer \<Rightarrow> bytes option buffer_result" where
  "consume_key_package env space_id target_did b =
     with_db env b (\<lambda>b.
       (case order_created (\<lambda>x y. text_greater y x) kp_created (packages_for space_id target_did b) of
          [] \<Rightarrow> (Inr None, b)
        | k # _ \<Rightarrow>
            (Inr (Some (decode_or_default env (kp_blob k))),
             b\<lparr>key_packages := filter (\<lambda>x. kp_id x \<noteq> kp_id k) (key_packages b)\<rparr>)))"

text \<open>\<open>COUNT(*)\<close> is cast to \<open>u32\<close>.\<close>

definition count_key_packages_for_did ::
  "space_env \<Rightarrow> string \<Rightarrow> string \<Rightarrow> delivery_buffer \<Rightarrow> (delivery_error, nat) result" where
  "count_key_packages_for_did env space_id target_did b =
     (case se_db_fault env of
        Some e \<Rightarrow> Inl (Database e)
      | None \<Rightarrow> Inr (length (packages_for space_id target_did b) mod 2 ^ 32))"

definition trim_key_packages ::
  "space_env \<Rightarrow> string \<Rightarrow> string \<Rightarrow> nat \<Rightarrow> delivery_buffer \<Rightarrow> unit buffer_result" where
  "trim_key_packages env space_id target_did max_count b =
     with_db env b (\<lambda>b.
       (let excess = drop max_count (order_created text_greater kp_created (packages_for space_id target_did b))
        in (Inr (), b\<lparr>key_packages := filter (\<lambda>k. kp_id k \<notin> kp_id ` set excess) (key_packages b)\<rparr>)))"

definition clear_key_packages_for_did ::
  "space_env \<Rightarrow> string \<Rightarrow> string \<Rightarrow> delivery_buffer \<Rightarrow> unit buffer_result" where
  "clear_key_packages_for_did env space_id target_did b =
     with_db env b (\<lambda>b.
       (Inr (), b\<lparr>key_packages := filter (\<lambda>k. \<not> (kp_space k = space_id \<and> kp_did k = target_did)) (key_packages b)\<rparr>))"


section \<open>Welcomes\<close>

definition store_welcome ::
  "space_env \<Rightarrow> string \<Rightarrow> string \<Rightarrow> string \<Rightarrow> string \<Rightarrow> bytes \<Rightarrow> delivery_buffer \<Rightarrow> string buffer_result" where
  "store_welcome env now new_id space_id recipient_did welcome_blob b =
     insert_for env ''haex_local_delivery_welcomes_no_sync'' space_id b (\<lambda>b.
       (Inr new_id,
        b\<lparr>welcomes := welcomes b @
          [\<lparr>wl_id = new_id, wl_space = space_id, wl_recipient = recipient_did, wl_blob = se_b64 env welcome_blob,
            wl_consumed = False, wl_created = now\<rparr>]\<rparr>))"

definition fetch_welcomes ::
  "space_env \<Rightarrow> string \<Rightarrow> string \<Rightarrow> delivery_buffer \<Rightarrow> (delivery_error, (string \<times> bytes) list) result" where
  "fetch_welcomes env space_id recipient_did b =
     (case se_db_fault env of
        Some e \<Rightarrow> Inl (Database e)
      | None \<Rightarrow>
          Inr (map (\<lambda>w. (wl_id w, decode_or_default env (wl_blob w)))
            (order_created (\<lambda>x y. text_greater y x) wl_created
              (filter (\<lambda>w. wl_space w = space_id \<and> wl_recipient w = recipient_did \<and> \<not> wl_consumed w)
                 (welcomes b)))))"

definition mark_welcome_consumed :: "space_env \<Rightarrow> string \<Rightarrow> delivery_buffer \<Rightarrow> unit buffer_result" where
  "mark_welcome_consumed env welcome_id b =
     with_db env b (\<lambda>b.
       (Inr (), b\<lparr>welcomes := map (\<lambda>w. if wl_id w = welcome_id then w\<lparr>wl_consumed := True\<rparr> else w) (welcomes b)\<rparr>))"

definition clear_welcomes_for_did ::
  "space_env \<Rightarrow> string \<Rightarrow> string \<Rightarrow> delivery_buffer \<Rightarrow> unit buffer_result" where
  "clear_welcomes_for_did env space_id recipient_did b =
     with_db env b (\<lambda>b.
       (Inr (), b\<lparr>welcomes := filter (\<lambda>w. \<not> (wl_space w = space_id \<and> wl_recipient w = recipient_did)) (welcomes b)\<rparr>))"


section \<open>Pending commits\<close>

definition store_pending_commit ::
  "space_env \<Rightarrow> string \<Rightarrow> string \<Rightarrow> int \<Rightarrow> string list \<Rightarrow> delivery_buffer \<Rightarrow> string buffer_result" where
  "store_pending_commit env new_id space_id message_id expected_dids b =
     insert_for env ''haex_local_delivery_pending_commits_no_sync'' space_id b (\<lambda>b.
       (Inr new_id,
        b\<lparr>pending_commits := pending_commits b @
          [\<lparr>pc_id = new_id, pc_space = space_id, pc_message_id = message_id, pc_expected = expected_dids,
            pc_acked = []\<rparr>]\<rparr>))"

definition is_pending_for :: "string \<Rightarrow> int \<Rightarrow> pending_commit \<Rightarrow> bool" where
  "is_pending_for space_id message_id p \<longleftrightarrow> pc_space p = space_id \<and> pc_message_id p = message_id"

definition add_ack :: "string \<Rightarrow> pending_commit \<Rightarrow> pending_commit" where
  "add_ack member_did p =
     (if member_did \<in> set (pc_acked p) then p else p\<lparr>pc_acked := pc_acked p @ [member_did]\<rparr>)"

definition fully_acked_row :: "pending_commit \<Rightarrow> bool" where
  "fully_acked_row p \<longleftrightarrow> (\<forall>did\<in>set (pc_expected p). did \<in> set (pc_acked p))"

text \<open>\<open>UPDATE ... RETURNING\<close> updates every matching row; the decision looks at the first.\<close>

fun ack_loop :: "string \<Rightarrow> string \<Rightarrow> int list \<Rightarrow> pending_commit list \<Rightarrow> int list \<times> pending_commit list" where
  "ack_loop space_id member_did [] ps = ([], ps)"
| "ack_loop space_id member_did (m # ms) ps =
     (let ps1 = map (\<lambda>p. if is_pending_for space_id m p then add_ack member_did p else p) ps;
          done = (case filter (is_pending_for space_id m) ps1 of [] \<Rightarrow> False | p # _ \<Rightarrow> fully_acked_row p);
          (fully, ps2) = ack_loop space_id member_did ms ps1
      in (if done then m # fully else fully, ps2))"

definition ack_commits ::
  "space_env \<Rightarrow> string \<Rightarrow> string \<Rightarrow> int list \<Rightarrow> delivery_buffer \<Rightarrow> int list buffer_result" where
  "ack_commits env space_id member_did message_ids b =
     (if message_ids = [] then (Inr [], b)
      else with_db env b (\<lambda>b.
        (let (fully, ps) = ack_loop space_id member_did message_ids (pending_commits b)
         in (Inr fully, b\<lparr>pending_commits := ps\<rparr>))))"

definition drop_commit :: "string \<Rightarrow> int \<Rightarrow> delivery_buffer \<Rightarrow> delivery_buffer" where
  "drop_commit space_id m b =
     b\<lparr>pending_commits := filter (\<lambda>p. \<not> is_pending_for space_id m p) (pending_commits b),
       messages := filter (\<lambda>x. \<not> (msg_space x = space_id \<and> msg_id x = m)) (messages b)\<rparr>"

definition cleanup_acked_commits ::
  "space_env \<Rightarrow> string \<Rightarrow> int list \<Rightarrow> delivery_buffer \<Rightarrow> unit buffer_result" where
  "cleanup_acked_commits env space_id message_ids b =
     (if message_ids = [] then (Inr (), b)
      else with_db env b (\<lambda>b. (Inr (), fold (drop_commit space_id) message_ids b)))"

definition get_unacked_message_ids_for_member ::
  "space_env \<Rightarrow> string \<Rightarrow> string \<Rightarrow> delivery_buffer \<Rightarrow> (delivery_error, int list) result" where
  "get_unacked_message_ids_for_member env space_id member_did b =
     (case se_db_fault env of
        Some e \<Rightarrow> Inl (Database e)
      | None \<Rightarrow>
          Inr (map pc_message_id
            (filter (\<lambda>p. pc_space p = space_id \<and> member_did \<in> set (pc_expected p) \<and> member_did \<notin> set (pc_acked p))
               (pending_commits b))))"

definition clear_buffers :: "space_env \<Rightarrow> string \<Rightarrow> delivery_buffer \<Rightarrow> unit buffer_result" where
  "clear_buffers env space_id b =
     with_db env b (\<lambda>b.
       (Inr (), b\<lparr>messages := filter (\<lambda>m. msg_space m \<noteq> space_id) (messages b),
                   key_packages := filter (\<lambda>k. kp_space k \<noteq> space_id) (key_packages b),
                   welcomes := filter (\<lambda>w. wl_space w \<noteq> space_id) (welcomes b),
                   pending_commits := filter (\<lambda>p. pc_space p \<noteq> space_id) (pending_commits b)\<rparr>))"


section \<open>Acknowledged commits\<close>

text \<open>The \<open>MlsAckCommit\<close> arm of the leader: record the acknowledgements, then drop what is
  complete.\<close>

definition handle_ack_commit ::
  "space_env \<Rightarrow> string \<Rightarrow> string \<Rightarrow> int list \<Rightarrow> delivery_buffer \<Rightarrow> response \<times> delivery_buffer" where
  "handle_ack_commit env space_id did message_ids b =
     (case ack_commits env space_id did message_ids b of
        (Inl e, b1) \<Rightarrow> (RError (display_delivery_error e), b1)
      | (Inr fully_acked, b1) \<Rightarrow>
          (ROk, if fully_acked \<noteq> [] then snd (cleanup_acked_commits env space_id fully_acked b1) else b1))"

abbreviation entries :: "string \<Rightarrow> int \<Rightarrow> pending_commit list \<Rightarrow> pending_commit list" where
  "entries s m ps \<equiv> filter (is_pending_for s m) ps"

lemma add_ack_simps [simp]:
  "is_pending_for s m (add_ack d p) \<longleftrightarrow> is_pending_for s m p"
  "pc_expected (add_ack d p) = pc_expected p"
  "set (pc_acked (add_ack d p)) = insert d (set (pc_acked p))"
  "add_ack d (add_ack d p) = add_ack d p"
  by (auto simp: is_pending_for_def add_ack_def)

lemma entries_update:
  "entries s m (map (\<lambda>p. if is_pending_for s' m' p then add_ack d p else p) ps) =
     (if s' = s \<and> m' = m then map (add_ack d) (entries s m ps) else entries s m ps)"
proof (induction ps)
  case (Cons p ps)
  have "is_pending_for s' m' p \<Longrightarrow> is_pending_for s m p \<Longrightarrow> s' = s \<and> m' = m"
    by (simp add: is_pending_for_def)
  with Cons show ?case by auto
qed simp

lemma ack_loop_entries:
  "entries s m (snd (ack_loop s' d ms ps)) =
     (if s' = s \<and> m \<in> set ms then map (add_ack d) (entries s m ps) else entries s m ps)"
  by (induction ms arbitrary: ps) (auto simp: Let_def case_prod_beta entries_update)

lemma ack_loop_fully:
  "m \<in> set (fst (ack_loop s d ms ps)) \<longleftrightarrow>
     m \<in> set ms \<and> (case entries s m ps of [] \<Rightarrow> False | p # _ \<Rightarrow> fully_acked_row (add_ack d p))"
proof (induction ms arbitrary: ps)
  case (Cons i ms)
  let ?ps = "map (\<lambda>p. if is_pending_for s i p then add_ack d p else p) ps"
  have e: "entries s m ?ps = (if i = m then map (add_ack d) (entries s m ps) else entries s m ps)"
    by (simp add: entries_update)
  have ei: "entries s i ?ps = map (add_ack d) (entries s i ps)" by (simp add: entries_update)
  show ?case
    using Cons.IH [of ?ps] by (auto simp: Let_def case_prod_beta e ei split: list.splits)
qed simp

definition message_present :: "string \<Rightarrow> int \<Rightarrow> delivery_buffer \<Rightarrow> bool" where
  "message_present s m b \<longleftrightarrow> (\<exists>x\<in>set (messages b). msg_space x = s \<and> msg_id x = m)"

lemma drop_commit_effect:
  "entries s m (pending_commits (drop_commit s' i b)) =
     (if s' = s \<and> i = m then [] else entries s m (pending_commits b))"
  "message_present s m (drop_commit s' i b) \<longleftrightarrow> message_present s m b \<and> \<not> (s' = s \<and> i = m)"
proof -
  have "(\<not> is_pending_for s' i p \<and> is_pending_for s m p) = (if s' = s \<and> i = m then False else is_pending_for s m p)" for p
    by (auto simp: is_pending_for_def)
  then show "entries s m (pending_commits (drop_commit s' i b)) =
     (if s' = s \<and> i = m then [] else entries s m (pending_commits b))"
    by (simp add: drop_commit_def)
qed (auto simp: drop_commit_def message_present_def)

lemma cleanup_fold:
  "entries s m (pending_commits (fold (drop_commit s') ms b)) =
      (if s' = s \<and> m \<in> set ms then [] else entries s m (pending_commits b))
   \<and> (message_present s m (fold (drop_commit s') ms b) \<longleftrightarrow> message_present s m b \<and> \<not> (s' = s \<and> m \<in> set ms))"
  by (induction ms arbitrary: b) (auto simp: drop_commit_effect)

lemma handle_ack_effect:
  assumes "se_db_fault env = None"
  defines "fully s' d ms b \<equiv> fst (ack_loop s' d ms (pending_commits b))"
  shows "entries s m (pending_commits (snd (handle_ack_commit env s' d ms b))) =
      (if s' = s \<and> m \<in> set (fully s' d ms b) then []
       else if s' = s \<and> m \<in> set ms then map (add_ack d) (entries s m (pending_commits b))
       else entries s m (pending_commits b))"
    and "message_present s m (snd (handle_ack_commit env s' d ms b)) \<longleftrightarrow>
      message_present s m b \<and> \<not> (s' = s \<and> m \<in> set (fully s' d ms b))"
proof -
  define b1 where "b1 = b\<lparr>pending_commits := snd (ack_loop s' d ms (pending_commits b))\<rparr>"
  have mp: "message_present s m b1 = message_present s m b" by (simp add: b1_def message_present_def)
  have en: "entries s m (pending_commits b1) =
      (if s' = s \<and> m \<in> set ms then map (add_ack d) (entries s m (pending_commits b)) else entries s m (pending_commits b))"
    by (simp add: b1_def ack_loop_entries)
  have h: "snd (handle_ack_commit env s' d ms b) = fold (drop_commit s') (fully s' d ms b) b1"
    using assms(1) by (auto simp: handle_ack_commit_def ack_commits_def cleanup_acked_commits_def with_db_def
        fully_def b1_def split: prod.splits)
  show "entries s m (pending_commits (snd (handle_ack_commit env s' d ms b))) =
      (if s' = s \<and> m \<in> set (fully s' d ms b) then []
       else if s' = s \<and> m \<in> set ms then map (add_ack d) (entries s m (pending_commits b))
       else entries s m (pending_commits b))"
    using cleanup_fold [of s m s' "fully s' d ms b" b1] by (auto simp: h en split: if_splits)
  show "message_present s m (snd (handle_ack_commit env s' d ms b)) \<longleftrightarrow>
      message_present s m b \<and> \<not> (s' = s \<and> m \<in> set (fully s' d ms b))"
    using cleanup_fold [of s m s' "fully s' d ms b" b1] by (simp add: h mp)
qed

text \<open>A commit that waits for the members \<open>E\<close>, of whom \<open>A\<close> have acknowledged it.\<close>

definition awaiting :: "string \<Rightarrow> int \<Rightarrow> string set \<Rightarrow> string set \<Rightarrow> delivery_buffer \<Rightarrow> bool" where
  "awaiting s m E A b \<longleftrightarrow>
     message_present s m b \<and>
     (\<exists>p. entries s m (pending_commits b) = [p] \<and> set (pc_expected p) = E \<and> set (pc_acked p) = A)"

definition settled :: "string \<Rightarrow> int \<Rightarrow> delivery_buffer \<Rightarrow> bool" where
  "settled s m b \<longleftrightarrow> \<not> message_present s m b \<and> entries s m (pending_commits b) = []"

type_synonym ack_request = "string \<times> string \<times> int list"

definition ack_step :: "space_env \<Rightarrow> ack_request \<Rightarrow> delivery_buffer \<Rightarrow> delivery_buffer" where
  "ack_step env r b = snd (handle_ack_commit env (fst r) (fst (snd r)) (snd (snd r)) b)"

definition acks :: "string \<Rightarrow> int \<Rightarrow> ack_request list \<Rightarrow> string set" where
  "acks s m rs = {d. \<exists>ids. (s, d, ids) \<in> set rs \<and> m \<in> set ids}"

lemma awaiting_step:
  assumes "se_db_fault env = None" "awaiting s m E A b"
  shows "if s' = s \<and> m \<in> set ms
         then if E \<subseteq> insert d A then settled s m (ack_step env (s', d, ms) b)
              else awaiting s m E (insert d A) (ack_step env (s', d, ms) b)
         else awaiting s m E A (ack_step env (s', d, ms) b)"
proof -
  from assms(2) obtain p where p: "entries s m (pending_commits b) = [p]" "set (pc_expected p) = E"
    "set (pc_acked p) = A" and present: "message_present s m b"
    by (auto simp: awaiting_def)
  have fully: "m \<in> set (fst (ack_loop s d ms (pending_commits b))) \<longleftrightarrow> m \<in> set ms \<and> E \<subseteq> insert d A"
    using p by (auto simp: ack_loop_fully fully_acked_row_def)
  show ?thesis
    using handle_ack_effect [OF assms(1), where s = s and m = m and s' = s' and d = d and ms = ms and b = b] fully present p
    by (auto simp: ack_step_def settled_def awaiting_def)
qed

lemma settled_step:
  assumes "se_db_fault env = None" "settled s m b"
  shows "settled s m (ack_step env r b)"
  using handle_ack_effect [OF assms(1), where s = s and m = m and s' = "fst r" and d = "fst (snd r)" and ms = "snd (snd r)"
      and b = b] assms(2)
  by (auto simp: ack_step_def settled_def)

lemma settled_run:
  assumes "se_db_fault env = None" "settled s m b"
  shows "settled s m (fold (ack_step env) rs b)"
  using assms(2) by (induction rs arbitrary: b) (auto simp: settled_step [OF assms(1)])

lemma awaiting_run:
  assumes "se_db_fault env = None" "awaiting s m E A b" "\<not> E \<subseteq> A"
  shows "if E \<subseteq> A \<union> acks s m rs then settled s m (fold (ack_step env) rs b)
         else awaiting s m E (A \<union> acks s m rs) (fold (ack_step env) rs b)"
  using assms(2,3)
proof (induction rs arbitrary: A b)
  case Nil
  then show ?case by (simp add: acks_def)
next
  case (Cons r rs)
  obtain s' d ms where r: "r = (s', d, ms)" by (cases r)
  show ?case
  proof (cases "s' = s \<and> m \<in> set ms")
    case True
    have acks: "A \<union> acks s m (r # rs) = insert d A \<union> acks s m rs"
      using True by (auto simp: acks_def r)
    show ?thesis
    proof (cases "E \<subseteq> insert d A")
      case all: True
      have "settled s m (ack_step env r b)"
        using awaiting_step [OF assms(1) Cons.prems(1), of s' ms d] True all by (simp add: r)
      moreover have "E \<subseteq> A \<union> acks s m (r # rs)" using all unfolding acks by blast
      ultimately show ?thesis using settled_run [OF assms(1)] by simp
    next
      case False
      have "awaiting s m E (insert d A) (ack_step env r b)"
        using awaiting_step [OF assms(1) Cons.prems(1), of s' ms d] True False by (simp add: r)
      from Cons.IH [OF this False] show ?thesis unfolding acks fold_simps .
    qed
  next
    case False
    have "acks s m (r # rs) = acks s m rs" using False by (auto simp: acks_def r)
    moreover have "awaiting s m E A (ack_step env r b)"
      using awaiting_step [OF assms(1) Cons.prems(1), of s' ms d] unfolding if_not_P [OF False] r .
    ultimately show ?thesis using Cons.IH Cons.prems(2) by simp
  qed
qed

text \<open>C13: A commit stays in the leader's buffer until every member it waits for has acknowledged
  it, and no longer: after any sequence of acknowledgement requests (of any members, for any
  messages and spaces, with repetitions) the message is still there exactly when some expected
  member has not acknowledged it, and once all have, the message and its bookkeeping are gone.\<close>

theorem commit_kept_until_acked:
  assumes "se_db_fault env = None" and "awaiting s m E {} b" and "E \<noteq> {}"
  shows "(message_present s m (fold (ack_step env) rs b) \<longleftrightarrow> \<not> E \<subseteq> acks s m rs)
    \<and> (E \<subseteq> acks s m rs \<longrightarrow> entries s m (pending_commits (fold (ack_step env) rs b)) = [])"
  using awaiting_run [OF assms(1,2), of rs] assms(3)
  by (auto simp: settled_def awaiting_def split: if_splits)

definition sample_buffer :: delivery_buffer where
  "sample_buffer = empty_buffer\<lparr>message_seq := 7,
     messages := [\<lparr>msg_id = 7, msg_space = ''s1'', msg_sender = ''bob'', msg_type = ''commit'', msg_blob = ''x'',
       msg_created = ''t''\<rparr>],
     pending_commits := [\<lparr>pc_id = ''p'', pc_space = ''s1'', pc_message_id = 7, pc_expected = [''a'', ''b''],
       pc_acked = []\<rparr>]\<rparr>"

theorem commit_kept_until_acked_witness:
  "message_present ''s1'' 7 (fold (ack_step sample_space_env) [(''s1'', ''a'', [7]), (''s1'', ''a'', [7])] sample_buffer)
   \<and> \<not> message_present ''s1'' 7 (fold (ack_step sample_space_env) [(''s1'', ''b'', [7]), (''s1'', ''a'', [3, 7])] sample_buffer)"
proof -
  have f: "se_db_fault sample_space_env = None" by (simp add: sample_space_env_def)
  have w: "awaiting ''s1'' 7 {''a'', ''b''} {} sample_buffer"
    by (simp add: awaiting_def message_present_def sample_buffer_def empty_buffer_def is_pending_for_def)
  have "\<not> {''a'', ''b''} \<subseteq> acks ''s1'' 7 [(''s1'', ''a'', [7]), (''s1'', ''a'', [7])]"
    "{''a'', ''b''} \<subseteq> acks ''s1'' 7 [(''s1'', ''b'', [7]), (''s1'', ''a'', [3, 7])]"
    by (auto simp: acks_def)
  then show ?thesis
    using commit_kept_until_acked [OF f w, of "[(''s1'', ''a'', [7]), (''s1'', ''a'', [7])]"]
      commit_kept_until_acked [OF f w, of "[(''s1'', ''b'', [7]), (''s1'', ''a'', [3, 7])]"]
    by simp
qed


section \<open>A log that peers poll\<close>

text \<open>A peer's cursor is the id of the last message it was given; \<open>Some m\<close> stores a message,
  \<open>None\<close> is a poll.\<close>

definition poll_cursor :: "(int \<Rightarrow> 's \<Rightarrow> (int \<times> 'm) list) \<Rightarrow> 's \<Rightarrow> int \<Rightarrow> int" where
  "poll_cursor fetch s c = (case rev (fetch c s) of [] \<Rightarrow> c | e # _ \<Rightarrow> fst e)"

fun poll_run ::
  "('m \<Rightarrow> 's \<Rightarrow> int \<times> 's) \<Rightarrow> (int \<Rightarrow> 's \<Rightarrow> (int \<times> 'm) list) \<Rightarrow> 'm option list \<Rightarrow> 's \<times> int \<times> 'm list
    \<Rightarrow> 's \<times> int \<times> 'm list" where
  "poll_run store fetch [] st = st"
| "poll_run store fetch (Some m # es) (s, c, got) = poll_run store fetch es (snd (store m s), c, got)"
| "poll_run store fetch (None # es) (s, c, got) =
     poll_run store fetch es (s, poll_cursor fetch s c, got @ map snd (fetch c s))"

text \<open>The interface between the message table and a peer that fetches "after" the last id it
  has seen: ids grow, a fetch returns what was stored after the cursor, in order.\<close>

locale polled_log =
  fixes store :: "'m \<Rightarrow> 's \<Rightarrow> int \<times> 's"
    and fetch :: "int \<Rightarrow> 's \<Rightarrow> (int \<times> 'm) list"
    and log_ok :: "'s \<Rightarrow> bool"
  assumes store_ok: "log_ok s \<Longrightarrow> log_ok (snd (store m s))"
    and store_fetch: "log_ok s \<Longrightarrow> fetch a (snd (store m s)) =
      fetch a s @ (if a < fst (store m s) then [(fst (store m s), m)] else [])"
    and fetch_bounds: "log_ok s \<Longrightarrow> (i, x) \<in> set (fetch a s) \<Longrightarrow> a < i \<and> i < fst (store m s)"
    and fetch_sorted: "log_ok s \<Longrightarrow> sorted_wrt (<) (map fst (fetch a s))"
    and fetch_after: "log_ok s \<Longrightarrow> a \<le> a' \<Longrightarrow> fetch a' s = filter (\<lambda>e. a' < fst e) (fetch a s)"
begin

lemma poll_empties:
  assumes "log_ok s"
  shows "fetch (poll_cursor fetch s c) s = []" "c \<le> poll_cursor fetch s c" "\<forall>m. poll_cursor fetch s c < fst (store m s) \<or> poll_cursor fetch s c = c"
proof -
  have last: "c \<le> fst e \<and> fst e < fst (store m s)" if "fetch c s = es @ [e]" for es e m
    using fetch_bounds [OF assms, of "fst e" "snd e" c m] that by simp
  show le: "c \<le> poll_cursor fetch s c"
    using last by (auto simp: poll_cursor_def split: list.splits)
  show "\<forall>m. poll_cursor fetch s c < fst (store m s) \<or> poll_cursor fetch s c = c"
    using last by (auto simp: poll_cursor_def split: list.splits)
  show "fetch (poll_cursor fetch s c) s = []"
  proof (cases "rev (fetch c s)")
    case Nil
    then show ?thesis by (simp add: poll_cursor_def)
  next
    case (Cons e es)
    have "\<forall>x\<in>set (fetch c s). fst x \<le> fst e"
    proof -
      have "fetch c s = rev es @ [e]" using Cons by (metis rev.simps(2) rev_rev_ident)
      with fetch_sorted [OF assms, of c] show ?thesis by (auto simp: sorted_wrt_append)
    qed
    moreover have "poll_cursor fetch s c = fst e" using Cons by (simp add: poll_cursor_def)
    ultimately show ?thesis using fetch_after [OF assms le] by (fastforce simp: filter_empty_conv)
  qed
qed

lemma poll_run_complete:
  assumes "log_ok s" "\<forall>m. c < fst (store m s)" "poll_run store fetch es (s, c, got) = (s', c', got')"
  shows "got' @ map snd (fetch c' s') = got @ map snd (fetch c s) @ List.map_filter id es
    \<and> log_ok s' \<and> (\<forall>m. c' < fst (store m s'))"
  using assms
proof (induction es arbitrary: s c got)
  case Nil
  then show ?case by (simp add: List.map_filter_def)
next
  case (Cons e es)
  show ?case
  proof (cases e)
    case None
    have c: "\<forall>m. poll_cursor fetch s c < fst (store m s)" using poll_empties(3) [OF Cons.prems(1), of c] Cons.prems(2) by metis
    from Cons.IH [OF Cons.prems(1) c] Cons.prems(3) None show ?thesis
      by (simp add: poll_empties(1) [OF Cons.prems(1)] List.map_filter_def)
  next
    case (Some m)
    have ok: "log_ok (snd (store m s))" by (rule store_ok [OF Cons.prems(1)])
    have new: "(fst (store m s), m) \<in> set (fetch c (snd (store m s)))"
      using store_fetch [OF Cons.prems(1)] Cons.prems(2) by simp
    have "\<forall>x. c < fst (store x (snd (store m s)))"
      using fetch_bounds [OF ok new] by (meson order_less_trans)
    from Cons.IH [OF ok this] Cons.prems Some show ?thesis
      by (simp add: store_fetch List.map_filter_def)
  qed
qed

end

text \<open>The message table of one space provides it: ids come from the table's sequence, which is
  ahead of every stored id.\<close>

definition buffer_log_ok :: "space_env \<Rightarrow> string \<Rightarrow> delivery_buffer \<Rightarrow> bool" where
  "buffer_log_ok env space_id b \<longleftrightarrow>
     se_db_fault env = None \<and> se_insert_error env ''haex_local_delivery_messages_no_sync'' space_id = None \<and>
     (\<forall>x. b64_decode (se_ucan env) (se_b64 env x) = Inr x) \<and>
     sorted_wrt (<) (map msg_id (messages b)) \<and> (\<forall>m\<in>set (messages b). msg_id m \<le> message_seq b)"

type_synonym mls_payload = "string \<times> string \<times> bytes \<times> string"

definition log_store :: "space_env \<Rightarrow> string \<Rightarrow> mls_payload \<Rightarrow> delivery_buffer \<Rightarrow> int \<times> delivery_buffer" where
  "log_store env space_id p b =
     (case p of (sender, kind, blob, now) \<Rightarrow>
       (case store_message env now space_id sender kind blob b of
          (Inr i, b1) \<Rightarrow> (i, b1) | (Inl e, b1) \<Rightarrow> (0, b1)))"

definition log_fetch :: "space_env \<Rightarrow> string \<Rightarrow> int \<Rightarrow> delivery_buffer \<Rightarrow> (int \<times> mls_payload) list" where
  "log_fetch env space_id a b =
     (case fetch_messages env space_id (Some a) b of
        Inl e \<Rightarrow> [] | Inr ms \<Rightarrow> ms)"

lemma fetch_sorted_scan:
  assumes "sorted_wrt (<) (map msg_id ms)"
  shows "sort_key msg_id (filter P ms) = filter P ms" "sorted_wrt (<) (map msg_id (filter P ms))"
proof -
  show *: "sorted_wrt (<) (map msg_id (filter P ms))" using assms by (induction ms) auto
  then show "sort_key msg_id (filter P ms) = filter P ms"
    by (intro sort_key_id_if_sorted) (metis strict_sorted_imp_sorted)
qed

definition payload_of :: "space_env \<Rightarrow> message_row \<Rightarrow> int \<times> mls_payload" where
  "payload_of env m = (msg_id m, msg_sender m, msg_type m, decode_or_default env (msg_blob m), msg_created m)"

lemma log_fetch_eq:
  assumes "buffer_log_ok env s b"
  shows "log_fetch env s a b =
    map (payload_of env) (filter (\<lambda>m. msg_space m = s \<and> a < msg_id m) (messages b))"
  using assms by (simp add: log_fetch_def fetch_messages_def buffer_log_ok_def fetch_sorted_scan payload_of_def [abs_def])

lemma log_store_eq:
  assumes "buffer_log_ok env s b"
  shows "log_store env s (sender, kind, blob, now) b =
    (message_seq b + 1, b\<lparr>message_seq := message_seq b + 1,
       messages := messages b @ [\<lparr>msg_id = message_seq b + 1, msg_space = s, msg_sender = sender, msg_type = kind,
         msg_blob = se_b64 env blob, msg_created = now\<rparr>]\<rparr>)"
  using assms by (simp add: log_store_def store_message_def insert_for_def with_db_def buffer_log_ok_def Let_def)

interpretation bl: polled_log "log_store env s" "log_fetch env s" "buffer_log_ok env s" for env s
proof
  fix b and m x :: mls_payload and a a' i :: int
  assume ok: "buffer_log_ok env s b"
  obtain sender kind blob now where m: "m = (sender, kind, blob, now)" by (cases m)
  note st = log_store_eq [OF ok, of sender kind blob now, folded m]
  show ok': "buffer_log_ok env s (snd (log_store env s m b))"
    using ok by (auto simp: st buffer_log_ok_def sorted_wrt_append)
  show "log_fetch env s a (snd (log_store env s m b)) =
      log_fetch env s a b @ (if a < fst (log_store env s m b) then [(fst (log_store env s m b), m)] else [])"
    using ok unfolding log_fetch_eq [OF ok'] log_fetch_eq [OF ok] unfolding st
    by (simp add: payload_of_def decode_or_default_def m buffer_log_ok_def)
  show "a < i \<and> i < fst (log_store env s m b)" if "(i, x) \<in> set (log_fetch env s a b)"
    using that ok unfolding log_fetch_eq [OF ok] by (auto simp: st payload_of_def buffer_log_ok_def)
  show "sorted_wrt (<) (map fst (log_fetch env s a b))"
    using ok unfolding log_fetch_eq [OF ok] by (simp add: payload_of_def o_def fetch_sorted_scan buffer_log_ok_def)
  show "log_fetch env s a' b = filter (\<lambda>e. a' < fst e) (log_fetch env s a b)" if "a \<le> a'"
  proof -
    have "filter (\<lambda>m. msg_space m = s \<and> a' < msg_id m) (messages b) =
        filter (\<lambda>m. msg_space m = s \<and> a < msg_id m \<and> a' < msg_id m) (messages b)"
      using that by (intro filter_cong) auto
    then show ?thesis unfolding log_fetch_eq [OF ok] by (simp add: filter_map o_def payload_of_def)
  qed
qed

text \<open>C14: A peer that polls the leader misses nothing and sees nothing twice: for every interleaving
  of messages stored for the space and polls with the cursor set to the last id received, what
  the peer has received followed by what the next poll would return is the sequence of all
  messages in the order they were stored, with their sender, type, content and time.\<close>

theorem polling_delivers_every_message:
  assumes "buffer_log_ok env s b" "messages b = []" "c \<le> message_seq b"
    and "poll_run (log_store env s) (log_fetch env s) es (b, c, []) = (b', c', got)"
  shows "got @ map snd (log_fetch env s c' b') = List.map_filter id es"
proof -
  have c: "\<forall>m. c < fst (log_store env s m b)"
    using assms(3) by (auto simp: log_store_eq [OF assms(1)] split_paired_all)
  show ?thesis
    using bl.poll_run_complete [OF assms(1) c assms(4)] assms(2) by (simp add: log_fetch_eq [OF assms(1)])
qed

definition echo_env :: space_env where
  "echo_env = sample_space_env\<lparr>se_b64 := sample_encode,
     se_ucan := (sample_ucan_env sample_payload)\<lparr>b64_decode := sample_decode\<rparr>\<rparr>"

theorem polling_delivers_every_message_witness:
  "\<exists>b' c' got. poll_run (log_store echo_env ''s1'') (log_fetch echo_env ''s1'')
      [Some (''a'', ''commit'', [1], ''t1''), None, Some (''b'', ''app'', [2], ''t2'')] (empty_buffer, 0, []) = (b', c', got)
    \<and> got @ map snd (log_fetch echo_env ''s1'' c' b') = [(''a'', ''commit'', [1], ''t1''), (''b'', ''app'', [2], ''t2'')]"
proof -
  have ok: "buffer_log_ok echo_env ''s1'' empty_buffer"
    by (simp add: buffer_log_ok_def echo_env_def sample_space_env_def empty_buffer_def sample_codec)
  obtain b' c' got where run: "poll_run (log_store echo_env ''s1'') (log_fetch echo_env ''s1'')
      [Some (''a'', ''commit'', [1], ''t1''), None, Some (''b'', ''app'', [2], ''t2'')] (empty_buffer, 0, []) = (b', c', got)"
    by (metis prod_cases3)
  show ?thesis
    using polling_delivers_every_message [OF ok _ _ run] run
    by (simp add: empty_buffer_def List.map_filter_def)
qed

end
