(* ===== verification/SpaceDb.thy ===== *)
theory SpaceDb
  imports SpaceAuth
begin

text \<open>
  The statements the space code runs through \<open>execute_with_crdt\<close>
  (\<open>database/core.rs\<close>): the transformer adds the row clock, the triggers stamp the column
  clocks, mark the table dirty and log deletions, and the statement commits as a whole or
  not at all.

  A \<open>write_ctx\<close> holds what one statement draws from outside: the timestamp of the clock
  service, the wall clock of the dirty-table entry and the random ids of delete-log rows.
\<close>

record write_ctx =
  wc_hlc :: string
  wc_now :: string
  wc_delete_id :: "row \<Rightarrow> string"

text \<open>The table, when the connection is open and it has the columns the statement names.\<close>

definition open_table :: "space_env \<Rightarrow> crdt_db \<Rightarrow> string \<Rightarrow> string list \<Rightarrow> (string, table) result" where
  "open_table env db t cs =
     (case table_rows env db t cs of
        Inl e \<Rightarrow> Inl e
      | Inr _ \<Rightarrow> (case tables db t of None \<Rightarrow> Inl (''no such table: '' @ t) | Some tb \<Rightarrow> Inr tb))"

definition append_row :: "write_ctx \<Rightarrow> string \<Rightarrow> table \<Rightarrow> (string \<times> sql_value) list \<Rightarrow> crdt_db \<Rightarrow> crdt_db" where
  "append_row w t tb params db =
     (let r0 = \<lparr>cells = map_of params, row_hlc = Some (wc_hlc w), column_hlcs = Map.empty\<rparr>;
          r = (if has_triggers tb then insert_trigger_row db (cols_to_track (schema tb)) r0 else r0);
          db1 = set_table t (tb\<lparr>rows := rows tb @ [r]\<rparr>) db
      in if has_triggers tb then insert_trigger_db t (wc_now w) r0 db1 else db1)"

text \<open>\<open>INSERT OR IGNORE\<close> skips a row that violates a constraint; the flag tells whether the row
  was written (what \<open>RETURNING id\<close> reports).\<close>

definition insert_or_ignore ::
  "space_env \<Rightarrow> write_ctx \<Rightarrow> string \<Rightarrow> (string \<times> sql_value) list \<Rightarrow> crdt_db \<Rightarrow> (string, bool \<times> crdt_db) result" where
  "insert_or_ignore env w t params db =
     and_then (open_table env db t (HLC_TIMESTAMP_COLUMN # map fst params))
       (\<lambda>tb. case insert_violation (se_sql env) t tb params of
               Some _ \<Rightarrow> Inr (False, db)
             | None \<Rightarrow> Inr (True, append_row w t tb params db))"

text \<open>A plain \<open>INSERT\<close> fails on a violated constraint.\<close>

definition insert_into ::
  "space_env \<Rightarrow> write_ctx \<Rightarrow> string \<Rightarrow> (string \<times> sql_value) list \<Rightarrow> crdt_db \<Rightarrow> (string, crdt_db) result" where
  "insert_into env w t params db =
     and_then (open_table env db t (HLC_TIMESTAMP_COLUMN # map fst params))
       (\<lambda>tb. case insert_violation (se_sql env) t tb params of
               Some e \<Rightarrow> Inl e
             | None \<Rightarrow> Inr (append_row w t tb params db))"

definition delete_rows ::
  "space_env \<Rightarrow> write_ctx \<Rightarrow> string \<Rightarrow> string list \<Rightarrow> (row \<Rightarrow> bool) \<Rightarrow> crdt_db \<Rightarrow> (string, crdt_db) result" where
  "delete_rows env w t cs P db =
     and_then (open_table env db t cs)
       (\<lambda>tb.
          (let gone = filter P (rows tb);
               pks = map col_name (filter is_pk (schema tb));
               db1 = (if has_triggers tb
                      then fold (\<lambda>r. delete_trigger_db (se_sql env) t (wc_now w) (wc_delete_id w r) (wc_hlc w) pks
                             (\<lambda>r _. row_pk_json (se_sql env) (se_b64 env) (filter is_pk (schema tb)) r) r) gone db
                      else db)
           in Inr (case tables db1 t of
                     None \<Rightarrow> db1
                   | Some tb1 \<Rightarrow> set_table t (tb1\<lparr>rows := filter (\<lambda>r. \<not> P r) (rows tb1)\<rparr>) db1)))"

text \<open>\<open>INSERT OR REPLACE\<close> removes the rows that clash on the key \<open>id\<close> (delete triggers do not fire
  for a replaced row unless recursive triggers are on) and inserts.\<close>

definition insert_or_replace ::
  "space_env \<Rightarrow> write_ctx \<Rightarrow> string \<Rightarrow> (string \<times> sql_value) list \<Rightarrow> crdt_db \<Rightarrow> (string, crdt_db) result" where
  "insert_or_replace env w t params db =
     and_then (open_table env db t (HLC_TIMESTAMP_COLUMN # map fst params))
       (\<lambda>tb.
          (let tb1 = tb\<lparr>rows := filter (\<lambda>r. case map_of params ''id'' of
                 None \<Rightarrow> True | Some v \<Rightarrow> \<not> where_eq env (col env r ''id'') v) (rows tb)\<rparr>
           in case insert_violation (se_sql env) t tb1 params of
                Some e \<Rightarrow> Inl e
              | None \<Rightarrow> Inr (append_row w t tb1 params db)))"

definition update_rows ::
  "space_env \<Rightarrow> write_ctx \<Rightarrow> string \<Rightarrow> string list \<Rightarrow> (row \<Rightarrow> bool) \<Rightarrow> (string \<times> sql_value) list \<Rightarrow> crdt_db
    \<Rightarrow> (string, crdt_db) result" where
  "update_rows env w t cs P assigns db =
     and_then (open_table env db t (HLC_TIMESTAMP_COLUMN # map fst assigns @ cs))
       (\<lambda>tb.
          (let tracked = cols_to_track (schema tb);
               new = (\<lambda>r. r\<lparr>cells := cells r ++ map_of assigns, row_hlc := Some (wc_hlc w)\<rparr>);
               after = (\<lambda>r. if has_triggers tb then update_trigger_row (se_sql env) db tracked r (new r) else new r);
               db1 = set_table t (tb\<lparr>rows := map (\<lambda>r. if P r then after r else r) (rows tb)\<rparr>) db
           in case update_violation (se_sql env) t tb assigns of
                Some e \<Rightarrow> Inl e
              | None \<Rightarrow>
                  Inr (if has_triggers tb
                       then fold (\<lambda>r. update_trigger_db (se_sql env) t (wc_now w) tracked r (new r))
                              (filter P (rows tb)) db1
                       else db1)))"


section \<open>Effect on lookups\<close>

lemma open_table_Inr:
  "open_table env db t cs = Inr tb \<longleftrightarrow>
     se_db_fault env = None \<and> tables db t = Some tb \<and> (\<forall>c\<in>set cs. has_column c (schema tb))"
  by (auto simp: open_table_def table_rows_def filter_empty_conv split: option.splits list.splits
      dest: filter_eq_ConsD)

lemma mark_dirty_tables [simp]: "tables (mark_dirty t now db) = tables db"
  by (simp add: mark_dirty_def)

lemma insert_trigger_db_tables [simp]: "tables (insert_trigger_db t now r db) = tables db"
  by (simp add: insert_trigger_db_def)

lemma insert_trigger_row_cells [simp]: "cells (insert_trigger_row db tracked r) = cells r"
  by (simp add: insert_trigger_row_def split: option.splits)

lemma append_row_tables:
  "\<exists>r. cells r = map_of params \<and> tables (append_row w t tb params db) = (tables db)(t \<mapsto> tb\<lparr>rows := rows tb @ [r]\<rparr>)"
proof -
  let ?r0 = "\<lparr>cells = map_of params, row_hlc = Some (wc_hlc w), column_hlcs = Map.empty\<rparr>"
  show ?thesis
    by (rule exI [of _ "if has_triggers tb then insert_trigger_row db (cols_to_track (schema tb)) ?r0 else ?r0"])
      (simp add: append_row_def Let_def set_table_def)
qed

lemma insert_or_ignore_tables:
  assumes "insert_or_ignore env w t params db = Inr (b, db')"
  shows "\<exists>tb. tables db t = Some tb \<and>
    (if b then \<exists>r. cells r = map_of params \<and> tables db' = (tables db)(t \<mapsto> tb\<lparr>rows := rows tb @ [r]\<rparr>)
     else db' = db \<and> insert_violation (se_sql env) t tb params \<noteq> None)"
  using assms append_row_tables [of params w t _ db]
  by (auto simp: insert_or_ignore_def res_simps open_table_Inr split: option.splits)

lemma insert_into_tables:
  assumes "insert_into env w t params db = Inr db'"
  shows "\<exists>tb r. tables db t = Some tb \<and> cells r = map_of params
    \<and> tables db' = (tables db)(t \<mapsto> tb\<lparr>rows := rows tb @ [r]\<rparr>)"
  using assms append_row_tables [of params w t _ db]
  by (auto simp: insert_into_def res_simps open_table_Inr split: option.splits)

lemma update_trigger_row_cells [simp]: "cells (update_trigger_row e db tracked old new) = cells new"
  by (simp add: update_trigger_row_def split: option.splits)

lemma update_triggers_tables: "tables (fold (\<lambda>r. update_trigger_db e t now tracked r (f r)) rs db) = tables db"
  by (induction rs arbitrary: db) (simp_all add: update_trigger_db_def)

lemma update_rows_effect:
  assumes "update_rows env w t cs P assigns db = Inr db'"
  shows "\<exists>tb f. tables db t = Some tb \<and> (\<forall>r. cells (f r) = cells r ++ map_of assigns)
    \<and> tables db' = (tables db)(t \<mapsto> tb\<lparr>rows := map (\<lambda>r. if P r then f r else r) (rows tb)\<rparr>)"
proof -
  from assms obtain tb where tb: "tables db t = Some tb"
    by (auto simp: update_rows_def res_simps open_table_Inr)
  define f where "f = (\<lambda>r. let n = r\<lparr>cells := cells r ++ map_of assigns, row_hlc := Some (wc_hlc w)\<rparr>
    in if has_triggers tb then update_trigger_row (se_sql env) db (cols_to_track (schema tb)) r n else n)"
  have "tables db' = (tables db)(t \<mapsto> tb\<lparr>rows := map (\<lambda>r. if P r then f r else r) (rows tb)\<rparr>)"
    using assms tb
    by (auto simp: update_rows_def res_simps open_table_Inr Let_def set_table_def update_triggers_tables f_def
        cong: if_cong split: option.splits if_splits)
  moreover have "\<forall>r. cells (f r) = cells r ++ map_of assigns" by (simp add: f_def Let_def)
  ultimately show ?thesis using tb by blast
qed

lemma update_rows_tables:
  "update_rows env w t cs P assigns db = Inr db' \<Longrightarrow> t' \<noteq> t \<Longrightarrow> tables db' t' = tables db t'"
  using update_rows_effect [of env w t cs P assigns db db'] by auto

lemma delete_triggers_tables:
  "t' \<noteq> DELETED_ROWS_TABLE \<Longrightarrow> tables (fold (\<lambda>r. delete_trigger_db e t now (i r) h pks js r) rs db) t' = tables db t'"
  by (induction rs arbitrary: db) (simp_all add: delete_trigger_db_def set_table_def split: option.splits)

lemma delete_rows_effect:
  assumes "delete_rows env w t cs P db = Inr db'" "t \<noteq> DELETED_ROWS_TABLE"
  shows "\<exists>tb. tables db t = Some tb \<and> tables db' t = Some (tb\<lparr>rows := filter (\<lambda>r. \<not> P r) (rows tb)\<rparr>)"
  using assms
  by (auto simp: delete_rows_def res_simps open_table_Inr Let_def delete_triggers_tables set_table_def)

lemmas clock_names = HLC_TIMESTAMP_COLUMN_def COLUMN_HLCS_COLUMN_def

end
