(* ===== verification/InviteTokens.thy ===== *)
theory InviteTokens
  imports SpaceDb
begin

text \<open>
  Invite tokens of a space (\<open>space_delivery/local/invite_tokens.rs\<close>): creation, the check
  when an invite is claimed and the use counter, in memory and in the synced table
  \<open>haex_invite_tokens\<close>.

  Points in time are integers, in nanoseconds.  \<open>invite_env\<close> holds the RFC 3339 text of a time and its
  parser (the \<open>time\<close> crate) and the parser of a JSON array of strings (serde).  A poisoned
  clock mutex is \<open>None\<close> in place of the statement's write context.
\<close>

record invite_env =
  ie_format_time :: "int \<Rightarrow> string"
  ie_parse_time :: "string \<Rightarrow> int option"
  ie_parse_strings :: "string \<Rightarrow> string list option"

record local_invite_token =
  it_id :: string
  it_space_id :: string
  it_target_did :: "string option"
  it_pre_created_ucan :: "string option"
  it_capability :: string
  it_include_history :: bool
  it_max_uses :: "32 word"
  it_current_uses :: "32 word"
  it_expires_at :: int
  it_created_at :: int

definition is_valid :: "int \<Rightarrow> local_invite_token \<Rightarrow> bool" where
  "is_valid now t \<longleftrightarrow> it_current_uses t < it_max_uses t \<and> now < it_expires_at t"

definition can_claim :: "int \<Rightarrow> local_invite_token \<Rightarrow> string \<Rightarrow> bool" where
  "can_claim now t did \<longleftrightarrow>
     is_valid now t \<and> (case it_target_did t of None \<Rightarrow> True | Some target \<Rightarrow> target = did)"


section \<open>The table\<close>

fun json_as_i64 :: "json \<Rightarrow> int option" where
  "json_as_i64 (JInt i) = (if - (2 ^ 63) \<le> i \<and> i < 2 ^ 63 then Some i else None)"
| "json_as_i64 _ = None"

definition read_json :: "space_env \<Rightarrow> row \<Rightarrow> string \<Rightarrow> json" where
  "read_json env r c = convert_value_ref_to_json (se_b64 env) (col env r c)"

definition str_or :: "string \<Rightarrow> string option \<Rightarrow> string" where
  "str_or d s = (case s of None \<Rightarrow> d | Some x \<Rightarrow> x)"

definition INVITE_COLUMNS :: "string list" where
  "INVITE_COLUMNS = [''id'', ''space_id'', ''target_did'', ''capabilities'', ''pre_created_ucan'', ''include_history'',
     ''max_uses'', ''current_uses'', ''expires_at'', ''created_at'']"

text \<open>An unreadable time is the moment of the query.\<close>

definition token_of_row :: "space_env \<Rightarrow> invite_env \<Rightarrow> int \<Rightarrow> row \<Rightarrow> local_invite_token" where
  "token_of_row env ie now r =
     \<lparr>it_id = str_or [] (read_str env r ''id''),
      it_space_id = str_or [] (read_str env r ''space_id''),
      it_target_did = read_str env r ''target_did'',
      it_pre_created_ucan = read_str env r ''pre_created_ucan'',
      it_capability = (case ie_parse_strings ie (str_or ''[]'' (read_str env r ''capabilities'')) of
         Some (c # _) \<Rightarrow> c | _ \<Rightarrow> ''space/read''),
      it_include_history = (case json_as_i64 (read_json env r ''include_history'') of None \<Rightarrow> False | Some i \<Rightarrow> i \<noteq> 0),
      it_max_uses = (case json_as_u64 (read_json env r ''max_uses'') of None \<Rightarrow> 1 | Some n \<Rightarrow> ucast n),
      it_current_uses = (case json_as_u64 (read_json env r ''current_uses'') of None \<Rightarrow> 0 | Some n \<Rightarrow> ucast n),
      it_expires_at = (case ie_parse_time ie (str_or [] (read_str env r ''expires_at'')) of None \<Rightarrow> now | Some t \<Rightarrow> t),
      it_created_at = (case ie_parse_time ie (str_or [] (read_str env r ''created_at'')) of None \<Rightarrow> now | Some t \<Rightarrow> t)\<rparr>"

definition load_invite_tokens ::
  "space_env \<Rightarrow> invite_env \<Rightarrow> int \<Rightarrow> crdt_db \<Rightarrow> string \<Rightarrow> (delivery_error, local_invite_token list) result" where
  "load_invite_tokens env ie now db space_id =
     and_then (db_reason [] (table_rows env db ''haex_invite_tokens'' INVITE_COLUMNS))
       (\<lambda>rs. Inr (map (token_of_row env ie now)
          (filter (\<lambda>r. where_eq env (col env r ''space_id'') (SText space_id)) rs)))"

definition load_invite_token_by_id ::
  "space_env \<Rightarrow> invite_env \<Rightarrow> int \<Rightarrow> crdt_db \<Rightarrow> string \<Rightarrow> (delivery_error, local_invite_token option) result" where
  "load_invite_token_by_id env ie now db token_id =
     and_then (db_reason [] (table_rows env db ''haex_invite_tokens'' INVITE_COLUMNS))
       (\<lambda>rs. Inr (map_option (token_of_row env ie now)
          (first_row (filter (\<lambda>r. where_eq env (col env r ''id'') (SText token_id)) rs))))"

fun text_or_null :: "string option \<Rightarrow> sql_value" where
  "text_or_null None = SNull"
| "text_or_null (Some s) = SText s"

definition persist_invite_token ::
  "space_env \<Rightarrow> invite_env \<Rightarrow> write_ctx option \<Rightarrow> local_invite_token \<Rightarrow> crdt_db \<Rightarrow> (delivery_error, unit) result \<times> crdt_db" where
  "persist_invite_token env ie hlc t db =
     (case hlc of
        None \<Rightarrow> (Inl (Database ''Failed to lock HLC service''), db)
      | Some w \<Rightarrow>
          (case insert_or_replace env w ''haex_invite_tokens''
             [(''id'', SText (it_id t)),
              (''space_id'', SText (it_space_id t)),
              (''target_did'', text_or_null (it_target_did t)),
              (''capabilities'', SText ([CHR ''['', CHR 0x22] @ it_capability t @ [CHR 0x22, CHR '']''])),
              (''pre_created_ucan'', text_or_null (it_pre_created_ucan t)),
              (''include_history'', SInteger (if it_include_history t then 1 else 0)),
              (''max_uses'', SInteger (uint (it_max_uses t))),
              (''current_uses'', SInteger (uint (it_current_uses t))),
              (''expires_at'', SText (ie_format_time ie (it_expires_at t))),
              (''created_at'', SText (ie_format_time ie (it_created_at t)))] db of
             Inl e \<Rightarrow> (Inl (Database e), db)
           | Inr db' \<Rightarrow> (Inr (), db')))"

definition update_token_usage ::
  "space_env \<Rightarrow> write_ctx option \<Rightarrow> string \<Rightarrow> 32 word \<Rightarrow> crdt_db \<Rightarrow> (delivery_error, unit) result \<times> crdt_db" where
  "update_token_usage env hlc token_id current_uses db =
     (case hlc of
        None \<Rightarrow> (Inl (Database ''Failed to lock HLC service''), db)
      | Some w \<Rightarrow>
          (case update_rows env w ''haex_invite_tokens'' [''id'']
             (\<lambda>r. where_eq env (col env r ''id'') (SText token_id))
             [(''current_uses'', SInteger (uint current_uses))] db of
             Inl e \<Rightarrow> (Inl (Database e), db)
           | Inr db' \<Rightarrow> (Inr (), db')))"


section \<open>Creation\<close>

text \<open>\<open>expires_in_seconds\<close> is a \<open>u64\<close> cast to \<open>i64\<close>; the sum with the current time panics when it
  leaves the range of dates.\<close>

definition contact_token :: "int \<Rightarrow> string \<Rightarrow> string \<Rightarrow> string \<Rightarrow> string \<Rightarrow> 64 word \<Rightarrow> bool \<Rightarrow> string \<Rightarrow> local_invite_token" where
  "contact_token now new_id space_id target_did capability expires_in_seconds include_history pre_created_ucan =
     \<lparr>it_id = new_id, it_space_id = space_id, it_target_did = Some target_did,
      it_pre_created_ucan = Some pre_created_ucan, it_capability = capability,
      it_include_history = include_history, it_max_uses = 1, it_current_uses = 0,
      it_expires_at = now + sint expires_in_seconds * 1000000000, it_created_at = now\<rparr>"

definition create_contact_invite_token ::
  "space_env \<Rightarrow> invite_env \<Rightarrow> write_ctx option \<Rightarrow> int \<Rightarrow> string \<Rightarrow> string \<Rightarrow> string \<Rightarrow> string \<Rightarrow> 64 word \<Rightarrow> bool \<Rightarrow> string
    \<Rightarrow> crdt_db \<Rightarrow> local_invite_token list \<Rightarrow> (delivery_error, string) result \<times> crdt_db \<times> local_invite_token list" where
  "create_contact_invite_token env ie hlc now new_id space_id target_did capability expires_in_seconds
     include_history pre_created_ucan db tokens =
     (let t = contact_token now new_id space_id target_did capability expires_in_seconds include_history pre_created_ucan
      in case persist_invite_token env ie hlc t db of
           (Inl e, db1) \<Rightarrow> (Inl e, db1, tokens)
         | (Inr _, db1) \<Rightarrow> (Inr new_id, db1, tokens @ [t]))"

definition conference_token :: "int \<Rightarrow> string \<Rightarrow> string \<Rightarrow> string \<Rightarrow> 32 word \<Rightarrow> 64 word \<Rightarrow> bool \<Rightarrow> local_invite_token" where
  "conference_token now new_id space_id capability max_uses expires_in_seconds include_history =
     \<lparr>it_id = new_id, it_space_id = space_id, it_target_did = None, it_pre_created_ucan = None,
      it_capability = capability, it_include_history = include_history, it_max_uses = max_uses, it_current_uses = 0,
      it_expires_at = now + sint expires_in_seconds * 1000000000, it_created_at = now\<rparr>"

definition create_conference_invite_token ::
  "space_env \<Rightarrow> invite_env \<Rightarrow> write_ctx option \<Rightarrow> int \<Rightarrow> string \<Rightarrow> string \<Rightarrow> string \<Rightarrow> 32 word \<Rightarrow> 64 word \<Rightarrow> bool
    \<Rightarrow> crdt_db \<Rightarrow> local_invite_token list \<Rightarrow> (delivery_error, string) result \<times> crdt_db \<times> local_invite_token list" where
  "create_conference_invite_token env ie hlc now new_id space_id capability max_uses expires_in_seconds
     include_history db tokens =
     (let t = conference_token now new_id space_id capability max_uses expires_in_seconds include_history
      in case persist_invite_token env ie hlc t db of
           (Inl e, db1) \<Rightarrow> (Inl e, db1, tokens)
         | (Inr _, db1) \<Rightarrow> (Inr new_id, db1, tokens @ [t]))"


section \<open>Claims\<close>

definition find_token :: "string \<Rightarrow> local_invite_token list \<Rightarrow> local_invite_token option" where
  "find_token token_id tokens = find (\<lambda>t. it_id t = token_id) tokens"

definition fill_cache ::
  "space_env \<Rightarrow> invite_env \<Rightarrow> int \<Rightarrow> crdt_db \<Rightarrow> string \<Rightarrow> local_invite_token list \<Rightarrow> (delivery_error, local_invite_token list) result" where
  "fill_cache env ie now db token_id tokens =
     (if find_token token_id tokens \<noteq> None then Inr tokens
      else and_then (load_invite_token_by_id env ie now db token_id)
             (\<lambda>found. Inr (case found of None \<Rightarrow> tokens | Some t \<Rightarrow> tokens @ [t])))"

definition validate_invite ::
  "space_env \<Rightarrow> invite_env \<Rightarrow> int \<Rightarrow> crdt_db \<Rightarrow> string \<Rightarrow> string \<Rightarrow> local_invite_token list
    \<Rightarrow> (delivery_error, string \<times> string option) result \<times> local_invite_token list" where
  "validate_invite env ie now db token_id claimer_did tokens =
     (case fill_cache env ie now db token_id tokens of
        Inl e \<Rightarrow> (Inl e, tokens)
      | Inr tokens1 \<Rightarrow>
          ((case find_token token_id tokens1 of
              None \<Rightarrow> Inl (AccessDenied ''Invalid invite token'')
            | Some t \<Rightarrow>
                if \<not> can_claim now t claimer_did
                then Inl (AccessDenied (if \<not> is_valid now t then ''Invite token expired or exhausted''
                                        else ''This invite is not for your DID''))
                else Inr (it_capability t, it_pre_created_ucan t)),
           tokens1))"

fun bump :: "string \<Rightarrow> local_invite_token list \<Rightarrow> local_invite_token list" where
  "bump token_id [] = []"
| "bump token_id (t # ts) =
     (if it_id t = token_id then t\<lparr>it_current_uses := it_current_uses t + 1\<rparr> # ts else t # bump token_id ts)"

definition consume_invite ::
  "space_env \<Rightarrow> write_ctx option \<Rightarrow> string \<Rightarrow> crdt_db \<Rightarrow> local_invite_token list
    \<Rightarrow> (delivery_error, unit) result \<times> crdt_db \<times> local_invite_token list" where
  "consume_invite env hlc token_id db tokens =
     (case find_token token_id tokens of
        None \<Rightarrow> (Inl (AccessDenied ''Invalid invite token''), db, tokens)
      | Some t \<Rightarrow>
          (case update_token_usage env hlc token_id (it_current_uses t + 1) db of
             (r, db1) \<Rightarrow> (r, db1, bump token_id tokens)))"


section \<open>How often an invite can be used\<close>

lemma find_token_bump:
  "find_token i (bump j ts) =
     (if i = j then map_option (\<lambda>t. t\<lparr>it_current_uses := it_current_uses t + 1\<rparr>) (find_token i ts) else find_token i ts)"
  by (induction ts) (auto simp: find_token_def)

lemma fill_cache_present: "find_token i ts = Some t \<Longrightarrow> fill_cache env ie now db i ts = Inr ts"
  by (simp add: fill_cache_def)

lemma validate_invite_present:
  assumes "find_token i ts = Some t"
  shows "validate_invite env ie now db i did ts =
    (if can_claim now t did then Inr (it_capability t, it_pre_created_ucan t)
     else Inl (AccessDenied (if \<not> is_valid now t then ''Invite token expired or exhausted''
        else ''This invite is not for your DID'')), ts)"
  using assms by (simp add: validate_invite_def fill_cache_present)

lemma consume_invite_tokens:
  "find_token i ts = Some t \<Longrightarrow> snd (snd (consume_invite env hlc i db ts)) = bump i ts"
  by (simp add: consume_invite_def split: prod.splits)

text \<open>An attempt to claim: the time, the claimer and the write context of the use counter.
  Handled one after the other, a granted attempt is followed by its consumption before the
  next attempt is looked at.\<close>

type_synonym claim_attempt = "int \<times> string \<times> write_ctx option"

fun claims_in_turn ::
  "space_env \<Rightarrow> invite_env \<Rightarrow> string \<Rightarrow> claim_attempt list \<Rightarrow> crdt_db \<times> local_invite_token list
    \<Rightarrow> claim_attempt list" where
  "claims_in_turn env ie i [] st = []"
| "claims_in_turn env ie i ((now, did, hlc) # as) (db, ts) =
     (case validate_invite env ie now db i did ts of
        (Inl e, ts1) \<Rightarrow> claims_in_turn env ie i as (db, ts1)
      | (Inr _, ts1) \<Rightarrow>
          (now, did, hlc) # claims_in_turn env ie i as (snd (consume_invite env hlc i db ts1)))"

lemma claims_in_turn_bounded:
  assumes "find_token i ts = Some t"
  shows "length (claims_in_turn env ie i as (db, ts)) \<le> unat (it_max_uses t) - unat (it_current_uses t)
    \<and> (\<forall>(now, did, hlc)\<in>set (claims_in_turn env ie i as (db, ts)).
         now < it_expires_at t \<and> (\<forall>target. it_target_did t = Some target \<longrightarrow> did = target))"
  using assms
proof (induction as arbitrary: db ts t)
  case (Cons a as)
  obtain now did hlc where a: "a = (now, did, hlc)" by (cases a)
  show ?case
  proof (cases "can_claim now t did")
    case True
    let ?t = "t\<lparr>it_current_uses := it_current_uses t + 1\<rparr>"
    define rest where "rest = claims_in_turn env ie i as (snd (consume_invite env hlc i db ts))"
    have run: "claims_in_turn env ie i (a # as) (db, ts) = a # rest"
      using True by (simp add: a rest_def validate_invite_present [OF Cons.prems])
    have snd: "snd (snd (consume_invite env hlc i db ts)) = bump i ts"
      by (rule consume_invite_tokens [OF Cons.prems])
    have "find_token i (snd (snd (consume_invite env hlc i db ts))) = Some ?t"
      using Cons.prems by (simp add: snd find_token_bump)
    from Cons.IH [OF this, of "fst (snd (consume_invite env hlc i db ts))"]
    have ih: "length rest \<le> unat (it_max_uses t) - unat (it_current_uses t + 1)"
      "\<forall>(now, did, hlc)\<in>set rest. now < it_expires_at t \<and> (\<forall>target. it_target_did t = Some target \<longrightarrow> did = target)"
      by (auto simp: rest_def)
    have lt: "it_current_uses t < it_max_uses t" "now < it_expires_at t"
      "\<forall>target. it_target_did t = Some target \<longrightarrow> did = target"
      using True by (auto simp: can_claim_def is_valid_def)
    have u: "unat (it_current_uses t) < unat (it_max_uses t)" using lt(1) by (simp add: word_less_nat_alt)
    have "unat (it_max_uses t) < 2 ^ LENGTH(32)" by (rule unsigned_less)
    with u have "unat (it_current_uses t + 1) = unat (it_current_uses t) + 1"
      by (subst (asm) unat_add_lem [symmetric] | simp add: unat_word_ariths)+
    with u ih(1) have "length (a # rest) \<le> unat (it_max_uses t) - unat (it_current_uses t)" by simp
    moreover have "\<forall>(now, did, hlc)\<in>set (a # rest).
        now < it_expires_at t \<and> (\<forall>target. it_target_did t = Some target \<longrightarrow> did = target)"
      using ih(2) lt(2,3) by (simp add: a)
    ultimately show ?thesis unfolding run ..
  next
    case False
    then have "claims_in_turn env ie i (a # as) (db, ts) = claims_in_turn env ie i as (db, ts)"
      by (simp add: a validate_invite_present [OF Cons.prems])
    with Cons.IH [OF Cons.prems] show ?thesis by simp
  qed
qed simp


definition sample_invite_env :: invite_env where
  "sample_invite_env = \<lparr>ie_format_time = (\<lambda>i. ''t''), ie_parse_time = (\<lambda>s. None), ie_parse_strings = (\<lambda>s. None)\<rparr>"

definition sample_invite :: local_invite_token where
  "sample_invite = contact_token 0 ''tok'' ''s2'' ''carol'' ''space/write'' 100 True ''ucan''"


text \<open>Claims that run at the same time: each validates before the first consumes.\<close>

fun consume_all ::
  "space_env \<Rightarrow> string \<Rightarrow> write_ctx option list \<Rightarrow> crdt_db \<times> local_invite_token list \<Rightarrow> crdt_db \<times> local_invite_token list" where
  "consume_all env i [] st = st"
| "consume_all env i (w # ws) (db, ts) = consume_all env i ws (snd (consume_invite env w i db ts))"

lemma consume_all_uses:
  "find_token i ts = Some t \<Longrightarrow>
   \<exists>t'. find_token i (snd (consume_all env i ws (db, ts))) = Some t' \<and>
     it_current_uses t' = it_current_uses t + of_nat (length ws)"
proof (induction ws arbitrary: db ts t)
  case (Cons w ws)
  let ?t = "t\<lparr>it_current_uses := it_current_uses t + 1\<rparr>"
  have "find_token i (snd (snd (consume_invite env w i db ts))) = Some ?t"
    using Cons.prems by (simp add: consume_invite_tokens find_token_bump)
  from Cons.IH [OF this, of "fst (snd (consume_invite env w i db ts))"] show ?case
    by (simp add: algebra_simps)
qed simp

text \<open>The limit is not kept when claims overlap: \<open>validate_invite\<close> changes nothing, and
  \<open>consume_invite\<close> counts without looking at the limit again, so of a token with a single use
  left any number of claims by the invited DID that validate before the first is consumed are
  all granted, and the counter ends beyond \<open>max_uses\<close>.\<close>

theorem overlapping_claims_exceed_limit:
  assumes "find_token i ts = Some t" and "can_claim now t did"
  shows "(\<forall>n. validate_invite env ie now db i did ts = (Inr (it_capability t, it_pre_created_ucan t), ts)
     \<and> (\<exists>t'. find_token i (snd (consume_all env i (replicate n None) (db, ts))) = Some t'
          \<and> it_current_uses t' = it_current_uses t + of_nat n))"
  using validate_invite_present [OF assms(1), of env ie now db did] assms(2)
    consume_all_uses [OF assms(1), of env "replicate n None" db for n]
  by simp

theorem overlapping_claims_exceed_limit_witness:
  "\<exists>t'. find_token ''tok'' (snd (consume_all sample_space_env ''tok'' (replicate 2 None) (alice_space, [sample_invite]))) = Some t'
     \<and> it_current_uses t' = 2 \<and> it_max_uses sample_invite = 1"
proof -
  have f: "find_token ''tok'' [sample_invite] = Some sample_invite"
    by (simp add: find_token_def sample_invite_def contact_token_def)
  have c: "can_claim 5 sample_invite ''carol''"
    by (simp add: can_claim_def is_valid_def sample_invite_def contact_token_def)
  show ?thesis
    using overlapping_claims_exceed_limit [OF f c, of sample_space_env sample_invite_env alice_space, rule_format, of 2]
    by (simp add: sample_invite_def contact_token_def)
qed

end
