(* ===== verification/PushInvite.thy ===== *)
theory PushInvite
  imports InviteTokens
begin

text \<open>
  Invites pushed to this device (\<open>space_delivery/local/push_invite.rs\<close>): the inviter must be
  the DID the connection authenticated, the capabilities must be known, the space must not be
  active here, the invite policy must allow the inviter, and a token is stored once.

  The SHA-256 fingerprint of a token, the JSON text of a string list and whether the event
  reaches the frontend are arguments of the handler.
\<close>

record push_env =
  pe_fingerprint :: "string \<Rightarrow> string"
  pe_strings_json :: "string list \<Rightarrow> string"
  pe_emit_error :: "string option"
  pe_invite_id :: string
  pe_now_text :: string

definition VALID_CAPABILITIES :: "string list" where
  "VALID_CAPABILITIES = [''space/read'', ''space/write'', ''space/invite'']"

definition log_entry :: "string \<Rightarrow> string \<Rightarrow> string \<Rightarrow> log_call" where
  "log_entry level source message =
     \<lparr>lg_level = level, lg_source = source, lg_message = message, lg_subsystem = None\<rparr>"

text \<open>\<open>SELECT COUNT(*)\<close> with a fallback of zero when the query fails.\<close>

definition count_or_zero :: "space_env \<Rightarrow> crdt_db \<Rightarrow> string \<Rightarrow> string list \<Rightarrow> (row \<Rightarrow> bool) \<Rightarrow> nat" where
  "count_or_zero env db t cs P =
     (case table_rows env db t cs of Inl _ \<Rightarrow> 0 | Inr rs \<Rightarrow> length (filter P rs))"

definition check_invite_policy :: "space_env \<Rightarrow> crdt_db \<Rightarrow> string \<Rightarrow> bool" where
  "check_invite_policy env db inviter_did =
     (if 0 < count_or_zero env db ''haex_blocked_dids'' [''did''] (\<lambda>r. where_eq env (col env r ''did'') (SText inviter_did))
      then False
      else
        (let policy = (case table_rows env db ''haex_invite_policy'' [''policy'', ''id''] of
               Inl _ \<Rightarrow> ''all''
             | Inr rs \<Rightarrow>
                 str_or ''all'' (Option.bind
                   (first_row (filter (\<lambda>r. where_eq env (col env r ''id'') (SText ''default'')) rs))
                   (\<lambda>r. read_str env r ''policy'')))
         in if policy = ''nobody'' then False
            else if policy = ''contacts_only''
            then 0 < count_or_zero env db ''haex_identities'' [''did'', ''private_key'']
                   (\<lambda>r. where_eq env (col env r ''did'') (SText inviter_did) \<and> col env r ''private_key'' = SNull)
            else True))"

record push_invite =
  pi_space_id :: string
  pi_space_name :: string
  pi_space_type :: string
  pi_token_id :: string
  pi_capabilities :: "string list"
  pi_include_history :: bool
  pi_inviter_did :: string
  pi_inviter_label :: "string option"
  pi_inviter_avatar :: "string option"
  pi_inviter_avatar_options :: "string option"
  pi_space_endpoints :: "string list"
  pi_origin_url :: "string option"
  pi_inviter_relay_url :: "string option"

definition pending_invite_row :: "push_env \<Rightarrow> push_invite \<Rightarrow> (string \<times> sql_value) list" where
  "pending_invite_row pe p =
     [(''id'', SText (pe_invite_id pe)), (''space_id'', SText (pi_space_id p)), (''space_name'', SText (pi_space_name p)),
      (''space_type'', SText (pi_space_type p)), (''origin_url'', text_or_null (pi_origin_url p)),
      (''inviter_did'', SText (pi_inviter_did p)), (''inviter_label'', text_or_null (pi_inviter_label p)),
      (''inviter_avatar'', text_or_null (pi_inviter_avatar p)),
      (''inviter_avatar_options'', text_or_null (pi_inviter_avatar_options p)),
      (''inviter_relay_url'', text_or_null (pi_inviter_relay_url p)),
      (''capabilities'', SText (pe_strings_json pe (pi_capabilities p))),
      (''include_history'', SInteger (if pi_include_history p then 1 else 0)),
      (''token_id'', SText (pi_token_id p)), (''space_endpoints'', SText (pe_strings_json pe (pi_space_endpoints p))),
      (''status'', SText ''pending''), (''created_at'', SText (pe_now_text pe))]"

text \<open>Steps 5 and 6, under the clock lock: replace older pending invites of the same inviter and
  insert.  The failure of the delete is ignored.\<close>

definition store_pending_invite ::
  "space_env \<Rightarrow> push_env \<Rightarrow> write_ctx \<Rightarrow> write_ctx \<Rightarrow> push_invite \<Rightarrow> crdt_db \<Rightarrow> (string, bool) result \<times> crdt_db" where
  "store_pending_invite env pe w1 w2 p db =
     (let db1 = (case delete_rows env w1 ''haex_pending_invites'' [''space_id'', ''inviter_did'', ''status'']
                   (\<lambda>r. where_eq env (col env r ''space_id'') (SText (pi_space_id p))
                      \<and> where_eq env (col env r ''inviter_did'') (SText (pi_inviter_did p))
                      \<and> where_eq env (col env r ''status'') (SText ''pending'')) db of
                   Inl _ \<Rightarrow> db | Inr d \<Rightarrow> d)
      in case insert_or_ignore env w2 ''haex_pending_invites'' (pending_invite_row pe p) db1 of
           Inl e \<Rightarrow> (Inl e, db1)
         | Inr (inserted, db2) \<Rightarrow> (Inr inserted, db2))"

definition PUSH_SOURCE :: string where "PUSH_SOURCE = ''PushInvite''"

text \<open>Step 1: the first capability that is not known.\<close>

definition unknown_capability :: "string list \<Rightarrow> string option" where
  "unknown_capability capabilities = find (\<lambda>c. c \<notin> set VALID_CAPABILITIES) capabilities"

text \<open>Steps 4 to 6 with their log rows and the event for the frontend (the last component).\<close>

definition receive_invite ::
  "space_env \<Rightarrow> push_env \<Rightarrow> (write_ctx \<times> write_ctx) option \<Rightarrow> push_invite \<Rightarrow> crdt_db
    \<Rightarrow> response \<times> crdt_db \<times> log_call list \<times> bool" where
  "receive_invite env pe hlc p db =
     (let fp = pe_fingerprint pe (pi_token_id p); say = (\<lambda>lv m. log_entry lv PUSH_SOURCE m);
          about = (''(space='' @ pi_space_id p @ '', token='' @ fp @ '')'')
      in case hlc of
           None \<Rightarrow> (RPushInviteAck False, db, [], False)
         | Some (w1, w2) \<Rightarrow>
             if 0 < count_or_zero env db ''haex_pending_invites'' [''token_id'']
                      (\<lambda>r. where_eq env (col env r ''token_id'') (SText (pi_token_id p)))
             then (RPushInviteAck True, db,
                   [say ''info'' (''SKIPPED (duplicate token): space='' @ pi_space_id p @ '' token='' @ fp
                      @ '' '' @ [CHR 0xE2, CHR 0x80, CHR 0x94] @ '' already received'')], False)
             else
               (case store_pending_invite env pe w1 w2 p db of
                  (Inl e, db1) \<Rightarrow>
                    (RPushInviteAck False, db1,
                     [say ''error'' (''INSERT FAILED: pending invite '' @ pe_invite_id pe @ '' '' @ about @ '': '' @ e)], False)
                | (Inr False, db1) \<Rightarrow>
                    (RPushInviteAck False, db1,
                     [say ''warn'' (''INSERT IGNORED (duplicate id): pending invite '' @ pe_invite_id pe @ '' '' @ about)], False)
                | (Inr True, db1) \<Rightarrow>
                    (RPushInviteAck True, db1,
                     [say ''info'' (''INSERT OK: pending invite '' @ pe_invite_id pe @ '' '' @ about),
                      say ''info'' (''Invite processing complete for '' @ pe_invite_id pe @ '' in space '' @ pi_space_id p),
                      (case pe_emit_error pe of
                         None \<Rightarrow> say ''info'' (''Emitted push-invite-received for invite '' @ pe_invite_id pe
                                   @ '' (space='' @ pi_space_id p @ '')'')
                       | Some e \<Rightarrow> say ''error'' (''FAILED to emit push-invite-received for invite ''
                                   @ pe_invite_id pe @ '': '' @ e))],
                     pe_emit_error pe = None)))"

definition handle_push_invite ::
  "space_env \<Rightarrow> push_env \<Rightarrow> (write_ctx \<times> write_ctx) option \<Rightarrow> push_invite \<Rightarrow> string \<Rightarrow> crdt_db
    \<Rightarrow> response \<times> crdt_db \<times> log_call list \<times> bool" where
  "handle_push_invite env pe hlc p verified_did db =
     (let fp = pe_fingerprint pe (pi_token_id p);
          say = (\<lambda>lv m. log_entry lv PUSH_SOURCE m);
          received = say ''info'' (''Received invite for space '' @ pi_space_id p @ '' ('' @ pi_space_name p @ '') from ''
             @ pi_inviter_did p @ '', token='' @ fp)
      in if pi_inviter_did p \<noteq> verified_did
         then (RError ''Inviter DID does not match the authenticated peer DID'', db,
               [received, say ''warn'' (''REJECTED: inviter_did spoofed (payload='' @ take 24 (pi_inviter_did p)
                  @ '' verified='' @ take 24 verified_did @ '')'')], False)
         else if pi_capabilities p = []
         then (RError ''Invite has no capabilities'', db, [received, say ''warn'' ''REJECTED: no capabilities''], False)
         else
           (case unknown_capability (pi_capabilities p) of
              Some cap \<Rightarrow>
                (RError (''Unknown capability: '' @ cap), db,
                 [received, say ''warn'' (''REJECTED: unknown capability '' @ cap)], False)
            | None \<Rightarrow>
                if 0 < count_or_zero env db ''haex_spaces'' [''id'', ''status'']
                         (\<lambda>r. where_eq env (col env r ''id'') (SText (pi_space_id p))
                            \<and> where_eq env (col env r ''status'') (SText ''active''))
                then (RPushInviteAck True, db,
                      [received, say ''info'' (''SKIPPED: space '' @ pi_space_id p @ '' already active on this device'')], False)
                else if \<not> check_invite_policy env db (pi_inviter_did p)
                then (RPushInviteAck False, db,
                      [received, say ''warn'' (''REJECTED: invite policy blocked inviter '' @ pi_inviter_did p)], False)
                else
                  (case receive_invite env pe hlc p db of
                     (r, db1, logs, emitted) \<Rightarrow> (r, db1, received # logs, emitted))))"


section \<open>What a stored invite satisfies\<close>

lemma count_or_zero_pos:
  "0 < count_or_zero env db t cs P \<longleftrightarrow> (\<exists>rs r. table_has env db t cs rs \<and> r \<in> set rs \<and> P r)"
  by (auto simp: count_or_zero_def table_rows_Inr [symmetric] filter_empty_conv split: sum.splits)

lemma unknown_capability_None: "unknown_capability cs = None \<longleftrightarrow> set cs \<subseteq> set VALID_CAPABILITIES"
  by (auto simp: unknown_capability_def find_None_iff)

lemma handle_push_invite_checked:
  assumes "handle_push_invite env pe hlc p did db = (r, db', logs, emitted)" and "db' \<noteq> db \<or> emitted"
  shows "pi_inviter_did p = did \<and> pi_capabilities p \<noteq> [] \<and> set (pi_capabilities p) \<subseteq> set VALID_CAPABILITIES
    \<and> count_or_zero env db ''haex_spaces'' [''id'', ''status'']
         (\<lambda>r. where_eq env (col env r ''id'') (SText (pi_space_id p))
            \<and> where_eq env (col env r ''status'') (SText ''active'')) = 0
    \<and> check_invite_policy env db did
    \<and> (\<exists>logs'. receive_invite env pe hlc p db = (r, db', logs', emitted))"
  using assms unfolding handle_push_invite_def Let_def unknown_capability_None [symmetric]
  by (auto split: if_splits option.splits prod.splits)

lemma receive_invite_checked:
  assumes "receive_invite env pe hlc p db = (r, db', logs, emitted)" and "db' \<noteq> db \<or> emitted"
  shows "\<exists>w1 w2. hlc = Some (w1, w2)
    \<and> count_or_zero env db ''haex_pending_invites'' [''token_id'']
        (\<lambda>r. where_eq env (col env r ''token_id'') (SText (pi_token_id p))) = 0
    \<and> snd (store_pending_invite env pe w1 w2 p db) = db'
    \<and> (emitted \<longrightarrow> r = RPushInviteAck True \<and> fst (store_pending_invite env pe w1 w2 p db) = Inr True)"
  using assms unfolding receive_invite_def Let_def
  by (auto split: if_splits option.splits prod.splits sum.splits bool.splits)

lemma stored_invite_row:
  assumes "store_pending_invite env pe w1 w2 p db = (Inr True, db')"
  shows "\<exists>tb r. tables db' ''haex_pending_invites'' = Some tb \<and> r \<in> set (rows tb)
    \<and> cells r = map_of (pending_invite_row pe p)"
proof -
  obtain db1 where "insert_or_ignore env w2 ''haex_pending_invites'' (pending_invite_row pe p) db1 = Inr (True, db')"
    using assms by (auto simp: store_pending_invite_def Let_def split: sum.splits)
  from insert_or_ignore_tables [OF this] show ?thesis by auto
qed


definition sample_push_env :: push_env where
  "sample_push_env = \<lparr>pe_fingerprint = (\<lambda>s. ''fp''), pe_strings_json = (\<lambda>ss. ''[]''), pe_emit_error = None,
     pe_invite_id = ''inv1'', pe_now_text = ''t''\<rparr>"

definition sample_push :: push_invite where
  "sample_push = \<lparr>pi_space_id = ''s9'', pi_space_name = ''n'', pi_space_type = ''local'', pi_token_id = ''tok'',
     pi_capabilities = [''space/read''], pi_include_history = True, pi_inviter_did = ''bob'', pi_inviter_label = None,
     pi_inviter_avatar = None, pi_inviter_avatar_options = None, pi_space_endpoints = [], pi_origin_url = None,
     pi_inviter_relay_url = None\<rparr>"

definition sample_ctx :: write_ctx where
  "sample_ctx = \<lparr>wc_hlc = ''9/1'', wc_now = ''t'', wc_delete_id = (\<lambda>r. ''d'')\<rparr>"

definition invitee_db :: crdt_db where
  "invitee_db = sample_crdt_db\<lparr>tables := [''haex_pending_invites'' \<mapsto>
     plain_table (map fst (tl (pending_invite_row sample_push_env sample_push))) []]\<rparr>"


end
