(* ===== verification/Leader.thy ===== *)
theory Leader
  imports CrdtApply InboundSync DeliveryBuffer PushInvite
begin

text \<open>
  The leader of a space (\<open>space_delivery/local/leader.rs\<close>): its state, the claim of an invite,
  and the dispatcher that runs every request of a peer behind the authorisation gate.

  What one request draws from outside is a \<open>leader_io\<close>: the clocks, random ids, the
  contexts of its database statements, JSON of a change list, the outcome of reloading the
  peer list, and the MLS group operations, which act on an abstract group state \<open>'m\<close>.
  A poisoned clock mutex is \<open>io_poison\<close>.  Notifications and frontend events are recorded in
  the order they are sent; sending is best effort.
\<close>

datatype notification =
    NSync string "string list"
  | NMls string string
  | NInvite string string
  | NLeaderStopping

record 'm mls_api =
  mls_add_member :: "'m \<Rightarrow> string \<Rightarrow> bytes \<Rightarrow> (string, bytes \<times> bytes option) result \<times> 'm"
  mls_group_info :: "'m \<Rightarrow> string \<Rightarrow> (string, bytes) result"
  mls_process_message :: "'m \<Rightarrow> string \<Rightarrow> bytes \<Rightarrow> (string, unit) result \<times> 'm"

record ('m, 'h, 'ts) leader_io =
  io_env :: space_env
  io_invite :: invite_env
  io_push :: push_env
  io_mls :: "'m mls_api"
  io_uhlc :: "('h, 'ts) uhlc_api"
  io_iter :: hash_order
  io_now :: "(string, 64 word) result"
  io_time :: int
  io_now_text :: string
  io_created :: string
  io_random :: bytes
  io_uuid :: "nat \<Rightarrow> string"
  io_ctx :: "nat \<Rightarrow> write_ctx"
  io_poison :: "string option"
  io_parse_changes :: "json \<Rightarrow> (string, local_column_change list) result"
  io_changes_json :: "local_column_change list \<Rightarrow> (string, json) result"
  io_reason_text :: "reject_reason \<Rightarrow> string"
  io_db_error_text :: "db_error \<Rightarrow> string"
  io_reload_error :: "string option"

record ('m, 'h) leader_state =
  ls_space_id :: string
  ls_db :: crdt_db
  ls_buffer :: delivery_buffer
  ls_peers :: "string \<rightharpoonup> connected_peer"
  ls_senders :: "string list"
  ls_tokens :: "local_invite_token list"
  ls_mls :: 'm
  ls_hlc :: "'h hlc_service"
  ls_sent :: "(string \<times> notification) list"
  ls_logs :: "log_call list"
  ls_events :: "(string \<times> string list) list"

definition TARGET_KEY_PACKAGES_PER_PEER :: nat where "TARGET_KEY_PACKAGES_PER_PEER = 10"

definition base64_decode :: "space_env \<Rightarrow> string \<Rightarrow> (string, bytes) result" where
  "base64_decode env s =
     (case b64_decode (se_ucan env) s of Inl e \<Rightarrow> Inl (''base64 decode error: '' @ e) | Inr b \<Rightarrow> Inr b)"

definition add_log :: "string \<Rightarrow> string \<Rightarrow> string \<Rightarrow> ('m, 'h) leader_state \<Rightarrow> ('m, 'h) leader_state" where
  "add_log level source message st = st\<lparr>ls_logs := ls_logs st @ [log_entry level source message]\<rparr>"

definition require_valid_ucan ::
  "space_env \<Rightarrow> (string, 64 word) result \<Rightarrow> string \<Rightarrow> (response, validated_ucan) result" where
  "require_valid_ucan env now ucan_token =
     (case validate_token (se_ucan env) now ucan_token of
        Inl e \<Rightarrow> Inl (RError (''UCAN validation failed: '' @ display_ucan_error e))
      | Inr v \<Rightarrow> Inr v)"

definition require_ucan_capability ::
  "space_env \<Rightarrow> crdt_db \<Rightarrow> validated_ucan \<Rightarrow> string \<Rightarrow> capability_level \<Rightarrow> string \<Rightarrow> (response, unit) result" where
  "require_ucan_capability env db validated space_id required peer_did =
     (case require_audience validated peer_did of
        Inl e \<Rightarrow> Inl (RError (''Access denied: '' @ display_ucan_error e))
      | Inr _ \<Rightarrow>
          (case require_capability validated space_id required of
             Inl e \<Rightarrow> Inl (RError (''Access denied: '' @ display_ucan_error e))
           | Inr _ \<Rightarrow>
               (case is_active_space_member env db space_id (vu_audience validated) of
                  Inr True \<Rightarrow> Inr ()
                | Inr False \<Rightarrow> Inl (RError ''Access denied: not an active member of this space'')
                | Inl e \<Rightarrow> Inl (RError (''Membership check failed: '' @ display_delivery_error e)))))"

definition notify_all_mls :: "string \<Rightarrow> string \<Rightarrow> ('m, 'h) leader_state \<Rightarrow> ('m, 'h) leader_state" where
  "notify_all_mls space_id message_type st =
     st\<lparr>ls_sent := ls_sent st @ map (\<lambda>ep. (ep, NMls space_id message_type)) (ls_senders st)\<rparr>"

definition notify_others_sync ::
  "string \<Rightarrow> string list \<Rightarrow> string \<Rightarrow> ('m, 'h) leader_state \<Rightarrow> ('m, 'h) leader_state" where
  "notify_others_sync space_id tbls exclude_endpoint st =
     st\<lparr>ls_sent := ls_sent st @
       map (\<lambda>ep. (ep, NSync space_id tbls)) (filter (\<lambda>ep. ep \<noteq> exclude_endpoint) (ls_senders st))\<rparr>"

text \<open>The members that must acknowledge a commit; none when the lookup fails.\<close>

definition member_dids_or_none :: "space_env \<Rightarrow> crdt_db \<Rightarrow> string \<Rightarrow> string list" where
  "member_dids_or_none env db space_id =
     (case get_space_member_dids env db space_id of Inl _ \<Rightarrow> [] | Inr ds \<Rightarrow> ds)"

definition track_commit ::
  "space_env \<Rightarrow> string \<Rightarrow> string \<Rightarrow> int \<Rightarrow> string list \<Rightarrow> delivery_buffer \<Rightarrow> delivery_buffer" where
  "track_commit env new_id space_id message_id expected b =
     (if expected = [] then b else snd (store_pending_commit env new_id space_id message_id expected b))"

text \<open>Stores the packages that decode; the ids come from \<open>k\<close> on.\<close>

fun store_packages ::
  "space_env \<Rightarrow> string \<Rightarrow> (nat \<Rightarrow> string) \<Rightarrow> nat \<Rightarrow> string \<Rightarrow> string \<Rightarrow> string list \<Rightarrow> delivery_buffer \<Rightarrow> delivery_buffer" where
  "store_packages env created ids k space_id did [] b = b"
| "store_packages env created ids k space_id did (p # ps) b =
     store_packages env created ids (Suc k) space_id did ps
       (case base64_decode env p of
          Inl _ \<Rightarrow> b
        | Inr blob \<Rightarrow> snd (store_key_package env created (ids k) space_id did blob b))"


section \<open>Claiming an invite\<close>

definition load_existing_claim ::
  "space_env \<Rightarrow> crdt_db \<Rightarrow> string \<Rightarrow> string \<Rightarrow> (string \<times> string) option" where
  "load_existing_claim env db space_id claimer_did =
     (case table_rows env db ''haex_ucan_tokens''
        [''capability'', ''token'', ''space_id'', ''audience_did'', ''issued_at''] of
        Inl _ \<Rightarrow> None
      | Inr rs \<Rightarrow>
          Option.bind
            (first_row (order_by_desc env ''issued_at''
               (filter (\<lambda>r. where_eq env (col env r ''space_id'') (SText space_id)
                  \<and> where_eq env (col env r ''audience_did'') (SText claimer_did)) rs)))
            (\<lambda>r. Option.bind (read_str env r ''capability'')
               (\<lambda>c. Option.bind (read_str env r ''token'') (\<lambda>u. Some (c, u)))))"

text \<open>Steps 2 and 3: the capability and the token, from the earlier claim, from the invite, or
  minted now.\<close>

definition resolve_claim ::
  "('m, 'h, 'ts) leader_io \<Rightarrow> string \<Rightarrow> string \<Rightarrow> string \<Rightarrow> ('m, 'h) leader_state
    \<Rightarrow> (response, string \<times> string) result \<times> local_invite_token list" where
  "resolve_claim io space_id token did st =
     (case load_existing_claim (io_env io) (ls_db st) space_id did of
        Some claim \<Rightarrow> (Inr claim, ls_tokens st)
      | None \<Rightarrow>
          (case validate_invite (io_env io) (io_invite io) (io_time io) (ls_db st) token did (ls_tokens st) of
             (Inl e, ts) \<Rightarrow> (Inl (RError (display_delivery_error e)), ts)
           | (Inr (capability, Some ucan), ts) \<Rightarrow> (Inr (capability, ucan), ts)
           | (Inr (capability, None), ts) \<Rightarrow>
               (case load_admin_identity (io_env io) (ls_db st) space_id of
                  Inl e \<Rightarrow> (Inl (RError (''Failed to load admin identity: '' @ display_delivery_error e)), ts)
                | Inr admin \<Rightarrow>
                    (case create_delegated_ucan (se_ucan (io_env io)) (io_now io) (io_random io) (ai_did admin)
                       (ai_private_key_base64 admin) did space_id capability (Some (ai_root_ucan admin))
                       MEMBER_UCAN_EXPIRES_IN_SECONDS of
                       Inl e \<Rightarrow> (Inl (RError (''Failed to create UCAN: '' @
                          (case e of InvalidKey m \<Rightarrow> ''Invalid private key: '' @ m
                           | Serialization m \<Rightarrow> ''Serialization error: '' @ m
                           | ClockError m \<Rightarrow> ''Clock error: '' @ m))), ts)
                     | Inr ucan \<Rightarrow> (Inr (capability, ucan), ts)))))"

definition persist_admin_ucan ::
  "('m, 'h, 'ts) leader_io \<Rightarrow> string \<Rightarrow> string \<Rightarrow> string \<Rightarrow> string \<Rightarrow> crdt_db \<Rightarrow> crdt_db" where
  "persist_admin_ucan io space_id audience_did capability ucan_token db =
     (if load_existing_claim (io_env io) db space_id audience_did \<noteq> None then db
      else case load_admin_identity (io_env io) db space_id of
        Inl _ \<Rightarrow> db
      | Inr admin \<Rightarrow>
          if io_poison io \<noteq> None then db
          else
            (case insert_or_ignore (io_env io) (io_ctx io 0) ''haex_ucan_tokens''
               [(''id'', SText (io_uuid io 0)), (''space_id'', SText space_id), (''issuer_did'', SText (ai_did admin)),
                (''audience_did'', SText audience_did), (''capability'', SText capability), (''token'', SText ucan_token),
                (''issued_at'', SInteger (now_secs_or_zero (io_now io))),
                (''expires_at'', SInteger (now_secs_or_zero (io_now io) + uint MEMBER_UCAN_EXPIRES_IN_SECONDS))] db of
               Inl _ \<Rightarrow> db
             | Inr (_, db1) \<Rightarrow> db1))"

text \<open>Step 12: the identity of the new member, then its membership row, selected by DID.\<close>

fun insert_members ::
  "space_env \<Rightarrow> write_ctx \<Rightarrow> (string \<times> sql_value) list \<Rightarrow> row list \<Rightarrow> crdt_db \<Rightarrow> (string, crdt_db) result" where
  "insert_members env w common [] db = Inr db"
| "insert_members env w common (i # is) db =
     and_then (insert_or_ignore env w ''haex_space_members'' (common @ [(''identity_id'', col env i ''id'')]) db)
       (\<lambda>(_, db1). insert_members env w common is db1)"

definition persist_member ::
  "('m, 'h, 'ts) leader_io \<Rightarrow> string \<Rightarrow> string \<Rightarrow> string \<Rightarrow> string option \<Rightarrow> crdt_db
    \<Rightarrow> (response, unit) result \<times> crdt_db" where
  "persist_member io space_id did capability member_label db =
     (case io_poison io of
        Some e \<Rightarrow> (Inl (RError (''Failed to persist new member: '' @ e)), db)
      | None \<Rightarrow>
          (case insert_or_ignore (io_env io) (io_ctx io 1) ''haex_identities''
             [(''id'', SText (io_uuid io 1)), (''did'', SText did),
              (''name'', SText (str_or (take 16 did) member_label)), (''source'', SText ''contact'')] db of
             Inl e \<Rightarrow> (Inl (RError (''Failed to persist member identity: '' @ e)), db)
           | Inr (_, db1) \<Rightarrow>
               (case and_then (open_table (io_env io) db1 ''haex_space_members''
                    [HLC_TIMESTAMP_COLUMN, ''id'', ''space_id'', ''identity_id'', ''role'', ''joined_at''])
                  (\<lambda>_. and_then (table_rows (io_env io) db1 ''haex_identities'' [''id'', ''did''])
                    (\<lambda>ids. insert_members (io_env io) (io_ctx io 2)
                       [(''id'', SText (io_uuid io 2)), (''space_id'', SText space_id), (''role'', SText capability),
                        (''joined_at'', SText (io_now_text io))]
                       (filter (\<lambda>i. where_eq (io_env io) (col (io_env io) i ''did'') (SText did)) ids) db1)) of
                  Inl e \<Rightarrow> (Inl (RError (''Failed to persist space member: '' @ e)), db1)
                | Inr db2 \<Rightarrow> (Inr (), db2))))"

text \<open>Step 7: the commit goes into the buffer for the other members.\<close>

definition store_claim_commit ::
  "('m, 'h, 'ts) leader_io \<Rightarrow> string \<Rightarrow> string \<Rightarrow> bytes \<Rightarrow> ('m, 'h) leader_state \<Rightarrow> ('m, 'h) leader_state" where
  "store_claim_commit io space_id did commit st =
     (if commit = [] then st
      else
        (case store_message (io_env io) (io_created io) space_id did ''commit'' commit (ls_buffer st) of
           (Inl _, b) \<Rightarrow> notify_all_mls space_id ''commit'' (st\<lparr>ls_buffer := b\<rparr>)
         | (Inr msg, b) \<Rightarrow>
             notify_all_mls space_id ''commit''
               (st\<lparr>ls_buffer := (if 0 < msg
                  then track_commit (io_env io) (io_uuid io 3) space_id msg
                         (filter (\<lambda>d. d \<noteq> did) (member_dids_or_none (io_env io) (ls_db st) space_id)) b
                  else b)\<rparr>)))"

text \<open>Steps 9 to 14, once there is a welcome.\<close>

definition finish_claim ::
  "('m, 'h, 'ts) leader_io \<Rightarrow> string \<Rightarrow> string \<Rightarrow> string \<Rightarrow> string \<Rightarrow> string option \<Rightarrow> bool \<Rightarrow> string \<Rightarrow> string \<Rightarrow> bytes
    \<Rightarrow> ('m, 'h) leader_state \<Rightarrow> response \<times> ('m, 'h) leader_state" where
  "finish_claim io space_id token endpoint_id did label is_retry capability ucan_token welcome_blob st =
     (let env = io_env io;
          b1 = snd (clear_welcomes_for_did env space_id did (ls_buffer st));
          b2 = snd (store_welcome env (io_created io) (io_uuid io 4) space_id did welcome_blob b1);
          db1 = persist_admin_ucan io space_id did capability ucan_token (ls_db st);
          peer = \<lparr>cp_endpoint_id = endpoint_id, cp_did = did, cp_label = label, cp_claims = [],
                  cp_connected_at = io_now_text io, cp_validated_ucan = None\<rparr>;
          st1 = st\<lparr>ls_buffer := b2, ls_db := db1, ls_peers := (ls_peers st)(endpoint_id \<mapsto> peer)\<rparr>
      in case persist_member io space_id did capability label db1 of
           (Inl r, db2) \<Rightarrow> (r, st1\<lparr>ls_db := db2\<rparr>)
         | (Inr _, db2) \<Rightarrow>
             (let (db3, ts) = (if is_retry then (db2, ls_tokens st1)
                               else snd (consume_invite env (if io_poison io = None then Some (io_ctx io 3) else None)
                                           token db2 (ls_tokens st1)))
              in (RInviteClaimed (se_b64 env welcome_blob) ucan_token capability,
                  st1\<lparr>ls_db := db3, ls_tokens := ts\<rparr>)))"

definition handle_claim_invite ::
  "('m, 'h, 'ts) leader_io \<Rightarrow> string \<Rightarrow> string \<Rightarrow> string \<Rightarrow> string list \<Rightarrow> string option \<Rightarrow> string
    \<Rightarrow> ('m, 'h) leader_state \<Rightarrow> response \<times> ('m, 'h) leader_state" where
  "handle_claim_invite io space_id token endpoint_id key_packages_b64 label did st =
     (let env = io_env io;
          is_retry = (load_existing_claim env (ls_db st) space_id did \<noteq> None)
      in case resolve_claim io space_id token did st of
           (Inl r, ts) \<Rightarrow> (r, st\<lparr>ls_tokens := ts\<rparr>)
         | (Inr (capability, ucan_token), ts) \<Rightarrow>
             (let b1 = snd (clear_key_packages_for_did env space_id did (ls_buffer st));
                  b2 = store_packages env (io_created io) (io_uuid io) 10 space_id did key_packages_b64 b1;
                  st1 = st\<lparr>ls_tokens := ts\<rparr>
              in case consume_key_package env space_id did b2 of
                   (Inl e, b3) \<Rightarrow> (RError (''Key package error: '' @ display_delivery_error e), st1\<lparr>ls_buffer := b3\<rparr>)
                 | (Inr None, b3) \<Rightarrow> (RError ''No key package available after upload'', st1\<lparr>ls_buffer := b3\<rparr>)
                 | (Inr (Some blob), b3) \<Rightarrow>
                     (case mls_add_member (io_mls io) (ls_mls st) space_id blob of
                        (Inl e, m) \<Rightarrow>
                          (RError (''MLS add_member failed: '' @ e), st1\<lparr>ls_buffer := b3, ls_mls := m\<rparr>)
                      | (Inr (commit, welcome), m) \<Rightarrow>
                          (let st2 = store_claim_commit io space_id did commit (st1\<lparr>ls_buffer := b3, ls_mls := m\<rparr>)
                           in case welcome of
                                None \<Rightarrow> (RError ''MLS add_member produced no welcome'', st2)
                              | Some w \<Rightarrow>
                                  finish_claim io space_id token endpoint_id did label is_retry capability ucan_token w st2))))"


section \<open>Requests\<close>

text \<open>Log lines show the first 8 bytes of a space id and 24 of a DID; the debug-formatted cursor and
  per-table counts at the end of the \<open>SyncPull\<close> line are left out.\<close>

definition announce_claims :: "identity_claim list option \<Rightarrow> identity_claim list" where
  "announce_claims claims = (case claims of None \<Rightarrow> [] | Some cs \<Rightarrow> cs)"

definition accept_announce ::
  "('m, 'h, 'ts) leader_io \<Rightarrow> string \<Rightarrow> string option \<Rightarrow> identity_claim list option \<Rightarrow> string \<Rightarrow> validated_ucan
    \<Rightarrow> ('m, 'h) leader_state \<Rightarrow> ('m, 'h) leader_state" where
  "accept_announce io endpoint_id label claims did validated st =
     (let peer = \<lparr>cp_endpoint_id = endpoint_id, cp_did = did, cp_label = label, cp_claims = announce_claims claims,
                  cp_connected_at = io_now_text io, cp_validated_ucan = Some validated\<rparr>;
          st1 = st\<lparr>ls_peers := (ls_peers st)(endpoint_id \<mapsto> peer)\<rparr>;
          unacked = (case get_unacked_message_ids_for_member (io_env io) (ls_space_id st) did (ls_buffer st) of
                       Inl _ \<Rightarrow> [] | Inr ms \<Rightarrow> ms)
      in if unacked \<noteq> [] \<and> endpoint_id \<in> set (ls_senders st)
         then st1\<lparr>ls_sent := ls_sent st1 @ [(endpoint_id, NMls (ls_space_id st) ''commit'')]\<rparr>
         else st1)"

definition handle_announce ::
  "('m, 'h, 'ts) leader_io \<Rightarrow> string \<Rightarrow> string \<Rightarrow> string option \<Rightarrow> identity_claim list option \<Rightarrow> string option
    \<Rightarrow> string \<Rightarrow> string \<Rightarrow> ('m, 'h) leader_state \<Rightarrow> response \<times> ('m, 'h) leader_state" where
  "handle_announce io endpoint_id space_id label claims ucan_token peer_endpoint_id did st =
     (let sp = take 8 space_id; dd = take 24 did;
          st1 = add_log ''info'' ''Announce''
                  (''received: space='' @ sp @ '' did='' @ dd @ '' peer='' @ peer_endpoint_id) st
      in case ucan_token of
           None \<Rightarrow> (RError ''Announce requires ucan_token'',
                     add_log ''warn'' ''Announce'' (''missing ucan_token: space='' @ sp @ '' did='' @ dd) st1)
         | Some tok \<Rightarrow>
             (case require_valid_ucan (io_env io) (io_now io) tok of
                Inl r \<Rightarrow> (r, add_log ''warn'' ''Announce'' (''UCAN validation failed: space='' @ sp @ '' did='' @ dd) st1)
              | Inr validated \<Rightarrow>
                  (case require_ucan_capability (io_env io) (ls_db st) validated space_id CapRead did of
                     Inl r \<Rightarrow>
                       (r, add_log ''warn'' ''Announce''
                             (''capability/membership rejected: space='' @ sp @ '' audience='' @ take 24 (vu_audience validated)) st1)
                   | Inr _ \<Rightarrow>
                       (ROk, accept_announce io endpoint_id label claims did validated
                          (add_log ''info'' ''Announce''
                             (''accepted: space='' @ sp @ '' audience='' @ take 24 (vu_audience validated)) st1)))))"

definition handle_upload_key_packages ::
  "('m, 'h, 'ts) leader_io \<Rightarrow> string \<Rightarrow> string list \<Rightarrow> string \<Rightarrow> ('m, 'h) leader_state \<Rightarrow> response \<times> ('m, 'h) leader_state" where
  "handle_upload_key_packages io space_id packages did st =
     (let b = store_packages (io_env io) (io_created io) (io_uuid io) 0 space_id did packages (ls_buffer st)
      in (ROk, st\<lparr>ls_buffer := snd (trim_key_packages (io_env io) space_id did TARGET_KEY_PACKAGES_PER_PEER b)\<rparr>))"

definition handle_fetch_key_package ::
  "('m, 'h, 'ts) leader_io \<Rightarrow> string \<Rightarrow> string \<Rightarrow> ('m, 'h) leader_state \<Rightarrow> response \<times> ('m, 'h) leader_state" where
  "handle_fetch_key_package io space_id target_did st =
     (case consume_key_package (io_env io) space_id target_did (ls_buffer st) of
        (Inr (Some blob), b) \<Rightarrow> (RKeyPackage (se_b64 (io_env io) blob), st\<lparr>ls_buffer := b\<rparr>)
      | (Inr None, b) \<Rightarrow> (RError (''No key package for '' @ target_did), st\<lparr>ls_buffer := b\<rparr>)
      | (Inl e, b) \<Rightarrow> (RError (display_delivery_error e), st\<lparr>ls_buffer := b\<rparr>))"

definition handle_send_message ::
  "('m, 'h, 'ts) leader_io \<Rightarrow> string \<Rightarrow> string \<Rightarrow> string \<Rightarrow> string \<Rightarrow> ('m, 'h) leader_state \<Rightarrow> response \<times> ('m, 'h) leader_state" where
  "handle_send_message io space_id message message_type did st =
     (case base64_decode (io_env io) message of
        Inl e \<Rightarrow> (RError e, st)
      | Inr blob \<Rightarrow>
          (case store_message (io_env io) (io_created io) space_id did message_type blob (ls_buffer st) of
             (Inl e, b) \<Rightarrow> (RError (display_delivery_error e), st\<lparr>ls_buffer := b\<rparr>)
           | (Inr i, b) \<Rightarrow>
               (let b1 = (if message_type = ''commit''
                          then track_commit (io_env io) (io_uuid io 0) space_id i
                                 (filter (\<lambda>d. d \<noteq> did) (member_dids_or_none (io_env io) (ls_db st) space_id)) b
                          else b)
                in (RMessageStored i, notify_all_mls space_id message_type (st\<lparr>ls_buffer := b1\<rparr>)))))"

definition handle_fetch_messages ::
  "('m, 'h, 'ts) leader_io \<Rightarrow> string \<Rightarrow> int option \<Rightarrow> ('m, 'h) leader_state \<Rightarrow> response" where
  "handle_fetch_messages io space_id after_id st =
     (case fetch_messages (io_env io) space_id after_id (ls_buffer st) of
        Inl e \<Rightarrow> RError (display_delivery_error e)
      | Inr ms \<Rightarrow>
          RMessages (map (\<lambda>(i, sender, kind, blob, created).
            \<lparr>me_id = i, me_sender_did = sender, me_message_type = kind, me_message = se_b64 (io_env io) blob,
             me_created_at = created\<rparr>) ms))"

definition handle_send_welcome ::
  "('m, 'h, 'ts) leader_io \<Rightarrow> string \<Rightarrow> string \<Rightarrow> string \<Rightarrow> ('m, 'h) leader_state \<Rightarrow> response \<times> ('m, 'h) leader_state" where
  "handle_send_welcome io space_id recipient_did welcome st =
     (case base64_decode (io_env io) welcome of
        Inl e \<Rightarrow> (RError e, st)
      | Inr blob \<Rightarrow>
          (case store_welcome (io_env io) (io_created io) (io_uuid io 0) space_id recipient_did blob (ls_buffer st) of
             (Inl e, b) \<Rightarrow> (RError (display_delivery_error e), st\<lparr>ls_buffer := b\<rparr>)
           | (Inr _, b) \<Rightarrow> (ROk, st\<lparr>ls_buffer := b\<rparr>)))"

definition handle_fetch_welcomes ::
  "('m, 'h, 'ts) leader_io \<Rightarrow> string \<Rightarrow> string \<Rightarrow> ('m, 'h) leader_state \<Rightarrow> response \<times> ('m, 'h) leader_state" where
  "handle_fetch_welcomes io space_id did st =
     (case fetch_welcomes (io_env io) space_id did (ls_buffer st) of
        Inl e \<Rightarrow> (RError (display_delivery_error e), st)
      | Inr found \<Rightarrow>
          (RWelcomes (map (\<lambda>(_, blob). se_b64 (io_env io) blob) found),
           st\<lparr>ls_buffer := fold (\<lambda>(i, _) b. snd (mark_welcome_consumed (io_env io) i b)) found (ls_buffer st)\<rparr>))"

text \<open>\<open>sync_loop::local_to_remote_change\<close>\<close>

definition local_to_remote_change :: "local_column_change \<Rightarrow> remote_column_change" where
  "local_to_remote_change c =
     \<lparr>table_name = lc_table_name c, row_pks = lc_row_pks c, column_name = lc_column_name c,
      hlc_timestamp = lc_hlc_timestamp c, decrypted_value = lc_value c\<rparr>"

definition handle_sync_push ::
  "('m, 'h, 'ts) leader_io \<Rightarrow> string \<Rightarrow> json \<Rightarrow> string \<Rightarrow> validated_ucan \<Rightarrow> ('m, 'h) leader_state
    \<Rightarrow> response \<times> ('m, 'h) leader_state" where
  "handle_sync_push io space_id changes peer_endpoint_id validated st =
     (case io_parse_changes io changes of
        Inl e \<Rightarrow> (RError (''Invalid changes JSON: '' @ e), st)
      | Inr local_changes \<Rightarrow>
          (case authorize_inbound_sync_push (io_env io) (ls_db st) space_id peer_endpoint_id validated local_changes of
             Rejected reason \<Rightarrow> (RError (io_reason_text io reason), st)
           | Accepted accepted \<Rightarrow>
               if accepted = [] then (ROk, st)
               else
                 (case io_poison io of
                    Some e \<Rightarrow> (RError (''Failed to lock HLC for SyncPush apply: '' @ e), st)
                  | None \<Rightarrow>
                      (case apply_remote_changes_to_db (se_sql (io_env io)) (io_iter io) (io_uhlc io)
                         (map local_to_remote_change accepted) None (Some (ls_hlc st)) (ls_db st) of
                         (Inl e, db1, h) \<Rightarrow>
                           (RError (''Failed to apply changes: '' @ io_db_error_text io e),
                            st\<lparr>ls_db := db1, ls_hlc := the h\<rparr>)
                       | (Inr _, db1, h) \<Rightarrow>
                           (let affected = remdups (map lc_table_name accepted);
                                st1 = notify_others_sync space_id affected peer_endpoint_id (st\<lparr>ls_db := db1, ls_hlc := the h\<rparr>)
                            in if ''haex_space_devices'' \<in> set affected \<and> io_reload_error io \<noteq> None
                               then (RError (''Failed to reload allowed_peers: '' @ the (io_reload_error io)), st1)
                               else (ROk, st1\<lparr>ls_events := ls_events st1 @ [(space_id, affected)]\<rparr>))))))"

definition handle_sync_pull ::
  "('m, 'h, 'ts) leader_io \<Rightarrow> string \<Rightarrow> string option \<Rightarrow> validated_ucan \<Rightarrow> ('m, 'h) leader_state
    \<Rightarrow> response \<times> ('m, 'h) leader_state" where
  "handle_sync_pull io space_id after_timestamp validated st =
     (case scan_space_scoped_tables_for_local_changes (se_sql (io_env io)) (se_b64 (io_env io)) (ls_db st) space_id
        after_timestamp ''leader'' None of
        Inl e \<Rightarrow>
          (RError (''Failed to scan changes: '' @ io_db_error_text io e),
           add_log ''error'' ''SyncPull'' (''scan failed: space='' @ take 8 space_id @ '' err='' @ io_db_error_text io e) st)
      | Inr changes \<Rightarrow>
          ((case io_changes_json io changes of
              Inl e \<Rightarrow> RError (''Failed to serialize changes: '' @ e)
            | Inr j \<Rightarrow> RSyncChanges j),
           add_log ''info'' ''SyncPull'' (''served: space='' @ take 8 space_id @ '' audience='' @ take 24 (vu_audience validated)
              @ '' count='' @ show_radix 10 (length changes)) st))"

definition handle_submit_external_commit ::
  "('m, 'h, 'ts) leader_io \<Rightarrow> string \<Rightarrow> string \<Rightarrow> string \<Rightarrow> ('m, 'h) leader_state \<Rightarrow> response \<times> ('m, 'h) leader_state" where
  "handle_submit_external_commit io space_id commit did st =
     (case base64_decode (io_env io) commit of
        Inl _ \<Rightarrow> (RError ''Invalid base64 in commit'', st)
      | Inr blob \<Rightarrow>
          (let st1 = st\<lparr>ls_mls := snd (mls_process_message (io_mls io) (ls_mls st) space_id blob)\<rparr>
           in case store_message (io_env io) (io_created io) space_id did ''commit'' blob (ls_buffer st1) of
                (Inl e, b) \<Rightarrow> (RError (''Failed to store external commit: '' @ display_delivery_error e), st1\<lparr>ls_buffer := b\<rparr>)
              | (Inr i, b) \<Rightarrow>
                  (RMessageStored i,
                   notify_all_mls space_id ''commit''
                     (st1\<lparr>ls_buffer := track_commit (io_env io) (io_uuid io 0) space_id i
                        (member_dids_or_none (io_env io) (ls_db st) space_id) b\<rparr>))))"

definition handle_key_package_count ::
  "('m, 'h, 'ts) leader_io \<Rightarrow> string \<Rightarrow> string \<Rightarrow> ('m, 'h) leader_state \<Rightarrow> response" where
  "handle_key_package_count io space_id did st =
     (case count_key_packages_for_did (io_env io) space_id did (ls_buffer st) of
        Inl e \<Rightarrow> RError (display_delivery_error e)
      | Inr available \<Rightarrow> RKeyPackageCount available (TARGET_KEY_PACKAGES_PER_PEER - available))"

text \<open>Every gated arm expects the token the gate returned; the dispatcher stops with a panic
  without one.\<close>

fun dispatch ::
  "('m, 'h, 'ts) leader_io \<Rightarrow> string \<Rightarrow> string \<Rightarrow> validated_ucan option \<Rightarrow> request \<Rightarrow> ('m, 'h) leader_state
    \<Rightarrow> response \<times> ('m, 'h) leader_state" where
  "dispatch io ep did u (Announce endpoint_id s label claims tok) st =
     handle_announce io endpoint_id s label claims tok ep did st"
| "dispatch io ep did u (MlsUploadKeyPackages s packages) st = handle_upload_key_packages io s packages did st"
| "dispatch io ep did u (MlsFetchKeyPackage s target_did) st = handle_fetch_key_package io s target_did st"
| "dispatch io ep did u (MlsSendMessage s message message_type) st = handle_send_message io s message message_type did st"
| "dispatch io ep did u (MlsFetchMessages s after_id) st = (handle_fetch_messages io s after_id st, st)"
| "dispatch io ep did u (MlsSendWelcome s recipient_did welcome) st = handle_send_welcome io s recipient_did welcome st"
| "dispatch io ep did u (MlsFetchWelcomes s) st = handle_fetch_welcomes io s did st"
| "dispatch io ep did u (SyncPush s changes tok) st =
     (case u of None \<Rightarrow> (RError ''panic'', st) | Some v \<Rightarrow> handle_sync_push io s changes ep v st)"
| "dispatch io ep did u (SyncPull s after_timestamp tok) st =
     (case u of None \<Rightarrow> (RError ''panic'', st) | Some v \<Rightarrow> handle_sync_pull io s after_timestamp v st)"
| "dispatch io ep did u (ClaimInvite s token endpoint_id packages label public_key) st =
     handle_claim_invite io s token endpoint_id packages label did st"
| "dispatch io ep did u (PushInvite s name kind token_id caps history inviter label avatar avatar_options endpoints
     origin expires relay) st =
     (case handle_push_invite (io_env io) (io_push io) (if io_poison io = None then Some (io_ctx io 0, io_ctx io 1) else None)
        \<lparr>pi_space_id = s, pi_space_name = name, pi_space_type = kind, pi_token_id = token_id, pi_capabilities = caps,
         pi_include_history = history, pi_inviter_did = inviter, pi_inviter_label = label, pi_inviter_avatar = avatar,
         pi_inviter_avatar_options = avatar_options, pi_space_endpoints = endpoints, pi_origin_url = origin,
         pi_inviter_relay_url = relay\<rparr> did (ls_db st) of
        (r, db1, logs, _) \<Rightarrow> (r, st\<lparr>ls_db := db1, ls_logs := ls_logs st @ logs\<rparr>))"
| "dispatch io ep did u (MlsAckCommit s message_ids) st =
     (case handle_ack_commit (io_env io) s did message_ids (ls_buffer st) of (r, b) \<Rightarrow> (r, st\<lparr>ls_buffer := b\<rparr>))"
| "dispatch io ep did u (RequestRejoin s tok) st =
     (case u of None \<Rightarrow> (RError ''panic'', st)
      | Some _ \<Rightarrow>
          ((case mls_group_info (io_mls io) (ls_mls st) s of
              Inr g \<Rightarrow> RGroupInfo (se_b64 (io_env io) g)
            | Inl e \<Rightarrow> RError (''Failed to export GroupInfo: '' @ e)), st))"
| "dispatch io ep did u (SubmitExternalCommit s commit tok) st =
     (case u of None \<Rightarrow> (RError ''panic'', st) | Some _ \<Rightarrow> handle_submit_external_commit io s commit did st)"
| "dispatch io ep did u (MlsKeyPackageCount s) st = (handle_key_package_count io s did st, st)"

definition handle_delivery_request ::
  "('m, 'h, 'ts) leader_io \<Rightarrow> request \<Rightarrow> string \<Rightarrow> string \<Rightarrow> ('m, 'h) leader_state \<Rightarrow> response \<times> ('m, 'h) leader_state" where
  "handle_delivery_request io request peer_endpoint_id verified_did st =
     (case authorize_request (io_env io) (io_now io) request verified_did peer_endpoint_id (ls_peers st) (ls_db st) of
        (Inl r, logs) \<Rightarrow> (r, st\<lparr>ls_logs := ls_logs st @ logs\<rparr>)
      | (Inr gate_ucan, logs) \<Rightarrow>
          dispatch io peer_endpoint_id verified_did gate_ucan request (st\<lparr>ls_logs := ls_logs st @ logs\<rparr>))"


section \<open>Which requests change the leader's state\<close>

lemma add_log_sel [simp]:
  "ls_db (add_log a b c st) = ls_db st" "ls_buffer (add_log a b c st) = ls_buffer st"
  "ls_peers (add_log a b c st) = ls_peers st" "ls_tokens (add_log a b c st) = ls_tokens st"
  "ls_mls (add_log a b c st) = ls_mls st" "ls_sent (add_log a b c st) = ls_sent st"
  "ls_hlc (add_log a b c st) = ls_hlc st" "ls_events (add_log a b c st) = ls_events st"
  "ls_senders (add_log a b c st) = ls_senders st" "ls_space_id (add_log a b c st) = ls_space_id st"
  by (simp_all add: add_log_def)

text \<open>The replicated data, the MLS buffer and group, the clock and the invites.\<close>

definition same_data :: "('m, 'h) leader_state \<Rightarrow> ('m, 'h) leader_state \<Rightarrow> bool" where
  "same_data st st' \<longleftrightarrow> ls_db st' = ls_db st \<and> ls_buffer st' = ls_buffer st \<and> ls_mls st' = ls_mls st
     \<and> ls_tokens st' = ls_tokens st \<and> ls_hlc st' = ls_hlc st"

lemma require_ucan_capability_Inr [res_simps]:
  "require_ucan_capability env db v s l did = Inr u \<longleftrightarrow>
     did \<noteq> [] \<and> vu_audience v = did \<and> (\<exists>a. vu_capabilities v s = Some a \<and> l \<le> a)
     \<and> is_active_space_member env db s did = Inr True"
  by (auto simp: require_ucan_capability_def require_audience_def require_capability_def
      split: sum.splits bool.splits option.splits if_splits)

lemma require_valid_ucan_Inr [res_simps]:
  "require_valid_ucan env now tok = Inr v \<longleftrightarrow> validate_token (se_ucan env) now tok = Inr v"
  by (auto simp: require_valid_ucan_def split: sum.splits)

definition announce_ok :: "space_env \<Rightarrow> (string, 64 word) result \<Rightarrow> crdt_db \<Rightarrow> string \<Rightarrow> string \<Rightarrow> string option \<Rightarrow> validated_ucan \<Rightarrow> bool" where
  "announce_ok env now db s did tok v \<longleftrightarrow>
     (\<exists>t. tok = Some t \<and> validate_token (se_ucan env) now t = Inr v) \<and> did \<noteq> [] \<and> vu_audience v = did
     \<and> (\<exists>a. vu_capabilities v s = Some a) \<and> is_active_space_member env db s did = Inr True"

lemma announce_same_data: "same_data st (snd (handle_announce io e s label claims tok ep did st))"
  by (simp add: handle_announce_def accept_announce_def same_data_def Let_def split: option.splits sum.splits)

lemma accept_announce_peers:
  "\<exists>p. cp_validated_ucan p = Some v \<and> ls_peers (accept_announce io e label claims did v st) = (ls_peers st)(e \<mapsto> p)"
proof -
  let ?p = "\<lparr>cp_endpoint_id = e, cp_did = did, cp_label = label, cp_claims = announce_claims claims,
      cp_connected_at = io_now_text io, cp_validated_ucan = Some v\<rparr>"
  show ?thesis by (rule exI [of _ ?p]) (simp add: accept_announce_def Let_def)
qed

lemma announce_peers:
  assumes "ls_peers (snd (handle_announce io e s label claims tok ep did st)) \<noteq> ls_peers st"
  shows "\<exists>v. announce_ok (io_env io) (io_now io) (ls_db st) s did tok v
    \<and> (\<exists>p. cp_validated_ucan p = Some v \<and>
         ls_peers (snd (handle_announce io e s label claims tok ep did st)) = (ls_peers st)(e \<mapsto> p))"
proof -
  from assms obtain t v u where t: "tok = Some t" and v: "require_valid_ucan (io_env io) (io_now io) t = Inr v"
    and c: "require_ucan_capability (io_env io) (ls_db st) v s CapRead did = Inr u"
    by (auto simp: handle_announce_def Let_def split: option.splits sum.splits)
  have "\<exists>p. cp_validated_ucan p = Some v \<and>
      ls_peers (snd (handle_announce io e s label claims tok ep did st)) = (ls_peers st)(e \<mapsto> p)"
  proof -
    have "\<exists>l1 l2. snd (handle_announce io e s label claims tok ep did st) =
        accept_announce io e label claims did v (add_log ''info'' ''Announce'' l1 (add_log ''info'' ''Announce'' l2 st))"
      unfolding handle_announce_def Let_def t option.case v c sum.case snd_conv by blast
    then obtain l1 l2 where h: "snd (handle_announce io e s label claims tok ep did st) =
        accept_announce io e label claims did v (add_log ''info'' ''Announce'' l1 (add_log ''info'' ''Announce'' l2 st))"
      by blast
    show ?thesis
      unfolding h using accept_announce_peers [of v io e label claims did
          "add_log ''info'' ''Announce'' l1 (add_log ''info'' ''Announce'' l2 st)"] by simp
  qed
  with t v c show ?thesis by (auto simp: announce_ok_def res_simps)
qed

definition claim_granted ::
  "('m, 'h, 'ts) leader_io \<Rightarrow> string \<Rightarrow> string \<Rightarrow> string \<Rightarrow> ('m, 'h) leader_state \<Rightarrow> bool" where
  "claim_granted io s token did st \<longleftrightarrow>
     load_existing_claim (io_env io) (ls_db st) s did \<noteq> None \<or>
     (\<exists>ts t. fill_cache (io_env io) (io_invite io) (io_time io) (ls_db st) token (ls_tokens st) = Inr ts
        \<and> find_token token ts = Some t \<and> can_claim (io_time io) t did)"

lemma validate_invite_Inr:
  "validate_invite env ie now db i did ts = (Inr (cap, ucan), ts') \<longleftrightarrow>
     fill_cache env ie now db i ts = Inr ts' \<and>
     (\<exists>t. find_token i ts' = Some t \<and> can_claim now t did \<and> cap = it_capability t \<and> ucan = it_pre_created_ucan t)"
  by (auto simp: validate_invite_def split: sum.splits option.splits if_splits)

lemma resolve_claim_granted:
  "resolve_claim io s token did st = (Inr c, ts) \<Longrightarrow> claim_granted io s token did st"
  by (auto simp: resolve_claim_def claim_granted_def validate_invite_Inr split: option.splits prod.splits sum.splits)

lemma claim_refused:
  assumes "\<not> claim_granted io s token did st"
  shows "\<exists>r ts. handle_claim_invite io s token e kps label did st = (r, st\<lparr>ls_tokens := ts\<rparr>)"
proof -
  obtain r ts where "resolve_claim io s token did st = (r, ts)" by fastforce
  with assms resolve_claim_granted [of io s token did st] obtain x where "resolve_claim io s token did st = (Inl x, ts)"
    by (cases r) auto
  then show ?thesis by (auto simp: handle_claim_invite_def Let_def)
qed

lemma push_invite_guarded:
  assumes "pi_inviter_did p \<noteq> did"
  shows "\<exists>r logs. handle_push_invite env pe hlc p did db = (r, db, logs, False)"
  using assms by (simp add: handle_push_invite_def Let_def)

text \<open>The condition under which a request may touch the leader's data or its peer table.\<close>

fun admitted ::
  "('m, 'h, 'ts) leader_io \<Rightarrow> string \<Rightarrow> string \<Rightarrow> request \<Rightarrow> ('m, 'h) leader_state \<Rightarrow> bool" where
  "admitted io ep did (Announce e s label claims tok) st \<longleftrightarrow>
     (\<exists>v. announce_ok (io_env io) (io_now io) (ls_db st) s did tok v)"
| "admitted io ep did (ClaimInvite s token e kps label pk) st \<longleftrightarrow> claim_granted io s token did st"
| "admitted io ep did (PushInvite s name kind token_id caps history inviter label avatar avatar_options endpoints
     origin expires relay) st \<longleftrightarrow> inviter = did"
| "admitted io ep did req st \<longleftrightarrow>
     (\<exists>u. gate_open (io_env io) (io_now io) req did ep (ls_peers st) (ls_db st) u)"

lemma gated_request:
  assumes "required_capability req \<noteq> None"
    and "\<nexists>u. gate_open (io_env io) (io_now io) req did ep (ls_peers st) (ls_db st) u"
  shows "\<exists>r logs. handle_delivery_request io req ep did st = (r, st\<lparr>ls_logs := logs\<rparr>)"
proof -
  obtain a logs where auth: "authorize_request (io_env io) (io_now io) req did ep (ls_peers st) (ls_db st) = (a, logs)"
    by fastforce
  have "\<exists>x. a = Inl x"
  proof (cases a)
    case (Inr b)
    show ?thesis
    proof (cases b)
      case None
      with auth Inr assms(1) have False
        by (auto simp: authorize_request_def gate_reject_def split: option.splits peer_lookup.splits)
          (metis fst_conv gate_checks_Inr option.distinct(1))
      then show ?thesis ..
    next
      case (Some u)
      with auth Inr authorize_request_open [of "io_env io" "io_now io" req did ep "ls_peers st" "ls_db st" u] assms(2)
      show ?thesis by auto
    qed
  qed auto
  with auth show ?thesis by (auto simp: handle_delivery_request_def)
qed



section \<open>A claimed invite makes a member\<close>

lemma consume_invite_tables:
  assumes "t \<noteq> ''haex_invite_tokens''"
  shows "tables (fst (snd (consume_invite env hlc i db ts))) t = tables db t"
  using update_rows_tables [of env _ "''haex_invite_tokens''" _ _ _ db _ t] assms
  by (auto simp: consume_invite_def update_token_usage_def split: option.splits prod.splits sum.splits)

lemma persist_admin_ucan_tables:
  assumes "t \<noteq> ''haex_ucan_tokens''"
  shows "tables (persist_admin_ucan io s a c u db) t = tables db t"
proof (cases "persist_admin_ucan io s a c u db = db")
  case False
  then obtain ps b where "insert_or_ignore (io_env io) (io_ctx io 0) ''haex_ucan_tokens'' ps db
      = Inr (b, persist_admin_ucan io s a c u db)"
    by (auto simp: persist_admin_ucan_def split: if_splits sum.splits prod.splits)
  from insert_or_ignore_tables [OF this] False assms show ?thesis by (auto split: if_splits)
qed simp

text \<open>What the schema enforces: an insert of an identity is refused only when its DID is taken, of
  a member only when the space has that identity; a value equals itself; ids are not NULL.\<close>

definition unique_member_laws :: "space_env \<Rightarrow> bool" where
  "unique_member_laws env \<longleftrightarrow>
     (\<forall>v. sql_eq (se_sql env) v v) \<and>
     (\<forall>tb ps d. insert_violation (se_sql env) ''haex_identities'' tb ps \<noteq> None \<and> map_of ps ''did'' = Some d \<longrightarrow>
        (\<exists>i\<in>set (rows tb). where_eq env (col env i ''did'') d)) \<and>
     (\<forall>tb ps s i. insert_violation (se_sql env) ''haex_space_members'' tb ps \<noteq> None \<and>
        map_of ps ''space_id'' = Some s \<and> map_of ps ''identity_id'' = Some i \<longrightarrow>
        (\<exists>m\<in>set (rows tb). where_eq env (col env m ''space_id'') s \<and> where_eq env (col env m ''identity_id'') i))"

definition identities_have_ids :: "space_env \<Rightarrow> crdt_db \<Rightarrow> bool" where
  "identities_have_ids env db \<longleftrightarrow>
     (\<forall>tb. tables db ''haex_identities'' = Some tb \<longrightarrow> (\<forall>i\<in>set (rows tb). col env i ''id'' \<noteq> SNull))"

lemma plain_col: "cells r = map_of ps \<Longrightarrow> map_of ps c = Some v \<Longrightarrow> c \<noteq> HLC_TIMESTAMP_COLUMN \<Longrightarrow> c \<noteq> COLUMN_HLCS_COLUMN
    \<Longrightarrow> col env r c = v"
  by (simp add: cell_def)

lemma insert_members_effect:
  assumes laws: "unique_member_laws env"
    and ids: "\<forall>i\<in>set is. col env i ''id'' \<noteq> SNull"
    and common: "map_of common ''space_id'' = Some (SText s)" "''identity_id'' \<notin> fst ` set common"
    and tb: "tables db ''haex_space_members'' = Some tb"
    and run: "insert_members env w common is db = Inr db'"
  shows "(\<forall>t. t \<noteq> ''haex_space_members'' \<longrightarrow> tables db' t = tables db t) \<and>
    (\<exists>tb'. tables db' ''haex_space_members'' = Some tb' \<and> schema tb' = schema tb \<and> set (rows tb) \<subseteq> set (rows tb') \<and>
      (\<forall>i\<in>set is. \<exists>m\<in>set (rows tb'). where_eq env (col env m ''identity_id'') (col env i ''id'')
         \<and> where_eq env (col env m ''space_id'') (SText s)))"
  using ids tb run
proof (induction "is" arbitrary: db tb)
  case (Cons i "is")
  let ?ps = "common @ [(''identity_id'', col env i ''id'')]"
  from Cons.prems(3) obtain b db1 where
    ins: "insert_or_ignore env w ''haex_space_members'' ?ps db = Inr (b, db1)"
    and rest: "insert_members env w common is db1 = Inr db'" by (auto simp: res_simps)
  have ps: "map_of ?ps ''space_id'' = Some (SText s)" "map_of ?ps ''identity_id'' = Some (col env i ''id'')"
    using common by (auto simp: map_add_def map_of_eq_None_iff [symmetric])
  have "\<exists>tb1. tables db1 ''haex_space_members'' = Some tb1 \<and> schema tb1 = schema tb \<and> set (rows tb) \<subseteq> set (rows tb1)
      \<and> (\<exists>m\<in>set (rows tb1). where_eq env (col env m ''identity_id'') (col env i ''id'')
           \<and> where_eq env (col env m ''space_id'') (SText s))
      \<and> (\<forall>t. t \<noteq> ''haex_space_members'' \<longrightarrow> tables db1 t = tables db t)"
  proof (cases b)
    case True
    with insert_or_ignore_tables [OF ins] Cons.prems(2) obtain r where r: "cells r = map_of ?ps"
      "tables db1 = (tables db)(''haex_space_members'' \<mapsto> tb\<lparr>rows := rows tb @ [r]\<rparr>)" by auto
    have "col env r ''identity_id'' = col env i ''id''" "col env r ''space_id'' = SText s"
      using plain_col [OF r(1) ps(2)] plain_col [OF r(1) ps(1)] by (simp_all add: clock_names)
    with r laws Cons.prems(1) show ?thesis by (auto simp: where_eq_def unique_member_laws_def)
  next
    case False
    with insert_or_ignore_tables [OF ins] Cons.prems(2)
    have "db1 = db" and v: "insert_violation (se_sql env) ''haex_space_members'' tb ?ps \<noteq> None" by auto
    moreover have "\<exists>m\<in>set (rows tb). where_eq env (col env m ''space_id'') (SText s)
        \<and> where_eq env (col env m ''identity_id'') (col env i ''id'')"
      using laws v ps unfolding unique_member_laws_def by blast
    ultimately show ?thesis using Cons.prems(2) by auto
  qed
  then obtain tb1 m where tb1: "tables db1 ''haex_space_members'' = Some tb1" "schema tb1 = schema tb"
    "set (rows tb) \<subseteq> set (rows tb1)" "m \<in> set (rows tb1)"
    "where_eq env (col env m ''identity_id'') (col env i ''id'')" "where_eq env (col env m ''space_id'') (SText s)"
    "\<forall>t. t \<noteq> ''haex_space_members'' \<longrightarrow> tables db1 t = tables db t" by blast
  have "\<forall>i\<in>set is. col env i ''id'' \<noteq> SNull" using Cons.prems(1) by simp
  from Cons.IH [OF this tb1(1) rest] tb1 show ?case by auto blast+
qed auto

lemma persist_member_active:
  assumes laws: "unique_member_laws (io_env io)" and ids: "identities_have_ids (io_env io) db"
    and run: "persist_member io s did cap label db = (Inr u, db')"
  shows "is_active_space_member (io_env io) db' s did = Inr True"
proof -
  let ?env = "io_env io"
  from run obtain b db1 members idrows where
    ins: "insert_or_ignore ?env (io_ctx io 1) ''haex_identities''
       [(''id'', SText (io_uuid io 1)), (''did'', SText did), (''name'', SText (str_or (take 16 did) label)),
        (''source'', SText ''contact'')] db = Inr (b, db1)"
    and mem: "open_table ?env db1 ''haex_space_members''
       [HLC_TIMESTAMP_COLUMN, ''id'', ''space_id'', ''identity_id'', ''role'', ''joined_at''] = Inr members"
    and idr: "table_rows ?env db1 ''haex_identities'' [''id'', ''did''] = Inr idrows"
    and im: "insert_members ?env (io_ctx io 2)
       [(''id'', SText (io_uuid io 2)), (''space_id'', SText s), (''role'', SText cap), (''joined_at'', SText (io_now_text io))]
       (filter (\<lambda>i. where_eq ?env (col ?env i ''did'') (SText did)) idrows) db1 = Inr db'"
    by (auto simp: persist_member_def res_simps split: option.splits sum.splits prod.splits)
  from insert_or_ignore_tables [OF ins] obtain tb where tb: "tables db ''haex_identities'' = Some tb"
    and eff: "if b then \<exists>r. cells r = map_of [(''id'', SText (io_uuid io 1)), (''did'', SText did),
         (''name'', SText (str_or (take 16 did) label)), (''source'', SText ''contact'')]
         \<and> tables db1 = (tables db)(''haex_identities'' \<mapsto> tb\<lparr>rows := rows tb @ [r]\<rparr>)
       else db1 = db \<and> insert_violation (se_sql ?env) ''haex_identities'' tb [(''id'', SText (io_uuid io 1)),
         (''did'', SText did), (''name'', SText (str_or (take 16 did) label)), (''source'', SText ''contact'')] \<noteq> None"
    by blast
  from idr obtain itb where itb: "tables db1 ''haex_identities'' = Some itb" "idrows = rows itb"
    "se_db_fault ?env = None" "has_column ''id'' (schema itb)" "has_column ''did'' (schema itb)"
    by (auto simp: res_simps table_has_def)
  have old: "\<forall>i\<in>set (rows tb). col ?env i ''id'' \<noteq> SNull"
    using ids tb by (auto simp: identities_have_ids_def)
  have key: "(\<exists>i\<in>set idrows. where_eq ?env (col ?env i ''did'') (SText did)) \<and> (\<forall>i\<in>set idrows. col ?env i ''id'' \<noteq> SNull)"
  proof (cases b)
    case True
    with eff obtain r where r: "cells r = map_of [(''id'', SText (io_uuid io 1)), (''did'', SText did),
         (''name'', SText (str_or (take 16 did) label)), (''source'', SText ''contact'')]"
      "tables db1 = (tables db)(''haex_identities'' \<mapsto> tb\<lparr>rows := rows tb @ [r]\<rparr>)" by auto
    have "col ?env r ''did'' = SText did" "col ?env r ''id'' \<noteq> SNull"
      using r(1) by (simp_all add: cell_def clock_names)
    with r(2) itb old laws show ?thesis by (auto simp: where_eq_def unique_member_laws_def)
  next
    case False
    with eff have "db1 = db" and v: "insert_violation (se_sql ?env) ''haex_identities'' tb [(''id'', SText (io_uuid io 1)),
         (''did'', SText did), (''name'', SText (str_or (take 16 did) label)), (''source'', SText ''contact'')] \<noteq> None"
      by auto
    moreover have "\<exists>i\<in>set (rows tb). where_eq ?env (col ?env i ''did'') (SText did)"
      using laws v unfolding unique_member_laws_def by fastforce
    ultimately show ?thesis using itb tb old by auto
  qed
  have cols: "tables db1 ''haex_space_members'' = Some members" "has_column ''space_id'' (schema members)"
    "has_column ''identity_id'' (schema members)"
    using mem by (auto simp: open_table_Inr)
  have nn: "\<forall>i\<in>set (filter (\<lambda>i. where_eq ?env (col ?env i ''did'') (SText did)) idrows). col ?env i ''id'' \<noteq> SNull"
    using key by auto
  have "map_of [(''id'', SText (io_uuid io 2)), (''space_id'', SText s), (''role'', SText cap),
      (''joined_at'', SText (io_now_text io))] ''space_id'' = Some (SText s)"
    "''identity_id'' \<notin> fst ` set [(''id'', SText (io_uuid io 2)), (''space_id'', SText s), (''role'', SText cap),
      (''joined_at'', SText (io_now_text io))]" by simp_all
  from insert_members_effect [OF laws nn this cols(1) im] obtain tb' where
    other: "tables db' ''haex_identities'' = tables db1 ''haex_identities''"
    and tb': "tables db' ''haex_space_members'' = Some tb'" "schema tb' = schema members"
    and found: "\<forall>i\<in>set (filter (\<lambda>i. where_eq ?env (col ?env i ''did'') (SText did)) idrows).
      \<exists>m\<in>set (rows tb'). where_eq ?env (col ?env m ''identity_id'') (col ?env i ''id'')
         \<and> where_eq ?env (col ?env m ''space_id'') (SText s)" by auto
  from key found obtain i m where "i \<in> set idrows" "where_eq ?env (col ?env i ''did'') (SText did)" "m \<in> set (rows tb')"
    "where_eq ?env (col ?env m ''identity_id'') (col ?env i ''id'')" "where_eq ?env (col ?env m ''space_id'') (SText s)"
    by auto
  moreover have "table_has ?env db' ''haex_space_members'' [''identity_id'', ''space_id''] (rows tb')"
    using tb' cols(2,3) itb(3) by (simp add: table_has_def)
  moreover have "table_has ?env db' ''haex_identities'' [''id'', ''did''] idrows"
    using other itb by (simp add: table_has_def)
  ultimately show ?thesis unfolding is_active_space_member_True by blast
qed


lemma store_claim_commit_db [simp]: "ls_db (store_claim_commit io s did commit st) = ls_db st"
  by (auto simp: store_claim_commit_def notify_all_mls_def split: prod.splits sum.splits)

lemma is_active_cong:
  assumes "tables db1 ''haex_space_members'' = tables db2 ''haex_space_members''"
    "tables db1 ''haex_identities'' = tables db2 ''haex_identities''"
  shows "is_active_space_member env db1 s did = is_active_space_member env db2 s did"
  by (simp only: is_active_space_member_def table_rows_def assms)

lemma finish_claim_member:
  assumes "unique_member_laws (io_env io)" "identities_have_ids (io_env io) (ls_db st)"
    and "finish_claim io s token e did label retry cap ucan w st = (RInviteClaimed w' u c, st')"
  shows "is_active_space_member (io_env io) (ls_db st') s did = Inr True"
proof -
  let ?db1 = "persist_admin_ucan io s did cap ucan (ls_db st)"
  have ids: "identities_have_ids (io_env io) ?db1"
    using assms(2) by (simp add: identities_have_ids_def persist_admin_ucan_tables)
  from assms(3) obtain x db2 where pm: "persist_member io s did cap label ?db1 = (Inr x, db2)"
    and st': "ls_db st' = db2 \<or> (\<exists>hlc ts. ls_db st' = fst (snd (consume_invite (io_env io) hlc token db2 ts)))"
    by (auto simp: finish_claim_def persist_member_def Let_def split: prod.splits sum.splits if_splits option.splits)
      (metis fst_conv snd_conv)+
  have "tables (ls_db st') t = tables db2 t" if "t \<in> {''haex_space_members'', ''haex_identities''}" for t
    using st' that consume_invite_tables [of t] by auto
  then have "is_active_space_member (io_env io) (ls_db st') s did = is_active_space_member (io_env io) db2 s did"
    by (intro is_active_cong) simp_all
  with persist_member_active [OF assms(1) ids pm] show ?thesis by simp
qed

lemma resolve_claim_error: "resolve_claim io s token did st = (Inl x, ts) \<Longrightarrow> \<exists>m. x = RError m"
  by (auto simp: resolve_claim_def split: option.splits prod.splits sum.splits)

text \<open>C15: A claim that is answered with an invite claimed makes the claimer an active member of the
  space, so that its next announce and requests pass the gate: the membership row and the
  identity behind it are in the leader's database, whether the identity was known before or
  not.  The claim needs an earlier token of this DID or an invite it may use; the space for which
  the invite was issued is not compared with the space that is claimed.\<close>

theorem claim_makes_member:
  assumes "unique_member_laws (io_env io)" and "identities_have_ids (io_env io) (ls_db st)"
    and "handle_claim_invite io s token e kps label did st = (RInviteClaimed w u c, st')"
  shows "is_active_space_member (io_env io) (ls_db st') s did = Inr True \<and> claim_granted io s token did st"
proof
  show "claim_granted io s token did st"
  proof (rule ccontr)
    assume "\<not> claim_granted io s token did st"
    from claim_refused [OF this, of e kps label] assms(3)
    have "\<exists>x ts. resolve_claim io s token did st = (Inl x, ts) \<and> x = RInviteClaimed w u c"
      using resolve_claim_granted [of io s token did st] \<open>\<not> claim_granted io s token did st\<close>
      by (auto simp: handle_claim_invite_def Let_def split: prod.splits sum.splits)
    with resolve_claim_error show False by blast
  qed
  from assms(3) obtain cap ucan wl retry st2 where
    "finish_claim io s token e did label retry cap ucan wl st2 = (RInviteClaimed w u c, st')" "ls_db st2 = ls_db st"
  proof -
    assume goal: "\<And>retry cap ucan wl st2. finish_claim io s token e did label retry cap ucan wl st2
        = (RInviteClaimed w u c, st') \<Longrightarrow> ls_db st2 = ls_db st \<Longrightarrow> thesis"
    show thesis
      using assms(3) goal
      by (auto simp: handle_claim_invite_def Let_def dest: resolve_claim_error split: prod.splits sum.splits option.splits)
  qed
  then show "is_active_space_member (io_env io) (ls_db st') s did = Inr True"
    using finish_claim_member [OF assms(1)] assms(2) by metis
qed


text \<open>A leader of \<open>s1\<close> for the witnesses, with an invite that was issued for \<open>s2\<close>.\<close>

definition sample_write :: write_ctx where
  "sample_write = \<lparr>wc_hlc = ''9/1'', wc_now = ''t'', wc_delete_id = (\<lambda>r. ''d'')\<rparr>"

definition sample_io :: "(unit, string, string) leader_io" where
  "sample_io = \<lparr>io_env = sample_space_env, io_invite = sample_invite_env,
     io_push = \<lparr>pe_fingerprint = id, pe_strings_json = concat, pe_emit_error = None, pe_invite_id = ''p'', pe_now_text = ''t''\<rparr>,
     io_mls = \<lparr>mls_add_member = (\<lambda>m s b. (Inr ([], Some [1]), m)), mls_group_info = (\<lambda>m s. Inr [1]),
       mls_process_message = (\<lambda>m s b. (Inr (), m))\<rparr>,
     io_uhlc = sample_uhlc, io_iter = sample_order, io_now = Inr 4000, io_time = 5, io_now_text = ''t'', io_created = ''t'',
     io_random = [], io_uuid = (\<lambda>k. show_radix 10 k), io_ctx = (\<lambda>k. sample_write), io_poison = None,
     io_parse_changes = (\<lambda>j. Inr []), io_changes_json = (\<lambda>cs. Inr (JInt 0)), io_reason_text = (\<lambda>r. ''rejected''),
     io_db_error_text = (\<lambda>e. ''error''), io_reload_error = None\<rparr>"

definition claim_space :: crdt_db where
  "claim_space = sample_crdt_db\<lparr>tables :=
     [''haex_space_members'' \<mapsto> plain_table [''space_id'', ''identity_id'', ''role'', ''joined_at''] [alice_member],
      ''haex_identities'' \<mapsto> plain_table [''did'', ''name'', ''source''] [plain_row [(''id'', ''i1''), (''did'', ''alice'')]]]\<rparr>"

definition sample_leader :: "(unit, string) leader_state" where
  "sample_leader = \<lparr>ls_space_id = ''s1'', ls_db = claim_space, ls_buffer = empty_buffer, ls_peers = [''e1'' \<mapsto> alice_peer],
     ls_senders = [''e1''], ls_tokens = [sample_invite], ls_mls = (), ls_hlc = hlc_service_new, ls_sent = [], ls_logs = [],
     ls_events = []\<rparr>"

lemma sample_io_laws: "unique_member_laws (io_env sample_io)" "identities_have_ids (io_env sample_io) (ls_db sample_leader)"
  by (simp_all add: unique_member_laws_def identities_have_ids_def sample_io_def sample_leader_def claim_space_def
      alice_defs cell_def clock_names)

lemma sample_member:
  "fst (persist_member sample_io ''s1'' ''carol'' ''space/write'' None claim_space) = Inr ()"
  by (simp add: persist_member_def sample_io_def insert_or_ignore_def open_table_def table_rows_def has_column_def
      append_row_def Let_def set_table_def claim_space_def alice_defs cell_def clock_names where_eq_def)

lemma sample_claim:
  "\<exists>st'. handle_claim_invite sample_io ''s1'' ''tok'' ''e9'' [''kp''] None ''carol'' sample_leader =
     (RInviteClaimed ''b64'' ''ucan'' ''space/write'', st')"
proof -
  have ex: "load_existing_claim sample_space_env claim_space ''s1'' ''carol'' = None"
    by (simp add: load_existing_claim_def table_rows_def claim_space_def alice_defs)
  have f: "find_token ''tok'' [sample_invite] = Some sample_invite"
    by (simp add: find_token_def sample_invite_def contact_token_def)
  have r: "resolve_claim sample_io ''s1'' ''tok'' ''carol'' sample_leader = (Inr (''space/write'', ''ucan''), [sample_invite])"
    by (simp add: resolve_claim_def sample_io_def sample_leader_def ex validate_invite_present [OF f])
      (simp add: can_claim_def is_valid_def sample_invite_def contact_token_def)
  obtain db2 where m: "persist_member sample_io ''s1'' ''carol'' ''space/write'' None claim_space = (Inr (), db2)"
    using sample_member by (cases "persist_member sample_io ''s1'' ''carol'' ''space/write'' None claim_space") auto
  have p: "persist_admin_ucan sample_io ''s1'' ''carol'' ''space/write'' ''ucan'' claim_space = claim_space"
    by (simp add: persist_admin_ucan_def sample_io_def ex load_admin_identity_def table_rows_def db_reason_def)
      (simp add: claim_space_def alice_defs)
  have fin: "\<exists>st'. finish_claim sample_io ''s1'' ''tok'' ''e9'' ''carol'' None False ''space/write'' ''ucan'' w st =
      (RInviteClaimed ''b64'' ''ucan'' ''space/write'', st')" if "ls_db st = claim_space" for st w
    using that by (simp add: finish_claim_def Let_def p m split: prod.splits)
      (simp add: sample_io_def sample_space_env_def)
  let ?b = "empty_buffer\<lparr>key_packages := [\<lparr>kp_id = show_radix 10 10, kp_space = ''s1'', kp_did = ''carol'', kp_blob = ''b64'', kp_created = ''t''\<rparr>]\<rparr>"
  have pk: "store_packages sample_space_env ''t'' (\<lambda>k. show_radix 10 k) 10 ''s1'' ''carol'' [''kp'']
      (snd (clear_key_packages_for_did sample_space_env ''s1'' ''carol'' empty_buffer)) = ?b"
    by (simp add: clear_key_packages_for_did_def with_db_def empty_buffer_def store_key_package_def insert_for_def
        base64_decode_def sample_space_env_def sample_ucan_env_def del: replicate.simps)
  have ck: "\<exists>blob b. consume_key_package sample_space_env ''s1'' ''carol'' ?b = (Inr (Some blob), b)"
    by (simp add: consume_key_package_def with_db_def packages_for_def order_created_def empty_buffer_def)
      (simp add: sample_space_env_def)
  then obtain blob b where ck: "consume_key_package sample_space_env ''s1'' ''carol'' ?b = (Inr (Some blob), b)" by blast
  have io: "io_env sample_io = sample_space_env" "io_created sample_io = ''t''" "io_uuid sample_io = (\<lambda>k. show_radix 10 k)"
    "mls_add_member (io_mls sample_io) = (\<lambda>m s b. (Inr ([], Some [1]), m))"
    by (simp_all add: sample_io_def)
  have ld: "ls_db sample_leader = claim_space" "ls_buffer sample_leader = empty_buffer" by (simp_all add: sample_leader_def)
  show ?thesis
    by (simp add: handle_claim_invite_def Let_def io ld r pk ck ex store_claim_commit_def fin del: store_packages.simps)
qed

theorem claim_makes_member_witness:
  "\<exists>st'. handle_claim_invite sample_io ''s1'' ''tok'' ''e9'' [''kp''] None ''carol'' sample_leader =
       (RInviteClaimed ''b64'' ''ucan'' ''space/write'', st')
     \<and> is_active_space_member sample_space_env (ls_db st') ''s1'' ''carol'' = Inr True \<and> it_space_id sample_invite = ''s2''"
proof -
  obtain st' where c: "handle_claim_invite sample_io ''s1'' ''tok'' ''e9'' [''kp''] None ''carol'' sample_leader =
       (RInviteClaimed ''b64'' ''ucan'' ''space/write'', st')"
    using sample_claim by blast
  moreover have "is_active_space_member (io_env sample_io) (ls_db st') ''s1'' ''carol'' = Inr True"
    using claim_makes_member [OF sample_io_laws c] ..
  ultimately show ?thesis by (simp add: sample_io_def sample_invite_def contact_token_def)
qed


end
