(* ===== verification/Election.thy ===== *)
theory Election
  imports SpaceDb
begin

text \<open>
  Who leads a space (\<open>discovery.rs\<close>, \<open>election.rs\<close>) and the cursors of the member's sync loop
  (\<open>push_cursor.rs\<close>).  The candidates are the device rows of the space; which of them answer a probe,
  and in which order the answers arrive, is decided by the network and is an argument.
\<close>

section \<open>Candidates\<close>

record device_candidate =
  dc_endpoint_id :: string
  dc_relay_url :: "string option"
  dc_priority :: "32 word"

text \<open>\<open>ORDER BY\<close> compares values as SQLite orders them (\<open>se_lt\<close>).\<close>

definition sql_compare :: "space_env \<Rightarrow> sql_value \<Rightarrow> sql_value \<Rightarrow> ordering" where
  "sql_compare env a b = (if se_lt env a b then Less else if se_lt env b a then Greater else Equal)"

definition device_order :: "space_env \<Rightarrow> row \<Rightarrow> row \<Rightarrow> ordering" where
  "device_order env a b =
     then_with (sql_compare env (col env a ''leader_priority'') (col env b ''leader_priority''))
       (sql_compare env (col env a ''endpoint_id'') (col env b ''endpoint_id''))"

definition candidate_of_row :: "space_env \<Rightarrow> row \<Rightarrow> device_candidate" where
  "candidate_of_row env r =
     \<lparr>dc_endpoint_id = (case read_str env r ''endpoint_id'' of Some s \<Rightarrow> s | None \<Rightarrow> []),
      dc_relay_url = read_str env r ''relay_url'',
      dc_priority = word_of_int (case col env r ''leader_priority'' of SInteger i \<Rightarrow> i | _ \<Rightarrow> 10)\<rparr>"

definition get_space_device_candidates ::
  "space_env \<Rightarrow> crdt_db \<Rightarrow> string \<Rightarrow> (delivery_error, device_candidate list) result" where
  "get_space_device_candidates env db space_id =
     (case table_rows env db ''haex_space_devices'' [''endpoint_id'', ''relay_url'', ''leader_priority'', ''space_id''] of
        Inl e \<Rightarrow> Inl (delivery_error.Database e)
      | Inr rs \<Rightarrow>
          Inr (map (candidate_of_row env)
            (sort_by (device_order env) (filter (\<lambda>r. where_eq env (col env r ''space_id'') (SText space_id)) rs))))"


section \<open>Probing and election\<close>

text \<open>The network as one device sees it: whether its endpoint runs, which ids parse, which devices
  accept a connection in time, and the order in which probes complete.\<close>

record probe_net =
  pn_running :: bool
  pn_parses :: "string \<Rightarrow> bool"
  pn_connects :: "device_candidate \<Rightarrow> bool"
  pn_completion :: "device_candidate list \<Rightarrow> device_candidate list"

definition probe_succeeds :: "probe_net \<Rightarrow> string \<Rightarrow> device_candidate \<Rightarrow> bool" where
  "probe_succeeds net own_endpoint_id c \<longleftrightarrow>
     dc_endpoint_id c = own_endpoint_id \<or> (pn_parses net (dc_endpoint_id c) \<and> pn_connects net c)"

fun position_or_max :: "string list \<Rightarrow> string \<Rightarrow> nat" where
  "position_or_max [] e = 2 ^ 64 - 1"
| "position_or_max (x # xs) e = (if x = e then 0 else min (2 ^ 64 - 1) (Suc (position_or_max xs e)))"

definition probe_reachable_candidates ::
  "probe_net \<Rightarrow> device_candidate list \<Rightarrow> string \<Rightarrow> device_candidate list" where
  "probe_reachable_candidates net candidates own_endpoint_id =
     (if \<not> pn_running net then filter (\<lambda>c. dc_endpoint_id c = own_endpoint_id) candidates
      else
        (let order = map dc_endpoint_id candidates;
             reachable = pn_completion net (filter (probe_succeeds net own_endpoint_id) candidates)
         in sort_key (\<lambda>c. position_or_max order (dc_endpoint_id c)) reachable))"

definition select_leader :: "device_candidate list \<Rightarrow> device_candidate option" where
  "select_leader reachable = (case reachable of [] \<Rightarrow> None | c # _ \<Rightarrow> Some c)"

datatype election_result =
    SelfIsLeader
  | RemoteLeader string "string option" "32 word"
  | NoLeaderFound

definition elect_leader ::
  "space_env \<Rightarrow> crdt_db \<Rightarrow> probe_net \<Rightarrow> string \<Rightarrow> string \<Rightarrow> (delivery_error, election_result) result" where
  "elect_leader env db net space_id own_endpoint_id =
     and_then (get_space_device_candidates env db space_id) (\<lambda>candidates.
       if candidates = [] then Inr NoLeaderFound
       else
         (let reachable = probe_reachable_candidates net candidates own_endpoint_id
          in if reachable = [] then Inr NoLeaderFound
             else (case select_leader reachable of
                     Some c \<Rightarrow>
                       if dc_endpoint_id c = own_endpoint_id then Inr SelfIsLeader
                       else Inr (RemoteLeader (dc_endpoint_id c) (dc_relay_url c) (dc_priority c))
                   | None \<Rightarrow> Inr NoLeaderFound)))"


section \<open>Cursors\<close>

text \<open>The settings table by key and device (its unique index); a failing statement is the argument
  \<open>fault\<close>.\<close>

type_synonym vault_settings = "string \<times> string \<rightharpoonup> sql_value"

definition cursor_key :: "string \<Rightarrow> string" where "cursor_key space_id = ''local_sync_push_hlc:'' @ space_id"
definition mls_cursor_key :: "string \<Rightarrow> string" where "mls_cursor_key space_id = ''local_sync_mls_cursor:'' @ space_id"

definition load_setting :: "bool \<Rightarrow> vault_settings \<Rightarrow> string \<Rightarrow> string \<Rightarrow> string option" where
  "load_setting fault vs key device_id =
     (if fault then None else (case vs (key, device_id) of Some (SText s) \<Rightarrow> Some s | _ \<Rightarrow> None))"

definition save_setting :: "bool \<Rightarrow> string \<Rightarrow> string \<Rightarrow> string \<Rightarrow> vault_settings \<Rightarrow> vault_settings" where
  "save_setting fault key device_id v vs = (if fault then vs else vs((key, device_id) \<mapsto> SText v))"

definition load_last_push_hlc :: "bool \<Rightarrow> vault_settings \<Rightarrow> string \<Rightarrow> string \<Rightarrow> string option" where
  "load_last_push_hlc fault vs space_id device_id = load_setting fault vs (cursor_key space_id) device_id"

definition save_last_push_hlc :: "bool \<Rightarrow> string \<Rightarrow> string \<Rightarrow> string \<Rightarrow> vault_settings \<Rightarrow> vault_settings" where
  "save_last_push_hlc fault space_id device_id hlc vs = save_setting fault (cursor_key space_id) device_id hlc vs"

text \<open>\<open>i64\<close> as decimal text and back.\<close>

definition show_int :: "int \<Rightarrow> string" where
  "show_int i = (if i < 0 then CHR ''-'' # show_radix 10 (nat (- i)) else show_radix 10 (nat i))"

definition parse_i64 :: "string \<Rightarrow> int option" where
  "parse_i64 s =
     (let neg = (s \<noteq> [] \<and> hd s = CHR ''-'');
          t = (if s \<noteq> [] \<and> hd s \<in> {CHR ''-'', CHR ''+''} then tl s else s)
      in if t = [] then None
         else (case parse_digits 10 0 t of
                 None \<Rightarrow> None
               | Some n \<Rightarrow>
                   if neg then (if n \<le> 2 ^ 63 then Some (- int n) else None)
                   else (if n < 2 ^ 63 then Some (int n) else None)))"

definition load_last_mls_cursor :: "bool \<Rightarrow> vault_settings \<Rightarrow> string \<Rightarrow> string \<Rightarrow> int option" where
  "load_last_mls_cursor fault vs space_id device_id =
     Option.bind (load_setting fault vs (mls_cursor_key space_id) device_id) parse_i64"

definition save_last_mls_cursor :: "bool \<Rightarrow> string \<Rightarrow> string \<Rightarrow> int \<Rightarrow> vault_settings \<Rightarrow> vault_settings" where
  "save_last_mls_cursor fault space_id device_id message_id vs =
     save_setting fault (mls_cursor_key space_id) device_id (show_int message_id) vs"



section \<open>Probing keeps the order of the candidates\<close>

lemma position_nth:
  assumes "distinct xs" "length xs \<le> 2 ^ 64" "i < length xs"
  shows "position_or_max xs (xs ! i) = i"
  using assms
proof (induction xs arbitrary: i)
  case (Cons x xs)
  show ?case
  proof (cases i)
    case (Suc j)
    then have "position_or_max xs (xs ! j) = j" "x \<noteq> xs ! j" using Cons by (auto simp: nth_mem)
    then show ?thesis using Suc Cons.prems by simp
  qed simp
qed simp

lemma positions_sorted:
  assumes "distinct (map f xs)" "length xs \<le> 2 ^ 64"
  shows "map (\<lambda>c. position_or_max (map f xs) (f c)) xs = [0..<length xs]"
  using position_nth [OF assms(1)] assms(2) by (intro nth_equalityI) simp_all

lemma probe_keeps_order:
  assumes "distinct (map dc_endpoint_id cs)" "length cs \<le> 2 ^ 64" "pn_running net"
    and "\<And>xs. mset (pn_completion net xs) = mset xs"
  shows "probe_reachable_candidates net cs own = filter (probe_succeeds net own) cs"
proof -
  let ?pos = "\<lambda>c. position_or_max (map dc_endpoint_id cs) (dc_endpoint_id c)"
  let ?ok = "filter (probe_succeeds net own) cs"
  have pos: "map ?pos cs = [0..<length cs]" by (rule positions_sorted [OF assms(1,2)])
  have "distinct (map ?pos cs)" unfolding pos by simp
  then have inj: "inj_on ?pos (set cs)" by (simp add: distinct_map)
  have sets: "set (pn_completion net ?ok) = set ?ok" using assms(4) [of ?ok] mset_eq_setD by blast
  have "sort_key ?pos (pn_completion net ?ok) = ?ok"
  proof (rule sort_key_inj_key_eq)
    show "mset (pn_completion net ?ok) = mset ?ok" by (rule assms(4))
    show "inj_on ?pos (set (pn_completion net ?ok))" unfolding sets by (rule inj_on_subset [OF inj]) auto
    have "sorted (map ?pos cs)" unfolding pos by simp
    then show "sorted (map ?pos ?ok)" by (rule sorted_filter)
  qed
  then show ?thesis using assms(3) by (simp add: probe_reachable_candidates_def)
qed


section \<open>Agreement\<close>

text \<open>A device sees exactly the devices of \<open>R\<close> besides itself.\<close>

definition sees :: "probe_net \<Rightarrow> device_candidate list \<Rightarrow> string set \<Rightarrow> string \<Rightarrow> bool" where
  "sees net cs R own \<longleftrightarrow> pn_running net \<and> (\<forall>xs. mset (pn_completion net xs) = mset xs)
     \<and> (\<forall>c\<in>set cs. dc_endpoint_id c \<noteq> own \<longrightarrow>
          (pn_parses net (dc_endpoint_id c) \<and> pn_connects net c) = (dc_endpoint_id c \<in> R))"

lemma elected:
  assumes "get_space_device_candidates env db sp = Inr cs" "distinct (map dc_endpoint_id cs)" "length cs \<le> 2 ^ 64"
    "sees net cs R e" "e \<in> R" "filter (\<lambda>c. dc_endpoint_id c \<in> R) cs = L # Ls"
  shows "elect_leader env db net sp e = Inr (if dc_endpoint_id L = e then SelfIsLeader
      else RemoteLeader (dc_endpoint_id L) (dc_relay_url L) (dc_priority L))"
proof -
  have "filter (probe_succeeds net e) cs = filter (\<lambda>c. dc_endpoint_id c \<in> R) cs"
    using assms(4,5) by (intro filter_cong) (auto simp: probe_succeeds_def sees_def)
  then have "probe_reachable_candidates net cs e = L # Ls"
    using probe_keeps_order [OF assms(2,3), of net e] assms(4,6) by (simp add: sees_def)
  moreover have "cs \<noteq> []" using assms(6) by auto
  ultimately show ?thesis using assms(1) by (simp add: elect_leader_def select_leader_def)
qed


text \<open>Two devices that reach each other; the rows are stored in the other order, and the probes
  complete in reverse.\<close>

definition device_row :: "string \<Rightarrow> int \<Rightarrow> row" where
  "device_row e n = \<lparr>cells = [''endpoint_id'' \<mapsto> SText e, ''leader_priority'' \<mapsto> SInteger n, ''space_id'' \<mapsto> SText ''s1''],
     row_hlc = Some ''1/1'', column_hlcs = Map.empty\<rparr>"

definition devices_db :: crdt_db where
  "devices_db = sample_crdt_db\<lparr>tables := [''haex_space_devices'' \<mapsto>
     plain_table [''endpoint_id'', ''relay_url'', ''leader_priority'', ''space_id''] [device_row ''e1'' 5, device_row ''e2'' 1]]\<rparr>"

definition int_lt :: "sql_value \<Rightarrow> sql_value \<Rightarrow> bool" where
  "int_lt a b = (case (a, b) of (SInteger i, SInteger j) \<Rightarrow> i < j | _ \<Rightarrow> False)"

definition devices_env :: space_env where
  "devices_env = sample_space_env\<lparr>se_lt := int_lt\<rparr>"

definition device_of :: "string \<Rightarrow> 32 word \<Rightarrow> device_candidate" where
  "device_of e n = \<lparr>dc_endpoint_id = e, dc_relay_url = None, dc_priority = n\<rparr>"

definition reverse_net :: probe_net where
  "reverse_net = \<lparr>pn_running = True, pn_parses = (\<lambda>_. True), pn_connects = (\<lambda>_. True), pn_completion = rev\<rparr>"

lemma devices_read: "get_space_device_candidates devices_env devices_db ''s1'' = Inr [device_of ''e2'' 1, device_of ''e1'' 5]"
  by (simp add: get_space_device_candidates_def table_rows_def has_column_def sort_by_def device_order_def sql_compare_def
      where_eq_def cell_def candidate_of_row_def read_str_def device_of_def device_row_def devices_db_def devices_env_def int_lt_def
      plain_table_def data_cols_def sample_space_env_def sample_crdt_db_def sample_engine_def
      HLC_TIMESTAMP_COLUMN_def COLUMN_HLCS_COLUMN_def)


text \<open>Without that, two devices may both lead: each that reaches nobody elects itself.\<close>

lemma isolated_device_leads:
  assumes "get_space_device_candidates env db sp = Inr cs" "e \<in> dc_endpoint_id ` set cs"
    "\<not> pn_running net"
  shows "elect_leader env db net sp e = Inr SelfIsLeader"
proof -
  let ?own = "filter (\<lambda>c. dc_endpoint_id c = e) cs"
  have "?own \<noteq> []" using assms(2) by (auto simp: filter_empty_conv)
  then obtain c rest where own: "?own = c # rest" by (cases ?own) auto
  then have "c \<in> set ?own" by simp
  then have "dc_endpoint_id c = e" "cs \<noteq> []" by auto
  with own assms show ?thesis
    by (simp add: elect_leader_def probe_reachable_candidates_def select_leader_def)
qed

text \<open>A row without a priority counts as 10, but SQLite sorts NULL first, so it is preferred to every
  priority.\<close>

lemma null_priority_first:
  assumes "col env a ''leader_priority'' = SNull" "col env b ''leader_priority'' = SInteger 0" "se_lt env SNull (SInteger 0)"
  shows "device_order env a b = Less \<and> dc_priority (candidate_of_row env a) = 10 \<and> dc_priority (candidate_of_row env b) = 0"
  using assms by (simp add: device_order_def sql_compare_def candidate_of_row_def)


section \<open>Cursors survive a restart\<close>

lemma parse_show_int:
  assumes "- (2 ^ 63) \<le> i" "i < 2 ^ 63"
  shows "parse_i64 (show_int i) = Some i"
proof (cases "i < 0")
  case True
  then have "nat (- i) \<le> 2 ^ 63" using assms by simp
  then show ?thesis using True parse_digits_show [of 10 "nat (- i)"] by (simp add: parse_i64_def show_int_def)
next
  case False
  obtain c cs where s: "show_radix 10 (nat i) = c # cs" by (cases "show_radix 10 (nat i)") auto
  have sgn: "c \<noteq> CHR ''-''" "c \<noteq> CHR ''+''" using show_radix_chars [of 10 "nat i"] s by auto
  have "nat i < 2 ^ 63" using assms False by (simp add: nat_less_iff)
  moreover have "parse_digits 10 0 (c # cs) = Some (nat i)" using parse_digits_show [of 10 "nat i"] s by simp
  ultimately show ?thesis using False sgn s by (simp add: parse_i64_def show_int_def del: parse_digits.simps)
qed

text \<open>A stored cursor is read back: after saving the message cursor of a space, loading it on the
  same device gives the same number, for every 64-bit number, and the cursors of other spaces, of
  other devices and of the push side are untouched.\<close>

theorem mls_cursor_round_trip:
  assumes "- (2 ^ 63) \<le> i" "i < 2 ^ 63"
  shows "load_last_mls_cursor False (save_last_mls_cursor False sp dev i vs) sp' dev' =
      (if sp' = sp \<and> dev' = dev then Some i else load_last_mls_cursor False vs sp' dev')
    \<and> load_last_push_hlc False (save_last_mls_cursor False sp dev i vs) sp' dev' = load_last_push_hlc False vs sp' dev'"
  using parse_show_int [OF assms]
  by (auto simp: load_last_mls_cursor_def save_last_mls_cursor_def load_last_push_hlc_def load_setting_def save_setting_def
      mls_cursor_key_def cursor_key_def)

theorem mls_cursor_round_trip_witness:
  "load_last_mls_cursor False (save_last_mls_cursor False ''s'' ''d'' (- 7) Map.empty) ''s'' ''d'' = Some (- 7)"
  by (simp add: mls_cursor_round_trip)

end
