(* ===== verification/DidAuth.thy ===== *)
theory DidAuth
  imports Ucan
begin

text \<open>
  The handshake that binds a QUIC connection to a DID (\<open>quic_did_auth\<close>): the server sends a fresh
  nonce with its endpoint id, the client signs nonce and both endpoint ids with the key of its DID.
  Messages are length-prefixed JSON on a byte stream; base64, JSON text and Ed25519 are the fields
  of \<open>did_auth_env\<close>.  A stream is the bytes it delivers before it ends.
\<close>

record did_auth_env =
  da_ucan :: ucan_env
  da_b64_encode :: "bytes \<Rightarrow> string"
  da_write_error :: "string option"


section \<open>Wire format\<close>

definition PROTOCOL_VERSION :: nat where "PROTOCOL_VERSION = 1"
definition NONCE_LEN :: nat where "NONCE_LEN = 32"
definition DOMAIN_TAG :: bytes where "DOMAIN_TAG = as_bytes ''haex-did-auth/v1''"
definition MAX_MESSAGE_SIZE :: nat where "MAX_MESSAGE_SIZE = 64 * 1024"

record challenge =
  ch_v :: nat
  ch_nonce :: string
  ch_server_endpoint_id :: string

record auth_response =
  rs_v :: nat
  rs_did :: string
  rs_client_endpoint_id :: string
  rs_signature :: string

text \<open>\<open>(n as u32).to_be_bytes()\<close>: the four low bytes.\<close>

definition be32 :: "nat \<Rightarrow> bytes" where
  "be32 n = [word_of_nat (n div 2 ^ 24), word_of_nat (n div 2 ^ 16), word_of_nat (n div 2 ^ 8), word_of_nat n]"

definition from_be32 :: "bytes \<Rightarrow> nat" where
  "from_be32 bs = foldl (\<lambda>a b. a * 256 + unat b) 0 bs"

definition build_sig_input :: "bytes \<Rightarrow> string \<Rightarrow> string \<Rightarrow> bytes" where
  "build_sig_input nonce client_endpoint_id server_endpoint_id =
     DOMAIN_TAG @ be32 (length nonce) @ nonce
     @ be32 (length (as_bytes client_endpoint_id)) @ as_bytes client_endpoint_id
     @ be32 (length (as_bytes server_endpoint_id)) @ as_bytes server_endpoint_id"


section \<open>Messages on a stream\<close>

datatype challenge_error =
    WireProtocol string
  | UnsupportedVersion nat
  | EndpointIdMismatch string string
  | MalformedDid ucan_verify_error
  | MalformedBase64
  | NonceLength nat nat
  | SignatureInvalid
  | HandshakeTimeout

definition wire :: "(string, 'a) result \<Rightarrow> (challenge_error, 'a) result" where
  "wire r = (case r of Inl e \<Rightarrow> Inl (WireProtocol e) | Inr x \<Rightarrow> Inr x)"

text \<open>The derived decoders take an object with each field once, or an array of the fields in order.\<close>

definition json_field :: "(string \<times> json) list \<Rightarrow> string \<Rightarrow> json option" where
  "json_field kvs k = (case filter (\<lambda>(k', _). k' = k) kvs of [(_, v)] \<Rightarrow> Some v | _ \<Rightarrow> None)"

definition struct_fields :: "string list \<Rightarrow> json \<Rightarrow> json list option" where
  "struct_fields ks j =
     (case j of
        JObject kvs \<Rightarrow> (if list_all (\<lambda>k. json_field kvs k \<noteq> None) ks then Some (map (\<lambda>k. the (json_field kvs k)) ks) else None)
      | JArray vs \<Rightarrow> (if length vs = length ks then Some vs else None)
      | _ \<Rightarrow> None)"

definition challenge_from_json :: "json \<Rightarrow> (string, challenge) result" where
  "challenge_from_json j =
     (case struct_fields [''v'', ''nonce'', ''server_endpoint_id''] j of
        Some [JInt v, JString n, JString s] \<Rightarrow>
          if 0 \<le> v \<and> v < 2 ^ 32 then Inr \<lparr>ch_v = nat v, ch_nonce = n, ch_server_endpoint_id = s\<rparr>
          else Inl ''invalid value''
      | _ \<Rightarrow> Inl ''invalid challenge'')"

definition challenge_to_json :: "challenge \<Rightarrow> json" where
  "challenge_to_json c = JObject [(''v'', JInt (int (ch_v c))), (''nonce'', JString (ch_nonce c)),
     (''server_endpoint_id'', JString (ch_server_endpoint_id c))]"

definition response_from_json :: "json \<Rightarrow> (string, auth_response) result" where
  "response_from_json j =
     (case struct_fields [''v'', ''did'', ''client_endpoint_id'', ''signature''] j of
        Some [JInt v, JString d, JString c, JString s] \<Rightarrow>
          if 0 \<le> v \<and> v < 2 ^ 32
          then Inr \<lparr>rs_v = nat v, rs_did = d, rs_client_endpoint_id = c, rs_signature = s\<rparr>
          else Inl ''invalid value''
      | _ \<Rightarrow> Inl ''invalid response'')"

definition response_to_json :: "auth_response \<Rightarrow> json" where
  "response_to_json r = JObject [(''v'', JInt (int (rs_v r))), (''did'', JString (rs_did r)),
     (''client_endpoint_id'', JString (rs_client_endpoint_id r)), (''signature'', JString (rs_signature r))]"

definition write_message :: "did_auth_env \<Rightarrow> json \<Rightarrow> (challenge_error, bytes) result" where
  "write_message env msg =
     and_then (wire (json_to_string (da_ucan env) msg)) (\<lambda>text.
       let bs = as_bytes text
       in if MAX_MESSAGE_SIZE < length bs then Inl (WireProtocol ''outgoing message too large'')
          else (case da_write_error env of
                  Some e \<Rightarrow> Inl (WireProtocol e)
                | None \<Rightarrow> Inr (be32 (length bs) @ bs)))"

definition read_exact :: "nat \<Rightarrow> bytes \<Rightarrow> (challenge_error, bytes \<times> bytes) result" where
  "read_exact n input = (if length input < n then Inl (WireProtocol ''early eof'') else Inr (take n input, drop n input))"

definition read_message :: "did_auth_env \<Rightarrow> (json \<Rightarrow> (string, 'a) result) \<Rightarrow> bytes \<Rightarrow> (challenge_error, 'a \<times> bytes) result" where
  "read_message env decode input =
     and_then (read_exact 4 input) (\<lambda>(len_buf, rest).
       let len = from_be32 len_buf
       in if MAX_MESSAGE_SIZE < len then Inl (WireProtocol ''incoming message too large'')
          else and_then (read_exact len rest) (\<lambda>(buf, rest').
            and_then (wire (and_then (json_from_slice (da_ucan env) buf) decode)) (\<lambda>m. Inr (m, rest'))))"


section \<open>The two sides\<close>

definition verify_response ::
  "did_auth_env \<Rightarrow> auth_response \<Rightarrow> bytes \<Rightarrow> string \<Rightarrow> string \<Rightarrow> (challenge_error, string) result" where
  "verify_response env response expected_nonce remote_endpoint_id server_endpoint_id =
     (if rs_v response \<noteq> PROTOCOL_VERSION then Inl (UnsupportedVersion (rs_v response))
      else if rs_client_endpoint_id response \<noteq> remote_endpoint_id
      then Inl (EndpointIdMismatch (rs_client_endpoint_id response) remote_endpoint_id)
      else (case public_key_from_did (da_ucan env) (rs_did response) of
              Inl e \<Rightarrow> Inl (MalformedDid e)
            | Inr verifying_key \<Rightarrow>
                (case b64_decode (da_ucan env) (rs_signature response) of
                   Inl _ \<Rightarrow> Inl MalformedBase64
                 | Inr sig_bytes \<Rightarrow>
                     if length sig_bytes \<noteq> 64 then Inl SignatureInvalid
                     else if \<not> ed_verify (da_ucan env) verifying_key
                            (build_sig_input expected_nonce (rs_client_endpoint_id response) server_endpoint_id) sig_bytes
                     then Inl SignatureInvalid
                     else Inr (rs_did response))))"

definition server_challenge :: "did_auth_env \<Rightarrow> bytes \<Rightarrow> string \<Rightarrow> challenge" where
  "server_challenge env nonce own_endpoint_id =
     \<lparr>ch_v = PROTOCOL_VERSION, ch_nonce = da_b64_encode env nonce, ch_server_endpoint_id = own_endpoint_id\<rparr>"

definition challenge_message :: "did_auth_env \<Rightarrow> bytes \<Rightarrow> string \<Rightarrow> (challenge_error, bytes) result" where
  "challenge_message env nonce own_endpoint_id =
     write_message env (challenge_to_json (server_challenge env nonce own_endpoint_id))"

text \<open>\<open>timely\<close> tells whether the message arrived within the time limit.\<close>

definition challenge_and_verify ::
  "did_auth_env \<Rightarrow> bytes \<Rightarrow> string \<Rightarrow> string \<Rightarrow> bool \<Rightarrow> bytes \<Rightarrow> (challenge_error, string) result" where
  "challenge_and_verify env nonce own_endpoint_id remote_endpoint_id timely input =
     and_then (challenge_message env nonce own_endpoint_id) (\<lambda>_.
       if \<not> timely then Inl HandshakeTimeout
       else and_then (read_message env response_from_json input) (\<lambda>(response, _).
              verify_response env response nonce remote_endpoint_id own_endpoint_id))"

definition client_reply :: "did_auth_env \<Rightarrow> string \<Rightarrow> bytes \<Rightarrow> string \<Rightarrow> bytes \<Rightarrow> string \<Rightarrow> auth_response" where
  "client_reply env my_did my_signing_key own_endpoint_id nonce_bytes server_endpoint_id =
     \<lparr>rs_v = PROTOCOL_VERSION, rs_did = my_did, rs_client_endpoint_id = own_endpoint_id,
      rs_signature = da_b64_encode env (ed_sign (da_ucan env) my_signing_key
        (build_sig_input nonce_bytes own_endpoint_id server_endpoint_id))\<rparr>"

definition client_response ::
  "did_auth_env \<Rightarrow> string \<Rightarrow> bytes \<Rightarrow> string \<Rightarrow> challenge \<Rightarrow> (challenge_error, bytes \<times> auth_response) result" where
  "client_response env my_did my_signing_key own_endpoint_id c =
     (if ch_v c \<noteq> PROTOCOL_VERSION then Inl (UnsupportedVersion (ch_v c))
      else (case b64_decode (da_ucan env) (ch_nonce c) of
              Inl _ \<Rightarrow> Inl MalformedBase64
            | Inr nonce_bytes \<Rightarrow>
                if length nonce_bytes \<noteq> NONCE_LEN then Inl (NonceLength NONCE_LEN (length nonce_bytes))
                else Inr (nonce_bytes,
                  client_reply env my_did my_signing_key own_endpoint_id nonce_bytes (ch_server_endpoint_id c))))"

definition respond_to_challenge ::
  "did_auth_env \<Rightarrow> string \<Rightarrow> bytes \<Rightarrow> string \<Rightarrow> bool \<Rightarrow> bytes \<Rightarrow> (challenge_error, bytes) result" where
  "respond_to_challenge env my_did my_signing_key own_endpoint_id timely input =
     (if \<not> timely then Inl HandshakeTimeout
      else and_then (read_message env challenge_from_json input) (\<lambda>(c, _).
        and_then (client_response env my_did my_signing_key own_endpoint_id c) (\<lambda>(_, r).
          write_message env (response_to_json r))))"


section \<open>Framing\<close>

lemma length_as_bytes [simp]: "length (as_bytes s) = length s"
  by (simp add: as_bytes_def)

lemma as_bytes_inject: "as_bytes a = as_bytes b \<longleftrightarrow> a = b"
proof -
  have "inj (\<lambda>c :: char. (of_nat (of_char c) :: 8 word))"
  proof (rule injI)
    fix x y :: char
    assume "(of_nat (of_char x) :: 8 word) = of_nat (of_char y)"
    then have "unat (of_nat (of_char x) :: 8 word) = unat (of_nat (of_char y) :: 8 word)" by simp
    then have "(of_char x :: nat) = of_char y" unfolding unat_of_nat by simp
    then show "x = y" by simp
  qed
  then show ?thesis by (simp add: as_bytes_def inj_map_eq_map)
qed

lemma length_be32 [simp]: "length (be32 n) = 4"
  by (simp add: be32_def)

lemma from_be32_be32: "n < 2 ^ 32 \<Longrightarrow> from_be32 (be32 n) = n"
proof -
  assume n: "n < 2 ^ 32"
  have u: "unat (word_of_nat k :: 8 word) = k mod 256" for k by (simp add: unat_of_nat)
  have "n div 2 ^ 24 < 256" using n by (simp add: less_mult_imp_div_less)
  moreover have "n div 2 ^ 16 mod 256 + n div 2 ^ 24 * 256 = n div 2 ^ 16"
    using div_mult_mod_eq [of "n div 2 ^ 16" 256] by (simp add: div_mult2_eq [symmetric] add.commute)
  moreover have "n div 2 ^ 8 mod 256 + n div 2 ^ 16 * 256 = n div 2 ^ 8"
    using div_mult_mod_eq [of "n div 2 ^ 8" 256] by (simp add: div_mult2_eq [symmetric] add.commute)
  moreover have "n mod 256 + n div 2 ^ 8 * 256 = n"
    using div_mult_mod_eq [of n 256] by (simp add: add.commute)
  ultimately show ?thesis by (simp add: be32_def from_be32_def u algebra_simps)
qed

lemma be32_inject: "m < 2 ^ 32 \<Longrightarrow> n < 2 ^ 32 \<Longrightarrow> be32 m = be32 n \<longleftrightarrow> m = n"
  using from_be32_be32 by metis

text \<open>A message that was written is read back and leaves the rest of the stream.\<close>

lemma read_written:
  assumes "write_message env j = Inr bs" "json_round_trip (da_ucan env) j" "decode j = Inr m"
  shows "read_message env decode (bs @ rest) = Inr (m, rest)"
proof -
  from assms(1) obtain body where t: "json_to_string (da_ucan env) j = Inr body" "length body \<le> MAX_MESSAGE_SIZE"
    "bs = be32 (length body) @ as_bytes body"
    by (auto simp: write_message_def wire_def Let_def res_simps split: sum.splits if_splits option.splits)
  have "json_from_slice (da_ucan env) (as_bytes body) = Inr j" using assms(2) t(1) by (auto simp: json_round_trip_def)
  moreover have "from_be32 (be32 (length body)) = length body"
    using t(2) by (intro from_be32_be32) (simp add: MAX_MESSAGE_SIZE_def)
  ultimately show ?thesis using t(2,3) assms(3)
    by (simp add: read_message_def read_exact_def Let_def wire_def)
qed

lemma message_decoders:
  "ch_v c < 2 ^ 32 \<Longrightarrow> challenge_from_json (challenge_to_json c) = Inr c"
  "rs_v r < 2 ^ 32 \<Longrightarrow> response_from_json (response_to_json r) = Inr r"
  by (simp_all add: challenge_from_json_def challenge_to_json_def response_from_json_def response_to_json_def
      struct_fields_def json_field_def)



section \<open>What is signed\<close>

definition sizes_ok :: "bytes \<Rightarrow> string \<Rightarrow> string \<Rightarrow> bool" where
  "sizes_ok nonce client server \<longleftrightarrow> length nonce < 2 ^ 32 \<and> length client < 2 ^ 32 \<and> length server < 2 ^ 32"

lemma framed_inject:
  assumes "be32 (length a) @ a @ x = be32 (length b) @ b @ y" "length a < 2 ^ 32" "length b < 2 ^ 32"
  shows "a = b \<and> x = y"
proof -
  have "be32 (length a) = be32 (length b)" "a @ x = b @ y" using assms(1) by (simp_all add: append_eq_append_conv)
  then have "length a = length b" using assms(2,3) be32_inject by blast
  with \<open>a @ x = b @ y\<close> show ?thesis by simp
qed

lemma sig_input_parts:
  assumes "build_sig_input n c s = build_sig_input n' c' s'" "sizes_ok n c s" "sizes_ok n' c' s'"
  shows "n = n' \<and> c = c' \<and> s = s'"
proof -
  have 1: "n = n' \<and> be32 (length (as_bytes c)) @ as_bytes c @ be32 (length (as_bytes s)) @ as_bytes s
      = be32 (length (as_bytes c')) @ as_bytes c' @ be32 (length (as_bytes s')) @ as_bytes s'"
    using assms by (intro framed_inject) (simp_all add: build_sig_input_def sizes_ok_def)
  have 2: "as_bytes c = as_bytes c' \<and> be32 (length (as_bytes s)) @ as_bytes s = be32 (length (as_bytes s')) @ as_bytes s'"
    using 1 assms(2,3) by (intro framed_inject) (simp_all add: sizes_ok_def)
  have "as_bytes s = as_bytes s' \<and> ([] :: bytes) = []"
    using 2 assms(2,3) by (intro framed_inject) (simp_all add: sizes_ok_def)
  with 1 2 show ?thesis by (simp add: as_bytes_inject)
qed

text \<open>The signed bytes determine the handshake: two handshakes with the same signature input
  have the same nonce, client endpoint and server endpoint, whatever bytes these contain, and the
  input carries the domain tag.\<close>

theorem sig_input_injective:
  assumes "build_sig_input n c s = build_sig_input n' c' s'" "sizes_ok n c s" "sizes_ok n' c' s'"
  shows "n = n' \<and> c = c' \<and> s = s' \<and> take (length DOMAIN_TAG) (build_sig_input n c s) = DOMAIN_TAG"
  using sig_input_parts [OF assms] by (simp add: build_sig_input_def)

theorem sig_input_injective_witness:
  "build_sig_input [1] ''ab'' ''c'' \<noteq> build_sig_input [1] ''a'' ''bc''"
  using sig_input_injective [of "[1]" "''ab''" "''c''" "[1]" "''a''" "''bc''"] by (auto simp: sizes_ok_def)


section \<open>An honest run\<close>

definition base64_laws :: "did_auth_env \<Rightarrow> bool" where
  "base64_laws env \<longleftrightarrow> (\<forall>b. b64_decode (da_ucan env) (da_b64_encode env b) = Inr b)"

lemma reply_verifies:
  assumes laws: "codec_laws (da_ucan env)" "signature_laws (da_ucan env)" "base64_laws env"
    and key: "length seed = 32" "did = did_key_from_public_key (da_ucan env) (ed_public (da_ucan env) seed)"
  shows "verify_response env (client_reply env did seed ep nonce own) nonce ep own = Inr did"
  using assms did_key_round_trip [of "da_ucan env" "ed_public (da_ucan env) seed"]
  by (auto simp: client_reply_def verify_response_def base64_laws_def signature_laws_def)

text \<open>The handshake succeeds between honest parties: when the client answers the challenge bytes
  of the server with the key of its DID, on the endpoint the server sees, the server returns this
  DID, whatever follows on either stream.\<close>

theorem honest_handshake_accepted:
  assumes laws: "codec_laws (da_ucan env)" "signature_laws (da_ucan env)" "base64_laws env"
    and json: "json_round_trip (da_ucan env) (challenge_to_json (server_challenge env nonce own))"
      "json_round_trip (da_ucan env) (response_to_json (client_reply env did seed ep nonce own))"
    and key: "length seed = 32" "did = did_key_from_public_key (da_ucan env) (ed_public (da_ucan env) seed)"
    and nonce: "length nonce = NONCE_LEN"
    and sent: "challenge_message env nonce own = Inr bs"
    and answered: "respond_to_challenge env did seed ep True (bs @ rest) = Inr reply"
  shows "challenge_and_verify env nonce own ep True (reply @ rest') = Inr did"
proof -
  have "read_message env challenge_from_json (bs @ rest) = Inr (server_challenge env nonce own, rest)"
    by (rule read_written [OF sent [unfolded challenge_message_def] json(1)], rule message_decoders(1))
      (simp add: server_challenge_def PROTOCOL_VERSION_def)
  moreover have "client_response env did seed ep (server_challenge env nonce own)
      = Inr (nonce, client_reply env did seed ep nonce own)"
    using laws(3) nonce by (simp add: client_response_def server_challenge_def base64_laws_def)
  ultimately have "write_message env (response_to_json (client_reply env did seed ep nonce own)) = Inr reply"
    using answered by (simp add: respond_to_challenge_def)
  then have "read_message env response_from_json (reply @ rest') = Inr (client_reply env did seed ep nonce own, rest')"
    by (rule read_written [OF _ json(2)], intro message_decoders(2)) (simp add: client_reply_def PROTOCOL_VERSION_def)
  then show ?thesis using sent reply_verifies [OF laws key] by (simp add: challenge_and_verify_def)
qed


section \<open>Sessions and an attacker\<close>

text \<open>The attacker owns the network: it decides which bytes every party reads.  What is recorded: the
  nonces drawn, the open handshakes by connection (nonce, own endpoint, remote endpoint), the
  bytes honest keys have signed, the runs of honest clients (DID, nonce, own endpoint, server
  endpoint of the challenge) and the accepted handshakes.\<close>

record auth_state =
  as_used :: "bytes list"
  as_pending :: "nat \<rightharpoonup> bytes \<times> string \<times> string"
  as_signed :: "(bytes \<times> bytes) list"
  as_runs :: "(string \<times> bytes \<times> string \<times> string) list"
  as_accepted :: "(nat \<times> string \<times> bytes \<times> string \<times> string) list"

definition auth_init :: auth_state where
  "auth_init = \<lparr>as_used = [], as_pending = Map.empty, as_signed = [], as_runs = [], as_accepted = []\<rparr>"

text \<open>What is asked of Ed25519: a signature the attacker presents verifies under an honest key only if
  the holder has signed these bytes.  The holder may sign other things, none of which carry the
  domain tag.  Endpoint ids are shorter than \<open>2 ^ 32\<close> bytes.\<close>

definition unforged :: "did_auth_env \<Rightarrow> (string \<times> bytes) set \<Rightarrow> (bytes \<times> bytes) list \<Rightarrow> bytes \<Rightarrow> string \<Rightarrow> bool" where
  "unforged env honest made msg sig_text \<longleftrightarrow> (\<forall>(did, seed)\<in>honest. \<forall>sig.
     b64_decode (da_ucan env) sig_text = Inr sig \<and> ed_verify (da_ucan env) (ed_public (da_ucan env) seed) msg sig
       \<longrightarrow> (ed_public (da_ucan env) seed, msg) \<in> set made)"

inductive auth_step :: "did_auth_env \<Rightarrow> (string \<times> bytes) set \<Rightarrow> auth_state \<Rightarrow> auth_state \<Rightarrow> bool" for env honest where
  draw: "auth_step env honest s (s\<lparr>as_used := nonce # as_used s, as_pending := (as_pending s)(c \<mapsto> (nonce, own, remote))\<rparr>)"
    if "nonce \<notin> set (as_used s)" "length nonce = NONCE_LEN" "as_pending s c = None" "sizes_ok nonce remote own"
| respond: "auth_step env honest s (s\<lparr>as_signed := (ed_public (da_ucan env) seed, build_sig_input nonce ep (ch_server_endpoint_id ch)) # as_signed s,
      as_runs := (did, nonce, ep, ch_server_endpoint_id ch) # as_runs s\<rparr>)"
    if "(did, seed) \<in> honest" "read_message env challenge_from_json input = Inr (ch, rest)"
      "client_response env did seed ep ch = Inr (nonce, r)" "sizes_ok nonce ep (ch_server_endpoint_id ch)"
| sign_other: "auth_step env honest s (s\<lparr>as_signed := (ed_public (da_ucan env) seed, msg) # as_signed s\<rparr>)"
    if "(did, seed) \<in> honest" "take (length DOMAIN_TAG) msg \<noteq> DOMAIN_TAG"
| accept: "auth_step env honest s (s\<lparr>as_pending := (as_pending s)(c := None), as_accepted := (c, did, nonce, own, remote) # as_accepted s\<rparr>)"
    if "as_pending s c = Some (nonce, own, remote)" "read_message env response_from_json input = Inr (r, rest)"
      "unforged env honest (as_signed s) (build_sig_input nonce (rs_client_endpoint_id r) own) (rs_signature r)"
      "challenge_and_verify env nonce own remote True input = Inr did"
| give_up: "auth_step env honest s (s\<lparr>as_pending := (as_pending s)(c := None)\<rparr>)"

inductive_cases auth_stepE: "auth_step env honest s s'"

definition honest_keys :: "did_auth_env \<Rightarrow> (string \<times> bytes) set \<Rightarrow> bool" where
  "honest_keys env honest \<longleftrightarrow> (\<forall>(did, seed)\<in>honest. length seed = 32
     \<and> did = did_key_from_public_key (da_ucan env) (ed_public (da_ucan env) seed))"

lemma verify_response_Inr:
  "verify_response env r nonce remote own = Inr did \<longleftrightarrow>
     rs_v r = PROTOCOL_VERSION \<and> rs_client_endpoint_id r = remote \<and> rs_did r = did
     \<and> (\<exists>pk sig. public_key_from_did (da_ucan env) did = Inr pk \<and> b64_decode (da_ucan env) (rs_signature r) = Inr sig
          \<and> length sig = 64 \<and> ed_verify (da_ucan env) pk (build_sig_input nonce remote own) sig)"
  by (auto simp: verify_response_def split: sum.splits if_splits)

text \<open>The invariant: open and accepted handshakes have nonces of their own; tagged bytes that were
  signed belong to a run; an accepted honest DID has its run.\<close>

definition accepted_nonces :: "auth_state \<Rightarrow> bytes list" where
  "accepted_nonces s = map (\<lambda>(c, did, nonce, own, remote). nonce) (as_accepted s)"

definition pending_inv :: "auth_state \<Rightarrow> bool" where
  "pending_inv s \<longleftrightarrow> (\<forall>c nonce own remote. as_pending s c = Some (nonce, own, remote) \<longrightarrow>
     nonce \<in> set (as_used s) \<and> sizes_ok nonce remote own \<and> nonce \<notin> set (accepted_nonces s)
     \<and> (\<forall>c' own' remote'. as_pending s c' = Some (nonce, own', remote') \<longrightarrow> c' = c))"

definition signed_inv :: "did_auth_env \<Rightarrow> auth_state \<Rightarrow> bool" where
  "signed_inv env s \<longleftrightarrow> (\<forall>pk msg. (pk, msg) \<in> set (as_signed s) \<longrightarrow> take (length DOMAIN_TAG) msg = DOMAIN_TAG \<longrightarrow>
     (\<exists>did nonce ep srv. (did, nonce, ep, srv) \<in> set (as_runs s) \<and> sizes_ok nonce ep srv
        \<and> msg = build_sig_input nonce ep srv \<and> did = did_key_from_public_key (da_ucan env) pk))"

definition accepted_inv :: "(string \<times> bytes) set \<Rightarrow> auth_state \<Rightarrow> bool" where
  "accepted_inv honest s \<longleftrightarrow> distinct (accepted_nonces s) \<and> set (accepted_nonces s) \<subseteq> set (as_used s)
     \<and> (\<forall>c did nonce own remote. (c, did, nonce, own, remote) \<in> set (as_accepted s) \<longrightarrow> did \<in> fst ` honest
          \<longrightarrow> (did, nonce, remote, own) \<in> set (as_runs s))"

definition auth_inv :: "did_auth_env \<Rightarrow> (string \<times> bytes) set \<Rightarrow> auth_state \<Rightarrow> bool" where
  "auth_inv env honest s \<longleftrightarrow> pending_inv s \<and> signed_inv env s \<and> accepted_inv honest s"

lemmas auth_inv_defs = auth_inv_def pending_inv_def signed_inv_def accepted_inv_def accepted_nonces_def

lemma auth_init_inv: "auth_inv env honest auth_init"
  by (simp add: auth_inv_defs auth_init_def)

lemma accepted_has_run:
  assumes laws: "codec_laws (da_ucan env)" "signature_laws (da_ucan env)" "honest_keys env honest"
    and inv: "auth_inv env honest s" "as_pending s c = Some (nonce, own, remote)"
    and msg: "read_message env response_from_json input = Inr (r, rest)"
      "unforged env honest (as_signed s) (build_sig_input nonce (rs_client_endpoint_id r) own) (rs_signature r)"
      "challenge_and_verify env nonce own remote True input = Inr did"
    and did: "(did, seed) \<in> honest"
  shows "(did, nonce, remote, own) \<in> set (as_runs s)"
proof -
  let ?u = "da_ucan env" and ?m = "build_sig_input nonce remote own"
  from msg obtain pk sig where v: "rs_client_endpoint_id r = remote" "public_key_from_did ?u did = Inr pk"
    "b64_decode ?u (rs_signature r) = Inr sig" "ed_verify ?u pk ?m sig"
    by (auto simp: challenge_and_verify_def res_simps verify_response_Inr)
  have k: "length seed = 32" "did = did_key_from_public_key ?u (ed_public ?u seed)"
    using laws(3) did by (auto simp: honest_keys_def)
  then have pk: "pk = ed_public ?u seed"
    using v(2) did_key_round_trip [OF laws(1)] laws(2) by (auto simp: signature_laws_def)
  have "(ed_public ?u seed, ?m) \<in> set (as_signed s)"
    using msg(2) did v(3,4) unfolding unforged_def v(1) pk by blast
  moreover have "take (length DOMAIN_TAG) ?m = DOMAIN_TAG" by (simp add: build_sig_input_def)
  ultimately obtain did' n ep srv where run: "(did', n, ep, srv) \<in> set (as_runs s)" "sizes_ok n ep srv"
    "?m = build_sig_input n ep srv" "did' = did"
    using inv(1) k(2) unfolding auth_inv_def signed_inv_def by metis
  have "sizes_ok nonce remote own" using inv unfolding auth_inv_def pending_inv_def by blast
  then have "nonce = n \<and> remote = ep \<and> own = srv" using sig_input_parts [OF run(3)] run(2) by blast
  with run show ?thesis by simp
qed

lemma auth_step_inv:
  assumes laws: "codec_laws (da_ucan env)" "signature_laws (da_ucan env)" "honest_keys env honest"
    and "auth_inv env honest s" "auth_step env honest s s'"
  shows "auth_inv env honest s'"
  using assms(5)
proof cases
  case (draw nonce c own remote)
  have "nonce \<notin> set (accepted_nonces s)" using draw(2) assms(4) unfolding auth_inv_def accepted_inv_def by blast
  moreover have "\<forall>c own remote. as_pending s c \<noteq> Some (nonce, own, remote)"
    using draw(2) assms(4) unfolding auth_inv_def pending_inv_def by blast
  ultimately have "pending_inv s'"
    using assms(4) draw unfolding auth_inv_def pending_inv_def
    by (auto simp: accepted_nonces_def split: if_splits)
  moreover have "signed_inv env s'" "accepted_inv honest s'"
    using assms(4) draw(1) by (auto simp: auth_inv_def signed_inv_def accepted_inv_def accepted_nonces_def)
  ultimately show ?thesis by (simp add: auth_inv_def)
next
  case (respond did seed input ch rest ep nonce r)
  have "signed_inv env s'" unfolding signed_inv_def
  proof (intro allI impI)
    fix pk msg
    assume m: "(pk, msg) \<in> set (as_signed s')" "take (length DOMAIN_TAG) msg = DOMAIN_TAG"
    have d: "did = did_key_from_public_key (da_ucan env) (ed_public (da_ucan env) seed)"
      using respond(2) laws(3) by (auto simp: honest_keys_def)
    show "\<exists>did nonce ep srv. (did, nonce, ep, srv) \<in> set (as_runs s') \<and> sizes_ok nonce ep srv
        \<and> msg = build_sig_input nonce ep srv \<and> did = did_key_from_public_key (da_ucan env) pk"
      using m respond(1,5) d assms(4) unfolding auth_inv_def signed_inv_def by (auto; metis)
  qed
  moreover have "pending_inv s'" "accepted_inv honest s'"
    using assms(4) respond(1) by (auto simp: auth_inv_def pending_inv_def accepted_inv_def accepted_nonces_def)
  ultimately show ?thesis by (simp add: auth_inv_def)
next
  case (sign_other did seed msg)
  then show ?thesis
    using assms(4) by (simp add: auth_inv_def pending_inv_def signed_inv_def accepted_inv_def accepted_nonces_def)
next
  case (accept c nonce own remote input r rest did)
  have run: "did \<in> fst ` honest \<Longrightarrow> (did, nonce, remote, own) \<in> set (as_runs s)"
    using accepted_has_run [OF laws assms(4) accept(2-5)] by auto
  have n: "nonce \<in> set (as_used s)" "nonce \<notin> set (accepted_nonces s)"
    "\<forall>c' own' remote'. as_pending s c' = Some (nonce, own', remote') \<longrightarrow> c' = c"
    using assms(4) accept(2) unfolding auth_inv_def pending_inv_def by blast+
  have acc: "accepted_nonces s' = nonce # accepted_nonces s" using accept(1) by (simp add: accepted_nonces_def)
  have "pending_inv s'"
    using assms(4) accept(1) n(3) unfolding auth_inv_def pending_inv_def acc by auto
  moreover have "accepted_inv honest s'"
    using assms(4) accept(1) n run unfolding auth_inv_def accepted_inv_def acc by auto
  moreover have "signed_inv env s'" using assms(4) accept(1) by (simp add: auth_inv_def signed_inv_def)
  ultimately show ?thesis by (simp add: auth_inv_def)
next
  case (give_up c)
  then show ?thesis
    using assms(4) by (auto simp: auth_inv_def pending_inv_def signed_inv_def accepted_inv_def accepted_nonces_def
        split: if_splits)
qed

text \<open>C36: Authentication in the presence of an attacker that controls the network, in every state
  that is reachable: when a server has accepted the DID of an honest party on a connection, this party
  has run the client side with the nonce of this connection, for the endpoint id of this server, on
  the endpoint at the other end of the connection; and every nonce is accepted at most once, so
  each accepted connection has a run of its own.\<close>

theorem did_authentication:
  assumes laws: "codec_laws (da_ucan env)" "signature_laws (da_ucan env)" "honest_keys env honest"
    and reach: "(auth_step env honest)\<^sup>*\<^sup>* auth_init s"
    and acc: "(c, did, nonce, own, remote) \<in> set (as_accepted s)" "did \<in> fst ` honest"
  shows "(did, nonce, remote, own) \<in> set (as_runs s) \<and> distinct (map (\<lambda>(c, did, nonce, own, remote). nonce) (as_accepted s))"
proof -
  have "auth_inv env honest s"
    using reach by (induction rule: rtranclp_induct) (auto intro: auth_init_inv auth_step_inv [OF laws])
  then show ?thesis using acc unfolding auth_inv_def accepted_inv_def accepted_nonces_def by blast
qed


text \<open>What the same key signs for a token does not carry the tag: base64 of a JSON object starts with
  the letter e.\<close>

lemma token_input_untagged:
  assumes "h \<noteq> []" "hd h \<noteq> CHR ''h''"
  shows "take (length DOMAIN_TAG) (as_bytes (h @ ''.'' @ p)) \<noteq> DOMAIN_TAG"
proof
  assume "take (length DOMAIN_TAG) (as_bytes (h @ ''.'' @ p)) = DOMAIN_TAG"
  then have "take 1 (take (length DOMAIN_TAG) (as_bytes (h @ ''.'' @ p))) = take 1 DOMAIN_TAG" by simp
  moreover have "take 1 (as_bytes x) = as_bytes (take 1 x)" for x by (simp add: as_bytes_def take_map)
  moreover have "1 \<le> length DOMAIN_TAG" by (simp add: DOMAIN_TAG_def)
  ultimately have "as_bytes (take 1 (h @ ''.'' @ p)) = as_bytes (take 1 ''haex-did-auth/v1'')"
    unfolding take_take DOMAIN_TAG_def by (simp add: min_def)
  then show False using assms by (cases h) (simp_all add: as_bytes_inject)
qed


section \<open>Instances\<close>

definition hs_nonce :: bytes where "hs_nonce = replicate 32 1"
definition hs_seed :: bytes where "hs_seed = replicate 32 7"

definition hs_challenge :: json where
  "hs_challenge = challenge_to_json \<lparr>ch_v = 1, ch_nonce = sample_encode hs_nonce, ch_server_endpoint_id = ''s''\<rparr>"

definition hs_response :: json where
  "hs_response = response_to_json \<lparr>rs_v = 1, rs_did = sample_did, rs_client_endpoint_id = ''c'',
     rs_signature = sample_encode (hs_seed @ hs_seed)\<rparr>"

definition hs_env :: did_auth_env where
  "hs_env = \<lparr>da_ucan = (sample_ucan_env hs_challenge)\<lparr>b64_decode := sample_decode,
       json_to_string := (\<lambda>j. Inr (if j = hs_challenge then ''c'' else ''r'')),
       json_from_slice := (\<lambda>b. if b = as_bytes ''c'' then Inr hs_challenge else Inr hs_response)\<rparr>,
     da_b64_encode = sample_encode, da_write_error = None\<rparr>"

lemma hs_laws:
  "codec_laws (da_ucan hs_env)" "signature_laws (da_ucan hs_env)" "base64_laws hs_env"
  by (simp_all add: codec_laws_def signature_laws_def base64_laws_def hs_env_def sample_ucan_env_def sample_codec)

lemma hs_values:
  "challenge_to_json (server_challenge hs_env hs_nonce ''s'') = hs_challenge"
  "response_to_json (client_reply hs_env sample_did hs_seed ''c'' hs_nonce ''s'') = hs_response"
  "did_key_from_public_key (da_ucan hs_env) (ed_public (da_ucan hs_env) hs_seed) = sample_did"
  "hs_response \<noteq> hs_challenge" "length hs_seed = 32" "length hs_nonce = NONCE_LEN"
  by (simp_all add: server_challenge_def hs_challenge_def hs_env_def PROTOCOL_VERSION_def client_reply_def hs_response_def
      sample_ucan_env_def did_key_from_public_key_def sample_did_def hs_seed_def hs_nonce_def NONCE_LEN_def
      response_to_json_def challenge_to_json_def)

lemma hs_messages:
  "write_message hs_env hs_challenge = Inr (be32 1 @ as_bytes ''c'')"
  "write_message hs_env hs_response = Inr (be32 1 @ as_bytes ''r'')"
  "read_message hs_env challenge_from_json (be32 1 @ as_bytes ''c'') =
     Inr (server_challenge hs_env hs_nonce ''s'', [])"
  "read_message hs_env response_from_json (be32 1 @ as_bytes ''r'') =
     Inr (client_reply hs_env sample_did hs_seed ''c'' hs_nonce ''s'', [])"
  "client_response hs_env sample_did hs_seed ''c'' (server_challenge hs_env hs_nonce ''s'') =
     Inr (hs_nonce, client_reply hs_env sample_did hs_seed ''c'' hs_nonce ''s'')"
proof -
  show w: "write_message hs_env hs_challenge = Inr (be32 1 @ as_bytes ''c'')"
    "write_message hs_env hs_response = Inr (be32 1 @ as_bytes ''r'')"
    using hs_values(4) by (simp_all add: write_message_def wire_def hs_env_def MAX_MESSAGE_SIZE_def)
  have rt: "json_round_trip (da_ucan hs_env) hs_challenge" "json_round_trip (da_ucan hs_env) hs_response"
    using hs_values(4) by (simp_all add: json_round_trip_def hs_env_def as_bytes_inject)
  have d: "challenge_from_json hs_challenge = Inr (server_challenge hs_env hs_nonce ''s'')"
    "response_from_json hs_response = Inr (client_reply hs_env sample_did hs_seed ''c'' hs_nonce ''s'')"
    unfolding hs_values(1,2) [symmetric]
    by (intro message_decoders; simp add: server_challenge_def client_reply_def PROTOCOL_VERSION_def)+
  show "read_message hs_env challenge_from_json (be32 1 @ as_bytes ''c'') = Inr (server_challenge hs_env hs_nonce ''s'', [])"
    using read_written [where decode = challenge_from_json, OF w(1) rt(1) d(1), of "[]"] by simp
  show "read_message hs_env response_from_json (be32 1 @ as_bytes ''r'') =
     Inr (client_reply hs_env sample_did hs_seed ''c'' hs_nonce ''s'', [])"
    using read_written [where decode = response_from_json, OF w(2) rt(2) d(2), of "[]"] by simp
  show "client_response hs_env sample_did hs_seed ''c'' (server_challenge hs_env hs_nonce ''s'') =
     Inr (hs_nonce, client_reply hs_env sample_did hs_seed ''c'' hs_nonce ''s'')"
    using hs_laws(3) hs_values(6) by (simp add: client_response_def server_challenge_def base64_laws_def)
qed

theorem honest_handshake_accepted_witness:
  "\<exists>bs reply. challenge_message hs_env hs_nonce ''s'' = Inr bs
    \<and> respond_to_challenge hs_env sample_did hs_seed ''c'' True bs = Inr reply
    \<and> challenge_and_verify hs_env hs_nonce ''s'' ''c'' True reply = Inr sample_did"
proof -
  have sent: "challenge_message hs_env hs_nonce ''s'' = Inr (be32 1 @ as_bytes ''c'')"
    by (simp add: challenge_message_def hs_values hs_messages)
  have answered: "respond_to_challenge hs_env sample_did hs_seed ''c'' True ((be32 1 @ as_bytes ''c'') @ []) = Inr (be32 1 @ as_bytes ''r'')"
    using hs_messages by (simp add: respond_to_challenge_def hs_values)
  have rt: "json_round_trip (da_ucan hs_env) (challenge_to_json (server_challenge hs_env hs_nonce ''s''))"
    "json_round_trip (da_ucan hs_env) (response_to_json (client_reply hs_env sample_did hs_seed ''c'' hs_nonce ''s''))"
    unfolding hs_values(1,2) using hs_values(4) by (simp_all add: json_round_trip_def hs_env_def as_bytes_inject)
  have "challenge_and_verify hs_env hs_nonce ''s'' ''c'' True ((be32 1 @ as_bytes ''r'') @ []) = Inr sample_did"
    by (rule honest_handshake_accepted [OF hs_laws rt hs_values(5) hs_values(3) [symmetric] hs_values(6) sent answered])
  with sent answered show ?thesis by (metis append_Nil2)
qed

lemma hs_accepts: "challenge_and_verify hs_env hs_nonce ''s'' ''c'' True (be32 1 @ as_bytes ''r'') = Inr sample_did"
  using reply_verifies [OF hs_laws hs_values(5) hs_values(3) [symmetric]] hs_messages
  by (simp add: challenge_and_verify_def challenge_message_def hs_values)

definition hs_final :: auth_state where
  "hs_final = \<lparr>as_used = [hs_nonce], as_pending = Map.empty,
     as_signed = [(ed_public (da_ucan hs_env) hs_seed, build_sig_input hs_nonce ''c'' ''s'')],
     as_runs = [(sample_did, hs_nonce, ''c'', ''s'')], as_accepted = [(0, sample_did, hs_nonce, ''s'', ''c'')]\<rparr>"

lemma hs_reachable: "(auth_step hs_env {(sample_did, hs_seed)})\<^sup>*\<^sup>* auth_init hs_final"
proof -
  let ?step = "auth_step hs_env {(sample_did, hs_seed)}"
  let ?s1 = "auth_init\<lparr>as_used := [hs_nonce], as_pending := [0 \<mapsto> (hs_nonce, ''s'', ''c'')]\<rparr>"
  let ?s2 = "?s1\<lparr>as_signed := [(ed_public (da_ucan hs_env) hs_seed, build_sig_input hs_nonce ''c'' ''s'')],
     as_runs := [(sample_did, hs_nonce, ''c'', ''s'')]\<rparr>"
  have sz: "sizes_ok hs_nonce ''c'' ''s''" by (simp add: sizes_ok_def hs_nonce_def)
  have srv: "ch_server_endpoint_id (server_challenge hs_env hs_nonce ''s'') = ''s''" by (simp add: server_challenge_def)
  have "?step auth_init ?s1"
    using auth_step.draw [of hs_nonce auth_init 0 "''c''" "''s''" hs_env "{(sample_did, hs_seed)}"] sz hs_values(6)
    by (simp add: auth_init_def)
  moreover have "?step ?s1 ?s2"
    using auth_step.respond [OF _ hs_messages(3,5), of "{(sample_did, hs_seed)}" ?s1] sz unfolding srv
    by (simp add: auth_init_def)
  moreover have "?step ?s2 hs_final"
  proof -
    have rep: "rs_client_endpoint_id (client_reply hs_env sample_did hs_seed ''c'' hs_nonce ''s'') = ''c''" by (simp add: client_reply_def)
    have "unforged hs_env {(sample_did, hs_seed)} (as_signed ?s2) (build_sig_input hs_nonce ''c'' ''s'')
        (rs_signature (client_reply hs_env sample_did hs_seed ''c'' hs_nonce ''s''))"
      by (simp add: unforged_def)
    then show ?thesis
      using auth_step.accept [of ?s2 0 hs_nonce "''s''" "''c''" hs_env _ _ _ "{(sample_did, hs_seed)}", OF _ hs_messages(4)] hs_accepts
      unfolding rep by (simp add: hs_final_def auth_init_def)
  qed
  ultimately show ?thesis by (meson converse_rtranclp_into_rtranclp rtranclp.rtrancl_refl)
qed

theorem did_authentication_witness:
  "(sample_did, hs_nonce, ''c'', ''s'') \<in> set (as_runs hs_final)"
proof -
  have "honest_keys hs_env {(sample_did, hs_seed)}" using hs_values(3,5) by (simp add: honest_keys_def)
  from did_authentication [OF hs_laws(1,2) this hs_reachable, of 0 sample_did hs_nonce "''s''" "''c''"]
  show ?thesis by (simp add: hs_final_def)
qed

end
