(* ===== verification/QuicRetry.thy ===== *)
theory QuicRetry
  imports DidAuth SpaceDb
begin

text \<open>
  One request over a fresh QUIC connection and its retries (\<open>quic_retry.rs\<close>).  The transport is
  iroh's: what each step of one attempt meets is a \<open>send_io\<close>, and of the transport's error types
  only the variants the code distinguishes are named.
\<close>

section \<open>Errors and their classification\<close>

datatype connection_error = TimedOut | Reset | ConnectionClosed string | OtherConnectionError string

datatype connect_error =
    ConnectConnection connection_error
  | ConnectConnecting string
  | ConnectConnect string
  | OtherConnectError string

datatype write_error = ConnectionLost connection_error | OtherWriteError string

datatype peer_protocol_error = PeerRead string | InvalidJson string | MessageTooLarge nat nat

datatype quic_send_error =
    ConnectTimeout nat
  | Connect connect_error
  | OpenStream connection_error
  | Write write_error
  | Finish string
  | Read peer_protocol_error
  | AuthFailed challenge_error

fun is_connection_transient :: "connection_error \<Rightarrow> bool" where
  "is_connection_transient TimedOut = True"
| "is_connection_transient Reset = True"
| "is_connection_transient (ConnectionClosed _) = True"
| "is_connection_transient (OtherConnectionError _) = False"

fun is_connect_transient :: "connect_error \<Rightarrow> bool" where
  "is_connect_transient (ConnectConnection source) = is_connection_transient source"
| "is_connect_transient (ConnectConnecting _) = True"
| "is_connect_transient (ConnectConnect _) = False"
| "is_connect_transient (OtherConnectError _) = False"

fun is_transient :: "quic_send_error \<Rightarrow> bool" where
  "is_transient (ConnectTimeout _) = True"
| "is_transient (Connect e) = is_connect_transient e"
| "is_transient (OpenStream e) = is_connection_transient e"
| "is_transient (Write (ConnectionLost ce)) = is_connection_transient ce"
| "is_transient (Write _) = False"
| "is_transient (Finish _) = False"
| "is_transient (Read (PeerRead _)) = True"
| "is_transient (Read _) = False"
| "is_transient (AuthFailed HandshakeTimeout) = True"
| "is_transient (AuthFailed (WireProtocol _)) = True"
| "is_transient (AuthFailed _) = False"


section \<open>Addresses\<close>

text \<open>Endpoint ids and relay URLs are parsed by iroh; an address is an id with an optional relay.\<close>

record ('i, 'u) addr_env =
  ae_endpoint_id :: "string \<Rightarrow> (string, 'i) result"
  ae_relay :: "string \<Rightarrow> 'u option"
  ae_live_relays :: "'u list"

definition parse_explicit_relay :: "('i, 'u) addr_env \<Rightarrow> string option \<Rightarrow> 'u option" where
  "parse_explicit_relay ae explicit_relay = Option.bind explicit_relay (ae_relay ae)"

definition or_else :: "'a option \<Rightarrow> 'a option \<Rightarrow> 'a option" where
  "or_else a b = (case a of None \<Rightarrow> b | Some _ \<Rightarrow> a)"

definition build_endpoint_addr_with_relay ::
  "('i, 'u) addr_env \<Rightarrow> string \<Rightarrow> string option \<Rightarrow> 'u option \<Rightarrow> (string, ('i \<times> 'u option) \<times> 'u option) result" where
  "build_endpoint_addr_with_relay ae remote_endpoint_id explicit_relay configured_relay =
     (case ae_endpoint_id ae remote_endpoint_id of
        Inl e \<Rightarrow> Inl (''invalid endpoint id: '' @ e)
      | Inr remote_id \<Rightarrow>
          (let relay = or_else (or_else (parse_explicit_relay ae explicit_relay) configured_relay)
                 (case ae_live_relays ae of [] \<Rightarrow> None | u # _ \<Rightarrow> Some u)
           in Inr ((remote_id, relay), relay)))"

definition build_endpoint_addr ::
  "('i, 'u) addr_env \<Rightarrow> string \<Rightarrow> string option \<Rightarrow> 'u option \<Rightarrow> (string, 'i \<times> 'u option) result" where
  "build_endpoint_addr ae remote_endpoint_id explicit_relay configured_relay =
     map_sum id fst (build_endpoint_addr_with_relay ae remote_endpoint_id explicit_relay configured_relay)"


section \<open>One request\<close>

definition CONNECT_TIMEOUT_SECS :: nat where "CONNECT_TIMEOUT_SECS = 10"
definition READ_TIMEOUT_SECS :: nat where "READ_TIMEOUT_SECS = 30"

text \<open>What an attempt meets, step by step; \<open>None\<close> for connect and read is the time limit.\<close>

record send_io =
  si_connect :: "connect_error option option"
  si_accept :: "connection_error option"
  si_challenge :: bytes
  si_in_time :: bool
  si_open :: "connection_error option"
  si_write :: "write_error option"
  si_finish :: "string option"
  si_read :: "(peer_protocol_error, response) result option"

definition complete_client_did_auth ::
  "did_auth_env \<Rightarrow> string \<Rightarrow> bytes \<Rightarrow> string \<Rightarrow> send_io \<Rightarrow> (quic_send_error, bytes) result" where
  "complete_client_did_auth env our_did our_signing_key own_endpoint_id io =
     (case si_accept io of
        Some e \<Rightarrow> Inl (OpenStream e)
      | None \<Rightarrow> map_sum AuthFailed id
          (respond_to_challenge env our_did our_signing_key own_endpoint_id (si_in_time io) (si_challenge io)))"

definition send_request_once ::
  "did_auth_env \<Rightarrow> string \<Rightarrow> bytes \<Rightarrow> string \<Rightarrow> send_io \<Rightarrow> (quic_send_error, response) result" where
  "send_request_once env our_did our_signing_key own_endpoint_id io =
     (case si_connect io of
        None \<Rightarrow> Inl (ConnectTimeout CONNECT_TIMEOUT_SECS)
      | Some (Some e) \<Rightarrow> Inl (Connect e)
      | Some None \<Rightarrow>
          and_then (complete_client_did_auth env our_did our_signing_key own_endpoint_id io) (\<lambda>_.
            case si_open io of
              Some e \<Rightarrow> Inl (OpenStream e)
            | None \<Rightarrow>
                (case si_write io of
                   Some e \<Rightarrow> Inl (Write e)
                 | None \<Rightarrow>
                     (case si_finish io of
                        Some e \<Rightarrow> Inl (Finish e)
                      | None \<Rightarrow>
                          (case si_read io of
                             None \<Rightarrow> Inl (Read (PeerRead (''read timeout after '' @ show_radix 10 READ_TIMEOUT_SECS @ ''s'')))
                           | Some (Inl e) \<Rightarrow> Inl (Read e)
                           | Some (Inr r) \<Rightarrow> Inr r)))))"


section \<open>Retries\<close>

definition MAX_ATTEMPTS :: nat where "MAX_ATTEMPTS = 3"
definition RETRY_DELAYS_MS :: "nat list" where "RETRY_DELAYS_MS = [500, 2000]"

text \<open>The loop over the attempts; the result is \<open>None\<close> where the code panics (a delay out of range,
  or no attempt at all), and the delays slept are recorded.\<close>

fun retry_loop ::
  "('s \<Rightarrow> ('e, 'a) result \<times> 's) \<Rightarrow> ('e \<Rightarrow> bool) \<Rightarrow> 'e option \<Rightarrow> nat list \<Rightarrow> 's
    \<Rightarrow> ('e, 'a) result option \<times> 's \<times> nat list" where
  "retry_loop call transient last_error [] s = (map_option Inl last_error, s, [])"
| "retry_loop call transient last_error (attempt # rest) s =
     (case call s of
        (Inr a, s') \<Rightarrow> (Some (Inr a), s', [])
      | (Inl e, s') \<Rightarrow>
          if \<not> transient e then (Some (Inl e), s', [])
          else if attempt < MAX_ATTEMPTS
          then (if attempt - 1 < length RETRY_DELAYS_MS
                then (case retry_loop call transient (Some e) rest s' of
                        (r, s'', ds) \<Rightarrow> (r, s'', (RETRY_DELAYS_MS ! (attempt - 1)) # ds))
                else (None, s', []))
          else retry_loop call transient (Some e) rest s')"

definition retry_transient ::
  "('s \<Rightarrow> ('e, 'a) result \<times> 's) \<Rightarrow> ('e \<Rightarrow> bool) \<Rightarrow> 's \<Rightarrow> ('e, 'a) result option \<times> 's \<times> nat list" where
  "retry_transient call transient s = retry_loop call transient None [1..<Suc MAX_ATTEMPTS] s"

text \<open>The attempts meet the elements of a stream of outcomes.\<close>

definition send_request_with_retry ::
  "did_auth_env \<Rightarrow> string \<Rightarrow> bytes \<Rightarrow> string \<Rightarrow> (nat \<Rightarrow> send_io) \<Rightarrow> (quic_send_error, response) result option \<times> nat \<times> nat list" where
  "send_request_with_retry env our_did our_signing_key own_endpoint_id ios =
     retry_transient (\<lambda>n. (send_request_once env our_did our_signing_key own_endpoint_id (ios n), Suc n)) is_transient 0"


section \<open>The signing identity\<close>

record own_identity =
  oi_did :: string
  oi_signing_key :: bytes

fun display_ucan_create_error :: "ucan_create_error \<Rightarrow> string" where
  "display_ucan_create_error (InvalidKey e) = ''Invalid private key: '' @ e"
| "display_ucan_create_error (Serialization e) = ''Serialization error: '' @ e"
| "display_ucan_create_error (ClockError e) = ''Clock error: '' @ e"

definition load_signing_identity_for_did ::
  "space_env \<Rightarrow> crdt_db \<Rightarrow> string \<Rightarrow> (delivery_error, own_identity) result" where
  "load_signing_identity_for_did env db did =
     and_then (db_reason (''identity load for '' @ did @ '': '') (table_rows env db ''haex_identities'' [''did'', ''private_key'']))
       (\<lambda>rs. and_then
          (ok_or (AccessDenied (''no haex_identities row with private_key for '' @ did))
             (first_row (filter (\<lambda>r. where_eq env (col env r ''did'') (SText did) \<and> col env r ''private_key'' \<noteq> SNull) rs)))
          (\<lambda>r. and_then
             (ok_or (delivery_error.Database ''haex_identities row missing did column'') (read_str env r ''did''))
             (\<lambda>stored_did. and_then
                (ok_or (AccessDenied (''identity '' @ did @ '' has no private_key'')) (read_str env r ''private_key''))
                (\<lambda>private_key_b64.
                   case signing_key_from_pkcs8_base64 (se_ucan env) private_key_b64 of
                     Inl e \<Rightarrow> Inl (delivery_error.Database (''decoding private_key for '' @ did @ '': '' @ display_ucan_create_error e))
                   | Inr signing_key \<Rightarrow>
                       if did_key_from_public_key (se_ucan env) (ed_public (se_ucan env) signing_key) \<noteq> stored_did
                       then Inl (AccessDenied (''identity drift for did='' @ stored_did))
                       else Inr \<lparr>oi_did = stored_did, oi_signing_key = signing_key\<rparr>))))"


section \<open>Retries are bounded\<close>

text \<open>The outcomes of the calls one after the other.\<close>

fun nth_call :: "('s \<Rightarrow> 'r \<times> 's) \<Rightarrow> nat \<Rightarrow> 's \<Rightarrow> 'r \<times> 's" where
  "nth_call call 0 s = call s"
| "nth_call call (Suc n) s = nth_call call n (snd (call s))"

fun retryable :: "('e \<Rightarrow> bool) \<Rightarrow> ('e, 'a) result \<Rightarrow> bool" where
  "retryable transient (Inl e) = transient e"
| "retryable transient (Inr a) = False"

text \<open>The attempt whose outcome counts: the first that is not to be retried, or the last.\<close>

definition deciding_call :: "('s \<Rightarrow> ('e, 'a) result \<times> 's) \<Rightarrow> ('e \<Rightarrow> bool) \<Rightarrow> 's \<Rightarrow> nat" where
  "deciding_call call transient s =
     (if \<not> retryable transient (fst (nth_call call 0 s)) then 0
      else if \<not> retryable transient (fst (nth_call call 1 s)) then 1 else 2)"

text \<open>An operation is tried at most three times: the outcome is that of the first attempt that
  succeeds or fails for good, or else of the third; exactly the delays between the attempts made are
  slept, and the loop never panics on a missing delay or a missing error.\<close>

theorem retry_bounded:
  "retry_transient call transient s =
     (let k = deciding_call call transient s; (r, s') = nth_call call k s
      in (Some r, s', take k RETRY_DELAYS_MS)) \<and> deciding_call call transient s < MAX_ATTEMPTS"
proof -
  have three: "[1..<Suc MAX_ATTEMPTS] = [1, 2, 3]" by (simp add: MAX_ATTEMPTS_def upt_rec)
  have loop: "retry_transient call transient s = retry_loop call transient None [1, 2, 3] s"
    unfolding retry_transient_def three ..
  obtain r0 s0 where 0: "call s = (r0, s0)" by (cases "call s")
  obtain r1 s1 where 1: "call s0 = (r1, s1)" by (cases "call s0")
  obtain r2 s2 where 2: "call s1 = (r2, s2)" by (cases "call s1")
  note eval = loop deciding_call_def MAX_ATTEMPTS_def RETRY_DELAYS_MS_def Let_def 0 1 2
  show ?thesis by (cases r0; cases r1; cases r2) (simp_all add: eval numeral_2_eq_2)
qed


section \<open>A loaded identity can authenticate\<close>

lemma loaded_identity_key:
  assumes "load_signing_identity_for_did env db did = Inr i"
  shows "oi_did i = did_key_from_public_key (se_ucan env) (ed_public (se_ucan env) (oi_signing_key i))"
    and "length (oi_signing_key i) = 32"
proof -
  obtain pk stored where "(case signing_key_from_pkcs8_base64 (se_ucan env) pk of
      Inl e \<Rightarrow> Inl (delivery_error.Database (''decoding private_key for '' @ did @ '': '' @ display_ucan_create_error e))
    | Inr signing_key \<Rightarrow>
        if did_key_from_public_key (se_ucan env) (ed_public (se_ucan env) signing_key) \<noteq> stored
        then Inl (AccessDenied (''identity drift for did='' @ stored))
        else Inr \<lparr>oi_did = stored, oi_signing_key = signing_key\<rparr>) = Inr i"
    using assms unfolding load_signing_identity_for_did_def and_then_Inr_iff by blast
  then obtain seed where "signing_key_from_pkcs8_base64 (se_ucan env) pk = Inr seed"
    "did_key_from_public_key (se_ucan env) (ed_public (se_ucan env) seed) = stored"
    "i = \<lparr>oi_did = stored, oi_signing_key = seed\<rparr>"
    by (cases "signing_key_from_pkcs8_base64 (se_ucan env) pk") (auto split: if_splits)
  then show "oi_did i = did_key_from_public_key (se_ucan env) (ed_public (se_ucan env) (oi_signing_key i))"
    "length (oi_signing_key i) = 32" using seed_length by auto
qed

text \<open>An identity the member loads from its database passes the handshake of the leader: whatever
  nonce and endpoint id it is challenged with, the response signed with the loaded key is accepted
  as the stored DID; a row whose key belongs to another DID is refused when it is loaded.\<close>

theorem loaded_identity_authenticates:
  assumes "load_signing_identity_for_did env db did = Inr i"
    and "da_ucan da = se_ucan env" "codec_laws (da_ucan da)" "signature_laws (da_ucan da)" "base64_laws da"
  shows "verify_response da (client_reply da (oi_did i) (oi_signing_key i) ep nonce own) nonce ep own = Inr (oi_did i)"
  using assms(2-) loaded_identity_key [OF assms(1)] by (intro reply_verifies) simp_all

end
