(* ===== verification/SyncLoop.thy ===== *)
theory SyncLoop
  imports Leader Election QuicRetry
begin

text \<open>
  The member's side of a space (\<open>peer.rs\<close>, \<open>sync_loop.rs\<close>): the session with the leader and the
  loop that pushes local changes, pulls and applies those of the leader, processes group messages
  and refills key packages.

  What lies between member and leader is a \<open>transport\<close>: it takes a request to the outcome of its
  stream and changes a state \<open>'s\<close> that holds the network and the leader.  The group operations act
  on an abstract group state \<open>'m\<close>.
\<close>

section \<open>The session with the leader\<close>

datatype stream_outcome =
    OpenFails string
  | EncodeFails string
  | WriteFails string
  | FinishFails string
  | ReadFails string
  | ReadTimesOut
  | Answers response

type_synonym 's transport = "request \<Rightarrow> 's \<Rightarrow> stream_outcome \<times> 's"

record 's peer_session =
  ses_net :: "'s transport"
  ses_ucan_token :: string

fun stream_result :: "stream_outcome \<Rightarrow> (delivery_error, response) result" where
  "stream_result (OpenFails e) = Inl (ConnectionFailed e)"
| "stream_result (EncodeFails e) = Inl (ProtocolError e)"
| "stream_result (WriteFails e) = Inl (ConnectionFailed e)"
| "stream_result (FinishFails e) = Inl (ConnectionFailed e)"
| "stream_result (ReadFails e) = Inl (ProtocolError e)"
| "stream_result ReadTimesOut = Inl (ConnectionFailed (''read timeout after '' @ show_radix 10 READ_TIMEOUT_SECS @ ''s''))"
| "stream_result (Answers r) = Inr r"

definition session_request :: "'s peer_session \<Rightarrow> request \<Rightarrow> 's \<Rightarrow> (delivery_error, response) result \<times> 's" where
  "session_request ses req s = map_prod stream_result id (ses_net ses req s)"

text \<open>The answers a method takes; the others are protocol errors.\<close>

definition expect :: "string \<Rightarrow> (response \<Rightarrow> 'a option) \<Rightarrow> (delivery_error, response) result \<Rightarrow> (delivery_error, 'a) result" where
  "expect what f r =
     and_then r (\<lambda>resp. case f resp of
        Some x \<Rightarrow> Inr x
      | None \<Rightarrow> (case resp of RError m \<Rightarrow> Inl (ProtocolError m) | _ \<Rightarrow> Inl (ProtocolError (''unexpected response to '' @ what))))"

definition ask ::
  "'s peer_session \<Rightarrow> request \<Rightarrow> string \<Rightarrow> (response \<Rightarrow> 'a option) \<Rightarrow> 's \<Rightarrow> (delivery_error, 'a) result \<times> 's" where
  "ask ses req what f s = map_prod (expect what f) id (session_request ses req s)"

definition is_ok :: "response \<Rightarrow> unit option" where
  "is_ok r = (case r of ROk \<Rightarrow> Some () | _ \<Rightarrow> None)"

definition push_changes :: "'s peer_session \<Rightarrow> string \<Rightarrow> json \<Rightarrow> 's \<Rightarrow> (delivery_error, unit) result \<times> 's" where
  "push_changes ses space_id changes = ask ses (SyncPush space_id changes (Some (ses_ucan_token ses))) ''SyncPush'' is_ok"

definition pull_changes :: "'s peer_session \<Rightarrow> string \<Rightarrow> string option \<Rightarrow> 's \<Rightarrow> (delivery_error, json) result \<times> 's" where
  "pull_changes ses space_id after_timestamp =
     ask ses (SyncPull space_id after_timestamp (Some (ses_ucan_token ses))) ''SyncPull''
       (\<lambda>r. case r of RSyncChanges j \<Rightarrow> Some j | _ \<Rightarrow> None)"

definition fetch_mls_messages ::
  "'s peer_session \<Rightarrow> string \<Rightarrow> int option \<Rightarrow> 's \<Rightarrow> (delivery_error, mls_message_entry list) result \<times> 's" where
  "fetch_mls_messages ses space_id after_id =
     ask ses (MlsFetchMessages space_id after_id) ''MlsFetchMessages'' (\<lambda>r. case r of RMessages ms \<Rightarrow> Some ms | _ \<Rightarrow> None)"

definition ack_commits :: "'s peer_session \<Rightarrow> string \<Rightarrow> int list \<Rightarrow> 's \<Rightarrow> (delivery_error, unit) result \<times> 's" where
  "ack_commits ses space_id message_ids s =
     (if message_ids = [] then (Inr (), s) else ask ses (MlsAckCommit space_id message_ids) ''MlsAckCommit'' is_ok s)"

definition upload_key_packages :: "'s peer_session \<Rightarrow> string \<Rightarrow> string list \<Rightarrow> 's \<Rightarrow> (delivery_error, unit) result \<times> 's" where
  "upload_key_packages ses space_id packages =
     ask ses (MlsUploadKeyPackages space_id packages) ''MlsUploadKeyPackages'' is_ok"

definition query_key_package_status :: "'s peer_session \<Rightarrow> string \<Rightarrow> 's \<Rightarrow> (delivery_error, nat \<times> nat) result \<times> 's" where
  "query_key_package_status ses space_id =
     ask ses (MlsKeyPackageCount space_id) ''MlsKeyPackageCount''
       (\<lambda>r. case r of RKeyPackageCount available needed \<Rightarrow> Some (available, needed) | _ \<Rightarrow> None)"

definition fetch_welcomes :: "'s peer_session \<Rightarrow> string \<Rightarrow> 's \<Rightarrow> (delivery_error, string list) result \<times> 's" where
  "fetch_welcomes ses space_id =
     ask ses (MlsFetchWelcomes space_id) ''MlsFetchWelcomes'' (\<lambda>r. case r of RWelcomes ws \<Rightarrow> Some ws | _ \<Rightarrow> None)"

definition request_rejoin :: "'s peer_session \<Rightarrow> string \<Rightarrow> 's \<Rightarrow> (delivery_error, string) result \<times> 's" where
  "request_rejoin ses space_id =
     ask ses (RequestRejoin space_id (Some (ses_ucan_token ses))) ''RequestRejoin''
       (\<lambda>r. case r of RGroupInfo g \<Rightarrow> Some g | _ \<Rightarrow> None)"

definition submit_external_commit :: "'s peer_session \<Rightarrow> string \<Rightarrow> string \<Rightarrow> 's \<Rightarrow> (delivery_error, int) result \<times> 's" where
  "submit_external_commit ses space_id commit_b64 =
     ask ses (SubmitExternalCommit space_id commit_b64 (Some (ses_ucan_token ses))) ''SubmitExternalCommit''
       (\<lambda>r. case r of RMessageStored i \<Rightarrow> Some i | ROk \<Rightarrow> Some 0 | _ \<Rightarrow> None)"

text \<open>Connecting: what the attempt meets is the \<open>send_io\<close> of the handshake, and \<open>net\<close> is the
  connection it gives.  The time limit on \<open>si_connect\<close> is not applied here.\<close>

definition session_connect ::
  "space_env \<Rightarrow> (string, 64 word) result \<Rightarrow> ('i, 'u) addr_env \<Rightarrow> did_auth_env \<Rightarrow> (quic_send_error \<Rightarrow> string) \<Rightarrow> crdt_db
    \<Rightarrow> string \<Rightarrow> string option \<Rightarrow> string \<Rightarrow> string \<Rightarrow> bytes \<Rightarrow> string \<Rightarrow> string option \<Rightarrow> send_io \<Rightarrow> 's transport \<Rightarrow> 's
    \<Rightarrow> (delivery_error, 's peer_session) result \<times> 's" where
  "session_connect env now ae da err_text db leader_endpoint_id leader_relay_url space_id our_did our_signing_key
     our_endpoint_id label io net s =
     (case and_then (load_active_ucan_for_audience env now db space_id our_did) (\<lambda>t.
             ok_or (AccessDenied (''No active UCAN token for space '' @ space_id @ '' audience '' @ our_did)) t) of
        Inl e \<Rightarrow> (Inl e, s)
      | Inr ucan_token \<Rightarrow>
          (case build_endpoint_addr ae leader_endpoint_id leader_relay_url None of
             Inl e \<Rightarrow> (Inl (ConnectionFailed e), s)
           | Inr addr \<Rightarrow>
               (case si_connect io of
                  Some (Some e) \<Rightarrow> (Inl (ConnectionFailed (err_text (Connect e))), s)
                | _ \<Rightarrow>
                    (case complete_client_did_auth da our_did our_signing_key our_endpoint_id io of
                       Inl e \<Rightarrow> (Inl (ConnectionFailed (''DID-auth: '' @ err_text e)), s)
                     | Inr _ \<Rightarrow>
                         (let ses = \<lparr>ses_net = net, ses_ucan_token = ucan_token\<rparr>
                          in case ask ses (Announce our_endpoint_id space_id label None (Some ucan_token)) ''Announce'' is_ok s of
                               (Inl e, s') \<Rightarrow> (Inl e, s')
                             | (Inr _, s') \<Rightarrow> (Inr ses, s'))))))"


section \<open>Chunks\<close>

definition PUSH_CHUNK_SOFT_LIMIT :: nat where "PUSH_CHUNK_SOFT_LIMIT = 2000"

definition chunk_step ::
  "local_column_change list \<Rightarrow> nat \<Rightarrow> nat \<Rightarrow> local_column_change list list \<times> nat \<times> nat \<times> nat
    \<Rightarrow> local_column_change list list \<times> nat \<times> nat \<times> nat" where
  "chunk_step changes soft_limit i acc =
     (case acc of (chunks, chunk_start, group_start, chunk_len) \<Rightarrow>
        if \<not> (i = length changes \<or> lc_hlc_timestamp (changes ! i) \<noteq> lc_hlc_timestamp (changes ! (i - 1))) then acc
        else
          (let group_size = i - group_start
           in if 0 < chunk_len \<and> soft_limit < chunk_len + group_size
              then (chunks @ [take (group_start - chunk_start) (drop chunk_start changes)], group_start, i, group_size)
              else (chunks, chunk_start, i, chunk_len + group_size)))"

definition chunk_changes_by_hlc :: "local_column_change list \<Rightarrow> nat \<Rightarrow> local_column_change list list" where
  "chunk_changes_by_hlc changes soft_limit =
     (if changes = [] then []
      else (case fold (chunk_step changes soft_limit) [1..<Suc (length changes)] ([], 0, 0, 0) of
              (chunks, chunk_start, group_start, chunk_len) \<Rightarrow>
                if 0 < chunk_len then chunks @ [drop chunk_start changes] else chunks))"


section \<open>Foreign rows\<close>

definition query_owned_row_ids :: "space_env \<Rightarrow> crdt_db \<Rightarrow> string \<Rightarrow> string \<Rightarrow> string \<Rightarrow> string \<Rightarrow> string list" where
  "query_owned_row_ids env db t owner_col space_id owner =
     (case table_rows env db t [''id'', ''space_id'', owner_col] of
        Inl _ \<Rightarrow> []
      | Inr rs \<Rightarrow>
          List.map_filter (\<lambda>r. read_str env r ''id'')
            (filter (\<lambda>r. where_eq env (col env r ''space_id'') (SText space_id)
               \<and> where_eq env (col env r owner_col) (SText owner)) rs))"

definition extract_pk_id :: "space_env \<Rightarrow> string \<Rightarrow> string option" where
  "extract_pk_id env pks_json =
     (case parse_pks (se_sql env) pks_json of
        Inl _ \<Rightarrow> None
      | Inr pks \<Rightarrow> Option.bind (map_of pks ''id'') json_as_str)"

definition change_owned ::
  "space_env \<Rightarrow> string option \<Rightarrow> string list \<Rightarrow> string list \<Rightarrow> local_column_change \<Rightarrow> bool" where
  "change_owned env our_identity_id owned_member_ids owned_device_ids c =
     (if lc_table_name c = ''haex_space_members''
      then (case our_identity_id of
              None \<Rightarrow> True
            | Some _ \<Rightarrow> (case extract_pk_id env (lc_row_pks c) of None \<Rightarrow> True | Some i \<Rightarrow> i \<in> set owned_member_ids))
      else if lc_table_name c = ''haex_space_devices''
      then (case extract_pk_id env (lc_row_pks c) of None \<Rightarrow> True | Some i \<Rightarrow> i \<in> set owned_device_ids)
      else True)"

definition filter_step ::
  "(local_column_change \<Rightarrow> bool) \<Rightarrow> local_column_change \<Rightarrow> local_column_change list \<times> string option
    \<Rightarrow> local_column_change list \<times> string option" where
  "filter_step owned c acc =
     (if owned c then (fst acc @ [c], snd acc)
      else if (case snd acc of None \<Rightarrow> True | Some cur \<Rightarrow> hlc_is_newer (lc_hlc_timestamp c) cur)
      then (fst acc, Some (lc_hlc_timestamp c))
      else acc)"

definition filter_foreign_membership_rows ::
  "space_env \<Rightarrow> crdt_db \<Rightarrow> string \<Rightarrow> local_column_change list \<Rightarrow> string option \<Rightarrow> string
    \<Rightarrow> local_column_change list \<times> string option" where
  "filter_foreign_membership_rows env db space_id changes our_identity_id our_endpoint_id =
     (let owned_member_ids = (case our_identity_id of
            Some i \<Rightarrow> query_owned_row_ids env db ''haex_space_members'' ''identity_id'' space_id i
          | None \<Rightarrow> []);
          owned_device_ids = query_owned_row_ids env db ''haex_space_devices'' ''endpoint_id'' space_id our_endpoint_id
      in fold (filter_step (change_owned env our_identity_id owned_member_ids owned_device_ids)) changes ([], None))"


section \<open>State and environment of the loop\<close>

datatype sync_event =
    SyncCompleted string "string list"
  | SyncError string string nat
  | MlsCommitProcessed string nat
  | RejoinCompleted string nat

record ('m, 'h, 'ts) member_io =
  mi_env :: space_env
  mi_iter :: hash_order
  mi_uhlc :: "('h, 'ts) uhlc_api"
  mi_process :: "'m \<Rightarrow> string \<Rightarrow> bytes \<Rightarrow> (string, unit) result \<times> 'm"
  mi_join_external :: "'m \<Rightarrow> string \<Rightarrow> bytes \<Rightarrow> (string, bytes \<times> nat) result \<times> 'm"
  mi_generate_packages :: "'m \<Rightarrow> nat \<Rightarrow> (string, bytes list) result \<times> 'm"
  mi_parse_changes :: "json \<Rightarrow> (string, local_column_change list) result"
  mi_changes_json :: "local_column_change list \<Rightarrow> (string, json) result"
  mi_db_error_text :: "db_error \<Rightarrow> string"
  mi_poison :: "delivery_error option"
  mi_settings_fault :: bool
  mi_dirty_fault :: "string \<Rightarrow> bool"
  mi_timestamp :: string

record ('m, 'h) member_state =
  mb_db :: crdt_db
  mb_settings :: vault_settings
  mb_hlc :: "'h hlc_service"
  mb_mls :: 'm
  mb_last_push_hlc :: "string option"
  mb_last_pull :: "string option"
  mb_last_mls :: "int option"
  mb_refilled :: bool
  mb_events :: "sync_event list"

text \<open>What the loop looks up once, when it starts.\<close>

record loop_ctx =
  lx_space_id :: string
  lx_device_id :: string
  lx_our_node :: "128 word option"
  lx_can_push :: bool
  lx_identity_id :: "string option"
  lx_endpoint_id :: string

definition loop_start ::
  "space_env \<Rightarrow> (string \<Rightarrow> 8 word list option) \<Rightarrow> crdt_db \<Rightarrow> string \<Rightarrow> string \<Rightarrow> string \<Rightarrow> string \<Rightarrow> loop_ctx" where
  "loop_start env uuid_parse_str db space_id our_did our_endpoint_id device_id =
     \<lparr>lx_space_id = space_id, lx_device_id = device_id,
      lx_our_node = device_uuid_to_hlc_node uuid_parse_str device_id,
      lx_can_push = has_write_capability env db space_id our_did,
      lx_identity_id = (case table_rows env db ''haex_identities'' [''id'', ''did''] of
          Inl _ \<Rightarrow> None
        | Inr rs \<Rightarrow> Option.bind (first_row (filter (\<lambda>r. where_eq env (col env r ''did'') (SText our_did)) rs))
                      (\<lambda>r. read_str env r ''id'')),
      lx_endpoint_id = our_endpoint_id\<rparr>"

definition fresh_member :: "bool \<Rightarrow> loop_ctx \<Rightarrow> crdt_db \<Rightarrow> vault_settings \<Rightarrow> 'h hlc_service \<Rightarrow> 'm \<Rightarrow> ('m, 'h) member_state" where
  "fresh_member fault lx db vs h m =
     \<lparr>mb_db = db, mb_settings = vs, mb_hlc = h, mb_mls = m,
      mb_last_push_hlc = load_last_push_hlc fault vs (lx_space_id lx) (lx_device_id lx), mb_last_pull = None,
      mb_last_mls = load_last_mls_cursor fault vs (lx_space_id lx) (lx_device_id lx), mb_refilled = False, mb_events = []\<rparr>"


section \<open>Push\<close>

definition checkpoint_push ::
  "('m, 'h, 'ts) member_io \<Rightarrow> loop_ctx \<Rightarrow> string \<Rightarrow> ('m, 'h) member_state \<Rightarrow> ('m, 'h) member_state" where
  "checkpoint_push io lx hlc st =
     st\<lparr>mb_settings := save_last_push_hlc (mi_settings_fault io) (lx_space_id lx) (lx_device_id lx) hlc (mb_settings st),
        mb_last_push_hlc := Some hlc\<rparr>"

fun push_chunks ::
  "('m, 'h, 'ts) member_io \<Rightarrow> 's peer_session \<Rightarrow> loop_ctx \<Rightarrow> nat \<Rightarrow> local_column_change list list
    \<Rightarrow> ('m, 'h) member_state \<Rightarrow> 's \<Rightarrow> (delivery_error, unit) result \<times> ('m, 'h) member_state \<times> 's" where
  "push_chunks io ses lx idx [] st s = (Inr (), st, s)"
| "push_chunks io ses lx idx (chunk # rest) st s =
     (case mi_changes_json io chunk of
        Inl e \<Rightarrow> (Inl (ProtocolError (''Failed to serialize chunk '' @ show_radix 10 idx @ '': '' @ e)), st, s)
      | Inr chunk_json \<Rightarrow>
          (case push_changes ses (lx_space_id lx) chunk_json s of
             (Inl e, s') \<Rightarrow> (Inl e, st, s')
           | (Inr _, s') \<Rightarrow>
               (let chunk_max_hlc = (case hlc_max (map lc_hlc_timestamp chunk) of None \<Rightarrow> [] | Some m \<Rightarrow> m)
                in push_chunks io ses lx (Suc idx) rest (checkpoint_push io lx chunk_max_hlc st) s')))"

text \<open>\<open>clear_dirty_table_inner\<close>: the markers of a table up to a time.\<close>

definition clear_dirty_table_inner :: "string \<Rightarrow> string option \<Rightarrow> crdt_db \<Rightarrow> crdt_db" where
  "clear_dirty_table_inner t before_timestamp db =
     db\<lparr>dirty_tables := filter (\<lambda>(n, modified). \<not> (n = t \<and>
        (case before_timestamp of None \<Rightarrow> True | Some ts \<Rightarrow> \<not> text_greater modified ts))) (dirty_tables db)\<rparr>"

definition clear_pushed ::
  "('m, 'h, 'ts) member_io \<Rightarrow> local_column_change list \<Rightarrow> ('m, 'h) member_state \<Rightarrow> ('m, 'h) member_state" where
  "clear_pushed io changes st =
     st\<lparr>mb_db := fold (\<lambda>t db. if mi_dirty_fault io t then db else clear_dirty_table_inner t (Some (mi_timestamp io)) db)
        (remdups (map lc_table_name changes)) (mb_db st)\<rparr>"

definition skip_foreign ::
  "('m, 'h, 'ts) member_io \<Rightarrow> loop_ctx \<Rightarrow> string option \<Rightarrow> ('m, 'h) member_state \<Rightarrow> ('m, 'h) member_state" where
  "skip_foreign io lx foreign_max_hlc st =
     (case foreign_max_hlc of
        None \<Rightarrow> st
      | Some skip_hlc \<Rightarrow>
          if (case mb_last_push_hlc st of None \<Rightarrow> True | Some cur \<Rightarrow> hlc_is_newer skip_hlc cur)
          then checkpoint_push io lx skip_hlc st else st)"

definition scan_for_push ::
  "('m, 'h, 'ts) member_io \<Rightarrow> loop_ctx \<Rightarrow> ('m, 'h) member_state \<Rightarrow> (db_error, local_column_change list) result" where
  "scan_for_push io lx st =
     (if lx_can_push lx
      then scan_space_scoped_tables_for_local_changes (se_sql (mi_env io)) (se_b64 (mi_env io)) (mb_db st)
             (lx_space_id lx) (mb_last_push_hlc st) (lx_device_id lx) (lx_our_node lx)
      else scan_membership_tables_for_local_changes (se_sql (mi_env io)) (se_b64 (mi_env io)) (mb_db st)
             (lx_space_id lx) (mb_last_push_hlc st) (lx_device_id lx) (lx_our_node lx))"

definition run_push_phase ::
  "('m, 'h, 'ts) member_io \<Rightarrow> 's peer_session \<Rightarrow> loop_ctx \<Rightarrow> ('m, 'h) member_state \<Rightarrow> 's
    \<Rightarrow> (delivery_error, unit) result \<times> ('m, 'h) member_state \<times> 's" where
  "run_push_phase io ses lx st s =
     (case scan_for_push io lx st of
        Inl e \<Rightarrow> (Inl (delivery_error.Database (''Failed to scan space-scoped tables: '' @ mi_db_error_text io e)), st, s)
      | Inr all_changes \<Rightarrow>
          if all_changes = [] then (Inr (), st, s)
          else
            (case filter_foreign_membership_rows (mi_env io) (mb_db st) (lx_space_id lx) all_changes
                    (lx_identity_id lx) (lx_endpoint_id lx) of
               (changes, foreign_max_hlc) \<Rightarrow>
                 (case (if changes = [] then (Inr (), st, s)
                        else push_chunks io ses lx 0 (chunk_changes_by_hlc changes PUSH_CHUNK_SOFT_LIMIT) st s) of
                    (Inl e, st1, s1) \<Rightarrow> (Inl e, st1, s1)
                  | (Inr _, st1, s1) \<Rightarrow>
                      (Inr (), skip_foreign io lx foreign_max_hlc
                         (if changes = [] then st1 else clear_pushed io changes st1), s1))))"


section \<open>Pull\<close>

definition apply_pulled ::
  "('m, 'h, 'ts) member_io \<Rightarrow> loop_ctx \<Rightarrow> local_column_change list \<Rightarrow> ('m, 'h) member_state
    \<Rightarrow> (delivery_error, unit) result \<times> ('m, 'h) member_state" where
  "apply_pulled io lx remote_locals st =
     (case mi_poison io of
        Some e \<Rightarrow> (Inl e, st)
      | None \<Rightarrow>
          (case apply_remote_changes_to_db (se_sql (mi_env io)) (mi_iter io) (mi_uhlc io)
                  (map local_to_remote_change remote_locals) None (Some (mb_hlc st)) (mb_db st) of
             (Inl e, db1, h) \<Rightarrow>
               (Inl (delivery_error.Database (''Failed to apply remote changes: '' @ mi_db_error_text io e)),
                st\<lparr>mb_db := db1, mb_hlc := the h\<rparr>)
           | (Inr _, db1, h) \<Rightarrow>
               (let max_pulled_hlc = (case hlc_max (map lc_hlc_timestamp remote_locals) of None \<Rightarrow> [] | Some m \<Rightarrow> m);
                    st1 = st\<lparr>mb_db := db1, mb_hlc := the h,
                       mb_last_pull := (if max_pulled_hlc = [] then mb_last_pull st else Some max_pulled_hlc)\<rparr>
                in (Inr (), st1\<lparr>mb_events := mb_events st1 @
                      [SyncCompleted (lx_space_id lx) (remdups (map lc_table_name remote_locals))]\<rparr>))))"

definition run_pull_phase ::
  "('m, 'h, 'ts) member_io \<Rightarrow> 's peer_session \<Rightarrow> loop_ctx \<Rightarrow> ('m, 'h) member_state \<Rightarrow> 's
    \<Rightarrow> (delivery_error, unit) result \<times> ('m, 'h) member_state \<times> 's" where
  "run_pull_phase io ses lx st s =
     (case pull_changes ses (lx_space_id lx) (mb_last_pull st) s of
        (Inl e, s1) \<Rightarrow> (Inl e, st, s1)
      | (Inr j, s1) \<Rightarrow>
          (case j of
             JArray (_ # _) \<Rightarrow>
               (case mi_parse_changes io j of
                  Inl e \<Rightarrow> (Inl (ProtocolError (''Failed to deserialize pulled changes: '' @ e)), st, s1)
                | Inr remote_locals \<Rightarrow>
                    if remote_locals = [] then (Inr (), st, s1)
                    else (case apply_pulled io lx remote_locals st of (r, st1) \<Rightarrow> (r, st1, s1)))
           | _ \<Rightarrow> (Inr (), st, s1)))"


section \<open>Group messages\<close>

definition attempt_rejoin ::
  "('m, 'h, 'ts) member_io \<Rightarrow> 's peer_session \<Rightarrow> loop_ctx \<Rightarrow> ('m, 'h) member_state \<Rightarrow> 's
    \<Rightarrow> (delivery_error, int) result \<times> ('m, 'h) member_state \<times> 's" where
  "attempt_rejoin io ses lx st s =
     (case request_rejoin ses (lx_space_id lx) s of
        (Inl e, s1) \<Rightarrow> (Inl e, st, s1)
      | (Inr group_info_b64, s1) \<Rightarrow>
          (case b64_decode (se_ucan (mi_env io)) group_info_b64 of
             Inl e \<Rightarrow> (Inl (ProtocolError (''Failed to decode GroupInfo: '' @ e)), st, s1)
           | Inr group_info_bytes \<Rightarrow>
               (case mi_join_external io (mb_mls st) (lx_space_id lx) group_info_bytes of
                  (Inl e, m) \<Rightarrow> (Inl (ProtocolError (''External commit failed: '' @ e)), st\<lparr>mb_mls := m\<rparr>, s1)
                | (Inr (commit_bytes, epoch), m) \<Rightarrow>
                    (case submit_external_commit ses (lx_space_id lx) (se_b64 (mi_env io) commit_bytes) s1 of
                       (Inl e, s2) \<Rightarrow> (Inl e, st\<lparr>mb_mls := m\<rparr>, s2)
                     | (Inr ec_msg_id, s2) \<Rightarrow>
                         (Inr ec_msg_id,
                          st\<lparr>mb_mls := m, mb_events := mb_events st @ [RejoinCompleted (lx_space_id lx) epoch]\<rparr>, s2)))))"

definition checkpoint_mls ::
  "('m, 'h, 'ts) member_io \<Rightarrow> loop_ctx \<Rightarrow> int \<Rightarrow> ('m, 'h) member_state \<Rightarrow> ('m, 'h) member_state" where
  "checkpoint_mls io lx i st =
     st\<lparr>mb_settings := save_last_mls_cursor (mi_settings_fault io) (lx_space_id lx) (lx_device_id lx) i (mb_settings st),
        mb_last_mls := Some i\<rparr>"

definition epoch_gap :: "string \<Rightarrow> bool" where
  "epoch_gap e \<longleftrightarrow> contains e ''epoch'' \<or> contains e ''Welcome'' \<or> contains e ''group''"

text \<open>The loop over the fetched messages; \<open>ids\<close> are the ids of the whole batch.\<close>

fun process_messages ::
  "('m, 'h, 'ts) member_io \<Rightarrow> 's peer_session \<Rightarrow> loop_ctx \<Rightarrow> int list \<Rightarrow> mls_message_entry list \<Rightarrow> int list
    \<Rightarrow> ('m, 'h) member_state \<Rightarrow> 's \<Rightarrow> int list \<times> ('m, 'h) member_state \<times> 's" where
  "process_messages io ses lx ids [] acked st s = (acked, st, s)"
| "process_messages io ses lx ids (msg # msgs) acked st s =
     (case b64_decode (se_ucan (mi_env io)) (me_message msg) of
        Inl _ \<Rightarrow> process_messages io ses lx ids msgs acked st s
      | Inr blob \<Rightarrow>
          (case mi_process io (mb_mls st) (lx_space_id lx) blob of
             (Inr _, m) \<Rightarrow>
               process_messages io ses lx ids msgs (acked @ [me_id msg]) (checkpoint_mls io lx (me_id msg) (st\<lparr>mb_mls := m\<rparr>)) s
           | (Inl e, m) \<Rightarrow>
               if epoch_gap e
               then (case attempt_rejoin io ses lx (st\<lparr>mb_mls := m\<rparr>) s of
                       (Inr ec_msg_id, st1, s1) \<Rightarrow>
                         (acked, checkpoint_mls io lx (max (fold max ids (me_id msg)) ec_msg_id) st1, s1)
                     | (Inl _, st1, s1) \<Rightarrow> (acked, st1, s1))
               else (acked, st\<lparr>mb_mls := m\<rparr>, s)))"

definition fetch_and_process_mls_messages ::
  "('m, 'h, 'ts) member_io \<Rightarrow> 's peer_session \<Rightarrow> loop_ctx \<Rightarrow> ('m, 'h) member_state \<Rightarrow> 's
    \<Rightarrow> (delivery_error, unit) result \<times> ('m, 'h) member_state \<times> 's" where
  "fetch_and_process_mls_messages io ses lx st s =
     (case fetch_mls_messages ses (lx_space_id lx) (mb_last_mls st) s of
        (Inl e, s1) \<Rightarrow> (Inl e, st, s1)
      | (Inr batch, s1) \<Rightarrow>
          if batch = [] then (Inr (), st, s1)
          else
            (case process_messages io ses lx (map me_id batch) batch [] st s1 of
               (acked_ids, st1, s2) \<Rightarrow>
                 if acked_ids = [] then (Inr (), st1, s2)
                 else (case ack_commits ses (lx_space_id lx) acked_ids s2 of
                         (Inl e, s3) \<Rightarrow> (Inl e, st1, s3)
                       | (Inr _, s3) \<Rightarrow>
                           (Inr (), st1\<lparr>mb_events := mb_events st1 @ [MlsCommitProcessed (lx_space_id lx) (length acked_ids)]\<rparr>, s3))))"

definition refill_key_packages_if_needed ::
  "('m, 'h, 'ts) member_io \<Rightarrow> 's peer_session \<Rightarrow> loop_ctx \<Rightarrow> ('m, 'h) member_state \<Rightarrow> 's
    \<Rightarrow> (delivery_error, unit) result \<times> ('m, 'h) member_state \<times> 's" where
  "refill_key_packages_if_needed io ses lx st s =
     (case query_key_package_status ses (lx_space_id lx) s of
        (Inl e, s1) \<Rightarrow> (Inl e, st, s1)
      | (Inr (available, needed), s1) \<Rightarrow>
          if needed = 0 then (Inr (), st, s1)
          else
            (case mi_generate_packages io (mb_mls st) needed of
               (Inl e, m) \<Rightarrow> (Inl (ProtocolError (''Failed to generate key packages: '' @ e)), st\<lparr>mb_mls := m\<rparr>, s1)
             | (Inr packages, m) \<Rightarrow>
                 (case upload_key_packages ses (lx_space_id lx) (map (se_b64 (mi_env io)) packages) s1 of
                    (r, s2) \<Rightarrow> (r, st\<lparr>mb_mls := m\<rparr>, s2))))"


section \<open>The cycle and the loop\<close>

definition run_sync_cycle ::
  "('m, 'h, 'ts) member_io \<Rightarrow> 's peer_session \<Rightarrow> loop_ctx \<Rightarrow> ('m, 'h) member_state \<Rightarrow> 's
    \<Rightarrow> (delivery_error, unit) result \<times> ('m, 'h) member_state \<times> 's" where
  "run_sync_cycle io ses lx st s =
     (case run_push_phase io ses lx st s of
        (_, st1, s1) \<Rightarrow>
          (case run_pull_phase io ses lx st1 s1 of
             (Inl e, st2, s2) \<Rightarrow> (Inl e, st2, s2)
           | (Inr _, st2, s2) \<Rightarrow>
               (case fetch_and_process_mls_messages io ses lx st2 s2 of
                  (_, st3, s3) \<Rightarrow>
                    if mb_refilled st3 then (Inr (), st3, s3)
                    else (case refill_key_packages_if_needed io ses lx st3 s3 of
                            (Inr _, st4, s4) \<Rightarrow> (Inr (), st4\<lparr>mb_refilled := True\<rparr>, s4)
                          | (Inl _, st4, s4) \<Rightarrow> (Inr (), st4, s4)))))"

definition MAX_RECONNECT_BACKOFF :: nat where "MAX_RECONNECT_BACKOFF = 60"

text \<open>Where the loop stands: before a cycle, asleep between two, waiting to reconnect with the wait
  in seconds, the attempts begun and the error, or stopped.\<close>

datatype loop_phase = BeforeCycle | Asleep | Backoff nat nat delivery_error | Stopped

record ('m, 'h, 's) loop_state =
  lp_phase :: loop_phase
  lp_session :: "'s peer_session"
  lp_member :: "('m, 'h) member_state"
  lp_net :: 's

text \<open>The steps of \<open>run_sync_loop\<close>.  What the environment supplies to a step is quantified: the
  \<open>member_io\<close> of a cycle, the session of a successful reconnect and the state after a failed one.
  Between two steps the rest of the application may change the database and the group state.\<close>

inductive loop_step ::
  "loop_ctx \<Rightarrow> (('m, 'h, 'ts) member_io \<Rightarrow> bool) \<Rightarrow> ('m, 'h, 's) loop_state \<Rightarrow> ('m, 'h, 's) loop_state \<Rightarrow> bool"
  for lx and allowed where
  stop_before: "lp_phase l = BeforeCycle \<Longrightarrow> loop_step lx allowed l (l\<lparr>lp_phase := Stopped\<rparr>)"
| cycle_ok: "\<lbrakk>lp_phase l = BeforeCycle; allowed io;
    run_sync_cycle io (lp_session l) lx (lp_member l) (lp_net l) = (Inr (), st, s)\<rbrakk>
    \<Longrightarrow> loop_step lx allowed l (l\<lparr>lp_phase := Asleep, lp_member := st, lp_net := s\<rparr>)"
| cycle_failed: "\<lbrakk>lp_phase l = BeforeCycle; allowed io;
    run_sync_cycle io (lp_session l) lx (lp_member l) (lp_net l) = (Inl e, st, s)\<rbrakk>
    \<Longrightarrow> loop_step lx allowed l (l\<lparr>lp_phase := Backoff 5 1 e,
          lp_member := st\<lparr>mb_events := mb_events st @ [SyncError (lx_space_id lx) (display_delivery_error e) 1]\<rparr>, lp_net := s\<rparr>)"
| wake: "lp_phase l = Asleep \<Longrightarrow> loop_step lx allowed l (l\<lparr>lp_phase := BeforeCycle\<rparr>)"
| stop_asleep: "lp_phase l = Asleep \<Longrightarrow> loop_step lx allowed l (l\<lparr>lp_phase := Stopped\<rparr>)"
| stop_backoff: "lp_phase l = Backoff w n e \<Longrightarrow> loop_step lx allowed l (l\<lparr>lp_phase := Stopped\<rparr>)"
| reconnected: "lp_phase l = Backoff w n e
    \<Longrightarrow> loop_step lx allowed l (l\<lparr>lp_phase := BeforeCycle, lp_session := ses, lp_net := s\<rparr>)"
| reconnect_failed: "lp_phase l = Backoff w n e
    \<Longrightarrow> loop_step lx allowed l (l\<lparr>lp_phase := Backoff (min (w * 2) MAX_RECONNECT_BACKOFF) (Suc n) e,
          lp_member := (lp_member l)\<lparr>mb_events := mb_events (lp_member l)
             @ [SyncError (lx_space_id lx) (display_delivery_error e) (Suc n)]\<rparr>, lp_net := s\<rparr>)"
| environment: "loop_step lx allowed l (l\<lparr>lp_member := (lp_member l)\<lparr>mb_db := db, mb_mls := m, mb_hlc := h\<rparr>, lp_net := s\<rparr>)"

inductive_cases loop_stepE: "loop_step lx allowed l l'"

text \<open>Start: load the identity, then connect with retries; each try has a time limit, and \<open>late\<close> is
  what a cancelled one leaves behind.\<close>

record 's connect_try =
  ct_timely :: bool
  ct_io :: send_io
  ct_net :: "'s transport"
  ct_late :: "'s \<Rightarrow> 's"

definition start_peer_sync_loop ::
  "space_env \<Rightarrow> (string, 64 word) result \<Rightarrow> ('i, 'u) addr_env \<Rightarrow> did_auth_env \<Rightarrow> (quic_send_error \<Rightarrow> string) \<Rightarrow> crdt_db
    \<Rightarrow> string \<Rightarrow> string option \<Rightarrow> string \<Rightarrow> string \<Rightarrow> string \<Rightarrow> (nat \<Rightarrow> 's connect_try) \<Rightarrow> 's
    \<Rightarrow> (delivery_error, 's peer_session) result option \<times> (nat \<times> 's) \<times> nat list" where
  "start_peer_sync_loop env now ae da err_text db leader_endpoint_id leader_relay_url space_id our_did our_endpoint_id tries s =
     (case load_signing_identity_for_did env db our_did of
        Inl e \<Rightarrow> (Some (Inl e), (0, s), [])
      | Inr our_identity \<Rightarrow>
          retry_transient
            (\<lambda>(n, s). let t = tries n in
               if \<not> ct_timely t then (Inl (ConnectionFailed ''initial connect timed out after 10s''), (Suc n, ct_late t s))
               else (case session_connect env now ae da err_text db leader_endpoint_id leader_relay_url space_id our_did
                            (oi_signing_key our_identity) our_endpoint_id (Some ''sync-loop'') (ct_io t) (ct_net t) s of
                       (r, s') \<Rightarrow> (r, (Suc n, s'))))
            (\<lambda>e. case e of ConnectionFailed _ \<Rightarrow> True | _ \<Rightarrow> False) (0, s))"

section \<open>Chunks keep the groups whole\<close>

abbreviation hlc_of :: "local_column_change \<Rightarrow> string" where "hlc_of \<equiv> lc_hlc_timestamp"

definition uniform :: "local_column_change list \<Rightarrow> bool" where
  "uniform cs \<longleftrightarrow> (\<forall>x\<in>set cs. \<forall>y\<in>set cs. hlc_of x = hlc_of y)"

definition chunk_ok :: "nat \<Rightarrow> local_column_change list \<Rightarrow> bool" where
  "chunk_ok limit c \<longleftrightarrow> c \<noteq> [] \<and> (length c \<le> limit \<or> uniform c)"

definition segment :: "'a list \<Rightarrow> nat \<Rightarrow> nat \<Rightarrow> 'a list" where
  "segment xs a b = take (b - a) (drop a xs)"

definition boundary :: "local_column_change list \<Rightarrow> nat \<Rightarrow> bool" where
  "boundary xs i \<longleftrightarrow> i = 0 \<or> length xs \<le> i \<or> hlc_of (xs ! i) \<noteq> hlc_of (xs ! (i - 1))"

abbreviation split_apart :: "local_column_change list list \<Rightarrow> bool" where
  "split_apart \<equiv> successively (\<lambda>c d. hlc_of (last c) \<noteq> hlc_of (hd d))"

definition one_group :: "local_column_change list \<Rightarrow> nat \<Rightarrow> nat \<Rightarrow> bool" where
  "one_group xs a i \<longleftrightarrow> (\<forall>j\<in>{a..i}. j < length xs \<longrightarrow> hlc_of (xs ! j) = hlc_of (xs ! a))"

text \<open>After index \<open>i\<close>: the emitted chunks are the first \<open>cs\<close> changes, the open chunk ends at \<open>gs\<close>,
  and the changes from \<open>gs\<close> to \<open>i\<close> form one group.\<close>

definition chunk_inv :: "local_column_change list \<Rightarrow> nat \<Rightarrow> nat \<Rightarrow> local_column_change list list \<times> nat \<times> nat \<times> nat \<Rightarrow> bool" where
  "chunk_inv xs limit i acc \<longleftrightarrow> (case acc of (chunks, cs, gs, len) \<Rightarrow>
     cs \<le> gs \<and> gs \<le> i \<and> i \<le> length xs \<and> len = gs - cs \<and> boundary xs gs \<and> boundary xs cs
     \<and> one_group xs gs i
     \<and> (i = length xs \<longrightarrow> gs = i) \<and> concat chunks = take cs xs \<and> list_all (chunk_ok limit) chunks
     \<and> (gs = cs \<or> chunk_ok limit (segment xs cs gs)) \<and> split_apart chunks \<and> (chunks \<noteq> [] \<longrightarrow> 0 < cs \<and> cs < length xs))"

lemma segment_facts:
  assumes "a < b" "b \<le> length xs"
  shows "length (segment xs a b) = b - a" "segment xs a b \<noteq> []" "hd (segment xs a b) = xs ! a" "last (segment xs a b) = xs ! (b - 1)"
    and "x \<in> set (segment xs a b) \<Longrightarrow> \<exists>j\<in>{a..<b}. x = xs ! j"
proof -
  show len: "length (segment xs a b) = b - a" using assms by (simp add: segment_def)
  then show ne: "segment xs a b \<noteq> []" using assms by auto
  show "hd (segment xs a b) = xs ! a" using assms ne len by (simp add: segment_def hd_conv_nth)
  show "last (segment xs a b) = xs ! (b - 1)" using assms ne len by (simp add: last_conv_nth) (simp add: segment_def)
  show "\<exists>j\<in>{a..<b}. x = xs ! j" if mem: "x \<in> set (segment xs a b)"
  proof -
    obtain i where "i < b - a" "x = segment xs a b ! i" using mem len by (auto simp: in_set_conv_nth)
    then show ?thesis using assms by (intro bexI [of _ "a + i"]) (simp_all add: segment_def)
  qed
qed

lemma segment_append: "a \<le> b \<Longrightarrow> b \<le> length xs \<Longrightarrow> take a xs @ segment xs a b = take b xs"
  by (simp add: segment_def take_add [symmetric])

lemma group_uniform:
  assumes "one_group xs a i" "a < b" "b \<le> Suc i" "b \<le> length xs"
  shows "chunk_ok limit (segment xs a b)"
proof -
  have "hlc_of x = hlc_of (xs ! a)" if x: "x \<in> set (segment xs a b)" for x
  proof -
    from segment_facts(5) [OF assms(2,4) x] obtain j where "j \<in> {a..<b}" "x = xs ! j" by blast
    then show ?thesis using bspec [OF assms(1) [unfolded one_group_def], of j] assms(3,4) by simp
  qed
  then show ?thesis using segment_facts(2) [OF assms(2,4)] by (simp add: chunk_ok_def uniform_def)
qed

lemma chunk_end:
  assumes "chunks \<noteq> []" "list_all (chunk_ok limit) chunks" "concat chunks = take cs xs" "0 < cs" "cs \<le> length xs"
  shows "last (last chunks) = xs ! (cs - 1)"
proof -
  have "last chunks \<noteq> []" using assms(1,2) by (auto simp: list_all_iff chunk_ok_def)
  then have "last (concat chunks) = last (last chunks)"
    using assms(1) by (metis append_butlast_last_id concat.simps concat_append last_appendR append_Nil2)
  moreover have "last (take cs xs) = xs ! (cs - 1)" using assms(4,5) by (subst last_conv_nth) (auto simp: min_def)
  ultimately show ?thesis using assms(3) by simp
qed

lemma chunk_inv_step:
  assumes inv: "chunk_inv xs limit i acc" and i: "i < length xs"
  shows "chunk_inv xs limit (Suc i) (chunk_step xs limit (Suc i) acc)"
proof -
  obtain chunks cs gs len where acc: "acc = (chunks, cs, gs, len)" by (cases acc)
  have I: "cs \<le> gs" "gs \<le> i" "len = gs - cs" "boundary xs gs" "boundary xs cs" "i = length xs \<longrightarrow> gs = i"
    "concat chunks = take cs xs" "list_all (chunk_ok limit) chunks" "gs = cs \<or> chunk_ok limit (segment xs cs gs)"
    "split_apart chunks" "chunks \<noteq> [] \<longrightarrow> 0 < cs \<and> cs < length xs"
    and G: "one_group xs gs i"
    using inv unfolding chunk_inv_def acc prod.case by blast+
  show ?thesis
  proof (cases "Suc i = length xs \<or> hlc_of (xs ! Suc i) \<noteq> hlc_of (xs ! i)")
    case False
    then have "chunk_step xs limit (Suc i) acc = acc" by (simp add: chunk_step_def acc)
    moreover have "one_group xs gs (Suc i)" unfolding one_group_def
    proof (intro ballI impI)
      fix j assume j: "j \<in> {gs..Suc i}" "j < length xs"
      show "hlc_of (xs ! j) = hlc_of (xs ! gs)"
      proof (cases "j = Suc i")
        case True
        then have "hlc_of (xs ! j) = hlc_of (xs ! i)" using False by simp
        also have "\<dots> = hlc_of (xs ! gs)" using bspec [OF G [unfolded one_group_def], of i] I(2) i by simp
        finally show ?thesis .
      next
        case False
        then show ?thesis using bspec [OF G [unfolded one_group_def], of j] j by simp
      qed
    qed
    ultimately show ?thesis using I False i unfolding chunk_inv_def acc by simp
  next
    case True
    have bnd: "boundary xs (Suc i)" using True by (auto simp: boundary_def)
    have grp: "chunk_ok limit (segment xs gs (Suc i))" by (rule group_uniform [OF G]) (use I(2) i in simp_all)
    have tail: "one_group xs (Suc i) (Suc i)" by (simp add: one_group_def)
    show ?thesis
    proof (cases "0 < len \<and> limit < len + (Suc i - gs)")
      case flush: True
      have step: "chunk_step xs limit (Suc i) acc = (chunks @ [segment xs cs gs], gs, Suc i, Suc i - gs)"
        using True flush by (auto simp: chunk_step_def acc segment_def Let_def)
      have lt: "cs < gs" "gs \<le> length xs" "gs < length xs" using I flush i by auto
      have "chunks \<noteq> [] \<longrightarrow> hlc_of (last (last chunks)) \<noteq> hlc_of (hd (segment xs cs gs))"
      proof
        assume ne: "chunks \<noteq> []"
        then have "0 < cs" "last (last chunks) = xs ! (cs - 1)" using chunk_end [OF ne I(8,7)] I(11) by auto
        then show "hlc_of (last (last chunks)) \<noteq> hlc_of (hd (segment xs cs gs))"
          using I lt segment_facts(3) [OF lt(1,2)] \<open>0 < cs\<close> by (auto simp: boundary_def)
      qed
      then show ?thesis using I lt step grp bnd tail i
        by (auto simp: chunk_inv_def successively_append_iff segment_append)
    next
      case keep: False
      have step: "chunk_step xs limit (Suc i) acc = (chunks, cs, Suc i, len + (Suc i - gs))"
        using True keep by (auto simp: chunk_step_def acc Let_def)
      have "chunk_ok limit (segment xs cs (Suc i))"
      proof (cases "gs = cs")
        case True
        then show ?thesis using grp by simp
      next
        case False
        then have "length (segment xs cs (Suc i)) \<le> limit" "segment xs cs (Suc i) \<noteq> []"
          using keep I i segment_facts(1,2) [of cs "Suc i" xs] by auto
        then show ?thesis by (simp add: chunk_ok_def)
      qed
      then show ?thesis using I step bnd tail i by (auto simp: chunk_inv_def)
    qed
  qed
qed

lemma chunk_fold_inv:
  assumes "i \<le> length xs"
  shows "chunk_inv xs limit i (fold (chunk_step xs limit) [1..<Suc i] ([], 0, 0, 0))"
  using assms
proof (induction i)
  case 0
  then show ?case by (simp add: chunk_inv_def boundary_def one_group_def)
next
  case (Suc i)
  then show ?case using chunk_inv_step [of xs limit i] by simp
qed

text \<open>Chunking neither loses nor reorders a change and never splits a transaction: the chunks in
  order are the changes, adjacent chunks meet only where the timestamp changes, and a chunk over the
  limit holds a single transaction.\<close>

lemma chunks_partition:
  "concat (chunk_changes_by_hlc xs limit) = xs
   \<and> list_all (\<lambda>c. c \<noteq> [] \<and> (length c \<le> limit \<or> uniform c)) (chunk_changes_by_hlc xs limit)
   \<and> split_apart (chunk_changes_by_hlc xs limit)"
proof (cases "xs = []")
  case True
  then show ?thesis by (simp add: chunk_changes_by_hlc_def)
next
  case False
  obtain chunks cs gs len where acc: "fold (chunk_step xs limit) [1..<Suc (length xs)] ([], 0, 0, 0) = (chunks, cs, gs, len)"
    by (metis prod_cases4)
  have I: "cs \<le> gs" "gs = length xs" "len = gs - cs" "boundary xs cs" "concat chunks = take cs xs" "list_all (chunk_ok limit) chunks"
    "gs = cs \<or> chunk_ok limit (segment xs cs gs)" "split_apart chunks" "chunks \<noteq> [] \<longrightarrow> 0 < cs \<and> cs < length xs"
    using chunk_fold_inv [of "length xs" xs limit] unfolding acc chunk_inv_def prod.case by blast+
  have "cs < length xs" using I False by (cases "chunks = []") (auto simp: le_less)
  then have res: "chunk_changes_by_hlc xs limit = chunks @ [drop cs xs]"
    and seg: "segment xs cs gs = drop cs xs" "cs < gs" using I False acc by (simp_all add: chunk_changes_by_hlc_def segment_def)
  have "hlc_of (last (last chunks)) \<noteq> hlc_of (hd (drop cs xs))" if ne: "chunks \<noteq> []"
    using chunk_end [OF ne I(6,5)] I ne \<open>cs < length xs\<close> by (auto simp: boundary_def hd_drop_conv_nth)
  then show ?thesis using I res seg by (auto simp: successively_append_iff list_all_iff chunk_ok_def)
qed


section \<open>Pushing resumes without loss\<close>

text \<open>The chunks the leader has accepted.\<close>

fun accepted_chunks ::
  "('m, 'h, 'ts) member_io \<Rightarrow> 's peer_session \<Rightarrow> loop_ctx \<Rightarrow> local_column_change list list \<Rightarrow> 's \<Rightarrow> local_column_change list list" where
  "accepted_chunks io ses lx [] s = []"
| "accepted_chunks io ses lx (chunk # rest) s =
     (case mi_changes_json io chunk of
        Inl _ \<Rightarrow> []
      | Inr j \<Rightarrow> (case push_changes ses (lx_space_id lx) j s of
                   (Inl _, _) \<Rightarrow> []
                 | (Inr _, s') \<Rightarrow> chunk # accepted_chunks io ses lx rest s'))"

definition chunk_max :: "local_column_change list \<Rightarrow> string" where
  "chunk_max c = (case hlc_max (map hlc_of c) of None \<Rightarrow> [] | Some m \<Rightarrow> m)"

lemma checkpoint_push_sel [simp]:
  "mb_last_push_hlc (checkpoint_push io lx h st) = Some h" "mb_db (checkpoint_push io lx h st) = mb_db st"
  by (simp_all add: checkpoint_push_def)

lemma push_chunks_effect:
  "push_chunks io ses lx idx chunks st s = (r, st', s') \<Longrightarrow>
     (\<exists>rest. chunks = accepted_chunks io ses lx chunks s @ rest \<and> (r = Inr () \<longleftrightarrow> rest = []))
     \<and> mb_last_push_hlc st' = (case rev (accepted_chunks io ses lx chunks s) of [] \<Rightarrow> mb_last_push_hlc st | c # _ \<Rightarrow> Some (chunk_max c))"
proof (induction chunks arbitrary: idx st s)
  case Nil
  then show ?case by auto
next
  case (Cons chunk chunks)
  show ?case
  proof (cases "mi_changes_json io chunk")
    case (Inl e)
    then show ?thesis using Cons.prems by auto
  next
    case (Inr j)
    obtain r1 s1 where p: "push_changes ses (lx_space_id lx) j s = (r1, s1)" by (cases "push_changes ses (lx_space_id lx) j s")
    show ?thesis
    proof (cases r1)
      case (Inl e)
      then show ?thesis using Cons.prems Inr p \<open>mi_changes_json io chunk = Inr j\<close> by auto
    next
      case ok: (Inr u)
      let ?st = "checkpoint_push io lx (chunk_max chunk) st"
      have run: "push_chunks io ses lx (Suc idx) chunks ?st s1 = (r, st', s')"
        using Cons.prems Inr p ok by (simp add: Let_def chunk_max_def)
      from Cons.IH [OF run] show ?thesis
        using Inr p ok by (cases "rev (accepted_chunks io ses lx chunks s1)") (auto split: list.splits)
    qed
  qed
qed

text \<open>A change the next scan would report again.\<close>

definition still_due :: "string option \<Rightarrow> local_column_change \<Rightarrow> bool" where
  "still_due cursor c \<longleftrightarrow> (case cursor of None \<Rightarrow> True | Some h \<Rightarrow> hlc_is_newer (hlc_of c) h)"

lemma scanned_newer:
  assumes "scan_space_scoped_tables_for_local_changes env b64 db space after dev origin = Inr cs" "c \<in> set cs" "after = Some th"
  shows "hlc_is_newer (hlc_of c) th"
proof -
  obtain t cs' where "scan_table_for_local_changes_scoped env b64 db t after dev (Some space) origin = Inr cs'" "c \<in> set cs'"
    using assms scan_tables_mem by (fastforce simp: scan_space_scoped_tables_for_local_changes_def res_simps)
  then show ?thesis using scan_table_exported assms(3) by blast
qed

lemma scan_for_push_facts:
  assumes "scan_for_push io lx st = Inr cs"
  shows "sorted_wrt (\<lambda>a b. \<not> hlc_is_newer (hlc_of a) (hlc_of b)) cs" "\<forall>c\<in>set cs. still_due (mb_last_push_hlc st) c"
proof -
  obtain all where all: "scan_space_scoped_tables_for_local_changes (se_sql (mi_env io)) (se_b64 (mi_env io)) (mb_db st)
      (lx_space_id lx) (mb_last_push_hlc st) (lx_device_id lx) (lx_our_node lx) = Inr all"
    and cs: "cs = all \<or> cs = filter (\<lambda>c. lc_table_name c \<in> set MEMBERSHIP_SYSTEM_TABLES) all"
    using assms by (auto simp: scan_for_push_def scan_membership_tables_for_local_changes_def res_simps split: if_splits)
  have "sorted_wrt (\<lambda>a b. \<not> hlc_is_newer (hlc_of a) (hlc_of b)) all" using scan_space_sorted [OF all] by (simp add: hlc_is_newer_def)
  then show "sorted_wrt (\<lambda>a b. \<not> hlc_is_newer (hlc_of a) (hlc_of b)) cs" using cs sorted_wrt_filter by blast
  have "still_due (mb_last_push_hlc st) c" if c: "c \<in> set all" for c
    using scanned_newer [OF all c] by (auto simp: still_due_def split: option.splits)
  then show "\<forall>c\<in>set cs. still_due (mb_last_push_hlc st) c" using cs by auto
qed

definition pushable :: "('m, 'h, 'ts) member_io \<Rightarrow> loop_ctx \<Rightarrow> ('m, 'h) member_state \<Rightarrow> local_column_change \<Rightarrow> bool" where
  "pushable io lx st = change_owned (mi_env io) (lx_identity_id lx)
     (case lx_identity_id lx of
        Some i \<Rightarrow> query_owned_row_ids (mi_env io) (mb_db st) ''haex_space_members'' ''identity_id'' (lx_space_id lx) i
      | None \<Rightarrow> [])
     (query_owned_row_ids (mi_env io) (mb_db st) ''haex_space_devices'' ''endpoint_id'' (lx_space_id lx) (lx_endpoint_id lx))"

lemma filter_fold_fst: "fst (fold (filter_step owned) cs acc) = fst acc @ filter owned cs"
  by (induction cs arbitrary: acc) (auto simp: filter_step_def)

lemma filter_foreign_fst:
  "fst (filter_foreign_membership_rows (mi_env io) (mb_db st) (lx_space_id lx) all (lx_identity_id lx) (lx_endpoint_id lx))
     = filter (pushable io lx st) all"
  unfolding filter_foreign_membership_rows_def Let_def filter_fold_fst pushable_def by simp

definition clear_stamps :: "local_column_change list \<Rightarrow> bool" where
  "clear_stamps cs \<longleftrightarrow> (\<forall>a\<in>set cs. \<forall>b\<in>set cs. parse_hlc (hlc_of a) = parse_hlc (hlc_of b) \<longrightarrow> hlc_of a = hlc_of b)"

lemma hlc_total: "parse_hlc a \<noteq> parse_hlc b \<Longrightarrow> hlc_is_newer a b \<or> hlc_is_newer b a"
  by (auto simp: hlc_is_newer_key prod_eq_iff)

lemma chunk_max_mem: "c \<noteq> [] \<Longrightarrow> chunk_max c \<in> hlc_of ` set c"
  using hlc_max_mem [of "map hlc_of c"] hlc_max_None [of "map hlc_of c"] by (cases "hlc_max (map hlc_of c)") (auto simp: chunk_max_def)

lemma later_chunks_newer:
  assumes sorted: "sorted_wrt (\<lambda>a b. \<not> hlc_is_newer (hlc_of a) (hlc_of b)) (concat (acc @ rest))"
    and stamps: "clear_stamps (concat (acc @ rest))" and apart: "split_apart (acc @ rest)"
    and full: "\<forall>c\<in>set (acc @ rest). c \<noteq> []" "acc \<noteq> []" "rest \<noteq> []" and c: "c \<in> set (concat rest)" and a: "a \<in> set (concat acc)"
  shows "hlc_is_newer (hlc_of c) (hlc_of a)"
proof -
  let ?xs = "concat acc" and ?ys = "concat rest"
  let ?x = "last (last acc)" and ?y = "hd (hd rest)"
  have ends: "?x = last ?xs" "?xs \<noteq> []" "?y = hd ?ys" "?ys \<noteq> []"
  proof -
    obtain acc' l where "acc = acc' @ [l]" using full(2) by (cases acc rule: rev_cases) auto
    moreover obtain h rest' where "rest = h # rest'" using full(3) by (cases rest) auto
    ultimately show "?x = last ?xs" "?xs \<noteq> []" "?y = hd ?ys" "?ys \<noteq> []" using full(1) by auto
  qed
  have mem: "last ?xs \<in> set ?xs" "hd ?ys \<in> set ?ys" using ends by (auto intro: last_in_set hd_in_set simp del: set_concat)
  have S: "sorted_wrt (\<lambda>a b. \<not> hlc_is_newer (hlc_of a) (hlc_of b)) (?xs @ ?ys)" using sorted by simp
  have xy: "\<not> hlc_is_newer (hlc_of ?x) (hlc_of ?y)" and ax: "\<not> hlc_is_newer (hlc_of a) (hlc_of ?x)"
    and yc: "\<not> hlc_is_newer (hlc_of ?y) (hlc_of c)"
  proof -
    show "\<not> hlc_is_newer (hlc_of ?x) (hlc_of ?y)"
      using S mem unfolding sorted_wrt_append ends(1,3) by blast
    obtain pre where "?xs = pre @ [?x]" using ends by (metis append_butlast_last_id)
    then show "\<not> hlc_is_newer (hlc_of a) (hlc_of ?x)" using S a by (auto simp: sorted_wrt_append hlc.newer_irrefl)
    obtain post where "?ys = ?y # post" using ends by (metis list.collapse)
    then show "\<not> hlc_is_newer (hlc_of ?y) (hlc_of c)" using S c by (auto simp: sorted_wrt_append hlc.newer_irrefl)
  qed
  have "hlc_of ?x \<noteq> hlc_of ?y" using apart full(2,3) by (simp add: successively_append_iff)
  moreover have "?x \<in> set (concat (acc @ rest))" "?y \<in> set (concat (acc @ rest))" using mem unfolding ends(1,3) by simp_all
  ultimately have "parse_hlc (hlc_of ?x) \<noteq> parse_hlc (hlc_of ?y)" using stamps unfolding clear_stamps_def by blast
  then have "hlc_is_newer (hlc_of ?y) (hlc_of ?x)" using hlc_total xy by blast
  then show ?thesis using ax yc hlc.newer_neg_trans by blast
qed

definition push_plan :: "('m, 'h, 'ts) member_io \<Rightarrow> loop_ctx \<Rightarrow> ('m, 'h) member_state \<Rightarrow> local_column_change list \<Rightarrow> local_column_change list list" where
  "push_plan io lx st all = chunk_changes_by_hlc (filter (pushable io lx st) all) PUSH_CHUNK_SOFT_LIMIT"

lemma push_plan_facts:
  "concat (push_plan io lx st all) = filter (pushable io lx st) all" "\<forall>c\<in>set (push_plan io lx st all). c \<noteq> []"
  "split_apart (push_plan io lx st all)"
  using chunks_partition [of "filter (pushable io lx st) all" PUSH_CHUNK_SOFT_LIMIT] by (auto simp: push_plan_def list_all_iff)

lemma skip_foreign_cursor:
  "mb_last_push_hlc (skip_foreign io lx f st) = mb_last_push_hlc st
   \<or> (\<exists>h. mb_last_push_hlc (skip_foreign io lx f st) = Some h \<and> (\<forall>cur. mb_last_push_hlc st = Some cur \<longrightarrow> hlc_is_newer h cur))"
  by (auto simp: skip_foreign_def split: option.splits)

text \<open>The push phase is a run over the planned chunks, after which a success may advance the cursor.\<close>

lemma run_push_phase_split:
  assumes scan: "scan_for_push io lx st = Inr all" and run: "run_push_phase io ses lx st s = (r, st', s')"
  obtains st1 where "push_chunks io ses lx 0 (push_plan io lx st all) st s = (r, st1, s')"
    "r \<noteq> Inr () \<Longrightarrow> st' = st1" "mb_last_push_hlc st' = mb_last_push_hlc st1
      \<or> (\<exists>h. mb_last_push_hlc st' = Some h \<and> (\<forall>cur. mb_last_push_hlc st1 = Some cur \<longrightarrow> hlc_is_newer h cur))"
proof (cases "all = []")
  case True
  then have "push_plan io lx st all = []" by (simp add: push_plan_def chunk_changes_by_hlc_def)
  with True scan run that [of st] show thesis by (auto simp: run_push_phase_def)
next
  case False
  obtain changes f where ff: "filter_foreign_membership_rows (mi_env io) (mb_db st) (lx_space_id lx) all (lx_identity_id lx) (lx_endpoint_id lx) = (changes, f)"
    by (cases "filter_foreign_membership_rows (mi_env io) (mb_db st) (lx_space_id lx) all (lx_identity_id lx) (lx_endpoint_id lx)")
  then have changes: "changes = filter (pushable io lx st) all" using filter_foreign_fst [of io st lx all] by simp
  have plan: "(if changes = [] then (Inr (), st, s) else push_chunks io ses lx 0 (chunk_changes_by_hlc changes PUSH_CHUNK_SOFT_LIMIT) st s)
      = push_chunks io ses lx 0 (push_plan io lx st all) st s"
    by (simp add: push_plan_def changes chunk_changes_by_hlc_def)
  obtain r1 st1 s1 where p: "push_chunks io ses lx 0 (push_plan io lx st all) st s = (r1, st1, s1)" by (metis prod_cases3)
  show thesis
  proof (cases r1)
    case (Inl e)
    then show thesis using that [of st1] run p plan False scan ff by (simp add: run_push_phase_def)
  next
    case (Inr u)
    let ?st2 = "if changes = [] then st1 else clear_pushed io changes st1"
    have "st' = skip_foreign io lx f ?st2" "r = Inr ()" "s' = s1"
      using run p plan False scan ff Inr by (simp_all add: run_push_phase_def)
    moreover have "mb_last_push_hlc ?st2 = mb_last_push_hlc st1" by (simp add: clear_pushed_def)
    ultimately show thesis using that [of st1] p Inr skip_foreign_cursor [of io lx f ?st2] by simp
  qed
qed

text \<open>C38: A push never loses a change, whatever the leader answers and wherever it breaks off: every
  pushable change the scan found is in a chunk the leader accepted or is still newer than the cursor
  the next scan starts from; a phase that succeeds has delivered them all; and the cursor
  never moves back.\<close>

theorem push_loses_nothing:
  assumes scan: "scan_for_push io lx st = Inr all" and stamps: "clear_stamps all"
    and run: "run_push_phase io ses lx st s = (r, st', s')"
  shows "(\<forall>c\<in>set all. pushable io lx st c \<longrightarrow>
            c \<in> set (concat (accepted_chunks io ses lx (push_plan io lx st all) s)) \<or> still_due (mb_last_push_hlc st') c)
    \<and> (r = Inr () \<longrightarrow> concat (accepted_chunks io ses lx (push_plan io lx st all) s) = filter (pushable io lx st) all)
    \<and> (\<forall>h. mb_last_push_hlc st = Some h \<longrightarrow> (\<exists>h'. mb_last_push_hlc st' = Some h' \<and> \<not> hlc_is_newer h h'))"
proof -
  let ?plan = "push_plan io lx st all"
  let ?acc = "accepted_chunks io ses lx ?plan s"
  note S = scan_for_push_facts [OF scan]
  obtain st1 where p: "push_chunks io ses lx 0 ?plan st s = (r, st1, s')" and same: "r \<noteq> Inr () \<Longrightarrow> st' = st1"
    and adv: "mb_last_push_hlc st' = mb_last_push_hlc st1
      \<or> (\<exists>h. mb_last_push_hlc st' = Some h \<and> (\<forall>cur. mb_last_push_hlc st1 = Some cur \<longrightarrow> hlc_is_newer h cur))"
    using run_push_phase_split [OF scan run] by blast
  obtain rest where rest: "?plan = ?acc @ rest" "r = Inr () \<longleftrightarrow> rest = []"
    and cur: "mb_last_push_hlc st1 = (case rev ?acc of [] \<Rightarrow> mb_last_push_hlc st | c # _ \<Rightarrow> Some (chunk_max c))"
    using push_chunks_effect [OF p] by blast
  have split: "concat ?plan = concat ?acc @ concat rest" using arg_cong [OF rest(1), of concat] by simp
  have complete: "concat ?acc = filter (pushable io lx st) all" if "r = Inr ()" using push_plan_facts(1) [of io lx st all] rest that by simp
  have final: "?acc \<noteq> [] \<Longrightarrow> mb_last_push_hlc st1 = Some (chunk_max (last ?acc)) \<and> (\<exists>a\<in>set (last ?acc). chunk_max (last ?acc) = hlc_of a)
      \<and> last ?acc \<in> set ?acc"
  proof -
    assume ne: "?acc \<noteq> []"
    then obtain acc' l where l: "?acc = acc' @ [l]" by (cases ?acc rule: rev_cases) auto
    then have "l \<in> set ?plan" using rest(1) by simp
    then have "l \<noteq> []" using push_plan_facts(2) by blast
    then show ?thesis using chunk_max_mem [of l] cur l by auto
  qed
  have due: "still_due (mb_last_push_hlc st') c" if c: "c \<in> set all" "pushable io lx st c" "c \<notin> set (concat ?acc)" for c
  proof -
    have "c \<in> set (concat ?acc @ concat rest)" using c push_plan_facts(1) [of io lx st all] split by simp
    then have cr: "c \<in> set (concat rest)" using c(3) by (simp del: set_concat)
    then have "rest \<noteq> []" by auto
    then have st': "st' = st1" using rest(2) same by blast
    show ?thesis
    proof (cases "?acc = []")
      case True
      then show ?thesis using S(2) c(1) cur st' by simp
    next
      case False
      then obtain a where a: "a \<in> set (last ?acc)" "chunk_max (last ?acc) = hlc_of a" "mb_last_push_hlc st1 = Some (hlc_of a)"
        "last ?acc \<in> set ?acc" using final by auto
      have "hlc_is_newer (hlc_of c) (hlc_of a)"
      proof (rule later_chunks_newer [of ?acc rest])
        have plan: "concat (?acc @ rest) = filter (pushable io lx st) all" using push_plan_facts(1) rest(1) by metis
        show "sorted_wrt (\<lambda>a b. \<not> hlc_is_newer (hlc_of a) (hlc_of b)) (concat (?acc @ rest))"
          unfolding plan using S(1) by (rule sorted_wrt_filter)
        show "clear_stamps (concat (?acc @ rest))" unfolding plan using stamps by (simp add: clear_stamps_def)
        show "split_apart (?acc @ rest)" "\<forall>c\<in>set (?acc @ rest). c \<noteq> []" using push_plan_facts(2,3) rest(1) by metis+
        show "a \<in> set (concat ?acc)" using a(1,4) by auto
      qed (use False cr \<open>rest \<noteq> []\<close> in simp_all)
      then show ?thesis using a(3) st' by (simp add: still_due_def)
    qed
  qed
  have mono: "\<exists>h'. mb_last_push_hlc st' = Some h' \<and> \<not> hlc_is_newer h h'" if h: "mb_last_push_hlc st = Some h" for h
  proof -
    have "\<exists>h1. mb_last_push_hlc st1 = Some h1 \<and> \<not> hlc_is_newer h h1"
    proof (cases "?acc = []")
      case True
      then show ?thesis using cur h by (simp add: hlc.newer_irrefl)
    next
      case False
      then obtain a where a: "a \<in> set (last ?acc)" "mb_last_push_hlc st1 = Some (hlc_of a)" "last ?acc \<in> set ?acc" using final by auto
      then have "a \<in> set (concat ?plan)" using rest(1) by (metis UnI1 concat_append set_append UN_I set_concat)
      then have "a \<in> set all" using push_plan_facts(1) [of io lx st all] by simp
      then show ?thesis using S(2) a(2) h hlc.newer_asym by (auto simp: still_due_def)
    qed
    then show ?thesis using adv hlc.newer_asym hlc.newer_trans by metis
  qed
  show ?thesis using due complete mono by blast
qed


section \<open>The message cursor\<close>

definition decodable :: "('m, 'h, 'ts) member_io \<Rightarrow> mls_message_entry \<Rightarrow> bool" where
  "decodable io m \<longleftrightarrow> (\<exists>b. b64_decode (se_ucan (mi_env io)) (me_message m) = Inr b)"

lemma attempt_rejoin_effect:
  assumes "attempt_rejoin io ses lx st s = (r, st', s')"
  shows "mb_last_mls st' = mb_last_mls st \<and> mb_settings st' = mb_settings st \<and> mb_last_push_hlc st' = mb_last_push_hlc st
    \<and> (case r of Inl _ \<Rightarrow> mb_events st' = mb_events st
       | Inr _ \<Rightarrow> \<exists>epoch. mb_events st' = mb_events st @ [RejoinCompleted (lx_space_id lx) epoch])"
  using assms unfolding attempt_rejoin_def by (auto split: prod.splits sum.splits)

lemma checkpoint_mls_sel [simp]:
  "mb_last_mls (checkpoint_mls io lx i st) = Some i" "mb_events (checkpoint_mls io lx i st) = mb_events st"
  by (simp_all add: checkpoint_mls_def)

text \<open>Without a rejoin the processed messages are the decodable ones of a prefix, and the cursor is at
  the last of them; a rejoin takes the cursor past the whole batch.\<close>

definition mls_outcome ::
  "('m, 'h, 'ts) member_io \<Rightarrow> loop_ctx \<Rightarrow> int list \<Rightarrow> mls_message_entry list \<Rightarrow> int list \<Rightarrow> ('m, 'h) member_state \<Rightarrow> ('m, 'h) member_state \<Rightarrow> bool" where
  "mls_outcome io lx ids msgs new st st' \<longleftrightarrow>
     (\<exists>pre post. msgs = pre @ post \<and> new = map me_id (filter (decodable io) pre)
        \<and> (if mb_events st' = mb_events st
           then mb_last_mls st' = (if new = [] then mb_last_mls st else Some (last new))
           else (\<exists>epoch. mb_events st' = mb_events st @ [RejoinCompleted (lx_space_id lx) epoch])
             \<and> (\<exists>c. mb_last_mls st' = Some c \<and> (\<forall>i\<in>set ids. i \<le> c))))"

lemma fold_max_upper: "x \<in> insert (a :: int) (set xs) \<Longrightarrow> x \<le> fold max xs a"
proof (induction xs arbitrary: a x)
  case (Cons y ys)
  have "max y a \<le> fold max ys (max y a)" by (rule Cons.IH) simp
  then show ?case using Cons.IH [of x "max y a"] Cons.prems by auto
qed simp

lemma mls_outcome_skip:
  assumes "mls_outcome io lx ids msgs new st st'" "\<not> decodable io msg"
  shows "mls_outcome io lx ids (msg # msgs) new st st'"
proof -
  from assms(1) obtain pre post where "msgs = pre @ post" "new = map me_id (filter (decodable io) pre)"
    unfolding mls_outcome_def by blast
  then have "msg # msgs = (msg # pre) @ post \<and> new = map me_id (filter (decodable io) (msg # pre))" using assms(2) by simp
  with assms(1) show ?thesis unfolding mls_outcome_def by blast
qed

lemma mls_outcome_processed:
  assumes "mls_outcome io lx ids msgs new st1 st'" "decodable io msg" "mb_last_mls st1 = Some (me_id msg)" "mb_events st1 = mb_events st"
  shows "mls_outcome io lx ids (msg # msgs) (me_id msg # new) st st'"
proof -
  from assms(1) obtain pre post where "msgs = pre @ post" "new = map me_id (filter (decodable io) pre)"
    unfolding mls_outcome_def by blast
  then have "msg # msgs = (msg # pre) @ post \<and> me_id msg # new = map me_id (filter (decodable io) (msg # pre))" using assms(2) by simp
  moreover have "if mb_events st' = mb_events st then mb_last_mls st' = Some (last (me_id msg # new))
      else (\<exists>epoch. mb_events st' = mb_events st @ [RejoinCompleted (lx_space_id lx) epoch])
        \<and> (\<exists>c. mb_last_mls st' = Some c \<and> (\<forall>i\<in>set ids. i \<le> c))"
    using assms(1,3,4) unfolding mls_outcome_def by (cases "mb_events st' = mb_events st") (auto split: if_splits)
  ultimately show ?thesis unfolding mls_outcome_def by (metis list.distinct(1))
qed

lemma process_messages_effect:
  "process_messages io ses lx ids msgs acked st s = (acked', st', s') \<Longrightarrow>
     \<exists>new. acked' = acked @ new \<and> mls_outcome io lx ids msgs new st st'"
proof (induction msgs arbitrary: acked st s)
  case Nil
  then show ?case by (auto simp: mls_outcome_def)
next
  case (Cons msg msgs)
  show ?case
  proof (cases "b64_decode (se_ucan (mi_env io)) (me_message msg)")
    case (Inl e)
    then have "\<exists>new. acked' = acked @ new \<and> mls_outcome io lx ids msgs new st st'" using Cons by simp
    moreover have "\<not> decodable io msg" using Inl by (simp add: decodable_def)
    ultimately show ?thesis using mls_outcome_skip by blast
  next
    case (Inr blob)
    then have dec: "decodable io msg" by (simp add: decodable_def)
    obtain r m where p: "mi_process io (mb_mls st) (lx_space_id lx) blob = (r, m)" by (cases "mi_process io (mb_mls st) (lx_space_id lx) blob")
    show ?thesis
    proof (cases r)
      case ok: (Inr u)
      let ?st = "checkpoint_mls io lx (me_id msg) (st\<lparr>mb_mls := m\<rparr>)"
      have "process_messages io ses lx ids msgs (acked @ [me_id msg]) ?st s = (acked', st', s')" using Cons.prems Inr p ok by simp
      from Cons.IH [OF this] obtain new where "acked' = acked @ me_id msg # new" "mls_outcome io lx ids msgs new ?st st'" by auto
      moreover have "mls_outcome io lx ids (msg # msgs) (me_id msg # new) st st'"
        by (rule mls_outcome_processed [OF calculation(2) dec]) simp_all
      ultimately show ?thesis by blast
    next
      case (Inl e)
      note fail = Cons.prems Inr p Inl
      have none: "mls_outcome io lx ids (msg # msgs) [] st st'" if "mb_events st' = mb_events st" "mb_last_mls st' = mb_last_mls st"
        unfolding mls_outcome_def using that by (intro exI [of _ "[]"] exI [of _ "msg # msgs"]) simp
      show ?thesis
      proof (cases "epoch_gap e")
        case False
        then show ?thesis using fail none by auto
      next
        case True
        obtain r1 st1 s1 where j: "attempt_rejoin io ses lx (st\<lparr>mb_mls := m\<rparr>) s = (r1, st1, s1)" by (metis prod_cases3)
        note eff = attempt_rejoin_effect [OF j]
        show ?thesis
        proof (cases r1)
          case (Inl e1)
          then show ?thesis using fail True j eff none by auto
        next
          case (Inr ec)
          let ?c = "max (fold max ids (me_id msg)) ec"
          have "i \<le> ?c" if "i \<in> set ids" for i using fold_max_upper [of i "me_id msg" ids] that by (simp add: max.coboundedI1)
          then have "mls_outcome io lx ids (msg # msgs) [] st (checkpoint_mls io lx ?c st1)"
            unfolding mls_outcome_def using eff Inr by (intro exI [of _ "[]"] exI [of _ "msg # msgs"]) auto
          then show ?thesis using fail True j Inr by auto
        qed
      qed
    qed
  qed
qed

text \<open>The message cursor is sound: for a batch of messages newer than the cursor in ascending order,
  the cursor afterwards passes only messages that were processed or are no base64, unless the member
  rejoined the group, and then it passes the whole batch; and exactly processed messages are
  acknowledged.  Messages that a rejoin skips are never acknowledged.\<close>

theorem mls_cursor_sound:
  assumes run: "process_messages io ses lx (map me_id msgs) msgs [] st s = (acked, st', s')"
    and asc: "sorted_wrt (<) (map me_id msgs)" and fresh: "list_all (\<lambda>m. \<forall>c. mb_last_mls st = Some c \<longrightarrow> c < me_id m) msgs"
  shows "(\<exists>pre post. msgs = pre @ post \<and> acked = map me_id (filter (decodable io) pre))
    \<and> (if mb_events st' = mb_events st
       then list_all (\<lambda>m. \<forall>c. mb_last_mls st' = Some c \<longrightarrow> me_id m \<le> c \<longrightarrow> me_id m \<in> set acked \<or> \<not> decodable io m) msgs
       else (\<exists>c. mb_last_mls st' = Some c \<and> list_all (\<lambda>m. me_id m \<le> c) msgs))"
proof -
  from process_messages_effect [OF run] obtain pre post where split: "msgs = pre @ post"
    and acked: "acked = map me_id (filter (decodable io) pre)"
    and cur: "if mb_events st' = mb_events st then mb_last_mls st' = (if acked = [] then mb_last_mls st else Some (last acked))
        else (\<exists>epoch. mb_events st' = mb_events st @ [RejoinCompleted (lx_space_id lx) epoch])
             \<and> (\<exists>c. mb_last_mls st' = Some c \<and> (\<forall>i\<in>set (map me_id msgs). i \<le> c))"
    unfolding mls_outcome_def by auto
  have passed: "me_id m \<in> set acked \<or> \<not> decodable io m"
    if m: "m \<in> set msgs" and c: "mb_last_mls st' = Some c" "me_id m \<le> c" and ev: "mb_events st' = mb_events st" for m c
  proof (cases "acked = []")
    case True
    then have "c < me_id m" using cur ev c(1) fresh m by (auto simp: list_all_iff)
    then show ?thesis using c(2) by simp
  next
    case False
    then have "c = last acked" using cur ev c(1) by simp
    then obtain m' where "m' \<in> set pre" "c = me_id m'" using False acked last_in_set [OF False] by auto
    then have "m \<notin> set post" using asc c(2) unfolding split by (fastforce simp: sorted_wrt_append)
    then show ?thesis using m split acked by auto
  qed
  show ?thesis using split acked cur passed by (auto simp: list_all_iff)
qed


section \<open>A pull from the leader\<close>

text \<open>The session of a member with the modelled leader: its requests arrive, and are answered, by the
  handler of the leader.\<close>

definition leader_session ::
  "('m, 'h, 'ts) leader_io \<Rightarrow> string \<Rightarrow> string \<Rightarrow> string \<Rightarrow> ('m, 'h) leader_state peer_session" where
  "leader_session lio ep did token =
     \<lparr>ses_net = (\<lambda>req ls. map_prod Answers id (handle_delivery_request lio req ep did ls)), ses_ucan_token = token\<rparr>"

text \<open>Change lists travel as JSON arrays, element by element.\<close>

definition change_json_laws :: "('m, 'h, 'ts) leader_io \<Rightarrow> ('n, 'g, 'us) member_io \<Rightarrow> bool" where
  "change_json_laws lio io \<longleftrightarrow> (\<forall>cs j. io_changes_json lio cs = Inr j \<longrightarrow>
     (\<exists>js. j = JArray js \<and> length js = length cs) \<and> mi_parse_changes io j = Inr cs)"

lemma refused_error:
  assumes "authorize_request env now req did ep peers db = (Inl x, logs)"
  shows "\<exists>m. x = RError m"
proof -
  have "\<exists>m. fst (gate_checks env now opn s level did ep db v) = Inl y \<longrightarrow> y = RError m" for opn s level v y
    using gate_checks_Inl by blast
  then show ?thesis using assms
    by (auto simp: authorize_request_def gate_reject_def split: option.splits peer_lookup.splits) (metis fst_conv)
qed

lemma pull_request_answer:
  assumes "pull_changes (leader_session lio ep did token) sp cursor ls = (Inr j, ls')"
  shows "\<exists>cs. scan_space_scoped_tables_for_local_changes (se_sql (io_env lio)) (se_b64 (io_env lio)) (ls_db ls) sp cursor ''leader'' None
      = Inr cs \<and> io_changes_json lio cs = Inr j \<and> same_data ls ls'"
proof -
  let ?req = "SyncPull sp cursor (Some token)"
  obtain r ls1 where h: "handle_delivery_request lio ?req ep did ls = (r, ls1)" by (cases "handle_delivery_request lio ?req ep did ls")
  then have r: "r = RSyncChanges j" "ls' = ls1" using assms
    by (auto simp: pull_changes_def ask_def session_request_def leader_session_def expect_def res_simps split: response.splits)
  obtain g logs where a: "authorize_request (io_env lio) (io_now lio) ?req did ep (ls_peers ls) (ls_db ls) = (g, logs)"
    by (cases "authorize_request (io_env lio) (io_now lio) ?req did ep (ls_peers ls) (ls_db ls)")
  have "\<exists>v. g = Inr (Some v)"
  proof (cases g)
    case (Inl x)
    then show ?thesis using refused_error [OF a [unfolded Inl]] h a r by (simp add: handle_delivery_request_def)
  next
    case (Inr u)
    then show ?thesis using h a r by (cases u) (simp_all add: handle_delivery_request_def)
  qed
  then obtain v where "handle_sync_pull lio sp cursor v (ls\<lparr>ls_logs := ls_logs ls @ logs\<rparr>) = (RSyncChanges j, ls1)"
    using h a r by (auto simp: handle_delivery_request_def)
  then show ?thesis using r by (auto simp: handle_sync_pull_def same_data_def split: sum.splits)
qed



section \<open>The loop\<close>

text \<open>The stored push cursor is the one in memory.\<close>

definition cursor_saved :: "loop_ctx \<Rightarrow> ('m, 'h) member_state \<Rightarrow> bool" where
  "cursor_saved lx st \<longleftrightarrow> load_last_push_hlc False (mb_settings st) (lx_space_id lx) (lx_device_id lx) = mb_last_push_hlc st"

lemma cursor_saved_push: "\<not> mi_settings_fault io \<Longrightarrow> cursor_saved lx (checkpoint_push io lx h st)"
  by (simp add: cursor_saved_def checkpoint_push_def load_last_push_hlc_def save_last_push_hlc_def load_setting_def save_setting_def)

lemma cursor_saved_mls: "cursor_saved lx (checkpoint_mls io lx i st) \<longleftrightarrow> cursor_saved lx st"
  by (simp add: cursor_saved_def checkpoint_mls_def load_last_push_hlc_def save_last_mls_cursor_def load_setting_def save_setting_def
      cursor_key_def mls_cursor_key_def)

lemma cursor_saved_cong:
  "mb_settings st' = mb_settings st \<Longrightarrow> mb_last_push_hlc st' = mb_last_push_hlc st \<Longrightarrow> cursor_saved lx st' \<longleftrightarrow> cursor_saved lx st"
  by (simp add: cursor_saved_def)

lemma push_chunks_saved:
  "push_chunks io ses lx idx chunks st s = (r, st', s') \<Longrightarrow> \<not> mi_settings_fault io \<Longrightarrow> cursor_saved lx st \<Longrightarrow> cursor_saved lx st'"
  by (induction chunks arbitrary: idx st s) (auto simp: Let_def cursor_saved_push split: sum.splits prod.splits)

lemma push_phase_saved:
  assumes "run_push_phase io ses lx st s = (r, st', s')" "\<not> mi_settings_fault io" "cursor_saved lx st"
  shows "cursor_saved lx st'"
proof -
  have skip: "cursor_saved lx (skip_foreign io lx f x)" if "cursor_saved lx x" for f x
    using that assms(2) by (auto simp: skip_foreign_def cursor_saved_push split: option.splits)
  have clear: "cursor_saved lx (clear_pushed io cs x) \<longleftrightarrow> cursor_saved lx x" for cs x
    by (rule cursor_saved_cong) (simp_all add: clear_pushed_def)
  show ?thesis using assms push_chunks_saved [of io ses lx 0] 
    by (auto simp: run_push_phase_def clear intro!: skip split: sum.splits prod.splits if_splits)
qed

lemma pull_phase_saved:
  "run_pull_phase io ses lx st s = (r, st', s') \<Longrightarrow> cursor_saved lx st' \<longleftrightarrow> cursor_saved lx st"
  by (rule cursor_saved_cong)
    (auto simp: run_pull_phase_def apply_pulled_def Let_def split: sum.splits prod.splits json.splits list.splits option.splits if_splits)

lemma process_messages_saved:
  "process_messages io ses lx ids msgs acked st s = (acked', st', s') \<Longrightarrow> cursor_saved lx st \<Longrightarrow> cursor_saved lx st'"
proof (induction msgs arbitrary: acked st s)
  case (Cons msg msgs)
  have up: "cursor_saved lx (st\<lparr>mb_mls := m\<rparr>)" for m using Cons.prems(2) by (simp add: cursor_saved_def)
  have rejoin: "cursor_saved lx st1" if "attempt_rejoin io ses lx (st\<lparr>mb_mls := m\<rparr>) s = (r1, st1, s1)" for r1 st1 s1 m
    using attempt_rejoin_effect [OF that] up cursor_saved_cong by blast
  show ?case using Cons.prems Cons.IH rejoin up
    by (auto simp: cursor_saved_mls split: sum.splits prod.splits if_splits)
qed simp

lemma mls_phase_saved:
  assumes "fetch_and_process_mls_messages io ses lx st s = (r, st', s')" "cursor_saved lx st"
  shows "cursor_saved lx st'"
proof -
  obtain r0 s0 where f: "fetch_mls_messages ses (lx_space_id lx) (mb_last_mls st) s = (r0, s0)"
    by (cases "fetch_mls_messages ses (lx_space_id lx) (mb_last_mls st) s")
  show ?thesis
  proof (cases "r0 = Inr [] \<or> (\<exists>e. r0 = Inl e)")
    case True
    then show ?thesis using assms f by (auto simp: fetch_and_process_mls_messages_def)
  next
    case False
    then obtain batch where b: "r0 = Inr batch" "batch \<noteq> []" by (cases r0) auto
    obtain acked st1 s1 where p: "process_messages io ses lx (map me_id batch) batch [] st s0 = (acked, st1, s1)" by (metis prod_cases3)
    have "mb_settings st' = mb_settings st1 \<and> mb_last_push_hlc st' = mb_last_push_hlc st1"
      using assms f b p by (auto simp: fetch_and_process_mls_messages_def split: prod.splits sum.splits if_splits)
    then show ?thesis using process_messages_saved [OF p assms(2)] cursor_saved_cong by blast
  qed
qed

lemma refill_saved:
  "refill_key_packages_if_needed io ses lx st s = (r, st', s') \<Longrightarrow> cursor_saved lx st' \<longleftrightarrow> cursor_saved lx st"
  by (rule cursor_saved_cong) (auto simp: refill_key_packages_if_needed_def split: prod.splits sum.splits if_splits)

lemma cycle_saved:
  assumes run: "run_sync_cycle io ses lx st s = (r, st', s')" and ok: "\<not> mi_settings_fault io" "cursor_saved lx st"
  shows "cursor_saved lx st'"
proof -
  obtain r1 st1 s1 where 1: "run_push_phase io ses lx st s = (r1, st1, s1)" by (metis prod_cases3)
  obtain r2 st2 s2 where 2: "run_pull_phase io ses lx st1 s1 = (r2, st2, s2)" by (metis prod_cases3)
  obtain r3 st3 s3 where 3: "fetch_and_process_mls_messages io ses lx st2 s2 = (r3, st3, s3)" by (metis prod_cases3)
  obtain r4 st4 s4 where 4: "refill_key_packages_if_needed io ses lx st3 s3 = (r4, st4, s4)" by (metis prod_cases3)
  have saved: "cursor_saved lx st2" "cursor_saved lx st3" "cursor_saved lx st4"
    using push_phase_saved [OF 1 ok] pull_phase_saved [OF 2] mls_phase_saved [OF 3] refill_saved [OF 4] by simp_all
  have "st' = st2 \<or> st' = st3 \<or> st' = st4 \<or> st' = st4\<lparr>mb_refilled := True\<rparr>"
    using run 1 2 3 4 by (cases r2; cases r4) (auto simp: run_sync_cycle_def split: if_splits)
  then show ?thesis using saved by (auto simp: cursor_saved_def)
qed

definition loop_inv :: "loop_ctx \<Rightarrow> ('m, 'h, 's) loop_state \<Rightarrow> bool" where
  "loop_inv lx l \<longleftrightarrow> cursor_saved lx (lp_member l)
     \<and> (\<forall>w n e. lp_phase l = Backoff w n e \<longrightarrow> 0 < n \<and> w = min (5 * 2 ^ (n - 1)) MAX_RECONNECT_BACKOFF)"

lemma loop_step_inv:
  assumes "loop_step lx (\<lambda>io. \<not> mi_settings_fault io) l l'" "loop_inv lx l"
  shows "loop_inv lx l'"
  using assms
proof (cases rule: loop_step.cases)
  case (cycle_ok io st s)
  then show ?thesis using cycle_saved assms(2) by (fastforce simp: loop_inv_def)
next
  case (cycle_failed io e st s)
  then have "cursor_saved lx st" using cycle_saved assms(2) by (fastforce simp: loop_inv_def)
  then show ?thesis using cycle_failed by (simp add: loop_inv_def cursor_saved_def MAX_RECONNECT_BACKOFF_def)
next
  case (reconnect_failed w n e s)
  then have "0 < n" "w = min (5 * 2 ^ (n - 1)) 60" using assms(2) by (simp_all add: loop_inv_def MAX_RECONNECT_BACKOFF_def)
  then have "min (w * 2) 60 = min (5 * 2 ^ n) 60" by (cases n) (auto simp: min_def)
  then show ?thesis using reconnect_failed assms(2) by (simp add: loop_inv_def cursor_saved_def MAX_RECONNECT_BACKOFF_def)
qed (use assms in \<open>auto simp: loop_inv_def cursor_saved_def\<close>)



section \<open>Instances\<close>

fun encode_change :: "local_column_change \<Rightarrow> json" where
  "encode_change c = JArray [JString (lc_table_name c), JString (lc_row_pks c), JString (lc_column_name c),
     JString (lc_hlc_timestamp c), lc_value c, JString (lc_device_id c)]"

fun decode_change :: "json \<Rightarrow> local_column_change" where
  "decode_change (JArray [JString t, JString p, JString c, JString h, v, JString d]) =
     \<lparr>lc_table_name = t, lc_row_pks = p, lc_column_name = c, lc_hlc_timestamp = h, lc_value = v, lc_device_id = d\<rparr>"
| "decode_change _ = undefined"

definition member_io_1 :: "(unit, string, string) member_io" where
  "member_io_1 = \<lparr>mi_env = sample_space_env, mi_iter = sample_order, mi_uhlc = sample_uhlc,
     mi_process = (\<lambda>m s b. (if b = [2] then Inl ''wrong epoch'' else Inr (), m)), mi_join_external = (\<lambda>m s b. (Inr ([], 4), m)),
     mi_generate_packages = (\<lambda>m n. (Inr [], m)),
     mi_parse_changes = (\<lambda>j. case j of JArray js \<Rightarrow> Inr (map decode_change js) | _ \<Rightarrow> Inl ''no array''),
     mi_changes_json = (\<lambda>cs. Inr (JArray (map encode_change cs))), mi_db_error_text = (\<lambda>e. ''error''), mi_poison = None,
     mi_settings_fault = False, mi_dirty_fault = (\<lambda>t. False), mi_timestamp = ''t''\<rparr>"

definition lx_1 :: loop_ctx where
  "lx_1 = \<lparr>lx_space_id = ''s1'', lx_device_id = ''d'', lx_our_node = Some 1, lx_can_push = True, lx_identity_id = None, lx_endpoint_id = ''e1''\<rparr>"

definition member_1 :: "crdt_db \<Rightarrow> (unit, string) member_state" where
  "member_1 db = (fresh_member False lx_1 db ((\<lambda>_. None)((cursor_key ''s1'', ''d'') \<mapsto> SText ''10/1'')) hlc_service_new ())\<lparr>mb_last_pull := Some ''5/1''\<rparr>"

definition offline :: "unit peer_session" where
  "offline = \<lparr>ses_net = (\<lambda>req s. (OpenFails ''offline'', s)), ses_ucan_token = ''tok''\<rparr>"

definition accepting :: "unit peer_session" where
  "accepting = \<lparr>ses_net = (\<lambda>req s. (Answers ROk, s)), ses_ucan_token = ''tok''\<rparr>"

lemma member_1_sel [simp]: "mb_db (member_1 db) = db" "mb_last_push_hlc (member_1 db) = Some ''10/1''" "mb_last_pull (member_1 db) = Some ''5/1''"
  "mi_env member_io_1 = sample_space_env" "lx_space_id lx_1 = ''s1''" "lx_device_id lx_1 = ''d''" "lx_our_node lx_1 = Some 1"
  "lx_can_push lx_1" "lx_identity_id lx_1 = None" "lx_endpoint_id lx_1 = ''e1''"
  by (simp_all add: member_1_def fresh_member_def load_last_push_hlc_def load_setting_def lx_1_def member_io_1_def)

lemma space_env_sel [simp]: "se_sql sample_space_env = sample_engine" "se_b64 sample_space_env = (\<lambda>b. ''b64'')"
  by (simp_all add: sample_space_env_def)

lemma scan_1: "scan_for_push member_io_1 lx_1 (member_1 space_db) = Inr space_db_changes"
  by (simp add: scan_for_push_def space_db_scan)

lemma stamps_1: "clear_stamps space_db_changes" by (simp add: clear_stamps_def space_db_changes_def)

lemma pushable_1: "pushable member_io_1 lx_1 (member_1 space_db) = (\<lambda>c. lc_table_name c \<noteq> ''haex_space_devices'')"
  by (rule ext) (simp add: pushable_def change_owned_def query_owned_row_ids_def table_rows_def extract_pk_id_def space_db_def
      sample_space_env_def sample_engine_def)

text \<open>A push to a leader that cannot be reached keeps both changes due.\<close>

theorem push_loses_nothing_witness:
  "\<exists>r st' s'. run_push_phase member_io_1 offline lx_1 (member_1 space_db) () = (r, st', s')
     \<and> list_all (still_due (mb_last_push_hlc st')) space_db_changes"
proof -
  obtain r st' s' where run: "run_push_phase member_io_1 offline lx_1 (member_1 space_db) () = (r, st', s')" by (metis prod_cases3)
  have none: "accepted_chunks member_io_1 offline lx_1 cs () = []" for cs
    by (cases cs) (simp_all add: member_io_1_def push_changes_def ask_def session_request_def offline_def expect_def)
  have "list_all (pushable member_io_1 lx_1 (member_1 space_db)) space_db_changes" by (simp add: pushable_1 space_db_changes_def)
  then show ?thesis using push_loses_nothing [OF scan_1 stamps_1 run] run unfolding none by (auto simp: list_all_iff)
qed

definition entry_1 :: "int \<Rightarrow> string \<Rightarrow> mls_message_entry" where
  "entry_1 i m = \<lparr>me_id = i, me_sender_did = ''alice'', me_message_type = ''commit'', me_message = m, me_created_at = ''t''\<rparr>"

theorem mls_cursor_sound_witness:
  "\<exists>acked st' s'. process_messages member_io_1 accepting lx_1 [7, 8] [entry_1 7 ''a'', entry_1 8 ''b''] [] (member_1 space_db) () = (acked, st', s')
     \<and> (\<exists>pre post. [entry_1 7 ''a'', entry_1 8 ''b''] = pre @ post \<and> acked = map me_id (filter (decodable member_io_1) pre))"
proof -
  let ?ms = "[entry_1 7 ''a'', entry_1 8 ''b'']"
  obtain acked st' s' where run: "process_messages member_io_1 accepting lx_1 (map me_id ?ms) ?ms [] (member_1 space_db) () = (acked, st', s')"
    by (metis prod_cases3)
  have "sorted_wrt (<) (map me_id ?ms)" by (simp add: entry_1_def)
  moreover have "list_all (\<lambda>m. \<forall>c. mb_last_mls (member_1 space_db) = Some c \<longrightarrow> c < me_id m) ?ms"
    by (simp add: member_1_def fresh_member_def load_last_mls_cursor_def load_setting_def cursor_key_def mls_cursor_key_def)
  ultimately show ?thesis using mls_cursor_sound [OF run] run by (auto simp: entry_1_def)
qed

text \<open>A leader with a row of time 1 that reached it late, and a member whose cursor is at 5.\<close>

definition leader_io_1 :: "(unit, string, string) leader_io" where
  "leader_io_1 = sample_io\<lparr>io_changes_json := (\<lambda>cs. Inr (JArray (map encode_change cs)))\<rparr>"

definition leader_1 :: "(unit, string) leader_state" where
  "leader_1 = sample_leader\<lparr>ls_db := alice_space\<rparr>"

lemma change_json_1: "change_json_laws leader_io_1 member_io_1"
  by (auto simp: change_json_laws_def leader_io_1_def member_io_1_def intro!: map_idI)

lemma late_scan:
  "scan_space_scoped_tables_for_local_changes sample_engine (\<lambda>b. ''b64'') alice_space ''s1'' (Some ''5/1'') ''leader'' None = Inr []"
  by (simp add: scan_eval alice_defs)

lemma pull_1:
  "\<exists>ls'. run_pull_phase member_io_1 (leader_session leader_io_1 ''e1'' ''alice'' ''tok'') lx_1 (member_1 space_db) leader_1
     = (Inr (), member_1 space_db, ls')"
proof -
  let ?req = "SyncPull ''s1'' (Some ''5/1'') (Some ''tok'')"
  have io: "io_env leader_io_1 = sample_space_env" "io_now leader_io_1 = Inr 4000" "ls_peers leader_1 = [''e1'' \<mapsto> alice_peer]" "ls_db leader_1 = alice_space"
    "io_changes_json leader_io_1 [] = Inr (JArray [])"
    by (simp_all add: leader_io_1_def leader_1_def sample_io_def sample_leader_def)
  have "fst (authorize_request sample_space_env (Inr 4000) ?req ''alice'' ''e1'' [''e1'' \<mapsto> alice_peer] alice_space) = Inr (Some (alice_ucan CapRead))"
    unfolding authorize_request_open using alice_is_member by (simp add: gate_open_def alice_peer_def alice_ucan_def)
  then obtain logs where a: "authorize_request sample_space_env (Inr 4000) ?req ''alice'' ''e1'' [''e1'' \<mapsto> alice_peer] alice_space
      = (Inr (Some (alice_ucan CapRead)), logs)" by (metis fst_conv surj_pair)
  show ?thesis
    by (simp add: run_pull_phase_def pull_changes_def ask_def session_request_def leader_session_def handle_delivery_request_def io a
        handle_sync_pull_def late_scan expect_def)
qed


definition loop_1 :: "(unit, string, unit) loop_state" where
  "loop_1 = \<lparr>lp_phase = BeforeCycle, lp_session = offline,
     lp_member = fresh_member False lx_1 space_db Map.empty hlc_service_new (), lp_net = ()\<rparr>"


end
