(* ===== verification/SqlText.thy ===== *)
theory SqlText
  imports Prelude
begin

text \<open>
  SQL as text, before it is parsed: whitespace normalisation (\<open>database/core.rs\<close>), the
  placeholder counter, statement splitting and the PRAGMA filter
  (\<open>extension/database/helpers.rs\<close>).  Text is ASCII; the bytes of another character are
  none of those the scanners look for.
\<close>

section \<open>Whitespace and splitting\<close>

definition is_whitespace :: "char \<Rightarrow> bool" where
  "is_whitespace c \<longleftrightarrow> c = CHR '' '' \<or> (9 \<le> (of_char c :: nat) \<and> (of_char c :: nat) \<le> 13)"

definition trim :: "string \<Rightarrow> string" where
  "trim s = rev (dropWhile is_whitespace (rev (dropWhile is_whitespace s)))"

definition split_whitespace :: "string \<Rightarrow> string list" where
  "split_whitespace s =
     filter (\<lambda>w. w \<noteq> []) (split_on (CHR '' '') (map (\<lambda>c. if is_whitespace c then CHR '' '' else c) s))"

definition normalize_sql :: "string \<Rightarrow> string" where
  "normalize_sql sql = join_on (CHR '' '') (split_whitespace sql)"

text \<open>\<open>str::split\<close> on a non-empty pattern.\<close>

fun find_str :: "string \<Rightarrow> string \<Rightarrow> (string \<times> string) option" where
  "find_str p [] = None"
| "find_str p (c # s) =
     (if starts_with (c # s) p then Some ([], drop (length p) (c # s))
      else map_option (\<lambda>(a, b). (c # a, b)) (find_str p s))"

lemma find_str_shorter: "find_str p s = Some (a, b) \<Longrightarrow> p \<noteq> [] \<Longrightarrow> length b < length s"
  by (induction p s arbitrary: a rule: find_str.induct) (auto split: if_splits)

function split_str :: "string \<Rightarrow> string \<Rightarrow> string list" where
  "split_str p s =
     (if p = [] then [s]
      else (case find_str p s of None \<Rightarrow> [s] | Some (a, b) \<Rightarrow> a # split_str p b))"
  by pat_completeness auto
termination by (relation "measure (\<lambda>(p, s). length s)") (auto dest: find_str_shorter)

declare split_str.simps [simp del]

definition DRIZZLE_STATEMENT_BREAKPOINT :: string where
  "DRIZZLE_STATEMENT_BREAKPOINT = ''--> statement-breakpoint''"

definition split_migration_statements :: "string \<Rightarrow> string list" where
  "split_migration_statements sql =
     filter (\<lambda>s. s \<noteq> []) (map trim (split_str DRIZZLE_STATEMENT_BREAKPOINT sql))"


section \<open>PRAGMA filter\<close>

definition is_pragma_statement :: "string \<Rightarrow> bool" where
  "is_pragma_statement sql \<longleftrightarrow> starts_with (to_uppercase (trim sql)) ''PRAGMA''"

definition pragma_normalized :: "string \<Rightarrow> string" where
  "pragma_normalized sql = filter (\<lambda>c. c \<noteq> CHR '';'') (filter (\<lambda>c. c \<noteq> CHR '' '') (to_uppercase (trim sql)))"

definition is_allowed_pragma :: "string \<Rightarrow> bool" where
  "is_allowed_pragma sql \<longleftrightarrow>
     pragma_normalized sql = ''PRAGMAFOREIGN_KEYS=OFF'' \<or> pragma_normalized sql = ''PRAGMAFOREIGN_KEYS=ON''"


section \<open>Placeholder counter\<close>

text \<open>The loops of the source on the index \<open>i\<close>; a loop that did not end would be \<open>None\<close>.\<close>

partial_function (option) skip_string :: "string \<Rightarrow> nat \<Rightarrow> nat option" where
  "skip_string s i =
     (if i < length s
      then (if s ! i = CHR 0x27
            then (if i + 1 < length s \<and> s ! (i + 1) = CHR 0x27 then skip_string s (i + 2) else Some (i + 1))
            else skip_string s (i + 1))
      else Some i)"

partial_function (option) skip_line_comment :: "string \<Rightarrow> nat \<Rightarrow> nat option" where
  "skip_line_comment s i =
     (if i < length s \<and> s ! i \<noteq> CHR 0x0A then skip_line_comment s (i + 1) else Some i)"

partial_function (option) skip_block_comment :: "string \<Rightarrow> nat \<Rightarrow> nat option" where
  "skip_block_comment s i =
     (if i + 1 < length s
      then (if s ! i = CHR ''*'' \<and> s ! (i + 1) = CHR ''/'' then Some (i + 2) else skip_block_comment s (i + 1))
      else Some i)"

partial_function (option) count_loop :: "string \<Rightarrow> nat \<Rightarrow> nat \<Rightarrow> nat option" where
  "count_loop s i n =
     (if i < length s
      then (if s ! i = CHR 0x27 then Option.bind (skip_string s (i + 1)) (\<lambda>j. count_loop s j n)
            else if s ! i = CHR ''-'' \<and> i + 1 < length s \<and> s ! (i + 1) = CHR ''-''
            then Option.bind (skip_line_comment s (i + 2)) (\<lambda>j. count_loop s j n)
            else if s ! i = CHR ''/'' \<and> i + 1 < length s \<and> s ! (i + 1) = CHR ''*''
            then Option.bind (skip_block_comment s (i + 2)) (\<lambda>j. count_loop s j n)
            else if s ! i = CHR ''?'' then count_loop s (i + 1) (n + 1)
            else count_loop s (i + 1) n)
      else Some n)"

definition count_sql_placeholders :: "string \<Rightarrow> nat option" where
  "count_sql_placeholders sql = count_loop sql 0 0"


section \<open>The counter on the rest of the text\<close>

text \<open>The same scan as structural recursion on the text that is left.\<close>

fun ph_code :: "string \<Rightarrow> nat" and ph_string :: "string \<Rightarrow> nat" and ph_line :: "string \<Rightarrow> nat"
  and ph_block :: "string \<Rightarrow> nat" where
  "ph_code [] = 0"
| "ph_code (c # s) =
     (if c = CHR 0x27 then ph_string s
      else if c = CHR ''-'' \<and> s \<noteq> [] \<and> hd s = CHR ''-'' then ph_line (tl s)
      else if c = CHR ''/'' \<and> s \<noteq> [] \<and> hd s = CHR ''*'' then ph_block (tl s)
      else if c = CHR ''?'' then Suc (ph_code s)
      else ph_code s)"
| "ph_string [] = 0"
| "ph_string (c # s) =
     (if c = CHR 0x27 then (if s \<noteq> [] \<and> hd s = CHR 0x27 then ph_string (tl s) else ph_code s) else ph_string s)"
| "ph_line [] = 0"
| "ph_line (c # s) = (if c \<noteq> CHR 0x0A then ph_line s else ph_code (c # s))"
| "ph_block [] = 0"
| "ph_block (c # s) =
     (if s = [] then ph_code (c # s)
      else if c = CHR ''*'' \<and> hd s = CHR ''/'' then ph_code (tl s) else ph_block s)"


lemma drop_step: "i < length s \<Longrightarrow> drop i s = s ! i # drop (i + 1) s"
  by (simp add: Cons_nth_drop_Suc)

lemma tl_drop_step: "tl (drop (i + 1) s) = drop (i + 2) s"
  by (simp add: tl_drop drop_Suc)

lemma skip_string_ends:
  "\<exists>j\<ge>i. skip_string s i = Some j \<and> ph_string (drop i s) = ph_code (drop j s)"
proof (induction "length s - i" arbitrary: i rule: less_induct)
  case less
  show ?case
  proof (cases "i < length s")
    case False
    then show ?thesis by (subst skip_string.simps) auto
  next
    case True
    have "length s - (i + 1) < length s - i" "length s - (i + 2) < length s - i" using True by auto
    from less [OF this(1)] less [OF this(2)] obtain j k where
      "j \<ge> i + 1" "skip_string s (i + 1) = Some j" "ph_string (drop (i + 1) s) = ph_code (drop j s)"
      "k \<ge> i + 2" "skip_string s (i + 2) = Some k" "ph_string (drop (i + 2) s) = ph_code (drop k s)"
      by blast
    then show ?thesis using True tl_drop_step [of i s]
      by (subst skip_string.simps) (auto simp: drop_step [OF True] hd_drop_conv_nth)
  qed
qed

lemma skip_line_ends:
  "\<exists>j\<ge>i. skip_line_comment s i = Some j \<and> ph_line (drop i s) = ph_code (drop j s)"
proof (induction "length s - i" arbitrary: i rule: less_induct)
  case less
  show ?case
  proof (cases "i < length s")
    case True
    then have "length s - (i + 1) < length s - i" by auto
    from less [OF this] obtain j where
      "j \<ge> i + 1" "skip_line_comment s (i + 1) = Some j" "ph_line (drop (i + 1) s) = ph_code (drop j s)" by blast
    then show ?thesis using True
      by (subst skip_line_comment.simps) (auto simp: drop_step [OF True])
  qed (subst skip_line_comment.simps, auto)
qed

lemma skip_block_ends:
  "\<exists>j\<ge>i. skip_block_comment s i = Some j \<and> ph_block (drop i s) = ph_code (drop j s)"
proof (induction "length s - i" arbitrary: i rule: less_induct)
  case less
  show ?case
  proof (cases "i + 1 < length s")
    case True
    then have "length s - (i + 1) < length s - i" by auto
    from less [OF this] obtain j where
      "j \<ge> i + 1" "skip_block_comment s (i + 1) = Some j" "ph_block (drop (i + 1) s) = ph_code (drop j s)" by blast
    then show ?thesis using True tl_drop_step [of i s]
      by (subst skip_block_comment.simps) (auto simp: drop_step [of i] hd_drop_conv_nth)
  next
    case False
    then have "ph_block (drop i s) = ph_code (drop i s)"
      by (cases "i < length s") (auto simp: drop_step)
    with False show ?thesis by (subst skip_block_comment.simps) auto
  qed
qed

lemma count_loop_ends: "count_loop s i n = Some (n + ph_code (drop i s))"
proof (induction "length s - i" arbitrary: i n rule: less_induct)
  case less
  show ?case
  proof (cases "i < length s")
    case True
    have after: "count_loop s j m = Some (m + ph_code (drop j s))" if "i < j" for j m
      using less [of j m] that True by auto
    obtain a b c where
      a: "a \<ge> i + 1" "skip_string s (i + 1) = Some a" "ph_string (drop (i + 1) s) = ph_code (drop a s)" and
      b: "b \<ge> i + 2" "skip_line_comment s (i + 2) = Some b" "ph_line (drop (i + 2) s) = ph_code (drop b s)" and
      c: "c \<ge> i + 2" "skip_block_comment s (i + 2) = Some c" "ph_block (drop (i + 2) s) = ph_code (drop c s)"
      using skip_string_ends skip_line_ends skip_block_ends by metis
    show ?thesis using True a b c tl_drop_step [of i s] after [of a] after [of b] after [of c] after [of "i + 1"]
      by (subst count_loop.simps) (auto simp: drop_step [OF True] hd_drop_conv_nth)
  qed (subst count_loop.simps, simp)
qed

lemma count_sql_placeholders_scan: "count_sql_placeholders sql = Some (ph_code sql)"
  by (simp add: count_sql_placeholders_def count_loop_ends)

lemma ph_le_count:
  "ph_code s \<le> count_list s (CHR ''?'')" "ph_string s \<le> count_list s (CHR ''?'')"
  "ph_line s \<le> count_list s (CHR ''?'')" "ph_block s \<le> count_list s (CHR ''?'')"
proof (induction s and s and s and s rule: ph_code_ph_string_ph_line_ph_block.induct)
qed (auto simp: neq_Nil_conv)

text \<open>C32: The placeholder counter ends on every text, with a number that is at most the number of
  question marks in it.\<close>

theorem placeholder_count_ends:
  "\<exists>n. count_sql_placeholders sql = Some n \<and> n \<le> count_list sql (CHR ''?'')"
  by (simp add: count_sql_placeholders_scan ph_le_count)



section \<open>What is counted\<close>

text \<open>A statement text as the pieces the lexer of SQLite distinguishes here.\<close>

datatype sql_piece =
    Plain char
  | Literal string
  | LineComment string
  | BlockComment string
  | Placeholder

definition quote_literal :: "string \<Rightarrow> string" where
  "quote_literal t = concat (map (\<lambda>c. if c = CHR 0x27 then [c, c] else [c]) t)"

fun render_piece :: "sql_piece \<Rightarrow> string" where
  "render_piece (Plain c) = [c]"
| "render_piece (Literal t) = CHR 0x27 # quote_literal t @ [CHR 0x27]"
| "render_piece (LineComment t) = ''--'' @ t @ [CHR 0x0A]"
| "render_piece (BlockComment t) = ''/*'' @ t @ ''*/''"
| "render_piece Placeholder = ''?''"

definition render :: "sql_piece list \<Rightarrow> string" where
  "render ps = concat (map render_piece ps)"

text \<open>Plain characters do not open a literal or a comment and comments do not end early.\<close>

fun piece_ok :: "sql_piece \<Rightarrow> string \<Rightarrow> bool" where
  "piece_ok (Plain c) rest \<longleftrightarrow> c \<noteq> CHR 0x27 \<and> c \<noteq> CHR ''?''
     \<and> \<not> (c = CHR ''-'' \<and> starts_with rest ''-'') \<and> \<not> (c = CHR ''/'' \<and> starts_with rest ''*'')"
| "piece_ok (Literal t) rest \<longleftrightarrow> True"
| "piece_ok (LineComment t) rest \<longleftrightarrow> CHR 0x0A \<notin> set t"
| "piece_ok (BlockComment t) rest \<longleftrightarrow> \<not> contains t ''*/''"
| "piece_ok Placeholder rest \<longleftrightarrow> True"

fun pieces_ok :: "sql_piece list \<Rightarrow> bool" where
  "pieces_ok [] \<longleftrightarrow> True"
| "pieces_ok (p # ps) \<longleftrightarrow> piece_ok p (render ps) \<and> pieces_ok ps"

lemma starts_with_single: "starts_with s [c] \<longleftrightarrow> s \<noteq> [] \<and> hd s = c"
  by (cases s) (auto simp: starts_with_def)

lemma ph_literal: "ph_string (quote_literal t @ CHR 0x27 # rest) = ph_code rest"
proof (induction t)
  case Nil
  show ?case by (cases rest) (auto simp: quote_literal_def)
next
  case (Cons c t)
  then show ?case by (auto simp: quote_literal_def)
qed

lemma ph_line_comment: "CHR 0x0A \<notin> set t \<Longrightarrow> ph_line (t @ CHR 0x0A # rest) = ph_code rest"
  by (induction t) auto

lemma ph_block_comment: "\<not> contains t ''*/'' \<Longrightarrow> ph_block (t @ CHR ''*'' # CHR ''/'' # rest) = ph_code rest"
proof (induction t)
  case (Cons c t)
  then have "\<not> (c = CHR ''*'' \<and> t \<noteq> [] \<and> hd t = CHR ''/'')" by (cases t) (auto simp: starts_with_def)
  with Cons show ?case by (cases t) auto
qed simp

lemma ph_pieces: "pieces_ok ps \<Longrightarrow> ph_code (render ps) = count_list ps Placeholder"
proof (induction ps)
  case (Cons p ps)
  then show ?case
    by (cases p) (auto simp: render_def starts_with_single ph_literal ph_line_comment ph_block_comment)
qed (simp add: render_def)

text \<open>The counter finds exactly the placeholders of a statement: those written outside string
  literals (with doubled quotes), line comments and block comments.\<close>

theorem placeholder_count_exact:
  assumes "pieces_ok ps"
  shows "count_sql_placeholders (render ps) = Some (count_list ps Placeholder)"
  using ph_pieces [OF assms] by (simp add: count_sql_placeholders_scan)

theorem placeholder_count_exact_witness:
  "count_sql_placeholders (render [Plain (CHR ''a''), Plain (CHR ''=''), Placeholder, Literal [CHR ''?'', CHR 0x27, CHR ''?''],
     BlockComment ''?'', Placeholder, LineComment ''-?'']) = Some 2"
  by (subst placeholder_count_exact) (simp_all add: render_def starts_with_def)

text \<open>Normalising reaches into literals, and turns a line comment into one that hides the rest.\<close>

lemma normalize_changes_literal:
  "normalize_sql (CHR 0x27 # ''a  b'' @ [CHR 0x27]) = CHR 0x27 # ''a b'' @ [CHR 0x27]"
  by code_simp

lemma normalize_extends_comment:
  "count_sql_placeholders (''--x'' @ [CHR 0x0A] @ ''?'') = Some 1
   \<and> count_sql_placeholders (normalize_sql (''--x'' @ [CHR 0x0A] @ ''?'')) = Some 0"
  unfolding count_sql_placeholders_scan by code_simp

end
