(* ===== verification/Limits.thy ===== *)
theory Limits
  imports SpaceDb PermCheck
begin

text \<open>
  Resource limits of extensions (\<open>extension/limits\<close>): the configured limits with their
  commands, the counters of running operations with their guards, and the rate windows of web
  requests and file operations.

  An \<open>i64\<close> is a 64-bit word read by \<open>sint\<close>, a \<open>usize\<close> one read by \<open>unat\<close>; a cast between them keeps
  the bits.  Instants are nanoseconds of the monotonic clock.  The locks are poison-tolerant, so
  an operation is a function on the map behind its lock.
\<close>

type_synonym i64 = "64 word"
type_synonym usize = "64 word"

definition show_i64 :: "i64 \<Rightarrow> string" where
  "show_i64 w = (if sint w < 0 then ''-'' @ show_radix 10 (nat (- sint w)) else show_radix 10 (nat (sint w)))"

definition show_usize :: "usize \<Rightarrow> string" where
  "show_usize w = show_radix 10 (unat w)"


section \<open>Limits\<close>

record database_limits =
  query_timeout_ms :: i64
  max_result_rows :: i64
  max_concurrent_queries :: i64
  max_query_size_bytes :: i64

definition database_limits_default :: database_limits where
  "database_limits_default = \<lparr>query_timeout_ms = 30000, max_result_rows = 10000, max_concurrent_queries = 20,
     max_query_size_bytes = 1048576\<rparr>"

record filesystem_limits =
  max_storage_bytes :: i64
  max_file_size_bytes :: i64
  max_concurrent_operations :: i64
  max_operations_per_minute :: i64

definition filesystem_limits_default :: filesystem_limits where
  "filesystem_limits_default = \<lparr>max_storage_bytes = 100 * 1024 * 1024, max_file_size_bytes = 50 * 1024 * 1024,
     max_concurrent_operations = 10, max_operations_per_minute = 120\<rparr>"

record web_limits =
  max_requests_per_minute :: i64
  max_bandwidth_bytes_per_minute :: i64
  max_concurrent_requests :: i64

definition web_limits_default :: web_limits where
  "web_limits_default = \<lparr>max_requests_per_minute = 60, max_bandwidth_bytes_per_minute = 10 * 1024 * 1024,
     max_concurrent_requests = 5\<rparr>"

record default_limits =
  df_database :: database_limits
  df_filesystem :: filesystem_limits
  df_web :: web_limits

definition default_limits_default :: default_limits where
  "default_limits_default = \<lparr>df_database = database_limits_default, df_filesystem = filesystem_limits_default,
     df_web = web_limits_default\<rparr>"

record extension_limits =
  el_database :: database_limits
  el_filesystem :: filesystem_limits
  el_web :: web_limits

definition extension_limits_from_defaults :: "default_limits \<Rightarrow> extension_limits" where
  "extension_limits_from_defaults d =
     \<lparr>el_database = df_database d, el_filesystem = df_filesystem d, el_web = df_web d\<rparr>"

datatype limit_error =
    QueryTooLarge usize i64
  | QueryTimeout i64
  | ResultTooLarge usize i64
  | TooManyConcurrentQueries usize i64
  | StorageQuotaExceeded i64 i64
  | FileTooLarge i64 i64
  | TooManyConcurrentFileOps usize i64
  | FilesystemRateLimitExceeded usize i64
  | RateLimitExceeded usize i64
  | BandwidthExceeded i64 i64
  | TooManyConcurrentWebRequests usize i64

fun display_limit_error :: "limit_error \<Rightarrow> string" where
  "display_limit_error (QueryTooLarge sz mx) =
     ''Query SQL exceeds maximum size: '' @ show_usize sz @ '' bytes (limit: '' @ show_i64 mx @ '' bytes)''"
| "display_limit_error (QueryTimeout ms) = ''Query exceeded timeout of '' @ show_i64 ms @ '' ms''"
| "display_limit_error (ResultTooLarge n mx) =
     ''Query result exceeds maximum rows: '' @ show_usize n @ '' (limit: '' @ show_i64 mx @ '')''"
| "display_limit_error (TooManyConcurrentQueries n mx) =
     ''Too many concurrent queries: '' @ show_usize n @ '' (limit: '' @ show_i64 mx @ '')''"
| "display_limit_error (StorageQuotaExceeded used mx) =
     ''Storage quota exceeded: '' @ show_i64 used @ '' bytes used (limit: '' @ show_i64 mx @ '' bytes)''"
| "display_limit_error (FileTooLarge sz mx) =
     ''File too large: '' @ show_i64 sz @ '' bytes (limit: '' @ show_i64 mx @ '' bytes)''"
| "display_limit_error (TooManyConcurrentFileOps n mx) =
     ''Too many concurrent file operations: '' @ show_usize n @ '' (limit: '' @ show_i64 mx @ '')''"
| "display_limit_error (FilesystemRateLimitExceeded n mx) =
     ''Filesystem rate limit exceeded: '' @ show_usize n @ '' operations (limit: '' @ show_i64 mx @ '' per minute)''"
| "display_limit_error (RateLimitExceeded n mx) =
     ''Rate limit exceeded: '' @ show_usize n @ '' requests (limit: '' @ show_i64 mx @ '' per minute)''"
| "display_limit_error (BandwidthExceeded b mx) =
     ''Bandwidth limit exceeded: '' @ show_i64 b @ '' bytes (limit: '' @ show_i64 mx @ '' bytes per minute)''"
| "display_limit_error (TooManyConcurrentWebRequests n mx) =
     ''Too many concurrent web requests: '' @ show_usize n @ '' (limit: '' @ show_i64 mx @ '')''"


section \<open>Running operations\<close>

text \<open>\<open>ConcurrencyTracker\<close>: one counter per extension; \<open>fetch_add\<close> and \<open>fetch_sub\<close> wrap.\<close>

type_synonym concurrency_tracker = "string \<rightharpoonup> usize"

definition tracker_get_count :: "concurrency_tracker \<Rightarrow> string \<Rightarrow> usize" where
  "tracker_get_count t ext = (case t ext of None \<Rightarrow> 0 | Some n \<Rightarrow> n)"

definition tracker_acquire :: "concurrency_tracker \<Rightarrow> string \<Rightarrow> concurrency_tracker" where
  "tracker_acquire t ext = t(ext \<mapsto> tracker_get_count t ext + 1)"

definition tracker_release :: "concurrency_tracker \<Rightarrow> string \<Rightarrow> concurrency_tracker" where
  "tracker_release t ext = (case t ext of None \<Rightarrow> t | Some n \<Rightarrow> t(ext \<mapsto> n - 1))"

text \<open>The three enforcers acquire a slot the same way; the guard they return releases it when it
  is dropped.\<close>

definition acquire_query_slot ::
  "concurrency_tracker \<Rightarrow> string \<Rightarrow> database_limits \<Rightarrow> (limit_error, concurrency_tracker) result" where
  "acquire_query_slot t ext limits =
     (let current = tracker_get_count t ext
      in if sint (max_concurrent_queries limits) \<le> sint current
         then Inl (TooManyConcurrentQueries current (max_concurrent_queries limits))
         else Inr (tracker_acquire t ext))"

definition acquire_op_slot ::
  "concurrency_tracker \<Rightarrow> string \<Rightarrow> filesystem_limits \<Rightarrow> (limit_error, concurrency_tracker) result" where
  "acquire_op_slot t ext limits =
     (let current = tracker_get_count t ext
      in if sint (max_concurrent_operations limits) \<le> sint current
         then Inl (TooManyConcurrentFileOps current (max_concurrent_operations limits))
         else Inr (tracker_acquire t ext))"

definition acquire_request_slot ::
  "concurrency_tracker \<Rightarrow> string \<Rightarrow> web_limits \<Rightarrow> (limit_error, concurrency_tracker) result" where
  "acquire_request_slot t ext limits =
     (let current = tracker_get_count t ext
      in if sint (max_concurrent_requests limits) \<le> sint current
         then Inl (TooManyConcurrentWebRequests current (max_concurrent_requests limits))
         else Inr (tracker_acquire t ext))"

definition validate_query_size :: "string \<Rightarrow> database_limits \<Rightarrow> (limit_error, unit) result" where
  "validate_query_size sql limits =
     (let sz = word_of_nat (length sql)
      in if sint (max_query_size_bytes limits) < sint sz
         then Inl (QueryTooLarge sz (max_query_size_bytes limits)) else Inr ())"

definition validate_result_rows :: "usize \<Rightarrow> database_limits \<Rightarrow> (limit_error, unit) result" where
  "validate_result_rows n limits =
     (if sint (max_result_rows limits) < sint n then Inl (ResultTooLarge n (max_result_rows limits)) else Inr ())"

definition validate_file_size :: "i64 \<Rightarrow> filesystem_limits \<Rightarrow> (limit_error, unit) result" where
  "validate_file_size sz limits =
     (if sint (max_file_size_bytes limits) < sint sz then Inl (FileTooLarge sz (max_file_size_bytes limits)) else Inr ())"

definition validate_storage_quota :: "i64 \<Rightarrow> i64 \<Rightarrow> filesystem_limits \<Rightarrow> (limit_error, unit) result" where
  "validate_storage_quota current_usage additional_bytes limits =
     (let total = current_usage + additional_bytes
      in if sint (max_storage_bytes limits) < sint total
         then Inl (StorageQuotaExceeded total (max_storage_bytes limits)) else Inr ())"


section \<open>Rate windows\<close>

definition RATE_WINDOW :: nat where "RATE_WINDOW = 60 * 10 ^ 9"

record rate_window =
  rw_count :: usize
  rw_bytes :: i64
  rw_start :: nat

record fs_window =
  fw_count :: usize
  fw_start :: nat

definition rate_window_new :: "nat \<Rightarrow> rate_window" where
  "rate_window_new now = \<lparr>rw_count = 0, rw_bytes = 0, rw_start = now\<rparr>"

definition rate_window_reset :: "nat \<Rightarrow> rate_window \<Rightarrow> rate_window" where
  "rate_window_reset now w =
     (if RATE_WINDOW \<le> now - rw_start w then \<lparr>rw_count = 0, rw_bytes = 0, rw_start = now\<rparr> else w)"

definition fs_window_new :: "nat \<Rightarrow> fs_window" where
  "fs_window_new now = \<lparr>fw_count = 0, fw_start = now\<rparr>"

definition fs_window_reset :: "nat \<Rightarrow> fs_window \<Rightarrow> fs_window" where
  "fs_window_reset now w = (if RATE_WINDOW \<le> now - fw_start w then \<lparr>fw_count = 0, fw_start = now\<rparr> else w)"

definition get_or_create :: "'w \<Rightarrow> (string \<rightharpoonup> 'w) \<Rightarrow> string \<Rightarrow> 'w" where
  "get_or_create fresh ws ext = (case ws ext of None \<Rightarrow> fresh | Some w \<Rightarrow> w)"

definition web_check_rate_limit ::
  "nat \<Rightarrow> (string \<rightharpoonup> rate_window) \<Rightarrow> string \<Rightarrow> web_limits \<Rightarrow> (limit_error, unit) result \<times> (string \<rightharpoonup> rate_window)" where
  "web_check_rate_limit now ws ext limits =
     (let w = rate_window_reset now (get_or_create (rate_window_new now) ws ext);
          current = rw_count w
      in if sint (max_requests_per_minute limits) \<le> sint current
         then (Inl (RateLimitExceeded current (max_requests_per_minute limits)), ws(ext \<mapsto> w))
         else (Inr (), ws(ext \<mapsto> w\<lparr>rw_count := rw_count w + 1\<rparr>)))"

definition web_check_bandwidth ::
  "nat \<Rightarrow> (string \<rightharpoonup> rate_window) \<Rightarrow> string \<Rightarrow> i64 \<Rightarrow> web_limits
    \<Rightarrow> (limit_error, unit) result \<times> (string \<rightharpoonup> rate_window)" where
  "web_check_bandwidth now ws ext bs limits =
     (let w = rate_window_reset now (get_or_create (rate_window_new now) ws ext);
          current = rw_bytes w
      in if sint (max_bandwidth_bytes_per_minute limits) < sint (current + bs)
         then (Inl (BandwidthExceeded (current + bs) (max_bandwidth_bytes_per_minute limits)), ws(ext \<mapsto> w))
         else (Inr (), ws(ext \<mapsto> w\<lparr>rw_bytes := rw_bytes w + bs\<rparr>)))"

definition fs_check_rate_limit ::
  "nat \<Rightarrow> (string \<rightharpoonup> fs_window) \<Rightarrow> string \<Rightarrow> filesystem_limits \<Rightarrow> (limit_error, unit) result \<times> (string \<rightharpoonup> fs_window)" where
  "fs_check_rate_limit now ws ext limits =
     (let w = fs_window_reset now (get_or_create (fs_window_new now) ws ext);
          current = fw_count w
      in if sint (max_operations_per_minute limits) \<le> sint current
         then (Inl (FilesystemRateLimitExceeded current (max_operations_per_minute limits)), ws(ext \<mapsto> w))
         else (Inr (), ws(ext \<mapsto> w\<lparr>fw_count := fw_count w + 1\<rparr>)))"



section \<open>Configured limits\<close>

text \<open>\<open>row.get\<close> of a column as \<open>i64\<close>, \<open>String\<close> or \<open>Option<String>\<close> fails on another storage class.\<close>

fun get_i64 :: "sql_value \<Rightarrow> (string, i64) result" where
  "get_i64 (SInteger i) = Inr (word_of_int i)"
| "get_i64 _ = Inl ''Invalid column type''"

fun get_text :: "sql_value \<Rightarrow> (string, string) result" where
  "get_text (SText s) = Inr s"
| "get_text _ = Inl ''Invalid column type''"

fun get_text_opt :: "sql_value \<Rightarrow> (string, string option) result" where
  "get_text_opt (SText s) = Inr (Some s)"
| "get_text_opt SNull = Inr None"
| "get_text_opt _ = Inl ''Invalid column type''"

definition LIMITS_TABLE :: string where "LIMITS_TABLE = ''haex_extension_limits''"

definition LIMIT_COLUMNS :: "string list" where
  "LIMIT_COLUMNS = [''id'', ''extension_id'', ''query_timeout_ms'', ''max_result_rows'', ''max_concurrent_queries'',
     ''max_query_size_bytes'', ''created_at'', ''updated_at'']"

definition extension_limits_from_row :: "space_env \<Rightarrow> row \<Rightarrow> (string, extension_limits) result" where
  "extension_limits_from_row env r =
     and_then (get_text (col env r ''id'')) (\<lambda>_. and_then (get_text (col env r ''extension_id'')) (\<lambda>_.
     and_then (get_i64 (col env r ''query_timeout_ms'')) (\<lambda>a. and_then (get_i64 (col env r ''max_result_rows'')) (\<lambda>b.
     and_then (get_i64 (col env r ''max_concurrent_queries'')) (\<lambda>c.
     and_then (get_i64 (col env r ''max_query_size_bytes'')) (\<lambda>d.
     and_then (get_text_opt (col env r ''created_at'')) (\<lambda>_. and_then (get_text_opt (col env r ''updated_at'')) (\<lambda>_.
       Inr \<lparr>el_database = \<lparr>query_timeout_ms = a, max_result_rows = b, max_concurrent_queries = c,
              max_query_size_bytes = d\<rparr>,
            el_filesystem = filesystem_limits_default, el_web = web_limits_default\<rparr>))))))))"

definition limit_rows_of :: "space_env \<Rightarrow> string \<Rightarrow> row list \<Rightarrow> row list" where
  "limit_rows_of env ext rs = filter (\<lambda>r. where_eq env (col env r ''extension_id'') (SText ext)) rs"

definition get_limits :: "space_env \<Rightarrow> default_limits \<Rightarrow> crdt_db \<Rightarrow> string \<Rightarrow> (string, extension_limits) result" where
  "get_limits env defaults db ext =
     and_then (table_rows env db LIMITS_TABLE LIMIT_COLUMNS)
       (\<lambda>rs. case first_row (limit_rows_of env ext rs) of
               None \<Rightarrow> Inr (extension_limits_from_defaults defaults)
             | Some r \<Rightarrow> extension_limits_from_row env r)"

definition limits_exist :: "space_env \<Rightarrow> crdt_db \<Rightarrow> string \<Rightarrow> bool" where
  "limits_exist env db ext =
     (case table_rows env db LIMITS_TABLE [''extension_id''] of
        Inl _ \<Rightarrow> False | Inr rs \<Rightarrow> limit_rows_of env ext rs \<noteq> [])"

record update_limits_request =
  ul_extension_id :: string
  ul_query_timeout_ms :: "i64 option"
  ul_max_result_rows :: "i64 option"
  ul_max_concurrent_queries :: "i64 option"
  ul_max_query_size_bytes :: "i64 option"

record limits_response =
  lr_extension_id :: string
  lr_limits :: database_limits
  lr_is_custom :: bool

definition response_from_limits :: "string \<Rightarrow> extension_limits \<Rightarrow> bool \<Rightarrow> limits_response" where
  "response_from_limits ext limits custom =
     \<lparr>lr_extension_id = ext, lr_limits = el_database limits, lr_is_custom = custom\<rparr>"

definition known_or_error :: "perm_state \<Rightarrow> string \<Rightarrow> (extension_error, manifest) result" where
  "known_or_error st ext = ok_or (ValidationErr (''Extension with ID '' @ ext @ '' not found'')) (get_extension st ext)"

definition db_err :: "(string, 'a) result \<Rightarrow> (extension_error, 'a) result" where
  "db_err r = (case r of Inl e \<Rightarrow> Inl (ExtDatabaseError e) | Inr x \<Rightarrow> Inr x)"

definition get_extension_limits ::
  "perm_state \<Rightarrow> space_env \<Rightarrow> default_limits \<Rightarrow> crdt_db \<Rightarrow> string \<Rightarrow> (extension_error, limits_response) result" where
  "get_extension_limits st env defaults db ext =
     and_then (known_or_error st ext) (\<lambda>_.
       and_then (db_err (get_limits env defaults db ext)) (\<lambda>l.
         Inr (response_from_limits ext l (limits_exist env db ext))))"

definition merge_limits :: "update_limits_request \<Rightarrow> database_limits \<Rightarrow> database_limits" where
  "merge_limits req cur =
     \<lparr>query_timeout_ms = (case ul_query_timeout_ms req of None \<Rightarrow> query_timeout_ms cur | Some x \<Rightarrow> x),
      max_result_rows = (case ul_max_result_rows req of None \<Rightarrow> max_result_rows cur | Some x \<Rightarrow> x),
      max_concurrent_queries = (case ul_max_concurrent_queries req of None \<Rightarrow> max_concurrent_queries cur | Some x \<Rightarrow> x),
      max_query_size_bytes = (case ul_max_query_size_bytes req of None \<Rightarrow> max_query_size_bytes cur | Some x \<Rightarrow> x)\<rparr>"

definition validate_limits :: "database_limits \<Rightarrow> (extension_error, unit) result" where
  "validate_limits l =
     (if sint (query_timeout_ms l) < 1000 then Inl (ValidationErr ''Query timeout must be at least 1000ms (1 second)'')
      else if sint (max_result_rows l) < 100 then Inl (ValidationErr ''Max result rows must be at least 100'')
      else if sint (max_concurrent_queries l) < 1 then Inl (ValidationErr ''Max concurrent queries must be at least 1'')
      else if sint (max_query_size_bytes l) < 1024
      then Inl (ValidationErr ''Max query size must be at least 1024 bytes (1KB)'')
      else Inr ())"

definition limit_values :: "database_limits \<Rightarrow> (string \<times> sql_value) list" where
  "limit_values l =
     [(''query_timeout_ms'', SInteger (sint (query_timeout_ms l))), (''max_result_rows'', SInteger (sint (max_result_rows l))),
      (''max_concurrent_queries'', SInteger (sint (max_concurrent_queries l))),
      (''max_query_size_bytes'', SInteger (sint (max_query_size_bytes l)))]"

text \<open>A transaction: nothing stays of a statement that fails or whose commit fails.\<close>

definition in_tx :: "perm_state \<Rightarrow> space_env \<Rightarrow> crdt_db \<Rightarrow> (crdt_db \<Rightarrow> (string, crdt_db) result)
    \<Rightarrow> (extension_error, unit) result \<times> crdt_db" where
  "in_tx st env db f =
     (case se_db_fault env of
        Some e \<Rightarrow> (Inl (ExtDatabaseError e), db)
      | None \<Rightarrow>
          if ps_hlc_poisoned st then (Inl (ExtDatabaseError ''Failed to lock HLC service''), db)
          else (case f db of
                  Inl e \<Rightarrow> (Inl (ExtDatabaseError e), db)
                | Inr db1 \<Rightarrow>
                    (case commit_error (se_sql env) of
                       Some e \<Rightarrow> (Inl (ExtDatabaseError e), db)
                     | None \<Rightarrow> (Inr (), db1))))"

definition store_limits ::
  "space_env \<Rightarrow> write_ctx \<Rightarrow> string \<Rightarrow> string \<Rightarrow> database_limits \<Rightarrow> crdt_db \<Rightarrow> (string, crdt_db) result" where
  "store_limits env w new_id ext l db =
     (if limits_exist env db ext
      then update_rows env w LIMITS_TABLE [''extension_id'']
             (\<lambda>r. where_eq env (col env r ''extension_id'') (SText ext)) (limit_values l) db
      else insert_into env w LIMITS_TABLE ([(''id'', SText new_id), (''extension_id'', SText ext)] @ limit_values l) db)"

definition update_extension_limits ::
  "perm_state \<Rightarrow> space_env \<Rightarrow> default_limits \<Rightarrow> write_ctx \<Rightarrow> string \<Rightarrow> update_limits_request \<Rightarrow> crdt_db
    \<Rightarrow> (extension_error, limits_response) result \<times> crdt_db" where
  "update_extension_limits st env defaults w new_id req db =
     (let ext = ul_extension_id req
      in case and_then (known_or_error st ext) (\<lambda>_.
                and_then (db_err (get_limits env defaults db ext)) (\<lambda>cur.
                  and_then (validate_limits (merge_limits req (el_database cur)))
                    (\<lambda>_. Inr (merge_limits req (el_database cur))))) of
           Inl e \<Rightarrow> (Inl e, db)
         | Inr l \<Rightarrow>
             (case in_tx st env db (store_limits env w new_id ext l) of
                (Inl e, db1) \<Rightarrow> (Inl e, db1)
              | (Inr _, db1) \<Rightarrow>
                  (and_then (db_err (get_limits env defaults db1 ext))
                     (\<lambda>u. Inr (response_from_limits ext u True)), db1)))"

definition reset_extension_limits ::
  "perm_state \<Rightarrow> space_env \<Rightarrow> default_limits \<Rightarrow> write_ctx \<Rightarrow> string \<Rightarrow> crdt_db
    \<Rightarrow> (extension_error, limits_response) result \<times> crdt_db" where
  "reset_extension_limits st env defaults w ext db =
     (case known_or_error st ext of
        Inl e \<Rightarrow> (Inl e, db)
      | Inr _ \<Rightarrow>
          (case in_tx st env db (delete_rows env w LIMITS_TABLE [''extension_id'']
             (\<lambda>r. where_eq env (col env r ''extension_id'') (SText ext))) of
             (Inl e, db1) \<Rightarrow> (Inl e, db1)
           | (Inr _, db1) \<Rightarrow>
               (and_then (db_err (get_limits env defaults db1 ext))
                  (\<lambda>l. Inr (response_from_limits ext l False)), db1)))"



section \<open>Guards and their counters\<close>

text \<open>A caller asks for a slot of an extension or drops one of the guards it holds; \<open>live\<close> lists the
  extensions of the guards that are alive.\<close>

datatype slot_event = AskSlot string | DropGuard string

fun slot_run ::
  "('s \<Rightarrow> string \<Rightarrow> (limit_error, 's) result) \<Rightarrow> ('s \<Rightarrow> string \<Rightarrow> 's) \<Rightarrow> slot_event list \<Rightarrow> 's \<times> string list
    \<Rightarrow> 's \<times> string list" where
  "slot_run ask release [] st = st"
| "slot_run ask release (AskSlot k # es) (s, live) =
     slot_run ask release es (case ask s k of Inl _ \<Rightarrow> (s, live) | Inr s' \<Rightarrow> (s', k # live))"
| "slot_run ask release (DropGuard k # es) (s, live) =
     slot_run ask release es (if k \<in> set live then (release s k, remove1 k live) else (s, live))"

lemma sint_small:
  assumes "unat (w :: 64 word) < 2 ^ 63"
  shows "sint w = int (unat w)"
proof -
  have "int (unat w) < int (2 ^ 63)" using assms by (simp only: of_nat_less_iff)
  then have "uint w < 2 ^ 63" by simp
  moreover have "- (2 ^ 63) \<le> uint w" by (rule order_trans [OF _ uint_ge_0]) simp
  ultimately have "sint w = uint w" using signed_take_bit_int_eq_self [of 63 "uint w"] unfolding sint_uint by simp
  then show ?thesis by simp
qed

text \<open>What the guards rely on: a slot is granted below the limit and counted, a refusal changes
  nothing, a release takes one off.\<close>

locale slot_counter =
  fixes ask :: "'s \<Rightarrow> string \<Rightarrow> (limit_error, 's) result"
    and release :: "'s \<Rightarrow> string \<Rightarrow> 's"
    and get_count :: "'s \<Rightarrow> string \<Rightarrow> usize"
    and limit :: i64
  assumes refuse: "sint limit \<le> sint (get_count s k) \<Longrightarrow> \<exists>e. ask s k = Inl e"
    and grant: "sint (get_count s k) < sint limit \<Longrightarrow>
      \<exists>s'. ask s k = Inr s' \<and> (\<forall>k'. get_count s' k' = (if k' = k then get_count s k + 1 else get_count s k'))"
    and release_count: "get_count s k \<noteq> 0 \<Longrightarrow>
      get_count (release s k) k' = (if k' = k then get_count s k - 1 else get_count s k')"
begin

definition balanced :: "'s \<Rightarrow> string list \<Rightarrow> bool" where
  "balanced s live \<longleftrightarrow> (\<forall>k. unat (get_count s k) = count_list live k \<and> count_list live k \<le> nat (sint limit))"

lemma limit_small: "nat (sint limit) < 2 ^ 63"
  using sint_lt [of limit] by simp

lemma balanced_sint: "balanced s live \<Longrightarrow> sint (get_count s k) = int (count_list live k)"
  using sint_small [of "get_count s k"] limit_small le_less_trans unfolding balanced_def by metis

lemma balanced_ask:
  assumes "balanced s live"
  shows "(int (count_list live k) < sint limit \<longrightarrow> (\<exists>s'. ask s k = Inr s' \<and> balanced s' (k # live)))
    \<and> (sint limit \<le> int (count_list live k) \<longrightarrow> (\<exists>e. ask s k = Inl e))"
proof (intro conjI impI)
  assume lt: "int (count_list live k) < sint limit"
  then obtain s' where s': "ask s k = Inr s'"
    "\<And>k'. get_count s' k' = (if k' = k then get_count s k + 1 else get_count s k')"
    using grant [of s k] balanced_sint [OF assms, of k] by auto
  have "unat (get_count s k + 1) = Suc (count_list live k)"
  proof -
    have "unat (get_count s k) = count_list live k" "count_list live k < 2 ^ 63"
      using assms limit_small le_less_trans unfolding balanced_def by blast+
    then show ?thesis by (simp add: unat_word_ariths)
  qed
  then have "balanced s' (k # live)" using assms lt by (simp add: balanced_def s'(2))
  with s'(1) show "\<exists>s'. ask s k = Inr s' \<and> balanced s' (k # live)" by blast
qed (use refuse balanced_sint [OF assms, of k] in auto)

lemma balanced_drop:
  assumes "balanced s live" "k \<in> set live"
  shows "balanced (release s k) (remove1 k live)"
proof -
  have pos: "count_list live k \<noteq> 0" using assms(2) by (simp add: count_list_0_iff)
  then have nz: "get_count s k \<noteq> 0" using assms(1) unat_eq_zero unfolding balanced_def by metis
  then have "unat (get_count s k - 1) = count_list live k - 1"
    using assms(1) by (simp add: balanced_def unat_minus_one)
  moreover have "count_list (remove1 k live) k' = (if k' = k then count_list live k - 1 else count_list live k')" for k'
    by (induction live) (auto simp: count_list_0_iff Suc_diff_le)
  ultimately show ?thesis using assms(1) by (auto simp: balanced_def release_count [OF nz] intro: le_trans diff_le_self)
qed

lemma run_balanced: "balanced s live \<Longrightarrow> slot_run ask release es (s, live) = (s', live') \<Longrightarrow> balanced s' live'"
proof (induction es arbitrary: s live)
  case (Cons e es)
  show ?case
  proof (cases e)
    case (AskSlot k)
    with Cons balanced_ask [OF Cons.prems(1), of k] show ?thesis
      by (cases "int (count_list live k) < sint limit") (auto simp: not_less)
  next
    case (DropGuard k)
    with Cons balanced_drop [OF Cons.prems(1), of k] show ?thesis by (simp split: if_splits)
  qed
qed simp

end

lemma tracker_counts:
  "tracker_get_count (tracker_acquire t k) k' = (if k' = k then tracker_get_count t k + 1 else tracker_get_count t k')"
  "tracker_get_count t k \<noteq> 0 \<Longrightarrow>
     tracker_get_count (tracker_release t k) k' = (if k' = k then tracker_get_count t k - 1 else tracker_get_count t k')"
  by (auto simp: tracker_get_count_def tracker_acquire_def tracker_release_def split: option.splits)

interpretation qs: slot_counter "\<lambda>t k. acquire_query_slot t k limits" tracker_release tracker_get_count
    "max_concurrent_queries limits" for limits
  by unfold_locales (auto simp: acquire_query_slot_def Let_def tracker_counts)

interpretation os: slot_counter "\<lambda>t k. acquire_op_slot t k limits" tracker_release tracker_get_count
    "max_concurrent_operations limits" for limits
  by unfold_locales (auto simp: acquire_op_slot_def Let_def tracker_counts)

interpretation rs: slot_counter "\<lambda>t k. acquire_request_slot t k limits" tracker_release tracker_get_count
    "max_concurrent_requests limits" for limits
  by unfold_locales (auto simp: acquire_request_slot_def Let_def tracker_counts)

lemma no_guards_balanced: "qs.balanced limits Map.empty []"
  by (simp add: qs.balanced_def tracker_get_count_def)

text \<open>The slots of an extension are neither leaked nor overdrawn: after any sequence of requests
  for a query slot and drops of guards, by any extensions, the counter of an extension is the
  number of its guards that are alive, this number is at most the configured maximum, and the next
  request is granted exactly when it is below it.  A counter never wraps.\<close>

theorem query_slots_bounded:
  assumes "slot_run (\<lambda>t k. acquire_query_slot t k limits) tracker_release es (Map.empty, []) = (t, live)"
  shows "unat (tracker_get_count t k) = count_list live k
    \<and> count_list live k \<le> nat (sint (max_concurrent_queries limits))
    \<and> (is_ok (acquire_query_slot t k limits) \<longleftrightarrow> int (count_list live k) < sint (max_concurrent_queries limits))"
proof -
  have b: "qs.balanced limits t live" using qs.run_balanced [OF no_guards_balanced assms] .
  then show ?thesis using qs.balanced_ask [OF b, of k] qs.balanced_sint [OF b, of k]
    by (auto simp: qs.balanced_def res_simps not_less)
qed

theorem query_slots_bounded_witness:
  "unat (tracker_get_count (fst (slot_run (\<lambda>t k. acquire_query_slot t k (database_limits_default\<lparr>max_concurrent_queries := 1\<rparr>))
     tracker_release [AskSlot ''e'', AskSlot ''e'', DropGuard ''e'', AskSlot ''e''] (Map.empty, []))) ''e'') = 1"
proof -
  let ?l = "database_limits_default\<lparr>max_concurrent_queries := 1\<rparr>"
  have r: "slot_run (\<lambda>t k. acquire_query_slot t k ?l) tracker_release
      [AskSlot ''e'', AskSlot ''e'', DropGuard ''e'', AskSlot ''e''] (Map.empty, []) = ([''e'' \<mapsto> 1], [''e''])"
    by (simp add: acquire_query_slot_def tracker_get_count_def tracker_acquire_def tracker_release_def Let_def)
  show ?thesis using query_slots_bounded [OF r, of "''e''"] unfolding r by simp
qed

text \<open>The check and the increment are separate atomic steps: two callers that both look at the
  counter before either increments it are both let in, above the limit.\<close>

lemma slot_check_race:
  assumes "tracker_get_count t k = max_concurrent_queries limits - 1" "0 < sint (max_concurrent_queries limits)"
  shows "is_ok (acquire_query_slot t k limits)
    \<and> tracker_get_count (tracker_acquire (tracker_acquire t k) k) k = max_concurrent_queries limits + 1"
proof -
  let ?m = "max_concurrent_queries limits"
  have "sint (?m - 1) = sint ?m - 1"
    using assms(2) sint_lt [of ?m] by (simp add: sint_word_diff signed_take_bit_int_eq_self)
  then show ?thesis using assms by (simp add: tracker_counts acquire_query_slot_def Let_def)
qed


section \<open>How many requests a rate window admits\<close>

text \<open>The requests (time and extension) that a stateful check admits.\<close>

fun granted :: "(nat \<Rightarrow> string \<Rightarrow> 's \<Rightarrow> bool \<times> 's) \<Rightarrow> (nat \<times> string) list \<Rightarrow> 's \<Rightarrow> (nat \<times> string) list" where
  "granted check [] s = []"
| "granted check ((t, k) # rs) s =
     (case check t k s of (admit, s') \<Rightarrow> if admit then (t, k) # granted check rs s' else granted check rs s')"

lemma granted_subset: "set (granted check rs s) \<subseteq> set rs"
proof (induction rs arbitrary: s)
  case (Cons r rs)
  obtain t k where r: "r = (t, k)" by (cases r)
  obtain g s' where c: "check t k s = (g, s')" by (cases "check t k s")
  show ?case using Cons [of s'] by (auto simp: r c)
qed simp

definition in_minute :: "string \<Rightarrow> nat \<Rightarrow> nat \<times> string \<Rightarrow> bool" where
  "in_minute k a r \<longleftrightarrow> snd r = k \<and> a \<le> fst r \<and> fst r < a + RATE_WINDOW"

text \<open>The contract of a fixed window: a request in an expired or missing window opens a new one;
  it is admitted while the window has admitted less than \<open>m\<close>; other extensions are not affected.\<close>

locale fixed_window =
  fixes check :: "nat \<Rightarrow> string \<Rightarrow> 's \<Rightarrow> bool \<times> 's"
    and window :: "'s \<Rightarrow> string \<Rightarrow> (nat \<times> nat) option"
    and m :: nat
  assumes fresh: "window s k = None \<or> (\<exists>b c. window s k = Some (b, c) \<and> b + RATE_WINDOW \<le> t) \<Longrightarrow>
      \<exists>s'. check t k s = (0 < m, s') \<and> window s' k = Some (t, if 0 < m then 1 else 0)"
    and running: "window s k = Some (b, c) \<Longrightarrow> t < b + RATE_WINDOW \<Longrightarrow> c \<le> m \<Longrightarrow>
      \<exists>s'. check t k s = (c < m, s') \<and> window s' k = Some (b, if c < m then Suc c else c)"
    and others: "k' \<noteq> k \<Longrightarrow> window (snd (check t k' s)) k = window s k"
begin

definition used_ok :: "'s \<Rightarrow> string \<Rightarrow> bool" where
  "used_ok s k \<longleftrightarrow> (\<forall>b c. window s k = Some (b, c) \<longrightarrow> c \<le> m \<and> (0 < m \<longrightarrow> 0 < c))"

definition admitted_in :: "(nat \<times> string) list \<Rightarrow> 's \<Rightarrow> string \<Rightarrow> nat \<Rightarrow> nat" where
  "admitted_in rs s k a = length (filter (in_minute k a) (granted check rs s))"

lemma admitted_late: "(\<forall>r\<in>set rs. a + RATE_WINDOW \<le> fst r) \<Longrightarrow> admitted_in rs s k a = 0"
  using granted_subset [of check rs s] by (auto simp: admitted_in_def filter_empty_conv in_minute_def not_less)

lemma admitted_other:
  "k' \<noteq> k \<Longrightarrow> admitted_in ((t, k') # rs) s k a = admitted_in rs (snd (check t k' s)) k a"
  by (simp add: admitted_in_def in_minute_def split: prod.splits)

lemma admitted_step:
  "check t k s = (g, s') \<Longrightarrow> admitted_in ((t, k) # rs) s k a =
     (if g \<and> a \<le> t \<and> t < a + RATE_WINDOW then 1 else 0) + admitted_in rs s' k a"
  by (simp add: admitted_in_def in_minute_def)

lemma admitted_bounds:
  assumes "sorted (map fst rs)" "used_ok s k"
  shows "(\<forall>b c. window s k = Some (b, c) \<longrightarrow>
       (a \<le> b \<longrightarrow> admitted_in rs s k a \<le> m - c) \<and> (a < b + RATE_WINDOW \<longrightarrow> admitted_in rs s k a \<le> (m - c) + m))
     \<and> admitted_in rs s k a \<le> 2 * m - 1"
  using assms
proof (induction rs arbitrary: s)
  case Nil
  then show ?case by (simp add: admitted_in_def)
next
  case (Cons r rs)
  obtain t k' where r: "r = (t, k')" by (cases r)
  have late: "\<forall>r\<in>set rs. t \<le> fst r" and srt: "sorted (map fst rs)" using Cons.prems(1) r by auto
  show ?case
  proof (cases "k' = k")
    case False
    have ok: "used_ok (snd (check t k' s)) k" using Cons.prems(2) others [OF False] by (simp add: used_ok_def)
    show ?thesis unfolding r admitted_other [OF False] using Cons.IH [OF srt ok] unfolding others [OF False] .
  next
    case [simp]: True
    show ?thesis
    proof (cases "\<exists>b c. window s k = Some (b, c) \<and> t < b + RATE_WINDOW")
      case True
      then obtain b c where w: "window s k = Some (b, c)" "t < b + RATE_WINDOW" by blast
      with Cons.prems(2) have c: "c \<le> m" "0 < m \<longrightarrow> 0 < c" by (auto simp: used_ok_def)
      from running [OF w c(1)] obtain s' where s': "check t k s = (c < m, s')"
        "window s' k = Some (b, if c < m then Suc c else c)" by blast
      have "used_ok s' k" using c by (auto simp: used_ok_def s'(2))
      from Cons.IH [OF srt this] have ih: "a \<le> b \<longrightarrow> admitted_in rs s' k a \<le> m - (if c < m then Suc c else c)"
        "a < b + RATE_WINDOW \<longrightarrow> admitted_in rs s' k a \<le> m - (if c < m then Suc c else c) + m"
        "admitted_in rs s' k a \<le> 2 * m - 1" using s'(2) by auto
      have "a < b + RATE_WINDOW \<longrightarrow> admitted_in ((t, k) # rs) s k a \<le> (m - c) + m"
        using ih(2) c unfolding admitted_step [OF s'(1)] by (auto split: if_splits)
      moreover have "admitted_in ((t, k) # rs) s k a \<le> 2 * m - 1"
      proof (cases "a < b + RATE_WINDOW")
        case True
        with ih(2) c show ?thesis unfolding admitted_step [OF s'(1)] by (auto split: if_splits)
      next
        case False
        with ih(3) w(2) show ?thesis unfolding admitted_step [OF s'(1)] by simp
      qed
      moreover have "a \<le> b \<longrightarrow> admitted_in ((t, k) # rs) s k a \<le> m - c"
        using ih(1) c unfolding admitted_step [OF s'(1)] by (auto split: if_splits)
      ultimately show ?thesis by (simp add: r w)
    next
      case False
      then have "window s k = None \<or> (\<exists>b c. window s k = Some (b, c) \<and> b + RATE_WINDOW \<le> t)"
        by (cases "window s k") (auto simp: not_less)
      from fresh [OF this] obtain s' where s': "check t k s = (0 < m, s')"
        "window s' k = Some (t, if 0 < m then 1 else 0)" by blast
      have "used_ok s' k" by (auto simp: used_ok_def s'(2))
      from Cons.IH [OF srt this] have ih: "a \<le> t \<longrightarrow> admitted_in rs s' k a \<le> m - (if 0 < m then 1 else 0)"
        "a < t + RATE_WINDOW \<longrightarrow> admitted_in rs s' k a \<le> m - (if 0 < m then 1 else 0) + m"
        "admitted_in rs s' k a \<le> 2 * m - 1" using s'(2) by auto
      have within: "a \<le> t \<longrightarrow> admitted_in ((t, k) # rs) s k a \<le> m"
        using ih(1) unfolding admitted_step [OF s'(1)] by (auto split: if_splits)
      moreover have "admitted_in ((t, k) # rs) s k a \<le> 2 * m - 1"
      proof (cases "a \<le> t")
        case True
        then show ?thesis using within by (cases m) auto
      next
        case False
        then show ?thesis using ih(3) unfolding admitted_step [OF s'(1)] by simp
      qed
      moreover have "admitted_in ((t, k) # rs) s k a = 0" if "a \<le> b" "window s k = Some (b, c)" for b c
        using that False late by (intro admitted_late) (auto simp: not_less)
      moreover have "a < b + RATE_WINDOW \<longrightarrow> a \<le> t" if "window s k = Some (b, c)" for b c
        using that False by (auto simp: not_less)
      ultimately show ?thesis by (auto simp: r)
    qed
  qed
qed

end

definition web_check :: "web_limits \<Rightarrow> nat \<Rightarrow> string \<Rightarrow> (string \<rightharpoonup> rate_window) \<Rightarrow> bool \<times> (string \<rightharpoonup> rate_window)" where
  "web_check limits now k ws = (case web_check_rate_limit now ws k limits of (r, ws') \<Rightarrow> (is_ok r, ws'))"

definition fs_check :: "filesystem_limits \<Rightarrow> nat \<Rightarrow> string \<Rightarrow> (string \<rightharpoonup> fs_window) \<Rightarrow> bool \<times> (string \<rightharpoonup> fs_window)" where
  "fs_check limits now k ws = (case fs_check_rate_limit now ws k limits of (r, ws') \<Rightarrow> (is_ok r, ws'))"

definition web_window :: "(string \<rightharpoonup> rate_window) \<Rightarrow> string \<Rightarrow> (nat \<times> nat) option" where
  "web_window ws k = map_option (\<lambda>w. (rw_start w, unat (rw_count w))) (ws k)"

definition fs_window_of :: "(string \<rightharpoonup> fs_window) \<Rightarrow> string \<Rightarrow> (nat \<times> nat) option" where
  "fs_window_of ws k = map_option (\<lambda>w. (fw_start w, unat (fw_count w))) (ws k)"

lemma RATE_WINDOW_pos: "0 < RATE_WINDOW"
  by (simp add: RATE_WINDOW_def)

lemma expired_iff: "RATE_WINDOW \<le> t - b \<longleftrightarrow> b + RATE_WINDOW \<le> t"
  using RATE_WINDOW_pos by auto

lemma below_limit:
  assumes "unat (n :: usize) \<le> nat (sint (l :: i64))"
  shows "sint l \<le> sint n \<longleftrightarrow> \<not> unat n < nat (sint l)" "unat n < nat (sint l) \<Longrightarrow> unat (n + 1) = Suc (unat n)"
proof -
  have small: "unat n < 2 ^ 63" using assms sint_lt [of l] by simp
  show "sint l \<le> sint n \<longleftrightarrow> \<not> unat n < nat (sint l)" using sint_small [OF small] by linarith
  show "unat n < nat (sint l) \<Longrightarrow> unat (n + 1) = Suc (unat n)" using small by (simp add: unat_word_ariths)
qed

interpretation ww: fixed_window "web_check limits" web_window "nat (sint (max_requests_per_minute limits))" for limits
proof (unfold_locales, goal_cases)
  case (1 s k t)
  let ?w = "rate_window_reset t (get_or_create (rate_window_new t) s k)"
  have "?w = rate_window_new t"
    using 1 by (auto simp: rate_window_reset_def get_or_create_def rate_window_new_def web_window_def expired_iff)
  then show ?case
    by (auto simp: web_check_def web_check_rate_limit_def Let_def rate_window_new_def web_window_def)
next
  case (2 s k b c t)
  then obtain w where w: "s k = Some w" "b = rw_start w" "c = unat (rw_count w)" by (auto simp: web_window_def)
  have e: "rate_window_reset t (get_or_create (rate_window_new t) s k) = w"
    using 2 w by (simp add: rate_window_reset_def get_or_create_def expired_iff)
  have "unat (rw_count w) \<le> nat (sint (max_requests_per_minute limits))" using 2(3) w(3) by simp
  from below_limit [OF this] show ?case
    unfolding web_check_def web_check_rate_limit_def Let_def e by (auto simp: web_window_def w)
next
  case (3 k' k t s)
  then show ?case by (simp add: web_check_def web_check_rate_limit_def Let_def web_window_def)
qed

interpretation fw: fixed_window "fs_check limits" fs_window_of "nat (sint (max_operations_per_minute limits))" for limits
proof (unfold_locales, goal_cases)
  case (1 s k t)
  let ?w = "fs_window_reset t (get_or_create (fs_window_new t) s k)"
  have "?w = fs_window_new t"
    using 1 by (auto simp: fs_window_reset_def get_or_create_def fs_window_new_def fs_window_of_def expired_iff)
  then show ?case
    by (auto simp: fs_check_def fs_check_rate_limit_def Let_def fs_window_new_def fs_window_of_def)
next
  case (2 s k b c t)
  then obtain w where w: "s k = Some w" "b = fw_start w" "c = unat (fw_count w)" by (auto simp: fs_window_of_def)
  have e: "fs_window_reset t (get_or_create (fs_window_new t) s k) = w"
    using 2 w by (simp add: fs_window_reset_def get_or_create_def expired_iff)
  have "unat (fw_count w) \<le> nat (sint (max_operations_per_minute limits))" using 2(3) w(3) by simp
  from below_limit [OF this] show ?case
    unfolding fs_check_def fs_check_rate_limit_def Let_def e by (auto simp: fs_window_of_def w)
next
  case (3 k' k t s)
  then show ?case by (simp add: fs_check_def fs_check_rate_limit_def Let_def fs_window_of_def)
qed

text \<open>The rate limit of web requests over real time: of any requests in order of time, by any
  extensions, the number admitted for one extension within any sixty seconds is at most twice the
  limit minus one, whatever the position of the minute; a limit of zero or less admits none.\<close>

theorem web_rate_bounded:
  assumes "sorted (map fst rs)"
  shows "length (filter (in_minute k a) (granted (web_check limits) rs Map.empty))
    \<le> 2 * nat (sint (max_requests_per_minute limits)) - 1"
  using ww.admitted_bounds [OF assms, of limits Map.empty k a]
  by (simp add: ww.used_ok_def web_window_def ww.admitted_in_def)

theorem web_rate_bounded_witness:
  "length (filter (in_minute ''e'' 5) (granted (web_check web_limits_default) [(1, ''e''), (7, ''e''), (7, ''f'')] Map.empty)) \<le> 119
   \<and> granted (web_check web_limits_default) [(1, ''e''), (7, ''e''), (7, ''f'')] Map.empty \<noteq> []"
proof
  show "length (filter (in_minute ''e'' 5) (granted (web_check web_limits_default) [(1, ''e''), (7, ''e''), (7, ''f'')] Map.empty)) \<le> 119"
    using web_rate_bounded [of "[(1, ''e''), (7, ''e''), (7, ''f'')]" "''e''" 5 web_limits_default]
    by (simp add: web_limits_default_def del: granted.simps)
  show "granted (web_check web_limits_default) [(1, ''e''), (7, ''e''), (7, ''f'')] Map.empty \<noteq> []"
    by (simp add: web_check_def web_check_rate_limit_def Let_def rate_window_reset_def get_or_create_def rate_window_new_def
        web_limits_default_def split: prod.splits)
qed

text \<open>The same contract for file operations, and the bound is reached: three requests within a
  minute under a limit of two.\<close>

lemma fs_rate_bounded:
  "sorted (map fst rs) \<Longrightarrow> length (filter (in_minute k a) (granted (fs_check limits) rs Map.empty))
    \<le> 2 * nat (sint (max_operations_per_minute limits)) - 1"
  using fw.admitted_bounds [of rs limits Map.empty k a]
  by (simp add: fw.used_ok_def fs_window_of_def fw.admitted_in_def)

lemma web_rate_burst:
  fixes D defines "D \<equiv> RATE_WINDOW"
  shows "length (filter (in_minute ''e'' (D - 1)) (granted (web_check (web_limits_default\<lparr>max_requests_per_minute := 2\<rparr>))
     [(0, ''e''), (D - 1, ''e''), (D, ''e''), (D, ''e'')] Map.empty)) = 3"
  by (simp add: D_def web_check_def web_check_rate_limit_def Let_def rate_window_reset_def get_or_create_def
      rate_window_new_def web_limits_default_def in_minute_def RATE_WINDOW_def)



section \<open>Changing the limits\<close>

lemma in_tx_Inr:
  "in_tx st env db f = (Inr u, db') \<longleftrightarrow> se_db_fault env = None \<and> \<not> ps_hlc_poisoned st \<and> f db = Inr db'
     \<and> commit_error (se_sql env) = None"
  by (auto simp: in_tx_def split: option.splits sum.splits)

lemma db_err_Inr [res_simps]: "db_err r = Inr x \<longleftrightarrow> r = Inr x"
  by (auto simp: db_err_def split: sum.splits)

text \<open>The columns of a limits row are ordinary ones.\<close>

lemma limit_cols:
  "col env r ''id'' = (case cells r ''id'' of None \<Rightarrow> SNull | Some v \<Rightarrow> v)"
  "col env r ''extension_id'' = (case cells r ''extension_id'' of None \<Rightarrow> SNull | Some v \<Rightarrow> v)"
  by (simp_all add: cell_def clock_names)

definition texts_compared :: "space_env \<Rightarrow> bool" where
  "texts_compared env \<longleftrightarrow> (\<forall>a. sql_eq (se_sql env) (SText a) (SText a))
     \<and> (\<forall>v a b. sql_eq (se_sql env) v (SText a) \<and> sql_eq (se_sql env) v (SText b) \<longrightarrow> a = b)"

lemma get_limits_row:
  assumes "table_rows env db LIMITS_TABLE LIMIT_COLUMNS = Inr rs" "limit_rows_of env ext rs = r # rest"
  shows "get_limits env defaults db ext = extension_limits_from_row env r"
  using assms by (simp add: get_limits_def first_row_def)

lemma stored_limits_read:
  assumes "\<forall>c v. map_of (limit_values l) c = Some v \<longrightarrow> cells r c = Some v"
    and "\<exists>x. get_text (col env r ''id'') = Inr x" "\<exists>x. get_text (col env r ''extension_id'') = Inr x"
    and "\<exists>x. get_text_opt (col env r ''created_at'') = Inr x" "\<exists>x. get_text_opt (col env r ''updated_at'') = Inr x"
  shows "extension_limits_from_row env r =
    Inr \<lparr>el_database = l, el_filesystem = filesystem_limits_default, el_web = web_limits_default\<rparr>"
proof -
  have "cells r ''query_timeout_ms'' = Some (SInteger (sint (query_timeout_ms l)))"
    "cells r ''max_result_rows'' = Some (SInteger (sint (max_result_rows l)))"
    "cells r ''max_concurrent_queries'' = Some (SInteger (sint (max_concurrent_queries l)))"
    "cells r ''max_query_size_bytes'' = Some (SInteger (sint (max_query_size_bytes l)))"
    using assms(1) by (auto simp: limit_values_def)
  then show ?thesis using assms(2-)
    by (auto simp: extension_limits_from_row_def cell_def clock_names)
qed

lemma extension_id_kept:
  "cells r' = cells r ++ map_of (limit_values l) \<Longrightarrow> c \<in> {''id'', ''extension_id'', ''created_at'', ''updated_at''} \<Longrightarrow>
     col env r' c = col env r c"
  by (auto simp: limit_values_def map_add_def cell_def clock_names)

lemma limit_rows_update:
  assumes f: "\<forall>r. cells (f r) = cells r ++ map_of (limit_values l)" and laws: "texts_compared env"
    and rs': "rs' = map (\<lambda>r. if where_eq env (col env r ''extension_id'') (SText ext) then f r else r) rs"
  shows "limit_rows_of env ext rs' = map f (limit_rows_of env ext rs)"
    "e \<noteq> ext \<Longrightarrow> limit_rows_of env e rs' = limit_rows_of env e rs"
proof -
  have id: "col env (f r) ''extension_id'' = col env r ''extension_id''" for r
    using extension_id_kept [of "f r" r l] f by blast
  show "limit_rows_of env ext rs' = map f (limit_rows_of env ext rs)"
    unfolding rs' by (induction rs) (simp_all add: limit_rows_of_def id)
  have "where_eq env v (SText e) \<Longrightarrow> where_eq env v (SText ext) \<Longrightarrow> e = ext" for v
    using laws unfolding where_eq_def texts_compared_def by blast
  then show "e \<noteq> ext \<Longrightarrow> limit_rows_of env e rs' = limit_rows_of env e rs"
    unfolding rs' by (induction rs) (auto simp add: limit_rows_of_def id)
qed

lemma get_limits_cong:
  assumes "tables db LIMITS_TABLE = Some tb" "tables db' LIMITS_TABLE = Some tb'" "schema tb' = schema tb"
    "limit_rows_of env e (rows tb') = limit_rows_of env e (rows tb)"
  shows "get_limits env defaults db' e = get_limits env defaults db e"
  using assms by (simp add: get_limits_def table_rows_def split: option.splits list.splits)

lemma read_limits_row:
  "extension_limits_from_row env r = Inr cur \<Longrightarrow>
     (\<exists>x. get_text (col env r ''id'') = Inr x) \<and> (\<exists>x. get_text (col env r ''extension_id'') = Inr x)
     \<and> (\<exists>x. get_text_opt (col env r ''created_at'') = Inr x) \<and> (\<exists>x. get_text_opt (col env r ''updated_at'') = Inr x)"
  by (auto simp add: extension_limits_from_row_def res_simps)

lemma store_limits_read:
  assumes laws: "texts_compared env" and cur: "get_limits env defaults db ext = Inr cur"
    and run: "store_limits env w i ext l db = Inr db'"
  shows "get_limits env defaults db' ext =
      Inr \<lparr>el_database = l, el_filesystem = filesystem_limits_default, el_web = web_limits_default\<rparr>
    \<and> limits_exist env db' ext \<and> (\<forall>e. e \<noteq> ext \<longrightarrow> get_limits env defaults db' e = get_limits env defaults db e)"
proof -
  from cur obtain tb where tb: "tables db LIMITS_TABLE = Some tb" "se_db_fault env = None"
    "\<forall>c\<in>set LIMIT_COLUMNS. has_column c (schema tb)"
    by (auto simp: get_limits_def res_simps table_has_def)
  have some: "table_rows env d LIMITS_TABLE cs = Inr (rows t)"
    if "tables d LIMITS_TABLE = Some t" "schema t = schema tb" "set cs \<subseteq> set LIMIT_COLUMNS" for d t cs
    using that tb by (auto simp: res_simps table_has_def)
  show ?thesis
  proof (cases "limits_exist env db ext")
    case True
    with run have "update_rows env w LIMITS_TABLE [''extension_id'']
        (\<lambda>r. where_eq env (col env r ''extension_id'') (SText ext)) (limit_values l) db = Inr db'"
      by (simp add: store_limits_def)
    from update_rows_effect [OF this] tb(1) obtain f where f: "\<forall>r. cells (f r) = cells r ++ map_of (limit_values l)"
      and db': "tables db' LIMITS_TABLE = Some (tb\<lparr>rows := map (\<lambda>r. if where_eq env (col env r ''extension_id'')
        (SText ext) then f r else r) (rows tb)\<rparr>)" by auto
    let ?tb' = "tb\<lparr>rows := map (\<lambda>r. if where_eq env (col env r ''extension_id'') (SText ext) then f r else r) (rows tb)\<rparr>"
    note upd = limit_rows_update [OF f laws, of "rows ?tb'" ext "rows tb", simplified]
    from True obtain r rest where r: "limit_rows_of env ext (rows tb) = r # rest"
      using some [OF tb(1) refl, of "[''extension_id'']"]
      by (auto simp: limits_exist_def LIMIT_COLUMNS_def neq_Nil_conv)
    then have "extension_limits_from_row env r = Inr cur"
      using cur get_limits_row [OF some [OF tb(1) refl subset_refl]] by metis
    from read_limits_row [OF this] have "extension_limits_from_row env (f r) =
        Inr \<lparr>el_database = l, el_filesystem = filesystem_limits_default, el_web = web_limits_default\<rparr>"
      using f extension_id_kept [of "f r" r l] by (intro stored_limits_read) auto
    moreover have "limit_rows_of env ext (rows ?tb') = f r # map f rest" using upd(1) r by simp
    ultimately show ?thesis
      using get_limits_row [OF some [OF db' _ subset_refl]] upd(2) get_limits_cong [OF tb(1) db']
        some [OF db', of "[''extension_id'']"]
      by (auto simp: limits_exist_def LIMIT_COLUMNS_def)
  next
    case False
    with run have "insert_into env w LIMITS_TABLE ([(''id'', SText i), (''extension_id'', SText ext)] @ limit_values l) db
        = Inr db'" by (simp add: store_limits_def)
    from insert_into_tables [OF this] tb(1) obtain r where
      r: "cells r = map_of ([(''id'', SText i), (''extension_id'', SText ext)] @ limit_values l)"
      and db': "tables db' LIMITS_TABLE = Some (tb\<lparr>rows := rows tb @ [r]\<rparr>)" by auto
    have none: "limit_rows_of env ext (rows tb) = []"
      using False some [OF tb(1) refl, of "[''extension_id'']"] by (auto simp: limits_exist_def LIMIT_COLUMNS_def)
    have id: "col env r ''extension_id'' = SText ext" by (simp add: limit_cols r)
    have "extension_limits_from_row env r =
        Inr \<lparr>el_database = l, el_filesystem = filesystem_limits_default, el_web = web_limits_default\<rparr>"
      by (rule stored_limits_read) (auto simp: r limit_values_def cell_def clock_names)
    moreover have "limit_rows_of env ext (rows tb @ [r]) = [r]"
      using none laws id by (simp add: limit_rows_of_def where_eq_def texts_compared_def)
    moreover have "limit_rows_of env e (rows tb @ [r]) = limit_rows_of env e (rows tb)" if "e \<noteq> ext" for e
      using that laws id unfolding limit_rows_of_def where_eq_def texts_compared_def by auto
    ultimately show ?thesis
      using get_limits_row [OF some [OF db' _ subset_refl], of ext r "[]"] get_limits_cong [OF tb(1) db']
        some [OF db', of "[''extension_id'']"]
      by (auto simp: limits_exist_def LIMIT_COLUMNS_def)
  qed
qed

lemma update_limits_Inr:
  assumes "update_extension_limits st env defaults w i req db = (Inr r, db')"
  shows "\<exists>cur l. get_extension st (ul_extension_id req) \<noteq> None \<and> get_limits env defaults db (ul_extension_id req) = Inr cur
    \<and> l = merge_limits req (el_database cur) \<and> validate_limits l = Inr ()
    \<and> store_limits env w i (ul_extension_id req) l db = Inr db'
    \<and> (\<exists>u. get_limits env defaults db' (ul_extension_id req) = Inr u \<and> r = response_from_limits (ul_extension_id req) u True)"
proof -
  from assms obtain cur where cur: "get_extension st (ul_extension_id req) \<noteq> None"
    "get_limits env defaults db (ul_extension_id req) = Inr cur" "validate_limits (merge_limits req (el_database cur)) = Inr ()"
    by (auto simp: update_extension_limits_def Let_def known_or_error_def res_simps split: sum.splits)
  with assms show ?thesis
    by (auto simp: update_extension_limits_def Let_def known_or_error_def res_simps db_err_def in_tx_Inr
        split: sum.splits prod.splits)
qed

text \<open>Changing the limits of an extension takes effect exactly as asked: after a successful update the
  answer, and every later query of the limits, is the old limits with the given fields replaced,
  each at or above its minimum, marked as custom; no other extension's limits change; and a
  reset brings the defaults back.\<close>

theorem limits_update_round_trip:
  assumes "texts_compared env"
    and "update_extension_limits st env defaults w i req db = (Inr r, db')"
  shows "(\<exists>cur. get_limits env defaults db (ul_extension_id req) = Inr cur \<and> lr_limits r = merge_limits req (el_database cur))
    \<and> sint (query_timeout_ms (lr_limits r)) \<ge> 1000 \<and> sint (max_result_rows (lr_limits r)) \<ge> 100
    \<and> sint (max_concurrent_queries (lr_limits r)) \<ge> 1 \<and> sint (max_query_size_bytes (lr_limits r)) \<ge> 1024
    \<and> get_extension_limits st env defaults db' (ul_extension_id req) = Inr r
    \<and> (\<forall>e. e \<noteq> ul_extension_id req \<longrightarrow> get_limits env defaults db' e = get_limits env defaults db e)
    \<and> (\<forall>w' r' db''. reset_extension_limits st env defaults w' (ul_extension_id req) db' = (Inr r', db'') \<longrightarrow>
         r' = response_from_limits (ul_extension_id req) (extension_limits_from_defaults defaults) False)"
proof -
  let ?ext = "ul_extension_id req"
  from update_limits_Inr [OF assms(2)] obtain cur l u where s: "get_extension st ?ext \<noteq> None"
    "get_limits env defaults db ?ext = Inr cur" "l = merge_limits req (el_database cur)" "validate_limits l = Inr ()"
    "store_limits env w i ?ext l db = Inr db'" "get_limits env defaults db' ?ext = Inr u" "r = response_from_limits ?ext u True"
    by blast
  note st = store_limits_read [OF assms(1) s(2,5)]
  have r: "r = \<lparr>lr_extension_id = ?ext, lr_limits = l, lr_is_custom = True\<rparr>"
    using st s(6,7) by (simp add: response_from_limits_def)
  have "\<forall>w' r' db''. reset_extension_limits st env defaults w' ?ext db' = (Inr r', db'') \<longrightarrow>
      r' = response_from_limits ?ext (extension_limits_from_defaults defaults) False"
  proof (intro allI impI)
    fix w' r' db'' assume "reset_extension_limits st env defaults w' ?ext db' = (Inr r', db'')"
    then obtain v where del: "delete_rows env w' LIMITS_TABLE [''extension_id'']
        (\<lambda>r. where_eq env (col env r ''extension_id'') (SText ?ext)) db' = Inr db''"
      and v: "get_limits env defaults db'' ?ext = Inr v" "r' = response_from_limits ?ext v False"
      by (auto simp: reset_extension_limits_def in_tx_Inr res_simps split: sum.splits prod.splits)
    have ne: "LIMITS_TABLE \<noteq> DELETED_ROWS_TABLE" by (simp add: LIMITS_TABLE_def DELETED_ROWS_TABLE_def)
    from delete_rows_effect [OF del ne] obtain tb where "tables db'' LIMITS_TABLE = Some (tb\<lparr>rows :=
        filter (\<lambda>r. \<not> where_eq env (col env r ''extension_id'') (SText ?ext)) (rows tb)\<rparr>)" by blast
    with v show "r' = response_from_limits ?ext (extension_limits_from_defaults defaults) False"
      by (auto simp: get_limits_def res_simps table_has_def limit_rows_of_def first_row_def)
  qed
  moreover have "get_extension_limits st env defaults db' ?ext = Inr r"
    using s(1) st r by (auto simp: get_extension_limits_def known_or_error_def res_simps response_from_limits_def)
  ultimately show ?thesis
    using st s(2-4) by (auto simp: r validate_limits_def split: if_splits)
qed



definition limits_db :: crdt_db where
  "limits_db = sample_crdt_db\<lparr>tables := [LIMITS_TABLE \<mapsto> plain_table
     [''extension_id'', ''query_timeout_ms'', ''max_result_rows'', ''max_concurrent_queries'', ''max_query_size_bytes'',
      ''created_at'', ''updated_at''] []]\<rparr>"

definition limits_perms :: perm_state where
  "limits_perms = \<lparr>ps_extensions = [(''e'', \<lparr>mf_public_key = ''k'', mf_name = ''n''\<rparr>)], ps_windows = [], ps_db_error = None,
     ps_hlc_poisoned = False, ps_rows = [], ps_session = session_new\<rparr>"

definition limits_request :: update_limits_request where
  "limits_request = \<lparr>ul_extension_id = ''e'', ul_query_timeout_ms = Some 2000, ul_max_result_rows = None,
     ul_max_concurrent_queries = Some 3, ul_max_query_size_bytes = None\<rparr>"

definition limits_ctx :: write_ctx where
  "limits_ctx = \<lparr>wc_hlc = ''9/1'', wc_now = ''t'', wc_delete_id = (\<lambda>r. ''d'')\<rparr>"

lemma limits_update_runs:
  "\<exists>r db'. update_extension_limits limits_perms sample_space_env default_limits_default limits_ctx ''i'' limits_request limits_db
     = (Inr r, db')"
proof -
  let ?l = "merge_limits limits_request database_limits_default"
  have get: "get_limits sample_space_env default_limits_default limits_db ''e'' =
      Inr (extension_limits_from_defaults default_limits_default)"
    by (simp add: get_limits_def table_rows_def limits_db_def alice_defs limit_rows_of_def first_row_def LIMIT_COLUMNS_def
        has_column_def)
  have known: "known_or_error limits_perms ''e'' = Inr \<lparr>mf_public_key = ''k'', mf_name = ''n''\<rparr>"
    by (simp add: known_or_error_def get_extension_def limits_perms_def)
  have valid: "validate_limits ?l = Inr ()"
    by (simp add: validate_limits_def merge_limits_def limits_request_def database_limits_default_def)
  obtain db' where st: "store_limits sample_space_env limits_ctx ''i'' ''e'' ?l limits_db = Inr db'"
    by (simp add: store_limits_def limits_exist_def table_rows_def limits_db_def alice_defs limit_rows_of_def
        has_column_def insert_into_def open_table_def limit_values_def clock_names)
  have laws: "texts_compared sample_space_env" by (auto simp: texts_compared_def sample_space_env_def sample_engine_def)
  have tx: "in_tx limits_perms sample_space_env limits_db (store_limits sample_space_env limits_ctx ''i'' ''e'' ?l) = (Inr (), db')"
    using st by (simp add: in_tx_Inr) (simp add: sample_space_env_def sample_engine_def limits_perms_def)
  have ext: "ul_extension_id limits_request = ''e''" by (simp add: limits_request_def)
  have el: "el_database (extension_limits_from_defaults default_limits_default) = database_limits_default"
    by (simp add: extension_limits_from_defaults_def default_limits_default_def)
  have new: "get_limits sample_space_env default_limits_default db' ''e'' =
      Inr \<lparr>el_database = ?l, el_filesystem = filesystem_limits_default, el_web = web_limits_default\<rparr>"
    using store_limits_read [OF laws get st] ..
  show ?thesis
    by (simp add: update_extension_limits_def Let_def ext known get db_err_def el valid tx new)
qed

theorem limits_update_round_trip_witness:
  "\<exists>r db'. update_extension_limits limits_perms sample_space_env default_limits_default limits_ctx ''i'' limits_request limits_db
      = (Inr r, db') \<and> 1000 \<le> sint (query_timeout_ms (lr_limits r))
    \<and> get_extension_limits limits_perms sample_space_env default_limits_default db' ''e'' = Inr r"
proof -
  obtain r db' where u: "update_extension_limits limits_perms sample_space_env default_limits_default limits_ctx ''i''
      limits_request limits_db = (Inr r, db')" using limits_update_runs by blast
  have laws: "texts_compared sample_space_env" by (auto simp: texts_compared_def sample_space_env_def sample_engine_def)
  have ext: "ul_extension_id limits_request = ''e''" by (simp add: limits_request_def)
  note facts = limits_update_round_trip [OF laws u]
  have "1000 \<le> sint (query_timeout_ms (lr_limits r))" using facts by (elim conjE)
  moreover have "get_extension_limits limits_perms sample_space_env default_limits_default db'
      (ul_extension_id limits_request) = Inr r" using facts by (elim conjE)
  ultimately show ?thesis using u by (auto simp: ext)
qed


end
