(* ===== verification/ExtDatabase.thy ===== *)
theory ExtDatabase
  imports SqlText SqlTables CrdtTransform Limits "HOL-Library.List_Lexorder" "HOL-Library.Char_ord"
begin

text \<open>
  Database access of extensions (\<open>extension/database\<close>): the commands that query, execute and run
  transactions on behalf of an extension, and its migrations.  The commands combine the limits
  (\<open>Limits\<close>), the permission check (\<open>SqlTables\<close>) and the statement rewriting (\<open>CrdtTransform\<close>).

  The parser, the printer of syntax trees and SQLite are not part of the repository; they are
  fields of \<open>ext_env\<close>.  A parsed statement carries the parts the permission check reads and the
  parts the rewriting reads; SQLite runs the printed statement with the rewritten parts.
  A query yields a stream of rows that may break off with an error.
\<close>

record parsed =
  pd_sql :: sql_statement
  pd_crdt :: statement

record ext_env =
  xe_space :: space_env
  xe_defaults :: default_limits
  xe_constraints :: "string \<Rightarrow> permission_constraints option"
  xe_parser :: "string \<Rightarrow> parsed list option"
  xe_print :: "parsed \<Rightarrow> string"
  xe_hlc :: "(string, string) result"
  xe_run :: "bool \<Rightarrow> string \<Rightarrow> statement \<Rightarrow> sql_value list \<Rightarrow> crdt_db \<Rightarrow> (string, json list list \<times> crdt_db) result"
  xe_select :: "string \<Rightarrow> sql_value list \<Rightarrow> crdt_db \<Rightarrow> (string, (string, json list) result list) result"
  xe_pragma_error :: "string \<Rightarrow> string option"
  xe_table_names :: "crdt_db \<Rightarrow> string list"
  xe_now :: string


section \<open>Parsing and statement facts\<close>

definition parse_error :: "string \<Rightarrow> string" where
  "parse_error sql = ''ParseError: '' @ sql"

definition execution_error :: "string \<Rightarrow> string \<Rightarrow> string" where
  "execution_error sql reason = ''ExecutionError: '' @ sql @ '': '' @ reason"

definition parse_single_statement :: "ext_env \<Rightarrow> string \<Rightarrow> (string, parsed) result" where
  "parse_single_statement env sql =
     (case xe_parser env sql of
        Some (p # _) \<Rightarrow> Inr p
      | _ \<Rightarrow> Inl (parse_error sql))"

definition parse_sql_statements :: "ext_env \<Rightarrow> string \<Rightarrow> (string, parsed list) result" where
  "parse_sql_statements env sql = ok_or (parse_error sql) (xe_parser env (normalize_sql sql))"

definition planner_parse_single :: "ext_env \<Rightarrow> string \<Rightarrow> (string, parsed) result" where
  "planner_parse_single env sql =
     and_then (parse_sql_statements env sql) (\<lambda>ps.
       case ps of [p] \<Rightarrow> Inr p | _ \<Rightarrow> Inl (execution_error sql ''Expected a single SQL statement''))"

fun statement_has_returning :: "sql_statement \<Rightarrow> bool" where
  "statement_has_returning (StInsert _ _ ret) = (ret \<noteq> None)"
| "statement_has_returning (StUpdate _ _ _ _ ret) = (ret \<noteq> None)"
| "statement_has_returning (StDelete _ _ _ ret) = (ret \<noteq> None)"
| "statement_has_returning _ = False"

definition extract_create_table_name :: "sql_statement \<Rightarrow> string option" where
  "extract_create_table_name s = (case s of StCreateTable n \<Rightarrow> Some (clean_table_name n) | _ \<Rightarrow> None)"


section \<open>Validation of extension statements\<close>

record extension_sql_context =
  cx_public_key :: string
  cx_name :: string

definition get_table_prefix :: "extension_sql_context \<Rightarrow> string" where
  "get_table_prefix ctx = get_extension_table_prefix (cx_public_key ctx) (cx_name ctx)"

text \<open>The tables whose prefix is checked; \<open>None\<close> for a statement that is not looked at.\<close>

fun prefixed_tables :: "sql_statement \<Rightarrow> string list option" where
  "prefixed_tables (StCreateTable n) = Some [n]"
| "prefixed_tables (StAlterTable n _) = Some [n]"
| "prefixed_tables (StDrop ns) = Some ns"
| "prefixed_tables (StCreateIndex n) = Some [n]"
| "prefixed_tables _ = None"

definition own_table_name :: "string \<Rightarrow> string \<Rightarrow> bool" where
  "own_table_name p t \<longleftrightarrow>
     starts_with t p
     \<or> (starts_with t ''__new_''
        \<and> (case strip_prefix t ''__new_'' of None \<Rightarrow> False | Some rest \<Rightarrow> starts_with rest p))"

definition check_prefix :: "string \<Rightarrow> string \<Rightarrow> (extension_error, unit) result" where
  "check_prefix p t =
     (if own_table_name p (clean_table_name t) then Inr ()
      else Inl (ValidationErr (''Extension can only operate on tables with prefix '' @ p @ '' Got: '' @ clean_table_name t)))"

definition validate_sql_table_prefix ::
  "ext_env \<Rightarrow> extension_sql_context \<Rightarrow> string \<Rightarrow> (extension_error, unit) result" where
  "validate_sql_table_prefix env ctx sql =
     and_then (db_err (parse_single_statement env sql)) (\<lambda>p.
       case prefixed_tables (pd_sql p) of
         None \<Rightarrow> Inr ()
       | Some ts \<Rightarrow> check_all (check_prefix (get_table_prefix ctx)) ts)"

text \<open>The counter always returns (\<open>placeholder_count_ends\<close>).\<close>

definition validate_params :: "string \<Rightarrow> json list \<Rightarrow> (string, unit) result" where
  "validate_params sql params =
     (if the (count_sql_placeholders sql) \<noteq> length params
      then Inl (''StatementError: Parameter mismatch'') else Inr ())"


section \<open>Execution in a transaction\<close>

definition tx_scoped_hlc :: "ext_env \<Rightarrow> (string, string) result" where
  "tx_scoped_hlc env = (case xe_hlc env of Inl e \<Rightarrow> Inl (''HlcError: '' @ e) | Inr ts \<Rightarrow> Inr ts)"

definition run_transformed :: "ext_env \<Rightarrow> bool \<Rightarrow> string \<Rightarrow> sql_value list \<Rightarrow> crdt_db
    \<Rightarrow> (string, json list list \<times> crdt_db) result" where
  "run_transformed env returning sql params db =
     and_then (planner_parse_single env sql) (\<lambda>p.
     and_then (tx_scoped_hlc env) (\<lambda>ts.
       case transform_execute_statement ts (pd_crdt p) of
         Inl (UnsupportedStatement e) \<Rightarrow> Inl (execution_error sql e)
       | Inr (s, _) \<Rightarrow>
           (case xe_run env returning (xe_print env p) s params db of
              Inl e \<Rightarrow> Inl (execution_error (xe_print env p) e)
            | Inr r \<Rightarrow> Inr r)))"

definition execute_internal_typed ::
  "ext_env \<Rightarrow> string \<Rightarrow> sql_value list \<Rightarrow> crdt_db \<Rightarrow> (string, crdt_db) result" where
  "execute_internal_typed env sql params db = and_then (run_transformed env False sql params db) (\<lambda>(_, db1). Inr db1)"

definition query_internal_typed ::
  "ext_env \<Rightarrow> string \<Rightarrow> sql_value list \<Rightarrow> crdt_db \<Rightarrow> (string, json list list \<times> crdt_db) result" where
  "query_internal_typed env sql params db = run_transformed env True sql params db"

definition execute_internal :: "ext_env \<Rightarrow> string \<Rightarrow> json list \<Rightarrow> crdt_db \<Rightarrow> (string, crdt_db) result" where
  "execute_internal env sql params db =
     execute_internal_typed env sql (json_values_to_sql_params (se_sql (xe_space env)) params) db"

definition query_internal :: "ext_env \<Rightarrow> string \<Rightarrow> json list \<Rightarrow> crdt_db \<Rightarrow> (string, json list list \<times> crdt_db) result" where
  "query_internal env sql params db =
     query_internal_typed env sql (json_values_to_sql_params (se_sql (xe_space env)) params) db"

text \<open>\<open>with_connection\<close> and a transaction in it: nothing stays of a body that fails or whose commit
  fails.\<close>

definition with_tx :: "space_env \<Rightarrow> crdt_db \<Rightarrow> (crdt_db \<Rightarrow> (string, 'a \<times> crdt_db) result)
    \<Rightarrow> (extension_error, 'a) result \<times> crdt_db" where
  "with_tx env db f =
     (case se_db_fault env of
        Some e \<Rightarrow> (Inl (ExtDatabaseError e), db)
      | None \<Rightarrow>
          (case f db of
             Inl e \<Rightarrow> (Inl (ExtDatabaseError e), db)
           | Inr (x, db1) \<Rightarrow>
               (case commit_error (se_sql env) of
                  Some e \<Rightarrow> (Inl (ExtDatabaseError e), db)
                | None \<Rightarrow> (Inr x, db1))))"

definition lock_hlc :: "perm_state \<Rightarrow> (string, unit) result" where
  "lock_hlc st = (if ps_hlc_poisoned st then Inl ''Failed to lock HLC service'' else Inr ())"

definition drop_triggers_for_table :: "crdt_db \<Rightarrow> string \<Rightarrow> (string, crdt_db) result" where
  "drop_triggers_for_table db t =
     (if \<not> is_safe_identifier t then Inl (''Invalid or unsafe table name provided: '' @ t)
      else Inr (case tables db t of None \<Rightarrow> db | Some tb \<Rightarrow> set_table t (tb\<lparr>has_triggers := False\<rparr>) db))"

fun column_change :: "alter_op \<Rightarrow> bool" where
  "column_change OtherAlterOp = False"
| "column_change _ = True"

fun dropped_columns :: "alter_op \<Rightarrow> string list" where
  "dropped_columns (DropColumn cs) = cs"
| "dropped_columns _ = []"

datatype alter_plan = AlterSkip | AlterRecreate string | AlterPlain

definition column_exists :: "crdt_db \<Rightarrow> string \<Rightarrow> string \<Rightarrow> bool" where
  "column_exists db t c = (case tables db t of None \<Rightarrow> False | Some tb \<Rightarrow> has_column (clean_table_name c) (schema tb))"

definition plan_alter :: "crdt_db \<Rightarrow> sql_statement \<Rightarrow> alter_plan" where
  "plan_alter db s =
     (case s of
        StAlterTable n ops \<Rightarrow>
          (let t = clean_table_name n
           in if starts_with t ''__new_'' then AlterPlain
              else if list_ex (\<lambda>c. \<not> column_exists db t c) (concat (map dropped_columns ops)) then AlterSkip
              else if list_ex column_change ops then AlterRecreate t else AlterPlain)
      | _ \<Rightarrow> AlterPlain)"

fun setup_error_text :: "crdt_setup_error \<Rightarrow> string" where
  "setup_error_text (CrdtDatabaseError e) = ''CrdtSetup: database error''"
| "setup_error_text (HlcColumnMissing t c) = ''CrdtSetup: column '' @ c @ '' missing in '' @ t"
| "setup_error_text (PrimaryKeyMissing t) = ''CrdtSetup: no primary key in '' @ t"

definition setup_step :: "(crdt_setup_error, 'a) result \<times> crdt_db \<Rightarrow> (string, crdt_db) result" where
  "setup_step r = (case r of (Inl e, _) \<Rightarrow> Inl (setup_error_text e) | (Inr _, db) \<Rightarrow> Inr db)"

definition after_create :: "sql_statement \<Rightarrow> crdt_db \<Rightarrow> (string, crdt_db) result" where
  "after_create s db =
     (case extract_create_table_name s of
        None \<Rightarrow> Inr db
      | Some t \<Rightarrow>
          if starts_with t ''__new_'' then Inr db
          else and_then (setup_step (ensure_crdt_columns db t)) (\<lambda>db1. setup_step (setup_triggers_for_table db1 t)))"

definition after_alter :: "alter_plan \<Rightarrow> crdt_db \<Rightarrow> (string, crdt_db) result" where
  "after_alter plan db = (case plan of AlterRecreate t \<Rightarrow> setup_step (setup_triggers_for_table db t) | _ \<Rightarrow> Inr db)"

definition execute_body :: "ext_env \<Rightarrow> perm_state \<Rightarrow> parsed \<Rightarrow> sql_value list \<Rightarrow> crdt_db
    \<Rightarrow> (string, json list list \<times> crdt_db) result" where
  "execute_body env st p params db =
     (let plan = plan_alter db (pd_sql p)
      in if plan = AlterSkip then Inr ([], db)
         else
           and_then (case plan of AlterRecreate t \<Rightarrow> drop_triggers_for_table db t | _ \<Rightarrow> Inr db) (\<lambda>db1.
           and_then (lock_hlc st) (\<lambda>_.
           and_then (if statement_has_returning (pd_sql p) then query_internal_typed env (xe_print env p) params db1
                     else and_then (execute_internal_typed env (xe_print env p) params db1) (\<lambda>d. Inr ([], d)))
             (\<lambda>(out, db2).
           and_then (after_create (pd_sql p) db2) (\<lambda>db3.
           and_then (after_alter plan db3) (\<lambda>db4. Inr (out, db4)))))))"

text \<open>Rows are collected until the stream ends, breaks off, or exceeds the limit, if there is one.\<close>

fun collect_rows :: "int option \<Rightarrow> json list list \<Rightarrow> (string, json list) result list \<Rightarrow> (string, json list list) result" where
  "collect_rows lim acc [] = Inr acc"
| "collect_rows lim acc (Inl e # rs) = Inl e"
| "collect_rows lim acc (Inr r # rs) =
     (if (case lim of None \<Rightarrow> False | Some m \<Rightarrow> m \<le> int (length acc))
      then Inl ''LimitExceeded: Query result exceeds maximum rows''
      else collect_rows lim (acc @ [r]) rs)"

definition select_rows :: "ext_env \<Rightarrow> int option \<Rightarrow> string \<Rightarrow> json list \<Rightarrow> crdt_db \<Rightarrow> (extension_error, json list list) result" where
  "select_rows env lim text params db =
     (case se_db_fault (xe_space env) of
        Some e \<Rightarrow> Inl (ExtDatabaseError e)
      | None \<Rightarrow>
          (case xe_select env text (json_values_to_sql_params (se_sql (xe_space env)) params) db of
             Inl e \<Rightarrow> Inl (ExtDatabaseError (execution_error text e))
           | Inr rs \<Rightarrow> db_err (collect_rows lim [] rs)))"

fun is_query :: "sql_statement \<Rightarrow> bool" where
  "is_query (StQuery _) = True"
| "is_query _ = False"

definition execute_sql_with_context :: "ext_env \<Rightarrow> perm_state \<Rightarrow> extension_sql_context \<Rightarrow> string \<Rightarrow> json list \<Rightarrow> crdt_db
    \<Rightarrow> (extension_error, json list list) result \<times> crdt_db" where
  "execute_sql_with_context env st ctx sql params db =
     (case and_then (validate_sql_table_prefix env ctx sql) (\<lambda>_.
             and_then (db_err (validate_params sql params)) (\<lambda>_.
             and_then (db_err (parse_sql_statements env sql)) (\<lambda>ps.
               case ps of
                 [p] \<Rightarrow> Inr p
               | _ \<Rightarrow> Inl (ExtDatabaseError (execution_error sql
                     ''execute_sql_with_context should only receive a single SQL statement''))))) of
        Inl e \<Rightarrow> (Inl e, db)
      | Inr p \<Rightarrow>
          if is_query (pd_sql p) then (select_rows env None (xe_print env p) params db, db)
          else with_tx (xe_space env) db
                 (execute_body env st p (json_values_to_sql_params (se_sql (xe_space env)) params)))"



section \<open>Migrations\<close>

definition execute_pragma_statement :: "ext_env \<Rightarrow> string \<Rightarrow> crdt_db \<Rightarrow> (extension_error, unit) result \<times> crdt_db" where
  "execute_pragma_statement env sql db =
     (if \<not> is_allowed_pragma sql then (Inl (ValidationErr (''PRAGMA statement not allowed: '' @ take 50 sql)), db)
      else case se_db_fault (xe_space env) of
             Some e \<Rightarrow> (Inl (ExtDatabaseError e), db)
           | None \<Rightarrow>
               (case xe_pragma_error env sql of
                  Some e \<Rightarrow> (Inl (ExtDatabaseError (execution_error sql (''PRAGMA execution failed: '' @ e))), db)
                | None \<Rightarrow> (Inr (), db\<lparr>fk_enabled := (pragma_normalized sql = ''PRAGMAFOREIGN_KEYS=ON'')\<rparr>)))"

text \<open>SQLite's \<open>LIKE\<close>: \<open>%\<close> stands for any text, an underscore for any character, letters match in
  both cases.\<close>

fun sql_like :: "string \<Rightarrow> string \<Rightarrow> bool" where
  "sql_like [] s = (s = [])"
| "sql_like (c # p) [] = (c = CHR ''%'' \<and> sql_like p [])"
| "sql_like (c # p) (d # s) =
     (if c = CHR ''%'' then sql_like p (d # s) \<or> sql_like (c # p) s
      else (c = CHR ''_'' \<or> to_ascii_lower c = to_ascii_lower d) \<and> sql_like p s)"

definition discover_extension_tables :: "ext_env \<Rightarrow> crdt_db \<Rightarrow> string \<Rightarrow> string \<Rightarrow> string list" where
  "discover_extension_tables env db pk nm =
     filter (sql_like (get_extension_table_prefix pk nm @ ''%'')) (sort (xe_table_names env db))"

definition ensure_extension_tables_have_crdt ::
  "ext_env \<Rightarrow> extension_sql_context \<Rightarrow> crdt_db \<Rightarrow> (extension_error, unit) result \<times> crdt_db" where
  "ensure_extension_tables_have_crdt env ctx db =
     (case se_db_fault (xe_space env) of
        Some e \<Rightarrow> (Inl (ExtDatabaseError e), db)
      | None \<Rightarrow>
          (let ts = discover_extension_tables env db (cx_public_key ctx) (cx_name ctx)
           in if ts = [] then (Inr (), db)
              else with_tx (xe_space env) db
                     (\<lambda>db. Inr ((), fold (\<lambda>t d. snd (ensure_crdt_columns_and_triggers d t)) ts db))))"

definition drop_extension_tables :: "ext_env \<Rightarrow> (string \<Rightarrow> string option) \<Rightarrow> string \<Rightarrow> string \<Rightarrow> crdt_db
    \<Rightarrow> (string, string list \<times> crdt_db) result" where
  "drop_extension_tables env drop_error pk nm db =
     (let pattern = get_extension_table_prefix pk nm @ ''%'';
          db1 = db\<lparr>dirty_tables := filter (\<lambda>(t, _). \<not> sql_like pattern t) (dirty_tables db)\<rparr>;
          ts = filter (sql_like pattern) (xe_table_names env db1)
      in case filter (\<lambda>t. drop_error t \<noteq> None) ts of
           t # _ \<Rightarrow> Inl (the (drop_error t))
         | [] \<Rightarrow> Inr (ts, db1\<lparr>tables := tables db1 |` (- set ts)\<rparr>))"

definition schema_already_applied :: "string \<Rightarrow> bool" where
  "schema_already_applied msg \<longleftrightarrow>
     contains msg ''duplicate column name'' \<or> contains msg ''table'' \<and> contains msg ''already exists''"

fun run_migration_statements :: "ext_env \<Rightarrow> perm_state \<Rightarrow> extension_sql_context \<Rightarrow> string list \<Rightarrow> crdt_db
    \<Rightarrow> (extension_error, unit) result \<times> crdt_db" where
  "run_migration_statements env st ctx [] db = (Inr (), db)"
| "run_migration_statements env st ctx (s # ss) db =
     (if is_pragma_statement s
      then (case execute_pragma_statement env s db of
              (Inl e, db1) \<Rightarrow> (Inl e, db1)
            | (Inr _, db1) \<Rightarrow> run_migration_statements env st ctx ss db1)
      else (case validate_sql_table_prefix env ctx s of
              Inl e \<Rightarrow> (Inl e, db)
            | Inr _ \<Rightarrow>
                (case execute_sql_with_context env st ctx s [] db of
                   (Inr _, db1) \<Rightarrow> run_migration_statements env st ctx ss db1
                 | (Inl (ExtDatabaseError m), db1) \<Rightarrow>
                     if schema_already_applied m then run_migration_statements env st ctx ss db1
                     else (Inl (ExtDatabaseError m), db1)
                 | (Inl e, db1) \<Rightarrow> (Inl e, db1))))"

definition execute_migration_statements :: "ext_env \<Rightarrow> perm_state \<Rightarrow> extension_sql_context \<Rightarrow> string \<Rightarrow> crdt_db
    \<Rightarrow> (extension_error, nat) result \<times> crdt_db" where
  "execute_migration_statements env st ctx sql db =
     (let ss = split_migration_statements sql
      in case run_migration_statements env st ctx ss db of
           (Inl e, db1) \<Rightarrow> (Inl e, db1)
         | (Inr _, db1) \<Rightarrow>
             (case ensure_extension_tables_have_crdt env ctx db1 of
                (Inl e, db2) \<Rightarrow> (Inl e, db2)
              | (Inr _, db2) \<Rightarrow> (Inr (length ss), db2)))"

text \<open>The two migration tables are local (\<open>_no_sync\<close>): rows carry no clocks and there are no triggers.\<close>

definition TABLE_EXTENSION_MIGRATIONS :: string where
  "TABLE_EXTENSION_MIGRATIONS = ''haex_extension_migrations_no_sync''"

definition TABLE_CRDT_MIGRATIONS :: string where
  "TABLE_CRDT_MIGRATIONS = ''haex_crdt_migrations_no_sync''"

definition local_insert_or_ignore ::
  "space_env \<Rightarrow> string \<Rightarrow> (string \<times> sql_value) list \<Rightarrow> crdt_db \<Rightarrow> (string, crdt_db) result" where
  "local_insert_or_ignore env t params db =
     and_then (open_table env db t (map fst params)) (\<lambda>tb.
       case insert_violation (se_sql env) t tb params of
         Some _ \<Rightarrow> Inr db
       | None \<Rightarrow> Inr (set_table t (tb\<lparr>rows := rows tb
           @ [\<lparr>cells = map_of params, row_hlc = None, column_hlcs = Map.empty\<rparr>]\<rparr>) db))"

definition json_str_field :: "(string \<times> json) list \<Rightarrow> string \<Rightarrow> (extension_error, string) result" where
  "json_str_field obj k =
     ok_or (ValidationErr (''Migration must have a field '' @ k)) (Option.bind (map_of obj k) json_as_str)"

definition validate_migration_statement ::
  "ext_env \<Rightarrow> extension_sql_context \<Rightarrow> string \<Rightarrow> (extension_error, unit) result" where
  "validate_migration_statement env ctx s =
     (if is_pragma_statement s
      then (if is_allowed_pragma s then Inr () else Inl (ValidationErr (''PRAGMA statement not allowed: '' @ take 50 s)))
      else validate_sql_table_prefix env ctx s)"

definition store_migration :: "ext_env \<Rightarrow> perm_state \<Rightarrow> string \<Rightarrow> string \<Rightarrow> string \<Rightarrow> string \<Rightarrow> string \<Rightarrow> crdt_db
    \<Rightarrow> (extension_error, unit) result \<times> crdt_db" where
  "store_migration env st new_id ext version nm sql db =
     with_tx (xe_space env) db (\<lambda>db.
       and_then (lock_hlc st) (\<lambda>_. and_then (tx_scoped_hlc env) (\<lambda>_.
       and_then (local_insert_or_ignore (xe_space env) TABLE_EXTENSION_MIGRATIONS
         [(''id'', SText new_id), (''extension_id'', SText ext), (''extension_version'', SText version),
          (''migration_name'', SText nm), (''sql_statement'', SText sql)] db) (\<lambda>db1. Inr ((), db1)))))"

fun store_migrations :: "ext_env \<Rightarrow> perm_state \<Rightarrow> extension_sql_context \<Rightarrow> string \<Rightarrow> string \<Rightarrow> (nat \<Rightarrow> string)
    \<Rightarrow> (string \<times> json) list list \<Rightarrow> crdt_db \<Rightarrow> (extension_error, unit) result \<times> crdt_db" where
  "store_migrations env st ctx ext version ids [] db = (Inr (), db)"
| "store_migrations env st ctx ext version ids (obj # objs) db =
     (case and_then (json_str_field obj ''name'') (\<lambda>nm. and_then (json_str_field obj ''sql'') (\<lambda>sql.
             and_then (check_all (validate_migration_statement env ctx) (split_migration_statements sql))
               (\<lambda>_. Inr (nm, sql)))) of
        Inl e \<Rightarrow> (Inl e, db)
      | Inr (nm, sql) \<Rightarrow>
          (case store_migration env st (ids 0) ext version nm sql db of
             (Inl e, db1) \<Rightarrow> (Inl e, db1)
           | (Inr _, db1) \<Rightarrow> store_migrations env st ctx ext version (\<lambda>n. ids (Suc n)) objs db1))"

fun collect_results :: "('e, 'a) result list \<Rightarrow> ('e, 'a list) result" where
  "collect_results [] = Inr []"
| "collect_results (r # rs) = and_then r (\<lambda>x. and_then (collect_results rs) (\<lambda>xs. Inr (x # xs)))"

definition applied_locally :: "space_env \<Rightarrow> row list \<Rightarrow> row \<Rightarrow> bool" where
  "applied_locally env applied m \<longleftrightarrow>
     list_ex (\<lambda>c. where_eq env (col env c ''extension_id'') (col env m ''extension_id'')
        \<and> where_eq env (col env c ''migration_name'') (col env m ''migration_name'')) applied"

definition pending_migrations :: "ext_env \<Rightarrow> crdt_db \<Rightarrow> string \<Rightarrow> (string, (string \<times> string) list) result" where
  "pending_migrations env db ext =
     (let se = xe_space env
      in and_then (table_rows se db TABLE_EXTENSION_MIGRATIONS [''extension_id'', ''migration_name'', ''sql_statement'']) (\<lambda>ms.
         and_then (table_rows se db TABLE_CRDT_MIGRATIONS [''extension_id'', ''migration_name'']) (\<lambda>applied.
         and_then (collect_results (map (\<lambda>m. and_then (get_text (col se m ''migration_name'')) (\<lambda>n.
             and_then (get_text (col se m ''sql_statement'')) (\<lambda>s. Inr (n, s))))
           (filter (\<lambda>m. where_eq se (col se m ''extension_id'') (SText ext) \<and> \<not> applied_locally se applied m) ms)))
           (\<lambda>ps. Inr (sort_key fst ps)))))"

definition count_applied_migrations :: "ext_env \<Rightarrow> crdt_db \<Rightarrow> string \<Rightarrow> (string, nat) result" where
  "count_applied_migrations env db ext =
     (let se = xe_space env
      in and_then (table_rows se db TABLE_CRDT_MIGRATIONS [''extension_id''])
           (\<lambda>rs. Inr (length (filter (\<lambda>r. where_eq se (col se r ''extension_id'') (SText ext)) rs))))"

definition record_applied :: "ext_env \<Rightarrow> string \<Rightarrow> string \<Rightarrow> string \<Rightarrow> string \<Rightarrow> crdt_db \<Rightarrow> (string, crdt_db) result" where
  "record_applied env new_id ext nm sql db =
     local_insert_or_ignore (xe_space env) TABLE_CRDT_MIGRATIONS
       [(''id'', SText new_id), (''extension_id'', SText ext), (''migration_name'', SText nm),
        (''migration_content'', SText sql), (''applied_at'', SText (xe_now env))] db"

text \<open>The apply loop of both commands, for entries of context, extension, name and SQL.  The first
  component is the list of names applied so far.\<close>

fun apply_migrations :: "ext_env \<Rightarrow> perm_state \<Rightarrow> (nat \<Rightarrow> string) \<Rightarrow> (extension_sql_context \<times> string \<times> string \<times> string) list
    \<Rightarrow> crdt_db \<Rightarrow> string list \<times> (extension_error, unit) result \<times> crdt_db" where
  "apply_migrations env st ids [] db = ([], Inr (), db)"
| "apply_migrations env st ids ((ctx, ext, nm, sql) # ms) db =
     (case execute_migration_statements env st ctx sql db of
        (Inl e, db1) \<Rightarrow> ([], Inl e, db1)
      | (Inr _, db1) \<Rightarrow>
          (case db_err (record_applied env (ids 0) ext nm sql db1) of
             Inl e \<Rightarrow> ([], Inl e, db1)
           | Inr db2 \<Rightarrow>
               (case apply_migrations env st (\<lambda>n. ids (Suc n)) ms db2 of
                  (nms, r, db3) \<Rightarrow> (nm # nms, r, db3))))"


section \<open>Commands\<close>

record database_query_result =
  dq_rows :: "json list list"
  dq_rows_affected :: nat
  dq_last_insert_id :: "int option"

record migration_result =
  mr_applied_count :: nat
  mr_already_applied_count :: nat
  mr_applied_migrations :: "string list"

text \<open>The database, the query counters, the number of dirty-table events sent to the front end and
  the extensions signalled ready.\<close>

record ext_state =
  xs_db :: crdt_db
  xs_slots :: concurrency_tracker
  xs_dirty_events :: nat
  xs_ready :: "string list"

definition limit_err :: "(limit_error, 'a) result \<Rightarrow> (extension_error, 'a) result" where
  "limit_err r = (case r of Inl e \<Rightarrow> Inl (ExtDatabaseError (''LimitExceeded: '' @ display_limit_error e)) | Inr x \<Rightarrow> Inr x)"

definition caller_limits :: "ext_env \<Rightarrow> perm_state \<Rightarrow> string \<Rightarrow> string option \<Rightarrow> string option \<Rightarrow> crdt_db
    \<Rightarrow> (extension_error, string \<times> manifest \<times> database_limits) result" where
  "caller_limits env st window pk nm db =
     and_then (resolve_extension_id st window pk nm) (\<lambda>ext.
     and_then (known_or_error st ext) (\<lambda>m.
     and_then (db_err (get_limits (xe_space env) (xe_defaults env) db ext)) (\<lambda>l. Inr (ext, m, el_database l))))"

text \<open>The guard holds a slot while the rest of the command runs.\<close>

definition with_query_guard :: "string \<Rightarrow> database_limits \<Rightarrow> (ext_state \<Rightarrow> (extension_error, 'a) result \<times> ext_state)
    \<Rightarrow> ext_state \<Rightarrow> (extension_error, 'a) result \<times> ext_state" where
  "with_query_guard ext l f xs =
     (case limit_err (acquire_query_slot (xs_slots xs) ext l) of
        Inl e \<Rightarrow> (Inl e, xs)
      | Inr slots \<Rightarrow>
          (case f (xs\<lparr>xs_slots := slots\<rparr>) of
             (r, xs1) \<Rightarrow> (r, xs1\<lparr>xs_slots := tracker_release (xs_slots xs1) ext\<rparr>)))"

definition check_permissions :: "ext_env \<Rightarrow> perm_state \<Rightarrow> string \<Rightarrow> string \<Rightarrow> (extension_error, unit) result" where
  "check_permissions env st ext sql =
     validate_sql (xe_constraints env) (\<lambda>s. map_option pd_sql (ok (parse_single_statement env s))) st ext sql"

definition manifest_context :: "manifest \<Rightarrow> extension_sql_context" where
  "manifest_context m = \<lparr>cx_public_key = mf_public_key m, cx_name = mf_name m\<rparr>"

definition extension_database_execute :: "ext_env \<Rightarrow> perm_state \<Rightarrow> string \<Rightarrow> string \<Rightarrow> json list \<Rightarrow> string option \<Rightarrow> string option
    \<Rightarrow> ext_state \<Rightarrow> (extension_error, database_query_result) result \<times> ext_state" where
  "extension_database_execute env st window sql params pk nm xs =
     (case and_then (caller_limits env st window pk nm (xs_db xs)) (\<lambda>(ext, m, l).
             and_then (limit_err (validate_query_size sql l)) (\<lambda>_. Inr (ext, m, l))) of
        Inl e \<Rightarrow> (Inl e, xs)
      | Inr (ext, m, l) \<Rightarrow>
          with_query_guard ext l (\<lambda>xs.
            case check_permissions env st ext sql of
              Inl e \<Rightarrow> (Inl e, xs)
            | Inr _ \<Rightarrow>
                (case execute_sql_with_context env st (manifest_context m) sql params (xs_db xs) of
                   (Inl e, db) \<Rightarrow> (Inl e, xs\<lparr>xs_db := db\<rparr>)
                 | (Inr out, db) \<Rightarrow>
                     (Inr \<lparr>dq_rows = out, dq_rows_affected = length out, dq_last_insert_id = None\<rparr>,
                      xs\<lparr>xs_db := db, xs_dirty_events := Suc (xs_dirty_events xs)\<rparr>))) xs)"

definition check_statement :: "ext_env \<Rightarrow> perm_state \<Rightarrow> string \<Rightarrow> manifest \<Rightarrow> database_limits \<Rightarrow> string \<Rightarrow> (extension_error, unit) result" where
  "check_statement env st ext m l sql =
     and_then (limit_err (validate_query_size sql l)) (\<lambda>_.
     and_then (validate_sql_table_prefix env (manifest_context m) sql) (\<lambda>_.
       check_permissions env st ext sql))"

fun run_statements :: "ext_env \<Rightarrow> (string \<times> json list) list \<Rightarrow> nat \<Rightarrow> crdt_db \<Rightarrow> (string, nat \<times> crdt_db) result" where
  "run_statements env [] affected db = Inr (affected, db)"
| "run_statements env ((sql, params) # ss) affected db =
     and_then (parse_single_statement env sql) (\<lambda>p.
       if statement_has_returning (pd_sql p)
       then and_then (query_internal env sql params db) (\<lambda>(out, db1). run_statements env ss (affected + length out) db1)
       else and_then (execute_internal env sql params db) (\<lambda>db1. run_statements env ss (affected + 1) db1))"

definition empty_result :: database_query_result where
  "empty_result = \<lparr>dq_rows = [], dq_rows_affected = 0, dq_last_insert_id = None\<rparr>"

definition extension_database_transaction :: "ext_env \<Rightarrow> perm_state \<Rightarrow> string \<Rightarrow> (string \<times> json list) list \<Rightarrow> string option
    \<Rightarrow> string option \<Rightarrow> ext_state \<Rightarrow> (extension_error, database_query_result) result \<times> ext_state" where
  "extension_database_transaction env st window stmts pk nm xs =
     (if stmts = [] then (Inr empty_result, xs)
      else case and_then (caller_limits env st window pk nm (xs_db xs)) (\<lambda>(ext, m, l).
             and_then (check_all (check_statement env st ext m l) (map fst stmts)) (\<lambda>_. Inr (ext, l))) of
        Inl e \<Rightarrow> (Inl e, xs)
      | Inr (ext, l) \<Rightarrow>
          with_query_guard ext l (\<lambda>xs.
            case with_tx (xe_space env) (xs_db xs)
                   (\<lambda>db. and_then (lock_hlc st) (\<lambda>_. run_statements env stmts 0 db)) of
              (Inl e, db) \<Rightarrow> (Inl e, xs\<lparr>xs_db := db\<rparr>)
            | (Inr affected, db) \<Rightarrow>
                (Inr \<lparr>dq_rows = [], dq_rows_affected = affected, dq_last_insert_id = None\<rparr>,
                 xs\<lparr>xs_db := db, xs_dirty_events := Suc (xs_dirty_events xs)\<rparr>)) xs)"

definition query_statement :: "ext_env \<Rightarrow> string \<Rightarrow> json list \<Rightarrow> (extension_error, parsed option) result" where
  "query_statement env sql params =
     and_then (if the (count_sql_placeholders sql) \<noteq> length params
               then Inl (ExtDatabaseError (''ParameterMismatchError: '' @ sql)) else Inr ()) (\<lambda>_.
     and_then (db_err (parse_sql_statements env sql)) (\<lambda>ps.
       if ps = [] then Inr None
       else if list_ex (\<lambda>p. \<not> is_query (pd_sql p)) ps
       then Inl (ExtDatabaseError (execution_error sql ''Only SELECT statements are allowed in extension_database_query''))
       else Inr (Some (last ps))))"

definition extension_database_query :: "ext_env \<Rightarrow> perm_state \<Rightarrow> string \<Rightarrow> string \<Rightarrow> json list \<Rightarrow> string option \<Rightarrow> string option
    \<Rightarrow> ext_state \<Rightarrow> (extension_error, database_query_result) result \<times> ext_state" where
  "extension_database_query env st window sql params pk nm xs =
     (case and_then (caller_limits env st window pk nm (xs_db xs)) (\<lambda>(ext, m, l).
             and_then (limit_err (validate_query_size sql l)) (\<lambda>_. Inr (ext, l))) of
        Inl e \<Rightarrow> (Inl e, xs)
      | Inr (ext, l) \<Rightarrow>
          with_query_guard ext l (\<lambda>xs.
            (and_then (check_permissions env st ext sql) (\<lambda>_.
             and_then (query_statement env sql params) (\<lambda>q.
               case q of
                 None \<Rightarrow> Inr empty_result
               | Some p \<Rightarrow>
                   and_then (select_rows env (Some (sint (max_result_rows l))) (xe_print env p) params (xs_db xs))
                     (\<lambda>out. Inr \<lparr>dq_rows = out, dq_rows_affected = 0, dq_last_insert_id = None\<rparr>))), xs)) xs)"

definition extension_database_register_migrations :: "ext_env \<Rightarrow> perm_state \<Rightarrow> string \<Rightarrow> (nat \<Rightarrow> string) \<Rightarrow> (nat \<Rightarrow> string) \<Rightarrow> string
    \<Rightarrow> (string \<times> json) list list \<Rightarrow> string option \<Rightarrow> string option \<Rightarrow> ext_state
    \<Rightarrow> (extension_error, migration_result) result \<times> ext_state" where
  "extension_database_register_migrations env st window ids ids' version migrations pk nm xs =
     (case and_then (resolve_extension_id st window pk nm) (\<lambda>ext.
             and_then (known_or_error st ext) (\<lambda>m. Inr (ext, manifest_context m))) of
        Inl e \<Rightarrow> (Inl e, xs)
      | Inr (ext, ctx) \<Rightarrow>
          (case store_migrations env st ctx ext version ids migrations (xs_db xs) of
             (Inl e, db1) \<Rightarrow> (Inl e, xs\<lparr>xs_db := db1\<rparr>)
           | (Inr _, db1) \<Rightarrow>
               (case and_then (db_err (pending_migrations env db1 ext)) (\<lambda>ps.
                       and_then (db_err (count_applied_migrations env db1 ext)) (\<lambda>n. Inr (ps, n))) of
                  Inl e \<Rightarrow> (Inl e, xs\<lparr>xs_db := db1\<rparr>)
                | Inr (ps, n) \<Rightarrow>
                    (case apply_migrations env st ids' (map (\<lambda>(nm, sql). (ctx, ext, nm, sql)) ps) db1 of
                       (_, Inl e, db2) \<Rightarrow> (Inl e, xs\<lparr>xs_db := db2\<rparr>)
                     | (nms, Inr _, db2) \<Rightarrow>
                         (Inr \<lparr>mr_applied_count = length nms, mr_already_applied_count = n, mr_applied_migrations = nms\<rparr>,
                          xs\<lparr>xs_db := db2, xs_ready := ext # xs_ready xs\<rparr>)))))"

definition TABLE_EXTENSIONS :: string where "TABLE_EXTENSIONS = ''haex_extensions''"

definition synced_pending_migrations ::
  "ext_env \<Rightarrow> crdt_db \<Rightarrow> (string, (extension_sql_context \<times> string \<times> string \<times> string) list) result" where
  "synced_pending_migrations env db =
     (let se = xe_space env
      in and_then (table_rows se db TABLE_EXTENSION_MIGRATIONS [''extension_id'', ''migration_name'', ''sql_statement'']) (\<lambda>ms.
         and_then (table_rows se db TABLE_EXTENSIONS [''id'', ''public_key'', ''name'']) (\<lambda>es.
         and_then (table_rows se db TABLE_CRDT_MIGRATIONS [''extension_id'', ''migration_name'']) (\<lambda>applied.
         and_then (collect_results
           (map (\<lambda>(m, e). and_then (get_text (col se m ''extension_id'')) (\<lambda>ext.
                 and_then (get_text (col se m ''migration_name'')) (\<lambda>nm.
                 and_then (get_text (col se m ''sql_statement'')) (\<lambda>sql.
                 and_then (get_text (col se e ''public_key'')) (\<lambda>k.
                 and_then (get_text (col se e ''name'')) (\<lambda>n.
                   Inr (\<lparr>cx_public_key = k, cx_name = n\<rparr>, ext, nm, sql)))))))
             (filter (\<lambda>(m, e). where_eq se (col se m ''extension_id'') (col se e ''id'') \<and> \<not> applied_locally se applied m)
               (List.product ms es))))
           (\<lambda>ps. Inr (sort_key (\<lambda>(_, ext, _, _). ext) (sort_key (\<lambda>(_, _, nm, _). nm) ps)))))))"

definition apply_synced_extension_migrations :: "ext_env \<Rightarrow> perm_state \<Rightarrow> (nat \<Rightarrow> string) \<Rightarrow> ext_state
    \<Rightarrow> (extension_error, migration_result) result \<times> ext_state" where
  "apply_synced_extension_migrations env st ids xs =
     (case db_err (synced_pending_migrations env (xs_db xs)) of
        Inl e \<Rightarrow> (Inl e, xs)
      | Inr ps \<Rightarrow>
          (case apply_migrations env st ids ps (xs_db xs) of
             (_, Inl e, db) \<Rightarrow> (Inl e, xs\<lparr>xs_db := db\<rparr>)
           | (nms, Inr _, db) \<Rightarrow>
               (Inr \<lparr>mr_applied_count = length nms, mr_already_applied_count = 0, mr_applied_migrations = nms\<rparr>,
                xs\<lparr>xs_db := db\<rparr>)))"



section \<open>Queries\<close>

lemma limit_err_Inr [res_simps]: "limit_err r = Inr x \<longleftrightarrow> r = Inr x"
  by (auto simp: limit_err_def split: sum.splits)

lemma guard_restores_slots:
  "tracker_get_count (tracker_release (tracker_acquire t ext) ext) = tracker_get_count t"
  by (auto simp: tracker_get_count_def tracker_acquire_def tracker_release_def)

text \<open>A guarded command that keeps the counters gives its slot back, whatever it returns.\<close>

lemma with_query_guard_cases:
  assumes run: "with_query_guard ext l f xs = (r, xs')"
    and slots: "\<And>s. xs_slots (snd (f s)) = xs_slots s"
  shows "tracker_get_count (xs_slots xs') = tracker_get_count (xs_slots xs)
    \<and> ((\<exists>e. r = Inl e \<and> xs' = xs)
       \<or> (\<exists>t xs1. f (xs\<lparr>xs_slots := t\<rparr>) = (r, xs1) \<and> xs_db xs' = xs_db xs1 \<and> xs_dirty_events xs' = xs_dirty_events xs1))"
proof (cases "acquire_query_slot (xs_slots xs) ext l")
  case (Inl e)
  then show ?thesis using run by (auto simp: with_query_guard_def limit_err_def)
next
  case (Inr t)
  then have t: "t = tracker_acquire (xs_slots xs) ext"
    by (simp add: acquire_query_slot_def Let_def split: if_splits)
  obtain r1 xs1 where f: "f (xs\<lparr>xs_slots := t\<rparr>) = (r1, xs1)" by fastforce
  have "xs_slots xs1 = t" using slots [of "xs\<lparr>xs_slots := t\<rparr>"] f by simp
  then have "r = r1" "xs' = xs1\<lparr>xs_slots := tracker_release t ext\<rparr>"
    using run f Inr by (auto simp: with_query_guard_def limit_err_def)
  then show ?thesis using f t guard_restores_slots [of "xs_slots xs" ext] by (intro conjI disjI2 exI [of _ t] exI [of _ xs1]) simp_all
qed

lemma collect_rows_length:
  "collect_rows (Some m) acc rs = Inr out \<Longrightarrow> int (length acc) \<le> max 0 m \<Longrightarrow> int (length out) \<le> max 0 m"
proof (induction "Some m" acc rs rule: collect_rows.induct)
  case (3 acc r rs)
  then show ?case by (auto split: if_splits)
qed auto

lemma select_rows_length:
  "select_rows env (Some m) text params db = Inr out \<Longrightarrow> int (length out) \<le> max 0 m"
  by (auto simp: select_rows_def res_simps split: option.splits sum.splits dest: collect_rows_length)

text \<open>A query command changes neither the database nor the query counters, whatever it returns,
  and it returns rows only after the permission check of the calling extension has passed, and at
  most as many as the limits of this extension allow.\<close>

theorem query_bounded_and_read_only:
  assumes "extension_database_query env st window sql params pk nm xs = (r, xs')"
  shows "xs_db xs' = xs_db xs \<and> tracker_get_count (xs_slots xs') = tracker_get_count (xs_slots xs)
    \<and> (\<forall>out. r = Inr out \<longrightarrow> (\<exists>ext m l. caller_limits env st window pk nm (xs_db xs) = Inr (ext, m, l)
         \<and> check_permissions env st ext sql = Inr () \<and> int (length (dq_rows out)) \<le> max 0 (sint (max_result_rows l))))"
proof (cases "and_then (caller_limits env st window pk nm (xs_db xs)) (\<lambda>(ext, m, l).
    and_then (limit_err (validate_query_size sql l)) (\<lambda>_. Inr (ext, l)))")
  case (Inl e)
  then show ?thesis using assms by (auto simp: extension_database_query_def)
next
  case (Inr q)
  then obtain ext m l where c: "caller_limits env st window pk nm (xs_db xs) = Inr (ext, m, l)" and q: "q = (ext, l)"
    by (auto simp: res_simps)
  note run = assms [unfolded extension_database_query_def Inr q, simplified]
  show ?thesis using with_query_guard_cases [OF run] c
    by (auto simp: res_simps empty_result_def split: option.splits) (erule select_rows_length)
qed

text \<open>The check reads the first statement of the text, the command runs the last one.\<close>

lemma query_runs_last:
  assumes "xe_parser env (normalize_sql sql) = Some (ps @ [p])" "\<forall>q\<in>set (ps @ [p]). is_query (pd_sql q)"
    "count_sql_placeholders sql = Some (length params)"
  shows "query_statement env sql params = Inr (Some p)"
  using assms by (auto simp: query_statement_def parse_sql_statements_def db_err_def list_ex_iff)

lemma check_reads_first:
  assumes "xe_parser env sql = Some (p # ps)" "pd_sql p = StQuery q"
  shows "check_permissions env st ext sql = Inr () \<longleftrightarrow>
    (\<forall>t\<in>set (extract_tables_from_query_recursive q).
       check_database_permission (xe_constraints env) st ext (action.Database DbRead) t = Inr ())"
  using assms unfolding check_permissions_def
  by (intro validate_query_ok) (simp add: parse_single_statement_def)

text \<open>The permission check of a query command covers only the first statement of its text, while
  the last one is executed: two SELECT statements, of which the first mentions no table, return the
  rows of the second, whatever tables it reads and whatever the extension may read.\<close>

theorem query_checks_first_runs_last:
  assumes limits: "caller_limits env st window pk nm (xs_db xs) = Inr (ext, m, l)"
    "validate_query_size sql l = Inr ()" "acquire_query_slot (xs_slots xs) ext l = Inr t"
    and parse: "xe_parser env sql = Some [p, q]" "xe_parser env (normalize_sql sql) = Some [p, q]"
    "pd_sql p = StQuery pq" "extract_tables_from_query_recursive pq = []" "pd_sql q = StQuery qq"
    and params: "count_sql_placeholders sql = Some (length params)"
  shows "fst (extension_database_query env st window sql params pk nm xs) =
    and_then (select_rows env (Some (sint (max_result_rows l))) (xe_print env q) params (xs_db xs))
      (\<lambda>out. Inr \<lparr>dq_rows = out, dq_rows_affected = 0, dq_last_insert_id = None\<rparr>)"
proof -
  have "check_permissions env st ext sql = Inr ()"
    using check_reads_first [OF parse(1,3)] parse(4) by simp
  moreover have "query_statement env sql params = Inr (Some q)"
    using query_runs_last [of env sql "[p]" q params] parse params by simp
  ultimately show ?thesis using limits
    by (simp add: extension_database_query_def with_query_guard_def limit_err_def)
qed



section \<open>Transactions\<close>

lemma with_tx_cases:
  assumes "with_tx env db f = (r, db')"
  shows "(\<exists>e. r = Inl e \<and> db' = db) \<or> (\<exists>x. r = Inr x \<and> f db = Inr (x, db'))"
  using assms by (auto simp: with_tx_def split: option.splits sum.splits)

text \<open>C30: A transaction is checked as a whole and runs as a whole.  When it succeeds, every
  statement passed the size, prefix and permission checks before the first one ran, and the database
  is the one all of them produce in order; when it fails, the database is as it was.  The query
  counters are as before in both cases.\<close>

theorem transaction_all_or_nothing:
  assumes run: "extension_database_transaction env st window stmts pk nm xs = (r, xs')" and "stmts \<noteq> []"
  shows "tracker_get_count (xs_slots xs') = tracker_get_count (xs_slots xs)
    \<and> (case r of
         Inl e \<Rightarrow> xs_db xs' = xs_db xs \<and> xs_dirty_events xs' = xs_dirty_events xs
       | Inr out \<Rightarrow> (\<exists>ext m l. caller_limits env st window pk nm (xs_db xs) = Inr (ext, m, l)
           \<and> (\<forall>(sql, params)\<in>set stmts. check_statement env st ext m l sql = Inr ())
           \<and> run_statements env stmts 0 (xs_db xs) = Inr (dq_rows_affected out, xs_db xs')))"
proof (cases "and_then (caller_limits env st window pk nm (xs_db xs)) (\<lambda>(ext, m, l).
    and_then (check_all (check_statement env st ext m l) (map fst stmts)) (\<lambda>_. Inr (ext, l)))")
  case (Inl e)
  then show ?thesis using assms by (auto simp: extension_database_transaction_def)
next
  case (Inr q)
  then obtain ext m l where c: "caller_limits env st window pk nm (xs_db xs) = Inr (ext, m, l)" and q: "q = (ext, l)"
    and checked: "check_all (check_statement env st ext m l) (map fst stmts) = Inr ()"
    by (auto simp: res_simps)
  let ?body = "\<lambda>s. case with_tx (xe_space env) (xs_db s) (\<lambda>db. and_then (lock_hlc st) (\<lambda>_. run_statements env stmts 0 db)) of
      (Inl e, db) \<Rightarrow> (Inl e, s\<lparr>xs_db := db\<rparr>)
    | (Inr affected, db) \<Rightarrow> (Inr \<lparr>dq_rows = [], dq_rows_affected = affected, dq_last_insert_id = None\<rparr>,
        s\<lparr>xs_db := db, xs_dirty_events := Suc (xs_dirty_events s)\<rparr>)"
  have guard: "with_query_guard ext l ?body xs = (r, xs')"
    using run \<open>stmts \<noteq> []\<close> Inr q by (simp add: extension_database_transaction_def)
  have slots: "xs_slots (snd (?body s)) = xs_slots s" for s by (auto split: prod.splits sum.splits)
  have tx: "(case fst (?body s) of
        Inl e \<Rightarrow> xs_db (snd (?body s)) = xs_db s \<and> xs_dirty_events (snd (?body s)) = xs_dirty_events s
      | Inr out \<Rightarrow> run_statements env stmts 0 (xs_db s) = Inr (dq_rows_affected out, xs_db (snd (?body s))))" for s
    using with_tx_cases [of "xe_space env" "xs_db s" "\<lambda>db. and_then (lock_hlc st) (\<lambda>_. run_statements env stmts 0 db)"]
    by (auto simp: res_simps split: prod.splits sum.splits)
  from with_query_guard_cases [OF guard slots] show ?thesis
  proof (elim conjE disjE exE)
    fix t xs1
    assume kept: "tracker_get_count (xs_slots xs') = tracker_get_count (xs_slots xs)"
      and b: "?body (xs\<lparr>xs_slots := t\<rparr>) = (r, xs1)" "xs_db xs' = xs_db xs1" "xs_dirty_events xs' = xs_dirty_events xs1"
    show ?thesis using tx [of "xs\<lparr>xs_slots := t\<rparr>"] kept c checked unfolding b
      by (auto simp: check_all_ok split: sum.splits)
  qed auto
qed



section \<open>Migrations\<close>

lemma migration_statement_runs:
  assumes parse: "xe_parser env s = Some [p]" "xe_parser env (normalize_sql s) = Some [p]"
      "xe_parser env (normalize_sql (xe_print env p)) = Some [p]"
    and kind: "prefixed_tables (pd_sql p) = None" "\<not> is_query (pd_sql p)" "\<not> is_pragma_statement s"
      "count_sql_placeholders s = Some 0"
    and engine: "se_db_fault (xe_space env) = None" "commit_error (se_sql (xe_space env)) = None" "xe_hlc env = Inr ts"
      "transform_execute_statement ts (pd_crdt p) = Inr (c, tbl)" "\<not> ps_hlc_poisoned st"
      "xe_run env (statement_has_returning (pd_sql p)) (xe_print env p) c [] db = Inr (out, db')"
  shows "validate_migration_statement env ctx s = Inr () \<and> run_migration_statements env st ctx [s] db = (Inr (), db')"
proof -
  have valid: "validate_sql_table_prefix env ctx s = Inr ()"
    using parse kind by (simp add: validate_sql_table_prefix_def parse_single_statement_def db_err_def)
  have run: "run_transformed env (statement_has_returning (pd_sql p)) (xe_print env p) [] db = Inr (out, db')"
    using parse engine by (simp add: run_transformed_def planner_parse_single_def parse_sql_statements_def tx_scoped_hlc_def)
  have plain: "plan_alter db (pd_sql p) = AlterPlain" "extract_create_table_name (pd_sql p) = None"
    using kind(1) by (cases "pd_sql p"; simp add: plan_alter_def extract_create_table_name_def)+
  have "\<exists>o'. execute_body env st p [] db = Inr (o', db')"
    using run engine(5) by (cases "statement_has_returning (pd_sql p)")
      (simp_all add: execute_body_def plain lock_hlc_def query_internal_typed_def execute_internal_typed_def
        after_create_def after_alter_def)
  then have "\<exists>o'. execute_sql_with_context env st ctx s [] db = (Inr o', db')"
    using parse kind engine(1,2) valid
    by (auto simp: execute_sql_with_context_def validate_params_def parse_sql_statements_def db_err_def with_tx_def
        json_values_to_sql_params_def)
  then show ?thesis using valid kind(3) by (auto simp: validate_migration_statement_def)
qed

text \<open>A migration is not bound by the permissions of its extension: a statement that is no CREATE
  TABLE, ALTER TABLE, DROP or CREATE INDEX passes the registration check for every extension,
  whatever tables it touches, and the migration runs it; the permissions are not an input of either
  step.\<close>

theorem migration_statement_unchecked:
  assumes parse: "xe_parser env s = Some [p]" "xe_parser env (normalize_sql s) = Some [p]"
      "xe_parser env (normalize_sql (xe_print env p)) = Some [p]"
    and kind: "prefixed_tables (pd_sql p) = None" "\<not> is_query (pd_sql p)" "\<not> is_pragma_statement s"
      "count_sql_placeholders s = Some 0"
    and engine: "se_db_fault (xe_space env) = None" "commit_error (se_sql (xe_space env)) = None" "xe_hlc env = Inr ts"
      "transform_execute_statement ts (pd_crdt p) = Inr (c, tbl)" "\<not> ps_hlc_poisoned st"
      "xe_run env (statement_has_returning (pd_sql p)) (xe_print env p) c [] db = Inr (out, db')"
  shows "validate_migration_statement env ctx s = Inr () \<and> run_migration_statements env st ctx [s] db = (Inr (), db')"
  using assms by (rule migration_statement_runs)

text \<open>A PRAGMA of a migration outlives the migration: when a later statement fails, the connection
  stays without foreign key checks.\<close>

lemma foreign_keys_stay_off:
  assumes "is_pragma_statement off" "pragma_normalized off = ''PRAGMAFOREIGN_KEYS=OFF''"
    "se_db_fault (xe_space env) = None" "xe_pragma_error env off = None"
    "\<not> is_pragma_statement s" "validate_sql_table_prefix env ctx s = Inl e"
  shows "run_migration_statements env st ctx (off # s # ss) db = (Inl e, db\<lparr>fk_enabled := False\<rparr>)"
  using assms by (simp add: execute_pragma_statement_def is_allowed_pragma_def)

text \<open>The text of the error decides whether a failed statement is taken for an applied one, and it
  contains the SQL: a statement that mentions the words is skipped whatever its error.\<close>

lemma mentioned_error_ignored:
  assumes "contains sql ''duplicate column name''"
  shows "schema_already_applied (execution_error sql reason)"
proof -
  have suffix: "contains b p \<Longrightarrow> contains (a @ b) p" for a b p by (induction a) auto
  have start: "starts_with (a @ b) p" if "starts_with a p" for a b p :: string
    using that append_take_drop_id [of "length p" a] append_eq_conv_conj [of p "drop (length p) a @ b" "a @ b"]
    by (metis append.assoc starts_with_def)
  have prefix: "contains a p \<Longrightarrow> contains (a @ b) p" if "p \<noteq> []" for a b p
    using that by (induction a) (auto dest: start [of _ _ b])
  show ?thesis unfolding schema_already_applied_def execution_error_def
    by (rule disjI1, rule suffix, rule prefix [OF _ assms]) (rule list.distinct)
qed


subsection \<open>What a migration keeps of a table\<close>

definition keeps :: "string \<Rightarrow> crdt_db \<Rightarrow> crdt_db \<Rightarrow> bool" where
  "keeps T db db' \<longleftrightarrow> (\<forall>tb. tables db T = Some tb \<longrightarrow> (\<exists>tb'. tables db' T = Some tb'
     \<and> map cells (rows tb') = map cells (rows tb) \<and> (\<forall>c. has_column c (schema tb) \<longrightarrow> has_column c (schema tb'))))"

lemma keeps_refl [simp]: "keeps T db db"
  by (simp add: keeps_def)

lemma keeps_trans [trans]: "keeps T a b \<Longrightarrow> keeps T b c \<Longrightarrow> keeps T a c"
  unfolding keeps_def by metis

lemma keeps_set_table:
  assumes "tables db t = Some tb" "map cells (rows tb') = map cells (rows tb)"
    "\<And>c. has_column c (schema tb) \<Longrightarrow> has_column c (schema tb')"
  shows "keeps T db (set_table t tb' db)"
  using assms by (simp add: keeps_def set_table_def)

lemma keeps_drop_triggers: "drop_triggers_for_table db t = Inr db' \<Longrightarrow> keeps T db db'"
  by (auto simp: drop_triggers_for_table_def intro!: keeps_set_table split: if_splits option.splits)

lemma keeps_setup_triggers: "keeps T db (snd (setup_triggers_for_table db t))"
  by (auto simp: setup_triggers_for_table_def intro!: keeps_set_table split: sum.splits option.splits)

lemma keeps_ensure_columns: "keeps T db (snd (ensure_crdt_columns db t))"
  by (auto simp: ensure_crdt_columns_def Let_def has_column_def intro!: keeps_set_table split: sum.splits option.splits)

lemma setup_step_Inr: "setup_step r = Inr db \<longleftrightarrow> (\<exists>x. r = (Inr x, db))"
  by (cases r) (auto simp: setup_step_def split: sum.splits)

lemma keeps_ensure_all: "keeps T db (snd (ensure_crdt_columns_and_triggers db t))"
proof -
  obtain r db1 where e: "ensure_crdt_columns db t = (r, db1)" by fastforce
  obtain r2 db2 where s: "setup_triggers_for_table db1 t = (r2, db2)" by fastforce
  have "keeps T db db1" "keeps T db1 db2"
    using keeps_ensure_columns [of T db t] keeps_setup_triggers [of T db1 t] e s by auto
  then show ?thesis using e s keeps_trans
    by (auto simp: ensure_crdt_columns_and_triggers_def split: sum.splits trigger_setup_result.splits)
qed

lemma keeps_fold: "(\<And>x d. keeps T d (f x d)) \<Longrightarrow> keeps T db (fold f xs db)"
  by (induction xs arbitrary: db) (auto intro: keeps_trans)

text \<open>What is asked of SQLite: the statements of a migration leave the table alone.\<close>

definition engine_keeps :: "ext_env \<Rightarrow> string \<Rightarrow> bool" where
  "engine_keeps env T \<longleftrightarrow> (\<forall>ret text s ps db out db'. xe_run env ret text s ps db = Inr (out, db') \<longrightarrow> keeps T db db')"

lemma keeps_run_transformed:
  assumes "engine_keeps env T" "run_transformed env ret sql ps db = Inr (out, db')"
  shows "keeps T db db'"
proof -
  from assms(2) obtain p ts where r: "(case transform_execute_statement ts (pd_crdt p) of
         Inl (UnsupportedStatement e) \<Rightarrow> Inl (execution_error sql e)
       | Inr (s, _) \<Rightarrow>
           (case xe_run env ret (xe_print env p) s ps db of
              Inl e \<Rightarrow> Inl (execution_error (xe_print env p) e)
            | Inr r \<Rightarrow> Inr r)) = Inr (out, db')"
    by (auto simp: run_transformed_def and_then_Inr_iff)
  then obtain s where "xe_run env ret (xe_print env p) s ps db = Inr (out, db')"
    by (cases "transform_execute_statement ts (pd_crdt p)")
      (auto split: transform_error.splits sum.splits)
  then show ?thesis using assms(1) unfolding engine_keeps_def by blast
qed

lemma keeps_after_create: "after_create s db = Inr db' \<Longrightarrow> keeps T db db'"
  by (auto simp: after_create_def res_simps setup_step_Inr split: option.splits if_splits intro: keeps_trans
      dest!: arg_cong [where f = snd]) (metis keeps_ensure_columns keeps_setup_triggers keeps_trans snd_conv)

lemma keeps_after_alter: "after_alter plan db = Inr db' \<Longrightarrow> keeps T db db'"
  by (cases plan) (auto simp: after_alter_def setup_step_Inr, metis keeps_setup_triggers snd_conv)

lemma keeps_execute_body:
  assumes "engine_keeps env T" "execute_body env st p ps db = Inr (out, db')"
  shows "keeps T db db'"
proof (cases "plan_alter db (pd_sql p) = AlterSkip")
  case False
  let ?plan = "plan_alter db (pd_sql p)"
  from assms(2) False obtain db1 db2 db3 where
    s: "(case ?plan of AlterRecreate t \<Rightarrow> drop_triggers_for_table db t | _ \<Rightarrow> Inr db) = Inr db1"
      "(if statement_has_returning (pd_sql p) then query_internal_typed env (xe_print env p) ps db1
        else and_then (execute_internal_typed env (xe_print env p) ps db1) (\<lambda>d. Inr ([], d))) = Inr (out, db2)"
      "after_create (pd_sql p) db2 = Inr db3" "after_alter ?plan db3 = Inr db'"
    by (auto simp: execute_body_def Let_def and_then_Inr_iff)
  have "keeps T db db1" using s(1) by (auto split: alter_plan.splits intro: keeps_drop_triggers)
  also have "keeps T db1 db2" using s(2) keeps_run_transformed [OF assms(1)]
    by (auto simp: query_internal_typed_def execute_internal_typed_def and_then_Inr_iff split: if_splits)
  also have "keeps T db2 db3" using s(3) by (rule keeps_after_create)
  also have "keeps T db3 db'" using s(4) by (rule keeps_after_alter)
  finally show ?thesis .
qed (use assms(2) in \<open>simp add: execute_body_def\<close>)

lemma keeps_with_tx:
  assumes "\<And>x db'. f db = Inr (x, db') \<Longrightarrow> keeps T db db'"
  shows "keeps T db (snd (with_tx env db f))"
  using with_tx_cases [of env db f] assms by (metis keeps_refl prod.collapse)

lemma keeps_execute_sql:
  "engine_keeps env T \<Longrightarrow> keeps T db (snd (execute_sql_with_context env st ctx sql ps db))"
  by (auto simp: execute_sql_with_context_def intro!: keeps_with_tx keeps_execute_body split: sum.splits)

lemma keeps_pragma: "keeps T db (snd (execute_pragma_statement env s db))"
  by (auto simp: execute_pragma_statement_def keeps_def split: option.splits)

lemma keeps_run_migration:
  assumes "engine_keeps env T"
  shows "keeps T db (snd (run_migration_statements env st ctx ss db))"
proof (induction ss arbitrary: db)
  case (Cons s ss)
  obtain r1 db1 where p: "execute_pragma_statement env s db = (r1, db1)" by fastforce
  obtain r2 db2 where x: "execute_sql_with_context env st ctx s [] db = (r2, db2)" by fastforce
  have k: "keeps T db db1" "keeps T db db2"
    using keeps_pragma [of T db env s] keeps_execute_sql [OF assms, of db st ctx s "[]"] p x by auto
  have "keeps T db (snd (run_migration_statements env st ctx ss db1))"
    "keeps T db (snd (run_migration_statements env st ctx ss db2))"
    using keeps_trans [OF k(1) Cons] keeps_trans [OF k(2) Cons] .
  with k show ?case by (simp add: p x split: sum.splits extension_error.splits)
qed simp

lemma keeps_ensure_extension: "keeps T db (snd (ensure_extension_tables_have_crdt env ctx db))"
  by (auto simp: ensure_extension_tables_have_crdt_def Let_def intro!: keeps_with_tx keeps_fold keeps_ensure_all
      split: option.splits)

lemma keeps_execute_migration:
  assumes "engine_keeps env T"
  shows "keeps T db (snd (execute_migration_statements env st ctx sql db))"
proof -
  obtain r1 db1 where m: "run_migration_statements env st ctx (split_migration_statements sql) db = (r1, db1)" by fastforce
  obtain r2 db2 where e: "ensure_extension_tables_have_crdt env ctx db1 = (r2, db2)" by fastforce
  have "keeps T db db1" "keeps T db1 db2"
    using keeps_run_migration [OF assms, of db st ctx] keeps_ensure_extension [of T db1 env ctx] m e by (metis snd_conv)+
  then show ?thesis using m e keeps_trans
    by (auto simp: execute_migration_statements_def Let_def split: sum.splits)
qed


subsection \<open>Each migration once\<close>

text \<open>A row of the local table says that the migration has been applied.\<close>

definition recorded :: "space_env \<Rightarrow> crdt_db \<Rightarrow> sql_value \<Rightarrow> sql_value \<Rightarrow> bool" where
  "recorded env db e n \<longleftrightarrow> (\<exists>tb. tables db TABLE_CRDT_MIGRATIONS = Some tb \<and> (\<exists>c\<in>cells ` set (rows tb).
     (\<exists>e' n'. c ''extension_id'' = Some e' \<and> c ''migration_name'' = Some n' \<and> where_eq env e' e \<and> where_eq env n' n)))"

lemma col_cells: "c \<noteq> HLC_TIMESTAMP_COLUMN \<Longrightarrow> c \<noteq> COLUMN_HLCS_COLUMN \<Longrightarrow>
    col env r c = (case cells r c of None \<Rightarrow> SNull | Some v \<Rightarrow> v)"
  by (simp add: cell_def)

lemmas migration_cols = col_cells [of "''extension_id''"] col_cells [of "''migration_name''"] col_cells [of "''sql_statement''"]

lemma applied_recorded:
  assumes "tables db TABLE_CRDT_MIGRATIONS = Some tb"
  shows "applied_locally env (rows tb) m \<longleftrightarrow> recorded env db (col env m ''extension_id'') (col env m ''migration_name'')"
  using assms by (auto simp: applied_locally_def recorded_def list_ex_iff migration_cols clock_names where_eq_def
      split: option.splits) blast+

lemma recorded_kept: "recorded env db e n \<Longrightarrow> keeps TABLE_CRDT_MIGRATIONS db db' \<Longrightarrow> recorded env db' e n"
  unfolding recorded_def keeps_def by (metis (no_types) image_set)

text \<open>What is asked of SQLite: equality is an equivalence and the only constraint that an insert into
  the local table can violate is the unique index on extension and name.\<close>

definition migration_engine :: "ext_env \<Rightarrow> bool" where
  "migration_engine env \<longleftrightarrow> equivp (sql_eq (se_sql (xe_space env)))
     \<and> (\<forall>tb ps v. insert_violation (se_sql (xe_space env)) TABLE_CRDT_MIGRATIONS tb ps = Some v \<longrightarrow>
          (\<exists>c\<in>cells ` set (rows tb). \<exists>e n. c ''extension_id'' = Some e \<and> c ''migration_name'' = Some n
             \<and> e \<noteq> SNull \<and> n \<noteq> SNull
             \<and> (\<exists>e' n'. map_of ps ''extension_id'' = Some e' \<and> map_of ps ''migration_name'' = Some n'
                  \<and> sql_eq (se_sql (xe_space env)) e e' \<and> sql_eq (se_sql (xe_space env)) n n')))
     \<and> engine_keeps env TABLE_CRDT_MIGRATIONS \<and> engine_keeps env TABLE_EXTENSION_MIGRATIONS"

lemma record_applied_effect:
  assumes "migration_engine env" "record_applied env i ext nm sql db = Inr db'"
  shows "recorded (xe_space env) db' (SText ext) (SText nm)
    \<and> (\<forall>e n. recorded (xe_space env) db e n \<longrightarrow> recorded (xe_space env) db' e n)
    \<and> tables db' TABLE_EXTENSION_MIGRATIONS = tables db TABLE_EXTENSION_MIGRATIONS
    \<and> (\<forall>tb. tables db TABLE_CRDT_MIGRATIONS = Some tb \<longrightarrow>
         (\<exists>tb'. tables db' TABLE_CRDT_MIGRATIONS = Some tb' \<and> schema tb' = schema tb))"
proof -
  let ?se = "xe_space env"
  let ?ps = "[(''id'', SText i), (''extension_id'', SText ext), (''migration_name'', SText nm),
        (''migration_content'', SText sql), (''applied_at'', SText (xe_now env))]"
  from assms(2) obtain tb where tb: "tables db TABLE_CRDT_MIGRATIONS = Some tb"
    by (auto simp: record_applied_def local_insert_or_ignore_def and_then_Inr_iff open_table_Inr)
  have refl: "sql_eq (se_sql ?se) a a" for a using assms(1) by (simp add: migration_engine_def equivp_reflp)
  show ?thesis
  proof (cases "insert_violation (se_sql ?se) TABLE_CRDT_MIGRATIONS tb ?ps")
    case None
    then have "tables db' = (tables db)(TABLE_CRDT_MIGRATIONS \<mapsto> tb\<lparr>rows := rows tb
        @ [\<lparr>cells = map_of ?ps, row_hlc = None, column_hlcs = Map.empty\<rparr>]\<rparr>)"
      using assms(2) tb by (auto simp: record_applied_def local_insert_or_ignore_def and_then_Inr_iff open_table_Inr set_table_def)
    then show ?thesis using tb refl
      by (auto simp: recorded_def where_eq_def TABLE_CRDT_MIGRATIONS_def TABLE_EXTENSION_MIGRATIONS_def)
  next
    case (Some v)
    then have same: "db' = db"
      using assms(2) tb by (auto simp: record_applied_def local_insert_or_ignore_def and_then_Inr_iff open_table_Inr)
    have "recorded ?se db (SText ext) (SText nm)"
      using assms(1) Some tb unfolding migration_engine_def recorded_def where_eq_def by fastforce
    then show ?thesis using same tb by blast
  qed
qed

lemma recorded_eq:
  assumes "migration_engine env" "recorded (xe_space env) db e n" "where_eq (xe_space env) e2 e"
  shows "recorded (xe_space env) db e2 n"
proof -
  have "where_eq (xe_space env) e' e2" if "where_eq (xe_space env) e' e" for e'
    using that assms(1,3) unfolding migration_engine_def where_eq_def by (metis equivp_symp equivp_transp)
  then show ?thesis using assms(2) unfolding recorded_def by blast
qed

definition keeps_columns :: "string \<Rightarrow> crdt_db \<Rightarrow> crdt_db \<Rightarrow> bool" where
  "keeps_columns T db db' \<longleftrightarrow> (\<forall>tb. tables db T = Some tb \<longrightarrow>
     (\<exists>tb'. tables db' T = Some tb' \<and> (\<forall>c. has_column c (schema tb) \<longrightarrow> has_column c (schema tb'))))"

lemma apply_migrations_effect:
  assumes "migration_engine env" "apply_migrations env st ids ms db = (nms, Inr (), db')"
  shows "nms = map (\<lambda>(_, _, nm, _). nm) ms \<and> keeps TABLE_EXTENSION_MIGRATIONS db db'
    \<and> keeps_columns TABLE_CRDT_MIGRATIONS db db'
    \<and> (\<forall>e n. recorded (xe_space env) db e n \<longrightarrow> recorded (xe_space env) db' e n)
    \<and> (\<forall>(ctx, ext, nm, sql)\<in>set ms. recorded (xe_space env) db' (SText ext) (SText nm))"
  using assms(2)
proof (induction ms arbitrary: ids db nms)
  case Nil
  then show ?case by (auto simp: keeps_columns_def)
next
  case (Cons x ms)
  obtain ctx ext nm sql where x: "x = (ctx, ext, nm, sql)" by (cases x)
  from Cons.prems obtain k db1 db2 nms' where
    ex: "execute_migration_statements env st ctx sql db = (Inr k, db1)" and
    rec: "record_applied env (ids 0) ext nm sql db1 = Inr db2" and
    rest: "apply_migrations env st (\<lambda>n. ids (Suc n)) ms db2 = (nms', Inr (), db')" and nms: "nms = nm # nms'"
    by (auto simp: x db_err_def split: prod.splits sum.splits)
  have eng: "engine_keeps env TABLE_CRDT_MIGRATIONS" "engine_keeps env TABLE_EXTENSION_MIGRATIONS"
    using assms(1) by (simp_all add: migration_engine_def)
  have k1: "keeps TABLE_CRDT_MIGRATIONS db db1" "keeps TABLE_EXTENSION_MIGRATIONS db db1"
    using keeps_execute_migration [OF eng(1), of db st ctx sql] keeps_execute_migration [OF eng(2), of db st ctx sql] ex
    by simp_all
  note eff = record_applied_effect [OF assms(1) rec]
  note IH = Cons.IH [OF rest]
  have "keeps TABLE_EXTENSION_MIGRATIONS db1 db2" using eff by (auto simp: keeps_def)
  then have "keeps TABLE_EXTENSION_MIGRATIONS db db'" using k1(2) IH keeps_trans by blast
  moreover have "keeps_columns TABLE_CRDT_MIGRATIONS db db'"
    using k1(1) eff IH unfolding keeps_def keeps_columns_def by metis
  moreover have "recorded (xe_space env) db e n \<Longrightarrow> recorded (xe_space env) db' e n" for e n
    using recorded_kept [OF _ k1(1)] eff IH by blast
  moreover have "recorded (xe_space env) db' (SText ext) (SText nm)" using eff IH by blast
  ultimately show ?case using IH nms by (simp add: x)
qed

lemma collect_results_Inr: "collect_results rs = Inr xs \<longleftrightarrow> rs = map Inr xs"
  by (induction rs arbitrary: xs) (auto simp: res_simps Cons_eq_map_conv)

lemma pending_Inr:
  assumes "pending_migrations env db ext = Inr ps"
  obtains tb tc where "se_db_fault (xe_space env) = None"
    "tables db TABLE_EXTENSION_MIGRATIONS = Some tb" "tables db TABLE_CRDT_MIGRATIONS = Some tc"
    "\<forall>c\<in>{''extension_id'', ''migration_name'', ''sql_statement''}. has_column c (schema tb)"
    "\<forall>c\<in>{''extension_id'', ''migration_name''}. has_column c (schema tc)"
    "\<forall>m\<in>set (rows tb). where_eq (xe_space env) (col (xe_space env) m ''extension_id'') (SText ext)
       \<longrightarrow> recorded (xe_space env) db (col (xe_space env) m ''extension_id'') (col (xe_space env) m ''migration_name'')
         \<or> (\<exists>n sql. (n, sql) \<in> set ps \<and> col (xe_space env) m ''migration_name'' = SText n)"
proof -
  let ?se = "xe_space env"
  from assms obtain ms rs xs where r: "table_rows ?se db TABLE_EXTENSION_MIGRATIONS [''extension_id'', ''migration_name'', ''sql_statement''] = Inr ms"
      "table_rows ?se db TABLE_CRDT_MIGRATIONS [''extension_id'', ''migration_name''] = Inr rs"
    and xs: "map (\<lambda>m. and_then (get_text (col ?se m ''migration_name'')) (\<lambda>n.
             and_then (get_text (col ?se m ''sql_statement'')) (\<lambda>s. Inr (n, s))))
           (filter (\<lambda>m. where_eq ?se (col ?se m ''extension_id'') (SText ext) \<and> \<not> applied_locally ?se rs m) ms) = map Inr xs"
      "ps = sort_key fst xs"
    by (auto simp: pending_migrations_def Let_def res_simps collect_results_Inr)
  from r obtain tb tc where t: "tables db TABLE_EXTENSION_MIGRATIONS = Some tb" "tables db TABLE_CRDT_MIGRATIONS = Some tc"
    "ms = rows tb" "rs = rows tc" "se_db_fault ?se = None"
    "\<forall>c\<in>{''extension_id'', ''migration_name'', ''sql_statement''}. has_column c (schema tb)"
    "\<forall>c\<in>{''extension_id'', ''migration_name''}. has_column c (schema tc)"
    by (auto simp: table_rows_def split: option.splits list.splits if_splits)
  have "\<exists>n sql. (n, sql) \<in> set ps \<and> col ?se m ''migration_name'' = SText n"
    if m: "m \<in> set ms" "where_eq ?se (col ?se m ''extension_id'') (SText ext)" "\<not> applied_locally ?se rs m" for m
  proof -
    have "and_then (get_text (col ?se m ''migration_name'')) (\<lambda>n.
        and_then (get_text (col ?se m ''sql_statement'')) (\<lambda>s. Inr (n, s))) \<in> set (map Inr xs)"
      unfolding xs(1) [symmetric] using m by auto
    then show ?thesis using xs(2) by (cases "col ?se m ''migration_name''") (auto simp: res_simps)
  qed
  with t applied_recorded [OF t(2), of ?se] show thesis by (intro that [of tb tc]) blast+
qed

lemma pending_empty:
  assumes eng: "migration_engine env" and p: "pending_migrations env db ext = Inr ps"
    and k: "keeps TABLE_EXTENSION_MIGRATIONS db db'" "keeps_columns TABLE_CRDT_MIGRATIONS db db'"
      "\<And>e n. recorded (xe_space env) db e n \<Longrightarrow> recorded (xe_space env) db' e n"
      "\<And>n sql. (n, sql) \<in> set ps \<Longrightarrow> recorded (xe_space env) db' (SText ext) (SText n)"
  shows "pending_migrations env db' ext = Inr []"
proof -
  let ?se = "xe_space env"
  from pending_Inr [OF p] obtain tb tc where t: "se_db_fault ?se = None"
    "tables db TABLE_EXTENSION_MIGRATIONS = Some tb" "tables db TABLE_CRDT_MIGRATIONS = Some tc"
    "\<forall>c\<in>{''extension_id'', ''migration_name'', ''sql_statement''}. has_column c (schema tb)"
    "\<forall>c\<in>{''extension_id'', ''migration_name''}. has_column c (schema tc)" and
    cov: "\<forall>m\<in>set (rows tb). where_eq ?se (col ?se m ''extension_id'') (SText ext)
       \<longrightarrow> recorded ?se db (col ?se m ''extension_id'') (col ?se m ''migration_name'')
         \<or> (\<exists>n sql. (n, sql) \<in> set ps \<and> col ?se m ''migration_name'' = SText n)" by blast
  from k(1) t(2) obtain tb' where tb': "tables db' TABLE_EXTENSION_MIGRATIONS = Some tb'"
    "map cells (rows tb') = map cells (rows tb)" "\<And>c. has_column c (schema tb) \<Longrightarrow> has_column c (schema tb')"
    unfolding keeps_def by blast
  from k(2) t(3) obtain tc' where tc': "tables db' TABLE_CRDT_MIGRATIONS = Some tc'"
    "\<And>c. has_column c (schema tc) \<Longrightarrow> has_column c (schema tc')"
    unfolding keeps_columns_def by blast
  have "applied_locally ?se (rows tc') m'"
    if m': "m' \<in> set (rows tb')" "where_eq ?se (col ?se m' ''extension_id'') (SText ext)" for m'
  proof -
    have "cells m' \<in> set (map cells (rows tb))" unfolding tb'(2) [symmetric] using m'(1) by simp
    then obtain m where m: "m \<in> set (rows tb)" "cells m' = cells m" by auto
    then have cols: "col ?se m' ''extension_id'' = col ?se m ''extension_id''" "col ?se m' ''migration_name'' = col ?se m ''migration_name''"
      by (simp_all add: migration_cols clock_names)
    have "recorded ?se db' (col ?se m ''extension_id'') (col ?se m ''migration_name'')"
    proof (cases "recorded ?se db (col ?se m ''extension_id'') (col ?se m ''migration_name'')")
      case False
      then obtain n sql where n: "(n, sql) \<in> set ps" "col ?se m ''migration_name'' = SText n"
        using cov m(1) m'(2) unfolding cols by blast
      show ?thesis unfolding n(2) using recorded_eq [OF eng k(4) [OF n(1)]] m'(2) unfolding cols by blast
    qed (rule k(3))
    then show ?thesis using applied_recorded [OF tc'(1)] unfolding cols [symmetric] by blast
  qed
  then have "filter (\<lambda>m. where_eq ?se (col ?se m ''extension_id'') (SText ext) \<and> \<not> applied_locally ?se (rows tc') m) (rows tb') = []"
    by (auto simp: filter_empty_conv)
  then show ?thesis using t tb' tc' by (simp add: pending_migrations_def table_rows_def)
qed



section \<open>Removing the tables of an extension\<close>

lemma sql_like_any: "sql_like ''%'' s"
  by (induction s) auto

lemma sql_like_percent: "sql_like p s \<Longrightarrow> sql_like (CHR ''%'' # p) s"
  by (cases s) auto

lemma sql_like_prefix: "sql_like (p @ ''%'') (p @ s)"
  by (induction p) (auto simp: sql_like_any sql_like_percent)

lemma own_table_discovered: "starts_with t p \<Longrightarrow> sql_like (p @ ''%'') t"
  using sql_like_prefix [of p "drop (length p) t"] append_take_drop_id [of "length p" t] by (simp add: starts_with_def)

text \<open>The pattern is not escaped: an underscore in the name of an extension stands for any character,
  so the tables of another extension of the same publisher are taken along.\<close>

lemma discovery_takes_other_tables:
  "sql_like (get_extension_table_prefix ''ab'' ''a_b'' @ ''%'') (get_extension_table_prefix ''ab'' ''axb'' @ ''notes'')
   \<and> \<not> is_extension_table (get_extension_table_prefix ''ab'' ''axb'' @ ''notes'') ''ab'' ''a_b''"
  by code_simp

text \<open>When the tables of an extension are dropped, none of its tables is left, and no dirty-table
  entry names one of them.\<close>

theorem drop_removes_own_tables:
  assumes names: "\<And>d. tables d = tables db \<Longrightarrow> set (xe_table_names env d) = dom (tables db)"
    and run: "drop_extension_tables env drop_error pk nm db = Inr (ts, db')"
    and own: "is_extension_table t pk nm"
  shows "tables db' t = None \<and> t \<notin> fst ` set (dirty_tables db')"
proof -
  let ?p = "get_extension_table_prefix pk nm @ ''%''"
  let ?db1 = "db\<lparr>dirty_tables := filter (\<lambda>(t, _). \<not> sql_like ?p t) (dirty_tables db)\<rparr>"
  have like: "sql_like ?p t" using own by (simp add: is_extension_table_def own_table_discovered)
  have "ts = filter (sql_like ?p) (xe_table_names env ?db1)" "db' = ?db1\<lparr>tables := tables ?db1 |` (- set ts)\<rparr>"
    using run by (auto simp: drop_extension_tables_def Let_def split: list.splits)
  then show ?thesis using like names [of ?db1] by (auto simp: restrict_map_def)
qed



section \<open>Instances\<close>

text \<open>A text with two queries, of which the second reads a system table, and a migration that deletes
  from one.\<close>

definition free_select :: parsed where
  "free_select = \<lparr>pd_sql = StQuery (SqlTables.Query [] (SeSelect (Select [EValue ''1''] [] None [] None)) []),
     pd_crdt = CrdtTransform.Query ''SELECT 1''\<rparr>"

definition secret_select :: parsed where
  "secret_select = \<lparr>pd_sql = StQuery (plain_select ''haex_vault'' None), pd_crdt = CrdtTransform.Query ''S''\<rparr>"

definition system_delete :: parsed where
  "system_delete = \<lparr>pd_sql = StDelete [TableWithJoins (TfTable ''haex_vault'') []] [] None None, pd_crdt = Delete ''D''\<rparr>"

definition demo_env :: ext_env where
  "demo_env = \<lparr>xe_space = sample_space_env, xe_defaults = default_limits_default, xe_constraints = (\<lambda>_. None),
     xe_parser = (\<lambda>s. if s = ''1;S'' then Some [free_select, secret_select] else if s = ''D'' then Some [system_delete] else None),
     xe_print = (\<lambda>p. if p = system_delete then ''D'' else ''S''), xe_hlc = Inr ''9/1'',
     xe_run = (\<lambda>_ _ _ _ db. Inr ([], db\<lparr>dirty_tables := [(''haex_vault'', ''t'')]\<rparr>)),
     xe_select = (\<lambda>text _ _. Inr [Inr [JString text]]), xe_pragma_error = (\<lambda>_. None),
     xe_table_names = (\<lambda>_. []), xe_now = ''t''\<rparr>"

definition demo_db :: crdt_db where
  "demo_db = limits_db\<lparr>tables := (tables limits_db)
     (TABLE_EXTENSION_MIGRATIONS \<mapsto> plain_table [''extension_id'', ''extension_version'', ''migration_name'', ''sql_statement''] [],
      TABLE_CRDT_MIGRATIONS \<mapsto> plain_table [''extension_id'', ''migration_name'', ''migration_content'', ''applied_at''] [])\<rparr>"

definition demo_state :: ext_state where
  "demo_state = \<lparr>xs_db = demo_db, xs_slots = Map.empty, xs_dirty_events = 0, xs_ready = []\<rparr>"

lemma demo_tables:
  "tables (xs_db demo_state) LIMITS_TABLE = Some (plain_table
     [''extension_id'', ''query_timeout_ms'', ''max_result_rows'', ''max_concurrent_queries'', ''max_query_size_bytes'',
      ''created_at'', ''updated_at''] [])"
  "has_column c (schema (plain_table cs rs)) \<longleftrightarrow> c \<in> set (''id'' # cs @ [HLC_TIMESTAMP_COLUMN, COLUMN_HLCS_COLUMN])"
  by (auto simp: demo_state_def demo_db_def limits_db_def has_column_def plain_table_def data_cols_def
      LIMITS_TABLE_def TABLE_CRDT_MIGRATIONS_def TABLE_EXTENSION_MIGRATIONS_def)

lemma demo_rows: "rows (plain_table cs rs) = rs"
  by (simp add: plain_table_def)

lemma demo_limits:
  "caller_limits demo_env limits_perms ''w'' (Some ''k'') (Some ''n'') (xs_db demo_state) =
     Inr (''e'', \<lparr>mf_public_key = ''k'', mf_name = ''n''\<rparr>, database_limits_default)"
  by (simp add: caller_limits_def resolve_extension_id_def known_or_error_def limits_perms_def get_extension_def
      find_extension_id_by_public_key_and_name_def get_limits_def table_rows_def demo_tables LIMIT_COLUMNS_def
      limit_rows_of_def first_row_def demo_rows extension_limits_from_defaults_def db_err_def demo_env_def default_limits_default_def
      sample_space_env_def)

lemma demo_slot: "\<exists>t. acquire_query_slot (xs_slots demo_state) ''e'' database_limits_default = Inr t"
  by (simp add: acquire_query_slot_def tracker_get_count_def demo_state_def database_limits_default_def)

theorem query_checks_first_runs_last_witness:
  "fst (extension_database_query demo_env limits_perms ''w'' ''1;S'' [] (Some ''k'') (Some ''n'') demo_state) =
     Inr \<lparr>dq_rows = [[JString ''S'']], dq_rows_affected = 0, dq_last_insert_id = None\<rparr>"
proof -
  obtain t where t: "acquire_query_slot (xs_slots demo_state) ''e'' database_limits_default = Inr t"
    using demo_slot by blast
  have sz: "validate_query_size ''1;S'' database_limits_default = Inr ()"
    by (simp add: validate_query_size_def database_limits_default_def)
  have norm: "normalize_sql ''1;S'' = ''1;S''" by code_simp
  have parse: "xe_parser demo_env ''1;S'' = Some [free_select, secret_select]"
    "xe_parser demo_env (normalize_sql ''1;S'') = Some [free_select, secret_select]"
    unfolding norm by (simp_all add: demo_env_def)
  have ph: "count_sql_placeholders ''1;S'' = Some (length ([] :: json list))"
    unfolding count_sql_placeholders_scan by code_simp
  have sel: "select_rows demo_env (Some (sint (max_result_rows database_limits_default))) (xe_print demo_env secret_select) []
      (xs_db demo_state) = Inr [[JString ''S'']]"
    by (simp add: select_rows_def demo_env_def sample_space_env_def db_err_def database_limits_default_def secret_select_def
        system_delete_def)
  show ?thesis
    using query_checks_first_runs_last [OF demo_limits sz t parse _ _ _ ph, of
        "SqlTables.Query [] (SeSelect (Select [EValue ''1''] [] None [] None)) []" "plain_select ''haex_vault'' None"]
    unfolding sel by (simp add: free_select_def secret_select_def)
qed

theorem query_bounded_and_read_only_witness:
  "xs_db (snd (extension_database_query demo_env limits_perms ''w'' ''1;S'' [] (Some ''k'') (Some ''n'') demo_state)) = demo_db"
  by (simp add: query_bounded_and_read_only [OF prod.collapse [symmetric]] demo_state_def)

theorem transaction_all_or_nothing_witness:
  "xs_db (snd (extension_database_transaction demo_env limits_perms ''w'' [(''X'', [])] (Some ''k'') (Some ''n'') demo_state)) = demo_db"
proof -
  obtain r xs' where run: "extension_database_transaction demo_env limits_perms ''w'' [(''X'', [])] (Some ''k'') (Some ''n'') demo_state
      = (r, xs')" by fastforce
  have "check_statement demo_env limits_perms ''e'' \<lparr>mf_public_key = ''k'', mf_name = ''n''\<rparr> database_limits_default ''X'' \<noteq> Inr ()"
    by (auto simp: check_statement_def validate_sql_table_prefix_def parse_single_statement_def res_simps demo_env_def)
  then have "xs_db xs' = xs_db demo_state"
    using transaction_all_or_nothing [OF run] demo_limits by (auto split: sum.splits)
  then show ?thesis unfolding run by (simp add: demo_state_def)
qed

lemma demo_facts:
  "normalize_sql ''D'' = ''D''" "\<not> is_pragma_statement ''D''" "count_sql_placeholders ''D'' = Some 0"
  "split_migration_statements ''D'' = [''D'']"
  unfolding count_sql_placeholders_scan by code_simp+

theorem migration_statement_unchecked_witness:
  "validate_migration_statement demo_env \<lparr>cx_public_key = ''k'', cx_name = ''n''\<rparr> ''D'' = Inr ()
   \<and> run_migration_statements demo_env limits_perms \<lparr>cx_public_key = ''k'', cx_name = ''n''\<rparr> [''D''] demo_db
       = (Inr (), demo_db\<lparr>dirty_tables := [(''haex_vault'', ''t'')]\<rparr>)"
  by (rule migration_statement_unchecked [where p = system_delete and ts = "''9/1''" and c = "Delete ''D''" and out = "[]" and tbl = None])
    (simp_all add: demo_facts demo_env_def system_delete_def sample_space_env_def sample_engine_def limits_perms_def)

theorem drop_removes_own_tables_witness:
  "\<exists>db'. drop_extension_tables (demo_env\<lparr>xe_table_names := (\<lambda>d. [''k__n__a''])\<rparr>) (\<lambda>_. None) ''k'' ''n''
       (demo_db\<lparr>tables := [''k__n__a'' \<mapsto> plain_table [] []]\<rparr>) = Inr ([''k__n__a''], db') \<and> tables db' ''k__n__a'' = None"
proof -
  let ?env = "demo_env\<lparr>xe_table_names := (\<lambda>d. [''k__n__a''])\<rparr>"
  let ?db = "demo_db\<lparr>tables := [''k__n__a'' \<mapsto> plain_table [] []]\<rparr>"
  have like: "sql_like (get_extension_table_prefix ''k'' ''n'' @ ''%'') ''k__n__a''" "is_extension_table ''k__n__a'' ''k'' ''n''"
    by code_simp+
  obtain db' where run: "drop_extension_tables ?env (\<lambda>_. None) ''k'' ''n'' ?db = Inr ([''k__n__a''], db')"
    using like by (simp add: drop_extension_tables_def Let_def)
  have "tables db' ''k__n__a'' = None" using drop_removes_own_tables [OF _ run like(2)] by simp
  with run show ?thesis by blast
qed

lemma demo_migration_engine: "migration_engine demo_env"
  by (auto simp: migration_engine_def demo_env_def sample_space_env_def sample_engine_def engine_keeps_def keeps_def
      identity_equivp)

definition pending_db :: crdt_db where
  "pending_db = demo_db\<lparr>tables := (tables demo_db)(TABLE_EXTENSION_MIGRATIONS \<mapsto>
     plain_table [''extension_id'', ''extension_version'', ''migration_name'', ''sql_statement'']
       [plain_row [(''id'', ''i''), (''extension_id'', ''e''), (''migration_name'', ''m''), (''sql_statement'', ''D'')]])\<rparr>"

lemma demo_run:
  "run_migration_statements demo_env limits_perms ctx [''D''] db = (Inr (), db\<lparr>dirty_tables := [(''haex_vault'', ''t'')]\<rparr>)"
  by (rule conjunct2 [OF migration_statement_runs [where p = system_delete and ts = "''9/1''" and c = "Delete ''D''"
        and out = "[]" and tbl = None]])
    (simp_all add: demo_facts demo_env_def system_delete_def sample_space_env_def sample_engine_def limits_perms_def)

lemma demo_pending:
  "pending_migrations demo_env pending_db ''e'' = Inr [(''m'', ''D'')]" "count_applied_migrations demo_env pending_db ''e'' = Inr 0"
  by (simp_all add: pending_migrations_def count_applied_migrations_def table_rows_def pending_db_def demo_db_def demo_tables demo_rows
      Let_def where_eq_def applied_locally_def plain_row_def cell_def clock_names demo_env_def sample_space_env_def sample_engine_def
      TABLE_CRDT_MIGRATIONS_def TABLE_EXTENSION_MIGRATIONS_def)

lemma demo_recorded:
  "\<exists>db'. record_applied demo_env ''j'' ''e'' ''m'' ''D'' (pending_db\<lparr>dirty_tables := [(''haex_vault'', ''t'')]\<rparr>) = Inr db'"
  by (simp add: record_applied_def local_insert_or_ignore_def open_table_def table_rows_def demo_env_def sample_space_env_def
      sample_engine_def pending_db_def demo_db_def plain_table_def data_cols_def has_column_def TABLE_CRDT_MIGRATIONS_def
      TABLE_EXTENSION_MIGRATIONS_def)

lemma demo_registration:
  "\<exists>r xs'. extension_database_register_migrations demo_env limits_perms ''w'' (\<lambda>_. ''i'') (\<lambda>_. ''j'') ''1'' [] (Some ''k'') (Some ''n'')
     (demo_state\<lparr>xs_db := pending_db\<rparr>) = (Inr r, xs') \<and> mr_applied_migrations r = [''m'']"
proof -
  have who: "resolve_extension_id limits_perms ''w'' (Some ''k'') (Some ''n'') = Inr ''e''"
    "known_or_error limits_perms ''e'' = Inr \<lparr>mf_public_key = ''k'', mf_name = ''n''\<rparr>" by code_simp+
  have ens: "ensure_extension_tables_have_crdt demo_env ctx db = (Inr (), db)" for ctx db
    by (simp add: ensure_extension_tables_have_crdt_def discover_extension_tables_def demo_env_def sample_space_env_def)
  obtain db' where rec: "record_applied demo_env ''j'' ''e'' ''m'' ''D'' (pending_db\<lparr>dirty_tables := [(''haex_vault'', ''t'')]\<rparr>) = Inr db'"
    using demo_recorded by blast
  show ?thesis
    by (simp add: extension_database_register_migrations_def who demo_pending db_err_def execute_migration_statements_def
        demo_facts demo_run ens rec del: run_migration_statements.simps)
qed


end
