(* ===== verification/PeerProtocol.thy ===== *)
theory PeerProtocol
  imports QuicRetry FileSyncDiff
begin

text \<open>
  The file protocol between peers: its messages and their wire format
  (\<open>peer_storage/protocol.rs\<close>) and the transfer loops (\<open>peer_storage/streaming.rs\<close>).  The JSON
  text of a value is serde's (\<open>ucan_env\<close>); the derived encoders and decoders are written
  out.  A receive stream is the list of its reads, the end of the list being the end of
  the stream.
\<close>

section \<open>Messages\<close>

datatype peer_request =
    ReqList string string
  | ReqStat string string
  | ReqRead string "(64 word \<times> 64 word) option" string
  | ReqManifest string string
  | ReqWrite string "64 word" string
  | ReqDelete string bool string
  | ReqCreateDirectory string string

fun ucan_token_of :: "peer_request \<Rightarrow> string" where
  "ucan_token_of (ReqList path ucan_token) = ucan_token"
| "ucan_token_of (ReqStat path ucan_token) = ucan_token"
| "ucan_token_of (ReqRead path rng ucan_token) = ucan_token"
| "ucan_token_of (ReqManifest path ucan_token) = ucan_token"
| "ucan_token_of (ReqWrite path sz ucan_token) = ucan_token"
| "ucan_token_of (ReqDelete path to_trash ucan_token) = ucan_token"
| "ucan_token_of (ReqCreateDirectory path ucan_token) = ucan_token"

fun request_path :: "peer_request \<Rightarrow> string" where
  "request_path (ReqList path ucan_token) = path"
| "request_path (ReqStat path ucan_token) = path"
| "request_path (ReqRead path rng ucan_token) = path"
| "request_path (ReqManifest path ucan_token) = path"
| "request_path (ReqWrite path sz ucan_token) = path"
| "request_path (ReqDelete path to_trash ucan_token) = path"
| "request_path (ReqCreateDirectory path ucan_token) = path"

fun requires_write :: "peer_request \<Rightarrow> bool" where
  "requires_write (ReqWrite path sz ucan_token) = True"
| "requires_write (ReqDelete path to_trash ucan_token) = True"
| "requires_write (ReqCreateDirectory path ucan_token) = True"
| "requires_write _ = False"

record file_entry =
  en_name :: string
  en_size :: nat
  en_is_dir :: bool
  en_modified :: "nat option"

datatype peer_response =
    RespList "file_entry list"
  | RespStat file_entry
  | RespReadHeader "64 word"
  | RespManifest "file_state list"
  | RespWriteOk
  | RespDeleteOk
  | RespCreateDirectoryOk
  | RespError string

definition MAX_REQUEST_SIZE :: nat where "MAX_REQUEST_SIZE = 1024 * 1024"
definition MAX_RESPONSE_META_SIZE :: nat where "MAX_RESPONSE_META_SIZE = 10 * 1024 * 1024"


section \<open>Wire format\<close>

definition ju64 :: "64 word \<Rightarrow> json" where "ju64 w = JInt (uint w)"

fun u64_of_json :: "json \<Rightarrow> 64 word option" where
  "u64_of_json (JInt i) = (if 0 \<le> i \<and> i < 2 ^ 64 then Some (of_int i) else None)"
| "u64_of_json _ = None"

definition jrange :: "64 word \<times> 64 word \<Rightarrow> json" where
  "jrange r = JArray [ju64 (fst r), ju64 (snd r)]"

fun range_of_json :: "json \<Rightarrow> (64 word \<times> 64 word) option option" where
  "range_of_json JNull = Some None"
| "range_of_json (JArray [a, b]) =
     (case (u64_of_json a, u64_of_json b) of (Some x, Some y) \<Rightarrow> Some (Some (x, y)) | _ \<Rightarrow> None)"
| "range_of_json _ = None"

text \<open>\<open>#[serde(tag = "op", rename_all = "SCREAMING_SNAKE_CASE")]\<close>, an absent range being skipped.\<close>

fun request_to_json :: "peer_request \<Rightarrow> json" where
  "request_to_json (ReqList path ucan_token) =
     JObject [(''op'', JString ''LIST''), (''path'', JString path), (''ucan_token'', JString ucan_token)]"
| "request_to_json (ReqStat path ucan_token) =
     JObject [(''op'', JString ''STAT''), (''path'', JString path), (''ucan_token'', JString ucan_token)]"
| "request_to_json (ReqRead path rng ucan_token) =
     JObject ([(''op'', JString ''READ''), (''path'', JString path)]
       @ (case rng of None \<Rightarrow> [] | Some r \<Rightarrow> [(''range'', jrange r)]) @ [(''ucan_token'', JString ucan_token)])"
| "request_to_json (ReqManifest path ucan_token) =
     JObject [(''op'', JString ''MANIFEST''), (''path'', JString path), (''ucan_token'', JString ucan_token)]"
| "request_to_json (ReqWrite path sz ucan_token) =
     JObject [(''op'', JString ''WRITE''), (''path'', JString path), (''size'', ju64 sz), (''ucan_token'', JString ucan_token)]"
| "request_to_json (ReqDelete path to_trash ucan_token) =
     JObject [(''op'', JString ''DELETE''), (''path'', JString path), (''to_trash'', JBool to_trash), (''ucan_token'', JString ucan_token)]"
| "request_to_json (ReqCreateDirectory path ucan_token) =
     JObject [(''op'', JString ''CREATE_DIRECTORY''), (''path'', JString path), (''ucan_token'', JString ucan_token)]"

definition tagged_fields :: "string \<Rightarrow> json \<Rightarrow> (string \<times> json) option" where
  "tagged_fields tag j =
     (case j of
        JObject kvs \<Rightarrow>
          (case json_field kvs tag of Some (JString t) \<Rightarrow> Some (t, JObject (filter (\<lambda>kv. fst kv \<noteq> tag) kvs)) | _ \<Rightarrow> None)
      | JArray (JString t # vs) \<Rightarrow> Some (t, JArray vs)
      | _ \<Rightarrow> None)"

definition with_default :: "string \<Rightarrow> json \<Rightarrow> json" where
  "with_default k j =
     (case j of JObject kvs \<Rightarrow> (if k \<in> fst ` set kvs then j else JObject (kvs @ [(k, JNull)])) | _ \<Rightarrow> j)"

definition request_from_json :: "json \<Rightarrow> (string, peer_request) result" where
  "request_from_json j = ok_or ''invalid request''
     (case tagged_fields ''op'' j of
        None \<Rightarrow> None
      | Some (op, body) \<Rightarrow>
          if op = ''READ'' then
            (case struct_fields [''path'', ''range'', ''ucan_token''] (with_default ''range'' body) of
               Some [JString p, r, JString t] \<Rightarrow> map_option (\<lambda>rng. ReqRead p rng t) (range_of_json r)
             | _ \<Rightarrow> None)
          else if op = ''WRITE'' then
            (case struct_fields [''path'', ''size'', ''ucan_token''] body of
               Some [JString p, n, JString t] \<Rightarrow> map_option (\<lambda>sz. ReqWrite p sz t) (u64_of_json n)
             | _ \<Rightarrow> None)
          else if op = ''DELETE'' then
            (case struct_fields [''path'', ''to_trash'', ''ucan_token''] body of
               Some [JString p, JBool b, JString t] \<Rightarrow> Some (ReqDelete p b t)
             | _ \<Rightarrow> None)
          else
            (case struct_fields [''path'', ''ucan_token''] body of
               Some [JString p, JString t] \<Rightarrow>
                 (if op = ''LIST'' then Some (ReqList p t)
                  else if op = ''STAT'' then Some (ReqStat p t)
                  else if op = ''MANIFEST'' then Some (ReqManifest p t)
                  else if op = ''CREATE_DIRECTORY'' then Some (ReqCreateDirectory p t)
                  else None)
             | _ \<Rightarrow> None))"

text \<open>The length of the text is truncated to 32 bits.\<close>

definition encode_message :: "ucan_env \<Rightarrow> json \<Rightarrow> (string, bytes) result" where
  "encode_message env j = and_then (json_to_string env j) (\<lambda>body. Inr (be32 (length body) @ as_bytes body))"

definition encode_request :: "ucan_env \<Rightarrow> peer_request \<Rightarrow> (string, bytes) result" where
  "encode_request env req = encode_message env (request_to_json req)"

definition peer_read_message ::
  "ucan_env \<Rightarrow> (json \<Rightarrow> (string, 'a) result) \<Rightarrow> nat \<Rightarrow> bytes \<Rightarrow> (peer_protocol_error, 'a \<times> bytes) result" where
  "peer_read_message env decode max_size input =
     (if length input < 4 then Inl (PeerRead ''early eof'')
      else let len = from_be32 (take 4 input); rest = drop 4 input in
        if max_size < len then Inl (MessageTooLarge len max_size)
        else if length rest < len then Inl (PeerRead ''early eof'')
        else (case and_then (json_from_slice env (take len rest)) decode of
                Inl e \<Rightarrow> Inl (InvalidJson e)
              | Inr m \<Rightarrow> Inr (m, drop len rest)))"

definition read_request :: "ucan_env \<Rightarrow> bytes \<Rightarrow> (peer_protocol_error, peer_request \<times> bytes) result" where
  "read_request env = peer_read_message env request_from_json MAX_REQUEST_SIZE"

definition nat_of_json :: "json \<Rightarrow> nat option" where
  "nat_of_json j = map_option unat (u64_of_json j)"

fun opt_json :: "('a \<Rightarrow> json) \<Rightarrow> 'a option \<Rightarrow> json" where
  "opt_json f None = JNull"
| "opt_json f (Some x) = f x"

definition opt_of_json :: "(json \<Rightarrow> 'a option) \<Rightarrow> json \<Rightarrow> 'a option option" where
  "opt_of_json f j = (if j = JNull then Some None else map_option Some (f j))"

definition jnat :: "nat \<Rightarrow> json" where "jnat n = JInt (int n)"

definition entry_to_json :: "file_entry \<Rightarrow> json" where
  "entry_to_json e = JObject [(''name'', JString (en_name e)), (''size'', jnat (en_size e)), (''isDir'', JBool (en_is_dir e)),
     (''modified'', opt_json jnat (en_modified e))]"

definition entry_from_json :: "json \<Rightarrow> file_entry option" where
  "entry_from_json j =
     (case struct_fields [''name'', ''size'', ''isDir'', ''modified''] (with_default ''modified'' j) of
        Some [JString n, s, JBool d, m] \<Rightarrow>
          (case (nat_of_json s, opt_of_json nat_of_json m) of
             (Some sz, Some md) \<Rightarrow> Some \<lparr>en_name = n, en_size = sz, en_is_dir = d, en_modified = md\<rparr>
           | _ \<Rightarrow> None)
      | _ \<Rightarrow> None)"

definition state_to_json :: "file_state \<Rightarrow> json" where
  "state_to_json s = JObject ([(''relativePath'', JString (relative_path s)), (''size'', jnat (fsize s)),
     (''modifiedAt'', jnat (modified_at s)), (''isDirectory'', JBool (is_directory s))]
     @ (case fhash s of None \<Rightarrow> [] | Some h \<Rightarrow> [(''hash'', JString h)]))"

definition state_from_json :: "json \<Rightarrow> file_state option" where
  "state_from_json j =
     (case struct_fields [''relativePath'', ''size'', ''modifiedAt'', ''isDirectory'', ''hash''] (with_default ''hash'' j) of
        Some [JString p, s, m, JBool d, h] \<Rightarrow>
          (case (nat_of_json s, nat_of_json m, opt_of_json json_as_str h) of
             (Some sz, Some md, Some hs) \<Rightarrow>
               Some \<lparr>relative_path = p, fsize = sz, modified_at = md, is_directory = d, fhash = hs\<rparr>
           | _ \<Rightarrow> None)
      | _ \<Rightarrow> None)"

fun peer_response_to_json :: "peer_response \<Rightarrow> json" where
  "peer_response_to_json (RespList es) = JObject [(''type'', JString ''list''), (''entries'', JArray (map entry_to_json es))]"
| "peer_response_to_json (RespStat e) = JObject [(''type'', JString ''stat''), (''entry'', entry_to_json e)]"
| "peer_response_to_json (RespReadHeader n) = JObject [(''type'', JString ''read_header''), (''size'', ju64 n)]"
| "peer_response_to_json (RespManifest es) = JObject [(''type'', JString ''manifest''), (''entries'', JArray (map state_to_json es))]"
| "peer_response_to_json RespWriteOk = JObject [(''type'', JString ''write_ok'')]"
| "peer_response_to_json RespDeleteOk = JObject [(''type'', JString ''delete_ok'')]"
| "peer_response_to_json RespCreateDirectoryOk = JObject [(''type'', JString ''create_directory_ok'')]"
| "peer_response_to_json (RespError m) = JObject [(''type'', JString ''error''), (''message'', JString m)]"

fun opt_all :: "'a option list \<Rightarrow> 'a list option" where
  "opt_all [] = Some []"
| "opt_all (x # xs) = (case (x, opt_all xs) of (Some y, Some ys) \<Rightarrow> Some (y # ys) | _ \<Rightarrow> None)"

definition peer_response_from_json :: "json \<Rightarrow> (string, peer_response) result" where
  "peer_response_from_json j = ok_or ''invalid response''
     (case tagged_fields ''type'' j of
        None \<Rightarrow> None
      | Some (ty, body) \<Rightarrow>
          if ty = ''list'' then
            (case struct_fields [''entries''] body of
               Some [JArray vs] \<Rightarrow> map_option RespList (opt_all (map entry_from_json vs)) | _ \<Rightarrow> None)
          else if ty = ''stat'' then
            (case struct_fields [''entry''] body of Some [v] \<Rightarrow> map_option RespStat (entry_from_json v) | _ \<Rightarrow> None)
          else if ty = ''read_header'' then
            (case struct_fields [''size''] body of Some [v] \<Rightarrow> map_option RespReadHeader (u64_of_json v) | _ \<Rightarrow> None)
          else if ty = ''manifest'' then
            (case struct_fields [''entries''] body of
               Some [JArray vs] \<Rightarrow> map_option RespManifest (opt_all (map state_from_json vs)) | _ \<Rightarrow> None)
          else if ty = ''error'' then
            (case struct_fields [''message''] body of Some [JString m] \<Rightarrow> Some (RespError m) | _ \<Rightarrow> None)
          else if ty = ''write_ok'' then Some RespWriteOk
          else if ty = ''delete_ok'' then Some RespDeleteOk
          else if ty = ''create_directory_ok'' then Some RespCreateDirectoryOk
          else None)"

definition encode_response :: "ucan_env \<Rightarrow> peer_response \<Rightarrow> (string, bytes) result" where
  "encode_response env resp = encode_message env (peer_response_to_json resp)"

definition read_response :: "ucan_env \<Rightarrow> bytes \<Rightarrow> (peer_protocol_error, peer_response \<times> bytes) result" where
  "read_response env = peer_read_message env peer_response_from_json MAX_RESPONSE_META_SIZE"


section \<open>Round trips\<close>

lemma u64_json [simp]: "u64_of_json (ju64 w) = Some w"
  using uint_lt2p [of w] by (simp add: ju64_def)

lemma jnat_json [simp]: "n < 2 ^ 64 \<Longrightarrow> nat_of_json (jnat n) = Some n"
  by (simp add: nat_of_json_def jnat_def unat_of_nat take_bit_nat_eq_self flip: of_nat_less_iff)

lemma jnat_not_null [simp]: "jnat n \<noteq> JNull"
  by (simp add: jnat_def)

lemma request_json: "request_from_json (request_to_json req) = Inr req"
proof (cases req)
  case (ReqRead p r t)
  then show ?thesis
    by (cases r) (auto simp: request_from_json_def tagged_fields_def json_field_def struct_fields_def with_default_def jrange_def)
qed (simp_all add: request_from_json_def tagged_fields_def json_field_def struct_fields_def)

definition entry_wf :: "file_entry \<Rightarrow> bool" where
  "entry_wf e \<longleftrightarrow> en_size e < 2 ^ 64 \<and> (\<forall>m. en_modified e = Some m \<longrightarrow> m < 2 ^ 64)"

definition state_wf :: "file_state \<Rightarrow> bool" where
  "state_wf s \<longleftrightarrow> fsize s < 2 ^ 64 \<and> modified_at s < 2 ^ 64"

fun response_wf :: "peer_response \<Rightarrow> bool" where
  "response_wf (RespList es) = list_all entry_wf es"
| "response_wf (RespStat e) = entry_wf e"
| "response_wf (RespManifest es) = list_all state_wf es"
| "response_wf _ = True"

lemma entry_json: "entry_wf e \<Longrightarrow> entry_from_json (entry_to_json e) = Some e"
  by (cases "en_modified e")
    (auto simp: entry_from_json_def entry_to_json_def entry_wf_def struct_fields_def json_field_def with_default_def opt_of_json_def)

lemma state_json: "state_wf s \<Longrightarrow> state_from_json (state_to_json s) = Some s"
  by (cases "fhash s") (auto simp: state_from_json_def state_to_json_def state_wf_def struct_fields_def json_field_def with_default_def opt_of_json_def)

lemma opt_all_map: "\<forall>x\<in>set xs. f (g x) = Some x \<Longrightarrow> opt_all (map (\<lambda>x. f (g x)) xs) = Some xs"
  by (induction xs) auto

lemma response_json: "response_wf resp \<Longrightarrow> peer_response_from_json (peer_response_to_json resp) = Inr resp"
proof (cases resp)
  case (RespList es)
  assume "response_wf resp"
  then show ?thesis using RespList opt_all_map [of es entry_from_json entry_to_json] entry_json
    by (simp add: peer_response_from_json_def tagged_fields_def json_field_def struct_fields_def list_all_iff comp_def)
next
  case (RespManifest es)
  assume "response_wf resp"
  then show ?thesis using RespManifest opt_all_map [of es state_from_json state_to_json] state_json
    by (simp add: peer_response_from_json_def tagged_fields_def json_field_def struct_fields_def list_all_iff comp_def)
qed (simp_all add: peer_response_from_json_def tagged_fields_def json_field_def struct_fields_def entry_json)

lemma message_round_trip:
  assumes "encode_message env j = Inr bs" "json_round_trip env j" "decode j = Inr m" "max_size < 2 ^ 32" "length bs \<le> 4 + max_size"
    and "length bs < 2 ^ 32"
  shows "peer_read_message env decode max_size (bs @ rest) = Inr (m, rest)"
proof -
  from assms(1) obtain body where t: "json_to_string env j = Inr body" "bs = be32 (length body) @ as_bytes body"
    by (auto simp: encode_message_def res_simps)
  have "json_from_slice env (as_bytes body) = Inr j" using assms(2) t(1) by (auto simp: json_round_trip_def)
  moreover have "from_be32 (be32 (length body)) = length body" using t(2) assms(6) by (intro from_be32_be32) simp
  ultimately show ?thesis using t(2) assms(3,5) by (simp add: peer_read_message_def Let_def)
qed


section \<open>Transfer pipelines\<close>

definition CHUNK_SIZE :: nat where "CHUNK_SIZE = 1024 * 1024"
definition CHANNEL_DEPTH :: nat where "CHANNEL_DEPTH = 8"
definition MULTI_STREAM_THRESHOLD :: nat where "MULTI_STREAM_THRESHOLD = 16 * 1024 * 1024"
definition MAX_PARALLEL_STREAMS_PER_FILE :: nat where "MAX_PARALLEL_STREAMS_PER_FILE = 4"

datatype pipeline_error = PipeIo string | PipeStream string | PipeCancelled

text \<open>What the \<open>i\<close>-th read and write of a pipeline meet.  A read returns at least one byte unless
  the file has ended, and at most what was asked for.\<close>

record pipe_io =
  pi_read_size :: "nat \<Rightarrow> nat"
  pi_read_error :: "nat \<Rightarrow> string option"
  pi_write_error :: "nat \<Rightarrow> string option"
  pi_cancelled :: "nat \<Rightarrow> bool"

text \<open>The reader task: the items it offers to the channel.\<close>

function read_chunks :: "pipe_io \<Rightarrow> nat \<Rightarrow> nat \<Rightarrow> bytes \<Rightarrow> (string, bytes) result list" where
  "read_chunks io i remaining data =
     (if remaining = 0 then []
      else (case pi_read_error io i of
              Some e \<Rightarrow> [Inl e]
            | None \<Rightarrow>
                (let to_read = min remaining CHUNK_SIZE;
                     n = min (min to_read (length data)) (max 1 (pi_read_size io i))
                 in if n = 0 then []
                    else Inr (take n data) # read_chunks io (Suc i) (remaining - n) (drop n data))))"
  by pat_completeness auto
termination
  by (relation "measure (\<lambda>(_, _, remaining, _). remaining)") auto

declare read_chunks.simps [simp del]

text \<open>The writer: the outcome, the bytes on the wire and the number of items it received before
  it stopped early.\<close>

fun forward_chunks :: "pipe_io \<Rightarrow> nat \<Rightarrow> (string, bytes) result list \<Rightarrow> (pipeline_error, nat) result \<times> bytes \<times> nat option" where
  "forward_chunks io i [] = (Inr 0, [], None)"
| "forward_chunks io i (item # rest) =
     (if pi_cancelled io i then (Inl PipeCancelled, [], Some (Suc i))
      else (case item of
              Inl e \<Rightarrow> (Inl (PipeIo e), [], None)
            | Inr chunk \<Rightarrow>
                (case pi_write_error io i of
                   Some e \<Rightarrow> (Inl (PipeStream (''send write: '' @ e)), [], Some (Suc i))
                 | None \<Rightarrow>
                     (case forward_chunks io (Suc i) rest of
                        (Inl e, sent, k) \<Rightarrow> (Inl e, chunk @ sent, k)
                      | (Inr n, sent, k) \<Rightarrow> (Inr (length chunk + n), chunk @ sent, k)))))"

text \<open>A writer that stops early waits for the reader task while the receiving end of the channel
  is still open: the reader then blocks for good when it has more items than the channel holds.
  \<open>None\<close> means that the call never returns.\<close>

definition pipe_reader_to_send :: "pipe_io \<Rightarrow> bytes \<Rightarrow> nat \<Rightarrow> ((pipeline_error, nat) result option \<times> bytes)" where
  "pipe_reader_to_send io data sz =
     (let items = read_chunks io 0 sz data in
      case forward_chunks io 0 items of
        (r, sent, None) \<Rightarrow> (Some r, sent)
      | (r, sent, Some k) \<Rightarrow> (if CHANNEL_DEPTH < length items - k then None else Some r, sent))"

datatype recv_event = RcvChunk bytes | RcvError string

record recv_stats =
  st_bytes :: nat
  st_hash :: "string option"

text \<open>The receiving loop: the bytes passed on, how it ended and what is left of the stream.\<close>

fun recv_loop :: "(nat \<Rightarrow> bool) \<Rightarrow> nat \<Rightarrow> nat \<Rightarrow> nat \<Rightarrow> recv_event list \<Rightarrow> bytes \<times> pipeline_error option \<times> recv_event list" where
  "recv_loop cancelled sz got i [] =
     (if sz \<le> got then ([], None, []) else if cancelled i then ([], Some PipeCancelled, [])
      else ([], Some (PipeStream (''stream ended early: expected '' @ show_radix 10 sz @ '' bytes, received '' @ show_radix 10 got)), []))"
| "recv_loop cancelled sz got i (ev # evs) =
     (if sz \<le> got then ([], None, ev # evs) else if cancelled i then ([], Some PipeCancelled, ev # evs)
      else (case ev of
              RcvError e \<Rightarrow> ([], Some (PipeStream (''recv read: '' @ e)), evs)
            | RcvChunk chunk \<Rightarrow>
                (case recv_loop cancelled sz (got + length chunk) (Suc i) evs of
                   (data, r, left) \<Rightarrow> (chunk @ data, r, left))))"

text \<open>\<open>fault\<close> is a failing write of the writer task and how much was written before it.\<close>

definition pipe_recv_to_writer ::
  "(bytes \<Rightarrow> string) \<Rightarrow> (nat \<Rightarrow> bool) \<Rightarrow> (string \<times> nat) option \<Rightarrow> bool \<Rightarrow> nat \<Rightarrow> recv_event list
     \<Rightarrow> (pipeline_error, recv_stats) result \<times> bytes" where
  "pipe_recv_to_writer sha256 cancelled fault compute_hash sz evs =
     (case recv_loop cancelled sz 0 0 evs of
        (data, r, _) \<Rightarrow>
          (case fault of
             Some (e, k) \<Rightarrow> (Inl (PipeIo e), take k data)
           | None \<Rightarrow>
               ((case r of
                   Some e \<Rightarrow> Inl e
                 | None \<Rightarrow> Inr \<lparr>st_bytes = length data, st_hash = (if compute_hash then Some (sha256 data) else None)\<rparr>),
                data)))"


section \<open>What the pipelines deliver\<close>

definition undisturbed :: "pipe_io \<Rightarrow> bool" where
  "undisturbed io \<longleftrightarrow> (\<forall>i. pi_read_error io i = None \<and> pi_write_error io i = None \<and> \<not> pi_cancelled io i)"

text \<open>However the reads are cut, the bytes on the wire are the first \<open>sz\<close> of the file.\<close>

lemma forward_read_chunks:
  "undisturbed io \<Longrightarrow> forward_chunks io i (read_chunks io i sz data) = (Inr (min sz (length data)), take sz data, None)"
proof (induction io i sz data rule: read_chunks.induct)
  case (1 io i sz data)
  let ?n = "min (min (min sz CHUNK_SIZE) (length data)) (max 1 (pi_read_size io i))"
  have free: "pi_read_error io i = None" "pi_write_error io i = None" "\<not> pi_cancelled io i"
    using 1(2) by (simp_all add: undisturbed_def)
  show ?case
  proof (cases "sz = 0 \<or> ?n = 0")
    case True
    then have "sz = 0 \<or> data = []" by (auto simp: CHUNK_SIZE_def min_def split: if_splits)
    then show ?thesis using free by (auto simp: read_chunks.simps)
  next
    case False
    then have n: "sz \<noteq> 0" "?n \<noteq> 0" "?n \<le> sz" "?n \<le> length data" by auto
    obtain k where k: "k = ?n" by simp
    have ih: "forward_chunks io (Suc i) (read_chunks io (Suc i) (sz - k) (drop k data)) =
        (Inr (min (sz - k) (length (drop k data))), take (sz - k) (drop k data), None)"
      unfolding k by (rule 1(1) [OF n(1) free(1) refl refl n(2) 1(2)])
    have rd: "read_chunks io i sz data = Inr (take k data) # read_chunks io (Suc i) (sz - k) (drop k data)"
      unfolding k using n(1,2) free(1) by (subst read_chunks.simps) (simp add: Let_def)
    have le: "k \<le> sz" "k \<le> length data" using n(3,4) k by simp_all
    have "take k data @ take (sz - k) (drop k data) = take sz data"
      using le(1) by (metis le_add_diff_inverse take_add)
    moreover have "length (take k data) + min (sz - k) (length (drop k data)) = min sz (length data)"
      using le by (auto simp: min_def)
    ultimately show ?thesis unfolding rd forward_chunks.simps using ih free by (simp del: length_take length_drop)
  qed
qed

lemma pipe_send_exact:
  "undisturbed io \<Longrightarrow> pipe_reader_to_send io data sz = (Some (Inr (min sz (length data))), take sz data)"
  using forward_read_chunks [of io 0 sz data] by (simp add: pipe_reader_to_send_def)

fun chunk_data :: "recv_event list \<Rightarrow> bytes" where
  "chunk_data (RcvChunk b # evs) = b @ chunk_data evs"
| "chunk_data _ = []"

lemma recv_loop_prefix:
  "recv_loop cancelled sz got i evs = (data, r, left) \<Longrightarrow>
     (\<exists>more. chunk_data evs = data @ more) \<and> (r = None \<longrightarrow> sz \<le> got + length data)"
proof (induction evs arbitrary: got i data r left)
  case Nil
  then show ?case by (auto split: if_splits)
next
  case (Cons ev evs)
  then show ?case by (cases ev) (fastforce split: if_splits prod.splits)+
qed

text \<open>A successful receive of the announced size has written exactly the first \<open>sz\<close> bytes of the
  stream, and the hash is of them.\<close>

lemma pipe_recv_exact:
  assumes "pipe_recv_to_writer sha256 cancelled fault compute_hash sz evs = (Inr stats, data)" "st_bytes stats = sz"
  shows "data = take sz (chunk_data evs) \<and> length data = sz \<and> (compute_hash \<longrightarrow> st_hash stats = Some (sha256 data))"
proof -
  obtain left where "recv_loop cancelled sz 0 0 evs = (data, None, left)" "stats = \<lparr>st_bytes = length data, st_hash = (if compute_hash then Some (sha256 data) else None)\<rparr>"
    using assms(1) by (auto simp: pipe_recv_to_writer_def split: prod.splits option.splits)
  then show ?thesis using recv_loop_prefix [of cancelled sz 0 0 evs data None left] assms(2) by auto
qed

lemma recv_loop_all:
  assumes "\<And>i. \<not> cancelled i" "\<forall>b\<in>set bs. b \<noteq> []"
  shows "recv_loop cancelled (got + length (concat bs)) got i (map RcvChunk bs) = (concat bs, None, [])"
  using assms by (induction bs arbitrary: got i) (auto simp: add.assoc [symmetric] split: prod.splits)

lemma pipe_recv_complete:
  assumes "\<And>i. \<not> cancelled i" "\<forall>b\<in>set bs. b \<noteq> []" "sz = length (concat bs)"
  shows "pipe_recv_to_writer sha256 cancelled None h sz (map RcvChunk bs) =
    (Inr \<lparr>st_bytes = sz, st_hash = (if h then Some (sha256 (concat bs)) else None)\<rparr>, concat bs)"
  using recv_loop_all [of cancelled bs 0 0] assms by (simp add: pipe_recv_to_writer_def)


section \<open>A sender that never returns\<close>

lemma read_chunks_length:
  "(\<And>i. pi_read_error io i = None) \<Longrightarrow> min sz (length data) \<le> CHUNK_SIZE * length (read_chunks io i sz data)"
proof (induction io i sz data rule: read_chunks.induct)
  case (1 io i sz data)
  let ?n = "min (min (min sz CHUNK_SIZE) (length data)) (max 1 (pi_read_size io i))"
  show ?case
  proof (cases "sz = 0 \<or> ?n = 0")
    case True
    then have "sz = 0 \<or> data = []" by (auto simp: CHUNK_SIZE_def min_def split: if_splits)
    then show ?thesis by auto
  next
    case False
    then have n: "sz \<noteq> 0" "?n \<noteq> 0" by auto
    obtain k where k: "k = ?n" by simp
    have ih: "min (sz - k) (length (drop k data)) \<le> CHUNK_SIZE * length (read_chunks io (Suc i) (sz - k) (drop k data))"
      unfolding k by (rule 1(1) [OF n(1) 1(2) refl refl n(2) 1(2)])
    have rd: "read_chunks io i sz data = Inr (take k data) # read_chunks io (Suc i) (sz - k) (drop k data)"
      unfolding k using n 1(2) by (subst read_chunks.simps) (simp add: Let_def)
    have "k \<le> CHUNK_SIZE" "k \<le> sz" "k \<le> length data" using k by simp_all
    then show ?thesis unfolding rd using ih by (auto simp: min_def split: if_splits)
  qed
qed

text \<open>The sending pipeline can hang: when the first write to the network fails (the peer reset
  the stream), or the transfer is cancelled, while more than nine chunks of the file are left,
  the reader task blocks on the full channel, whose receiving end is kept open while it is
  awaited, and \<open>pipe_reader_to_send\<close> never returns.\<close>

theorem sender_blocks:
  assumes "\<And>i. pi_read_error io i = None" "pi_cancelled io 0 \<or> pi_write_error io 0 \<noteq> None"
    and "(CHANNEL_DEPTH + 1) * CHUNK_SIZE < min sz (length data)"
  shows "fst (pipe_reader_to_send io data sz) = None"
proof -
  let ?items = "read_chunks io 0 sz data"
  have "(CHANNEL_DEPTH + 1) * CHUNK_SIZE < CHUNK_SIZE * length ?items"
    using read_chunks_length [of io sz data 0] assms(1,3) by (meson less_le_trans)
  then have len: "CHANNEL_DEPTH + 1 < length ?items" by (metis mult.commute mult_less_cancel1)
  have "0 < sz" "data \<noteq> []" using assms(3) by auto
  obtain item rest where it: "?items = item # rest" using len by (cases ?items) auto
  have "\<exists>c. item = Inr c"
    using it assms(1) by (subst (asm) read_chunks.simps) (auto simp: Let_def split: if_splits)
  then have "\<exists>r. forward_chunks io 0 ?items = (r, [], Some 1)"
    using it assms(2) by (cases "pi_cancelled io 0") auto
  then show ?thesis using len by (auto simp: pipe_reader_to_send_def Let_def)
qed

theorem sender_blocks_witness:
  "fst (pipe_reader_to_send \<lparr>pi_read_size = (\<lambda>_. CHUNK_SIZE), pi_read_error = (\<lambda>_. None), pi_write_error = (\<lambda>_. Some ''reset''),
     pi_cancelled = (\<lambda>_. False)\<rparr> (replicate (10 * CHUNK_SIZE) 0) (10 * CHUNK_SIZE)) = None"
  by (rule sender_blocks) (simp_all add: CHANNEL_DEPTH_def CHUNK_SIZE_def)

end
