(* ===== verification/PosixFs.thy ===== *)
theory PosixFs
  imports Ucan PathValidation "HOL-Library.AList"
begin

text \<open>
  The part of \<open>std::fs\<close> and \<open>std::path\<close> that the peer storage handlers use, on a Unix target:
  a directory tree with symbolic links, the kernel's path walk, and the calls that follow
  or do not follow a link in the last component.  Every call asks \<open>fe_fault\<close> first, so that
  permission, quota and device errors are possible at every point.  A sequence of calls of
  one handler is not interleaved with other processes.
\<close>

section \<open>The tree\<close>

text \<open>A regular file has its bytes and its modification time in nanoseconds.\<close>

datatype inode = Regular bytes nat | Directory "(string \<times> inode) list" | SymLink string

fun lookup_inode :: "inode \<Rightarrow> string list \<Rightarrow> inode option" where
  "lookup_inode n [] = Some n"
| "lookup_inode (Directory es) (x # xs) = (case map_of es x of None \<Rightarrow> None | Some m \<Rightarrow> lookup_inode m xs)"
| "lookup_inode n (x # xs) = None"

text \<open>Replaces (\<open>Some\<close>) or removes (\<open>None\<close>) the node at a path whose parent is a directory.\<close>

fun set_inode :: "inode option \<Rightarrow> inode \<Rightarrow> string list \<Rightarrow> inode" where
  "set_inode v n [] = (case v of None \<Rightarrow> n | Some m \<Rightarrow> m)"
| "set_inode v (Directory es) [x] =
     Directory (case v of None \<Rightarrow> filter (\<lambda>e. fst e \<noteq> x) es | Some m \<Rightarrow> AList.update x m es)"
| "set_inode v (Directory es) (x # xs) =
     (case map_of es x of None \<Rightarrow> Directory es | Some m \<Rightarrow> Directory (AList.update x (set_inode v m xs) es))"
| "set_inode v n xs = n"

datatype sys_op = SysWalk | SysStat | SysReadDir | SysMkdir | SysOpen | SysRead | SysWrite | SysRename | SysUnlink | SysTrash

record fs_env =
  fe_cwd :: "string list"
  fe_fault :: "sys_op \<Rightarrow> string \<Rightarrow> string option"
  fe_partial :: "string \<Rightarrow> nat"
  fe_remnant :: "inode \<Rightarrow> string list \<Rightarrow> inode option"
  fe_now :: nat
  fe_dir_size :: "string list \<Rightarrow> nat"
  fe_dir_time :: "string list \<Rightarrow> nat option"
  fe_trash :: "inode \<Rightarrow> string list \<Rightarrow> (string, unit) result \<times> inode"

definition faulty :: "fs_env \<Rightarrow> sys_op \<Rightarrow> string \<Rightarrow> (string, 'a) result \<Rightarrow> (string, 'a) result" where
  "faulty env op p r = (case fe_fault env op p of Some e \<Rightarrow> Inl e | None \<Rightarrow> r)"


section \<open>The path walk\<close>

text \<open>The kernel gives up after 40 symbolic links.  With \<open>creat\<close> the last component may be
  missing.  A component after a regular file is an error even if it is empty or a dot.\<close>

definition MAXSYMLINKS :: nat where "MAXSYMLINKS = 40"

function walk_path :: "bool \<Rightarrow> nat \<Rightarrow> inode \<Rightarrow> string list \<Rightarrow> string list \<Rightarrow> (string, string list) result" where
  "walk_path creat n root cur [] = Inr cur"
| "walk_path creat n root cur (c # cs) =
     (if c = [] \<or> c = ''.'' then walk_path creat n root cur cs
      else if c = ''..'' then walk_path creat n root (butlast cur) cs
      else (case lookup_inode root (cur @ [c]) of
              None \<Rightarrow> if creat \<and> cs = [] then Inr (cur @ [c]) else Inl ''No such file or directory''
            | Some (Regular _ _) \<Rightarrow> if cs = [] then Inr (cur @ [c]) else Inl ''Not a directory''
            | Some (Directory _) \<Rightarrow> walk_path creat n root (cur @ [c]) cs
            | Some (SymLink t) \<Rightarrow>
                (case n of
                   0 \<Rightarrow> Inl ''Too many levels of symbolic links''
                 | Suc m \<Rightarrow> if t = [] then Inl ''No such file or directory''
                            else walk_path creat m root (if starts_with t ''/'' then [] else cur) (split_on (CHR ''/'') t @ cs))))"
  by pat_completeness auto
termination
  by (relation "measures [\<lambda>(_, n, _, _, _). n, \<lambda>(_, _, _, _, cs). length cs]") auto

definition resolve_text :: "bool \<Rightarrow> fs_env \<Rightarrow> inode \<Rightarrow> string \<Rightarrow> (string, string list) result" where
  "resolve_text creat env root p =
     (if p = [] then Inl ''No such file or directory''
      else if CHR 0x00 \<in> set p then Inl ''file name contained an unexpected NUL byte''
      else faulty env SysWalk p
        (walk_path creat MAXSYMLINKS root (if starts_with p ''/'' then [] else fe_cwd env) (split_on (CHR ''/'') p)))"

definition canonicalize :: "fs_env \<Rightarrow> inode \<Rightarrow> string \<Rightarrow> (string, string list) result" where
  "canonicalize = resolve_text False"

definition abs_text :: "string list \<Rightarrow> string" where
  "abs_text cs = CHR ''/'' # join_on (CHR ''/'') cs"

text \<open>\<open>PathBuf::join\<close> with a relative path.\<close>

definition path_join :: "string \<Rightarrow> string \<Rightarrow> string" where
  "path_join base sub = (if base = [] \<or> ends_with base ''/'' then base @ sub else base @ ''/'' @ sub)"

definition with_file_name :: "string \<Rightarrow> string \<Rightarrow> string" where
  "with_file_name p name =
     (case path_file_name p of
        None \<Rightarrow> path_join p name
      | Some _ \<Rightarrow> path_join (case path_parent p of None \<Rightarrow> p | Some d \<Rightarrow> d) name)"


section \<open>Calls\<close>

definition metadata :: "fs_env \<Rightarrow> inode \<Rightarrow> string \<Rightarrow> (string, string list \<times> inode) result" where
  "metadata env root p =
     and_then (resolve_text False env root p) (\<lambda>cs.
       faulty env SysStat p (ok_or ''No such file or directory'' (map_option (Pair cs) (lookup_inode root cs))))"

definition fs_exists :: "fs_env \<Rightarrow> inode \<Rightarrow> string \<Rightarrow> bool" where
  "fs_exists env root p = is_ok (metadata env root p)"

definition fs_is_dir :: "fs_env \<Rightarrow> inode \<Rightarrow> string \<Rightarrow> bool" where
  "fs_is_dir env root p = (case metadata env root p of Inr (_, Directory _) \<Rightarrow> True | _ \<Rightarrow> False)"

definition fs_is_file :: "fs_env \<Rightarrow> inode \<Rightarrow> string \<Rightarrow> bool" where
  "fs_is_file env root p = (case metadata env root p of Inr (_, Regular _ _) \<Rightarrow> True | _ \<Rightarrow> False)"

text \<open>\<open>mkdir\<close> does not follow a link in the last component; \<open>None\<close> in the error is \<open>ENOENT\<close>.\<close>

definition fs_mkdir :: "fs_env \<Rightarrow> inode \<Rightarrow> string \<Rightarrow> (string option, unit) result \<times> inode" where
  "fs_mkdir env root p =
     (case fe_fault env SysMkdir p of
        Some e \<Rightarrow> (Inl (Some e), root)
      | None \<Rightarrow>
          (case (path_file_name p, path_parent p) of
             (Some name, Some d) \<Rightarrow>
               (case resolve_text False env root (if d = [] then ''.'' else d) of
                  Inl e \<Rightarrow> (Inl (if e = ''No such file or directory'' then None else Some e), root)
                | Inr dir \<Rightarrow>
                    (case lookup_inode root dir of
                       Some (Directory es) \<Rightarrow>
                         if map_of es name = None then (Inr (), set_inode (Some (Directory [])) root (dir @ [name]))
                         else (Inl (Some ''File exists''), root)
                     | _ \<Rightarrow> (Inl (Some ''Not a directory''), root)))
           | _ \<Rightarrow> (Inl (Some ''File exists''), root)))"

lemma trim_rev_join: "xs \<noteq> [] \<Longrightarrow> length (join_on c (rev (trim_rev xs))) \<le> length (join_on c (rev xs)) \<and> trim_rev xs \<noteq> []"
proof (induction xs rule: trim_rev.induct)
  case (1 x y ys)
  then show ?case using join_on_snoc [of "rev (y # ys)" c x] by (cases "x = [] \<or> x = ''.''") auto
qed auto

lemma trim_rev_head: "trim_rev xs = x # y # ys \<Longrightarrow> x \<noteq> []"
  by (induction xs rule: trim_rev.induct) (auto split: if_splits)

lemma path_parent_shorter: "path_parent p = Some q \<Longrightarrow> length q < length p"
proof -
  assume q: "path_parent p = Some q"
  let ?t = "trim_rev (rev (split_on (CHR ''/'') p))"
  have le: "length (join_on (CHR ''/'') (rev ?t)) \<le> length p"
    using trim_rev_join [of "rev (split_on (CHR ''/'') p)" "CHR ''/''"] by simp
  consider (one) x where "?t = [x]" "x \<noteq> []" "q = []"
    | (more) x y ys where "?t = x # y # ys" "q = (if trim_rev (y # ys) = [[]] then ''/'' else join_on (CHR ''/'') (rev (trim_rev (y # ys))))"
    using q by (auto simp: path_parent_def Let_def split: list.splits if_splits)
  then show ?thesis
  proof cases
    case one
    then show ?thesis using le by (auto simp: Suc_le_eq)
  next
    case more
    have "x \<noteq> []" by (rule trim_rev_head [OF more(1)])
    then have "length (join_on (CHR ''/'') (rev ?t)) \<ge> length (join_on (CHR ''/'') (rev (y # ys))) + 2"
      using more(1) join_on_snoc [of "rev (y # ys)" "CHR ''/''" x] by (cases x) auto
    then show ?thesis using more(2) le trim_rev_join [of "y # ys" "CHR ''/''"] by (auto split: if_splits)
  qed
qed

function fs_create_dir_all :: "fs_env \<Rightarrow> inode \<Rightarrow> string \<Rightarrow> (string, unit) result \<times> inode" where
  "fs_create_dir_all env root p =
     (if p = [] then (Inr (), root)
      else (case fs_mkdir env root p of
              (Inr _, root') \<Rightarrow> (Inr (), root')
            | (Inl (Some e), _) \<Rightarrow> if fs_is_dir env root p then (Inr (), root) else (Inl e, root)
            | (Inl None, _) \<Rightarrow>
                (case path_parent p of
                   None \<Rightarrow> (Inl ''failed to create whole tree'', root)
                 | Some d \<Rightarrow>
                     (case fs_create_dir_all env root d of
                        (Inl e, root') \<Rightarrow> (Inl e, root')
                      | (Inr _, root') \<Rightarrow>
                          (case fs_mkdir env root' p of
                             (Inr _, root'') \<Rightarrow> (Inr (), root'')
                           | (Inl e, _) \<Rightarrow>
                               if fs_is_dir env root' p then (Inr (), root')
                               else (Inl (case e of None \<Rightarrow> ''No such file or directory'' | Some t \<Rightarrow> t), root'))))))"
  by pat_completeness auto
termination
  by (relation "measure (\<lambda>(_, _, p). length p)") (auto simp: path_parent_shorter)

text \<open>\<open>File::create\<close> follows links, a dangling one too, and truncates.\<close>

definition fs_create :: "fs_env \<Rightarrow> inode \<Rightarrow> string \<Rightarrow> (string, string list) result \<times> inode" where
  "fs_create env root p =
     (case and_then (resolve_text True env root p) (\<lambda>cs. faulty env SysOpen p (Inr cs)) of
        Inl e \<Rightarrow> (Inl e, root)
      | Inr cs \<Rightarrow>
          (case lookup_inode root cs of
             Some (Directory _) \<Rightarrow> (Inl ''Is a directory'', root)
           | _ \<Rightarrow> (Inr cs, set_inode (Some (Regular [] (fe_now env))) root cs)))"

text \<open>Writing to an open file: a failed write leaves a part.\<close>

definition fs_write :: "fs_env \<Rightarrow> inode \<Rightarrow> string \<Rightarrow> string list \<Rightarrow> bytes \<Rightarrow> (string, nat) result \<times> inode" where
  "fs_write env root p cs c =
     (case fe_fault env SysWrite p of
        Some e \<Rightarrow> (Inl e, set_inode (Some (Regular (take (fe_partial env p) c) (fe_now env))) root cs)
      | None \<Rightarrow> (Inr (length c), set_inode (Some (Regular c (fe_now env))) root cs))"

text \<open>Where a call that does not follow the last component acts: the directory and the name.\<close>

definition resolve_last :: "fs_env \<Rightarrow> inode \<Rightarrow> string \<Rightarrow> (string, string list) result" where
  "resolve_last env root p =
     (case (path_file_name p, path_parent p) of
        (Some name, Some d) \<Rightarrow>
          and_then (resolve_text False env root (if d = [] then ''.'' else d)) (\<lambda>dir. Inr (dir @ [name]))
      | _ \<Rightarrow> Inl ''Device or resource busy'')"

definition fs_unlink :: "fs_env \<Rightarrow> inode \<Rightarrow> string \<Rightarrow> (string, unit) result \<times> inode" where
  "fs_unlink env root p =
     (case and_then (resolve_last env root p) (\<lambda>cs. faulty env SysUnlink p (Inr cs)) of
        Inl e \<Rightarrow> (Inl e, root)
      | Inr cs \<Rightarrow>
          (case lookup_inode root cs of
             None \<Rightarrow> (Inl ''No such file or directory'', root)
           | Some (Directory _) \<Rightarrow> (Inl ''Is a directory'', root)
           | Some _ \<Rightarrow> (Inr (), set_inode None root cs)))"

text \<open>\<open>rename\<close> of a regular file or a link; a target that ends in a separator or a dot, or is
  a directory, is an error.\<close>

definition trailing :: "string \<Rightarrow> bool" where
  "trailing p \<longleftrightarrow> last (split_on (CHR ''/'') p) \<in> {[], ''.''}"

definition fs_rename :: "fs_env \<Rightarrow> inode \<Rightarrow> string \<Rightarrow> string \<Rightarrow> (string, unit) result \<times> inode" where
  "fs_rename env root p q =
     (case and_then (resolve_last env root p) (\<lambda>src. and_then (resolve_last env root q) (\<lambda>dst.
             faulty env SysRename p (Inr (src, dst)))) of
        Inl e \<Rightarrow> (Inl e, root)
      | Inr (src, dst) \<Rightarrow>
          (case (lookup_inode root src, lookup_inode root (butlast dst), lookup_inode root dst) of
             (None, _, _) \<Rightarrow> (Inl ''No such file or directory'', root)
           | (Some (Directory _), _, _) \<Rightarrow> (Inl ''Is a directory'', root)
           | (Some m, Some (Directory _), Some (Directory _)) \<Rightarrow> (Inl ''Is a directory'', root)
           | (Some m, Some (Directory _), _) \<Rightarrow>
               if trailing q then (Inl ''Not a directory'', root)
               else if src = dst then (Inr (), root)
               else (Inr (), set_inode (Some m) (set_inode None root src) dst)
           | _ \<Rightarrow> (Inl ''Not a directory'', root)))"

text \<open>\<open>remove_dir_all\<close> does not follow links; a failure may leave a part of the tree.\<close>

definition fs_remove_dir_all :: "fs_env \<Rightarrow> inode \<Rightarrow> string \<Rightarrow> (string, unit) result \<times> inode" where
  "fs_remove_dir_all env root p =
     (case resolve_last env root p of
        Inl e \<Rightarrow> (Inl e, root)
      | Inr cs \<Rightarrow>
          (case lookup_inode root cs of
             None \<Rightarrow> (Inl ''No such file or directory'', root)
           | Some (Regular _ _) \<Rightarrow> (Inl ''Not a directory'', root)
           | Some _ \<Rightarrow>
               (case fe_fault env SysUnlink p of
                  Some e \<Rightarrow> (Inl e, case fe_remnant env root cs of None \<Rightarrow> root | Some m \<Rightarrow> set_inode (Some m) root cs)
                | None \<Rightarrow> (Inr (), set_inode None root cs))))"


section \<open>Frames\<close>

text \<open>What a lookup shows of a node without its descendants.\<close>

datatype node_kind = ShRegular bytes nat | ShDirectory | ShLink string

fun shallow :: "inode \<Rightarrow> node_kind" where
  "shallow (Regular c t) = ShRegular c t"
| "shallow (Directory es) = ShDirectory"
| "shallow (SymLink t) = ShLink t"

definition node_at :: "inode \<Rightarrow> string list \<Rightarrow> node_kind option" where
  "node_at root cs = map_option shallow (lookup_inode root cs)"

definition same_outside :: "string list set \<Rightarrow> inode \<Rightarrow> inode \<Rightarrow> bool" where
  "same_outside Ds root root' \<longleftrightarrow> (\<forall>q. (\<forall>D\<in>Ds. \<not> prefix D q) \<longrightarrow> node_at root' q = node_at root q)"

lemma same_outside_refl [simp, intro]: "same_outside Ds root root"
  by (simp add: same_outside_def)

lemma same_outside_trans: "same_outside Ds a b \<Longrightarrow> same_outside Ds b c \<Longrightarrow> same_outside Ds a c"
  by (auto simp: same_outside_def)

lemma node_at_simps [simp]:
  "node_at n [] = Some (shallow n)"
  "node_at (Directory es) (x # xs) = (case map_of es x of None \<Rightarrow> None | Some m \<Rightarrow> node_at m xs)"
  "node_at (Regular c t) (x # xs) = None"
  "node_at (SymLink s) (x # xs) = None"
  by (simp_all add: node_at_def split: option.splits)

lemma map_of_removed: "map_of (filter (\<lambda>e. fst e \<noteq> x) es) y = (if y = x then None else map_of es y)"
  using map_of_filter_key [of "\<lambda>k. k \<noteq> x" es y] by simp

lemma set_inode_frame: "\<not> prefix cs q \<Longrightarrow> node_at (set_inode v n cs) q = node_at n q"
proof (induction v n cs arbitrary: q rule: set_inode.induct)
  case (2 v es x)
  then show ?case by (cases q) (auto simp: map_of_removed update_conv split: option.splits)
next
  case (3 v es x x2 xs)
  then show ?case by (cases q) (auto simp: update_conv split: option.splits)
qed auto

lemma set_inode_confined: "D \<in> Ds \<Longrightarrow> prefix D cs \<Longrightarrow> same_outside Ds root (set_inode v root cs)"
  unfolding same_outside_def by (meson prefix_order.trans set_inode_frame)

lemma lookup_set_inode:
  "lookup_inode root (butlast cs) = Some (Directory es) \<Longrightarrow> cs \<noteq> [] \<Longrightarrow>
     lookup_inode (set_inode v root cs) (cs @ q) = (case v of None \<Rightarrow> None | Some m \<Rightarrow> lookup_inode m q)"
proof (induction v root cs rule: set_inode.induct)
  case (2 v es x)
  then show ?case by (simp add: map_of_removed update_conv split: option.splits)
next
  case (3 v es x y xs)
  then show ?case by (auto simp: update_conv split: option.splits if_splits)
qed (auto split: if_splits)


section \<open>Physical paths\<close>

definition is_dir_at :: "inode \<Rightarrow> string list \<Rightarrow> bool" where
  "is_dir_at root cs \<longleftrightarrow> node_at root cs = Some ShDirectory"

definition fs_name :: "string \<Rightarrow> bool" where
  "fs_name n \<longleftrightarrow> n \<noteq> [] \<and> n \<noteq> ''.'' \<and> n \<noteq> ''..'' \<and> CHR ''/'' \<notin> set n"

definition physical :: "inode \<Rightarrow> string list \<Rightarrow> bool" where
  "physical root cs \<longleftrightarrow> (\<forall>p. strict_prefix p cs \<longrightarrow> is_dir_at root p) \<and> (\<forall>n\<in>set cs. fs_name n)"

lemma physical_Nil [simp]: "physical root []"
  by (simp add: physical_def)

lemma physical_snoc: "physical root (cs @ [c]) \<longleftrightarrow> physical root cs \<and> is_dir_at root cs \<and> fs_name c"
  by (auto simp: physical_def strict_prefix_def)

lemma physical_append: "physical root (cs @ ds) \<Longrightarrow> physical root cs"
  using prefix_order.less_le_trans [of _ cs "cs @ ds"] by (auto simp: physical_def)

lemma physical_butlast: "physical root cs \<Longrightarrow> is_dir_at root cs \<Longrightarrow> physical root (butlast cs) \<and> is_dir_at root (butlast cs)"
  by (cases cs rule: rev_cases) (auto simp: physical_snoc)

lemma node_at_dir: "node_at root cs = Some ShDirectory \<longleftrightarrow> (\<exists>es. lookup_inode root cs = Some (Directory es))"
proof
  assume "node_at root cs = Some ShDirectory"
  then obtain m where "lookup_inode root cs = Some m" "shallow m = ShDirectory" by (auto simp: node_at_def)
  then show "\<exists>es. lookup_inode root cs = Some (Directory es)" by (cases m) auto
qed (auto simp: node_at_def)

lemma root_dir: "is_dir_at root (cs @ [c]) \<Longrightarrow> is_dir_at root cs"
proof (induction cs arbitrary: root)
  case Nil
  then show ?case by (cases root) (auto simp: is_dir_at_def)
next
  case (Cons x cs)
  then show ?case by (cases root) (auto simp: is_dir_at_def split: option.splits)
qed

text \<open>A successful walk ends at a physical path, which names an existing node unless the
  last component may be missing.\<close>

definition walk_end :: "bool \<Rightarrow> inode \<Rightarrow> string list \<Rightarrow> bool" where
  "walk_end creat root p \<longleftrightarrow> physical root p \<and>
     (is_dir_at root p \<or> p \<noteq> [] \<and> ((\<exists>c t. node_at root p = Some (ShRegular c t)) \<or> creat \<and> node_at root p = None))"

lemma walk_path_sound:
  assumes "walk_path creat n root cur cs = Inr p" "physical root cur" "is_dir_at root cur" "\<forall>c\<in>set cs. CHR ''/'' \<notin> set c"
  shows "walk_end creat root p"
  using assms
proof (induction creat n root cur cs rule: walk_path.induct)
  case (1 creat n root cur)
  then show ?case by (simp add: walk_end_def)
next
  case (2 creat n root cur c cs)
  consider (dot) "c = [] \<or> c = ''.''" | (up) "c = ''..''" | (name) "fs_name c"
    using 2(8) by (auto simp: fs_name_def)
  then show ?case
  proof cases
    case dot
    then show ?thesis using 2 by auto
  next
    case up
    then show ?thesis using 2 physical_butlast [of root cur] by simp
  next
    case name
    then have ph: "physical root (cur @ [c])" using 2(6,7) by (simp add: physical_snoc)
    have ne: "\<not> (c = [] \<or> c = ''.'')" "c \<noteq> ''..''" using name by (auto simp: fs_name_def)
    show ?thesis
    proof (cases "lookup_inode root (cur @ [c])")
      case None
      then show ?thesis using 2(5) ne ph by (auto simp: walk_end_def node_at_def split: if_splits)
    next
      case (Some m)
      show ?thesis
      proof (cases m)
        case (Regular x t)
        then show ?thesis using 2(5) ne ph Some by (auto simp: walk_end_def node_at_def split: if_splits)
      next
        case (Directory es)
        then have "is_dir_at root (cur @ [c])" using Some by (simp add: is_dir_at_def node_at_dir)
        then show ?thesis using 2(3) [OF ne Some Directory] 2(5,8) ne ph Some Directory by simp
      next
        case (SymLink t)
        then obtain k where k: "n = Suc k" "t \<noteq> []" using 2(5) ne Some by (auto split: nat.splits if_splits)
        let ?cur = "if starts_with t ''/'' then [] else cur"
        have "is_dir_at root []" using 2(7)
        proof (induction cur rule: rev_induct)
          case (snoc x xs)
          then show ?case using root_dir by blast
        qed simp
        then have "physical root ?cur" "is_dir_at root ?cur" using 2(6,7) by auto
        moreover have "\<forall>d\<in>set (split_on (CHR ''/'') t @ cs). CHR ''/'' \<notin> set d"
          using 2(8) split_on_pieces by auto
        moreover have "walk_path creat n root cur (c # cs) = walk_path creat k root ?cur (split_on (CHR ''/'') t @ cs)"
          using ne Some SymLink k by simp
        ultimately show ?thesis using 2(4) [OF ne Some SymLink k] 2(5) by presburger
      qed
    qed
  qed
qed


text \<open>The working directory is a physical directory, and the injected faults are errors other
  than \<open>ENOENT\<close>.\<close>

definition fs_ok :: "fs_env \<Rightarrow> inode \<Rightarrow> bool" where
  "fs_ok env root \<longleftrightarrow> is_dir_at root [] \<and> physical root (fe_cwd env) \<and> is_dir_at root (fe_cwd env) \<and>
     (\<forall>op p. fe_fault env op p \<noteq> Some ''No such file or directory'')"

definition start_dir :: "fs_env \<Rightarrow> string \<Rightarrow> string list" where
  "start_dir env p = (if starts_with p ''/'' then [] else fe_cwd env)"

lemma resolve_text_walk:
  "resolve_text creat env root p = Inr cs \<Longrightarrow>
     p \<noteq> [] \<and> walk_path creat MAXSYMLINKS root (start_dir env p) (split_on (CHR ''/'') p) = Inr cs"
  by (auto simp: resolve_text_def faulty_def start_dir_def split: if_splits option.splits)

lemma resolve_text_sound:
  assumes "fs_ok env root" "resolve_text creat env root p = Inr cs"
  shows "walk_end creat root cs"
proof (rule walk_path_sound)
  show "walk_path creat MAXSYMLINKS root (start_dir env p) (split_on (CHR ''/'') p) = Inr cs"
    using resolve_text_walk [OF assms(2)] by simp
  show "physical root (start_dir env p)" "is_dir_at root (start_dir env p)" using assms(1) by (auto simp: fs_ok_def start_dir_def)
  show "\<forall>c\<in>set (split_on (CHR ''/'') p). CHR ''/'' \<notin> set c" using split_on_pieces by blast
qed

text \<open>Walking a physical path from the root ends there.\<close>

lemma shallow_regular: "shallow m = ShRegular x t \<longleftrightarrow> m = Regular x t"
  by (cases m) auto

lemma walk_physical:
  assumes "walk_end creat root (cur @ cs)"
  shows "walk_path creat n root cur cs = Inr (cur @ cs)"
  using assms
proof (induction cs arbitrary: cur)
  case (Cons c cs)
  have ph: "physical root (cur @ c # cs)" using Cons.prems by (simp add: walk_end_def)
  then have nm: "fs_name c" by (simp add: physical_def)
  have dir: "is_dir_at root (cur @ [c])" if "cs \<noteq> []"
  proof -
    have "strict_prefix (cur @ [c]) (cur @ c # cs)" using that by (simp add: strict_prefix_def)
    then show ?thesis using ph by (auto simp: physical_def)
  qed
  have ih: "walk_path creat n root (cur @ [c]) cs = Inr (cur @ c # cs)" using Cons.IH [of "cur @ [c]"] Cons.prems by simp
  show ?case
  proof (cases "is_dir_at root (cur @ [c])")
    case True
    then obtain es where "lookup_inode root (cur @ [c]) = Some (Directory es)" by (auto simp: is_dir_at_def node_at_dir)
    then show ?thesis using nm ih by (simp add: fs_name_def)
  next
    case False
    then have [simp]: "cs = []" using dir by blast
    consider (reg) x s where "lookup_inode root (cur @ [c]) = Some (Regular x s)" | (fresh) "creat" "lookup_inode root (cur @ [c]) = None"
      using Cons.prems False shallow_regular by (auto simp: walk_end_def node_at_def)
    then show ?thesis using nm by cases (simp_all add: fs_name_def)
  qed
qed simp

lemma split_abs_text:
  assumes "\<forall>n\<in>set cs. fs_name n"
  shows "split_on (CHR ''/'') (abs_text cs) = [] # (if cs = [] then [[]] else cs)"
proof -
  have "split_on (CHR ''/'') (join_on (CHR ''/'') cs) = cs" if "cs \<noteq> []"
    by (rule split_join) (use assms that in \<open>auto simp: fs_name_def\<close>)
  then show ?thesis by (auto simp: abs_text_def split_on.simps)
qed

lemma resolve_abs_text:
  assumes "walk_end creat root cs" "resolve_text creat' env root (abs_text cs) = Inr q" "creat \<longrightarrow> creat'"
  shows "q = cs"
proof -
  have nm: "\<forall>n\<in>set cs. fs_name n" using assms(1) by (simp add: walk_end_def physical_def)
  have "walk_end creat' root ([] @ cs)" using assms(1,3) by (auto simp: walk_end_def)
  then have "walk_path creat' MAXSYMLINKS root [] cs = Inr cs" using walk_physical by fastforce
  moreover have "walk_path creat' MAXSYMLINKS root [] (split_on (CHR ''/'') (abs_text cs)) = Inr q"
    using resolve_text_walk [OF assms(2)] by (simp add: start_dir_def abs_text_def starts_with_def)
  ultimately show ?thesis using split_abs_text [OF nm] by (auto split: if_splits)
qed

text \<open>What the last component of a path text is.\<close>

lemma fs_name_filter: "\<forall>n\<in>set cs. fs_name n \<Longrightarrow> filter (\<lambda>c. c \<noteq> [] \<and> c \<noteq> ''.'') cs = cs"
  by (auto simp: filter_id_conv fs_name_def)

lemma abs_text_last:
  assumes "\<forall>n\<in>set (cs @ [c]). fs_name n"
  shows "path_file_name (abs_text (cs @ [c])) = Some c" "path_parent (abs_text (cs @ [c])) = Some (abs_text cs)"
proof -
  have sp: "split_on (CHR ''/'') (abs_text (cs @ [c])) = [] # cs @ [c]" using split_abs_text [OF assms] by simp
  have c: "fs_name c" using assms by simp
  show "path_file_name (abs_text (cs @ [c])) = Some c"
    using fs_name_filter [OF assms] c by (simp add: path_file_name_def sp fs_name_def)
  have tr: "trim_rev (c # xs) = c # xs" for xs using c by (cases xs) (auto simp: fs_name_def)
  have tr2: "trim_rev (rev cs @ [[]]) = rev cs @ [[]]"
  proof (cases cs rule: rev_cases)
    case (snoc ds d)
    then show ?thesis using assms by (cases "rev ds") (auto simp: fs_name_def)
  qed simp
  have pp: "path_parent (abs_text (cs @ [c])) =
      Some (if rev cs @ [[]] = [[]] then ''/'' else join_on (CHR ''/'') (rev (rev cs @ [[]])))"
    unfolding path_parent_def sp using tr [of "rev cs @ [[]]"] tr2 by (cases "rev cs") (simp_all add: Let_def del: trim_rev.simps)
  show "path_parent (abs_text (cs @ [c])) = Some (abs_text cs)"
    unfolding pp by (cases cs) (simp_all add: abs_text_def)
qed

lemma resolve_last_abs:
  assumes "walk_end False root cs" "resolve_last env root (abs_text cs) = Inr q"
  shows "q = cs"
proof (cases cs rule: rev_cases)
  case Nil
  then show ?thesis using assms(2) by (simp add: resolve_last_def abs_text_def path_file_name_def split_on.simps)
next
  case (snoc ds d)
  have nm: "\<forall>n\<in>set (ds @ [d]). fs_name n" using assms(1) snoc by (auto simp: walk_end_def physical_def)
  have "walk_end False root ds" using assms(1) snoc by (auto simp: walk_end_def physical_snoc)
  then show ?thesis using assms(2) resolve_abs_text [of False root ds False env]
    unfolding snoc resolve_last_def abs_text_last [OF nm]
    by (auto simp: res_simps abs_text_def)
qed



section \<open>Growth below a directory\<close>

definition no_links_below :: "inode \<Rightarrow> string list \<Rightarrow> bool" where
  "no_links_below root D \<longleftrightarrow> (\<forall>q t. prefix D q \<longrightarrow> node_at root q \<noteq> Some (ShLink t))"

definition keeps :: "inode \<Rightarrow> inode \<Rightarrow> bool" where
  "keeps root root' \<longleftrightarrow> (\<forall>q. is_dir_at root q \<longrightarrow> is_dir_at root' q) \<and>
     (\<forall>q t. node_at root q = Some (ShLink t) \<longrightarrow> node_at root' q = Some (ShLink t))"

definition grows_below :: "string list \<Rightarrow> inode \<Rightarrow> inode \<Rightarrow> bool" where
  "grows_below D root root' \<longleftrightarrow> same_outside {D} root root' \<and> keeps root root' \<and> no_links_below root' D"

lemma below_refl: "no_links_below root D \<Longrightarrow> grows_below D root root"
  by (simp add: grows_below_def keeps_def)

lemma below_trans: "grows_below D a b \<Longrightarrow> grows_below D b c \<Longrightarrow> grows_below D a c"
  using same_outside_trans by (auto simp: grows_below_def keeps_def)

lemma lookup_below: "lookup_inode root (cs @ q) = (case lookup_inode root cs of None \<Rightarrow> None | Some m \<Rightarrow> lookup_inode m q)"
  by (induction root cs rule: lookup_inode.induct) (auto split: option.splits)

lemma lookup_below_leaf:
  assumes "node_at root cs \<noteq> Some ShDirectory" "q \<noteq> []"
  shows "lookup_inode root (cs @ q) = None"
proof (cases "lookup_inode root cs")
  case (Some m)
  then show ?thesis using assms by (cases m; cases q) (auto simp: lookup_below node_at_def)
qed (simp add: lookup_below)

lemma grows_set:
  assumes "prefix D cs" "cs \<noteq> []" "is_dir_at root (butlast cs)" "node_at root cs \<noteq> Some ShDirectory" "no_links_below root D"
    and "\<And>m. v = Some m \<Longrightarrow> no_links_below m []"
  shows "grows_below D root (set_inode v root cs)"
proof -
  obtain es where es: "lookup_inode root (butlast cs) = Some (Directory es)" using assms(3) by (auto simp: is_dir_at_def node_at_dir)
  have at: "node_at (set_inode v root cs) (cs @ q) = (case v of None \<Rightarrow> None | Some m \<Rightarrow> node_at m q)" for q
    using lookup_set_inode [OF es assms(2)] by (simp add: node_at_def split: option.splits)
  have keep: "node_at (set_inode v root cs) q = Some k" if "node_at root q = Some k" "k = ShDirectory \<or> k = ShLink t" for q k t
  proof (cases "prefix cs q")
    case True
    then obtain r where r: "q = cs @ r" by (auto elim: prefixE)
    have "node_at root q \<noteq> Some (ShLink t)" using True assms(1,5) prefix_order.trans by (auto simp: no_links_below_def)
    then have "node_at root q = Some ShDirectory" using that by auto
    then show ?thesis using r assms(4) lookup_below_leaf [OF assms(4), of r] by (cases r) (auto simp: node_at_def)
  qed (use that set_inode_frame in simp)
  have "no_links_below (set_inode v root cs) D"
    unfolding no_links_below_def
  proof (intro allI impI)
    fix q t assume "prefix D q"
    show "node_at (set_inode v root cs) q \<noteq> Some (ShLink t)"
    proof (cases "prefix cs q")
      case True
      then obtain r where "q = cs @ r" by (auto elim: prefixE)
      then show ?thesis using at [of r] assms(6) by (auto simp: no_links_below_def split: option.splits)
    next
      case False
      then show ?thesis using \<open>prefix D q\<close> assms(5) set_inode_frame [OF False] by (simp add: no_links_below_def)
    qed
  qed
  then show ?thesis using keep set_inode_confined [of D "{D}" cs] assms(1) by (auto simp: grows_below_def keeps_def is_dir_at_def)
qed

definition nontrivial :: "string \<Rightarrow> bool" where
  "nontrivial c \<longleftrightarrow> c \<noteq> [] \<and> c \<noteq> ''.''"

lemma path_components_filter: "path_components p = filter nontrivial (split_on (CHR ''/'') p)"
  unfolding path_components_def nontrivial_def ..

lemma walk_simps:
  "\<not> nontrivial c \<Longrightarrow> walk_path creat n root cur (c # cs) = walk_path creat n root cur cs"
  "walk_path creat n root cur (''..'' # cs) = walk_path creat n root (butlast cur) cs"
  "nontrivial c \<Longrightarrow> c \<noteq> ''..'' \<Longrightarrow> is_dir_at root (cur @ [c]) \<Longrightarrow> walk_path creat n root cur (c # cs) = walk_path creat n root (cur @ [c]) cs"
  "nontrivial c \<Longrightarrow> c \<noteq> ''..'' \<Longrightarrow> node_at root (cur @ [c]) = Some (ShRegular x t) \<Longrightarrow> walk_path creat n root cur [c] = Inr (cur @ [c])"
  "nontrivial c \<Longrightarrow> c \<noteq> ''..'' \<Longrightarrow> node_at root (cur @ [c]) = None \<Longrightarrow> walk_path True n root cur [c] = Inr (cur @ [c])"
  "nontrivial c \<Longrightarrow> c \<noteq> ''..'' \<Longrightarrow> node_at root (cur @ [c]) = Some (ShLink s) \<Longrightarrow> s \<noteq> [] \<Longrightarrow>
     walk_path creat (Suc m) root cur (c # cs) = walk_path creat m root (if starts_with s ''/'' then [] else cur) (split_on (CHR ''/'') s @ cs)"
proof -
  assume "nontrivial c" "c \<noteq> ''..''" "node_at root (cur @ [c]) = Some (ShLink s)" "s \<noteq> []"
  moreover from this(3) have "lookup_inode root (cur @ [c]) = Some (SymLink s)"
    by (auto simp: node_at_def elim!: shallow.elims)
  ultimately show "walk_path creat (Suc m) root cur (c # cs) =
    walk_path creat m root (if starts_with s ''/'' then [] else cur) (split_on (CHR ''/'') s @ cs)"
    by (simp add: nontrivial_def)
qed (auto simp: nontrivial_def is_dir_at_def node_at_dir, auto simp: node_at_def shallow_regular)

declare walk_path.simps(2) [simp del]

lemma walk_induct [consumes 1, case_names nil triv up leaf dir link]:
  assumes "walk_path creat n root cur cs = Inr r"
    and "\<And>n. P n r []"
    and "\<And>n cur c cs. \<not> nontrivial c \<Longrightarrow> walk_path creat n root cur cs = Inr r \<Longrightarrow> P n cur cs \<Longrightarrow> P n cur (c # cs)"
    and "\<And>n cur cs. walk_path creat n root (butlast cur) cs = Inr r \<Longrightarrow> P n (butlast cur) cs \<Longrightarrow> P n cur (''..'' # cs)"
    and "\<And>n cur c. nontrivial c \<Longrightarrow> c \<noteq> ''..'' \<Longrightarrow> r = cur @ [c] \<Longrightarrow>
           (\<exists>x t. node_at root (cur @ [c]) = Some (ShRegular x t)) \<or> creat \<and> node_at root (cur @ [c]) = None \<Longrightarrow> P n cur [c]"
    and "\<And>n cur c cs. nontrivial c \<Longrightarrow> c \<noteq> ''..'' \<Longrightarrow> is_dir_at root (cur @ [c]) \<Longrightarrow>
           walk_path creat n root (cur @ [c]) cs = Inr r \<Longrightarrow> P n (cur @ [c]) cs \<Longrightarrow> P n cur (c # cs)"
    and "\<And>m cur c cs s. nontrivial c \<Longrightarrow> c \<noteq> ''..'' \<Longrightarrow> node_at root (cur @ [c]) = Some (ShLink s) \<Longrightarrow> s \<noteq> [] \<Longrightarrow>
           walk_path creat (Suc m) root cur (c # cs) = Inr r \<Longrightarrow>
           P m (if starts_with s ''/'' then [] else cur) (split_on (CHR ''/'') s @ cs) \<Longrightarrow> P (Suc m) cur (c # cs)"
  shows "P n cur cs"
  using assms(1)
proof (induction n arbitrary: cur cs rule: less_induct)
  case (less n)
  from less.prems show ?case
  proof (induction cs arbitrary: cur)
    case Nil
    then show ?case using assms(2) by simp
  next
    case (Cons c cs)
    consider (triv) "\<not> nontrivial c" | (up) "c = ''..''" | (nm) "nontrivial c" "c \<noteq> ''..''" by blast
    then show ?case
    proof cases
      case triv
      then show ?thesis using Cons assms(3) by (simp add: walk_simps)
    next
      case up
      then show ?thesis using Cons assms(4) by (simp add: walk_simps)
    next
      case nm
      show ?thesis
      proof (cases "node_at root (cur @ [c])")
        case None
        then have "creat" "cs = []" "r = cur @ [c]"
          using Cons.prems nm by (auto simp: walk_path.simps(2) node_at_def nontrivial_def split: if_splits)
        then show ?thesis using None nm assms(5) by blast
      next
        case (Some k)
        show ?thesis
        proof (cases k)
          case (ShRegular x s)
          then have l: "lookup_inode root (cur @ [c]) = Some (Regular x s)" using Some by (auto simp: node_at_def shallow_regular)
          have "cs = []" "r = cur @ [c]"
            using Cons.prems nm l by (auto simp: walk_path.simps(2) nontrivial_def split: if_splits)
          then show ?thesis using ShRegular Some nm assms(5) by blast
        next
          case ShDirectory
          then have d: "is_dir_at root (cur @ [c])" using Some by (simp add: is_dir_at_def)
          then show ?thesis using Cons nm assms(6) by (simp add: walk_simps)
        next
          case (ShLink s)
          then have l: "lookup_inode root (cur @ [c]) = Some (SymLink s)" using Some by (auto simp: node_at_def elim!: shallow.elims)
          obtain m where m: "n = Suc m" "s \<noteq> []"
            using Cons.prems nm l by (auto simp: walk_path.simps(2) nontrivial_def split: nat.splits if_splits)
          then have "P m (if starts_with s ''/'' then [] else cur) (split_on (CHR ''/'') s @ cs)"
            using less.IH [of m] Cons.prems nm ShLink Some by (simp add: walk_simps)
          then show ?thesis using m Cons.prems nm ShLink Some assms(7) by blast
        qed
      qed
    qed
  qed
qed

text \<open>Empty and dot components do not change where a successful walk ends.\<close>

lemma walk_delete:
  "walk_path creat n root cur xs = Inr r \<Longrightarrow> xs = ys @ c # zs \<Longrightarrow> \<not> nontrivial c \<Longrightarrow> walk_path creat n root cur (ys @ zs) = Inr r"
proof (induction arbitrary: ys rule: walk_induct)
  case (triv n cur a xs ys)
  then show ?case by (cases ys) (auto simp: walk_simps)
next
  case (link m cur a xs s ys)
  then show ?case by (cases ys) (auto simp: walk_simps simp flip: append_assoc)
qed (auto simp: walk_simps nontrivial_def Cons_eq_append_conv)

lemma walk_insert:
  assumes "walk_path False n root cur xs = Inr D" "is_dir_at root D" "xs = ys @ zs" "\<not> nontrivial c"
  shows "walk_path False n root cur (ys @ c # zs) = Inr D"
  using assms(1,3)
proof (induction arbitrary: ys rule: walk_induct)
  case (leaf n cur a ys)
  then show ?case using assms(2) by (auto simp: is_dir_at_def)
next
  case (link m cur a xs s ys)
  show ?case
  proof (cases ys)
    case Nil
    then show ?thesis using link assms(4) by (simp add: walk_simps(1))
  next
    case (Cons y ys')
    then show ?thesis using link assms(4) by (auto simp: walk_simps simp flip: append_assoc)
  qed
qed (use assms(4) in \<open>auto simp: walk_simps Cons_eq_append_conv\<close>)

lemma walk_filter:
  "walk_path creat n root cur (ys @ cs) = Inr r \<Longrightarrow> walk_path creat n root cur (ys @ filter nontrivial cs) = Inr r"
proof (induction cs arbitrary: ys)
  case (Cons c cs)
  show ?case
  proof (cases "nontrivial c")
    case True
    then show ?thesis using Cons.IH [of "ys @ [c]"] Cons.prems by simp
  next
    case False
    then show ?thesis using Cons.IH [OF walk_delete [OF Cons.prems refl False]] by simp
  qed
qed simp

lemma walk_unfilter:
  "walk_path False n root cur (ys @ filter nontrivial cs) = Inr D \<Longrightarrow> is_dir_at root D \<Longrightarrow> walk_path False n root cur (ys @ cs) = Inr D"
proof (induction cs arbitrary: ys)
  case (Cons c cs)
  show ?case
  proof (cases "nontrivial c")
    case True
    then show ?thesis using Cons.IH [of "ys @ [c]"] Cons.prems by simp
  next
    case False
    then have "walk_path False n root cur (ys @ cs) = Inr D" using Cons by simp
    then show ?thesis using walk_insert [OF _ Cons.prems(2) refl False] by simp
  qed
qed simp

lemma walk_append:
  assumes "walk_path False n root cur xs = Inr d" "is_dir_at root d"
  shows "\<exists>m. \<forall>creat ys. walk_path creat n root cur (xs @ ys) = walk_path creat m root d ys"
  using assms
proof (induction rule: walk_induct)
  case (leaf n cur c)
  then show ?case by (auto simp: is_dir_at_def)
qed (auto simp: walk_simps simp flip: append_assoc)

lemma walk_below:
  assumes "walk_path creat n root cur cs = Inr p" "prefix D cur" "no_links_below root D" "''..'' \<notin> set cs" "\<forall>c\<in>set cs. nontrivial c"
  shows "p = cur @ cs"
  using assms
proof (induction cs arbitrary: cur)
  case (Cons c cs)
  have c: "\<not> (c = [] \<or> c = ''.'')" "c \<noteq> ''..''" using Cons.prems by (auto simp: nontrivial_def)
  have pre: "prefix D (cur @ [c])" using Cons.prems(2) by simp
  then have "node_at root (cur @ [c]) \<noteq> Some (ShLink t)" for t using Cons.prems(3) by (simp add: no_links_below_def)
  then have "walk_path creat n root (cur @ [c]) cs = Inr p \<or> cs = [] \<and> p = cur @ [c]"
    using Cons.prems(1) c by (auto simp: walk_path.simps(2) node_at_def split: option.splits inode.splits if_splits)
  then show ?case using Cons.IH [OF _ pre] Cons.prems(3,4,5) by auto
qed simp

lemma walk_mono:
  assumes "walk_path False n root cur cs = Inr D" "is_dir_at root D" "keeps root root'"
  shows "walk_path False n root' cur cs = Inr D"
  using assms(1)
proof (induction rule: walk_induct)
  case (leaf n cur c)
  then show ?case using assms(2) by (auto simp: is_dir_at_def)
next
  case (dir n cur c cs)
  then show ?case using assms(3) by (simp add: walk_simps keeps_def)
next
  case (link m cur c cs s)
  then have "node_at root' (cur @ [c]) = Some (ShLink s)" using assms(3) by (simp add: keeps_def)
  then show ?case using link by (simp add: walk_simps)
qed (simp_all add: walk_simps)


section \<open>Path texts and their components\<close>

lemma filter_trim_rev: "filter nontrivial (trim_rev xs) = filter nontrivial xs"
  by (induction xs rule: trim_rev.induct) (auto simp: nontrivial_def)

lemma trim_rev_subset: "set (trim_rev xs) \<subseteq> set xs"
  by (induction xs rule: trim_rev.induct) auto

lemma trim_rev_last: "xs \<noteq> [] \<Longrightarrow> last (trim_rev xs) = last xs"
  by (induction xs rule: trim_rev.induct) auto

lemma trim_rev_nontrivial: "trim_rev xs = x # y # ys \<Longrightarrow> nontrivial x"
  by (induction xs rule: trim_rev.induct) (auto simp: nontrivial_def split: if_splits)

lemma absolute_iff: "starts_with p ''/'' \<longleftrightarrow> hd (split_on (CHR ''/'') p) = [] \<and> p \<noteq> []"
  by (cases p) (auto simp: starts_with_def split_on.simps split: list.splits)

lemma path_components_join:
  assumes "ps \<noteq> []" "\<forall>p\<in>set ps. CHR ''/'' \<notin> set p"
  shows "path_components (join_on (CHR ''/'') ps) = filter nontrivial ps"
  using split_join [OF assms] by (simp add: path_components_filter)

lemma path_parent_cases:
  assumes "path_parent p = Some d"
  obtains (single) x where "trim_rev (rev (split_on (CHR ''/'') p)) = [x]" "x \<noteq> []" "d = []"
    | (more) x y ys where "trim_rev (rev (split_on (CHR ''/'') p)) = x # y # ys" "nontrivial x"
        "d = (if trim_rev (y # ys) = [[]] then ''/'' else join_on (CHR ''/'') (rev (trim_rev (y # ys))))"
  using assms trim_rev_nontrivial by (auto simp: path_parent_def Let_def split: list.splits if_splits)

lemma split_components: "path_components p = rev (filter nontrivial (trim_rev (rev (split_on (CHR ''/'') p))))"
  by (simp add: path_components_filter filter_trim_rev rev_filter)

lemma path_parent_components:
  assumes "path_parent p = Some d"
  shows "path_components d = butlast (path_components p)"
  using assms
proof (cases rule: path_parent_cases)
  case (single x)
  then show ?thesis unfolding split_components [of p] by (simp add: path_components_def)
next
  case (more x y ys)
  have sub: "set (trim_rev (y # ys)) \<subseteq> set (split_on (CHR ''/'') p)"
    using trim_rev_subset [of "y # ys"] trim_rev_subset [of "rev (split_on (CHR ''/'') p)"] more(1) by auto
  then have fr: "\<forall>q\<in>set (rev (trim_rev (y # ys))). CHR ''/'' \<notin> set q" using split_on_pieces by auto
  have "path_components d = rev (filter nontrivial (trim_rev (y # ys)))"
  proof (cases "trim_rev (y # ys) = [[]]")
    case True
    then show ?thesis using more(3) by (simp add: path_components_def nontrivial_def split_on.simps)
  next
    case False
    have "rev (trim_rev (y # ys)) \<noteq> []" using trim_rev_join [of "y # ys"] by simp
    from path_components_join [OF this fr] show ?thesis using more(3) False by (simp add: rev_filter)
  qed
  also have "\<dots> = butlast (path_components p)"
    using more(2) by (simp add: split_components [of p] more(1) filter_trim_rev)
  finally show ?thesis .
qed

lemma path_parent_absolute:
  assumes "path_parent p = Some d"
  shows "starts_with (if d = [] then ''.'' else d) ''/'' \<longleftrightarrow> starts_with p ''/''"
  using assms
proof (cases rule: path_parent_cases)
  case (single x)
  have "hd (split_on (CHR ''/'') p) = last (rev (split_on (CHR ''/'') p))" by (simp add: last_rev)
  also have "\<dots> = x" using trim_rev_last [of "rev (split_on (CHR ''/'') p)"] single(1) by simp
  finally have "\<not> starts_with p ''/''" using single(2) by (simp add: absolute_iff)
  then show ?thesis using single(3) by (simp add: starts_with_def)
next
  case (more x y ys)
  let ?t = "trim_rev (y # ys)"
  have "last ?t = last (y # ys)" using trim_rev_last by blast
  also have "\<dots> = last (rev (split_on (CHR ''/'') p))" using trim_rev_last [of "rev (split_on (CHR ''/'') p)"] more(1) by simp
  finally have l: "last ?t = hd (split_on (CHR ''/'') p)" by (simp add: last_rev)
  have p: "p \<noteq> []" using more(1) by (auto simp: split_on.simps)
  have tne: "?t \<noteq> []" using trim_rev_join [of "y # ys"] by simp
  show ?thesis
  proof (cases "?t = [[]]")
    case True
    then have "starts_with p ''/''" using l p by (simp add: absolute_iff)
    then show ?thesis using more(3) True by (simp add: starts_with_def)
  next
    case False
    have fr: "\<forall>q\<in>set (rev ?t). CHR ''/'' \<notin> set q"
      using trim_rev_subset [of "y # ys"] trim_rev_subset [of "rev (split_on (CHR ''/'') p)"] more(1) split_on_pieces by fastforce
    have "split_on (CHR ''/'') d = rev ?t" using split_join [OF _ fr] tne more(3) False by simp
    moreover from this have "d \<noteq> []" using False by (auto simp: split_on.simps)
    ultimately show ?thesis using l p tne by (simp add: absolute_iff hd_rev)
  qed
qed

lemma path_file_name_components:
  "path_file_name p = (if path_components p = [] \<or> last (path_components p) = ''..'' then None else Some (last (path_components p)))"
  by (cases "path_components p" rule: rev_cases) (auto simp: path_file_name_def path_components_def)

lemma path_parent_exists: "path_components p \<noteq> [] \<Longrightarrow> \<exists>d. path_parent p = Some d"
  by (auto simp: path_parent_def split_components Let_def nontrivial_def split: list.splits if_splits)


section \<open>Calls below a directory without links\<close>

text \<open>The components \<open>lc\<close> lead from \<open>start\<close> to the directory \<open>D\<close>, below which there are no links.\<close>

definition mounted :: "inode \<Rightarrow> string list \<Rightarrow> string list \<Rightarrow> string list \<Rightarrow> bool" where
  "mounted root start lc D \<longleftrightarrow>
     walk_path False MAXSYMLINKS root start lc = Inr D \<and> is_dir_at root D \<and> no_links_below root D"

lemma mounted_grows: "mounted root start lc D \<Longrightarrow> grows_below D root root' \<Longrightarrow> mounted root' start lc D"
  using walk_mono [of MAXSYMLINKS root start lc D root'] by (simp add: mounted_def grows_below_def keeps_def)

lemma mounted_refl: "mounted root start lc D \<Longrightarrow> grows_below D root root"
  by (simp add: mounted_def below_refl)

definition share_path :: "fs_env \<Rightarrow> string list \<Rightarrow> string list \<Rightarrow> string \<Rightarrow> string list \<Rightarrow> bool" where
  "share_path env start lc q rest \<longleftrightarrow>
     start_dir env q = start \<and> path_components q = lc @ rest \<and> rest \<noteq> [] \<and> ''..'' \<notin> set rest"

lemma components_nontrivial: "\<forall>c\<in>set (path_components q). nontrivial c"
  by (simp add: path_components_filter)

lemma walk_components: "resolve_text creat env root q = Inr p \<Longrightarrow>
    walk_path creat MAXSYMLINKS root (start_dir env q) (path_components q) = Inr p"
  using resolve_text_walk [of creat env root q p] walk_filter [of creat _ root _ "[]"] by (auto simp: path_components_filter)

lemma resolve_below:
  assumes "mounted root start lc D" "share_path env start lc q rest" "resolve_text creat env root q = Inr p"
  shows "p = D @ rest"
proof -
  have w: "walk_path creat MAXSYMLINKS root start (lc @ rest) = Inr p"
    using walk_components [OF assms(3)] assms(2) by (simp add: share_path_def)
  obtain m where "walk_path creat MAXSYMLINKS root start (lc @ rest) = walk_path creat m root D rest"
    using walk_append assms(1) unfolding mounted_def by blast
  with w have "walk_path creat m root D rest = Inr p" by simp
  moreover have "\<forall>c\<in>set rest. nontrivial c" using assms(2) components_nontrivial [of q] by (simp add: share_path_def)
  ultimately show ?thesis using walk_below [of creat m root D rest p D] assms(1,2) by (simp add: mounted_def share_path_def)
qed

abbreviation parent_text :: "string \<Rightarrow> string" where
  "parent_text d \<equiv> (if d = [] then ''.'' else d)"

lemma parent_text_components: "path_components (parent_text d) = path_components d"
  by (simp add: path_components_def)

lemma parent_start: "path_parent q = Some d \<Longrightarrow> start_dir env (parent_text d) = start_dir env q"
  using path_parent_absolute by (simp only: start_dir_def)

lemma resolve_parent_below:
  assumes "mounted root start lc D" "share_path env start lc q rest" "path_parent q = Some d"
    and "resolve_text creat env root (parent_text d) = Inr p" "creat = False"
  shows "p = D @ butlast rest"
proof (cases "butlast rest = []")
  case True
  have pc: "path_components (parent_text d) = lc"
    unfolding parent_text_components using path_parent_components [OF assms(3)] assms(2) True by (auto simp: share_path_def butlast_append)
  have "start_dir env (parent_text d) = start" using parent_start [OF assms(3)] assms(2) by (simp only: share_path_def)
  then have "walk_path False MAXSYMLINKS root start lc = Inr p" using walk_components [OF assms(4)] pc assms(5) by simp
  then show ?thesis using assms(1) True by (simp add: mounted_def)
next
  case False
  have "share_path env start lc (parent_text d) (butlast rest)"
    using path_parent_components [OF assms(3)] parent_start [OF assms(3)] assms(2) False
    unfolding share_path_def parent_text_components by (auto simp: butlast_append dest: in_set_butlastD)
  then show ?thesis using resolve_below assms(1,4) by blast
qed

lemma node_at_parent: "node_at root (cs @ [c]) = Some k \<Longrightarrow> is_dir_at root cs"
proof (induction cs arbitrary: root)
  case Nil
  then show ?case by (cases root) (auto simp: is_dir_at_def)
next
  case (Cons x cs)
  then show ?case by (cases root) (auto simp: is_dir_at_def split: option.splits)
qed

lemma no_links_leaf [simp]: "no_links_below (Regular c t) []" "no_links_below (Directory []) []"
proof -
  show "no_links_below (Regular c t) []"
    unfolding no_links_below_def by (metis list.exhaust node_at_simps(1,3) node_kind.distinct(3) option.distinct(1) option.inject shallow.simps(1))
  show "no_links_below (Directory []) []"
    unfolding no_links_below_def
    by (metis list.exhaust map_of.simps(1) node_at_simps(1,2) node_kind.distinct(5) option.distinct(1) option.inject option.simps(4) shallow.simps(2))
qed

lemma fs_mkdir_grows:
  assumes "mounted root start lc D" "share_path env start lc q rest" "fs_mkdir env root q = (r, root')"
  shows "grows_below D root root'"
proof (cases "root' = root")
  case False
  obtain name d dir es where *: "path_file_name q = Some name" "path_parent q = Some d"
      "resolve_text False env root (parent_text d) = Inr dir" "lookup_inode root dir = Some (Directory es)" "map_of es name = None"
      "root' = set_inode (Some (Directory [])) root (dir @ [name])"
    using assms(3) False by (auto simp: fs_mkdir_def split: option.splits sum.splits inode.splits if_splits)
  have "node_at root (dir @ [name]) = None" using *(4,5) by (simp add: node_at_def lookup_below)
  moreover have "prefix D (dir @ [name])" using resolve_parent_below [OF assms(1,2) *(2,3)] by simp
  ultimately show ?thesis unfolding *(6) using *(4) assms(1)
    by (intro grows_set) (auto simp: is_dir_at_def node_at_dir mounted_def)
qed (use assms(1) mounted_refl in auto)


lemma resolve_text_known:
  assumes "fs_ok env root" "p \<noteq> []" "walk_path False MAXSYMLINKS root (start_dir env p) (split_on (CHR ''/'') p) = Inr D"
  shows "resolve_text False env root p \<noteq> Inl ''No such file or directory''" "resolve_text False env root p = Inr q \<Longrightarrow> q = D"
  using assms by (auto simp: resolve_text_def start_dir_def faulty_def fs_ok_def split: option.splits if_splits)

lemma mkdir_directly_below:
  assumes "mounted root start lc D" "share_path env start lc q [name]" "fs_ok env root"
  shows "fst (fs_mkdir env root q) \<noteq> Inl None"
proof -
  have nm: "path_file_name q = Some name" using assms(2) by (auto simp: path_file_name_components share_path_def)
  obtain d where d: "path_parent q = Some d" using path_parent_exists assms(2) by (fastforce simp: share_path_def)
  have pc: "filter nontrivial (split_on (CHR ''/'') (parent_text d)) = lc"
    using path_parent_components [OF d] assms(2) unfolding path_components_filter [symmetric] parent_text_components
    by (simp add: share_path_def butlast_append)
  have st: "start_dir env (parent_text d) = start" using parent_start [OF d] assms(2) by (simp only: share_path_def)
  have "walk_path False MAXSYMLINKS root start (split_on (CHR ''/'') (parent_text d)) = Inr D"
    using walk_unfilter [of MAXSYMLINKS root start "[]" "split_on (CHR ''/'') (parent_text d)" D] pc assms(1) by (simp add: mounted_def)
  then have "resolve_text False env root (parent_text d) \<noteq> Inl ''No such file or directory''"
    "\<And>p. resolve_text False env root (parent_text d) = Inr p \<Longrightarrow> p = D"
    using resolve_text_known [OF assms(3), of "parent_text d" D] st by (simp_all only: split: if_splits) simp_all
  moreover obtain es where "lookup_inode root D = Some (Directory es)" using assms(1) by (auto simp: mounted_def is_dir_at_def node_at_dir)
  ultimately show ?thesis using nm d
    by (cases "resolve_text False env root (parent_text d)") (auto simp: fs_mkdir_def split: option.splits if_splits)
qed

lemma mkdir_frame:
  assumes "mounted root start lc D" "share_path env start lc q rest" "fs_mkdir env root q = (r, root')" "length (D @ rest) < length y"
  shows "node_at root' y = node_at root y"
proof (cases "root' = root")
  case False
  obtain name d dir es where *: "path_parent q = Some d"
      "resolve_text False env root (parent_text d) = Inr dir" "lookup_inode root dir = Some (Directory es)" "map_of es name = None"
      "root' = set_inode (Some (Directory [])) root (dir @ [name])"
    using assms(3) False by (auto simp: fs_mkdir_def split: option.splits sum.splits inode.splits if_splits)
  have none: "node_at root (dir @ [name]) = None" using *(3,4) by (simp add: node_at_def lookup_below)
  show ?thesis
  proof (cases "prefix (dir @ [name]) y")
    case True
    then obtain z where z: "y = (dir @ [name]) @ z" by (auto elim: prefixE)
    have "dir = D @ butlast rest" by (rule resolve_parent_below [OF assms(1,2) *(1,2) refl])
    then have "z \<noteq> []" using z assms(2,4) by (auto simp: share_path_def)
    moreover have "lookup_inode root' y = lookup_inode (Directory []) z"
      using lookup_set_inode [of root "dir @ [name]" es "Some (Directory [])" z] *(3,5) z by simp
    ultimately show ?thesis using z lookup_below_leaf [of root "dir @ [name]" z] none by (cases z) (auto simp: node_at_def)
  qed (use *(5) set_inode_frame in simp)
qed simp

lemma create_dir_all_frame:
  assumes "mounted root start lc D" "share_path env start lc q rest" "fs_create_dir_all env root q = (r, root')" "fs_ok env root"
  shows "grows_below D root root' \<and> (\<forall>y. length (D @ rest) < length y \<longrightarrow> node_at root' y = node_at root y)"
  using assms
proof (induction env root q arbitrary: rest r root' rule: fs_create_dir_all.induct)
  case (1 env root q)
  have ne: "q \<noteq> []" using 1(3) by (auto simp: share_path_def path_components_def)
  obtain m root1 where m: "fs_mkdir env root q = (m, root1)" by fastforce
  note g1 = fs_mkdir_grows [OF 1(2,3) m] and f1 = mkdir_frame [OF 1(2,3) m]
  show ?case
  proof (cases "m = Inl None")
    case False
    then have "root' = root1 \<or> root' = root" using 1(4) ne m by (auto split: sum.splits option.splits if_splits)
    then show ?thesis using g1 f1 mounted_refl [OF 1(2)] by auto
  next
    case True
    have more: "butlast rest \<noteq> []"
    proof
      assume "butlast rest = []"
      then obtain name where "rest = [name]" using 1(3) by (cases rest rule: rev_cases) (auto simp: share_path_def)
      then show False using mkdir_directly_below [OF 1(2)] 1(3,5) True m by fastforce
    qed
    obtain d where d: "path_parent q = Some d" using path_parent_exists 1(3) by (fastforce simp: share_path_def)
    have dne: "d \<noteq> []" using path_parent_components [OF d] 1(3) more by (auto simp: share_path_def path_components_def butlast_append)
    have sp: "share_path env start lc d (butlast rest)"
      using path_parent_components [OF d] parent_start [OF d, of env] 1(3) more dne
      unfolding share_path_def by (auto simp: butlast_append dest: in_set_butlastD)
    obtain r2 root2 where r2: "fs_create_dir_all env root d = (r2, root2)" by fastforce
    have g2: "grows_below D root root2" and f2: "\<And>y. length (D @ rest) < length y \<Longrightarrow> node_at root2 y = node_at root y"
      using 1(1) [OF ne m [symmetric] True refl d 1(2) sp r2 1(5)] by auto
    obtain m3 root3 where m3: "fs_mkdir env root2 q = (m3, root3)" by fastforce
    note mt2 = mounted_grows [OF 1(2) g2]
    note g3 = fs_mkdir_grows [OF mt2 1(3) m3] and f3 = mkdir_frame [OF mt2 1(3) m3]
    have "root' = root2 \<or> root' = root3"
      using 1(4) ne m True d r2 m3 by (auto split: sum.splits if_splits)
    then show ?thesis using g2 g3 f2 f3 below_trans [of D root root2 root3] by auto
  qed
qed

lemmas create_dir_all_grows = create_dir_all_frame [THEN conjunct1]

lemma create_grows:
  assumes "mounted root start lc D" "share_path env start lc q rest" "fs_create env root q = (r, root')" "fs_ok env root"
  shows "grows_below D root root' \<and> (\<forall>cs. r = Inr cs \<longrightarrow> cs = D @ rest \<and> is_dir_at root' (butlast cs) \<and> node_at root' cs = Some (ShRegular [] (fe_now env)))"
proof (cases r)
  case (Inl e)
  then have "root' = root" using assms(3) by (auto simp: fs_create_def split: sum.splits option.splits inode.splits)
  then show ?thesis using mounted_refl [OF assms(1)] Inl by simp
next
  case (Inr cs)
  then have *: "resolve_text True env root q = Inr cs" "node_at root cs \<noteq> Some ShDirectory"
      "root' = set_inode (Some (Regular [] (fe_now env))) root cs"
    using assms(3) by (auto simp: fs_create_def res_simps faulty_def node_at_dir split: sum.splits option.splits inode.splits)
  have cs: "cs = D @ rest" by (rule resolve_below [OF assms(1,2) *(1)])
  have ne: "cs \<noteq> []" using cs assms(2) by (simp add: share_path_def)
  have dir: "is_dir_at root (butlast cs)"
    using resolve_text_sound [OF assms(4) *(1)] ne by (cases cs rule: rev_cases) (auto simp: walk_end_def physical_snoc)
  have g: "grows_below D root root'" unfolding *(3)
    by (rule grows_set) (use cs ne dir *(2) assms(1) in \<open>auto simp: mounted_def\<close>)
  obtain es where es: "lookup_inode root (butlast cs) = Some (Directory es)" using dir by (auto simp: is_dir_at_def node_at_dir)
  have "node_at root' cs = Some (ShRegular [] (fe_now env))"
    using lookup_set_inode [OF es ne, of _ "[]"] by (simp add: *(3) node_at_def)
  then show ?thesis using g dir cs Inr by (auto simp: grows_below_def keeps_def)
qed

lemma write_grows:
  assumes "no_links_below root D" "rest \<noteq> []" "is_dir_at root (butlast (D @ rest))" "node_at root (D @ rest) \<noteq> Some ShDirectory"
    and "fs_write env root p (D @ rest) c = (r, root')"
  shows "grows_below D root root'"
proof -
  obtain x t where "root' = set_inode (Some (Regular x t)) root (D @ rest)"
    using assms(5) by (auto simp: fs_write_def split: option.splits)
  then show ?thesis using assms(1-4) by (auto intro!: grows_set)
qed

lemma resolve_last_below:
  assumes "mounted root start lc D" "share_path env start lc q rest" "resolve_last env root q = Inr p"
  shows "p = D @ rest"
proof -
  obtain d where d: "path_parent q = Some d" using path_parent_exists assms(2) by (fastforce simp: share_path_def)
  have nm: "path_file_name q = Some (last rest)"
  proof -
    have "rest \<noteq> []" "last rest \<noteq> ''..''" "path_components q = lc @ rest"
      using assms(2) last_in_set [of rest] unfolding share_path_def by metis+
    then show ?thesis by (simp add: path_file_name_components)
  qed
  obtain dir where "resolve_text False env root (parent_text d) = Inr dir" "p = dir @ [last rest]"
    using assms(3) d nm by (auto simp: resolve_last_def res_simps)
  then show ?thesis using resolve_parent_below [OF assms(1,2) d] assms(2) by (auto simp: share_path_def)
qed

lemma unlink_grows:
  assumes "mounted root start lc D" "share_path env start lc q rest" "fs_unlink env root q = (r, root')"
  shows "grows_below D root root'"
proof (cases "root' = root")
  case False
  then obtain cs m where *: "resolve_last env root q = Inr cs" "root' = set_inode None root cs" "lookup_inode root cs = Some m"
      "node_at root cs \<noteq> Some ShDirectory"
    using assms(3) by (auto simp: fs_unlink_def res_simps faulty_def node_at_def split: sum.splits option.splits inode.splits)
  have cs: "cs = D @ rest" by (rule resolve_last_below [OF assms(1,2) *(1)])
  have ne: "cs \<noteq> []" using cs assms(2) by (simp add: share_path_def)
  then have "is_dir_at root (butlast cs)"
    using node_at_parent [of root "butlast cs" "last cs"] *(3) by (simp add: node_at_def)
  then show ?thesis unfolding *(2) using cs ne *(4) assms(1) by (intro grows_set) (auto simp: mounted_def)
qed (use assms(1) mounted_refl in auto)

lemma rename_grows:
  assumes "mounted root start lc D" "share_path env start lc p rest" "share_path env start lc q rest'" "fs_rename env root p q = (r, root')"
  shows "grows_below D root root'"
proof (cases "root' = root")
  case False
  then obtain src dst m where *: "resolve_last env root p = Inr src" "resolve_last env root q = Inr dst"
      "lookup_inode root src = Some m" "node_at root src \<noteq> Some ShDirectory" "is_dir_at root (butlast dst)"
      "node_at root dst \<noteq> Some ShDirectory" "root' = set_inode (Some m) (set_inode None root src) dst"
    using assms(4)
    by (auto simp: fs_rename_def res_simps faulty_def node_at_def is_dir_at_def split: sum.splits option.splits inode.splits if_splits)
  have src: "src = D @ rest" "src \<noteq> []" using resolve_last_below [OF assms(1,2) *(1)] assms(2) by (simp_all add: share_path_def)
  have dst: "dst = D @ rest'" "dst \<noteq> []" using resolve_last_below [OF assms(1,3) *(2)] assms(3) by (simp_all add: share_path_def)
  have sp: "is_dir_at root (butlast src)"
    using node_at_parent [of root "butlast src" "last src"] *(3) src(2) by (simp add: node_at_def)
  let ?root = "set_inode None root src"
  have g: "grows_below D root ?root" by (rule grows_set) (use src sp *(4) assms(1) in \<open>auto simp: mounted_def\<close>)
  have m: "no_links_below m []"
  proof -
    have "node_at root src \<noteq> Some (ShLink s)" for s using assms(1) src(1) by (simp add: mounted_def no_links_below_def)
    then have "m \<noteq> SymLink s" for s using *(3) by (metis node_at_def option.map(2) shallow.simps(3))
    then have "\<exists>c t. m = Regular c t" using *(3,4) by (cases m) (auto simp: node_at_def)
    then show ?thesis by auto
  qed
  have "node_at ?root dst \<noteq> Some ShDirectory"
  proof (cases "prefix src dst")
    case True
    then obtain z where "dst = src @ z" by (auto elim: prefixE)
    moreover obtain es where "lookup_inode root (butlast src) = Some (Directory es)" using sp by (auto simp: is_dir_at_def node_at_dir)
    ultimately show ?thesis using lookup_set_inode [OF _ src(2), of root es None z] by (simp add: node_at_def)
  qed (use *(6) set_inode_frame in simp)
  moreover have "is_dir_at ?root (butlast dst)" "no_links_below ?root D" using g *(5) by (auto simp: grows_below_def keeps_def)
  ultimately have "grows_below D ?root root'" unfolding *(7) using dst m by (intro grows_set) auto
  then show ?thesis using g below_trans by blast
qed (use assms(1) mounted_refl in auto)

section \<open>Joined paths\<close>

lemma split_on_append_gen: "split_on c (a @ c # b) = split_on c a @ split_on c b"
  by (induction c a rule: split_on.induct) (auto split: list.splits)

lemma path_join_components: "base \<noteq> [] \<Longrightarrow> path_components (path_join base sub) = path_components base @ path_components sub"
proof (cases "ends_with base ''/''")
  case True
  then obtain b where "base = b @ ''/''" by (auto simp: ends_with_suffix suffix_def)
  then show ?thesis
    by (simp add: path_join_def True path_components_filter split_on_append_gen nontrivial_def)
next
  case False
  assume "base \<noteq> []"
  then show ?thesis using False by (simp add: path_join_def path_components_filter split_on_append_gen)
qed

lemma path_join_absolute: "starts_with base ''/'' \<Longrightarrow> starts_with (path_join base sub) ''/''"
  by (cases base) (auto simp: path_join_def starts_with_def)

lemma nul_component:
  assumes "CHR 0x00 \<in> set p"
  shows "\<exists>c\<in>set (path_components p). CHR 0x00 \<in> set c"
proof -
  have "set (join_on (CHR ''/'') ps) \<subseteq> insert (CHR ''/'') (\<Union> (set ` set ps))" for ps
    by (induction ps rule: join_on.induct) auto
  from this [of "split_on (CHR ''/'') p"] obtain c where "c \<in> set (split_on (CHR ''/'') p)" "CHR 0x00 \<in> set c"
    using assms by auto
  then show ?thesis by (auto simp: path_components_filter nontrivial_def)
qed

lemma path_components_nul: "CHR 0x00 \<notin> set p \<Longrightarrow> c \<in> set (path_components p) \<Longrightarrow> CHR 0x00 \<notin> set c"
proof -
  have "c \<in> set (split_on d q) \<Longrightarrow> set c \<subseteq> set q" for c d q
    by (induction d q arbitrary: c rule: split_on.induct) (fastforce split: list.splits if_splits)+
  then show "CHR 0x00 \<notin> set p \<Longrightarrow> c \<in> set (path_components p) \<Longrightarrow> CHR 0x00 \<notin> set c"
    by (auto simp: path_components_filter)
qed

lemma walk_snoc:
  assumes "walk_path creat n root cur (xs @ [c]) = Inr D" "nontrivial c"
  obtains P m where "walk_path False n root cur xs = Inr P" "walk_path creat m root P [c] = Inr D"
proof -
  have "\<exists>P m. walk_path False n root cur xs = Inr P \<and> walk_path creat m root P [c] = Inr D"
    if "walk_path creat n root cur ys = Inr D" "ys = xs @ [c]" for ys
    using that
  proof (induction arbitrary: xs rule: walk_induct)
    case (triv n cur a zs xs)
    then show ?case using assms(2) by (cases xs) (auto simp: walk_simps)
  next
    case (up n cur zs xs)
    then show ?case by (cases xs) (auto simp: walk_simps)
  next
    case (leaf n cur a xs)
    then have "xs = []" "a = c" by auto
    then show ?case using leaf walk_simps(4,5) by (intro exI [of _ cur] exI [of _ n]) auto
  next
    case (dir n cur a zs xs)
    then show ?case by (cases xs) (auto simp: walk_simps)
  next
    case (link m cur a zs s xs)
    show ?case
    proof (cases xs)
      case Nil
      then show ?thesis using link by auto
    next
      case (Cons b xs')
      then show ?thesis using link.IH [of "split_on (CHR ''/'') s @ xs'"] link by (auto simp: walk_simps)
    qed
  qed simp
  then show ?thesis using assms(1) that by blast
qed

lemma create_dir_all_existing:
  assumes "mounted root (start_dir env q) (path_components q) D" "fs_ok env root" "fs_create_dir_all env root q = (r, root')"
  shows "root' = root"
proof (cases "path_file_name q")
  case None
  then have "fs_mkdir env root q = (Inl (Some ''File exists''), root) \<or> (\<exists>e. fs_mkdir env root q = (Inl (Some e), root))"
    by (auto simp: fs_mkdir_def split: option.splits)
  then show ?thesis using assms(3) by (auto split: if_splits)
next
  case (Some c)
  obtain xs where xs: "path_components q = xs @ [c]"
    using Some by (cases "path_components q" rule: rev_cases) (auto simp: path_file_name_components split: if_splits)
  have c: "nontrivial c" "c \<noteq> ''..''"
    using components_nontrivial [of q] xs Some by (auto simp: path_file_name_components split: if_splits)
  have w: "walk_path False MAXSYMLINKS root (start_dir env q) (xs @ [c]) = Inr D" using assms(1) xs by (simp add: mounted_def)
  obtain P n where P: "walk_path False MAXSYMLINKS root (start_dir env q) xs = Inr P" "walk_path False n root P [c] = Inr D"
    using walk_snoc [OF w c(1)] by blast
  have here: "lookup_inode root (P @ [c]) \<noteq> None"
    using P(2) c by (auto simp: walk_path.simps(2) nontrivial_def split: option.splits)
  then have "is_dir_at root P" using node_at_parent [of root P c] by (auto simp: node_at_def)
  then obtain es where es: "lookup_inode root P = Some (Directory es)" by (auto simp: is_dir_at_def node_at_dir)
  have ex: "map_of es c \<noteq> None" using here es by (auto simp: lookup_below split: option.splits)
  obtain d where d: "path_parent q = Some d" using path_parent_exists xs by fastforce
  have "filter nontrivial (split_on (CHR ''/'') (parent_text d)) = xs"
    using path_parent_components [OF d] xs unfolding path_components_filter [symmetric] parent_text_components by simp
  then have "walk_path False MAXSYMLINKS root (start_dir env (parent_text d)) (split_on (CHR ''/'') (parent_text d)) = Inr P"
    using walk_unfilter [of MAXSYMLINKS root "start_dir env q" "[]" "split_on (CHR ''/'') (parent_text d)" P] P(1) \<open>is_dir_at root P\<close>
      parent_start [OF d, of env] by simp
  then have "resolve_text False env root (parent_text d) \<noteq> Inl ''No such file or directory''"
    "\<And>p. resolve_text False env root (parent_text d) = Inr p \<Longrightarrow> p = P"
    using resolve_text_known [OF assms(2), of "parent_text d" P] by (simp_all only: split: if_splits) simp_all
  then have "\<exists>e. fs_mkdir env root q = (Inl (Some e), root)"
    using Some d es ex
    by (cases "resolve_text False env root (parent_text d)"; cases "fe_fault env SysMkdir q") (auto simp: fs_mkdir_def)
  then show ?thesis using assms(3) by (auto split: if_splits)
qed

lemma fs_ok_grows:
  assumes "fs_ok env root" "grows_below D root root'"
  shows "fs_ok env root'"
  using assms by (auto simp: fs_ok_def grows_below_def keeps_def physical_def)

end
