(* ===== verification/PeerStorage.thy ===== *)
theory PeerStorage
  imports PeerProtocol PosixFs FileSyncLocal "HOL-Library.List_Lexorder" "HOL-Library.Char_ord"
begin

text \<open>
  Serving files to peers: path resolution (\<open>peer_storage/helpers.rs\<close>) and the request handlers
  (\<open>peer_storage/handlers.rs\<close>) on a desktop target.  The file system is \<open>PosixFs\<close>; \<open>view n\<close> is the
  shared state seen by the \<open>n\<close>-th acquisition of the read lock while a request is handled.  The
  trash is another crate's (\<open>fe_trash\<close>).  A handler that never returns has the outcome \<open>None\<close>.
\<close>

section \<open>State and streams\<close>

record shared_folder =
  sf_name :: string
  sf_local_path :: string
  sf_space_id :: string

text \<open>Maps whose iteration order matters are association lists, sets are lists.\<close>

record peer_state =
  pst_shares :: "(string \<times> shared_folder) list"
  pst_allowed_peers :: "string \<rightharpoonup> string list"
  pst_app_handle :: bool
  pst_delivery_handler :: bool
  pst_endpoint_dids :: "string \<rightharpoonup> string"
  pst_peer_owner_dids :: "string \<rightharpoonup> string"
  pst_connection_watchers :: "string \<rightharpoonup> nat"

definition peer_state_default :: peer_state where
  "peer_state_default = \<lparr>pst_shares = [], pst_allowed_peers = Map.empty, pst_app_handle = False, pst_delivery_handler = False,
     pst_endpoint_dids = Map.empty, pst_peer_owner_dids = Map.empty, pst_connection_watchers = Map.empty\<rparr>"

datatype peer_storage_error =
    EndpointNotRunning
  | EndpointAlreadyRunning
  | ConnectionFailed string
  | ProtocolError string
  | StorageIo string
  | PathNotShared string
  | PeerAccessDenied string
  | PathTraversalAttempt string
  | StorageDatabase string

fun display_storage_error :: "peer_storage_error \<Rightarrow> string" where
  "display_storage_error EndpointNotRunning = ''Endpoint not running''"
| "display_storage_error EndpointAlreadyRunning = ''Endpoint already running''"
| "display_storage_error (ConnectionFailed reason) = ''Connection failed: '' @ reason"
| "display_storage_error (ProtocolError reason) = ''Protocol error: '' @ reason"
| "display_storage_error (StorageIo e) = ''IO error: '' @ e"
| "display_storage_error (PathNotShared path) = ''Path not shared: '' @ path"
| "display_storage_error (PeerAccessDenied peer_id) = ''Access denied for peer '' @ peer_id"
| "display_storage_error (PathTraversalAttempt path) = ''Path traversal attempt: '' @ path"
| "display_storage_error (StorageDatabase reason) = ''Database error: '' @ reason"

fun display_protocol_error :: "peer_protocol_error \<Rightarrow> string" where
  "display_protocol_error (PeerRead e) = ''Failed to read from stream: '' @ e"
| "display_protocol_error (InvalidJson e) = ''Invalid JSON: '' @ e"
| "display_protocol_error (MessageTooLarge n mx) =
     ''Message too large: '' @ show_radix 10 n @ '' bytes (max '' @ show_radix 10 mx @ '')''"

fun pipeline_storage_error :: "pipeline_error \<Rightarrow> peer_storage_error" where
  "pipeline_storage_error (PipeIo e) = StorageIo e"
| "pipeline_storage_error (PipeStream reason) = ConnectionFailed reason"
| "pipeline_storage_error PipeCancelled = ProtocolError ''Transfer cancelled''"

record peer_env =
  pe_fs :: fs_env
  pe_ucan :: ucan_env
  pe_now :: "(string, 64 word) result"
  pe_sha256 :: "bytes \<Rightarrow> string"

record peer_world =
  pw_root :: inode
  pw_cache :: hash_cache

text \<open>One bi-directional stream: the request frame, the reads that follow it, and what the sends
  meet.  \<open>sent\<close> is what has been put on the wire.\<close>

datatype sent = SResp peer_response | SData bytes | SFinish

record stream_io =
  si_request :: bytes
  si_events :: "recv_event list"
  si_send_error :: "peer_response \<Rightarrow> peer_storage_error option"
  si_finish_error :: "string option"
  si_pipe :: pipe_io

definition send_response_and_finish :: "stream_io \<Rightarrow> peer_response \<Rightarrow> sent list \<Rightarrow> (peer_storage_error, unit) result \<times> sent list" where
  "send_response_and_finish io resp out =
     (if SFinish \<in> set out then (Inl (ConnectionFailed ''closed stream''), out)
      else (case si_send_error io resp of
              Some e \<Rightarrow> (Inl e, out)
            | None \<Rightarrow> (Inr (), out @ [SResp resp, SFinish])))"

definition is_content_uri :: "string \<Rightarrow> bool" where
  "is_content_uri path = starts_with path ''{''"


section \<open>Path resolution\<close>

definition filter_shares :: "(string \<times> shared_folder) list \<Rightarrow> string list \<Rightarrow> (string \<times> shared_folder) list" where
  "filter_shares shares allowed_spaces = filter (\<lambda>(_, share). sf_space_id share \<in> set allowed_spaces) shares"

definition find_share_and_subpath ::
  "(string \<times> shared_folder) list \<Rightarrow> string list \<Rightarrow> string \<Rightarrow> (peer_response, shared_folder \<times> string) result" where
  "find_share_and_subpath shares allowed_spaces req_path =
     (let trimmed = trim_start_matches (CHR ''/'') req_path;
          (share_name, sub_path) = (case split_once (CHR ''/'') trimmed of Some p \<Rightarrow> p | None \<Rightarrow> (trimmed, []))
      in (case find (\<lambda>s. sf_name s = share_name \<and> sf_space_id s \<in> set allowed_spaces) (map snd shares) of
            Some share \<Rightarrow> Inr (share, sub_path)
          | None \<Rightarrow>
              (case map_of shares share_name of
                 Some share \<Rightarrow>
                   if sf_space_id share \<in> set allowed_spaces then Inr (share, sub_path)
                   else Inl (RespError (''Share not found: '' @ share_name))
               | None \<Rightarrow> Inl (RespError (''Share not found: '' @ share_name)))))"

fun display_path_error :: "path_error \<Rightarrow> string" where
  "display_path_error (NullByte p) = ''Path contains null byte: '' @ p"
| "display_path_error (NotRelative p) = ''Path must be relative: '' @ p"
| "display_path_error (Traversal p) = ''Path traversal denied: '' @ p"
| "display_path_error EmptyPath = ''Path must not be empty''"

definition path_err :: "(path_error, 'a) result \<Rightarrow> (peer_response, 'a) result" where
  "path_err r = (case r of Inl e \<Rightarrow> Inl (RespError (display_path_error e)) | Inr x \<Rightarrow> Inr x)"

definition resp_err :: "string \<Rightarrow> ('e, 'a) result \<Rightarrow> (peer_response, 'a) result" where
  "resp_err message r = (case r of Inl _ \<Rightarrow> Inl (RespError message) | Inr x \<Rightarrow> Inr x)"

definition resolve_path_filtered ::
  "fs_env \<Rightarrow> inode \<Rightarrow> (string \<times> shared_folder) list \<Rightarrow> string list \<Rightarrow> string \<Rightarrow> (peer_response, string list) result" where
  "resolve_path_filtered env root shares allowed_spaces req_path =
     and_then (find_share_and_subpath shares allowed_spaces req_path) (\<lambda>(share, sub_path).
     and_then (path_err (reject_path_traversal sub_path)) (\<lambda>_.
     and_then (resp_err ''Path not found'' (canonicalize env root (path_join (sf_local_path share) sub_path))) (\<lambda>canonical.
     and_then (resp_err ''Share path invalid'' (canonicalize env root (sf_local_path share))) (\<lambda>share_canonical.
       if \<not> prefix share_canonical canonical then Inl (RespError ''Access denied: path outside share'')
       else Inr canonical))))"

definition resolve_path_for_write ::
  "fs_env \<Rightarrow> inode \<Rightarrow> (string \<times> shared_folder) list \<Rightarrow> string list \<Rightarrow> string \<Rightarrow> (peer_response, string) result" where
  "resolve_path_for_write env root shares allowed_spaces req_path =
     and_then (find_share_and_subpath shares allowed_spaces req_path) (\<lambda>(share, sub_path).
     and_then (path_err (check_relative_path sub_path)) (\<lambda>_.
     let full_path = path_join (sf_local_path share) sub_path in
     and_then (resp_err ''Share path invalid'' (canonicalize env root (sf_local_path share))) (\<lambda>share_canonical.
     let parent = (case path_parent full_path of Some d \<Rightarrow> d | None \<Rightarrow> full_path) in
     if fs_exists env root parent
     then and_then (resp_err ''Parent path invalid'' (canonicalize env root parent)) (\<lambda>parent_canonical.
            if \<not> prefix share_canonical parent_canonical then Inl (RespError ''Access denied: path outside share'')
            else Inr full_path)
     else Inr full_path)))"

definition find_space_for_path :: "(string \<times> shared_folder) list \<Rightarrow> string list \<Rightarrow> string \<Rightarrow> string option" where
  "find_space_for_path shares allowed_spaces req_path =
     (if req_path = [] \<or> req_path = ''/'' then None
      else map_option (\<lambda>(share, _). sf_space_id share) (ok (find_share_and_subpath shares allowed_spaces req_path)))"

definition check_content_uri :: "peer_state \<Rightarrow> string list \<Rightarrow> string \<Rightarrow> (string \<times> string \<times> bool) option" where
  "check_content_uri state allowed_spaces path =
     (case find_share_and_subpath (pst_shares state) allowed_spaces path of
        Inl _ \<Rightarrow> None
      | Inr (share, sub_path) \<Rightarrow>
          if is_content_uri (sf_local_path share) then Some (sf_local_path share, sub_path, pst_app_handle state) else None)"


section \<open>Reading directories\<close>

text \<open>\<open>DirEntry::metadata\<close> does not follow links.\<close>

definition entry_of :: "fs_env \<Rightarrow> string list \<Rightarrow> string \<Rightarrow> inode \<Rightarrow> file_entry" where
  "entry_of env path name n =
     (case n of
        Regular c t \<Rightarrow> \<lparr>en_name = name, en_size = length c, en_is_dir = False, en_modified = Some (t div 10 ^ 9)\<rparr>
      | Directory _ \<Rightarrow> \<lparr>en_name = name, en_size = fe_dir_size env path, en_is_dir = True,
          en_modified = map_option (\<lambda>t. t div 10 ^ 9) (fe_dir_time env path)\<rparr>
      | SymLink s \<Rightarrow> \<lparr>en_name = name, en_size = length s, en_is_dir = False,
          en_modified = map_option (\<lambda>t. t div 10 ^ 9) (fe_dir_time env path)\<rparr>)"

definition fs_read_dir :: "fs_env \<Rightarrow> inode \<Rightarrow> string \<Rightarrow> (string, string list \<times> (string \<times> inode) list) result" where
  "fs_read_dir env root p =
     and_then (resolve_text False env root p) (\<lambda>cs.
       faulty env SysReadDir p
         (case lookup_inode root cs of Some (Directory es) \<Rightarrow> Inr (cs, es) | _ \<Rightarrow> Inl ''Not a directory''))"

definition entry_order :: "file_entry \<Rightarrow> file_entry \<Rightarrow> ordering" where
  "entry_order a b = then_with (cmp (en_is_dir b) (en_is_dir a)) (cmp (en_name a) (en_name b))"

definition read_dir_entries :: "fs_env \<Rightarrow> inode \<Rightarrow> string \<Rightarrow> (string, file_entry list) result" where
  "read_dir_entries env root p =
     and_then (fs_read_dir env root p) (\<lambda>(cs, es).
       Inr (sort_by entry_order
         (map (\<lambda>(name, n). entry_of env (cs @ [name]) name n)
           (filter (\<lambda>(name, _). fe_fault env SysStat (path_join p name) = None) es))))"

definition file_entry_from_path :: "fs_env \<Rightarrow> inode \<Rightarrow> string \<Rightarrow> (string, file_entry) result" where
  "file_entry_from_path env root p =
     and_then (metadata env root p) (\<lambda>(cs, n).
       Inr (entry_of env cs (case path_file_name p of Some name \<Rightarrow> name | None \<Rightarrow> []) n))"

text \<open>\<open>File::open\<close> for reading, which follows links, and reading to the end.\<close>

definition fs_open :: "fs_env \<Rightarrow> inode \<Rightarrow> string \<Rightarrow> (string, bytes) result" where
  "fs_open env root p =
     and_then (resolve_text False env root p) (\<lambda>cs.
       faulty env SysOpen p
         (case lookup_inode root cs of
            Some (Regular c _) \<Rightarrow> Inr c
          | Some (Directory _) \<Rightarrow> Inl ''Is a directory''
          | _ \<Rightarrow> Inl ''No such file or directory''))"

definition fs_read_file :: "fs_env \<Rightarrow> inode \<Rightarrow> string \<Rightarrow> (string, bytes) result" where
  "fs_read_file env root p = and_then (fs_open env root p) (\<lambda>c. faulty env SysRead p (Inr c))"

definition peer_cached_hash ::
  "peer_env \<Rightarrow> inode \<Rightarrow> string \<Rightarrow> nat \<Rightarrow> nat \<Rightarrow> hash_cache \<Rightarrow> string option \<times> hash_cache" where
  "peer_cached_hash env root p sz nanos cache =
     (case map_of cache (p, sz, nanos) of
        Some h \<Rightarrow> (Some h, cache)
      | None \<Rightarrow>
          (case fs_read_file (pe_fs env) root p of
             Inl _ \<Rightarrow> (None, cache)
           | Inr c \<Rightarrow> (Some (pe_sha256 env c), prime_cache p sz nanos (pe_sha256 env c) cache)))"

function scan_directory_recursive ::
  "peer_env \<Rightarrow> inode \<Rightarrow> string list \<Rightarrow> string list \<Rightarrow> (string \<times> inode) list \<Rightarrow> hash_cache \<Rightarrow> file_state list \<times> hash_cache" where
  "scan_directory_recursive env root base rel [] cache = ([], cache)"
| "scan_directory_recursive env root base rel ((name, n) # rest) cache =
     (let path = rel @ [name]; text = abs_text (base @ path) in
      if fe_fault (pe_fs env) SysStat text \<noteq> None then scan_directory_recursive env root base rel rest cache
      else (case n of
              Directory es \<Rightarrow>
                (case (if fe_fault (pe_fs env) SysReadDir text \<noteq> None then ([], cache)
                       else scan_directory_recursive env root base path es cache) of
                   (sub, cache) \<Rightarrow>
                     (case scan_directory_recursive env root base rel rest cache of
                        (fs, cache) \<Rightarrow>
                          (\<lparr>relative_path = entry_path path, fsize = 0,
                            modified_at = (case fe_dir_time (pe_fs env) (base @ path) of Some t \<Rightarrow> t div 10 ^ 9 | None \<Rightarrow> 0),
                            is_directory = True, fhash = None\<rparr> # sub @ fs, cache)))
            | _ \<Rightarrow>
                (let (sz, nanos) = (case n of Regular c t \<Rightarrow> (length c, t)
                                    | SymLink s \<Rightarrow> (length s, case fe_dir_time (pe_fs env) (base @ path) of Some t \<Rightarrow> t | None \<Rightarrow> 0)
                                    | Directory _ \<Rightarrow> (0, 0)) in
                 case peer_cached_hash env root text sz nanos cache of
                   (h, cache) \<Rightarrow>
                     (case scan_directory_recursive env root base rel rest cache of
                        (fs, cache) \<Rightarrow>
                          (\<lparr>relative_path = entry_path path, fsize = sz, modified_at = nanos div 10 ^ 9,
                            is_directory = False, fhash = h\<rparr> # fs, cache)))))"
  by pat_completeness auto
termination
  by (relation "measure (\<lambda>(_, _, _, _, es, _). size_list (size_prod (\<lambda>_. 0) size) es)") auto


section \<open>Request handlers\<close>

definition android_only :: peer_response where
  "android_only = RespError ''Content URIs are only supported on Android''"

definition handle_list :: "fs_env \<Rightarrow> inode \<Rightarrow> peer_state \<Rightarrow> string \<Rightarrow> string list \<Rightarrow> peer_response" where
  "handle_list env root state path allowed_spaces =
     (if path = [] \<or> path = ''/'' then
        RespList (map (\<lambda>(_, share). \<lparr>en_name = sf_name share, en_size = 0, en_is_dir = True, en_modified = None\<rparr>)
          (filter_shares (pst_shares state) allowed_spaces))
      else if check_content_uri state allowed_spaces path \<noteq> None then android_only
      else (case resolve_path_filtered env root (pst_shares state) allowed_spaces path of
              Inl resp \<Rightarrow> resp
            | Inr local_path \<Rightarrow>
                if \<not> fs_is_dir env root (abs_text local_path) then RespError ''Not a directory''
                else (case read_dir_entries env root (abs_text local_path) of
                        Inr es \<Rightarrow> RespList es
                      | Inl e \<Rightarrow> RespError (''Failed to list directory: '' @ e))))"

definition handle_stat :: "fs_env \<Rightarrow> inode \<Rightarrow> peer_state \<Rightarrow> string \<Rightarrow> string list \<Rightarrow> peer_response" where
  "handle_stat env root state path allowed_spaces =
     (if check_content_uri state allowed_spaces path \<noteq> None then android_only
      else (case resolve_path_filtered env root (pst_shares state) allowed_spaces path of
              Inl resp \<Rightarrow> resp
            | Inr local_path \<Rightarrow>
                (case file_entry_from_path env root (abs_text local_path) of
                   Inr entry \<Rightarrow> RespStat entry
                 | Inl e \<Rightarrow> RespError (''Failed to stat: '' @ e))))"

definition handle_manifest :: "peer_env \<Rightarrow> peer_world \<Rightarrow> peer_state \<Rightarrow> string \<Rightarrow> string list \<Rightarrow> peer_response \<times> peer_world" where
  "handle_manifest env w state path allowed_spaces =
     (if path = [] \<or> path = ''/'' then (RespError ''Manifest requires a share path'', w)
      else if check_content_uri state allowed_spaces path \<noteq> None then (android_only, w)
      else (case resolve_path_filtered (pe_fs env) (pw_root w) (pst_shares state) allowed_spaces path of
              Inl resp \<Rightarrow> (resp, w)
            | Inr local_path \<Rightarrow>
                if \<not> fs_is_dir (pe_fs env) (pw_root w) (abs_text local_path) then (RespError ''Not a directory'', w)
                else (case fs_read_dir (pe_fs env) (pw_root w) (abs_text local_path) of
                        Inl e \<Rightarrow> (RespError (''Failed to scan directory: '' @ e), w)
                      | Inr (cs, es) \<Rightarrow>
                          (case scan_directory_recursive env (pw_root w) cs [] es (pw_cache w) of
                             (fs, cache) \<Rightarrow> (RespManifest fs, w\<lparr>pw_cache := cache\<rparr>)))))"

text \<open>\<open>end - start\<close> is computed in \<open>u64\<close> and wraps in a release build.\<close>

definition read_window :: "64 word \<Rightarrow> (64 word \<times> 64 word) option \<Rightarrow> 64 word \<times> 64 word" where
  "read_window file_size rng =
     (case rng of
        Some (start, end') \<Rightarrow> (start, min end' file_size - start)
      | None \<Rightarrow> (0, file_size))"

type_synonym outcome = "(peer_storage_error, unit) result option"

definition stream_file_to_send ::
  "fs_env \<Rightarrow> inode \<Rightarrow> stream_io \<Rightarrow> string \<Rightarrow> (64 word \<times> 64 word) option \<Rightarrow> sent list \<Rightarrow> outcome \<times> sent list" where
  "stream_file_to_send env root io local_path rng out =
     (case fs_open env root local_path of
        Inl e \<Rightarrow> (Some (Inl (StorageIo e)), out)
      | Inr c \<Rightarrow>
          (let (offset, read_size) = read_window (of_nat (length c)) rng;
               header = RespReadHeader read_size
           in (case si_send_error io header of
                 Some e \<Rightarrow> (Some (Inl e), out)
               | None \<Rightarrow>
                   (case pipe_reader_to_send (si_pipe io) (drop (unat offset) c) (unat read_size) of
                      (None, data) \<Rightarrow> (None, out @ [SResp header, SData data])
                    | (Some (Inl e), data) \<Rightarrow> (Some (Inl (pipeline_storage_error e)), out @ [SResp header, SData data])
                    | (Some (Inr _), data) \<Rightarrow>
                        (case si_finish_error io of
                           Some e \<Rightarrow> (Some (Inl (ConnectionFailed e)), out @ [SResp header, SData data])
                         | None \<Rightarrow> (Some (Inr ()), out @ [SResp header, SData data, SFinish]))))))"

definition respond_ok :: "stream_io \<Rightarrow> peer_response \<Rightarrow> sent list \<Rightarrow> outcome \<times> sent list" where
  "respond_ok io resp out = (Some (Inr ()), snd (send_response_and_finish io resp out))"

definition handle_read ::
  "fs_env \<Rightarrow> inode \<Rightarrow> stream_io \<Rightarrow> (nat \<Rightarrow> peer_state) \<Rightarrow> string \<Rightarrow> (64 word \<times> 64 word) option \<Rightarrow> string list \<Rightarrow> outcome \<times> sent list" where
  "handle_read env root io view path rng allowed_spaces =
     (if check_content_uri (view 1) allowed_spaces path \<noteq> None then respond_ok io android_only []
      else (case resolve_path_filtered env root (pst_shares (view 2)) allowed_spaces path of
              Inl resp \<Rightarrow> respond_ok io resp []
            | Inr local_path \<Rightarrow>
                if \<not> fs_is_file env root (abs_text local_path) then respond_ok io (RespError ''Not a file'') []
                else stream_file_to_send env root io (abs_text local_path) rng []))"

definition temp_path_of :: "string \<Rightarrow> string" where
  "temp_path_of local_path =
     with_file_name local_path ((case path_file_name local_path of Some n \<Rightarrow> n | None \<Rightarrow> []) @ ''.part'')"

text \<open>Staging: the received bytes go to the \<open>.part\<close> file, which is renamed once all have arrived.\<close>

definition write_failed ::
  "stream_io \<Rightarrow> string \<Rightarrow> peer_storage_error \<Rightarrow> (string, unit) result \<times> inode \<Rightarrow> peer_world \<Rightarrow> outcome \<times> sent list \<times> peer_world" where
  "write_failed io message e removed w =
     (Some (Inl e), snd (send_response_and_finish io (RespError message) []), w\<lparr>pw_root := snd removed\<rparr>)"

definition receive_staged :: "peer_env \<Rightarrow> stream_io \<Rightarrow> string \<Rightarrow> string \<Rightarrow> nat \<Rightarrow> peer_world \<Rightarrow> outcome \<times> sent list \<times> peer_world" where
  "receive_staged env io local_path temp_path sz w =
     (case fs_create (pe_fs env) (pw_root w) temp_path of
        (Inl e, root) \<Rightarrow> (Some (Inl (StorageIo e)), [], w\<lparr>pw_root := root\<rparr>)
      | (Inr cs, root1) \<Rightarrow>
          (case pipe_recv_to_writer (pe_sha256 env) (\<lambda>_. False)
                  (map_option (\<lambda>e. (e, fe_partial (pe_fs env) temp_path)) (fe_fault (pe_fs env) SysWrite temp_path)) False sz (si_events io) of
             (r, data) \<Rightarrow>
               (let root2 = snd (fs_write (pe_fs env) root1 temp_path cs data);
                    write_result = (case r of
                        Inl e \<Rightarrow> Inl (pipeline_storage_error e)
                      | Inr stats \<Rightarrow>
                          if st_bytes stats \<noteq> sz
                          then Inl (ConnectionFailed (''stream ended early during write: expected '' @ show_radix 10 sz
                                 @ '' bytes, received '' @ show_radix 10 (st_bytes stats)))
                          else Inr ())
                in (case write_result of
                      Inl e \<Rightarrow> write_failed io (display_storage_error e) e (fs_unlink (pe_fs env) root2 temp_path) w
                    | Inr _ \<Rightarrow>
                        (case fs_rename (pe_fs env) root2 temp_path local_path of
                           (Inl e, root3) \<Rightarrow>
                             write_failed io (''Failed to finalize file: '' @ e) (StorageIo e) (fs_unlink (pe_fs env) root3 temp_path) w
                         | (Inr _, root3) \<Rightarrow>
                             (case send_response_and_finish io RespWriteOk [] of
                                (r, out) \<Rightarrow> (Some r, out, w\<lparr>pw_root := root3\<rparr>)))))))"

definition handle_write ::
  "peer_env \<Rightarrow> stream_io \<Rightarrow> (nat \<Rightarrow> peer_state) \<Rightarrow> string \<Rightarrow> nat \<Rightarrow> string list \<Rightarrow> peer_world \<Rightarrow> outcome \<times> sent list \<times> peer_world" where
  "handle_write env io view path sz allowed_spaces w =
     (if check_content_uri (view 1) allowed_spaces path \<noteq> None
      then (case respond_ok io android_only [] of (r, out) \<Rightarrow> (r, out, w))
      else (case resolve_path_for_write (pe_fs env) (pw_root w) (pst_shares (view 2)) allowed_spaces path of
              Inl resp \<Rightarrow> (case respond_ok io resp [] of (r, out) \<Rightarrow> (r, out, w))
            | Inr local_path \<Rightarrow>
                (case (case path_parent local_path of
                         None \<Rightarrow> (Inr (), pw_root w)
                       | Some parent \<Rightarrow> fs_create_dir_all (pe_fs env) (pw_root w) parent) of
                   (Inl e, root) \<Rightarrow> (Some (Inl (StorageIo e)), [], w\<lparr>pw_root := root\<rparr>)
                 | (Inr _, root) \<Rightarrow> receive_staged env io local_path (temp_path_of local_path) sz (w\<lparr>pw_root := root\<rparr>))))"

definition handle_delete ::
  "fs_env \<Rightarrow> (nat \<Rightarrow> peer_state) \<Rightarrow> string \<Rightarrow> bool \<Rightarrow> string list \<Rightarrow> inode \<Rightarrow> peer_response \<times> inode" where
  "handle_delete env view path to_trash allowed_spaces root =
     (if check_content_uri (view 1) allowed_spaces path \<noteq> None then (android_only, root)
      else (case resolve_path_filtered env root (pst_shares (view 2)) allowed_spaces path of
              Inl resp \<Rightarrow> (resp, root)
            | Inr local_path \<Rightarrow>
                (let text = abs_text local_path in
                 if \<not> fs_exists env root text then (RespError ''File not found'', root)
                 else if to_trash then
                   (case fe_trash env root local_path of
                      (Inl e, root') \<Rightarrow> (RespError (''Failed to trash: '' @ e), root')
                    | (Inr _, root') \<Rightarrow> (RespDeleteOk, root'))
                 else if fs_is_dir env root text then
                   (case fs_remove_dir_all env root text of
                      (Inl e, root') \<Rightarrow> (RespError (''Failed to delete directory: '' @ e), root')
                    | (Inr _, root') \<Rightarrow> (RespDeleteOk, root'))
                 else
                   (case fs_unlink env root text of
                      (Inl e, root') \<Rightarrow> (RespError (''Failed to delete file: '' @ e), root')
                    | (Inr _, root') \<Rightarrow> (RespDeleteOk, root')))))"

definition handle_create_directory ::
  "fs_env \<Rightarrow> (nat \<Rightarrow> peer_state) \<Rightarrow> string \<Rightarrow> string list \<Rightarrow> inode \<Rightarrow> peer_response \<times> inode" where
  "handle_create_directory env view path allowed_spaces root =
     (if check_content_uri (view 1) allowed_spaces path \<noteq> None then (android_only, root)
      else (case resolve_path_for_write env root (pst_shares (view 2)) allowed_spaces path of
              Inl resp \<Rightarrow> (resp, root)
            | Inr local_path \<Rightarrow>
                (case fs_create_dir_all env root local_path of
                   (Inr _, root') \<Rightarrow> (RespCreateDirectoryOk, root')
                 | (Inl e, root') \<Rightarrow> (RespError (''Failed to create directory: '' @ e), root'))))"


section \<open>The stream dispatcher\<close>

text \<open>The checks of a request: a valid token, its audience, the spaces it shares with the peer's
  registration, and the capability for the space the path leads to.\<close>

definition effective_spaces :: "validated_ucan \<Rightarrow> string list \<Rightarrow> string list" where
  "effective_spaces ucan allowed_spaces = filter (\<lambda>s. vu_capabilities ucan s \<noteq> None) allowed_spaces"

definition authorize_request ::
  "peer_env \<Rightarrow> peer_state \<Rightarrow> string list \<Rightarrow> string \<Rightarrow> peer_request \<Rightarrow> (string, string list) result" where
  "authorize_request env state allowed_spaces verified_remote_did request =
     (case validate_token (pe_ucan env) (pe_now env) (ucan_token_of request) of
        Inl e \<Rightarrow> Inl (''UCAN validation failed: '' @ display_ucan_error e)
      | Inr ucan \<Rightarrow>
          (case require_audience ucan verified_remote_did of
             Inl e \<Rightarrow> Inl (''Access denied: UCAN audience does not match verified peer DID: '' @ display_ucan_error e)
           | Inr _ \<Rightarrow>
               (let spaces = effective_spaces ucan allowed_spaces in
                if spaces = [] then Inl ''Access denied: peer not registered in any of the UCAN's spaces''
                else (case find_space_for_path (pst_shares state) spaces (request_path request) of
                        None \<Rightarrow> Inr spaces
                      | Some space_id \<Rightarrow>
                          (case require_capability ucan space_id (if requires_write request then CapWrite else CapRead) of
                             Inl e \<Rightarrow> Inl (''Access denied: '' @ display_ucan_error e)
                           | Inr _ \<Rightarrow> Inr spaces)))))"

text \<open>A failed read or write is answered once more; the second answer fails when the stream was
  finished before.\<close>

definition answer_error :: "stream_io \<Rightarrow> outcome \<times> sent list \<Rightarrow> outcome \<times> sent list" where
  "answer_error io r =
     (case r of
        (Some (Inl e), out) \<Rightarrow> (Some (Inl e), snd (send_response_and_finish io (RespError (display_storage_error e)) out))
      | _ \<Rightarrow> r)"

definition reply :: "stream_io \<Rightarrow> peer_response \<Rightarrow> peer_world \<Rightarrow> outcome \<times> sent list \<times> peer_world" where
  "reply io resp w = (case send_response_and_finish io resp [] of (r, out) \<Rightarrow> (Some r, out, w))"

definition dispatch ::
  "peer_env \<Rightarrow> stream_io \<Rightarrow> (nat \<Rightarrow> peer_state) \<Rightarrow> string list \<Rightarrow> peer_request \<Rightarrow> peer_world \<Rightarrow> outcome \<times> sent list \<times> peer_world" where
  "dispatch env io view spaces request w =
     (case request of
        ReqList path _ \<Rightarrow> reply io (handle_list (pe_fs env) (pw_root w) (view 1) path spaces) w
      | ReqStat path _ \<Rightarrow> reply io (handle_stat (pe_fs env) (pw_root w) (view 1) path spaces) w
      | ReqManifest path _ \<Rightarrow> (case handle_manifest env w (view 1) path spaces of (resp, w') \<Rightarrow> reply io resp w')
      | ReqRead path rng _ \<Rightarrow>
          (case answer_error io (handle_read (pe_fs env) (pw_root w) io view path rng spaces) of (r, out) \<Rightarrow> (r, out, w))
      | ReqWrite path sz _ \<Rightarrow>
          (case handle_write env io view path (unat sz) spaces w of
             (r, out, w') \<Rightarrow> (case answer_error io (r, out) of (r, out) \<Rightarrow> (r, out, w')))
      | ReqDelete path to_trash _ \<Rightarrow>
          (case handle_delete (pe_fs env) view path to_trash spaces (pw_root w) of (resp, root) \<Rightarrow> reply io resp (w\<lparr>pw_root := root\<rparr>))
      | ReqCreateDirectory path _ \<Rightarrow>
          (case handle_create_directory (pe_fs env) view path spaces (pw_root w) of (resp, root) \<Rightarrow> reply io resp (w\<lparr>pw_root := root\<rparr>)))"

definition handle_stream ::
  "peer_env \<Rightarrow> stream_io \<Rightarrow> (nat \<Rightarrow> peer_state) \<Rightarrow> string list \<Rightarrow> string \<Rightarrow> peer_world \<Rightarrow> outcome \<times> sent list \<times> peer_world" where
  "handle_stream env io view allowed_spaces verified_remote_did w =
     (case read_request (pe_ucan env) (si_request io) of
        Inl e \<Rightarrow> (Some (Inl (ProtocolError (display_protocol_error e))), [], w)
      | Inr (request, _) \<Rightarrow>
          (case authorize_request env (view 0) allowed_spaces verified_remote_did request of
             Inl message \<Rightarrow> (case respond_ok io (RespError message) [] of (r, out) \<Rightarrow> (r, out, w))
           | Inr spaces \<Rightarrow> dispatch env io view spaces request w))"


section \<open>Confinement\<close>

text \<open>A share whose root is a directory without links below it, given by an absolute path without
  \<open>..\<close>; the directory that holds it can be examined.\<close>

definition plain_share :: "fs_env \<Rightarrow> inode \<Rightarrow> shared_folder \<Rightarrow> bool" where
  "plain_share env root share \<longleftrightarrow>
     starts_with (sf_local_path share) ''/'' \<and> ''..'' \<notin> set (path_components (sf_local_path share)) \<and>
     (\<forall>D. canonicalize env root (sf_local_path share) = Inr D \<longrightarrow> is_dir_at root D \<and> no_links_below root D) \<and>
     (\<forall>p. path_components p = butlast (path_components (sf_local_path share)) \<longrightarrow>
        fe_fault env SysStat p = None \<and> fe_fault env SysWalk p = None)"

lemma share_mounted:
  assumes "plain_share env root share" "canonicalize env root (sf_local_path share) = Inr D"
  shows "mounted root [] (path_components (sf_local_path share)) D"
  using assms walk_components [of False env root "sf_local_path share" D]
  by (simp add: plain_share_def mounted_def canonicalize_def start_dir_def)

lemma absolute_start: "starts_with p ''/'' \<Longrightarrow> start_dir env p = [] \<and> p \<noteq> []"
  by (auto simp: start_dir_def starts_with_def)

lemma resolve_components:
  assumes "starts_with p ''/''" "walk_path False MAXSYMLINKS root [] (path_components p) = Inr P" "is_dir_at root P"
    and "fe_fault env SysWalk p = None" "\<forall>c\<in>set (path_components p). CHR 0x00 \<notin> set c"
  shows "resolve_text False env root p = Inr P"
proof -
  have "walk_path False MAXSYMLINKS root [] (split_on (CHR ''/'') p) = Inr P"
    using walk_unfilter [of MAXSYMLINKS root "[]" "[]" "split_on (CHR ''/'') p" P] assms(2,3) by (simp add: path_components_filter)
  moreover have "CHR 0x00 \<notin> set p" using nul_component assms(5) by blast
  ultimately show ?thesis using assms(1,4) absolute_start [OF assms(1)] by (simp add: resolve_text_def faulty_def)
qed

text \<open>The share itself cannot be written to: its parent lies outside it.\<close>

lemma share_root_denied:
  assumes "plain_share env root share" "canonicalize env root (sf_local_path share) = Inr D" "D \<noteq> []"
    and "path_components full = path_components (sf_local_path share)" "starts_with full ''/''"
  obtains d P where "path_parent full = Some d" "fs_exists env root d" "canonicalize env root d = Inr P" "\<not> prefix D P"
proof -
  let ?lc = "path_components (sf_local_path share)"
  have m: "walk_path False MAXSYMLINKS root [] ?lc = Inr D" "is_dir_at root D" "no_links_below root D"
    using share_mounted [OF assms(1,2)] by (simp_all add: mounted_def)
  obtain xs c where lc: "?lc = xs @ [c]" using m(1) assms(3) by (cases ?lc rule: rev_cases) auto
  have c: "nontrivial c" "c \<noteq> ''..''"
    using components_nontrivial [of "sf_local_path share"] assms(1) lc by (auto simp: plain_share_def)
  obtain P n where P: "walk_path False MAXSYMLINKS root [] xs = Inr P" "walk_path False n root P [c] = Inr D"
    using walk_snoc [OF m(1) [unfolded lc] c(1)] by blast
  have here: "node_at root (P @ [c]) \<noteq> None" using P(2) c by (auto simp: walk_path.simps(2) node_at_def nontrivial_def split: option.splits)
  then have pd: "is_dir_at root P" using node_at_parent by auto
  obtain d where d: "path_parent full = Some d" using path_parent_exists assms(4) lc by fastforce
  have dc: "path_components d = xs" using path_parent_components [OF d] assms(4) lc by simp
  have da: "starts_with d ''/''" using path_parent_absolute [OF d] assms(5) by (auto simp: starts_with_def split: if_splits)
  have nul: "\<forall>c\<in>set (path_components d). CHR 0x00 \<notin> set c"
  proof -
    have "CHR 0x00 \<notin> set (sf_local_path share)" using assms(2) by (auto simp: canonicalize_def resolve_text_def split: if_splits)
    then show ?thesis using path_components_nul dc lc by (metis UnCI set_append)
  qed
  have free: "fe_fault env SysStat d = None" "fe_fault env SysWalk d = None" using assms(1) dc lc by (simp_all add: plain_share_def)
  have res: "resolve_text False env root d = Inr P"
    by (rule resolve_components [OF da _ pd free(2) nul]) (use P(1) dc in simp)
  have "fs_exists env root d" using res free(1) pd by (auto simp: fs_exists_def metadata_def faulty_def is_dir_at_def node_at_dir)
  moreover have "\<not> prefix D P"
  proof
    assume "prefix D P"
    then have "node_at root (P @ [c]) \<noteq> Some (ShLink s)" for s using m(3) by (simp add: no_links_below_def)
    then have "D = P @ [c]"
      using P(2) c by (auto simp: walk_path.simps(2) node_at_def nontrivial_def split: option.splits inode.splits)
    then show False using \<open>prefix D P\<close> prefix_length_le by fastforce
  qed
  ultimately show ?thesis using that d res by (simp add: canonicalize_def)
qed

lemma check_relative_Inr: "check_relative_path p = Inr u \<longleftrightarrow> p \<noteq> [] \<and> CHR 0x00 \<notin> set p \<and> \<not> starts_with p ''/'' \<and> ''..'' \<notin> set (path_components p)"
  by (auto simp: check_relative_path_def reject_path_traversal_def)

lemma find_share_sound:
  assumes "find_share_and_subpath shares spaces path = Inr (share, sub)"
  shows "share \<in> snd ` set shares" "sf_space_id share \<in> set spaces"
proof -
  have *: "share \<in> snd ` set shares \<and> sf_space_id share \<in> set spaces"
    using assms
    by (force simp: find_share_and_subpath_def Let_def find_Some_iff in_set_conv_nth split: option.splits prod.splits if_splits dest: map_of_SomeD)
  then show "share \<in> snd ` set shares" "sf_space_id share \<in> set spaces" by simp_all
qed

lemma write_target:
  assumes "resolve_path_for_write env root shares spaces path = Inr full"
  obtains share sub D where "find_share_and_subpath shares spaces path = Inr (share, sub)"
    "canonicalize env root (sf_local_path share) = Inr D" "full = path_join (sf_local_path share) sub"
    "''..'' \<notin> set (path_components sub)"
    "plain_share env root share \<Longrightarrow> starts_with full ''/''"
    "plain_share env root share \<Longrightarrow> D \<noteq> [] \<Longrightarrow> share_path env [] (path_components (sf_local_path share)) full (path_components sub)"
proof -
  obtain share sub where fs: "find_share_and_subpath shares spaces path = Inr (share, sub)"
    using assms by (auto simp: resolve_path_for_write_def res_simps)
  have chk: "check_relative_path sub = Inr ()"
    using assms fs by (auto simp: resolve_path_for_write_def res_simps path_err_def split: sum.splits)
  obtain D where D: "canonicalize env root (sf_local_path share) = Inr D"
    using assms fs chk by (auto simp: resolve_path_for_write_def res_simps path_err_def resp_err_def Let_def split: sum.splits)
  let ?full = "path_join (sf_local_path share) sub"
  let ?parent = "case path_parent ?full of Some d \<Rightarrow> d | None \<Rightarrow> ?full"
  have "(if fs_exists env root ?parent
         then and_then (resp_err ''Parent path invalid'' (canonicalize env root ?parent)) (\<lambda>parent_canonical.
            if \<not> prefix D parent_canonical then Inl (RespError ''Access denied: path outside share'') else Inr ?full)
         else Inr ?full) = Inr full"
    using assms fs chk D by (simp add: resolve_path_for_write_def path_err_def resp_err_def Let_def)
  then have full: "full = ?full" and deny: "\<And>P. fs_exists env root ?parent \<Longrightarrow> canonicalize env root ?parent = Inr P \<Longrightarrow> prefix D P"
    by (auto simp: res_simps resp_err_def split: if_splits sum.splits)
  have up: "''..'' \<notin> set (path_components sub)" using chk by (simp add: check_relative_Inr)
  have "share_path env [] (path_components (sf_local_path share)) full (path_components sub)" if ps: "plain_share env root share" "D \<noteq> []"
  proof -
    have ab: "starts_with (sf_local_path share) ''/''" using ps(1) by (simp add: plain_share_def)
    have comps: "path_components full = path_components (sf_local_path share) @ path_components sub"
      unfolding full by (rule path_join_components) (use absolute_start [OF ab] in simp)
    have abf: "starts_with full ''/''" unfolding full by (rule path_join_absolute [OF ab])
    have "path_components sub \<noteq> []"
    proof
      assume "path_components sub = []"
      then obtain d P where "path_parent full = Some d" "fs_exists env root d" "canonicalize env root d = Inr P" "\<not> prefix D P"
        using share_root_denied [OF ps(1) D ps(2), of full] comps abf by auto
      then show False using deny [of P] full by simp
    qed
    then show ?thesis using comps abf up absolute_start by (simp add: share_path_def)
  qed
  moreover have "starts_with full ''/''" if "plain_share env root share"
    unfolding full by (rule path_join_absolute) (use that in \<open>simp add: plain_share_def\<close>)
  ultimately show ?thesis using that fs D full up by blast
qed

lemma part_name: "nontrivial n \<Longrightarrow> CHR ''/'' \<notin> set n \<Longrightarrow> path_components (n @ ''.part'') = [n @ ''.part''] \<and> n @ ''.part'' \<noteq> ''..''"
  by (simp add: path_components_filter nontrivial_def)

lemma temp_share_path:
  assumes "share_path env [] lc full rest" "starts_with full ''/''"
  shows "share_path env [] lc (temp_path_of full) (butlast rest @ [last rest @ ''.part''])"
proof -
  have rest: "rest \<noteq> []" "''..'' \<notin> set rest" "path_components full = lc @ rest" using assms(1) by (simp_all add: share_path_def)
  have mem: "last rest \<in> set (path_components full)" using rest by simp
  have "last rest \<in> set (split_on (CHR ''/'') full)" using mem unfolding path_components_filter set_filter by blast
  then have nm: "nontrivial (last rest)" "CHR ''/'' \<notin> set (last rest)"
    using mem components_nontrivial split_on_pieces by blast+
  have fnm: "path_file_name full = Some (last rest)"
  proof -
    have "last rest \<noteq> ''..''" using rest(2) last_in_set [OF rest(1)] by metis
    then show ?thesis using rest(1,3) by (simp add: path_file_name_components)
  qed
  obtain d where d: "path_parent full = Some d" using path_parent_exists rest by fastforce
  have da: "starts_with d ''/''" using path_parent_absolute [OF d] assms(2) by (auto simp: starts_with_def split: if_splits)
  have tp: "temp_path_of full = path_join d (last rest @ ''.part'')"
    by (simp add: temp_path_of_def with_file_name_def fnm d)
  have "path_components (temp_path_of full) = lc @ butlast rest @ [last rest @ ''.part'']"
    unfolding tp using path_join_components [of d] absolute_start [OF da] path_parent_components [OF d] part_name [OF nm] rest
    by (simp add: butlast_append)
  moreover have "start_dir env (temp_path_of full) = []"
    unfolding tp using absolute_start [OF path_join_absolute [OF da]] by simp
  ultimately show ?thesis using rest part_name [OF nm] by (auto simp: share_path_def dest: in_set_butlastD)
qed

lemma write_failed_world: "write_failed io m e (fs_unlink env root p) w = (r, out, w') \<Longrightarrow> \<exists>u. fs_unlink env root p = (u, pw_root w')"
  by (cases "fs_unlink env root p") (auto simp: write_failed_def)

lemma receive_staged_grows:
  assumes "mounted (pw_root w) [] lc D" "share_path (pe_fs env) [] lc local_path rest" "share_path (pe_fs env) [] lc temp rest'"
    and "fs_ok (pe_fs env) (pw_root w)" "receive_staged env io local_path temp sz w = (r, out, w')"
  shows "grows_below D (pw_root w) (pw_root w')"
proof -
  obtain c root1 where c: "fs_create (pe_fs env) (pw_root w) temp = (c, root1)" by fastforce
  note g1 = create_grows [OF assms(1,3) c assms(4)]
  show ?thesis
  proof (cases c)
    case (Inl e)
    then have "pw_root w' = root1" using assms(5) c by (auto simp: receive_staged_def)
    then show ?thesis using g1 by simp
  next
    case (Inr cs)
    obtain pr data where pr: "pipe_recv_to_writer (pe_sha256 env) (\<lambda>_. False)
        (map_option (\<lambda>e. (e, fe_partial (pe_fs env) temp)) (fe_fault (pe_fs env) SysWrite temp)) False sz (si_events io) = (pr, data)"
      by fastforce
    obtain wr root2 where w2: "fs_write (pe_fs env) root1 temp cs data = (wr, root2)" by fastforce
    have g2: "grows_below D root1 root2"
      by (rule write_grows [of _ _ rest']) (use g1 Inr w2 assms(3) in \<open>auto simp: grows_below_def share_path_def\<close>)
    have g12: "grows_below D (pw_root w) root2" using g1 g2 below_trans by blast
    note m2 = mounted_grows [OF assms(1) g12]
    obtain rn root3 where rn: "fs_rename (pe_fs env) root2 temp local_path = (rn, root3)" by fastforce
    note g3 = rename_grows [OF m2 assms(3,2) rn]
    note m3 = mounted_grows [OF m2 g3]
    have "(\<exists>u. fs_unlink (pe_fs env) root2 temp = (u, pw_root w')) \<or> (\<exists>u. fs_unlink (pe_fs env) root3 temp = (u, pw_root w')) \<or> pw_root w' = root3"
      using assms(5) unfolding receive_staged_def c Inr
      by (auto simp: pr w2 rn Let_def dest!: write_failed_world split: sum.splits prod.splits if_splits)
    then have "grows_below D root2 (pw_root w')"
      using unlink_grows [OF m2 assms(3)] unlink_grows [OF m3 assms(3)] g3 below_trans by blast
    then show ?thesis using g12 below_trans by blast
  qed
qed

lemma parent_created:
  assumes "mounted root [] lc D" "share_path env [] lc full rest" "starts_with full ''/''" "path_parent full = Some d"
    and "fs_create_dir_all env root d = (m, root1)" "fs_ok env root"
  shows "grows_below D root root1 \<and> node_at root1 (D @ rest) = node_at root (D @ rest)"
proof -
  have da: "starts_with d ''/''" using path_parent_absolute [OF assms(4)] assms(3) by (auto simp: starts_with_def split: if_splits)
  have dc: "path_components d = lc @ butlast rest"
    using path_parent_components [OF assms(4)] assms(2) by (simp add: share_path_def butlast_append)
  show ?thesis
  proof (cases "butlast rest = []")
    case True
    have "mounted root (start_dir env d) (path_components d) D" using assms(1) dc True absolute_start [OF da] by simp
    from create_dir_all_existing [OF this assms(6,5)] show ?thesis using mounted_refl [OF assms(1)] by simp
  next
    case False
    have "share_path env [] lc d (butlast rest)"
      using dc False absolute_start [OF da] assms(2) by (auto simp: share_path_def dest: in_set_butlastD)
    moreover have "length (D @ butlast rest) < length (D @ rest)" using assms(2) by (simp add: share_path_def)
    ultimately show ?thesis using create_dir_all_frame [OF assms(1) _ assms(5,6)] by blast
  qed
qed

lemma handle_write_confined:
  assumes "handle_write env io view path sz spaces w = (r, out, w')" "pw_root w' \<noteq> pw_root w"
    and "fs_ok (pe_fs env) (pw_root w)" "\<forall>share\<in>snd ` set (pst_shares (view 2)). plain_share (pe_fs env) (pw_root w) share"
  obtains share sub D where "find_share_and_subpath (pst_shares (view 2)) spaces path = Inr (share, sub)"
    "canonicalize (pe_fs env) (pw_root w) (sf_local_path share) = Inr D" "same_outside {D} (pw_root w) (pw_root w')"
proof -
  obtain full where full: "resolve_path_for_write (pe_fs env) (pw_root w) (pst_shares (view 2)) spaces path = Inr full"
    using assms(1,2) by (auto simp: handle_write_def respond_ok_def split: if_splits sum.splits prod.splits)
  obtain share sub D where t: "find_share_and_subpath (pst_shares (view 2)) spaces path = Inr (share, sub)"
    "canonicalize (pe_fs env) (pw_root w) (sf_local_path share) = Inr D"
    "plain_share (pe_fs env) (pw_root w) share \<Longrightarrow> starts_with full ''/''"
    "plain_share (pe_fs env) (pw_root w) share \<Longrightarrow> D \<noteq> [] \<Longrightarrow>
       share_path (pe_fs env) [] (path_components (sf_local_path share)) full (path_components sub)"
    by (rule write_target [OF full]) blast
  have ps: "plain_share (pe_fs env) (pw_root w) share" using assms(4) find_share_sound(1) [OF t(1)] by blast
  have "same_outside {D} (pw_root w) (pw_root w')"
  proof (cases "D = []")
    case True
    then show ?thesis by (simp add: same_outside_def)
  next
    case False
    let ?lc = "path_components (sf_local_path share)"
    have mt: "mounted (pw_root w) [] ?lc D" by (rule share_mounted [OF ps t(2)])
    have sp: "share_path (pe_fs env) [] ?lc full (path_components sub)" by (rule t(4) [OF ps False])
    obtain d where d: "path_parent full = Some d" using path_parent_exists sp by (fastforce simp: share_path_def)
    obtain m root1 where m: "fs_create_dir_all (pe_fs env) (pw_root w) d = (m, root1)" by fastforce
    have g1: "grows_below D (pw_root w) root1" using parent_created [OF mt sp t(3) [OF ps] d m assms(3)] by simp
    have "grows_below D (pw_root w) (pw_root w')"
    proof (cases m)
      case (Inl e)
      then show ?thesis using assms(1,2) full d m g1
        by (auto simp: handle_write_def respond_ok_def split: if_splits prod.splits)
    next
      case (Inr u)
      have *: "receive_staged env io full (temp_path_of full) sz (w\<lparr>pw_root := root1\<rparr>) = (r, out, w')"
        using assms(1,2) full d m Inr by (auto simp: handle_write_def respond_ok_def split: if_splits prod.splits)
      have "grows_below D root1 (pw_root w')"
        using receive_staged_grows [OF _ sp temp_share_path [OF sp t(3) [OF ps]] _ *] mounted_grows [OF mt g1] fs_ok_grows [OF assms(3) g1]
        by simp
      then show ?thesis using g1 below_trans by blast
    qed
    then show ?thesis by (simp add: grows_below_def)
  qed
  then show ?thesis using that t(1,2) by blast
qed


lemma handle_create_directory_confined:
  assumes "handle_create_directory env view path spaces root = (resp, root')" "root' \<noteq> root"
    and "fs_ok env root" "\<forall>share\<in>snd ` set (pst_shares (view 2)). plain_share env root share"
  obtains share sub D where "find_share_and_subpath (pst_shares (view 2)) spaces path = Inr (share, sub)"
    "canonicalize env root (sf_local_path share) = Inr D" "same_outside {D} root root'"
proof -
  obtain full r where full: "resolve_path_for_write env root (pst_shares (view 2)) spaces path = Inr full"
    "fs_create_dir_all env root full = (r, root')"
    using assms(1,2) by (auto simp: handle_create_directory_def simp del: fs_create_dir_all.simps split: if_splits sum.splits prod.splits)
  obtain share sub D where t: "find_share_and_subpath (pst_shares (view 2)) spaces path = Inr (share, sub)"
    "canonicalize env root (sf_local_path share) = Inr D"
    "plain_share env root share \<Longrightarrow> D \<noteq> [] \<Longrightarrow> share_path env [] (path_components (sf_local_path share)) full (path_components sub)"
    by (rule write_target [OF full(1)]) blast
  have ps: "plain_share env root share" using assms(4) find_share_sound(1) [OF t(1)] by blast
  have "same_outside {D} root root'"
  proof (cases "D = []")
    case True
    then show ?thesis by (simp add: same_outside_def)
  next
    case False
    then show ?thesis using create_dir_all_grows [OF share_mounted [OF ps t(2)] t(3) [OF ps False] full(2) assms(3)]
      by (simp add: grows_below_def)
  qed
  then show ?thesis using that t(1,2) by blast
qed

lemma error_iff: "path_err r = Inr x \<longleftrightarrow> r = Inr x" "resp_err m s = Inr y \<longleftrightarrow> s = Inr y"
  by (auto simp: path_err_def resp_err_def split: sum.splits)

lemma filtered_sound:
  assumes "resolve_path_filtered env root shares spaces path = Inr p" "fs_ok env root"
  obtains share sub D where "find_share_and_subpath shares spaces path = Inr (share, sub)"
    "canonicalize env root (sf_local_path share) = Inr D" "prefix D p" "walk_end False root p"
proof -
  obtain share sub D where s: "find_share_and_subpath shares spaces path = Inr (share, sub)"
    "canonicalize env root (path_join (sf_local_path share) sub) = Inr p"
    "canonicalize env root (sf_local_path share) = Inr D" "prefix D p"
    using assms(1) by (auto simp: resolve_path_filtered_def and_then_Inr_iff error_iff split: if_splits)
  then show ?thesis using that resolve_text_sound [OF assms(2)] by (auto simp: canonicalize_def)
qed

text \<open>Documented behaviour of the trash crate: it moves the item into the trash directory.\<close>

definition trash_law :: "fs_env \<Rightarrow> string list \<Rightarrow> bool" where
  "trash_law env T \<longleftrightarrow> (\<forall>root p r root'. fe_trash env root p = (r, root') \<longrightarrow> same_outside {p, T} root root')"

lemma same_outside_widen: "same_outside Ds a b \<Longrightarrow> (\<And>D. D \<in> Ds \<Longrightarrow> \<exists>E\<in>Es. prefix E D) \<Longrightarrow> same_outside Es a b"
  unfolding same_outside_def by (meson prefix_order.trans)

lemma removed_confined: "snd (fs_remove_dir_all env root p) \<noteq> root \<Longrightarrow> \<exists>cs. resolve_last env root p = Inr cs \<and> same_outside {cs} root (snd (fs_remove_dir_all env root p))"
  by (auto simp: fs_remove_dir_all_def intro!: set_inode_confined split: sum.splits option.splits inode.splits)

lemma unlinked_confined: "snd (fs_unlink env root p) \<noteq> root \<Longrightarrow> \<exists>cs. resolve_last env root p = Inr cs \<and> same_outside {cs} root (snd (fs_unlink env root p))"
  by (auto simp: fs_unlink_def res_simps faulty_def intro!: set_inode_confined split: sum.splits option.splits inode.splits)

lemma handle_delete_confined:
  assumes "handle_delete env view path to_trash spaces root = (resp, root')" "root' \<noteq> root" "fs_ok env root" "trash_law env T"
  obtains share sub D where "find_share_and_subpath (pst_shares (view 2)) spaces path = Inr (share, sub)"
    "canonicalize env root (sf_local_path share) = Inr D" "same_outside {D, T} root root'"
proof -
  obtain p where p: "resolve_path_filtered env root (pst_shares (view 2)) spaces path = Inr p"
    using assms(1,2) by (auto simp: handle_delete_def split: if_splits sum.splits)
  obtain share sub D where t: "find_share_and_subpath (pst_shares (view 2)) spaces path = Inr (share, sub)"
    "canonicalize env root (sf_local_path share) = Inr D" "prefix D p" "walk_end False root p"
    by (rule filtered_sound [OF p assms(3)])
  consider (trash) r where "fe_trash env root p = (r, root')" | (dir) "root' = snd (fs_remove_dir_all env root (abs_text p))"
    | (unlink) "root' = snd (fs_unlink env root (abs_text p))"
    using assms(1,2) p by (auto simp: handle_delete_def Let_def split: if_splits sum.splits prod.splits)
  then have "same_outside {p, T} root root'"
  proof cases
    case trash
    then show ?thesis using assms(4) by (simp add: trash_law_def)
  next
    case dir
    then show ?thesis using removed_confined [of env root "abs_text p"] assms(2) resolve_last_abs [OF t(4)]
      by (fastforce intro: same_outside_widen)
  next
    case unlink
    then show ?thesis using unlinked_confined [of env root "abs_text p"] assms(2) resolve_last_abs [OF t(4)]
      by (fastforce intro: same_outside_widen)
  qed
  then have "same_outside {D, T} root root'" using t(3) by (auto elim!: same_outside_widen)
  then show ?thesis using that t(1,2) by blast
qed

lemma authorize_sound:
  assumes "authorize_request env st allowed did req = Inr spaces"
  obtains ucan where "validate_token (pe_ucan env) (pe_now env) (ucan_token_of req) = Inr ucan" "vu_audience ucan = did"
    "spaces = effective_spaces ucan allowed"
    "\<And>space_id. find_space_for_path (pst_shares st) spaces (request_path req) = Some space_id \<Longrightarrow>
       \<exists>level. vu_capabilities ucan space_id = Some level \<and> (if requires_write req then CapWrite else CapRead) \<le> level"
proof -
  obtain ucan where u: "validate_token (pe_ucan env) (pe_now env) (ucan_token_of req) = Inr ucan"
    using assms by (auto simp: authorize_request_def split: sum.splits)
  have a: "vu_audience ucan = did"
    using assms u by (auto simp: authorize_request_def require_audience_def split: sum.splits if_splits)
  have s: "spaces = effective_spaces ucan allowed"
    using assms u by (auto simp: authorize_request_def Let_def split: sum.splits if_splits option.splits)
  have "\<exists>level. vu_capabilities ucan space_id = Some level \<and> (if requires_write req then CapWrite else CapRead) \<le> level"
    if "find_space_for_path (pst_shares st) spaces (request_path req) = Some space_id" for space_id
    using assms u that s by (auto simp: authorize_request_def require_capability_def Let_def split: sum.splits if_splits option.splits)
  then show ?thesis using u a s by (rule that [rotated 3])
qed

text \<open>The root path names no share; every other path names the space whose capability is checked.\<close>

definition named_shares :: "peer_state \<Rightarrow> bool" where
  "named_shares st \<longleftrightarrow> (\<forall>(share_id, share) \<in> set (pst_shares st). share_id \<noteq> [] \<and> sf_name share \<noteq> [])"

lemma space_of_share:
  assumes "find_share_and_subpath (pst_shares st) spaces path = Inr (share, sub)" "named_shares st"
  shows "find_space_for_path (pst_shares st) spaces path = Some (sf_space_id share)"
proof -
  have "path \<noteq> [] \<and> path \<noteq> ''/''"
  proof (rule ccontr)
    assume "\<not> (path \<noteq> [] \<and> path \<noteq> ''/'')"
    then have "trim_start_matches (CHR ''/'') path = []" by (auto simp: trim_start_matches_def)
    then have "(\<exists>s\<in>snd ` set (pst_shares st). sf_name s = []) \<or> (\<exists>s. ([], s) \<in> set (pst_shares st))"
      using assms(1) by (auto simp: find_share_and_subpath_def find_Some_iff split: option.splits if_splits dest: map_of_SomeD nth_mem)
    then show False using assms(2) by (auto simp: named_shares_def)
  qed
  then show ?thesis using assms(1) by (simp add: find_space_for_path_def)
qed


lemma dispatch_changes:
  assumes "dispatch env io view spaces req w = (r, out, w')" "pw_root w' \<noteq> pw_root w"
    and "fs_ok (pe_fs env) (pw_root w)" "trash_law (pe_fs env) T"
    and "\<forall>share\<in>snd ` set (pst_shares (view 2)). plain_share (pe_fs env) (pw_root w) share"
  obtains share sub D where "requires_write req" "find_share_and_subpath (pst_shares (view 2)) spaces (request_path req) = Inr (share, sub)"
    "canonicalize (pe_fs env) (pw_root w) (sf_local_path share) = Inr D" "same_outside {D, T} (pw_root w) (pw_root w')"
proof (cases req)
  case (ReqManifest path t)
  then have "pw_root w' = pw_root w"
    using assms(1) by (auto simp: dispatch_def handle_manifest_def reply_def split: if_splits sum.splits prod.splits)
  then show ?thesis using assms(2) by simp
next
  case (ReqWrite path sz t)
  then obtain r1 out1 where "handle_write env io view path (unat sz) spaces w = (r1, out1, w')"
    using assms(1) by (auto simp: dispatch_def split: prod.splits)
  from handle_write_confined [OF this assms(2,3,5)] obtain share sub D
    where s: "find_share_and_subpath (pst_shares (view 2)) spaces path = Inr (share, sub)"
    "canonicalize (pe_fs env) (pw_root w) (sf_local_path share) = Inr D" "same_outside {D} (pw_root w) (pw_root w')" by blast
  have "same_outside {D, T} (pw_root w) (pw_root w')" by (rule same_outside_widen [OF s(3)]) auto
  then show ?thesis using that s(1,2) ReqWrite by simp
next
  case (ReqDelete path tr t)
  then obtain resp where "handle_delete (pe_fs env) view path tr spaces (pw_root w) = (resp, pw_root w')"
    using assms(1) by (auto simp: dispatch_def reply_def split: prod.splits)
  from handle_delete_confined [OF this assms(2,3,4)] show ?thesis using that ReqDelete by (metis request_path.simps(6) requires_write.simps(2))
next
  case (ReqCreateDirectory path t)
  then obtain resp where "handle_create_directory (pe_fs env) view path spaces (pw_root w) = (resp, pw_root w')"
    using assms(1) by (auto simp: dispatch_def reply_def split: prod.splits)
  from handle_create_directory_confined [OF this assms(2,3,5)] obtain share sub D
    where s: "find_share_and_subpath (pst_shares (view 2)) spaces path = Inr (share, sub)"
    "canonicalize (pe_fs env) (pw_root w) (sf_local_path share) = Inr D" "same_outside {D} (pw_root w) (pw_root w')" by blast
  have "same_outside {D, T} (pw_root w) (pw_root w')" by (rule same_outside_widen [OF s(3)]) auto
  then show ?thesis using that s(1,2) ReqCreateDirectory by simp
qed (use assms(1,2) in \<open>auto simp: dispatch_def reply_def split: prod.splits\<close>)

text \<open>C18: Whatever a peer sends on a stream, a change of the file system needs a request that
  carries a valid UCAN issued to the peer's verified DID with at least the write capability
  for a space the peer is registered in, and it stays below the canonical root of a share of
  that space (or in the trash).  The shares are plain: their roots are directories without
  symbolic links below them.  The shares do not change while the request is handled.\<close>

theorem peer_changes_confined:
  assumes "handle_stream env io (\<lambda>_. st) allowed did w = (r, out, w')" "pw_root w' \<noteq> pw_root w"
    and "fs_ok (pe_fs env) (pw_root w)" "trash_law (pe_fs env) T" "named_shares st"
    and "\<forall>share\<in>snd ` set (pst_shares st). plain_share (pe_fs env) (pw_root w) share"
  shows "\<exists>req rest ucan share level D.
    read_request (pe_ucan env) (si_request io) = Inr (req, rest) \<and> requires_write req \<and>
    validate_token (pe_ucan env) (pe_now env) (ucan_token_of req) = Inr ucan \<and> vu_audience ucan = did \<and>
    share \<in> snd ` set (pst_shares st) \<and> sf_space_id share \<in> set allowed \<and>
    vu_capabilities ucan (sf_space_id share) = Some level \<and> CapWrite \<le> level \<and>
    canonicalize (pe_fs env) (pw_root w) (sf_local_path share) = Inr D \<and>
    same_outside {D, T} (pw_root w) (pw_root w')"
proof -
  obtain req rest where req: "read_request (pe_ucan env) (si_request io) = Inr (req, rest)"
    using assms(1,2) by (auto simp: handle_stream_def split: sum.splits prod.splits)
  obtain spaces where au: "authorize_request env st allowed did req = Inr spaces"
    using assms(1,2) req by (auto simp: handle_stream_def respond_ok_def split: sum.splits prod.splits)
  have d: "dispatch env io (\<lambda>_. st) spaces req w = (r, out, w')" using assms(1) req au by (simp add: handle_stream_def)
  obtain share sub D where s: "requires_write req" "find_share_and_subpath (pst_shares st) spaces (request_path req) = Inr (share, sub)"
    "canonicalize (pe_fs env) (pw_root w) (sf_local_path share) = Inr D" "same_outside {D, T} (pw_root w) (pw_root w')"
    using dispatch_changes [OF d assms(2,3,4,6)] by blast
  obtain ucan where u: "validate_token (pe_ucan env) (pe_now env) (ucan_token_of req) = Inr ucan" "vu_audience ucan = did"
    "spaces = effective_spaces ucan allowed"
    "\<exists>level. vu_capabilities ucan (sf_space_id share) = Some level \<and> (if requires_write req then CapWrite else CapRead) \<le> level"
    using authorize_sound [OF au] space_of_share [OF s(2) assms(5)] by metis
  have "sf_space_id share \<in> set allowed" using find_share_sound(2) [OF s(2)] u(3) by (simp add: effective_spaces_def)
  then show ?thesis using req s u find_share_sound(1) [OF s(2)] by auto
qed


text \<open>A file system and an environment for the witnesses: the share \<open>/srv/docs\<close> of the space
  \<open>s1\<close>, a link \<open>/srv/docs-link/out\<close> to \<open>/etc\<close>, and one token that grants \<open>space/write\<close>.\<close>

definition wit_did :: string where "wit_did = ''did:key:zA''"

definition wit_payload :: json where
  "wit_payload = JObject [(''iss'', JString wit_did), (''aud'', JString wit_did), (''exp'', JInt 5000),
     (''cap'', JObject [(''space:s1'', JString ''space/write'')])]"

definition wit_ucan :: "peer_request \<Rightarrow> ucan_env" where
  "wit_ucan req = \<lparr>
     b64url_encode = (\<lambda>_. []), b64url_decode = (\<lambda>s. Inr (if s = ''P'' then as_bytes ''p'' else replicate 64 0)),
     b64_decode = (\<lambda>_. Inr []), bs58_encode = (\<lambda>_. ''A''), bs58_decode = (\<lambda>_. Inr (ED25519_MULTICODEC @ replicate 32 7)),
     json_from_slice = (\<lambda>b. if b = as_bytes ''p'' then Inr wit_payload else Inr (request_to_json req)),
     json_to_string = (\<lambda>_. Inr ''r''), key_error = (\<lambda>_. None),
     ed_verify = (\<lambda>_ _ _. True), ed_sign = (\<lambda>_ _. replicate 64 0), ed_public = (\<lambda>k. k)\<rparr>"

definition wit_fs :: fs_env where
  "wit_fs = \<lparr>fe_cwd = [], fe_fault = (\<lambda>_ _. None), fe_partial = (\<lambda>_. 0), fe_remnant = (\<lambda>_ _. None), fe_now = 7,
     fe_dir_size = (\<lambda>_. 0), fe_dir_time = (\<lambda>_. None), fe_trash = (\<lambda>root p. (Inr (), set_inode None root p))\<rparr>"

definition wit_root :: inode where
  "wit_root = Directory [(''srv'', Directory [(''docs'', Directory [(''a'', Regular [1, 2, 3, 4] 5)]),
       (''linked'', Directory [(''out'', SymLink ''/etc'')])]), (''etc'', Directory [])]"

definition wit_env :: "peer_request \<Rightarrow> peer_env" where
  "wit_env req = \<lparr>pe_fs = wit_fs, pe_ucan = wit_ucan req, pe_now = Inr 1000, pe_sha256 = (\<lambda>_. ''hash'')\<rparr>"

definition wit_world :: peer_world where "wit_world = \<lparr>pw_root = wit_root, pw_cache = []\<rparr>"

definition wit_pipe :: pipe_io where
  "wit_pipe = \<lparr>pi_read_size = (\<lambda>_. 2), pi_read_error = (\<lambda>_. None), pi_write_error = (\<lambda>_. None), pi_cancelled = (\<lambda>_. False)\<rparr>"

definition wit_io :: "recv_event list \<Rightarrow> stream_io" where
  "wit_io evs = \<lparr>si_request = be32 1 @ as_bytes ''r'', si_events = evs, si_send_error = (\<lambda>_. None), si_finish_error = None, si_pipe = wit_pipe\<rparr>"

definition wit_state :: "string \<Rightarrow> peer_state" where
  "wit_state path = peer_state_default\<lparr>pst_shares := [(''id1'', \<lparr>sf_name = ''docs'', sf_local_path = path, sf_space_id = ''s1''\<rparr>)]\<rparr>"

definition wit_write :: peer_request where "wit_write = ReqWrite ''docs/b'' 2 ''H.P.S''"

lemma wit_share:
  "canonicalize wit_fs wit_root ''/srv/docs'' = Inr [''srv'', ''docs'']"
  "path_components ''/srv/docs'' = [''srv'', ''docs'']"
  by code_simp+

lemma wit_request: "read_request (wit_ucan req) (si_request (wit_io evs)) = Inr (req, [])"
proof -
  have "from_be32 (be32 1) = 1" by (rule from_be32_be32) simp
  then show ?thesis
    by (simp add: read_request_def peer_read_message_def wit_io_def wit_ucan_def MAX_REQUEST_SIZE_def as_bytes_def request_json)
qed

lemma wit_token: "validate_token (wit_ucan req) (Inr 1000) ''H.P.S'' =
    Inr \<lparr>vu_issuer = wit_did, vu_audience = wit_did, vu_capabilities = [''s1'' \<mapsto> CapWrite], vu_expires_at = 5000\<rparr>"
  by (simp add: validate_token_def validate_payload_def wit_ucan_def wit_payload_def wit_did_def public_key_from_did_def
      verify_signature_def expiry_check_def from_capability_string_def strip_prefix_def starts_with_def ED25519_MULTICODEC_def as_bytes_def)

lemma wit_steps:
  "resolve_path_for_write wit_fs wit_root (pst_shares (wit_state ''/srv/docs'')) [''s1''] ''docs/b'' = Inr ''/srv/docs/b''"
  "path_parent ''/srv/docs/b'' = Some ''/srv/docs''" "temp_path_of ''/srv/docs/b'' = ''/srv/docs/b.part''"
  "fs_create_dir_all wit_fs wit_root ''/srv/docs'' = (Inr (), wit_root)"
  "fs_create wit_fs wit_root ''/srv/docs/b.part'' =
     (Inr [''srv'', ''docs'', ''b.part''], set_inode (Some (Regular [] 7)) wit_root [''srv'', ''docs'', ''b.part''])"
  "fs_rename wit_fs (set_inode (Some (Regular [8, 9] 7)) wit_root [''srv'', ''docs'', ''b.part'']) ''/srv/docs/b.part'' ''/srv/docs/b'' =
     (Inr (), set_inode (Some (Regular [8, 9] 7)) wit_root [''srv'', ''docs'', ''b''])"
  "snd (fs_write wit_fs (set_inode (Some (Regular [] 7)) wit_root [''srv'', ''docs'', ''b.part'']) ''/srv/docs/b.part''
     [''srv'', ''docs'', ''b.part''] [8, 9]) = set_inode (Some (Regular [8, 9] 7)) wit_root [''srv'', ''docs'', ''b.part'']"
  "check_content_uri (wit_state ''/srv/docs'') [''s1''] ''docs/b'' = None"
  "find_space_for_path (pst_shares (wit_state ''/srv/docs'')) [''s1''] ''docs/b'' = Some ''s1''"
  by code_simp+

lemma wit_authorized:
  "authorize_request (wit_env wit_write) (wit_state ''/srv/docs'') [''s1''] wit_did wit_write = Inr [''s1'']"
  using wit_steps(9) by (simp add: authorize_request_def wit_env_def wit_write_def wit_token require_audience_def effective_spaces_def
      require_capability_def wit_did_def less_eq_capability_level_def)

lemma wit_received: "receive_staged (wit_env wit_write) (wit_io [RcvChunk [8, 9]]) ''/srv/docs/b'' ''/srv/docs/b.part'' 2 wit_world =
    (Some (Inr ()), [SResp RespWriteOk, SFinish], \<lparr>pw_root = set_inode (Some (Regular [8, 9] 7)) wit_root [''srv'', ''docs'', ''b''], pw_cache = []\<rparr>)"
proof -
  have f: "pe_fs (wit_env wit_write) = wit_fs" "pw_root wit_world = wit_root" "fe_fault wit_fs = (\<lambda>_ _. None)" "si_events (wit_io evs) = evs" for evs
    by (simp_all add: wit_env_def wit_world_def wit_fs_def wit_io_def)
  have p: "pipe_recv_to_writer h (\<lambda>_. False) None False 2 [RcvChunk [8, 9]] = (Inr \<lparr>st_bytes = 2, st_hash = None\<rparr>, [8, 9])" for h
    by (simp add: pipe_recv_to_writer_def)
  show ?thesis unfolding receive_staged_def f wit_steps
    by (simp add: p wit_steps send_response_and_finish_def) (simp add: wit_io_def wit_world_def)
qed

lemma wit_write_runs:
  "handle_stream (wit_env wit_write) (wit_io [RcvChunk [8, 9]]) (\<lambda>_. wit_state ''/srv/docs'') [''s1''] wit_did wit_world =
     (Some (Inr ()), [SResp RespWriteOk, SFinish],
      \<lparr>pw_root = set_inode (Some (Regular [8, 9] 7)) wit_root [''srv'', ''docs'', ''b''], pw_cache = []\<rparr>)"
proof -
  have f: "pe_fs (wit_env wit_write) = wit_fs" "pw_root wit_world = wit_root" "pe_ucan (wit_env wit_write) = wit_ucan wit_write"
    "wit_world\<lparr>pw_root := wit_root\<rparr> = wit_world"
    by (simp_all add: wit_env_def wit_world_def)
  have "handle_write (wit_env wit_write) (wit_io [RcvChunk [8, 9]]) (\<lambda>_. wit_state ''/srv/docs'') ''docs/b'' 2 [''s1''] wit_world =
      (Some (Inr ()), [SResp RespWriteOk, SFinish], \<lparr>pw_root = set_inode (Some (Regular [8, 9] 7)) wit_root [''srv'', ''docs'', ''b''], pw_cache = []\<rparr>)"
    unfolding handle_write_def f wit_steps by (simp add: wit_steps wit_received f del: fs_create_dir_all.simps)
  then show ?thesis unfolding handle_stream_def f wit_request
    by (simp add: wit_authorized) (simp add: dispatch_def wit_write_def answer_error_def)
qed

lemma wit_fs_ok: "fs_ok wit_fs wit_root"
  by (simp add: fs_ok_def wit_fs_def wit_root_def is_dir_at_def)

lemma wit_plain: "plain_share wit_fs wit_root \<lparr>sf_name = n, sf_local_path = ''/srv/docs'', sf_space_id = s\<rparr>"
proof -
  have "node_at wit_root ([''srv'', ''docs''] @ r) \<noteq> Some (ShLink t)" for r t
    by (cases r; cases "tl r") (auto simp: wit_root_def split: option.splits if_splits)
  then have "no_links_below wit_root [''srv'', ''docs'']" by (auto simp: no_links_below_def elim!: prefixE)
  moreover have "is_dir_at wit_root [''srv'', ''docs'']" by (simp add: is_dir_at_def wit_root_def)
  ultimately show ?thesis using wit_share by (simp add: plain_share_def starts_with_def wit_fs_def)
qed

lemma wit_trash: "trash_law wit_fs T"
  by (auto simp: trash_law_def wit_fs_def intro: set_inode_confined)

theorem peer_changes_confined_witness:
  "let w' = \<lparr>pw_root = set_inode (Some (Regular [8, 9] 7)) wit_root [''srv'', ''docs'', ''b''], pw_cache = []\<rparr> in
   handle_stream (wit_env wit_write) (wit_io [RcvChunk [8, 9]]) (\<lambda>_. wit_state ''/srv/docs'') [''s1''] wit_did wit_world =
     (Some (Inr ()), [SResp RespWriteOk, SFinish], w') \<and> pw_root w' \<noteq> wit_root \<and>
   (\<exists>D. canonicalize wit_fs wit_root ''/srv/docs'' = Inr D \<and> same_outside {D, [''trash'']} wit_root (pw_root w'))"
proof -
  let ?w = "\<lparr>pw_root = set_inode (Some (Regular [8, 9] 7)) wit_root [''srv'', ''docs'', ''b''], pw_cache = []\<rparr>"
  have ne: "pw_root ?w \<noteq> pw_root wit_world" by (simp add: wit_world_def wit_root_def)
  have st: "snd ` set (pst_shares (wit_state ''/srv/docs'')) = {\<lparr>sf_name = ''docs'', sf_local_path = ''/srv/docs'', sf_space_id = ''s1''\<rparr>}"
    by (simp add: wit_state_def)
  have env: "pe_fs (wit_env wit_write) = wit_fs" "pw_root wit_world = wit_root" by (simp_all add: wit_env_def wit_world_def)
  have "named_shares (wit_state ''/srv/docs'')" by (simp add: named_shares_def wit_state_def)
  from peer_changes_confined [OF wit_write_runs ne _ _ this, of "[''trash'']"] show ?thesis
    unfolding st env Let_def using wit_write_runs ne wit_fs_ok wit_plain wit_trash by (auto simp: env)
qed


section \<open>What a peer can read\<close>

lemma forward_prefix: "\<exists>more. data = fst (snd (forward_chunks io i (read_chunks io i sz data))) @ more"
proof (induction io i sz data rule: read_chunks.induct)
  case (1 io i sz data)
  let ?n = "min (min (min sz CHUNK_SIZE) (length data)) (max 1 (pi_read_size io i))"
  show ?case
  proof (cases "sz = 0 \<or> pi_read_error io i \<noteq> None \<or> ?n = 0")
    case True
    then show ?thesis by (subst read_chunks.simps) (auto simp: Let_def simp del: min_less_iff_conj neq0_conv split: option.splits)
  next
    case False
    then have n: "sz \<noteq> 0" "pi_read_error io i = None" "?n \<noteq> 0" by auto
    obtain k where k: "k = ?n" by simp
    obtain more where more: "drop k data = fst (snd (forward_chunks io (Suc i) (read_chunks io (Suc i) (sz - k) (drop k data)))) @ more"
      using 1 [OF n(1,2) refl refl n(3)] unfolding k by blast
    have rd: "read_chunks io i sz data = Inr (take k data) # read_chunks io (Suc i) (sz - k) (drop k data)"
      unfolding k using n by (subst read_chunks.simps) (simp add: Let_def)
    obtain r s x where f: "forward_chunks io (Suc i) (read_chunks io (Suc i) (sz - k) (drop k data)) = (r, s, x)"
      by (cases "forward_chunks io (Suc i) (read_chunks io (Suc i) (sz - k) (drop k data))") auto
    have "data = take k data @ s @ more" using more f by (metis append_take_drop_id fst_conv snd_conv)
    then show ?thesis unfolding rd using f by (auto split: option.splits sum.splits)
  qed
qed

lemma stream_file_data:
  assumes "stream_file_to_send env root io p rng out = (r, out')" "SData d \<in> set out'" "SData d \<notin> set out"
  shows "\<exists>c. fs_open env root p = Inr c \<and> sublist d c"
proof -
  obtain c where c: "fs_open env root p = Inr c" using assms by (auto simp: stream_file_to_send_def split: sum.splits)
  obtain off n where w: "read_window (of_nat (length c)) rng = (off, n)" by fastforce
  obtain res data where ps: "pipe_reader_to_send (si_pipe io) (drop (unat off) c) (unat n) = (res, data)" by fastforce
  have "d = data"
    using assms c w ps by (auto simp: stream_file_to_send_def Let_def split: option.splits sum.splits)
  moreover obtain more where "drop (unat off) c = data @ more"
    using ps forward_prefix [of "drop (unat off) c" "si_pipe io" 0 "unat n"]
    by (auto simp: pipe_reader_to_send_def Let_def split: prod.splits option.splits)
  ultimately show ?thesis using c by (metis append_take_drop_id sublist_def)
qed

lemma opened_abs:
  assumes "fs_open env root (abs_text p) = Inr c" "walk_end False root p"
  shows "\<exists>t. lookup_inode root p = Some (Regular c t)"
proof -
  obtain cs where "resolve_text False env root (abs_text p) = Inr cs" "\<exists>t. lookup_inode root cs = Some (Regular c t)"
    using assms(1) by (auto simp: fs_open_def and_then_Inr_iff faulty_def split: option.splits inode.splits)
  then show ?thesis using resolve_abs_text [OF assms(2)] by blast
qed

lemma no_data:
  "SData d \<notin> set (snd (respond_ok io resp []))"
  "reply io resp w = (r, out, w') \<Longrightarrow> SData d \<notin> set out"
  "answer_error io (r, out) = (r', out') \<Longrightarrow> SData d \<in> set out' \<Longrightarrow> SData d \<in> set out"
  by (auto simp: respond_ok_def reply_def answer_error_def send_response_and_finish_def
      split: option.splits if_splits sum.splits)

lemma write_sends_no_data: "handle_write env io view path sz spaces w = (r, out, w') \<Longrightarrow> SData d \<notin> set out"
  by (auto simp: handle_write_def receive_staged_def write_failed_def respond_ok_def send_response_and_finish_def Let_def
      simp del: fs_create_dir_all.simps split: if_splits sum.splits prod.splits option.splits)

lemma dispatch_data:
  assumes "dispatch env io view spaces req w = (r, out, w')" "SData d \<in> set out" "fs_ok (pe_fs env) (pw_root w)"
  obtains path rng token share sub D p c t where "req = ReqRead path rng token"
    "find_share_and_subpath (pst_shares (view 2)) spaces path = Inr (share, sub)"
    "canonicalize (pe_fs env) (pw_root w) (sf_local_path share) = Inr D" "prefix D p"
    "lookup_inode (pw_root w) p = Some (Regular c t)" "sublist d c"
proof (cases req)
  case (ReqRead path rng token)
  obtain r1 out1 where h: "handle_read (pe_fs env) (pw_root w) io view path rng spaces = (r1, out1)" by fastforce
  then have o1: "SData d \<in> set out1"
    using assms(1,2) ReqRead no_data(3) [of io r1 out1] by (auto simp: dispatch_def split: prod.splits)
  then obtain p where p: "resolve_path_filtered (pe_fs env) (pw_root w) (pst_shares (view 2)) spaces path = Inr p"
      "stream_file_to_send (pe_fs env) (pw_root w) io (abs_text p) rng [] = (r1, out1)"
    using h no_data(1) [of d io] by (auto simp: handle_read_def split: if_splits sum.splits) (metis snd_conv)+
  obtain share sub D where s: "find_share_and_subpath (pst_shares (view 2)) spaces path = Inr (share, sub)"
    "canonicalize (pe_fs env) (pw_root w) (sf_local_path share) = Inr D" "prefix D p" "walk_end False (pw_root w) p"
    by (rule filtered_sound [OF p(1) assms(3)])
  obtain c where c: "fs_open (pe_fs env) (pw_root w) (abs_text p) = Inr c" "sublist d c"
    using stream_file_data [OF p(2) o1] by auto
  then show ?thesis using that [OF ReqRead s(1,2,3) _ c(2)] opened_abs [OF c(1) s(4)] by blast
next
  case (ReqWrite path sz t)
  then obtain r1 out1 where "handle_write env io view path (unat sz) spaces w = (r1, out1, w')" "answer_error io (r1, out1) = (r, out)"
    using assms(1) by (auto simp: dispatch_def split: prod.splits)
  then show ?thesis using no_data(3) assms(2) write_sends_no_data by blast
qed (use assms(1,2) no_data(2) in \<open>auto simp: dispatch_def split: prod.splits\<close>)

text \<open>C19: File bytes leave only for a read request that carries a valid UCAN issued to the peer's
  verified DID with a capability for a space the peer is registered in, and they are a
  contiguous part of a file below the canonical root of a share of that space, whatever
  symbolic links the share contains and whatever range was asked for.\<close>

theorem peer_reads_confined:
  assumes "handle_stream env io (\<lambda>_. st) allowed did w = (r, out, w')" "SData d \<in> set out"
    and "fs_ok (pe_fs env) (pw_root w)" "named_shares st"
  shows "\<exists>path rng token rest ucan share level D p c t.
    read_request (pe_ucan env) (si_request io) = Inr (ReqRead path rng token, rest) \<and>
    validate_token (pe_ucan env) (pe_now env) token = Inr ucan \<and> vu_audience ucan = did \<and>
    share \<in> snd ` set (pst_shares st) \<and> sf_space_id share \<in> set allowed \<and>
    vu_capabilities ucan (sf_space_id share) = Some level \<and>
    canonicalize (pe_fs env) (pw_root w) (sf_local_path share) = Inr D \<and> prefix D p \<and>
    lookup_inode (pw_root w) p = Some (Regular c t) \<and> sublist d c"
proof -
  obtain req rest where req: "read_request (pe_ucan env) (si_request io) = Inr (req, rest)"
    using assms(1,2) by (auto simp: handle_stream_def split: sum.splits prod.splits)
  obtain spaces where au: "authorize_request env st allowed did req = Inr spaces"
    using assms(1,2) req no_data(1) [of d io] by (auto simp: handle_stream_def split: sum.splits prod.splits) (metis snd_conv)
  have dp: "dispatch env io (\<lambda>_. st) spaces req w = (r, out, w')" using assms(1) req au by (simp add: handle_stream_def)
  obtain path rng token share sub D p c t where s: "req = ReqRead path rng token"
    "find_share_and_subpath (pst_shares st) spaces path = Inr (share, sub)"
    "canonicalize (pe_fs env) (pw_root w) (sf_local_path share) = Inr D" "prefix D p"
    "lookup_inode (pw_root w) p = Some (Regular c t)" "sublist d c"
    using dispatch_data [OF dp assms(2,3)] by metis
  obtain ucan where u: "validate_token (pe_ucan env) (pe_now env) token = Inr ucan" "vu_audience ucan = did"
    "spaces = effective_spaces ucan allowed" "\<exists>level. vu_capabilities ucan (sf_space_id share) = Some level"
    using authorize_sound [OF au] space_of_share [OF s(2) assms(4)] s(1) by (metis request_path.simps(3) ucan_token_of.simps(3))
  have "sf_space_id share \<in> set allowed" using find_share_sound(2) [OF s(2)] u(3) by (simp add: effective_spaces_def)
  then show ?thesis using req s u find_share_sound(1) [OF s(2)] by blast
qed


section \<open>Writes are all or nothing\<close>

lemma renamed:
  assumes "fs_rename env root p q = (Inr u, root')" "resolve_last env root p = Inr src" "resolve_last env root q = Inr dst" "src \<noteq> dst"
  obtains m where "lookup_inode root src = Some m" "is_dir_at root (butlast dst)" "root' = set_inode (Some m) (set_inode None root src) dst"
  using assms by (auto simp: fs_rename_def faulty_def is_dir_at_def node_at_dir split: sum.splits option.splits inode.splits if_splits)

lemma rename_failed: "fs_rename env root p q = (Inl e, root') \<Longrightarrow> root' = root"
  by (auto simp: fs_rename_def split: sum.splits option.splits inode.splits if_splits)

lemma rename_resolved: "fs_rename env root p q = (Inr u, root') \<Longrightarrow> \<exists>src dst. resolve_last env root p = Inr src \<and> resolve_last env root q = Inr dst"
  by (auto simp: fs_rename_def and_then_Inr_iff split: sum.splits)

lemma unlink_frame:
  assumes "fs_unlink env root p = (r, root')" "\<And>cs. resolve_last env root p = Inr cs \<Longrightarrow> \<not> prefix cs y"
  shows "node_at root' y = node_at root y"
  using assms by (auto simp: fs_unlink_def and_then_Inr_iff faulty_def set_inode_frame split: sum.splits option.splits inode.splits)

lemma write_node:
  assumes "fs_write env root p cs data = (r, root')" "is_dir_at root (butlast cs)" "cs \<noteq> []"
  shows "\<exists>k t. lookup_inode root' cs = Some (Regular (take k data) t) \<and> (fe_fault env SysWrite p = None \<longrightarrow> length data \<le> k)"
    and "\<not> prefix cs y \<Longrightarrow> node_at root' y = node_at root y"
proof -
  obtain es where es: "lookup_inode root (butlast cs) = Some (Directory es)" using assms(2) by (auto simp: is_dir_at_def node_at_dir)
  show "\<exists>k t. lookup_inode root' cs = Some (Regular (take k data) t) \<and> (fe_fault env SysWrite p = None \<longrightarrow> length data \<le> k)"
    using assms(1) lookup_set_inode [OF es assms(3), of _ "[]"]
    by (cases "fe_fault env SysWrite p") (auto simp: fs_write_def intro: exI [of _ "length data"])
  show "\<not> prefix cs y \<Longrightarrow> node_at root' y = node_at root y"
    using assms(1) by (auto simp: fs_write_def set_inode_frame split: option.splits)
qed

lemma write_failed_out: "write_failed io m e removed w = (r, out, w') \<Longrightarrow> pw_root w' = snd removed \<and> SResp RespWriteOk \<notin> set out"
  by (auto simp: write_failed_def send_response_and_finish_def split: option.splits)

lemma receive_staged_atomic:
  assumes mt: "mounted (pw_root w) [] lc D" and sp: "share_path (pe_fs env) [] lc local_path rest"
    and st: "share_path (pe_fs env) [] lc temp rest'" and len: "length rest' = length rest" "rest' \<noteq> rest"
    and fs: "fs_ok (pe_fs env) (pw_root w)" and run: "receive_staged env io local_path temp sz w = (r, out, w')"
  shows "node_at (pw_root w') (D @ rest) = node_at (pw_root w) (D @ rest) \<and> SResp RespWriteOk \<notin> set out \<or>
    (\<exists>t. node_at (pw_root w') (D @ rest) = Some (ShRegular (take sz (chunk_data (si_events io))) t)) \<and>
    sz \<le> length (chunk_data (si_events io))"
proof -
  let ?dst = "D @ rest" and ?tmp = "D @ rest'"
  have ne: "rest \<noteq> []" using sp by (simp add: share_path_def)
  have "\<not> prefix rest' rest" using len by (metis append_Nil2 append_eq_append_conv prefix_def)
  then have np1: "\<not> prefix ?tmp ?dst" by simp
  have "length (butlast ?dst) < length ?tmp" using len(1) ne by simp
  then have np: "\<not> prefix ?tmp ?dst" "\<not> prefix ?tmp (butlast ?dst)" using np1 prefix_length_le by fastforce+
  have tne: "?tmp \<noteq> []" using st by (simp add: share_path_def)
  obtain c root1 where c: "fs_create (pe_fs env) (pw_root w) temp = (c, root1)" by fastforce
  note g1 = create_grows [OF mt st c fs]
  show ?thesis
  proof (cases c)
    case (Inl e)
    then have "root1 = pw_root w" using c by (auto simp: fs_create_def split: sum.splits option.splits inode.splits)
    then show ?thesis using run c Inl by (auto simp: receive_staged_def)
  next
    case (Inr cs)
    then have cs: "cs = ?tmp" and dir1: "is_dir_at root1 (butlast ?tmp)" using g1 by auto
    have n1: "node_at root1 ?dst = node_at (pw_root w) ?dst"
      using c Inr cs np(1) by (auto simp: fs_create_def set_inode_frame split: sum.splits option.splits inode.splits)
    define fault where "fault = map_option (\<lambda>e. (e, fe_partial (pe_fs env) temp)) (fe_fault (pe_fs env) SysWrite temp)"
    obtain pr data where pr: "pipe_recv_to_writer (pe_sha256 env) (\<lambda>_. False) fault False sz (si_events io) = (pr, data)" by fastforce
    obtain wr root2 where w2: "fs_write (pe_fs env) root1 temp ?tmp data = (wr, root2)" by fastforce
    have n2: "node_at root2 ?dst = node_at root1 ?dst" using write_node(2) [OF w2 dir1 tne np(1)] .
    have g12: "grows_below D (pw_root w) root2"
    proof -
      have "no_links_below root1 D" "rest' \<noteq> []" "node_at root1 ?tmp \<noteq> Some ShDirectory"
        using g1 st Inr cs by (simp_all add: grows_below_def share_path_def)
      from write_grows [OF this(1,2) dir1 this(3) w2] show ?thesis using g1 below_trans by blast
    qed
    note m2 = mounted_grows [OF mt g12]
    obtain rn root3 where rn: "fs_rename (pe_fs env) root2 temp local_path = (rn, root3)" by fastforce
    obtain u2 root2' where u2: "fs_unlink (pe_fs env) root2 temp = (u2, root2')" by fastforce
    have nu: "node_at root2' ?dst = node_at root2 ?dst"
      by (rule unlink_frame [OF u2]) (use resolve_last_below [OF m2 st] np(1) in auto)
    show ?thesis
    proof (cases "\<exists>stats. pr = Inr stats \<and> st_bytes stats = sz \<and> rn = Inr ()")
      case False
      have "pw_root w' = root2' \<and> SResp RespWriteOk \<notin> set out"
        using run False rename_failed [of "pe_fs env" root2 temp local_path] unfolding receive_staged_def c Inr cs fault_def [symmetric]
        by (auto simp: pr w2 rn u2 Let_def dest!: write_failed_out split: sum.splits if_splits)
      then show ?thesis using nu n1 n2 by simp
    next
      case True
      then obtain stats where s: "pr = Inr stats" "st_bytes stats = sz" "rn = Inr ()" by blast
      have d: "data = take sz (chunk_data (si_events io))" "length data = sz"
        using pipe_recv_exact [of "pe_sha256 env" _ fault False sz "si_events io" stats data] pr s by auto
      have "fault = None" using pr s by (auto simp: pipe_recv_to_writer_def split: prod.splits option.splits)
      then have "fe_fault (pe_fs env) SysWrite temp = None" by (simp add: fault_def)
      then obtain t where l2: "lookup_inode root2 ?tmp = Some (Regular data t)"
        using write_node(1) [OF w2 dir1 tne] by auto
      obtain src dst where sd: "resolve_last (pe_fs env) root2 temp = Inr src" "resolve_last (pe_fs env) root2 local_path = Inr dst"
        using rename_resolved rn s(3) by blast
      have eq: "src = ?tmp" "dst = ?dst" using resolve_last_below [OF m2 st sd(1)] resolve_last_below [OF m2 sp sd(2)] by simp_all
      obtain m where m: "lookup_inode root2 src = Some m" "is_dir_at root2 (butlast dst)" "root3 = set_inode (Some m) (set_inode None root2 src) dst"
        using renamed [OF _ sd] rn s(3) eq len(2) by auto
      have "is_dir_at (set_inode None root2 src) (butlast ?dst)"
        using m(2) np(2) eq set_inode_frame [of src "butlast ?dst"] by (simp add: is_dir_at_def)
      then obtain es where "lookup_inode (set_inode None root2 src) (butlast ?dst) = Some (Directory es)"
        by (auto simp: is_dir_at_def node_at_dir)
      then have "node_at root3 ?dst = Some (ShRegular data t)"
        using lookup_set_inode [of "set_inode None root2 src" ?dst es "Some m" "[]"] sp m eq l2 by (auto simp: node_at_def share_path_def)
      moreover have "pw_root w' = root3"
        using run s unfolding receive_staged_def c Inr cs fault_def [symmetric] by (auto simp: pr w2 rn Let_def split: prod.splits)
      moreover have "sz \<le> length (chunk_data (si_events io))"
      proof -
        have "min (length (chunk_data (si_events io))) sz = sz" using d by (metis length_take)
        then show ?thesis by (simp add: min_def split: if_splits)
      qed
      ultimately show ?thesis using d(1) by blast
    qed
  qed
qed



definition wit_read :: peer_request where "wit_read = ReqRead ''docs/a'' (Some (1, 3)) ''H.P.S''"

lemma wit_read_steps:
  "resolve_path_filtered wit_fs wit_root (pst_shares (wit_state ''/srv/docs'')) [''s1''] ''docs/a'' = Inr [''srv'', ''docs'', ''a'']"
  "check_content_uri (wit_state ''/srv/docs'') [''s1''] ''docs/a'' = None"
  "find_space_for_path (pst_shares (wit_state ''/srv/docs'')) [''s1''] ''docs/a'' = Some ''s1''"
  "fs_is_file wit_fs wit_root (abs_text [''srv'', ''docs'', ''a''])"
  "fs_open wit_fs wit_root (abs_text [''srv'', ''docs'', ''a'']) = Inr [1, 2, 3, 4]"
  by code_simp+

lemma wit_read_authorized:
  "authorize_request (wit_env wit_read) (wit_state ''/srv/docs'') [''s1''] wit_did wit_read = Inr [''s1'']"
  using wit_read_steps(3) by (simp add: authorize_request_def wit_env_def wit_read_def wit_token require_audience_def effective_spaces_def
      require_capability_def wit_did_def less_eq_capability_level_def)

lemma wit_streamed: "stream_file_to_send wit_fs wit_root (wit_io []) (abs_text [''srv'', ''docs'', ''a'']) (Some (1, 3)) [] =
    (Some (Inr ()), [SResp (RespReadHeader 2), SData [2, 3], SFinish])"
proof -
  have "undisturbed wit_pipe" by (simp add: undisturbed_def wit_pipe_def)
  from pipe_send_exact [OF this, of "[2, 3, 4]" 2]
  have "pipe_reader_to_send wit_pipe [2, 3, 4] 2 = (Some (Inr 2), [2, 3])" by simp
  then show ?thesis
    by (simp add: stream_file_to_send_def wit_read_steps read_window_def wit_io_def min_def)
qed

lemma wit_read_runs:
  "handle_stream (wit_env wit_read) (wit_io []) (\<lambda>_. wit_state ''/srv/docs'') [''s1''] wit_did wit_world =
     (Some (Inr ()), [SResp (RespReadHeader 2), SData [2, 3], SFinish], wit_world)"
proof -
  have f: "pe_fs (wit_env wit_read) = wit_fs" "pw_root wit_world = wit_root" "pe_ucan (wit_env wit_read) = wit_ucan wit_read"
    by (simp_all add: wit_env_def wit_world_def)
  show ?thesis unfolding handle_stream_def f wit_request
    by (simp add: wit_read_authorized)
       (simp add: dispatch_def wit_read_def answer_error_def handle_read_def f wit_read_steps wit_streamed
         wit_env_def [of "ReqRead p r t" for p r t])
qed

theorem peer_reads_confined_witness:
  "handle_stream (wit_env wit_read) (wit_io []) (\<lambda>_. wit_state ''/srv/docs'') [''s1''] wit_did wit_world =
     (Some (Inr ()), [SResp (RespReadHeader 2), SData [2, 3], SFinish], wit_world) \<and>
   (\<exists>D p c t. canonicalize wit_fs wit_root ''/srv/docs'' = Inr D \<and> prefix D p \<and>
      lookup_inode wit_root p = Some (Regular c t) \<and> sublist [2, 3] c)"
proof -
  have st: "snd ` set (pst_shares (wit_state ''/srv/docs'')) = {\<lparr>sf_name = ''docs'', sf_local_path = ''/srv/docs'', sf_space_id = ''s1''\<rparr>}"
    by (simp add: wit_state_def)
  have env: "pe_fs (wit_env wit_read) = wit_fs" "pw_root wit_world = wit_root" by (simp_all add: wit_env_def wit_world_def)
  have nm: "named_shares (wit_state ''/srv/docs'')" by (simp add: named_shares_def wit_state_def)
  have mem: "SData [2, 3] \<in> set [SResp (RespReadHeader 2), SData [2, 3], SFinish]" by simp
  show ?thesis using peer_reads_confined [OF wit_read_runs mem _ nm] wit_read_runs wit_fs_ok unfolding st env by auto
qed



section \<open>Where the code falls short\<close>

text \<open>With a link inside the share, a write to a directory that does not exist yet ends up
  outside: the canonical check is skipped when the parent is missing.\<close>

lemma write_follows_link:
  "resolve_path_for_write wit_fs wit_root (pst_shares (wit_state ''/srv/linked'')) [''s1''] ''docs/out/x/y'' = Inr ''/srv/linked/out/x/y''"
  "snd (fs_create_dir_all wit_fs wit_root ''/srv/linked/out/x'') = set_inode (Some (Directory [])) wit_root [''etc'', ''x'']"
  by code_simp+

text \<open>A range that starts behind its end announces almost \<open>2\<^sup>6\<^sup>4\<close> bytes.\<close>

lemma reversed_range_wraps: "read_window 4 (Some (3, 2)) = (3, 2 ^ 64 - 1)"
  by (simp add: read_window_def min_def)


section \<open>Responses are well-typed\<close>

text \<open>File lengths and times are \<open>u64\<close> values.\<close>

fun sized :: "inode \<Rightarrow> bool" where
  "sized (Regular c t) \<longleftrightarrow> length c < 2 ^ 64 \<and> t div 10 ^ 9 < 2 ^ 64"
| "sized (Directory es) \<longleftrightarrow> (\<forall>e\<in>set es. sized (snd e))"
| "sized (SymLink s) \<longleftrightarrow> length s < 2 ^ 64"

definition env_sized :: "fs_env \<Rightarrow> bool" where
  "env_sized env \<longleftrightarrow> (\<forall>p. fe_dir_size env p < 2 ^ 64) \<and> (\<forall>p t. fe_dir_time env p = Some t \<longrightarrow> t div 10 ^ 9 < 2 ^ 64)"

lemma sized_lookup: "lookup_inode n cs = Some m \<Longrightarrow> sized n \<Longrightarrow> sized m"
proof (induction n cs rule: lookup_inode.induct)
  case (2 es x xs)
  then show ?case by (auto split: option.splits dest!: map_of_SomeD)
qed auto

lemma entry_typed: "sized n \<Longrightarrow> env_sized env \<Longrightarrow> entry_wf (entry_of env path name n)"
  by (cases n) (auto simp: entry_of_def entry_wf_def env_sized_def)

lemma listed_typed:
  assumes "read_dir_entries env root p = Inr es" "sized root" "env_sized env"
  shows "list_all entry_wf es"
proof -
  obtain cs ns where ns: "fs_read_dir env root p = Inr (cs, ns)"
    "es = sort_by entry_order (map (\<lambda>(name, n). entry_of env (cs @ [name]) name n)
       (filter (\<lambda>(name, _). fe_fault env SysStat (path_join p name) = None) ns))"
    using assms(1) by (auto simp: read_dir_entries_def and_then_Inr_iff)
  have "lookup_inode root cs = Some (Directory ns)"
    using ns(1) by (auto simp: fs_read_dir_def and_then_Inr_iff faulty_def split: option.splits inode.splits)
  then have "\<forall>e\<in>set ns. sized (snd e)" using sized_lookup assms(2) by fastforce
  then show ?thesis using entry_typed assms(3) by (auto simp: ns(2) list_all_iff)
qed

lemma scanned_typed:
  "\<forall>e\<in>set es. sized (snd e) \<Longrightarrow> env_sized (pe_fs env) \<Longrightarrow>
     list_all state_wf (fst (scan_directory_recursive env root base rel es cache))"
proof (induction "size_list (size_prod (\<lambda>_. 0) size) es" arbitrary: rel es cache rule: less_induct)
  case less
  show ?case
  proof (cases es)
    case (Cons e rest)
    obtain name n where e: "e = (name, n)" by (cases e)
    have rest: "list_all state_wf (fst (scan_directory_recursive env root base rel rest c))" for c
      using less by (simp add: Cons)
    have sub: "n = Directory es' \<Longrightarrow> list_all state_wf (fst (scan_directory_recursive env root base path es' c))" for path es' c
      using less by (simp add: Cons e)
    have time: "(case fe_dir_time (pe_fs env) p of Some t \<Rightarrow> t div 10 ^ 9 | None \<Rightarrow> 0) < 2 ^ 64"
      "(case fe_dir_time (pe_fs env) p of Some t \<Rightarrow> t | None \<Rightarrow> 0) div 10 ^ 9 < 2 ^ 64" for p
      using less(3) by (auto simp: env_sized_def split: option.splits)
    have "sized n" using less(2) by (simp add: Cons e)
    then show ?thesis
      using rest sub time by (cases n) (simp_all add: Cons e Let_def split_beta state_wf_def)
  qed simp
qed


text \<open>The response a client expects for a request, or an error.\<close>

fun answers :: "peer_request \<Rightarrow> peer_response \<Rightarrow> bool" where
  "answers (ReqList _ _) (RespList _) = True"
| "answers (ReqStat _ _) (RespStat _) = True"
| "answers (ReqRead _ _ _) (RespReadHeader _) = True"
| "answers (ReqManifest _ _) (RespManifest _) = True"
| "answers (ReqWrite _ _ _) RespWriteOk = True"
| "answers (ReqDelete _ _ _) RespDeleteOk = True"
| "answers (ReqCreateDirectory _ _) RespCreateDirectoryOk = True"
| "answers _ (RespError _) = True"
| "answers _ _ = False"

definition typed_answer :: "peer_request \<Rightarrow> peer_response \<Rightarrow> bool" where
  "typed_answer req resp \<longleftrightarrow> response_wf resp \<and> answers req resp"

lemma error_typed [simp]: "typed_answer req (RespError m)" "typed_answer req android_only"
  by (cases req; simp add: typed_answer_def android_only_def)+

lemma share_error_typed: "find_share_and_subpath shares sp p = Inl resp \<Longrightarrow> typed_answer req resp"
  by (auto simp: find_share_and_subpath_def Let_def split: prod.splits option.splits if_splits)

lemma path_error_typed:
  "path_err r = Inl resp \<Longrightarrow> typed_answer req resp" "resp_err m r' = Inl resp \<Longrightarrow> typed_answer req resp"
  by (auto simp: path_err_def resp_err_def split: sum.splits)

lemma resolve_error_typed:
  "resolve_path_filtered env root shares sp p = Inl resp \<Longrightarrow> typed_answer req resp"
  "resolve_path_for_write env root shares sp p = Inl resp \<Longrightarrow> typed_answer req resp"
  by (auto simp: resolve_path_filtered_def resolve_path_for_write_def Let_def and_then_Inl_iff
      dest: share_error_typed path_error_typed split: sum.splits prod.splits if_splits)

lemma list_typed: "sized root \<Longrightarrow> env_sized env \<Longrightarrow> typed_answer (ReqList p t) (handle_list env root state path sp)"
  by (auto simp: handle_list_def split: sum.splits if_splits dest: resolve_error_typed)
     (auto simp: typed_answer_def list_all_iff entry_wf_def dest: listed_typed)

lemma stat_typed:
  assumes "sized root" "env_sized env"
  shows "typed_answer (ReqStat p t) (handle_stat env root state path sp)"
proof -
  have "file_entry_from_path env root q = Inr e \<Longrightarrow> entry_wf e" for q e
    using assms by (auto simp: file_entry_from_path_def metadata_def and_then_Inr_iff faulty_def ok_or_Inr_iff
        split: option.splits intro: entry_typed dest: sized_lookup)
  then show ?thesis
    by (auto simp: handle_stat_def split: sum.splits dest: resolve_error_typed) (auto simp: typed_answer_def)
qed

lemma manifest_typed:
  assumes "sized (pw_root w)" "env_sized (pe_fs env)"
  shows "typed_answer (ReqManifest p t) (fst (handle_manifest env w state path sp))"
proof -
  have "fs_read_dir (pe_fs env) (pw_root w) q = Inr (cs, es) \<Longrightarrow> \<forall>e\<in>set es. sized (snd e)" for q cs es
    using assms(1) sized_lookup by (fastforce simp: fs_read_dir_def and_then_Inr_iff faulty_def split: option.splits inode.splits)
  then show ?thesis
    using scanned_typed assms(2)
    by (auto simp: handle_manifest_def split_beta split: sum.splits dest: resolve_error_typed) (auto simp: typed_answer_def)
qed

lemma sent_typed:
  "SResp resp \<in> set (snd (send_response_and_finish io resp' out)) \<Longrightarrow> resp = resp' \<or> SResp resp \<in> set out"
  "SResp resp \<in> set (snd (respond_ok io resp' out)) \<Longrightarrow> resp = resp' \<or> SResp resp \<in> set out"
  by (auto simp: respond_ok_def send_response_and_finish_def split: if_splits option.splits)

lemma read_typed:
  assumes "SResp resp \<in> set (snd (answer_error io (handle_read env root io view path rng sp)))"
  shows "typed_answer (ReqRead p r t) resp"
proof -
  have 1: "SResp resp \<in> set (snd (stream_file_to_send env root io q rng [])) \<Longrightarrow> typed_answer (ReqRead p r t) resp" for q resp
    by (auto simp: stream_file_to_send_def typed_answer_def Let_def split: sum.splits option.splits prod.splits)
  have 2: "SResp resp \<in> set (snd (handle_read env root io view path rng sp)) \<Longrightarrow> typed_answer (ReqRead p r t) resp" for resp
    by (auto simp: handle_read_def split: sum.splits if_splits dest!: sent_typed 1 dest: resolve_error_typed)
  show ?thesis
    using assms 2 by (auto simp: answer_error_def split: prod.splits option.splits sum.splits dest!: sent_typed(1))
qed

lemma write_typed:
  assumes "handle_write env io view path sz sp w = (r, out, w')" "SResp resp \<in> set (snd (answer_error io (r, out)))"
  shows "typed_answer (ReqWrite p s t) resp"
proof -
  have 1: "SResp resp \<in> set (fst (snd (receive_staged env io q q' sz v))) \<Longrightarrow> typed_answer (ReqWrite p s t) resp" for q q' v resp
    by (auto simp: receive_staged_def write_failed_def Let_def split: prod.splits sum.splits if_splits
        dest!: sent_typed(1) [of _ _ _ "[]"])
       (auto simp: typed_answer_def send_response_and_finish_def split: option.splits)
  have 2: "SResp resp \<in> set (fst (snd (handle_write env io view path sz sp w))) \<Longrightarrow> typed_answer (ReqWrite p s t) resp" for resp
    by (auto simp: handle_write_def split_beta split: sum.splits if_splits
        dest!: sent_typed(2) [of _ _ _ "[]"] 1 dest: resolve_error_typed)
  show ?thesis
    using assms(2) 2 unfolding assms(1) by (auto simp: answer_error_def split: prod.splits option.splits sum.splits dest!: sent_typed(1))
qed

lemma dispatch_typed:
  assumes "dispatch env io view sp req w = (r, out, w')" "SResp resp \<in> set out"
    and "sized (pw_root w)" "env_sized (pe_fs env)"
  shows "typed_answer req resp"
proof -
  have reply: "reply io resp' v = (r, out, w') \<Longrightarrow> resp = resp'" for resp' v
    using assms(2) sent_typed(1) [of resp io resp' "[]"] by (auto simp: reply_def split: prod.splits)
  note simps = dispatch_def split_beta
  show ?thesis
  proof (cases req)
    case (ReqRead p rng t)
    then show ?thesis using assms(1,2) by (auto simp: simps intro: read_typed)
  next
    case (ReqWrite p sz t)
    then show ?thesis
      using assms(1,2) by (cases "handle_write env io view p (unat sz) sp w") (auto simp: simps dest: write_typed)
  next
    case (ReqDelete p tr t)
    have "typed_answer req (fst (handle_delete (pe_fs env) view p tr sp (pw_root w)))"
      by (auto simp: ReqDelete handle_delete_def Let_def split_beta split: sum.splits dest: resolve_error_typed)
         (auto simp: typed_answer_def)
    then show ?thesis using assms(1) by (auto simp: simps ReqDelete dest!: reply)
  next
    case (ReqCreateDirectory p t)
    have "typed_answer req (fst (handle_create_directory (pe_fs env) view p sp (pw_root w)))"
      by (auto simp: ReqCreateDirectory handle_create_directory_def split_beta split: sum.splits dest: resolve_error_typed)
         (auto simp: typed_answer_def)
    then show ?thesis using assms(1) by (auto simp: simps ReqCreateDirectory dest!: reply)
  qed (use assms in \<open>auto simp: simps dest!: reply intro: list_typed stat_typed manifest_typed\<close>)
qed



end
