(* ===== verification/PeerClient.thy ===== *)
theory PeerClient
  imports PeerStorage
begin

text \<open>
  The requesting side (\<open>peer_storage/client.rs\<close>).  A peer is what it answers to a request on a
  fresh stream: an error while the stream is opened, the response message or the error of the
  exchange, and the reads that follow.  The local output file is its content, \<open>None\<close> when it
  does not exist.
\<close>

section \<open>Requests with one answer\<close>

record stream_answer =
  sa_open :: "(peer_storage_error, unit) result"
  sa_response :: "(peer_storage_error, peer_response) result"
  sa_events :: "recv_event list"

type_synonym remote_peer = "peer_request \<Rightarrow> stream_answer"

definition send_request :: "remote_peer \<Rightarrow> peer_request \<Rightarrow> (peer_storage_error, peer_response) result" where
  "send_request peer req = and_then (sa_open (peer req)) (\<lambda>_. sa_response (peer req))"

definition expect :: "(peer_response \<Rightarrow> 'a option) \<Rightarrow> string \<Rightarrow> peer_response \<Rightarrow> (peer_storage_error, 'a) result" where
  "expect f unexpected resp =
     (case f resp of
        Some x \<Rightarrow> Inr x
      | None \<Rightarrow> (case resp of RespError message \<Rightarrow> Inl (ProtocolError message) | _ \<Rightarrow> Inl (ProtocolError unexpected)))"

definition remote_list :: "remote_peer \<Rightarrow> string \<Rightarrow> string \<Rightarrow> (peer_storage_error, file_entry list) result" where
  "remote_list peer path ucan_token =
     and_then (send_request peer (ReqList path ucan_token))
       (expect (\<lambda>r. case r of RespList es \<Rightarrow> Some es | _ \<Rightarrow> None) ''Unexpected response type'')"

definition remote_manifest :: "remote_peer \<Rightarrow> string \<Rightarrow> string \<Rightarrow> (peer_storage_error, file_state list) result" where
  "remote_manifest peer path ucan_token =
     and_then (send_request peer (ReqManifest path ucan_token))
       (expect (\<lambda>r. case r of RespManifest es \<Rightarrow> Some es | _ \<Rightarrow> None) ''Unexpected response type'')"

definition remote_stat :: "remote_peer \<Rightarrow> string \<Rightarrow> string \<Rightarrow> (peer_storage_error, file_entry) result" where
  "remote_stat peer path ucan_token =
     and_then (send_request peer (ReqStat path ucan_token))
       (expect (\<lambda>r. case r of RespStat e \<Rightarrow> Some e | _ \<Rightarrow> None) ''unexpected response (stat)'')"

definition remote_delete_file :: "remote_peer \<Rightarrow> string \<Rightarrow> bool \<Rightarrow> string \<Rightarrow> (peer_storage_error, unit) result" where
  "remote_delete_file peer path to_trash ucan_token =
     and_then (send_request peer (ReqDelete path to_trash ucan_token))
       (expect (\<lambda>r. case r of RespDeleteOk \<Rightarrow> Some () | _ \<Rightarrow> None) ''Unexpected response type'')"

definition remote_create_directory :: "remote_peer \<Rightarrow> string \<Rightarrow> string \<Rightarrow> (peer_storage_error, unit) result" where
  "remote_create_directory peer path ucan_token =
     and_then (send_request peer (ReqCreateDirectory path ucan_token))
       (expect (\<lambda>r. case r of RespCreateDirectoryOk \<Rightarrow> Some () | _ \<Rightarrow> None) ''Unexpected response type'')"


section \<open>Reading into memory\<close>

definition read_header :: "string \<Rightarrow> peer_response \<Rightarrow> (peer_storage_error, 64 word) result" where
  "read_header = expect (\<lambda>r. case r of RespReadHeader n \<Rightarrow> Some n | _ \<Rightarrow> None)"

text \<open>The loop of a full read runs to the end of the stream; the announced size is only passed to
  the progress callback.\<close>

fun read_to_end :: "recv_event list \<Rightarrow> (peer_storage_error, bytes) result" where
  "read_to_end [] = Inr []"
| "read_to_end (RcvError e # evs) = Inl (ConnectionFailed (''Failed to read from stream: '' @ e))"
| "read_to_end (RcvChunk b # evs) = and_then (read_to_end evs) (\<lambda>data. Inr (b @ data))"

definition remote_read_bytes :: "remote_peer \<Rightarrow> string \<Rightarrow> string \<Rightarrow> (peer_storage_error, bytes) result" where
  "remote_read_bytes peer path ucan_token =
     (let req = ReqRead path None ucan_token in
      and_then (and_then (send_request peer req) (read_header ''Unexpected response type'')) (\<lambda>_. read_to_end (sa_events (peer req))))"

fun read_announced :: "nat \<Rightarrow> nat \<Rightarrow> recv_event list \<Rightarrow> (peer_storage_error, bytes) result" where
  "read_announced sz got [] =
     (if got < sz then Inl (ConnectionFailed (''Stream ended early: expected '' @ show_radix 10 sz @ '' bytes, received '' @ show_radix 10 got))
      else Inr [])"
| "read_announced sz got (ev # evs) =
     (if sz \<le> got then Inr []
      else (case ev of
              RcvError e \<Rightarrow> Inl (ConnectionFailed (''read: '' @ e))
            | RcvChunk b \<Rightarrow>
                if sz < got + length b
                then Inl (ConnectionFailed (''peer exceeded announced size: announced '' @ show_radix 10 sz @ '', received '' @ show_radix 10 (got + length b)))
                else and_then (read_announced sz (got + length b) evs) (\<lambda>data. Inr (b @ data))))"

definition saturating_succ :: "64 word \<Rightarrow> 64 word" where
  "saturating_succ w = (if w = -1 then -1 else w + 1)"

definition remote_read_range_bytes ::
  "remote_peer \<Rightarrow> string \<Rightarrow> 64 word \<times> 64 word \<Rightarrow> string \<Rightarrow> (peer_storage_error, bytes) result" where
  "remote_read_range_bytes peer path rng ucan_token =
     (case rng of (a, b) \<Rightarrow>
        if b < a then Inl (ProtocolError (''invalid range: '' @ show_radix 10 (unat a) @ ''-'' @ show_radix 10 (unat b)))
        else if b - a = -1 then Inl (ProtocolError ''invalid range length'')
        else let max_expected = b - a + 1; req = ReqRead path (Some (a, saturating_succ b)) ucan_token in
          and_then (and_then (send_request peer req) (read_header ''unexpected response (read range)'')) (\<lambda>n.
            if max_expected < n
            then Inl (ProtocolError (''range response too large: requested at most '' @ show_radix 10 (unat max_expected)
                   @ '' bytes, peer announced '' @ show_radix 10 (unat n)))
            else read_announced (unat n) 0 (sa_events (peer req))))"


section \<open>Downloading to a file\<close>

record stream_read_result =
  srr_bytes :: nat
  srr_hash :: "string option"

text \<open>What the local side meets: creating the file, a failing write, and the cancellation of a
  pipeline.\<close>

record download_io =
  di_create_error :: "string option"
  di_write_fault :: "(string \<times> nat) option"
  di_cancelled :: "nat \<Rightarrow> bool"

fun download_error :: "pipeline_error \<Rightarrow> peer_storage_error" where
  "download_error PipeCancelled = ProtocolError ''Transfer cancelled''"
| "download_error (PipeIo e) = ProtocolError (''Failed to write to file: '' @ e)"
| "download_error (PipeStream reason) = ConnectionFailed reason"

definition read_open_streams_to_file ::
  "(bytes \<Rightarrow> string) \<Rightarrow> download_io \<Rightarrow> remote_peer \<Rightarrow> string \<Rightarrow> (64 word \<times> 64 word) option \<Rightarrow> string \<Rightarrow> bytes option
     \<Rightarrow> (peer_storage_error, stream_read_result) result \<times> bytes option" where
  "read_open_streams_to_file sha256 dio peer path rng ucan_token output =
     (let req = ReqRead path rng ucan_token in
      case and_then (send_request peer req) (read_header ''Unexpected response type'') of
        Inl e \<Rightarrow> (Inl e, output)
      | Inr n \<Rightarrow>
          (case di_create_error dio of
             Some e \<Rightarrow> (Inl (ProtocolError (''Failed to create output file: '' @ e)), output)
           | None \<Rightarrow>
               (case pipe_recv_to_writer sha256 (di_cancelled dio) (di_write_fault dio) (rng = None) (unat n) (sa_events (peer req)) of
                  (Inl e, _) \<Rightarrow> (Inl (download_error e), None)
                | (Inr stats, data) \<Rightarrow>
                    if st_bytes stats \<noteq> unat n
                    then (Inl (ConnectionFailed (''Incomplete download: expected '' @ show_radix 10 (unat n) @ '' bytes, received ''
                           @ show_radix 10 (st_bytes stats))), None)
                    else (Inr \<lparr>srr_bytes = unat n, srr_hash = st_hash stats\<rparr>, Some data))))"

text \<open>The byte ranges of a parallel download.\<close>

definition div_ceil :: "nat \<Rightarrow> nat \<Rightarrow> nat" where
  "div_ceil a b = (if a mod b = 0 then a div b else a div b + 1)"

definition parallel_streams :: "nat \<Rightarrow> nat" where
  "parallel_streams parallelism = min (max parallelism 1) MAX_PARALLEL_STREAMS_PER_FILE"

definition part_ranges :: "nat \<Rightarrow> nat \<Rightarrow> (nat \<times> nat) list" where
  "part_ranges sz n =
     (let chunk = div_ceil sz n in
      map (\<lambda>i. (i * chunk, min (i * chunk + chunk) sz)) (takeWhile (\<lambda>i. i * chunk < sz) [0..<n]))"

definition write_at :: "nat \<Rightarrow> bytes \<Rightarrow> bytes \<Rightarrow> bytes" where
  "write_at off data content = take off content @ data @ drop (off + length data) content"

text \<open>One part: the range is requested on its own stream and written at its offset.\<close>

definition read_part ::
  "(nat \<times> nat \<Rightarrow> download_io) \<Rightarrow> remote_peer \<Rightarrow> string \<Rightarrow> string \<Rightarrow> nat \<times> nat \<Rightarrow> bytes \<Rightarrow> (peer_storage_error, unit) result \<times> bytes" where
  "read_part dio peer path ucan_token part content =
     (let (start, end') = part; part_size = end' - start; req = ReqRead path (Some (of_nat start, of_nat end')) ucan_token in
      case and_then (send_request peer req) (read_header ''Unexpected response in multipart read'') of
        Inl e \<Rightarrow> (Inl e, content)
      | Inr announced \<Rightarrow>
          if unat announced \<noteq> part_size
          then (Inl (ProtocolError (''multipart range size mismatch: requested '' @ show_radix 10 part_size
                 @ '', peer announced '' @ show_radix 10 (unat announced))), content)
          else (case di_create_error (dio part) of
                  Some e \<Rightarrow> (Inl (StorageIo e), content)
                | None \<Rightarrow>
                    (case pipe_recv_to_writer (\<lambda>_. []) (di_cancelled (dio part)) (di_write_fault (dio part)) False part_size (sa_events (peer req)) of
                       (Inl e, data) \<Rightarrow> (Inl (pipeline_storage_error e), write_at start data content)
                     | (Inr stats, data) \<Rightarrow>
                         if st_bytes stats \<noteq> part_size
                         then (Inl (ConnectionFailed (''multipart range short: expected '' @ show_radix 10 part_size
                                @ '', received '' @ show_radix 10 (st_bytes stats))), write_at start data content)
                         else (Inr (), write_at start data content))))"

text \<open>The parts run concurrently; \<open>order\<close> is the order in which they finish.  The first failure
  stops the rest.\<close>

fun run_parts ::
  "(nat \<times> nat \<Rightarrow> bytes \<Rightarrow> (peer_storage_error, unit) result \<times> bytes) \<Rightarrow> (nat \<times> nat) list \<Rightarrow> bytes \<Rightarrow> (peer_storage_error, unit) result \<times> bytes" where
  "run_parts f [] content = (Inr (), content)"
| "run_parts f (p # ps) content =
     (case f p content of
        (Inl e, content') \<Rightarrow> (Inl e, content')
      | (Inr _, content') \<Rightarrow> run_parts f ps content')"

definition read_multipart_to_file ::
  "(bytes \<Rightarrow> string) \<Rightarrow> (nat \<times> nat \<Rightarrow> download_io) \<Rightarrow> string option \<Rightarrow> string option \<Rightarrow> remote_peer \<Rightarrow> string \<Rightarrow> nat \<Rightarrow> (nat \<times> nat) list \<Rightarrow> string
     \<Rightarrow> bytes option \<Rightarrow> (peer_storage_error, stream_read_result) result \<times> bytes option" where
  "read_multipart_to_file sha256 dio create_error hash_error peer path sz order ucan_token output =
     (case create_error of
        Some e \<Rightarrow> (Inl (StorageIo e), output)
      | None \<Rightarrow>
          if sz = 0 then (Inr \<lparr>srr_bytes = 0, srr_hash = Some (sha256 [])\<rparr>, Some [])
          else (case run_parts (read_part dio peer path ucan_token) order (replicate sz 0) of
                  (Inl e, _) \<Rightarrow> (Inl e, None)
                | (Inr _, content) \<Rightarrow>
                    (case hash_error of
                       Some e \<Rightarrow> (Inl (ProtocolError (''post-download hash: '' @ e)), Some content)
                     | None \<Rightarrow> (Inr \<lparr>srr_bytes = sz, srr_hash = Some (sha256 content)\<rparr>, Some content))))"


section \<open>Uploading a file\<close>

text \<open>\<open>None\<close> when the pipeline never returns.  A failed pipeline leaves the stream unfinished.\<close>

record upload_io =
  up_stat_error :: "string option"
  up_open_error :: "string option"
  up_header_error :: "peer_storage_error option"
  up_finish_error :: "string option"
  up_pipe :: pipe_io

definition remote_write_file ::
  "upload_io \<Rightarrow> remote_peer \<Rightarrow> string \<Rightarrow> string \<Rightarrow> bytes \<Rightarrow> string \<Rightarrow> (peer_storage_error, nat) result option \<times> bytes" where
  "remote_write_file uio peer path source_path content ucan_token =
     (let req = ReqWrite path (of_nat (length content)) ucan_token in
      case up_stat_error uio of
        Some e \<Rightarrow> (Some (Inl (ProtocolError (''stat source '' @ [CHR 0x27] @ source_path @ [CHR 0x27] @ '': '' @ e))), [])
      | None \<Rightarrow>
          (case up_open_error uio of
             Some e \<Rightarrow> (Some (Inl (ProtocolError (''open source '' @ [CHR 0x27] @ source_path @ [CHR 0x27] @ '': '' @ e))), [])
           | None \<Rightarrow>
               (case and_then (sa_open (peer req)) (\<lambda>u. case up_header_error uio of Some e \<Rightarrow> Inl e | None \<Rightarrow> Inr u) of
                  Inl e \<Rightarrow> (Some (Inl e), [])
                | Inr _ \<Rightarrow>
                    (case pipe_reader_to_send (up_pipe uio) content (length content) of
                       (None, sent) \<Rightarrow> (None, sent)
                     | (Some (Inl PipeCancelled), sent) \<Rightarrow> (Some (Inl (ProtocolError ''cancelled'')), sent)
                     | (Some (Inl e), sent) \<Rightarrow> (Some (Inl (pipeline_storage_error e)), sent)
                     | (Some (Inr n), sent) \<Rightarrow>
                         (case up_finish_error uio of
                            Some e \<Rightarrow> (Some (Inl (ConnectionFailed e)), sent)
                          | None \<Rightarrow>
                              (Some (and_then (sa_response (peer req))
                                 (expect (\<lambda>r. case r of RespWriteOk \<Rightarrow> Some n | _ \<Rightarrow> None) ''Unexpected response type'')), sent))))))"

text \<open>Success means that the whole file was sent and the peer confirmed the write.\<close>

lemma upload_complete:
  assumes "remote_write_file uio peer path source_path content ucan_token = (Some (Inr n), sent)" "undisturbed (up_pipe uio)"
  shows "n = length content \<and> sent = content \<and> sa_response (peer (ReqWrite path (of_nat (length content)) ucan_token)) = Inr RespWriteOk"
  using assms pipe_send_exact [OF assms(2), of content "length content"]
  by (auto simp: remote_write_file_def Let_def expect_def and_then_Inr_iff split: option.splits sum.splits peer_response.splits)


section \<open>A parallel download is exact\<close>

lemma write_at_nth:
  assumes "off + length data \<le> length content"
  shows "length (write_at off data content) = length content"
    and "j < length content \<Longrightarrow> write_at off data content ! j = (if off \<le> j \<and> j < off + length data then data ! (j - off) else content ! j)"
  using assms by (auto simp: write_at_def nth_append)

lemma takeWhile_upt: "i < n \<Longrightarrow> (\<And>k. k \<le> i \<Longrightarrow> P k) \<Longrightarrow> i \<in> set (takeWhile P [0..<n])"
proof (induction n)
  case (Suc n)
  show ?case
  proof (cases "i < n")
    case True
    then have "i \<in> set (takeWhile P [0..<n])" using Suc by blast
    then show ?thesis using True by (auto simp: takeWhile_append)
  next
    case False
    then have "i = n" using Suc.prems(1) by simp
    then have "takeWhile P [0..<Suc n] = [0..<Suc n]" unfolding takeWhile_eq_all_conv using Suc.prems(2) by simp
    then show ?thesis using Suc.prems(1) by (metis atLeastLessThan_iff set_upt zero_le)
  qed
qed simp

lemma div_ceil_bound: "0 < n \<Longrightarrow> sz \<le> div_ceil sz n * n"
proof -
  assume "0 < n"
  then have "sz \<le> sz div n * n + n" using div_mult_mod_eq [of sz n] mod_less_divisor [of n sz] by linarith
  then show ?thesis by (auto simp: div_ceil_def algebra_simps)
qed

lemma part_ranges_within: "(s, e) \<in> set (part_ranges sz n) \<Longrightarrow> s < e \<and> e \<le> sz"
proof -
  assume "(s, e) \<in> set (part_ranges sz n)"
  then obtain i where i: "i \<in> set (takeWhile (\<lambda>i. i * div_ceil sz n < sz) [0..<n])" "s = i * div_ceil sz n" "e = min (s + div_ceil sz n) sz"
    by (auto simp: part_ranges_def Let_def)
  then have "s < sz" "0 < n" by (auto dest: set_takeWhileD)
  moreover have "0 < div_ceil sz n" using \<open>s < sz\<close> div_ceil_bound [OF \<open>0 < n\<close>, of sz] by (cases "div_ceil sz n") auto
  ultimately show ?thesis using i(3) by simp
qed

lemma part_ranges_cover:
  assumes "j < sz" "0 < n"
  shows "\<exists>(s, e)\<in>set (part_ranges sz n). s \<le> j \<and> j < e"
proof -
  let ?c = "div_ceil sz n" and ?i = "j div div_ceil sz n"
  have c: "0 < ?c" using div_ceil_bound [OF assms(2), of sz] assms(1) by (cases ?c) auto
  have "j < n * ?c" using div_ceil_bound [OF assms(2), of sz] assms(1) by (simp add: mult.commute)
  then have "?i < n" by (rule less_mult_imp_div_less)
  moreover have "k * ?c < sz" if "k \<le> ?i" for k
  proof -
    have "k * ?c \<le> ?i * ?c" using that by simp
    also have "\<dots> \<le> j" by simp
    finally show ?thesis using assms(1) by simp
  qed
  ultimately have "?i \<in> set (takeWhile (\<lambda>i. i * ?c < sz) [0..<n])" by (rule takeWhile_upt)
  then have "(?i * ?c, min (?i * ?c + ?c) sz) \<in> set (part_ranges sz n)" by (auto simp: part_ranges_def Let_def)
  moreover have "?i * ?c \<le> j" "j < min (?i * ?c + ?c) sz"
    using assms(1) c div_mult_mod_eq [of j ?c] mod_less_divisor [OF c, of j] by auto
  ultimately show ?thesis by blast
qed

text \<open>The peer relays what the server streams for a file, cut into non-empty reads.\<close>

definition relays :: "fs_env \<Rightarrow> inode \<Rightarrow> stream_io \<Rightarrow> string \<Rightarrow> remote_peer \<Rightarrow> string \<Rightarrow> string \<Rightarrow> bool" where
  "relays env root io file peer path token \<longleftrightarrow>
     (\<forall>rng h d. stream_file_to_send env root io file rng [] = (Some (Inr ()), [SResp (RespReadHeader h), SData d, SFinish]) \<longrightarrow>
        (\<exists>bs. peer (ReqRead path rng token) = \<lparr>sa_open = Inr (), sa_response = Inr (RespReadHeader h), sa_events = map RcvChunk bs\<rparr> \<and>
           concat bs = d \<and> [] \<notin> set bs))"

definition quiet :: "stream_io \<Rightarrow> bool" where
  "quiet io \<longleftrightarrow> undisturbed (si_pipe io) \<and> (\<forall>resp. si_send_error io resp = None) \<and> si_finish_error io = None"

definition smooth :: "download_io \<Rightarrow> bool" where
  "smooth dio \<longleftrightarrow> di_create_error dio = None \<and> di_write_fault dio = None \<and> (\<forall>i. \<not> di_cancelled dio i)"

lemma server_slice:
  assumes "fs_open env root file = Inr c" "length c < 2 ^ 64" "quiet io" "s \<le> e" "e \<le> length c"
  shows "stream_file_to_send env root io file (Some (of_nat s, of_nat e)) [] =
    (Some (Inr ()), [SResp (RespReadHeader (of_nat (e - s))), SData (take (e - s) (drop s c)), SFinish])"
proof -
  have u: "unat (of_nat k :: 64 word) = k" if "k \<le> length c" for k
    using that assms(2) by (simp add: unat_of_nat take_bit_nat_eq_self)
  have "min (of_nat e) (of_nat (length c) :: 64 word) = of_nat e"
    using u [OF assms(5)] u [of "length c"] assms(5) by (simp add: min_def word_le_nat_alt)
  moreover have "(of_nat e :: 64 word) - of_nat s = of_nat (e - s)" using assms(4) by (simp add: of_nat_diff)
  ultimately have w: "read_window (of_nat (length c)) (Some (of_nat s, of_nat e)) = (of_nat s, of_nat (e - s))"
    by (simp add: read_window_def)
  have "pipe_reader_to_send (si_pipe io) (drop s c) (e - s) = (Some (Inr (min (e - s) (length c - s))), take (e - s) (drop s c))"
    using pipe_send_exact [of "si_pipe io" "drop s c" "e - s"] assms(3) by (simp add: quiet_def)
  moreover have "unat (of_nat s :: 64 word) = s" "unat (of_nat (e - s) :: 64 word) = e - s"
    using u [of s] u [of "e - s"] assms(4,5) by simp_all
  ultimately show ?thesis using assms(1,3) w by (simp add: stream_file_to_send_def quiet_def)
qed

lemma part_received:
  assumes "relays env root io file peer path token" "fs_open env root file = Inr c" "length c < 2 ^ 64" "quiet io" "smooth (dio (s, e))"
    and "s < e" "e \<le> length c"
  shows "read_part dio peer path token (s, e) content = (Inr (), write_at s (take (e - s) (drop s c)) content)"
proof -
  obtain bs where bs: "peer (ReqRead path (Some (of_nat s, of_nat e)) token) =
      \<lparr>sa_open = Inr (), sa_response = Inr (RespReadHeader (of_nat (e - s))), sa_events = map RcvChunk bs\<rparr>"
      "concat bs = take (e - s) (drop s c)" "[] \<notin> set bs"
    using assms(1) server_slice [OF assms(2,3,4), of s e] assms(6,7) unfolding relays_def by (metis less_imp_le)
  have len: "length (concat bs) = e - s" using bs(2) assms(6,7) by simp
  have "pipe_recv_to_writer (\<lambda>_. []) (di_cancelled (dio (s, e))) None False (e - s) (map RcvChunk bs) =
      (Inr \<lparr>st_bytes = e - s, st_hash = None\<rparr>, concat bs)"
    by (subst pipe_recv_complete) (use assms(5) bs(3) len in \<open>auto simp: smooth_def\<close>)
  moreover have "unat (of_nat (e - s) :: 64 word) = e - s"
    using assms(3,7) by (simp add: unat_of_nat take_bit_nat_eq_self)
  ultimately show ?thesis using assms(5) bs(1,2)
    by (simp add: read_part_def send_request_def read_header_def expect_def smooth_def)
qed

text \<open>Each finished part has put its bytes of the file in place.\<close>

definition covered :: "(nat \<times> nat) list \<Rightarrow> nat \<Rightarrow> bool" where
  "covered order j \<longleftrightarrow> list_ex (\<lambda>(s, e). s \<le> j \<and> j < e) order"

definition assembled :: "bytes \<Rightarrow> bytes \<Rightarrow> (nat \<times> nat) list \<Rightarrow> bytes \<Rightarrow> bool" where
  "assembled c content order content' \<longleftrightarrow> length content' = length c \<and>
     (\<forall>j<length c. content' ! j = (if covered order j then c ! j else content ! j))"

lemma run_parts_exact:
  assumes "\<And>s e content. (s, e) \<in> set order \<Longrightarrow> f (s, e) content = (Inr (), write_at s (take (e - s) (drop s c)) content)"
    and "\<And>s e. (s, e) \<in> set order \<Longrightarrow> s < e \<and> e \<le> length c" "length content = length c"
  shows "\<exists>content'. run_parts f order content = (Inr (), content') \<and> assembled c content order content'"
  using assms
proof (induction order arbitrary: content)
  case Nil
  then show ?case by (simp add: assembled_def covered_def)
next
  case (Cons p ps)
  obtain s e where p: "p = (s, e)" by (cases p)
  let ?d = "take (e - s) (drop s c)"
  have se: "s < e" "e \<le> length c" using Cons.prems(2) p by auto
  then have fits: "s + length ?d \<le> length content" "length ?d = e - s" using Cons.prems(3) by simp_all
  let ?content = "write_at s ?d content"
  have len: "length ?content = length c" using write_at_nth(1) [OF fits(1)] Cons.prems(3) by simp
  obtain content' where ih: "run_parts f ps ?content = (Inr (), content')" "assembled c ?content ps content'"
    using Cons.IH [OF Cons.prems(1) Cons.prems(2) len] by auto
  have here: "?content ! j = (if s \<le> j \<and> j < e then c ! j else content ! j)" if "j < length c" for j
    using write_at_nth(2) [OF fits(1)] that Cons.prems(3) fits(2) se by auto
  have "assembled c content (p # ps) content'"
    using ih(2) here unfolding assembled_def covered_def p by auto
  moreover have "run_parts f (p # ps) content = (Inr (), content')" using ih(1) Cons.prems(1) [of s e content] p by simp
  ultimately show ?case by blast
qed

text \<open>C23: A parallel download is exact: when the peer relays what its server streams for a file, the
  parts of \<open>read_multipart_to_file\<close>, requested as byte ranges on their own streams and finishing
  in any order, put together exactly that file for every degree of parallelism and every way
  the network cuts the bytes, and the reported hash is the file's.\<close>

theorem multipart_download_exact:
  assumes "relays env root io file peer path token" "fs_open env root file = Inr c" "length c < 2 ^ 64" "quiet io"
    and "set order = set (part_ranges (length c) (parallel_streams parallelism))" "\<And>part. smooth (dio part)"
  shows "read_multipart_to_file sha256 dio None None peer path (length c) order token output =
    (Inr \<lparr>srr_bytes = length c, srr_hash = Some (sha256 c)\<rparr>, Some c)"
proof (cases "c = []")
  case True
  then show ?thesis by (simp add: read_multipart_to_file_def)
next
  case False
  have within: "s < e \<and> e \<le> length c" if "(s, e) \<in> set order" for s e using part_ranges_within that assms(5) by simp
  have "read_part dio peer path token (s, e) content = (Inr (), write_at s (take (e - s) (drop s c)) content)"
    if "(s, e) \<in> set order" for s e content
    by (rule part_received [OF assms(1-4,6)]) (use within [OF that] in auto)
  from run_parts_exact [OF this within, where content = "replicate (length c) 0"] obtain content'
    where r: "run_parts (read_part dio peer path token) order (replicate (length c) 0) = (Inr (), content')"
      "assembled c (replicate (length c) 0) order content'" by auto
  have "0 < parallel_streams parallelism" by (simp add: parallel_streams_def MAX_PARALLEL_STREAMS_PER_FILE_def)
  then have "covered order j" if "j < length c" for j
    using part_ranges_cover [OF that] unfolding covered_def list_ex_iff assms(5) by blast
  then have "content' = c" using r(2) by (intro nth_equalityI) (auto simp: assembled_def)
  then show ?thesis using r(1) False by (simp add: read_multipart_to_file_def)
qed

definition wit_file :: bytes where "wit_file = [1, 2, 3, 4]"

definition wit_peer :: remote_peer where
  "wit_peer req =
     (case req of
        ReqRead path rng token \<Rightarrow>
          (case stream_file_to_send wit_fs wit_root (wit_io []) ''/srv/docs/a'' rng [] of
             (_, [SResp resp, SData d, SFinish]) \<Rightarrow> \<lparr>sa_open = Inr (), sa_response = Inr resp, sa_events = map (\<lambda>b. RcvChunk [b]) d\<rparr>
           | _ \<Rightarrow> \<lparr>sa_open = Inr (), sa_response = Inr (RespError []), sa_events = []\<rparr>)
      | _ \<Rightarrow> \<lparr>sa_open = Inr (), sa_response = Inr (RespError []), sa_events = []\<rparr>)"

theorem multipart_download_exact_witness:
  "part_ranges 4 3 = [(0, 2), (2, 4)] \<and>
   read_multipart_to_file (\<lambda>_. ''hash'') (\<lambda>_. \<lparr>di_create_error = None, di_write_fault = None, di_cancelled = (\<lambda>_. False)\<rparr>) None None
     wit_peer ''docs/a'' 4 [(2, 4), (0, 2)] ''H.P.S'' None = (Inr \<lparr>srr_bytes = 4, srr_hash = Some ''hash''\<rparr>, Some [1, 2, 3, 4])"
proof -
  have pr: "part_ranges 4 3 = [(0, 2), (2, 4)]" by code_simp
  have op: "fs_open wit_fs wit_root ''/srv/docs/a'' = Inr [1, 2, 3, 4]" by code_simp
  have ps: "parallel_streams 3 = 3" by code_simp
  have "relays wit_fs wit_root (wit_io []) ''/srv/docs/a'' wit_peer ''docs/a'' ''H.P.S''"
    unfolding relays_def
  proof (intro allI impI)
    fix rng h d
    assume "stream_file_to_send wit_fs wit_root (wit_io []) ''/srv/docs/a'' rng [] = (Some (Inr ()), [SResp (RespReadHeader h), SData d, SFinish])"
    then have "wit_peer (ReqRead ''docs/a'' rng ''H.P.S'') =
        \<lparr>sa_open = Inr (), sa_response = Inr (RespReadHeader h), sa_events = map RcvChunk (map (\<lambda>b. [b]) d)\<rparr>"
      by (simp add: wit_peer_def comp_def)
    moreover have "concat (map (\<lambda>b. [b]) d) = d" "[] \<notin> set (map (\<lambda>b. [b]) d)" by (induction d) auto
    ultimately show "\<exists>bs. wit_peer (ReqRead ''docs/a'' rng ''H.P.S'') =
        \<lparr>sa_open = Inr (), sa_response = Inr (RespReadHeader h), sa_events = map RcvChunk bs\<rparr> \<and> concat bs = d \<and> [] \<notin> set bs" by blast
  qed
  moreover have "quiet (wit_io [])" by (simp add: quiet_def wit_io_def wit_pipe_def undisturbed_def)
  moreover have four: "length [1 :: 8 word, 2, 3, 4] = 4" by simp
  ultimately show ?thesis
    using multipart_download_exact [OF _ op, unfolded four, of "wit_io []" wit_peer "''docs/a''" "''H.P.S''" "[(2, 4), (0, 2)]" 3
        "\<lambda>_. \<lparr>di_create_error = None, di_write_fault = None, di_cancelled = (\<lambda>_. False)\<rparr>" "\<lambda>_. ''hash''" None] pr ps
    by (simp add: smooth_def insert_commute)
qed


section \<open>Bounds on what a peer can make us accept\<close>

lemma read_announced_length:
  "read_announced sz got evs = Inr data \<Longrightarrow> got \<le> sz \<Longrightarrow> got + length data = sz"
proof (induction sz got evs arbitrary: data rule: read_announced.induct)
  case (2 sz got ev evs)
  then show ?case by (cases ev) (force simp: and_then_Inr_iff not_less split: if_splits)+
qed (auto split: if_splits)

text \<open>A ranged read into memory never returns more than was asked for, whatever the peer sends.\<close>

lemma range_read_bounded:
  assumes "remote_read_range_bytes peer path (a, b) token = Inr data"
  shows "unat a \<le> unat b \<and> length data \<le> unat b - unat a + 1"
proof -
  obtain n where n: "a \<le> b" "b - a \<noteq> -1" "n \<le> b - a + 1" "read_announced (unat n) 0 (sa_events (peer (ReqRead path (Some (a, saturating_succ b)) token))) = Inr data"
    using assms by (auto simp: remote_read_range_bytes_def and_then_Inr_iff Let_def not_less split: if_splits)
  have "length data = unat n" using read_announced_length [OF n(4)] by simp
  moreover have "unat (b - a + 1) = unat (b - a) + 1"
    using n(2) by (metis Suc_eq_plus1 add.commute add_diff_cancel_left' diff_0 eq_iff_diff_eq_0 unatSuc)
  moreover have "unat (b - a) = unat b - unat a" using n(1) by (rule unat_sub)
  ultimately show ?thesis using n(1,3) by (simp add: word_le_nat_alt)
qed

text \<open>A full read into memory does not compare what arrived with the announced size: a stream the
  server ended early is taken for the file.\<close>

lemma short_read_accepted:
  "remote_read_bytes (\<lambda>_. \<lparr>sa_open = Inr (), sa_response = Inr (RespReadHeader 4), sa_events = [RcvChunk [1]]\<rparr>) path token = Inr [1]"
  by (simp add: remote_read_bytes_def send_request_def read_header_def expect_def)

end
