(* ===== verification/PeerEndpoint.thy ===== *)
theory PeerEndpoint
  imports PeerStorage
begin

text \<open>
  The peer endpoint (\<open>peer_storage/endpoint.rs\<close>): its life cycle, the shared state, accepting and
  authenticating connections, the watchers that report whether a peer is online, and the cache
  of outgoing connections.  The transport is iroh's: what its calls return are arguments.  A
  panic is the outcome \<open>None\<close>.  Connections are numbered.
\<close>

section \<open>The shared state\<close>

definition add_share :: "string \<Rightarrow> string \<Rightarrow> string \<Rightarrow> string \<Rightarrow> peer_state \<Rightarrow> peer_state" where
  "add_share share_id name local_path space_id st =
     st\<lparr>pst_shares := AList.update share_id \<lparr>sf_name = name, sf_local_path = local_path, sf_space_id = space_id\<rparr> (pst_shares st)\<rparr>"

definition remove_share :: "string \<Rightarrow> peer_state \<Rightarrow> bool \<times> peer_state" where
  "remove_share share_id st =
     (map_of (pst_shares st) share_id \<noteq> None, st\<lparr>pst_shares := filter (\<lambda>e. fst e \<noteq> share_id) (pst_shares st)\<rparr>)"

definition list_shares :: "peer_state \<Rightarrow> (string \<times> shared_folder) list" where
  "list_shares st = pst_shares st"

definition clear_shares :: "peer_state \<Rightarrow> peer_state" where
  "clear_shares st = st\<lparr>pst_shares := []\<rparr>"

definition set_allowed_peers :: "(string \<rightharpoonup> string list) \<Rightarrow> peer_state \<Rightarrow> peer_state" where
  "set_allowed_peers allowed st = st\<lparr>pst_allowed_peers := allowed\<rparr>"

definition set_peer_owner_dids :: "(string \<rightharpoonup> string) \<Rightarrow> peer_state \<Rightarrow> peer_state" where
  "set_peer_owner_dids dids st = st\<lparr>pst_peer_owner_dids := dids\<rparr>"

definition set_app_handle :: "peer_state \<Rightarrow> peer_state" where
  "set_app_handle st = st\<lparr>pst_app_handle := True\<rparr>"

definition set_delivery_handler :: "peer_state \<Rightarrow> peer_state" where
  "set_delivery_handler st = st\<lparr>pst_delivery_handler := True\<rparr>"


section \<open>Life cycle\<close>

definition DEFAULT_RELAY_URL :: string where "DEFAULT_RELAY_URL = ''https://relay.sync.haex.space''"

record peer_endpoint =
  ep_running :: bool
  ep_secret_key :: bytes
  ep_state :: peer_state
  ep_accept_task :: bool
  ep_watcher_task :: bool
  ep_configured_relay_url :: "string option"
  ep_connections :: "string \<rightharpoonup> nat"
  ep_own_identity :: "own_identity option"

definition new_endpoint :: "bytes \<Rightarrow> peer_endpoint" where
  "new_endpoint secret_key = \<lparr>ep_running = False, ep_secret_key = secret_key, ep_state = peer_state_default, ep_accept_task = False,
     ep_watcher_task = False, ep_configured_relay_url = None, ep_connections = Map.empty, ep_own_identity = None\<rparr>"

definition set_own_identity :: "own_identity \<Rightarrow> peer_endpoint \<Rightarrow> peer_endpoint option" where
  "set_own_identity identity ep = (if ep_running ep then None else Some (ep\<lparr>ep_own_identity := Some identity\<rparr>))"

definition replace_key :: "bytes \<Rightarrow> peer_endpoint \<Rightarrow> peer_endpoint option" where
  "replace_key secret_key ep = (if ep_running ep then None else Some (ep\<lparr>ep_secret_key := secret_key\<rparr>))"

definition non_empty :: "string option \<Rightarrow> string option" where
  "non_empty s = (case s of Some t \<Rightarrow> if t = [] then None else Some t | None \<Rightarrow> None)"

definition effective_relay :: "string option \<Rightarrow> string option \<Rightarrow> string" where
  "effective_relay relay_url env_url =
     (case non_empty relay_url of
        Some u \<Rightarrow> u
      | None \<Rightarrow> (case non_empty env_url of Some u \<Rightarrow> u | None \<Rightarrow> DEFAULT_RELAY_URL))"

text \<open>\<open>bound\<close> is the result of binding the socket, \<open>None\<close> after 15 seconds.  A relay that does not
  parse leaves the configured one as it was.\<close>

definition start_endpoint ::
  "(string \<Rightarrow> string option) \<Rightarrow> string option \<Rightarrow> string option \<Rightarrow> (string, string) result option \<Rightarrow> peer_endpoint
     \<Rightarrow> (peer_storage_error, string) result \<times> peer_endpoint" where
  "start_endpoint parse_relay relay_url env_url bound ep =
     (if ep_running ep then (Inl EndpointAlreadyRunning, ep)
      else let ep' = (case parse_relay (effective_relay relay_url env_url) of
                        Some parsed \<Rightarrow> ep\<lparr>ep_configured_relay_url := Some parsed\<rparr>
                      | None \<Rightarrow> ep)
        in (case bound of
              None \<Rightarrow> (Inl (ConnectionFailed ''Endpoint bind timed out after 15s''), ep')
            | Some (Inl e) \<Rightarrow> (Inl (ConnectionFailed (''Failed to bind endpoint: '' @ e)), ep')
            | Some (Inr eid) \<Rightarrow> (Inr eid, ep'\<lparr>ep_running := True, ep_accept_task := True, ep_watcher_task := True\<rparr>)))"

definition stop_endpoint :: "peer_endpoint \<Rightarrow> peer_endpoint" where
  "stop_endpoint ep = ep\<lparr>ep_connections := Map.empty, ep_watcher_task := False, ep_accept_task := False, ep_running := False\<rparr>"


section \<open>Outgoing streams\<close>

fun display_challenge_error :: "challenge_error \<Rightarrow> string" where
  "display_challenge_error (WireProtocol e) = ''wire protocol error: '' @ e"
| "display_challenge_error (UnsupportedVersion v) = ''unsupported protocol version: '' @ show_radix 10 v"
| "display_challenge_error (EndpointIdMismatch announced actual) =
     ''client endpoint id mismatch: announced '' @ announced @ '', actual '' @ actual"
| "display_challenge_error (MalformedDid e) = ''malformed DID: '' @ display_ucan_error e"
| "display_challenge_error MalformedBase64 = ''malformed base64 in nonce or signature''"
| "display_challenge_error (NonceLength expected got) =
     ''nonce length must be '' @ show_radix 10 expected @ '' bytes, got '' @ show_radix 10 got"
| "display_challenge_error SignatureInvalid = ''signature verification failed''"
| "display_challenge_error HandshakeTimeout = ''timeout waiting for client response''"

text \<open>What the transport answers while a stream is opened: whether the cached connection is
  alive and opens a stream in time, the number of a fresh connection, the outcome of the
  handshake stream, and of the request stream.\<close>

record open_io =
  oo_cached_ok :: bool
  oo_connect :: "(string, nat) result option"
  oo_auth_stream :: "(string, bytes) result option"
  oo_open_bi :: "(string, unit) result option"

fun connect_error_text :: "(string, 'a) result option \<Rightarrow> string \<Rightarrow> string \<Rightarrow> (peer_storage_error, 'a) result" where
  "connect_error_text None timeout pre = Inl (ConnectionFailed timeout)"
| "connect_error_text (Some (Inl e)) timeout pre = Inl (ConnectionFailed (pre @ e))"
| "connect_error_text (Some (Inr x)) timeout pre = Inr x"

text \<open>Returns the connection the stream was opened on.  A fresh connection answers the server's
  challenge first.  A watcher is started for it.\<close>

definition fresh_stream ::
  "did_auth_env \<Rightarrow> string \<Rightarrow> open_io \<Rightarrow> string \<Rightarrow> peer_endpoint \<Rightarrow> (peer_storage_error, nat) result \<times> peer_endpoint" where
  "fresh_stream env own_id io remote_id ep =
     (case and_then (connect_error_text (oo_connect io) ''connect handshake timed out after 8s'' []) (\<lambda>conn.
           and_then (ok_or (ConnectionFailed ''own identity not configured'') (ep_own_identity ep)) (\<lambda>identity.
           and_then (connect_error_text (oo_auth_stream io) ''accept auth stream timed out after 5s'' ''accept auth stream: '') (\<lambda>input.
           case respond_to_challenge env (oi_did identity) (oi_signing_key identity) own_id True input of
             Inl e \<Rightarrow> Inl (ConnectionFailed (''DID-auth handshake failed: '' @ display_challenge_error e))
           | Inr _ \<Rightarrow>
               and_then (connect_error_text (oo_open_bi io) ''open_bi timed out after 3s'' []) (\<lambda>_. Inr conn)))) of
        Inl e \<Rightarrow> (Inl e, ep)
      | Inr conn \<Rightarrow> (Inr conn, ep\<lparr>ep_connections := (ep_connections ep)(remote_id \<mapsto> conn)\<rparr>))"

definition open_stream ::
  "did_auth_env \<Rightarrow> string \<Rightarrow> open_io \<Rightarrow> string \<Rightarrow> peer_endpoint \<Rightarrow> (peer_storage_error, nat) result \<times> peer_endpoint" where
  "open_stream env own_id io remote_id ep =
     (if \<not> ep_running ep then (Inl EndpointNotRunning, ep)
      else (case ep_connections ep remote_id of
              Some conn \<Rightarrow>
                if oo_cached_ok io then (Inr conn, ep)
                else fresh_stream env own_id io remote_id (ep\<lparr>ep_connections := (ep_connections ep)(remote_id := None)\<rparr>)
            | None \<Rightarrow> fresh_stream env own_id io remote_id ep))"


section \<open>Incoming connections\<close>

definition STORAGE_ALPN :: string where "STORAGE_ALPN = ''haex-peer/2''"
definition DELIVERY_ALPN :: string where "DELIVERY_ALPN = ''haex-delivery/2''"

datatype accepted = StorageConnection | DeliveryConnection | Rejected

definition accept_connection :: "peer_state \<Rightarrow> string \<Rightarrow> string \<Rightarrow> accepted" where
  "accept_connection st alpn remote =
     (if alpn = STORAGE_ALPN then
        (case pst_allowed_peers st remote of
           Some spaces \<Rightarrow> if spaces \<noteq> [] then StorageConnection else Rejected
         | None \<Rightarrow> Rejected)
      else if alpn = DELIVERY_ALPN then (if pst_delivery_handler st then DeliveryConnection else Rejected)
      else Rejected)"

text \<open>The handshake: \<open>opened\<close> tells whether the server could open the stream.  The error is the
  close code, \<open>None\<close> when the connection is only dropped.\<close>

definition authenticate_connection ::
  "did_auth_env \<Rightarrow> own_identity option \<Rightarrow> bool \<Rightarrow> bytes \<Rightarrow> string \<Rightarrow> string \<Rightarrow> bool \<Rightarrow> bytes \<Rightarrow> peer_state
     \<Rightarrow> (nat option, string) result \<times> peer_state" where
  "authenticate_connection env identity opened nonce own_endpoint_id remote timely input st =
     (if identity = None then (Inl (Some 3), st)
      else if \<not> opened then (Inl None, st)
      else (case challenge_and_verify env nonce own_endpoint_id remote timely input of
              Inl e \<Rightarrow> (Inl (Some 2), st)
            | Inr verified_did \<Rightarrow>
                (case pst_peer_owner_dids st remote of
                   Some expected \<Rightarrow>
                     if expected = verified_did
                     then (Inr verified_did, st\<lparr>pst_endpoint_dids := (pst_endpoint_dids st)(remote \<mapsto> verified_did)\<rparr>)
                     else (Inl (Some 4), st)
                 | None \<Rightarrow> (Inl (Some 5), st))))"

text \<open>Each request stream: the spaces it is served with, or the connection is closed.\<close>

definition stream_spaces :: "peer_state \<Rightarrow> string \<Rightarrow> string list option" where
  "stream_spaces st remote =
     (case pst_allowed_peers st remote of Some spaces \<Rightarrow> if spaces \<noteq> [] then Some spaces else None | None \<Rightarrow> None)"

definition connection_ended :: "string \<Rightarrow> peer_state \<Rightarrow> peer_state" where
  "connection_ended remote st = st\<lparr>pst_endpoint_dids := (pst_endpoint_dids st)(remote := None)\<rparr>"


section \<open>Connection watchers\<close>

datatype path_type = PathDirect | PathRelay | PathUnknown | PathClosed

definition watcher_registered :: "string \<Rightarrow> peer_state \<Rightarrow> peer_state" where
  "watcher_registered remote st =
     st\<lparr>pst_connection_watchers := (pst_connection_watchers st)(remote \<mapsto>
       (case pst_connection_watchers st remote of Some n \<Rightarrow> n | None \<Rightarrow> 0) + 1)\<rparr>"

definition watcher_ended :: "string \<Rightarrow> peer_state \<Rightarrow> nat \<times> peer_state" where
  "watcher_ended remote st =
     (let remaining = (case pst_connection_watchers st remote of Some n \<Rightarrow> n | None \<Rightarrow> 0) - 1
      in (remaining, st\<lparr>pst_connection_watchers := (pst_connection_watchers st)
            (remote := if remaining = 0 then None else Some remaining)\<rparr>))"

definition compute_diagnostics :: "bool \<Rightarrow> (bool \<times> bool) option \<Rightarrow> path_type" where
  "compute_diagnostics closed selected =
     (if closed then PathClosed
      else (case selected of
              Some (is_relay, is_ip) \<Rightarrow> if is_relay then PathRelay else if is_ip then PathDirect else PathUnknown
            | None \<Rightarrow> PathUnknown))"

definition emit_diagnostics :: "peer_state \<Rightarrow> string \<Rightarrow> path_type \<Rightarrow> (string \<times> path_type) list \<Rightarrow> (string \<times> path_type) list" where
  "emit_diagnostics st node_id diagnostics events = (if pst_app_handle st then events @ [(node_id, diagnostics)] else events)"


section \<open>The endpoint as a transition system\<close>

text \<open>The tasks of one running endpoint: connections are accepted, authenticated, serve streams and
  end; the watcher of a connection registers, and ends when the connection is gone; the
  configuration changes at any time.  \<open>sy_auths\<close>, \<open>sy_served\<close> and \<open>sy_events\<close> record what happened.\<close>

record connection =
  cn_remote :: string
  cn_did :: "string option"

record ep_system =
  sy_state :: peer_state
  sy_next :: nat
  sy_conns :: "nat \<rightharpoonup> connection"
  sy_spawned :: "string list"
  sy_watchers :: "string list"
  sy_auths :: "(nat \<times> string \<times> string \<times> bytes) list"
  sy_served :: "(nat \<times> string \<times> string \<times> string list) list"
  sy_events :: "(string \<times> path_type) list"

definition ep_init :: ep_system where
  "ep_init = \<lparr>sy_state = peer_state_default, sy_next = 0, sy_conns = Map.empty, sy_spawned = [], sy_watchers = [], sy_auths = [],
     sy_served = [], sy_events = []\<rparr>"

inductive ep_step :: "did_auth_env \<Rightarrow> own_identity option \<Rightarrow> string \<Rightarrow> ep_system \<Rightarrow> ep_system \<Rightarrow> bool"
  for env identity own where
  accept: "accept_connection (sy_state s) alpn remote \<noteq> Rejected \<Longrightarrow>
    ep_step env identity own s (s\<lparr>sy_next := Suc (sy_next s), sy_spawned := remote # sy_spawned s,
      sy_conns := (if accept_connection (sy_state s) alpn remote = StorageConnection
                   then (sy_conns s)(sy_next s \<mapsto> \<lparr>cn_remote = remote, cn_did = None\<rparr>) else sy_conns s)\<rparr>)"
| handshake: "sy_conns s i = Some c \<Longrightarrow> cn_did c = None \<Longrightarrow>
    authenticate_connection env identity opened nonce own (cn_remote c) timely input (sy_state s) = (r, st) \<Longrightarrow>
    ep_step env identity own s (case r of
        Inl _ \<Rightarrow> s\<lparr>sy_state := st, sy_conns := (sy_conns s)(i := None)\<rparr>
      | Inr did \<Rightarrow> s\<lparr>sy_state := st, sy_conns := (sy_conns s)(i \<mapsto> c\<lparr>cn_did := Some did\<rparr>),
                    sy_auths := (i, cn_remote c, did, nonce) # sy_auths s\<rparr>)"
| stream: "sy_conns s i = Some c \<Longrightarrow> cn_did c = Some did \<Longrightarrow>
    ep_step env identity own s (case stream_spaces (sy_state s) (cn_remote c) of
        Some spaces \<Rightarrow> s\<lparr>sy_served := (i, cn_remote c, did, spaces) # sy_served s\<rparr>
      | None \<Rightarrow> s\<lparr>sy_state := connection_ended (cn_remote c) (sy_state s), sy_conns := (sy_conns s)(i := None)\<rparr>)"
| close: "sy_conns s i = Some c \<Longrightarrow> cn_did c \<noteq> None \<Longrightarrow>
    ep_step env identity own s (s\<lparr>sy_state := connection_ended (cn_remote c) (sy_state s), sy_conns := (sy_conns s)(i := None)\<rparr>)"
| watch: "remote \<in> set (sy_spawned s) \<Longrightarrow>
    ep_step env identity own s (s\<lparr>sy_spawned := remove1 remote (sy_spawned s), sy_watchers := remote # sy_watchers s,
      sy_state := watcher_registered remote (sy_state s),
      sy_events := emit_diagnostics (sy_state s) remote (compute_diagnostics closed sel) (sy_events s)\<rparr>)"
| path_changed: "remote \<in> set (sy_watchers s) \<Longrightarrow>
    ep_step env identity own s (s\<lparr>sy_events := emit_diagnostics (sy_state s) remote (compute_diagnostics closed sel) (sy_events s)\<rparr>)"
| unwatch: "remote \<in> set (sy_watchers s) \<Longrightarrow> watcher_ended remote (sy_state s) = (remaining, st) \<Longrightarrow>
    ep_step env identity own s (s\<lparr>sy_watchers := remove1 remote (sy_watchers s), sy_state := st,
      sy_events := (if remaining = 0 then emit_diagnostics st remote PathClosed (sy_events s) else sy_events s)\<rparr>)"
| configure: "ep_step env identity own s (s\<lparr>sy_state := (sy_state s)\<lparr>pst_shares := shares, pst_allowed_peers := allowed,
      pst_peer_owner_dids := owners, pst_app_handle := app, pst_delivery_handler := delivery\<rparr>\<rparr>)"

text \<open>A live connection that has a DID, and every stream that was served, goes back to a handshake of
  this very connection in which its remote endpoint proved that DID.\<close>

definition auth_entry :: "did_auth_env \<Rightarrow> string \<Rightarrow> nat \<times> string \<times> string \<times> bytes \<Rightarrow> bool" where
  "auth_entry env own = (\<lambda>(i, remote, did, nonce). \<exists>timely input. challenge_and_verify env nonce own remote timely input = Inr did)"

definition served_inv :: "did_auth_env \<Rightarrow> string \<Rightarrow> ep_system \<Rightarrow> bool" where
  "served_inv env own s \<longleftrightarrow>
     (\<forall>a\<in>set (sy_auths s). auth_entry env own a) \<and>
     (\<forall>i c did. sy_conns s i = Some c \<longrightarrow> cn_did c = Some did \<longrightarrow> (\<exists>nonce. (i, cn_remote c, did, nonce) \<in> set (sy_auths s))) \<and>
     (\<forall>(i, remote, did, spaces)\<in>set (sy_served s). spaces \<noteq> [] \<and> (\<exists>nonce. (i, remote, did, nonce) \<in> set (sy_auths s)))"

definition watch_count :: "ep_system \<Rightarrow> string \<Rightarrow> nat" where
  "watch_count s remote = count_list (sy_watchers s) remote"

definition watch_inv :: "ep_system \<Rightarrow> bool" where
  "watch_inv s \<longleftrightarrow> (\<forall>remote. pst_connection_watchers (sy_state s) remote =
     (if watch_count s remote = 0 then None else Some (watch_count s remote)))"

lemma authenticated:
  assumes "authenticate_connection env identity opened nonce own remote timely input st = (Inr did, st')"
  shows "challenge_and_verify env nonce own remote timely input = Inr did" "pst_peer_owner_dids st remote = Some did"
    "pst_connection_watchers st' = pst_connection_watchers st"
  using assms by (auto simp: authenticate_connection_def split: if_splits sum.splits option.splits)

lemma not_authenticated: "authenticate_connection env identity opened nonce own remote timely input st = (Inl e, st') \<Longrightarrow> st' = st"
  by (auto simp: authenticate_connection_def split: if_splits sum.splits option.splits)

lemma served_step: "ep_step env identity own s s' \<Longrightarrow> served_inv env own s \<Longrightarrow> served_inv env own s'"
proof (induction rule: ep_step.cases)
  case (handshake s i c opened nonce timely input r st)
  then show ?case
  proof (cases r)
    case (Inr did)
    then have "challenge_and_verify env nonce own (cn_remote c) timely input = Inr did" using authenticated handshake by metis
    then have "auth_entry env own (i, cn_remote c, did, nonce)" by (auto simp: auth_entry_def)
    then show ?thesis using handshake Inr by (fastforce simp: served_inv_def split: if_splits)
  qed (fastforce simp: served_inv_def split: if_splits)
next
  case (stream s i c did)
  then show ?case
    by (cases "stream_spaces (sy_state s) (cn_remote c)")
      (fastforce simp: served_inv_def stream_spaces_def split: if_splits option.splits)+
qed (fastforce simp: served_inv_def split: if_splits)+

lemma count_remove1: "x \<in> set xs \<Longrightarrow> count_list (remove1 x xs) y = count_list xs y - (if x = y then 1 else 0)"
  by (induction xs) (auto simp: count_notin split: if_splits dest: count_list_0_iff [THEN iffD1])

lemma watch_step: "ep_step env identity own s s' \<Longrightarrow> watch_inv s \<Longrightarrow> watch_inv s'"
proof (induction rule: ep_step.cases)
  case (handshake s i c opened nonce timely input r st)
  then have "pst_connection_watchers st = pst_connection_watchers (sy_state s)"
    using authenticated(3) not_authenticated by (cases r) metis+
  then show ?case using handshake by (cases r) (auto simp: watch_inv_def watch_count_def)
next
  case (unwatch remote s remaining st)
  have mem: "0 < count_list (sy_watchers s) remote" using unwatch by (simp add: count_list_0_iff flip: neq0_conv)
  then have "pst_connection_watchers (sy_state s) remote = Some (count_list (sy_watchers s) remote)"
    using unwatch by (simp add: watch_inv_def watch_count_def)
  then show ?case using unwatch mem
    by (auto simp: watch_inv_def watch_count_def watcher_ended_def Let_def count_remove1)
qed (auto simp: watch_inv_def watch_count_def connection_ended_def watcher_registered_def split: option.splits)

lemma ep_reachable:
  assumes "(ep_step env identity own)\<^sup>*\<^sup>* ep_init s"
  shows "served_inv env own s \<and> watch_inv s"
  using assms
proof (induction rule: rtranclp_induct)
  case base
  then show ?case by (simp add: served_inv_def watch_inv_def watch_count_def ep_init_def peer_state_default_def)
next
  case (step s s')
  then show ?case using served_step watch_step by blast
qed

text \<open>C22: A request stream is served only on a connection whose remote endpoint proved, in the
  handshake of that very connection, the DID the request is checked against; and with exactly
  the spaces the peer is registered in at that moment, which are not none.  Removing a peer
  takes effect at its next stream.\<close>

theorem served_streams_authenticated:
  assumes "(ep_step env identity own)\<^sup>*\<^sup>* ep_init s" "ep_step env identity own s s'"
    and "(i, remote, did, spaces) \<in> set (sy_served s')" "(i, remote, did, spaces) \<notin> set (sy_served s)"
  shows "pst_allowed_peers (sy_state s) remote = Some spaces \<and> spaces \<noteq> [] \<and>
    (\<exists>nonce timely input. (i, remote, did, nonce) \<in> set (sy_auths s) \<and>
       challenge_and_verify env nonce own remote timely input = Inr did)"
proof -
  have inv: "served_inv env own s" using ep_reachable [OF assms(1)] by simp
  have "\<exists>c. sy_conns s i = Some c \<and> cn_did c = Some did \<and> cn_remote c = remote \<and> stream_spaces (sy_state s) remote = Some spaces"
    using assms(2-4) by (cases rule: ep_step.cases) (auto split: sum.splits option.splits)
  then obtain c where c: "sy_conns s i = Some c" "cn_did c = Some did" "cn_remote c = remote" "stream_spaces (sy_state s) remote = Some spaces"
    by blast
  have "\<forall>i c did. sy_conns s i = Some c \<longrightarrow> cn_did c = Some did \<longrightarrow> (\<exists>nonce. (i, cn_remote c, did, nonce) \<in> set (sy_auths s))"
    using inv by (simp add: served_inv_def)
  then obtain nonce where "(i, remote, did, nonce) \<in> set (sy_auths s)" using c(1-3) by blast
  moreover from this have "auth_entry env own (i, remote, did, nonce)" using inv by (simp add: served_inv_def)
  ultimately show ?thesis using c(4) by (auto simp: auth_entry_def stream_spaces_def split: option.splits if_splits)
qed

text \<open>A run for the witnesses: the peer \<open>c\<close> connects and proves \<open>sample_did\<close>.\<close>

definition wit_config :: "peer_state \<Rightarrow> peer_state" where
  "wit_config st = st\<lparr>pst_allowed_peers := [''c'' \<mapsto> [''s1'']], pst_peer_owner_dids := [''c'' \<mapsto> sample_did], pst_app_handle := True\<rparr>"

definition wit_identity :: own_identity where "wit_identity = \<lparr>oi_did = ''did'', oi_signing_key = []\<rparr>"

definition wit_sys1 :: ep_system where "wit_sys1 = ep_init\<lparr>sy_state := wit_config peer_state_default\<rparr>"

definition wit_sys2 :: ep_system where
  "wit_sys2 = wit_sys1\<lparr>sy_next := 1, sy_spawned := [''c''], sy_conns := [0 \<mapsto> \<lparr>cn_remote = ''c'', cn_did = None\<rparr>]\<rparr>"

definition wit_sys3 :: ep_system where
  "wit_sys3 = wit_sys2\<lparr>sy_state := (wit_config peer_state_default)\<lparr>pst_endpoint_dids := [''c'' \<mapsto> sample_did]\<rparr>,
     sy_conns := [0 \<mapsto> \<lparr>cn_remote = ''c'', cn_did = Some sample_did\<rparr>], sy_auths := [(0, ''c'', sample_did, hs_nonce)]\<rparr>"

lemma wit_run: "(ep_step hs_env (Some wit_identity) ''s'')\<^sup>*\<^sup>* ep_init wit_sys3"
proof -
  let ?step = "ep_step hs_env (Some wit_identity) ''s''"
  have "?step ep_init wit_sys1"
    using ep_step.configure [where env = hs_env and identity = "Some wit_identity" and own = "''s''" and s = ep_init and shares = "[]"
        and allowed = "[''c'' \<mapsto> [''s1'']]" and owners = "[''c'' \<mapsto> sample_did]" and app = True and delivery = False]
    by (simp add: wit_sys1_def wit_config_def ep_init_def peer_state_default_def)
  moreover have "?step wit_sys1 wit_sys2"
    using ep_step.accept [where env = hs_env and identity = "Some wit_identity" and own = "''s''" and s = wit_sys1
        and alpn = STORAGE_ALPN and remote = "''c''"]
    by (simp add: wit_sys1_def wit_sys2_def wit_config_def ep_init_def accept_connection_def STORAGE_ALPN_def)
  moreover have "?step wit_sys2 wit_sys3"
  proof -
    have "authenticate_connection hs_env (Some wit_identity) True hs_nonce ''s'' ''c'' True (be32 1 @ as_bytes ''r'') (sy_state wit_sys2) =
        (Inr sample_did, sy_state wit_sys3)"
      unfolding authenticate_connection_def hs_accepts
      by (simp add: wit_sys1_def wit_sys2_def wit_sys3_def wit_config_def peer_state_default_def)
    then have this': "authenticate_connection hs_env (Some wit_identity) True hs_nonce ''s'' (cn_remote \<lparr>cn_remote = ''c'', cn_did = None\<rparr>) True
        (be32 1 @ as_bytes ''r'') (sy_state wit_sys2) = (Inr sample_did, sy_state wit_sys3)" by simp
    from ep_step.handshake [where s = wit_sys2 and i = 0 and c = "\<lparr>cn_remote = ''c'', cn_did = None\<rparr>", OF _ _ this']
    show ?thesis by (simp add: wit_sys1_def wit_sys2_def wit_sys3_def ep_init_def)
  qed
  ultimately show ?thesis by (meson r_into_rtranclp rtranclp_trans)
qed

theorem served_streams_authenticated_witness:
  "pst_allowed_peers (sy_state wit_sys3) ''c'' = Some [''s1''] \<and>
   (\<exists>nonce timely input. challenge_and_verify hs_env nonce ''s'' ''c'' timely input = Inr sample_did)"
proof -
  let ?s = "wit_sys3\<lparr>sy_served := [(0, ''c'', sample_did, [''s1''])]\<rparr>"
  have "ep_step hs_env (Some wit_identity) ''s'' wit_sys3 ?s"
    using ep_step.stream [where env = hs_env and identity = "Some wit_identity" and own = "''s''" and s = wit_sys3 and i = 0
        and c = "\<lparr>cn_remote = ''c'', cn_did = Some sample_did\<rparr>" and did = sample_did]
    by (simp add: wit_sys1_def wit_sys2_def wit_sys3_def ep_init_def stream_spaces_def wit_config_def)
  from served_streams_authenticated [OF wit_run this, of 0 "''c''" sample_did "[''s1'']"] show ?thesis
    by (auto simp: wit_sys1_def wit_sys2_def wit_sys3_def ep_init_def)
qed

text \<open>The counter of each peer is the number of its registered watchers, and the last of them to end
  reports the peer as closed.\<close>

lemma watchers_counted:
  assumes "(ep_step env identity own)\<^sup>*\<^sup>* ep_init s" "remote \<in> set (sy_watchers s)"
    and "watcher_ended remote (sy_state s) = (remaining, st)"
  shows "remaining = count_list (remove1 remote (sy_watchers s)) remote"
proof -
  have "watch_inv s" using ep_reachable [OF assms(1)] by simp
  moreover have "0 < count_list (sy_watchers s) remote" using assms(2) by (simp add: count_list_0_iff flip: neq0_conv)
  ultimately show ?thesis using assms(2,3) by (auto simp: watch_inv_def watch_count_def watcher_ended_def Let_def count_remove1)
qed

text \<open>A watcher that reports a path of a connection which is closed already says \<open>Closed\<close> while
  another connection of the same peer is alive.\<close>

lemma closed_reported_early:
  "\<exists>s. (ep_step env identity own)\<^sup>*\<^sup>* wit_sys1 s \<and> watch_count s ''c'' = 2 \<and> last (sy_events s) = (''c'', PathClosed)"
proof -
  let ?step = "ep_step env identity own"
  define s2 where "s2 = wit_sys1\<lparr>sy_next := 2, sy_spawned := [''c'', ''c''],
    sy_conns := [0 \<mapsto> \<lparr>cn_remote = ''c'', cn_did = None\<rparr>, 1 \<mapsto> \<lparr>cn_remote = ''c'', cn_did = None\<rparr>]\<rparr>"
  have ac: "accept_connection (sy_state wit_sys1) STORAGE_ALPN ''c'' = StorageConnection"
    by (simp add: wit_sys1_def wit_config_def accept_connection_def)
  have "?step wit_sys1 wit_sys2"
    using ep_step.accept [where env = env and identity = identity and own = own and s = wit_sys1 and alpn = STORAGE_ALPN and remote = "''c''"] ac
    by (simp add: wit_sys2_def wit_sys1_def ep_init_def)
  moreover have "?step wit_sys2 s2"
    using ep_step.accept [where env = env and identity = identity and own = own and s = wit_sys2 and alpn = STORAGE_ALPN and remote = "''c''"] ac
    by (simp add: wit_sys2_def s2_def wit_sys1_def ep_init_def numeral_2_eq_2)
  moreover define s3 where "s3 = s2\<lparr>sy_spawned := [''c''], sy_watchers := [''c''], sy_state := watcher_registered ''c'' (sy_state s2),
      sy_events := emit_diagnostics (sy_state s2) ''c'' PathUnknown (sy_events s2)\<rparr>"
  have "?step s2 s3"
    using ep_step.watch [where env = env and identity = identity and own = own and s = s2 and remote = "''c''" and closed = False and sel = None]
    by (simp add: s2_def s3_def wit_sys1_def ep_init_def compute_diagnostics_def)
  moreover define s4 where "s4 = s3\<lparr>sy_spawned := [], sy_watchers := [''c'', ''c''], sy_state := watcher_registered ''c'' (sy_state s3),
      sy_events := emit_diagnostics (sy_state s3) ''c'' PathClosed (sy_events s3)\<rparr>"
  have "?step s3 s4"
    using ep_step.watch [where env = env and identity = identity and own = own and s = s3 and remote = "''c''" and closed = True and sel = None]
    by (simp add: s3_def s4_def s2_def wit_sys1_def ep_init_def compute_diagnostics_def)
  ultimately have "?step\<^sup>*\<^sup>* wit_sys1 s4" using \<open>?step s2 s3\<close> by (meson r_into_rtranclp rtranclp_trans)
  moreover have "watch_count s4 ''c'' = 2 \<and> last (sy_events s4) = (''c'', PathClosed)"
    by (simp add: watch_count_def s4_def s3_def s2_def emit_diagnostics_def watcher_registered_def wit_sys1_def wit_config_def)
  ultimately show ?thesis by blast
qed

end
