(* ===== verification/BridgeProtocol.thy ===== *)
theory BridgeProtocol
  imports PeerProtocol
begin

text \<open>
  The wire format of the external bridge: encrypted envelopes (\<open>external_bridge/crypto.rs\<close>) and
  the JSON messages between a browser client and the vault (\<open>external_bridge/protocol.rs\<close>,
  \<open>external_bridge/error.rs\<close>).

  Base64, X25519, AES-GCM and JSON text come from other crates: they are the fields of
  \<open>bridge_crypto\<close>.  A key is its bytes; a random key or nonce is an argument.
\<close>

section \<open>Errors\<close>

datatype bridge_error =
    BeWebSocket string
  | BeIo string
  | BeJson string
  | BeChannelSend string
  | BeDatabase string
  | BeUnauthorized string
  | BeExtensionNotFound string
  | BeInvalidRequest string
  | BeNotRunning
  | BeAlreadyRunning
  | BeAuthorizationDenied
  | BeTimeout
  | BeCrypto string

fun display_bridge_error :: "bridge_error \<Rightarrow> string" where
  "display_bridge_error (BeWebSocket e) = ''WebSocket error: '' @ e"
| "display_bridge_error (BeIo e) = ''IO error: '' @ e"
| "display_bridge_error (BeJson e) = ''JSON error: '' @ e"
| "display_bridge_error (BeChannelSend e) = ''Channel send error: '' @ e"
| "display_bridge_error (BeDatabase e) = ''Database error: '' @ e"
| "display_bridge_error (BeUnauthorized e) = ''Client not authorized: '' @ e"
| "display_bridge_error (BeExtensionNotFound e) = ''Extension not found: '' @ e"
| "display_bridge_error (BeInvalidRequest e) = ''Invalid request: '' @ e"
| "display_bridge_error BeNotRunning = ''Server not running''"
| "display_bridge_error BeAlreadyRunning = ''Server already running''"
| "display_bridge_error BeAuthorizationDenied = ''Authorization denied''"
| "display_bridge_error BeTimeout = ''Request timeout''"
| "display_bridge_error (BeCrypto e) = ''Crypto error: '' @ e"


section \<open>Keys and encryption\<close>

record bridge_crypto =
  bc_b64_encode :: "bytes \<Rightarrow> string"
  bc_b64_decode :: "string \<Rightarrow> (string, bytes) result"
  bc_public :: "bytes \<Rightarrow> bytes"
  bc_dh :: "bytes \<Rightarrow> bytes \<Rightarrow> bytes"
  bc_seal :: "bytes \<Rightarrow> bytes \<Rightarrow> bytes \<Rightarrow> (string, bytes) result"
  bc_open :: "bytes \<Rightarrow> bytes \<Rightarrow> bytes \<Rightarrow> (string, bytes) result"
  bc_json_to_vec :: "json \<Rightarrow> (string, bytes) result"
  bc_json_from_slice :: "bytes \<Rightarrow> (string, json) result"

definition IV_LENGTH :: nat where "IV_LENGTH = 12"
definition X25519_PUBLIC_KEY_LENGTH :: nat where "X25519_PUBLIC_KEY_LENGTH = 32"

record server_key_pair =
  kp_secret :: bytes
  kp_public :: bytes

definition generate_key_pair :: "bridge_crypto \<Rightarrow> bytes \<Rightarrow> server_key_pair" where
  "generate_key_pair bc secret_bytes = \<lparr>kp_secret = secret_bytes, kp_public = bc_public bc secret_bytes\<rparr>"

definition public_key_base64 :: "bridge_crypto \<Rightarrow> server_key_pair \<Rightarrow> string" where
  "public_key_base64 bc kp = bc_b64_encode bc (kp_public kp)"

definition derive_shared_secret :: "bridge_crypto \<Rightarrow> server_key_pair \<Rightarrow> bytes \<Rightarrow> bytes" where
  "derive_shared_secret bc kp client_public_key = bc_dh bc (kp_secret kp) client_public_key"

definition crypto_err :: "string \<Rightarrow> (string, 'a) result \<Rightarrow> (bridge_error, 'a) result" where
  "crypto_err what r = (case r of Inl e \<Rightarrow> Inl (BeCrypto (what @ e)) | Inr x \<Rightarrow> Inr x)"

definition check_length :: "string \<Rightarrow> nat \<Rightarrow> bytes \<Rightarrow> (bridge_error, bytes) result" where
  "check_length what n bs =
     (if length bs \<noteq> n
      then Inl (BeCrypto (what @ show_radix 10 n @ '', got '' @ show_radix 10 (length bs)))
      else Inr bs)"

definition import_public_key :: "bridge_crypto \<Rightarrow> string \<Rightarrow> (bridge_error, bytes) result" where
  "import_public_key bc base64_key =
     and_then (crypto_err ''Invalid base64: '' (bc_b64_decode bc base64_key))
       (check_length ''Invalid X25519 public key length: expected '' X25519_PUBLIC_KEY_LENGTH)"

definition encrypt_message :: "bridge_crypto \<Rightarrow> bytes \<Rightarrow> bytes \<Rightarrow> bytes \<Rightarrow> (bridge_error, bytes) result" where
  "encrypt_message bc iv plaintext shared_key = crypto_err ''Encryption failed: '' (bc_seal bc shared_key iv plaintext)"

definition decrypt_message :: "bridge_crypto \<Rightarrow> bytes \<Rightarrow> bytes \<Rightarrow> bytes \<Rightarrow> (bridge_error, bytes) result" where
  "decrypt_message bc ciphertext iv shared_key = crypto_err ''Decryption failed: '' (bc_open bc shared_key iv ciphertext)"

record encrypted_envelope =
  ee_action :: string
  ee_message :: string
  ee_iv :: string
  ee_client_id :: string
  ee_public_key :: string
  ee_extension_public_key :: "string option"
  ee_extension_name :: "string option"

definition envelope_decrypt :: "bridge_crypto \<Rightarrow> server_key_pair \<Rightarrow> encrypted_envelope \<Rightarrow> (bridge_error, json) result" where
  "envelope_decrypt bc server_keypair env =
     and_then (import_public_key bc (ee_public_key env)) (\<lambda>client_public_key.
     let shared_secret = derive_shared_secret bc server_keypair client_public_key in
     and_then (crypto_err ''Invalid ciphertext base64: '' (bc_b64_decode bc (ee_message env))) (\<lambda>ciphertext.
     and_then (crypto_err ''Invalid IV base64: '' (bc_b64_decode bc (ee_iv env))) (\<lambda>iv_bytes.
     and_then (check_length ''Invalid IV length: expected '' IV_LENGTH iv_bytes) (\<lambda>iv.
     and_then (decrypt_message bc ciphertext iv shared_secret) (\<lambda>plaintext.
       crypto_err ''Invalid JSON in decrypted message: '' (bc_json_from_slice bc plaintext))))))"

text \<open>The secret of the ephemeral key and the nonce are drawn at random by the code.\<close>

definition create_encrypted_response ::
  "bridge_crypto \<Rightarrow> bytes \<Rightarrow> bytes \<Rightarrow> string \<Rightarrow> json \<Rightarrow> string \<Rightarrow> (bridge_error, encrypted_envelope) result" where
  "create_encrypted_response bc secret_bytes iv action payload client_public_key_base64 =
     (let ephemeral = generate_key_pair bc secret_bytes in
      and_then (import_public_key bc client_public_key_base64) (\<lambda>client_public_key.
      let shared_secret = derive_shared_secret bc ephemeral client_public_key in
      and_then (crypto_err ''Failed to serialize payload: '' (bc_json_to_vec bc payload)) (\<lambda>plaintext.
      and_then (encrypt_message bc iv plaintext shared_secret) (\<lambda>ciphertext.
        Inr \<lparr>ee_action = action, ee_message = bc_b64_encode bc ciphertext, ee_iv = bc_b64_encode bc iv, ee_client_id = [],
             ee_public_key = public_key_base64 bc ephemeral, ee_extension_public_key = None, ee_extension_name = None\<rparr>))))"

text \<open>What the crates promise: decoding undoes encoding, both sides of the key exchange agree, opening
  undoes sealing, and JSON text is read back.\<close>

definition crypto_laws :: "bridge_crypto \<Rightarrow> bool" where
  "crypto_laws bc \<longleftrightarrow>
     (\<forall>bs. bc_b64_decode bc (bc_b64_encode bc bs) = Inr bs) \<and>
     (\<forall>s. length (bc_public bc s) = X25519_PUBLIC_KEY_LENGTH) \<and>
     (\<forall>a b. bc_dh bc a (bc_public bc b) = bc_dh bc b (bc_public bc a)) \<and>
     (\<forall>k iv p c. bc_seal bc k iv p = Inr c \<longrightarrow> bc_open bc k iv c = Inr p) \<and>
     (\<forall>j bs. bc_json_to_vec bc j = Inr bs \<longrightarrow> bc_json_from_slice bc bs = Inr j)"

lemma crypto_lawsD:
  assumes "crypto_laws bc"
  shows "bc_b64_decode bc (bc_b64_encode bc bs) = Inr bs" "length (bc_public bc s) = X25519_PUBLIC_KEY_LENGTH"
    "bc_dh bc a (bc_public bc b) = bc_dh bc b (bc_public bc a)"
    "bc_seal bc k iv p = Inr c \<Longrightarrow> bc_open bc k iv c = Inr p"
    "bc_json_to_vec bc j = Inr bs \<Longrightarrow> bc_json_from_slice bc bs = Inr j"
  using assms unfolding crypto_laws_def by auto

lemma crypto_err_Inr [simp]: "crypto_err w r = Inr x \<longleftrightarrow> r = Inr x"
  by (auto simp: crypto_err_def split: sum.splits)

lemma check_length_Inr [simp]: "check_length w n bs = Inr x \<longleftrightarrow> length bs = n \<and> x = bs"
  by (auto simp: check_length_def)

lemma import_exported:
  "crypto_laws bc \<Longrightarrow> import_public_key bc (public_key_base64 bc (generate_key_pair bc s)) = Inr (bc_public bc s)"
  by (simp add: import_public_key_def public_key_base64_def generate_key_pair_def crypto_lawsD crypto_err_def check_length_def)

lemma envelope_round_trip:
  assumes "crypto_laws bc" "length iv = IV_LENGTH"
    and "create_encrypted_response bc eph iv action payload (public_key_base64 bc (generate_key_pair bc own)) = Inr env"
  shows "envelope_decrypt bc (generate_key_pair bc own) env = Inr payload"
proof -
  let ?k = "bc_dh bc own (bc_public bc eph)"
  obtain bs c where bs: "bc_json_to_vec bc payload = Inr bs" and c: "bc_seal bc ?k iv bs = Inr c"
    and env: "env = \<lparr>ee_action = action, ee_message = bc_b64_encode bc c, ee_iv = bc_b64_encode bc iv, ee_client_id = [],
             ee_public_key = public_key_base64 bc (generate_key_pair bc eph), ee_extension_public_key = None, ee_extension_name = None\<rparr>"
    using assms(3) import_exported [OF assms(1)] crypto_lawsD(3) [OF assms(1), of eph own]
    by (auto simp: create_encrypted_response_def Let_def and_then_Inr_iff encrypt_message_def derive_shared_secret_def generate_key_pair_def)
  have "bc_open bc ?k iv c = Inr bs" "bc_json_from_slice bc bs = Inr payload"
    using crypto_lawsD(4,5) [OF assms(1)] bs c by auto
  then show ?thesis
    using assms(2) by (simp add: env envelope_decrypt_def import_exported [OF assms(1)] crypto_lawsD [OF assms(1)] Let_def
        decrypt_message_def derive_shared_secret_def crypto_err_def check_length_def)
       (simp add: generate_key_pair_def)
qed


text \<open>The laws can hold: an instance without secrecy.\<close>

definition plain_crypto :: bridge_crypto where
  "plain_crypto = \<lparr>bc_b64_encode = map (\<lambda>b. char_of (unat b)), bc_b64_decode = (\<lambda>s. Inr (as_bytes s)),
     bc_public = (\<lambda>s. take 32 (s @ replicate 32 0)), bc_dh = (\<lambda>_ _. []), bc_seal = (\<lambda>_ _ p. Inr p), bc_open = (\<lambda>_ _ c. Inr c),
     bc_json_to_vec = (\<lambda>j. if j = JNull then Inr [] else Inl ''unsupported''), bc_json_from_slice = (\<lambda>_. Inr JNull)\<rparr>"

lemma plain_crypto_laws: "crypto_laws plain_crypto"
proof -
  have "unat b mod 256 = unat b" for b :: "8 word" using unsigned_less [of b] by (intro mod_less) simp
  then have "as_bytes (map (\<lambda>b. char_of (unat b)) bs) = bs" for bs
    by (simp add: as_bytes_def comp_def map_idI)
  then show ?thesis by (auto simp: crypto_laws_def plain_crypto_def X25519_PUBLIC_KEY_LENGTH_def)
qed


section \<open>Messages\<close>

record requested_extension =
  rx_name :: string
  rx_extension_public_key :: string

record client_info =
  ci_client_id :: string
  ci_client_name :: string
  ci_public_key :: string
  ci_requested_extensions :: "requested_extension list"

record handshake_request =
  hr_version :: nat
  hr_client :: client_info

record handshake_response =
  hp_version :: nat
  hp_server_public_key :: string
  hp_authorized :: bool
  hp_pending_approval :: bool

datatype protocol_message =
    PmHandshake handshake_request
  | PmHandshakeResponse handshake_response
  | PmRequest encrypted_envelope
  | PmResponse encrypted_envelope
  | PmAuthorizationUpdate bool
  | PmPing
  | PmPong
  | PmError string string

text \<open>A field with \<open>#[serde(default)]\<close>, the \<open>n\<close>-th of its struct, may be missing.\<close>

definition or_default :: "nat \<Rightarrow> string \<Rightarrow> json \<Rightarrow> json \<Rightarrow> json" where
  "or_default n k v j =
     (case j of
        JObject kvs \<Rightarrow> if k \<in> fst ` set kvs then j else JObject (kvs @ [(k, v)])
      | JArray vs \<Rightarrow> if length vs = n then JArray (vs @ [v]) else j
      | _ \<Rightarrow> j)"

definition u32_of_json :: "json \<Rightarrow> nat option" where
  "u32_of_json j = (case j of JInt i \<Rightarrow> if 0 \<le> i \<and> i < 2 ^ 32 then Some (nat i) else None | _ \<Rightarrow> None)"

definition requested_to_json :: "requested_extension \<Rightarrow> json" where
  "requested_to_json r = JObject [(''name'', JString (rx_name r)), (''extensionPublicKey'', JString (rx_extension_public_key r))]"

definition requested_from_json :: "json \<Rightarrow> requested_extension option" where
  "requested_from_json j =
     (case struct_fields [''name'', ''extensionPublicKey''] j of
        Some [JString n, JString k] \<Rightarrow> Some \<lparr>rx_name = n, rx_extension_public_key = k\<rparr>
      | _ \<Rightarrow> None)"

definition client_to_json :: "client_info \<Rightarrow> json" where
  "client_to_json c = JObject [(''clientId'', JString (ci_client_id c)), (''clientName'', JString (ci_client_name c)),
     (''publicKey'', JString (ci_public_key c)), (''requestedExtensions'', JArray (map requested_to_json (ci_requested_extensions c)))]"

definition client_from_json :: "json \<Rightarrow> client_info option" where
  "client_from_json j =
     (case struct_fields [''clientId'', ''clientName'', ''publicKey'', ''requestedExtensions'']
             (or_default 3 ''requestedExtensions'' (JArray []) j) of
        Some [JString i, JString n, JString k, JArray rs] \<Rightarrow>
          map_option (\<lambda>es. \<lparr>ci_client_id = i, ci_client_name = n, ci_public_key = k, ci_requested_extensions = es\<rparr>)
            (opt_all (map requested_from_json rs))
      | _ \<Rightarrow> None)"

definition envelope_fields :: "encrypted_envelope \<Rightarrow> (string \<times> json) list" where
  "envelope_fields e = [(''action'', JString (ee_action e)), (''message'', JString (ee_message e)), (''iv'', JString (ee_iv e)),
     (''clientId'', JString (ee_client_id e)), (''publicKey'', JString (ee_public_key e)),
     (''extensionPublicKey'', opt_json JString (ee_extension_public_key e)), (''extensionName'', opt_json JString (ee_extension_name e))]"

definition envelope_from_json :: "json \<Rightarrow> encrypted_envelope option" where
  "envelope_from_json j =
     (case struct_fields [''action'', ''message'', ''iv'', ''clientId'', ''publicKey'', ''extensionPublicKey'', ''extensionName'']
             (or_default 6 ''extensionName'' JNull (or_default 5 ''extensionPublicKey'' JNull j)) of
        Some [JString a, JString m, JString v, JString c, JString p, k, n] \<Rightarrow>
          (case (opt_of_json json_as_str k, opt_of_json json_as_str n) of
             (Some key, Some name) \<Rightarrow>
               Some \<lparr>ee_action = a, ee_message = m, ee_iv = v, ee_client_id = c, ee_public_key = p,
                     ee_extension_public_key = key, ee_extension_name = name\<rparr>
           | _ \<Rightarrow> None)
      | _ \<Rightarrow> None)"

fun message_to_json :: "protocol_message \<Rightarrow> json" where
  "message_to_json (PmHandshake h) = JObject [(''type'', JString ''handshake''), (''version'', jnat (hr_version h)),
     (''client'', client_to_json (hr_client h))]"
| "message_to_json (PmHandshakeResponse h) = JObject [(''type'', JString ''handshakeResponse''), (''version'', jnat (hp_version h)),
     (''serverPublicKey'', JString (hp_server_public_key h)), (''authorized'', JBool (hp_authorized h)),
     (''pendingApproval'', JBool (hp_pending_approval h))]"
| "message_to_json (PmRequest e) = JObject ((''type'', JString ''request'') # envelope_fields e)"
| "message_to_json (PmResponse e) = JObject ((''type'', JString ''response'') # envelope_fields e)"
| "message_to_json (PmAuthorizationUpdate a) = JObject [(''type'', JString ''authorizationUpdate''), (''authorized'', JBool a)]"
| "message_to_json PmPing = JObject [(''type'', JString ''ping'')]"
| "message_to_json PmPong = JObject [(''type'', JString ''pong'')]"
| "message_to_json (PmError c m) = JObject [(''type'', JString ''error''), (''code'', JString c), (''message'', JString m)]"

definition handshake_from_json :: "json \<Rightarrow> handshake_request option" where
  "handshake_from_json j =
     (case struct_fields [''version'', ''client''] j of
        Some [v, c] \<Rightarrow>
          (case (u32_of_json v, client_from_json c) of
             (Some ver, Some client) \<Rightarrow> Some \<lparr>hr_version = ver, hr_client = client\<rparr>
           | _ \<Rightarrow> None)
      | _ \<Rightarrow> None)"

definition message_from_json :: "json \<Rightarrow> (string, protocol_message) result" where
  "message_from_json j = ok_or ''invalid message''
     (case tagged_fields ''type'' j of
        None \<Rightarrow> None
      | Some (ty, body) \<Rightarrow>
          if ty = ''handshake'' then map_option PmHandshake (handshake_from_json body)
          else if ty = ''handshakeResponse'' then
            (case struct_fields [''version'', ''serverPublicKey'', ''authorized'', ''pendingApproval''] body of
               Some [v, JString k, JBool a, JBool p] \<Rightarrow>
                 map_option (\<lambda>ver. PmHandshakeResponse \<lparr>hp_version = ver, hp_server_public_key = k, hp_authorized = a,
                   hp_pending_approval = p\<rparr>) (u32_of_json v)
             | _ \<Rightarrow> None)
          else if ty = ''request'' then map_option PmRequest (envelope_from_json body)
          else if ty = ''response'' then map_option PmResponse (envelope_from_json body)
          else if ty = ''authorizationUpdate'' then
            (case struct_fields [''authorized''] body of Some [JBool a] \<Rightarrow> Some (PmAuthorizationUpdate a) | _ \<Rightarrow> None)
          else if ty = ''ping'' then Some PmPing
          else if ty = ''pong'' then Some PmPong
          else if ty = ''error'' then
            (case struct_fields [''code'', ''message''] body of Some [JString c, JString m] \<Rightarrow> Some (PmError c m) | _ \<Rightarrow> None)
          else None)"

fun message_wf :: "protocol_message \<Rightarrow> bool" where
  "message_wf (PmHandshake h) = (hr_version h < 2 ^ 32)"
| "message_wf (PmHandshakeResponse h) = (hp_version h < 2 ^ 32)"
| "message_wf _ = True"

lemma u32_json [simp]: "n < 2 ^ 32 \<Longrightarrow> u32_of_json (jnat n) = Some n"
  by (simp add: u32_of_json_def jnat_def flip: of_nat_less_iff)

lemma client_json [simp]: "client_from_json (client_to_json c) = Some c"
proof -
  have "requested_from_json (requested_to_json r) = Some r" for r
    by (simp add: requested_from_json_def requested_to_json_def struct_fields_def json_field_def)
  then show ?thesis
    using opt_all_map [of "ci_requested_extensions c" requested_from_json requested_to_json]
    by (simp add: client_from_json_def client_to_json_def or_default_def struct_fields_def json_field_def comp_def)
qed

lemma envelope_json [simp]: "envelope_from_json (JObject (envelope_fields e)) = Some e"
  by (cases "ee_extension_public_key e"; cases "ee_extension_name e")
     (simp_all add: envelope_from_json_def envelope_fields_def or_default_def struct_fields_def json_field_def opt_of_json_def)

lemma message_round_trip_bridge: "message_wf m \<Longrightarrow> message_from_json (message_to_json m) = Inr m"
proof -
  have env: "filter (\<lambda>kv. fst kv \<noteq> ''type'') (envelope_fields e) = envelope_fields e" "filter (\<lambda>(k, _). k = ''type'') (envelope_fields e) = []" for e
    by (simp_all add: envelope_fields_def)
  show "message_wf m \<Longrightarrow> ?thesis"
    by (cases m) (simp_all add: message_from_json_def handshake_from_json_def tagged_fields_def json_field_def struct_fields_def env)
qed

end
