(* ===== verification/ExternalBridge.thy ===== *)
theory ExternalBridge
  imports BridgeProtocol
begin

text \<open>
  The external bridge: browser clients and other programs reach an extension of the vault, or the
  vault itself, over a local websocket, after the user has allowed them
  (\<open>external_bridge/server.rs\<close>, \<open>authorization.rs\<close>, \<open>mod.rs\<close>).

  The state of the bridge, the tables of its clients and the events it emits form a
  \<open>bridge_world\<close>.  The handler of a connection is split where it waits: a request is admitted,
  its extension is loaded, it is routed, and its answer arrives, is dropped or times out.
  \<open>bridge_step\<close> interleaves the connections with the commands of the user.  What the operating
  system, the window manager and a failing query report is an argument of each step.
\<close>

section \<open>Tables\<close>

record authorized_client =
  ac_id :: string
  ac_client_id :: string
  ac_client_name :: string
  ac_public_key :: string
  ac_extension_id :: string
  ac_authorized_at :: "string option"
  ac_last_seen :: "string option"

record blocked_client =
  bl_id :: string
  bl_client_id :: string
  bl_client_name :: string
  bl_public_key :: string
  bl_blocked_at :: "string option"

record bridge_extension =
  bx_id :: string
  bx_public_key :: string
  bx_name :: string

record bridge_db =
  bd_authorized :: "authorized_client list"
  bd_blocked :: "blocked_client list"
  bd_extensions :: "bridge_extension list"

datatype bridge_query =
    QIsAuthorized | QIsClientKnown | QGetClientExtension | QIsBlocked | QAuthorizedForExtension | QExtensionId
  | QAllClients | QAllBlocked | QInsertClient | QUpdateLastSeen | QDeleteClient | QInsertBlocked | QDeleteBlocked

text \<open>Failing statements, the clock for \<open>datetime('now')\<close>, the open extension windows (none when their
  lock is poisoned) and failing emits.\<close>

record bridge_env =
  be_crypto :: bridge_crypto
  be_parse :: "string \<Rightarrow> (string, json) result"
  be_query_error :: "bridge_query \<Rightarrow> string option"
  be_now :: string
  be_windows :: "(string \<times> string) list option"
  be_emit_error :: "string \<Rightarrow> string option"

definition sql_check :: "bridge_env \<Rightarrow> bridge_query \<Rightarrow> 'a \<Rightarrow> (string, 'a) result" where
  "sql_check env q x = (case be_query_error env q of Some e \<Rightarrow> Inl e | None \<Rightarrow> Inr x)"

text \<open>The unique indexes and the foreign key of the tables.\<close>

definition sql_insert_client :: "bridge_env \<Rightarrow> authorized_client \<Rightarrow> bridge_db \<Rightarrow> (string, bridge_db) result" where
  "sql_insert_client env a db =
     and_then (sql_check env QInsertClient ()) (\<lambda>_.
       if list_ex (\<lambda>b. ac_id b = ac_id a \<or> ac_client_id b = ac_client_id a \<and> ac_extension_id b = ac_extension_id a) (bd_authorized db)
       then Inl ''UNIQUE constraint failed''
       else if \<not> list_ex (\<lambda>x. bx_id x = ac_extension_id a) (bd_extensions db) then Inl ''FOREIGN KEY constraint failed''
       else Inr (db\<lparr>bd_authorized := bd_authorized db @ [a]\<rparr>))"

definition sql_insert_blocked :: "bridge_env \<Rightarrow> blocked_client \<Rightarrow> bridge_db \<Rightarrow> (string, bridge_db) result" where
  "sql_insert_blocked env b db =
     and_then (sql_check env QInsertBlocked ()) (\<lambda>_.
       if list_ex (\<lambda>c. bl_id c = bl_id b \<or> bl_client_id c = bl_client_id b) (bd_blocked db) then Inl ''UNIQUE constraint failed''
       else Inr (db\<lparr>bd_blocked := bd_blocked db @ [b]\<rparr>))"

definition sql_delete_client :: "bridge_env \<Rightarrow> string \<Rightarrow> bridge_db \<Rightarrow> (string, bridge_db) result" where
  "sql_delete_client env cid db =
     sql_check env QDeleteClient (db\<lparr>bd_authorized := filter (\<lambda>a. ac_client_id a \<noteq> cid) (bd_authorized db)\<rparr>)"

definition sql_delete_blocked :: "bridge_env \<Rightarrow> string \<Rightarrow> bridge_db \<Rightarrow> (string, bridge_db) result" where
  "sql_delete_blocked env cid db =
     sql_check env QDeleteBlocked (db\<lparr>bd_blocked := filter (\<lambda>b. bl_client_id b \<noteq> cid) (bd_blocked db)\<rparr>)"


section \<open>Queries of the server\<close>

definition check_client_authorized :: "bridge_env \<Rightarrow> bridge_db \<Rightarrow> string \<Rightarrow> bool" where
  "check_client_authorized env db client_id \<longleftrightarrow>
     be_query_error env QIsClientKnown = None \<and> list_ex (\<lambda>a. ac_client_id a = client_id) (bd_authorized db)"

text \<open>An error counts as blocked.\<close>

definition check_client_blocked :: "bridge_env \<Rightarrow> bridge_db \<Rightarrow> string \<Rightarrow> bool" where
  "check_client_blocked env db client_id \<longleftrightarrow>
     be_query_error env QIsBlocked \<noteq> None \<or> list_ex (\<lambda>b. bl_client_id b = client_id) (bd_blocked db)"

definition get_client_extension :: "bridge_env \<Rightarrow> bridge_db \<Rightarrow> string \<Rightarrow> string option" where
  "get_client_extension env db client_id =
     (if be_query_error env QGetClientExtension \<noteq> None then None
      else map_option ac_extension_id (find (\<lambda>a. ac_client_id a = client_id) (bd_authorized db)))"

definition update_client_last_seen :: "bridge_env \<Rightarrow> string \<Rightarrow> bridge_db \<Rightarrow> (bridge_error, bridge_db) result" where
  "update_client_last_seen env client_id db =
     (case be_query_error env QUpdateLastSeen of
        Some e \<Rightarrow> Inl (BeDatabase e)
      | None \<Rightarrow> Inr (db\<lparr>bd_authorized := map (\<lambda>a. if ac_client_id a = client_id then a\<lparr>ac_last_seen := Some (be_now env)\<rparr> else a)
                                           (bd_authorized db)\<rparr>))"

definition check_client_authorized_for_extension :: "bridge_env \<Rightarrow> bridge_db \<Rightarrow> string \<Rightarrow> string \<Rightarrow> string \<Rightarrow> bool" where
  "check_client_authorized_for_extension env db client_id extension_public_key extension_name \<longleftrightarrow>
     be_query_error env QAuthorizedForExtension = None \<and>
     list_ex (\<lambda>a. ac_client_id a = client_id \<and>
       list_ex (\<lambda>x. bx_id x = ac_extension_id a \<and> bx_public_key x = extension_public_key \<and> bx_name x = extension_name) (bd_extensions db))
       (bd_authorized db)"

definition CORE_EXTENSION_ID :: string where "CORE_EXTENSION_ID = ''__core__''"
definition CORE_EXTENSION_NAME :: string where "CORE_EXTENSION_NAME = ''core''"

definition check_client_authorized_for_core :: "bridge_env \<Rightarrow> bridge_db \<Rightarrow> string \<Rightarrow> bool" where
  "check_client_authorized_for_core env db client_id \<longleftrightarrow>
     be_query_error env QIsAuthorized = None \<and>
     list_ex (\<lambda>a. ac_client_id a = client_id \<and> ac_extension_id a = CORE_EXTENSION_ID) (bd_authorized db)"

definition get_extension_id_by_public_key_and_name :: "bridge_env \<Rightarrow> bridge_db \<Rightarrow> string \<Rightarrow> string \<Rightarrow> string option" where
  "get_extension_id_by_public_key_and_name env db extension_public_key extension_name =
     (if be_query_error env QExtensionId \<noteq> None then None
      else map_option bx_id (find (\<lambda>x. bx_public_key x = extension_public_key \<and> bx_name x = extension_name) (bd_extensions db)))"


section \<open>State of the bridge\<close>

definition DEFAULT_BRIDGE_PORT :: nat where "DEFAULT_BRIDGE_PORT = 19455"
definition BRIDGE_PROTOCOL_VERSION :: nat where "BRIDGE_PROTOCOL_VERSION = 1"

text \<open>\<open>cc_tx\<close> is the number of the connection whose channel the client is reached by.\<close>

record connected_client =
  cc_client_id :: string
  cc_client_name :: string
  cc_public_key :: string
  cc_authorized :: bool
  cc_extension_id :: "string option"
  cc_tx :: nat

record session_authorization =
  sa_client_id :: string
  sa_client_name :: string
  sa_public_key :: string
  sa_extension_id :: string

record session_blocked_client =
  sb_client_id :: string
  sb_client_name :: string
  sb_public_key :: string

record pending_authorization =
  pa_client_id :: string
  pa_client_name :: string
  pa_public_key :: string
  pa_requested_extensions :: "requested_extension list"

text \<open>A pending response is the number of the waiting request whose channel it holds.\<close>

record external_bridge =
  eb_running :: bool
  eb_current_port :: nat
  eb_shutdown_tx :: bool
  eb_server_task :: bool
  eb_clients :: "string \<rightharpoonup> connected_client"
  eb_pending_authorizations :: "string \<rightharpoonup> pending_authorization"
  eb_server_keypair :: "server_key_pair option"
  eb_pending_responses :: "string \<rightharpoonup> nat"
  eb_session_authorizations :: "string \<rightharpoonup> session_authorization"
  eb_session_blocked :: "string \<rightharpoonup> session_blocked_client"
  eb_extension_ready_signals :: "string \<Rightarrow> bool"

definition new_bridge :: external_bridge where
  "new_bridge = \<lparr>eb_running = False, eb_current_port = DEFAULT_BRIDGE_PORT, eb_shutdown_tx = False, eb_server_task = False,
     eb_clients = Map.empty, eb_pending_authorizations = Map.empty, eb_server_keypair = None, eb_pending_responses = Map.empty,
     eb_session_authorizations = Map.empty, eb_session_blocked = Map.empty, eb_extension_ready_signals = (\<lambda>_. False)\<rparr>"

datatype emit_target = ToMain | ToWindow string

datatype bridge_event =
    EvAuthorizationRequest pending_authorization
  | EvAutoStart string
  | EvExternalRequest emit_target json
  | EvCoreRequest json
  | EvDirtyTables

record bridge_world =
  bw_bridge :: external_bridge
  bw_db :: bridge_db
  bw_events :: "bridge_event list"

definition emit :: "bridge_event \<Rightarrow> bridge_world \<Rightarrow> bridge_world" where
  "emit ev w = w\<lparr>bw_events := bw_events w @ [ev]\<rparr>"

definition on_bridge :: "(external_bridge \<Rightarrow> external_bridge) \<Rightarrow> bridge_world \<Rightarrow> bridge_world" where
  "on_bridge f w = w\<lparr>bw_bridge := f (bw_bridge w)\<rparr>"


section \<open>Methods of the bridge\<close>

definition add_session_authorization :: "string \<Rightarrow> string \<Rightarrow> string \<Rightarrow> string \<Rightarrow> external_bridge \<Rightarrow> external_bridge" where
  "add_session_authorization client_id client_name public_key extension_id b =
     b\<lparr>eb_session_authorizations := (eb_session_authorizations b)(client_id \<mapsto>
        \<lparr>sa_client_id = client_id, sa_client_name = client_name, sa_public_key = public_key, sa_extension_id = extension_id\<rparr>)\<rparr>"

definition get_session_authorization :: "string \<Rightarrow> external_bridge \<Rightarrow> session_authorization option" where
  "get_session_authorization client_id b = eb_session_authorizations b client_id"

definition add_session_blocked :: "string \<Rightarrow> string \<Rightarrow> string \<Rightarrow> external_bridge \<Rightarrow> external_bridge" where
  "add_session_blocked client_id client_name public_key b =
     b\<lparr>eb_session_blocked := (eb_session_blocked b)(client_id \<mapsto>
        \<lparr>sb_client_id = client_id, sb_client_name = client_name, sb_public_key = public_key\<rparr>)\<rparr>"

definition remove_session_blocked :: "string \<Rightarrow> external_bridge \<Rightarrow> external_bridge" where
  "remove_session_blocked client_id b = b\<lparr>eb_session_blocked := (eb_session_blocked b)(client_id := None)\<rparr>"

definition is_session_blocked :: "string \<Rightarrow> external_bridge \<Rightarrow> bool" where
  "is_session_blocked client_id b \<longleftrightarrow> eb_session_blocked b client_id \<noteq> None"

text \<open>The listener is bound after the port, the key and the shutdown channel were stored.\<close>

definition start_bridge :: "bridge_crypto \<Rightarrow> bytes \<Rightarrow> nat option \<Rightarrow> string option \<Rightarrow> external_bridge
    \<Rightarrow> (bridge_error, unit) result \<times> external_bridge" where
  "start_bridge bc secret port bind_error b =
     (if eb_running b then (Inl BeAlreadyRunning, b)
      else let b1 = b\<lparr>eb_current_port := (case port of Some p \<Rightarrow> p | None \<Rightarrow> DEFAULT_BRIDGE_PORT),
                      eb_server_keypair := Some (generate_key_pair bc secret), eb_shutdown_tx := True\<rparr> in
        (case bind_error of
           Some e \<Rightarrow> (Inl (BeIo e), b1)
         | None \<Rightarrow> (Inr (), b1\<lparr>eb_server_task := True, eb_running := True\<rparr>)))"

definition stop_bridge :: "external_bridge \<Rightarrow> (bridge_error, unit) result \<times> external_bridge" where
  "stop_bridge b =
     (if \<not> eb_running b then (Inl BeNotRunning, b)
      else (Inr (), b\<lparr>eb_shutdown_tx := False, eb_server_task := False, eb_clients := Map.empty, eb_running := False\<rparr>))"

text \<open>Messages go to the channel of a connection; nobody learns whether it still has a reader.\<close>

definition deny_pending_request :: "string \<Rightarrow> external_bridge \<Rightarrow> (nat \<times> protocol_message) list \<times> external_bridge" where
  "deny_pending_request client_id b =
     ((case eb_clients b client_id of Some c \<Rightarrow> [(cc_tx c, PmAuthorizationUpdate False)] | None \<Rightarrow> []),
      b\<lparr>eb_pending_authorizations := (eb_pending_authorizations b)(client_id := None)\<rparr>)"

definition notify_authorization_granted :: "string \<Rightarrow> string \<Rightarrow> external_bridge \<Rightarrow> (nat \<times> protocol_message) list \<times> external_bridge" where
  "notify_authorization_granted client_id extension_id b =
     (case eb_clients b client_id of
        Some c \<Rightarrow> ([(cc_tx c, PmAuthorizationUpdate True)],
          b\<lparr>eb_clients := (eb_clients b)(client_id \<mapsto> c\<lparr>cc_authorized := True, cc_extension_id := Some extension_id\<rparr>),
            eb_pending_authorizations := (eb_pending_authorizations b)(client_id := None)\<rparr>)
      | None \<Rightarrow> ([], b\<lparr>eb_pending_authorizations := (eb_pending_authorizations b)(client_id := None)\<rparr>))"


section \<open>Connections\<close>

record routed_request =
  rq_request_id :: string
  rq_action :: string
  rq_payload :: json
  rq_client_public_key :: string
  rq_client_id :: string
  rq_extension_public_key :: string
  rq_extension_name :: string
  rq_extension_id :: string
  rq_is_core :: bool

text \<open>A connection reads messages, loads the extension of an admitted request, or waits for the answer.\<close>

datatype conn_phase = Reading | Loading routed_request | Awaiting routed_request nat

record bridge_conn =
  bn_client_id :: "string option"
  bn_public_key :: "string option"
  bn_server_public_key :: string
  bn_phase :: conn_phase

definition new_connection :: "bridge_crypto \<Rightarrow> external_bridge \<Rightarrow> bridge_conn" where
  "new_connection bc b = \<lparr>bn_client_id = None, bn_public_key = None,
     bn_server_public_key = (case eb_server_keypair b of Some kp \<Rightarrow> public_key_base64 bc kp | None \<Rightarrow> []), bn_phase = Reading\<rparr>"

definition handshake_answer :: "bridge_conn \<Rightarrow> bool \<Rightarrow> bool \<Rightarrow> protocol_message" where
  "handshake_answer conn authorized pending = PmHandshakeResponse \<lparr>hp_version = BRIDGE_PROTOCOL_VERSION,
     hp_server_public_key = bn_server_public_key conn, hp_authorized = authorized, hp_pending_approval = pending\<rparr>"

definition client_entry :: "client_info \<Rightarrow> bool \<Rightarrow> string option \<Rightarrow> nat \<Rightarrow> connected_client" where
  "client_entry client authorized ext_id tx = \<lparr>cc_client_id = ci_client_id client, cc_client_name = ci_client_name client,
     cc_public_key = ci_public_key client, cc_authorized = authorized, cc_extension_id = ext_id, cc_tx = tx\<rparr>"

text \<open>The second component tells whether the connection stays open.\<close>

definition handle_handshake ::
  "bridge_env \<Rightarrow> nat \<Rightarrow> handshake_request \<Rightarrow> bridge_conn \<Rightarrow> bridge_world \<Rightarrow> protocol_message \<times> bool \<times> bridge_conn \<times> bridge_world" where
  "handle_handshake env tx handshake conn w =
     (let client = hr_client handshake; cid = ci_client_id client; b = bw_bridge w;
          named = conn\<lparr>bn_client_id := Some cid\<rparr>; keyed = named\<lparr>bn_public_key := Some (ci_public_key client)\<rparr> in
      if check_client_blocked env (bw_db w) cid \<or> is_session_blocked cid b then (handshake_answer conn False False, False, named, w)
      else let db_authorized = check_client_authorized env (bw_db w) cid; session_auth = get_session_authorization cid b;
               ext_id = (if db_authorized then get_client_extension env (bw_db w) cid else map_option sa_extension_id session_auth) in
        if db_authorized \<or> session_auth \<noteq> None then
          (handshake_answer conn True False, True, keyed,
           w\<lparr>bw_bridge := b\<lparr>eb_clients := (eb_clients b)(cid \<mapsto> client_entry client True ext_id tx)\<rparr>,
             bw_db := (if db_authorized then (case update_client_last_seen env cid (bw_db w) of Inr db \<Rightarrow> db | Inl _ \<Rightarrow> bw_db w) else bw_db w)\<rparr>)
        else
          let pending = \<lparr>pa_client_id = cid, pa_client_name = ci_client_name client, pa_public_key = ci_public_key client,
                         pa_requested_extensions = ci_requested_extensions client\<rparr>;
              w1 = w\<lparr>bw_bridge := b\<lparr>eb_clients := (eb_clients b)(cid \<mapsto> client_entry client False None tx),
                                       eb_pending_authorizations := (eb_pending_authorizations b)(cid \<mapsto> pending)\<rparr>\<rparr> in
          (handshake_answer conn False True, True, keyed,
           if eb_pending_authorizations b cid = None \<and> be_emit_error env ''main'' = None then emit (EvAuthorizationRequest pending) w1 else w1))"

definition connection_authorized :: "external_bridge \<Rightarrow> bridge_conn \<Rightarrow> bool" where
  "connection_authorized b conn =
     (case bn_client_id conn of
        None \<Rightarrow> False
      | Some cid \<Rightarrow> (case eb_clients b cid of Some c \<Rightarrow> cc_authorized c | None \<Rightarrow> False) \<or> eb_session_authorizations b cid \<noteq> None)"

definition json_get :: "string \<Rightarrow> json \<Rightarrow> json option" where
  "json_get k j = (case j of JObject kvs \<Rightarrow> map_of kvs k | _ \<Rightarrow> None)"

definition failure_json :: "string \<Rightarrow> string \<Rightarrow> json" where
  "failure_json request_id message = JObject [(''requestId'', JString request_id), (''success'', JBool False), (''error'', JString message)]"

text \<open>The checks of a request, up to the point where its extension is loaded.\<close>

definition admit_request ::
  "bridge_env \<Rightarrow> bridge_world \<Rightarrow> string \<Rightarrow> json \<Rightarrow> string \<Rightarrow> string option \<Rightarrow> string option \<Rightarrow> string \<Rightarrow> (json, routed_request) result" where
  "admit_request env w action payload client_public_key extension_public_key extension_name client_id =
     (case map_option json_as_str (json_get ''requestId'' payload) of
        Some (Some request_id) \<Rightarrow>
          if request_id = [] then Inl (JObject [(''success'', JBool False), (''error'', JString ''Missing required field: requestId'')])
          else (case (extension_public_key, extension_name) of
            (Some pk, Some name) \<Rightarrow>
              if pk = [] \<or> name = [] then Inl (failure_json request_id ''Missing required fields: extensionPublicKey and extensionName'')
              else let is_core = (pk = CORE_EXTENSION_ID \<and> name = CORE_EXTENSION_NAME) in
                (case (if is_core then Some CORE_EXTENSION_ID else get_extension_id_by_public_key_and_name env (bw_db w) pk name) of
                   None \<Rightarrow> Inl (failure_json request_id ''Extension not found'')
                 | Some extension_id \<Rightarrow>
                     let db_authorized = (if is_core then check_client_authorized_for_core env (bw_db w) client_id
                                          else check_client_authorized_for_extension env (bw_db w) client_id pk name);
                         session_authorized = (case get_session_authorization client_id (bw_bridge w) of
                                                 Some sa \<Rightarrow> sa_extension_id sa = extension_id | None \<Rightarrow> False) in
                     if \<not> db_authorized \<and> \<not> session_authorized then
                       Inl (failure_json request_id (if is_core then ''Client not authorized for core access''
                                                     else ''Client not authorized for this extension''))
                     else Inr \<lparr>rq_request_id = request_id, rq_action = action, rq_payload = payload, rq_client_public_key = client_public_key,
                               rq_client_id = client_id, rq_extension_public_key = pk, rq_extension_name = name,
                               rq_extension_id = extension_id, rq_is_core = is_core\<rparr>)
          | _ \<Rightarrow> Inl (failure_json request_id ''Missing required fields: extensionPublicKey and extensionName''))
      | _ \<Rightarrow> Inl (JObject [(''success'', JBool False), (''error'', JString ''Missing required field: requestId'')]))"

definition has_window_for_extension :: "bridge_env \<Rightarrow> string \<Rightarrow> bool" where
  "has_window_for_extension env extension_id =
     (case be_windows env of Some ws \<Rightarrow> list_ex (\<lambda>(_, e). e = extension_id) ws | None \<Rightarrow> False)"

text \<open>The wait for the ready signal ends after 30 seconds and does not fail the call; its entry stays
  behind when the start request cannot be emitted.\<close>

definition ensure_extension_loaded :: "bridge_env \<Rightarrow> string \<Rightarrow> bridge_world \<Rightarrow> (string, unit) result \<times> bridge_world" where
  "ensure_extension_loaded env extension_id w =
     (if has_window_for_extension env extension_id then (Inr (), w)
      else (case be_emit_error env ''main'' of
              Some e \<Rightarrow> (Inl (''Failed to emit auto-start request: '' @ e),
                on_bridge (\<lambda>b. b\<lparr>eb_extension_ready_signals := (eb_extension_ready_signals b)(extension_id := True)\<rparr>) w)
            | None \<Rightarrow> (Inr (), emit (EvAutoStart extension_id)
                (on_bridge (\<lambda>b. b\<lparr>eb_extension_ready_signals := (eb_extension_ready_signals b)(extension_id := False)\<rparr>) w))))"

definition emit_to_all_extension_windows :: "bridge_env \<Rightarrow> string \<Rightarrow> json \<Rightarrow> bridge_world \<Rightarrow> (string, bool) result \<times> bridge_world" where
  "emit_to_all_extension_windows env extension_id payload w =
     (case be_windows env of
        None \<Rightarrow> (Inl ''poisoned lock'', w)
      | Some ws \<Rightarrow>
          (let ids = map fst (filter (\<lambda>(_, e). e = extension_id) ws); reached = filter (\<lambda>l. be_emit_error env l = None) ids in
           if ids = [] then (Inr False, w)
           else if reached = [] then (Inl ''all emit_to calls failed'', w)
           else (Inr True, fold (\<lambda>l. emit (EvExternalRequest (ToWindow l) payload)) reached w)))"

definition external_request :: "routed_request \<Rightarrow> json" where
  "external_request rq = JObject [(''requestId'', JString (rq_request_id rq)), (''publicKey'', JString (rq_client_public_key rq)),
     (''action'', JString (rq_action rq)), (''payload'', rq_payload rq), (''extensionPublicKey'', JString (rq_extension_public_key rq)),
     (''extensionName'', JString (rq_extension_name rq))]"

definition emit_main :: "bridge_env \<Rightarrow> bridge_event \<Rightarrow> bridge_world \<Rightarrow> bool \<times> bridge_world" where
  "emit_main env ev w = (if be_emit_error env ''main'' = None then (True, emit ev w) else (False, w))"

definition emit_request :: "bridge_env \<Rightarrow> routed_request \<Rightarrow> bridge_world \<Rightarrow> bool \<times> bridge_world" where
  "emit_request env rq w =
     (if rq_is_core rq then emit_main env (EvCoreRequest (external_request rq)) w
      else (case emit_to_all_extension_windows env (rq_extension_id rq) (external_request rq) w of
              (Inr True, w') \<Rightarrow> (True, w')
            | (_, w') \<Rightarrow> emit_main env (EvExternalRequest ToMain (external_request rq)) w'))"

text \<open>Loading and routing; the answer is due to the request number \<open>waiter\<close>.\<close>

definition route_request :: "bridge_env \<Rightarrow> nat \<Rightarrow> routed_request \<Rightarrow> bridge_world \<Rightarrow> (json, unit) result \<times> bridge_world" where
  "route_request env waiter rq w =
     (case (if rq_is_core rq then (Inr (), w) else ensure_extension_loaded env (rq_extension_id rq) w) of
        (Inl e, w1) \<Rightarrow> (Inl (failure_json (rq_request_id rq) (''Failed to load extension: '' @ e)), w1)
      | (Inr _, w1) \<Rightarrow>
          (case emit_request env rq
                  (on_bridge (\<lambda>b. b\<lparr>eb_pending_responses := (eb_pending_responses b)(rq_request_id rq \<mapsto> waiter)\<rparr>) w1) of
             (True, w2) \<Rightarrow> (Inr (), w2)
           | (False, w2) \<Rightarrow>
               (Inl (failure_json (rq_request_id rq) ''Failed to route request to extension''),
                on_bridge (\<lambda>b. b\<lparr>eb_pending_responses := (eb_pending_responses b)(rq_request_id rq := None)\<rparr>) w2)))"

text \<open>The answer of a request, encrypted for the key the client named in its handshake.\<close>

definition send_answer :: "bridge_crypto \<Rightarrow> bytes \<Rightarrow> bytes \<Rightarrow> bridge_conn \<Rightarrow> string \<Rightarrow> json \<Rightarrow> protocol_message list" where
  "send_answer bc secret iv conn action response =
     (case bn_public_key conn of
        None \<Rightarrow> []
      | Some client_pk \<Rightarrow>
          (case create_encrypted_response bc secret iv action response client_pk of
             Inr envelope \<Rightarrow> [PmResponse envelope]
           | Inl _ \<Rightarrow> [PmError ''ENCRYPTION_ERROR'' ''Failed to encrypt response'']))"

text \<open>The first part of a request: what is refused is answered at once.\<close>

definition begin_request ::
  "bridge_env \<Rightarrow> bytes \<Rightarrow> bytes \<Rightarrow> encrypted_envelope \<Rightarrow> bridge_conn \<Rightarrow> bridge_world \<Rightarrow> protocol_message list \<times> bridge_conn" where
  "begin_request env secret iv envelope conn w =
     (if \<not> connection_authorized (bw_bridge w) conn then ([PmError ''UNAUTHORIZED'' ''Client not authorized''], conn)
      else (case eb_server_keypair (bw_bridge w) of
              None \<Rightarrow> ([PmError ''SERVER_ERROR'' ''Server keypair not available''], conn)
            | Some kp \<Rightarrow>
                (case envelope_decrypt (be_crypto env) kp envelope of
                   Inl _ \<Rightarrow> ([PmError ''DECRYPTION_ERROR'' ''Failed to decrypt request''], conn)
                 | Inr payload \<Rightarrow>
                     (case admit_request env w (ee_action envelope) payload (case bn_public_key conn of Some k \<Rightarrow> k | None \<Rightarrow> [])
                             (ee_extension_public_key envelope) (ee_extension_name envelope)
                             (case bn_client_id conn of Some c \<Rightarrow> c | None \<Rightarrow> []) of
                        Inl response \<Rightarrow> (send_answer (be_crypto env) secret iv conn (ee_action envelope) response, conn)
                      | Inr rq \<Rightarrow> ([], conn\<lparr>bn_phase := Loading rq\<rparr>)))))"

datatype ws_message = WsText string | WsBinary | WsPing bytes | WsPong | WsClose | WsFrame | WsReadError string

datatype ws_sent = SentMessage protocol_message | SentPong bytes

datatype conn_fate = StaysOpen | Closes | Panics

text \<open>A string slice ends at a character boundary or panics; the log preview cuts at byte 200.\<close>

definition is_char_boundary :: "string \<Rightarrow> nat \<Rightarrow> bool" where
  "is_char_boundary s n \<longleftrightarrow> n = 0 \<or> n = length s \<or> n < length s \<and> \<not> (128 \<le> (of_char (s ! n) :: nat) \<and> (of_char (s ! n) :: nat) < 192)"

definition handle_protocol_message ::
  "bridge_env \<Rightarrow> bytes \<Rightarrow> bytes \<Rightarrow> nat \<Rightarrow> protocol_message \<Rightarrow> bridge_conn \<Rightarrow> bridge_world \<Rightarrow> conn_fate \<times> ws_sent list \<times> bridge_conn \<times> bridge_world" where
  "handle_protocol_message env secret iv tx m conn w =
     (case m of
        PmHandshake handshake \<Rightarrow>
          (case handle_handshake env tx handshake conn w of
             (answer, open, conn', w') \<Rightarrow> (if open then StaysOpen else Closes, [SentMessage answer], conn', w'))
      | PmRequest envelope \<Rightarrow>
          (case begin_request env secret iv envelope conn w of (ms, conn') \<Rightarrow> (StaysOpen, map SentMessage ms, conn', w))
      | PmPing \<Rightarrow> (StaysOpen, [SentMessage PmPong], conn, w)
      | _ \<Rightarrow> (StaysOpen, [], conn, w))"

definition handle_ws_message ::
  "bridge_env \<Rightarrow> bytes \<Rightarrow> bytes \<Rightarrow> nat \<Rightarrow> ws_message \<Rightarrow> bridge_conn \<Rightarrow> bridge_world \<Rightarrow> conn_fate \<times> ws_sent list \<times> bridge_conn \<times> bridge_world" where
  "handle_ws_message env secret iv tx msg conn w =
     (case msg of
        WsText t \<Rightarrow>
          if 200 < length t \<and> \<not> is_char_boundary t 200 then (Panics, [], conn, w)
          else (case and_then (be_parse env t) message_from_json of
                  Inl e \<Rightarrow> (StaysOpen, [SentMessage (PmError ''PARSE_ERROR'' e)], conn, w)
                | Inr m \<Rightarrow> handle_protocol_message env secret iv tx m conn w)
      | WsPing d \<Rightarrow> (StaysOpen, [SentPong d], conn, w)
      | WsClose \<Rightarrow> (Closes, [], conn, w)
      | WsReadError _ \<Rightarrow> (Closes, [], conn, w)
      | _ \<Rightarrow> (StaysOpen, [], conn, w))"

text \<open>The end of the message loop.  It is not reached when a send fails or the handler panics.\<close>

definition cleanup_connection :: "bridge_conn \<Rightarrow> bridge_world \<Rightarrow> bridge_world" where
  "cleanup_connection conn w =
     (case bn_client_id conn of
        Some cid \<Rightarrow> on_bridge (\<lambda>b. b\<lparr>eb_clients := (eb_clients b)(cid := None)\<rparr>) w
      | None \<Rightarrow> w)"


section \<open>Commands\<close>

definition client_row :: "authorized_client \<Rightarrow> json list" where
  "client_row a = [JString (ac_id a), JString (ac_client_id a), JString (ac_client_name a), JString (ac_public_key a),
     JString (ac_extension_id a), opt_json JString (ac_authorized_at a), opt_json JString (ac_last_seen a)]"

definition parse_authorized_client :: "json list \<Rightarrow> authorized_client option" where
  "parse_authorized_client row =
     (case row of
        JString i # JString c # JString n # JString k # JString e # at # seen # _ \<Rightarrow>
          Some \<lparr>ac_id = i, ac_client_id = c, ac_client_name = n, ac_public_key = k, ac_extension_id = e,
                ac_authorized_at = json_as_str at, ac_last_seen = json_as_str seen\<rparr>
      | _ \<Rightarrow> None)"

definition blocked_row :: "blocked_client \<Rightarrow> json list" where
  "blocked_row b = [JString (bl_id b), JString (bl_client_id b), JString (bl_client_name b), JString (bl_public_key b),
     opt_json JString (bl_blocked_at b)]"

definition parse_blocked_client :: "json list \<Rightarrow> blocked_client option" where
  "parse_blocked_client row =
     (case row of
        JString i # JString c # JString n # JString k # at # _ \<Rightarrow>
          Some \<lparr>bl_id = i, bl_client_id = c, bl_client_name = n, bl_public_key = k, bl_blocked_at = json_as_str at\<rparr>
      | _ \<Rightarrow> None)"

text \<open>\<open>ORDER BY ... DESC\<close> puts \<open>NULL\<close> last; \<open>newer\<close> compares two texts as SQLite does.\<close>

definition desc :: "(string \<Rightarrow> string \<Rightarrow> ordering) \<Rightarrow> ('a \<Rightarrow> string option) \<Rightarrow> 'a \<Rightarrow> 'a \<Rightarrow> ordering" where
  "desc newer key a b =
     (case (key a, key b) of
        (Some x, Some y) \<Rightarrow> newer y x | (Some _, None) \<Rightarrow> Less | (None, Some _) \<Rightarrow> Greater | (None, None) \<Rightarrow> Equal)"

definition external_bridge_get_authorized_clients ::
  "bridge_env \<Rightarrow> (string \<Rightarrow> string \<Rightarrow> ordering) \<Rightarrow> bridge_db \<Rightarrow> (string, authorized_client list) result" where
  "external_bridge_get_authorized_clients env newer db =
     and_then (sql_check env QAllClients (map client_row (sort_by (desc newer ac_authorized_at) (bd_authorized db))))
       (\<lambda>rows. Inr (List.map_filter parse_authorized_client rows))"

definition external_bridge_get_blocked_clients ::
  "bridge_env \<Rightarrow> (string \<Rightarrow> string \<Rightarrow> ordering) \<Rightarrow> bridge_db \<Rightarrow> (string, blocked_client list) result" where
  "external_bridge_get_blocked_clients env newer db =
     and_then (sql_check env QAllBlocked (map blocked_row (sort_by (desc newer bl_blocked_at) (bd_blocked db))))
       (\<lambda>rows. Inr (List.map_filter parse_blocked_client rows))"

definition bridge_result :: "(bridge_error, 'a) result \<Rightarrow> (string, 'a) result" where
  "bridge_result r = (case r of Inl e \<Rightarrow> Inl (display_bridge_error e) | Inr x \<Rightarrow> Inr x)"

definition external_bridge_start ::
  "bridge_crypto \<Rightarrow> bytes \<Rightarrow> nat option \<Rightarrow> string option \<Rightarrow> external_bridge \<Rightarrow> (string, unit) result \<times> external_bridge" where
  "external_bridge_start bc secret port bind_error b =
     (if eb_running b then (Inr (), b)
      else (case start_bridge bc secret port bind_error b of (r, b') \<Rightarrow> (bridge_result r, b')))"

definition external_bridge_stop :: "external_bridge \<Rightarrow> (string, unit) result \<times> external_bridge" where
  "external_bridge_stop b = (case stop_bridge b of (r, b') \<Rightarrow> (bridge_result r, b'))"

definition external_bridge_revoke_session_authorization :: "string \<Rightarrow> external_bridge \<Rightarrow> external_bridge" where
  "external_bridge_revoke_session_authorization client_id b =
     b\<lparr>eb_session_authorizations := (eb_session_authorizations b)(client_id := None)\<rparr>"

definition external_bridge_unblock_session_client :: "string \<Rightarrow> external_bridge \<Rightarrow> external_bridge" where
  "external_bridge_unblock_session_client client_id b = remove_session_blocked client_id b"

definition external_bridge_revoke_client :: "bridge_env \<Rightarrow> string \<Rightarrow> bridge_world \<Rightarrow> (string, unit) result \<times> bridge_world" where
  "external_bridge_revoke_client env client_id w =
     (case sql_delete_client env client_id (bw_db w) of
        Inl e \<Rightarrow> (Inl e, w)
      | Inr db \<Rightarrow> (Inr (), emit EvDirtyTables (w\<lparr>bw_db := db\<rparr>)))"

definition external_bridge_deny_client :: "string \<Rightarrow> external_bridge \<Rightarrow> (nat \<times> protocol_message) list \<times> external_bridge" where
  "external_bridge_deny_client client_id b = deny_pending_request client_id b"

text \<open>The answer goes to the request that waits under its number.\<close>

definition external_bridge_respond ::
  "string \<Rightarrow> bool \<Rightarrow> json option \<Rightarrow> string option \<Rightarrow> external_bridge \<Rightarrow> (string, nat \<times> json) result \<times> external_bridge" where
  "external_bridge_respond request_id success data error b =
     (let response = JObject [(''requestId'', JString request_id), (''success'', JBool success), (''data'', opt_json (\<lambda>d. d) data),
                              (''error'', opt_json JString error)];
          b' = b\<lparr>eb_pending_responses := (eb_pending_responses b)(request_id := None)\<rparr> in
      (case eb_pending_responses b request_id of
         Some waiter \<Rightarrow> (Inr (waiter, response), b')
       | None \<Rightarrow> (Inl (''No pending request found with ID: '' @ request_id), b')))"

definition external_bridge_client_allow ::
  "bridge_env \<Rightarrow> string \<Rightarrow> string \<Rightarrow> string \<Rightarrow> string \<Rightarrow> string \<Rightarrow> bool \<Rightarrow> bridge_world
     \<Rightarrow> (string, (nat \<times> protocol_message) list) result \<times> bridge_world" where
  "external_bridge_client_allow env row_id client_id client_name public_key extension_id remember w =
     (case (if remember
            then map_sum (\<lambda>e. e) (\<lambda>db. emit EvDirtyTables (w\<lparr>bw_db := db\<rparr>))
                   (sql_insert_client env \<lparr>ac_id = row_id, ac_client_id = client_id, ac_client_name = client_name, ac_public_key = public_key,
                      ac_extension_id = extension_id, ac_authorized_at = Some (be_now env), ac_last_seen = None\<rparr> (bw_db w))
            else Inr (on_bridge (add_session_authorization client_id client_name public_key extension_id) w)) of
        Inl e \<Rightarrow> (Inl e, w)
      | Inr w1 \<Rightarrow>
          (case notify_authorization_granted client_id extension_id (bw_bridge w1) of
             (msgs, b) \<Rightarrow> (Inr msgs, w1\<lparr>bw_bridge := b\<rparr>)))"

definition external_bridge_client_block ::
  "bridge_env \<Rightarrow> string \<Rightarrow> string \<Rightarrow> string \<Rightarrow> string \<Rightarrow> bool \<Rightarrow> bridge_world
     \<Rightarrow> (string, (nat \<times> protocol_message) list) result \<times> bridge_world" where
  "external_bridge_client_block env row_id client_id client_name public_key remember w =
     (case (if remember
            then map_sum (\<lambda>e. e) (\<lambda>db. emit EvDirtyTables (w\<lparr>bw_db := db\<rparr>))
                   (sql_insert_blocked env \<lparr>bl_id = row_id, bl_client_id = client_id, bl_client_name = client_name,
                      bl_public_key = public_key, bl_blocked_at = Some (be_now env)\<rparr> (bw_db w))
            else Inr w) of
        Inl e \<Rightarrow> (Inl e, w)
      | Inr w1 \<Rightarrow>
          (case deny_pending_request client_id (bw_bridge w1) of (msgs, b) \<Rightarrow> (Inr msgs, w1\<lparr>bw_bridge := b\<rparr>)))"

definition external_bridge_unblock_client :: "bridge_env \<Rightarrow> string \<Rightarrow> bridge_world \<Rightarrow> (string, unit) result \<times> bridge_world" where
  "external_bridge_unblock_client env client_id w =
     (case sql_delete_blocked env client_id (bw_db w) of
        Inl e \<Rightarrow> (Inl e, w)
      | Inr db \<Rightarrow> (Inr (), emit EvDirtyTables (w\<lparr>bw_db := db\<rparr>)))"


section \<open>The running bridge\<close>

record bridge_system =
  bs_world :: bridge_world
  bs_conns :: "nat \<rightharpoonup> bridge_conn"
  bs_mail :: "nat \<rightharpoonup> json"
  bs_next :: nat

definition bridge_init :: "bridge_db \<Rightarrow> bridge_system" where
  "bridge_init db = \<lparr>bs_world = \<lparr>bw_bridge = new_bridge, bw_db = db, bw_events = []\<rparr>, bs_conns = Map.empty, bs_mail = Map.empty, bs_next = 0\<rparr>"

text \<open>The steps that matter to the user carry a label.\<close>

datatype bridge_label =
    Allowed string string bool
  | Revoked string
  | SessionRevoked string
  | ExtensionsKept "string list"
  | Admitted nat routed_request
  | Routed nat routed_request
  | Silent

text \<open>The connection after its handler has sent \<open>sent\<close>: without a writer it ends in an error, before its
  entry is cleaned up.\<close>

definition after_sending :: "bool \<Rightarrow> 'a list \<Rightarrow> bridge_conn \<Rightarrow> bridge_conn option" where
  "after_sending writer_gone sent conn = (if writer_gone \<and> sent \<noteq> [] then None else Some conn)"

definition message_conn :: "bool \<Rightarrow> conn_fate \<Rightarrow> ws_sent list \<Rightarrow> bridge_conn \<Rightarrow> bridge_conn option" where
  "message_conn writer_gone fate sent conn = (if fate = StaysOpen then after_sending writer_gone sent conn else None)"

definition message_world :: "bool \<Rightarrow> conn_fate \<Rightarrow> ws_sent list \<Rightarrow> bridge_conn \<Rightarrow> bridge_world \<Rightarrow> bridge_world" where
  "message_world writer_gone fate sent conn w =
     (if fate = Closes \<and> after_sending writer_gone sent conn \<noteq> None then cleanup_connection conn w else w)"

definition phase_label :: "nat \<Rightarrow> bridge_conn \<Rightarrow> bridge_label" where
  "phase_label i conn = (case bn_phase conn of Loading rq \<Rightarrow> Admitted i rq | _ \<Rightarrow> Silent)"

definition distinct_extensions :: "bridge_extension list \<Rightarrow> bool" where
  "distinct_extensions xs \<longleftrightarrow> distinct (map bx_id xs) \<and> distinct (map (\<lambda>x. (bx_public_key x, bx_name x)) xs)"

abbreviation answered :: "bridge_crypto \<Rightarrow> bool \<Rightarrow> bytes \<Rightarrow> bytes \<Rightarrow> bridge_conn \<Rightarrow> routed_request \<Rightarrow> json \<Rightarrow> bridge_conn option" where
  "answered bc writer_gone secret iv conn rq response \<equiv>
     after_sending writer_gone (send_answer bc secret iv conn (rq_action rq) response) (conn\<lparr>bn_phase := Reading\<rparr>)"

inductive bridge_step :: "bridge_system \<Rightarrow> bridge_label \<Rightarrow> bridge_system \<Rightarrow> bool" where
  accept: "eb_running (bw_bridge (bs_world s)) \<Longrightarrow> bs_conns s i = None \<Longrightarrow>
    bridge_step s Silent (s\<lparr>bs_conns := (bs_conns s)(i \<mapsto> new_connection bc (bw_bridge (bs_world s)))\<rparr>)"
| message: "bs_conns s i = Some conn \<Longrightarrow> bn_phase conn = Reading \<Longrightarrow>
    handle_ws_message env secret iv i msg conn (bs_world s) = (fate, sent, conn', w) \<Longrightarrow>
    bridge_step s (phase_label i conn')
      (s\<lparr>bs_world := message_world writer_gone fate sent conn' w, bs_conns := (bs_conns s)(i := message_conn writer_gone fate sent conn')\<rparr>)"
| route: "bs_conns s i = Some conn \<Longrightarrow> bn_phase conn = Loading rq \<Longrightarrow> route_request env (bs_next s) rq (bs_world s) = (Inr (), w) \<Longrightarrow>
    bridge_step s (Routed i rq)
      (s\<lparr>bs_world := w, bs_conns := (bs_conns s)(i \<mapsto> conn\<lparr>bn_phase := Awaiting rq (bs_next s)\<rparr>), bs_next := Suc (bs_next s)\<rparr>)"
| route_fails: "bs_conns s i = Some conn \<Longrightarrow> bn_phase conn = Loading rq \<Longrightarrow> route_request env (bs_next s) rq (bs_world s) = (Inl response, w) \<Longrightarrow>
    bridge_step s Silent (s\<lparr>bs_world := w, bs_conns := (bs_conns s)(i := answered bc writer_gone secret iv conn rq response), bs_next := Suc (bs_next s)\<rparr>)"
| answer: "bs_conns s i = Some conn \<Longrightarrow> bn_phase conn = Awaiting rq n \<Longrightarrow> bs_mail s n = Some response \<Longrightarrow>
    bridge_step s Silent (s\<lparr>bs_conns := (bs_conns s)(i := answered bc writer_gone secret iv conn rq response)\<rparr>)"
| dropped: "bs_conns s i = Some conn \<Longrightarrow> bn_phase conn = Awaiting rq n \<Longrightarrow> bs_mail s n = None \<Longrightarrow>
    eb_pending_responses (bw_bridge (bs_world s)) (rq_request_id rq) \<noteq> Some n \<Longrightarrow>
    response = failure_json (rq_request_id rq) ''Extension did not respond'' \<Longrightarrow>
    bridge_step s Silent (s\<lparr>bs_conns := (bs_conns s)(i := answered bc writer_gone secret iv conn rq response)\<rparr>)"
| timeout: "bs_conns s i = Some conn \<Longrightarrow> bn_phase conn = Awaiting rq n \<Longrightarrow>
    response = failure_json (rq_request_id rq) ''Request timeout'' \<Longrightarrow>
    bridge_step s Silent
      (s\<lparr>bs_world := on_bridge (\<lambda>b. b\<lparr>eb_pending_responses := (eb_pending_responses b)(rq_request_id rq := None)\<rparr>) (bs_world s),
         bs_conns := (bs_conns s)(i := answered bc writer_gone secret iv conn rq response)\<rparr>)"
| respond: "external_bridge_respond request_id success data error (bw_bridge (bs_world s)) = (r, b) \<Longrightarrow>
    bridge_step s Silent (s\<lparr>bs_world := (bs_world s)\<lparr>bw_bridge := b\<rparr>,
      bs_mail := (case r of Inr (n, response) \<Rightarrow> (bs_mail s)(n \<mapsto> response) | Inl _ \<Rightarrow> bs_mail s)\<rparr>)"
| allow: "external_bridge_client_allow env row_id cid name key ext remember (bs_world s) = (r, w) \<Longrightarrow>
    bridge_step s (case r of Inr _ \<Rightarrow> Allowed cid ext remember | Inl _ \<Rightarrow> Silent) (s\<lparr>bs_world := w\<rparr>)"
| block: "external_bridge_client_block env row_id cid name key remember (bs_world s) = (r, w) \<Longrightarrow> bridge_step s Silent (s\<lparr>bs_world := w\<rparr>)"
| unblock: "external_bridge_unblock_client env cid (bs_world s) = (r, w) \<Longrightarrow> bridge_step s Silent (s\<lparr>bs_world := w\<rparr>)"
| revoke: "external_bridge_revoke_client env cid (bs_world s) = (r, w) \<Longrightarrow>
    bridge_step s (case r of Inr _ \<Rightarrow> Revoked cid | Inl _ \<Rightarrow> Silent) (s\<lparr>bs_world := w\<rparr>)"
| revoke_session: "bridge_step s (SessionRevoked cid) (s\<lparr>bs_world := on_bridge (external_bridge_revoke_session_authorization cid) (bs_world s)\<rparr>)"
| unblock_session: "bridge_step s Silent (s\<lparr>bs_world := on_bridge (external_bridge_unblock_session_client cid) (bs_world s)\<rparr>)"
| deny: "bridge_step s Silent (s\<lparr>bs_world := on_bridge (\<lambda>b. snd (external_bridge_deny_client cid b)) (bs_world s)\<rparr>)"
| start: "bridge_step s Silent (s\<lparr>bs_world := on_bridge (\<lambda>b. snd (external_bridge_start bc secret port bind_error b)) (bs_world s)\<rparr>)"
| stop: "bridge_step s Silent (s\<lparr>bs_world := on_bridge (\<lambda>b. snd (external_bridge_stop b)) (bs_world s)\<rparr>)"
| extensions: "distinct_extensions xs \<Longrightarrow>
    bridge_step s (ExtensionsKept (map bx_id xs))
      (s\<lparr>bs_world := (bs_world s)\<lparr>bw_db := (bw_db (bs_world s))\<lparr>bd_extensions := xs,
           bd_authorized := filter (\<lambda>a. ac_extension_id a \<in> bx_id ` set xs) (bd_authorized (bw_db (bs_world s)))\<rparr>\<rparr>\<rparr>)"

inductive bridge_run :: "bridge_system \<Rightarrow> bridge_label list \<Rightarrow> bridge_system \<Rightarrow> bool" where
  run_Nil: "bridge_run s [] s"
| run_snoc: "bridge_run s ls s' \<Longrightarrow> bridge_step s' l s'' \<Longrightarrow> bridge_run s (ls @ [l]) s''"


section \<open>Grants\<close>

text \<open>The abstract state the user sees: which client may reach which extension, for good or for this
  session, and how the labelled steps change it.\<close>

type_synonym grants = "(string \<times> string \<times> bool) set"

definition grants_of :: "bridge_world \<Rightarrow> grants" where
  "grants_of w = (\<lambda>a. (ac_client_id a, ac_extension_id a, True)) ` set (bd_authorized (bw_db w)) \<union>
     {(c, sa_extension_id sa, False) | c sa. eb_session_authorizations (bw_bridge w) c = Some sa}"

fun grant_step :: "bridge_label \<Rightarrow> grants \<Rightarrow> grants" where
  "grant_step (Allowed c e remember) G =
     (if remember then insert (c, e, True) G else insert (c, e, False) {(c', e', r) \<in> G. c' = c \<longrightarrow> r})"
| "grant_step (Revoked c) G = {(c', e, r) \<in> G. c' = c \<longrightarrow> \<not> r}"
| "grant_step (SessionRevoked c) G = {(c', e, r) \<in> G. c' = c \<longrightarrow> r}"
| "grant_step (ExtensionsKept ids) G = {(c, e, r) \<in> G. r \<longrightarrow> e \<in> set ids}"
| "grant_step _ G = G"

text \<open>Most operations leave grants and extensions alone.\<close>

definition keeps_grants :: "bridge_world \<Rightarrow> bridge_world \<Rightarrow> bool" where
  "keeps_grants w w' \<longleftrightarrow> grants_of w' = grants_of w \<and> bd_extensions (bw_db w') = bd_extensions (bw_db w)"

lemma keeps_grants_refl [simp]: "keeps_grants w w"
  by (simp add: keeps_grants_def)

lemma keeps_grants_trans: "keeps_grants w w1 \<Longrightarrow> keeps_grants w1 w2 \<Longrightarrow> keeps_grants w w2"
  by (simp add: keeps_grants_def)

lemma keeps_emit [simp]: "keeps_grants w (emit ev w') \<longleftrightarrow> keeps_grants w w'"
  by (simp add: keeps_grants_def grants_of_def emit_def)

lemma keeps_bridge [simp]:
  "(\<And>b. eb_session_authorizations (f b) = eb_session_authorizations b) \<Longrightarrow> keeps_grants w (on_bridge f w') \<longleftrightarrow> keeps_grants w w'"
  by (simp add: keeps_grants_def grants_of_def on_bridge_def)

lemma keeps_fold_emit: "keeps_grants w w' \<Longrightarrow> keeps_grants w (fold (\<lambda>l. emit (ev l)) ls w')"
  by (induction ls arbitrary: w') auto

lemma cleanup_keeps: "keeps_grants w (cleanup_connection conn w)"
  by (auto simp: cleanup_connection_def split: option.splits)

lemma emit_request_keeps: "keeps_grants w (snd (emit_request env rq w))"
proof -
  have "keeps_grants w (snd (emit_to_all_extension_windows env e p w))" for e p
    by (auto simp: emit_to_all_extension_windows_def Let_def split: option.splits intro: keeps_fold_emit)
  then show ?thesis
    by (auto simp: emit_request_def emit_main_def split: prod.splits sum.splits bool.splits) (metis snd_conv)+
qed

lemma route_keeps:
  assumes "route_request env n rq w = (r, w')"
  shows "keeps_grants w w'"
proof -
  have load: "keeps_grants w (snd (ensure_extension_loaded env e w))" for e
    by (auto simp: ensure_extension_loaded_def split: option.splits)
  define w1 where "w1 = snd (if rq_is_core rq then (Inr () :: (string, unit) result, w) else ensure_extension_loaded env (rq_extension_id rq) w)"
  have 1: "keeps_grants w w1" unfolding w1_def using load by simp
  let ?reg = "on_bridge (\<lambda>b. b\<lparr>eb_pending_responses := (eb_pending_responses b)(rq_request_id rq \<mapsto> n)\<rparr>) w1"
  let ?un = "\<lambda>w. on_bridge (\<lambda>b. b\<lparr>eb_pending_responses := (eb_pending_responses b)(rq_request_id rq := None)\<rparr>) w"
  have 2: "keeps_grants w (snd (emit_request env rq ?reg))"
    using emit_request_keeps [of ?reg env rq] 1 by (auto elim: keeps_grants_trans [rotated])
  have "w' = w1 \<or> w' = snd (emit_request env rq ?reg) \<or> w' = ?un (snd (emit_request env rq ?reg))"
    using assms by (auto simp: route_request_def w1_def split: prod.splits sum.splits bool.splits if_splits)
  then show ?thesis using 1 2 by auto
qed

lemma last_seen_keeps:
  assumes "update_client_last_seen env cid db = Inr db'"
  shows "(\<lambda>a. (ac_client_id a, ac_extension_id a, True)) ` set (bd_authorized db') =
      (\<lambda>a. (ac_client_id a, ac_extension_id a, True)) ` set (bd_authorized db)" "bd_extensions db' = bd_extensions db"
proof -
  define f :: "authorized_client \<Rightarrow> authorized_client" where "f = (\<lambda>a. if ac_client_id a = cid then a\<lparr>ac_last_seen := Some (be_now env)\<rparr> else a)"
  have db': "db' = db\<lparr>bd_authorized := map f (bd_authorized db)\<rparr>"
    using assms by (simp add: update_client_last_seen_def f_def split: option.splits)
  have "ac_client_id (f a) = ac_client_id a" "ac_extension_id (f a) = ac_extension_id a" for a by (simp_all add: f_def)
  then show "(\<lambda>a. (ac_client_id a, ac_extension_id a, True)) ` set (bd_authorized db') =
      (\<lambda>a. (ac_client_id a, ac_extension_id a, True)) ` set (bd_authorized db)"
    by (simp add: db' image_image)
  show "bd_extensions db' = bd_extensions db" by (simp add: db')
qed

lemma handshake_keeps:
  assumes "handle_handshake env tx h conn w = (m, open, conn', w')"
  shows "keeps_grants w w'" "bn_phase conn' = bn_phase conn"
proof -
  show "keeps_grants w w'"
  proof (cases "update_client_last_seen env (ci_client_id (hr_client h)) (bw_db w)")
    case (Inr db)
    note seen = last_seen_keeps [OF Inr]
    show ?thesis using assms
      by (clarsimp simp: handle_handshake_def Let_def Inr keeps_grants_def grants_of_def emit_def seen split: if_splits)
  qed (use assms in \<open>auto simp: handle_handshake_def Let_def keeps_grants_def grants_of_def emit_def split: if_splits\<close>)
  show "bn_phase conn' = bn_phase conn"
    using assms by (auto simp: handle_handshake_def Let_def split: if_splits)
qed

lemma admit_granted:
  assumes "admit_request env w action payload pk epk ename cid = Inr rq" "distinct_extensions (bd_extensions (bw_db w))"
  shows "rq_client_id rq = cid \<and> (\<exists>r. (cid, rq_extension_id rq, r) \<in> grants_of w)"
proof -
  define db where "db = bw_db w"
  have ext: "x = y" if "x \<in> set (bd_extensions db)" "y \<in> set (bd_extensions db)" "bx_public_key x = bx_public_key y" "bx_name x = bx_name y" for x y
    using assms(2) that inj_onD [of "\<lambda>x. (bx_public_key x, bx_name x)" "set (bd_extensions db)" x y]
    by (auto simp: distinct_extensions_def distinct_map db_def)
  have found: "(cid, e, True) \<in> grants_of w"
    if g: "get_extension_id_by_public_key_and_name env db k n = Some e" and c: "check_client_authorized_for_extension env db cid k n" for k n e
  proof -
    obtain x where x: "x \<in> set (bd_extensions db)" "bx_public_key x = k" "bx_name x = n" "e = bx_id x"
      using g by (auto simp: get_extension_id_by_public_key_and_name_def find_Some_iff split: if_splits) (metis nth_mem)
    obtain a y where a: "a \<in> set (bd_authorized db)" "ac_client_id a = cid" "y \<in> set (bd_extensions db)" "bx_id y = ac_extension_id a"
        "bx_public_key y = k" "bx_name y = n"
      using c by (auto simp: check_client_authorized_for_extension_def list_ex_iff)
    have "y = x" using ext x a by simp
    then show ?thesis using x a unfolding grants_of_def db_def by force
  qed
  have core: "(cid, CORE_EXTENSION_ID, True) \<in> grants_of w" if "check_client_authorized_for_core env db cid"
    using that by (force simp: check_client_authorized_for_core_def grants_of_def list_ex_iff db_def)
  have session: "(cid, sa_extension_id sa, False) \<in> grants_of w" if "get_session_authorization cid (bw_bridge w) = Some sa" for sa
    using that by (auto simp: get_session_authorization_def grants_of_def)
  show ?thesis
    using assms(1)
    by (auto simp: admit_request_def Let_def db_def split: option.splits if_splits)
      (metis found core session db_def)+
qed

lemma message_keeps:
  assumes "handle_ws_message env secret iv i msg conn w = (fate, sent, conn', w')" "bn_phase conn = Reading"
    and "distinct_extensions (bd_extensions (bw_db w))"
  shows "keeps_grants w w'"
    "bn_phase conn' = Loading rq \<Longrightarrow> \<exists>r. (rq_client_id rq, rq_extension_id rq, r) \<in> grants_of w"
    "bn_phase conn' = Loading rq \<Longrightarrow> sent = [] \<and> fate = StaysOpen"
    "bn_phase conn' = Awaiting rq n \<Longrightarrow> False"
proof -
  have pm: "(\<exists>h m. handle_handshake env i h conn w = (m, fate = StaysOpen, conn', w')) \<or>
      (\<exists>e ms. begin_request env secret iv e conn w = (ms, conn') \<and> w' = w \<and> sent = map SentMessage ms \<and> fate = StaysOpen) \<or> conn' = conn \<and> w' = w"
    if "handle_protocol_message env secret iv i m conn w = (fate, sent, conn', w')" for m
    using that by (cases m) (force simp: handle_protocol_message_def split: prod.splits if_splits)+
  consider (shake) h m where "handle_handshake env i h conn w = (m, fate = StaysOpen, conn', w')"
    | (request) e ms where "begin_request env secret iv e conn w = (ms, conn')" "w' = w" "sent = map SentMessage ms" "fate = StaysOpen"
    | (other) "conn' = conn" "w' = w"
  proof (cases "\<exists>m. handle_protocol_message env secret iv i m conn w = (fate, sent, conn', w')")
    case True
    then show ?thesis using pm that by blast
  next
    case False
    then have "conn' = conn \<and> w' = w"
      using assms(1) by (cases msg) (auto simp: handle_ws_message_def split: if_splits sum.splits)
    then show ?thesis using that by blast
  qed
  note cases = this
  show "keeps_grants w w'" using cases by cases (auto dest: handshake_keeps)
  show "\<exists>r. (rq_client_id rq, rq_extension_id rq, r) \<in> grants_of w" if l: "bn_phase conn' = Loading rq"
    using cases
  proof cases
    case request
    then show ?thesis using l assms(2) admit_granted [OF _ assms(3)]
      by (fastforce simp: begin_request_def split: if_splits option.splits sum.splits)
  qed (use l assms(2) handshake_keeps in auto)
  show "sent = [] \<and> fate = StaysOpen" if l: "bn_phase conn' = Loading rq"
    using cases
  proof cases
    case request
    then show ?thesis using l assms(2) by (auto simp: begin_request_def split: if_splits option.splits sum.splits)
  qed (use l assms(2) handshake_keeps in auto)
  show False if l: "bn_phase conn' = Awaiting rq n"
    using cases
  proof cases
    case request
    then show ?thesis using l assms(2) by (auto simp: begin_request_def split: if_splits option.splits sum.splits)
  qed (use l assms(2) handshake_keeps in auto)
qed


section \<open>Runs\<close>

lemma insert_client_rows:
  "sql_insert_client env a db = Inr db' \<Longrightarrow> db' = db\<lparr>bd_authorized := bd_authorized db @ [a]\<rparr>"
  by (auto simp: sql_insert_client_def and_then_Inr_iff split: if_splits)

lemma allow_grants:
  assumes "external_bridge_client_allow env row cid name key ext remember w = (r, w')"
  shows "grants_of w' = (case r of Inr _ \<Rightarrow> grant_step (Allowed cid ext remember) (grants_of w) | Inl _ \<Rightarrow> grants_of w)"
    "bd_extensions (bw_db w') = bd_extensions (bw_db w)"
proof -
  have notified: "eb_session_authorizations (snd (notify_authorization_granted cid ext b)) = eb_session_authorizations b" for b
    by (simp add: notify_authorization_granted_def split: option.splits)
  show "grants_of w' = (case r of Inr _ \<Rightarrow> grant_step (Allowed cid ext remember) (grants_of w) | Inl _ \<Rightarrow> grants_of w)"
  proof (cases remember)
    case True
    let ?a = "\<lparr>ac_id = row, ac_client_id = cid, ac_client_name = name, ac_public_key = key, ac_extension_id = ext,
      ac_authorized_at = Some (be_now env), ac_last_seen = None\<rparr>"
    show ?thesis
    proof (cases "sql_insert_client env ?a (bw_db w)")
      case (Inr db)
      then show ?thesis using assms True notified
        by (auto simp: external_bridge_client_allow_def insert_client_rows [OF Inr] grants_of_def emit_def split_beta)
    qed (use assms True in \<open>auto simp: external_bridge_client_allow_def\<close>)
  next
    case False
    have "grants_of (w1\<lparr>bw_bridge := b\<rparr>) = grant_step (Allowed cid ext False) (grants_of w)"
      if "w1 = on_bridge (add_session_authorization cid name key ext) w" "eb_session_authorizations b = eb_session_authorizations (bw_bridge w1)" for w1 b
      using that by (auto simp: grants_of_def on_bridge_def add_session_authorization_def split: if_splits)
    then show ?thesis using assms False notified by (auto simp: external_bridge_client_allow_def split_beta)
  qed
  show "bd_extensions (bw_db w') = bd_extensions (bw_db w)"
    using assms by (cases "sql_insert_client env \<lparr>ac_id = row, ac_client_id = cid, ac_client_name = name, ac_public_key = key,
        ac_extension_id = ext, ac_authorized_at = Some (be_now env), ac_last_seen = None\<rparr> (bw_db w)")
      (auto simp: external_bridge_client_allow_def emit_def on_bridge_def split: if_splits prod.splits dest: insert_client_rows)
qed

lemma command_keeps:
  "external_bridge_client_block env row cid name key remember w = (r, w') \<Longrightarrow> keeps_grants w w'"
  "external_bridge_unblock_client env cid w = (r2, w') \<Longrightarrow> keeps_grants w w'"
  "external_bridge_respond rid success data error (bw_bridge w) = (r3, b) \<Longrightarrow> keeps_grants w (w\<lparr>bw_bridge := b\<rparr>)"
  by (auto simp: external_bridge_client_block_def sql_insert_blocked_def and_then_Inr_iff deny_pending_request_def keeps_grants_def
      grants_of_def emit_def external_bridge_unblock_client_def sql_delete_blocked_def sql_check_def external_bridge_respond_def Let_def
      split: sum.splits if_splits prod.splits option.splits)

lemma bridge_command_keeps [simp]:
  "eb_session_authorizations (snd (external_bridge_deny_client cid b)) = eb_session_authorizations b"
  "eb_session_authorizations (snd (external_bridge_start bc secret port e b)) = eb_session_authorizations b"
  "eb_session_authorizations (snd (external_bridge_stop b)) = eb_session_authorizations b"
  "eb_session_authorizations (external_bridge_unblock_session_client cid b) = eb_session_authorizations b"
  by (auto simp: external_bridge_deny_client_def deny_pending_request_def external_bridge_start_def start_bridge_def
      external_bridge_stop_def stop_bridge_def external_bridge_unblock_session_client_def remove_session_blocked_def Let_def
      split: option.splits prod.splits if_splits)

lemma revoke_grants:
  assumes "external_bridge_revoke_client env cid w = (r, w')"
  shows "grants_of w' = (case r of Inr _ \<Rightarrow> grant_step (Revoked cid) (grants_of w) | Inl _ \<Rightarrow> grants_of w)"
    "bd_extensions (bw_db w') = bd_extensions (bw_db w)"
  using assms by (auto simp: external_bridge_revoke_client_def sql_delete_client_def sql_check_def grants_of_def emit_def split: option.splits sum.splits)

lemma message_world_keeps: "keeps_grants w w' \<Longrightarrow> keeps_grants w (message_world g fate sent conn w')"
  using cleanup_keeps [of w' conn] by (auto simp: message_world_def elim: keeps_grants_trans)


abbreviation extensions_of :: "bridge_system \<Rightarrow> bridge_extension list" where
  "extensions_of s \<equiv> bd_extensions (bw_db (bs_world s))"

lemma step_keeps: "keeps_grants (bs_world s) w \<Longrightarrow> distinct_extensions (extensions_of s) \<Longrightarrow>
    grants_of w = grant_step Silent (grants_of (bs_world s)) \<and> distinct_extensions (bd_extensions (bw_db w))"
  by (simp add: keeps_grants_def)

lemma phase_label_simps [simp]: "grant_step (phase_label i conn) G = G"
  by (simp add: phase_label_def split: conn_phase.splits)

lemma step_grants:
  assumes "bridge_step s l s'" "distinct_extensions (extensions_of s)"
  shows "grants_of (bs_world s') = grant_step l (grants_of (bs_world s)) \<and> distinct_extensions (extensions_of s')"
  using assms(1)
proof cases
  case (message i conn env secret iv msg fate sent conn' w g)
  have "keeps_grants (bs_world s) w" by (rule message_keeps(1) [OF message(5,4) assms(2)])
  then show ?thesis using step_keeps [OF message_world_keeps assms(2)] message by simp
next
  case (route i conn rq env w)
  then show ?thesis using step_keeps [OF route_keeps assms(2)] by simp
next
  case (route_fails i conn rq env response w)
  then show ?thesis using step_keeps [OF route_keeps assms(2)] by simp
next
  case (timeout i conn rq n response)
  have "keeps_grants (bs_world s) (bs_world s')" unfolding timeout by simp
  from step_keeps [OF this assms(2)] show ?thesis using timeout(1) by simp
next
  case (respond rid success data error r b)
  then show ?thesis using step_keeps [OF command_keeps(3) assms(2)] by simp
next
  case (allow env row cid name key ext remember r w)
  then show ?thesis using allow_grants [OF allow(3)] assms(2) by (cases r) simp_all
next
  case (block env row cid name key remember r w)
  then show ?thesis using step_keeps [OF command_keeps(1) assms(2)] by simp
next
  case (unblock env cid r w)
  then show ?thesis using step_keeps [OF command_keeps(2) assms(2)] by simp
next
  case (revoke env cid r w)
  then show ?thesis using revoke_grants [OF revoke(3)] assms(2) by (cases r) simp_all
next
  case (revoke_session cid)
  then show ?thesis using assms(2)
    by (auto simp: grants_of_def on_bridge_def external_bridge_revoke_session_authorization_def split: if_splits)
next
  case (unblock_session cid)
  have "keeps_grants (bs_world s) (bs_world s')" unfolding unblock_session by simp
  from step_keeps [OF this assms(2)] show ?thesis using unblock_session(1) by simp
next
  case (deny cid)
  have "keeps_grants (bs_world s) (bs_world s')" unfolding deny by simp
  from step_keeps [OF this assms(2)] show ?thesis using deny(1) by simp
next
  case (start bc secret port e)
  have "keeps_grants (bs_world s) (bs_world s')" unfolding start by simp
  from step_keeps [OF this assms(2)] show ?thesis using start(1) by simp
next
  case stop
  have "keeps_grants (bs_world s) (bs_world s')" unfolding stop by simp
  from step_keeps [OF this assms(2)] show ?thesis using stop(1) by simp
next
  case (extensions xs)
  then show ?thesis by (auto simp: grants_of_def)
qed (use assms(2) in simp_all)

lemma step_admits:
  assumes "bridge_step s (Admitted i rq) s'" "distinct_extensions (extensions_of s)"
  shows "\<exists>r. (rq_client_id rq, rq_extension_id rq, r) \<in> grants_of (bs_world s)"
  using assms(1)
proof cases
  case (message j conn env secret iv msg fate sent conn' w g)
  then have "bn_phase conn' = Loading rq" by (simp add: phase_label_def split: conn_phase.splits)
  then show ?thesis using message_keeps(2) [OF message(5,4) assms(2)] by blast
qed (auto split: sum.splits)

lemma step_routed: "bridge_step s (Routed i rq) s' \<Longrightarrow> \<exists>c. bs_conns s i = Some c \<and> bn_phase c = Loading rq"
  by (erule bridge_step.cases) (auto simp: phase_label_def split: sum.splits conn_phase.splits)

lemma step_loading:
  assumes "bridge_step s l s'" "bs_conns s' i = Some c" "bn_phase c = Loading rq"
  shows "(\<exists>c0. bs_conns s i = Some c0 \<and> bn_phase c0 = Loading rq) \<or> l = Admitted i rq"
  using assms
  by (cases rule: bridge_step.cases)
     (auto simp: phase_label_def message_conn_def after_sending_def new_connection_def split: if_splits conn_phase.splits)

text \<open>A run from the start follows the abstract grants, and a loading request was admitted before.\<close>

definition initial_grants :: "bridge_db \<Rightarrow> grants" where
  "initial_grants db = (\<lambda>a. (ac_client_id a, ac_extension_id a, True)) ` set (bd_authorized db)"

lemma run_grants:
  assumes "bridge_run (bridge_init db) ls s" "distinct_extensions (bd_extensions db)"
  shows "grants_of (bs_world s) = fold grant_step ls (initial_grants db) \<and> distinct_extensions (extensions_of s)"
  using assms
proof (induction "bridge_init db" ls s rule: bridge_run.induct)
  case run_Nil
  then show ?case by (simp add: bridge_init_def new_bridge_def grants_of_def initial_grants_def)
next
  case (run_snoc ls s' l s'')
  then show ?case using step_grants [OF run_snoc(3)] by simp
qed

lemma run_loading:
  assumes "bridge_run (bridge_init db) ls s" "bs_conns s i = Some c" "bn_phase c = Loading rq"
  shows "Admitted i rq \<in> set ls"
  using assms
proof (induction "bridge_init db" ls s arbitrary: c rule: bridge_run.induct)
  case run_Nil
  then show ?case by (simp add: bridge_init_def)
next
  case (run_snoc ls s' l s'')
  then show ?case using step_loading [OF run_snoc(3,4,5)] by auto
qed

lemma run_prefix:
  assumes "bridge_run s (xs @ ys) s'"
  obtains t where "bridge_run s xs t"
  using assms
proof (induction ys arbitrary: s' thesis rule: rev_induct)
  case (snoc y ys)
  from snoc(3) obtain t where "bridge_run s (xs @ ys) t" by cases auto
  then show ?case using snoc(1,2) by blast
qed simp

lemma run_last:
  assumes "bridge_run s (xs @ [l]) s'"
  obtains t where "bridge_run s xs t" "bridge_step t l s'"
  using assms by cases auto



section \<open>A sample run\<close>

definition wit_crypto :: bridge_crypto where
  "wit_crypto = \<lparr>bc_b64_encode = (\<lambda>_. ''x''),
     bc_b64_decode = (\<lambda>s. Inr (replicate (if s = ''key'' then 32 else 12) 0)),
     bc_public = (\<lambda>_. replicate 32 0), bc_dh = (\<lambda>_ _. []), bc_seal = (\<lambda>_ _ p. Inr p), bc_open = (\<lambda>_ _ c. Inr c),
     bc_json_to_vec = (\<lambda>_. Inr []), bc_json_from_slice = (\<lambda>_. Inr (JObject [(''requestId'', JString ''r1'')]))\<rparr>"

definition wit_envelope :: encrypted_envelope where
  "wit_envelope = \<lparr>ee_action = ''get'', ee_message = ''m'', ee_iv = ''iv'', ee_client_id = ''c1'', ee_public_key = ''key'',
     ee_extension_public_key = Some ''pk'', ee_extension_name = Some ''pass''\<rparr>"

definition wit_handshake :: handshake_request where
  "wit_handshake = \<lparr>hr_version = 1, hr_client = \<lparr>ci_client_id = ''c1'', ci_client_name = ''browser'', ci_public_key = ''key'',
     ci_requested_extensions = []\<rparr>\<rparr>"

definition wit_benv :: bridge_env where
  "wit_benv = \<lparr>be_crypto = wit_crypto,
     be_parse = (\<lambda>t. Inr (message_to_json (if t = ''h'' then PmHandshake wit_handshake else PmRequest wit_envelope))),
     be_query_error = (\<lambda>_. None), be_now = ''now'', be_windows = Some [(''w1'', ''e1'')], be_emit_error = (\<lambda>_. None)\<rparr>"

definition wit_bdb :: bridge_db where
  "wit_bdb = \<lparr>bd_authorized = [\<lparr>ac_id = ''a1'', ac_client_id = ''c1'', ac_client_name = ''browser'', ac_public_key = ''key'',
     ac_extension_id = ''e1'', ac_authorized_at = None, ac_last_seen = None\<rparr>], bd_blocked = [],
     bd_extensions = [\<lparr>bx_id = ''e1'', bx_public_key = ''pk'', bx_name = ''pass''\<rparr>]\<rparr>"

definition wit_rq :: routed_request where
  "wit_rq = \<lparr>rq_request_id = ''r1'', rq_action = ''get'', rq_payload = JObject [(''requestId'', JString ''r1'')], rq_client_public_key = ''key'',
     rq_client_id = ''c1'', rq_extension_public_key = ''pk'', rq_extension_name = ''pass'', rq_extension_id = ''e1'', rq_is_core = False\<rparr>"

definition wit_started :: bridge_system where
  "wit_started = (bridge_init wit_bdb)\<lparr>bs_world := on_bridge (\<lambda>b. snd (external_bridge_start wit_crypto [] None None b)) (bs_world (bridge_init wit_bdb))\<rparr>"

definition wit_accepted :: bridge_system where
  "wit_accepted = wit_started\<lparr>bs_conns := (bs_conns wit_started)(0 \<mapsto> new_connection wit_crypto (bw_bridge (bs_world wit_started)))\<rparr>"

definition wit_receive :: "string \<Rightarrow> bridge_system \<Rightarrow> bridge_conn \<Rightarrow> bridge_conn \<times> bridge_system" where
  "wit_receive t s conn = (case handle_ws_message wit_benv [] [] 0 (WsText t) conn (bs_world s) of
     (fate, sent, conn', w) \<Rightarrow> (conn', s\<lparr>bs_world := message_world False fate sent conn' w,
        bs_conns := (bs_conns s)(0 := message_conn False fate sent conn')\<rparr>))"

lemma wit_receive_step:
  assumes "bs_conns s 0 = Some conn" "bn_phase conn = Reading"
  shows "bridge_step s (phase_label 0 (fst (wit_receive t s conn))) (snd (wit_receive t s conn))"
proof -
  obtain fate sent conn' w where m: "handle_ws_message wit_benv [] [] 0 (WsText t) conn (bs_world s) = (fate, sent, conn', w)"
    by (metis prod_cases4)
  show ?thesis using bridge_step.message [OF assms m, of False] by (simp add: wit_receive_def m)
qed

definition wit_conn :: "nat \<Rightarrow> bridge_conn" where
  "wit_conn n = \<lparr>bn_client_id = (if n = 0 then None else Some ''c1''), bn_public_key = (if n = 0 then None else Some ''key''),
     bn_server_public_key = ''x'', bn_phase = (if n = 3 then Loading wit_rq else Reading)\<rparr>"

definition wit_known :: bridge_system where "wit_known = snd (wit_receive ''h'' wit_accepted (wit_conn 0))"
definition wit_admitted :: bridge_system where "wit_admitted = snd (wit_receive ''r'' wit_known (wit_conn 2))"

lemma wit_parsed:
  "and_then (be_parse wit_benv ''h'') message_from_json = Inr (PmHandshake wit_handshake)"
  "and_then (be_parse wit_benv ''r'') message_from_json = Inr (PmRequest wit_envelope)"
  using message_round_trip_bridge [of "PmHandshake wit_handshake"] message_round_trip_bridge [of "PmRequest wit_envelope"]
  by (simp_all add: wit_benv_def wit_handshake_def)

lemma wit_start_conns:
  "eb_running (bw_bridge (bs_world wit_started))" "bs_conns wit_started 0 = None" "bs_conns wit_accepted 0 = Some (wit_conn 0)"
  "bw_db (bs_world wit_accepted) = wit_bdb" "bw_bridge (bs_world wit_accepted) = bw_bridge (bs_world wit_started)"
  "eb_server_keypair (bw_bridge (bs_world wit_started)) = Some (generate_key_pair wit_crypto [])"
  "eb_session_blocked (bw_bridge (bs_world wit_started)) = Map.empty"
  by (simp_all add: wit_accepted_def wit_started_def bridge_init_def on_bridge_def external_bridge_start_def start_bridge_def new_bridge_def Let_def
      new_connection_def public_key_base64_def wit_crypto_def wit_conn_def)

lemma wit_shaken:
  "handle_ws_message wit_benv [] [] 0 (WsText ''h'') (wit_conn 0) (bs_world wit_accepted) =
     (StaysOpen, [SentMessage (handshake_answer (wit_conn 0) True False)], wit_conn 2,
      (bs_world wit_accepted)\<lparr>bw_bridge := (bw_bridge (bs_world wit_started))\<lparr>eb_clients := (eb_clients (bw_bridge (bs_world wit_started)))
          (''c1'' \<mapsto> client_entry (hr_client wit_handshake) True (Some ''e1'') 0)\<rparr>,
        bw_db := wit_bdb\<lparr>bd_authorized := map (\<lambda>a. a\<lparr>ac_last_seen := Some ''now''\<rparr>) (bd_authorized wit_bdb)\<rparr>\<rparr>)"
  unfolding handle_ws_message_def
  by (simp add: wit_parsed handle_protocol_message_def handle_handshake_def wit_start_conns)
     (simp add: wit_handshake_def wit_benv_def wit_bdb_def check_client_blocked_def is_session_blocked_def wit_start_conns
      check_client_authorized_def get_client_extension_def update_client_last_seen_def wit_conn_def Let_def)

lemma wit_conn_id: "bn_client_id (wit_conn 2) = Some ''c1''"
  by (simp add: wit_conn_def)

lemma wit_known_conns:
  "fst (wit_receive ''h'' wit_accepted (wit_conn 0)) = wit_conn 2" "bs_conns wit_known 0 = Some (wit_conn 2)"
  "connection_authorized (bw_bridge (bs_world wit_known)) (wit_conn 2)"
  "eb_server_keypair (bw_bridge (bs_world wit_known)) = Some (generate_key_pair wit_crypto [])"
  "bw_db (bs_world wit_known) = wit_bdb\<lparr>bd_authorized := map (\<lambda>a. a\<lparr>ac_last_seen := Some ''now''\<rparr>) (bd_authorized wit_bdb)\<rparr>"
  by (simp_all add: wit_known_def wit_receive_def wit_shaken message_world_def message_conn_def after_sending_def connection_authorized_def
      wit_conn_id client_entry_def wit_start_conns)

lemma wit_decrypted: "envelope_decrypt wit_crypto kp wit_envelope = Inr (JObject [(''requestId'', JString ''r1'')])"
  by (simp add: envelope_decrypt_def wit_crypto_def wit_envelope_def import_public_key_def crypto_err_def check_length_def decrypt_message_def
      X25519_PUBLIC_KEY_LENGTH_def IV_LENGTH_def)

lemma wit_requested:
  "handle_ws_message wit_benv [] [] 0 (WsText ''r'') (wit_conn 2) (bs_world wit_known) = (StaysOpen, [], wit_conn 3, bs_world wit_known)"
proof -
  have "be_crypto wit_benv = wit_crypto" by (simp add: wit_benv_def)
  moreover have "admit_request wit_benv (bs_world wit_known) ''get'' (JObject [(''requestId'', JString ''r1'')]) ''key'' (Some ''pk'') (Some ''pass'') ''c1'' = Inr wit_rq"
    by (simp add: admit_request_def json_get_def CORE_EXTENSION_ID_def CORE_EXTENSION_NAME_def wit_known_conns
        get_extension_id_by_public_key_and_name_def check_client_authorized_for_extension_def wit_benv_def wit_bdb_def wit_rq_def)
  moreover have "wit_conn 2\<lparr>bn_phase := Loading wit_rq\<rparr> = wit_conn 3" "bn_public_key (wit_conn 2) = Some ''key''" "bn_client_id (wit_conn 2) = Some ''c1''"
    by (simp_all add: wit_conn_def)
  ultimately show ?thesis unfolding handle_ws_message_def
    by (simp add: wit_parsed handle_protocol_message_def begin_request_def wit_known_conns wit_decrypted)
       (simp add: wit_envelope_def)
qed

lemma wit_admitted_conns:
  "fst (wit_receive ''r'' wit_known (wit_conn 2)) = wit_conn 3" "bs_conns wit_admitted 0 = Some (wit_conn 3)"
  "fst (route_request wit_benv n wit_rq w) = Inr ()"
proof -
  show "fst (wit_receive ''r'' wit_known (wit_conn 2)) = wit_conn 3" "bs_conns wit_admitted 0 = Some (wit_conn 3)"
    by (simp_all add: wit_admitted_def wit_receive_def wit_requested message_conn_def after_sending_def)
  show "fst (route_request wit_benv n wit_rq w) = Inr ()"
    by (simp add: wit_rq_def route_request_def ensure_extension_loaded_def has_window_for_extension_def wit_benv_def emit_request_def
        emit_to_all_extension_windows_def)
qed

lemma wit_bridge_run: "\<exists>s. bridge_run (bridge_init wit_bdb) ([Silent, Silent, Silent, Admitted 0 wit_rq] @ Routed 0 wit_rq # []) s"
proof -
  have "bridge_run (bridge_init wit_bdb) ([] @ [Silent]) wit_started"
    unfolding wit_started_def by (rule run_snoc [OF run_Nil bridge_step.start])
  from run_snoc [OF this bridge_step.accept [OF wit_start_conns(1,2), of wit_crypto]]
  have "bridge_run (bridge_init wit_bdb) [Silent, Silent] wit_accepted" by (simp add: wit_accepted_def)
  from run_snoc [OF this wit_receive_step [OF wit_start_conns(3), of "''h''"]]
  have "bridge_run (bridge_init wit_bdb) [Silent, Silent, Silent] wit_known"
    unfolding wit_known_conns(1) wit_known_def [symmetric] by (simp add: phase_label_def wit_conn_def)
  from run_snoc [OF this wit_receive_step [OF wit_known_conns(2), of "''r''"]]
  have run: "bridge_run (bridge_init wit_bdb) [Silent, Silent, Silent, Admitted 0 wit_rq] wit_admitted"
    unfolding wit_admitted_conns(1) wit_admitted_def [symmetric] by (simp add: phase_label_def wit_conn_def)
  obtain w where "route_request wit_benv (bs_next wit_admitted) wit_rq (bs_world wit_admitted) = (Inr (), w)"
    using wit_admitted_conns(3) by (metis prod.collapse)
  from run_snoc [OF run bridge_step.route [OF wit_admitted_conns(2) _ this]] show ?thesis by (auto simp: wit_conn_def)
qed



section \<open>Where the code falls short\<close>

text \<open>A client is known by the id it names; its key is neither compared with the stored one nor used
  to prove anything, and the answers are encrypted for it.\<close>

lemma any_key_accepted:
  assumes "check_client_authorized env (bw_db w) (ci_client_id c)"
    and "\<not> check_client_blocked env (bw_db w) (ci_client_id c)" "\<not> is_session_blocked (ci_client_id c) (bw_bridge w)"
  shows "\<exists>conn' w'. handle_handshake env tx \<lparr>hr_version = v, hr_client = c\<lparr>ci_public_key := k\<rparr>\<rparr> conn w =
    (handshake_answer conn True False, True, conn', w') \<and> bn_public_key conn' = Some k \<and>
    (\<exists>e. eb_clients (bw_bridge w') (ci_client_id c) = Some e \<and> cc_authorized e)"
  using assms by (auto simp: handle_handshake_def Let_def client_entry_def)

text \<open>Blocking a client for good neither takes its grants away nor closes its connection.\<close>

lemma block_keeps_connection:
  assumes "external_bridge_client_block env row cid name key remember w = (r, w')"
  shows "connection_authorized (bw_bridge w') conn = connection_authorized (bw_bridge w) conn" "grants_of w' = grants_of w"
proof -
  show "connection_authorized (bw_bridge w') conn = connection_authorized (bw_bridge w) conn"
    using assms by (cases "sql_insert_blocked env \<lparr>bl_id = row, bl_client_id = cid, bl_client_name = name,
        bl_public_key = key, bl_blocked_at = Some (be_now env)\<rparr> (bw_db w)")
      (auto simp: external_bridge_client_block_def deny_pending_request_def connection_authorized_def emit_def
        split: if_splits option.splits)
  show "grants_of w' = grants_of w" using command_keeps(1) [OF assms] by (simp add: keeps_grants_def)
qed

text \<open>A session grant outlives the server it was given for.\<close>

lemma stop_keeps_session_grants:
  "eb_session_authorizations (snd (stop_bridge b)) = eb_session_authorizations b"
  by (simp add: stop_bridge_def)

text \<open>Two clients that choose the same request id: the answer for the first goes to the second.\<close>

lemma response_misdelivered:
  assumes "route_request env 1 rq w = (Inr (), w1)" "route_request env' 2 rq' w1 = (Inr (), w2)" "rq_request_id rq' = rq_request_id rq"
  shows "\<exists>resp. fst (external_bridge_respond (rq_request_id rq) success data error (bw_bridge w2)) = Inr (2, resp)"
proof -
  have emitted: "bw_bridge (snd (emit_request env rq w)) = bw_bridge w" for env rq w
  proof -
    have "bw_bridge (fold (\<lambda>l. emit (ev l)) ls w) = bw_bridge w" for ev :: "string \<Rightarrow> bridge_event" and ls w
      by (induction ls arbitrary: w) (auto simp: emit_def)
    then have "bw_bridge (snd (emit_to_all_extension_windows env e p w)) = bw_bridge w" for e p
      by (auto simp: emit_to_all_extension_windows_def Let_def split: option.splits)
    then show ?thesis
      by (auto simp: emit_request_def emit_main_def emit_def split: prod.splits sum.splits bool.splits) (metis snd_conv)+
  qed
  obtain v where v: "emit_request env' rq'
      (on_bridge (\<lambda>b. b\<lparr>eb_pending_responses := (eb_pending_responses b)(rq_request_id rq' \<mapsto> 2)\<rparr>) v) = (True, w2)"
    using assms(2) by (auto simp: route_request_def split: prod.splits sum.splits bool.splits if_splits)
  have "eb_pending_responses (bw_bridge w2) (rq_request_id rq') = Some 2"
    using emitted [of env' rq' "on_bridge (\<lambda>b. b\<lparr>eb_pending_responses := (eb_pending_responses b)(rq_request_id rq' \<mapsto> 2)\<rparr>) v"]
    unfolding v by (simp add: on_bridge_def)
  then show ?thesis using assms(3) by (simp add: external_bridge_respond_def Let_def)
qed

text \<open>A new client locks the clients and then the pending requests; a denial takes the two locks in
  the other order.\<close>

datatype bridge_lock = ClientsLock | PendingLock

definition handshake_locks :: "bridge_lock list" where "handshake_locks = [ClientsLock, PendingLock]"
definition deny_locks :: "bridge_lock list" where "deny_locks = [PendingLock, ClientsLock]"

inductive lock_step :: "(bridge_lock list \<times> bridge_lock list) list \<Rightarrow> (bridge_lock list \<times> bridge_lock list) list \<Rightarrow> bool" where
  acquire: "i < length ts \<Longrightarrow> ts ! i = (held, l # rest) \<Longrightarrow> list_all (\<lambda>t. l \<notin> set (fst t)) ts \<Longrightarrow> lock_step ts (ts[i := (l # held, rest)])"
| release: "i < length ts \<Longrightarrow> ts ! i = (held, []) \<Longrightarrow> held \<noteq> [] \<Longrightarrow> lock_step ts (ts[i := ([], [])])"

lemma deny_deadlock:
  "lock_step\<^sup>*\<^sup>* [([], handshake_locks), ([], deny_locks)] [([ClientsLock], [PendingLock]), ([PendingLock], [ClientsLock])]"
  "\<not> lock_step [([ClientsLock], [PendingLock]), ([PendingLock], [ClientsLock])] ts"
proof -
  have "lock_step [([], handshake_locks), ([], deny_locks)] [([ClientsLock], [PendingLock]), ([], deny_locks)]"
    using lock_step.acquire [of 0 "[([], handshake_locks), ([], deny_locks)]" "[]" ClientsLock "[PendingLock]"]
    by (simp add: handshake_locks_def deny_locks_def)
  moreover have "lock_step [([ClientsLock], [PendingLock]), ([], deny_locks)] [([ClientsLock], [PendingLock]), ([PendingLock], [ClientsLock])]"
    using lock_step.acquire [of 1 "[([ClientsLock], [PendingLock]), ([], deny_locks)]" "[]" PendingLock "[ClientsLock]"]
    by (simp add: deny_locks_def)
  ultimately show "lock_step\<^sup>*\<^sup>* [([], handshake_locks), ([], deny_locks)] [([ClientsLock], [PendingLock]), ([PendingLock], [ClientsLock])]"
    by (meson r_into_rtranclp rtranclp_trans)
  show "\<not> lock_step [([ClientsLock], [PendingLock]), ([PendingLock], [ClientsLock])] ts"
    by (auto elim!: lock_step.cases simp: less_Suc_eq nth_Cons')
qed

end
