(* ===== verification/Spec2Isabelle.thy ===== *)
theory Spec2Isabelle
  imports CrdtTransform SqlTables FileSyncLocal FileSyncLoop SyncLoop ExtDatabase PeerClient PeerEndpoint ExternalBridge
begin

text \<open>
  Verification of the Rust core of haex-vault (\<open>src/src-tauri/src\<close>), a local-first vault: an
  encrypted SQLite database that devices and space members replicate, extensions that reach it
  only through permissions, and files that are synchronised between providers.

  \<^bold>\<open>Parts and how they interact.\<close>  Every synced table carries a row clock and per-column clocks.
  Local statements are rewritten and stamped (\<open>crdt/transformer\<close>, \<open>crdt/trigger.rs\<close>) with the
  hybrid clock (\<open>crdt/hlc.rs\<close>); the scanner (\<open>crdt/scanner.rs\<close>) exports the stamped columns; the
  apply pass (\<open>crdt/commands.rs\<close>) merges the columns of others.  Members of a space talk to its
  leader (\<open>space_delivery/local\<close>): a request passes the authorisation gate, which looks at the
  announced UCAN (\<open>ucan\<close>) and the membership tables; pushed changes pass the inbound-sync
  pipeline before the apply pass; MLS messages wait in the delivery buffer; invites bring new
  members in.  Extensions reach tables, paths, hosts and spaces through the permission manager
  (\<open>extension/permissions\<close>).  The sync engine (\<open>file_sync\<close>) mirrors directories under a retry loop.
  Peers serve each other shared folders (\<open>peer_storage\<close>): the endpoint accepts a connection after the
  DID handshake, and each stream carries one request that is checked against its UCAN.  Programs
  outside the vault reach extensions over the external bridge (\<open>external_bridge\<close>), once the user has
  allowed them.

  \<^bold>\<open>Theories and sources.\<close>
  \<^item> \<open>Prelude\<close>: results, JSON values, strings and decimal numbers, ordered insertion, and the
    generic lemmas; the collections \<open>res_simps\<close> and others carry the component proofs.
  \<^item> \<open>Hlc\<close>, \<open>HlcService\<close> (\<open>crdt/hlc.rs\<close>): timestamp texts, their numeric order, the clock service with
    its persisted timestamp; the \<open>uhlc\<close> crate is an argument with its laws.
  \<^item> \<open>CrdtDb\<close> (\<open>crdt/trigger.rs\<close>, \<open>crdt/commands.rs\<close>): tables, rows, clocks and schema set-up;
    \<open>CrdtApply\<close>: the apply pass (\<open>apply_remote_changes_to_db\<close> and what it calls);
    \<open>CrdtScanner\<close>: triggers and scanner; \<open>CrdtTransform\<close>: statement rewriting and cleanup.
  \<^item> \<open>PermTypes\<close>, \<open>PermSession\<close>, \<open>PathPattern\<close>, \<open>PermCheck\<close> (\<open>extension/permissions\<close>,
    \<open>extension/utils.rs\<close>): permissions, session decisions, path and URL patterns, all checks and
    commands; \<open>SqlTables\<close> (\<open>database/core.rs\<close>, \<open>validator.rs\<close>): table extraction and SQL checks.
  \<^item> \<open>FileSyncDiff\<close>, \<open>FileSyncEngine\<close>, \<open>PathValidation\<close>, \<open>FileSyncLocal\<close>, \<open>FileSyncLoop\<close>
    (\<open>file_sync\<close>, \<open>filesystem/path_validation.rs\<close>): planner, engine over two providers, the local
    provider, the retry loop.
  \<^item> \<open>Ucan\<close> (\<open>ucan\<close>): minting and validating tokens.  \<open>SpaceAuth\<close> (\<open>protocol.rs\<close>, \<open>ucan.rs\<close>,
    \<open>auth_gate.rs\<close>): requests, membership queries and the gate.  \<open>SpaceDb\<close>: the statement shapes of
    \<open>execute_with_crdt\<close>.  \<open>InboundSync\<close> (\<open>inbound_sync\<close>), \<open>DeliveryBuffer\<close> (\<open>buffer.rs\<close>),
    \<open>InviteTokens\<close>, \<open>PushInvite\<close> (files of the same names), and \<open>Leader\<close> (\<open>leader.rs\<close>): the state of a
    leader and \<open>handle_delivery_request\<close> with every arm.
  \<^item> \<open>DidAuth\<close> (\<open>quic_did_auth\<close>): the handshake that binds a connection to a DID, as functions on byte
    streams and as a protocol with a hostile network.  \<open>Election\<close> (\<open>discovery.rs\<close>, \<open>election.rs\<close>,
    \<open>push_cursor.rs\<close>): candidates, probes, the leader, stored cursors.  \<open>QuicRetry\<close> (\<open>quic_retry.rs\<close>):
    one request and its retries.  \<open>SyncLoop\<close> (\<open>peer.rs\<close>, \<open>sync_loop.rs\<close>): the member's session and its
    loop; its transport is a parameter that the theorems instantiate by \<open>handle_delivery_request\<close>.
  \<^item> \<open>Limits\<close> (\<open>extension/limits\<close>): quotas, concurrency counters with their guards, rate windows and
    the commands that change limits.  \<open>SqlText\<close> (\<open>extension/database/helpers.rs\<close>): scanners over SQL
    text.  \<open>ExtDatabase\<close> (\<open>extension/database\<close>): the query, execute and transaction commands of an
    extension, its migrations and the removal of its tables; they combine \<open>Limits\<close>, \<open>SqlTables\<close> and
    \<open>CrdtTransform\<close>.
  \<^item> \<open>PosixFs\<close>: the part of the standard library's file and path functions that the storage server calls,
    as a tree of inodes with symbolic links, path resolution and faults.  \<open>PeerProtocol\<close>
    (\<open>peer_storage/protocol.rs\<close>, \<open>streaming.rs\<close>): messages and the two transfer pipelines; \<open>PeerStorage\<close>
    (\<open>handlers.rs\<close>, \<open>helpers.rs\<close>, \<open>error.rs\<close>): the request handlers; \<open>PeerClient\<close> (\<open>client.rs\<close>): the other
    side; \<open>PeerEndpoint\<close> (\<open>endpoint.rs\<close>): shares, start and stop, connections as a transition system.
  \<^item> \<open>BridgeProtocol\<close> (\<open>external_bridge/crypto.rs\<close>, \<open>protocol.rs\<close>, \<open>error.rs\<close>): envelopes and messages of the
    bridge; \<open>ExternalBridge\<close> (\<open>server.rs\<close>, \<open>authorization.rs\<close>, \<open>mod.rs\<close>): the server, the commands of the user
    and their interleaving as labelled steps over an abstract set of grants.

  \<^bold>\<open>What the lemmas show.\<close>
  \<^item> Replication: merging implements a last-writer-wins register per column, converges for every
    delivery order, is idempotent, never moves a column clock back, and refuses unsafe batches;
    the clock stays ahead of what was persisted and received; deletes are honoured exactly when
    the row is not newer; scans report what was written, and only rows of their space.
  \<^item> Permissions: no access without a grant, isolation of extensions, exactness of directory
    patterns, of query checks on the covered SQL fragment and of the password scope.
  \<^item> File sync: a run without errors mirrors or exchanges, conflicts lose nothing, the retry loop
    backs off, pauses and recovers.
  \<^item> Spaces: tokens round-trip and are sound; the gate decides exactly; accepted pushes are
    confined to the space, the whitelisted tables, the author and the owner; a request that is
    not admitted leaves the leader's data alone; commits are kept until acknowledged; polling loses
    nothing; invites respect their limit and make members; pushed invites are authentic.
  \<^item> Members: an accepted connection belongs to a run of the DID's owner; devices that see each other
    elect one leader; a push that breaks off loses no change and a restart resumes it; a pull applies
    what the leader's scan exports; the message cursor passes nothing unprocessed but by a rejoin; an
    operation is retried twice at most.
  \<^item> Extension commands: slots are neither leaked nor overdrawn and rate windows bound what they
    admit; a query is read-only and bounded; a transaction is checked before it runs and runs as a
    whole; migrations are applied once, in order; the placeholder counter ends and is exact.
  \<^item> Shared folders: changes and reads need a token with the capability for the space and stay below the
    share; a write replaces its target by all of the announced bytes or not at all; every answer fits its
    request and is decoded to itself; only authenticated connections are served; a download in parallel
    parts is exact.
  \<^item> External bridge: a request reaches its target only after it was admitted under a grant of the user
    that was in force; tables and session map implement the grants; envelopes and messages round-trip.
  \<^item> Where the code does something else than it means, the lemma states what it does: a row clock
    that runs backwards, expressions the SQL check does not visit, constraints that are read back
    empty, self-issued capabilities, an invite that is not bound to its space, a query command that
    checks its first statement and runs its last, migrations outside the permission check, a pull cursor
    that skips late changes, a sender that waits for ever, a write that follows a link, and others.

  \<^bold>\<open>Conventions.\<close>  Code outside the repository is an argument (a record of functions) and what is
  relied on is a named hypothesis (\<open>uhlc_laws\<close>, \<open>codec_laws\<close>, \<open>signature_laws\<close>, \<open>crypto_laws\<close>,
  \<open>hash_order_ok\<close>), shown to hold for a concrete instance in the witnesses.  Iteration over hash
  maps takes the order as an argument.  Errors are values; a panic is an error value or an argument.
  Machine integers that can wrap are words; times of the sync loop are numbers of seconds.  Interfaces
  are locales: \<open>file_store\<close>, \<open>transfer_pair\<close> and \<open>sync_pair\<close> between the engine and its providers, \<open>polled_log\<close>
  between the buffer and a polling peer, \<open>slot_counter\<close> and \<open>fixed_window\<close> between the enforcers of limits
  and their counters; all are interpreted on the model.  No definition needs fuel: a loop of the source
  is structural, has a measure, or is a partial function with a proof that it returns
  (\<open>placeholder_count_ends\<close>), and loops that run for ever are step relations.

  \<^bold>\<open>Not modelled.\<close>  The QUIC transport, the connection handler of the leader and the commands of spaces;
  the installer and loader of extensions; the commands
  and the Android side of peer storage; remote storage; the openmls, IMAP and SMTP clients; encryption wrappers; database opening and migrations;
  the command layer and the frontend.  They are network, file and library calls around the modelled
  logic.
\<close>

end
